(* ===== verification/Fs_Prelude.thy ===== *)
theory Fs_Prelude
  imports Main "HOL-Library.Word"
begin

text \<open>
  Shared vocabulary of the development: the machine integers of the C sources, the error codes
  of \<^verbatim>\<open>ra8_err.h\<close>, the state-and-error monad in which every stateful operation of the driver
  is written, and the generic lemmas on lists, words and the monad that the components share.
\<close>

unbundle bit_operations_syntax

type_synonym u8 = "8 word"
type_synonym u16 = "16 word"
type_synonym u32 = "32 word"
type_synonym u64 = "64 word"
type_synonym bytes = "u8 list"

named_theorems monad_defs \<open>definitions of the state-and-error monad\<close>
named_theorems codec \<open>facts about the little-endian byte codec\<close>
named_theorems coherent_intros \<open>every driver operation keeps the FAT sector cache coherent\<close>

section \<open>Error codes\<close>

text \<open>
  \<open>ra8_err_t\<close> without \<open>k_ra8_ok\<close>: success is \<open>Inr\<close>, an error is \<open>Inl\<close>. The enumerators
  are those of the C enum. Two constructors are not among them: \<open>undefined_behaviour\<close> marks a step
  for which the C standard defines no result, and \<open>out_of_fuel\<close> a loop that has not ended within
  the bound its model gives it.
\<close>

datatype ra8_err =
    k_ra8_fail | k_ra8_err_no_mem | k_ra8_err_invalid_arg | k_ra8_err_invalid_state
  | k_ra8_err_invalid_size | k_ra8_err_not_found | k_ra8_err_not_supported | k_ra8_err_timeout
  | k_ra8_err_busy | k_ra8_err_no_data | k_ra8_err_would_block | k_ra8_err_exists
  | k_ra8_err_empty | k_ra8_err_cancelled | k_ra8_err_not_initialized | k_ra8_err_estop
  | k_ra8_err_not_empty | k_ra8_err_access_denied | k_ra8_err_hw_init_failed
  | k_ra8_err_hw_not_ready | k_ra8_err_hw_timeout | k_ra8_err_hw_error | k_ra8_err_gpio_conflict
  | k_ra8_err_gpio_invalid_port | k_ra8_err_gpio_invalid_pin | k_ra8_err_out_of_range
  | k_ra8_err_hw_unmapped | k_ra8_err_rtos_error | k_ra8_err_rtos_thread_create
  | k_ra8_err_rtos_semaphore | k_ra8_err_rtos_mutex | k_ra8_err_rtos_queue | k_ra8_err_rtos_timer
  | k_ra8_err_comm_error | k_ra8_err_spi_error | k_ra8_err_uart_error | k_ra8_err_i2c_error
  | k_ra8_err_crc_mismatch | k_ra8_err_protocol_error | k_ra8_err_nack | k_ra8_err_conflict
  | k_ra8_err_retry_limit | k_ra8_err_validation_failed | k_ra8_err_checksum_mismatch
  | k_ra8_err_range_check_failed | k_ra8_err_null_ptr | k_ra8_err_decomp_output_cap
  | k_ra8_err_decomp_ratio | k_ra8_err_decomp_entries | k_ra8_err_decomp_depth
  | k_ra8_err_decomp_iterations
  | undefined_behaviour | out_of_fuel

section \<open>The state-and-error monad\<close>

text \<open>
  A C function that returns \<open>ra8_err_t\<close>, has output parameters and changes module state is a
  function from the state to a result and a new state. The new state is kept on the error path
  too: what was written before the failing call stays written, as in the C.
\<close>

type_synonym ('s, 'a) op = "'s \<Rightarrow> (ra8_err + 'a) \<times> 's"

definition returnE :: "'a \<Rightarrow> ('s, 'a) op" where
  [monad_defs]: "returnE x = (\<lambda>s. (Inr x, s))"

definition throwE :: "ra8_err \<Rightarrow> ('s, 'a) op" where
  [monad_defs]: "throwE e = (\<lambda>s. (Inl e, s))"

text \<open>\<open>err = f(); if (err != k_ra8_ok) return err; g()\<close>.\<close>

definition bindE :: "('s, 'a) op \<Rightarrow> ('a \<Rightarrow> ('s, 'b) op) \<Rightarrow> ('s, 'b) op" where
  [monad_defs]: "bindE f g =
     (\<lambda>s. case f s of (Inl e, s') \<Rightarrow> (Inl e, s') | (Inr x, s') \<Rightarrow> g x s')"

lemma bindE_run: "f s = (Inr x, t) \<Longrightarrow> bindE f g s = g x t"
  by (simp add: bindE_def)

abbreviation thenE :: "('s, 'a) op \<Rightarrow> ('s, 'b) op \<Rightarrow> ('s, 'b) op" where
  "thenE f g \<equiv> bindE f (\<lambda>_. g)"

text \<open>Call \<open>f\<close> and hand its error code to the continuation instead of returning it.\<close>

definition attemptE :: "('s, 'a) op \<Rightarrow> (ra8_err + 'a \<Rightarrow> ('s, 'b) op) \<Rightarrow> ('s, 'b) op" where
  [monad_defs]: "attemptE f g = (\<lambda>s. case f s of (r, s') \<Rightarrow> g r s')"

definition getE :: "('s \<Rightarrow> 'a) \<Rightarrow> ('s, 'a) op" where
  [monad_defs]: "getE f = (\<lambda>s. (Inr (f s), s))"

definition modifyE :: "('s \<Rightarrow> 's) \<Rightarrow> ('s, unit) op" where
  [monad_defs]: "modifyE f = (\<lambda>s. (Inr (), f s))"

definition whenE :: "bool \<Rightarrow> ('s, unit) op \<Rightarrow> ('s, unit) op" where
  [monad_defs]: "whenE b f = (if b then f else returnE ())"

definition returnR :: "ra8_err + 'a \<Rightarrow> ('s, 'a) op" where
  [monad_defs]: "returnR r = (\<lambda>s. (r, s))"

lemma bindE_returnE [simp]: "bindE (returnE x) g = g x"
  by (simp add: monad_defs)

lemma bindE_throwE [simp]: "bindE (throwE e) g = throwE e"
  by (simp add: monad_defs)

lemma bindE_assoc: "bindE (bindE f g) h = bindE f (\<lambda>x. bindE (g x) h)"
  by (auto simp: monad_defs fun_eq_iff split: prod.split sum.split)

lemma bindE_return: "bindE f returnE = f"
  by (auto simp: fun_eq_iff monad_defs split: prod.split sum.split)

lemma bindE_ok: "f s = (Inr x, s') \<Longrightarrow> bindE f g s = g x s'"
  by (simp add: monad_defs)

lemma bindE_err: "f s = (Inl e, s') \<Longrightarrow> bindE f g s = (Inl e, s')"
  by (simp add: monad_defs)

lemma bindE_InrE:
  assumes "bindE f g s = (Inr y, t)"
  obtains x s' where "f s = (Inr x, s')" and "g x s' = (Inr y, t)"
  using assms by (auto simp: bindE_def split: prod.splits sum.splits)

lemma bindE_cases:
  assumes "bindE f g s = (r, t)"
  obtains (Err) e where "f s = (Inl e, t)" and "r = Inl e"
    | (Ok) x s' where "f s = (Inr x, s')" and "g x s' = (r, t)"
  using assms by (auto simp: bindE_def split: prod.splits sum.splits)

lemma getE_apply [simp]: "getE f s = (Inr (f s), s)"
  by (simp add: monad_defs)

lemma modifyE_apply [simp]: "modifyE f s = (Inr (), f s)"
  by (simp add: monad_defs)

lemma returnE_apply [simp]: "returnE x s = (Inr x, s)"
  by (simp add: monad_defs)

lemma throwE_apply [simp]: "throwE e s = (Inl e, s)"
  by (simp add: monad_defs)

lemma whenE_simps [simp]: "whenE True f = f" "whenE False f = returnE ()"
  by (simp_all add: whenE_def)

subsection \<open>State invariants of monadic operations\<close>

text \<open>
  \<open>keeps I f\<close>: whatever \<open>f\<close> returns, error or not, it takes states that satisfy \<open>I\<close> to
  states that satisfy \<open>I\<close>. The rules follow the structure of the monad, so a preservation proof
  of an operation is one application per call it makes.
\<close>

definition keeps :: "('s \<Rightarrow> bool) \<Rightarrow> ('s, 'a) op \<Rightarrow> bool" where
  "keeps I f \<longleftrightarrow> (\<forall>s. I s \<longrightarrow> I (snd (f s)))"

lemma keepsI: "(\<And>s r t. I s \<Longrightarrow> f s = (r, t) \<Longrightarrow> I t) \<Longrightarrow> keeps I f"
  unfolding keeps_def by (metis prod.collapse)

lemma keepsD: "keeps I f \<Longrightarrow> I s \<Longrightarrow> f s = (r, t) \<Longrightarrow> I t"
  unfolding keeps_def by (metis snd_conv)

named_theorems keeps_rules \<open>structural rules for invariants of monadic operations\<close>

lemma keeps_returnE [keeps_rules]: "keeps I (returnE x)"
  by (simp add: keeps_def)

lemma keeps_throwE [keeps_rules]: "keeps I (throwE e)"
  by (simp add: keeps_def)

lemma keeps_getE [keeps_rules]: "keeps I (getE f)"
  by (simp add: keeps_def)

lemma keeps_returnR [keeps_rules]: "keeps I (returnR r)"
  by (simp add: keeps_def returnR_def)

lemma keeps_bindE [keeps_rules]:
  assumes f: "keeps I f" and g: "\<And>x. keeps I (g x)"
  shows "keeps I (bindE f g)"
proof (rule keepsI)
  fix s r t
  assume I: "I s" and b: "bindE f g s = (r, t)"
  from b show "I t"
    by (cases rule: bindE_cases) (blast intro: keepsD [OF f I] keepsD [OF g])+
qed

lemma keeps_attemptE [keeps_rules]:
  assumes "keeps I f" and "\<And>r. keeps I (g r)"
  shows "keeps I (attemptE f g)"
proof (rule keepsI)
  fix s r t
  assume I: "I s" and a: "attemptE f g s = (r, t)"
  obtain r' s' where fs: "f s = (r', s')" by (cases "f s") auto
  from keepsD [OF assms(1) I fs] have "I s'" .
  moreover from a fs have "g r' s' = (r, t)" by (simp add: attemptE_def)
  ultimately show "I t" by (rule keepsD [OF assms(2)])
qed

lemma keeps_if [keeps_rules]: "keeps I f \<Longrightarrow> keeps I g \<Longrightarrow> keeps I (if b then f else g)"
  by simp

lemma keeps_whenE [keeps_rules]: "keeps I f \<Longrightarrow> keeps I (whenE b f)"
  by (cases b) (simp_all add: keeps_returnE)

lemma keeps_modifyE: "(\<And>s. I s \<Longrightarrow> I (f s)) \<Longrightarrow> keeps I (modifyE f)"
  by (simp add: keeps_def)

section \<open>Lists and buffers\<close>

text \<open>Overwriting \<open>length xs\<close> bytes of a buffer at an offset, as \<open>priv_byte_copy\<close> does.\<close>

definition splice_at :: "'a list \<Rightarrow> nat \<Rightarrow> 'a list \<Rightarrow> 'a list" where
  "splice_at buf off xs = take off buf @ xs @ drop (off + length xs) buf"

lemma length_splice_at [simp]:
  "off + length xs \<le> length buf \<Longrightarrow> length (splice_at buf off xs) = length buf"
  by (simp add: splice_at_def)

lemma nth_splice_at:
  assumes "off + length xs \<le> length buf" and "i < length buf"
  shows "splice_at buf off xs ! i =
    (if off \<le> i \<and> i < off + length xs then xs ! (i - off) else buf ! i)"
  using assms by (auto simp: splice_at_def nth_append min_def)

lemma splice_at_join:
  assumes "x + length a + length c \<le> length d"
  shows "splice_at (splice_at d x a) (x + length a) c = splice_at d x (a @ c)"
  using assms by (intro nth_equalityI) (auto simp: nth_splice_at nth_append)

lemma splice_at_drop: "take k buf @ splice_at (drop k buf) 0 xs = splice_at buf k xs"
  by (simp add: splice_at_def ac_simps)

lemma slice_splice_at:
  assumes "off + length xs \<le> length buf"
  shows "take (length xs) (drop off (splice_at buf off xs)) = xs"
  using assms by (simp add: splice_at_def)

section \<open>Words\<close>

lemma unat_ucast_mod: "unat (ucast x :: 'b::len word) = unat (x :: 'a::len word) mod 2 ^ LENGTH('b)"
  by (simp add: unsigned_ucast_eq take_bit_eq_mod)

lemma unat_lt: "unat w < 2 ^ LENGTH('a)" for w :: "'a::len word"
  by (rule unsigned_less)

lemma unat_neq: "x \<noteq> y \<longleftrightarrow> unat x \<noteq> unat y" for x y :: "'a::len word"
  by (simp add: word_unat_eq_iff)

lemma unat_add_small:
  "unat a + unat b < 2 ^ LENGTH('a) \<Longrightarrow> unat (a + b) = unat a + unat b" for a b :: "'a::len word"
  by (simp add: unat_word_ariths)

lemma unat_mult_small:
  "unat a * unat b < 2 ^ LENGTH('a) \<Longrightarrow> unat (a * b) = unat a * unat b" for a b :: "'a::len word"
  by (simp add: unat_word_ariths)

lemma unat_sub_le: "b \<le> a \<Longrightarrow> unat (a - b) = unat a - unat b" for a b :: "'a::len word"
  by (simp add: unat_sub_if_size word_le_nat_alt)

lemma unat_of_nat_small: "x < 2 ^ LENGTH('a) \<Longrightarrow> unat (of_nat x :: 'a::len word) = x"
  by (simp add: unat_of_nat)

lemma unat_ucast_small: "unat x < 2 ^ LENGTH('b) \<Longrightarrow> unat (ucast (x :: 'a::len word) :: 'b::len word) = unat x"
  by (simp add: unat_ucast_mod)

lemma unat_ucast_up [simp]: "unat (ucast (x :: u8) :: u32) = unat x" "unat (ucast (z :: u16) :: u32) = unat z"
  "unat (ucast (x :: u8) :: u16) = unat x"
  using unat_lt [of x] unat_lt [of z] by (simp_all add: unat_ucast_mod)

lemma ucast_ucast_id [simp]: "(ucast (ucast (x :: u8) :: u32) :: u8) = x" "(ucast (ucast (z :: u16) :: u32) :: u16) = z"
  "(ucast (ucast (x :: u8) :: u16) :: u8) = x"
  by (rule bit_word_eqI; auto simp: bit_simps dest: bit_imp_le_length)+

lemma bit_small: "unat (x :: 'a::len word) < 2 ^ k \<Longrightarrow> bit x n \<Longrightarrow> n < k"
  by (metis bit_take_bit_iff take_bit_nat_eq_self unsigned_take_bit_eq word_unat_eq_iff)

end
