(* ===== verification/Fs_Types.thy ===== *)
theory Fs_Types
  imports Fs_Prelude
begin

text \<open>
  The data model of the FAT driver, \<^verbatim>\<open>libs/ra8_fs\<close>: the public types of
  \<^verbatim>\<open>inc/ra8_fs_types.h\<close>, the private cursor types of \<^verbatim>\<open>src/ra8_fs_fat_types_internal.h\<close>,
  the allocator slots of \<^verbatim>\<open>src/ra8_fs_fat_alloc.c\<close>, and one record \<open>fs\<close> that gathers every
  module-static variable of the driver. The block device and the clock are function pointers into
  code outside the driver; they act on an arbitrary world of type \<open>'w\<close>.
\<close>

section \<open>Constants of the on-disk layout\<close>

abbreviation (input) k_ra8_fs_max_files :: nat where "k_ra8_fs_max_files \<equiv> 4"
abbreviation (input) k_ra8_fs_max_mounts :: nat where "k_ra8_fs_max_mounts \<equiv> 2"
abbreviation (input) k_ra8_fs_sector_min :: u32 where "k_ra8_fs_sector_min \<equiv> 512"
abbreviation (input) k_ra8_fs_sector_max :: u32 where "k_ra8_fs_sector_max \<equiv> 4096"
abbreviation (input) k_ra8_fs_dir_entry_bytes :: nat where "k_ra8_fs_dir_entry_bytes \<equiv> 32"
abbreviation (input) k_ra8_fs_fat_max_file_bytes :: u64 where "k_ra8_fs_fat_max_file_bytes \<equiv> 0xFFFFFFFF"
abbreviation (input) k_ra8_fs_partition_auto :: u8 where "k_ra8_fs_partition_auto \<equiv> 0xFF"

abbreviation (input) k_ra8_fs_attr_read_only :: u8 where "k_ra8_fs_attr_read_only \<equiv> 0x01"
abbreviation (input) k_ra8_fs_attr_hidden :: u8 where "k_ra8_fs_attr_hidden \<equiv> 0x02"
abbreviation (input) k_ra8_fs_attr_system :: u8 where "k_ra8_fs_attr_system \<equiv> 0x04"
abbreviation (input) k_ra8_fs_attr_volume_id :: u8 where "k_ra8_fs_attr_volume_id \<equiv> 0x08"
abbreviation (input) k_ra8_fs_attr_directory :: u8 where "k_ra8_fs_attr_directory \<equiv> 0x10"
abbreviation (input) k_ra8_fs_attr_archive :: u8 where "k_ra8_fs_attr_archive \<equiv> 0x20"
abbreviation (input) k_ra8_fs_attr_lfn :: u8 where "k_ra8_fs_attr_lfn \<equiv> 0x0F"

abbreviation (input) k_bpb_off_bytes_per_sec :: nat where "k_bpb_off_bytes_per_sec \<equiv> 11"
abbreviation (input) k_bpb_off_sec_per_clus :: nat where "k_bpb_off_sec_per_clus \<equiv> 13"
abbreviation (input) k_bpb_off_rsvd_sec_cnt :: nat where "k_bpb_off_rsvd_sec_cnt \<equiv> 14"
abbreviation (input) k_bpb_off_num_fats :: nat where "k_bpb_off_num_fats \<equiv> 16"
abbreviation (input) k_bpb_off_root_ent_cnt :: nat where "k_bpb_off_root_ent_cnt \<equiv> 17"
abbreviation (input) k_bpb_off_tot_sec_16 :: nat where "k_bpb_off_tot_sec_16 \<equiv> 19"
abbreviation (input) k_bpb_off_fat_sz_16 :: nat where "k_bpb_off_fat_sz_16 \<equiv> 22"
abbreviation (input) k_bpb_off_tot_sec_32 :: nat where "k_bpb_off_tot_sec_32 \<equiv> 32"
abbreviation (input) k_bpb_off_fat_sz_32 :: nat where "k_bpb_off_fat_sz_32 \<equiv> 36"
abbreviation (input) k_bpb_off_root_clus :: nat where "k_bpb_off_root_clus \<equiv> 44"
abbreviation (input) k_bpb_off_signature_lo :: nat where "k_bpb_off_signature_lo \<equiv> 510"
abbreviation (input) k_bpb_off_signature_hi :: nat where "k_bpb_off_signature_hi \<equiv> 511"
abbreviation (input) k_bpb_sig_lo :: u8 where "k_bpb_sig_lo \<equiv> 0x55"
abbreviation (input) k_bpb_sig_hi :: u8 where "k_bpb_sig_hi \<equiv> 0xAA"

abbreviation (input) k_dir_off_name :: nat where "k_dir_off_name \<equiv> 0"
abbreviation (input) k_dir_off_attr :: nat where "k_dir_off_attr \<equiv> 11"
abbreviation (input) k_dir_off_ntres :: nat where "k_dir_off_ntres \<equiv> 12"
abbreviation (input) k_dir_off_fst_clus_hi :: nat where "k_dir_off_fst_clus_hi \<equiv> 20"
abbreviation (input) k_dir_off_fst_clus_lo :: nat where "k_dir_off_fst_clus_lo \<equiv> 26"
abbreviation (input) k_dir_off_file_size :: nat where "k_dir_off_file_size \<equiv> 28"
abbreviation (input) k_dir_name_field_len :: nat where "k_dir_name_field_len \<equiv> 11"
abbreviation (input) k_ntres_base_lower :: u8 where "k_ntres_base_lower \<equiv> 0x08"
abbreviation (input) k_ntres_ext_lower :: u8 where "k_ntres_ext_lower \<equiv> 0x10"
abbreviation (input) k_dir_marker_free_perm :: u8 where "k_dir_marker_free_perm \<equiv> 0x00"
abbreviation (input) k_dir_marker_free_used :: u8 where "k_dir_marker_free_used \<equiv> 0xE5"
abbreviation (input) k_dir_marker_kanji_e5 :: u8 where "k_dir_marker_kanji_e5 \<equiv> 0x05"
abbreviation (input) k_dir_marker_dot :: u8 where "k_dir_marker_dot \<equiv> 0x2E"

abbreviation (input) k_mbr_off_part0_type :: nat where "k_mbr_off_part0_type \<equiv> 0x1C2"
abbreviation (input) k_mbr_off_part0_lba :: nat where "k_mbr_off_part0_lba \<equiv> 0x1C6"
abbreviation (input) k_mbr_part_entry_stride :: nat where "k_mbr_part_entry_stride \<equiv> 16"
abbreviation (input) k_mbr_part_entry_count :: nat where "k_mbr_part_entry_count \<equiv> 4"
abbreviation (input) k_gpt_part_type_protective :: u8 where "k_gpt_part_type_protective \<equiv> 0xEE"

abbreviation (input) k_cluster_first_data :: u32 where "k_cluster_first_data \<equiv> 2"
abbreviation (input) k_cluster_eoc_min_fat12 :: u32 where "k_cluster_eoc_min_fat12 \<equiv> 0x0FF8"
abbreviation (input) k_cluster_eoc_min_fat16 :: u32 where "k_cluster_eoc_min_fat16 \<equiv> 0xFFF8"
abbreviation (input) k_cluster_eoc_min_fat32 :: u32 where "k_cluster_eoc_min_fat32 \<equiv> 0x0FFFFFF8"
abbreviation (input) k_cluster_mask_fat32 :: u32 where "k_cluster_mask_fat32 \<equiv> 0x0FFFFFFF"
abbreviation (input) k_cluster_eoc_min_exfat :: u32 where "k_cluster_eoc_min_exfat \<equiv> 0xFFFFFFF8"
abbreviation (input) k_cluster_eoc_write_fat12 :: u32 where "k_cluster_eoc_write_fat12 \<equiv> 0x0FFF"
abbreviation (input) k_cluster_eoc_write_fat16 :: u32 where "k_cluster_eoc_write_fat16 \<equiv> 0xFFFF"
abbreviation (input) k_cluster_eoc_write_fat32 :: u32 where "k_cluster_eoc_write_fat32 \<equiv> 0x0FFFFFFF"
abbreviation (input) k_cluster_eoc_write_exfat :: u32 where "k_cluster_eoc_write_exfat \<equiv> 0xFFFFFFFF"
abbreviation (input) k_cluster_free :: u32 where "k_cluster_free \<equiv> 0"
abbreviation (input) k_cluster_count_fat12_max :: u32 where "k_cluster_count_fat12_max \<equiv> 4085"
abbreviation (input) k_cluster_count_fat16_max :: u32 where "k_cluster_count_fat16_max \<equiv> 65525"

abbreviation (input) k_fmt_off_f32_fsinfo :: nat where "k_fmt_off_f32_fsinfo \<equiv> 48"
abbreviation (input) k_fmt_fsi_off_lead :: nat where "k_fmt_fsi_off_lead \<equiv> 0"
abbreviation (input) k_fmt_fsi_off_struct :: nat where "k_fmt_fsi_off_struct \<equiv> 484"
abbreviation (input) k_fmt_fsi_off_free :: nat where "k_fmt_fsi_off_free \<equiv> 488"
abbreviation (input) k_fmt_fsi_off_nxtfree :: nat where "k_fmt_fsi_off_nxtfree \<equiv> 492"
abbreviation (input) k_fmt_fsi_off_trail :: nat where "k_fmt_fsi_off_trail \<equiv> 508"
abbreviation (input) k_fmt_fsi_lead_sig :: u32 where "k_fmt_fsi_lead_sig \<equiv> 0x41615252"
abbreviation (input) k_fmt_fsi_struct_sig :: u32 where "k_fmt_fsi_struct_sig \<equiv> 0x61417272"
abbreviation (input) k_fmt_fsi_trail_sig :: u32 where "k_fmt_fsi_trail_sig \<equiv> 0xAA550000"

abbreviation (input) k_fs_free_unknown :: u32 where "k_fs_free_unknown \<equiv> 0xFFFFFFFF"
abbreviation (input) k_fs_fsinfo_absent :: u32 where "k_fs_fsinfo_absent \<equiv> 0"
abbreviation (input) k_fs_cache_empty :: u64 where "k_fs_cache_empty \<equiv> 0xFFFFFFFFFFFFFFFF"
abbreviation (input) k_fs_bitmap_unknown :: u64 where "k_fs_bitmap_unknown \<equiv> 0xFFFFFFFFFFFFFFFF"

section \<open>Enumerations\<close>

datatype fs_type =
    k_ra8_fs_type_unknown | k_ra8_fs_type_fat12 | k_ra8_fs_type_fat16
  | k_ra8_fs_type_fat32 | k_ra8_fs_type_exfat

datatype fs_mode = k_ra8_fs_mode_read | k_ra8_fs_mode_write | k_ra8_fs_mode_append

section \<open>The block device and the clock\<close>

text \<open>
  \<open>ra8_fs_backend_t\<close>: every field is a C function pointer, \<open>None\<close> for \<open>nullptr\<close>. The
  context cookie is part of the world the functions act on.
\<close>

record 'w backend =
  read_block :: "(u64 \<Rightarrow> u32 \<Rightarrow> ('w, bytes) op) option"
  write_block :: "(u64 \<Rightarrow> u32 \<Rightarrow> bytes \<Rightarrow> ('w, unit) op) option"
  get_capacity :: "('w, u64 \<times> u32) op option"
  erase_blocks :: "(u64 \<Rightarrow> u64 \<Rightarrow> ('w, unit) op) option"

record datetime =
  dt_year :: u16
  dt_utc_offset_min :: u16 \<comment> \<open>\<open>int16_t\<close>, read with \<open>sint\<close>\<close>
  dt_month :: u8
  dt_day :: u8
  dt_hour :: u8
  dt_minute :: u8
  dt_second :: u8
  dt_centisecond :: u8

record 'w fs_clock =
  clk_now :: "('w, datetime) op option"

text \<open>The installed lock of \<^verbatim>\<open>ra8_fs_lock_abi.zig\<close>: two callbacks on the outside world.\<close>

record 'w fs_lock =
  lk_acquire :: "'w \<Rightarrow> 'w"
  lk_release :: "'w \<Rightarrow> 'w"

section \<open>Mounts, files and allocator slots\<close>

text \<open>
  \<open>ra8_fs_mount_t\<close>. The field \<open>m_addr\<close> stands for the address of the object (its index in
  \<open>s_mounts\<close>): the driver compares mount pointers, and a \<open>const\<close> pointer to a mount is
  modelled by the mount's value.
\<close>

record 'w mount =
  m_addr :: nat
  m_backend :: "'w backend"
  m_type :: fs_type
  m_bytes_per_sector :: u32
  m_sectors_per_cluster :: u32
  m_reserved_sectors :: u32
  m_num_fats :: u32
  m_root_entries :: u32
  m_total_sectors :: u64
  m_fat_size_sectors :: u32
  m_root_cluster :: u32
  m_first_fat_lba :: u64
  m_first_root_lba :: u64
  m_first_data_lba :: u64
  m_count_of_clusters :: u32
  m_partition_base_lba :: u64
  m_in_use :: bool
  m_exfat_upcase_ok :: bool

text \<open>\<open>ra8_fs_file_t\<close>; \<open>f_mount\<close> is the address of the mount, \<open>None\<close> for \<open>nullptr\<close>.\<close>

record fs_file =
  f_mount :: "nat option"
  f_first_cluster :: u32
  f_cur_cluster :: u32
  f_walk_cache_idx :: u32
  f_walk_cache_cluster :: u32
  f_size_bytes :: u64
  f_offset :: u64
  f_dir_entry_lba :: u64
  f_dir_entry_idx :: u32
  f_valid_bytes :: u64
  f_entry_set_cluster :: u32
  f_entry_set_index :: u32
  f_entry_set_count :: u32
  f_alloc_clusters :: u32
  f_tail_cluster :: u32
  f_mode :: fs_mode
  f_in_use :: bool
  f_no_fat_chain :: bool
  f_dirty :: bool

text \<open>\<open>fat_alloc_state_t\<close>; \<open>as_owner\<close> is the address of the owning mount.\<close>

record alloc_state =
  as_owner :: "nat option"
  as_next_free :: u32
  as_free_count :: u32
  as_fsinfo_lba :: u32
  as_bitmap_lba :: u64
  as_dirty :: bool

section \<open>The state of the driver\<close>

text \<open>
  The module-static variables: \<open>s_mounts\<close>, \<open>s_files\<close> (\<^verbatim>\<open>ra8_fs_fat_mount.c\<close>), \<open>s_alloc\<close>
  and the one-sector FAT cache (\<^verbatim>\<open>ra8_fs_fat_alloc.c\<close>), the clock (\<^verbatim>\<open>ra8_fs_fat_time.c\<close>),
  and the world the backends act on. The bounce buffers of the sector arena are local values: the
  arena's role discipline is that a buffer is dead before the next user of its role runs.
\<close>

record 'w fs =
  world :: 'w
  s_mounts :: "'w mount list"
  s_files :: "fs_file list"
  s_alloc :: "alloc_state list"
  s_fat_cache :: bytes
  s_fat_cache_lba :: u64
  s_fat_cache_owner :: "nat option"
  s_clock_bound :: bool
  s_clock :: "'w fs_clock"
  s_lock :: "'w fs_lock option"

text \<open>The zero-initialised structures of the C, \<open>(T){}\<close>.\<close>

definition alloc_state_zero :: alloc_state where
  "alloc_state_zero = \<lparr>as_owner = None, as_next_free = 0, as_free_count = 0, as_fsinfo_lba = 0,
     as_bitmap_lba = 0, as_dirty = False\<rparr>"

definition backend_zero :: "'w backend" where
  "backend_zero = \<lparr>read_block = None, write_block = None, get_capacity = None, erase_blocks = None\<rparr>"

definition mount_zero :: "nat \<Rightarrow> 'w mount" where
  "mount_zero a = \<lparr>m_addr = a, m_backend = backend_zero, m_type = k_ra8_fs_type_unknown,
     m_bytes_per_sector = 0, m_sectors_per_cluster = 0, m_reserved_sectors = 0, m_num_fats = 0,
     m_root_entries = 0, m_total_sectors = 0, m_fat_size_sectors = 0, m_root_cluster = 0,
     m_first_fat_lba = 0, m_first_root_lba = 0, m_first_data_lba = 0, m_count_of_clusters = 0,
     m_partition_base_lba = 0, m_in_use = False, m_exfat_upcase_ok = False\<rparr>"

definition fs_file_zero :: fs_file where
  "fs_file_zero = \<lparr>f_mount = None, f_first_cluster = 0, f_cur_cluster = 0, f_walk_cache_idx = 0,
     f_walk_cache_cluster = 0, f_size_bytes = 0, f_offset = 0, f_dir_entry_lba = 0,
     f_dir_entry_idx = 0, f_valid_bytes = 0, f_entry_set_cluster = 0, f_entry_set_index = 0,
     f_entry_set_count = 0, f_alloc_clusters = 0, f_tail_cluster = 0,
     f_mode = k_ra8_fs_mode_read, f_in_use = False, f_no_fat_chain = False, f_dirty = False\<rparr>"

text \<open>The state before the first call: every static is zero and the cache is empty.\<close>

definition fs_init :: "'w \<Rightarrow> 'w fs" where
  "fs_init w = \<lparr>world = w, s_mounts = map mount_zero [0..<k_ra8_fs_max_mounts],
     s_files = replicate k_ra8_fs_max_files fs_file_zero,
     s_alloc = replicate k_ra8_fs_max_mounts alloc_state_zero, s_fat_cache = replicate (unat k_ra8_fs_sector_max) 0,
     s_fat_cache_lba = k_fs_cache_empty, s_fat_cache_owner = None, s_clock_bound = False,
     s_clock = \<lparr>clk_now = None\<rparr>, s_lock = None\<rparr>"

text \<open>A call through a function pointer of the outside world, as an operation on the driver state.\<close>

definition liftW :: "('w, 'a) op \<Rightarrow> ('w fs, 'a) op" where
  "liftW f = (\<lambda>s. case f (world s) of (r, w) \<Rightarrow> (r, s\<lparr>world := w\<rparr>))"

text \<open>The bracket every public function puts around its \<open>_locked\<close> body.\<close>

definition priv_lock_acquire :: "'w fs \<Rightarrow> 'w fs" where
  "priv_lock_acquire s = (case s_lock s of None \<Rightarrow> s | Some l \<Rightarrow> s\<lparr>world := lk_acquire l (world s)\<rparr>)"

definition priv_lock_release :: "'w fs \<Rightarrow> 'w fs" where
  "priv_lock_release s = (case s_lock s of None \<Rightarrow> s | Some l \<Rightarrow> s\<lparr>world := lk_release l (world s)\<rparr>)"

definition locked :: "('w fs, 'a) op \<Rightarrow> ('w fs, 'a) op" where
  "locked f = (\<lambda>s. case f (priv_lock_acquire s) of (r, t) \<Rightarrow> (r, priv_lock_release t))"

text \<open>
  \<open>ra8_fs_set_lock\<close>: a null binding uninstalls the lock, one that misses a callback is refused. The two
  callbacks of the caller's structure may each be null.
\<close>

definition ra8_fs_set_lock :: "(('w \<Rightarrow> 'w) option \<times> ('w \<Rightarrow> 'w) option) option \<Rightarrow> ('w fs, unit) op" where
  "ra8_fs_set_lock lock =
     (case lock of
        None \<Rightarrow> modifyE (\<lambda>s. s\<lparr>s_lock := None\<rparr>)
      | Some (Some acq, Some rel) \<Rightarrow> modifyE (\<lambda>s. s\<lparr>s_lock := Some \<lparr>lk_acquire = acq, lk_release = rel\<rparr>\<rparr>)
      | Some _ \<Rightarrow> throwE k_ra8_err_invalid_arg)"

text \<open>
  Calling a null function pointer is undefined in C. The driver checks its backend's pointers
  before it uses them; the model makes an unchecked call visible as \<open>undefined_behaviour\<close>.
\<close>

definition callE :: "('f option) \<Rightarrow> ('f \<Rightarrow> ('s, 'a) op) \<Rightarrow> ('s, 'a) op" where
  "callE p k = (case p of None \<Rightarrow> throwE undefined_behaviour | Some f \<Rightarrow> k f)"

lemma callE_Some [simp]: "callE (Some f) k = k f"
  by (simp add: callE_def)

lemma liftW_apply: "f (world s) = (r, w) \<Longrightarrow> liftW f s = (r, s\<lparr>world := w\<rparr>)"
  by (simp add: liftW_def)

end
