(* ===== verification/Fat_Bytes.thy ===== *)
theory Fat_Bytes
  imports Fs_Types
begin

text \<open>
  The little-endian field codec, the byte helpers, the geometry accessors and the sector I/O of
  \<^verbatim>\<open>ra8_fs_fat.c\<close>. A C pointer \<open>&buf[off]\<close> is the pair of the buffer and the offset. The
  lemmas are the round trips of the codec and what each store leaves of the rest of a buffer.
\<close>

section \<open>Definitions\<close>

definition priv_rd16 :: "bytes \<Rightarrow> nat \<Rightarrow> u16" where
  "priv_rd16 p o' = (ucast (p ! o') :: u16) OR push_bit 8 (ucast (p ! (o' + 1)))"

definition priv_rd32 :: "bytes \<Rightarrow> nat \<Rightarrow> u32" where
  "priv_rd32 p o' = (ucast (p ! o') :: u32) OR push_bit 8 (ucast (p ! (o' + 1)))
     OR push_bit 16 (ucast (p ! (o' + 2))) OR push_bit 24 (ucast (p ! (o' + 3)))"

definition priv_rd64 :: "bytes \<Rightarrow> nat \<Rightarrow> u64" where
  "priv_rd64 p o' = (ucast (priv_rd32 p o') :: u64) OR push_bit 32 (ucast (priv_rd32 p (o' + 4)))"

definition priv_wr16 :: "bytes \<Rightarrow> nat \<Rightarrow> u16 \<Rightarrow> bytes" where
  "priv_wr16 p o' v = p[o' := ucast (v AND 0xFF), o' + 1 := ucast (drop_bit 8 v AND 0xFF)]"

definition priv_wr32 :: "bytes \<Rightarrow> nat \<Rightarrow> u32 \<Rightarrow> bytes" where
  "priv_wr32 p o' v = p[o' := ucast (v AND 0xFF), o' + 1 := ucast (drop_bit 8 v AND 0xFF),
     o' + 2 := ucast (drop_bit 16 v AND 0xFF), o' + 3 := ucast (drop_bit 24 v AND 0xFF)]"

definition priv_wr64 :: "bytes \<Rightarrow> nat \<Rightarrow> u64 \<Rightarrow> bytes" where
  "priv_wr64 p o' v = priv_wr32 (priv_wr32 p o' (ucast v)) (o' + 4) (ucast (drop_bit 32 v))"

definition priv_bps :: "'w mount \<Rightarrow> u32" where
  "priv_bps m = m_bytes_per_sector m"

definition priv_cluster_bytes :: "'w mount \<Rightarrow> u32" where
  "priv_cluster_bytes m = m_sectors_per_cluster m * m_bytes_per_sector m"

definition priv_dir_eps :: "'w mount \<Rightarrow> u32" where
  "priv_dir_eps m = m_bytes_per_sector m div of_nat k_ra8_fs_dir_entry_bytes"

text \<open>The copying and filling loops store one byte at a time, in increasing order.\<close>

primrec priv_byte_fill :: "bytes \<Rightarrow> nat \<Rightarrow> u8 \<Rightarrow> nat \<Rightarrow> bytes" where
  "priv_byte_fill dst d value 0 = dst"
| "priv_byte_fill dst d value (Suc n) = (priv_byte_fill dst d value n)[d + n := value]"

primrec priv_byte_copy :: "bytes \<Rightarrow> nat \<Rightarrow> bytes \<Rightarrow> nat \<Rightarrow> nat \<Rightarrow> bytes" where
  "priv_byte_copy dst d src o' 0 = dst"
| "priv_byte_copy dst d src o' (Suc n) =
     (priv_byte_copy dst d src o' n)[d + n := src ! (o' + n)]"

fun priv_byte_equal :: "bytes \<Rightarrow> nat \<Rightarrow> bytes \<Rightarrow> nat \<Rightarrow> nat \<Rightarrow> bool" where
  "priv_byte_equal a i b j 0 = True"
| "priv_byte_equal a i b j (Suc n) =
     (if a ! i \<noteq> b ! j then False else priv_byte_equal a (Suc i) b (Suc j) n)"

definition priv_read_sector :: "'w mount \<Rightarrow> u64 \<Rightarrow> ('w fs, bytes) op" where
  "priv_read_sector m lba =
     callE (read_block (m_backend m)) (\<lambda>f. liftW (f (lba + m_partition_base_lba m) 1))"

definition priv_write_sector :: "'w mount \<Rightarrow> u64 \<Rightarrow> bytes \<Rightarrow> ('w fs, unit) op" where
  "priv_write_sector m lba buf =
     callE (write_block (m_backend m)) (\<lambda>f. liftW (f (lba + m_partition_base_lba m) 1 buf))"

section \<open>The codec\<close>

lemma length_wr [simp]:
  "length (priv_wr16 p i v) = length p" "length (priv_wr32 p i w) = length p"
  "length (priv_wr64 p i x) = length p"
  by (simp_all add: priv_wr16_def priv_wr32_def priv_wr64_def)

lemma and_FF: "x AND 0xFF = take_bit 8 (x :: 'a::len word)"
  by (simp add: take_bit_eq_mask mask_eq_exp_minus_1)

lemma ucast_and_FF [codec]: "(ucast (v AND 0xFF) :: u8) = ucast (v :: 'a::len word)"
  unfolding and_FF by (rule bit_word_eqI) (simp add: bit_simps)

lemma byte_join16 [codec]: "(ucast (ucast v :: u8) :: u16)
    OR push_bit 8 (ucast (ucast (drop_bit 8 v) :: u8)) = v"
  by (rule bit_word_eqI) (auto simp: bit_simps)

lemma byte_join32 [codec]: "(ucast (ucast v :: u8) :: u32)
    OR push_bit 8 (ucast (ucast (drop_bit 8 v) :: u8))
    OR push_bit 16 (ucast (ucast (drop_bit 16 v) :: u8))
    OR push_bit 24 (ucast (ucast (drop_bit 24 v) :: u8)) = v" (is "?l = v")
proof (rule bit_word_eqI)
  fix n assume "n < LENGTH(32)"
  then consider "n < 8" | "8 \<le> n" "n < 16" | "16 \<le> n" "n < 24" | "24 \<le> n" "n < 32"
    by force
  then show "bit ?l n \<longleftrightarrow> bit v n"
    by cases (auto simp: bit_simps)
qed

lemma word_join64 [codec]: "(ucast (ucast v :: u32) :: u64)
    OR push_bit 32 (ucast (ucast (drop_bit 32 v) :: u32)) = v"
  by (rule bit_word_eqI) (auto simp: bit_simps)

lemma byte_split16 [codec]:
  "(ucast ((ucast (a :: u8) :: u16) OR push_bit 8 (ucast (b :: u8))) :: u8) = a"
  "(ucast (drop_bit 8 ((ucast a :: u16) OR push_bit 8 (ucast b))) :: u8) = b"
  by (rule bit_word_eqI; auto simp: bit_simps dest: bit_imp_le_length)+

text \<open>What a store puts where: the rest of the buffer is untouched.\<close>

lemma nth_wr16:
  assumes "i + 1 < length p"
  shows "priv_wr16 p i v ! j = (if j = i then ucast v else if j = i + 1 then ucast (drop_bit 8 v)
    else p ! j)"
  using assms by (simp add: priv_wr16_def nth_list_update codec)

lemma nth_wr32:
  assumes "i + 3 < length p"
  shows "priv_wr32 p i v ! j = (if j = i then ucast v else if j = i + 1 then ucast (drop_bit 8 v)
    else if j = i + 2 then ucast (drop_bit 16 v) else if j = i + 3 then ucast (drop_bit 24 v)
    else p ! j)"
  using assms by (simp add: priv_wr32_def nth_list_update codec)

lemma nth_wr64_other: "j < i \<or> i + 8 \<le> j \<Longrightarrow> priv_wr64 p i v ! j = p ! j"
  by (auto simp: priv_wr64_def priv_wr32_def nth_list_update)

lemma rd16_wr16 [codec]: "i + 1 < length p \<Longrightarrow> priv_rd16 (priv_wr16 p i v) i = v"
  by (simp add: priv_rd16_def nth_wr16 codec)

lemma rd32_wr32 [codec]: "i + 3 < length p \<Longrightarrow> priv_rd32 (priv_wr32 p i v) i = v"
  by (simp add: priv_rd32_def nth_wr32 codec)

lemma rd16_cong: "p ! i = q ! j \<Longrightarrow> p ! (i + 1) = q ! (j + 1) \<Longrightarrow> priv_rd16 p i = priv_rd16 q j"
  by (simp add: priv_rd16_def)

lemma rd32_cong: "(\<And>k. k < 4 \<Longrightarrow> p ! (i + k) = q ! (j + k)) \<Longrightarrow> priv_rd32 p i = priv_rd32 q j"
proof -
  assume eq: "\<And>k. k < 4 \<Longrightarrow> p ! (i + k) = q ! (j + k)"
  from eq [of 0] eq [of 1] eq [of 2] eq [of 3] show ?thesis
    by (simp add: priv_rd32_def)
qed

lemma rd32_wr32_other:
  assumes "i + 3 < length p" and "j + 4 \<le> i \<or> i + 4 \<le> j"
  shows "priv_rd32 (priv_wr32 p i v) j = priv_rd32 p j"
  by (rule rd32_cong) (use assms in \<open>auto simp: nth_wr32\<close>)

lemma rd16_wr16_other:
  assumes "i + 1 < length p" and "j + 2 \<le> i \<or> i + 2 \<le> j"
  shows "priv_rd16 (priv_wr16 p i v) j = priv_rd16 p j"
  by (rule rd16_cong) (use assms in \<open>auto simp: nth_wr16\<close>)

lemma rd64_wr64 [codec]:
  assumes "i + 7 < length p"
  shows "priv_rd64 (priv_wr64 p i v) i = v"
  using assms by (simp add: priv_rd64_def priv_wr64_def rd32_wr32_other codec)

text \<open>Storing what was read changes nothing: the decoders are injective on their bytes.\<close>

lemma wr16_rd16: "i + 1 < length p \<Longrightarrow> priv_wr16 p i (priv_rd16 p i) = p"
  by (rule nth_equalityI) (auto simp: nth_wr16 priv_rd16_def codec simp del: drop_bit_or)

section \<open>The byte loops\<close>

lemma length_byte_copy [simp]: "length (priv_byte_copy dst d src i n) = length dst"
  by (induction n) simp_all

lemma nth_byte_copy:
  "d + n \<le> length dst \<Longrightarrow> priv_byte_copy dst d src i n ! j =
     (if d \<le> j \<and> j < d + n then src ! (i + (j - d)) else dst ! j)"
  by (induction n) (auto simp: nth_list_update less_Suc_eq)

lemma byte_copy_splice:
  assumes "d + n \<le> length dst" and "i + n \<le> length src"
  shows "priv_byte_copy dst d src i n = splice_at dst d (take n (drop i src))"
  using assms by (intro nth_equalityI) (auto simp: nth_byte_copy nth_splice_at)

lemma length_byte_fill [simp]: "length (priv_byte_fill dst d v n) = length dst"
  by (induction n) simp_all

lemma nth_byte_fill:
  "d + n \<le> length dst \<Longrightarrow> priv_byte_fill dst d v n ! j =
     (if d \<le> j \<and> j < d + n then v else dst ! j)"
  by (induction n) (auto simp: nth_list_update less_Suc_eq)

lemma byte_equal_iff:
  "priv_byte_equal a i b j n \<longleftrightarrow> (\<forall>k < n. a ! (i + k) = b ! (j + k))"
proof (induction n arbitrary: i j)
  case 0
  then show ?case by simp
next
  case (Suc n)
  then show ?case
    by (auto simp: less_Suc_eq_0_disj)
qed

lemma byte_equal_slices:
  assumes "i + n \<le> length a" and "j + n \<le> length b"
  shows "priv_byte_equal a i b j n \<longleftrightarrow> take n (drop i a) = take n (drop j b)"
  using assms by (auto simp: byte_equal_iff list_eq_iff_nth_eq)

end
