(* ===== verification/Io_Blockdev.thy ===== *)
theory Io_Blockdev
  imports Fat_Bytes
begin

text \<open>
  The block-device fabric, \<^verbatim>\<open>src/libs/ra8_io/src/ra8_io_blockdev_abi.zig\<close>: a device is a table of functions and a context,
  the functions \<open>ra8_io_blockdev_*\<close> dispatch to it, and an adapter makes it the backend of the file system. The object
  behind the context is part of the state the functions act on. Whether a pointer is null is a boolean, a buffer or a null pointer
  is a \<open>bytes option\<close>. The messages that go to the log are left out.
\<close>

section \<open>Devices\<close>

abbreviation (input) io_block_bytes :: nat where "io_block_bytes \<equiv> 512"
abbreviation (input) k_ra8_io_erase_value_zero :: u8 where "k_ra8_io_erase_value_zero \<equiv> 0"

record io_caps =
  cap_block_count :: u32
  cap_erase_unit_blocks :: u32
  cap_program_size_bytes :: u32
  cap_logical_block_bytes :: u16
  cap_erase_value :: u8
  cap_must_erase_before_write :: bool
  cap_read_only :: bool

text \<open>
  The functions of a device take the context first. A read stores into the buffer that is the second part of the state, also when
  it fails.
\<close>

record 'w iface =
  io_read :: "(bool \<Rightarrow> u32 \<Rightarrow> u32 \<Rightarrow> ('w \<times> bytes option, unit) op) option"
  io_write :: "(bool \<Rightarrow> u32 \<Rightarrow> u32 \<Rightarrow> bytes option \<Rightarrow> ('w, unit) op) option"
  io_erase :: "(bool \<Rightarrow> u32 \<Rightarrow> u32 \<Rightarrow> ('w, unit) op) option"
  io_get_caps :: "(bool \<Rightarrow> bool \<Rightarrow> ('w, io_caps) op) option"
  io_sync :: "(bool \<Rightarrow> ('w, unit) op) option"

record 'w device =
  bd_iface :: "'w iface option"
  bd_ctx :: bool

section \<open>Dispatch\<close>

definition validate :: "'w device option \<Rightarrow> ra8_err + 'w iface \<times> bool" where
  "validate bd =
     (case bd of None \<Rightarrow> Inl k_ra8_err_null_ptr
      | Some device \<Rightarrow> (case bd_iface device of None \<Rightarrow> Inl k_ra8_err_not_initialized | Some f \<Rightarrow> Inr (f, bd_ctx device)))"

definition ra8_io_blockdev_read :: "'w device option \<Rightarrow> u32 \<Rightarrow> u32 \<Rightarrow> ('w \<times> bytes option, unit) op" where
  "ra8_io_blockdev_read bd lba count =
     bindE (returnR (validate bd)) (\<lambda>(f, ctx).
     bindE (getE snd) (\<lambda>buf.
       if buf = None then throwE k_ra8_err_null_ptr
       else case io_read f of None \<Rightarrow> throwE k_ra8_err_null_ptr | Some op \<Rightarrow> op ctx lba count))"

definition ra8_io_blockdev_write :: "'w device option \<Rightarrow> u32 \<Rightarrow> u32 \<Rightarrow> bytes option \<Rightarrow> ('w, unit) op" where
  "ra8_io_blockdev_write bd lba count buf =
     bindE (returnR (validate bd)) (\<lambda>(f, ctx).
       if buf = None then throwE k_ra8_err_null_ptr
       else case io_write f of None \<Rightarrow> throwE k_ra8_err_null_ptr | Some op \<Rightarrow> op ctx lba count buf)"

definition ra8_io_blockdev_erase :: "'w device option \<Rightarrow> u32 \<Rightarrow> u32 \<Rightarrow> ('w, unit) op" where
  "ra8_io_blockdev_erase bd lba count =
     bindE (returnR (validate bd)) (\<lambda>(f, ctx).
       case io_erase f of None \<Rightarrow> throwE k_ra8_err_not_supported | Some op \<Rightarrow> op ctx lba count)"

definition ra8_io_blockdev_get_caps :: "'w device option \<Rightarrow> bool \<Rightarrow> ('w, io_caps) op" where
  "ra8_io_blockdev_get_caps bd have_out =
     bindE (returnR (validate bd)) (\<lambda>(f, ctx).
       if \<not> have_out then throwE k_ra8_err_null_ptr
       else case io_get_caps f of None \<Rightarrow> throwE k_ra8_err_null_ptr | Some op \<Rightarrow> op ctx have_out)"

definition ra8_io_blockdev_sync :: "'w device option \<Rightarrow> ('w, unit) op" where
  "ra8_io_blockdev_sync bd =
     bindE (returnR (validate bd)) (\<lambda>(f, ctx). case io_sync f of None \<Rightarrow> returnE () | Some op \<Rightarrow> op ctx)"

section \<open>The backend of the file system\<close>

abbreviation (input) u32_max :: u64 where "u32_max \<equiv> 0xFFFFFFFF"

text \<open>The driver's buffer is a value that the read replaces; its addresses have 64 bits, those of a device 32.\<close>

definition fsRead :: "'w device \<Rightarrow> u64 \<Rightarrow> u32 \<Rightarrow> ('w, bytes) op" where
  "fsRead bd lba count = (\<lambda>w.
     if lba > u32_max then (Inl k_ra8_err_out_of_range, w)
     else case ra8_io_blockdev_read (Some bd) (ucast lba) count (w, Some (replicate (unat count * io_block_bytes) 0)) of
       (Inl e, (w', _)) \<Rightarrow> (Inl e, w')
     | (Inr _, (w', buf)) \<Rightarrow> (Inr (case buf of None \<Rightarrow> [] | Some b \<Rightarrow> b), w'))"

definition fsWrite :: "'w device \<Rightarrow> u64 \<Rightarrow> u32 \<Rightarrow> bytes \<Rightarrow> ('w, unit) op" where
  "fsWrite bd lba count buf =
     (if lba > u32_max then throwE k_ra8_err_out_of_range
      else ra8_io_blockdev_write (Some bd) (ucast lba) count (Some buf))"

definition fsGetCapacity :: "'w device \<Rightarrow> ('w, u64 \<times> u32) op" where
  "fsGetCapacity bd =
     bindE (ra8_io_blockdev_get_caps (Some bd) True) (\<lambda>caps.
       returnE (ucast (cap_block_count caps), ucast (cap_logical_block_bytes caps)))"

definition fsErase :: "'w device \<Rightarrow> u64 \<Rightarrow> u64 \<Rightarrow> ('w, unit) op" where
  "fsErase bd lba count =
     bindE (ra8_io_blockdev_get_caps (Some bd) True) (\<lambda>caps.
       if cap_erase_value caps \<noteq> k_ra8_io_erase_value_zero then throwE k_ra8_err_not_supported
       else if lba > u32_max \<or> count > u32_max then throwE k_ra8_err_out_of_range
       else ra8_io_blockdev_erase (Some bd) (ucast lba) (ucast count))"

definition fs_backend_of :: "'w device \<Rightarrow> 'w backend" where
  "fs_backend_of bd = \<lparr>read_block = Some (fsRead bd), write_block = Some (fsWrite bd),
     get_capacity = Some (fsGetCapacity bd), erase_blocks = Some (fsErase bd)\<rparr>"

definition ra8_io_blockdev_as_fs_backend :: "'w device option \<Rightarrow> bool \<Rightarrow> ra8_err + 'w backend" where
  "ra8_io_blockdev_as_fs_backend bd have_out =
     (case validate bd of Inl e \<Rightarrow> Inl e
      | Inr _ \<Rightarrow> (case bd of None \<Rightarrow> Inl k_ra8_err_null_ptr
          | Some device \<Rightarrow> if \<not> have_out then Inl k_ra8_err_null_ptr else Inr (fs_backend_of device)))"

section \<open>The contract of a device\<close>

text \<open>The bytes of \<open>n\<close> blocks from \<open>lba\<close> on.\<close>

definition blocks_from :: "(u32 \<Rightarrow> bytes) \<Rightarrow> u32 \<Rightarrow> nat \<Rightarrow> bytes" where
  "blocks_from c lba n = concat (map (\<lambda>k. c (lba + of_nat k)) [0..<n])"

text \<open>
  What \<^verbatim>\<open>inc/ra8_io_blockdev.h\<close> promises of the calls on a device: a read that succeeds stores the blocks and changes nothing, one that
  fails leaves the buffer of a single block alone; a write that succeeds replaces its block, one that fails changes nothing; an erase changes no
  block outside its range.
\<close>

locale io_device =
  fixes d :: "'w device" and content :: "'w \<Rightarrow> u32 \<Rightarrow> bytes" and valid :: "'w \<Rightarrow> bool"
  assumes block_length: "length (content w l) = io_block_bytes"
    and io_read_same: "valid w \<Longrightarrow> unat count * io_block_bytes \<le> length buf \<Longrightarrow> ra8_io_blockdev_read (Some d) lba count (w, Some buf) = (r, (w', b')) \<Longrightarrow>
      valid w' \<and> content w' = content w"
    and io_read_data: "valid w \<Longrightarrow> unat count * io_block_bytes \<le> length buf \<Longrightarrow>
      ra8_io_blockdev_read (Some d) lba count (w, Some buf) = (Inr (), (w', b')) \<Longrightarrow>
      b' = Some (splice_at buf 0 (blocks_from (content w) lba (unat count)))"
    and io_read_fail: "valid w \<Longrightarrow> length buf = io_block_bytes \<Longrightarrow>
      ra8_io_blockdev_read (Some d) lba 1 (w, Some buf) = (Inl e, (w', b')) \<Longrightarrow> b' = Some buf"
    and io_write_data: "valid w \<Longrightarrow> length buf = io_block_bytes \<Longrightarrow>
      ra8_io_blockdev_write (Some d) lba 1 (Some buf) w = (Inr (), w') \<Longrightarrow> valid w' \<and> content w' = (content w)(lba := buf)"
    and io_write_fail: "valid w \<Longrightarrow> length buf = io_block_bytes \<Longrightarrow>
      ra8_io_blockdev_write (Some d) lba 1 (Some buf) w = (Inl e, w') \<Longrightarrow> valid w' \<and> content w' = content w"
    and io_erase_fail: "valid w \<Longrightarrow> ra8_io_blockdev_erase (Some d) lba count w = (Inl e, w') \<Longrightarrow> valid w' \<and> content w' = content w"
    and io_erase_data: "valid w \<Longrightarrow> ra8_io_blockdev_erase (Some d) lba count w = (Inr (), w') \<Longrightarrow>
      valid w' \<and> unat lba + unat count < 2 ^ 32 \<and> (\<forall>l. unat l < unat lba \<or> unat lba + unat count \<le> unat l \<longrightarrow> content w' l = content w l)"

locale reliable_io = io_device +
  fixes nblocks :: "'w \<Rightarrow> nat"
  assumes few_blocks: "nblocks w < 2 ^ 32"
    and io_read_ok: "valid w \<Longrightarrow> unat lba + unat count \<le> nblocks w \<Longrightarrow> unat count * io_block_bytes \<le> length buf \<Longrightarrow>
      \<exists>w' b'. ra8_io_blockdev_read (Some d) lba count (w, Some buf) = (Inr (), (w', b')) \<and> nblocks w' = nblocks w"
    and io_write_ok: "valid w \<Longrightarrow> unat lba < nblocks w \<Longrightarrow> length buf = io_block_bytes \<Longrightarrow>
      \<exists>w'. ra8_io_blockdev_write (Some d) lba 1 (Some buf) w = (Inr (), w') \<and> nblocks w' = nblocks w"

end
