(* ===== verification/Block_Device.thy ===== *)
theory Block_Device
  imports Io_Blockdev
begin

text \<open>
  The interface between the driver and its medium. \<open>block_device\<close> states the documented contract
  of \<open>ra8_fs_backend_t\<close> (\<^verbatim>\<open>inc/ra8_fs_types.h\<close>) that the driver relies on: a one-block read
  returns the block's contents and changes nothing, a one-block write replaces that block and
  no other. A failed write may leave its own block in any state. \<open>atomic_device\<close> adds that a
  failed write leaves the block as it was, and \<open>reliable_device\<close> that accesses inside the
  medium do not fail.

  The provider modelled here is the repository's RAM block device, \<^verbatim>\<open>libs/ra8_io\<close>
  (\<^verbatim>\<open>ra8_io_blockdev_ram_abi.zig\<close> behind the adapter of \<^verbatim>\<open>ra8_io_blockdev_abi.zig\<close>); the
  interpretations discharge the laws for it.
\<close>

section \<open>The RAM block device\<close>

record ram_state =
  ram_storage :: bytes
  ram_block_count :: u32
  ram_read_only :: bool

abbreviation (input) ram_block_bytes :: nat where "ram_block_bytes \<equiv> 512"
abbreviation (input) ram_min_blocks :: u32 where "ram_min_blocks \<equiv> 1"

definition ram_bounds :: "ram_state \<Rightarrow> u32 \<Rightarrow> u32 \<Rightarrow> bool" where
  "ram_bounds st lba count =
     (if count > ram_block_count st then False
      else if lba > ram_block_count st - count then False
      else True)"

definition ram_span :: "ram_state \<Rightarrow> u32 \<Rightarrow> u32 \<Rightarrow> bytes" where
  "ram_span st lba count = take (unat count * ram_block_bytes) (drop (unat lba * ram_block_bytes) (ram_storage st))"

definition ram_read :: "bool \<Rightarrow> u32 \<Rightarrow> u32 \<Rightarrow> (ram_state \<times> bytes option, unit) op" where
  "ram_read ctx lba count = (\<lambda>(st, buf).
     if \<not> ctx then (Inl k_ra8_err_null_ptr, (st, buf))
     else case buf of None \<Rightarrow> (Inl k_ra8_err_null_ptr, (st, buf))
       | Some dst \<Rightarrow>
           if \<not> ram_bounds st lba count then (Inl k_ra8_err_out_of_range, (st, buf))
           else (Inr (), (st, Some (splice_at dst 0 (ram_span st lba count)))))"

definition ram_write :: "bool \<Rightarrow> u32 \<Rightarrow> u32 \<Rightarrow> bytes option \<Rightarrow> (ram_state, unit) op" where
  "ram_write ctx lba count buf st =
     (if \<not> ctx then (Inl k_ra8_err_null_ptr, st)
      else case buf of None \<Rightarrow> (Inl k_ra8_err_null_ptr, st)
        | Some src \<Rightarrow>
            if ram_read_only st then (Inl k_ra8_err_not_supported, st)
            else if \<not> ram_bounds st lba count then (Inl k_ra8_err_out_of_range, st)
            else (Inr (), st\<lparr>ram_storage := splice_at (ram_storage st) (unat lba * ram_block_bytes)
                (take (unat count * ram_block_bytes) src)\<rparr>))"

definition ram_erase :: "bool \<Rightarrow> u32 \<Rightarrow> u32 \<Rightarrow> (ram_state, unit) op" where
  "ram_erase ctx lba count st =
     (if \<not> ctx then (Inl k_ra8_err_null_ptr, st)
      else if ram_read_only st then (Inl k_ra8_err_not_supported, st)
      else if \<not> ram_bounds st lba count then (Inl k_ra8_err_out_of_range, st)
      else (Inr (), st\<lparr>ram_storage := splice_at (ram_storage st) (unat lba * ram_block_bytes)
              (replicate (unat count * ram_block_bytes) k_ra8_io_erase_value_zero)\<rparr>))"

definition ram_getCaps :: "bool \<Rightarrow> bool \<Rightarrow> (ram_state, io_caps) op" where
  "ram_getCaps ctx have_out =
     (if \<not> ctx \<or> \<not> have_out then throwE k_ra8_err_null_ptr
      else getE (\<lambda>st. \<lparr>cap_block_count = ram_block_count st, cap_erase_unit_blocks = 1,
        cap_program_size_bytes = of_nat ram_block_bytes, cap_logical_block_bytes = of_nat ram_block_bytes,
        cap_erase_value = k_ra8_io_erase_value_zero, cap_must_erase_before_write = False, cap_read_only = ram_read_only st\<rparr>))"

definition ram_iface :: "ram_state iface" where
  "ram_iface = \<lparr>io_read = Some ram_read, io_write = Some ram_write, io_erase = Some ram_erase,
     io_get_caps = Some ram_getCaps, io_sync = None\<rparr>"

definition ram_device :: "ram_state device" where
  "ram_device = \<lparr>bd_iface = Some ram_iface, bd_ctx = True\<rparr>"

text \<open>\<open>bd\<close> and \<open>state\<close> are the structures to fill, null or not; the result is what is stored in them.\<close>

definition ra8_io_blockdev_ram_init ::
    "bool \<Rightarrow> bool \<Rightarrow> bytes option \<Rightarrow> u32 \<Rightarrow> bool \<Rightarrow> ra8_err + ram_state device \<times> ram_state" where
  "ra8_io_blockdev_ram_init bd state storage block_count read_only =
     (if \<not> bd \<or> \<not> state then Inl k_ra8_err_null_ptr
      else case storage of None \<Rightarrow> Inl k_ra8_err_null_ptr
        | Some bytes \<Rightarrow>
            if block_count < ram_min_blocks then Inl k_ra8_err_invalid_size
            else Inr (ram_device, \<lparr>ram_storage = bytes, ram_block_count = block_count, ram_read_only = read_only\<rparr>))"

definition ram_backend :: "ram_state backend" where
  "ram_backend = fs_backend_of ram_device"

text \<open>
  What the medium holds. The storage the caller of \<open>ra8_io_blockdev_ram_init\<close> hands over has
  \<open>block_count\<close> blocks; \<open>ram_content\<close> pads the address space beyond it with zero blocks.
\<close>

definition ram_content :: "ram_state \<Rightarrow> u64 \<Rightarrow> bytes" where
  "ram_content st lba =
     take ram_block_bytes
       (drop (unat lba * ram_block_bytes) (ram_storage st) @ replicate ram_block_bytes 0)"

section \<open>The contract\<close>

locale block_device =
  fixes b :: "'w backend" and content :: "'w \<Rightarrow> u64 \<Rightarrow> bytes" and bs :: nat
    and valid :: "'w \<Rightarrow> bool"
  assumes has_read: "\<exists>rd. read_block b = Some rd"
    and has_write: "\<exists>wr. write_block b = Some wr"
    and content_length: "length (content w lba) = bs"
    and read_same: "read_block b = Some rd \<Longrightarrow> valid w \<Longrightarrow> rd lba 1 w = (r, w') \<Longrightarrow>
      valid w' \<and> content w' = content w"
    and read_data: "read_block b = Some rd \<Longrightarrow> valid w \<Longrightarrow> rd lba 1 w = (Inr buf, w') \<Longrightarrow>
      buf = content w lba"
    and write_data: "write_block b = Some wr \<Longrightarrow> valid w \<Longrightarrow> length buf = bs \<Longrightarrow>
      wr lba 1 buf w = (Inr (), w') \<Longrightarrow> valid w' \<and> content w' = (content w)(lba := buf)"
    and write_fail: "write_block b = Some wr \<Longrightarrow> valid w \<Longrightarrow> length buf = bs \<Longrightarrow>
      wr lba 1 buf w = (Inl e, w') \<Longrightarrow> valid w' \<and> (\<forall>l. l \<noteq> lba \<longrightarrow> content w' l = content w l)"

locale atomic_device = block_device +
  assumes write_fail_same: "write_block b = Some wr \<Longrightarrow> valid w \<Longrightarrow> length buf = bs \<Longrightarrow>
      wr lba 1 buf w = (Inl e, w') \<Longrightarrow> content w' = content w"

locale reliable_device = atomic_device +
  fixes nblocks :: "'w \<Rightarrow> nat"
  assumes read_ok: "read_block b = Some rd \<Longrightarrow> valid w \<Longrightarrow> unat lba < nblocks w \<Longrightarrow>
      \<exists>buf w'. rd lba 1 w = (Inr buf, w') \<and> nblocks w' = nblocks w"
    and write_ok: "write_block b = Some wr \<Longrightarrow> valid w \<Longrightarrow> unat lba < nblocks w \<Longrightarrow>
      length buf = bs \<Longrightarrow> \<exists>w'. wr lba 1 buf w = (Inr (), w') \<and> nblocks w' = nblocks w"

section \<open>The RAM device keeps the contract\<close>

text \<open>The state \<open>ra8_io_blockdev_ram_init\<close> sets up: storage for every block, writable.\<close>

definition ram_valid :: "ram_state \<Rightarrow> bool" where
  "ram_valid st \<longleftrightarrow> length (ram_storage st) = unat (ram_block_count st) * ram_block_bytes
     \<and> \<not> ram_read_only st"

lemma ram_bounds_one: "ram_bounds st lba 1 \<longleftrightarrow> lba < ram_block_count st"
proof (cases "ram_block_count st = 0")
  case True
  then show ?thesis by (simp add: ram_bounds_def)
next
  case False
  then have "1 \<le> unat (ram_block_count st)"
    by (metis One_nat_def Suc_leI unat_gt_0)
  with False show ?thesis
    by (auto simp: ram_bounds_def word_less_nat_alt word_le_nat_alt unat_sub_if_size)
qed

lemma ram_block_span:
  assumes "ram_valid st" and "lba < ram_block_count st"
  shows "unat lba * 512 + 512 \<le> length (ram_storage st)"
proof -
  from assms(2) have "Suc (unat lba) \<le> unat (ram_block_count st)"
    by (simp add: word_less_nat_alt)
  then have "Suc (unat lba) * 512 \<le> unat (ram_block_count st) * 512"
    by (rule mult_le_mono1)
  with assms(1) show ?thesis by (simp add: ram_valid_def)
qed

lemma unat_ucast_low: "lba \<le> u32_max \<Longrightarrow> unat (ucast lba :: u32) = unat (lba :: u64)"
  by (simp add: unat_ucast_mod word_le_nat_alt)

lemma ram_content_slice:
  assumes "ram_valid st" and "ucast lba < ram_block_count st" and "lba \<le> u32_max"
  shows "ram_content st lba = take 512 (drop (unat lba * 512) (ram_storage st))"
  using ram_block_span [OF assms(1,2)] assms(3) by (simp add: ram_content_def unat_ucast_low)

lemma ram_dispatch:
  "ra8_io_blockdev_read (Some ram_device) lba count (st, Some buf) = ram_read True lba count (st, Some buf)"
  "ra8_io_blockdev_write (Some ram_device) lba count (Some src) = ram_write True lba count (Some src)"
  "ra8_io_blockdev_erase (Some ram_device) lba count = ram_erase True lba count"
  "ra8_io_blockdev_get_caps (Some ram_device) True = ram_getCaps True True"
  by (simp_all add: ra8_io_blockdev_read_def ra8_io_blockdev_write_def ra8_io_blockdev_erase_def ra8_io_blockdev_get_caps_def validate_def
      ram_device_def ram_iface_def bindE_def returnR_def fun_eq_iff)

lemma ram_backend_fields:
  "read_block ram_backend = Some (fsRead ram_device)" "write_block ram_backend = Some (fsWrite ram_device)"
  "get_capacity ram_backend = Some (fsGetCapacity ram_device)" "erase_blocks ram_backend = Some (fsErase ram_device)"
  by (simp_all add: ram_backend_def fs_backend_of_def)

lemma fsRead_one:
  assumes "ram_valid w"
  shows "fsRead ram_device lba 1 w = (if lba \<le> u32_max \<and> ucast lba < ram_block_count w
    then (Inr (ram_content w lba), w) else (Inl k_ra8_err_out_of_range, w))"
proof (cases "lba \<le> u32_max \<and> ucast lba < ram_block_count w")
  case True
  moreover have "ram_span w (ucast lba) 1 = ram_content w lba"
    using True assms by (simp add: ram_span_def ram_content_slice unat_ucast_low)
  moreover have "length (ram_content w lba) = 512" by (simp add: ram_content_def)
  ultimately show ?thesis by (simp add: fsRead_def ram_dispatch ram_read_def ram_bounds_one splice_at_def not_less)
next
  case False
  then show ?thesis by (auto simp: fsRead_def ram_dispatch ram_read_def ram_bounds_one)
qed

lemma fsWrite_one:
  assumes "ram_valid w" and "length buf = 512"
  shows "fsWrite ram_device lba 1 buf w = (if lba \<le> u32_max \<and> ucast lba < ram_block_count w
    then (Inr (), w\<lparr>ram_storage := splice_at (ram_storage w) (unat lba * 512) buf\<rparr>)
    else (Inl k_ra8_err_out_of_range, w))"
  using assms
  by (simp add: fsWrite_def ram_dispatch ram_write_def ram_bounds_one unat_ucast_low not_le ram_valid_def)

lemma ram_content_write:
  assumes v: "ram_valid w" and len: "length buf = 512" and "lba \<le> u32_max"
    and "ucast lba < ram_block_count w"
    and w': "w' = w\<lparr>ram_storage := splice_at (ram_storage w) (unat lba * 512) buf\<rparr>"
  shows "ram_valid w'" and "ram_content w' = (ram_content w)(lba := buf)"
proof -
  let ?o = "unat lba * 512"
  from ram_block_span [OF v assms(4)] assms(3)
  have span: "?o + 512 \<le> length (ram_storage w)" by (simp add: unat_ucast_low)
  with v len show "ram_valid w'" by (simp add: ram_valid_def w')
  have "ram_content w' l = ((ram_content w)(lba := buf)) l" for l
  proof (cases "l = lba")
    case True
    with span len show ?thesis
      by (simp add: ram_content_def w' splice_at_def)
  next
    case False
    then have ne: "unat l \<noteq> unat lba" by (simp add: word_unat_eq_iff)
    have "ram_content w' l ! i = ram_content w l ! i" if "i < 512" for i
    proof (cases "unat l * 512 + i < length (ram_storage w)")
      case True
      have "unat l * 512 + i < ?o \<or> ?o + 512 \<le> unat l * 512 + i"
        using ne that by (cases "unat l < unat lba") auto
      with True that span len show ?thesis
        by (auto simp: ram_content_def w' nth_append nth_splice_at)
    next
      case False
      with that span len show ?thesis
        by (auto simp: ram_content_def w' nth_append)
    qed
    then show ?thesis
      using False by (auto intro!: nth_equalityI simp: ram_content_def)
  qed
  then show "ram_content w' = (ram_content w)(lba := buf)" by blast
qed

interpretation ram: reliable_device ram_backend ram_content 512 ram_valid
  "\<lambda>st. unat (ram_block_count st)"
proof unfold_locales
  fix w :: ram_state and w' lba rd and buf :: bytes and e wr
  show "\<exists>rd. read_block ram_backend = Some rd" "\<exists>wr. write_block ram_backend = Some wr"
    by (simp_all add: ram_backend_fields)
  show "length (ram_content w lba) = 512" by (simp add: ram_content_def)
  show "read_block ram_backend = Some rd \<Longrightarrow> ram_valid w \<Longrightarrow> rd lba 1 w = (r, w') \<Longrightarrow>
      ram_valid w' \<and> ram_content w' = ram_content w" for r
    by (auto simp: ram_backend_fields fsRead_one split: if_splits)
  show "read_block ram_backend = Some rd \<Longrightarrow> ram_valid w \<Longrightarrow> rd lba 1 w = (Inr buf, w') \<Longrightarrow>
      buf = ram_content w lba"
    by (auto simp: ram_backend_fields fsRead_one split: if_splits)
  show "write_block ram_backend = Some wr \<Longrightarrow> ram_valid w \<Longrightarrow> length buf = 512 \<Longrightarrow>
      wr lba 1 buf w = (Inr (), w') \<Longrightarrow>
      ram_valid w' \<and> ram_content w' = (ram_content w)(lba := buf)"
    by (auto simp: ram_backend_fields fsWrite_one ram_content_write split: if_splits)
  show "write_block ram_backend = Some wr \<Longrightarrow> ram_valid w \<Longrightarrow> length buf = 512 \<Longrightarrow>
      wr lba 1 buf w = (Inl e, w') \<Longrightarrow>
      ram_valid w' \<and> (\<forall>l. l \<noteq> lba \<longrightarrow> ram_content w' l = ram_content w l)"
    by (auto simp: ram_backend_fields fsWrite_one split: if_splits)
  show "write_block ram_backend = Some wr \<Longrightarrow> ram_valid w \<Longrightarrow> length buf = 512 \<Longrightarrow>
      wr lba 1 buf w = (Inl e, w') \<Longrightarrow> ram_content w' = ram_content w"
    by (auto simp: ram_backend_fields fsWrite_one split: if_splits)
  have low: "unat lba < unat (ram_block_count w) \<Longrightarrow> lba \<le> u32_max \<and> ucast lba < ram_block_count w"
    using unat_lt [of "ram_block_count w"]
    by (simp add: word_le_nat_alt word_less_nat_alt unat_ucast_mod)
  then show "read_block ram_backend = Some rd \<Longrightarrow> ram_valid w \<Longrightarrow>
      unat lba < unat (ram_block_count w) \<Longrightarrow> \<exists>buf w'. rd lba 1 w = (Inr buf, w') \<and>
        unat (ram_block_count w') = unat (ram_block_count w)"
    by (auto simp: ram_backend_fields fsRead_one)
  from low show "write_block ram_backend = Some wr \<Longrightarrow> ram_valid w \<Longrightarrow>
      unat lba < unat (ram_block_count w) \<Longrightarrow> length buf = 512 \<Longrightarrow>
      \<exists>w'. wr lba 1 buf w = (Inr (), w') \<and> unat (ram_block_count w') = unat (ram_block_count w)"
    by (auto simp: ram_backend_fields fsWrite_one)
qed

section \<open>Any device of the fabric\<close>

text \<open>The 64-bit address space of the driver: no block past the 32-bit addresses of a device is ever read or written.\<close>

definition wide :: "('w \<Rightarrow> u32 \<Rightarrow> bytes) \<Rightarrow> 'w \<Rightarrow> u64 \<Rightarrow> bytes" where
  "wide content w lba = (if lba \<le> u32_max then content w (ucast lba) else replicate io_block_bytes 0)"

lemma wide_update:
  assumes "lba \<le> u32_max" and "content w' = (content w)(ucast lba := buf)"
  shows "wide content w' = (wide content w)(lba := buf)"
proof
  fix l :: u64
  have "l = lba" if "l \<le> u32_max" "(ucast l :: u32) = ucast lba"
    using that assms(1) unat_ucast_low [of l] unat_ucast_low [of lba] by (metis word_unat_eq_iff)
  then show "wide content w' l = ((wide content w)(lba := buf)) l"
    using assms by (auto simp: wide_def)
qed

lemma blocks_from_one [simp]: "blocks_from c lba 1 = c lba" "blocks_from c lba (Suc 0) = c lba"
  by (simp_all add: blocks_from_def)

context io_device
begin

lemma fs_read_run:
  assumes "valid w" and "fsRead d lba 1 w = (r, w')"
  shows "valid w' \<and> content w' = content w \<and> (\<forall>buf. r = Inr buf \<longrightarrow> buf = wide content w lba)"
proof (cases "lba > u32_max")
  case True
  then show ?thesis using assms by (auto simp: fsRead_def)
next
  case False
  obtain r1 w1 b1 where run: "ra8_io_blockdev_read (Some d) (ucast lba) 1 (w, Some (replicate 512 0)) = (r1, (w1, b1))"
    by (metis prod.exhaust)
  then have w': "w1 = w'" "r = (case r1 of Inl e \<Rightarrow> Inl e | Inr _ \<Rightarrow> Inr (case b1 of None \<Rightarrow> [] | Some b \<Rightarrow> b))"
    using assms(2) False by (auto simp: fsRead_def split: sum.splits)
  have "b1 = Some (content w (ucast lba))" if "r1 = Inr ()"
    using io_read_data [OF assms(1) _ run [unfolded that]] block_length [of w "ucast lba"] by (simp add: splice_at_def)
  then show ?thesis
    using io_read_same [OF assms(1) _ run] w' False by (cases r1) (auto simp: wide_def not_less)
qed

lemma fs_write_run:
  assumes "valid w" and "length buf = io_block_bytes" and "fsWrite d lba 1 buf w = (r, w')"
  shows "valid w' \<and> wide content w' = (if isl r then wide content w else (wide content w)(lba := buf))"
proof (cases "lba > u32_max")
  case True
  then show ?thesis using assms by (auto simp: fsWrite_def)
next
  case False
  then have run: "ra8_io_blockdev_write (Some d) (ucast lba) 1 (Some buf) w = (r, w')" using assms(3) by (simp add: fsWrite_def)
  show ?thesis
  proof (cases r)
    case (Inl e)
    then have "valid w' \<and> content w' = content w" using io_write_fail [OF assms(1,2)] run by blast
    then show ?thesis using Inl by (simp add: wide_def fun_eq_iff)
  next
    case (Inr x)
    then have "valid w' \<and> content w' = (content w)(ucast lba := buf)" using io_write_data [OF assms(1,2)] run by auto
    then show ?thesis using wide_update [of lba content w' w buf] False Inr by (simp add: not_less)
  qed
qed

lemma as_atomic_device: "atomic_device (fs_backend_of d) (wide content) io_block_bytes valid"
proof unfold_locales
  fix w w' lba and rd and wr and buf :: bytes and e
  show "\<exists>rd. read_block (fs_backend_of d) = Some rd" "\<exists>wr. write_block (fs_backend_of d) = Some wr"
    by (simp_all add: fs_backend_of_def)
  show "length (wide content w lba) = 512" by (simp add: wide_def block_length)
  show "read_block (fs_backend_of d) = Some rd \<Longrightarrow> valid w \<Longrightarrow> rd lba 1 w = (r, w') \<Longrightarrow>
      valid w' \<and> wide content w' = wide content w" for r
    using fs_read_run by (fastforce simp: fs_backend_of_def wide_def fun_eq_iff)
  show "read_block (fs_backend_of d) = Some rd \<Longrightarrow> valid w \<Longrightarrow> rd lba 1 w = (Inr buf, w') \<Longrightarrow> buf = wide content w lba"
    using fs_read_run by (fastforce simp: fs_backend_of_def)
  assume "write_block (fs_backend_of d) = Some wr" and "valid w" and "length buf = 512"
  then have run: "valid w' \<and> wide content w' = (if isl r then wide content w else (wide content w)(lba := buf))"
    if "wr lba 1 buf w = (r, w')" for r
    using fs_write_run [of w buf lba r w'] that by (simp add: fs_backend_of_def)
  show "wr lba 1 buf w = (Inr (), w') \<Longrightarrow> valid w' \<and> wide content w' = (wide content w)(lba := buf)" using run by force
  show "wr lba 1 buf w = (Inl e, w') \<Longrightarrow> valid w' \<and> (\<forall>l. l \<noteq> lba \<longrightarrow> wide content w' l = wide content w l)" using run by force
  show "wr lba 1 buf w = (Inl e, w') \<Longrightarrow> wide content w' = wide content w" using run by force
qed

end

context reliable_io
begin

lemma as_reliable_device: "reliable_device (fs_backend_of d) (wide content) io_block_bytes valid nblocks"
proof (rule reliable_device.intro [OF as_atomic_device], unfold_locales)
  fix w lba and rd and wr and buf :: bytes
  have low: "lba \<le> u32_max \<and> unat (ucast lba :: u32) = unat lba" if "unat lba < nblocks w"
    using that few_blocks [of w] by (simp add: word_le_nat_alt unat_ucast_small)
  show "\<exists>buf w'. rd lba 1 w = (Inr buf, w') \<and> nblocks w' = nblocks w"
    if "read_block (fs_backend_of d) = Some rd" "valid w" "unat lba < nblocks w"
    using that low io_read_ok [of w "ucast lba" 1 "replicate 512 0"] by (auto simp: fs_backend_of_def fsRead_def not_less)
  show "\<exists>w'. wr lba 1 buf w = (Inr (), w') \<and> nblocks w' = nblocks w"
    if "write_block (fs_backend_of d) = Some wr" "valid w" "unat lba < nblocks w" "length buf = 512"
    using that low io_write_ok [of w "ucast lba" buf] by (auto simp: fs_backend_of_def fsWrite_def not_less)
qed

end

section \<open>The RAM device in the fabric\<close>

lemma ram_bounds_nat: "ram_bounds st lba count \<longleftrightarrow> unat lba + unat count \<le> unat (ram_block_count st)"
  by (auto simp: ram_bounds_def word_less_nat_alt unat_sub_if_size not_less)

lemma take_chunks: "concat (map (\<lambda>k. take n (drop (a + k * n) xs)) [0..<m]) = take (m * n) (drop a xs)"
proof (induction m)
  case (Suc m)
  have "take (Suc m * n) (drop a xs) = take (m * n) (drop a xs) @ take n (drop (m * n) (drop a xs))"
    by (metis add.commute mult_Suc take_add)
  then show ?case using Suc by (simp add: ac_simps)
qed simp

lemma wide_addr:
  fixes l :: u32
  shows "unat (ucast l :: u64) = unat l" "(ucast (ucast l :: u64) :: u32) = l" "(ucast l :: u64) \<le> u32_max"
proof -
  show u: "unat (ucast l :: u64) = unat l" using unat_lt [of l] by (intro unat_ucast_small) simp
  then show "(ucast (ucast l :: u64) :: u32) = l"
    using unat_lt [of l] by (intro word_unat_eq_iff [THEN iffD2]) (simp add: unat_ucast_mod)
  show "(ucast l :: u64) \<le> u32_max" using u unat_lt [of l] by (simp add: word_le_nat_alt)
qed

lemma ram_block: "ram_valid st \<Longrightarrow> l < ram_block_count st \<Longrightarrow> ram_content st (ucast l) = take 512 (drop (unat l * 512) (ram_storage st))"
  using ram_content_slice [of st "ucast l"] by (simp add: wide_addr)

lemma ram_span_blocks:
  assumes v: "ram_valid st" and b: "unat lba + unat count \<le> unat (ram_block_count st)"
  shows "ram_span st lba count = blocks_from (\<lambda>l. ram_content st (ucast l)) lba (unat count)"
proof -
  have "ram_content st (ucast (lba + of_nat k :: u32)) = take 512 (drop (unat lba * 512 + k * 512) (ram_storage st))" if "k < unat count" for k
  proof -
    have "unat lba + k < 2 ^ 32" using that b unat_lt [of "ram_block_count st"] by simp
    then have u: "unat (lba + of_nat k) = unat lba + k"
      by (subst unat_add_small) (simp_all add: unat_of_nat_small)
    moreover have "lba + of_nat k < ram_block_count st" using that b u by (simp add: word_less_nat_alt)
    ultimately show ?thesis using ram_block [OF v] by (simp add: add_mult_distrib)
  qed
  then have "blocks_from (\<lambda>l. ram_content st (ucast l)) lba (unat count) =
      concat (map (\<lambda>k. take 512 (drop (unat lba * 512 + k * 512) (ram_storage st))) [0..<unat count])"
    unfolding blocks_from_def by (intro arg_cong [where f = concat] map_cong) auto
  then show ?thesis by (simp only: take_chunks ram_span_def)
qed

lemma ram_content_outside:
  assumes "o' + length xs \<le> length (ram_storage st)" and "unat l * 512 + 512 \<le> o' \<or> o' + length xs \<le> unat l * 512"
  shows "ram_content (st\<lparr>ram_storage := splice_at (ram_storage st) o' xs\<rparr>) l = ram_content st l"
proof (rule nth_equalityI)
  fix i
  assume "i < length (ram_content (st\<lparr>ram_storage := splice_at (ram_storage st) o' xs\<rparr>) l)"
  then have "i < 512" by (simp add: ram_content_def)
  then show "ram_content (st\<lparr>ram_storage := splice_at (ram_storage st) o' xs\<rparr>) l ! i = ram_content st l ! i"
    using assms by (auto simp: ram_content_def nth_append nth_splice_at)
qed (simp add: ram_content_def)

interpretation ram_io: reliable_io ram_device "\<lambda>st l. ram_content st (ucast l)" ram_valid "\<lambda>st. unat (ram_block_count st)"
proof unfold_locales
  fix w w' :: ram_state and lba count :: u32 and buf :: bytes and l :: u32 and r e and b'
  show "length (ram_content w (ucast l)) = 512" by (simp add: ram_content_def)
  show "unat (ram_block_count w) < 2 ^ 32" using unat_lt [of "ram_block_count w"] by simp
  assume v: "ram_valid w"
  show "unat count * 512 \<le> length buf \<Longrightarrow> ra8_io_blockdev_read (Some ram_device) lba count (w, Some buf) = (r, (w', b')) \<Longrightarrow>
      ram_valid w' \<and> (\<lambda>l. ram_content w' (ucast l)) = (\<lambda>l. ram_content w (ucast l))"
    using v by (auto simp: ram_dispatch ram_read_def split: if_splits)
  show "unat count * 512 \<le> length buf \<Longrightarrow> ra8_io_blockdev_read (Some ram_device) lba count (w, Some buf) = (Inr (), (w', b')) \<Longrightarrow>
      b' = Some (splice_at buf 0 (blocks_from (\<lambda>l. ram_content w (ucast l)) lba (unat count)))"
    using ram_span_blocks [OF v] by (auto simp: ram_dispatch ram_read_def ram_bounds_nat split: if_splits)
  show "length buf = 512 \<Longrightarrow> ra8_io_blockdev_read (Some ram_device) lba 1 (w, Some buf) = (Inl e, (w', b')) \<Longrightarrow> b' = Some buf"
    by (auto simp: ram_dispatch ram_read_def split: if_splits)
  show "unat lba + unat count \<le> unat (ram_block_count w) \<Longrightarrow> unat count * 512 \<le> length buf \<Longrightarrow>
      \<exists>w' b'. ra8_io_blockdev_read (Some ram_device) lba count (w, Some buf) = (Inr (), (w', b')) \<and>
        unat (ram_block_count w') = unat (ram_block_count w)"
    by (simp add: ram_dispatch ram_read_def ram_bounds_nat)
  show "ra8_io_blockdev_erase (Some ram_device) lba count w = (Inl e, w') \<Longrightarrow>
      ram_valid w' \<and> (\<lambda>l. ram_content w' (ucast l)) = (\<lambda>l. ram_content w (ucast l))"
    using v by (auto simp: ram_dispatch ram_erase_def split: if_splits)
  have span: "unat lba * 512 + unat count * 512 \<le> length (ram_storage w)" if "unat lba + unat count \<le> unat (ram_block_count w)"
    using mult_le_mono1 [OF that, of 512] v by (simp add: ram_valid_def add_mult_distrib)
  show "ram_valid w' \<and> unat lba + unat count < 2 ^ 32 \<and>
      (\<forall>l :: u32. unat l < unat lba \<or> unat lba + unat count \<le> unat l \<longrightarrow> ram_content w' (ucast l) = ram_content w (ucast l))"
    if run: "ra8_io_blockdev_erase (Some ram_device) lba count w = (Inr (), w')"
  proof -
    from run have b: "unat lba + unat count \<le> unat (ram_block_count w)"
      and w': "w' = w\<lparr>ram_storage := splice_at (ram_storage w) (unat lba * 512) (replicate (unat count * 512) 0)\<rparr>"
      by (auto simp: ram_dispatch ram_erase_def ram_bounds_nat split: if_splits)
    have "ram_content w' (ucast l) = ram_content w (ucast l)" if "unat l < unat lba \<or> unat lba + unat count \<le> unat l" for l :: u32
      unfolding w' by (rule ram_content_outside) (use that span [OF b] in \<open>auto simp: wide_addr\<close>)
    moreover have "ram_valid w'" using v span [OF b] by (simp add: w' ram_valid_def)
    ultimately show ?thesis using b unat_lt [of "ram_block_count w"] by auto
  qed
  assume len: "length buf = 512"
  have one: "ra8_io_blockdev_write (Some ram_device) lba 1 (Some buf) w = fsWrite ram_device (ucast lba) 1 buf w"
    using wide_addr(3) [of lba] by (simp add: fsWrite_def wide_addr not_less [symmetric])
  show "ra8_io_blockdev_write (Some ram_device) lba 1 (Some buf) w = (Inl e, w') \<Longrightarrow>
      ram_valid w' \<and> (\<lambda>l. ram_content w' (ucast l)) = (\<lambda>l. ram_content w (ucast l))"
    using v by (auto simp: one fsWrite_one [OF v len] split: if_splits)
  show "ram_valid w' \<and> (\<lambda>l. ram_content w' (ucast l)) = (\<lambda>l. ram_content w (ucast l))(lba := buf)"
    if "ra8_io_blockdev_write (Some ram_device) lba 1 (Some buf) w = (Inr (), w')"
  proof -
    have "ram_valid w' \<and> ram_content w' = (ram_content w)(ucast lba := buf)"
      using ram_content_write [OF v len wide_addr(3) [of lba]] that by (auto simp: one fsWrite_one [OF v len] wide_addr split: if_splits)
    moreover have "(ucast l :: u64) = ucast lba \<longleftrightarrow> l = lba" for l :: u32 by (metis wide_addr(2))
    ultimately show ?thesis by (simp add: fun_eq_iff)
  qed
  show "unat lba < unat (ram_block_count w) \<Longrightarrow>
      \<exists>w'. ra8_io_blockdev_write (Some ram_device) lba 1 (Some buf) w = (Inr (), w') \<and>
        unat (ram_block_count w') = unat (ram_block_count w)"
    by (simp add: one fsWrite_one [OF v len] wide_addr word_less_nat_alt)
qed

end
