(* ===== verification/Fat_Alloc.thy ===== *)
theory Fat_Alloc
  imports Block_Device
begin

text \<open>
  \<^verbatim>\<open>ra8_fs_fat_alloc.c\<close>: the per-mount allocator slots (next-free hint, free-cluster count,
  FSInfo location), the one-sector FAT cache that every mount shares, and the FAT32 FSInfo
  seed and write-back. The lemmas show that the cache is transparent (a cached read returns what
  the medium holds), that the slot table keeps one slot per mount, and how hint and count move.
\<close>

section \<open>Slots\<close>

primrec slot_search :: "alloc_state list \<Rightarrow> nat option \<Rightarrow> nat \<Rightarrow> nat option" where
  "slot_search [] p i = None"
| "slot_search (a # xs) p i = (if as_owner a = p then Some i else slot_search xs p (Suc i))"

definition internal_state_for :: "nat option \<Rightarrow> 'w fs \<Rightarrow> nat option" where
  "internal_state_for p s = slot_search (s_alloc s) p 0"

definition slot_update :: "nat \<Rightarrow> (alloc_state \<Rightarrow> alloc_state) \<Rightarrow> 'w fs \<Rightarrow> 'w fs" where
  "slot_update i f s = s\<lparr>s_alloc := (s_alloc s)[i := f (s_alloc s ! i)]\<rparr>"

definition priv_alloc_state_bind :: "'w mount \<Rightarrow> 'w fs \<Rightarrow> 'w fs" where
  "priv_alloc_state_bind m s =
     (let st = (case internal_state_for (Some (m_addr m)) s of
                  None \<Rightarrow> internal_state_for None s
                | Some i \<Rightarrow> Some i)
      in case st of None \<Rightarrow> s
         | Some i \<Rightarrow> slot_update i (\<lambda>_. \<lparr>as_owner = Some (m_addr m),
             as_next_free = k_cluster_first_data, as_free_count = k_fs_free_unknown,
             as_fsinfo_lba = k_fs_fsinfo_absent, as_bitmap_lba = k_fs_bitmap_unknown,
             as_dirty = False\<rparr>) s)"

definition priv_alloc_state_release :: "'w mount \<Rightarrow> 'w fs \<Rightarrow> 'w fs" where
  "priv_alloc_state_release m s =
     (let s1 = (case internal_state_for (Some (m_addr m)) s of None \<Rightarrow> s
                | Some i \<Rightarrow> slot_update i (\<lambda>_. alloc_state_zero) s)
      in if s_fat_cache_owner s1 = Some (m_addr m)
         then s1\<lparr>s_fat_cache_lba := k_fs_cache_empty, s_fat_cache_owner := None\<rparr>
         else s1)"

section \<open>The FAT sector cache\<close>

definition internal_lba_is_cacheable :: "'w mount \<Rightarrow> u64 \<Rightarrow> bool" where
  "internal_lba_is_cacheable m lba \<longleftrightarrow> lba - m_first_fat_lba m < ucast (m_fat_size_sectors m)"

text \<open>Filling the cache: \<open>priv_byte_copy(s_fat_cache, buf, priv_bps(m))\<close> and the key.\<close>

definition cache_fill :: "'w mount \<Rightarrow> bytes \<Rightarrow> u64 \<Rightarrow> 'w fs \<Rightarrow> 'w fs" where
  "cache_fill m buf lba s =
     s\<lparr>s_fat_cache := priv_byte_copy (s_fat_cache s) 0 buf 0 (unat (priv_bps m)),
       s_fat_cache_lba := lba, s_fat_cache_owner := Some (m_addr m)\<rparr>"

definition priv_fat_sector_read :: "'w mount \<Rightarrow> u64 \<Rightarrow> ('w fs, bytes) op" where
  "priv_fat_sector_read m lba =
     (if \<not> internal_lba_is_cacheable m lba then priv_read_sector m lba
      else bindE (getE (\<lambda>s. s)) (\<lambda>s.
        if s_fat_cache_owner s = Some (m_addr m) \<and> s_fat_cache_lba s = lba
        then returnE (take (unat (priv_bps m)) (s_fat_cache s))
        else bindE (priv_read_sector m lba) (\<lambda>buf.
          thenE (modifyE (cache_fill m buf lba)) (returnE buf))))"

definition priv_fat_sector_wrote :: "'w mount \<Rightarrow> bytes \<Rightarrow> u64 \<Rightarrow> 'w fs \<Rightarrow> 'w fs" where
  "priv_fat_sector_wrote m buf lba s =
     (if \<not> internal_lba_is_cacheable m lba then s else cache_fill m buf lba s)"

section \<open>Next-free hint and free-cluster count\<close>

definition priv_alloc_hint_get :: "'w mount \<Rightarrow> 'w fs \<Rightarrow> u32" where
  "priv_alloc_hint_get m s =
     (case internal_state_for (Some (m_addr m)) s of None \<Rightarrow> k_cluster_first_data
      | Some i \<Rightarrow> as_next_free (s_alloc s ! i))"

definition priv_alloc_hint_set :: "'w mount \<Rightarrow> u32 \<Rightarrow> 'w fs \<Rightarrow> 'w fs" where
  "priv_alloc_hint_set m cluster s =
     (case internal_state_for (Some (m_addr m)) s of None \<Rightarrow> s
      | Some i \<Rightarrow> slot_update i (\<lambda>a. a\<lparr>as_next_free := cluster\<rparr>) s)"

definition priv_alloc_hint_lower :: "'w mount \<Rightarrow> u32 \<Rightarrow> 'w fs \<Rightarrow> 'w fs" where
  "priv_alloc_hint_lower m cluster s =
     (case internal_state_for (Some (m_addr m)) s of None \<Rightarrow> s
      | Some i \<Rightarrow> slot_update i (\<lambda>a. if cluster < as_next_free a
                                  then a\<lparr>as_next_free := cluster\<rparr> else a) s)"

definition priv_free_count_took :: "'w mount \<Rightarrow> u32 \<Rightarrow> 'w fs \<Rightarrow> 'w fs" where
  "priv_free_count_took m n s =
     (case internal_state_for (Some (m_addr m)) s of None \<Rightarrow> s
      | Some i \<Rightarrow> slot_update i (\<lambda>a0. let a = a0\<lparr>as_dirty := True\<rparr> in
           if as_free_count a = k_fs_free_unknown then a
           else a\<lparr>as_free_count := (if as_free_count a \<ge> n then as_free_count a - n else 0)\<rparr>) s)"

definition priv_free_count_gave :: "'w mount \<Rightarrow> u32 \<Rightarrow> 'w fs \<Rightarrow> 'w fs" where
  "priv_free_count_gave m n s =
     (case internal_state_for (Some (m_addr m)) s of None \<Rightarrow> s
      | Some i \<Rightarrow> slot_update i (\<lambda>a0. let a = a0\<lparr>as_dirty := True\<rparr> in
           if as_free_count a = k_fs_free_unknown then a
           else (let raised = as_free_count a + n in
             a\<lparr>as_free_count := (if raised > m_count_of_clusters m then m_count_of_clusters m
                                 else raised)\<rparr>)) s)"

definition priv_free_count_peek :: "'w mount \<Rightarrow> 'w fs \<Rightarrow> u32" where
  "priv_free_count_peek m s =
     (case internal_state_for (Some (m_addr m)) s of None \<Rightarrow> k_fs_free_unknown
      | Some i \<Rightarrow> as_free_count (s_alloc s ! i))"

definition priv_free_count_cache :: "'w mount \<Rightarrow> u32 \<Rightarrow> 'w fs \<Rightarrow> 'w fs" where
  "priv_free_count_cache m n s =
     (case internal_state_for (Some (m_addr m)) s of None \<Rightarrow> s
      | Some i \<Rightarrow> slot_update i (\<lambda>a. a\<lparr>as_free_count :=
           (if n > m_count_of_clusters m then m_count_of_clusters m else n)\<rparr>) s)"

section \<open>FAT32 FSInfo\<close>

definition internal_fsinfo_locate :: "'w mount \<Rightarrow> ('w fs, u32) op" where
  "internal_fsinfo_locate m =
     bindE (priv_read_sector m 0) (\<lambda>boot.
       let lba = ucast (priv_rd16 boot k_fmt_off_f32_fsinfo) :: u32 in
       if lba = k_fs_fsinfo_absent then returnE k_fs_fsinfo_absent
       else if lba \<ge> m_reserved_sectors m then returnE k_fs_fsinfo_absent
       else returnE lba)"

definition internal_fsinfo_signatures_ok :: "bytes \<Rightarrow> bool" where
  "internal_fsinfo_signatures_ok sec =
     (if priv_rd32 sec k_fmt_fsi_off_lead \<noteq> k_fmt_fsi_lead_sig then False
      else if priv_rd32 sec k_fmt_fsi_off_struct \<noteq> k_fmt_fsi_struct_sig then False
      else priv_rd32 sec k_fmt_fsi_off_trail = k_fmt_fsi_trail_sig)"

text \<open>The stores into the slot once the FSInfo sector is accepted.\<close>

definition fsinfo_accept :: "'w mount \<Rightarrow> u32 \<Rightarrow> bytes \<Rightarrow> alloc_state \<Rightarrow> alloc_state" where
  "fsinfo_accept m lba sec st0 =
     (let st1 = st0\<lparr>as_fsinfo_lba := lba\<rparr>;
          nxt = priv_rd32 sec k_fmt_fsi_off_nxtfree;
          free = priv_rd32 sec k_fmt_fsi_off_free;
          st2 = (if nxt \<ge> k_cluster_first_data
                 then (if nxt - k_cluster_first_data < m_count_of_clusters m
                       then st1\<lparr>as_next_free := nxt\<rparr> else st1)
                 else st1)
      in if free \<le> m_count_of_clusters m then st2\<lparr>as_free_count := free\<rparr> else st2)"

definition priv_fsinfo_seed :: "'w mount \<Rightarrow> ('w fs, unit) op" where
  "priv_fsinfo_seed m =
     bindE (getE (internal_state_for (Some (m_addr m)))) (\<lambda>st. case st of None \<Rightarrow> returnE ()
       | Some i \<Rightarrow>
         if m_type m \<noteq> k_ra8_fs_type_fat32 then returnE ()
         else bindE (internal_fsinfo_locate m) (\<lambda>lba.
           if lba = k_fs_fsinfo_absent then returnE ()
           else bindE (priv_read_sector m (ucast lba)) (\<lambda>sec.
             if \<not> internal_fsinfo_signatures_ok sec then returnE ()
             else modifyE (slot_update i (fsinfo_accept m lba sec)))))"

definition priv_fsinfo_flush :: "'w mount \<Rightarrow> ('w fs, unit) op" where
  "priv_fsinfo_flush m =
     bindE (getE (\<lambda>s. s)) (\<lambda>s0. case internal_state_for (Some (m_addr m)) s0 of None \<Rightarrow> returnE ()
       | Some i \<Rightarrow> let st = s_alloc s0 ! i in
         if as_fsinfo_lba st = k_fs_fsinfo_absent then returnE ()
         else if \<not> as_dirty st then returnE ()
         else bindE (priv_read_sector m (ucast (as_fsinfo_lba st))) (\<lambda>sec.
           let sec1 = priv_wr32 sec k_fmt_fsi_off_free (as_free_count st);
               sec2 = priv_wr32 sec1 k_fmt_fsi_off_nxtfree (as_next_free st)
           in thenE (priv_write_sector m (ucast (as_fsinfo_lba st)) sec2)
                (modifyE (slot_update i (\<lambda>a. a\<lparr>as_dirty := False\<rparr>)))))"

section \<open>The slot table\<close>

lemma slot_search_Some:
  "slot_search xs p i = Some j \<Longrightarrow> i \<le> j \<and> j - i < length xs \<and> as_owner (xs ! (j - i)) = p"
proof (induction xs arbitrary: i)
  case Nil
  then show ?case by simp
next
  case (Cons a xs)
  show ?case
  proof (cases "as_owner a = p")
    case True
    with Cons.prems show ?thesis by simp
  next
    case False
    with Cons.prems have "slot_search xs p (Suc i) = Some j" by simp
    from Cons.IH [OF this] show ?thesis
      by (auto simp: Suc_diff_le le_Suc_eq dest: Suc_le_lessD)
  qed
qed

lemma slot_search_None: "slot_search xs p i = None \<longleftrightarrow> (\<forall>a \<in> set xs. as_owner a \<noteq> p)"
  by (induction xs arbitrary: i) auto

lemma state_for_Some:
  "internal_state_for p s = Some i \<Longrightarrow> i < length (s_alloc s) \<and> as_owner (s_alloc s ! i) = p"
  using slot_search_Some [of "s_alloc s" p 0 i] by (simp add: internal_state_for_def)

lemma state_for_None:
  "internal_state_for p s = None \<longleftrightarrow> p \<notin> as_owner ` set (s_alloc s)"
  by (auto simp: internal_state_for_def slot_search_None)

text \<open>The search looks at the owners only, so an update that keeps the owner keeps the search.\<close>

lemma slot_search_cong:
  "map as_owner xs = map as_owner ys \<Longrightarrow> slot_search xs p i = slot_search ys p i"
proof (induction xs arbitrary: ys i)
  case Nil
  then show ?case by simp
next
  case (Cons a xs)
  then show ?case by (cases ys) auto
qed

lemma slot_update_simps [simp]:
  "world (slot_update i f s) = world s" "s_mounts (slot_update i f s) = s_mounts s"
  "s_files (slot_update i f s) = s_files s" "s_fat_cache (slot_update i f s) = s_fat_cache s"
  "s_fat_cache_lba (slot_update i f s) = s_fat_cache_lba s"
  "s_fat_cache_owner (slot_update i f s) = s_fat_cache_owner s"
  "s_clock_bound (slot_update i f s) = s_clock_bound s" "s_clock (slot_update i f s) = s_clock s"
  "s_lock (slot_update i f s) = s_lock s"
  "s_alloc (slot_update i f s) = (s_alloc s)[i := f (s_alloc s ! i)]"
  by (simp_all add: slot_update_def)

lemma state_for_update [simp]:
  assumes "as_owner (f (s_alloc s ! i)) = as_owner (s_alloc s ! i)"
  shows "internal_state_for p (slot_update i f s) = internal_state_for p s"
proof -
  have "map as_owner ((s_alloc s)[i := f (s_alloc s ! i)]) = map as_owner (s_alloc s)"
    using assms
    by (cases "i < length (s_alloc s)")
      (auto intro!: nth_equalityI simp: nth_list_update list_update_beyond)
  from slot_search_cong [OF this] show ?thesis by (simp add: internal_state_for_def)
qed

text \<open>The slot of a mount, and how an update of one slot shows in the slots of all mounts.\<close>

definition slot_of :: "'w mount \<Rightarrow> 'w fs \<Rightarrow> alloc_state option" where
  "slot_of m s = map_option (\<lambda>i. s_alloc s ! i) (internal_state_for (Some (m_addr m)) s)"

lemma slot_of_update:
  assumes i: "internal_state_for (Some (m_addr m)) s = Some i"
    and own: "as_owner (f (s_alloc s ! i)) = as_owner (s_alloc s ! i)"
  shows "slot_of m' (slot_update i f s) =
    (if m_addr m' = m_addr m then Some (f (s_alloc s ! i)) else slot_of m' s)"
proof (cases "internal_state_for (Some (m_addr m')) s")
  case None
  with own i show ?thesis by (auto simp: slot_of_def)
next
  case (Some j)
  with state_for_Some [OF Some] state_for_Some [OF i] own i show ?thesis
    by (auto simp: slot_of_def nth_list_update)
qed

section \<open>The cache is transparent\<close>

text \<open>The volume sector \<open>lba\<close> as the medium holds it.\<close>

definition vsec :: "('w \<Rightarrow> u64 \<Rightarrow> bytes) \<Rightarrow> 'w mount \<Rightarrow> 'w fs \<Rightarrow> u64 \<Rightarrow> bytes" where
  "vsec content m s lba = content (world s) (lba + m_partition_base_lba m)"

text \<open>
  The cache invariant of a mount: while the cache belongs to \<open>m\<close> it holds a cacheable sector, and
  holds it as the medium does.
\<close>

definition coherent :: "('w \<Rightarrow> u64 \<Rightarrow> bytes) \<Rightarrow> 'w mount \<Rightarrow> 'w fs \<Rightarrow> bool" where
  "coherent content m s \<longleftrightarrow> length (s_fat_cache s) = unat k_ra8_fs_sector_max \<and>
     (s_fat_cache_owner s = Some (m_addr m) \<longrightarrow>
        internal_lba_is_cacheable m (s_fat_cache_lba s) \<and>
        take (unat (priv_bps m)) (s_fat_cache s) = vsec content m s (s_fat_cache_lba s))"

definition fs_inv :: "('w \<Rightarrow> bool) \<Rightarrow> ('w \<Rightarrow> u64 \<Rightarrow> bytes) \<Rightarrow> 'w mount \<Rightarrow> 'w fs \<Rightarrow> bool" where
  "fs_inv valid content m s \<longleftrightarrow> valid (world s) \<and> coherent content m s"

text \<open>Nothing but the world and the FAT cache has changed.\<close>

definition fat_frame :: "'w fs \<Rightarrow> 'w fs \<Rightarrow> bool" where
  "fat_frame s t \<longleftrightarrow> s_mounts t = s_mounts s \<and> s_files t = s_files s \<and> s_alloc t = s_alloc s
     \<and> s_clock_bound t = s_clock_bound s \<and> s_clock t = s_clock s \<and> s_lock t = s_lock s"

lemma fat_frame_refl [simp, intro!]: "fat_frame s s"
  by (simp add: fat_frame_def)

lemma fat_frame_trans: "fat_frame s t \<Longrightarrow> fat_frame t u \<Longrightarrow> fat_frame s u"
  by (simp add: fat_frame_def)

lemma fat_frame_world [simp, intro!]: "fat_frame s (s\<lparr>world := w\<rparr>)"
  by (simp add: fat_frame_def)

lemma cache_fill_frame [simp, intro!]: "fat_frame s (cache_fill m buf lba s)"
  by (simp add: fat_frame_def cache_fill_def)

lemma world_cache_fill [simp]: "world (cache_fill m buf lba s) = world s"
  by (simp add: cache_fill_def)

lemma wrote_frame [simp, intro!]: "fat_frame s (priv_fat_sector_wrote m buf lba s)"
  by (simp add: priv_fat_sector_wrote_def)

lemma world_wrote [simp]: "world (priv_fat_sector_wrote m buf lba s) = world s"
  by (simp add: priv_fat_sector_wrote_def)

lemma take_byte_copy: "n \<le> length c \<Longrightarrow> n \<le> length buf \<Longrightarrow>
    take n (priv_byte_copy c 0 buf 0 n) = take n buf"
  by (rule nth_equalityI) (auto simp: nth_byte_copy)

text \<open>A mount whose volume lives on the backend \<open>b\<close> with sectors of \<open>bs\<close> bytes.\<close>

definition on_backend :: "'w backend \<Rightarrow> nat \<Rightarrow> 'w mount \<Rightarrow> bool" where
  "on_backend b bs m \<longleftrightarrow> m_backend m = b \<and> unat (m_bytes_per_sector m) = bs
     \<and> bs \<in> {512, 1024, 2048, 4096}"

context block_device
begin

lemma read_sector:
  assumes m: "on_backend b bs m" and v: "valid (world s)" and r: "priv_read_sector m lba s = (r, t)"
  shows "valid (world t)" and "content (world t) = content (world s)" and "t = s\<lparr>world := world t\<rparr>"
    and "r = Inr buf \<Longrightarrow> buf = vsec content m s lba"
proof -
  obtain rd where rd: "read_block b = Some rd" using has_read by blast
  obtain r' w where w: "rd (lba + m_partition_base_lba m) 1 (world s) = (r', w)"
    by (metis surj_pair)
  from m r rd w have eq: "r = r'" "t = s\<lparr>world := w\<rparr>"
    by (auto simp: priv_read_sector_def on_backend_def liftW_def)
  from read_same [OF rd v w] eq show "valid (world t)" "content (world t) = content (world s)"
    by auto
  from eq show "t = s\<lparr>world := world t\<rparr>" by simp
  from read_data [OF rd v] w eq show "r = Inr buf \<Longrightarrow> buf = vsec content m s lba"
    by (auto simp: vsec_def)
qed

lemma write_sector:
  assumes m: "on_backend b bs m" and v: "valid (world s)" and len: "length buf = bs"
    and r: "priv_write_sector m lba buf s = (r, t)"
  shows "valid (world t)" and "t = s\<lparr>world := world t\<rparr>"
    and "r = Inr () \<Longrightarrow>
      content (world t) = (content (world s))(lba + m_partition_base_lba m := buf)"
    and "l \<noteq> lba + m_partition_base_lba m \<Longrightarrow> content (world t) l = content (world s) l"
proof -
  obtain wr where wr: "write_block b = Some wr" using has_write by blast
  obtain r' w where w: "wr (lba + m_partition_base_lba m) 1 buf (world s) = (r', w)"
    by (metis surj_pair)
  from m r wr w have eq: "r = r'" "t = s\<lparr>world := w\<rparr>"
    by (auto simp: priv_write_sector_def on_backend_def liftW_def)
  note laws = write_data [OF wr v len] write_fail [OF wr v len]
  from w eq laws show "valid (world t)"
    by (cases r') (force, fastforce)
  from eq show "t = s\<lparr>world := world t\<rparr>" by simp
  from w eq laws(1) show "r = Inr () \<Longrightarrow>
      content (world t) = (content (world s))(lba + m_partition_base_lba m := buf)" by auto
  from w eq laws show "l \<noteq> lba + m_partition_base_lba m \<Longrightarrow>
      content (world t) l = content (world s) l"
    by (cases r') (force, fastforce)
qed

lemma vsec_length: "length (vsec content m s lba) = bs"
  by (simp add: vsec_def content_length)

lemma fs_inv_world:
  "fs_inv valid content m s \<Longrightarrow> valid w \<Longrightarrow> content w = content (world s) \<Longrightarrow>
    fs_inv valid content m (s\<lparr>world := w\<rparr>)"
  by (simp add: fs_inv_def coherent_def vsec_def)

lemma fs_inv_fill:
  assumes m: "on_backend b bs m" and inv: "valid (world s)" "length (s_fat_cache s) = 4096"
    and c: "internal_lba_is_cacheable m lba" and buf: "buf = vsec content m s lba"
  shows "fs_inv valid content m (cache_fill m buf lba s)"
proof -
  let ?n = "unat (priv_bps m)"
  from m have n: "?n = bs" "bs \<le> 4096" by (auto simp: on_backend_def priv_bps_def)
  with buf inv(2) vsec_length [of m s lba]
  have "take ?n (priv_byte_copy (s_fat_cache s) 0 buf 0 ?n) = buf"
    by (simp add: take_byte_copy)
  with inv c buf show ?thesis
    by (simp add: fs_inv_def coherent_def cache_fill_def vsec_def)
qed

lemma fat_sector_read:
  assumes m: "on_backend b bs m" and inv: "fs_inv valid content m s"
    and r: "priv_fat_sector_read m lba s = (r, t)"
  shows "fs_inv valid content m t" and "content (world t) = content (world s)" and "fat_frame s t"
    and "r = Inr buf \<Longrightarrow> buf = vsec content m s lba"
proof -
  from inv have v: "valid (world s)" and len: "length (s_fat_cache s) = 4096"
    by (auto simp: fs_inv_def coherent_def)
  let ?hit = "s_fat_cache_owner s = Some (m_addr m) \<and> s_fat_cache_lba s = lba"
  have "fs_inv valid content m t \<and> content (world t) = content (world s) \<and> fat_frame s t \<and>
    (\<forall>buf. r = Inr buf \<longrightarrow> buf = vsec content m s lba)"
  proof (cases "internal_lba_is_cacheable m lba \<and> ?hit")
    case True
    with inv r show ?thesis
      by (auto simp: priv_fat_sector_read_def bindE_def fs_inv_def coherent_def)
  next
    case False
    obtain r' u where u: "priv_read_sector m lba s = (r', u)" by (metis surj_pair)
    note rd = read_sector [OF m v u]
    have frame: "fat_frame s u" by (subst rd(3)) simp
    have invu: "fs_inv valid content m u"
      using fs_inv_world [OF inv rd(1,2)] rd(3) [symmetric] by simp
    show ?thesis
    proof (cases "\<exists>buf. r' = Inr buf \<and> internal_lba_is_cacheable m lba")
      case True
      then obtain buf where buf: "r' = Inr buf" "internal_lba_is_cacheable m lba" by blast
      with False r u have t: "r = Inr buf" "t = cache_fill m buf lba u"
        by (auto simp: priv_fat_sector_read_def bindE_def)
      have "length (s_fat_cache u) = 4096" by (subst rd(3)) (simp add: len)
      moreover have "buf = vsec content m u lba"
        using rd(2,4) buf by (simp add: vsec_def)
      ultimately have "fs_inv valid content m t"
        unfolding t using fs_inv_fill [OF m rd(1)] buf(2) by blast
      with t rd buf(1) frame show ?thesis
        by (auto intro: fat_frame_trans [OF frame])
    next
      case None: False
      with False r u have "r = r'" "t = u"
        by (auto simp: priv_fat_sector_read_def bindE_def split: if_splits sum.splits)
      with rd invu frame show ?thesis by blast
    qed
  qed
  then show "fs_inv valid content m t" "content (world t) = content (world s)" "fat_frame s t"
    "r = Inr buf \<Longrightarrow> buf = vsec content m s lba" by blast+
qed

text \<open>Committing a FAT sector: the write followed by the cache refresh.\<close>

lemma fat_sector_store:
  assumes m: "on_backend b bs m" and inv: "fs_inv valid content m s" and len: "length buf = bs"
    and r: "bindE (priv_write_sector m lba buf) (\<lambda>_. modifyE (priv_fat_sector_wrote m buf lba)) s
      = (Inr (), t)"
  shows "fs_inv valid content m t" and "fat_frame s t"
    and "content (world t) = (content (world s))(lba + m_partition_base_lba m := buf)"
proof -
  from inv have v: "valid (world s)" and lenc: "length (s_fat_cache s) = 4096"
    by (auto simp: fs_inv_def coherent_def)
  from r obtain u where u: "priv_write_sector m lba buf s = (Inr (), u)"
    and t: "t = priv_fat_sector_wrote m buf lba u" by (auto elim!: bindE_InrE)
  note wr = write_sector [OF m v len u]
  have u': "u = s\<lparr>world := world u\<rparr>" by (rule wr(2))
  have cu: "content (world u) = (content (world s))(lba + m_partition_base_lba m := buf)"
    using wr(3) by simp
  have fr: "fat_frame s u" by (subst u') simp
  with t show "fat_frame s t" by (auto intro: fat_frame_trans [OF fr])
  from cu t show "content (world t) = (content (world s))(lba + m_partition_base_lba m := buf)"
    by simp
  have lenu: "length (s_fat_cache u) = 4096" by (subst u') (simp add: lenc)
  show "fs_inv valid content m t"
  proof (cases "internal_lba_is_cacheable m lba")
    case True
    then have "t = cache_fill m buf lba u" by (simp add: t priv_fat_sector_wrote_def)
    moreover have "buf = vsec content m u lba" by (simp add: vsec_def cu)
    ultimately show ?thesis using fs_inv_fill [OF m wr(1) lenu True] by simp
  next
    case False
    have "coherent content m u"
      using inv False unfolding coherent_def fs_inv_def vsec_def cu
      by (subst (1 2 3 4 5) u') auto
    with wr(1) False show ?thesis
      by (simp add: t priv_fat_sector_wrote_def fs_inv_def)
  qed
qed

end

end
