(* ===== verification/Fat_Table.thy ===== *)
theory Fat_Table
  imports Fat_Alloc
begin

text \<open>
  \<^verbatim>\<open>ra8_fs_fat.c\<close>: reading and writing entries of the file allocation table for FAT12, FAT16,
  FAT32 and exFAT, the end-of-chain test, cluster addressing, and the cluster allocator.

  The abstraction is the table as a flat array of bytes, in which the sector boundaries, and with
  them the FAT12 entry that straddles two sectors, have disappeared: \<open>fat_decode\<close> and
  \<open>fat_encode\<close> read and write an entry of that array. \<^verbatim>\<open>Fat_Access\<close> shows that the sector
  routines implement them.
\<close>

section \<open>FAT entries\<close>

definition internal_fat_entry_byte_offset :: "'w mount \<Rightarrow> u32 \<Rightarrow> u64" where
  "internal_fat_entry_byte_offset m cluster =
     (if m_type m = k_ra8_fs_type_fat12 then ucast cluster + ucast cluster div 2
      else if m_type m = k_ra8_fs_type_fat16 then ucast cluster * 2
      else ucast cluster * 4)"

definition priv_fat_get :: "'w mount \<Rightarrow> u32 \<Rightarrow> ('w fs, u32) op" where
  "priv_fat_get m cluster =
     (let fat_offset = internal_fat_entry_byte_offset m cluster;
          sec_num = m_first_fat_lba m + fat_offset div ucast (priv_bps m);
          sec_off = ucast (fat_offset mod ucast (priv_bps m)) :: u32
      in bindE (priv_fat_sector_read m sec_num) (\<lambda>buf.
        if m_type m = k_ra8_fs_type_fat12 then
          let b0 = buf ! unat sec_off in
          bindE (if sec_off + 1 < priv_bps m then returnE (buf ! unat (sec_off + 1))
                 else bindE (priv_fat_sector_read m (sec_num + 1)) (\<lambda>buf2. returnE (buf2 ! 0))) (\<lambda>b1.
            let raw = (ucast b0 :: u16) OR push_bit 8 (ucast b1) in
            returnE (if cluster AND 1 \<noteq> 0 then ucast (drop_bit 4 raw) else ucast (raw AND 0x0FFF)))
        else if m_type m = k_ra8_fs_type_fat16 then returnE (ucast (priv_rd16 buf (unat sec_off)))
        else if m_type m = k_ra8_fs_type_exfat then returnE (priv_rd32 buf (unat sec_off))
        else returnE (priv_rd32 buf (unat sec_off) AND k_cluster_mask_fat32)))"

definition internal_fat12_store ::
    "'w mount \<Rightarrow> bytes \<Rightarrow> bytes \<Rightarrow> u64 \<Rightarrow> bool \<Rightarrow> ('w fs, unit) op" where
  "internal_fat12_store m buf buf2 sec_num straddle =
     thenE (priv_write_sector m sec_num buf)
     (thenE (modifyE (priv_fat_sector_wrote m buf sec_num))
       (if \<not> straddle then returnE ()
        else thenE (priv_write_sector m (sec_num + 1) buf2)
               (modifyE (priv_fat_sector_wrote m buf2 (sec_num + 1)))))"

definition fat12_merge :: "u32 \<Rightarrow> u32 \<Rightarrow> u16 \<Rightarrow> u16" where
  "fat12_merge cluster value raw =
     (if cluster AND 1 \<noteq> 0
      then (raw AND 0x000F) OR ucast (push_bit 4 (value AND 0x0FFF))
      else (raw AND 0xF000) OR ucast (value AND 0x0FFF))"

definition internal_fat12_set_one ::
    "'w mount \<Rightarrow> u64 \<Rightarrow> u32 \<Rightarrow> u32 \<Rightarrow> u32 \<Rightarrow> ('w fs, unit) op" where
  "internal_fat12_set_one m sec_num sec_off cluster value =
     bindE (priv_fat_sector_read m sec_num) (\<lambda>buf.
       let b0 = buf ! unat sec_off in
       bindE (if sec_off + 1 < priv_bps m then returnE (buf ! unat (sec_off + 1), [], False)
              else bindE (priv_fat_sector_read m (sec_num + 1))
                     (\<lambda>buf2. returnE (buf2 ! 0, buf2, True))) (\<lambda>(b1, buf2, straddle).
         let raw = (ucast b0 :: u16) OR push_bit 8 (ucast b1);
             raw' = fat12_merge cluster value raw;
             bufa = buf[unat sec_off := ucast (raw' AND 0xFF)];
             hi = ucast (drop_bit 8 raw' AND 0xFF) :: u8
         in if \<not> straddle
            then internal_fat12_store m (bufa[unat (sec_off + 1) := hi]) buf2 sec_num straddle
            else internal_fat12_store m bufa (buf2[0 := hi]) sec_num straddle))"

definition internal_fat16_set_one :: "'w mount \<Rightarrow> u64 \<Rightarrow> u32 \<Rightarrow> u32 \<Rightarrow> ('w fs, unit) op" where
  "internal_fat16_set_one m sec_num sec_off value =
     bindE (priv_fat_sector_read m sec_num) (\<lambda>buf.
       let buf' = priv_wr16 buf (unat sec_off) (ucast (value AND 0xFFFF)) in
       thenE (priv_write_sector m sec_num buf')
         (modifyE (priv_fat_sector_wrote m buf' sec_num)))"

definition internal_fat32_set_one :: "'w mount \<Rightarrow> u64 \<Rightarrow> u32 \<Rightarrow> u32 \<Rightarrow> ('w fs, unit) op" where
  "internal_fat32_set_one m sec_num sec_off value =
     bindE (priv_fat_sector_read m sec_num) (\<lambda>buf.
       let prev = priv_rd32 buf (unat sec_off) AND NOT k_cluster_mask_fat32;
           buf' = priv_wr32 buf (unat sec_off) ((value AND k_cluster_mask_fat32) OR prev) in
       thenE (priv_write_sector m sec_num buf')
         (modifyE (priv_fat_sector_wrote m buf' sec_num)))"

definition internal_exfat_fat_set_one :: "'w mount \<Rightarrow> u64 \<Rightarrow> u32 \<Rightarrow> u32 \<Rightarrow> ('w fs, unit) op" where
  "internal_exfat_fat_set_one m sec_num sec_off value =
     bindE (priv_fat_sector_read m sec_num) (\<lambda>buf.
       let buf' = priv_wr32 buf (unat sec_off) value in
       thenE (priv_write_sector m sec_num buf')
         (modifyE (priv_fat_sector_wrote m buf' sec_num)))"

text \<open>One iteration of the loop over the FAT copies, and the loop with \<open>n\<close> copies to go.\<close>

definition fat_set_copy :: "'w mount \<Rightarrow> u32 \<Rightarrow> u32 \<Rightarrow> u32 \<Rightarrow> ('w fs, unit) op" where
  "fat_set_copy m cluster value i =
     (let fat_offset = internal_fat_entry_byte_offset m cluster;
          fat_base = m_first_fat_lba m + ucast i * ucast (m_fat_size_sectors m);
          sec_num = fat_base + fat_offset div ucast (priv_bps m);
          sec_off = ucast (fat_offset mod ucast (priv_bps m)) :: u32
      in if m_type m = k_ra8_fs_type_fat12 then internal_fat12_set_one m sec_num sec_off cluster value
         else if m_type m = k_ra8_fs_type_fat16 then internal_fat16_set_one m sec_num sec_off value
         else if m_type m = k_ra8_fs_type_exfat then internal_exfat_fat_set_one m sec_num sec_off value
         else internal_fat32_set_one m sec_num sec_off value)"

primrec fat_set_copies :: "'w mount \<Rightarrow> u32 \<Rightarrow> u32 \<Rightarrow> nat \<Rightarrow> nat \<Rightarrow> ('w fs, unit) op" where
  "fat_set_copies m cluster value i 0 = returnE ()"
| "fat_set_copies m cluster value i (Suc n) =
     thenE (fat_set_copy m cluster value (of_nat i)) (fat_set_copies m cluster value (Suc i) n)"

definition priv_fat_set :: "'w mount \<Rightarrow> u32 \<Rightarrow> u32 \<Rightarrow> ('w fs, unit) op" where
  "priv_fat_set m cluster value = fat_set_copies m cluster value 0 (unat (m_num_fats m))"

definition priv_is_eoc :: "'w mount \<Rightarrow> u32 \<Rightarrow> bool" where
  "priv_is_eoc m value =
     (if m_type m = k_ra8_fs_type_fat12 then value \<ge> k_cluster_eoc_min_fat12
      else if m_type m = k_ra8_fs_type_fat16 then value \<ge> k_cluster_eoc_min_fat16
      else if m_type m = k_ra8_fs_type_exfat then value \<ge> k_cluster_eoc_min_exfat
      else value \<ge> k_cluster_eoc_min_fat32)"

definition priv_eoc_write :: "'w mount \<Rightarrow> u32" where
  "priv_eoc_write m =
     (if m_type m = k_ra8_fs_type_fat12 then k_cluster_eoc_write_fat12
      else if m_type m = k_ra8_fs_type_fat16 then k_cluster_eoc_write_fat16
      else if m_type m = k_ra8_fs_type_exfat then k_cluster_eoc_write_exfat
      else k_cluster_eoc_write_fat32)"

definition priv_cluster_to_lba :: "'w mount \<Rightarrow> u32 \<Rightarrow> u64" where
  "priv_cluster_to_lba m cluster =
     m_first_data_lba m + (ucast cluster - ucast k_cluster_first_data) * ucast (m_sectors_per_cluster m)"

section \<open>The cluster allocator\<close>

definition internal_alloc_start :: "'w mount \<Rightarrow> u32 \<Rightarrow> u32" where
  "internal_alloc_start m hint =
     (if hint - k_cluster_first_data \<ge> m_count_of_clusters m then k_cluster_first_data else hint)"

text \<open>The scan with \<open>n\<close> clusters still to see, standing at \<open>c\<close>.\<close>

primrec alloc_scan :: "'w mount \<Rightarrow> u32 \<Rightarrow> nat \<Rightarrow> u32 \<Rightarrow> ('w fs, u32) op" where
  "alloc_scan m past_end 0 c = throwE k_ra8_err_no_mem"
| "alloc_scan m past_end (Suc n) c =
     bindE (priv_fat_get m c) (\<lambda>v.
       if v = k_cluster_free then
         thenE (modifyE (priv_alloc_hint_set m (c + 1)))
         (thenE (modifyE (priv_free_count_took m 1)) (returnE c))
       else
         let c1 = c + 1 in
         alloc_scan m past_end n (if c1 \<ge> past_end then k_cluster_first_data else c1))"

definition priv_alloc_cluster :: "'w mount \<Rightarrow> ('w fs, u32) op" where
  "priv_alloc_cluster m =
     (let past_end = k_cluster_first_data + m_count_of_clusters m in
      bindE (getE (priv_alloc_hint_get m)) (\<lambda>hint.
        alloc_scan m past_end (unat (m_count_of_clusters m)) (internal_alloc_start m hint)))"

section \<open>The table as a flat array of bytes\<close>

text \<open>The byte offset of the entry of cluster \<open>c\<close>, the value read there, and the bytes a store leaves.\<close>

definition entry_off :: "fs_type \<Rightarrow> nat \<Rightarrow> nat" where
  "entry_off ty c = (if ty = k_ra8_fs_type_fat12 then c + c div 2
     else if ty = k_ra8_fs_type_fat16 then c * 2 else c * 4)"

definition entry_width :: "fs_type \<Rightarrow> nat" where
  "entry_width ty = (if ty = k_ra8_fs_type_fat12 \<or> ty = k_ra8_fs_type_fat16 then 2 else 4)"

definition join16 :: "u8 \<Rightarrow> u8 \<Rightarrow> u16" where
  "join16 b0 b1 = (ucast b0 :: u16) OR push_bit 8 (ucast b1)"

definition join32 :: "u8 \<Rightarrow> u8 \<Rightarrow> u8 \<Rightarrow> u8 \<Rightarrow> u32" where
  "join32 b0 b1 b2 b3 = (ucast b0 :: u32) OR push_bit 8 (ucast b1) OR push_bit 16 (ucast b2)
     OR push_bit 24 (ucast b3)"

definition fat_decode :: "fs_type \<Rightarrow> (nat \<Rightarrow> u8) \<Rightarrow> u32 \<Rightarrow> u32" where
  "fat_decode ty fb c =
     (let o' = entry_off ty (unat c) in
      if ty = k_ra8_fs_type_fat12 then
        (let raw = join16 (fb o') (fb (o' + 1)) in
         if c AND 1 \<noteq> 0 then ucast (drop_bit 4 raw) else ucast (raw AND 0x0FFF))
      else if ty = k_ra8_fs_type_fat16 then ucast (join16 (fb o') (fb (o' + 1)))
      else if ty = k_ra8_fs_type_exfat then join32 (fb o') (fb (o' + 1)) (fb (o' + 2)) (fb (o' + 3))
      else join32 (fb o') (fb (o' + 1)) (fb (o' + 2)) (fb (o' + 3)) AND k_cluster_mask_fat32)"

definition fat_encode :: "fs_type \<Rightarrow> (nat \<Rightarrow> u8) \<Rightarrow> u32 \<Rightarrow> u32 \<Rightarrow> nat \<Rightarrow> u8" where
  "fat_encode ty fb c v =
     (let o' = entry_off ty (unat c) in
      if ty = k_ra8_fs_type_fat12 then
        (let raw = fat12_merge c v (join16 (fb o') (fb (o' + 1)))
         in fb(o' := ucast raw, o' + 1 := ucast (drop_bit 8 raw)))
      else if ty = k_ra8_fs_type_fat16 then
        fb(o' := ucast v, o' + 1 := ucast (drop_bit 8 v))
      else
        (let w = (if ty = k_ra8_fs_type_exfat then v
                  else (v AND k_cluster_mask_fat32) OR
                    (join32 (fb o') (fb (o' + 1)) (fb (o' + 2)) (fb (o' + 3))
                       AND NOT k_cluster_mask_fat32))
         in fb(o' := ucast w, o' + 1 := ucast (drop_bit 8 w), o' + 2 := ucast (drop_bit 16 w),
               o' + 3 := ucast (drop_bit 24 w))))"

text \<open>What a table of the given width can hold of a 32-bit value.\<close>

definition fat_clip :: "fs_type \<Rightarrow> u32 \<Rightarrow> u32" where
  "fat_clip ty v = (if ty = k_ra8_fs_type_fat12 then v AND 0x0FFF
     else if ty = k_ra8_fs_type_fat16 then v AND 0xFFFF
     else if ty = k_ra8_fs_type_exfat then v else v AND k_cluster_mask_fat32)"

subsection \<open>Decoding what was encoded\<close>

lemma entry_width_pos [simp]: "0 < entry_width ty" "Suc 0 < entry_width ty"
  by (simp_all add: entry_width_def)

lemma and_masks: "x AND 0x0FFF = take_bit 12 (x :: 'a::len word)" "x AND 0xFFFF = take_bit 16 x"
   "x AND 0x0FFFFFFF = take_bit 28 x" "x AND 0x000F = take_bit 4 x"
  by (simp_all add: take_bit_eq_mask mask_eq_exp_minus_1)

lemma and_F000: "(x :: u16) AND 0xF000 = push_bit 12 (drop_bit 12 x)"
proof -
  have eq: "(0xF000 :: u16) = push_bit 12 (mask 4)" by (simp add: mask_eq_exp_minus_1 push_bit_eq_mult)
  show ?thesis unfolding eq by (rule bit_word_eqI) (auto simp: bit_simps) 
qed

lemma and_not_mask28: "(x :: u32) AND NOT 0x0FFFFFFF = push_bit 28 (drop_bit 28 x)"
proof -
  have eq: "(0x0FFFFFFF :: u32) = mask 28" by (simp add: mask_eq_exp_minus_1)
  show ?thesis unfolding eq by (rule bit_word_eqI) (auto simp: bit_simps) 
qed

lemma odd_and: "c AND 1 \<noteq> 0 \<longleftrightarrow> odd (unat c)" for c :: u32
proof -
  have "unat (c AND 1) = unat c mod 2"
    by (simp add: and_one_eq unat_mod_distrib)
  then show ?thesis by (auto simp: word_unat_eq_iff odd_iff_mod_2_eq_one)
qed

lemma ucast_join16: "ucast (join16 a b) = a" "ucast (drop_bit 8 (join16 a b)) = b"
  by (simp_all add: join16_def codec del: drop_bit_or)

lemma join16_split: "join16 (ucast v) (ucast (drop_bit 8 v)) = v"
  by (simp add: join16_def codec)

lemma join32_split:
  "join32 (ucast v) (ucast (drop_bit 8 v)) (ucast (drop_bit 16 v)) (ucast (drop_bit 24 v)) = v"
  by (simp add: join32_def codec)

lemma join16_split_ucast: "ucast (join16 (ucast v) (ucast (drop_bit 8 v))) = v AND 0xFFFF" for v :: u32
  unfolding and_masks join16_def by (rule bit_word_eqI) (auto simp: bit_simps)

lemma fat12_merge_same:
  "c AND 1 \<noteq> 0 \<Longrightarrow> ucast (drop_bit 4 (fat12_merge c v raw)) = v AND 0x0FFF"
  "c AND 1 = 0 \<Longrightarrow> ucast (fat12_merge c v raw AND 0x0FFF) = v AND 0x0FFF"
  unfolding fat12_merge_def and_masks and_F000
  by (rule bit_word_eqI; auto simp: bit_simps)+

lemma fat12_merge_even_keeps:
  "\<not> c AND 1 \<noteq> 0 \<Longrightarrow> drop_bit 12 (fat12_merge c v raw) = drop_bit 12 raw"
  unfolding fat12_merge_def and_masks and_F000
  by (rule bit_word_eqI) (auto simp: bit_simps dest: bit_imp_le_length)

lemma fat12_merge_odd_keeps:
  "c AND 1 \<noteq> 0 \<Longrightarrow> fat12_merge c v raw AND 0x000F = raw AND 0x000F"
  unfolding fat12_merge_def and_masks and_F000
  by (rule bit_word_eqI) (auto simp: bit_simps)

lemma fat32_keep_low:
  "((v AND k_cluster_mask_fat32) OR (x AND NOT k_cluster_mask_fat32)) AND k_cluster_mask_fat32
     = v AND k_cluster_mask_fat32" for v x :: u32
  unfolding and_masks and_not_mask28
  by (rule bit_word_eqI) (auto simp: bit_simps)

lemmas fat32_keep_low' = fat32_keep_low [simplified]

lemma decode_encode_same: "fat_decode ty (fat_encode ty fb c v) c = fat_clip ty v"
proof (cases ty)
  case k_ra8_fs_type_fat12
  then show ?thesis
    by (simp add: fat_decode_def fat_encode_def fat_clip_def Let_def join16_split fat12_merge_same)
qed (simp_all add: fat_decode_def fat_encode_def fat_clip_def Let_def join16_split_ucast
    join32_split fat32_keep_low' del: drop_bit_or drop_bit_and)

lemma fat_decode_cong:
  assumes "\<And>k. k < entry_width ty \<Longrightarrow> fb (entry_off ty (unat c) + k) = gb (entry_off ty (unat c) + k)"
  shows "fat_decode ty fb c = fat_decode ty gb c"
  using assms [of 0] assms [of 1] assms [of 2] assms [of 3]
  by (cases ty) (simp_all add: fat_decode_def Let_def entry_width_def)

lemma fat_encode_other:
  assumes "k < entry_off ty (unat c) \<or> entry_off ty (unat c) + entry_width ty \<le> k"
  shows "fat_encode ty fb c v k = fb k"
  using assms by (cases ty) (auto simp: fat_encode_def Let_def entry_width_def)

lemma fat12_partner_even:
  assumes "c AND 1 = 0"
  shows "drop_bit 4 (join16 (ucast (drop_bit 8 (fat12_merge c v (join16 a b)))) d) =
    drop_bit 4 (join16 b d)"
  using assms unfolding fat12_merge_def join16_def and_masks and_F000
  by (intro bit_word_eqI) (auto simp: bit_simps dest: bit_imp_le_length)

lemma fat12_partner_odd:
  assumes "c AND 1 \<noteq> 0"
  shows "join16 d (ucast (fat12_merge c v (join16 a b))) AND 0x0FFF = join16 d a AND 0x0FFF"
  using assms unfolding fat12_merge_def join16_def and_masks and_F000
  by (intro bit_word_eqI) (auto simp: bit_simps dest: bit_imp_le_length)

lemma fat12_overlap:
  fixes c d :: nat
  assumes "c \<noteq> d" and "c + c div 2 + 1 \<ge> d + d div 2" and "d + d div 2 + 1 \<ge> c + c div 2"
  shows "(even c \<and> d = c + 1) \<or> (odd c \<and> c = d + 1)"
  using assms by (cases "even c"; cases "even d") (auto elim!: evenE oddE)

lemma decode_encode_other:
  assumes "c' \<noteq> c"
  shows "fat_decode ty (fat_encode ty fb c v) c' = fat_decode ty fb c'"
proof -
  let ?o = "entry_off ty (unat c)" and ?o' = "entry_off ty (unat c')" and ?w = "entry_width ty"
  from assms have ne: "unat c' \<noteq> unat c" by (simp add: word_unat_eq_iff)
  show ?thesis
  proof (cases "?o' + ?w \<le> ?o \<or> ?o + ?w \<le> ?o'")
    case True
    then show ?thesis
      by (intro fat_decode_cong fat_encode_other) auto
  next
    case False
    have ty: "ty = k_ra8_fs_type_fat12"
      using False ne by (cases ty) (auto simp: entry_off_def entry_width_def)
    from False ne consider (even) "even (unat c)" "unat c' = unat c + 1"
      | (odd) "odd (unat c)" "unat c = unat c' + 1"
    proof -
      from False have "unat c + unat c div 2 + 1 \<ge> unat c' + unat c' div 2"
        and "unat c' + unat c' div 2 + 1 \<ge> unat c + unat c div 2"
        by (simp_all add: ty entry_off_def entry_width_def)
      from fat12_overlap [OF ne [symmetric] this] that show thesis by blast
    qed
    then show ?thesis
    proof cases
      case even
      then obtain k where k: "unat c = 2 * k" "unat c' = 2 * k + 1" by (auto elim: evenE)
      from even have "c AND 1 = 0" "c' AND 1 \<noteq> 0" using odd_and [of c] odd_and [of c'] by auto
      moreover from k have "?o' = ?o + 1" by (simp add: ty entry_off_def)
      ultimately show ?thesis
        by (simp add: fat_decode_def fat_encode_def ty Let_def fat12_partner_even)
    next
      case odd
      then obtain k where k: "unat c' = 2 * k" "unat c = 2 * k + 1" by (auto elim: evenE)
      from odd have "c AND 1 \<noteq> 0" "c' AND 1 = 0" using odd_and [of c] odd_and [of c'] by auto
      moreover from k have "?o = ?o' + 1" by (simp add: ty entry_off_def)
      ultimately show ?thesis
        by (simp add: fat_decode_def fat_encode_def ty Let_def fat12_partner_odd)
    qed
  qed
qed

text \<open>FAT32 keeps the four reserved bits of an entry.\<close>

lemma fat32_reserved_bits:
  assumes "ty = k_ra8_fs_type_fat32"
  shows "drop_bit 4 (fat_encode ty fb c v (entry_off ty (unat c) + 3)) =
    drop_bit 4 (fb (entry_off ty (unat c) + 3))"
  unfolding assms fat_encode_def Let_def join32_def and_masks and_not_mask28
  by (intro bit_word_eqI) (auto simp: bit_simps dest: bit_imp_le_length)

end
