(* ===== verification/Fat_Access.thy ===== *)
theory Fat_Access
  imports Fat_Table
begin

text \<open>
  The sector routines of \<^verbatim>\<open>ra8_fs_fat.c\<close> implement the flat table. \<open>fat_byte\<close> is a byte of one
  FAT copy as the medium holds it and \<open>fat_at\<close> the entry of a cluster. Over any device that keeps
  the contract \<open>block_device\<close>, \<open>priv_fat_get\<close> returns \<open>fat_at\<close> and changes nothing, and
  \<open>priv_fat_set\<close> turns every copy into its \<open>fat_encode\<close>, so that the cluster's entry reads back
  as the value stored, every other entry is as it was, and no block outside the FAT is written,
  also when the store fails half way.
\<close>

section \<open>The sector routines implement the flat table\<close>

text \<open>Sector \<open>q\<close> of FAT copy \<open>i\<close>, and byte \<open>k\<close> of that copy as the medium holds it.\<close>

definition fat_lba :: "'w mount \<Rightarrow> nat \<Rightarrow> nat \<Rightarrow> u64" where
  "fat_lba m i q = m_first_fat_lba m + of_nat (i * unat (m_fat_size_sectors m) + q)"

definition fat_byte :: "('w \<Rightarrow> u64 \<Rightarrow> bytes) \<Rightarrow> 'w mount \<Rightarrow> 'w fs \<Rightarrow> nat \<Rightarrow> nat \<Rightarrow> u8" where
  "fat_byte content m s i k =
     vsec content m s (fat_lba m i (k div unat (priv_bps m))) ! (k mod unat (priv_bps m))"

text \<open>The entry of a cluster, as the first FAT copy on the medium holds it.\<close>

definition fat_at :: "('w \<Rightarrow> u64 \<Rightarrow> bytes) \<Rightarrow> 'w mount \<Rightarrow> 'w fs \<Rightarrow> u32 \<Rightarrow> u32" where
  "fat_at content m s c = fat_decode (m_type m) (fat_byte content m s 0) c"

text \<open>The FAT is large enough for an entry for every cluster number below \<open>count + 2\<close>.\<close>

definition fat_geom :: "'w mount \<Rightarrow> bool" where
  "fat_geom m \<longleftrightarrow> 0 < m_num_fats m \<and> unat (m_count_of_clusters m) + 2 < 2 ^ 32 \<and>
     entry_off (m_type m) (unat (m_count_of_clusters m) + 1) + entry_width (m_type m)
       \<le> unat (m_fat_size_sectors m) * unat (m_bytes_per_sector m)"

definition in_fat :: "'w mount \<Rightarrow> u32 \<Rightarrow> bool" where
  "in_fat m c \<longleftrightarrow> unat c < unat (m_count_of_clusters m) + 2"

lemma fat_lba_Suc: "fat_lba m i (q + 1) = fat_lba m i q + 1"
  by (simp add: fat_lba_def)

lemma fat_lba_Suc': "fat_lba m i (Suc q) = fat_lba m i q + 1"
  using fat_lba_Suc [of m i q] by simp

lemma entry_off_mono: "c \<le> d \<Longrightarrow> entry_off ty c \<le> entry_off ty d"
  by (auto simp: entry_off_def div_le_mono add_mono)

lemma entry_fits:
  "fat_geom m \<Longrightarrow> in_fat m c \<Longrightarrow> entry_off (m_type m) (unat c) + entry_width (m_type m)
     \<le> unat (m_fat_size_sectors m) * unat (m_bytes_per_sector m)"
  using entry_off_mono [of "unat c" "unat (m_count_of_clusters m) + 1" "m_type m"]
  by (simp add: fat_geom_def in_fat_def)

lemma unat_ucast64 [simp]: "unat (ucast (c :: u32) :: u64) = unat c"
  using unat_lt [of c] by (simp add: unat_ucast_mod)

lemma unat_entry_byte_offset:
  "unat (internal_fat_entry_byte_offset m c) = entry_off (m_type m) (unat c)"
proof -
  have c: "unat c < 2 ^ 32" using unat_lt [of c] by simp
  have "unat (ucast c div 2 :: u64) = unat c div 2" by (simp add: unat_div_distrib)
  moreover from c have "unat c + unat c div 2 < 2 ^ 64" by simp
  ultimately show ?thesis
    using c by (simp add: internal_fat_entry_byte_offset_def entry_off_def unat_word_ariths)
qed

lemma word_div_of_nat: "x div y = of_nat (unat x div unat y)" for x y :: "'a::len word"
  by (simp flip: unat_div_distrib)

lemma sector_of_entry:
  assumes "on_backend b bs m"
  shows "m_first_fat_lba m + internal_fat_entry_byte_offset m c div ucast (priv_bps m) =
      fat_lba m 0 (entry_off (m_type m) (unat c) div bs)"
    and "m_first_fat_lba m + of_nat i * ucast (m_fat_size_sectors m)
        + internal_fat_entry_byte_offset m c div ucast (priv_bps m) =
      fat_lba m i (entry_off (m_type m) (unat c) div bs)"
    and "unat (ucast (internal_fat_entry_byte_offset m c mod ucast (priv_bps m)) :: u32) =
      entry_off (m_type m) (unat c) mod bs"
proof -
  from assms have bs: "unat (priv_bps m) = bs" "bs \<le> 4096" "0 < bs"
    by (auto simp: on_backend_def priv_bps_def)
  have "internal_fat_entry_byte_offset m c div ucast (priv_bps m) =
      of_nat (entry_off (m_type m) (unat c) div bs)"
    by (simp add: word_div_of_nat unat_entry_byte_offset bs)
  then show "m_first_fat_lba m + internal_fat_entry_byte_offset m c div ucast (priv_bps m) =
      fat_lba m 0 (entry_off (m_type m) (unat c) div bs)"
    and "m_first_fat_lba m + of_nat i * ucast (m_fat_size_sectors m)
        + internal_fat_entry_byte_offset m c div ucast (priv_bps m) =
      fat_lba m i (entry_off (m_type m) (unat c) div bs)"
    by (simp_all add: fat_lba_def)
  have "entry_off (m_type m) (unat c) mod bs < 2 ^ 32"
    using bs by (intro order.strict_trans [OF mod_less_divisor]) auto
  then show "unat (ucast (internal_fat_entry_byte_offset m c mod ucast (priv_bps m)) :: u32) =
      entry_off (m_type m) (unat c) mod bs"
    by (simp add: unat_ucast_mod unat_mod_distrib unat_entry_byte_offset bs)
qed

lemma div_mod_within:
  fixes n :: nat
  assumes "x mod n + k < n"
  shows "(x + k) div n = x div n" and "(x + k) mod n = x mod n + k"
proof -
  from assms have "k < n" by simp
  with assms show "(x + k) div n = x div n" by (simp add: div_add1_eq [of x k])
  from assms show "(x + k) mod n = x mod n + k" by (metis mod_add_left_eq mod_less)
qed

lemma div_mod_next:
  fixes n :: nat
  assumes "x mod n + 1 = n"
  shows "(x + 1) div n = x div n + 1" and "(x + 1) mod n = 0"
  using assms by (simp_all add: div_Suc mod_Suc)

lemma aligned_within:
  fixes n :: nat
  assumes "d dvd x" and "d dvd n" and "0 < n" and "k < d"
  shows "x mod n + k < n"
proof -
  from assms obtain j l where "x mod n = d * j" "n = d * l"
    by (metis dvd_def dvd_mod)
  moreover from this assms(3) have "j < l"
    by (metis mod_less_divisor nat_mult_less_cancel_disj)
  then have "d * j + d \<le> d * l"
    by (metis Suc_leI mult_Suc_right add.commute mult_le_mono2)
  ultimately show ?thesis using assms(4) by simp
qed

lemma entry_within:
  assumes "bs \<in> {512, 1024, 2048, 4096}" and "ty \<noteq> k_ra8_fs_type_fat12" and "k < entry_width ty"
  shows "entry_off ty c mod bs + k < bs"
proof (rule aligned_within [where d = "entry_width ty"])
  show "entry_width ty dvd entry_off ty c" using assms(2) by (simp add: entry_width_def entry_off_def)
  show "entry_width ty dvd bs" using assms(1) by (auto simp: entry_width_def)
qed (use assms in auto)

context block_device
begin

lemma fat_byte_within:
  assumes m: "on_backend b bs m" and "x mod bs + k < bs"
  shows "fat_byte content m s i (x + k) = vsec content m s (fat_lba m i (x div bs)) ! (x mod bs + k)"
  using assms by (simp add: fat_byte_def on_backend_def priv_bps_def div_mod_within)

lemma fat_byte_next:
  assumes m: "on_backend b bs m" and "x mod bs + 1 = bs"
  shows "fat_byte content m s i (x + 1) = vsec content m s (fat_lba m i (x div bs) + 1) ! 0"
  using assms by (simp add: fat_byte_def on_backend_def priv_bps_def div_mod_next fat_lba_Suc [symmetric] del: One_nat_def)

lemma fat_byte_at:
  assumes m: "on_backend b bs m"
  shows "fat_byte content m s i x = vsec content m s (fat_lba m i (x div bs)) ! (x mod bs)"
  using assms by (simp add: fat_byte_def on_backend_def priv_bps_def)

lemma fat_byte_cong: "content (world t) = content (world s) \<Longrightarrow> fat_byte content m t = fat_byte content m s"
  by (simp add: fat_byte_def vsec_def fun_eq_iff)

lemma off_plus_one:
  assumes m: "on_backend b bs m" and "unat o' < bs"
  shows "o' + 1 < priv_bps m \<longleftrightarrow> unat o' + 1 < bs" and "unat (o' + 1) = unat o' + 1"
proof -
  from m have bs: "unat (priv_bps m) = bs" "bs \<le> 4096" by (auto simp: on_backend_def priv_bps_def)
  with assms(2) show "unat (o' + 1) = unat o' + 1" by (simp add: unat_word_ariths)
  then show "o' + 1 < priv_bps m \<longleftrightarrow> unat o' + 1 < bs" by (simp add: word_less_nat_alt bs)
qed

lemma fat_get:
  assumes m: "on_backend b bs m" and inv: "fs_inv valid content m s"
    and r: "priv_fat_get m c s = (r, t)"
  shows "fs_inv valid content m t \<and> content (world t) = content (world s) \<and> fat_frame s t \<and>
    (\<forall>v. r = Inr v \<longrightarrow> v = fat_at content m s c)"
proof -
  let ?x = "entry_off (m_type m) (unat c)"
  let ?off = "ucast (internal_fat_entry_byte_offset m c mod ucast (priv_bps m)) :: u32"
  let ?sec = "fat_lba m 0 (?x div bs)"
  note sec = sector_of_entry [OF m, where c = c]
  from m have bs: "bs \<in> {512, 1024, 2048, 4096}" by (simp add: on_backend_def)
  then have lt: "unat ?off < bs" by (auto simp: sec)
  obtain r1 s1 where s1: "priv_fat_sector_read m ?sec s = (r1, s1)" by (metis surj_pair)
  note rd1 = fat_sector_read [OF m inv s1]
  show ?thesis
  proof (cases r1)
    case (Inl e)
    with r s1 rd1 show ?thesis
      by (auto simp: priv_fat_get_def Let_def sec bindE_def)
  next
    case (Inr buf)
    with rd1(4) have buf: "buf = vsec content m s ?sec" by simp
    show ?thesis
    proof (cases "m_type m = k_ra8_fs_type_fat12")
      case True
      show ?thesis
      proof (cases "?x mod bs + 1 < bs")
        case within: True
        with r s1 Inr True lt have "t = s1"
          and "r = Inr (if c AND 1 \<noteq> 0 then ucast (drop_bit 4 (join16 (buf ! (?x mod bs)) (buf ! (?x mod bs + 1))))
            else ucast (join16 (buf ! (?x mod bs)) (buf ! (?x mod bs + 1)) AND 0x0FFF))"
          by (auto simp: priv_fat_get_def Let_def sec bindE_def off_plus_one [OF m lt] join16_def)
        moreover have "fat_byte content m s 0 ?x = buf ! (?x mod bs)"
          and "fat_byte content m s 0 (?x + 1) = buf ! (?x mod bs + 1)"
          unfolding buf by (rule fat_byte_at [OF m], rule fat_byte_within [OF m within])
        note this [unfolded True]
        ultimately show ?thesis
          using rd1 True by (auto simp: fat_at_def fat_decode_def Let_def)
      next
        case straddle: False
        obtain r2 s2 where s2: "priv_fat_sector_read m (?sec + 1) s1 = (r2, s2)" by (metis surj_pair)
        note rd2 = fat_sector_read [OF m rd1(1) s2]
        have next': "?x mod bs + 1 = bs" using straddle mod_less_divisor [of bs ?x] bs by auto
        have keep: "fs_inv valid content m s2 \<and> content (world s2) = content (world s) \<and> fat_frame s s2"
          using rd1 rd2 fat_frame_trans by auto
        show ?thesis
        proof (cases r2)
          case (Inl e)
          with r s1 s2 Inr True lt straddle keep show ?thesis
            by (auto simp: priv_fat_get_def Let_def sec bindE_def off_plus_one [OF m lt])
        next
          case (Inr buf2)
          with rd2(4) rd1(2) have buf2: "buf2 = vsec content m s (?sec + 1)" by (simp add: vsec_def)
          from r s1 s2 \<open>r1 = Inr buf\<close> Inr True lt straddle
          have "t = s2" and "r = Inr (if c AND 1 \<noteq> 0
              then ucast (drop_bit 4 (join16 (buf ! (?x mod bs)) (buf2 ! 0)))
              else ucast (join16 (buf ! (?x mod bs)) (buf2 ! 0) AND 0x0FFF))"
            by (auto simp: priv_fat_get_def Let_def sec bindE_def off_plus_one [OF m lt] join16_def)
          moreover have "fat_byte content m s 0 ?x = buf ! (?x mod bs)"
            and "fat_byte content m s 0 (?x + 1) = buf2 ! 0"
            unfolding buf buf2 by (rule fat_byte_at [OF m], rule fat_byte_next [OF m next'])
          note this [unfolded True]
          ultimately show ?thesis
            using keep True by (auto simp: fat_at_def fat_decode_def Let_def)
        qed
      qed
    next
      case False
      have w: "?x mod bs + k < bs" if "k < entry_width (m_type m)" for k
        using entry_within [OF bs False that] .
      from r s1 Inr False have t: "t = s1" by (auto simp: priv_fat_get_def Let_def sec bindE_def split: if_splits)
      have "fat_byte content m s 0 (?x + k) = buf ! (?x + k - ?x + ?x mod bs)"
        if "k < entry_width (m_type m)" for k
        using fat_byte_within [OF m w [OF that], of s 0] by (simp add: buf add.commute)
      then have "fat_at content m s c = fat_decode (m_type m) (\<lambda>j. buf ! (j - ?x + ?x mod bs)) c"
        unfolding fat_at_def by (rule fat_decode_cong)
      with r s1 Inr False have "v = fat_at content m s c" if "r = Inr v" for v
        using that by (auto simp: priv_fat_get_def Let_def sec bindE_def fat_decode_def join16_def
            join32_def priv_rd16_def priv_rd32_def add.commute split: if_splits)
      with rd1 t show ?thesis by blast
    qed
  qed
qed

end

section \<open>Storing an entry\<close>

text \<open>The absolute blocks of the FAT area, and a step that changes nothing else of the medium.\<close>

definition fat_area :: "'w mount \<Rightarrow> u64 set" where
  "fat_area m = {fat_lba m i q + m_partition_base_lba m | i q.
     i < unat (m_num_fats m) \<and> q < unat (m_fat_size_sectors m)}"

definition fat_only :: "('w \<Rightarrow> u64 \<Rightarrow> bytes) \<Rightarrow> 'w mount \<Rightarrow> 'w fs \<Rightarrow> 'w fs \<Rightarrow> bool" where
  "fat_only content m s t \<longleftrightarrow> fat_frame s t \<and>
     (\<forall>l. l \<notin> fat_area m \<longrightarrow> content (world t) l = content (world s) l)"

lemma fat_only_refl [simp, intro!]: "fat_only content m s s"
  by (simp add: fat_only_def)

lemma fat_only_trans: "fat_only content m s t \<Longrightarrow> fat_only content m t u \<Longrightarrow> fat_only content m s u"
  by (auto simp: fat_only_def intro: fat_frame_trans)

lemma fat_only_same:
  "fat_frame s t \<Longrightarrow> content (world t) = content (world s) \<Longrightarrow> fat_only content m s t"
  by (simp add: fat_only_def)

lemma ucast_of_nat64: "i < 2 ^ 32 \<Longrightarrow> (ucast (of_nat i :: u32) :: u64) = of_nat i"
  by (simp add: word_unat_eq_iff unat_of_nat)

lemma mult_add_inj:
  fixes n :: nat
  assumes "q < n" "p < n" "i * n + q = j * n + p"
  shows "i = j \<and> q = p"
proof -
  from assms have "(i * n + q) div n = (j * n + p) div n" "(i * n + q) mod n = (j * n + p) mod n"
    by simp_all
  with assms(1,2) show ?thesis by simp
qed

lemma fat_lba_inj:
  assumes "i < unat (m_num_fats m)" "j < unat (m_num_fats m)"
    and q: "q < unat (m_fat_size_sectors m)" and p: "p < unat (m_fat_size_sectors m)"
    and eq: "fat_lba m i q = fat_lba m j p"
  shows "i = j \<and> q = p"
proof -
  let ?n = "unat (m_fat_size_sectors m)"
  have small: "a * ?n + r < 2 ^ 64" if "a < unat (m_num_fats m)" "r < ?n" for a r
  proof -
    from that have "a * ?n + r < Suc a * ?n" by simp
    also have "\<dots> \<le> 2 ^ 32 * 2 ^ 32"
      using that unat_lt [of "m_num_fats m"] unat_lt [of "m_fat_size_sectors m"]
      by (intro mult_le_mono) simp_all
    finally show ?thesis by simp
  qed
  from eq have "(of_nat (i * ?n + q) :: u64) = of_nat (j * ?n + p)" by (simp add: fat_lba_def)
  with small [OF assms(1) q] small [OF assms(2) p] have "i * ?n + q = j * ?n + p"
    by (simp add: word_unat_eq_iff unat_of_nat del: of_nat_add of_nat_mult)
  with q p show ?thesis by (rule mult_add_inj)
qed

lemma fat_lba_eq_iff:
  assumes "i < unat (m_num_fats m)" "j < unat (m_num_fats m)"
    and "q < unat (m_fat_size_sectors m)" and "p < unat (m_fat_size_sectors m)"
  shows "fat_lba m i q = fat_lba m j p \<longleftrightarrow> i = j \<and> q = p"
  using fat_lba_inj [OF assms] by blast

lemma fat_encode_cong:
  assumes "\<And>k. k < N \<Longrightarrow> fb k = gb k" and "entry_off ty (unat c) + entry_width ty \<le> N" and "k < N"
  shows "fat_encode ty fb c v k = fat_encode ty gb c v k"
  using assms by (cases ty) (auto simp: fat_encode_def Let_def entry_width_def)

text \<open>Committing a FAT sector to the medium and to the cache.\<close>

definition fat_put :: "'w mount \<Rightarrow> u64 \<Rightarrow> bytes \<Rightarrow> ('w fs, unit) op" where
  "fat_put m lba buf = thenE (priv_write_sector m lba buf) (modifyE (priv_fat_sector_wrote m buf lba))"

text \<open>The bytes that the FAT12 routine stores: both in one sector, or one in each of two.\<close>

definition fat12_patch :: "u32 \<Rightarrow> u32 \<Rightarrow> nat \<Rightarrow> bytes \<Rightarrow> bytes" where
  "fat12_patch c v p buf = (let raw = fat12_merge c v (join16 (buf ! p) (buf ! (p + 1))) in
     buf[p := ucast (raw AND 0xFF), p + 1 := ucast (drop_bit 8 raw AND 0xFF)])"

definition fat12_patch_lo :: "u32 \<Rightarrow> u32 \<Rightarrow> nat \<Rightarrow> bytes \<Rightarrow> bytes \<Rightarrow> bytes" where
  "fat12_patch_lo c v p buf buf2 =
     buf[p := ucast (fat12_merge c v (join16 (buf ! p) (buf2 ! 0)) AND 0xFF)]"

definition fat12_patch_hi :: "u32 \<Rightarrow> u32 \<Rightarrow> nat \<Rightarrow> bytes \<Rightarrow> bytes \<Rightarrow> bytes" where
  "fat12_patch_hi c v p buf buf2 =
     buf2[0 := ucast (drop_bit 8 (fat12_merge c v (join16 (buf ! p) (buf2 ! 0))) AND 0xFF)]"

lemma length_fat12_patch [simp]: "length (fat12_patch c v p buf) = length buf"
  "length (fat12_patch_lo c v p buf buf2) = length buf"
  "length (fat12_patch_hi c v p buf buf2) = length buf2"
  by (simp_all add: fat12_patch_def Let_def fat12_patch_lo_def fat12_patch_hi_def)

text \<open>The bytes that the FAT16, exFAT and FAT32 routines store into the sector buffer.\<close>

definition wide_patch :: "fs_type \<Rightarrow> u32 \<Rightarrow> nat \<Rightarrow> bytes \<Rightarrow> bytes" where
  "wide_patch ty v p buf =
     (if ty = k_ra8_fs_type_fat16 then priv_wr16 buf p (ucast (v AND 0xFFFF))
      else if ty = k_ra8_fs_type_exfat then priv_wr32 buf p v
      else priv_wr32 buf p ((v AND k_cluster_mask_fat32) OR (priv_rd32 buf p AND NOT k_cluster_mask_fat32)))"

lemma length_wide_patch [simp]: "length (wide_patch ty v p buf) = length buf"
  by (simp add: wide_patch_def)

lemma wide_patch_other:
  assumes "p + entry_width ty \<le> length buf" and "ty \<noteq> k_ra8_fs_type_fat12"
    and "j < p \<or> p + entry_width ty \<le> j"
  shows "wide_patch ty v p buf ! j = buf ! j"
  using assms by (cases ty) (auto simp: wide_patch_def entry_width_def nth_wr16 nth_wr32)

lemma ucast_and_FFFF: "(ucast (v AND 0xFFFF) :: u16) = ucast (v :: u32)"
  unfolding and_masks by (rule bit_word_eqI) (auto simp: bit_simps)

lemma ucast_ucast_byte: "(ucast (ucast (v :: u32) :: u16) :: u8) = ucast v"
  "(ucast (drop_bit 8 (ucast v :: u16)) :: u8) = ucast (drop_bit 8 v)"
  by (rule bit_word_eqI; simp add: bit_simps)+

lemma wide_patch_entry:
  assumes len: "p + entry_width ty \<le> length buf" and ty: "ty \<noteq> k_ra8_fs_type_fat12"
    and fb: "\<And>d. d < entry_width ty \<Longrightarrow> fb (entry_off ty (unat c) + d) = buf ! (p + d)"
    and d: "d < entry_width ty"
  shows "wide_patch ty v p buf ! (p + d) = fat_encode ty fb c v (entry_off ty (unat c) + d)"
proof -
  have "entry_width ty = 2 \<or> entry_width ty = 4" by (simp add: entry_width_def)
  with d have ds: "d = 0 \<or> d = 1 \<or> (d = 2 \<or> d = 3) \<and> entry_width ty = 4" by force
  have "join32 (fb (entry_off ty (unat c))) (fb (entry_off ty (unat c) + 1))
      (fb (entry_off ty (unat c) + 2)) (fb (entry_off ty (unat c) + 3)) = priv_rd32 buf p"
    if "entry_width ty = 4"
    using that fb [of 0] fb [of 1] fb [of 2] fb [of 3] by (simp add: join32_def priv_rd32_def)
  with ds len ty show ?thesis
    by (cases ty) (auto simp: wide_patch_def fat_encode_def Let_def entry_width_def
        nth_wr16 nth_wr32 ucast_and_FFFF ucast_ucast_byte)
qed

context block_device
begin

text \<open>A FAT sector is read, changed in memory and committed.\<close>

lemma fat_commit:
  assumes m: "on_backend b bs m" and inv: "fs_inv valid content m s" and len: "length buf = bs"
    and lba: "lba + m_partition_base_lba m \<in> fat_area m"
    and r: "fat_put m lba buf s = (r, t)"
  shows "fat_only content m s t" and "r = Inr () \<Longrightarrow> fs_inv valid content m t"
    and "r = Inr () \<Longrightarrow> content (world t) = (content (world s))(lba + m_partition_base_lba m := buf)"
proof -
  from inv have v: "valid (world s)" by (simp add: fs_inv_def)
  note r = r [unfolded fat_put_def]
  from r show "fat_only content m s t"
  proof (cases rule: bindE_cases)
    case (Err e)
    note wr = write_sector [OF m v len Err(1)]
    have "fat_frame s t" by (subst wr(2)) simp
    moreover have "content (world t) l = content (world s) l" if "l \<notin> fat_area m" for l
      using wr(4) lba that by metis
    ultimately show ?thesis by (simp add: fat_only_def)
  next
    case (Ok x u)
    with r have "r = Inr ()" by auto
    note st = fat_sector_store [OF m inv len r [unfolded this]]
    from lba st show ?thesis by (auto simp: fat_only_def)
  qed
  show "r = Inr () \<Longrightarrow> fs_inv valid content m t"
    and "r = Inr () \<Longrightarrow> content (world t) = (content (world s))(lba + m_partition_base_lba m := buf)"
    using fat_sector_store [OF m inv len] r by blast+
qed

lemma fat_rmw:
  assumes m: "on_backend b bs m" and inv: "fs_inv valid content m s"
    and f: "\<And>buf. length (f buf) = length buf"
    and lba: "lba + m_partition_base_lba m \<in> fat_area m"
    and r: "bindE (priv_fat_sector_read m lba) (\<lambda>buf. fat_put m lba (f buf)) s = (r, t)"
  shows "fat_only content m s t" and "r = Inr () \<Longrightarrow> fs_inv valid content m t"
    and "r = Inr () \<Longrightarrow> content (world t) =
      (content (world s))(lba + m_partition_base_lba m := f (vsec content m s lba))"
proof -
  have "fat_only content m s t \<and> (r = Inr () \<longrightarrow> fs_inv valid content m t \<and> content (world t) =
      (content (world s))(lba + m_partition_base_lba m := f (vsec content m s lba)))"
    using r
  proof (cases rule: bindE_cases)
    case (Err e)
    with fat_sector_read [OF m inv Err(1)] show ?thesis by (auto intro: fat_only_same)
  next
    case (Ok buf u)
    note rd = fat_sector_read [OF m inv Ok(1)]
    from rd(4) have buf: "buf = vsec content m s lba" by simp
    then have "length (f buf) = bs" by (simp add: f vsec_length)
    note cm = fat_commit [OF m rd(1) this lba Ok(2)]
    from rd(2,3) cm(1) have "fat_only content m s t"
      by (blast intro: fat_only_trans fat_only_same)
    with cm(2,3) rd(2) buf show ?thesis by simp
  qed
  then show "fat_only content m s t" and "r = Inr () \<Longrightarrow> fs_inv valid content m t"
    and "r = Inr () \<Longrightarrow> content (world t) =
      (content (world s))(lba + m_partition_base_lba m := f (vsec content m s lba))" by blast+
qed

lemma fat_rmw2:
  assumes m: "on_backend b bs m" and inv: "fs_inv valid content m s"
    and f: "\<And>buf buf2. length (f buf buf2) = length buf" "\<And>buf buf2. length (g buf buf2) = length buf2"
    and area: "lba + m_partition_base_lba m \<in> fat_area m" "lba2 + m_partition_base_lba m \<in> fat_area m"
    and r: "bindE (priv_fat_sector_read m lba) (\<lambda>buf. bindE (priv_fat_sector_read m lba2) (\<lambda>buf2.
      thenE (fat_put m lba (f buf buf2)) (fat_put m lba2 (g buf buf2)))) s = (r, t)"
  shows "fat_only content m s t \<and> (r = Inr () \<longrightarrow> fs_inv valid content m t \<and> content (world t) =
      (content (world s))(lba + m_partition_base_lba m := f (vsec content m s lba) (vsec content m s lba2),
        lba2 + m_partition_base_lba m := g (vsec content m s lba) (vsec content m s lba2)))"
  using r
proof (cases rule: bindE_cases)
  case (Err e)
  with fat_sector_read [OF m inv Err(1)] show ?thesis by (auto intro: fat_only_same)
next
  case (Ok buf u)
  note rd = fat_sector_read [OF m inv Ok(1)]
  have su: "fat_only content m s u" using rd by (blast intro: fat_only_same)
  from Ok(2) show ?thesis
  proof (cases rule: bindE_cases)
    case (Err e)
    with fat_sector_read [OF m rd(1) Err(1)] su show ?thesis
      by (auto intro: fat_only_trans fat_only_same)
  next
    case (Ok buf2 u2)
    note rd2 = fat_sector_read [OF m rd(1) Ok(1)]
    have su2: "fat_only content m s u2" using rd2 su by (blast intro: fat_only_same fat_only_trans)
    from rd(4) rd2(4) rd(2) have buf: "buf = vsec content m s lba" "buf2 = vsec content m s lba2"
      by (simp_all add: vsec_def)
    then have len: "length (f buf buf2) = bs" "length (g buf buf2) = bs"
      by (simp_all add: f vsec_length)
    from Ok(2) show ?thesis
    proof (cases rule: bindE_cases)
      case (Err e)
      with fat_commit [OF m rd2(1) len(1) area(1) Err(1)] su2 show ?thesis
        by (auto intro: fat_only_trans)
    next
      case (Ok y u3)
      note c1 = fat_commit [OF m rd2(1) len(1) area(1) Ok(1), simplified]
      note c2 = fat_commit [OF m c1(2) len(2) area(2) Ok(2)]
      show ?thesis using su2 c1 c2 rd(2) rd2(2) buf by (auto intro: fat_only_trans)
    qed
  qed
qed

text \<open>What the replacement of one FAT sector does to the bytes of the copies.\<close>

lemma fat_byte_store:
  assumes m: "on_backend b bs m" and i: "i < unat (m_num_fats m)" "j < unat (m_num_fats m)"
    and q: "q < unat (m_fat_size_sectors m)" and k: "k < unat (m_fat_size_sectors m) * bs"
    and c: "content (world t) = (content (world s))(fat_lba m i q + m_partition_base_lba m := buf)"
  shows "fat_byte content m t j k =
    (if j = i \<and> k div bs = q then buf ! (k mod bs) else fat_byte content m s j k)"
proof -
  from k have "k div bs < unat (m_fat_size_sectors m)" by (simp add: less_mult_imp_div_less)
  with fat_lba_inj [OF i(2,1) this q] c show ?thesis
    by (auto simp: fat_byte_at [OF m] vsec_def)
qed

lemma fat_byte_store2:
  assumes m: "on_backend b bs m" and i: "i < unat (m_num_fats m)" "j < unat (m_num_fats m)"
    and q: "q < unat (m_fat_size_sectors m)" "q + 1 < unat (m_fat_size_sectors m)"
    and k: "k < unat (m_fat_size_sectors m) * bs"
    and ct: "content (world t) = (content (world s))(fat_lba m i q + m_partition_base_lba m := buf,
      fat_lba m i q + 1 + m_partition_base_lba m := buf2)"
  shows "fat_byte content m t j k = (if j = i \<and> k div bs = q + 1 then buf2 ! (k mod bs)
    else if j = i \<and> k div bs = q then buf ! (k mod bs) else fat_byte content m s j k)"
proof -
  from k have p: "k div bs < unat (m_fat_size_sectors m)" by (simp add: less_mult_imp_div_less)
  note inj = fat_lba_eq_iff [OF i(2,1) p q(1)] fat_lba_eq_iff [OF i(2,1) p q(2), unfolded fat_lba_Suc]
  show ?thesis
    by (simp only: fat_byte_at [OF m] vsec_def ct fun_upd_apply add_right_cancel inj) auto
qed

text \<open>
  What a store into copy \<open>i\<close> achieves: the bytes of that copy are those \<open>fat_encode\<close> gives, the
  other copies are as they were.
\<close>

definition copy_stored :: "'w mount \<Rightarrow> u32 \<Rightarrow> u32 \<Rightarrow> nat \<Rightarrow> 'w fs \<Rightarrow> 'w fs \<Rightarrow> bool" where
  "copy_stored m c v i s t \<longleftrightarrow> (\<forall>j < unat (m_num_fats m). \<forall>k < unat (m_fat_size_sectors m) * bs.
     fat_byte content m t j k =
       (if j = i then fat_encode (m_type m) (fat_byte content m s i) c v k else fat_byte content m s j k))"

lemma entry_sector_in:
  assumes m: "on_backend b bs m" and g: "fat_geom m" and c: "in_fat m c"
    and k: "k < entry_width (m_type m)"
  shows "(entry_off (m_type m) (unat c) + k) div bs < unat (m_fat_size_sectors m)"
proof -
  from entry_fits [OF g c] k m
  have "entry_off (m_type m) (unat c) + k < unat (m_fat_size_sectors m) * bs"
    by (simp add: on_backend_def)
  then show ?thesis by (simp add: less_mult_imp_div_less)
qed

lemma copy_stored_sector:
  assumes m: "on_backend b bs m" and g: "fat_geom m" and c: "in_fat m c"
    and i: "i < unat (m_num_fats m)"
    and x: "x = entry_off (m_type m) (unat c)"
    and within: "\<And>d. d < entry_width (m_type m) \<Longrightarrow> x mod bs + d < bs"
    and ct: "content (world t) = (content (world s))(fat_lba m i (x div bs) + m_partition_base_lba m := buf)"
    and enc: "\<And>d. d < entry_width (m_type m) \<Longrightarrow>
      buf ! (x mod bs + d) = fat_encode (m_type m) (fat_byte content m s i) c v (x + d)"
    and oth: "\<And>p. p < x mod bs \<or> x mod bs + entry_width (m_type m) \<le> p \<Longrightarrow>
      buf ! p = vsec content m s (fat_lba m i (x div bs)) ! p"
  shows "copy_stored m c v i s t"
  unfolding copy_stored_def
proof (intro allI impI)
  fix j k assume j: "j < unat (m_num_fats m)" and k: "k < unat (m_fat_size_sectors m) * bs"
  let ?w = "entry_width (m_type m)"
  have q: "x div bs < unat (m_fat_size_sectors m)"
    using entry_sector_in [OF m g c, of 0] by (simp add: x entry_width_def)
  note st = fat_byte_store [OF m i j q k ct]
  show "fat_byte content m t j k =
    (if j = i then fat_encode (m_type m) (fat_byte content m s i) c v k else fat_byte content m s j k)"
  proof (cases "j = i")
    case True
    show ?thesis
    proof (cases "x \<le> k \<and> k < x + ?w")
      case hit: True
      then obtain d where d: "k = x + d" "d < ?w" by (metis le_add_diff_inverse nat_add_left_cancel_less)
      with div_mod_within [OF within [OF d(2)]] st True enc show ?thesis by simp
    next
      case miss: False
      have "buf ! (k mod bs) = vsec content m s (fat_lba m i (k div bs)) ! (k mod bs)"
        if same: "k div bs = x div bs"
      proof -
        have "k = x div bs * bs + k mod bs" by (simp flip: same)
        moreover have "x = x div bs * bs + x mod bs" by simp
        ultimately have "k mod bs < x mod bs \<or> x mod bs + ?w \<le> k mod bs"
          using miss by linarith
        from oth [OF this] show ?thesis by (simp add: same)
      qed
      moreover from miss have "fat_encode (m_type m) (fat_byte content m s i) c v k = fat_byte content m s i k"
        by (intro fat_encode_other) (auto simp: x)
      ultimately show ?thesis using st True by (simp add: fat_byte_at [OF m])
    qed
  qed (simp add: st)
qed

lemma fat_area_entry:
  assumes m: "on_backend b bs m" and g: "fat_geom m" and c: "in_fat m c"
    and i: "i < unat (m_num_fats m)" and k: "k < entry_width (m_type m)"
  shows "fat_lba m i ((entry_off (m_type m) (unat c) + k) div bs) + m_partition_base_lba m \<in> fat_area m"
  using entry_sector_in [OF m g c k] i by (auto simp: fat_area_def)

text \<open>
  One copy's store, as reads, a patch of the buffers and commits. FAT16, FAT32 and exFAT entries
  never leave their sector; a FAT12 entry may straddle two.
\<close>

lemma copy_index64: "i < unat (m_num_fats m) \<Longrightarrow> (ucast (of_nat i :: u32) :: u64) = of_nat i"
  by (rule ucast_of_nat64) (use unat_lt [of "m_num_fats m"] in simp)

lemma set_copy_wide_eq:
  assumes m: "on_backend b bs m" and i: "i < unat (m_num_fats m)" and ty: "m_type m \<noteq> k_ra8_fs_type_fat12"
    and x: "x = entry_off (m_type m) (unat c)"
  shows "fat_set_copy m c v (of_nat i) = bindE (priv_fat_sector_read m (fat_lba m i (x div bs)))
    (\<lambda>buf. fat_put m (fat_lba m i (x div bs)) (wide_patch (m_type m) v (x mod bs) buf))"
  using ty unfolding x fat_put_def
  by (simp add: wide_patch_def fat_set_copy_def Let_def sector_of_entry [OF m] copy_index64 [OF i]
      internal_fat16_set_one_def internal_exfat_fat_set_one_def internal_fat32_set_one_def)

lemma entry_off_plus_one:
  assumes m: "on_backend b bs m" and x: "x = entry_off (m_type m) (unat c)"
  defines "off \<equiv> ucast (internal_fat_entry_byte_offset m c mod ucast (priv_bps m)) :: u32"
  shows "unat off = x mod bs" and "off + 1 < priv_bps m \<longleftrightarrow> x mod bs + 1 < bs" and "unat (off + 1) = x mod bs + 1"
proof -
  have off: "unat off = x mod bs" unfolding off_def x by (rule sector_of_entry(3) [OF m])
  also have "\<dots> < bs" using m by (auto simp: on_backend_def)
  finally have lt: "unat off < bs" .
  show "unat off = x mod bs" and "off + 1 < priv_bps m \<longleftrightarrow> x mod bs + 1 < bs" and "unat (off + 1) = x mod bs + 1"
    using off_plus_one [OF m lt] off by auto
qed

lemma set_copy_fat12_eq:
  assumes m: "on_backend b bs m" and i: "i < unat (m_num_fats m)" and ty: "m_type m = k_ra8_fs_type_fat12"
    and x: "x = entry_off (m_type m) (unat c)" and win: "x mod bs + 1 < bs"
  shows "fat_set_copy m c v (of_nat i) = bindE (priv_fat_sector_read m (fat_lba m i (x div bs)))
    (\<lambda>buf. fat_put m (fat_lba m i (x div bs)) (fat12_patch c v (x mod bs) buf))"
  using ty win unfolding fat_put_def
  by (simp add: fat12_patch_def fat_set_copy_def Let_def sector_of_entry [OF m] copy_index64 [OF i]
      entry_off_plus_one [OF m x] x [symmetric] internal_fat12_set_one_def internal_fat12_store_def
      bindE_return join16_def [symmetric] x [unfolded ty, symmetric])

lemma set_copy_fat12_straddle_eq:
  assumes m: "on_backend b bs m" and i: "i < unat (m_num_fats m)" and ty: "m_type m = k_ra8_fs_type_fat12"
    and x: "x = entry_off (m_type m) (unat c)" and edge: "x mod bs + 1 = bs"
  shows "fat_set_copy m c v (of_nat i) = bindE (priv_fat_sector_read m (fat_lba m i (x div bs))) (\<lambda>buf.
    bindE (priv_fat_sector_read m (fat_lba m i (x div bs) + 1)) (\<lambda>buf2.
      thenE (fat_put m (fat_lba m i (x div bs)) (fat12_patch_lo c v (x mod bs) buf buf2))
        (fat_put m (fat_lba m i (x div bs) + 1) (fat12_patch_hi c v (x mod bs) buf buf2))))"
  using ty edge unfolding fat_put_def
  by (simp add: fat12_patch_lo_def fat12_patch_hi_def fat_set_copy_def Let_def sector_of_entry [OF m]
      copy_index64 [OF i] entry_off_plus_one [OF m x] x [symmetric] internal_fat12_set_one_def
      internal_fat12_store_def bindE_assoc join16_def [symmetric] x [unfolded ty, symmetric])

lemma set_copy_wide:
  assumes m: "on_backend b bs m" and g: "fat_geom m" and c: "in_fat m c"
    and inv: "fs_inv valid content m s" and i: "i < unat (m_num_fats m)"
    and ty: "m_type m \<noteq> k_ra8_fs_type_fat12"
    and r: "fat_set_copy m c v (of_nat i) s = (r, t)"
  shows "fat_only content m s t \<and> (r = Inr () \<longrightarrow> fs_inv valid content m t \<and> copy_stored m c v i s t)"
proof -
  let ?x = "entry_off (m_type m) (unat c)" and ?w = "entry_width (m_type m)"
  let ?lba = "fat_lba m i (?x div bs)" and ?o = "?x mod bs"
  from m have bs: "bs \<in> {512, 1024, 2048, 4096}" by (simp add: on_backend_def)
  note w = entry_within [OF bs ty]
  let ?buf = "vsec content m s ?lba"
  let ?f = "wide_patch (m_type m) v ?o"
  have area: "?lba + m_partition_base_lba m \<in> fat_area m"
    using fat_area_entry [OF m g c i, of 0] by (simp add: entry_width_def)
  note st = fat_rmw [where f = ?f, OF m inv length_wide_patch area
      r [unfolded set_copy_wide_eq [OF m i ty refl]]]
  have fb: "fat_byte content m s i (?x + d) = ?buf ! (?o + d)" if "d < ?w" for d
    using fat_byte_within [OF m w [OF that]] .
  have len: "?o + ?w \<le> length ?buf"
    using w [of "?w - 1" "unat c"] by (simp add: vsec_length entry_width_def)
  have "copy_stored m c v i s t" if ok: "r = Inr ()"
    using copy_stored_sector [OF m g c i refl w st(3) [OF ok] wide_patch_entry [OF len ty fb]
        wide_patch_other [OF len ty]] by simp
  with st show ?thesis by simp
qed

lemma set_copy_fat12_within:
  assumes m: "on_backend b bs m" and g: "fat_geom m" and c: "in_fat m c"
    and inv: "fs_inv valid content m s" and i: "i < unat (m_num_fats m)"
    and ty: "m_type m = k_ra8_fs_type_fat12"
    and win: "entry_off (m_type m) (unat c) mod bs + 1 < bs"
    and r: "fat_set_copy m c v (of_nat i) s = (r, t)"
  shows "fat_only content m s t \<and> (r = Inr () \<longrightarrow> fs_inv valid content m t \<and> copy_stored m c v i s t)"
proof -
  let ?x = "entry_off (m_type m) (unat c)" and ?w = "entry_width (m_type m)"
  let ?lba = "fat_lba m i (?x div bs)" and ?o = "?x mod bs"
  let ?buf = "vsec content m s ?lba"
  let ?f = "fat12_patch c v ?o"
  have area: "?lba + m_partition_base_lba m \<in> fat_area m"
    using fat_area_entry [OF m g c i, of 0] by (simp add: entry_width_def)
  note st = fat_rmw [where f = ?f, OF m inv length_fat12_patch(1) area
      r [unfolded set_copy_fat12_eq [OF m i ty refl win]]]
  have w: "?o + d < bs" if "d < ?w" for d using win that by (simp add: ty entry_width_def)
  have fb: "fat_byte content m s i (?x + d) = ?buf ! (?o + d)" if "d < ?w" for d
    using fat_byte_within [OF m w [OF that]] .
  have raw: "join16 (fat_byte content m s i ?x) (fat_byte content m s i (?x + 1)) =
      join16 (?buf ! ?o) (?buf ! (?o + 1))"
    using fb [of 0] fb [of 1] by (simp add: entry_width_def ty)
  have "?f ?buf ! (?o + d) = fat_encode (m_type m) (fat_byte content m s i) c v (?x + d)" if "d < ?w" for d
  proof -
    from that have "d = 0 \<or> d = 1" by (auto simp: ty entry_width_def)
    with raw w [of 0] w [of 1] show ?thesis
      by (auto simp: fat12_patch_def ty fat_encode_def Let_def codec vsec_length entry_width_def)
  qed
  moreover have "?f ?buf ! p = ?buf ! p" if "p < ?o \<or> ?o + ?w \<le> p" for p
    using that by (auto simp: fat12_patch_def Let_def ty entry_width_def)
  ultimately have "copy_stored m c v i s t" if ok: "r = Inr ()"
    using copy_stored_sector [OF m g c i refl w] st(3) ok by simp
  with st show ?thesis by simp
qed

lemma set_copy_fat12_straddle:
  assumes m: "on_backend b bs m" and g: "fat_geom m" and c: "in_fat m c"
    and inv: "fs_inv valid content m s" and i: "i < unat (m_num_fats m)"
    and ty: "m_type m = k_ra8_fs_type_fat12"
    and edge: "entry_off (m_type m) (unat c) mod bs + 1 = bs"
    and r: "fat_set_copy m c v (of_nat i) s = (r, t)"
  shows "fat_only content m s t \<and> (r = Inr () \<longrightarrow> fs_inv valid content m t \<and> copy_stored m c v i s t)"
proof -
  let ?x = "entry_off (m_type m) (unat c)" and ?w = "entry_width (m_type m)"
  let ?lba = "fat_lba m i (?x div bs)" and ?lba2 = "fat_lba m i (?x div bs) + 1" and ?o = "?x mod bs"
  let ?raw = "\<lambda>buf buf2. fat12_merge c v (join16 (buf ! ?o) (buf2 ! 0))"
  let ?f = "fat12_patch_lo c v ?o" and ?g = "fat12_patch_hi c v ?o"
  have nx: "(?x + 1) div bs = ?x div bs + 1" using div_mod_next(1) [OF edge] .
  have area: "?lba + m_partition_base_lba m \<in> fat_area m" "?lba2 + m_partition_base_lba m \<in> fat_area m"
    using fat_area_entry [OF m g c i, of 0] fat_area_entry [OF m g c i, of 1]
    by (simp_all add: entry_width_def ty [symmetric] nx fat_lba_Suc del: One_nat_def add_Suc_right)
  let ?b = "vsec content m s ?lba" and ?b2 = "vsec content m s ?lba2"
  note st = fat_rmw2 [where f = ?f and g = ?g, OF m inv length_fat12_patch(2,3) area
      r [unfolded set_copy_fat12_straddle_eq [OF m i ty refl edge]]]
  have fb: "fat_byte content m s i ?x = ?b ! ?o" "fat_byte content m s i (?x + 1) = ?b2 ! 0"
    by (rule fat_byte_at [OF m], rule fat_byte_next [OF m edge])
  have enc0: "fat_encode (m_type m) (fat_byte content m s i) c v ?x = ucast (?raw ?b ?b2)"
    and enc1: "fat_encode (m_type m) (fat_byte content m s i) c v (?x + 1) = ucast (drop_bit 8 (?raw ?b ?b2))"
    using fb by (simp_all add: fat_encode_def ty Let_def)
  have "copy_stored m c v i s t" if ok: "r = Inr ()"
    unfolding copy_stored_def
  proof (intro allI impI)
    fix j k assume j: "j < unat (m_num_fats m)" and k: "k < unat (m_fat_size_sectors m) * bs"
    let ?enc = "fat_encode (m_type m) (fat_byte content m s i) c v"
    have q2: "?x div bs < unat (m_fat_size_sectors m)" "?x div bs + 1 < unat (m_fat_size_sectors m)"
      using entry_sector_in [OF m g c, of 0] entry_sector_in [OF m g c, of 1] nx
      by (simp_all add: entry_width_def ty)
    note new = fat_byte_store2 [OF m i j q2 k conjunct2 [OF mp [OF conjunct2 [OF st] ok]]]
    show "fat_byte content m t j k = (if j = i then ?enc k else fat_byte content m s j k)"
    proof (cases "j = i")
      case True
      have x: "?x = ?x div bs * bs + ?o" and k': "k = k div bs * bs + k mod bs" by simp_all
      have x1: "?x + 1 = (?x div bs + 1) * bs"
        using div_mult_mod_eq [of "?x + 1" bs] by (simp only: nx div_mod_next(2) [OF edge] add_0_right)
      consider "k = ?x" | "k = ?x + 1" | "k < ?x \<or> ?x + 2 \<le> k" by linarith
      then show ?thesis
      proof cases
        case 1
        with new True edge show ?thesis
          by (simp add: enc0 fat12_patch_lo_def vsec_length codec)
      next
        case 2
        with new True edge nx show ?thesis
          by (simp add: enc1 fat12_patch_hi_def vsec_length codec div_mod_next(2) [OF edge] del: One_nat_def)
      next
        case 3
        then have "?enc k = fat_byte content m s j k"
          by (simp add: True) (rule fat_encode_other, simp add: ty entry_width_def)
        moreover have "k mod bs \<noteq> ?o" if "k div bs = ?x div bs"
          using 3 that x k' by fastforce
        moreover have "k mod bs \<noteq> 0" if q1: "k div bs = ?x div bs + 1"
        proof
          assume "k mod bs = 0"
          with k' have "k = k div bs * bs" by simp
          with x1 have "k = ?x + 1" by (simp only: q1)
          with 3 show False by simp
        qed
        ultimately show ?thesis using new True
          by (auto simp: fat12_patch_lo_def fat12_patch_hi_def fat_byte_at [OF m] fat_lba_Suc')
      qed
    qed (simp add: new)
  qed
  with st show ?thesis by simp
qed

lemma set_copy:
  assumes m: "on_backend b bs m" and g: "fat_geom m" and c: "in_fat m c"
    and inv: "fs_inv valid content m s" and i: "i < unat (m_num_fats m)"
    and r: "fat_set_copy m c v (of_nat i) s = (r, t)"
  shows "fat_only content m s t \<and> (r = Inr () \<longrightarrow> fs_inv valid content m t \<and> copy_stored m c v i s t)"
proof -
  let ?o = "entry_off (m_type m) (unat c) mod bs"
  from m have "?o < bs" by (auto simp: on_backend_def)
  then consider "m_type m \<noteq> k_ra8_fs_type_fat12" | "m_type m = k_ra8_fs_type_fat12" "?o + 1 < bs"
    | "m_type m = k_ra8_fs_type_fat12" "?o + 1 = bs" by linarith
  then show ?thesis
  proof cases
    case 1
    then show ?thesis by (rule set_copy_wide [OF m g c inv i _ r])
  next
    case 2
    then show ?thesis by (rule set_copy_fat12_within [OF m g c inv i _ _ r])
  next
    case 3
    then show ?thesis by (rule set_copy_fat12_straddle [OF m g c inv i _ _ r])
  qed
qed

lemma fat_set_copies:
  assumes m: "on_backend b bs m" and g: "fat_geom m" and c: "in_fat m c"
    and inv: "fs_inv valid content m s" and i: "i + n \<le> unat (m_num_fats m)"
    and r: "fat_set_copies m c v i n s = (r, t)"
  shows "fat_only content m s t \<and> (r = Inr () \<longrightarrow> fs_inv valid content m t \<and>
    (\<forall>j < unat (m_num_fats m). \<forall>k < unat (m_fat_size_sectors m) * bs. fat_byte content m t j k =
       (if i \<le> j \<and> j < i + n then fat_encode (m_type m) (fat_byte content m s j) c v k
        else fat_byte content m s j k)))"
  using inv i r
proof (induction n arbitrary: i s)
  case 0
  then show ?case by auto
next
  case (Suc n)
  let ?N = "unat (m_fat_size_sectors m) * bs"
  from Suc.prems(2) have i: "i < unat (m_num_fats m)" by simp
  from Suc.prems(3) show ?case unfolding fat_set_copies.simps
  proof (cases rule: bindE_cases)
    case (Err e)
    with set_copy [OF m g c Suc.prems(1) i Err(1)] show ?thesis by simp
  next
    case (Ok x u)
    note one = set_copy [OF m g c Suc.prems(1) i Ok(1), simplified]
    from Suc.IH [OF _ _ Ok(2)] one Suc.prems(2) have rest: "fat_only content m u t"
      "r = Inr () \<Longrightarrow> fs_inv valid content m t"
      "r = Inr () \<Longrightarrow> j < unat (m_num_fats m) \<Longrightarrow> k < ?N \<Longrightarrow> fat_byte content m t j k =
         (if i < j \<and> j < i + Suc n then fat_encode (m_type m) (fat_byte content m u j) c v k
          else fat_byte content m u j k)" for j k by (auto simp: Suc_le_eq)
    have "fat_byte content m t j k = (if i \<le> j \<and> j < i + Suc n
        then fat_encode (m_type m) (fat_byte content m s j) c v k else fat_byte content m s j k)"
      if ok: "r = Inr ()" and j: "j < unat (m_num_fats m)" and k: "k < ?N" for j k
    proof -
      have u: "fat_byte content m u j k = (if j = i
          then fat_encode (m_type m) (fat_byte content m s i) c v k else fat_byte content m s j k)"
        if "k < ?N" for k using one j that by (auto simp: copy_stored_def)
      have "fat_encode (m_type m) (fat_byte content m u j) c v k =
          fat_encode (m_type m) (fat_byte content m s j) c v k" if "j \<noteq> i"
        using entry_fits [OF g c] m k u that by (intro fat_encode_cong) (auto simp: on_backend_def)
      with rest(3) [OF ok j k] u [OF k] show ?thesis by auto
    qed
    with one rest show ?thesis by (auto intro: fat_only_trans)
  qed
qed

text \<open>The whole store, on every copy of the table.\<close>

lemma fat_set:
  assumes m: "on_backend b bs m" and g: "fat_geom m" and c: "in_fat m c"
    and inv: "fs_inv valid content m s" and r: "priv_fat_set m c v s = (r, t)"
  shows "fat_only content m s t" and "r = Inr () \<Longrightarrow> fs_inv valid content m t"
    and "r = Inr () \<Longrightarrow> j < unat (m_num_fats m) \<Longrightarrow> k < unat (m_fat_size_sectors m) * bs \<Longrightarrow>
      fat_byte content m t j k = fat_encode (m_type m) (fat_byte content m s j) c v k"
    and "r = Inr () \<Longrightarrow> fat_at content m t c = fat_clip (m_type m) v"
    and "r = Inr () \<Longrightarrow> in_fat m c' \<Longrightarrow> c' \<noteq> c \<Longrightarrow> fat_at content m t c' = fat_at content m s c'"
proof -
  note st = fat_set_copies [OF m g c inv _ r [unfolded priv_fat_set_def], simplified]
  then show "fat_only content m s t" and "r = Inr () \<Longrightarrow> fs_inv valid content m t"
    and byt: "r = Inr () \<Longrightarrow> j < unat (m_num_fats m) \<Longrightarrow> k < unat (m_fat_size_sectors m) * bs \<Longrightarrow>
      fat_byte content m t j k = fat_encode (m_type m) (fat_byte content m s j) c v k" for j k
    by auto
  have dec: "fat_at content m t d = fat_decode (m_type m) (fat_encode (m_type m) (fat_byte content m s 0) c v) d"
    if "in_fat m d" "r = Inr ()" for d
    unfolding fat_at_def
    by (rule fat_decode_cong, rule byt)
      (use g m entry_fits [OF g that(1)] that(2) in \<open>auto simp: fat_geom_def on_backend_def word_less_nat_alt\<close>)
  show "r = Inr () \<Longrightarrow> fat_at content m t c = fat_clip (m_type m) v"
    using dec [OF c] by (simp add: decode_encode_same)
  show "r = Inr () \<Longrightarrow> in_fat m c' \<Longrightarrow> c' \<noteq> c \<Longrightarrow> fat_at content m t c' = fat_at content m s c'"
    using dec [of c'] by (simp add: decode_encode_other fat_at_def)
qed

end
end
