(* ===== verification/Fat_Cluster.thy ===== *)
theory Fat_Cluster
  imports Fat_Access
begin

text \<open>
  Correctness of the cluster allocator, \<open>priv_alloc_cluster\<close> of \<^verbatim>\<open>ra8_fs_fat.c\<close>: it returns
  the first free cluster at or after the next-free hint, cyclically, and fails only when every
  data cluster is taken. The second part shows that table reads succeed on a device that does
  not fail.
\<close>

section \<open>The allocator\<close>

definition in_data :: "'w mount \<Rightarrow> u32 \<Rightarrow> bool" where
  "in_data m c \<longleftrightarrow> 2 \<le> unat c \<and> unat c < unat (m_count_of_clusters m) + 2"

lemma in_data_in_fat: "in_data m c \<Longrightarrow> in_fat m c"
  by (simp add: in_data_def in_fat_def)

text \<open>The data cluster with index \<open>p\<close>, counted cyclically.\<close>

definition cyc :: "'w mount \<Rightarrow> nat \<Rightarrow> u32" where
  "cyc m p = of_nat (p mod unat (m_count_of_clusters m) + 2)"

lemma unat_cyc:
  assumes "fat_geom m" and "0 < m_count_of_clusters m"
  shows "unat (cyc m p) = p mod unat (m_count_of_clusters m) + 2"
proof -
  from assms have "p mod unat (m_count_of_clusters m) < unat (m_count_of_clusters m)"
    by (simp add: word_less_nat_alt)
  with assms show ?thesis
    unfolding cyc_def by (intro unat_of_nat_small) (simp add: fat_geom_def)
qed

lemma cyc_in_data: "fat_geom m \<Longrightarrow> 0 < m_count_of_clusters m \<Longrightarrow> in_data m (cyc m p)"
  by (simp add: in_data_def unat_cyc) (simp add: word_less_nat_alt)

lemma in_data_cyc:
  assumes "fat_geom m" and "in_data m c"
  shows "c = cyc m (unat c - 2)"
proof -
  from assms have "0 < m_count_of_clusters m" "unat c - 2 < unat (m_count_of_clusters m)"
    by (auto simp: in_data_def word_less_nat_alt)
  with assms unat_cyc [of m "unat c - 2"] show ?thesis
    by (auto simp: word_unat_eq_iff in_data_def)
qed

lemma cyc_next:
  assumes g: "fat_geom m" and n: "0 < m_count_of_clusters m"
  shows "(if cyc m p + 1 \<ge> k_cluster_first_data + m_count_of_clusters m then k_cluster_first_data
    else cyc m p + 1) = cyc m (Suc p)"
proof -
  let ?N = "unat (m_count_of_clusters m)"
  have pn: "p mod ?N < ?N" using n by (simp add: word_less_nat_alt)
  have small: "?N + 2 < 2 ^ 32" using g by (simp add: fat_geom_def)
  have a: "unat (cyc m p + 1) = p mod ?N + 3" using pn small by (simp add: unat_word_ariths unat_cyc [OF g n])
  have b: "unat (k_cluster_first_data + m_count_of_clusters m) = ?N + 2"
    using small by (simp add: unat_word_ariths)
  show ?thesis
    using pn a b small
    by (auto simp: word_unat_eq_iff word_le_nat_alt unat_cyc [OF g n] mod_Suc)
qed

text \<open>A full turn from any starting point meets every residue.\<close>

lemma cyclic_reach:
  fixes n :: nat
  assumes "0 < n"
  shows "\<exists>j < n. (p + j) mod n = c mod n"
proof -
  let ?j = "(c mod n + (n - p mod n)) mod n"
  have "(p + ?j) mod n = (p mod n + (c mod n + (n - p mod n))) mod n"
    by (metis mod_add_left_eq mod_add_right_eq)
  also have "p mod n + (c mod n + (n - p mod n)) = c mod n + n"
    using mod_less_divisor [OF assms, of p] by simp
  finally show ?thesis using assms by (intro exI [of _ ?j]) simp
qed

lemma alloc_start_in_data:
  assumes g: "fat_geom m" and n: "0 < m_count_of_clusters m"
  shows "in_data m (internal_alloc_start m hint)"
proof (cases "hint - k_cluster_first_data \<ge> m_count_of_clusters m")
  case True
  with n show ?thesis by (simp add: internal_alloc_start_def in_data_def word_less_nat_alt)
next
  case False
  then have lt: "unat (hint - 2) < unat (m_count_of_clusters m)" by (simp add: word_less_nat_alt not_le)
  have "2 \<le> unat hint"
  proof (rule ccontr)
    assume "\<not> 2 \<le> unat hint"
    then have "unat (hint - 2) = unat hint + 2 ^ 32 - 2"
      by (simp add: unat_sub_if_size word_le_nat_alt word_size)
    with lt g show False by (simp add: fat_geom_def)
  qed
  then have "unat (hint - 2) = unat hint - 2" by (simp add: unat_sub_le word_le_nat_alt)
  with lt False \<open>2 \<le> unat hint\<close> show ?thesis by (simp add: internal_alloc_start_def in_data_def)
qed

section \<open>Slot updates and the cache invariant\<close>

lemma fs_inv_slot_update [simp]: "fs_inv valid content m (slot_update i f s) = fs_inv valid content m s"
  by (simp add: fs_inv_def coherent_def vsec_def)

lemma fs_inv_slot_ops [simp]:
  "fs_inv valid content m' (priv_alloc_hint_set m c s) = fs_inv valid content m' s"
  "fs_inv valid content m' (priv_alloc_hint_lower m c s) = fs_inv valid content m' s"
  "fs_inv valid content m' (priv_free_count_took m n s) = fs_inv valid content m' s"
  "fs_inv valid content m' (priv_free_count_gave m n s) = fs_inv valid content m' s"
  by (simp_all add: priv_alloc_hint_set_def priv_alloc_hint_lower_def priv_free_count_took_def
      priv_free_count_gave_def split: option.split)

lemma world_slot_ops [simp]:
  "world (priv_alloc_hint_set m c s) = world s" "world (priv_alloc_hint_lower m c s) = world s"
  "world (priv_free_count_took m n s) = world s" "world (priv_free_count_gave m n s) = world s"
  by (simp_all add: priv_alloc_hint_set_def priv_alloc_hint_lower_def priv_free_count_took_def
      priv_free_count_gave_def split: option.split)

context block_device
begin

lemma alloc_scan:
  assumes m: "on_backend b bs m" and g: "fat_geom m" and n0: "0 < m_count_of_clusters m"
    and inv: "fs_inv valid content m s"
    and r: "alloc_scan m (k_cluster_first_data + m_count_of_clusters m) n (cyc m p) s = (Inr d, t)"
  shows "\<exists>i u. i < n \<and> d = cyc m (p + i) \<and> fat_at content m s d = k_cluster_free \<and>
    (\<forall>j < i. fat_at content m s (cyc m (p + j)) \<noteq> k_cluster_free) \<and>
    fs_inv valid content m u \<and> content (world u) = content (world s) \<and> fat_frame s u \<and>
    t = priv_free_count_took m 1 (priv_alloc_hint_set m (d + 1) u)"
  using inv r
proof (induction n arbitrary: p s)
  case 0
  then show ?case by simp
next
  case (Suc n)
  let ?pe = "k_cluster_first_data + m_count_of_clusters m"
  from Suc.prems(2) obtain v u where u: "priv_fat_get m (cyc m p) s = (Inr v, u)"
    and rest: "(if v = k_cluster_free then
         bindE (modifyE (priv_alloc_hint_set m (cyc m p + 1)))
         (\<lambda>_. bindE (modifyE (priv_free_count_took m 1)) (\<lambda>_. returnE (cyc m p)))
       else alloc_scan m ?pe n (if cyc m p + 1 \<ge> ?pe then k_cluster_first_data else cyc m p + 1)) u
       = (Inr d, t)"
    unfolding alloc_scan.simps Let_def by (rule bindE_InrE)
  from fat_get [OF m Suc.prems(1) u] have gt: "fs_inv valid content m u"
    "content (world u) = content (world s)" "fat_frame s u" "v = fat_at content m s (cyc m p)" by auto
  show ?case
  proof (cases "v = k_cluster_free")
    case True
    with rest have "d = cyc m p" "t = priv_free_count_took m 1 (priv_alloc_hint_set m (d + 1) u)"
      by (auto simp: bindE_def)
    with gt True show ?thesis by (intro exI [of _ 0] exI [of _ u]) simp
  next
    case False
    with rest have "alloc_scan m ?pe n (cyc m (Suc p)) u = (Inr d, t)"
      unfolding cyc_next [OF g n0, symmetric] by simp
    from Suc.IH [OF gt(1) this] obtain i u' where i: "i < n" "d = cyc m (Suc p + i)"
      "fat_at content m u d = k_cluster_free"
      "\<forall>j < i. fat_at content m u (cyc m (Suc p + j)) \<noteq> k_cluster_free"
      "fs_inv valid content m u'" "content (world u') = content (world u)" "fat_frame u u'"
      "t = priv_free_count_took m 1 (priv_alloc_hint_set m (d + 1) u')" by blast
    have at: "fat_at content m u = fat_at content m s"
      by (simp add: fun_eq_iff fat_at_def fat_byte_cong [OF gt(2)])
    have "fat_at content m s (cyc m (p + j)) \<noteq> k_cluster_free" if "j < Suc i" for j
      using that i(4) False gt(4) by (cases j) (auto simp: at)
    with i gt show ?thesis
      by (intro exI [of _ "Suc i"] exI [of _ u']) (auto simp: at intro: fat_frame_trans)
  qed
qed


text \<open>The allocator returns the first free data cluster at or after the hint, cyclically.\<close>

lemma alloc_cluster:
  assumes m: "on_backend b bs m" and g: "fat_geom m" and inv: "fs_inv valid content m s"
    and r: "priv_alloc_cluster m s = (Inr d, t)"
  shows "\<exists>i u. in_data m d \<and> fat_at content m s d = k_cluster_free \<and>
    d = cyc m (unat (internal_alloc_start m (priv_alloc_hint_get m s)) - 2 + i) \<and>
    (\<forall>j < i. fat_at content m s (cyc m (unat (internal_alloc_start m (priv_alloc_hint_get m s)) - 2 + j))
       \<noteq> k_cluster_free) \<and>
    fs_inv valid content m u \<and> content (world u) = content (world s) \<and> fat_frame s u \<and>
    t = priv_free_count_took m 1 (priv_alloc_hint_set m (d + 1) u)"
proof -
  let ?st = "internal_alloc_start m (priv_alloc_hint_get m s)"
  from r have r': "alloc_scan m (k_cluster_first_data + m_count_of_clusters m)
      (unat (m_count_of_clusters m)) ?st s = (Inr d, t)"
    by (simp add: priv_alloc_cluster_def bindE_def)
  have n0: "0 < m_count_of_clusters m"
    using r' by (cases "unat (m_count_of_clusters m)") (auto simp: word_less_nat_alt)
  note r' [unfolded in_data_cyc [OF g alloc_start_in_data [OF g n0], symmetric]]
  with alloc_scan [OF m g n0 inv, of _ "unat ?st - 2" d t] r' in_data_cyc [OF g alloc_start_in_data [OF g n0]]
    cyc_in_data [OF g n0]
  show ?thesis by metis
qed

end

section \<open>Success on a device that does not fail\<close>

context reliable_device
begin

definition fat_on_medium :: "'w mount \<Rightarrow> 'w fs \<Rightarrow> bool" where
  "fat_on_medium m s \<longleftrightarrow> (\<forall>l \<in> fat_area m. unat l < nblocks (world s))"

lemma read_sector_ok:
  assumes m: "on_backend b bs m" and v: "valid (world s)"
    and l: "unat (lba + m_partition_base_lba m) < nblocks (world s)"
  shows "\<exists>buf t. priv_read_sector m lba s = (Inr buf, t) \<and> nblocks (world t) = nblocks (world s)"
proof -
  obtain rd where rd: "read_block b = Some rd" using has_read by blast
  from read_ok [OF rd v l] rd m show ?thesis
    by (auto simp: priv_read_sector_def on_backend_def liftW_def)
qed

lemma write_sector_ok:
  assumes m: "on_backend b bs m" and v: "valid (world s)" and len: "length buf = bs"
    and l: "unat (lba + m_partition_base_lba m) < nblocks (world s)"
  shows "\<exists>t. priv_write_sector m lba buf s = (Inr (), t) \<and> nblocks (world t) = nblocks (world s)"
proof -
  obtain wr where wr: "write_block b = Some wr" using has_write by blast
  from write_ok [OF wr v l len] wr m show ?thesis
    by (auto simp: priv_write_sector_def on_backend_def liftW_def)
qed

lemma fat_sector_read_ok:
  assumes m: "on_backend b bs m" and v: "valid (world s)"
    and l: "unat (lba + m_partition_base_lba m) < nblocks (world s)"
  shows "\<exists>buf t. priv_fat_sector_read m lba s = (Inr buf, t) \<and> nblocks (world t) = nblocks (world s)"
  using read_sector_ok [OF assms] by (auto simp: priv_fat_sector_read_def bindE_def)

lemma fat_get_ok:
  assumes m: "on_backend b bs m" and g: "fat_geom m" and c: "in_fat m c"
    and inv: "fs_inv valid content m s" and on: "fat_on_medium m s"
  shows "\<exists>t. priv_fat_get m c s = (Inr (fat_at content m s c), t) \<and> nblocks (world t) = nblocks (world s)"
proof -
  let ?x = "entry_off (m_type m) (unat c)"
  have i: "0 < unat (m_num_fats m)" using g by (simp add: fat_geom_def word_less_nat_alt)
  have med: "unat (fat_lba m 0 ((?x + k) div bs) + m_partition_base_lba m) < nblocks (world s)"
    if "k < entry_width (m_type m)" for k
    using on fat_area_entry [OF m g c i that] by (simp add: fat_on_medium_def)
  from inv have v: "valid (world s)" by (simp add: fs_inv_def)
  note sec = sector_of_entry [OF m, where c = c]
  obtain buf u where u: "priv_fat_sector_read m (fat_lba m 0 (?x div bs)) s = (Inr buf, u)"
    "nblocks (world u) = nblocks (world s)"
    using fat_sector_read_ok [OF m v med [of 0]] by auto
  note rd = fat_sector_read [OF m inv u(1)]
  have vu: "valid (world u)" using rd(1) by (simp add: fs_inv_def)
  have "\<exists>v t. priv_fat_get m c s = (Inr v, t) \<and> nblocks (world t) = nblocks (world s)"
  proof (cases "m_type m = k_ra8_fs_type_fat12 \<and> \<not> ?x mod bs + 1 < bs")
    case True
    let ?off = "ucast (internal_fat_entry_byte_offset m c mod ucast (priv_bps m)) :: u32"
    have lt: "?x mod bs < bs" using m by (auto simp: on_backend_def)
    then have "unat ?off < bs" by (simp add: sec)
    note off = off_plus_one [OF m this, unfolded sec]
    from True lt have "?x mod bs + 1 = bs" by linarith
    from div_mod_next(1) [OF this] med [of 1] have "unat (fat_lba m 0 (?x div bs) + 1 + m_partition_base_lba m)
        < nblocks (world u)" by (simp add: u(2) fat_lba_Suc')
    from fat_sector_read_ok [OF m vu this] obtain buf2 t where
      "priv_fat_sector_read m (fat_lba m 0 (?x div bs) + 1) u = (Inr buf2, t)"
      "nblocks (world t) = nblocks (world u)" by auto
    with u True show ?thesis
      by (auto simp: priv_fat_get_def Let_def sec bindE_def off)
  next
    case False
    have "?x mod bs < bs" using m by (auto simp: on_backend_def)
    then have "unat (ucast (internal_fat_entry_byte_offset m c mod ucast (priv_bps m)) :: u32) < bs"
      by (simp add: sec)
    note off = off_plus_one [OF m this, unfolded sec]
    with u False show ?thesis
      by (auto simp: priv_fat_get_def Let_def sec bindE_def off)
  qed
  with fat_get [OF m inv] show ?thesis by blast
qed


lemma alloc_scan_total:
  assumes m: "on_backend b bs m" and g: "fat_geom m" and n0: "0 < m_count_of_clusters m"
    and inv: "fs_inv valid content m s" and on: "fat_on_medium m s"
    and r: "alloc_scan m (k_cluster_first_data + m_count_of_clusters m) n (cyc m p) s = (Inl e, t)"
  shows "e = k_ra8_err_no_mem \<and> (\<forall>j < n. fat_at content m s (cyc m (p + j)) \<noteq> k_cluster_free) \<and>
    fs_inv valid content m t \<and> content (world t) = content (world s) \<and> fat_frame s t"
  using inv on r
proof (induction n arbitrary: p s)
  case 0
  then show ?case by simp
next
  case (Suc n)
  let ?pe = "k_cluster_first_data + m_count_of_clusters m" and ?v = "fat_at content m s (cyc m p)"
  from fat_get_ok [OF m g in_data_in_fat [OF cyc_in_data [OF g n0]] Suc.prems(1,2)]
  obtain u where u: "priv_fat_get m (cyc m p) s = (Inr ?v, u)" "nblocks (world u) = nblocks (world s)"
    by blast
  from fat_get [OF m Suc.prems(1) u(1)] have gt: "fs_inv valid content m u"
    "content (world u) = content (world s)" "fat_frame s u" by auto
  from Suc.prems(3) have rest: "(if ?v = k_cluster_free then
         bindE (modifyE (priv_alloc_hint_set m (cyc m p + 1)))
         (\<lambda>_. bindE (modifyE (priv_free_count_took m 1)) (\<lambda>_. returnE (cyc m p)))
       else alloc_scan m ?pe n (cyc m (Suc p))) u = (Inl e, t)"
    unfolding cyc_next [OF g n0, symmetric] alloc_scan.simps Let_def bindE_ok [of "priv_fat_get m (cyc m p)", OF u(1)] .
  then have v: "?v \<noteq> k_cluster_free" by (auto simp: bindE_def)
  with rest have "alloc_scan m ?pe n (cyc m (Suc p)) u = (Inl e, t)" by simp
  moreover have "fat_on_medium m u" using Suc.prems(2) u(2) by (simp add: fat_on_medium_def)
  ultimately have ih: "e = k_ra8_err_no_mem"
    "\<forall>j < n. fat_at content m u (cyc m (Suc p + j)) \<noteq> k_cluster_free"
    "fs_inv valid content m t" "content (world t) = content (world u)" "fat_frame u t"
    using Suc.IH [OF gt(1), of "Suc p"] by blast+
  have at: "fat_at content m u = fat_at content m s"
    by (simp add: fun_eq_iff fat_at_def fat_byte_cong [OF gt(2)])
  have "fat_at content m s (cyc m (p + j)) \<noteq> k_cluster_free" if "j < Suc n" for j
    using that ih(2) v by (cases j) (auto simp: at)
  with ih gt show ?case by (auto intro: fat_frame_trans)
qed

text \<open>The allocator fails only when no data cluster is free.\<close>

lemma alloc_cluster_full:
  assumes m: "on_backend b bs m" and g: "fat_geom m" and inv: "fs_inv valid content m s"
    and on: "fat_on_medium m s" and r: "priv_alloc_cluster m s = (Inl e, t)"
  shows "e = k_ra8_err_no_mem" and "in_data m c \<Longrightarrow> fat_at content m s c \<noteq> k_cluster_free"
    and "fs_inv valid content m t" and "content (world t) = content (world s)" and "fat_frame s t"
proof -
  let ?st = "internal_alloc_start m (priv_alloc_hint_get m s)" and ?N = "unat (m_count_of_clusters m)"
  from r have r': "alloc_scan m (k_cluster_first_data + m_count_of_clusters m) ?N ?st s = (Inl e, t)"
    by (simp add: priv_alloc_cluster_def bindE_def)
  have "e = k_ra8_err_no_mem \<and> (\<forall>c. in_data m c \<longrightarrow> fat_at content m s c \<noteq> k_cluster_free) \<and>
    fs_inv valid content m t \<and> content (world t) = content (world s) \<and> fat_frame s t"
  proof (cases "?N = 0")
    case True
    with r' inv show ?thesis by (auto simp: in_data_def)
  next
    case False
    then have n0: "0 < m_count_of_clusters m" by (simp add: word_less_nat_alt)
    let ?p = "unat ?st - 2"
    from r' in_data_cyc [OF g alloc_start_in_data [OF g n0]]
    have "alloc_scan m (k_cluster_first_data + m_count_of_clusters m) ?N (cyc m ?p) s = (Inl e, t)" by metis
    note scan = alloc_scan_total [OF m g n0 inv on this]
    have "fat_at content m s c \<noteq> k_cluster_free" if c: "in_data m c" for c
    proof -
      obtain j where "j < ?N" "(?p + j) mod ?N = (unat c - 2) mod ?N"
        using cyclic_reach [of ?N ?p "unat c - 2"] False by auto
      then have "c = cyc m (?p + j)" using in_data_cyc [OF g c] by (simp add: cyc_def)
      with scan \<open>j < ?N\<close> show ?thesis by blast
    qed
    with scan show ?thesis by blast
  qed
  then show "e = k_ra8_err_no_mem" "in_data m c \<Longrightarrow> fat_at content m s c \<noteq> k_cluster_free"
    "fs_inv valid content m t" "content (world t) = content (world s)" "fat_frame s t" by blast+
qed

end

end
