(* ===== verification/Fat_Chain.thy ===== *)
theory Fat_Chain
  imports Fat_Cluster
begin

text \<open>
  Cluster chains: \<open>priv_free_chain\<close> (\<^verbatim>\<open>ra8_fs_free_chain_abi.zig\<close>), and
  \<open>internal_skip_clusters\<close>, \<open>priv_alloc_eoc_cluster\<close> and \<open>internal_walk_grow\<close> of
  \<^verbatim>\<open>ra8_fs_fat_fileio.c\<close>. The abstraction is the table as a function from clusters to entries
  (\<open>fat_at\<close>): \<open>chain\<close>, \<open>follow\<close> and \<open>free_walk\<close> are the pure counterparts of the loops.
\<close>

section \<open>Cluster chains: definitions\<close>

definition inData :: "'w mount \<Rightarrow> u32 \<Rightarrow> bool" where
  "inData m clus \<longleftrightarrow> clus \<ge> k_cluster_first_data \<and> clus - k_cluster_first_data < m_count_of_clusters m"

text \<open>
  The loop of \<open>priv_free_chain\<close>; \<open>n\<close> is \<open>count_of_clusters - guard\<close>, so the iteration that
  raises \<open>guard\<close> above \<open>count_of_clusters\<close> is the one entered with \<open>n = 0\<close>.
\<close>

definition free_one :: "'w mount \<Rightarrow> u32 \<Rightarrow> ('w fs, u32) op" where
  "free_one m cur =
     bindE (priv_fat_get m cur) (\<lambda>nxt.
     thenE (priv_fat_set m cur k_cluster_free)
     (thenE (modifyE (priv_free_count_gave m 1))
     (thenE (modifyE (priv_alloc_hint_lower m cur)) (returnE nxt))))"

primrec free_chain_loop :: "'w mount \<Rightarrow> nat \<Rightarrow> u32 \<Rightarrow> ('w fs, unit) op" where
  "free_chain_loop m 0 cur =
     (if \<not> inData m cur then returnE ()
      else bindE (free_one m cur) (\<lambda>nxt.
        if priv_is_eoc m nxt then returnE () else throwE k_ra8_err_protocol_error))"
| "free_chain_loop m (Suc n) cur =
     (if \<not> inData m cur then returnE ()
      else bindE (free_one m cur) (\<lambda>nxt.
        if priv_is_eoc m nxt then returnE () else free_chain_loop m n nxt))"

definition priv_free_chain :: "'w mount \<Rightarrow> u32 \<Rightarrow> ('w fs, unit) op" where
  "priv_free_chain m start = free_chain_loop m (unat (m_count_of_clusters m)) start"

text \<open>
  \<open>internal_skip_clusters\<close> sets its output also when it returns \<open>k_ra8_err_invalid_state\<close>; no
  caller reads it then, so the model returns it on success only.
\<close>

primrec skip_loop :: "'w mount \<Rightarrow> nat \<Rightarrow> u32 \<Rightarrow> ('w fs, u32) op" where
  "skip_loop m 0 cur = returnE cur"
| "skip_loop m (Suc n) cur =
     bindE (priv_fat_get m cur) (\<lambda>nxt.
       if priv_is_eoc m nxt then throwE k_ra8_err_invalid_state else skip_loop m n nxt)"

definition internal_skip_clusters :: "'w mount \<Rightarrow> u32 \<Rightarrow> u32 \<Rightarrow> ('w fs, u32) op" where
  "internal_skip_clusters m start n = skip_loop m (unat n) start"

definition priv_alloc_eoc_cluster :: "'w mount \<Rightarrow> ('w fs, u32) op" where
  "priv_alloc_eoc_cluster m =
     bindE (priv_alloc_cluster m) (\<lambda>c. thenE (priv_fat_set m c (priv_eoc_write m)) (returnE c))"

primrec walk_grow_loop :: "'w mount \<Rightarrow> nat \<Rightarrow> u32 \<Rightarrow> ('w fs, u32) op" where
  "walk_grow_loop m 0 cur = returnE cur"
| "walk_grow_loop m (Suc n) cur =
     bindE (priv_fat_get m cur) (\<lambda>nxt.
       if priv_is_eoc m nxt then
         bindE (priv_alloc_eoc_cluster m) (\<lambda>newc.
         thenE (priv_fat_set m cur newc) (walk_grow_loop m n newc))
       else walk_grow_loop m n nxt)"

definition internal_walk_grow :: "'w mount \<Rightarrow> u32 \<Rightarrow> u32 \<Rightarrow> ('w fs, u32) op" where
  "internal_walk_grow m start idx = walk_grow_loop m (unat idx) start"

section \<open>Chains over a table\<close>

text \<open>Following \<open>n\<close> links, \<open>None\<close> when the chain ends before.\<close>

primrec follow :: "'w mount \<Rightarrow> (u32 \<Rightarrow> u32) \<Rightarrow> nat \<Rightarrow> u32 \<Rightarrow> u32 option" where
  "follow m tab 0 c = Some c"
| "follow m tab (Suc n) c = (if priv_is_eoc m (tab c) then None else follow m tab n (tab c))"

text \<open>
  The clusters a release visits, in order, and whether it ends before the guard: the entry of each
  visited cluster is zero for the rest of the walk.
\<close>

primrec free_walk :: "'w mount \<Rightarrow> nat \<Rightarrow> (u32 \<Rightarrow> u32) \<Rightarrow> u32 \<Rightarrow> u32 list \<times> bool" where
  "free_walk m 0 tab c = (if \<not> inData m c then ([], True) else ([c], priv_is_eoc m (tab c)))"
| "free_walk m (Suc n) tab c =
     (if \<not> inData m c then ([], True)
      else if priv_is_eoc m (tab c) then ([c], True)
      else case free_walk m n (tab(c := 0)) (tab c) of (cs, ok) \<Rightarrow> (c # cs, ok))"

lemma inData_iff: "fat_geom m \<Longrightarrow> inData m c \<longleftrightarrow> in_data m c"
  by (auto simp: inData_def in_data_def word_le_nat_alt word_less_nat_alt unat_sub_if_size)

lemma free_walk_cong:
  assumes "\<And>c. inData m c \<Longrightarrow> tab c = tab' c"
  shows "free_walk m n tab c = free_walk m n tab' c"
  using assms
proof (induction n arbitrary: tab tab' c)
  case (Suc n)
  have "free_walk m n (tab(c := 0)) (tab c) = free_walk m n (tab'(c := 0)) (tab c)"
    by (rule Suc.IH) (simp add: Suc.prems)
  with Suc.prems show ?case by auto
qed auto

lemma free_walk_inData: "set (fst (free_walk m n tab c)) \<subseteq> Collect (inData m)"
proof (induction n arbitrary: tab c)
  case (Suc n)
  obtain cs ok where w: "free_walk m n (tab(c := 0)) (tab c) = (cs, ok)" by (metis surj_pair)
  then have "set cs \<subseteq> Collect (inData m)" using Suc.IH by (metis fst_conv)
  with w show ?case by auto
qed simp

text \<open>
  The guard does not fire as long as it exceeds the number of allocated clusters: every step that
  goes on clears an entry that was not zero.
\<close>

lemma free_walk_ends:
  assumes "card {c. inData m c \<and> tab c \<noteq> 0} < n" and z: "\<not> inData m 0"
  shows "snd (free_walk m n tab c)"
  using assms(1)
proof (induction n arbitrary: tab c)
  case (Suc n)
  show ?case
  proof (cases "inData m c \<and> \<not> priv_is_eoc m (tab c) \<and> tab c \<noteq> 0")
    case True
    let ?A = "{d. inData m d \<and> tab d \<noteq> 0}"
    have eq: "{d. inData m d \<and> (tab(c := 0)) d \<noteq> 0} = ?A - {c}" by auto
    have "card (?A - {c}) < card ?A" using True by (intro psubset_card_mono) auto
    with Suc.prems have "card (?A - {c}) < n" by simp
    then have "snd (free_walk m n (tab(c := 0)) (tab c))" by (intro Suc.IH) (simp only: eq)
    with True show ?thesis by (auto split: prod.split)
  next
    case False
    have "snd (free_walk m n tab' 0)" for tab' by (cases n) (simp_all add: z)
    with False show ?thesis by (auto split: prod.split) (metis snd_conv)+
  qed
qed simp

text \<open>A well-formed chain: data clusters, linked, the last one marked as the end.\<close>

fun chain :: "'w mount \<Rightarrow> (u32 \<Rightarrow> u32) \<Rightarrow> u32 \<Rightarrow> u32 list \<Rightarrow> bool" where
  "chain m tab c [] = False"
| "chain m tab c [x] \<longleftrightarrow> x = c \<and> inData m c \<and> priv_is_eoc m (tab c)"
| "chain m tab c (x # y # xs) \<longleftrightarrow>
     x = c \<and> inData m c \<and> \<not> priv_is_eoc m (tab c) \<and> chain m tab (tab c) (y # xs)"

lemma chain_ConsD: "chain m tab c (x # xs) \<Longrightarrow> x = c \<and> inData m c"
  by (cases xs) auto

lemma chain_unique: "chain m tab c xs \<Longrightarrow> chain m tab c ys \<Longrightarrow> xs = ys"
proof (induction m tab c xs arbitrary: ys rule: chain.induct)
  case (2 m tab c x)
  then show ?case by (cases ys rule: remdups_adj.cases) auto
next
  case (3 m tab c x y xs)
  then show ?case by (cases ys rule: remdups_adj.cases) auto
qed simp

lemma chain_suffix: "chain m tab c xs \<Longrightarrow> xs = ps @ x # ys \<Longrightarrow> chain m tab x (x # ys)"
proof (induction m tab c xs arbitrary: ps rule: chain.induct)
  case (3 m tab c x' y xs)
  show ?case
  proof (cases ps)
    case Nil
    with 3 show ?thesis by (auto dest: chain_ConsD)
  next
    case (Cons p qs)
    with 3(3) have qs: "y # xs = qs @ x # ys" "x' = p" by auto
    from 3(2) have "chain m tab (tab c) (y # xs)" by simp
    from "3.IH" [OF this qs(1)] show ?thesis .
  qed
qed (auto simp: Cons_eq_append_conv)

lemma chain_distinct: "chain m tab c xs \<Longrightarrow> distinct xs"
proof (induction m tab c xs rule: chain.induct)
  case (3 m tab c x y xs)
  have "x \<notin> set (y # xs)"
  proof
    assume "x \<in> set (y # xs)"
    then obtain ps ys where ys: "y # xs = ps @ x # ys" by (meson split_list)
    from chain_suffix [of m tab c "x # y # xs" "x # ps" x ys] 3(2) ys
    have "chain m tab x (x # ys)" by (simp del: chain.simps)
    moreover from 3(2) have "x = c" by simp
    ultimately have "chain m tab c (x # ys)" by simp
    from chain_unique [OF this 3(2)] ys show False by (metis append_eq_Cons_conv length_Cons
        length_append list.inject add_Suc_right less_add_Suc2 less_irrefl_nat)
  qed
  with 3 show ?case by auto
qed auto

lemma chain_cong:
  "chain m tab c xs \<Longrightarrow> (\<And>d. d \<in> set xs \<Longrightarrow> tab' d = tab d) \<Longrightarrow> chain m tab' c xs"
  by (induction m tab c xs rule: chain.induct) auto

lemma chain_data: "chain m tab c xs \<Longrightarrow> d \<in> set xs \<Longrightarrow> inData m d"
  by (induction m tab c xs rule: chain.induct) auto

lemma free_walk_chain:
  "chain m tab c xs \<Longrightarrow> length xs \<le> Suc n \<Longrightarrow> free_walk m n tab c = (xs, True)"
proof (induction n arbitrary: tab c xs)
  case 0
  then show ?case by (cases xs rule: remdups_adj.cases) auto
next
  case (Suc n)
  show ?case
  proof (cases xs rule: remdups_adj.cases)
    case (3 x y ys)
    with Suc.prems(1) have x: "x = c" "inData m c" "\<not> priv_is_eoc m (tab c)" "chain m tab (tab c) (y # ys)" by auto
    have "chain m (tab(c := 0)) (tab c) (y # ys)"
      using chain_distinct [OF Suc.prems(1)] 3 x by (intro chain_cong [OF x(4)]) auto
    then have "free_walk m n (tab(c := 0)) (tab c) = (y # ys, True)"
      by (rule Suc.IH) (use Suc.prems(2) 3 in simp)
    with 3 x show ?thesis by simp
  qed (use Suc.prems in auto)
qed

lemma card_inData:
  assumes "fat_geom m"
  shows "card {c. inData m c} = unat (m_count_of_clusters m)"
proof -
  have "bij_betw unat {c. inData m c} {2..<unat (m_count_of_clusters m) + 2}"
    unfolding bij_betw_def
  proof
    show "inj_on unat {c. inData m c}" by (auto simp: inj_on_def word_unat_eq_iff)
    show "unat ` {c. inData m c} = {2..<unat (m_count_of_clusters m) + 2}"
    proof (intro set_eqI iffI)
      fix k assume k: "k \<in> {2..<unat (m_count_of_clusters m) + 2}"
      with assms have "unat (of_nat k :: u32) = k"
        by (intro unat_of_nat_small) (simp add: fat_geom_def)
      with k assms show "k \<in> unat ` {c. inData m c}"
        by (intro image_eqI [of _ _ "of_nat k"]) (auto simp: inData_iff in_data_def)
    qed (use assms in \<open>auto simp: inData_iff in_data_def\<close>)
  qed
  from bij_betw_same_card [OF this] show ?thesis by simp
qed

lemma chain_length: "fat_geom m \<Longrightarrow> chain m tab c xs \<Longrightarrow> length xs \<le> unat (m_count_of_clusters m)"
  using card_mono [of "{c. inData m c}" "set xs"] chain_distinct [of m tab c xs]
  by (auto simp: card_inData distinct_card dest: chain_data)


section \<open>The chain operations implement them\<close>

text \<open>A step that changes FAT blocks and allocator slots only.\<close>

definition meta_only :: "('w \<Rightarrow> u64 \<Rightarrow> bytes) \<Rightarrow> 'w mount \<Rightarrow> 'w fs \<Rightarrow> 'w fs \<Rightarrow> bool" where
  "meta_only content m s t \<longleftrightarrow> s_mounts t = s_mounts s \<and> s_files t = s_files s
     \<and> s_clock_bound t = s_clock_bound s \<and> s_clock t = s_clock s \<and> s_lock t = s_lock s
     \<and> (\<forall>l. l \<notin> fat_area m \<longrightarrow> content (world t) l = content (world s) l)"

lemma meta_only_refl [simp, intro!]: "meta_only content m s s"
  by (simp add: meta_only_def)

lemma meta_only_trans: "meta_only content m s t \<Longrightarrow> meta_only content m t u \<Longrightarrow> meta_only content m s u"
  by (auto simp: meta_only_def)

lemma fat_only_meta: "fat_only content m s t \<Longrightarrow> meta_only content m s t"
  by (auto simp: meta_only_def fat_only_def fat_frame_def)

lemma meta_only_slot_update [simp]: "meta_only content m s (slot_update i f t) = meta_only content m s t"
  by (simp add: meta_only_def)

lemma meta_only_slot_ops [simp]:
  "meta_only content m s (priv_alloc_hint_set m' c t) = meta_only content m s t"
  "meta_only content m s (priv_alloc_hint_lower m' c t) = meta_only content m s t"
  "meta_only content m s (priv_free_count_took m' n t) = meta_only content m s t"
  "meta_only content m s (priv_free_count_gave m' n t) = meta_only content m s t"
  by (simp_all add: priv_alloc_hint_set_def priv_alloc_hint_lower_def priv_free_count_took_def
      priv_free_count_gave_def split: option.split)

lemma fat_at_world: "content (world t) = content (world s) \<Longrightarrow> fat_at content m t = fat_at content m s"
  by (simp add: fun_eq_iff fat_at_def fat_byte_def vsec_def fat_decode_def Let_def)

lemma fat_clip_0 [simp]: "fat_clip ty 0 = 0"
  by (simp add: fat_clip_def)

context block_device
begin

lemma free_one:
  assumes m: "on_backend b bs m" and g: "fat_geom m" and c: "in_fat m c"
    and inv: "fs_inv valid content m s" and r: "free_one m c s = (r, t)"
  shows "meta_only content m s t" and "r = Inr v \<Longrightarrow> fs_inv valid content m t \<and> v = fat_at content m s c
    \<and> fat_at content m t c = 0 \<and> (\<forall>d. in_fat m d \<longrightarrow> d \<noteq> c \<longrightarrow> fat_at content m t d = fat_at content m s d)"
proof -
  have "meta_only content m s t \<and> (\<forall>v. r = Inr v \<longrightarrow> fs_inv valid content m t \<and> v = fat_at content m s c
    \<and> fat_at content m t c = 0 \<and> (\<forall>d. in_fat m d \<longrightarrow> d \<noteq> c \<longrightarrow> fat_at content m t d = fat_at content m s d))"
    using r unfolding free_one_def
  proof (cases rule: bindE_cases)
    case (Err e)
    with fat_get [OF m inv Err(1)] show ?thesis by (auto intro: fat_only_meta fat_only_same)
  next
    case (Ok x u)
    note gt = fat_get [OF m inv Ok(1), simplified]
    then have su: "meta_only content m s u" by (auto intro: fat_only_meta fat_only_same)
    have at: "fat_at content m u = fat_at content m s" using gt by (intro fat_at_world) simp
    from Ok(2) show ?thesis
    proof (cases rule: bindE_cases)
      case (Err e)
      with fat_set(1) [OF m g c conjunct1 [OF gt] Err(1)] su show ?thesis
        by (auto intro: fat_only_meta meta_only_trans)
    next
      case (Ok y u2)
      note st = fat_set [OF m g c conjunct1 [OF gt] Ok(1), simplified]
      from Ok(2) have t: "r = Inr x" "t = priv_alloc_hint_lower m c (priv_free_count_gave m 1 u2)"
        by (auto simp: bindE_def)
      have "fat_at content m t = fat_at content m u2" by (intro fat_at_world) (simp add: t)
      with st t gt at su show ?thesis
        by (auto intro: fat_only_meta meta_only_trans)
    qed
  qed
  then show "meta_only content m s t" and "r = Inr v \<Longrightarrow> fs_inv valid content m t \<and> v = fat_at content m s c
    \<and> fat_at content m t c = 0 \<and> (\<forall>d. in_fat m d \<longrightarrow> d \<noteq> c \<longrightarrow> fat_at content m t d = fat_at content m s d)"
    by blast+
qed

lemma free_chain_loop:
  assumes m: "on_backend b bs m" and g: "fat_geom m" and inv: "fs_inv valid content m s"
    and r: "free_chain_loop m n c s = (r, t)"
  shows "meta_only content m s t \<and> (r = Inr () \<longrightarrow> fs_inv valid content m t \<and>
    snd (free_walk m n (fat_at content m s) c) \<and>
    (\<forall>d. in_fat m d \<longrightarrow> fat_at content m t d =
      (if d \<in> set (fst (free_walk m n (fat_at content m s) c)) then 0 else fat_at content m s d)))"
  using inv r
proof (induction n arbitrary: c s)
  case 0
  show ?case
  proof (cases "inData m c")
    case True
    then have cf: "in_fat m c" using g by (simp add: inData_iff in_data_in_fat)
    from 0(2) True have "bindE (free_one m c) (\<lambda>nxt.
        if priv_is_eoc m nxt then returnE () else throwE k_ra8_err_protocol_error) s = (r, t)" by simp
    then show ?thesis
    proof (cases rule: bindE_cases)
      case (Err e)
      with free_one(1) [OF m g cf 0(1) Err(1)] show ?thesis by simp
    next
      case (Ok x u)
      with free_one [OF m g cf 0(1) Ok(1)] True show ?thesis by (auto split: if_splits)
    qed
  qed (use 0 in auto)
next
  case (Suc n)
  show ?case
  proof (cases "inData m c")
    case True
    then have cf: "in_fat m c" using g by (simp add: inData_iff in_data_in_fat)
    from Suc.prems(2) True have "bindE (free_one m c) (\<lambda>nxt.
        if priv_is_eoc m nxt then returnE () else free_chain_loop m n nxt) s = (r, t)" by simp
    then show ?thesis
    proof (cases rule: bindE_cases)
      case (Err e)
      with free_one(1) [OF m g cf Suc.prems(1) Err(1)] show ?thesis by simp
    next
      case (Ok x u)
      note one = free_one [OF m g cf Suc.prems(1) Ok(1)]
      show ?thesis
      proof (cases "priv_is_eoc m x")
        case eoc: True
        with Ok(2) one True show ?thesis by auto
      next
        case False
        with Ok(2) have l: "free_chain_loop m n x u = (r, t)" by simp
        let ?w = "free_walk m n ((fat_at content m s)(c := 0)) x"
        have w: "free_walk m n (fat_at content m u) x = ?w"
          using one(2) g by (intro free_walk_cong) (auto simp: inData_iff dest: in_data_in_fat)
        from one(2) have "fs_inv valid content m u" by simp
        note ih = Suc.IH [OF this l, unfolded w]
        have "free_walk m (Suc n) (fat_at content m s) c = (c # fst ?w, snd ?w)"
          using True False one(2) by (auto split: prod.split)
        with ih one show ?thesis by (auto intro: meta_only_trans)
      qed
    qed
  qed (use Suc.prems in auto)
qed

end


context block_device
begin

lemma skip_clusters:
  assumes m: "on_backend b bs m" and inv: "fs_inv valid content m s" and r: "skip_loop m n c s = (r, t)"
  shows "fs_inv valid content m t \<and> content (world t) = content (world s) \<and> fat_frame s t \<and>
    (\<forall>d. r = Inr d \<longrightarrow> follow m (fat_at content m s) n c = Some d)"
  using inv r
proof (induction n arbitrary: c s)
  case (Suc n)
  from Suc.prems(2) show ?case unfolding skip_loop.simps
  proof (cases rule: bindE_cases)
    case (Err e)
    with fat_get [OF m Suc.prems(1) Err(1)] show ?thesis by auto
  next
    case (Ok x u)
    note gt = fat_get [OF m Suc.prems(1) Ok(1), simplified]
    show ?thesis
    proof (cases "priv_is_eoc m x")
      case False
      with Ok(2) have l: "skip_loop m n x u = (r, t)" by simp
      from gt have "fat_at content m u = fat_at content m s" by (intro fat_at_world) simp
      with Suc.IH [OF conjunct1 [OF gt] l] gt False show ?thesis by (auto intro: fat_frame_trans)
    qed (use Ok(2) gt in auto)
  qed
qed auto

lemma alloc_eoc:
  assumes m: "on_backend b bs m" and g: "fat_geom m" and inv: "fs_inv valid content m s"
    and r: "priv_alloc_eoc_cluster m s = (Inr d, t)"
  shows "in_data m d \<and> fat_at content m s d = k_cluster_free \<and>
    fat_at content m t d = fat_clip (m_type m) (priv_eoc_write m) \<and>
    (\<forall>c. in_fat m c \<longrightarrow> c \<noteq> d \<longrightarrow> fat_at content m t c = fat_at content m s c) \<and>
    fs_inv valid content m t \<and> meta_only content m s t"
proof -
  from r obtain u where u: "priv_alloc_cluster m s = (Inr d, u)"
    and st: "priv_fat_set m d (priv_eoc_write m) u = (Inr (), t)"
    unfolding priv_alloc_eoc_cluster_def by (auto elim!: bindE_InrE)
  from alloc_cluster [OF m g inv u] obtain w where al: "in_data m d" "fat_at content m s d = k_cluster_free"
    and w: "fs_inv valid content m w" "content (world w) = content (world s)" "fat_frame s w"
      "u = priv_free_count_took m 1 (priv_alloc_hint_set m (d + 1) w)" by blast
  have su: "meta_only content m s u" using w by (simp add: fat_only_meta fat_only_same)
  have at: "fat_at content m u = fat_at content m s" by (rule fat_at_world) (simp add: w)
  have "fs_inv valid content m u" using w by simp
  note st = fat_set [OF m g in_data_in_fat [OF al(1)] this st, simplified]
  with al at su show ?thesis by (auto intro: meta_only_trans fat_only_meta)
qed

end

lemma eoc_write_is_eoc: "priv_is_eoc m (fat_clip (m_type m) (priv_eoc_write m))"
  by (cases "m_type m") (simp_all add: priv_is_eoc_def priv_eoc_write_def fat_clip_def)

context reliable_device
begin

lemma put_ok:
  assumes m: "on_backend b bs m" and v: "valid (world s)" and len: "length buf = bs"
    and l: "unat (lba + m_partition_base_lba m) < nblocks (world s)"
  shows "\<exists>t. fat_put m lba buf s = (Inr (), t) \<and> nblocks (world t) = nblocks (world s)"
  using write_sector_ok [OF assms] by (auto simp: fat_put_def bindE_def)

lemma rmw_ok:
  assumes m: "on_backend b bs m" and inv: "fs_inv valid content m s"
    and f: "\<And>buf. length (f buf) = length buf"
    and l: "unat (lba + m_partition_base_lba m) < nblocks (world s)"
  shows "\<exists>t. bindE (priv_fat_sector_read m lba) (\<lambda>buf. fat_put m lba (f buf)) s = (Inr (), t)
    \<and> nblocks (world t) = nblocks (world s)"
proof -
  from inv have v: "valid (world s)" by (simp add: fs_inv_def)
  from fat_sector_read_ok [OF m v l] obtain buf u where u:
    "priv_fat_sector_read m lba s = (Inr buf, u)" "nblocks (world u) = nblocks (world s)" by blast
  from fat_sector_read(1,4) [OF m inv u(1)] have "valid (world u)" "length (f buf) = bs"
    by (auto simp: fs_inv_def f vsec_length)
  from put_ok [OF m this] l u show ?thesis by (auto simp: bindE_def)
qed

lemma rmw2_ok:
  assumes m: "on_backend b bs m" and inv: "fs_inv valid content m s"
    and f: "\<And>buf buf2. length (f buf buf2) = length buf" "\<And>buf buf2. length (g buf buf2) = length buf2"
    and l: "unat (lba + m_partition_base_lba m) < nblocks (world s)"
      "unat (lba2 + m_partition_base_lba m) < nblocks (world s)"
    and a: "lba + m_partition_base_lba m \<in> fat_area m"
  shows "\<exists>t. bindE (priv_fat_sector_read m lba) (\<lambda>buf. bindE (priv_fat_sector_read m lba2) (\<lambda>buf2.
      thenE (fat_put m lba (f buf buf2)) (fat_put m lba2 (g buf buf2)))) s = (Inr (), t)
    \<and> nblocks (world t) = nblocks (world s)"
proof -
  from inv have v: "valid (world s)" by (simp add: fs_inv_def)
  from fat_sector_read_ok [OF m v l(1)] obtain buf u where u:
    "priv_fat_sector_read m lba s = (Inr buf, u)" "nblocks (world u) = nblocks (world s)" by blast
  note rd = fat_sector_read [OF m inv u(1)]
  from rd(1) have vu: "valid (world u)" by (simp add: fs_inv_def)
  from fat_sector_read_ok [OF m vu] l(2) u(2) obtain buf2 u2 where u2:
    "priv_fat_sector_read m lba2 u = (Inr buf2, u2)" "nblocks (world u2) = nblocks (world s)" by metis
  note rd2 = fat_sector_read [OF m rd(1) u2(1)]
  from rd2(1) have vu2: "valid (world u2)" by (simp add: fs_inv_def)
  have len: "length (f buf buf2) = bs" "length (g buf buf2) = bs"
    using rd(4) rd2(4) by (auto simp: f vsec_length)
  from put_ok [OF m vu2 len(1)] l(1) u2(2) obtain u3 where u3:
    "fat_put m lba (f buf buf2) u2 = (Inr (), u3)" "nblocks (world u3) = nblocks (world s)" by metis
  from fat_commit(2) [OF m rd2(1) len(1) a u3(1)] have "valid (world u3)" by (simp add: fs_inv_def)
  from put_ok [OF m this len(2)] l(2) u3 u2 u show ?thesis by (auto simp: bindE_def)
qed

lemma set_copy_ok:
  assumes m: "on_backend b bs m" and g: "fat_geom m" and c: "in_fat m c"
    and inv: "fs_inv valid content m s" and on: "fat_on_medium m s" and i: "i < unat (m_num_fats m)"
  shows "\<exists>t. fat_set_copy m c v (of_nat i) s = (Inr (), t) \<and> nblocks (world t) = nblocks (world s)"
proof -
  define x where "x = entry_off (m_type m) (unat c)"
  have area: "fat_lba m i (x div bs) + m_partition_base_lba m \<in> fat_area m"
    "fat_lba m i ((x + 1) div bs) + m_partition_base_lba m \<in> fat_area m"
    using fat_area_entry [OF m g c i, of 0] fat_area_entry [OF m g c i, of 1] by (simp_all add: x_def)
  with on have med: "unat (fat_lba m i (x div bs) + m_partition_base_lba m) < nblocks (world s)"
    "unat (fat_lba m i ((x + 1) div bs) + m_partition_base_lba m) < nblocks (world s)"
    by (auto simp: fat_on_medium_def)
  have "x mod bs < bs" using m by (auto simp: on_backend_def)
  then consider (wide) "m_type m \<noteq> k_ra8_fs_type_fat12" | (one) "m_type m = k_ra8_fs_type_fat12" "x mod bs + 1 < bs"
    | (two) "m_type m = k_ra8_fs_type_fat12" "x mod bs + 1 = bs" by linarith
  then show ?thesis
  proof cases
    case wide
    show ?thesis unfolding set_copy_wide_eq [OF m i wide x_def] by (rule rmw_ok [OF m inv _ med(1)]) simp
  next
    case one
    show ?thesis unfolding set_copy_fat12_eq [OF m i one(1) x_def one(2)]
      by (rule rmw_ok [OF m inv _ med(1)]) simp
  next
    case two
    have "unat (fat_lba m i (x div bs) + 1 + m_partition_base_lba m) < nblocks (world s)"
      using med(2) unfolding div_mod_next(1) [OF two(2)] fat_lba_Suc .
    then show ?thesis unfolding set_copy_fat12_straddle_eq [OF m i two(1) x_def two(2)]
      by (intro rmw2_ok [OF m inv _ _ med(1) _ area(1)]) simp_all
  qed
qed

lemma fat_set_ok:
  assumes m: "on_backend b bs m" and g: "fat_geom m" and c: "in_fat m c"
    and inv: "fs_inv valid content m s" and on: "fat_on_medium m s"
  shows "\<exists>t. priv_fat_set m c v s = (Inr (), t) \<and> nblocks (world t) = nblocks (world s)"
proof -
  have "\<exists>t. fat_set_copies m c v i n s = (Inr (), t) \<and> nblocks (world t) = nblocks (world s)"
    if "i + n \<le> unat (m_num_fats m)" "fs_inv valid content m s" "fat_on_medium m s" for i n s
    using that
  proof (induction n arbitrary: i s)
    case (Suc n)
    then have i: "i < unat (m_num_fats m)" by simp
    from set_copy_ok [OF m g c Suc.prems(2,3) i] obtain u where u:
      "fat_set_copy m c v (of_nat i) s = (Inr (), u)" "nblocks (world u) = nblocks (world s)" by blast
    have "fs_inv valid content m u" using set_copy [OF m g c Suc.prems(2) i u(1)] by simp
    moreover have "fat_on_medium m u" using Suc.prems(3) u(2) by (simp add: fat_on_medium_def)
    ultimately show ?case using Suc.IH [of "Suc i" u] Suc.prems(1) u by (auto simp: bindE_def)
  qed simp
  from this [of 0 "unat (m_num_fats m)" s] inv on show ?thesis by (simp add: priv_fat_set_def)
qed

end


text \<open>
  The cluster numbers of a volume are not end-of-chain values of its table: the cluster count
  limits of the FAT specification, which \<open>internal_compute_geometry\<close> enforces for FAT12 and FAT16.
\<close>

definition fat_typed :: "'w mount \<Rightarrow> bool" where
  "fat_typed m \<longleftrightarrow> unat (m_count_of_clusters m) \<le>
     (if m_type m = k_ra8_fs_type_fat12 then 0xFF6 else if m_type m = k_ra8_fs_type_fat16 then 0xFFF6
      else if m_type m = k_ra8_fs_type_exfat then 0xFFFFFFF6 else 0x0FFFFFF6)"

lemma data_not_eoc: "fat_typed m \<Longrightarrow> in_data m c \<Longrightarrow> \<not> priv_is_eoc m c"
  by (cases "m_type m") (auto simp: fat_typed_def priv_is_eoc_def in_data_def word_le_nat_alt)

lemma clip_data: 
  assumes "fat_typed m" and "in_data m c"
  shows "fat_clip (m_type m) c = c"
proof -
  have mask: "c AND mask n = c" if "unat c < 2 ^ n" for n
  proof -
    from that have "take_bit n c = c"
      by (simp add: word_unat_eq_iff unsigned_take_bit_eq take_bit_nat_eq_self)
    then show ?thesis by (simp add: take_bit_eq_mask)
  qed
  show ?thesis
    using assms mask [of 12] mask [of 16] mask [of 28]
    by (cases "m_type m") (auto simp: fat_typed_def fat_clip_def in_data_def mask_eq_exp_minus_1)
qed

lemma not_eoc_0 [simp]: "\<not> priv_is_eoc m 0"
  by (simp add: priv_is_eoc_def)

context reliable_device
begin

lemma free_one_ok:
  assumes m: "on_backend b bs m" and g: "fat_geom m" and c: "in_fat m c"
    and inv: "fs_inv valid content m s" and on: "fat_on_medium m s"
  shows "\<exists>t. free_one m c s = (Inr (fat_at content m s c), t) \<and> nblocks (world t) = nblocks (world s)"
proof -
  from fat_get_ok [OF m g c inv on] obtain u where u:
    "priv_fat_get m c s = (Inr (fat_at content m s c), u)" "nblocks (world u) = nblocks (world s)" by blast
  from fat_get [OF m inv u(1)] have iu: "fs_inv valid content m u" by simp
  have "fat_on_medium m u" using on u(2) by (simp add: fat_on_medium_def)
  from fat_set_ok [OF m g c iu this] obtain t where
    "priv_fat_set m c k_cluster_free u = (Inr (), t)" "nblocks (world t) = nblocks (world u)" by blast
  with u show ?thesis by (auto simp: free_one_def bindE_def)
qed

lemma free_chain_loop_ok:
  assumes m: "on_backend b bs m" and g: "fat_geom m" and inv: "fs_inv valid content m s"
    and on: "fat_on_medium m s" and w: "snd (free_walk m n (fat_at content m s) c)"
  shows "\<exists>t. free_chain_loop m n c s = (Inr (), t)"
  using inv on w
proof (induction n arbitrary: c s)
  case 0
  show ?case
  proof (cases "inData m c")
    case True
    then have "in_fat m c" using g by (simp add: inData_iff in_data_in_fat)
    from free_one_ok [OF m g this 0(1,2)] 0(3) True show ?thesis by (auto simp: bindE_def)
  qed simp
next
  case (Suc n)
  show ?case
  proof (cases "inData m c \<and> \<not> priv_is_eoc m (fat_at content m s c)")
    case True
    then have cf: "in_fat m c" using g by (simp add: inData_iff in_data_in_fat)
    from free_one_ok [OF m g cf Suc.prems(1,2)] obtain u where u:
      "free_one m c s = (Inr (fat_at content m s c), u)" "nblocks (world u) = nblocks (world s)" by blast
    note one = free_one(2) [OF m g cf Suc.prems(1) u(1) refl]
    have "free_walk m n (fat_at content m u) (fat_at content m s c) =
        free_walk m n ((fat_at content m s)(c := 0)) (fat_at content m s c)"
      using one g by (intro free_walk_cong) (auto simp: inData_iff dest: in_data_in_fat)
    with Suc.prems(3) True have "snd (free_walk m n (fat_at content m u) (fat_at content m s c))"
      by (auto split: prod.splits)
    moreover have "fat_on_medium m u" using Suc.prems(2) u(2) by (simp add: fat_on_medium_def)
    ultimately have "\<exists>t. free_chain_loop m n (fat_at content m s c) u = (Inr (), t)"
      using Suc.IH one by blast
    with u True show ?thesis by (auto simp: bindE_def)
  next
    case False
    show ?thesis
    proof (cases "inData m c")
      case True
      then have "in_fat m c" using g by (simp add: inData_iff in_data_in_fat)
      from free_one_ok [OF m g this Suc.prems(1,2)] False True show ?thesis by (auto simp: bindE_def)
    qed simp
  qed
qed

end

context block_device
begin

lemma walk_grow:
  assumes m: "on_backend b bs m" and g: "fat_geom m" and ty: "fat_typed m"
    and inv: "fs_inv valid content m s" and c: "chain m (fat_at content m s) c xs"
    and r: "walk_grow_loop m n c s = (Inr d, t)"
  shows "\<exists>ys. chain m (fat_at content m t) c (xs @ ys) \<and> d = (xs @ ys) ! n \<and>
    length (xs @ ys) = max (length xs) (Suc n) \<and> (\<forall>y \<in> set ys. fat_at content m s y = 0) \<and>
    (\<forall>e. in_fat m e \<longrightarrow> e \<notin> set (xs @ ys) \<longrightarrow> fat_at content m t e = fat_at content m s e) \<and>
    fs_inv valid content m t \<and> meta_only content m s t"
  using inv c r
proof (induction n arbitrary: c s xs)
  case 0
  then show ?case by (cases xs) (auto dest: chain_ConsD)
next
  case (Suc n)
  let ?tab = "fat_at content m s"
  from Suc.prems(3) obtain v u where u: "priv_fat_get m c s = (Inr v, u)"
    and rest: "(if priv_is_eoc m v then bindE (priv_alloc_eoc_cluster m) (\<lambda>newc.
         thenE (priv_fat_set m c newc) (walk_grow_loop m n newc)) else walk_grow_loop m n v) u = (Inr d, t)"
    unfolding walk_grow_loop.simps by (rule bindE_InrE)
  note gt = fat_get [OF m Suc.prems(1) u, simplified]
  have atu: "fat_at content m u = ?tab" using gt by (intro fat_at_world) simp
  have su: "meta_only content m s u" using gt by (auto intro: fat_only_meta fat_only_same)
  have cd: "inData m c" using Suc.prems(2) by (cases xs) (auto dest: chain_ConsD)
  have cf: "in_fat m c" using cd g by (simp add: inData_iff in_data_in_fat)
  show ?case
  proof (cases "priv_is_eoc m v")
    case False
    with Suc.prems(2) gt obtain y zs where xs: "xs = c # y # zs" "chain m ?tab v (y # zs)"
      by (cases xs rule: remdups_adj.cases) auto
    from False rest have l: "walk_grow_loop m n v u = (Inr d, t)" by simp
    from Suc.IH [OF conjunct1 [OF gt] _ l, unfolded atu, OF xs(2)] obtain ys where ys:
      "chain m (fat_at content m t) v (y # zs @ ys)" "d = (y # zs @ ys) ! n"
      "length (y # zs @ ys) = max (length (y # zs)) (Suc n)" "\<forall>y \<in> set ys. ?tab y = 0"
      "\<forall>e. in_fat m e \<longrightarrow> e \<notin> set (y # zs @ ys) \<longrightarrow> fat_at content m t e = ?tab e"
      "fs_inv valid content m t" "meta_only content m u t" by auto
    have "c \<notin> set (y # zs)" using chain_distinct [OF Suc.prems(2)] xs by auto
    moreover have "c \<notin> set ys"
    proof
      assume "c \<in> set ys"
      with ys(4) gt have "v = 0" by auto
      with xs(2) g show False by (auto dest!: chain_ConsD simp: inData_iff in_data_def)
    qed
    ultimately have "fat_at content m t c = v" using ys(5) cf gt by auto
    with xs cd False ys su show ?thesis
      by (intro exI [of _ ys]) (auto intro: meta_only_trans)
  next
    case True
    with Suc.prems(2) gt have xs: "xs = [c]" by (cases xs rule: remdups_adj.cases) auto
    from True rest obtain newc u1 u2 where a: "priv_alloc_eoc_cluster m u = (Inr newc, u1)"
      and b: "priv_fat_set m c newc u1 = (Inr (), u2)" and l: "walk_grow_loop m n newc u2 = (Inr d, t)"
      by (auto elim!: bindE_InrE)
    note al = alloc_eoc [OF m g conjunct1 [OF gt] a, unfolded atu]
    then have nd: "in_data m newc" and i1: "fs_inv valid content m u1" by auto
    note st = fat_set [OF m g cf i1 b, simplified]
    have ne: "newc \<noteq> c" using al True gt by auto
    have n2: "fat_at content m u2 newc = fat_clip (m_type m) (priv_eoc_write m)"
      using st(5) [OF in_data_in_fat [OF nd]] ne al by simp
    have c2: "fat_at content m u2 c = newc" using st(4) clip_data [OF ty nd] by simp
    have o2: "fat_at content m u2 e = ?tab e" if "in_fat m e" "e \<noteq> c" "e \<noteq> newc" for e
      using st(5) [OF that(1,2)] al that by simp
    have "chain m (fat_at content m u2) newc [newc]"
      using nd g n2 eoc_write_is_eoc [of m] by (simp add: inData_iff)
    from Suc.IH [OF st(2) this l] obtain ys where ys:
      "chain m (fat_at content m t) newc (newc # ys)" "d = (newc # ys) ! n" "length (newc # ys) = Suc n"
      "\<forall>y \<in> set ys. fat_at content m u2 y = 0"
      "\<forall>e. in_fat m e \<longrightarrow> e \<notin> set (newc # ys) \<longrightarrow> fat_at content m t e = fat_at content m u2 e"
      "fs_inv valid content m t" "meta_only content m u2 t" by auto
    have "c \<notin> set ys" using ys(4) c2 nd by (auto simp: in_data_def)
    then have tc: "fat_at content m t c = newc" using ys(5) cf c2 ne by auto
    have nys: "newc \<notin> set ys" using ys(1) chain_distinct by fastforce
    have dat: "in_fat m y" if "y \<in> set ys" for y
      using chain_data [OF ys(1)] that g by (simp add: inData_iff in_data_in_fat)
    have free: "\<forall>y \<in> set (newc # ys). ?tab y = 0"
      using al ys(4) o2 dat nys \<open>c \<notin> set ys\<close> by (metis set_ConsD)
    have "meta_only content m s t"
      using su al st(1) ys(7) by (meson meta_only_trans fat_only_meta)
    moreover have "\<not> priv_is_eoc m newc" by (rule data_not_eoc [OF ty nd])
    ultimately show ?thesis
      using xs ys cd tc free o2 by (intro exI [of _ "newc # ys"]) auto
  qed
qed

end

end
