(* ===== verification/Ram_Volume.thy ===== *)
theory Ram_Volume
  imports Fat_Chain
begin

text \<open>
  A concrete FAT12 volume on the RAM block device: sixteen blocks of 512 bytes, a boot
  sector (block 0), two FAT copies of
  one sector each (blocks 1 and 2), a root directory of sixteen entries (block 3) and twelve data
  clusters of one sector (blocks 4 to 15). Cluster 2 links to cluster 3, which ends the chain; the
  other data clusters are free. The facts here say that this volume meets the hypotheses under
  which the routines are proved correct.
\<close>

definition ex_fat :: bytes where
  "ex_fat = [0xF8, 0xFF, 0xFF, 0x03, 0xF0, 0xFF] @ replicate 506 0"

definition ex_boot :: bytes where
  "ex_boot = replicate 11 0 @ [0x00, 0x02, 1, 1, 0, 2, 16, 0, 16, 0, 0xF8, 1, 0] @ replicate 486 0 @ [0x55, 0xAA]"

definition ex_ram :: ram_state where
  "ex_ram = \<lparr>ram_storage = ex_boot @ ex_fat @ ex_fat @ replicate (13 * 512) 0,
     ram_block_count = 16, ram_read_only = False\<rparr>"

definition ex_mount :: "ram_state mount" where
  "ex_mount = \<lparr>m_addr = 0, m_backend = ram_backend, m_type = k_ra8_fs_type_fat12,
     m_bytes_per_sector = 512, m_sectors_per_cluster = 1, m_reserved_sectors = 1, m_num_fats = 2,
     m_root_entries = 16, m_total_sectors = 16, m_fat_size_sectors = 1, m_root_cluster = 0,
     m_first_fat_lba = 1, m_first_root_lba = 3, m_first_data_lba = 4, m_count_of_clusters = 12,
     m_partition_base_lba = 0, m_in_use = True, m_exfat_upcase_ok = False\<rparr>"

definition ex_fs :: "ram_state fs" where
  "ex_fs = (fs_init ex_ram)\<lparr>s_mounts := [ex_mount, mount_zero 1],
     s_alloc := [\<lparr>as_owner = Some 0, as_next_free = 2, as_free_count = 10, as_fsinfo_lba = 0,
       as_bitmap_lba = k_fs_bitmap_unknown, as_dirty = False\<rparr>, alloc_state_zero]\<rparr>"

lemma length_ex_fat [simp]: "length ex_fat = 512"
  by (simp add: ex_fat_def)

lemma length_ex_boot [simp]: "length ex_boot = 512"
  by (simp add: ex_boot_def)

lemma ex_on_backend [simp]: "on_backend ram_backend 512 ex_mount"
  by (simp add: on_backend_def ex_mount_def)

lemma ex_geom [simp]: "fat_geom ex_mount"
  by (simp add: fat_geom_def ex_mount_def entry_off_def entry_width_def)

lemma ex_typed [simp]: "fat_typed ex_mount"
  by (simp add: fat_typed_def ex_mount_def)

lemma ex_valid [simp]: "ram_valid ex_ram"
  by (simp add: ram_valid_def ex_ram_def)

lemma ex_inv [simp]: "fs_inv ram_valid ram_content ex_mount ex_fs"
  by (simp add: fs_inv_def coherent_def ex_fs_def fs_init_def)

lemma ex_on_medium [simp]: "ram.fat_on_medium ex_mount ex_fs"
proof -
  have "(i :: nat) < 2 \<Longrightarrow> i = 0 \<or> i = 1" for i by auto
  then show ?thesis
    by (fastforce simp: ram.fat_on_medium_def fat_area_def fat_lba_def ex_mount_def ex_fs_def fs_init_def ex_ram_def)
qed

lemma ex_block_fat: "ram_content ex_ram 1 = ex_fat" "ram_content ex_ram 2 = ex_fat"
  by (simp_all add: ram_content_def ex_ram_def)

lemma ex_fat_byte: "k < 512 \<Longrightarrow> fat_byte ram_content ex_mount ex_fs 0 k = ex_fat ! k"
  by (simp add: fat_byte_def vsec_def fat_lba_def ex_mount_def priv_bps_def ex_fs_def fs_init_def
      ex_block_fat)

lemma ex_fat_at: "unat c < 14 \<Longrightarrow> fat_at ram_content ex_mount ex_fs c = fat_decode k_ra8_fs_type_fat12 ((!) ex_fat) c"
  by (simp add: fat_at_def fat_decode_def entry_off_def ex_fat_byte Let_def)
    (simp add: ex_mount_def)

lemma ex_at:
  "fat_at ram_content ex_mount ex_fs 2 = 3" "fat_at ram_content ex_mount ex_fs 3 = 0xFFF"
  "fat_at ram_content ex_mount ex_fs 4 = 0"
  by (simp_all add: ex_fat_at fat_decode_def entry_off_def join16_def ex_fat_def Let_def)

lemma ex_chain: "chain ex_mount (fat_at ram_content ex_mount ex_fs) 2 [2, 3]"
  by (simp add: ex_at inData_def priv_is_eoc_def) (simp add: ex_mount_def)

end
