(* ===== verification/Table_Props.thy ===== *)
theory Table_Props
  imports Ram_Volume
begin

text \<open>
  The properties of the FAT layer, stated for any device that keeps the block contract, each with
  an instance on the RAM volume of \<^verbatim>\<open>Ram_Volume\<close>.
\<close>

section \<open>Entries\<close>

text \<open>
  C3. On a device that does not fail, a store of a FAT entry (FAT12, FAT16, FAT32 or exFAT)
  succeeds; afterwards every FAT copy is the encoding of the entry over its old bytes, the entry
  reads back as the stored value cut to the entry's width, every other entry reads as before
  (for FAT12 also the neighbour that shares a byte), the sector cache is coherent, and no block
  outside the FAT area has changed.
\<close>

theorem fat_set_correct:
  assumes d: "reliable_device b content bs valid nb" and m: "on_backend b bs m" and g: "fat_geom m"
    and c: "in_fat m c" and inv: "fs_inv valid content m s"
    and on: "\<forall>l \<in> fat_area m. unat l < nb (world s)"
  shows "\<exists>t. priv_fat_set m c v s = (Inr (), t) \<and> fs_inv valid content m t \<and> fat_only content m s t \<and>
    (\<forall>j < unat (m_num_fats m). \<forall>k < unat (m_fat_size_sectors m) * bs.
       fat_byte content m t j k = fat_encode (m_type m) (fat_byte content m s j) c v k) \<and>
    fat_at content m t c = fat_clip (m_type m) v \<and>
    (\<forall>c'. in_fat m c' \<longrightarrow> c' \<noteq> c \<longrightarrow> fat_at content m t c' = fat_at content m s c')"
proof -
  note bd = atomic_device.axioms(1) [OF reliable_device.axioms(1) [OF d]]
  obtain t where t: "priv_fat_set m c v s = (Inr (), t)"
    using reliable_device.fat_set_ok [OF d m g c inv] on
    by (auto simp: reliable_device.fat_on_medium_def [OF d])
  with block_device.fat_set [OF bd m g c inv t] show ?thesis by blast
qed

theorem fat_set_correct_witness:
  "\<exists>t. priv_fat_set ex_mount 4 0xFFF ex_fs = (Inr (), t) \<and> fat_at ram_content ex_mount t 4 = 0xFFF \<and>
     fat_at ram_content ex_mount t 3 = 0xFFF"
proof -
  have "in_fat ex_mount 4" "in_fat ex_mount 3" by (simp_all add: in_fat_def ex_mount_def)
  with fat_set_correct [OF ram.reliable_device_axioms ex_on_backend ex_geom this(1) ex_inv
      ex_on_medium [unfolded ram.fat_on_medium_def], of "0xFFF"]
  show ?thesis
    by (auto simp: ex_at fat_clip_def)
qed

text \<open>
  C12. Whatever a device does, and also when a read or a write of it fails half way through the
  copies, a store of a FAT entry changes no block outside the FAT area and no driver state but the
  sector cache.
\<close>

theorem fat_set_confined:
  assumes "block_device b content bs valid" and "on_backend b bs m" and "fat_geom m"
    and "in_fat m c" and "fs_inv valid content m s" and "priv_fat_set m c v s = (r, t)"
  shows "fat_only content m s t"
  using block_device.fat_set(1) [OF assms] .

theorem fat_set_confined_witness:
  "fat_only ram_content ex_mount ex_fs (snd (priv_fat_set ex_mount 13 7 ex_fs))"
proof -
  have "in_fat ex_mount 13" by (simp add: in_fat_def ex_mount_def)
  from fat_set_confined [OF ram.block_device_axioms ex_on_backend ex_geom this ex_inv prod.collapse [symmetric]]
  show ?thesis .
qed

text \<open>
  C13. On a device that does not fail, reading a FAT entry returns the entry as the first FAT copy on
  the medium holds it, whether or not the sector cache is warm, and changes neither the medium
  nor any driver state but the cache.
\<close>

theorem fat_get_correct:
  assumes d: "reliable_device b content bs valid nb" and m: "on_backend b bs m" and g: "fat_geom m"
    and c: "in_fat m c" and inv: "fs_inv valid content m s"
    and on: "\<forall>l \<in> fat_area m. unat l < nb (world s)"
  shows "\<exists>t. priv_fat_get m c s = (Inr (fat_at content m s c), t) \<and> fs_inv valid content m t \<and>
    content (world t) = content (world s) \<and> fat_frame s t"
proof -
  note bd = atomic_device.axioms(1) [OF reliable_device.axioms(1) [OF d]]
  obtain t where t: "priv_fat_get m c s = (Inr (fat_at content m s c), t)"
    using reliable_device.fat_get_ok [OF d m g c inv] on
    by (auto simp: reliable_device.fat_on_medium_def [OF d])
  with block_device.fat_get [OF bd m inv t] show ?thesis by blast
qed

theorem fat_get_correct_witness: "\<exists>t. priv_fat_get ex_mount 2 ex_fs = (Inr 3, t)"
proof -
  have "in_fat ex_mount 2" by (simp add: in_fat_def ex_mount_def)
  from fat_get_correct [OF ram.reliable_device_axioms ex_on_backend ex_geom this ex_inv
      ex_on_medium [unfolded ram.fat_on_medium_def]]
  show ?thesis by (auto simp: ex_at)
qed

section \<open>Allocation and chains\<close>

text \<open>
  C4. The allocator, on a device that does not fail: when a data cluster is free it returns one, the
  first free one at or after the next-free hint in cyclic order, moves the hint behind it and
  takes one from the free count; the medium is unchanged.
\<close>

theorem alloc_cluster_finds:
  assumes d: "reliable_device b content bs valid nb" and m: "on_backend b bs m" and g: "fat_geom m"
    and inv: "fs_inv valid content m s" and on: "\<forall>l \<in> fat_area m. unat l < nb (world s)"
    and free: "in_data m c" "fat_at content m s c = k_cluster_free"
  shows "\<exists>e t i u. priv_alloc_cluster m s = (Inr e, t) \<and> in_data m e \<and>
    fat_at content m s e = k_cluster_free \<and>
    e = cyc m (unat (internal_alloc_start m (priv_alloc_hint_get m s)) - 2 + i) \<and>
    (\<forall>j < i. fat_at content m s (cyc m (unat (internal_alloc_start m (priv_alloc_hint_get m s)) - 2 + j))
       \<noteq> k_cluster_free) \<and>
    fs_inv valid content m u \<and> content (world u) = content (world s) \<and> fat_frame s u \<and>
    t = priv_free_count_took m 1 (priv_alloc_hint_set m (e + 1) u)"
proof -
  note bd = atomic_device.axioms(1) [OF reliable_device.axioms(1) [OF d]]
  obtain r t where t: "priv_alloc_cluster m s = (r, t)" by (metis surj_pair)
  show ?thesis
  proof (cases r)
    case (Inl e)
    have "reliable_device.fat_on_medium nb m s"
      using on by (simp add: reliable_device.fat_on_medium_def [OF d])
    with reliable_device.alloc_cluster_full(2) [OF d m g inv _ t [unfolded Inl] free(1)] free(2)
    show ?thesis by blast
  next
    case (Inr e)
    with block_device.alloc_cluster [OF bd m g inv t [unfolded Inr]] t show ?thesis by blast
  qed
qed

theorem alloc_cluster_finds_witness:
  "\<exists>e t. priv_alloc_cluster ex_mount ex_fs = (Inr e, t) \<and> in_data ex_mount e"
proof -
  have "in_data ex_mount 4" by (simp add: in_data_def ex_mount_def)
  from alloc_cluster_finds [OF ram.reliable_device_axioms ex_on_backend ex_geom ex_inv
      ex_on_medium [unfolded ram.fat_on_medium_def] this ex_at(3)]
  show ?thesis by blast
qed

text \<open>
  C14. On a device that does not fail the allocator reports \<open>k_ra8_err_no_mem\<close> exactly when no data
  cluster is free. It has no other error, and when it fails it leaves the medium and the allocator slots as they were.
\<close>

theorem alloc_no_mem:
  assumes d: "reliable_device b content bs valid nb" and m: "on_backend b bs m" and g: "fat_geom m"
    and inv: "fs_inv valid content m s" and on: "\<forall>l \<in> fat_area m. unat l < nb (world s)"
  shows "((\<exists>t. priv_alloc_cluster m s = (Inl k_ra8_err_no_mem, t)) \<longleftrightarrow>
      (\<forall>c. in_data m c \<longrightarrow> fat_at content m s c \<noteq> k_cluster_free)) \<and>
    (\<forall>e t. priv_alloc_cluster m s = (Inl e, t) \<longrightarrow>
      e = k_ra8_err_no_mem \<and> content (world t) = content (world s) \<and> fat_frame s t)"
proof -
  note bd = atomic_device.axioms(1) [OF reliable_device.axioms(1) [OF d]]
  have md: "reliable_device.fat_on_medium nb m s"
    using on by (simp add: reliable_device.fat_on_medium_def [OF d])
  obtain r t where t: "priv_alloc_cluster m s = (r, t)" by (metis surj_pair)
  show ?thesis
  proof (cases r)
    case (Inl e)
    note full = reliable_device.alloc_cluster_full [OF d m g inv md t [unfolded Inl]]
    have "\<forall>c. in_data m c \<longrightarrow> fat_at content m s c \<noteq> k_cluster_free" using full(2) by blast
    with full t Inl show ?thesis by auto
  next
    case (Inr e)
    with block_device.alloc_cluster [OF bd m g inv t [unfolded Inr]] t show ?thesis by auto
  qed
qed

theorem alloc_no_mem_witness:
  "\<exists>t. priv_alloc_cluster (ex_mount\<lparr>m_count_of_clusters := 2\<rparr>) ex_fs = (Inl k_ra8_err_no_mem, t) \<and>
     ram_content (world t) = ram_content (world ex_fs)"
proof -
  let ?m = "ex_mount\<lparr>m_count_of_clusters := 2\<rparr>"
  have m: "on_backend ram_backend 512 ?m" and g: "fat_geom ?m"
    by (simp_all add: on_backend_def fat_geom_def entry_off_def entry_width_def ex_mount_def)
  have inv: "fs_inv ram_valid ram_content ?m ex_fs"
    by (simp add: fs_inv_def coherent_def ex_fs_def fs_init_def)
  have area: "fat_area ?m = fat_area ex_mount"
    by (simp add: fat_area_def fat_lba_def)
  have fb: "fat_byte ram_content ?m ex_fs = fat_byte ram_content ex_mount ex_fs"
    by (simp add: fun_eq_iff fat_byte_def vsec_def fat_lba_def priv_bps_def)
  have at: "fat_at ram_content ?m ex_fs = fat_at ram_content ex_mount ex_fs"
    by (rule ext) (simp add: fat_at_def fb)
  have two: "c = 2 \<or> c = 3" if "in_data ?m c" for c
    using that by (auto simp: in_data_def word_unat_eq_iff ex_mount_def)
  have full: "\<forall>c. in_data ?m c \<longrightarrow> fat_at ram_content ?m ex_fs c \<noteq> k_cluster_free"
    unfolding at by (auto dest!: two simp: ex_at)
  have "\<forall>l \<in> fat_area ?m. unat l < unat (ram_block_count (world ex_fs))"
    using ex_on_medium by (simp add: area ram.fat_on_medium_def)
  from alloc_no_mem [OF ram.reliable_device_axioms m g inv this] full show ?thesis by blast
qed

text \<open>
  C5. Releasing a well-formed chain on a device that does not fail succeeds and turns exactly the
  entries of its clusters into free entries; every other entry and every block outside the FAT
  area is as before.
\<close>

theorem free_chain_releases:
  assumes d: "reliable_device b content bs valid nb" and m: "on_backend b bs m" and g: "fat_geom m"
    and inv: "fs_inv valid content m s" and on: "\<forall>l \<in> fat_area m. unat l < nb (world s)"
    and ch: "chain m (fat_at content m s) start xs"
  shows "\<exists>t. priv_free_chain m start s = (Inr (), t) \<and> fs_inv valid content m t \<and>
    meta_only content m s t \<and> (\<forall>c. in_fat m c \<longrightarrow>
      fat_at content m t c = (if c \<in> set xs then k_cluster_free else fat_at content m s c))"
proof -
  note bd = atomic_device.axioms(1) [OF reliable_device.axioms(1) [OF d]]
  have md: "reliable_device.fat_on_medium nb m s"
    using on by (simp add: reliable_device.fat_on_medium_def [OF d])
  have w: "free_walk m (unat (m_count_of_clusters m)) (fat_at content m s) start = (xs, True)"
    by (rule free_walk_chain [OF ch]) (use chain_length [OF g ch] in simp)
  then obtain t where t: "free_chain_loop m (unat (m_count_of_clusters m)) start s = (Inr (), t)"
    using reliable_device.free_chain_loop_ok [OF d m g inv md] by (metis snd_conv)
  with block_device.free_chain_loop [OF bd m g inv t] w show ?thesis
    by (auto simp: priv_free_chain_def)
qed

theorem free_chain_releases_witness:
  "\<exists>t. priv_free_chain ex_mount 2 ex_fs = (Inr (), t) \<and> fat_at ram_content ex_mount t 2 = 0 \<and>
     fat_at ram_content ex_mount t 3 = 0"
proof -
  have "in_fat ex_mount 2" "in_fat ex_mount 3" by (simp_all add: in_fat_def ex_mount_def)
  with free_chain_releases [OF ram.reliable_device_axioms ex_on_backend ex_geom ex_inv
      ex_on_medium [unfolded ram.fat_on_medium_def] ex_chain]
  show ?thesis by auto
qed

text \<open>
  Releasing from any start cluster, of a well-formed, broken or cyclic chain, ends without an
  error on a device that does not fail as long as one data cluster of the volume is free: the
  iteration guard does not fire, because each link is cleared before the walk goes on, and a cycle that does not hold every data
  cluster is released with success, not with the \<open>k_ra8_err_protocol_error\<close> that the header lists for it. Only
  entries of data clusters change, and they become free.
\<close>

lemma free_chain_cycle_ends:
  assumes d: "reliable_device b content bs valid nb" and m: "on_backend b bs m" and g: "fat_geom m"
    and inv: "fs_inv valid content m s" and on: "\<forall>l \<in> fat_area m. unat l < nb (world s)"
    and free: "in_data m f" "fat_at content m s f = k_cluster_free"
  shows "\<exists>t. priv_free_chain m start s = (Inr (), t) \<and> fs_inv valid content m t \<and>
    (\<forall>c. in_fat m c \<longrightarrow> fat_at content m t c = fat_at content m s c \<or>
       in_data m c \<and> fat_at content m t c = k_cluster_free)"
proof -
  note bd = atomic_device.axioms(1) [OF reliable_device.axioms(1) [OF d]]
  let ?tab = "fat_at content m s" and ?N = "unat (m_count_of_clusters m)"
  have md: "reliable_device.fat_on_medium nb m s"
    using on by (simp add: reliable_device.fat_on_medium_def [OF d])
  have "{c. inData m c \<and> ?tab c \<noteq> 0} \<subset> {c. inData m c}"
    using free g by (auto simp: inData_iff)
  then have "card {c. inData m c \<and> ?tab c \<noteq> 0} < ?N"
    using psubset_card_mono [of "{c. inData m c}"] by (simp add: card_inData [OF g])
  then have w: "snd (free_walk m ?N ?tab start)"
    by (rule free_walk_ends) (simp add: inData_def)
  then obtain t where t: "free_chain_loop m ?N start s = (Inr (), t)"
    using reliable_device.free_chain_loop_ok [OF d m g inv md] by blast
  with block_device.free_chain_loop [OF bd m g inv t] free_walk_inData [of m ?N ?tab start] show ?thesis
    by (auto simp: priv_free_chain_def inData_iff [OF g])
qed

text \<open>
  C15. Walking \<open>idx\<close> links along a chain and growing it where it ends: a successful walk leaves the
  chain extended by clusters that were free, so that it has at least \<open>idx + 1\<close> clusters, returns
  the cluster at position \<open>idx\<close>, and keeps every other entry of the table.
\<close>

theorem walk_grow_extends:
  assumes "block_device b content bs valid" and "on_backend b bs m" and "fat_geom m"
    and "fat_typed m" and "fs_inv valid content m s"
    and "chain m (fat_at content m s) start xs" and "internal_walk_grow m start idx s = (Inr d, t)"
  shows "\<exists>ys. chain m (fat_at content m t) start (xs @ ys) \<and> d = (xs @ ys) ! unat idx \<and>
    length (xs @ ys) = max (length xs) (Suc (unat idx)) \<and>
    (\<forall>y \<in> set ys. fat_at content m s y = k_cluster_free) \<and>
    (\<forall>e. in_fat m e \<longrightarrow> e \<notin> set (xs @ ys) \<longrightarrow> fat_at content m t e = fat_at content m s e) \<and>
    fs_inv valid content m t \<and> meta_only content m s t"
  using block_device.walk_grow [OF assms(1-6)] assms(7) by (simp add: internal_walk_grow_def)

theorem walk_grow_extends_witness:
  "\<exists>t ys. internal_walk_grow ex_mount 2 1 ex_fs = (Inr 3, t) \<and>
     chain ex_mount (fat_at ram_content ex_mount t) 2 ([2, 3] @ ys)"
proof -
  have "in_fat ex_mount 2" by (simp add: in_fat_def ex_mount_def)
  from ram.fat_get_ok [OF ex_on_backend ex_geom this ex_inv ex_on_medium]
  obtain t where t: "priv_fat_get ex_mount 2 ex_fs = (Inr 3, t)" by (auto simp: ex_at)
  then have "internal_walk_grow ex_mount 2 1 ex_fs = (Inr 3, t)"
    by (simp add: internal_walk_grow_def bindE_def priv_is_eoc_def)
  with walk_grow_extends [OF ram.block_device_axioms ex_on_backend ex_geom ex_typed ex_inv ex_chain this]
  show ?thesis by blast
qed

end
