(* ===== verification/Utf.thy ===== *)
theory Utf
  imports Fs_Prelude
begin

text \<open>
  \<^verbatim>\<open>ra8_fs_utf_abi.zig\<close>: the strict UTF-8 decoder and encoder every file name goes through. A
  NUL-terminated string is the list of its bytes before the NUL. The main lemma is the round trip:
  what the decoder accepts, the encoder reproduces byte for byte.
\<close>

section \<open>Decoding\<close>

abbreviation (input) sur_hi :: u32 where "sur_hi \<equiv> 0xD800"
abbreviation (input) sur_lo :: u32 where "sur_lo \<equiv> 0xDC00"
abbreviation (input) sur_last :: u32 where "sur_last \<equiv> 0xDFFF"
abbreviation (input) plane1 :: u32 where "plane1 \<equiv> 0x10000"
abbreviation (input) code_max :: u32 where "code_max \<equiv> 0x10FFFF"

definition lead :: "u8 \<Rightarrow> (nat \<times> u32) option" where
  "lead b = (let u = ucast b :: u32 in
     if u \<le> 0x7F then Some (1, u)
     else if u AND 0xE0 = 0xC0 then Some (2, u AND 0x1F)
     else if u AND 0xF0 = 0xE0 then Some (3, u AND 0x0F)
     else if u AND 0xF8 = 0xF0 then Some (4, u AND 0x07)
     else None)"

definition wellFormed :: "u32 \<Rightarrow> nat \<Rightarrow> bool" where
  "wellFormed cp len =
     (if len = 2 then cp \<ge> 0x80
      else if len = 3 then cp \<ge> 0x800 \<and> (cp < sur_hi \<or> cp > sur_last)
      else if len = 4 then cp \<ge> plane1 \<and> cp \<le> code_max
      else True)"

text \<open>The continuation bytes; the end of the list is the NUL, which is not one.\<close>

fun utf8_conts :: "nat \<Rightarrow> u32 \<Rightarrow> bytes \<Rightarrow> (u32 \<times> bytes) option" where
  "utf8_conts 0 cp bs = Some (cp, bs)"
| "utf8_conts (Suc k) cp [] = None"
| "utf8_conts (Suc k) cp (c # bs) =
     (let b = ucast c :: u32 in
      if b AND 0xC0 \<noteq> 0x80 then None
      else utf8_conts k (push_bit 6 cp OR (b AND 0x3F)) bs)"

definition utf8Next :: "bytes \<Rightarrow> (u32 \<times> bytes) option" where
  "utf8Next bs = (case bs of [] \<Rightarrow> None | b # rest \<Rightarrow>
     (case lead b of None \<Rightarrow> None | Some (len, cp0) \<Rightarrow>
       (case utf8_conts (len - 1) cp0 rest of None \<Rightarrow> None | Some (cp, rest') \<Rightarrow>
          if \<not> wellFormed cp len then None else Some (cp, rest'))))"

definition utf16Put :: "u32 \<Rightarrow> u16 list \<Rightarrow> nat \<Rightarrow> ra8_err + u16 list" where
  "utf16Put cp out cap =
     (let need = (if cp \<ge> plane1 then 2 else 1) in
      if length out + need > cap then Inl k_ra8_err_no_mem
      else if need = 1 then Inr (out @ [ucast cp])
      else (let rest = cp - plane1 in
            Inr (out @ [ucast (sur_hi + drop_bit 10 rest), ucast (sur_lo + (rest AND 0x3FF))])))"

lemma utf8_conts_length: "utf8_conts k cp bs = Some (cp', rest) \<Longrightarrow> length rest \<le> length bs"
proof (induction k cp bs rule: utf8_conts.induct)
  case (3 k cp c bs)
  then show ?case by (auto simp: Let_def split: if_splits)
qed auto

lemma utf8Next_length: "utf8Next bs = Some (cp, rest) \<Longrightarrow> length rest < length bs"
  by (auto simp: utf8Next_def split: list.splits option.splits prod.splits if_splits
      dest!: utf8_conts_length)

function utf8_loop :: "bytes \<Rightarrow> nat \<Rightarrow> u16 list \<Rightarrow> ra8_err + u16 list" where
  "utf8_loop bs cap out =
     (if length out > cap then Inl k_ra8_err_no_mem
      else if bs = [] then Inr out
      else case utf8Next bs of None \<Rightarrow> Inl k_ra8_err_invalid_arg
        | Some (cp, rest) \<Rightarrow> (case utf16Put cp out cap of Inl e \<Rightarrow> Inl e
            | Inr out' \<Rightarrow> utf8_loop rest cap out'))"
  by auto
termination
  by (relation "measure (\<lambda>(bs, _, _). length bs)") (auto dest: utf8Next_length)

declare utf8_loop.simps [simp del]

definition priv_utf8_to_utf16 :: "bytes \<Rightarrow> nat \<Rightarrow> ra8_err + u16 list" where
  "priv_utf8_to_utf16 s cap = utf8_loop s cap []"

section \<open>Encoding\<close>

fun utf16Take :: "u16 list \<Rightarrow> (u32 \<times> u16 list) option" where
  "utf16Take [] = None"
| "utf16Take (h # us) =
     (let hi = ucast h :: u32 in
      if hi < sur_hi \<or> hi > sur_last then Some (hi, us)
      else if hi \<ge> sur_lo then None
      else (case us of [] \<Rightarrow> None | l # us' \<Rightarrow>
        (let lo = ucast l :: u32 in
         if lo < sur_lo \<or> lo > sur_last then None
         else Some (plane1 + (push_bit 10 (hi - sur_hi) OR (lo - sur_lo)), us'))))"

definition utf8Len :: "u32 \<Rightarrow> nat" where
  "utf8Len cp = (if cp < 0x80 then 1 else if cp < 0x800 then 2 else if cp < plane1 then 3 else 4)"

text \<open>The bytes of a code point: the payload from the last byte to the first, then the tag.\<close>

primrec utf8_tail :: "nat \<Rightarrow> u32 \<Rightarrow> bytes \<Rightarrow> u32 \<times> bytes" where
  "utf8_tail 0 rest acc = (rest, acc)"
| "utf8_tail (Suc k) rest acc =
     utf8_tail k (drop_bit 6 rest) (ucast (0x80 OR (rest AND 0x3F)) # acc)"

definition utf8_bytes :: "u32 \<Rightarrow> bytes" where
  "utf8_bytes cp =
     (let len = utf8Len cp; tags = [0, 0, 0xC0, 0xE0, 0xF0] :: u32 list in
      case utf8_tail (len - 1) cp [] of (rest, tl') \<Rightarrow> ucast (tags ! len OR rest) # tl')"

definition utf8Put :: "u32 \<Rightarrow> bytes \<Rightarrow> nat \<Rightarrow> ra8_err + bytes" where
  "utf8Put cp out cap =
     (if length out + utf8Len cp + 1 > cap then Inl k_ra8_err_no_mem
      else Inr (out @ utf8_bytes cp))"

lemma utf16Take_length: "utf16Take us = Some (cp, rest) \<Longrightarrow> length rest < length us"
  by (cases us) (auto simp: Let_def split: if_splits list.splits)

function utf16_loop :: "u16 list \<Rightarrow> nat \<Rightarrow> bytes \<Rightarrow> ra8_err + bytes" where
  "utf16_loop us cap out =
     (if us = [] then Inr out
      else case utf16Take us of None \<Rightarrow> Inl k_ra8_err_invalid_arg
        | Some (cp, rest) \<Rightarrow> (case utf8Put cp out cap of Inl e \<Rightarrow> Inl k_ra8_err_no_mem
            | Inr out' \<Rightarrow> utf16_loop rest cap out'))"
  by auto
termination
  by (relation "measure (\<lambda>(us, _, _). length us)") (auto dest: utf16Take_length)

declare utf16_loop.simps [simp del]

definition priv_utf16_to_utf8 :: "u16 list \<Rightarrow> nat \<Rightarrow> ra8_err + bytes" where
  "priv_utf16_to_utf8 us cap = (if cap = 0 then Inl k_ra8_err_null_ptr else utf16_loop us cap [])"

definition priv_utf16_all_ascii :: "u16 list \<Rightarrow> bool" where
  "priv_utf16_all_ascii us = list_all (\<lambda>u. \<not> u > 0x7F) us"

section \<open>Round trip\<close>

lemma join6:
  fixes x c :: u32
  assumes "(unat x + 1) * 64 \<le> 2 ^ 32"
  shows "drop_bit 6 (push_bit 6 x OR (c AND 0x3F)) = x"
    and "(push_bit 6 x OR (c AND 0x3F)) AND 0x3F = c AND 0x3F"
    and "unat (push_bit 6 x OR (c AND 0x3F)) < (unat x + 1) * 64"
proof -
  have m: "(0x3F :: u32) = mask 6" by (simp add: mask_eq_exp_minus_1)
  have "unat x < 2 ^ 26" using assms by simp
  then have b: "bit x n \<Longrightarrow> n < 26" for n by (rule bit_small)
  show "drop_bit 6 (push_bit 6 x OR (c AND 0x3F)) = x" unfolding m
    by (rule bit_word_eqI) (auto simp: bit_simps dest: b)
  show lo: "(push_bit 6 x OR (c AND 0x3F)) AND 0x3F = c AND 0x3F" unfolding m
    by (rule bit_word_eqI) (auto simp: bit_simps)
  let ?j = "push_bit 6 x OR (c AND 0x3F)"
  have "drop_bit 6 ?j = x" unfolding m by (rule bit_word_eqI) (auto simp: bit_simps dest: b)
  then have "drop_bit 6 (unat ?j) = unat x" by (metis unat_drop_bit_eq)
  then have "unat ?j div 64 = unat x" by (simp add: drop_bit_eq_div)
  moreover have "unat ?j mod 64 < 64" by simp
  ultimately show "unat ?j < (unat x + 1) * 64"
    using div_mult_mod_eq [of "unat ?j" 64] by (simp only: add_mult_distrib mult_1)
qed

lemma utf8_tail_Suc: "utf8_tail (Suc k) r acc =
    (case utf8_tail k r acc of (r', a) \<Rightarrow> (drop_bit 6 r', ucast (0x80 OR (r' AND 0x3F)) # a))"
proof (induction k arbitrary: r acc)
  case (Suc k)
  show ?case by (subst utf8_tail.simps(2)) (subst Suc.IH, simp)
qed simp

lemma length_utf8_tail: "utf8_tail k r acc = (r', a) \<Longrightarrow> length a = k + length acc"
  by (induction k arbitrary: r acc) auto

text \<open>A tagged byte is its tag together with its payload.\<close>

lemma byte_tag:
  fixes b :: u8
  assumes "(ucast b :: u32) AND t = v" and "t OR p = 0xFF"
  shows "(ucast (v OR ((ucast b :: u32) AND p)) :: u8) = b"
proof -
  have m: "(0xFF :: u32) = mask 8" by (simp add: mask_eq_exp_minus_1)
  have "v OR ((ucast b :: u32) AND p) = ucast b AND (t OR p)"
    unfolding assms(1) [symmetric] by (rule bit.conj_disj_distrib [symmetric])
  also have "\<dots> = ucast b"
    unfolding assms(2) m by (rule bit_word_eqI) (auto simp: bit_simps dest: bit_imp_le_length)
  finally show ?thesis by simp
qed

lemma utf8_conts_tail:
  assumes "utf8_conts k cp bs = Some (cp', rest)" and "(unat cp + 1) * 64 ^ k \<le> 2 ^ 32"
  shows "\<exists>cs. bs = cs @ rest \<and> (\<forall>acc. utf8_tail k cp' acc = (cp, cs @ acc)) \<and>
    unat cp' < (unat cp + 1) * 64 ^ k"
  using assms
proof (induction k cp bs rule: utf8_conts.induct)
  case (3 k cp c bs)
  let ?b = "ucast c :: u32" and ?j = "push_bit 6 cp OR (ucast c AND 0x3F) :: u32"
  from 3(2) have c: "?b AND 0xC0 = 0x80" and r: "utf8_conts k ?j bs = Some (cp', rest)"
    by (auto simp: Let_def split: if_splits)
  from 3(3) have "(unat cp + 1) * 64 \<le> 2 ^ 32"
    by (metis le_trans mult_le_mono2 one_le_numeral power_increasing power_one_right Suc_eq_plus1 le_add2)
  note j = join6 [OF this, of ?b]
  have "(unat ?j + 1) * 64 ^ k \<le> ((unat cp + 1) * 64) * 64 ^ k"
    using j(3) by (intro mult_le_mono1) simp
  also have "\<dots> = (unat cp + 1) * 64 ^ Suc k" by (simp add: algebra_simps)
  finally have le: "(unat ?j + 1) * 64 ^ k \<le> (unat cp + 1) * 64 ^ Suc k" .
  with 3(3) have "(unat ?j + 1) * 64 ^ k \<le> 2 ^ 32" by simp
  from 3(1) [OF refl _ r this] c obtain cs where cs: "bs = cs @ rest"
    "\<And>acc. utf8_tail k cp' acc = (?j, cs @ acc)" "unat cp' < (unat ?j + 1) * 64 ^ k" by auto
  have "ucast (0x80 OR (?b AND 0x3F)) = c" by (rule byte_tag [OF c]) simp
  then have "utf8_tail (Suc k) cp' acc = (cp, (c # cs) @ acc)" for acc
    by (subst utf8_tail_Suc) (simp only: cs(2) prod.case j(1,2) append_Cons)
  with cs le show ?case by (intro exI [of _ "c # cs"]) auto
qed auto

lemma utf8Next_bytes:
  assumes "utf8Next bs = Some (cp, rest)"
  shows "bs = utf8_bytes cp @ rest" and "cp \<le> code_max" and "cp < sur_hi \<or> cp > sur_last"
    and "utf8Len cp \<le> 3 * (if cp \<ge> plane1 then 2 else 1)"
proof -
  from assms obtain b bs' len cp0 where b: "bs = b # bs'" "lead b = Some (len, cp0)"
    "utf8_conts (len - 1) cp0 bs' = Some (cp, rest)" "wellFormed cp len"
    by (auto simp: utf8Next_def split: list.splits option.splits prod.splits if_splits)
  let ?u = "ucast b :: u32"
  have mlt: "unat (x AND mask n) < 2 ^ n" for x :: u32 and n
    by (simp add: take_bit_eq_mask [symmetric] unsigned_take_bit_eq take_bit_nat_less_exp)
  consider (1) "len = 1" "cp0 = ?u" "?u \<le> 0x7F" | (2) "len = 2" "cp0 = ?u AND 0x1F" "?u AND 0xE0 = 0xC0"
    | (3) "len = 3" "cp0 = ?u AND 0x0F" "?u AND 0xF0 = 0xE0" | (4) "len = 4" "cp0 = ?u AND 0x07" "?u AND 0xF8 = 0xF0"
    using b(2) by (auto simp: lead_def Let_def split: if_splits)
  then have "bs = utf8_bytes cp @ rest \<and> cp \<le> code_max \<and> (cp < sur_hi \<or> cp > sur_last) \<and>
    utf8Len cp \<le> 3 * (if cp \<ge> plane1 then 2 else 1)"
  proof cases
    case 1
    with b show ?thesis
      by (auto simp: utf8_bytes_def utf8Len_def word_le_nat_alt word_less_nat_alt)
  next
    case 2
    have "unat cp0 < 32" using mlt [of ?u 5] 2 by (simp add: mask_eq_exp_minus_1)
    with utf8_conts_tail [OF b(3)] 2 obtain cs where cs: "bs' = cs @ rest"
      "utf8_tail 1 cp [] = (cp0, cs)" "unat cp < (unat cp0 + 1) * 64" by auto
    have "ucast (0xC0 OR cp0) = b" unfolding 2(2) by (rule byte_tag [OF 2(3)]) simp
    moreover have "utf8Len cp = 2" using b(4) cs(3) \<open>unat cp0 < 32\<close>
      by (simp add: utf8Len_def wellFormed_def 2 word_le_nat_alt word_less_nat_alt)
    ultimately show ?thesis using b(1) cs \<open>unat cp0 < 32\<close>
      by (auto simp: utf8_bytes_def Let_def word_le_nat_alt word_less_nat_alt)
  next
    case 3
    have "unat cp0 < 16" using mlt [of ?u 4] 3 by (simp add: mask_eq_exp_minus_1)
    with utf8_conts_tail [OF b(3)] 3 obtain cs where cs: "bs' = cs @ rest"
      "utf8_tail 2 cp [] = (cp0, cs)" "unat cp < (unat cp0 + 1) * 4096" by auto
    have "ucast (0xE0 OR cp0) = b" unfolding 3(2) by (rule byte_tag [OF 3(3)]) simp
    moreover have "utf8Len cp = 3" using b(4) cs(3) \<open>unat cp0 < 16\<close>
      by (simp add: utf8Len_def wellFormed_def 3 word_le_nat_alt word_less_nat_alt)
    ultimately show ?thesis using b(1,4) cs \<open>unat cp0 < 16\<close> 3(1)
      by (auto simp: utf8_bytes_def Let_def wellFormed_def word_le_nat_alt word_less_nat_alt)
  next
    case 4
    have "unat cp0 < 8" using mlt [of ?u 3] 4 by (simp add: mask_eq_exp_minus_1)
    with utf8_conts_tail [OF b(3)] 4 obtain cs where cs: "bs' = cs @ rest"
      "utf8_tail 3 cp [] = (cp0, cs)" by auto
    have "ucast (0xF0 OR cp0) = b" unfolding 4(2) by (rule byte_tag [OF 4(3)]) simp
    moreover have "utf8Len cp = 4" using b(4)
      by (simp add: utf8Len_def wellFormed_def 4 word_le_nat_alt word_less_nat_alt)
    ultimately show ?thesis using b(1,4) cs 4(1)
      by (auto simp: utf8_bytes_def Let_def wellFormed_def word_le_nat_alt word_less_nat_alt)
  qed
  then show "bs = utf8_bytes cp @ rest" "cp \<le> code_max" "cp < sur_hi \<or> cp > sur_last"
    "utf8Len cp \<le> 3 * (if cp \<ge> plane1 then 2 else 1)" by blast+
qed

text \<open>The units of a code point, as \<open>utf16Put\<close> appends them.\<close>

definition utf16_units :: "u32 \<Rightarrow> u16 list" where
  "utf16_units cp = (if cp \<ge> plane1 then
     [ucast (sur_hi + drop_bit 10 (cp - plane1)), ucast (sur_lo + ((cp - plane1) AND 0x3FF))]
     else [ucast cp])"

lemma utf16Put_units: "utf16Put cp out cap =
    (if length out + length (utf16_units cp) > cap then Inl k_ra8_err_no_mem else Inr (out @ utf16_units cp))"
  by (simp add: utf16Put_def utf16_units_def Let_def)

lemma utf16Take_units:
  assumes cp: "cp \<le> code_max" and ns: "cp < sur_hi \<or> cp > sur_last"
  shows "utf16Take (utf16_units cp @ r) = Some (cp, r)"
proof (cases "cp \<ge> plane1")
  case False
  then have "(ucast (ucast cp :: u16) :: u32) = cp"
    by (simp add: word_unat_eq_iff unat_ucast_mod word_le_nat_alt)
  with False ns show ?thesis by (simp add: utf16_units_def)
next
  case True
  define q where "q = cp - plane1"
  have q: "unat q < 2 ^ 20"
    using cp True by (simp add: q_def unat_sub_le word_le_nat_alt)
  have m: "(0x3FF :: u32) = mask 10" by (simp add: mask_eq_exp_minus_1)
  have lo: "unat (q AND 0x3FF) < 1024"
    unfolding m by (simp add: take_bit_eq_mask [symmetric] take_bit_eq_mod unat_mod_distrib)
  have "unat (drop_bit 10 q) = unat q div 1024" by (simp add: drop_bit_eq_div unat_div_distrib)
  with q have hi: "unat (drop_bit 10 q) < 1024" by simp
  let ?hi = "sur_hi + drop_bit 10 q" and ?lo = "sur_lo + (q AND 0x3FF)"
  have uh: "unat ?hi = 0xD800 + unat (drop_bit 10 q)" and ul: "unat ?lo = 0xDC00 + unat (q AND 0x3FF)"
    using hi lo by (simp_all add: unat_word_ariths)
  have bk: "(ucast (ucast ?hi :: u16) :: u32) = ?hi" "(ucast (ucast ?lo :: u16) :: u32) = ?lo"
    using hi lo uh ul by (simp_all add: word_unat_eq_iff unat_ucast_mod)
  have "push_bit 10 (drop_bit 10 q) OR (q AND 0x3FF) = q"
    unfolding m by (rule bit_word_eqI) (auto simp: bit_simps)
  then have "plane1 + (push_bit 10 (?hi - sur_hi) OR (?lo - sur_lo)) = cp"
    by (simp add: q_def)
  with True hi lo uh ul show ?thesis
    by (simp add: utf16_units_def Let_def bk word_less_nat_alt word_le_nat_alt flip: q_def)
qed

lemma utf8_loop_roundtrip:
  "utf8_loop bs cap out = Inr us \<Longrightarrow> \<exists>vs. us = out @ vs \<and> length us \<le> cap \<and>
    (\<forall>cap8 acc. length acc + 3 * length vs + 1 \<le> cap8 \<longrightarrow> utf16_loop vs cap8 acc = Inr (acc @ bs))"
proof (induction bs cap out rule: utf8_loop.induct)
  case (1 bs cap out)
  show ?case
  proof (cases "bs = []")
    case True
    with 1(2) show ?thesis
      by (intro exI [of _ "[]"]) (auto simp: utf8_loop.simps [of "[]"] utf16_loop.simps split: if_splits)
  next
    case False
    with 1(2) obtain cp rest out' where nx: "utf8Next bs = Some (cp, rest)" "length out \<le> cap"
      "utf16Put cp out cap = Inr out'" "utf8_loop rest cap out' = Inr us"
      by (subst (asm) utf8_loop.simps) (auto split: if_splits option.splits sum.splits)
    note nb = utf8Next_bytes [OF nx(1)]
    have out': "out' = out @ utf16_units cp"
      using nx(3) by (auto simp: utf16Put_units split: if_splits)
    have len: "utf8Len cp \<le> 3 * length (utf16_units cp)"
      using nb(4) by (simp add: utf16_units_def split: if_splits)
    have blen: "length (utf8_bytes cp) = utf8Len cp"
      by (auto simp: utf8_bytes_def Let_def utf8Len_def length_utf8_tail split: prod.split)
    from 1(1) [OF _ False nx(1) refl nx(3,4)] nx(2) obtain vs where vs: "us = out' @ vs" "length us \<le> cap"
      "\<And>cap8 acc. length acc + 3 * length vs + 1 \<le> cap8 \<Longrightarrow> utf16_loop vs cap8 acc = Inr (acc @ rest)" by auto
    have "utf16_loop (utf16_units cp @ vs) cap8 acc = Inr (acc @ bs)"
      if fit: "length acc + 3 * length (utf16_units cp @ vs) + 1 \<le> cap8" for cap8 acc
    proof -
      have "utf16_units cp \<noteq> []" by (simp add: utf16_units_def)
      moreover have "utf8Put cp acc cap8 = Inr (acc @ utf8_bytes cp)"
        using fit len by (simp add: utf8Put_def)
      moreover have "utf16_loop vs cap8 (acc @ utf8_bytes cp) = Inr ((acc @ utf8_bytes cp) @ rest)"
        using fit len blen by (intro vs(3)) simp
      ultimately show ?thesis
        using nb(1) by (subst utf16_loop.simps) (simp add: utf16Take_units [OF nb(2,3)])
    qed
    with vs out' show ?thesis by (intro exI [of _ "utf16_units cp @ vs"]) auto
  qed
qed

text \<open>
  C22. A file name that the UTF-8 decoder accepts (no stray or missing continuation byte, no overlong
  form, no surrogate, nothing above U+10FFFF, at most \<open>cap\<close> UTF-16 units) is reproduced byte for
  byte by the encoder, in any buffer of three bytes per unit plus the terminator, which is the
  size the driver reserves.
\<close>

theorem utf8_roundtrip:
  assumes "priv_utf8_to_utf16 s cap = Inr us" and "3 * length us + 1 \<le> cap8"
  shows "priv_utf16_to_utf8 us cap8 = Inr s \<and> length us \<le> cap"
  using utf8_loop_roundtrip [OF assms(1) [unfolded priv_utf8_to_utf16_def]] assms(2)
  by (auto simp: priv_utf16_to_utf8_def)

theorem utf8_roundtrip_witness:
  "priv_utf8_to_utf16 [0x61, 0xC3, 0xA9, 0xF0, 0x9F, 0x98, 0x80] 247 = Inr [0x61, 0xE9, 0xD83D, 0xDE00] \<and>
   priv_utf16_to_utf8 [0x61, 0xE9, 0xD83D, 0xDE00] 742 = Inr [0x61, 0xC3, 0xA9, 0xF0, 0x9F, 0x98, 0x80]"
proof -
  have d: "priv_utf8_to_utf16 [0x61, 0xC3, 0xA9, 0xF0, 0x9F, 0x98, 0x80] 247 = Inr [0x61, 0xE9, 0xD83D, 0xDE00]"
    by code_simp
  from utf8_roundtrip [OF d, of 742] d show ?thesis by simp
qed

end
