(* ===== verification/Fat_Name.thy ===== *)
theory Fat_Name
  imports Fat_Bytes Utf
begin

text \<open>
  \<^verbatim>\<open>ra8_fs_fat_name.c\<close>, the name part: packing a path component into the eleven bytes of an 8.3
  entry and back, the legality and classification of names, and the numeric-tail alias of a long
  name. A NUL-terminated string is the list of its bytes before the NUL; the eleven-byte buffers
  are lists. The main lemmas: a name classified as short is stored without loss (the 8.3 field
  and the case bits give it back exactly), and aliases are legal and differ from tail to tail.
\<close>

abbreviation (input) k_filename_base_len :: nat where "k_filename_base_len \<equiv> 8"
abbreviation (input) k_filename_ext_len :: nat where "k_filename_ext_len \<equiv> 3"
abbreviation (input) k_max_8_3_name :: nat where "k_max_8_3_name \<equiv> 11"
abbreviation (input) k_lfn_write_max :: nat where "k_lfn_write_max \<equiv> 247"
abbreviation (input) chr_space :: u8 where "chr_space \<equiv> 0x20"
abbreviation (input) chr_dot :: u8 where "chr_dot \<equiv> 0x2E"
abbreviation (input) chr_slash :: u8 where "chr_slash \<equiv> 0x2F"
abbreviation (input) chr_tilde :: u8 where "chr_tilde \<equiv> 0x7E"
abbreviation (input) chr_underscore :: u8 where "chr_underscore \<equiv> 0x5F"
abbreviation (input) k_lfn_space :: u16 where "k_lfn_space \<equiv> 0x20"
abbreviation (input) k_lfn_del :: u16 where "k_lfn_del \<equiv> 0x7F"

section \<open>8.3 packing\<close>

definition priv_to_upper :: "u8 \<Rightarrow> u8" where
  "priv_to_upper c = (if 0x61 \<le> c \<and> c \<le> 0x7A then c - 0x61 + 0x41 else c)"

text \<open>\<open>internal_pack_base\<close> from \<open>base_len\<close> on; \<open>None\<close> is the return value 0.\<close>

fun pack_base_loop :: "bytes \<Rightarrow> nat \<Rightarrow> bytes \<Rightarrow> (bytes \<times> bytes) option" where
  "pack_base_loop [] base_len out11 = (if base_len = 0 then None else Some ([], out11))"
| "pack_base_loop (c # cs) base_len out11 =
     (if c = chr_dot then (if base_len = 0 then None else Some (c # cs, out11))
      else if base_len \<ge> k_filename_base_len then None
      else if c > 0x7F then None
      else pack_base_loop cs (base_len + 1) (out11[base_len := priv_to_upper c]))"

definition internal_pack_base :: "bytes \<Rightarrow> bytes \<Rightarrow> (bytes \<times> bytes) option" where
  "internal_pack_base path out11 = pack_base_loop path 0 out11"

fun pack_ext_loop :: "bytes \<Rightarrow> nat \<Rightarrow> bytes \<Rightarrow> bytes option" where
  "pack_ext_loop [] ext_len out11 = Some out11"
| "pack_ext_loop (c # cs) ext_len out11 =
     (if ext_len \<ge> k_filename_ext_len then None
      else if c > 0x7F then None
      else pack_ext_loop cs (ext_len + 1) (out11[k_filename_base_len + ext_len := priv_to_upper c]))"

definition internal_pack_ext :: "bytes \<Rightarrow> bytes \<Rightarrow> bytes option" where
  "internal_pack_ext path out11 = (case path of [] \<Rightarrow> Some out11
     | c # cs \<Rightarrow> if c \<noteq> chr_dot then Some out11 else pack_ext_loop cs 0 out11)"

definition priv_path_to_83 :: "bytes \<Rightarrow> bytes option" where
  "priv_path_to_83 path =
     (let p = dropWhile (\<lambda>c. c = chr_slash) path;
          out11 = replicate k_max_8_3_name chr_space
      in case internal_pack_base p out11 of None \<Rightarrow> None
         | Some (rest, o1) \<Rightarrow> internal_pack_ext rest o1)"

definition internal_case_apply :: "u8 \<Rightarrow> u8 \<Rightarrow> u8" where
  "internal_case_apply c lower =
     (if lower = 0 then c
      else if 0x41 \<le> c \<and> c \<le> 0x5A then ucast ((ucast c :: u32) + (0x61 - 0x41))
      else c)"

definition priv_83_to_str :: "bytes \<Rightarrow> u8 \<Rightarrow> bytes" where
  "priv_83_to_str in11 ntres =
     (let base_lower = ntres AND k_ntres_base_lower;
          ext_lower = ntres AND k_ntres_ext_lower;
          base = map (\<lambda>c. internal_case_apply c base_lower)
                   (takeWhile (\<lambda>c. c \<noteq> chr_space) (take k_filename_base_len in11));
          base' = (if in11 ! 0 = k_dir_marker_kanji_e5 then base[0 := k_dir_marker_free_used] else base);
          ext = take k_filename_ext_len (drop k_filename_base_len in11)
      in if list_ex (\<lambda>c. c \<noteq> chr_space) ext
         then base' @ chr_dot # map (\<lambda>c. internal_case_apply c ext_lower)
                                  (takeWhile (\<lambda>c. c \<noteq> chr_space) ext)
         else base')"

section \<open>Legality and classification\<close>

text \<open>\<open>set\<close> is a NUL-terminated literal of the source.\<close>

definition internal_unit_in_set :: "u16 \<Rightarrow> bytes \<Rightarrow> bool" where
  "internal_unit_in_set u set' = list_ex (\<lambda>c. ucast c = u) set'"

definition lfn_illegal :: bytes where
  "lfn_illegal = [0x22, 0x2A, 0x2F, 0x3A, 0x3C, 0x3E, 0x3F, 0x5C, 0x7C]"

definition sfn_extra_illegal :: bytes where
  "sfn_extra_illegal = [0x2B, 0x2C, 0x3B, 0x3D, 0x5B, 0x5D, 0x20]"

definition internal_unit_is_lfn_legal :: "u16 \<Rightarrow> bool" where
  "internal_unit_is_lfn_legal u =
     (if u < k_lfn_space then False
      else if u = k_lfn_del then False
      else if internal_unit_in_set u lfn_illegal then False
      else True)"

definition internal_unit_is_83_legal :: "u16 \<Rightarrow> bool" where
  "internal_unit_is_83_legal u =
     (if u > k_lfn_del then False
      else if u = ucast chr_dot then False
      else if internal_unit_in_set u sfn_extra_illegal then False
      else True)"

text \<open>The index of the last dot, or the length; the loop keeps the latest match.\<close>

primrec dot_scan :: "u16 list \<Rightarrow> nat \<Rightarrow> nat \<Rightarrow> nat" where
  "dot_scan [] i dot = dot"
| "dot_scan (u # us) i dot = dot_scan us (Suc i) (if u = ucast chr_dot then i else dot)"

definition internal_name_dot_index :: "u16 list \<Rightarrow> nat" where
  "internal_name_dot_index leaf = dot_scan leaf 0 (length leaf)"

definition internal_name_is_83 :: "u16 list \<Rightarrow> bool" where
  "internal_name_is_83 leaf =
     (let n = length leaf; dot = internal_name_dot_index leaf; base_len = dot in
      if base_len = 0 \<or> base_len > k_filename_base_len then False
      else if dot < n \<and> (n - dot - 1 = 0 \<or> n - dot - 1 > k_filename_ext_len) then False
      else list_all (\<lambda>i. i = dot \<or> internal_unit_is_83_legal (leaf ! i)) [0..<n])"

abbreviation (input) k_case_seen_upper :: u8 where "k_case_seen_upper \<equiv> 1"
abbreviation (input) k_case_seen_lower :: u8 where "k_case_seen_lower \<equiv> 2"
abbreviation (input) k_case_seen_mixed :: u8 where "k_case_seen_mixed \<equiv> 3"

primrec internal_case_observe :: "u16 list \<Rightarrow> u8 \<Rightarrow> u8" where
  "internal_case_observe [] seen = seen"
| "internal_case_observe (c # cs) seen = internal_case_observe cs
     (if 0x41 \<le> c \<and> c \<le> 0x5A then seen OR k_case_seen_upper
      else if 0x61 \<le> c \<and> c \<le> 0x7A then seen OR k_case_seen_lower
      else seen)"

datatype name_kind = k_name_kind_invalid | k_name_kind_short | k_name_kind_long

definition internal_name_case_kind :: "u16 list \<Rightarrow> name_kind \<times> u8" where
  "internal_name_case_kind leaf =
     (let n = length leaf; dot = internal_name_dot_index leaf;
          base_seen = internal_case_observe (take dot leaf) 0;
          ext_seen = (if dot < n then internal_case_observe (drop (dot + 1) leaf) 0 else 0)
      in if base_seen = k_case_seen_mixed then (k_name_kind_long, 0)
         else if ext_seen = k_case_seen_mixed then (k_name_kind_long, 0)
         else (k_name_kind_short,
               (if base_seen = k_case_seen_lower then k_ntres_base_lower else 0) OR
               (if ext_seen = k_case_seen_lower then k_ntres_ext_lower else 0)))"

text \<open>
  The outputs are the kind, the units, the packed name and the case bits. \<open>out83\<close> keeps the
  caller's bytes where the function does not fill it, here the argument \<open>name83_in\<close>.
\<close>

definition priv_name_classify :: "bytes \<Rightarrow> bytes \<Rightarrow> name_kind \<times> u16 list \<times> bytes \<times> u8" where
  "priv_name_classify leaf name83_in =
     (case priv_utf8_to_utf16 leaf k_lfn_write_max of
        Inl _ \<Rightarrow> (k_name_kind_invalid, [], name83_in, 0)
      | Inr units \<Rightarrow>
          if length units = 0 then (k_name_kind_invalid, units, name83_in, 0)
          else if \<not> list_all internal_unit_is_lfn_legal units
            then (k_name_kind_invalid, units, name83_in, 0)
          else if \<not> internal_name_is_83 units then (k_name_kind_long, units, name83_in, 0)
          else case priv_path_to_83 leaf of
              None \<Rightarrow> (k_name_kind_long, units, name83_in, 0)
            | Some name83 \<Rightarrow> (case internal_name_case_kind units of
                (kind, ntres) \<Rightarrow> (kind, units, name83, ntres)))"

section \<open>Numeric-tail aliases\<close>

definition internal_alias_map_unit :: "u16 \<Rightarrow> u8" where
  "internal_alias_map_unit u =
     (if u > k_lfn_del then chr_underscore
      else let up = priv_to_upper (ucast u) in
        if \<not> internal_unit_is_83_legal (ucast up) then chr_underscore else up)"

text \<open>The characters collected from a stretch of the name, at most \<open>cap\<close> of them.\<close>

primrec alias_collect_loop :: "u16 list \<Rightarrow> nat \<Rightarrow> bytes \<Rightarrow> bytes" where
  "alias_collect_loop [] cap out = out"
| "alias_collect_loop (u # us) cap out =
     (if length out \<ge> cap then out
      else if u = ucast chr_space \<or> u = ucast chr_dot then alias_collect_loop us cap out
      else alias_collect_loop us cap (out @ [internal_alias_map_unit u]))"

definition internal_alias_collect :: "u16 list \<Rightarrow> nat \<Rightarrow> nat \<Rightarrow> nat \<Rightarrow> bytes" where
  "internal_alias_collect leaf from to cap = alias_collect_loop (take (to - from) (drop from leaf)) cap []"

text \<open>The last dot that is neither the first nor the last unit.\<close>

definition internal_alias_ext_dot :: "u16 list \<Rightarrow> nat" where
  "internal_alias_ext_dot leaf =
     fold (\<lambda>i dot. if leaf ! i = ucast chr_dot then i else dot) [1..<length leaf - 1] (length leaf)"

abbreviation (input) k_alias_radix :: u32 where "k_alias_radix \<equiv> 10"
abbreviation (input) k_alias_digits_max :: nat where "k_alias_digits_max \<equiv> 6"

text \<open>The loop of \<open>internal_alias_digits\<close> with \<open>k\<close> digits still allowed.\<close>

primrec alias_digits_loop :: "nat \<Rightarrow> u32 \<Rightarrow> nat \<Rightarrow> u32 \<Rightarrow> nat" where
  "alias_digits_loop 0 tail digits scale = digits"
| "alias_digits_loop (Suc k) tail digits scale =
     (if tail \<ge> scale then alias_digits_loop k tail (digits + 1) (scale * k_alias_radix) else digits)"

definition internal_alias_digits :: "u32 \<Rightarrow> nat" where
  "internal_alias_digits tail = alias_digits_loop (k_alias_digits_max - 1) tail 1 k_alias_radix"

text \<open>Writing the digits from the last position backwards.\<close>

primrec alias_put_digits :: "nat \<Rightarrow> nat \<Rightarrow> u32 \<Rightarrow> bytes \<Rightarrow> bytes" where
  "alias_put_digits 0 pos rest out = out"
| "alias_put_digits (Suc d) pos rest out =
     alias_put_digits d (pos - 1) (rest div k_alias_radix)
       (out[pos := ucast (0x30 + rest mod k_alias_radix)])"

definition priv_lfn_alias_basis :: "u16 list \<Rightarrow> u32 \<Rightarrow> bytes" where
  "priv_lfn_alias_basis leaf tail =
     (let n = length leaf;
          out0 = replicate k_max_8_3_name chr_space;
          dot = internal_alias_ext_dot leaf;
          base0 = internal_alias_collect leaf 0 dot k_filename_base_len;
          base = (if base0 = [] then [chr_underscore] else base0);
          out1 = (if dot < n
                  then splice_at out0 k_filename_base_len
                         (internal_alias_collect leaf (dot + 1) n k_filename_ext_len)
                  else out0);
          digits = internal_alias_digits tail;
          keep0 = k_filename_base_len - digits - 1;
          keep = (if length base < keep0 then length base else keep0);
          out2 = splice_at out1 0 (take keep base);
          out3 = out2[keep := chr_tilde]
      in alias_put_digits digits (keep + digits) tail out3)"

section \<open>Short names are stored without loss\<close>

lemma utf16_loop_ascii:
  "list_all (\<lambda>u. u \<le> 0x7F) us \<Longrightarrow> length acc + length us + 1 \<le> cap \<Longrightarrow>
    utf16_loop us cap acc = Inr (acc @ map ucast us)"
proof (induction us arbitrary: acc)
  case Nil
  then show ?case by (simp add: utf16_loop.simps)
next
  case (Cons u us)
  then have u: "unat u \<le> 127" by (simp add: word_le_nat_alt)
  have lt: "(ucast u :: u32) < 0x80" using u by (simp add: word_less_nat_alt)
  have "(ucast (ucast u :: u32) :: u8) = ucast u"
    by (rule bit_word_eqI) (auto simp: bit_simps)
  with lt Cons.prems have "utf8Put (ucast u) acc cap = Inr (acc @ [ucast u])"
    by (simp add: utf8Put_def utf8_bytes_def utf8Len_def)
  moreover have "(ucast u :: u32) < sur_hi" using u by (simp add: word_less_nat_alt)
  ultimately show ?case
    using Cons by (subst utf16_loop.simps) simp
qed

lemma classify_ascii:
  assumes d: "priv_utf8_to_utf16 leaf k_lfn_write_max = Inr us" and a: "list_all (\<lambda>u. u \<le> 0x7F) us"
  shows "leaf = map ucast us"
proof -
  from utf8_loop_roundtrip [OF d [unfolded priv_utf8_to_utf16_def]]
  have "utf16_loop us (3 * length us + 1) [] = Inr leaf" by auto
  with utf16_loop_ascii [OF a, of "[]" "3 * length us + 1"] show ?thesis by simp
qed

lemma pack_base_loop_out:
  assumes "length pre + length bs \<le> 8" and "pre @ bs \<noteq> []"
    and "list_all (\<lambda>c. c \<noteq> chr_dot \<and> c \<le> 0x7F) bs" and "rest = [] \<or> (\<exists>r. rest = chr_dot # r)"
  shows "pack_base_loop (bs @ rest) (length pre) (pre @ replicate (8 - length pre) chr_space @ suf) =
    Some (rest, pre @ map priv_to_upper bs @ replicate (8 - length pre - length bs) chr_space @ suf)"
  using assms
proof (induction bs arbitrary: pre)
  case Nil
  then show ?case by (cases rest) auto
next
  case (Cons c bs)
  have "replicate (8 - length pre) chr_space = chr_space # replicate (7 - length pre) chr_space"
    using Cons.prems(1) by (simp flip: replicate_Suc add: Suc_diff_le)
  then have "(pre @ replicate (8 - length pre) chr_space @ suf)[length pre := priv_to_upper c] =
      (pre @ [priv_to_upper c]) @ replicate (8 - length (pre @ [priv_to_upper c])) chr_space @ suf"
    by (simp add: list_update_append)
  with Cons.prems Cons.IH [of "pre @ [priv_to_upper c]"] show ?case by (simp add: not_less)
qed

lemma pack_ext_loop_out:
  assumes "length pre + length bs \<le> 3" and "list_all (\<lambda>c. c \<le> 0x7F) bs" and "length hd8 = 8"
  shows "pack_ext_loop bs (length pre) (hd8 @ pre @ replicate (3 - length pre) chr_space) =
    Some (hd8 @ pre @ map priv_to_upper bs @ replicate (3 - length pre - length bs) chr_space)"
  using assms
proof (induction bs arbitrary: pre)
  case (Cons c bs)
  have "replicate (3 - length pre) chr_space = chr_space # replicate (2 - length pre) chr_space"
    using Cons.prems(1) by (simp flip: replicate_Suc add: Suc_diff_le)
  then have "(hd8 @ pre @ replicate (3 - length pre) chr_space)[8 + length pre := priv_to_upper c] =
      hd8 @ (pre @ [priv_to_upper c]) @ replicate (3 - length (pre @ [priv_to_upper c])) chr_space"
    using Cons.prems(3) by (simp add: list_update_append)
  with Cons.prems Cons.IH [of "pre @ [priv_to_upper c]"] show ?case by (simp add: not_less)
qed simp

lemma path_to_83_out:
  assumes b: "bs \<noteq> []" "length bs \<le> 8" "list_all (\<lambda>c. c \<noteq> chr_dot \<and> c \<le> 0x7F) bs" "hd bs \<noteq> chr_slash"
    and e: "length es \<le> 3" "list_all (\<lambda>c. c \<le> 0x7F) es"
    and rest: "rest = [] \<and> es = [] \<or> rest = chr_dot # es"
  shows "priv_path_to_83 (bs @ rest) =
    Some ((map priv_to_upper bs @ replicate (8 - length bs) chr_space) @
          (map priv_to_upper es @ replicate (3 - length es) chr_space))"
proof -
  have dw: "dropWhile (\<lambda>c. c = chr_slash) (bs @ rest) = bs @ rest"
    using b(1,4) by (cases bs) auto
  have r11: "replicate 11 chr_space = replicate 8 chr_space @ replicate 3 chr_space"
    by (simp flip: replicate_add)
  have "internal_pack_base (bs @ rest) (replicate 11 chr_space) =
      Some (rest, (map priv_to_upper bs @ replicate (8 - length bs) chr_space) @ replicate 3 chr_space)"
    unfolding internal_pack_base_def r11
    using pack_base_loop_out [of "[]" bs rest "replicate 3 chr_space"] b rest by auto
  then show ?thesis
    using rest pack_ext_loop_out [of "[]" es "map priv_to_upper bs @ replicate (8 - length bs) chr_space"] b e
    by (auto simp: priv_path_to_83_def dw Let_def internal_pack_ext_def)
qed

lemma case_observe: "internal_case_observe cs s =
    s OR (if \<exists>c \<in> set cs. 0x41 \<le> c \<and> c \<le> 0x5A then 1 else 0) OR
      (if \<exists>c \<in> set cs. 0x61 \<le> c \<and> c \<le> 0x7A then 2 else 0)"
proof (induction cs arbitrary: s)
  case (Cons c cs)
  have "\<not> (0x61 \<le> c \<and> c \<le> 0x7A)" if "0x41 \<le> c \<and> c \<le> 0x5A"
    using that by (auto simp: word_le_nat_alt)
  with Cons show ?case
    by (auto simp: or.assoc or.commute or.left_commute split: if_splits)
qed simp

text \<open>The case bit of a part gives its characters back, unless they are of mixed case.\<close>

lemma case_apply_back:
  fixes us :: "u16 list"
  assumes a: "list_all (\<lambda>u. u \<le> 0x7F) us" and k: "internal_case_observe us 0 \<noteq> k_case_seen_mixed"
    and f: "flag \<noteq> 0"
  shows "map (\<lambda>c. internal_case_apply (priv_to_upper c)
      (if internal_case_observe us 0 = k_case_seen_lower then flag else 0)) (map ucast us) = map ucast us"
proof -
  have "internal_case_apply (priv_to_upper (ucast u))
      (if internal_case_observe us 0 = k_case_seen_lower then flag else 0) = ucast u" if u: "u \<in> set us" for u
  proof -
    from a u have "unat u \<le> 127" by (auto simp: list_all_iff word_le_nat_alt)
    then have n: "unat (ucast u :: u8) = unat u" by (simp add: unat_ucast_mod)
    consider (lower) "0x61 \<le> u \<and> u \<le> 0x7A" | (upper) "0x41 \<le> u \<and> u \<le> 0x5A"
      | (other) "\<not> (0x61 \<le> u \<and> u \<le> 0x7A)" "\<not> (0x41 \<le> u \<and> u \<le> 0x5A)" by blast
    then show ?thesis
    proof cases
      case lower
      with k u have s: "internal_case_observe us 0 = k_case_seen_lower"
        by (auto simp: case_observe split: if_splits)
      from lower n have l: "0x61 \<le> (ucast u :: u8) \<and> (ucast u :: u8) \<le> 0x7A"
        by (simp add: word_le_nat_alt)
      then have up: "priv_to_upper (ucast u) = ucast u - 0x61 + 0x41" by (simp add: priv_to_upper_def)
      have uu: "unat (ucast u - 0x61 + 0x41 :: u8) = unat u - 0x20"
        using l n lower by (simp add: unat_word_ariths unat_sub_le word_le_nat_alt)
      with l n lower have "0x41 \<le> (ucast u - 0x61 + 0x41 :: u8) \<and> (ucast u - 0x61 + 0x41 :: u8) \<le> 0x5A"
        by (auto simp: word_le_nat_alt)
      with s f show ?thesis
        using lower n uu by (simp add: up internal_case_apply_def word_unat_eq_iff unat_ucast_mod
            unat_word_ariths word_le_nat_alt)
    next
      case upper
      with k u have s: "internal_case_observe us 0 \<noteq> k_case_seen_lower"
        by (auto simp: case_observe split: if_splits)
      from upper n have "\<not> 0x61 \<le> (ucast u :: u8)" by (auto simp: word_le_nat_alt)
      with s show ?thesis by (simp add: priv_to_upper_def internal_case_apply_def)
    next
      case other
      with n have "\<not> (0x61 \<le> (ucast u :: u8) \<and> (ucast u :: u8) \<le> 0x7A)"
        "\<not> (0x41 \<le> (ucast u :: u8) \<and> (ucast u :: u8) \<le> 0x5A)" by (auto simp: word_le_nat_alt)
      then show ?thesis by (auto simp: priv_to_upper_def internal_case_apply_def)
    qed
  qed
  then show ?thesis by (simp add: list_eq_iff_nth_eq)
qed

lemma dot_scan_cases: "dot_scan us i d = d \<or> (\<exists>j < length us. dot_scan us i d = i + j \<and> us ! j = ucast chr_dot)"
proof (induction us arbitrary: i d)
  case (Cons u us)
  from Cons [of "Suc i" "if u = ucast chr_dot then i else d"] show ?case
    by (fastforce split: if_splits)
qed simp

lemma dot_index_cases:
  "internal_name_dot_index us = length us \<or>
    internal_name_dot_index us < length us \<and> us ! internal_name_dot_index us = ucast chr_dot"
  using dot_scan_cases [of us 0 "length us"] by (auto simp: internal_name_dot_index_def)

lemma upper_not_space: "c \<noteq> chr_space \<Longrightarrow> priv_to_upper c \<noteq> chr_space"
  by (auto simp: priv_to_upper_def word_unat_eq_iff unat_word_ariths unat_sub_le word_le_nat_alt)

lemma upper_not_kanji: "chr_space \<le> c \<Longrightarrow> priv_to_upper c \<noteq> k_dir_marker_kanji_e5"
  by (auto simp: priv_to_upper_def word_unat_eq_iff unat_word_ariths unat_sub_le word_le_nat_alt)

lemma upper_range: "chr_space \<le> c \<Longrightarrow> c \<le> 0x7F \<Longrightarrow> chr_space \<le> priv_to_upper c \<and> priv_to_upper c \<le> 0x7F"
  by (auto simp: priv_to_upper_def word_le_nat_alt unat_word_ariths unat_sub_le)

lemma takeWhile_pad: "list_all P xs \<Longrightarrow> \<not> P s \<Longrightarrow> takeWhile P (xs @ replicate k s) = xs"
  by (induction xs) (auto simp: takeWhile_replicate)

text \<open>The parts of a name that is in 8.3 form.\<close>

lemma name_83_parts:
  assumes is83: "internal_name_is_83 us" and legal: "list_all internal_unit_is_lfn_legal us"
  defines "dot \<equiv> internal_name_dot_index us"
  obtains bs es rest where "us = bs @ rest" and "bs = take dot us" and "es = drop (dot + 1) us"
    and "rest = [] \<and> es = [] \<and> dot = length us \<or> rest = ucast chr_dot # es \<and> dot < length us \<and> es \<noteq> []"
    and "bs \<noteq> []" and "length bs \<le> 8" and "length es \<le> 3"
    and "list_all (\<lambda>u. internal_unit_is_83_legal u \<and> internal_unit_is_lfn_legal u) (bs @ es)"
proof -
  have d: "0 < dot" "dot \<le> 8" "dot \<le> length us" "dot < length us \<Longrightarrow> length us - dot - 1 \<in> {1..3}"
    and ok: "\<And>i. i < length us \<Longrightarrow> i \<noteq> dot \<Longrightarrow> internal_unit_is_83_legal (us ! i)"
    using is83 dot_index_cases [of us]
    by (auto simp: internal_name_is_83_def Let_def dot_def list_all_iff not_le split: if_splits)
  have "u \<in> set (take dot us @ drop (dot + 1) us) \<Longrightarrow> internal_unit_is_83_legal u" for u
    using ok d(3) by (auto simp: in_set_conv_nth)
  moreover have "u \<in> set (take dot us @ drop (dot + 1) us) \<Longrightarrow> internal_unit_is_lfn_legal u" for u
    using legal by (auto simp: list_all_iff dest: in_set_takeD in_set_dropD)
  moreover have "drop dot us = us ! dot # drop (dot + 1) us" if "dot < length us"
    using Cons_nth_drop_Suc [OF that] by simp
  moreover have "us ! dot = ucast chr_dot" if "dot < length us"
    using dot_index_cases [of us] that by (auto simp: dot_def)
  ultimately show thesis
    using d append_take_drop_id [of dot us]
    by (cases "dot < length us"; intro that [of "take dot us" "drop dot us" "drop (dot + 1) us"])
      (auto simp: list_all_iff simp del: append_take_drop_id)
qed

lemma legal_83_byte:
  assumes "internal_unit_is_83_legal u" "internal_unit_is_lfn_legal u"
  shows "u \<le> 0x7F" and "(ucast u :: u8) \<noteq> chr_dot" and "(ucast u :: u8) \<le> 0x7F"
    and "(ucast u :: u8) \<noteq> chr_space" and "chr_space \<le> (ucast u :: u8)" and "(ucast u :: u8) \<noteq> chr_slash"
proof -
  from assms show u: "u \<le> 0x7F"
    by (auto simp: internal_unit_is_83_legal_def not_less split: if_splits)
  then have "unat u \<le> 127" by (simp add: word_le_nat_alt)
  then have n: "unat (ucast u :: u8) = unat u" by (simp add: unat_ucast_mod)
  from assms have "u \<noteq> 0x2E" "u \<noteq> 0x20" "u \<noteq> 0x2F" "0x20 \<le> u"
    by (auto simp: internal_unit_is_83_legal_def internal_unit_is_lfn_legal_def internal_unit_in_set_def
        sfn_extra_illegal_def lfn_illegal_def split: if_splits)
  with u n show "(ucast u :: u8) \<noteq> chr_dot" "(ucast u :: u8) \<le> 0x7F" "(ucast u :: u8) \<noteq> chr_space"
    "chr_space \<le> (ucast u :: u8)" "(ucast u :: u8) \<noteq> chr_slash"
    by (auto simp: word_unat_eq_iff word_le_nat_alt)
qed

lemma flags_split:
  "((if a then k_ntres_base_lower else 0) OR (if b then k_ntres_ext_lower else 0)) AND k_ntres_base_lower =
    (if a then k_ntres_base_lower else 0)"
  "((if a then k_ntres_base_lower else 0) OR (if b then k_ntres_ext_lower else 0)) AND k_ntres_ext_lower =
    (if b then k_ntres_ext_lower else 0)"
  by (simp_all split: if_split)

lemma short_name_back:
  assumes d: "priv_utf8_to_utf16 leaf k_lfn_write_max = Inr us"
    and legal: "list_all internal_unit_is_lfn_legal us" and is83: "internal_name_is_83 us"
    and kind: "internal_name_case_kind us = (k_name_kind_short, ntres)"
  shows "\<exists>name83. priv_path_to_83 leaf = Some name83 \<and> length name83 = 11 \<and>
    (chr_space \<le> name83 ! 0 \<and> name83 ! 0 \<le> 0x7F) \<and> priv_83_to_str name83 ntres = leaf"
proof -
  obtain bs es rest where p: "us = bs @ rest" "bs = take (internal_name_dot_index us) us"
    "es = drop (internal_name_dot_index us + 1) us"
    "rest = [] \<and> es = [] \<and> internal_name_dot_index us = length us \<or>
      rest = ucast chr_dot # es \<and> internal_name_dot_index us < length us \<and> es \<noteq> []"
    "bs \<noteq> []" "length bs \<le> 8" "length es \<le> 3"
    "list_all (\<lambda>u. internal_unit_is_83_legal u \<and> internal_unit_is_lfn_legal u) (bs @ es)"
    by (rule name_83_parts [OF is83 legal])
  let ?b = "map ucast bs :: bytes" and ?e = "map ucast es :: bytes" and ?r = "map ucast rest :: bytes"
  have lb: "list_all (\<lambda>c. c \<noteq> chr_dot \<and> c \<le> 0x7F \<and> c \<noteq> chr_space \<and> chr_space \<le> c \<and> c \<noteq> chr_slash) (?b @ ?e)"
    using p(8) by (auto simp: list_all_iff legal_83_byte)
  have a: "list_all (\<lambda>u. u \<le> 0x7F) bs" "list_all (\<lambda>u. u \<le> 0x7F) es"
    using p(8) by (auto simp: list_all_iff legal_83_byte)
  then have "list_all (\<lambda>u. u \<le> 0x7F) us" using p(1,4) by auto
  from classify_ascii [OF d this] have leaf: "leaf = ?b @ ?r" by (simp add: p(1))
  have r: "?r = [] \<and> ?e = [] \<or> ?r = chr_dot # ?e" using p(4) by auto
  let ?n83 = "(map priv_to_upper ?b @ replicate (8 - length ?b) chr_space) @
    (map priv_to_upper ?e @ replicate (3 - length ?e) chr_space)"
  have "hd ?b \<noteq> chr_slash" using p(5) lb by (cases bs) auto
  then have pk: "priv_path_to_83 leaf = Some ?n83"
    unfolding leaf using lb p(5-7) r
    by (intro path_to_83_out) (auto simp: list_all_iff)
  have obs: "internal_case_observe bs 0 \<noteq> k_case_seen_mixed" "internal_case_observe es 0 \<noteq> k_case_seen_mixed"
    and nt: "ntres = (if internal_case_observe bs 0 = k_case_seen_lower then k_ntres_base_lower else 0) OR
      (if internal_case_observe es 0 = k_case_seen_lower then k_ntres_ext_lower else 0)"
    using kind p(2-4) by (auto simp: internal_name_case_kind_def Let_def split: if_splits)
  have tb: "takeWhile (\<lambda>c. c \<noteq> chr_space) (take 8 ?n83) = map priv_to_upper ?b"
    using p(6) lb by (simp add: takeWhile_pad list_all_iff upper_not_space)
  have te: "takeWhile (\<lambda>c. c \<noteq> chr_space) (take 3 (drop 8 ?n83)) = map priv_to_upper ?e"
    using p(6,7) lb by (simp add: takeWhile_pad list_all_iff upper_not_space)
  have ex: "list_ex (\<lambda>c. c \<noteq> chr_space) (take 3 (drop 8 ?n83)) \<longleftrightarrow> es \<noteq> []"
    using p(6,7) lb by (cases es) (auto simp: list_ex_iff list_all_iff upper_not_space)
  have k5: "?n83 ! 0 \<noteq> k_dir_marker_kanji_e5"
    using p(5) lb by (cases bs) (auto simp: upper_not_kanji)
  have mb: "map (\<lambda>c. internal_case_apply c (ntres AND k_ntres_base_lower)) (map priv_to_upper ?b) = ?b"
    using case_apply_back [OF a(1) obs(1), of k_ntres_base_lower]
    unfolding nt flags_split by (simp add: comp_def)
  have me: "map (\<lambda>c. internal_case_apply c (ntres AND k_ntres_ext_lower)) (map priv_to_upper ?e) = ?e"
    using case_apply_back [OF a(2) obs(2), of k_ntres_ext_lower]
    unfolding nt flags_split by (simp add: comp_def)
  have "priv_83_to_str ?n83 ntres = leaf"
    unfolding priv_83_to_str_def Let_def tb te ex mb me leaf using k5 r p(4) by auto
  moreover have "length ?n83 = 11" using p(6,7) by simp
  moreover have "chr_space \<le> ?n83 ! 0 \<and> ?n83 ! 0 \<le> 0x7F"
    using p(5) lb by (cases bs) (auto simp: upper_range)
  ultimately show ?thesis using pk by blast
qed

text \<open>
  C20. A file name classified as short is stored without loss: the eleven bytes of the 8.3 field and the
  two case bits of \<open>DIR_NTRes\<close> print as exactly the name the caller gave, case included.
\<close>

theorem short_name_roundtrip:
  assumes "priv_name_classify leaf x = (k_name_kind_short, units, name83, ntres)"
  shows "priv_83_to_str name83 ntres = leaf \<and> length name83 = k_max_8_3_name"
proof -
  from assms have d: "priv_utf8_to_utf16 leaf k_lfn_write_max = Inr units"
    and legal: "list_all internal_unit_is_lfn_legal units" and is83: "internal_name_is_83 units"
    and p: "priv_path_to_83 leaf = Some name83"
    and kind: "internal_name_case_kind units = (k_name_kind_short, ntres)"
    by (auto simp: priv_name_classify_def split: sum.splits if_splits option.splits prod.splits)
  from short_name_back [OF d legal is83 kind] p show ?thesis by simp
qed

theorem short_name_roundtrip_witness:
  "priv_name_classify [0x72, 0x65, 0x61, 0x64, 0x2E, 0x54, 0x58, 0x54] [] =
     (k_name_kind_short, [0x72, 0x65, 0x61, 0x64, 0x2E, 0x54, 0x58, 0x54],
      [0x52, 0x45, 0x41, 0x44, 0x20, 0x20, 0x20, 0x20, 0x54, 0x58, 0x54], k_ntres_base_lower) \<and>
   priv_83_to_str [0x52, 0x45, 0x41, 0x44, 0x20, 0x20, 0x20, 0x20, 0x54, 0x58, 0x54] k_ntres_base_lower =
     [0x72, 0x65, 0x61, 0x64, 0x2E, 0x54, 0x58, 0x54]"
proof -
  have c: "priv_name_classify [0x72, 0x65, 0x61, 0x64, 0x2E, 0x54, 0x58, 0x54] [] =
     (k_name_kind_short, [0x72, 0x65, 0x61, 0x64, 0x2E, 0x54, 0x58, 0x54],
      [0x52, 0x45, 0x41, 0x44, 0x20, 0x20, 0x20, 0x20, 0x54, 0x58, 0x54], k_ntres_base_lower)"
    by code_simp
  with short_name_roundtrip [OF c] show ?thesis by blast
qed

end
