(* ===== verification/Fat_Lfn.thy ===== *)
theory Fat_Lfn
  imports Fat_Name Upcase
begin

text \<open>
  \<^verbatim>\<open>ra8_fs_lfn_abi.zig\<close>: the VFAT long-name slots. The checksum that binds a chain of slots to its
  8.3 entry, the layout of one slot, and the reassembly of a chain while a directory is scanned.
  The main lemma is the round trip: the slots the writer lays out for a name, fed to the reader in
  directory order, give the name back.
\<close>

abbreviation (input) k_lfn_chars_per_ent :: nat where "k_lfn_chars_per_ent \<equiv> 13"
abbreviation (input) k_lfn_max_entries :: nat where "k_lfn_max_entries \<equiv> 19"
abbreviation (input) k_lfn_seq_last :: u32 where "k_lfn_seq_last \<equiv> 0x40"
abbreviation (input) k_lfn_seq_order_mask :: u8 where "k_lfn_seq_order_mask \<equiv> 0x1F"
abbreviation (input) k_lfn_unicode_pad :: u16 where "k_lfn_unicode_pad \<equiv> 0xFFFF"
abbreviation (input) k_lfn_off_seq :: nat where "k_lfn_off_seq \<equiv> 0"
abbreviation (input) k_lfn_off_checksum :: nat where "k_lfn_off_checksum \<equiv> 13"

record lfn_state =
  ls_units :: "u16 list"
  ls_checksum :: u8
  ls_have :: bool

definition char_off :: "nat list" where
  "char_off = [1, 3, 5, 7, 9, 14, 16, 18, 20, 22, 24, 28, 30]"

definition priv_sfn_checksum :: "bytes \<Rightarrow> u8" where
  "priv_sfn_checksum name83 =
     fold (\<lambda>ch sum. push_bit 7 (sum AND 1) + drop_bit 1 sum + ch) (take k_dir_name_field_len name83) 0"

text \<open>The unit at position \<open>pos\<close> of a chain: the name, one terminator, padding.\<close>

definition lfn_slot_unit :: "u16 list \<Rightarrow> nat \<Rightarrow> nat \<Rightarrow> u16" where
  "lfn_slot_unit name nlen pos =
     (if pos < nlen then name ! pos else if pos = nlen then 0 else k_lfn_unicode_pad)"

definition priv_lfn_fill_slot :: "u16 list \<Rightarrow> nat \<Rightarrow> nat \<Rightarrow> bool \<Rightarrow> u8 \<Rightarrow> bytes" where
  "priv_lfn_fill_slot name nlen order is_last csum =
     (let ent = (replicate k_ra8_fs_dir_entry_bytes 0)
            [k_lfn_off_seq := ucast (of_nat order OR (if is_last then k_lfn_seq_last else 0)),
             k_dir_off_attr := k_ra8_fs_attr_lfn, k_lfn_off_checksum := csum];
          base = (order - 1) * k_lfn_chars_per_ent
      in fold (\<lambda>(i, off) e. priv_wr16 e off (lfn_slot_unit name nlen (base + i)))
           (enumerate 0 char_off) ent)"

definition priv_lfn_reset :: lfn_state where
  "priv_lfn_reset = \<lparr>ls_units = replicate k_lfn_write_max 0, ls_checksum = 0, ls_have = False\<rparr>"

text \<open>The copy of a slot's units; a terminator or padding ends the group.\<close>

fun lfn_add_loop :: "bytes \<Rightarrow> nat list \<Rightarrow> nat \<Rightarrow> u16 list \<Rightarrow> u16 list" where
  "lfn_add_loop ent [] pos units = units"
| "lfn_add_loop ent (off # offs) pos units =
     (let val = priv_rd16 ent off in
      if val = 0 \<or> val = k_lfn_unicode_pad then units[pos := 0]
      else lfn_add_loop ent offs (pos + 1) (units[pos := val]))"

definition priv_lfn_add :: "lfn_state \<Rightarrow> bytes \<Rightarrow> lfn_state" where
  "priv_lfn_add s ent =
     (let order = unat (ent ! k_lfn_off_seq AND k_lfn_seq_order_mask) in
      if order < 1 \<or> order > k_lfn_max_entries then s
      else \<lparr>ls_units = lfn_add_loop ent char_off ((order - 1) * k_lfn_chars_per_ent) (ls_units s),
            ls_checksum = ent ! k_lfn_off_checksum, ls_have = True\<rparr>)"

definition priv_lfn_units_for :: "lfn_state \<Rightarrow> bytes \<Rightarrow> u16 list option" where
  "priv_lfn_units_for s name83 =
     (if \<not> ls_have s \<or> ls_units s ! 0 = 0 then None
      else if ls_checksum s \<noteq> priv_sfn_checksum name83 then None
      else Some (takeWhile (\<lambda>u. u \<noteq> 0) (ls_units s)))"

section \<open>Round trip\<close>

lemma length_fill_slot: "length (priv_lfn_fill_slot name nlen order is_last csum) = 32"
  by (simp add: priv_lfn_fill_slot_def char_off_def Let_def)

lemma fill_slot_units:
  assumes "i < 13"
  shows "priv_rd16 (priv_lfn_fill_slot name nlen order is_last csum) (char_off ! i) =
    lfn_slot_unit name nlen ((order - 1) * 13 + i)"
proof -
  have i: "i = 0 \<or> i = 1 \<or> i = 2 \<or> i = 3 \<or> i = 4 \<or> i = 5 \<or> i = 6 \<or> i = 7 \<or> i = 8 \<or> i = 9 \<or> i = 10 \<or> i = 11 \<or> i = 12"
    using assms by presburger
  then show ?thesis
    by (elim disjE) (simp_all add: priv_lfn_fill_slot_def char_off_def Let_def codec rd16_wr16_other eval_nat_numeral)
qed

lemma fill_slot_bytes:
  assumes "0 < order" "order \<le> 19"
  shows "unat (priv_lfn_fill_slot name nlen order is_last csum ! 0 AND 0x1F) = order"
    and "priv_lfn_fill_slot name nlen order is_last csum ! 13 = csum"
    and "priv_lfn_fill_slot name nlen order is_last csum ! 11 = k_ra8_fs_attr_lfn"
    and "priv_lfn_fill_slot name nlen order is_last csum ! 0 \<noteq> k_dir_marker_free_perm"
    and "priv_lfn_fill_slot name nlen order is_last csum ! 0 \<noteq> k_dir_marker_free_used"
proof -
  have b0: "priv_lfn_fill_slot name nlen order is_last csum ! 0 =
      ucast (of_nat order OR (if is_last then k_lfn_seq_last else 0))"
    by (simp add: priv_lfn_fill_slot_def char_off_def Let_def nth_wr16)
  have o: "order = 1 \<or> order = 2 \<or> order = 3 \<or> order = 4 \<or> order = 5 \<or> order = 6 \<or> order = 7 \<or> order = 8
      \<or> order = 9 \<or> order = 10 \<or> order = 11 \<or> order = 12 \<or> order = 13 \<or> order = 14 \<or> order = 15 \<or> order = 16
      \<or> order = 17 \<or> order = 18 \<or> order = 19" using assms by presburger
  then show "unat (priv_lfn_fill_slot name nlen order is_last csum ! 0 AND 0x1F) = order"
    "priv_lfn_fill_slot name nlen order is_last csum ! 0 \<noteq> k_dir_marker_free_perm"
    "priv_lfn_fill_slot name nlen order is_last csum ! 0 \<noteq> k_dir_marker_free_used"
    unfolding b0 by (cases is_last; elim disjE; simp)+
  show "priv_lfn_fill_slot name nlen order is_last csum ! 13 = csum"
    "priv_lfn_fill_slot name nlen order is_last csum ! 11 = k_ra8_fs_attr_lfn"
    by (simp_all add: priv_lfn_fill_slot_def char_off_def Let_def nth_wr16)
qed

text \<open>The chain of slots of a name, in directory order: the last group first.\<close>

definition lfn_slots_needed :: "nat \<Rightarrow> nat" where
  "lfn_slots_needed nlen = (nlen + k_lfn_chars_per_ent - 1) div k_lfn_chars_per_ent"

definition lfn_chain :: "u16 list \<Rightarrow> u8 \<Rightarrow> bytes list" where
  "lfn_chain name csum =
     (let k = lfn_slots_needed (length name)
      in map (\<lambda>i. priv_lfn_fill_slot name (length name) (k - i) (i = 0) csum) [0..<k])"

definition lfn_storable :: "u16 list \<Rightarrow> bool" where
  "lfn_storable name \<longleftrightarrow> name \<noteq> [] \<and> length name \<le> k_lfn_write_max \<and>
     0 \<notin> set name \<and> k_lfn_unicode_pad \<notin> set name"

lemma add_loop_units:
  assumes "0 \<notin> set name" "k_lfn_unicode_pad \<notin> set name" and "pos + length offs \<le> length units"
    and "\<And>i. i < length offs \<Longrightarrow> priv_rd16 ent (offs ! i) = lfn_slot_unit name (length name) (pos + i)"
    and "\<And>p. length name \<le> p \<Longrightarrow> p < length units \<Longrightarrow> units ! p = 0"
  shows "lfn_add_loop ent offs pos units = map (\<lambda>p. if pos \<le> p \<and> p < pos + length offs \<and> p < length name
    then name ! p else units ! p) [0..<length units]"
  using assms(3-)
proof (induction offs arbitrary: pos units)
  case Nil
  then show ?case by (auto intro!: nth_equalityI)
next
  case (Cons off offs)
  have v: "priv_rd16 ent off = lfn_slot_unit name (length name) pos" using Cons.prems(2) [of 0] by simp
  show ?case
  proof (cases "pos < length name")
    case True
    then have "name ! pos \<noteq> 0" "name ! pos \<noteq> k_lfn_unicode_pad" using assms(1,2) nth_mem by metis+
    with True v have n: "priv_rd16 ent off = name ! pos" "name ! pos \<noteq> 0" "name ! pos \<noteq> k_lfn_unicode_pad"
      by (auto simp: lfn_slot_unit_def)
    have "lfn_add_loop ent offs (pos + 1) (units[pos := name ! pos]) = map (\<lambda>p. if pos + 1 \<le> p \<and>
        p < pos + 1 + length offs \<and> p < length name then name ! p else units[pos := name ! pos] ! p)
        [0..<length (units[pos := name ! pos])]"
    proof (rule Cons.IH)
      show "pos + 1 + length offs \<le> length (units[pos := name ! pos])" using Cons.prems(1) by simp
      show "priv_rd16 ent (offs ! i) = lfn_slot_unit name (length name) (pos + 1 + i)" if "i < length offs" for i
        using Cons.prems(2) [of "Suc i"] that by simp
      show "units[pos := name ! pos] ! p = 0" if "length name \<le> p" "p < length (units[pos := name ! pos])" for p
        using Cons.prems(3) that True by simp
    qed
    also have "\<dots> = map (\<lambda>p. if pos \<le> p \<and> p < pos + length (off # offs) \<and> p < length name
        then name ! p else units ! p) [0..<length units]"
      using True Cons.prems(1) by (auto simp: nth_list_update)
    finally show ?thesis using n by (simp add: Let_def)
  next
    case False
    then have "units[pos := 0] = units" "priv_rd16 ent off = 0 \<or> priv_rd16 ent off = k_lfn_unicode_pad"
      using Cons.prems(1,3) v by (auto simp: lfn_slot_unit_def list_update_same_conv)
    moreover have "units = map (\<lambda>p. if pos \<le> p \<and> p < pos + length (off # offs) \<and> p < length name
        then name ! p else units ! p) [0..<length units]"
      using False by (auto intro!: nth_equalityI)
    ultimately show ?thesis by (auto simp: Let_def)
  qed
qed

lemma lfn_add_slot:
  assumes "unat (ent ! 0 AND 0x1F) = order" "0 < order" "order \<le> 19"
  shows "priv_lfn_add s ent = \<lparr>ls_units = lfn_add_loop ent char_off ((order - 1) * 13) (ls_units s),
    ls_checksum = ent ! 13, ls_have = True\<rparr>"
  using assms by (simp add: priv_lfn_add_def)

lemma slots_needed_bounds:
  assumes "0 < nlen" "nlen \<le> 247"
  shows "0 < lfn_slots_needed nlen" "lfn_slots_needed nlen \<le> 19" "nlen \<le> lfn_slots_needed nlen * 13"
    "(lfn_slots_needed nlen - 1) * 13 < nlen"
  using assms unfolding lfn_slots_needed_def by presburger+

lemma lfn_chain_fold:
  fixes name :: "u16 list"
  assumes st: "lfn_storable name" and j: "0 < j" "j \<le> lfn_slots_needed (length name)"
  defines "k \<equiv> lfn_slots_needed (length name)"
  shows "fold (\<lambda>ent s. priv_lfn_add s ent) (take j (lfn_chain name csum)) priv_lfn_reset =
    \<lparr>ls_units = map (\<lambda>p. if (k - j) * 13 \<le> p \<and> p < length name then name ! p else 0) [0..<247],
      ls_checksum = csum, ls_have = True\<rparr>"
  using j
proof (induction j)
  case (Suc j)
  have len: "0 < length name" "length name \<le> 247" using st by (auto simp: lfn_storable_def)
  note b = slots_needed_bounds [OF len, folded k_def]
  let ?ent = "priv_lfn_fill_slot name (length name) (k - j) (j = 0) csum"
  let ?f = "\<lambda>j. fold (\<lambda>ent s. priv_lfn_add s ent) (take j (lfn_chain name csum)) priv_lfn_reset"
  let ?u = "\<lambda>j. map (\<lambda>p. if (k - j) * 13 \<le> p \<and> p < length name then name ! p else 0) [0..<247 :: nat]"
  have kj: "0 < k - j" "k - j \<le> 19" "k - Suc j = k - j - 1" using Suc.prems(2) b by (auto simp: k_def)
  have units: "ls_units (?f j) = ?u j"
  proof (cases j)
    case 0
    with b(3) have "?u j = replicate 247 0" by (intro nth_equalityI) auto
    with 0 show ?thesis by (simp add: priv_lfn_reset_def)
  next
    case (Suc i)
    with Suc.IH Suc.prems show ?thesis by simp
  qed
  have "take (Suc j) (lfn_chain name csum) = take j (lfn_chain name csum) @ [?ent]"
    using Suc.prems(2) by (simp add: lfn_chain_def k_def Let_def take_Suc_conv_app_nth)
  then have "?f (Suc j) = priv_lfn_add (?f j) ?ent" by simp
  also have "\<dots> = \<lparr>ls_units = lfn_add_loop ?ent char_off ((k - j - 1) * 13) (?u j), ls_checksum = csum, ls_have = True\<rparr>"
    using kj fill_slot_bytes [OF kj(1,2), of name "length name" "j = 0" csum]
    by (simp add: lfn_add_slot units)
  also have "lfn_add_loop ?ent char_off ((k - j - 1) * 13) (?u j) = ?u (Suc j)"
  proof -
    have lo: "length char_off = 13" by (simp add: char_off_def)
    have "lfn_add_loop ?ent char_off ((k - j - 1) * 13) (?u j) =
      map (\<lambda>p. if (k - j - 1) * 13 \<le> p \<and> p < (k - j - 1) * 13 + length char_off \<and> p < length name
        then name ! p else ?u j ! p) [0..<length (?u j)]"
    proof (rule add_loop_units)
      show "0 \<notin> set name" "k_lfn_unicode_pad \<notin> set name" using st by (auto simp: lfn_storable_def)
      show "(k - j - 1) * 13 + length char_off \<le> length (?u j)" using kj by (simp add: lo)
      show "priv_rd16 ?ent (char_off ! i) = lfn_slot_unit name (length name) ((k - j - 1) * 13 + i)"
        if "i < length char_off" for i
        using that by (simp add: fill_slot_units lo)
      show "?u j ! p = 0" if "length name \<le> p" "p < length (?u j)" for p using that by simp
    qed
    also have "\<dots> = ?u (Suc j)"
    proof -
      have "(k - j - 1) * 13 + 13 = (k - j) * 13" using kj by (cases "k - j") auto
      then show ?thesis unfolding lo kj(3) by (auto intro!: map_cong)
    qed
    finally show ?thesis .
  qed
  finally show ?case .
qed simp

lemma lfn_chain_units:
  assumes "lfn_storable name"
  shows "priv_lfn_units_for (fold (\<lambda>ent s. priv_lfn_add s ent)
      (lfn_chain name (priv_sfn_checksum name83)) priv_lfn_reset) name83 = Some name"
proof -
  have len: "0 < length name" "length name \<le> 247" using assms by (auto simp: lfn_storable_def)
  define k where "k = lfn_slots_needed (length name)"
  have "take k (lfn_chain name (priv_sfn_checksum name83)) = lfn_chain name (priv_sfn_checksum name83)"
    by (simp add: lfn_chain_def k_def Let_def)
  with lfn_chain_fold [OF assms, of k "priv_sfn_checksum name83"] slots_needed_bounds [OF len]
  have f: "fold (\<lambda>ent s. priv_lfn_add s ent) (lfn_chain name (priv_sfn_checksum name83)) priv_lfn_reset =
    \<lparr>ls_units = map (\<lambda>p. if p < length name then name ! p else 0) [0..<247],
      ls_checksum = priv_sfn_checksum name83, ls_have = True\<rparr>"
    by (simp add: k_def)
  have "map (\<lambda>p. if p < length name then name ! p else 0) [0..<247] = name @ replicate (247 - length name) 0"
    using len by (intro nth_equalityI) (auto simp: nth_append)
  moreover have "takeWhile (\<lambda>u. u \<noteq> 0) (name @ replicate (247 - length name) 0) = name"
    using assms by (intro takeWhile_pad) (auto simp: lfn_storable_def list_all_iff)
  moreover have "name ! 0 \<noteq> 0" using assms nth_mem [OF len(1)] unfolding lfn_storable_def by metis
  ultimately show ?thesis
    unfolding f priv_lfn_units_for_def using len by (simp add: nth_append)
qed

text \<open>
  C21. A long name survives storage: the slots the writer lays out for a name of at most 247 UTF-16 units
  (none of them 0 or 0xFFFF), fed to the reader in directory order after a reset, give the name back to
  the 8.3 entry whose checksum they carry.
\<close>

theorem lfn_roundtrip:
  assumes "lfn_storable name"
  shows "priv_lfn_units_for (fold (\<lambda>ent s. priv_lfn_add s ent)
      (lfn_chain name (priv_sfn_checksum name83)) priv_lfn_reset) name83 = Some name"
  using assms by (rule lfn_chain_units)

theorem lfn_roundtrip_witness:
  "priv_lfn_units_for (fold (\<lambda>ent s. priv_lfn_add s ent)
      (lfn_chain [0x61, 0x20, 0x62] (priv_sfn_checksum (replicate 11 0x41))) priv_lfn_reset) (replicate 11 0x41) =
    Some [0x61, 0x20, 0x62]"
  by (rule lfn_roundtrip) (simp add: lfn_storable_def)

text \<open>
  The unit 0xFFFF passes the legality check for long names, but a stored name that contains it is cut
  there: the reader takes it for padding.
\<close>

lemma lfn_pad_unit_lost:
  "internal_unit_is_lfn_legal k_lfn_unicode_pad \<and>
   priv_lfn_units_for (fold (\<lambda>ent s. priv_lfn_add s ent)
      (lfn_chain [0x61, k_lfn_unicode_pad, 0x62] (priv_sfn_checksum (replicate 11 0x41))) priv_lfn_reset)
      (replicate 11 0x41) = Some [0x61]"
  by code_simp

end
