(* ===== verification/Fat_Dir_Walk.thy ===== *)
theory Fat_Dir_Walk
  imports Fat_Lfn Fat_Chain
begin

text \<open>
  The sector-level walk over a FAT directory (\<^verbatim>\<open>ra8_fs_fat_name.c\<close>, the second half) and the two
  lookups by name, 8.3 (\<open>priv_dir_find\<close>) and long (\<^verbatim>\<open>ra8_fs_fat_lfn.c\<close>).

  Every scan of a directory is the same loop: read the sector of the cursor, look at its entries, step
  to the next sector. \<open>dir_scan\<close> is that loop with the per-sector work as a parameter. The loop is
  given \<open>dir_fuel\<close> iterations; \<open>ends_dir_scan\<close> of \<open>Loop_Ends\<close> shows that it never uses them up, because the
  cursor counts the links it follows.
\<close>

section \<open>The cursor\<close>

record dir_walk =
  w_is_root_fixed :: bool
  w_fixed_remaining :: u32
  w_cluster :: u32
  w_sector_in_cluster :: u32
  w_cur_lba :: u64
  w_entry_idx :: u32
  w_cluster_hops :: u32

record dir_loc =
  loc_is_root :: bool
  loc_cluster :: u32

definition root_dir_sectors :: "'w mount \<Rightarrow> u32" where
  "root_dir_sectors m =
     (m_root_entries m * of_nat k_ra8_fs_dir_entry_bytes + (priv_bps m - 1)) div priv_bps m"

definition internal_dir_walk_init_root :: "'w mount \<Rightarrow> dir_walk" where
  "internal_dir_walk_init_root m =
     (if m_type m = k_ra8_fs_type_fat32 then
        \<lparr>w_is_root_fixed = False, w_fixed_remaining = 0, w_cluster = m_root_cluster m, w_sector_in_cluster = 0,
         w_cur_lba = priv_cluster_to_lba m (m_root_cluster m), w_entry_idx = 0, w_cluster_hops = 0\<rparr>
      else
        \<lparr>w_is_root_fixed = True, w_fixed_remaining = root_dir_sectors m, w_cluster = 0, w_sector_in_cluster = 0,
         w_cur_lba = m_first_root_lba m, w_entry_idx = 0, w_cluster_hops = 0\<rparr>)"

definition priv_dir_walk_init_loc :: "'w mount \<Rightarrow> dir_loc \<Rightarrow> dir_walk" where
  "priv_dir_walk_init_loc m loc =
     (if loc_is_root loc then internal_dir_walk_init_root m
      else \<lparr>w_is_root_fixed = False, w_fixed_remaining = 0, w_cluster = loc_cluster loc, w_sector_in_cluster = 0,
            w_cur_lba = priv_cluster_to_lba m (loc_cluster loc), w_entry_idx = 0, w_cluster_hops = 0\<rparr>)"

text \<open>
  One step of the cursor, on the pair of the driver state and the cursor: what the C stores through the
  cursor pointer before a failure is kept. The result is \<open>out_eod\<close>.
\<close>

definition walk_next :: "'w mount \<Rightarrow> ('w fs \<times> dir_walk, bool) op" where
  "walk_next m = (\<lambda>(s, w).
     if w_is_root_fixed w then
       (if w_fixed_remaining w \<le> 1 then (Inr True, (s, w))
        else (Inr False, (s, w\<lparr>w_fixed_remaining := w_fixed_remaining w - 1, w_cur_lba := w_cur_lba w + 1,
                               w_entry_idx := 0\<rparr>)))
     else let w1 = w\<lparr>w_sector_in_cluster := w_sector_in_cluster w + 1\<rparr> in
       if w_sector_in_cluster w1 \<ge> m_sectors_per_cluster m then
         (case priv_fat_get m (w_cluster w1) s of
            (Inl err, s') \<Rightarrow> (Inl err, (s', w1))
          | (Inr nxt, s') \<Rightarrow>
              if priv_is_eoc m nxt then (Inr True, (s', w1))
              else let w2 = w1\<lparr>w_cluster_hops := w_cluster_hops w1 + 1\<rparr> in
                if w_cluster_hops w2 > m_count_of_clusters m then (Inl k_ra8_err_protocol_error, (s', w2))
                else (Inr False, (s', w2\<lparr>w_cluster := nxt, w_sector_in_cluster := 0,
                        w_cur_lba := priv_cluster_to_lba m nxt, w_entry_idx := 0\<rparr>)))
       else (Inr False, (s, w1\<lparr>w_cur_lba := w_cur_lba w1 + 1, w_entry_idx := 0\<rparr>)))"

text \<open>The same step for the scans, which return at once when it fails and so never look at that cursor.\<close>

definition priv_dir_walk_next_sector :: "'w mount \<Rightarrow> dir_walk \<Rightarrow> ('w fs, bool \<times> dir_walk) op" where
  "priv_dir_walk_next_sector m w = (\<lambda>s. case walk_next m (s, w) of
     (Inl err, (s', _)) \<Rightarrow> (Inl err, s') | (Inr eod, (s', w')) \<Rightarrow> (Inr (eod, w'), s'))"

text \<open>
  The scanning loop. \<open>body\<close> is what the loop does with the sector it read: go on with a new loop state
  (\<open>Inl\<close>) or return (\<open>Inr\<close>, an error code or a result). \<open>fin\<close> is what the function returns at the end of
  the directory.
\<close>

primrec dir_scan :: "'w mount \<Rightarrow> (dir_walk \<Rightarrow> bytes \<Rightarrow> 'st \<Rightarrow> 'st + (ra8_err + 'r)) \<Rightarrow>
    ra8_err \<Rightarrow> nat \<Rightarrow> dir_walk \<Rightarrow> 'st \<Rightarrow> ('w fs, 'r) op" where
  "dir_scan m body fin 0 w st = throwE out_of_fuel"
| "dir_scan m body fin (Suc n) w st =
     bindE (priv_read_sector m (w_cur_lba w)) (\<lambda>buf.
       case body w buf st of
         Inr r \<Rightarrow> returnR r
       | Inl st' \<Rightarrow> bindE (priv_dir_walk_next_sector m w) (\<lambda>(eod, w').
           if eod then throwE fin else dir_scan m body fin n w' st'))"

definition dir_fuel :: "'w mount \<Rightarrow> dir_walk \<Rightarrow> nat" where
  "dir_fuel m w = (if w_is_root_fixed w then Suc (unat (w_fixed_remaining w))
     else (unat (m_count_of_clusters m) + 1) * (unat (m_sectors_per_cluster m) + 1))"

text \<open>The entry at index \<open>e\<close> of a sector buffer.\<close>

abbreviation dir_ent :: "bytes \<Rightarrow> nat \<Rightarrow> bytes" where
  "dir_ent buf e \<equiv> take k_ra8_fs_dir_entry_bytes (drop (e * k_ra8_fs_dir_entry_bytes) buf)"

section \<open>Lookup of an 8.3 name\<close>

record dir_hit =
  hit_lba :: u64
  hit_off :: nat
  hit_entry :: bytes

primrec dir_find_entries :: "bytes \<Rightarrow> bytes \<Rightarrow> u64 \<Rightarrow> nat list \<Rightarrow> unit + (ra8_err + dir_hit)" where
  "dir_find_entries name83 buf lba [] = Inl ()"
| "dir_find_entries name83 buf lba (e # es) =
     (let ent = dir_ent buf e in
      if ent ! k_dir_off_name = k_dir_marker_free_perm then Inr (Inl k_ra8_err_not_found)
      else if ent ! k_dir_off_name = k_dir_marker_free_used then dir_find_entries name83 buf lba es
      else if ent ! k_dir_off_attr = k_ra8_fs_attr_lfn then dir_find_entries name83 buf lba es
      else if priv_byte_equal ent 0 name83 0 k_dir_name_field_len then
        Inr (Inr \<lparr>hit_lba = lba, hit_off = e * k_ra8_fs_dir_entry_bytes, hit_entry = ent\<rparr>)
      else dir_find_entries name83 buf lba es)"

definition priv_dir_find :: "'w mount \<Rightarrow> dir_loc \<Rightarrow> bytes \<Rightarrow> ('w fs, dir_hit) op" where
  "priv_dir_find m loc name83 =
     (let w = priv_dir_walk_init_loc m loc in
      dir_scan m (\<lambda>w buf _. dir_find_entries name83 buf (w_cur_lba w) [0..<unat (priv_dir_eps m)])
        k_ra8_err_not_found (dir_fuel m w) w ())"

section \<open>Lookup of a long name\<close>

primrec internal_dir_find_long_sector ::
    "u16 list \<Rightarrow> bytes \<Rightarrow> u64 \<Rightarrow> nat list \<Rightarrow> lfn_state \<Rightarrow> lfn_state + (ra8_err + dir_hit)" where
  "internal_dir_find_long_sector needle buf lba [] lfn = Inl lfn"
| "internal_dir_find_long_sector needle buf lba (e # es) lfn =
     (let ent = dir_ent buf e in
      if ent ! k_dir_off_name = k_dir_marker_free_perm then Inr (Inl k_ra8_err_not_found)
      else if ent ! k_dir_off_name = k_dir_marker_free_used then
        internal_dir_find_long_sector needle buf lba es priv_lfn_reset
      else if ent ! k_dir_off_attr = k_ra8_fs_attr_lfn then
        internal_dir_find_long_sector needle buf lba es (priv_lfn_add lfn ent)
      else case priv_lfn_units_for lfn ent of
          Some lunits \<Rightarrow>
            if priv_utf16_ieq needle lunits then
              Inr (Inr \<lparr>hit_lba = lba, hit_off = e * k_ra8_fs_dir_entry_bytes, hit_entry = ent\<rparr>)
            else internal_dir_find_long_sector needle buf lba es priv_lfn_reset
        | None \<Rightarrow> internal_dir_find_long_sector needle buf lba es priv_lfn_reset)"

definition priv_dir_find_long :: "'w mount \<Rightarrow> dir_loc \<Rightarrow> bytes \<Rightarrow> ('w fs, dir_hit) op" where
  "priv_dir_find_long m loc want =
     (let want_leaf = (case want of c # cs \<Rightarrow> if c = chr_slash then cs else want | [] \<Rightarrow> want) in
      case priv_utf8_to_utf16 want_leaf k_lfn_write_max of
        Inl nerr \<Rightarrow> throwE (if nerr = k_ra8_err_no_mem then k_ra8_err_not_found else nerr)
      | Inr needle \<Rightarrow>
          let w = priv_dir_walk_init_loc m loc in
          dir_scan m (\<lambda>w buf. internal_dir_find_long_sector needle buf (w_cur_lba w) [0..<unat (priv_dir_eps m)])
            k_ra8_err_not_found (dir_fuel m w) w priv_lfn_reset)"

definition priv_dir_lookup_any :: "'w mount \<Rightarrow> dir_loc \<Rightarrow> bytes \<Rightarrow> ('w fs, dir_hit) op" where
  "priv_dir_lookup_any m loc leaf =
     attemptE (case priv_path_to_83 leaf of
         Some name83 \<Rightarrow> priv_dir_find m loc name83
       | None \<Rightarrow> throwE k_ra8_err_not_found) (\<lambda>r.
       if r = Inl k_ra8_err_not_found then priv_dir_find_long m loc leaf else returnR r)"

end
