(* ===== verification/Fat_Time.thy ===== *)
theory Fat_Time
  imports Fat_Bytes "HOL-Library.Signed_Division"
begin

text \<open>
  \<^verbatim>\<open>ra8_fs_fat_time.c\<close>: reading the bound clock, clamping a civil date to what the on-disk fields
  hold, packing it in the FAT and exFAT forms and stamping directory entries; and the decoders of
  \<^verbatim>\<open>ra8_fs_fat_stat.c\<close> that read the stamps back. The main lemmas are that a clamped date
  survives packing and decoding, for both formats, to the resolution each stores.
\<close>

section \<open>Constants\<close>

abbreviation (input) k_fs_time_epoch_year :: u32 where "k_fs_time_epoch_year \<equiv> 1980"
abbreviation (input) k_fs_time_year_max :: u32 where "k_fs_time_year_max \<equiv> 2107"
abbreviation (input) k_fs_time_month_min :: u32 where "k_fs_time_month_min \<equiv> 1"
abbreviation (input) k_fs_time_month_max :: u32 where "k_fs_time_month_max \<equiv> 12"
abbreviation (input) k_fs_time_day_min :: u32 where "k_fs_time_day_min \<equiv> 1"
abbreviation (input) k_fs_time_day_max :: u32 where "k_fs_time_day_max \<equiv> 31"
abbreviation (input) k_fs_time_hour_max :: u32 where "k_fs_time_hour_max \<equiv> 23"
abbreviation (input) k_fs_time_minute_max :: u32 where "k_fs_time_minute_max \<equiv> 59"
abbreviation (input) k_fs_time_second_max :: u32 where "k_fs_time_second_max \<equiv> 59"
abbreviation (input) k_fs_time_centi_max :: u32 where "k_fs_time_centi_max \<equiv> 99"
abbreviation (input) k_fs_date_shift_year :: nat where "k_fs_date_shift_year \<equiv> 9"
abbreviation (input) k_fs_date_shift_month :: nat where "k_fs_date_shift_month \<equiv> 5"
abbreviation (input) k_fs_time_shift_hour :: nat where "k_fs_time_shift_hour \<equiv> 11"
abbreviation (input) k_fs_time_shift_minute :: nat where "k_fs_time_shift_minute \<equiv> 5"
abbreviation (input) k_fs_time_second_div :: u32 where "k_fs_time_second_div \<equiv> 2"
abbreviation (input) k_fs_xf_shift_date :: nat where "k_fs_xf_shift_date \<equiv> 16"
abbreviation (input) k_fs_xf_shift_month :: nat where "k_fs_xf_shift_month \<equiv> 5"
abbreviation (input) k_fs_xf_shift_year :: nat where "k_fs_xf_shift_year \<equiv> 9"
abbreviation (input) k_fs_centi_per_second :: u32 where "k_fs_centi_per_second \<equiv> 100"
abbreviation (input) k_fs_utc_step_min :: int where "k_fs_utc_step_min \<equiv> 15"
abbreviation (input) k_fs_utc_valid_bit :: u32 where "k_fs_utc_valid_bit \<equiv> 0x80"
abbreviation (input) k_fs_utc_field_mask :: u32 where "k_fs_utc_field_mask \<equiv> 0x7F"
abbreviation (input) k_fs_utc_unknown :: u8 where "k_fs_utc_unknown \<equiv> 0"
abbreviation (input) k_fs_utc_span_min :: int where "k_fs_utc_span_min \<equiv> - 720"
abbreviation (input) k_fs_utc_span_max :: int where "k_fs_utc_span_max \<equiv> 840"

abbreviation (input) k_dir_off_crt_time_tenth :: nat where "k_dir_off_crt_time_tenth \<equiv> 13"
abbreviation (input) k_dir_off_crt_time :: nat where "k_dir_off_crt_time \<equiv> 14"
abbreviation (input) k_dir_off_crt_date :: nat where "k_dir_off_crt_date \<equiv> 16"
abbreviation (input) k_dir_off_lst_acc_date :: nat where "k_dir_off_lst_acc_date \<equiv> 18"
abbreviation (input) k_dir_off_wrt_time :: nat where "k_dir_off_wrt_time \<equiv> 22"
abbreviation (input) k_dir_off_wrt_date :: nat where "k_dir_off_wrt_date \<equiv> 24"
abbreviation (input) k_exfat_off_file_ctime :: nat where "k_exfat_off_file_ctime \<equiv> 8"
abbreviation (input) k_exfat_off_file_mtime :: nat where "k_exfat_off_file_mtime \<equiv> 12"
abbreviation (input) k_exfat_off_file_atime :: nat where "k_exfat_off_file_atime \<equiv> 16"
abbreviation (input) k_exfat_off_file_c10ms :: nat where "k_exfat_off_file_c10ms \<equiv> 20"
abbreviation (input) k_exfat_off_file_m10ms :: nat where "k_exfat_off_file_m10ms \<equiv> 21"
abbreviation (input) k_exfat_off_file_cutc :: nat where "k_exfat_off_file_cutc \<equiv> 22"
abbreviation (input) k_exfat_off_file_mutc :: nat where "k_exfat_off_file_mutc \<equiv> 23"
abbreviation (input) k_exfat_off_file_autc :: nat where "k_exfat_off_file_autc \<equiv> 24"

section \<open>Stamps\<close>

record fat_stamp =
  fst_date :: u16
  fst_time :: u16
  fst_tenth :: u8

record exfat_stamp =
  xst_stamp :: u32
  xst_inc10 :: u8
  xst_utc :: u8

record timestamp =
  ts_value :: datetime
  ts_valid :: bool
  ts_utc_offset_valid :: bool

definition datetime_zero :: datetime where
  "datetime_zero = \<lparr>dt_year = 0, dt_utc_offset_min = 0, dt_month = 0, dt_day = 0, dt_hour = 0,
     dt_minute = 0, dt_second = 0, dt_centisecond = 0\<rparr>"

definition timestamp_zero :: timestamp where
  "timestamp_zero = \<lparr>ts_value = datetime_zero, ts_valid = False, ts_utc_offset_valid = False\<rparr>"

definition internal_clamp_u32 :: "u32 \<Rightarrow> u32 \<Rightarrow> u32 \<Rightarrow> u32" where
  "internal_clamp_u32 v lo hi = (if v < lo then lo else if v > hi then hi else v)"

definition internal_clamp_datetime :: "datetime \<Rightarrow> datetime" where
  "internal_clamp_datetime t = t\<lparr>
     dt_year := ucast (internal_clamp_u32 (ucast (dt_year t)) k_fs_time_epoch_year k_fs_time_year_max),
     dt_month := ucast (internal_clamp_u32 (ucast (dt_month t)) k_fs_time_month_min k_fs_time_month_max),
     dt_day := ucast (internal_clamp_u32 (ucast (dt_day t)) k_fs_time_day_min k_fs_time_day_max),
     dt_hour := ucast (internal_clamp_u32 (ucast (dt_hour t)) 0 k_fs_time_hour_max),
     dt_minute := ucast (internal_clamp_u32 (ucast (dt_minute t)) 0 k_fs_time_minute_max),
     dt_second := ucast (internal_clamp_u32 (ucast (dt_second t)) 0 k_fs_time_second_max),
     dt_centisecond := ucast (internal_clamp_u32 (ucast (dt_centisecond t)) 0 k_fs_time_centi_max)\<rparr>"

definition internal_now_or_epoch :: "('w fs, datetime \<times> bool) op" where
  "internal_now_or_epoch =
     (let epoch = datetime_zero\<lparr>dt_year := ucast k_fs_time_epoch_year,
            dt_month := ucast k_fs_time_month_min, dt_day := ucast k_fs_time_day_min\<rparr> in
      bindE (getE (\<lambda>s. (s_clock_bound s, s_clock s))) (\<lambda>(bound, clock).
        if bound then
          attemptE (callE (clk_now clock) liftW) (\<lambda>r. case r of
            Inr got \<Rightarrow> returnE (internal_clamp_datetime got, True)
          | Inl _ \<Rightarrow> returnE (internal_clamp_datetime epoch, False))
        else returnE (internal_clamp_datetime epoch, False)))"

definition internal_tenths_of :: "datetime \<Rightarrow> u8" where
  "internal_tenths_of t =
     (let odd' = (ucast (dt_second t) :: u32) mod k_fs_time_second_div
      in ucast (odd' * k_fs_centi_per_second + ucast (dt_centisecond t)))"

text \<open>\<open>int16_t\<close> arithmetic: the value promoted to \<open>int\<close>, C's truncating \<open>/\<close> and \<open>%\<close>.\<close>

definition internal_utc_byte :: "u16 \<Rightarrow> u8" where
  "internal_utc_byte minutes =
     (if sint minutes < k_fs_utc_span_min then k_fs_utc_unknown
      else if sint minutes > k_fs_utc_span_max then k_fs_utc_unknown
      else if sint minutes smod k_fs_utc_step_min \<noteq> 0 then k_fs_utc_unknown
      else let steps = sint minutes sdiv k_fs_utc_step_min
           in ucast (k_fs_utc_valid_bit OR (word_of_int steps AND k_fs_utc_field_mask)))"

definition internal_fat_pack :: "datetime \<Rightarrow> fat_stamp" where
  "internal_fat_pack t =
     (let years = (ucast (dt_year t) :: u32) - k_fs_time_epoch_year in
      \<lparr>fst_date = ucast (push_bit k_fs_date_shift_year years OR
         push_bit k_fs_date_shift_month (ucast (dt_month t)) OR ucast (dt_day t)),
       fst_time = ucast (push_bit k_fs_time_shift_hour (ucast (dt_hour t) :: u32) OR
         push_bit k_fs_time_shift_minute (ucast (dt_minute t)) OR
         (ucast (dt_second t) div k_fs_time_second_div)),
       fst_tenth = internal_tenths_of t\<rparr>)"

definition internal_fat_stamp_now :: "('w fs, fat_stamp) op" where
  "internal_fat_stamp_now = bindE internal_now_or_epoch (\<lambda>(t, _). returnE (internal_fat_pack t))"

definition internal_exfat_pack :: "datetime \<Rightarrow> bool \<Rightarrow> exfat_stamp" where
  "internal_exfat_pack t real =
     (let years = (ucast (dt_year t) :: u32) - k_fs_time_epoch_year;
          date = push_bit k_fs_xf_shift_year years OR
            push_bit k_fs_xf_shift_month (ucast (dt_month t)) OR ucast (dt_day t);
          time = push_bit k_fs_time_shift_hour (ucast (dt_hour t) :: u32) OR
            push_bit k_fs_time_shift_minute (ucast (dt_minute t)) OR
            (ucast (dt_second t) div k_fs_time_second_div)
      in \<lparr>xst_stamp = push_bit k_fs_xf_shift_date date OR time,
          xst_inc10 = internal_tenths_of t,
          xst_utc = (if real then internal_utc_byte (dt_utc_offset_min t) else k_fs_utc_unknown)\<rparr>)"

definition internal_exfat_stamp_now :: "('w fs, exfat_stamp) op" where
  "internal_exfat_stamp_now =
     bindE internal_now_or_epoch (\<lambda>(t, real). returnE (internal_exfat_pack t real))"

text \<open>The stamping functions work on the 32-byte entry at offset \<open>o'\<close> of a sector buffer.\<close>

definition priv_fat_entry_stamp_create :: "bytes \<Rightarrow> nat \<Rightarrow> ('w fs, bytes) op" where
  "priv_fat_entry_stamp_create entry o' = bindE internal_fat_stamp_now (\<lambda>s.
     let e1 = entry[o' + k_dir_off_crt_time_tenth := fst_tenth s];
         e2 = priv_wr16 e1 (o' + k_dir_off_crt_time) (fst_time s);
         e3 = priv_wr16 e2 (o' + k_dir_off_crt_date) (fst_date s);
         e4 = priv_wr16 e3 (o' + k_dir_off_lst_acc_date) (fst_date s);
         e5 = priv_wr16 e4 (o' + k_dir_off_wrt_time) (fst_time s)
     in returnE (priv_wr16 e5 (o' + k_dir_off_wrt_date) (fst_date s)))"

definition priv_fat_entry_stamp_write :: "bytes \<Rightarrow> nat \<Rightarrow> ('w fs, bytes) op" where
  "priv_fat_entry_stamp_write entry o' = bindE internal_fat_stamp_now (\<lambda>s.
     let e1 = priv_wr16 entry (o' + k_dir_off_wrt_time) (fst_time s);
         e2 = priv_wr16 e1 (o' + k_dir_off_wrt_date) (fst_date s)
     in returnE (priv_wr16 e2 (o' + k_dir_off_lst_acc_date) (fst_date s)))"

definition priv_fat_entry_stamp_access :: "bytes \<Rightarrow> nat \<Rightarrow> ('w fs, bytes) op" where
  "priv_fat_entry_stamp_access entry o' = bindE internal_fat_stamp_now (\<lambda>s.
     returnE (priv_wr16 entry (o' + k_dir_off_lst_acc_date) (fst_date s)))"

definition priv_exfat_file_stamp_create :: "bytes \<Rightarrow> ('w fs, bytes) op" where
  "priv_exfat_file_stamp_create e = bindE internal_exfat_stamp_now (\<lambda>s.
     let e1 = priv_wr32 e k_exfat_off_file_ctime (xst_stamp s);
         e2 = priv_wr32 e1 k_exfat_off_file_mtime (xst_stamp s);
         e3 = priv_wr32 e2 k_exfat_off_file_atime (xst_stamp s)
     in returnE (e3[k_exfat_off_file_c10ms := xst_inc10 s, k_exfat_off_file_m10ms := xst_inc10 s,
          k_exfat_off_file_cutc := xst_utc s, k_exfat_off_file_mutc := xst_utc s,
          k_exfat_off_file_autc := xst_utc s]))"

definition priv_exfat_file_stamp_write :: "bytes \<Rightarrow> ('w fs, bytes) op" where
  "priv_exfat_file_stamp_write e = bindE internal_exfat_stamp_now (\<lambda>s.
     let e1 = priv_wr32 e k_exfat_off_file_mtime (xst_stamp s);
         e2 = priv_wr32 e1 k_exfat_off_file_atime (xst_stamp s)
     in returnE (e2[k_exfat_off_file_m10ms := xst_inc10 s, k_exfat_off_file_mutc := xst_utc s,
          k_exfat_off_file_autc := xst_utc s]))"

definition priv_exfat_file_stamp_access :: "bytes \<Rightarrow> ('w fs, bytes) op" where
  "priv_exfat_file_stamp_access e = bindE internal_exfat_stamp_now (\<lambda>s.
     returnE ((priv_wr32 e k_exfat_off_file_atime (xst_stamp s))[k_exfat_off_file_autc := xst_utc s]))"

text \<open>Explicit stamps; \<open>None\<close> is a null pointer.\<close>

definition priv_fat_entry_set_times ::
    "bytes \<Rightarrow> nat \<Rightarrow> datetime option \<Rightarrow> datetime option \<Rightarrow> datetime option \<Rightarrow> bytes" where
  "priv_fat_entry_set_times entry o' create modify access =
     (let e1 = (case create of None \<Rightarrow> entry | Some c \<Rightarrow>
            let s = internal_fat_pack (internal_clamp_datetime c);
                a = entry[o' + k_dir_off_crt_time_tenth := fst_tenth s];
                b = priv_wr16 a (o' + k_dir_off_crt_time) (fst_time s)
            in priv_wr16 b (o' + k_dir_off_crt_date) (fst_date s));
          e2 = (case modify of None \<Rightarrow> e1 | Some c \<Rightarrow>
            let s = internal_fat_pack (internal_clamp_datetime c);
                a = priv_wr16 e1 (o' + k_dir_off_wrt_time) (fst_time s)
            in priv_wr16 a (o' + k_dir_off_wrt_date) (fst_date s))
      in (case access of None \<Rightarrow> e2 | Some c \<Rightarrow>
            let s = internal_fat_pack (internal_clamp_datetime c)
            in priv_wr16 e2 (o' + k_dir_off_lst_acc_date) (fst_date s)))"

definition priv_exfat_file_set_times ::
    "bytes \<Rightarrow> datetime option \<Rightarrow> datetime option \<Rightarrow> datetime option \<Rightarrow> bytes" where
  "priv_exfat_file_set_times e create modify access =
     (let e1 = (case create of None \<Rightarrow> e | Some c \<Rightarrow>
            let s = internal_exfat_pack (internal_clamp_datetime c) True
            in (priv_wr32 e k_exfat_off_file_ctime (xst_stamp s))
                 [k_exfat_off_file_c10ms := xst_inc10 s, k_exfat_off_file_cutc := xst_utc s]);
          e2 = (case modify of None \<Rightarrow> e1 | Some c \<Rightarrow>
            let s = internal_exfat_pack (internal_clamp_datetime c) True
            in (priv_wr32 e1 k_exfat_off_file_mtime (xst_stamp s))
                 [k_exfat_off_file_m10ms := xst_inc10 s, k_exfat_off_file_mutc := xst_utc s])
      in (case access of None \<Rightarrow> e2 | Some c \<Rightarrow>
            let s = internal_exfat_pack (internal_clamp_datetime c) True
            in (priv_wr32 e2 k_exfat_off_file_atime (xst_stamp s))[k_exfat_off_file_autc := xst_utc s]))"

definition ra8_fs_set_clock :: "'w fs_clock option \<Rightarrow> ('w fs, unit) op" where
  "ra8_fs_set_clock clock = (case clock of
     None \<Rightarrow> modifyE (\<lambda>s. s\<lparr>s_clock_bound := False, s_clock := \<lparr>clk_now = None\<rparr>\<rparr>)
   | Some c \<Rightarrow> (case clk_now c of None \<Rightarrow> throwE k_ra8_err_invalid_arg
       | Some _ \<Rightarrow> modifyE (\<lambda>s. s\<lparr>s_clock := c, s_clock_bound := True\<rparr>)))"

section \<open>Decoding\<close>

definition internal_stat_fat_time_valid :: "datetime \<Rightarrow> u8 \<Rightarrow> bool \<Rightarrow> bool" where
  "internal_stat_fat_time_valid v tenth have_tenth =
     (if dt_month v = 0 then False else if dt_month v > 12 then False
      else if dt_day v = 0 then False else if dt_hour v > 23 then False
      else if dt_minute v > 59 then False else if dt_second v > 59 then False
      else if have_tenth \<and> tenth > 199 then False else True)"

definition internal_stat_decode_fat :: "u16 \<Rightarrow> u16 \<Rightarrow> u8 \<Rightarrow> bool \<Rightarrow> timestamp" where
  "internal_stat_decode_fat date time tenth have_tenth =
     (let v0 = datetime_zero\<lparr>
            dt_year := ucast (k_fs_time_epoch_year + ucast (drop_bit 9 date)),
            dt_month := ucast (drop_bit 5 date AND 0x0F),
            dt_day := ucast (date AND 0x1F),
            dt_hour := ucast (drop_bit 11 time AND 0x1F),
            dt_minute := ucast (drop_bit 5 time AND 0x3F),
            dt_second := ucast ((ucast (time AND 0x1F) :: u32) * 2)\<rparr>;
          v = (if have_tenth then v0\<lparr>
                 dt_second := ucast ((ucast (dt_second v0) :: u32) + (if tenth \<ge> 100 then 1 else 0)),
                 dt_centisecond := tenth mod 100\<rparr> else v0)
      in if \<not> internal_stat_fat_time_valid v tenth have_tenth then timestamp_zero
         else \<lparr>ts_value = v, ts_valid = True, ts_utc_offset_valid = False\<rparr>)"

definition internal_stat_decode_exfat :: "u32 \<Rightarrow> u8 \<Rightarrow> bool \<Rightarrow> u8 \<Rightarrow> timestamp" where
  "internal_stat_decode_exfat packed tenth have_tenth utc =
     (let date = ucast (drop_bit 16 packed) :: u16;
          time = ucast (packed AND 0xFFFF) :: u16;
          out = internal_stat_decode_fat date time tenth have_tenth
      in if \<not> ts_valid out then out
         else if utc AND 0x80 = 0 then out
         else (let steps0 = uint (utc AND 0x7F);
                   steps = (if steps0 AND 0x40 \<noteq> 0 then steps0 - 128 else steps0);
                   minutes = steps * k_fs_utc_step_min
               in if minutes < k_fs_utc_span_min then out
                  else if minutes > k_fs_utc_span_max then out
                  else out\<lparr>ts_value := (ts_value out)\<lparr>dt_utc_offset_min := word_of_int minutes\<rparr>,
                           ts_utc_offset_valid := True\<rparr>))"

section \<open>Clamping\<close>

text \<open>The documented range of a date, \<open>ra8_fs_datetime_t\<close>.\<close>

definition datetime_ok :: "datetime \<Rightarrow> bool" where
  "datetime_ok t \<longleftrightarrow> unat (dt_year t) \<in> {1980..2107} \<and> unat (dt_month t) \<in> {1..12} \<and>
     unat (dt_day t) \<in> {1..31} \<and> unat (dt_hour t) \<le> 23 \<and> unat (dt_minute t) \<le> 59 \<and>
     unat (dt_second t) \<le> 59 \<and> unat (dt_centisecond t) \<le> 99"

lemma unat_clamp: "lo \<le> hi \<Longrightarrow> unat (internal_clamp_u32 v lo hi) = max (unat lo) (min (unat hi) (unat v))"
  by (auto simp: internal_clamp_u32_def word_less_nat_alt word_le_nat_alt)

lemma clamp_ok: "datetime_ok (internal_clamp_datetime t)"
  by (simp add: datetime_ok_def internal_clamp_datetime_def unat_ucast_mod unat_clamp word_le_nat_alt)

lemma clamp_u32_id: "lo \<le> v \<Longrightarrow> v \<le> hi \<Longrightarrow> internal_clamp_u32 v lo hi = v"
  by (auto simp: internal_clamp_u32_def)

lemma clamp_id: "datetime_ok t \<Longrightarrow> internal_clamp_datetime t = t"
  by (simp add: datetime_ok_def internal_clamp_datetime_def clamp_u32_id word_le_nat_alt unat_ucast_mod)

section \<open>Packing and decoding\<close>

lemma date_fields:
  fixes y mo d :: u32
  assumes y: "unat y < 128" and mo: "unat mo < 16" and d: "unat d < 32"
  defines "w \<equiv> ucast (push_bit 9 y OR push_bit 5 mo OR d) :: u16"
  shows "drop_bit 9 w = ucast y" and "drop_bit 5 w AND 0x0F = ucast mo" and "w AND 0x1F = ucast d"
proof -
  have b: "bit y n \<Longrightarrow> n < 7" "bit mo n \<Longrightarrow> n < 4" "bit d n \<Longrightarrow> n < 5" for n
    using bit_small [of y 7] bit_small [of mo 4] bit_small [of d 5] y mo d by auto
  have m: "(0x0F :: u16) = mask 4" "(0x1F :: u16) = mask 5" by (simp_all add: mask_eq_exp_minus_1)
  show "drop_bit 9 w = ucast y" unfolding w_def
    by (rule bit_word_eqI) (auto simp: bit_simps dest: b)
  show "drop_bit 5 w AND 0x0F = ucast mo" unfolding w_def m
    by (rule bit_word_eqI) (auto simp: bit_simps dest: b)
  show "w AND 0x1F = ucast d" unfolding w_def m
    by (rule bit_word_eqI) (auto simp: bit_simps dest: b)
qed

lemma time_fields:
  fixes h mi s :: u32
  assumes h: "unat h < 32" and mi: "unat mi < 64" and s: "unat s < 32"
  defines "w \<equiv> ucast (push_bit 11 h OR push_bit 5 mi OR s) :: u16"
  shows "drop_bit 11 w AND 0x1F = ucast h" and "drop_bit 5 w AND 0x3F = ucast mi" and "w AND 0x1F = ucast s"
proof -
  have b: "bit h n \<Longrightarrow> n < 5" "bit mi n \<Longrightarrow> n < 6" "bit s n \<Longrightarrow> n < 5" for n
    using bit_small [of h 5] bit_small [of mi 6] bit_small [of s 5] h mi s by auto
  have m: "(0x3F :: u16) = mask 6" "(0x1F :: u16) = mask 5" by (simp_all add: mask_eq_exp_minus_1)
  show "drop_bit 11 w AND 0x1F = ucast h" unfolding w_def m
    by (rule bit_word_eqI) (auto simp: bit_simps dest: b)
  show "drop_bit 5 w AND 0x3F = ucast mi" unfolding w_def m
    by (rule bit_word_eqI) (auto simp: bit_simps dest: b)
  show "w AND 0x1F = ucast s" unfolding w_def m
    by (rule bit_word_eqI) (auto simp: bit_simps dest: b)
qed

lemma unat_tenths:
  assumes "datetime_ok t"
  shows "unat (internal_tenths_of t) = unat (dt_second t) mod 2 * 100 + unat (dt_centisecond t)"
proof -
  have lt: "unat (dt_second t) mod 2 * 100 + unat (dt_centisecond t) < 256"
    using assms by (auto simp: datetime_ok_def mod2_eq_if)
  have "unat ((ucast (dt_second t) :: u32) mod 2) = unat (dt_second t) mod 2"
    by (simp add: unat_mod_distrib)
  with lt show ?thesis
    by (simp add: internal_tenths_of_def unat_ucast_mod unat_word_ariths)
qed

text \<open>A date in range, packed and decoded with its 10 ms field, is the date without its offset.\<close>

lemma decode_fat_pack:
  assumes ok: "datetime_ok t"
  shows "internal_stat_decode_fat (fst_date (internal_fat_pack t)) (fst_time (internal_fat_pack t))
      (fst_tenth (internal_fat_pack t)) True
    = \<lparr>ts_value = t\<lparr>dt_utc_offset_min := 0\<rparr>, ts_valid = True, ts_utc_offset_valid = False\<rparr>"
proof -
  let ?y = "(ucast (dt_year t) :: u32) - 1980"
  have uy: "unat ?y = unat (dt_year t) - 1980"
    using ok by (simp add: datetime_ok_def unat_sub_le word_le_nat_alt unat_ucast_mod)
  have s2: "unat ((ucast (dt_second t) :: u32) div 2) = unat (dt_second t) div 2"
    by (simp add: unat_div_distrib)
  have yr: "ucast (k_fs_time_epoch_year + ucast (ucast ?y :: u16)) = dt_year t"
    using ok uy by (auto simp: word_unat_eq_iff unat_ucast_mod unat_word_ariths datetime_ok_def)
  have ten: "unat (internal_tenths_of t) = unat (dt_second t) mod 2 * 100 + unat (dt_centisecond t)"
    by (rule unat_tenths [OF ok])
  have sec: "ucast ((ucast (ucast ((ucast (ucast ((ucast (dt_second t) :: u32) div 2) :: u16) :: u32) * 2) :: u8) :: u32)
      + (if internal_tenths_of t \<ge> 100 then 1 else 0)) = dt_second t"
    using ok ten s2 by (auto simp: word_unat_eq_iff unat_ucast_mod unat_word_ariths datetime_ok_def word_le_nat_alt
        mod2_eq_if) presburger+
  have cen: "internal_tenths_of t mod 100 = dt_centisecond t"
    using ok ten by (auto simp: word_unat_eq_iff unat_mod_distrib datetime_ok_def mod2_eq_if)
  have D: "unat ?y < 128" "unat (ucast (dt_month t) :: u32) < 16" "unat (ucast (dt_day t) :: u32) < 32"
    using ok uy by (auto simp: datetime_ok_def)
  have T: "unat (ucast (dt_hour t) :: u32) < 32" "unat (ucast (dt_minute t) :: u32) < 64"
    "unat ((ucast (dt_second t) :: u32) div 2) < 32"
    using ok by (auto simp: datetime_ok_def s2)
  have val: "internal_stat_fat_time_valid (t\<lparr>dt_utc_offset_min := 0\<rparr>) (internal_tenths_of t) True"
    using ok ten by (auto simp: internal_stat_fat_time_valid_def datetime_ok_def word_less_nat_alt
        word_unat_eq_iff mod2_eq_if)
  have u16: "(ucast (ucast (x :: u8) :: u32) :: u16) = ucast x" for x
    by (rule bit_word_eqI) (auto simp: bit_simps dest: bit_imp_le_length)
  have t0: "t\<lparr>dt_utc_offset_min := 0\<rparr> = \<lparr>dt_year = dt_year t, dt_utc_offset_min = 0, dt_month = dt_month t,
      dt_day = dt_day t, dt_hour = dt_hour t, dt_minute = dt_minute t, dt_second = dt_second t,
      dt_centisecond = dt_centisecond t\<rparr>" by (cases t) simp
  have "internal_stat_decode_fat (fst_date (internal_fat_pack t)) (fst_time (internal_fat_pack t))
      (fst_tenth (internal_fat_pack t)) True =
    (let v = t\<lparr>dt_utc_offset_min := 0\<rparr> in
     if \<not> internal_stat_fat_time_valid v (internal_tenths_of t) True then timestamp_zero
     else \<lparr>ts_value = v, ts_valid = True, ts_utc_offset_valid = False\<rparr>)"
    by (simp add: internal_stat_decode_fat_def internal_fat_pack_def Let_def date_fields [OF D]
        time_fields [OF T] yr sec cen u16 datetime_zero_def t0)
  with val show ?thesis by (simp add: Let_def)
qed

lemma exfat_stamp_halves:
  assumes ok: "datetime_ok t"
  shows "ucast (drop_bit 16 (xst_stamp (internal_exfat_pack t r))) = fst_date (internal_fat_pack t)"
    and "ucast (xst_stamp (internal_exfat_pack t r) AND 0xFFFF) = fst_time (internal_fat_pack t)"
proof -
  have "unat ((ucast (dt_second t) :: u32) div 2) < 2 ^ 5"
    using ok by (auto simp: unat_div_distrib datetime_ok_def)
  then have b: "bit ((ucast (dt_second t) :: u32) div 2) n \<Longrightarrow> n < 5" for n by (rule bit_small)
  have h: "bit (dt_hour t) n \<Longrightarrow> n < 5" "bit (dt_minute t) n \<Longrightarrow> n < 6" for n
    using ok bit_small [of "dt_hour t" 5] bit_small [of "dt_minute t" 6] by (auto simp: datetime_ok_def)
  have m: "(0xFFFF :: u32) = mask 16" by (simp add: mask_eq_exp_minus_1)
  show "ucast (drop_bit 16 (xst_stamp (internal_exfat_pack t r))) = fst_date (internal_fat_pack t)"
    unfolding internal_exfat_pack_def internal_fat_pack_def Let_def
    by (simp, rule bit_word_eqI) (auto simp: bit_simps dest: b h)
  show "ucast (xst_stamp (internal_exfat_pack t r) AND 0xFFFF) = fst_time (internal_fat_pack t)"
    unfolding internal_exfat_pack_def internal_fat_pack_def Let_def m
    by (simp, rule bit_word_eqI) (auto simp: bit_simps dest: b h)
qed

text \<open>The offset byte of a multiple of a quarter of an hour within the span, decoded.\<close>

definition utc_minutes :: "u8 \<Rightarrow> int" where
  "utc_minutes utc = (let steps0 = uint (utc AND 0x7F);
     steps = (if steps0 AND 0x40 \<noteq> 0 then steps0 - 128 else steps0) in steps * k_fs_utc_step_min)"

lemma utc_steps:
  "\<forall>k \<in> set [-48..56]. let u = ucast (k_fs_utc_valid_bit OR (word_of_int k AND k_fs_utc_field_mask)) :: u8
     in utc_minutes u = 15 * k \<and> u AND 0x80 \<noteq> 0"
  by code_simp

definition utc_ok :: "u16 \<Rightarrow> bool" where
  "utc_ok m \<longleftrightarrow> sint m \<in> {-720..840} \<and> 15 dvd sint m"

lemma sdiv_mult: "(15 * k :: int) sdiv 15 = k"
  by (simp add: signed_divide_int_def sgn_mult abs_mult mult_sgn_abs)

lemma smod_zero_iff: "(x :: int) smod 15 = 0 \<longleftrightarrow> 15 dvd x"
  by (auto simp: signed_modulo_int_def sgn_0_0 simp flip: dvd_eq_mod_eq_0)

lemma utc_byte_ok:
  assumes "utc_ok m"
  shows "utc_minutes (internal_utc_byte m) = sint m" and "internal_utc_byte m AND 0x80 \<noteq> 0"
proof -
  from assms obtain k where k: "sint m = 15 * k" "-48 \<le> k" "k \<le> 56"
    by (auto simp: utc_ok_def elim!: dvdE)
  then have "k \<in> set [-48..56]" unfolding set_upto by simp
  from bspec [OF utc_steps this] k
  show "utc_minutes (internal_utc_byte m) = sint m" "internal_utc_byte m AND 0x80 \<noteq> 0"
    by (simp_all add: internal_utc_byte_def Let_def smod_zero_iff sdiv_mult)
qed

lemma utc_byte_unknown: "\<not> utc_ok m \<Longrightarrow> internal_utc_byte m = 0"
  by (auto simp: utc_ok_def internal_utc_byte_def smod_zero_iff)

text \<open>The exFAT form keeps the offset as well, when it is one the format can express.\<close>

lemma decode_exfat_pack:
  assumes ok: "datetime_ok t"
  defines "p \<equiv> internal_exfat_pack t True"
  shows "internal_stat_decode_exfat (xst_stamp p) (xst_inc10 p) True (xst_utc p) =
    (if utc_ok (dt_utc_offset_min t) then \<lparr>ts_value = t, ts_valid = True, ts_utc_offset_valid = True\<rparr>
     else \<lparr>ts_value = t\<lparr>dt_utc_offset_min := 0\<rparr>, ts_valid = True, ts_utc_offset_valid = False\<rparr>)"
proof -
  let ?off = "dt_utc_offset_min t"
  have fields: "xst_inc10 p = fst_tenth (internal_fat_pack t)" "xst_utc p = internal_utc_byte ?off"
    by (simp_all add: p_def internal_exfat_pack_def internal_fat_pack_def Let_def)
  note dec = decode_fat_pack [OF ok]
  show ?thesis
  proof (cases "utc_ok ?off")
    case True
    from True have "- 720 \<le> sint ?off" "sint ?off \<le> 840" by (auto simp: utc_ok_def)
    with utc_byte_ok [OF True] True dec show ?thesis
      unfolding internal_stat_decode_exfat_def Let_def exfat_stamp_halves [OF ok] p_def
        fields [unfolded p_def]
      by (simp add: utc_minutes_def Let_def)
  next
    case False
    from utc_byte_unknown [OF this] False dec show ?thesis
      unfolding internal_stat_decode_exfat_def Let_def exfat_stamp_halves [OF ok] p_def
        fields [unfolded p_def]
      by simp
  qed
qed

section \<open>Properties\<close>

text \<open>
  C23. Whatever date the clock or a caller supplies, the stamp written to a FAT directory entry decodes
  to that date clamped field by field to the range of the format: year, month, day, hour, minute,
  second and hundredths survive, and the decoder reports a valid stamp without a zone.
\<close>

theorem fat_stamp_roundtrip:
  "let p = internal_fat_pack (internal_clamp_datetime t) in
   internal_stat_decode_fat (fst_date p) (fst_time p) (fst_tenth p) True =
     \<lparr>ts_value = (internal_clamp_datetime t)\<lparr>dt_utc_offset_min := 0\<rparr>, ts_valid = True,
      ts_utc_offset_valid = False\<rparr>"
  using decode_fat_pack [OF clamp_ok] by (simp add: Let_def)

text \<open>
  C24. The exFAT stamp of a real clock reading decodes to the clamped date, and to its zone as well when
  the offset is a multiple of fifteen minutes between UTC-12:00 and UTC+14:00; any other offset is
  stored as unknown and decodes as such.
\<close>

theorem exfat_stamp_roundtrip:
  "let c = internal_clamp_datetime t; p = internal_exfat_pack c True in
   internal_stat_decode_exfat (xst_stamp p) (xst_inc10 p) True (xst_utc p) =
     (if utc_ok (dt_utc_offset_min c) then \<lparr>ts_value = c, ts_valid = True, ts_utc_offset_valid = True\<rparr>
      else \<lparr>ts_value = c\<lparr>dt_utc_offset_min := 0\<rparr>, ts_valid = True, ts_utc_offset_valid = False\<rparr>)"
  using decode_exfat_pack [OF clamp_ok] by (simp add: Let_def)

end
