(* ===== verification/Fat_Handles.thy ===== *)
theory Fat_Handles
  imports Fat_Dir_Walk Fat_Time
begin

text \<open>
  What the FAT and the exFAT halves of the driver share above the allocation table: the tables of mounts and
  open files, and the store of a few bytes into a sector. A mount handle is the index of the mount in
  \<open>s_mounts\<close>, a file handle the index of the file in \<open>s_files\<close>; a null pointer is \<open>None\<close>.
\<close>

section \<open>Handles\<close>

definition mountE :: "nat \<Rightarrow> ('w fs, 'w mount) op" where
  "mountE h = getE (\<lambda>s. s_mounts s ! h)"

definition fileE :: "nat \<Rightarrow> ('w fs, fs_file) op" where
  "fileE i = getE (\<lambda>s. s_files s ! i)"

definition set_file :: "nat \<Rightarrow> (fs_file \<Rightarrow> fs_file) \<Rightarrow> ('w fs, unit) op" where
  "set_file i g = modifyE (\<lambda>s. s\<lparr>s_files := (s_files s)[i := g (s_files s ! i)]\<rparr>)"

text \<open>The object behind \<open>file->mount\<close>.\<close>

definition file_mountE :: "nat \<Rightarrow> ('w fs, 'w mount) op" where
  "file_mountE i = bindE (fileE i) (\<lambda>f. case f_mount f of None \<Rightarrow> throwE undefined_behaviour | Some h \<Rightarrow> mountE h)"

definition priv_alloc_file_slot :: "'w fs \<Rightarrow> nat option" where
  "priv_alloc_file_slot s = find (\<lambda>i. \<not> f_in_use (s_files s ! i)) [0..<k_ra8_fs_max_files]"

section \<open>Sectors\<close>

definition priv_write_into_sector :: "'w mount \<Rightarrow> u64 \<Rightarrow> nat \<Rightarrow> bytes \<Rightarrow> ('w fs, unit) op" where
  "priv_write_into_sector m lba off_in_sector src =
     bindE (priv_read_sector m lba) (\<lambda>sec.
       priv_write_sector m lba (priv_byte_copy sec off_in_sector src 0 (length src)))"

definition zero_sector :: "'w mount \<Rightarrow> bytes" where
  "zero_sector m = replicate (unat (priv_bps m)) 0"

text \<open>
  The bytes of a cluster where the C divides by them. A FAT volume is only mounted with a positive count of
  sectors per cluster; the shift of an exFAT boot sector is not checked, and the product may wrap to zero.
\<close>

definition cluster_bytesE :: "'w mount \<Rightarrow> ('s, u32) op" where
  "cluster_bytesE m = (if priv_cluster_bytes m = 0 then throwE undefined_behaviour else returnE (priv_cluster_bytes m))"

section \<open>Entries of a listing\<close>

record dirent =
  de_name :: bytes
  de_size_bytes :: u64
  de_attr :: u8

type_synonym 'w listdir_cb = "bytes \<Rightarrow> u8 \<Rightarrow> u64 \<Rightarrow> 'w \<Rightarrow> 'w"

end
