(* ===== verification/Fat_Dir_Write.thy ===== *)
theory Fat_Dir_Write
  imports Fat_Handles
begin

text \<open>
  \<^verbatim>\<open>ra8_fs_fat_lfn_write.c\<close>: placing a new name in a directory (choice of a free alias, search for a
  run of free slots, growth of the directory by a cluster, the commit of the long-name slots and the 8.3
  entry) and erasing an entry together with its long-name slots.
\<close>

abbreviation (input) k_lfnw_grow_max :: nat where "k_lfnw_grow_max \<equiv> 3"
abbreviation (input) k_lfn_erase_max :: nat where "k_lfn_erase_max \<equiv> 20"
abbreviation (input) k_lfn_alias_tail_max :: nat where "k_lfn_alias_tail_max \<equiv> 999999"

record dir_pos =
  pos_lba :: u64
  pos_off :: nat

record dir_slot =
  sl_w :: dir_walk
  sl_ent :: nat

record dir_insert =
  pl_start :: dir_slot
  pl_units :: "u16 list"
  pl_name83 :: bytes
  pl_ntres :: u8
  pl_lfn_entries :: nat

section \<open>Reserving a run of slots\<close>

function alias_unique_loop :: "'w mount \<Rightarrow> dir_loc \<Rightarrow> u16 list \<Rightarrow> nat \<Rightarrow> ('w fs, bytes) op" where
  "alias_unique_loop m loc leaf tail =
     (if tail > k_lfn_alias_tail_max then throwE k_ra8_err_no_mem
      else let out11 = priv_lfn_alias_basis leaf (of_nat tail) in
        attemptE (priv_dir_find m loc out11) (\<lambda>r. case r of
          Inl e \<Rightarrow> if e = k_ra8_err_not_found then returnE out11 else throwE e
        | Inr _ \<Rightarrow> alias_unique_loop m loc leaf (tail + 1)))"
  by pat_completeness auto
termination
  by (relation "measure (\<lambda>(m, loc, leaf, tail). Suc k_lfn_alias_tail_max - tail)") auto

declare alias_unique_loop.simps [simp del]

definition internal_alias_unique :: "'w mount \<Rightarrow> dir_loc \<Rightarrow> u16 list \<Rightarrow> ('w fs, bytes) op" where
  "internal_alias_unique m loc leaf = alias_unique_loop m loc leaf 1"

definition internal_slot_is_free :: "bytes \<Rightarrow> bool" where
  "internal_slot_is_free ent \<longleftrightarrow>
     ent ! k_dir_off_name = k_dir_marker_free_perm \<or> ent ! k_dir_off_name = k_dir_marker_free_used"

text \<open>The loop state is the start of the run being counted and its length.\<close>

primrec free_run_entries :: "nat \<Rightarrow> dir_walk \<Rightarrow> bytes \<Rightarrow> nat list \<Rightarrow> dir_slot option \<times> nat \<Rightarrow>
    (dir_slot option \<times> nat) + (ra8_err + dir_slot)" where
  "free_run_entries need w buf [] st = Inl st"
| "free_run_entries need w buf (e # es) st =
     (if \<not> internal_slot_is_free (dir_ent buf e) then free_run_entries need w buf es (fst st, 0)
      else let start = (case st of (Some sl, Suc _) \<Rightarrow> sl | _ \<Rightarrow> \<lparr>sl_w = w, sl_ent = e\<rparr>);
               run = snd st + 1
        in if run \<ge> need then Inr (Inr start) else free_run_entries need w buf es (Some start, run))"

definition priv_dir_find_free_run :: "'w mount \<Rightarrow> dir_loc \<Rightarrow> nat \<Rightarrow> ('w fs, dir_slot) op" where
  "priv_dir_find_free_run m loc need =
     (let w = priv_dir_walk_init_loc m loc in
      dir_scan m (\<lambda>w buf. free_run_entries need w buf [0..<unat (priv_dir_eps m)])
        k_ra8_err_no_mem (dir_fuel m w) w (None, 0))"

text \<open>The walk to the last cluster of the directory.\<close>

primrec dir_last_cluster :: "'w mount \<Rightarrow> nat \<Rightarrow> dir_walk \<Rightarrow> ('w fs, u32) op" where
  "dir_last_cluster m 0 w = throwE out_of_fuel"
| "dir_last_cluster m (Suc n) w =
     (let last' = w_cluster w in
      bindE (priv_dir_walk_next_sector m w) (\<lambda>(eod, w').
        if eod then returnE last' else dir_last_cluster m n w'))"

primrec grow_zero_loop :: "'w mount \<Rightarrow> u32 \<Rightarrow> u64 list \<Rightarrow> ('w fs, unit) op" where
  "grow_zero_loop m fresh [] = returnE ()"
| "grow_zero_loop m fresh (lba # lbas) =
     attemptE (priv_write_sector m lba (zero_sector m)) (\<lambda>r. case r of
       Inl err \<Rightarrow> attemptE (priv_free_chain m fresh) (\<lambda>_. throwE err)
     | Inr _ \<Rightarrow> grow_zero_loop m fresh lbas)"

definition cluster_lbas :: "'w mount \<Rightarrow> u32 \<Rightarrow> u64 list" where
  "cluster_lbas m c = map (\<lambda>s. priv_cluster_to_lba m c + of_nat s) [0..<unat (m_sectors_per_cluster m)]"

definition internal_dir_grow :: "'w mount \<Rightarrow> dir_loc \<Rightarrow> ('w fs, unit) op" where
  "internal_dir_grow m loc =
     (if loc_is_root loc \<and> m_type m \<noteq> k_ra8_fs_type_fat32 then throwE k_ra8_err_no_mem
      else let w = priv_dir_walk_init_loc m loc in
        bindE (dir_last_cluster m (dir_fuel m w) w) (\<lambda>last'.
        bindE (priv_alloc_eoc_cluster m) (\<lambda>fresh.
        bindE (grow_zero_loop m fresh (cluster_lbas m fresh)) (\<lambda>_.
        attemptE (priv_fat_set m last' fresh) (\<lambda>r. case r of
          Inl err \<Rightarrow> attemptE (priv_free_chain m fresh) (\<lambda>_. throwE err)
        | Inr _ \<Rightarrow> returnE ())))))"

text \<open>\<open>left\<close> counts the directory growths that remain.\<close>

primrec reserve_loop :: "'w mount \<Rightarrow> dir_loc \<Rightarrow> nat \<Rightarrow> nat \<Rightarrow> ('w fs, dir_slot) op" where
  "reserve_loop m loc need 0 = priv_dir_find_free_run m loc need"
| "reserve_loop m loc need (Suc left) =
     attemptE (priv_dir_find_free_run m loc need) (\<lambda>r.
       if r = Inl k_ra8_err_no_mem then
         bindE (internal_dir_grow m loc) (\<lambda>_. reserve_loop m loc need left)
       else returnR r)"

definition priv_dir_reserve :: "'w mount \<Rightarrow> dir_loc \<Rightarrow> bytes \<Rightarrow> ('w fs, dir_insert) op" where
  "priv_dir_reserve m loc leaf =
     (case priv_name_classify leaf (replicate k_max_8_3_name 0) of (kind, units, name83, ntres) \<Rightarrow>
      if kind = k_name_kind_invalid then throwE k_ra8_err_invalid_arg
      else
        bindE (if kind = k_name_kind_long then
                 bindE (internal_alias_unique m loc units) (\<lambda>alias.
                   returnE (alias, 0, lfn_slots_needed (length units)))
               else returnE (name83, ntres, 0)) (\<lambda>(name83', ntres', lfn_entries).
          bindE (reserve_loop m loc (lfn_entries + 1) k_lfnw_grow_max) (\<lambda>start.
            returnE \<lparr>pl_start = start, pl_units = units, pl_name83 = name83', pl_ntres = ntres',
                     pl_lfn_entries = lfn_entries\<rparr>)))"

section \<open>Committing the slots\<close>

definition internal_slot_advance ::
    "'w mount \<Rightarrow> dir_slot \<Rightarrow> bytes \<Rightarrow> u64 \<Rightarrow> ('w fs, dir_slot \<times> bytes \<times> u64) op" where
  "internal_slot_advance m cur buf lba =
     (let cur1 = cur\<lparr>sl_ent := sl_ent cur + 1\<rparr> in
      if sl_ent cur1 < unat (priv_dir_eps m) then returnE (cur1, buf, lba)
      else
        bindE (priv_write_sector m lba buf) (\<lambda>_.
        bindE (priv_dir_walk_next_sector m (sl_w cur1)) (\<lambda>(eod, w).
          if eod then throwE k_ra8_err_no_mem
          else bindE (priv_read_sector m (w_cur_lba w)) (\<lambda>buf'.
            returnE (\<lparr>sl_w = w, sl_ent = 0\<rparr>, buf', w_cur_lba w)))))"

text \<open>The bytes of slot \<open>i\<close> of a plan: a long-name slot, or the 8.3 entry at the end.\<close>

definition commit_slot :: "dir_insert \<Rightarrow> bytes \<Rightarrow> nat \<Rightarrow> bytes \<Rightarrow> nat \<Rightarrow> bytes" where
  "commit_slot plan tmpl i buf off =
     (if i < pl_lfn_entries plan then
        priv_byte_copy buf off
          (priv_lfn_fill_slot (pl_units plan) (length (pl_units plan)) (pl_lfn_entries plan - i) (i = 0)
             (priv_sfn_checksum (pl_name83 plan))) 0 k_ra8_fs_dir_entry_bytes
      else
        (priv_byte_copy (priv_byte_copy buf off tmpl 0 k_ra8_fs_dir_entry_bytes)
           (off + k_dir_off_name) (pl_name83 plan) 0 k_dir_name_field_len)[off + k_dir_off_ntres := pl_ntres plan])"

text \<open>\<open>left\<close> is the number of slots after the current one.\<close>

primrec commit_loop :: "'w mount \<Rightarrow> dir_insert \<Rightarrow> bytes \<Rightarrow> nat \<Rightarrow> dir_slot \<Rightarrow> bytes \<Rightarrow> u64 \<Rightarrow>
    ('w fs, bytes \<times> u64 \<times> nat) op" where
  "commit_loop m plan tmpl 0 cur buf lba =
     (let off = sl_ent cur * k_ra8_fs_dir_entry_bytes in
      returnE (commit_slot plan tmpl (pl_lfn_entries plan) buf off, lba, off))"
| "commit_loop m plan tmpl (Suc left) cur buf lba =
     (let buf' = commit_slot plan tmpl (pl_lfn_entries plan - Suc left) buf (sl_ent cur * k_ra8_fs_dir_entry_bytes) in
      bindE (internal_slot_advance m cur buf' lba) (\<lambda>(cur', buf'', lba').
        commit_loop m plan tmpl left cur' buf'' lba'))"

definition priv_dir_commit :: "'w mount \<Rightarrow> dir_insert \<Rightarrow> bytes \<Rightarrow> ('w fs, u64 \<times> nat) op" where
  "priv_dir_commit m plan tmpl =
     (let lba = w_cur_lba (sl_w (pl_start plan)) in
      bindE (priv_read_sector m lba) (\<lambda>buf.
      bindE (commit_loop m plan tmpl (pl_lfn_entries plan) (pl_start plan) buf lba) (\<lambda>(buf', lba', off).
      bindE (priv_write_sector m lba' buf') (\<lambda>_. returnE (lba', off)))))"

section \<open>Erasing an entry\<close>

definition internal_run_push :: "dir_pos list \<Rightarrow> u64 \<Rightarrow> nat \<Rightarrow> dir_pos list" where
  "internal_run_push run lba off =
     (let run' = (if length run = k_lfn_erase_max then tl run else run)
      in run' @ [\<lparr>pos_lba = lba, pos_off = off\<rparr>])"

primrec collect_entries :: "u64 \<Rightarrow> nat \<Rightarrow> u8 \<Rightarrow> u64 \<Rightarrow> bytes \<Rightarrow> nat list \<Rightarrow> dir_pos list \<Rightarrow>
    dir_pos list + (ra8_err + dir_pos list)" where
  "collect_entries tlba toff csum lba buf [] run = Inl run"
| "collect_entries tlba toff csum lba buf (e # es) run =
     (let off = e * k_ra8_fs_dir_entry_bytes; ent = dir_ent buf e in
      if lba = tlba \<and> off = toff then Inr (Inr run)
      else if ent ! k_dir_off_attr = k_ra8_fs_attr_lfn \<and> ent ! k_dir_off_name \<noteq> k_dir_marker_free_used \<and>
              ent ! k_lfn_off_checksum = csum
        then collect_entries tlba toff csum lba buf es (internal_run_push run lba off)
        else collect_entries tlba toff csum lba buf es [])"

definition internal_dir_collect_chain ::
    "'w mount \<Rightarrow> dir_loc \<Rightarrow> u64 \<Rightarrow> nat \<Rightarrow> u8 \<Rightarrow> ('w fs, dir_pos list) op" where
  "internal_dir_collect_chain m loc tlba toff csum =
     (let w = priv_dir_walk_init_loc m loc in
      dir_scan m (\<lambda>w buf. collect_entries tlba toff csum (w_cur_lba w) buf [0..<unat (priv_dir_eps m)])
        k_ra8_err_not_found (dir_fuel m w) w [])"

primrec erase_loop :: "'w mount \<Rightarrow> dir_pos list \<Rightarrow> u64 \<Rightarrow> bytes \<Rightarrow> ('w fs, unit) op" where
  "erase_loop m [] cur buf = priv_write_sector m cur buf"
| "erase_loop m (p # ps) cur buf =
     bindE (if pos_lba p \<noteq> cur then
              bindE (priv_write_sector m cur buf) (\<lambda>_. priv_read_sector m (pos_lba p))
            else returnE buf) (\<lambda>buf'.
       erase_loop m ps (pos_lba p) (buf'[pos_off p + k_dir_off_name := k_dir_marker_free_used]))"

definition internal_dir_erase_positions :: "'w mount \<Rightarrow> dir_pos list \<Rightarrow> ('w fs, unit) op" where
  "internal_dir_erase_positions m ps =
     (let cur = pos_lba (hd ps) in bindE (priv_read_sector m cur) (\<lambda>buf. erase_loop m ps cur buf))"

definition priv_dir_erase_chain :: "'w mount \<Rightarrow> dir_loc \<Rightarrow> u64 \<Rightarrow> nat \<Rightarrow> bytes \<Rightarrow> ('w fs, unit) op" where
  "priv_dir_erase_chain m loc lba off name83 =
     bindE (internal_dir_collect_chain m loc lba off (priv_sfn_checksum name83)) (\<lambda>run.
       internal_dir_erase_positions m (run @ [\<lparr>pos_lba = lba, pos_off = off\<rparr>]))"

end
