(* ===== verification/Dir_Spec.thy ===== *)
theory Dir_Spec
  imports Fat_Dir_Write
begin
text \<open>
  What a directory is, and what the walk and the lookups compute on it. A directory is the list of its
  cursors, one per sector in the order of the walk; its entries follow from the sectors. On a device that
  does not fail every scan over a well-formed directory ends and is the same scan over that list.
\<close>

section \<open>The walk over a table\<close>

definition pure_next :: "'w mount \<Rightarrow> (u32 \<Rightarrow> u32) \<Rightarrow> dir_walk \<Rightarrow> ra8_err + bool \<times> dir_walk" where
  "pure_next m tab w =
     (if w_is_root_fixed w then
        (if w_fixed_remaining w \<le> 1 then Inr (True, w)
         else Inr (False, w\<lparr>w_fixed_remaining := w_fixed_remaining w - 1, w_cur_lba := w_cur_lba w + 1,
                            w_entry_idx := 0\<rparr>))
      else let w1 = w\<lparr>w_sector_in_cluster := w_sector_in_cluster w + 1\<rparr> in
        if w_sector_in_cluster w1 \<ge> m_sectors_per_cluster m then
          if priv_is_eoc m (tab (w_cluster w)) then Inr (True, w1)
          else if w_cluster_hops w + 1 > m_count_of_clusters m then Inl k_ra8_err_protocol_error
          else Inr (False, w1\<lparr>w_cluster := tab (w_cluster w), w_sector_in_cluster := 0,
                 w_cur_lba := priv_cluster_to_lba m (tab (w_cluster w)), w_entry_idx := 0,
                 w_cluster_hops := w_cluster_hops w + 1\<rparr>)
        else Inr (False, w1\<lparr>w_cur_lba := w_cur_lba w1 + 1, w_entry_idx := 0\<rparr>))"

definition walk_path :: "'w mount \<Rightarrow> (u32 \<Rightarrow> u32) \<Rightarrow> dir_walk list \<Rightarrow> bool" where
  "walk_path m tab ws \<longleftrightarrow> ws \<noteq> [] \<and> successively (\<lambda>u v. pure_next m tab u = Inr (False, v)) ws \<and>
     (\<exists>w. pure_next m tab (last ws) = Inr (True, w)) \<and>
     (\<forall>w \<in> set ws. w_is_root_fixed w \<or> inData m (w_cluster w))"

text \<open>The cursors of the fixed root region and of a cluster chain.\<close>

definition fixed_walks :: "'w mount \<Rightarrow> dir_walk list" where
  "fixed_walks m = map (\<lambda>k. \<lparr>w_is_root_fixed = True, w_fixed_remaining = root_dir_sectors m - of_nat k,
      w_cluster = 0, w_sector_in_cluster = 0, w_cur_lba = m_first_root_lba m + of_nat k, w_entry_idx = 0,
      w_cluster_hops = 0\<rparr>) [0..<max 1 (unat (root_dir_sectors m))]"

definition cluster_walks :: "'w mount \<Rightarrow> nat \<Rightarrow> u32 \<Rightarrow> dir_walk list" where
  "cluster_walks m k c = map (\<lambda>j. \<lparr>w_is_root_fixed = False, w_fixed_remaining = 0, w_cluster = c,
      w_sector_in_cluster = of_nat j, w_cur_lba = priv_cluster_to_lba m c + of_nat j, w_entry_idx = 0,
      w_cluster_hops = of_nat k\<rparr>) [0..<unat (m_sectors_per_cluster m)]"

primrec chain_walks :: "'w mount \<Rightarrow> nat \<Rightarrow> u32 list \<Rightarrow> dir_walk list" where
  "chain_walks m k [] = []"
| "chain_walks m k (c # cs) = cluster_walks m k c @ chain_walks m (Suc k) cs"

definition dir_start :: "'w mount \<Rightarrow> dir_loc \<Rightarrow> u32" where
  "dir_start m loc = (if loc_is_root loc then m_root_cluster m else loc_cluster loc)"

definition dir_walks :: "'w mount \<Rightarrow> (u32 \<Rightarrow> u32) \<Rightarrow> dir_loc \<Rightarrow> dir_walk list \<Rightarrow> bool" where
  "dir_walks m tab loc ws \<longleftrightarrow> 0 < m_sectors_per_cluster m \<and>
     (if loc_is_root loc \<and> m_type m \<noteq> k_ra8_fs_type_fat32 then ws = fixed_walks m
      else \<exists>cs. chain m tab (dir_start m loc) cs \<and> ws = chain_walks m 0 cs)"

lemma of_nat_Suc_less:
  assumes "Suc i < unat (n :: 'a::len word)"
  shows "of_nat i + 1 < n"
proof -
  have "unat (of_nat (Suc i) :: 'a word) = Suc i"
    using assms unat_lt [of n] by (intro unat_of_nat_small) linarith
  with assms show ?thesis by (simp add: word_less_nat_alt add.commute)
qed

lemma successively_cluster:
  "successively (\<lambda>u v. pure_next m tab u = Inr (False, v)) (cluster_walks m k c)"
  by (auto simp: successively_conv_nth cluster_walks_def pure_next_def Let_def not_le add_ac
      dest: of_nat_Suc_less)

lemma cluster_walks_ends:
  assumes "0 < m_sectors_per_cluster m"
  shows "cluster_walks m k c \<noteq> []"
    and "hd (cluster_walks m k c) = \<lparr>w_is_root_fixed = False, w_fixed_remaining = 0, w_cluster = c,
      w_sector_in_cluster = 0, w_cur_lba = priv_cluster_to_lba m c, w_entry_idx = 0, w_cluster_hops = of_nat k\<rparr>"
    and "\<exists>l. last (cluster_walks m k c) = \<lparr>w_is_root_fixed = False, w_fixed_remaining = 0, w_cluster = c,
      w_sector_in_cluster = m_sectors_per_cluster m - 1, w_cur_lba = l, w_entry_idx = 0, w_cluster_hops = of_nat k\<rparr>"
proof -
  let ?n = "unat (m_sectors_per_cluster m)"
  have n: "0 < ?n" using assms by (simp add: word_less_nat_alt)
  then show ne: "cluster_walks m k c \<noteq> []" by (simp add: cluster_walks_def)
  from n show "hd (cluster_walks m k c) = \<lparr>w_is_root_fixed = False, w_fixed_remaining = 0, w_cluster = c,
      w_sector_in_cluster = 0, w_cur_lba = priv_cluster_to_lba m c, w_entry_idx = 0, w_cluster_hops = of_nat k\<rparr>"
    by (simp add: cluster_walks_def hd_map)
  have "(of_nat (?n - 1) :: u32) = m_sectors_per_cluster m - 1"
    using n by (simp add: of_nat_diff Suc_leI)
  with n show "\<exists>l. last (cluster_walks m k c) = \<lparr>w_is_root_fixed = False, w_fixed_remaining = 0, w_cluster = c,
      w_sector_in_cluster = m_sectors_per_cluster m - 1, w_cur_lba = l, w_entry_idx = 0, w_cluster_hops = of_nat k\<rparr>"
    by (simp add: cluster_walks_def last_map)
qed

lemma cluster_walks_cluster: "w \<in> set (cluster_walks m k c) \<Longrightarrow> w_cluster w = c"
  by (auto simp: cluster_walks_def)

lemma cluster_last_next:
  assumes "0 < m_sectors_per_cluster m" and "k < unat (m_count_of_clusters m)"
    and cnt: "unat (m_count_of_clusters m) + 2 < 2 ^ 32"
  shows "priv_is_eoc m (tab c) \<Longrightarrow> \<exists>w. pure_next m tab (last (cluster_walks m k c)) = Inr (True, w)"
    and "\<not> priv_is_eoc m (tab c) \<Longrightarrow>
      pure_next m tab (last (cluster_walks m k c)) = Inr (False, hd (cluster_walks m (Suc k) (tab c)))"
proof -
  obtain l where l: "last (cluster_walks m k c) = \<lparr>w_is_root_fixed = False, w_fixed_remaining = 0, w_cluster = c,
      w_sector_in_cluster = m_sectors_per_cluster m - 1, w_cur_lba = l, w_entry_idx = 0, w_cluster_hops = of_nat k\<rparr>"
    using cluster_walks_ends(3) [OF assms(1)] by blast
  have "unat (of_nat (Suc k) :: u32) = Suc k"
    using assms(2) cnt by (intro unat_of_nat_small) simp
  with assms(2) have hops: "\<not> of_nat k + 1 > m_count_of_clusters m"
    by (simp add: not_less word_le_nat_alt add.commute)
  show "\<exists>w. pure_next m tab (last (cluster_walks m k c)) = Inr (True, w)" if "priv_is_eoc m (tab c)"
    using that by (simp add: l pure_next_def Let_def)
  show "pure_next m tab (last (cluster_walks m k c)) = Inr (False, hd (cluster_walks m (Suc k) (tab c)))"
    if "\<not> priv_is_eoc m (tab c)"
    using that hops unfolding l cluster_walks_ends(2) [OF assms(1)]
    by (simp add: pure_next_def Let_def add.commute)
qed

lemma chain_walk_path:
  assumes "chain m tab c cs" and spc: "0 < m_sectors_per_cluster m"
    and "k + length cs \<le> unat (m_count_of_clusters m)" and cnt: "unat (m_count_of_clusters m) + 2 < 2 ^ 32"
  shows "walk_path m tab (chain_walks m k cs) \<and> hd (chain_walks m k cs) = hd (cluster_walks m k c)"
  using assms
proof (induction m tab c cs arbitrary: k rule: chain.induct)
  case (2 m tab c x)
  then have x: "x = c" "inData m c" "priv_is_eoc m (tab c)" "k < unat (m_count_of_clusters m)" by auto
  with cluster_last_next(1) [OF 2(2) x(4) 2(4), of tab c] cluster_walks_ends(1) [OF 2(2), of k c] show ?case
    by (auto simp: walk_path_def successively_cluster dest: cluster_walks_cluster)
next
  case (3 m tab c x y xs)
  then have x: "x = c" "inData m c" "\<not> priv_is_eoc m (tab c)" "chain m tab (tab c) (y # xs)"
    "k < unat (m_count_of_clusters m)" by auto
  have ih: "walk_path m tab (chain_walks m (Suc k) (y # xs))"
    "hd (chain_walks m (Suc k) (y # xs)) = hd (cluster_walks m (Suc k) (tab c))"
    using "3.IH" [OF x(4), of "Suc k"] 3(3-5) by auto
  let ?ys = "chain_walks m (Suc k) (y # xs)"
  have ne: "cluster_walks m k c \<noteq> []" "?ys \<noteq> []"
    using cluster_walks_ends(1) [OF 3(3)] ih(1) by (auto simp: walk_path_def)
  have "successively (\<lambda>u v. pure_next m tab u = Inr (False, v)) (cluster_walks m k c @ ?ys)"
    using ne ih cluster_last_next(2) [OF 3(3) x(5) 3(5), of tab c, OF x(3)]
    by (auto simp: successively_append_iff successively_cluster walk_path_def simp del: chain_walks.simps)
  moreover have "chain_walks m k (x # y # xs) = cluster_walks m k c @ ?ys" by (simp add: x(1))
  moreover have "\<forall>w \<in> set (cluster_walks m k c @ ?ys). w_is_root_fixed w \<or> inData m (w_cluster w)"
    using ih(1) x(2) by (auto simp: walk_path_def simp del: chain_walks.simps dest: cluster_walks_cluster)
  ultimately show ?case
    using ne ih(1) by (auto simp: walk_path_def simp del: chain_walks.simps)
qed simp

lemma fixed_walk_path: "walk_path m tab (fixed_walks m)"
proof -
  let ?n = "root_dir_sectors m"
  have rem: "\<not> ?n - of_nat i \<le> 1" if "Suc i < unat ?n" for i
  proof -
    have i: "unat (of_nat i :: u32) = i" using that unat_lt [of ?n] by (intro unat_of_nat_small) linarith
    then have "of_nat i \<le> ?n" using that by (simp add: word_le_nat_alt)
    then have "unat (?n - of_nat i) = unat ?n - i" by (simp add: unat_sub_le i)
    with that show ?thesis by (simp add: word_le_nat_alt)
  qed
  have last: "?n - of_nat (unat ?n - 1) \<le> 1" if "0 < unat ?n"
    using that by (simp add: of_nat_diff Suc_leI)
  have "max 1 (unat ?n) = (if ?n = 0 then 1 else unat ?n)"
    using unat_gt_0 [of ?n] by (auto simp: max_def)
  then show ?thesis
    using last rem by (cases "?n = 0") (auto simp: walk_path_def fixed_walks_def successively_conv_nth last_map
      pure_next_def unat_gt_0 algebra_simps)
qed

text \<open>The cursors of a well-formed directory are the path of the walk, and no longer than its fuel.\<close>

lemma length_chain_walks: "length (chain_walks m k cs) = length cs * unat (m_sectors_per_cluster m)"
  by (induction cs arbitrary: k) (simp_all add: cluster_walks_def)

lemma dir_walks_path:
  assumes g: "fat_geom m" and d: "dir_walks m tab loc ws"
  shows "walk_path m tab ws" and "hd ws = priv_dir_walk_init_loc m loc"
    and "length ws \<le> dir_fuel m (priv_dir_walk_init_loc m loc)"
proof -
  have cnt: "unat (m_count_of_clusters m) + 2 < 2 ^ 32" using g by (simp add: fat_geom_def)
  have "walk_path m tab ws \<and> hd ws = priv_dir_walk_init_loc m loc \<and>
    length ws \<le> dir_fuel m (priv_dir_walk_init_loc m loc)"
  proof (cases "loc_is_root loc \<and> m_type m \<noteq> k_ra8_fs_type_fat32")
    case True
    with d have "ws = fixed_walks m" by (simp add: dir_walks_def)
    with True fixed_walk_path [of m tab] show ?thesis
      by (simp add: fixed_walks_def hd_map priv_dir_walk_init_loc_def internal_dir_walk_init_root_def dir_fuel_def max_def)
  next
    case False
    with d obtain cs where cs: "chain m tab (dir_start m loc) cs" "ws = chain_walks m 0 cs"
      and spc: "0 < m_sectors_per_cluster m" by (auto simp: dir_walks_def)
    have "length cs \<le> unat (m_count_of_clusters m)" by (rule chain_length [OF g cs(1)])
    with chain_walk_path [OF cs(1) spc _ cnt, of 0] cs(2)
    have p: "walk_path m tab ws" "hd ws = hd (cluster_walks m 0 (dir_start m loc))" by auto
    have i: "priv_dir_walk_init_loc m loc = hd (cluster_walks m 0 (dir_start m loc))"
      using False by (auto simp: cluster_walks_ends(2) [OF spc] dir_start_def priv_dir_walk_init_loc_def
          internal_dir_walk_init_root_def)
    have "length cs * unat (m_sectors_per_cluster m) \<le>
        (unat (m_count_of_clusters m) + 1) * (unat (m_sectors_per_cluster m) + 1)"
      using \<open>length cs \<le> _\<close> by (intro mult_le_mono) auto
    then have "length ws \<le> dir_fuel m (priv_dir_walk_init_loc m loc)"
      unfolding i cs(2) length_chain_walks by (simp add: dir_fuel_def cluster_walks_ends(2) [OF spc])
    with p i show ?thesis by simp
  qed
  then show "walk_path m tab ws" "hd ws = priv_dir_walk_init_loc m loc"
    "length ws \<le> dir_fuel m (priv_dir_walk_init_loc m loc)" by blast+
qed

text \<open>A scan over a list of cursors, reading sectors with \<open>rd\<close>.\<close>

primrec scan_list :: "(dir_walk \<Rightarrow> bytes \<Rightarrow> 'st \<Rightarrow> 'st + (ra8_err + 'r)) \<Rightarrow> (u64 \<Rightarrow> bytes) \<Rightarrow> ra8_err \<Rightarrow>
    dir_walk list \<Rightarrow> 'st \<Rightarrow> ra8_err + 'r" where
  "scan_list body rd fin [] st = Inl fin"
| "scan_list body rd fin (w # ws) st =
     (case body w (rd (w_cur_lba w)) st of Inr r \<Rightarrow> r | Inl st' \<Rightarrow> scan_list body rd fin ws st')"

context reliable_device
begin

text \<open>A step that leaves the medium and every driver state but the FAT cache as they were.\<close>

definition only_read :: "'w mount \<Rightarrow> 'w fs \<Rightarrow> 'w fs \<Rightarrow> bool" where
  "only_read m s t \<longleftrightarrow> fs_inv valid content m t \<and> content (world t) = content (world s) \<and>
     nblocks (world t) = nblocks (world s) \<and> fat_frame s t"

lemma only_read_trans: "only_read m s t \<Longrightarrow> only_read m t u \<Longrightarrow> only_read m s u"
  by (auto simp: only_read_def intro: fat_frame_trans)

lemma only_read_medium: "only_read m s t \<Longrightarrow> fat_on_medium m t = fat_on_medium m s"
  "only_read m s t \<Longrightarrow> vsec content m t = vsec content m s"
  "only_read m s t \<Longrightarrow> fat_at content m t = fat_at content m s"
  by (simp_all add: only_read_def fat_on_medium_def vsec_def fun_eq_iff)
    (metis ext fat_at_world)

lemma read_sector_quiet:
  assumes m: "on_backend b bs m" and inv: "fs_inv valid content m s"
    and l: "unat (lba + m_partition_base_lba m) < nblocks (world s)"
  shows "\<exists>t. priv_read_sector m lba s = (Inr (vsec content m s lba), t) \<and> only_read m s t"
proof -
  from inv have v: "valid (world s)" by (simp add: fs_inv_def)
  from read_sector_ok [OF m v l] obtain buf t where
    t: "priv_read_sector m lba s = (Inr buf, t)" "nblocks (world t) = nblocks (world s)" by blast
  note rd = read_sector [OF m v t(1)]
  obtain w where w: "t = s\<lparr>world := w\<rparr>" using rd(3) by blast
  with rd(1,2) inv have "only_read m s t"
    using t(2) by (simp add: only_read_def fs_inv_def coherent_def vsec_def)
  with t(1) rd(4) [of buf] show ?thesis by auto
qed

lemma next_sector_quiet:
  assumes m: "on_backend b bs m" and g: "fat_geom m" and inv: "fs_inv valid content m s"
    and on: "fat_on_medium m s" and w: "w_is_root_fixed w \<or> inData m (w_cluster w)"
  shows "\<exists>t. priv_dir_walk_next_sector m w s = (pure_next m (fat_at content m s) w, t) \<and> only_read m s t"
proof (cases "\<not> w_is_root_fixed w \<and> w_sector_in_cluster w + 1 \<ge> m_sectors_per_cluster m")
  case True
  with w g have "in_fat m (w_cluster w)" by (auto simp: inData_iff in_data_in_fat)
  from fat_get_ok [OF m g this inv on] obtain t where
    t: "priv_fat_get m (w_cluster w) s = (Inr (fat_at content m s (w_cluster w)), t)"
    "nblocks (world t) = nblocks (world s)" by blast
  with fat_get [OF m inv t(1)] have "only_read m s t" by (simp add: only_read_def)
  with True t(1) show ?thesis
    by (auto simp: priv_dir_walk_next_sector_def walk_next_def pure_next_def Let_def)
next
  case False
  moreover have "only_read m s s" using inv by (simp add: only_read_def)
  ultimately show ?thesis
    by (auto simp: priv_dir_walk_next_sector_def walk_next_def pure_next_def Let_def)
qed

text \<open>A scan with enough fuel over the path of the walk is the scan over the list of its cursors.\<close>

lemma dir_scan_path:
  assumes m: "on_backend b bs m" and g: "fat_geom m"
    and "fs_inv valid content m s" and "fat_on_medium m s"
    and "walk_path m (fat_at content m s) (w # ws)" and "length (w # ws) \<le> n"
    and "\<And>v. v \<in> set (w # ws) \<Longrightarrow> unat (w_cur_lba v + m_partition_base_lba m) < nblocks (world s)"
  shows "\<exists>t. dir_scan m body fin n w st s = (scan_list body (vsec content m s) fin (w # ws) st, t) \<and> only_read m s t"
  using assms(3-)
proof (induction ws arbitrary: w n st s)
  case Nil
  then obtain k where n: "n = Suc k" by (cases n) auto
  obtain t where t: "priv_read_sector m (w_cur_lba w) s = (Inr (vsec content m s (w_cur_lba w)), t)" "only_read m s t"
    using read_sector_quiet [OF m Nil.prems(1)] Nil.prems(5) by force
  note eq = only_read_medium [OF t(2)]
  have wf: "w_is_root_fixed w \<or> inData m (w_cluster w)"
    and nx: "\<exists>w'. pure_next m (fat_at content m s) w = Inr (True, w')"
    using Nil.prems(3) by (auto simp: walk_path_def)
  have inv: "fs_inv valid content m t" using t(2) by (simp add: only_read_def)
  obtain u where u: "priv_dir_walk_next_sector m w t = (pure_next m (fat_at content m s) w, u)" "only_read m t u"
    using next_sector_quiet [OF m g inv _ wf] eq Nil.prems(2) by auto
  from t u nx only_read_trans [OF t(2) u(2)] show ?case
    unfolding n by (auto simp: bindE_def returnR_def split: sum.split)
next
  case (Cons v ws)
  then obtain k where n: "n = Suc k" by (cases n) auto
  obtain t where t: "priv_read_sector m (w_cur_lba w) s = (Inr (vsec content m s (w_cur_lba w)), t)" "only_read m s t"
    using read_sector_quiet [OF m Cons.prems(1)] Cons.prems(5) by force
  note eq = only_read_medium [OF t(2)]
  have wf: "w_is_root_fixed w \<or> inData m (w_cluster w)"
    and nx: "pure_next m (fat_at content m s) w = Inr (False, v)"
    and p: "walk_path m (fat_at content m s) (v # ws)"
    using Cons.prems(3) by (auto simp: walk_path_def)
  have inv: "fs_inv valid content m t" using t(2) by (simp add: only_read_def)
  obtain u where u: "priv_dir_walk_next_sector m w t = (Inr (False, v), u)" "only_read m t u"
    using next_sector_quiet [OF m g inv _ wf] eq Cons.prems(2) nx by auto
  note su = only_read_trans [OF t(2) u(2)]
  note equ = only_read_medium [OF su]
  have "\<exists>t'. dir_scan m body fin k v st' u = (scan_list body (vsec content m u) fin (v # ws) st', t') \<and> only_read m u t'" for st'
  proof (rule Cons.IH)
    show "fs_inv valid content m u" using u(2) by (simp add: only_read_def)
    show "fat_on_medium m u" "walk_path m (fat_at content m u) (v # ws)" using equ Cons.prems(2) p by simp_all
    show "length (v # ws) \<le> k" using Cons.prems(4) n by simp
    show "unat (w_cur_lba x + m_partition_base_lba m) < nblocks (world u)" if "x \<in> set (v # ws)" for x
      using Cons.prems(5) that su by (simp add: only_read_def)
  qed
  then have rest: "\<exists>t'. dir_scan m body fin k v st' u = (scan_list body (vsec content m s) fin (v # ws) st', t') \<and> only_read m s t'" for st'
    using only_read_trans [OF su] equ(2) by metis
  show ?case
  proof (cases "body w (vsec content m s (w_cur_lba w)) st")
    case (Inl st')
    from rest [of st'] t u show ?thesis unfolding n by (simp add: bindE_def Inl)
  next
    case (Inr r)
    with t show ?thesis unfolding n by (auto simp: bindE_def returnR_def)
  qed
qed

text \<open>The hypotheses of the lookups: a well-formed directory whose sectors lie on the medium.\<close>

definition dir_ok :: "'w mount \<Rightarrow> 'w fs \<Rightarrow> dir_loc \<Rightarrow> dir_walk list \<Rightarrow> bool" where
  "dir_ok m s loc ws \<longleftrightarrow> on_backend b bs m \<and> fat_geom m \<and> fs_inv valid content m s \<and> fat_on_medium m s \<and>
     dir_walks m (fat_at content m s) loc ws \<and>
     (\<forall>w \<in> set ws. unat (w_cur_lba w + m_partition_base_lba m) < nblocks (world s))"

lemma dir_scan_list:
  assumes "dir_ok m s loc ws"
  shows "\<exists>t. dir_scan m body fin (dir_fuel m (priv_dir_walk_init_loc m loc)) (priv_dir_walk_init_loc m loc) st s =
    (scan_list body (vsec content m s) fin ws st, t) \<and> only_read m s t"
proof -
  from assms have m: "on_backend b bs m" and g: "fat_geom m" and inv: "fs_inv valid content m s"
    and on: "fat_on_medium m s" and d: "dir_walks m (fat_at content m s) loc ws"
    and l: "\<And>v. v \<in> set ws \<Longrightarrow> unat (w_cur_lba v + m_partition_base_lba m) < nblocks (world s)"
    by (auto simp: dir_ok_def)
  note p = dir_walks_path [OF g d]
  have ws: "ws = priv_dir_walk_init_loc m loc # tl ws"
    using p(1,2) by (cases ws) (auto simp: walk_path_def)
  from dir_scan_path [OF m g inv on, of "hd ws" "tl ws"] p l ws show ?thesis by metis
qed

lemma dir_ok_read: "dir_ok m s loc ws \<Longrightarrow> only_read m s t \<Longrightarrow> dir_ok m t loc ws"
  using only_read_medium [of m s t] by (auto simp: dir_ok_def only_read_def)

end
end
