(* ===== verification/Dir_Slots.thy ===== *)
theory Dir_Slots
  imports Dir_Spec
begin

text \<open>
  The slots of a directory and the searches over them: the lookup of an 8.3 name returns the first live slot
  with that name, and the search for space returns the first run of free slots.
\<close>

section \<open>Entries and lookups\<close>

text \<open>The slots of a directory, in order.\<close>

definition dir_slots :: "(u64 \<Rightarrow> bytes) \<Rightarrow> nat \<Rightarrow> dir_walk list \<Rightarrow> dir_hit list" where
  "dir_slots rd eps ws = concat (map (\<lambda>w. map (\<lambda>e. \<lparr>hit_lba = w_cur_lba w, hit_off = e * 32,
     hit_entry = dir_ent (rd (w_cur_lba w)) e\<rparr>) [0..<eps]) ws)"

abbreviation slot_mark :: "dir_hit \<Rightarrow> u8" where
  "slot_mark h \<equiv> hit_entry h ! k_dir_off_name"

text \<open>The slots before the end marker, those that hold a live 8.3 entry, and the lookup of a name.\<close>

definition before_end :: "dir_hit list \<Rightarrow> dir_hit list" where
  "before_end hs = takeWhile (\<lambda>h. slot_mark h \<noteq> k_dir_marker_free_perm) hs"

definition holds_name :: "bytes \<Rightarrow> dir_hit \<Rightarrow> bool" where
  "holds_name name83 h \<longleftrightarrow> slot_mark h \<noteq> k_dir_marker_free_used \<and>
     hit_entry h ! k_dir_off_attr \<noteq> k_ra8_fs_attr_lfn \<and> priv_byte_equal (hit_entry h) 0 name83 0 k_dir_name_field_len"

definition lookup_83 :: "bytes \<Rightarrow> dir_hit list \<Rightarrow> dir_hit option" where
  "lookup_83 name83 hs = find (holds_name name83) (before_end hs)"

lemma find_append: "find P (xs @ ys) = (case find P xs of None \<Rightarrow> find P ys | Some x \<Rightarrow> Some x)"
  by (induction xs) auto

lemma before_end_append:
  "before_end (xs @ ys) = (if \<forall>h \<in> set xs. slot_mark h \<noteq> 0 then xs @ before_end ys else before_end xs)"
  by (auto simp: before_end_def takeWhile_append)

lemma before_end_all: "\<forall>h \<in> set xs. slot_mark h \<noteq> 0 \<Longrightarrow> before_end xs = xs"
  by (simp add: before_end_def takeWhile_eq_all_conv)

lemma lookup_append:
  "lookup_83 name83 (xs @ ys) = (case lookup_83 name83 xs of Some h \<Rightarrow> Some h
     | None \<Rightarrow> if \<forall>h \<in> set xs. slot_mark h \<noteq> 0 then lookup_83 name83 ys else None)"
  unfolding lookup_83_def before_end_append
  by (cases "\<forall>h \<in> set xs. slot_mark h \<noteq> 0") (auto simp: before_end_all find_append split: option.split)

lemma find_entries_spec:
  fixes name83 buf lba es
  defines "hs \<equiv> map (\<lambda>e. \<lparr>hit_lba = lba, hit_off = e * 32, hit_entry = dir_ent buf e\<rparr>) es"
  shows "dir_find_entries name83 buf lba es =
    (case lookup_83 name83 hs of Some h \<Rightarrow> Inr (Inr h)
     | None \<Rightarrow> if \<forall>h \<in> set hs. slot_mark h \<noteq> 0 then Inl () else Inr (Inl k_ra8_err_not_found))"
  unfolding hs_def
  by (induction es) (auto simp: lookup_83_def before_end_def holds_name_def Let_def split: option.splits)

lemma scan_list_find:
  "scan_list (\<lambda>w buf _. dir_find_entries name83 buf (w_cur_lba w) [0..<eps]) rd k_ra8_err_not_found ws st =
    (case lookup_83 name83 (dir_slots rd eps ws) of Some h \<Rightarrow> Inr h | None \<Rightarrow> Inl k_ra8_err_not_found)"
proof (induction ws arbitrary: st)
  case Nil
  then show ?case by (simp add: dir_slots_def lookup_83_def before_end_def)
next
  case (Cons w ws)
  let ?hs = "map (\<lambda>e. \<lparr>hit_lba = w_cur_lba w, hit_off = e * 32, hit_entry = dir_ent (rd (w_cur_lba w)) e\<rparr>) [0..<eps]"
  have "dir_slots rd eps (w # ws) = ?hs @ dir_slots rd eps ws" by (simp add: dir_slots_def)
  note l = lookup_append [of name83 ?hs "dir_slots rd eps ws", folded this]
  show ?case
    unfolding l scan_list.simps
    by (simp add: Cons.IH find_entries_spec [of name83 "rd (w_cur_lba w)" "w_cur_lba w" "[0..<eps]"] split: option.split)
qed

context reliable_device
begin

lemma dir_find_spec:
  assumes "dir_ok m s loc ws"
  shows "\<exists>t. priv_dir_find m loc name83 s =
    (case lookup_83 name83 (dir_slots (vsec content m s) (unat (priv_dir_eps m)) ws) of
       Some h \<Rightarrow> Inr h | None \<Rightarrow> Inl k_ra8_err_not_found, t) \<and> only_read m s t"
  using dir_scan_list [OF assms, where st = "()" and fin = k_ra8_err_not_found
      and body = "\<lambda>w buf _. dir_find_entries name83 buf (w_cur_lba w) [0..<unat (priv_dir_eps m)]"]
  by (simp add: priv_dir_find_def Let_def scan_list_find)

end

section \<open>Free slots\<close>

definition slot_free :: "dir_hit \<Rightarrow> bool" where
  "slot_free h \<longleftrightarrow> internal_slot_is_free (hit_entry h)"

text \<open>Where a slot number of a directory is: the cursor of its sector and the index in it.\<close>

definition nth_slot :: "nat \<Rightarrow> dir_walk list \<Rightarrow> nat \<Rightarrow> dir_slot" where
  "nth_slot eps ws p = \<lparr>sl_w = ws ! (p div eps), sl_ent = p mod eps\<rparr>"

lemma length_dir_slots: "length (dir_slots rd eps ws) = length ws * eps"
  by (induction ws) (simp_all add: dir_slots_def)

lemma nth_dir_slots:
  assumes "0 < eps"
  shows "p < length ws * eps \<Longrightarrow> dir_slots rd eps ws ! p = \<lparr>hit_lba = w_cur_lba (ws ! (p div eps)),
    hit_off = p mod eps * 32, hit_entry = dir_ent (rd (w_cur_lba (ws ! (p div eps)))) (p mod eps)\<rparr>"
proof (induction ws arbitrary: p)
  case (Cons w ws)
  have s: "dir_slots rd eps (w # ws) = map (\<lambda>e. \<lparr>hit_lba = w_cur_lba w, hit_off = e * 32,
      hit_entry = dir_ent (rd (w_cur_lba w)) e\<rparr>) [0..<eps] @ dir_slots rd eps ws" by (simp add: dir_slots_def)
  show ?case
  proof (cases "p < eps")
    case True
    then show ?thesis by (simp add: s nth_append)
  next
    case False
    then have "p div eps = Suc ((p - eps) div eps)" "p mod eps = (p - eps) mod eps"
      using assms by (simp_all add: div_if mod_if)
    with False Cons.IH [of "p - eps"] Cons.prems show ?thesis by (simp add: s nth_append)
  qed
qed simp

text \<open>The first run of \<open>need\<close> free slots.\<close>

fun first_run :: "nat \<Rightarrow> bool list \<Rightarrow> nat \<Rightarrow> nat \<Rightarrow> nat option" where
  "first_run need [] p run = None"
| "first_run need (f # fs) p run =
     (if \<not> f then first_run need fs (Suc p) 0
      else if Suc run \<ge> need then Some (Suc p - Suc run)
      else first_run need fs (Suc p) (Suc run))"


definition free_run :: "nat \<Rightarrow> bool list \<Rightarrow> nat \<Rightarrow> bool" where
  "free_run need fs q \<longleftrightarrow> q + need \<le> length fs \<and> (\<forall>i < need. fs ! (q + i))"

text \<open>The length of the run of free slots at the end of a list.\<close>

definition end_run :: "bool list \<Rightarrow> nat" where
  "end_run fs = length (takeWhile id (rev fs))"

lemma end_run_snoc [simp]: "end_run [] = 0" "end_run (fs @ [True]) = Suc (end_run fs)" "end_run (fs @ [False]) = 0"
  by (simp_all add: end_run_def)

lemma end_run_le: "end_run fs \<le> length fs"
  unfolding end_run_def by (metis length_rev length_takeWhile_le)

lemma end_run_free: "length fs - end_run fs \<le> i \<Longrightarrow> i < length fs \<Longrightarrow> fs ! i"
  using set_takeWhileD [of "takeWhile id (rev fs) ! (length fs - 1 - i)" id "rev fs"] takeWhile_nth [of "length fs - 1 - i" id "rev fs"]
  by (auto simp: end_run_def rev_nth)

lemma end_run_ge: "free_run need fs q \<Longrightarrow> q + need = length fs \<Longrightarrow> need \<le> end_run fs"
proof (induction fs arbitrary: need rule: rev_induct)
  case (snoc f fs)
  show ?case
  proof (cases need)
    case (Suc k)
    with snoc.prems have "(fs @ [f]) ! (q + k)" "q + k = length fs" by (auto simp: free_run_def)
    then have "f" by simp
    moreover have "free_run k fs q"
      unfolding free_run_def using snoc.prems Suc by (auto simp: free_run_def nth_append dest!: spec)
    ultimately show ?thesis using snoc.IH [of k] snoc.prems(2) Suc by simp
  qed simp
qed simp

lemma free_run_append: "free_run need fs q \<Longrightarrow> free_run need (fs @ gs) q"
  by (auto simp: free_run_def nth_append)

lemma free_run_prefix: "free_run need (fs @ gs) q \<Longrightarrow> q + need \<le> length fs \<Longrightarrow> free_run need fs q"
  by (fastforce simp: free_run_def nth_append)

text \<open>The search over a list, which returns the first run.\<close>

lemma first_run_spec:
  assumes "end_run pre < need" and "\<nexists>q. free_run need pre q"
  shows "case first_run need fs (length pre) (end_run pre) of
      None \<Rightarrow> \<nexists>q. free_run need (pre @ fs) q
    | Some q \<Rightarrow> free_run need (pre @ fs) q \<and> (\<forall>q' < q. \<not> free_run need (pre @ fs) q')"
  using assms
proof (induction fs arbitrary: pre)
  case (Cons f fs)
  have none: "\<nexists>q. free_run need (pre @ [f]) q" if "end_run (pre @ [f]) < need"
  proof
    assume "\<exists>q. free_run need (pre @ [f]) q"
    then obtain q where q: "free_run need (pre @ [f]) q" by blast
    then have "q + need \<le> Suc (length pre)" by (simp add: free_run_def)
    with q Cons.prems(2) end_run_ge [OF q] that free_run_prefix [OF q] show False
      by (cases "q + need = Suc (length pre)") auto
  qed
  show ?case
  proof (cases "f \<and> need \<le> Suc (end_run pre)")
    case True
    with Cons.prems(1) have n: "need = Suc (end_run pre)" by simp
    let ?q = "length pre - end_run pre"
    have "free_run need (pre @ f # fs) ?q"
      unfolding free_run_def n using True end_run_le [of pre]
      by (auto simp: nth_append less_Suc_eq intro!: end_run_free)
    moreover have "\<not> free_run need (pre @ f # fs) q'" if "q' < ?q" for q'
    proof -
      have "q' + need \<le> length pre" using that n by linarith
      with Cons.prems(2) free_run_prefix [of need pre "f # fs" q'] show ?thesis by blast
    qed
    ultimately show ?thesis using True end_run_le [of pre] by (simp add: Suc_diff_le)
  next
    case False
    then have e: "end_run (pre @ [f]) = (if f then Suc (end_run pre) else 0)" "end_run (pre @ [f]) < need"
      using Cons.prems(1) by (cases f; simp)+
    have fr: "first_run need (f # fs) (length pre) (end_run pre) = first_run need fs (length (pre @ [f])) (end_run (pre @ [f]))"
      unfolding e(1) using False by auto
    have app: "pre @ f # fs = (pre @ [f]) @ fs" by simp
    show ?thesis unfolding fr app by (rule Cons.IH [OF e(2) none [OF e(2)]])
  qed
qed simp

lemma first_run_append:
  assumes "end_run pre < need"
  shows "first_run need (xs @ ys) (length pre) (end_run pre) =
    (case first_run need xs (length pre) (end_run pre) of Some q \<Rightarrow> Some q
     | None \<Rightarrow> first_run need ys (length pre + length xs) (end_run (pre @ xs)))"
  using assms
proof (induction xs arbitrary: pre)
  case (Cons x xs)
  have e: "end_run (pre @ [x]) = (if x then Suc (end_run pre) else 0)" by (cases x) simp_all
  from Cons.IH [of "pre @ [x]"] Cons.prems show ?case unfolding e by (auto split: option.split)
qed simp

text \<open>The loop state of the search after the slots \<open>pre\<close>.\<close>

definition run_state :: "nat \<Rightarrow> dir_walk list \<Rightarrow> bool list \<Rightarrow> dir_slot option \<times> nat \<Rightarrow> bool" where
  "run_state eps ws pre st \<longleftrightarrow> snd st = end_run pre \<and>
     (0 < end_run pre \<longrightarrow> fst st = Some (nth_slot eps ws (length pre - end_run pre)))"

lemma free_run_entries_spec:
  assumes "run_state eps ws pre st" and "end_run pre < need"
    and "length pre = k * eps + e" and "e \<le> eps" and "w = ws ! k"
    and "fs = map (\<lambda>e. internal_slot_is_free (dir_ent buf e)) [e..<eps]"
  shows "case first_run need fs (length pre) (end_run pre) of
      Some q \<Rightarrow> free_run_entries need w buf [e..<eps] st = Inr (Inr (nth_slot eps ws q))
    | None \<Rightarrow> \<exists>st'. free_run_entries need w buf [e..<eps] st = Inl st' \<and> run_state eps ws (pre @ fs) st' \<and>
        end_run (pre @ fs) < need"
  using assms
proof (induction "eps - e" arbitrary: e pre st fs)
  case 0
  then show ?case by simp
next
  case (Suc n)
  then have lt: "e < eps" by simp
  let ?f = "internal_slot_is_free (dir_ent buf e)"
  let ?fs = "map (\<lambda>e. internal_slot_is_free (dir_ent buf e)) [Suc e..<eps]"
  have es: "[e..<eps] = e # [Suc e..<eps]" and fs: "fs = ?f # ?fs" using lt Suc.prems(6) by (simp_all add: upt_conv_Cons)
  have len: "length (pre @ [?f]) = k * eps + Suc e" using Suc.prems(3) by simp
  have here: "nth_slot eps ws (length pre) = \<lparr>sl_w = w, sl_ent = e\<rparr>"
    using lt Suc.prems(3,5) by (simp add: nth_slot_def)
  define start where "start = (case st of (Some sl, Suc _) \<Rightarrow> sl | _ \<Rightarrow> \<lparr>sl_w = w, sl_ent = e\<rparr>)"
  have start: "start = nth_slot eps ws (length pre - end_run pre)"
    using Suc.prems(1) here unfolding start_def run_state_def
    by (cases "end_run pre") (auto split: prod.splits option.splits nat.splits)
  have sn: "snd st = end_run pre" using Suc.prems(1) by (simp add: run_state_def)
  show ?case
  proof (cases "?f \<and> need \<le> Suc (end_run pre)")
    case True
    then show ?thesis
      using end_run_le [of pre] by (simp add: es fs Let_def sn start_def [symmetric] start)
  next
    case False
    define st1 where "st1 = (if ?f then (Some start, Suc (end_run pre)) else (fst st, 0))"
    have step: "free_run_entries need w buf [e..<eps] st = free_run_entries need w buf [Suc e..<eps] st1"
      using False by (auto simp: es Let_def sn start_def [symmetric] st1_def not_le)
    have e: "end_run (pre @ [?f]) = (if ?f then Suc (end_run pre) else 0)" by (cases ?f) simp_all
    then have lt': "end_run (pre @ [?f]) < need" using False Suc.prems(2) by auto
    have rs: "run_state eps ws (pre @ [?f]) st1"
      using end_run_le [of pre] unfolding run_state_def e st1_def start by auto
    have fr: "first_run need fs (length pre) (end_run pre) =
        first_run need ?fs (length (pre @ [?f])) (end_run (pre @ [?f]))"
      unfolding e fs using False by auto
    have app: "pre @ fs = (pre @ [?f]) @ ?fs" by (simp add: fs)
    have n: "n = eps - Suc e" "Suc e \<le> eps" using Suc.hyps(2) by simp_all
    show ?thesis
      unfolding fr step app by (rule Suc.hyps(1) [OF n(1) rs lt' len n(2) Suc.prems(5) refl])
  qed
qed

definition slots_free :: "(u64 \<Rightarrow> bytes) \<Rightarrow> nat \<Rightarrow> dir_walk list \<Rightarrow> bool list" where
  "slots_free rd eps ws = map slot_free (dir_slots rd eps ws)"

lemma slots_free_Cons:
  "slots_free rd eps (w # ws) =
     map (\<lambda>e. internal_slot_is_free (dir_ent (rd (w_cur_lba w)) e)) [0..<eps] @ slots_free rd eps ws"
  by (simp add: slots_free_def dir_slots_def slot_free_def comp_def)

lemma scan_list_free_run:
  assumes "ws = vs @ us" and "run_state eps ws pre st" and "end_run pre < need" and "length pre = length vs * eps"
  shows "scan_list (\<lambda>w buf. free_run_entries need w buf [0..<eps]) rd k_ra8_err_no_mem us st =
    (case first_run need (slots_free rd eps us) (length pre) (end_run pre) of
       Some q \<Rightarrow> Inr (nth_slot eps ws q) | None \<Rightarrow> Inl k_ra8_err_no_mem)"
  using assms
proof (induction us arbitrary: vs pre st)
  case Nil
  then show ?case by (simp add: slots_free_def dir_slots_def)
next
  case (Cons u us)
  let ?fs = "map (\<lambda>e. internal_slot_is_free (dir_ent (rd (w_cur_lba u)) e)) [0..<eps]"
  have u: "u = ws ! length vs" using Cons.prems(1) by (simp add: nth_append)
  note sec = free_run_entries_spec [OF Cons.prems(2,3), of "length vs" 0 u ?fs "rd (w_cur_lba u)"]
  note app = first_run_append [OF Cons.prems(3), of ?fs "slots_free rd eps us"]
  show ?case
  proof (cases "first_run need ?fs (length pre) (end_run pre)")
    case None
    with sec Cons.prems(4) u obtain st' where
      st': "free_run_entries need u (rd (w_cur_lba u)) [0..<eps] st = Inl st'"
      "run_state eps ws (pre @ ?fs) st'" "end_run (pre @ ?fs) < need" by auto
    have "scan_list (\<lambda>w buf. free_run_entries need w buf [0..<eps]) rd k_ra8_err_no_mem us st' =
      (case first_run need (slots_free rd eps us) (length (pre @ ?fs)) (end_run (pre @ ?fs)) of
       Some q \<Rightarrow> Inr (nth_slot eps ws q) | None \<Rightarrow> Inl k_ra8_err_no_mem)"
      by (rule Cons.IH [of "vs @ [u]"]) (use Cons.prems st' in simp_all)
    then show ?thesis using None app st'(1) by (simp add: slots_free_Cons)
  next
    case (Some q)
    with sec Cons.prems(4) u have
      "free_run_entries need u (rd (w_cur_lba u)) [0..<eps] st = Inr (Inr (nth_slot eps ws q))" by auto
    then show ?thesis using Some app by (simp add: slots_free_Cons)
  qed
qed

context reliable_device
begin

text \<open>The search finds the first run of free slots, and fails only if the directory has none.\<close>

lemma find_free_run_spec:
  assumes ok: "dir_ok m s loc ws" and need: "0 < need"
  defines "fs \<equiv> slots_free (vsec content m s) (unat (priv_dir_eps m)) ws"
  shows "\<exists>r t. priv_dir_find_free_run m loc need s = (r, t) \<and> only_read m s t \<and>
    (case r of
       Inr sl \<Rightarrow> \<exists>q. sl = nth_slot (unat (priv_dir_eps m)) ws q \<and> free_run need fs q \<and> (\<forall>q' < q. \<not> free_run need fs q')
     | Inl e \<Rightarrow> e = k_ra8_err_no_mem \<and> (\<nexists>q. free_run need fs q))"
proof -
  let ?eps = "unat (priv_dir_eps m)"
  have none: "\<nexists>q. free_run need [] q" using need by (auto simp: free_run_def)
  have rs: "run_state ?eps ws [] (None, 0)" by (simp add: run_state_def)
  have "scan_list (\<lambda>w buf. free_run_entries need w buf [0..<?eps]) (vsec content m s) k_ra8_err_no_mem ws (None, 0) =
    (case first_run need fs 0 0 of Some q \<Rightarrow> Inr (nth_slot ?eps ws q) | None \<Rightarrow> Inl k_ra8_err_no_mem)"
    using scan_list_free_run [of ws "[]" ws ?eps "[]" "(None, 0)" need] rs need by (simp add: fs_def)
  with dir_scan_list [OF ok, where st = "(None, 0)" and fin = k_ra8_err_no_mem
      and body = "\<lambda>w buf. free_run_entries need w buf [0..<?eps]"]
  obtain t where t: "priv_dir_find_free_run m loc need s =
      (case first_run need fs 0 0 of Some q \<Rightarrow> Inr (nth_slot ?eps ws q) | None \<Rightarrow> Inl k_ra8_err_no_mem, t)"
    "only_read m s t" by (auto simp: priv_dir_find_free_run_def Let_def)
  from first_run_spec [of "[]" need fs] none need t show ?thesis
    by (cases "first_run need fs 0 0") auto
qed

end
end
