(* ===== verification/Dir_Commit.thy ===== *)
theory Dir_Commit
  imports Dir_Slots
begin

text \<open>
  What a commit of a reserved run does to a directory: the planned slots are stored where the run is, every
  other slot and every other sector stays as it was, and the directory stays well-formed.
\<close>

section \<open>Storing slots\<close>

abbreviation slot_lba :: "nat \<Rightarrow> dir_walk list \<Rightarrow> nat \<Rightarrow> u64" where
  "slot_lba eps ws q \<equiv> w_cur_lba (ws ! (q div eps))"

definition put_slot :: "nat \<Rightarrow> dir_walk list \<Rightarrow> nat \<Rightarrow> bytes \<Rightarrow> (u64 \<Rightarrow> bytes) \<Rightarrow> u64 \<Rightarrow> bytes" where
  "put_slot eps ws q ent rd = rd(slot_lba eps ws q := splice_at (rd (slot_lba eps ws q)) (q mod eps * 32) ent)"

primrec put_slots :: "nat \<Rightarrow> dir_walk list \<Rightarrow> nat \<Rightarrow> bytes list \<Rightarrow> (u64 \<Rightarrow> bytes) \<Rightarrow> u64 \<Rightarrow> bytes" where
  "put_slots eps ws q [] rd = rd"
| "put_slots eps ws q (ent # ents) rd = put_slots eps ws (Suc q) ents (put_slot eps ws q ent rd)"

lemma dir_ent_splice:
  assumes "length ent = 32" and "k < eps" "e < eps" and "eps * 32 \<le> length buf"
  shows "dir_ent (splice_at buf (k * 32) ent) e = (if e = k then ent else dir_ent buf e)"
proof -
  have k: "k * 32 + 32 \<le> length buf" and e: "e * 32 + 32 \<le> length buf"
    using assms mult_le_mono1 [of "Suc k" eps 32] mult_le_mono1 [of "Suc e" eps 32] by auto
  show ?thesis
  proof (rule nth_equalityI)
    show "length (dir_ent (splice_at buf (k * 32) ent) e) = length (if e = k then ent else dir_ent buf e)"
      using k e assms(1) by simp
  next
    fix i assume "i < length (dir_ent (splice_at buf (k * 32) ent) e)"
    then have i: "i < 32" by simp
    have "k * 32 \<le> e * 32 + i \<and> e * 32 + i < k * 32 + 32 \<longleftrightarrow> e = k"
      using i by (cases e k rule: linorder_cases) auto
    with i k e assms(1) show "dir_ent (splice_at buf (k * 32) ent) e ! i = (if e = k then ent else dir_ent buf e) ! i"
      by (simp add: nth_splice_at)
  qed
qed

lemma length_put_slot:
  assumes "\<And>l. length (rd l) = bs" and "length ent = 32" and "0 < eps" "eps * 32 \<le> bs"
  shows "length (put_slot eps ws q ent rd l) = bs"
proof -
  have "Suc (q mod eps) * 32 \<le> eps * 32" using assms(3) by (intro mult_le_mono1) (simp add: Suc_leI)
  with assms show ?thesis by (simp add: put_slot_def)
qed

lemma dir_slots_put_slot:
  assumes d: "distinct (map w_cur_lba ws)" and q: "q < length ws * eps" and "length ent = 32"
    and "0 < eps" "eps * 32 \<le> bs" and len: "\<And>l. length (rd l) = bs"
  shows "dir_slots (put_slot eps ws q ent rd) eps ws =
    (dir_slots rd eps ws)[q := \<lparr>hit_lba = slot_lba eps ws q, hit_off = q mod eps * 32, hit_entry = ent\<rparr>]"
proof (rule nth_equalityI)
  show "length (dir_slots (put_slot eps ws q ent rd) eps ws) =
    length ((dir_slots rd eps ws)[q := \<lparr>hit_lba = slot_lba eps ws q, hit_off = q mod eps * 32, hit_entry = ent\<rparr>])"
    by (simp add: length_dir_slots)
next
  fix p assume "p < length (dir_slots (put_slot eps ws q ent rd) eps ws)"
  then have p: "p < length ws * eps" by (simp add: length_dir_slots)
  have dv: "p div eps < length ws" "q div eps < length ws"
    using p q \<open>0 < eps\<close> by (simp_all add: less_mult_imp_div_less)
  have lba: "slot_lba eps ws p = slot_lba eps ws q \<longleftrightarrow> p div eps = q div eps"
    using d dv by (simp add: distinct_conv_nth) (metis nth_map)
  have eq: "p = q \<longleftrightarrow> p div eps = q div eps \<and> p mod eps = q mod eps" by (metis div_mult_mod_eq)
  have m: "q mod eps < eps" "p mod eps < eps" using \<open>0 < eps\<close> by simp_all
  have "dir_ent (put_slot eps ws q ent rd (slot_lba eps ws p)) (p mod eps) =
      (if p = q then ent else dir_ent (rd (slot_lba eps ws p)) (p mod eps))"
    using assms(3,5) len m dir_ent_splice [OF assms(3) m, of "rd (slot_lba eps ws q)"] lba eq
    by (auto simp: put_slot_def)
  then show "dir_slots (put_slot eps ws q ent rd) eps ws ! p =
    (dir_slots rd eps ws)[q := \<lparr>hit_lba = slot_lba eps ws q, hit_off = q mod eps * 32, hit_entry = ent\<rparr>] ! p"
    using p q \<open>0 < eps\<close> by (auto simp: nth_dir_slots nth_list_update length_dir_slots)
qed

text \<open>The slots after storing a run of entries.\<close>

lemma dir_slots_put_slots:
  assumes d: "distinct (map w_cur_lba ws)" and "q + length ents \<le> length ws * eps"
    and "\<forall>ent \<in> set ents. length ent = 32" and "0 < eps" "eps * 32 \<le> bs" and "\<And>l. length (rd l) = bs"
  shows "\<forall>p < length ws * eps. dir_slots (put_slots eps ws q ents rd) eps ws ! p =
    (if q \<le> p \<and> p < q + length ents
     then \<lparr>hit_lba = slot_lba eps ws p, hit_off = p mod eps * 32, hit_entry = ents ! (p - q)\<rparr>
     else dir_slots rd eps ws ! p)"
  using assms(2-)
proof (induction ents arbitrary: q rd)
  case (Cons ent ents)
  have l: "length (put_slot eps ws q ent rd l) = bs" for l
    using Cons.prems by (intro length_put_slot) auto
  have s: "dir_slots (put_slot eps ws q ent rd) eps ws =
    (dir_slots rd eps ws)[q := \<lparr>hit_lba = slot_lba eps ws q, hit_off = q mod eps * 32, hit_entry = ent\<rparr>]"
    using Cons.prems by (intro dir_slots_put_slot [OF d]) auto
  have "\<forall>p < length ws * eps. dir_slots (put_slots eps ws (Suc q) ents (put_slot eps ws q ent rd)) eps ws ! p =
    (if Suc q \<le> p \<and> p < Suc q + length ents
     then \<lparr>hit_lba = slot_lba eps ws p, hit_off = p mod eps * 32, hit_entry = ents ! (p - Suc q)\<rparr>
     else dir_slots (put_slot eps ws q ent rd) eps ws ! p)"
    using Cons.prems l by (intro Cons.IH) auto
  then show ?case
    using Cons.prems(1) by (auto simp: s nth_list_update length_dir_slots nth_Cons split: nat.split)
      (metis Suc_eq_plus1 diff_Suc_1 diff_diff_left)
qed auto

section \<open>What a commit stores\<close>

definition new_entry :: "dir_insert \<Rightarrow> bytes \<Rightarrow> bytes" where
  "new_entry plan tmpl = (splice_at tmpl 0 (pl_name83 plan))[k_dir_off_ntres := pl_ntres plan]"

definition plan_slot :: "dir_insert \<Rightarrow> bytes \<Rightarrow> nat \<Rightarrow> bytes" where
  "plan_slot plan tmpl i =
     (if i < pl_lfn_entries plan
      then priv_lfn_fill_slot (pl_units plan) (length (pl_units plan)) (pl_lfn_entries plan - i) (i = 0)
             (priv_sfn_checksum (pl_name83 plan))
      else new_entry plan tmpl)"

lemma length_plan_slot: "length tmpl = 32 \<Longrightarrow> length (pl_name83 plan) = 11 \<Longrightarrow> length (plan_slot plan tmpl i) = 32"
  by (simp add: plan_slot_def new_entry_def length_fill_slot)

lemma commit_slot_splice:
  assumes "length tmpl = 32" "length (pl_name83 plan) = 11" "off + 32 \<le> length buf"
  shows "commit_slot plan tmpl i buf off = splice_at buf off (plan_slot plan tmpl i)"
proof (rule nth_equalityI)
  show "length (commit_slot plan tmpl i buf off) = length (splice_at buf off (plan_slot plan tmpl i))"
    using assms by (simp add: commit_slot_def length_plan_slot)
next
  fix j assume "j < length (commit_slot plan tmpl i buf off)"
  then have j: "j < length buf" by (simp add: commit_slot_def split: if_splits)
  have l: "length (plan_slot plan tmpl i) = 32" using assms by (simp add: length_plan_slot)
  show "commit_slot plan tmpl i buf off ! j = splice_at buf off (plan_slot plan tmpl i) ! j"
  proof (cases "off \<le> j \<and> j < off + 32")
    case True
    then obtain k where k: "j = off + k" "k < 32" by (metis le_add_diff_inverse nat_add_left_cancel_less)
    show ?thesis
      using assms j l k
      by (auto simp: commit_slot_def plan_slot_def new_entry_def nth_byte_copy nth_splice_at nth_list_update length_fill_slot)
  next
    case False
    with assms j l show ?thesis
      by (auto simp: commit_slot_def nth_byte_copy nth_splice_at nth_list_update)
  qed
qed

context reliable_device
begin

text \<open>A directory whose sectors are distinct and lie outside the FAT.\<close>

definition dir_good :: "'w mount \<Rightarrow> 'w fs \<Rightarrow> dir_loc \<Rightarrow> dir_walk list \<Rightarrow> bool" where
  "dir_good m s loc ws \<longleftrightarrow> dir_ok m s loc ws \<and> distinct (map w_cur_lba ws) \<and>
     (\<forall>w \<in> set ws. w_cur_lba w + m_partition_base_lba m \<notin> fat_area m)"

lemma dir_good_read: "dir_good m s loc ws \<Longrightarrow> only_read m s t \<Longrightarrow> dir_good m t loc ws"
  using dir_ok_read by (auto simp: dir_good_def)

lemma cacheable_fat_area:
  assumes "fat_geom m" and "internal_lba_is_cacheable m lba"
  shows "lba + m_partition_base_lba m \<in> fat_area m"
proof -
  let ?q = "unat (lba - m_first_fat_lba m)"
  have "?q < unat (m_fat_size_sectors m)" using assms(2) by (simp add: internal_lba_is_cacheable_def word_less_nat_alt)
  moreover have "fat_lba m 0 ?q = lba" by (simp add: fat_lba_def)
  moreover have "0 < unat (m_num_fats m)" using assms(1) by (simp add: fat_geom_def word_less_nat_alt)
  ultimately show ?thesis unfolding fat_area_def by force
qed

text \<open>The FAT does not depend on the blocks outside it.\<close>

lemma fat_at_outside:
  assumes m: "on_backend b bs m" and g: "fat_geom m" and c: "in_fat m c"
    and same: "\<And>l. l \<in> fat_area m \<Longrightarrow> content (world t) l = content (world s) l"
  shows "fat_at content m t c = fat_at content m s c"
proof -
  have i: "0 < unat (m_num_fats m)" using g by (simp add: fat_geom_def word_less_nat_alt)
  have "fat_byte content m t 0 (entry_off (m_type m) (unat c) + k) = fat_byte content m s 0 (entry_off (m_type m) (unat c) + k)"
    if "k < entry_width (m_type m)" for k
    using same [OF fat_area_entry [OF m g c i that]] m
    by (simp add: fat_byte_def vsec_def on_backend_def priv_bps_def)
  then show ?thesis unfolding fat_at_def by (rule fat_decode_cong)
qed

lemma write_dir_sector:
  assumes d: "dir_good m s loc ws" and w: "w \<in> set ws" and len: "length buf = bs"
  shows "\<exists>t. priv_write_sector m (w_cur_lba w) buf s = (Inr (), t) \<and> dir_good m t loc ws \<and>
    vsec content m t = (vsec content m s)(w_cur_lba w := buf) \<and> fat_frame s t \<and>
    nblocks (world t) = nblocks (world s)"
proof -
  let ?l = "w_cur_lba w + m_partition_base_lba m"
  from d w have m: "on_backend b bs m" and g: "fat_geom m" and inv: "fs_inv valid content m s"
    and on: "fat_on_medium m s" and dw: "dir_walks m (fat_at content m s) loc ws"
    and l: "unat ?l < nblocks (world s)" and nf: "?l \<notin> fat_area m"
    by (auto simp: dir_good_def dir_ok_def)
  from inv have v: "valid (world s)" by (simp add: fs_inv_def)
  from write_sector_ok [OF m v len l] obtain t where
    t: "priv_write_sector m (w_cur_lba w) buf s = (Inr (), t)" "nblocks (world t) = nblocks (world s)" by blast
  note ws = write_sector [OF m v len t(1)]
  obtain w' where w': "t = s\<lparr>world := w'\<rparr>" using ws(2) by blast
  have c: "content (world t) = (content (world s))(?l := buf)" using ws(3) by simp
  then have vs: "vsec content m t = (vsec content m s)(w_cur_lba w := buf)"
    by (auto simp: vsec_def fun_eq_iff)
  have co: "coherent content m t"
  proof -
    have "internal_lba_is_cacheable m (s_fat_cache_lba s) \<Longrightarrow> s_fat_cache_lba s \<noteq> w_cur_lba w"
      using cacheable_fat_area [OF g] nf by metis
    with inv vs show ?thesis by (auto simp: fs_inv_def coherent_def w')
  qed
  have fat: "fat_at content m t x = fat_at content m s x" if "in_fat m x" for x
    by (rule fat_at_outside [OF m g that]) (use c nf in auto)
  have "chain m (fat_at content m t) x cs" if "chain m (fat_at content m s) x cs" for x cs
    using that by (rule chain_cong) (use chain_data [OF that] g fat in \<open>auto simp: inData_iff in_data_in_fat\<close>)
  with dw have "dir_walks m (fat_at content m t) loc ws" by (auto simp: dir_walks_def split: if_splits)
  with d co ws(1) t(2) on have "dir_good m t loc ws"
    by (auto simp: dir_good_def dir_ok_def fs_inv_def fat_on_medium_def)
  moreover have "fat_frame s t" unfolding w' by simp
  ultimately show ?thesis using t vs by blast
qed


text \<open>Sectors hold sixteen entries or more.\<close>

lemma dir_eps:
  assumes "on_backend b bs m"
  shows "unat (priv_dir_eps m) = bs div 32" and "0 < bs div 32" and "bs div 32 * 32 = bs"
  using assms by (auto simp: on_backend_def priv_dir_eps_def unat_div_distrib)

lemma slot_next:
  assumes d: "dir_good m s loc ws" and q: "Suc q < length ws * (bs div 32)" and len: "length buf = bs"
    and cur: "cur = nth_slot (bs div 32) ws q" and lba: "lba = slot_lba (bs div 32) ws q"
  shows "\<exists>t buf' lba'. internal_slot_advance m cur buf lba s = (Inr (nth_slot (bs div 32) ws (Suc q), buf', lba'), t) \<and>
    dir_good m t loc ws \<and> fat_frame s t \<and> nblocks (world t) = nblocks (world s) \<and> length buf' = bs \<and>
    lba' = slot_lba (bs div 32) ws (Suc q) \<and>
    (vsec content m t)(lba' := buf') = (vsec content m s)(lba := buf)"
proof -
  let ?eps = "bs div 32" and ?k = "q div (bs div 32)"
  from d have m: "on_backend b bs m" and g: "fat_geom m" by (auto simp: dir_good_def dir_ok_def)
  note eps = dir_eps [OF m]
  have k: "?k < length ws" using q by (simp add: less_mult_imp_div_less)
  show ?thesis
  proof (cases "q mod ?eps + 1 < ?eps")
    case True
    then have "Suc q div ?eps = ?k" "Suc q mod ?eps = q mod ?eps + 1"
      using div_mod_within [of q ?eps 1] by simp_all
    with True d len show ?thesis
      by (auto simp: internal_slot_advance_def Let_def cur nth_slot_def eps lba)
  next
    case False
    moreover have "q mod ?eps < ?eps" using eps(2) by simp
    ultimately have md: "q mod ?eps + 1 = ?eps" by linarith
    from div_mod_next [OF this] have nx: "Suc q div ?eps = Suc ?k" "Suc q mod ?eps = 0" by simp_all
    then have k': "Suc ?k < length ws" using q by (metis less_mult_imp_div_less)
    let ?w = "ws ! ?k" and ?v = "ws ! Suc ?k"
    have lw: "lba = w_cur_lba ?w" by (simp add: lba)
    obtain t1 where t1: "priv_write_sector m lba buf s = (Inr (), t1)" "dir_good m t1 loc ws"
      "vsec content m t1 = (vsec content m s)(lba := buf)" "fat_frame s t1" "nblocks (world t1) = nblocks (world s)"
      using write_dir_sector [OF d nth_mem [OF k] len] unfolding lw by blast
    from t1(2) have d1: "fs_inv valid content m t1" "fat_on_medium m t1" "walk_path m (fat_at content m t1) ws"
      "unat (w_cur_lba ?v + m_partition_base_lba m) < nblocks (world t1)"
      using dir_walks_path(1) [OF g] k' by (auto simp: dir_good_def dir_ok_def)
    have pn: "pure_next m (fat_at content m t1) ?w = Inr (False, ?v)"
      and wf: "w_is_root_fixed ?w \<or> inData m (w_cluster ?w)"
      using d1(3) k k' by (auto simp: walk_path_def successively_conv_nth)
    obtain t2 where t2: "priv_dir_walk_next_sector m ?w t1 = (Inr (False, ?v), t2)" "only_read m t1 t2"
      using next_sector_quiet [OF m g d1(1,2) wf] pn by auto
    have i2: "fs_inv valid content m t2" "unat (w_cur_lba ?v + m_partition_base_lba m) < nblocks (world t2)"
      using t2(2) d1(4) by (auto simp: only_read_def)
    obtain t3 where t3: "priv_read_sector m (w_cur_lba ?v) t2 = (Inr (vsec content m t2 (w_cur_lba ?v)), t3)" "only_read m t2 t3"
      using read_sector_quiet [OF m i2] by blast
    note r13 = only_read_trans [OF t2(2) t3(2)]
    have "internal_slot_advance m cur buf lba s =
        (Inr (nth_slot ?eps ws (Suc q), vsec content m t2 (w_cur_lba ?v), w_cur_lba ?v), t3)"
      using md t1(1) t2(1) t3(1)
      by (simp add: internal_slot_advance_def Let_def cur nth_slot_def eps nx bindE_def)
    moreover have "fat_frame s t3" "nblocks (world t3) = nblocks (world s)"
      using t1(4,5) r13 by (auto simp: only_read_def intro: fat_frame_trans)
    moreover have "vsec content m t3 = (vsec content m s)(lba := buf)" "vsec content m t2 = vsec content m t3"
      using only_read_medium(2) [OF r13] only_read_medium(2) [OF t3(2)] t1(3) by simp_all
    ultimately show ?thesis
      using dir_good_read [OF t1(2) r13] len by (auto simp: nx vsec_length)
  qed
qed

lemma commit_loop_spec:
  assumes "dir_good m s loc ws" and "q + n < length ws * (bs div 32)" and "length buf = bs"
    and "cur = nth_slot (bs div 32) ws q" and "lba = slot_lba (bs div 32) ws q"
    and "length tmpl = 32" "length (pl_name83 plan) = 11" and "n \<le> pl_lfn_entries plan"
  shows "\<exists>t buf'. commit_loop m plan tmpl n cur buf lba s =
      (Inr (buf', slot_lba (bs div 32) ws (q + n), (q + n) mod (bs div 32) * 32), t) \<and>
    dir_good m t loc ws \<and> fat_frame s t \<and> nblocks (world t) = nblocks (world s) \<and> length buf' = bs \<and>
    (vsec content m t)(slot_lba (bs div 32) ws (q + n) := buf') =
      put_slots (bs div 32) ws q (map (plan_slot plan tmpl) [pl_lfn_entries plan - n..<Suc (pl_lfn_entries plan)])
        ((vsec content m s)(lba := buf))"
  using assms
proof (induction n arbitrary: q cur buf lba s)
  case 0
  from 0 have m: "on_backend b bs m" by (auto simp: dir_good_def dir_ok_def)
  note eps = dir_eps [OF m]
  have "Suc (q mod (bs div 32)) * 32 \<le> bs div 32 * 32" using eps(2) by (intro mult_le_mono1) (simp add: Suc_leI)
  then have off: "q mod (bs div 32) * 32 + 32 \<le> length buf" using eps(3) 0(3) by simp
  with 0 show ?case
    by (auto simp: Let_def nth_slot_def commit_slot_splice put_slot_def length_plan_slot fun_eq_iff)
next
  case (Suc n)
  from Suc.prems have m: "on_backend b bs m" by (auto simp: dir_good_def dir_ok_def)
  note eps = dir_eps [OF m]
  let ?L = "pl_lfn_entries plan" and ?eps = "bs div 32"
  have "Suc (q mod ?eps) * 32 \<le> ?eps * 32" using eps(2) by (intro mult_le_mono1) (simp add: Suc_leI)
  then have off: "q mod ?eps * 32 + 32 \<le> length buf" using eps(3) Suc.prems(3) by simp
  let ?buf = "splice_at buf (q mod ?eps * 32) (plan_slot plan tmpl (?L - Suc n))"
  have cs: "commit_slot plan tmpl (?L - Suc n) buf (sl_ent cur * 32) = ?buf"
    using off Suc.prems(4,6,7) by (simp add: commit_slot_splice nth_slot_def)
  have len: "length ?buf = bs" using off Suc.prems(3,6,7) by (simp add: length_plan_slot)
  obtain t1 buf1 lba1 where t1: "internal_slot_advance m cur ?buf lba s = (Inr (nth_slot ?eps ws (Suc q), buf1, lba1), t1)"
    "dir_good m t1 loc ws" "fat_frame s t1" "nblocks (world t1) = nblocks (world s)" "length buf1 = bs"
    "lba1 = slot_lba ?eps ws (Suc q)" "(vsec content m t1)(lba1 := buf1) = (vsec content m s)(lba := ?buf)"
    using slot_next [OF Suc.prems(1) _ len Suc.prems(4,5)] Suc.prems(2) by auto
  have q': "Suc q + n < length ws * ?eps" and n': "n \<le> ?L" using Suc.prems(2,8) by simp_all
  obtain t buf' where t: "commit_loop m plan tmpl n (nth_slot ?eps ws (Suc q)) buf1 lba1 t1 =
      (Inr (buf', slot_lba ?eps ws (Suc q + n), (Suc q + n) mod ?eps * 32), t)"
    "dir_good m t loc ws" "fat_frame t1 t" "nblocks (world t) = nblocks (world t1)" "length buf' = bs"
    "(vsec content m t)(slot_lba ?eps ws (Suc q + n) := buf') =
      put_slots ?eps ws (Suc q) (map (plan_slot plan tmpl) [?L - n..<Suc ?L]) ((vsec content m t1)(lba1 := buf1))"
    using Suc.IH [OF t1(2) q' t1(5) refl t1(6) Suc.prems(6,7) n'] by blast
  have up: "[?L - Suc n..<Suc ?L] = (?L - Suc n) # [?L - n..<Suc ?L]"
    using Suc.prems(8) by (simp add: upt_conv_Cons Suc_diff_Suc)
  have ps: "put_slot ?eps ws q (plan_slot plan tmpl (?L - Suc n)) ((vsec content m s)(lba := buf)) =
      (vsec content m s)(lba := ?buf)"
    using Suc.prems(5) by (simp add: put_slot_def)
  have "commit_loop m plan tmpl (Suc n) cur buf lba s =
      (Inr (buf', slot_lba ?eps ws (q + Suc n), (q + Suc n) mod ?eps * 32), t)"
    using t1(1) t(1) by (simp add: Let_def cs bindE_def)
  moreover have "(vsec content m t)(slot_lba ?eps ws (q + Suc n) := buf') =
      put_slots ?eps ws q (map (plan_slot plan tmpl) [?L - Suc n..<Suc ?L]) ((vsec content m s)(lba := buf))"
    using t(6) t1(7) unfolding up list.map put_slots.simps ps by simp
  ultimately show ?case
    using t(2-5) t1(3,4) fat_frame_trans by metis
qed

text \<open>A commit of a plan whose run lies inside the directory stores its slots, and nothing else.\<close>

lemma dir_commit_spec:
  assumes d: "dir_good m s loc ws" and q: "q + pl_lfn_entries plan < length ws * (bs div 32)"
    and start: "pl_start plan = nth_slot (bs div 32) ws q"
    and l: "length tmpl = 32" "length (pl_name83 plan) = 11"
  shows "\<exists>t. priv_dir_commit m plan tmpl s = (Inr (slot_lba (bs div 32) ws (q + pl_lfn_entries plan),
      (q + pl_lfn_entries plan) mod (bs div 32) * 32), t) \<and> dir_good m t loc ws \<and> fat_frame s t \<and>
    nblocks (world t) = nblocks (world s) \<and>
    vsec content m t = put_slots (bs div 32) ws q (map (plan_slot plan tmpl) [0..<Suc (pl_lfn_entries plan)]) (vsec content m s)"
proof -
  let ?eps = "bs div 32" and ?L = "pl_lfn_entries plan"
  let ?lba = "slot_lba ?eps ws q"
  from d have m: "on_backend b bs m" and inv: "fs_inv valid content m s" by (auto simp: dir_good_def dir_ok_def)
  have k: "(q + i) div ?eps < length ws" if "i \<le> ?L" for i
    using q that by (intro less_mult_imp_div_less) simp
  have "ws ! (q div ?eps) \<in> set ws" using k [of 0] by simp
  with d have on: "unat (?lba + m_partition_base_lba m) < nblocks (world s)" by (auto simp: dir_good_def dir_ok_def)
  obtain t1 where t1: "priv_read_sector m ?lba s = (Inr (vsec content m s ?lba), t1)" "only_read m s t1"
    using read_sector_quiet [OF m inv on] by blast
  note d1 = dir_good_read [OF d t1(2)] and v1 = only_read_medium(2) [OF t1(2)]
  obtain t2 buf where t2: "commit_loop m plan tmpl ?L (nth_slot ?eps ws q) (vsec content m s ?lba) ?lba t1 =
      (Inr (buf, slot_lba ?eps ws (q + ?L), (q + ?L) mod ?eps * 32), t2)"
    "dir_good m t2 loc ws" "fat_frame t1 t2" "nblocks (world t2) = nblocks (world t1)" "length buf = bs"
    "(vsec content m t2)(slot_lba ?eps ws (q + ?L) := buf) =
      put_slots ?eps ws q (map (plan_slot plan tmpl) [0..<Suc ?L]) (vsec content m s)"
    using commit_loop_spec [OF d1 q _ refl refl l order.refl, of "vsec content m s ?lba"]
    by (auto simp: vsec_length v1 fun_upd_idem simp del: upt_Suc)
  have "ws ! ((q + ?L) div ?eps) \<in> set ws" using k [of ?L] by simp
  from write_dir_sector [OF t2(2) this t2(5)] obtain t3 where
    t3: "priv_write_sector m (slot_lba ?eps ws (q + ?L)) buf t2 = (Inr (), t3)" "dir_good m t3 loc ws"
    "vsec content m t3 = (vsec content m t2)(slot_lba ?eps ws (q + ?L) := buf)" "fat_frame t2 t3"
    "nblocks (world t3) = nblocks (world t2)" by blast
  have "priv_dir_commit m plan tmpl s = (Inr (slot_lba ?eps ws (q + ?L), (q + ?L) mod ?eps * 32), t3)"
    using t1(1) t2(1) t3(1) by (simp add: priv_dir_commit_def Let_def start bindE_def nth_slot_def)
  moreover have "fat_frame s t3" "nblocks (world t3) = nblocks (world s)"
    using t1(2) t2(3,4) t3(4,5) by (auto simp: only_read_def intro: fat_frame_trans)
  ultimately show ?thesis using t3(2,3) t2(6) by metis
qed

end
end
