(* ===== verification/Dir_Create.thy ===== *)
theory Dir_Create
  imports Dir_Commit
begin

text \<open>
  The lemmas the creation of an entry rests on: aliases and packed names can be stored in a slot, the lookup of
  a long name is a fold over the slots of the directory, a reservation finds the first free run, and the alias
  it chooses is not in the directory yet.
\<close>

section \<open>Aliases and packed names are storable\<close>

lemma put_digits_nth: "i + d \<le> pos \<Longrightarrow> alias_put_digits d pos rest out ! i = out ! i"
  by (induction d arbitrary: pos rest out) (auto simp: nth_list_update)

lemma length_put_digits [simp]: "length (alias_put_digits d pos rest out) = length out"
  by (induction d arbitrary: pos rest out) auto

lemma digits_loop_bounds: "d \<le> alias_digits_loop k tail d scale \<and> alias_digits_loop k tail d scale \<le> d + k"
proof (induction k arbitrary: d scale)
  case (Suc k)
  from Suc [of "Suc d" "scale * 10"] show ?case by auto
qed simp

lemma alias_digits_bounds: "1 \<le> internal_alias_digits tail" "internal_alias_digits tail \<le> 6"
  using digits_loop_bounds [of 1 5 tail 10] by (auto simp: internal_alias_digits_def)

lemma alias_map_legal:
  assumes "internal_unit_is_lfn_legal u"
  shows "chr_space \<le> internal_alias_map_unit u \<and> internal_alias_map_unit u \<le> 0x7F"
proof (cases "u > k_lfn_del")
  case False
  then have u: "unat u \<le> 127" by (simp add: word_le_nat_alt not_less)
  then have n: "unat (ucast u :: u8) = unat u" by (simp add: unat_ucast_mod)
  have "32 \<le> unat u" using assms by (auto simp: internal_unit_is_lfn_legal_def word_le_nat_alt word_less_nat_alt split: if_splits)
  with u n have "chr_space \<le> priv_to_upper (ucast u) \<and> priv_to_upper (ucast u) \<le> 0x7F"
    by (auto simp: priv_to_upper_def word_le_nat_alt unat_word_ariths unat_sub_le)
  with False show ?thesis by (simp add: internal_alias_map_unit_def Let_def)
qed (simp add: internal_alias_map_unit_def)

lemma alias_collect_bounds:
  assumes "list_all internal_unit_is_lfn_legal us"
    and "length out \<le> cap" and "list_all (\<lambda>c. chr_space \<le> c \<and> c \<le> 0x7F) out"
  shows "length (alias_collect_loop us cap out) \<le> cap \<and>
    list_all (\<lambda>c. chr_space \<le> c \<and> c \<le> 0x7F) (alias_collect_loop us cap out)"
  using assms by (induction us arbitrary: out) (auto simp: alias_map_legal)

lemma alias_basis_storable:
  assumes "list_all internal_unit_is_lfn_legal leaf"
  shows "length (priv_lfn_alias_basis leaf tail) = 11"
    and "chr_space \<le> priv_lfn_alias_basis leaf tail ! 0 \<and> priv_lfn_alias_basis leaf tail ! 0 \<le> 0x7F"
proof -
  define dot where "dot = internal_alias_ext_dot leaf"
  define base0 where "base0 = internal_alias_collect leaf 0 dot 8"
  define base where "base = (if base0 = [] then [chr_underscore] else base0)"
  define ext where "ext = internal_alias_collect leaf (dot + 1) (length leaf) 3"
  define out1 where "out1 = (if dot < length leaf then splice_at (replicate 11 chr_space) 8 ext else replicate 11 chr_space)"
  define digits where "digits = internal_alias_digits tail"
  define keep where "keep = (if length base < 8 - digits - 1 then length base else 8 - digits - 1)"
  define out3 where "out3 = (splice_at out1 0 (take keep base))[keep := chr_tilde]"
  have eq: "priv_lfn_alias_basis leaf tail = alias_put_digits digits (keep + digits) tail out3"
    unfolding priv_lfn_alias_basis_def Let_def dot_def base0_def base_def ext_def out1_def digits_def keep_def out3_def by simp
  have sub: "list_all internal_unit_is_lfn_legal (take k (drop j leaf))" for j k
    using assms by (auto simp: list_all_iff dest: in_set_takeD in_set_dropD)
  have b0: "length base0 \<le> 8" "list_all (\<lambda>c. chr_space \<le> c \<and> c \<le> 0x7F) base0"
    using alias_collect_bounds [OF sub [of dot 0], of "[]" 8] by (auto simp: base0_def internal_alias_collect_def)
  have e: "length ext \<le> 3" using alias_collect_bounds [OF sub [of "length leaf - (dot + 1)" "dot + 1"], of "[]" 3] by (auto simp: ext_def internal_alias_collect_def)
  have b: "base \<noteq> []" "length base \<le> 8" "chr_space \<le> base ! 0 \<and> base ! 0 \<le> 0x7F"
    using b0 by (auto simp: base_def list_all_length)
  have d: "1 \<le> digits" "digits \<le> 6" using alias_digits_bounds by (auto simp: digits_def)
  have l1: "length out1 = 11" using e by (simp add: out1_def)
  have k: "1 \<le> keep" "keep \<le> length base" "keep \<le> 6" using b d by (auto simp: keep_def Suc_le_eq)
  have l3: "length out3 = 11" using l1 k by (simp add: out3_def)
  then show "length (priv_lfn_alias_basis leaf tail) = 11" by (simp add: eq)
  have "out3 ! 0 = base ! 0" using l1 k b by (simp add: out3_def nth_splice_at)
  moreover have "priv_lfn_alias_basis leaf tail ! 0 = out3 ! 0" unfolding eq by (rule put_digits_nth) simp
  ultimately show "chr_space \<le> priv_lfn_alias_basis leaf tail ! 0 \<and> priv_lfn_alias_basis leaf tail ! 0 \<le> 0x7F"
    using b(3) by simp
qed

lemma short_name_storable:
  assumes "priv_name_classify leaf x = (k_name_kind_short, units, name83, ntres)"
  shows "length name83 = 11" and "chr_space \<le> name83 ! 0 \<and> name83 ! 0 \<le> 0x7F" and "priv_path_to_83 leaf = Some name83"
proof -
  from assms have d: "priv_utf8_to_utf16 leaf k_lfn_write_max = Inr units"
    and legal: "list_all internal_unit_is_lfn_legal units" and is83: "internal_name_is_83 units"
    and p: "priv_path_to_83 leaf = Some name83"
    and kind: "internal_name_case_kind units = (k_name_kind_short, ntres)"
    by (auto simp: priv_name_classify_def split: sum.splits if_splits option.splits prod.splits)
  show "priv_path_to_83 leaf = Some name83" by (rule p)
  from short_name_back [OF d legal is83 kind] p show "length name83 = 11" "chr_space \<le> name83 ! 0 \<and> name83 ! 0 \<le> 0x7F"
    by auto
qed

section \<open>Lookup of a long name\<close>

text \<open>The lookup over the slots: the chain state, and the first entry whose long name matches.\<close>

fun lookup_long :: "u16 list \<Rightarrow> dir_hit list \<Rightarrow> lfn_state \<Rightarrow> dir_hit option" where
  "lookup_long needle [] lfn = None"
| "lookup_long needle (h # hs) lfn =
     (if slot_mark h = k_dir_marker_free_perm then None
      else if slot_mark h = k_dir_marker_free_used then lookup_long needle hs priv_lfn_reset
      else if hit_entry h ! k_dir_off_attr = k_ra8_fs_attr_lfn then
        lookup_long needle hs (priv_lfn_add lfn (hit_entry h))
      else case priv_lfn_units_for lfn (hit_entry h) of
          Some lunits \<Rightarrow> if priv_utf16_ieq needle lunits then Some h else lookup_long needle hs priv_lfn_reset
        | None \<Rightarrow> lookup_long needle hs priv_lfn_reset)"

lemma find_long_sector_spec:
  "(case internal_dir_find_long_sector needle buf lba es lfn of
      Inr (Inr h) \<Rightarrow> Some h | Inr (Inl e) \<Rightarrow> None | Inl lfn' \<Rightarrow> lookup_long needle rest lfn') =
    lookup_long needle (map (\<lambda>e. \<lparr>hit_lba = lba, hit_off = e * 32, hit_entry = dir_ent buf e\<rparr>) es @ rest) lfn"
  by (induction es arbitrary: lfn) (auto simp: Let_def split: option.splits)

lemma find_long_sector_err:
  "internal_dir_find_long_sector needle buf lba es lfn = Inr (Inl e) \<Longrightarrow> e = k_ra8_err_not_found"
  by (induction es arbitrary: lfn) (auto simp: Let_def split: option.splits if_splits)

lemma scan_list_find_long:
  "scan_list (\<lambda>w buf. internal_dir_find_long_sector needle buf (w_cur_lba w) [0..<eps]) rd k_ra8_err_not_found ws lfn =
    (case lookup_long needle (dir_slots rd eps ws) lfn of Some h \<Rightarrow> Inr h | None \<Rightarrow> Inl k_ra8_err_not_found)"
proof (induction ws arbitrary: lfn)
  case Nil
  then show ?case by (simp add: dir_slots_def)
next
  case (Cons w ws)
  let ?buf = "rd (w_cur_lba w)"
  have "dir_slots rd eps (w # ws) = map (\<lambda>e. \<lparr>hit_lba = w_cur_lba w, hit_off = e * 32, hit_entry = dir_ent ?buf e\<rparr>) [0..<eps] @
      dir_slots rd eps ws" by (simp add: dir_slots_def)
  note l = find_long_sector_spec [where needle = needle and buf = ?buf and lba = "w_cur_lba w" and es = "[0..<eps]"
      and lfn = lfn and rest = "dir_slots rd eps ws", folded this]
  show ?case
  proof (cases "internal_dir_find_long_sector needle ?buf (w_cur_lba w) [0..<eps] lfn")
    case (Inl lfn')
    with l Cons.IH show ?thesis by simp
  next
    case (Inr r)
    with l [symmetric] find_long_sector_err [of needle ?buf "w_cur_lba w" "[0..<eps]" lfn] show ?thesis by (cases r) auto
  qed
qed

text \<open>The chain state after slots none of which is an end marker or matches.\<close>

fun state_after :: "dir_hit list \<Rightarrow> lfn_state \<Rightarrow> lfn_state" where
  "state_after [] lfn = lfn"
| "state_after (h # hs) lfn = state_after hs
     (if slot_mark h \<noteq> k_dir_marker_free_used \<and> hit_entry h ! k_dir_off_attr = k_ra8_fs_attr_lfn
      then priv_lfn_add lfn (hit_entry h) else priv_lfn_reset)"

lemma lookup_long_append:
  assumes "\<forall>h \<in> set xs. slot_mark h \<noteq> 0"
  shows "lookup_long needle (xs @ ys) lfn =
    (case lookup_long needle xs lfn of Some h \<Rightarrow> Some h | None \<Rightarrow> lookup_long needle ys (state_after xs lfn))"
  using assms by (induction xs arbitrary: lfn) (auto split: option.split)

lemma state_after_snoc: "state_after (xs @ [h]) lfn =
    (if slot_mark h \<noteq> k_dir_marker_free_used \<and> hit_entry h ! k_dir_off_attr = k_ra8_fs_attr_lfn
      then priv_lfn_add (state_after xs lfn) (hit_entry h) else priv_lfn_reset)"
  by (induction xs arbitrary: lfn) auto

text \<open>Slots that all belong to a chain are folded into the state.\<close>

lemma lookup_long_chain:
  assumes "\<forall>h \<in> set xs. slot_mark h \<noteq> 0 \<and> slot_mark h \<noteq> k_dir_marker_free_used \<and> hit_entry h ! k_dir_off_attr = k_ra8_fs_attr_lfn"
  shows "lookup_long needle (xs @ ys) lfn = lookup_long needle ys (fold (\<lambda>ent s. priv_lfn_add s ent) (map hit_entry xs) lfn)"
  using assms by (induction xs arbitrary: lfn) auto

context reliable_device
begin

lemma dir_find_long_spec:
  assumes "dir_ok m s loc ws" and "hd want \<noteq> chr_slash" "want \<noteq> []"
    and "priv_utf8_to_utf16 want k_lfn_write_max = Inr needle"
  shows "\<exists>t. priv_dir_find_long m loc want s =
    (case lookup_long needle (dir_slots (vsec content m s) (unat (priv_dir_eps m)) ws) priv_lfn_reset of
       Some h \<Rightarrow> Inr h | None \<Rightarrow> Inl k_ra8_err_not_found, t) \<and> only_read m s t"
  using dir_scan_list [OF assms(1), where st = priv_lfn_reset and fin = k_ra8_err_not_found
      and body = "\<lambda>w buf. internal_dir_find_long_sector needle buf (w_cur_lba w) [0..<unat (priv_dir_eps m)]"] assms(2-)
  by (cases want) (auto simp: priv_dir_find_long_def Let_def scan_list_find_long)


text \<open>A reservation that meets a run of free slots plans it; it does not touch the directory.\<close>

lemma reserve_loop_found:
  assumes ok: "dir_ok m s loc ws" and need: "0 < need"
    and fr: "\<exists>q. free_run need (slots_free (vsec content m s) (bs div 32) ws) q"
  shows "\<exists>q t. reserve_loop m loc need n s = (Inr (nth_slot (bs div 32) ws q), t) \<and> only_read m s t \<and>
    free_run need (slots_free (vsec content m s) (bs div 32) ws) q \<and>
    (\<forall>q' < q. \<not> free_run need (slots_free (vsec content m s) (bs div 32) ws) q')"
proof -
  from ok have m: "on_backend b bs m" by (simp add: dir_ok_def)
  obtain r t where t: "priv_dir_find_free_run m loc need s = (r, t)" "only_read m s t" and
    r: "case r of Inr sl \<Rightarrow> \<exists>q. sl = nth_slot (bs div 32) ws q \<and> free_run need (slots_free (vsec content m s) (bs div 32) ws) q \<and>
          (\<forall>q' < q. \<not> free_run need (slots_free (vsec content m s) (bs div 32) ws) q')
      | Inl e \<Rightarrow> e = k_ra8_err_no_mem \<and> (\<nexists>q. free_run need (slots_free (vsec content m s) (bs div 32) ws) q)"
    using find_free_run_spec [OF ok need] unfolding dir_eps(1) [OF m] by blast
  with fr obtain q where "r = Inr (nth_slot (bs div 32) ws q)" "free_run need (slots_free (vsec content m s) (bs div 32) ws) q"
    "\<forall>q' < q. \<not> free_run need (slots_free (vsec content m s) (bs div 32) ws) q'" by (cases r) auto
  with t show ?thesis by (cases n) (auto simp: attemptE_def returnR_def)
qed

lemma alias_unique_spec:
  assumes "dir_ok m s loc ws" and "alias_unique_loop m loc leaf tail s = (r, t)"
  shows "only_read m s t \<and> (\<forall>a. r = Inr a \<longrightarrow> (\<exists>i. a = priv_lfn_alias_basis leaf i) \<and>
    lookup_83 a (dir_slots (vsec content m s) (bs div 32) ws) = None)"
  using assms
proof (induction m loc leaf tail arbitrary: s t rule: alias_unique_loop.induct)
  case (1 m loc leaf tail)
  from 1(2) have m: "on_backend b bs m" and inv: "fs_inv valid content m s" by (auto simp: dir_ok_def)
  let ?a = "priv_lfn_alias_basis leaf (of_nat tail)"
  show ?case
  proof (cases "tail > 999999")
    case True
    with 1(3) inv show ?thesis by (auto simp: alias_unique_loop.simps only_read_def)
  next
    case False
    obtain u where u: "priv_dir_find m loc ?a s = (case lookup_83 ?a (dir_slots (vsec content m s) (bs div 32) ws) of
        Some h \<Rightarrow> Inr h | None \<Rightarrow> Inl k_ra8_err_not_found, u)" "only_read m s u"
      using dir_find_spec [OF 1(2)] unfolding dir_eps(1) [OF m] by blast
    show ?thesis
    proof (cases "lookup_83 ?a (dir_slots (vsec content m s) (bs div 32) ws)")
      case None
      with False 1(3) u show ?thesis by (auto simp: alias_unique_loop.simps [of m loc leaf tail] Let_def attemptE_def)
    next
      case (Some h)
      with False 1(3) u have rest: "alias_unique_loop m loc leaf (tail + 1) u = (r, t)"
        by (simp add: alias_unique_loop.simps [of m loc leaf tail] Let_def attemptE_def)
      have "only_read m u t \<and> (\<forall>a. r = Inr a \<longrightarrow> (\<exists>i. a = priv_lfn_alias_basis leaf i) \<and>
          lookup_83 a (dir_slots (vsec content m u) (bs div 32) ws) = None)"
        by (rule 1(1) [OF False refl dir_ok_read [OF 1(2) u(2)] rest])
      with u(2) only_read_medium(2) [OF u(2)] show ?thesis using only_read_trans by metis
    qed
  qed
qed

end
end
