(* ===== verification/Dir_Insert.thy ===== *)
theory Dir_Insert
  imports Dir_Create
begin

text \<open>
  A name that was reserved and committed is found again: by its 8.3 name, and a long name by its units, while
  every other slot of the directory stays as it was.
\<close>

section \<open>Finding what was stored\<close>

lemma lookup_at:
  assumes "q < length hs" and "holds_name n (hs ! q)" "slot_mark (hs ! q) \<noteq> 0"
    and "\<And>i. i < q \<Longrightarrow> slot_mark (hs ! i) \<noteq> 0 \<and> \<not> holds_name n (hs ! i)"
  shows "lookup_83 n hs = Some (hs ! q)"
proof -
  have hs: "hs = take q hs @ hs ! q # drop (Suc q) hs" using assms(1) by (simp add: id_take_nth_drop)
  have pre: "\<forall>h \<in> set (take q hs). slot_mark h \<noteq> 0 \<and> \<not> holds_name n h"
    using assms(1,4) by (auto simp: in_set_conv_nth)
  then have "lookup_83 n (take q hs) = None"
    by (auto simp: lookup_83_def before_end_all find_None_iff)
  moreover have "lookup_83 n (hs ! q # drop (Suc q) hs) = Some (hs ! q)"
    using assms(2,3) by (simp add: lookup_83_def before_end_def)
  ultimately show ?thesis
    using lookup_append [of n "take q hs" "hs ! q # drop (Suc q) hs"] pre hs by simp
qed

lemma lookup_None_at:
  assumes "lookup_83 n hs = None" and "q \<le> length hs" "\<And>i. i < q \<Longrightarrow> slot_mark (hs ! i) \<noteq> 0" and "i < q"
  shows "\<not> holds_name n (hs ! i)"
proof -
  have hs: "hs = take q hs @ drop q hs" by simp
  have pre: "\<forall>h \<in> set (take q hs). slot_mark h \<noteq> 0" using assms(2,3) by (auto simp: in_set_conv_nth)
  have "lookup_83 n (take q hs) = None"
    using assms(1) lookup_append [of n "take q hs" "drop q hs"] hs by (simp split: option.splits)
  then have "\<forall>h \<in> set (take q hs). \<not> holds_name n h"
    using pre by (auto simp: lookup_83_def before_end_all find_None_iff)
  moreover have "hs ! i \<in> set (take q hs)" using assms(2,4) by (metis in_set_conv_nth length_take min.absorb2 nth_take)
  ultimately show ?thesis by blast
qed

text \<open>The end marker is followed by end markers only.\<close>

definition tail_clear :: "dir_hit list \<Rightarrow> bool" where
  "tail_clear hs \<longleftrightarrow> (\<forall>i j. i < j \<longrightarrow> j < length hs \<longrightarrow> slot_mark (hs ! i) = 0 \<longrightarrow> slot_mark (hs ! j) = 0)"

text \<open>No slot before the first free run is an end marker.\<close>

lemma before_run:
  assumes fr: "free_run need (map slot_free hs) q" "\<forall>q' < q. \<not> free_run need (map slot_free hs) q'"
    and ok: "need = 1 \<or> tail_clear hs" and i: "i < q"
  shows "slot_mark (hs ! i) \<noteq> 0"
proof
  assume z: "slot_mark (hs ! i) = 0"
  have len: "q + need \<le> length hs" using fr(1) by (simp add: free_run_def)
  have "slot_free (hs ! (i + k))" if "k < need" for k
  proof (cases k)
    case 0
    with z show ?thesis by (simp add: slot_free_def internal_slot_is_free_def)
  next
    case (Suc j)
    then have "tail_clear hs" using ok that by auto
    then have "slot_mark (hs ! (i + k)) = 0" using z i that len Suc unfolding tail_clear_def
      by (metis add_less_mono less_add_same_cancel1 less_le_trans zero_less_Suc)
    then show ?thesis by (simp add: slot_free_def internal_slot_is_free_def)
  qed
  then have "free_run need (map slot_free hs) i" using i len by (auto simp: free_run_def)
  with fr(2) i show False by blast
qed

section \<open>The slots a plan writes\<close>

text \<open>A plan that can be stored: the name fits its field, its first byte is no marker, the long-name slots are
  as many as the units need.\<close>

definition plan_ok :: "dir_insert \<Rightarrow> bool" where
  "plan_ok plan \<longleftrightarrow> length (pl_name83 plan) = 11 \<and> chr_space \<le> pl_name83 plan ! 0 \<and> pl_name83 plan ! 0 \<le> 0x7F \<and>
     pl_lfn_entries plan \<le> 19"

lemma plan_slot_lfn:
  assumes "plan_ok plan" and "i < pl_lfn_entries plan"
  shows "plan_slot plan tmpl i ! 0 \<noteq> 0" "plan_slot plan tmpl i ! 0 \<noteq> k_dir_marker_free_used"
    "plan_slot plan tmpl i ! 11 = k_ra8_fs_attr_lfn"
proof -
  have "0 < pl_lfn_entries plan - i" "pl_lfn_entries plan - i \<le> 19" using assms by (auto simp: plan_ok_def)
  from fill_slot_bytes(3-5) [OF this] assms(2)
  show "plan_slot plan tmpl i ! 0 \<noteq> 0" "plan_slot plan tmpl i ! 0 \<noteq> k_dir_marker_free_used"
    "plan_slot plan tmpl i ! 11 = k_ra8_fs_attr_lfn" by (simp_all add: plan_slot_def)
qed

lemma new_entry_bytes:
  assumes "plan_ok plan" and "length tmpl = 32"
  shows "new_entry plan tmpl ! 0 \<noteq> 0" "new_entry plan tmpl ! 0 \<noteq> k_dir_marker_free_used"
    "new_entry plan tmpl ! 11 = tmpl ! 11" "take 11 (new_entry plan tmpl) = pl_name83 plan"
    "length (new_entry plan tmpl) = 32"
    "12 < i \<Longrightarrow> i < 32 \<Longrightarrow> new_entry plan tmpl ! i = tmpl ! i"
proof -
  have l: "length (pl_name83 plan) = 11" and b: "32 \<le> unat (pl_name83 plan ! 0)" "unat (pl_name83 plan ! 0) \<le> 127"
    using assms(1) by (auto simp: plan_ok_def word_le_nat_alt)
  have z: "new_entry plan tmpl ! 0 = pl_name83 plan ! 0"
    using l assms(2) by (simp add: new_entry_def nth_splice_at)
  show "new_entry plan tmpl ! 0 \<noteq> 0" "new_entry plan tmpl ! 0 \<noteq> k_dir_marker_free_used"
    using b unfolding z by auto
  show "new_entry plan tmpl ! 11 = tmpl ! 11" "length (new_entry plan tmpl) = 32"
    using l assms(2) by (simp_all add: new_entry_def nth_splice_at)
  show "take 11 (new_entry plan tmpl) = pl_name83 plan"
    using l assms(2) by (intro nth_equalityI) (auto simp: new_entry_def nth_splice_at)
  show "new_entry plan tmpl ! i = tmpl ! i" if "12 < i" "i < 32"
    using l assms(2) that by (simp add: new_entry_def nth_splice_at)
qed

lemma byte_equal_take: "priv_byte_equal a 0 c 0 n \<longleftrightarrow> take n a = take n c" if "n \<le> length a" "n \<le> length c"
  using that by (auto simp: byte_equal_iff list_eq_iff_nth_eq)

lemma new_entry_holds:
  assumes "plan_ok plan" and "length tmpl = 32" and "tmpl ! 11 \<noteq> k_ra8_fs_attr_lfn"
  shows "holds_name (pl_name83 plan) \<lparr>hit_lba = l, hit_off = off, hit_entry = new_entry plan tmpl\<rparr>"
proof -
  have "take 11 (new_entry plan tmpl) = take 11 (pl_name83 plan)"
    using new_entry_bytes(4) [OF assms(1,2)] assms(1) by (simp add: plan_ok_def)
  then show ?thesis
    using new_entry_bytes(2,3,5) [OF assms(1,2)] assms by (simp add: holds_name_def byte_equal_take plan_ok_def)
qed


lemma classify_cases:
  assumes "priv_name_classify leaf x = (kind, units, name83, ntres)" and "kind \<noteq> k_name_kind_invalid"
  shows "priv_utf8_to_utf16 leaf k_lfn_write_max = Inr units" "units \<noteq> []" "length units \<le> k_lfn_write_max"
    "list_all internal_unit_is_lfn_legal units" "leaf \<noteq> []"
proof -
  from assms show d: "priv_utf8_to_utf16 leaf k_lfn_write_max = Inr units" and u: "units \<noteq> []"
    and "list_all internal_unit_is_lfn_legal units"
    by (auto simp: priv_name_classify_def split: sum.splits if_splits option.splits prod.splits)
  from utf8_loop_roundtrip [OF d [unfolded priv_utf8_to_utf16_def]] show "length units \<le> k_lfn_write_max" by simp
  show "leaf \<noteq> []" using d u by (auto simp: priv_utf8_to_utf16_def utf8_loop.simps)
qed

definition slots_wanted :: "name_kind \<Rightarrow> u16 list \<Rightarrow> nat" where
  "slots_wanted kind units = (if kind = k_name_kind_long then lfn_slots_needed (length units) else 0)"

text \<open>What a reservation promises about its plan.\<close>

definition planned :: "nat \<Rightarrow> dir_walk list \<Rightarrow> (u64 \<Rightarrow> bytes) \<Rightarrow> name_kind \<times> u16 list \<times> bytes \<times> u8 \<Rightarrow> dir_insert \<Rightarrow> bool" where
  "planned eps ws rd c plan = (case c of (kind, units, name83, ntres) \<Rightarrow>
     plan_ok plan \<and> pl_units plan = units \<and> pl_lfn_entries plan = slots_wanted kind units \<and>
     (\<exists>q. pl_start plan = nth_slot eps ws q \<and> free_run (Suc (slots_wanted kind units)) (slots_free rd eps ws) q \<and>
       (\<forall>q' < q. \<not> free_run (Suc (slots_wanted kind units)) (slots_free rd eps ws) q')) \<and>
     (if kind = k_name_kind_short then pl_name83 plan = name83 \<and> pl_ntres plan = ntres
      else lookup_83 (pl_name83 plan) (dir_slots rd eps ws) = None))"

lemma plannedI:
  assumes "length nm = 11" "chr_space \<le> nm ! 0" "nm ! 0 \<le> 0x7F" and "slots_wanted kind units = L" "L \<le> 19"
    and "free_run (Suc L) (slots_free rd eps ws) q" "\<forall>q' < q. \<not> free_run (Suc L) (slots_free rd eps ws) q'"
    and "if kind = k_name_kind_short then nm = name83 \<and> nt = ntres else lookup_83 nm (dir_slots rd eps ws) = None"
  shows "planned eps ws rd (kind, units, name83, ntres)
    \<lparr>pl_start = nth_slot eps ws q, pl_units = units, pl_name83 = nm, pl_ntres = nt, pl_lfn_entries = L\<rparr>"
  unfolding planned_def plan_ok_def prod.case dir_insert.simps assms(4) using assms by blast

context reliable_device
begin

text \<open>A reservation that succeeds where there is room has found the first run, and a name that can be stored.\<close>

lemma dir_reserve_spec:
  assumes ok: "dir_ok m s loc ws"
    and c: "priv_name_classify leaf (replicate k_max_8_3_name 0) = (kind, units, name83, ntres)" "kind \<noteq> k_name_kind_invalid"
    and fr: "\<exists>q. free_run (Suc (slots_wanted kind units)) (slots_free (vsec content m s) (bs div 32) ws) q"
    and r: "priv_dir_reserve m loc leaf s = (r, t)"
  shows "only_read m s t \<and> (kind = k_name_kind_short \<longrightarrow> (\<exists>plan. r = Inr plan)) \<and>
    (\<forall>plan. r = Inr plan \<longrightarrow> planned (bs div 32) ws (vsec content m s) (kind, units, name83, ntres) plan)"
proof -
  note cl = classify_cases [OF c]
  have L: "lfn_slots_needed (length units) \<le> 19" using slots_needed_bounds(2) [of "length units"] cl(2,3) by simp
  let ?fs = "slots_free (vsec content m s) (bs div 32) ws" and ?L = "slots_wanted kind units"
  have rl: "\<exists>q u'. reserve_loop m loc (Suc ?L) 3 u =
      (Inr (nth_slot (bs div 32) ws q), u') \<and> only_read m s u' \<and> free_run (Suc ?L) ?fs q \<and>
      (\<forall>q' < q. \<not> free_run (Suc ?L) ?fs q')" if u: "only_read m s u" for u
    using reserve_loop_found [OF dir_ok_read [OF ok u], of "Suc ?L" 3] fr
      only_read_medium(2) [OF u] only_read_trans [OF u] by fastforce
  show ?thesis
  proof (cases kind)
    case k_name_kind_invalid
    with c(2) show ?thesis by simp
  next
    case k_name_kind_short
    note nm = short_name_storable [OF c(1) [unfolded k_name_kind_short]]
    have sw: "?L = 0" by (simp add: slots_wanted_def k_name_kind_short)
    have "only_read m s s" using ok by (simp add: dir_ok_def only_read_def)
    from rl [OF this] obtain q u' where l: "reserve_loop m loc (Suc ?L) 3 s = (Inr (nth_slot (bs div 32) ws q), u')" "only_read m s u'"
      "free_run (Suc ?L) ?fs q" "\<forall>q' < q. \<not> free_run (Suc ?L) ?fs q'" by blast
    have "planned (bs div 32) ws (vsec content m s) (kind, units, name83, ntres)
        \<lparr>pl_start = nth_slot (bs div 32) ws q, pl_units = units, pl_name83 = name83, pl_ntres = ntres, pl_lfn_entries = ?L\<rparr>"
      by (rule plannedI) (use nm l(3,4) sw k_name_kind_short in simp_all)
    with l(1,2) r show ?thesis
      by (auto simp: priv_dir_reserve_def c(1) k_name_kind_short bindE_def slots_wanted_def)
  next
    case k_name_kind_long
    obtain ra u where a: "alias_unique_loop m loc units 1 s = (ra, u)" by fastforce
    note as = alias_unique_spec [OF ok a]
    have sw: "?L = lfn_slots_needed (length units)" by (simp add: slots_wanted_def k_name_kind_long)
    show ?thesis
    proof (cases ra)
      case (Inl e)
      with a as r show ?thesis
        by (auto simp: priv_dir_reserve_def c(1) k_name_kind_long bindE_def internal_alias_unique_def)
    next
      case (Inr al)
      with as have u: "only_read m s u" and n: "lookup_83 al (dir_slots (vsec content m s) (bs div 32) ws) = None"
        and al: "length al = 11" "chr_space \<le> al ! 0" "al ! 0 \<le> 0x7F"
        using alias_basis_storable [OF cl(4)] by auto
      from rl [OF u] obtain q u' where l: "reserve_loop m loc (Suc ?L) 3 u = (Inr (nth_slot (bs div 32) ws q), u')" "only_read m s u'"
        "free_run (Suc ?L) ?fs q" "\<forall>q' < q. \<not> free_run (Suc ?L) ?fs q'" by blast
      have "planned (bs div 32) ws (vsec content m s) (kind, units, name83, ntres)
          \<lparr>pl_start = nth_slot (bs div 32) ws q, pl_units = units, pl_name83 = al, pl_ntres = 0, pl_lfn_entries = ?L\<rparr>"
        by (rule plannedI) (use al l(3,4) n L sw k_name_kind_long in simp_all)
      with l(1,2) r a Inr sw show ?thesis
        by (auto simp: priv_dir_reserve_def c(1) k_name_kind_long bindE_def internal_alias_unique_def)
    qed
  qed
qed

text \<open>The slots after a commit of a plan at slot \<open>q\<close>.\<close>

lemma commit_slots:
  assumes d: "dir_good m s loc ws" and p: "plan_ok plan" and l: "length tmpl = 32"
    and start: "pl_start plan = nth_slot (bs div 32) ws q"
    and q: "free_run (Suc (pl_lfn_entries plan)) (slots_free (vsec content m s) (bs div 32) ws) q"
  defines "hs u \<equiv> dir_slots (vsec content m u) (bs div 32) ws"
  shows "\<exists>t. priv_dir_commit m plan tmpl s = (Inr (hit_lba (hs t ! (q + pl_lfn_entries plan)),
        hit_off (hs t ! (q + pl_lfn_entries plan))), t) \<and> dir_good m t loc ws \<and> fat_frame s t \<and>
    nblocks (world t) = nblocks (world s) \<and> q + pl_lfn_entries plan < length (hs t) \<and> length (hs t) = length (hs s) \<and>
    (\<forall>i < length (hs t). hs t ! i = (if q \<le> i \<and> i \<le> q + pl_lfn_entries plan
       then (hs s ! i)\<lparr>hit_entry := plan_slot plan tmpl (i - q)\<rparr> else hs s ! i))"
proof -
  let ?L = "pl_lfn_entries plan" and ?eps = "bs div 32"
  from d have m: "on_backend b bs m" by (simp add: dir_good_def dir_ok_def)
  note eps = dir_eps [OF m]
  have q': "q + ?L < length ws * ?eps" using q by (simp add: free_run_def slots_free_def length_dir_slots)
  have l11: "length (pl_name83 plan) = 11" using p by (simp add: plan_ok_def)
  obtain t where t: "priv_dir_commit m plan tmpl s = (Inr (slot_lba ?eps ws (q + ?L), (q + ?L) mod ?eps * 32), t)"
    "dir_good m t loc ws" "fat_frame s t" "nblocks (world t) = nblocks (world s)"
    "vsec content m t = put_slots ?eps ws q (map (plan_slot plan tmpl) [0..<Suc ?L]) (vsec content m s)"
    using dir_commit_spec [OF d q' start l l11] by blast
  let ?es = "map (plan_slot plan tmpl) [0..<Suc ?L]"
  have "\<forall>i < length ws * ?eps. hs t ! i = (if q \<le> i \<and> i < q + length ?es
      then \<lparr>hit_lba = slot_lba ?eps ws i, hit_off = i mod ?eps * 32, hit_entry = ?es ! (i - q)\<rparr> else hs s ! i)"
    unfolding hs_def t(5)
    by (rule dir_slots_put_slots [where bs = bs])
      (use d q' l l11 eps in \<open>auto simp: dir_good_def length_plan_slot vsec_length simp del: upt_Suc\<close>)
  moreover have "?es ! (i - q) = plan_slot plan tmpl (i - q)" if "i \<le> q + ?L" for i
    using that by (simp del: upt_Suc)
  ultimately have at: "\<forall>i < length (hs t). hs t ! i = (if q \<le> i \<and> i \<le> q + ?L
      then (hs s ! i)\<lparr>hit_entry := plan_slot plan tmpl (i - q)\<rparr> else hs s ! i)"
    using nth_dir_slots [OF eps(2)] by (auto simp: hs_def length_dir_slots simp del: upt_Suc)
  have len: "length (hs t) = length ws * ?eps" "length (hs s) = length ws * ?eps" by (simp_all add: hs_def length_dir_slots)
  have "hit_lba (hs t ! (q + ?L)) = slot_lba ?eps ws (q + ?L)" "hit_off (hs t ! (q + ?L)) = (q + ?L) mod ?eps * 32"
    using at q' nth_dir_slots [OF eps(2) q'] by (simp_all add: hs_def)
  with t(1-4) at len q' show ?thesis by auto
qed

text \<open>The entry just committed is found under its 8.3 name.\<close>

lemma commit_found:
  assumes p: "plan_ok plan" and l: "length tmpl = 32" "tmpl ! 11 \<noteq> k_ra8_fs_attr_lfn"
    and q: "free_run (Suc (pl_lfn_entries plan)) (map slot_free hs) q"
      "\<forall>q' < q. \<not> free_run (Suc (pl_lfn_entries plan)) (map slot_free hs) q'"
    and tc: "pl_lfn_entries plan = 0 \<or> tail_clear hs" and none: "lookup_83 (pl_name83 plan) hs = None"
    and len: "length hs' = length hs"
    and at: "\<forall>i < length hs'. hs' ! i = (if q \<le> i \<and> i \<le> q + pl_lfn_entries plan
       then (hs ! i)\<lparr>hit_entry := plan_slot plan tmpl (i - q)\<rparr> else hs ! i)"
  shows "lookup_83 (pl_name83 plan) hs' = Some (hs' ! (q + pl_lfn_entries plan))"
proof (rule lookup_at)
  let ?L = "pl_lfn_entries plan"
  have qL: "q + ?L < length hs" using q(1) by (simp add: free_run_def)
  then show "q + ?L < length hs'" using len by simp
  have e: "hs' ! (q + ?L) = (hs ! (q + ?L))\<lparr>hit_entry := new_entry plan tmpl\<rparr>"
    using at qL len by (simp add: plan_slot_def)
  show "holds_name (pl_name83 plan) (hs' ! (q + ?L))"
    unfolding e using new_entry_holds [OF p l] by (cases "hs ! (q + ?L)") simp
  show "slot_mark (hs' ! (q + ?L)) \<noteq> 0" unfolding e using new_entry_bytes(1) [OF p l(1)] by simp
  have br: "slot_mark (hs ! i) \<noteq> 0" if "i < q" for i
    by (rule before_run [OF q]) (use tc that in auto)
  fix i assume i: "i < q + ?L"
  show "slot_mark (hs' ! i) \<noteq> 0 \<and> \<not> holds_name (pl_name83 plan) (hs' ! i)"
  proof (cases "i < q")
    case True
    then have "hs' ! i = hs ! i" using at qL len by simp
    with br [OF True] lookup_None_at [OF none _ br True] qL show ?thesis by simp
  next
    case False
    then have "hs' ! i = (hs ! i)\<lparr>hit_entry := plan_slot plan tmpl (i - q)\<rparr>" "i - q < ?L" using at qL len i by auto
    with plan_slot_lfn [OF p, of "i - q"] show ?thesis by (simp add: holds_name_def)
  qed
qed


end

section \<open>Long names\<close>

text \<open>No long-name slot stands in front of a free slot.\<close>

definition no_orphans :: "dir_hit list \<Rightarrow> bool" where
  "no_orphans hs \<longleftrightarrow> (\<forall>i. Suc i < length hs \<longrightarrow> slot_free (hs ! Suc i) \<longrightarrow>
     slot_mark (hs ! i) = k_dir_marker_free_used \<or> hit_entry (hs ! i) ! k_dir_off_attr \<noteq> k_ra8_fs_attr_lfn)"

lemma state_before_run:
  assumes "no_orphans hs" and "q < length hs" and "slot_free (hs ! q)"
  shows "state_after (take q hs) priv_lfn_reset = priv_lfn_reset"
proof (cases q)
  case (Suc p)
  then have "take q hs = take p hs @ [hs ! p]" using assms(2) by (simp add: take_Suc_conv_app_nth)
  then show ?thesis using assms Suc by (auto simp: state_after_snoc no_orphans_def)
qed simp

lemma commit_chain:
  assumes p: "plan_ok plan" and L: "pl_lfn_entries plan = lfn_slots_needed (length (pl_units plan))"
  shows "map (plan_slot plan tmpl) [0..<pl_lfn_entries plan] = lfn_chain (pl_units plan) (priv_sfn_checksum (pl_name83 plan))"
  by (simp add: lfn_chain_def Let_def plan_slot_def L)

lemma sfn_checksum_take: "take 11 a = take 11 c \<Longrightarrow> priv_sfn_checksum a = priv_sfn_checksum c"
  by (simp add: priv_sfn_checksum_def)

text \<open>The entry just committed is found under its long name.\<close>

lemma commit_found_long:
  assumes p: "plan_ok plan" and l: "length tmpl = 32" "tmpl ! 11 \<noteq> k_ra8_fs_attr_lfn"
    and st: "lfn_storable (pl_units plan)" and L: "pl_lfn_entries plan = lfn_slots_needed (length (pl_units plan))"
    and q: "free_run (Suc (pl_lfn_entries plan)) (map slot_free hs) q"
      "\<forall>q' < q. \<not> free_run (Suc (pl_lfn_entries plan)) (map slot_free hs) q'"
    and tc: "tail_clear hs" and no: "no_orphans hs" and none: "lookup_long (pl_units plan) hs priv_lfn_reset = None"
    and len: "length hs' = length hs"
    and at: "\<forall>i < length hs'. hs' ! i = (if q \<le> i \<and> i \<le> q + pl_lfn_entries plan
       then (hs ! i)\<lparr>hit_entry := plan_slot plan tmpl (i - q)\<rparr> else hs ! i)"
  shows "lookup_long (pl_units plan) hs' priv_lfn_reset = Some (hs' ! (q + pl_lfn_entries plan))"
proof -
  let ?L = "pl_lfn_entries plan" and ?n = "pl_units plan"
  have qL: "q + ?L < length hs" using q(1) by (simp add: free_run_def)
  define run where "run = take ?L (drop q hs')"
  define e where "e = hs' ! (q + ?L)"
  have hs': "hs' = take q hs @ run @ e # drop (Suc (q + ?L)) hs'"
  proof -
    have "take q hs' = take q hs" using at len qL by (intro nth_equalityI) auto
    moreover have "drop q hs' = run @ drop ?L (drop q hs')" by (simp only: run_def append_take_drop_id)
    moreover have "drop (q + ?L) hs' = e # drop (Suc (q + ?L)) hs'" using qL len by (simp add: e_def Cons_nth_drop_Suc)
    ultimately show ?thesis by (metis append_take_drop_id drop_drop add.commute)
  qed
  have run_nth: "run ! i = (hs ! (q + i))\<lparr>hit_entry := plan_slot plan tmpl i\<rparr>" if "i < ?L" for i
    using at len qL that by (simp add: run_def)
  have lr: "length run = ?L" using qL len by (simp add: run_def)
  have "\<forall>h \<in> set (take q hs). slot_mark h \<noteq> 0"
    using before_run [OF q disjI2 [OF tc]] qL by (auto simp: in_set_conv_nth)
  note pre = lookup_long_append [OF this]
  have free: "slot_free (hs ! q)" using q(1) by (auto simp: free_run_def dest!: spec [of _ 0])
  have "lookup_long ?n (take q hs) priv_lfn_reset = None"
    using none pre [of ?n "drop q hs" priv_lfn_reset] by (simp split: option.splits)
  then have a: "lookup_long ?n hs' priv_lfn_reset = lookup_long ?n (run @ e # drop (Suc (q + ?L)) hs') priv_lfn_reset"
    using pre [of ?n "run @ e # drop (Suc (q + ?L)) hs'"] hs' state_before_run [OF no _ free] qL by simp
  have "\<forall>h \<in> set run. slot_mark h \<noteq> 0 \<and> slot_mark h \<noteq> k_dir_marker_free_used \<and> hit_entry h ! k_dir_off_attr = k_ra8_fs_attr_lfn"
    using run_nth lr plan_slot_lfn [OF p] by (auto simp: in_set_conv_nth)
  note b = lookup_long_chain [OF this]
  have "map hit_entry run = map (plan_slot plan tmpl) [0..<?L]"
    using run_nth lr by (intro nth_equalityI) auto
  then have c: "map hit_entry run = lfn_chain ?n (priv_sfn_checksum (pl_name83 plan))"
    unfolding commit_chain [OF p L] .
  have ee: "hit_entry e = new_entry plan tmpl" using at qL len by (simp add: e_def plan_slot_def)
  note ne = new_entry_bytes [OF p l(1)]
  have u: "priv_lfn_units_for (fold (\<lambda>ent s. priv_lfn_add s ent) (map hit_entry run) priv_lfn_reset) (hit_entry e) = Some ?n"
    using lfn_chain_units [OF st, of "new_entry plan tmpl"] sfn_checksum_take [of "new_entry plan tmpl" "pl_name83 plan"] ne(4) p
    by (simp add: c ee plan_ok_def)
  show ?thesis unfolding a b lookup_long.simps u using ne(1,2,3) l(2) by (simp add: ee flip: e_def)
qed

end
