(* ===== verification/Dir_New.thy ===== *)
theory Dir_New
  imports Dir_Insert
begin

text \<open>
  The creation of an entry as a whole: reservation, commit and the lookup that finds the entry again, for a
  name that fits an 8.3 entry and for a long name.
\<close>

lemma lookup_83_SomeD:
  assumes "lookup_83 n hs = Some h"
  shows "\<exists>i < length hs. h = hs ! i \<and> slot_mark h \<noteq> 0 \<and> holds_name n h"
proof -
  from assms have "h \<in> set (before_end hs)" "holds_name n h"
    by (auto simp: lookup_83_def find_Some_iff in_set_conv_nth)
  then show ?thesis by (auto simp: before_end_def dest!: set_takeWhileD) (metis in_set_conv_nth)
qed

lemma lookup_83_NoneD:
  assumes tc: "tail_clear hs" and "lookup_83 n hs = None" and "i < length hs" "slot_mark (hs ! i) \<noteq> 0"
  shows "\<not> holds_name n (hs ! i)"
proof (rule lookup_None_at [where q = "Suc i"])
  show "slot_mark (hs ! j) \<noteq> 0" if "j < Suc i" for j
    using tc that assms(3,4) unfolding tail_clear_def by (metis less_antisym less_SucE)
qed (use assms in auto)

text \<open>After a commit the only new match of an 8.3 name is the committed entry.\<close>

lemma commit_lookup_other:
  assumes p: "plan_ok plan" and tc: "tail_clear hs" and none: "lookup_83 n hs = None"
    and len: "length hs' = length hs"
    and at: "\<forall>i < length hs'. hs' ! i = (if q \<le> i \<and> i \<le> q + pl_lfn_entries plan
       then (hs ! i)\<lparr>hit_entry := plan_slot plan tmpl (i - q)\<rparr> else hs ! i)"
    and some: "lookup_83 n hs' = Some h"
  shows "h = hs' ! (q + pl_lfn_entries plan)"
proof -
  obtain i where i: "i < length hs'" "h = hs' ! i" "slot_mark h \<noteq> 0" "holds_name n h"
    using lookup_83_SomeD [OF some] by blast
  have "q \<le> i \<and> i \<le> q + pl_lfn_entries plan"
  proof (rule ccontr)
    assume "\<not> (q \<le> i \<and> i \<le> q + pl_lfn_entries plan)"
    then have "hs' ! i = hs ! i" using at i(1) by auto
    with i len lookup_83_NoneD [OF tc none, of i] show False by simp
  qed
  moreover have "\<not> i - q < pl_lfn_entries plan"
  proof
    assume l: "i - q < pl_lfn_entries plan"
    have "hs' ! i = (hs ! i)\<lparr>hit_entry := plan_slot plan tmpl (i - q)\<rparr>" using at i(1) calculation by simp
    with i(2,4) plan_slot_lfn(3) [OF p l] show False by (simp add: holds_name_def)
  qed
  ultimately have "i = q + pl_lfn_entries plan" by auto
  with i(2) show ?thesis by simp
qed

text \<open>What a new entry holds: the packed name, the case bits and the rest of the template.\<close>

definition entry_of :: "dir_insert \<Rightarrow> bytes \<Rightarrow> bytes \<Rightarrow> bool" where
  "entry_of plan tmpl ent \<longleftrightarrow> length ent = 32 \<and> take 11 ent = pl_name83 plan \<and> ent ! 12 = pl_ntres plan \<and>
     ent ! 11 = tmpl ! 11 \<and> (\<forall>i. 12 < i \<longrightarrow> i < 32 \<longrightarrow> ent ! i = tmpl ! i)"

lemma new_entry_of: "plan_ok plan \<Longrightarrow> length tmpl = 32 \<Longrightarrow> entry_of plan tmpl (new_entry plan tmpl)"
  using new_entry_bytes(3-6) [of plan tmpl] by (simp add: entry_of_def new_entry_def)

text \<open>The slots outside a stretch are as they were.\<close>

definition same_outside :: "nat \<Rightarrow> nat \<Rightarrow> dir_hit list \<Rightarrow> dir_hit list \<Rightarrow> bool" where
  "same_outside q n hs hs' \<longleftrightarrow> length hs' = length hs \<and> (\<forall>i < length hs. \<not> (q \<le> i \<and> i < q + n) \<longrightarrow> hs' ! i = hs ! i)"

context reliable_device
begin

abbreviation slots_at :: "'w mount \<Rightarrow> dir_walk list \<Rightarrow> 'w fs \<Rightarrow> dir_hit list" where
  "slots_at m ws s \<equiv> dir_slots (vsec content m s) (bs div 32) ws"

text \<open>The state after a commit: where the entry is, what the slots hold, and that the name is found.\<close>

definition committed :: "'w mount \<Rightarrow> dir_loc \<Rightarrow> dir_walk list \<Rightarrow> 'w fs \<Rightarrow> dir_insert \<Rightarrow> bytes \<Rightarrow> 'w fs \<Rightarrow> nat \<Rightarrow> 'w fs \<Rightarrow> bool" where
  "committed m loc ws s plan tmpl s1 q t \<longleftrightarrow>
     priv_dir_commit m plan tmpl s1 = (Inr (hit_lba (slots_at m ws t ! (q + pl_lfn_entries plan)),
        hit_off (slots_at m ws t ! (q + pl_lfn_entries plan))), t) \<and>
     dir_good m t loc ws \<and> q + pl_lfn_entries plan < length (slots_at m ws t) \<and>
     length (slots_at m ws t) = length (slots_at m ws s) \<and>
     (\<forall>i < length (slots_at m ws t). slots_at m ws t ! i = (if q \<le> i \<and> i \<le> q + pl_lfn_entries plan
       then (slots_at m ws s ! i)\<lparr>hit_entry := plan_slot plan tmpl (i - q)\<rparr> else slots_at m ws s ! i)) \<and>
     free_run (Suc (pl_lfn_entries plan)) (map slot_free (slots_at m ws s)) q \<and>
     (\<forall>q' < q. \<not> free_run (Suc (pl_lfn_entries plan)) (map slot_free (slots_at m ws s)) q') \<and>
     lookup_83 (pl_name83 plan) (slots_at m ws t) = Some (slots_at m ws t ! (q + pl_lfn_entries plan))"

lemma committedD:
  assumes "committed m loc ws s plan tmpl s1 q t"
  shows "priv_dir_commit m plan tmpl s1 = (Inr (hit_lba (slots_at m ws t ! (q + pl_lfn_entries plan)),
        hit_off (slots_at m ws t ! (q + pl_lfn_entries plan))), t)"
    and "dir_good m t loc ws" and "q + pl_lfn_entries plan < length (slots_at m ws t)"
    and "length (slots_at m ws t) = length (slots_at m ws s)"
    and "\<forall>i < length (slots_at m ws t). slots_at m ws t ! i = (if q \<le> i \<and> i \<le> q + pl_lfn_entries plan
       then (slots_at m ws s ! i)\<lparr>hit_entry := plan_slot plan tmpl (i - q)\<rparr> else slots_at m ws s ! i)"
    and "free_run (Suc (pl_lfn_entries plan)) (map slot_free (slots_at m ws s)) q"
    and "\<forall>q' < q. \<not> free_run (Suc (pl_lfn_entries plan)) (map slot_free (slots_at m ws s)) q'"
    and "lookup_83 (pl_name83 plan) (slots_at m ws t) = Some (slots_at m ws t ! (q + pl_lfn_entries plan))"
  using assms unfolding committed_def by - (elim conjE, assumption)+

text \<open>Reserving and committing a name of either kind.\<close>

lemma create_stored:
  assumes g: "dir_good m s loc ws"
    and c: "priv_name_classify leaf (replicate k_max_8_3_name 0) = (kind, units, name83, ntres)" "kind \<noteq> k_name_kind_invalid"
    and room: "\<exists>q. free_run (Suc (slots_wanted kind units)) (map slot_free (slots_at m ws s)) q"
    and tc: "kind = k_name_kind_short \<or> tail_clear (slots_at m ws s)"
    and new: "kind = k_name_kind_short \<Longrightarrow> lookup_83 name83 (slots_at m ws s) = None"
    and l: "length tmpl = 32" "tmpl ! 11 \<noteq> k_ra8_fs_attr_lfn"
    and r: "priv_dir_reserve m loc leaf s = (Inr plan, s1)"
  shows "pl_lfn_entries plan = slots_wanted kind units" and "pl_units plan = units" and "plan_ok plan"
    and "kind = k_name_kind_short \<Longrightarrow> pl_name83 plan = name83 \<and> pl_ntres plan = ntres"
    and "\<exists>q t. committed m loc ws s plan tmpl s1 q t"
proof -
  let ?hs = "slots_at m ws s"
  from g have ok: "dir_ok m s loc ws" by (simp add: dir_good_def)
  have rs: "only_read m s s1" "planned (bs div 32) ws (vsec content m s) (kind, units, name83, ntres) plan"
    using dir_reserve_spec [OF ok c room [folded slots_free_def] r] by blast+
  note v = only_read_medium(2) [OF rs(1)]
  from rs(2) obtain q where p: "plan_ok plan" "pl_units plan = units" and L: "pl_lfn_entries plan = slots_wanted kind units"
    and q: "pl_start plan = nth_slot (bs div 32) ws q" "free_run (Suc (pl_lfn_entries plan)) (map slot_free ?hs) q"
      "\<forall>q' < q. \<not> free_run (Suc (pl_lfn_entries plan)) (map slot_free ?hs) q'"
    and nm: "if kind = k_name_kind_short then pl_name83 plan = name83 \<and> pl_ntres plan = ntres else lookup_83 (pl_name83 plan) ?hs = None"
    unfolding planned_def slots_free_def prod.case by metis
  obtain t where t: "priv_dir_commit m plan tmpl s1 = (Inr (hit_lba (slots_at m ws t ! (q + pl_lfn_entries plan)),
        hit_off (slots_at m ws t ! (q + pl_lfn_entries plan))), t)" "dir_good m t loc ws"
    "q + pl_lfn_entries plan < length (slots_at m ws t)" "length (slots_at m ws t) = length ?hs"
    "\<forall>i < length (slots_at m ws t). slots_at m ws t ! i = (if q \<le> i \<and> i \<le> q + pl_lfn_entries plan
       then (?hs ! i)\<lparr>hit_entry := plan_slot plan tmpl (i - q)\<rparr> else ?hs ! i)"
    using commit_slots [OF dir_good_read [OF g rs(1)] p(1) l(1) q(1), unfolded v slots_free_def, OF q(2)] by blast
  have sh: "kind = k_name_kind_short \<Longrightarrow> pl_lfn_entries plan = 0" using L by (simp add: slots_wanted_def)
  have "lookup_83 (pl_name83 plan) (slots_at m ws t) = Some (slots_at m ws t ! (q + pl_lfn_entries plan))"
    by (rule commit_found [OF p(1) l q(2,3) _ _ t(4,5)]) (use tc sh nm new in \<open>auto split: if_splits\<close>)
  with t q(2,3) have "committed m loc ws s plan tmpl s1 q t" unfolding committed_def by blast
  then show "\<exists>q t. committed m loc ws s plan tmpl s1 q t" by blast
  show "pl_lfn_entries plan = slots_wanted kind units" "pl_units plan = units" "plan_ok plan"
    "kind = k_name_kind_short \<Longrightarrow> pl_name83 plan = name83 \<and> pl_ntres plan = ntres"
    using L p nm by simp_all
qed


text \<open>A short name: the reservation and the commit succeed, and the lookup of the name finds the entry.\<close>

lemma create_short:
  assumes g: "dir_good m s loc ws"
    and c: "priv_name_classify leaf (replicate k_max_8_3_name 0) = (k_name_kind_short, units, name83, ntres)"
    and new: "lookup_83 name83 (slots_at m ws s) = None" and room: "\<exists>h \<in> set (slots_at m ws s). slot_free h"
    and l: "length tmpl = 32" "tmpl ! 11 \<noteq> k_ra8_fs_attr_lfn"
  shows "\<exists>plan s1 h t u q. priv_dir_reserve m loc leaf s = (Inr plan, s1) \<and>
    priv_dir_commit m plan tmpl s1 = (Inr (hit_lba h, hit_off h), t) \<and>
    priv_dir_lookup_any m loc leaf t = (Inr h, u) \<and> entry_of plan tmpl (hit_entry h) \<and>
    pl_name83 plan = name83 \<and> pl_ntres plan = ntres \<and>
    same_outside q 1 (slots_at m ws s) (slots_at m ws u) \<and> dir_good m u loc ws"
proof -
  let ?hs = "slots_at m ws s"
  from g have ok: "dir_ok m s loc ws" by (simp add: dir_good_def)
  from ok have m: "on_backend b bs m" by (simp add: dir_ok_def)
  obtain i where "i < length ?hs" "slot_free (?hs ! i)" using room by (auto simp: in_set_conv_nth)
  then have fr: "\<exists>q. free_run (Suc (slots_wanted k_name_kind_short units)) (map slot_free ?hs) q"
    by (intro exI [of _ i]) (simp add: free_run_def slots_wanted_def)
  obtain r s1 where "priv_dir_reserve m loc leaf s = (r, s1)" by fastforce
  with dir_reserve_spec [OF ok c _ fr [folded slots_free_def]] obtain plan where
    r: "priv_dir_reserve m loc leaf s = (Inr plan, s1)" by auto
  have nk: "k_name_kind_short \<noteq> k_name_kind_invalid" by simp
  note st = create_stored [OF g c nk fr disjI1 [OF refl] new l r]
  from st(5) obtain q t where "committed m loc ws s plan tmpl s1 q t" by blast
  note t = committedD [OF this] and p = st(1,3) st(4) [OF refl]
  have L: "pl_lfn_entries plan = 0" using p(1) by (simp add: slots_wanted_def)
  let ?h = "slots_at m ws t ! q"
  obtain u where u: "priv_dir_find m loc name83 t = (Inr ?h, u)" "only_read m t u"
    using dir_find_spec [of m t loc ws name83] t(2,8) p(3) L unfolding dir_eps(1) [OF m] by (auto simp: dir_good_def)
  have "priv_dir_lookup_any m loc leaf t = (Inr ?h, u)"
    using u(1) short_name_storable(3) [OF c] by (simp add: priv_dir_lookup_any_def attemptE_def returnR_def)
  moreover have "hit_entry ?h = new_entry plan tmpl" using t(3,5) L by (simp add: plan_slot_def)
  then have "entry_of plan tmpl (hit_entry ?h)" using new_entry_of [OF p(2) l(1)] by simp
  moreover have "same_outside q 1 ?hs (slots_at m ws u)"
    using t(4,5) L only_read_medium(2) [OF u(2)] by (auto simp: same_outside_def)
  ultimately show ?thesis using r t(1) p(3) dir_good_read [OF t(2) u(2)] unfolding L add_0_right by blast
qed

text \<open>A long name: once reserved, the commit succeeds and the lookup of the name finds the entry.\<close>

lemma create_long:
  assumes g: "dir_good m s loc ws"
    and c: "priv_name_classify leaf (replicate k_max_8_3_name 0) = (k_name_kind_long, units, name83, ntres)"
    and u: "k_lfn_unicode_pad \<notin> set units" and sl: "hd leaf \<noteq> chr_slash"
    and new: "lookup_long units (slots_at m ws s) priv_lfn_reset = None"
      "\<And>n. priv_path_to_83 leaf = Some n \<Longrightarrow> lookup_83 n (slots_at m ws s) = None"
    and room: "free_run (Suc (lfn_slots_needed (length units))) (map slot_free (slots_at m ws s)) q0"
    and tidy: "tail_clear (slots_at m ws s)" "no_orphans (slots_at m ws s)"
    and l: "length tmpl = 32" "tmpl ! 11 \<noteq> k_ra8_fs_attr_lfn"
    and r: "priv_dir_reserve m loc leaf s = (Inr plan, s1)"
  shows "\<exists>h t v q. priv_dir_commit m plan tmpl s1 = (Inr (hit_lba h, hit_off h), t) \<and>
    priv_dir_lookup_any m loc leaf t = (Inr h, v) \<and> entry_of plan tmpl (hit_entry h) \<and>
    lookup_83 (pl_name83 plan) (slots_at m ws v) = Some h \<and>
    same_outside q (Suc (lfn_slots_needed (length units))) (slots_at m ws s) (slots_at m ws v) \<and> dir_good m v loc ws"
proof -
  let ?hs = "slots_at m ws s"
  have nk: "k_name_kind_long \<noteq> k_name_kind_invalid" by simp
  note cl = classify_cases [OF c nk]
  have fr: "\<exists>q. free_run (Suc (slots_wanted k_name_kind_long units)) (map slot_free ?hs) q"
    using room by (auto simp: slots_wanted_def)
  have sw: "slots_wanted k_name_kind_long units = lfn_slots_needed (length units)" by (simp add: slots_wanted_def)
  have nw: "k_name_kind_long = k_name_kind_short \<Longrightarrow> lookup_83 name83 ?hs = None" by simp
  note cs = create_stored [OF g c nk fr disjI2 [OF tidy(1)] nw l r, unfolded sw]
  from cs(5) obtain q t where "committed m loc ws s plan tmpl s1 q t" by blast
  note t = committedD [OF this] and p = cs(1,3,2)
  let ?h = "slots_at m ws t ! (q + pl_lfn_entries plan)"
  have st: "lfn_storable (pl_units plan)"
    using cl(2-4) u p(3) by (auto simp: lfn_storable_def list_all_iff internal_unit_is_lfn_legal_def)
  have found: "lookup_long units (slots_at m ws t) priv_lfn_reset = Some ?h"
    using commit_found_long [OF p(2) l st _ t(6,7) tidy _ t(4,5)] p(1,3) new(1) by simp
  from t(2) have ok: "dir_ok m t loc ws" and m: "on_backend b bs m" by (auto simp: dir_good_def dir_ok_def)
  have "\<exists>v. priv_dir_lookup_any m loc leaf t = (Inr ?h, v) \<and> only_read m t v"
  proof (cases "priv_path_to_83 leaf")
    case None
    obtain v where "priv_dir_find_long m loc leaf t = (Inr ?h, v)" "only_read m t v"
      using dir_find_long_spec [OF ok sl cl(5,1)] found unfolding dir_eps(1) [OF m] by auto
    with None show ?thesis by (auto simp: priv_dir_lookup_any_def attemptE_def)
  next
    case (Some n)
    obtain w where w: "priv_dir_find m loc n t = (case lookup_83 n (slots_at m ws t) of
        Some h \<Rightarrow> Inr h | None \<Rightarrow> Inl k_ra8_err_not_found, w)" "only_read m t w"
      using dir_find_spec [OF ok] unfolding dir_eps(1) [OF m] by blast
    show ?thesis
    proof (cases "lookup_83 n (slots_at m ws t)")
      case None
      obtain v where v: "priv_dir_find_long m loc leaf w = (Inr ?h, v)" "only_read m w v"
        using dir_find_long_spec [OF dir_ok_read [OF ok w(2)] sl cl(5,1)] found only_read_medium(2) [OF w(2)]
        unfolding dir_eps(1) [OF m] by auto
      with None Some w only_read_trans [OF w(2) v(2)] show ?thesis by (auto simp: priv_dir_lookup_any_def attemptE_def)
    next
      case hit: (Some h)
      with commit_lookup_other [OF p(2) tidy(1) new(2) [OF Some] t(4,5)] have "h = ?h" by simp
      with hit Some w show ?thesis by (auto simp: priv_dir_lookup_any_def attemptE_def returnR_def)
    qed
  qed
  then obtain v where v: "priv_dir_lookup_any m loc leaf t = (Inr ?h, v)" "only_read m t v" by blast
  have "hit_entry ?h = new_entry plan tmpl" using t(3,5) by (simp add: plan_slot_def)
  then have "entry_of plan tmpl (hit_entry ?h)" using new_entry_of [OF p(2) l(1)] by simp
  moreover have "same_outside q (Suc (lfn_slots_needed (length units))) ?hs (slots_at m ws v)"
    using t(4,5) p(1) only_read_medium(2) [OF v(2)] by (auto simp: same_outside_def)
  moreover have "lookup_83 (pl_name83 plan) (slots_at m ws v) = Some ?h" using t(8) only_read_medium(2) [OF v(2)] by simp
  ultimately show ?thesis using t(1) v(1) dir_good_read [OF t(2) v(2)] by blast
qed

end
end
