(* ===== verification/Dir_Erase.thy ===== *)
theory Dir_Erase
  imports Dir_Insert
begin

text \<open>
  Erasing an entry: the chain of long-name slots that is collected, and the slots that are marked free.
\<close>

section \<open>The long-name slots in front of an entry\<close>

definition pos_of :: "dir_hit \<Rightarrow> dir_pos" where
  "pos_of h = \<lparr>pos_lba = hit_lba h, pos_off = hit_off h\<rparr>"

definition lfn_of :: "u8 \<Rightarrow> dir_hit \<Rightarrow> bool" where
  "lfn_of csum h \<longleftrightarrow> hit_entry h ! k_dir_off_attr = k_ra8_fs_attr_lfn \<and> slot_mark h \<noteq> k_dir_marker_free_used \<and>
     hit_entry h ! k_lfn_off_checksum = csum"

fun collect_list :: "dir_pos \<Rightarrow> u8 \<Rightarrow> dir_hit list \<Rightarrow> dir_pos list \<Rightarrow> dir_pos list option" where
  "collect_list target csum [] run = None"
| "collect_list target csum (h # hs) run =
     (if pos_of h = target then Some run
      else collect_list target csum hs
        (if lfn_of csum h then internal_run_push run (hit_lba h) (hit_off h) else []))"

lemma collect_entries_spec:
  "(case collect_entries tlba toff csum lba buf es run of
      Inr (Inr r) \<Rightarrow> Some r | Inr (Inl e) \<Rightarrow> None | Inl run' \<Rightarrow> collect_list \<lparr>pos_lba = tlba, pos_off = toff\<rparr> csum rest run') =
    collect_list \<lparr>pos_lba = tlba, pos_off = toff\<rparr> csum
      (map (\<lambda>e. \<lparr>hit_lba = lba, hit_off = e * 32, hit_entry = dir_ent buf e\<rparr>) es @ rest) run"
  by (induction es arbitrary: run) (auto simp: Let_def pos_of_def lfn_of_def)

lemma collect_entries_no_err: "collect_entries tlba toff csum lba buf es run \<noteq> Inr (Inl e)"
  by (induction es arbitrary: run) (auto simp: Let_def)

lemma scan_list_collect:
  "scan_list (\<lambda>w buf. collect_entries tlba toff csum (w_cur_lba w) buf [0..<eps]) rd k_ra8_err_not_found ws run =
    (case collect_list \<lparr>pos_lba = tlba, pos_off = toff\<rparr> csum (dir_slots rd eps ws) run of
       Some r \<Rightarrow> Inr r | None \<Rightarrow> Inl k_ra8_err_not_found)"
proof (induction ws arbitrary: run)
  case Nil
  then show ?case by (simp add: dir_slots_def)
next
  case (Cons w ws)
  let ?buf = "rd (w_cur_lba w)"
  have "dir_slots rd eps (w # ws) = map (\<lambda>e. \<lparr>hit_lba = w_cur_lba w, hit_off = e * 32, hit_entry = dir_ent ?buf e\<rparr>) [0..<eps] @
      dir_slots rd eps ws" by (simp add: dir_slots_def)
  note l = collect_entries_spec [where buf = ?buf and lba = "w_cur_lba w" and es = "[0..<eps]"
      and rest = "dir_slots rd eps ws", folded this, symmetric]
  show ?case
  proof (cases "collect_entries tlba toff csum (w_cur_lba w) ?buf [0..<eps] run")
    case (Inl run')
    with l Cons.IH show ?thesis by simp
  next
    case (Inr r)
    moreover have "\<exists>x. r = Inr x" using Inr collect_entries_no_err by (cases r) metis+
    ultimately show ?thesis using l by auto
  qed
qed

text \<open>The last \<open>k\<close> slots are those of the chain, up to the bound of the buffer.\<close>

definition chain_of :: "u8 \<Rightarrow> dir_hit list \<Rightarrow> nat \<Rightarrow> bool" where
  "chain_of csum hs k \<longleftrightarrow> (\<forall>i < length hs. length hs - k \<le> i \<longrightarrow> lfn_of csum (hs ! i)) \<and>
     (k = k_lfn_erase_max \<or> k = length hs \<or> \<not> lfn_of csum (hs ! (length hs - Suc k)))"

text \<open>The collected run is the last slots in front of the target, at most twenty, all of its chain.\<close>

lemma collect_list_run:
  assumes "\<And>i. i < length pre \<Longrightarrow> pos_of (pre ! i) \<noteq> pos_of h"
  shows "\<exists>k \<le> length pre. k \<le> k_lfn_erase_max \<and>
    collect_list (pos_of h) csum (pre @ h # post) [] = Some (map pos_of (drop (length pre - k) pre)) \<and>
    chain_of csum pre k"
proof -
  have "\<exists>k \<le> length (seen @ pre). k \<le> k_lfn_erase_max \<and>
    collect_list (pos_of h) csum (pre @ h # post) (map pos_of (drop (length seen - j) seen)) =
      Some (map pos_of (drop (length (seen @ pre) - k) (seen @ pre))) \<and> chain_of csum (seen @ pre) k"
    if "j \<le> length seen" "j \<le> k_lfn_erase_max" "chain_of csum seen j"
      "\<And>x. x \<in> set pre \<Longrightarrow> pos_of x \<noteq> pos_of h" for seen j
    using that
  proof (induction pre arbitrary: seen j)
    case Nil
    then show ?case by auto
  next
    case (Cons p pre)
    define j' where "j' = (if lfn_of csum p then (if j = k_lfn_erase_max then j else Suc j) else 0)"
    have r: "(if lfn_of csum p then internal_run_push (map pos_of (drop (length seen - j) seen)) (hit_lba p) (hit_off p) else []) =
        map pos_of (drop (length (seen @ [p]) - j') (seen @ [p]))"
      using Cons.prems(1) Suc_diff_le [of 20 "length seen"] by (auto simp: internal_run_push_def Let_def j'_def pos_of_def tl_drop drop_Suc [symmetric] Suc_diff_le map_tl [symmetric])
    have l: "chain_of csum (seen @ [p]) j'"
      using Cons.prems(1,3) unfolding chain_of_def j'_def by (auto simp: nth_append less_Suc_eq_le Suc_diff_le)
    have j: "j' \<le> length (seen @ [p])" "j' \<le> k_lfn_erase_max" using Cons.prems(1,2) by (auto simp: j'_def)
    have n: "pos_of p \<noteq> pos_of h" and rest: "\<And>x. x \<in> set pre \<Longrightarrow> pos_of x \<noteq> pos_of h" using Cons.prems(4) by auto
    have "collect_list (pos_of h) csum ((p # pre) @ h # post) (map pos_of (drop (length seen - j) seen)) =
        collect_list (pos_of h) csum (pre @ h # post) (map pos_of (drop (length (seen @ [p]) - j') (seen @ [p])))"
      using n r by simp
    with Cons.IH [OF j l rest] show ?case by simp
  qed
  from this [of 0 "[]"] assms show ?thesis by (fastforce simp: in_set_conv_nth chain_of_def)
qed

section \<open>Marking slots free\<close>

abbreviation mark_free :: "dir_hit \<Rightarrow> dir_hit" where
  "mark_free h \<equiv> h\<lparr>hit_entry := (hit_entry h)[0 := k_dir_marker_free_used]\<rparr>"

definition mark_pos :: "dir_pos \<Rightarrow> (u64 \<Rightarrow> bytes) \<Rightarrow> u64 \<Rightarrow> bytes" where
  "mark_pos p rd = rd(pos_lba p := (rd (pos_lba p))[pos_off p := k_dir_marker_free_used])"

lemma mark_pos_slot:
  assumes eps: "0 < eps" "eps * 32 \<le> bs" and that: "\<And>l. length (rd' l) = bs"
    and q: "q < length ws * eps"
  shows "mark_pos (pos_of (dir_slots rd eps ws ! q)) rd' = put_slot eps ws q ((dir_ent (rd' (slot_lba eps ws q)) (q mod eps))[0 := k_dir_marker_free_used]) rd'"
proof -
  have "Suc (q mod eps) * 32 \<le> eps * 32" using eps(1) by (intro mult_le_mono1) (simp add: Suc_leI)
  then have o: "q mod eps * 32 + 32 \<le> bs" using eps(2) by simp
  have "(rd' l)[q mod eps * 32 := x] = splice_at (rd' l) (q mod eps * 32) ((dir_ent (rd' l) (q mod eps))[0 := x])" for l x
    using o that by (intro nth_equalityI) (auto simp: nth_splice_at nth_list_update)
  then show ?thesis using nth_dir_slots [OF eps(1) q] by (simp add: mark_pos_def put_slot_def pos_of_def)
qed

lemma dir_slots_mark:
  assumes d: "distinct (map w_cur_lba ws)" and eps: "0 < eps" "eps * 32 \<le> bs" and len: "\<And>l. length (rd l) = bs"
    and q: "q < length ws * eps"
  shows "dir_slots (mark_pos (pos_of (dir_slots rd eps ws ! q)) rd) eps ws =
      (dir_slots rd eps ws)[q := mark_free (dir_slots rd eps ws ! q)]"
    and "length (mark_pos p rd l) = bs"
proof -
  have "Suc (q mod eps) * 32 \<le> eps * 32" using eps(1) by (intro mult_le_mono1) (simp add: Suc_leI)
  then have o: "q mod eps * 32 + 32 \<le> bs" using eps(2) by simp
  have l: "length ((dir_ent (rd (slot_lba eps ws q)) (q mod eps))[0 := k_dir_marker_free_used]) = 32"
    using o len by simp
  show "dir_slots (mark_pos (pos_of (dir_slots rd eps ws ! q)) rd) eps ws =
      (dir_slots rd eps ws)[q := mark_free (dir_slots rd eps ws ! q)]"
    unfolding mark_pos_slot [OF eps len q]
    using dir_slots_put_slot [OF d q l eps len] nth_dir_slots [OF eps(1) q] by simp
  show "length (mark_pos p rd l) = bs" using len by (simp add: mark_pos_def)
qed

text \<open>Marking slots \<open>a\<close> up to \<open>a + n\<close>.\<close>

lemma dir_slots_mark_run:
  assumes d: "distinct (map w_cur_lba ws)" and eps: "0 < eps" "eps * 32 \<le> bs" and "\<And>l. length (rd l) = bs"
    and "a + n \<le> length ws * eps" and "map hit_lba (dir_slots rd0 eps ws) = map hit_lba (dir_slots rd eps ws)"
      and "map hit_off (dir_slots rd0 eps ws) = map hit_off (dir_slots rd eps ws)"
  shows "\<forall>i < length ws * eps.
    dir_slots (fold mark_pos (map pos_of (take n (drop a (dir_slots rd0 eps ws)))) rd) eps ws ! i =
      (if a \<le> i \<and> i < a + n then mark_free (dir_slots rd eps ws ! i) else dir_slots rd eps ws ! i)"
  using assms(4-)
proof (induction n arbitrary: a rd)
  case (Suc n)
  let ?hs = "\<lambda>r. dir_slots r eps ws"
  have a: "a < length ws * eps" using Suc.prems by simp
  have p: "pos_of (?hs rd0 ! a) = pos_of (?hs rd ! a)"
    using a Suc.prems(3,4) by (simp add: pos_of_def list_eq_iff_nth_eq length_dir_slots)
  have t: "take (Suc n) (drop a (?hs rd0)) = ?hs rd0 ! a # take n (drop (Suc a) (?hs rd0))"
    using a by (simp add: Cons_nth_drop_Suc [symmetric] length_dir_slots)
  define r1 where "r1 = mark_pos (pos_of (?hs rd ! a)) rd"
  have h1: "?hs r1 = (?hs rd)[a := mark_free (?hs rd ! a)]"
    unfolding r1_def by (rule dir_slots_mark(1) [OF d eps Suc.prems(1) a])
  have "\<forall>i < length ws * eps. ?hs (fold mark_pos (map pos_of (take n (drop (Suc a) (?hs rd0)))) r1) ! i =
      (if Suc a \<le> i \<and> i < Suc a + n then mark_free (?hs r1 ! i) else ?hs r1 ! i)"
  proof (rule Suc.IH)
    show "length (r1 l) = bs" for l unfolding r1_def by (rule dir_slots_mark(2) [OF d eps Suc.prems(1) a])
    show "Suc a + n \<le> length ws * eps" using Suc.prems(2) by simp
    show "map hit_lba (?hs rd0) = map hit_lba (?hs r1)" "map hit_off (?hs rd0) = map hit_off (?hs r1)"
      unfolding h1 Suc.prems(3,4) 
      by (rule nth_equalityI; simp add: length_dir_slots nth_list_update a)+
  qed
  then show ?case
    unfolding t list.map fold_simps comp_apply p r1_def [symmetric]
    using a by (auto simp: h1 nth_list_update length_dir_slots)
qed auto


context reliable_device
begin

lemma erase_loop_spec:
  assumes "dir_good m s loc ws" and "length buf = bs" and "cur \<in> w_cur_lba ` set ws" and "pos_lba ` set ps \<subseteq> w_cur_lba ` set ws"
  shows "\<exists>t. erase_loop m ps cur buf s = (Inr (), t) \<and> dir_good m t loc ws \<and> fat_frame s t \<and>
    nblocks (world t) = nblocks (world s) \<and>
    vsec content m t = fold mark_pos ps ((vsec content m s)(cur := buf))"
  using assms
proof (induction ps arbitrary: cur buf s)
  case Nil
  then obtain w where w: "w \<in> set ws" "cur = w_cur_lba w" by auto
  from write_dir_sector [OF Nil.prems(1) w(1) Nil.prems(2)] show ?case
    unfolding w(2) erase_loop.simps fold_Nil id_apply by blast
next
  case (Cons p ps)
  from Cons.prems(1) have m: "on_backend b bs m" by (simp add: dir_good_def dir_ok_def)
  have "\<exists>t buf'. (if pos_lba p \<noteq> cur then bindE (priv_write_sector m cur buf) (\<lambda>_. priv_read_sector m (pos_lba p))
       else returnE buf) s = (Inr buf', t) \<and> dir_good m t loc ws \<and> fat_frame s t \<and> nblocks (world t) = nblocks (world s) \<and>
     length buf' = bs \<and> (vsec content m t)(pos_lba p := buf') = (vsec content m s)(cur := buf)"
  proof (cases "pos_lba p = cur")
    case True
    with Cons.prems show ?thesis by auto
  next
    case False
    obtain t where t: "priv_write_sector m cur buf s = (Inr (), t)" "dir_good m t loc ws"
      "vsec content m t = (vsec content m s)(cur := buf)" "fat_frame s t" "nblocks (world t) = nblocks (world s)"
      using write_dir_sector [OF Cons.prems(1) _ Cons.prems(2)] Cons.prems(3) by blast
    have inv: "fs_inv valid content m t" "unat (pos_lba p + m_partition_base_lba m) < nblocks (world t)"
      using t(2) Cons.prems(4) by (auto simp: dir_good_def dir_ok_def)
    obtain u where u: "priv_read_sector m (pos_lba p) t = (Inr (vsec content m t (pos_lba p)), u)" "only_read m t u"
      using read_sector_quiet [OF m inv] by blast
    have "fat_frame s u" "nblocks (world u) = nblocks (world s)" using u(2) t(4,5) by (auto simp: only_read_def intro: fat_frame_trans)
    moreover have "(vsec content m u)(pos_lba p := vsec content m t (pos_lba p)) = (vsec content m s)(cur := buf)"
      using only_read_medium(2) [OF u(2)] t(3) by (simp add: fun_eq_iff)
    ultimately show ?thesis
      using False t(1) u(1) dir_good_read [OF t(2) u(2)] by (simp add: bindE_def vsec_length)
  qed
  then obtain t buf' where t: "(if pos_lba p \<noteq> cur then bindE (priv_write_sector m cur buf) (\<lambda>_. priv_read_sector m (pos_lba p))
       else returnE buf) s = (Inr buf', t)" "dir_good m t loc ws" "fat_frame s t" "nblocks (world t) = nblocks (world s)"
     "length buf' = bs" "(vsec content m t)(pos_lba p := buf') = (vsec content m s)(cur := buf)" by blast
  have pl: "pos_lba p \<in> w_cur_lba ` set ws" "pos_lba ` set ps \<subseteq> w_cur_lba ` set ws" using Cons.prems(4) by auto
  have lb: "length (buf'[pos_off p := k_dir_marker_free_used]) = bs" using t(5) by simp
  obtain u where u: "erase_loop m ps (pos_lba p) (buf'[pos_off p := k_dir_marker_free_used]) t = (Inr (), u)"
    "dir_good m u loc ws" "fat_frame t u" "nblocks (world u) = nblocks (world t)"
    "vsec content m u = fold mark_pos ps ((vsec content m t)(pos_lba p := buf'[pos_off p := k_dir_marker_free_used]))"
    using Cons.IH [OF t(2) lb pl] by blast
  have "(vsec content m t)(pos_lba p := buf'[pos_off p := k_dir_marker_free_used]) = mark_pos p ((vsec content m s)(cur := buf))"
    unfolding t(6) [symmetric] by (simp add: mark_pos_def)
  then have "vsec content m u = fold mark_pos (p # ps) ((vsec content m s)(cur := buf))" using u(5) by simp
  moreover have "erase_loop m (p # ps) cur buf s = (Inr (), u)" 
    unfolding erase_loop.simps by (subst bindE_run, rule t(1)) (simp add: u(1))
  ultimately show ?case using u(2-4) t(3,4) fat_frame_trans by metis
qed

lemma erase_positions_spec:
  assumes d: "dir_good m s loc ws" and ps: "ps \<noteq> []" "pos_lba ` set ps \<subseteq> w_cur_lba ` set ws"
  shows "\<exists>t. internal_dir_erase_positions m ps s = (Inr (), t) \<and> dir_good m t loc ws \<and> fat_frame s t \<and>
    nblocks (world t) = nblocks (world s) \<and> vsec content m t = fold mark_pos ps (vsec content m s)"
proof -
  let ?cur = "pos_lba (hd ps)"
  have cur: "?cur \<in> w_cur_lba ` set ws" using ps by (auto simp: image_subset_iff)
  from d cur have m: "on_backend b bs m" and inv: "fs_inv valid content m s"
    and on: "unat (?cur + m_partition_base_lba m) < nblocks (world s)" by (auto simp: dir_good_def dir_ok_def)
  obtain t where t: "priv_read_sector m ?cur s = (Inr (vsec content m s ?cur), t)" "only_read m s t"
    using read_sector_quiet [OF m inv on] by blast
  have l: "length (vsec content m s ?cur) = bs" by (simp add: vsec_length)
  obtain u where u: "erase_loop m ps ?cur (vsec content m s ?cur) t = (Inr (), u)" "dir_good m u loc ws" "fat_frame t u"
    "nblocks (world u) = nblocks (world t)" "vsec content m u = fold mark_pos ps ((vsec content m t)(?cur := vsec content m s ?cur))"
    using erase_loop_spec [OF dir_good_read [OF d t(2)] l cur ps(2)] by blast
  have "internal_dir_erase_positions m ps s = (Inr (), u)"
    using t(1) u(1) by (simp add: internal_dir_erase_positions_def Let_def bindE_def)
  moreover have "vsec content m u = fold mark_pos ps (vsec content m s)" using u(5) only_read_medium(2) [OF t(2)] by (simp add: fun_upd_idem)
  moreover have "fat_frame s u" "nblocks (world u) = nblocks (world s)" using u(3,4) t(2) by (auto simp: only_read_def intro: fat_frame_trans)
  ultimately show ?thesis using u(2) by blast
qed


text \<open>Erasing an entry marks its slot and the long-name slots of its chain, and nothing else.\<close>

lemma dir_erase_spec:
  assumes d: "dir_good m s loc ws"
  defines "hs u \<equiv> dir_slots (vsec content m u) (bs div 32) ws"
  assumes q: "q < length (hs s)"
  shows "\<exists>k t. k \<le> q \<and> k \<le> k_lfn_erase_max \<and> chain_of (priv_sfn_checksum name83) (take q (hs s)) k \<and>
    priv_dir_erase_chain m loc (hit_lba (hs s ! q)) (hit_off (hs s ! q)) name83 s = (Inr (), t) \<and>
    dir_good m t loc ws \<and> fat_frame s t \<and> nblocks (world t) = nblocks (world s) \<and> length (hs t) = length (hs s) \<and>
    (\<forall>i < length (hs s). hs t ! i = (if q - k \<le> i \<and> i \<le> q then mark_free (hs s ! i) else hs s ! i))"
proof -
  let ?eps = "bs div 32" and ?cs = "priv_sfn_checksum name83" and ?h = "hs s ! q"
  from d have m: "on_backend b bs m" and ok: "dir_ok m s loc ws" and ds: "distinct (map w_cur_lba ws)"
    by (auto simp: dir_good_def dir_ok_def)
  note eps = dir_eps [OF m]
  have len: "length (hs u) = length ws * ?eps" for u by (simp add: hs_def length_dir_slots)
  have at: "hs u ! i = \<lparr>hit_lba = slot_lba ?eps ws i, hit_off = i mod ?eps * 32,
      hit_entry = dir_ent (vsec content m u (slot_lba ?eps ws i)) (i mod ?eps)\<rparr>" if "i < length (hs s)" for i u
    unfolding hs_def by (rule nth_dir_slots [OF eps(2)]) (use that len in simp)
  have neq: "pos_of (hs s ! i) \<noteq> pos_of ?h" if "i < q" for i
  proof
    assume "pos_of (hs s ! i) = pos_of ?h"
    then have e: "slot_lba ?eps ws i = slot_lba ?eps ws q" "i mod ?eps = q mod ?eps"
      using at [of i s] at [of q s] that q by (auto simp: pos_of_def)
    have "i div ?eps < length ws" "q div ?eps < length ws"
      using that q len [of s] by (auto intro: less_mult_imp_div_less)
    with e(1) ds have "i div ?eps = q div ?eps" by (auto simp: distinct_conv_nth)
    with e(2) that show False by (metis div_mult_mod_eq less_irrefl)
  qed
  have split: "hs s = take q (hs s) @ ?h # drop (Suc q) (hs s)" using q by (simp add: id_take_nth_drop)
  obtain k where k: "k \<le> q" "k \<le> k_lfn_erase_max"
    "collect_list (pos_of ?h) ?cs (hs s) [] = Some (map pos_of (drop (q - k) (take q (hs s))))" "chain_of ?cs (take q (hs s)) k"
    using collect_list_run [of "take q (hs s)" ?h ?cs "drop (Suc q) (hs s)"] neq q split by auto
  obtain t where t: "internal_dir_collect_chain m loc (hit_lba ?h) (hit_off ?h) ?cs s = (Inr (map pos_of (drop (q - k) (take q (hs s)))), t)"
    "only_read m s t"
    using dir_scan_list [OF ok, where st = "[]" and fin = k_ra8_err_not_found
        and body = "\<lambda>w buf. collect_entries (hit_lba ?h) (hit_off ?h) ?cs (w_cur_lba w) buf [0..<unat (priv_dir_eps m)]"] k(3)
    unfolding scan_list_collect eps(1) hs_def [symmetric]
    by (auto simp: internal_dir_collect_chain_def Let_def pos_of_def eps(1))
  let ?ps = "map pos_of (take (Suc k) (drop (q - k) (hs s)))"
  have "drop (q - k) (take q (hs s)) @ [?h] = drop (q - k) (take (Suc q) (hs s))" using q by (simp add: take_Suc_conv_app_nth)
  also have "\<dots> = take (Suc k) (drop (q - k) (hs s))" using k(1) by (simp add: drop_take Suc_diff_le)
  finally have ps: "map pos_of (drop (q - k) (take q (hs s))) @ [\<lparr>pos_lba = hit_lba ?h, pos_off = hit_off ?h\<rparr>] = ?ps"
    unfolding pos_of_def [symmetric] by (metis list.simps(8,9) map_append)
  have "pos_lba ` set ?ps \<subseteq> hit_lba ` set (hs s)" by (auto simp: pos_of_def dest!: in_set_takeD in_set_dropD)
  also have "\<dots> \<subseteq> w_cur_lba ` set ws" by (auto simp: hs_def dir_slots_def)
  finally have sub: "pos_lba ` set ?ps \<subseteq> w_cur_lba ` set ws" .
  have "?ps \<noteq> []" using q by simp
  from erase_positions_spec [OF dir_good_read [OF d t(2)] this sub] obtain u where
    u: "internal_dir_erase_positions m ?ps t = (Inr (), u)" "dir_good m u loc ws" "fat_frame t u"
    "nblocks (world u) = nblocks (world t)" "vsec content m u = fold mark_pos ?ps (vsec content m t)" by blast
  have "priv_dir_erase_chain m loc (hit_lba ?h) (hit_off ?h) name83 s = (Inr (), u)"
    unfolding priv_dir_erase_chain_def by (subst bindE_run, rule t(1), unfold ps) (rule u(1))
  moreover have "fat_frame s u" "nblocks (world u) = nblocks (world s)" using u(3,4) t(2) by (auto simp: only_read_def intro: fat_frame_trans)
  moreover have "\<forall>i < length ws * ?eps. hs u ! i =
      (if q - k \<le> i \<and> i < q - k + Suc k then mark_free (hs s ! i) else hs s ! i)"
    unfolding hs_def u(5) only_read_medium(2) [OF t(2)]
    by (rule dir_slots_mark_run [OF ds eps(2)]) (use eps(3) q k(1) in \<open>auto simp: vsec_length hs_def length_dir_slots\<close>)
  ultimately show ?thesis
    using k(1,2,4) u(2) len by (intro exI [of _ k] exI [of _ u]) auto
qed

end
end
