(* ===== verification/Dir_Props.thy ===== *)
theory Dir_Props
  imports Dir_New Dir_Erase Ram_Volume
begin

text \<open>
  The properties of directories: the lookups refine a lookup over the list of slots, the search for space finds
  the first free run, and creating and erasing an entry change exactly the slots they should. The instances use
  the empty root directory of the RAM volume.
\<close>

abbreviation ex_root :: dir_loc where "ex_root \<equiv> \<lparr>loc_is_root = True, loc_cluster = 0\<rparr>"
lemma ex_eps: "(512 :: nat) div 32 = 16"
  by simp

definition ex_walks :: "dir_walk list" where "ex_walks = fixed_walks ex_mount"

lemma ex_walks: "map w_cur_lba ex_walks = [3]" "length ex_walks = 1"
  by (simp_all add: ex_walks_def fixed_walks_def ex_mount_def root_dir_sectors_def priv_bps_def)

lemma ex_blocks: "unat (ram_block_count (world ex_fs)) = 16"
  by (simp add: ex_fs_def fs_init_def ex_ram_def)

lemma ex_dir_good: "ram.dir_good ex_mount ex_fs ex_root ex_walks"
proof -
  have l: "w_cur_lba w = 3" if "w \<in> set ex_walks" for w
  proof -
    have "w_cur_lba w \<in> set (map w_cur_lba ex_walks)" using that by simp
    then show ?thesis unfolding ex_walks(1) by simp
  qed
  have "dir_walks ex_mount tab ex_root ex_walks" for tab
    by (simp add: dir_walks_def ex_walks_def) (simp add: ex_mount_def)
  moreover have "(3 :: u64) + m_partition_base_lba ex_mount \<notin> fat_area ex_mount"
    by (auto simp: fat_area_def fat_lba_def ex_mount_def dest!: less_2_cases)
  moreover have "unat ((3 :: u64) + m_partition_base_lba ex_mount) < 16" by (simp add: ex_mount_def)
  ultimately show ?thesis
    using ex_walks(1) by (auto simp: ram.dir_good_def ram.dir_ok_def l ex_blocks)
qed

lemma ex_slots: "dir_slots (vsec ram_content ex_mount ex_fs) 16 ex_walks =
    map (\<lambda>e. \<lparr>hit_lba = 3, hit_off = e * 32, hit_entry = replicate 32 0\<rparr>) [0..<16]"
proof -
  obtain w where w: "ex_walks = [w]" "w_cur_lba w = 3" using ex_walks by (cases ex_walks) auto
  have "vsec ram_content ex_mount ex_fs 3 = replicate 512 0"
    by (simp add: vsec_def ex_mount_def ex_fs_def fs_init_def ram_content_def ex_ram_def)
  then show ?thesis by (auto simp: dir_slots_def w)
qed


lemma ex_dir_ok: "ram.dir_ok ex_mount ex_fs ex_root ex_walks"
  using ex_dir_good by (simp add: ram.dir_good_def)

section \<open>Lookups\<close>

text \<open>
  C8. On a device that does not fail, and for a directory whose chain is well formed and on the medium, the
  lookup of an 8.3 name is the abstract lookup over the slots of the directory: the first slot before the end
  marker that is live, is no long-name slot and has the eleven bytes of the name, and not-found when there is
  none. The walk always ends, no block is changed, and no driver state but the FAT cache.
\<close>

theorem dir_find_correct:
  assumes d: "reliable_device b content bs valid nb" and ok: "reliable_device.dir_ok b content bs valid nb m s loc ws"
  shows "\<exists>t. priv_dir_find m loc name83 s =
      (case find (holds_name name83) (takeWhile (\<lambda>h. slot_mark h \<noteq> 0) (dir_slots (vsec content m s) (bs div 32) ws)) of
         Some h \<Rightarrow> Inr h | None \<Rightarrow> Inl k_ra8_err_not_found, t) \<and>
    fs_inv valid content m t \<and> content (world t) = content (world s) \<and> fat_frame s t"
proof -
  from ok have m: "on_backend b bs m" by (simp add: reliable_device.dir_ok_def [OF d])
  from reliable_device.dir_find_spec [OF d ok, of name83] reliable_device.dir_eps(1) [OF d m] show ?thesis
    by (auto simp: lookup_83_def before_end_def reliable_device.only_read_def [OF d])
qed

theorem dir_find_correct_witness:
  "\<exists>t. priv_dir_find ex_mount ex_root (replicate 11 0x41) ex_fs = (Inl k_ra8_err_not_found, t)"
  using dir_find_correct [OF ram.reliable_device_axioms ex_dir_ok, of "replicate 11 0x41"] by (auto simp: ex_slots upt_conv_Cons)

text \<open>
  C17. The lookup of a long name is the abstract lookup over the slots: a fold that gathers long-name slots,
  forgets them at a deleted or 8.3 slot, and stops at the first entry whose checksum fits and whose gathered
  name equals the wanted one up to the case table.
\<close>

theorem dir_find_long_correct:
  assumes d: "reliable_device b content bs valid nb" and ok: "reliable_device.dir_ok b content bs valid nb m s loc ws"
    and w: "want \<noteq> []" "hd want \<noteq> chr_slash" "priv_utf8_to_utf16 want k_lfn_write_max = Inr needle"
  shows "\<exists>t. priv_dir_find_long m loc want s =
      (case lookup_long needle (dir_slots (vsec content m s) (bs div 32) ws) priv_lfn_reset of
         Some h \<Rightarrow> Inr h | None \<Rightarrow> Inl k_ra8_err_not_found, t) \<and>
    fs_inv valid content m t \<and> content (world t) = content (world s) \<and> fat_frame s t"
proof -
  from ok have m: "on_backend b bs m" by (simp add: reliable_device.dir_ok_def [OF d])
  from reliable_device.dir_find_long_spec [OF d ok w(2,1,3)] reliable_device.dir_eps(1) [OF d m] show ?thesis
    by (auto simp: reliable_device.only_read_def [OF d])
qed

theorem dir_find_long_correct_witness:
  "\<exists>t. priv_dir_find_long ex_mount ex_root [0x61, 0x20, 0x62] ex_fs = (Inl k_ra8_err_not_found, t)"
proof -
  have n: "priv_utf8_to_utf16 [0x61, 0x20, 0x62] k_lfn_write_max = Inr [0x61, 0x20, 0x62]" by code_simp
  have "lookup_long needle (dir_slots (vsec ram_content ex_mount ex_fs) 16 ex_walks) lfn = None" for needle lfn
    unfolding ex_slots by (simp add: upt_conv_Cons)
  with dir_find_long_correct [OF ram.reliable_device_axioms ex_dir_ok _ _ n] show ?thesis by auto
qed

section \<open>Creating and erasing entries\<close>

text \<open>
  C19. The search for space returns the start of the first run of free slots of the wanted length, and fails,
  with no-memory, only when the directory has no such run.
\<close>

theorem find_free_run_correct:
  assumes d: "reliable_device b content bs valid nb" and ok: "reliable_device.dir_ok b content bs valid nb m s loc ws"
    and need: "0 < need"
  defines "fs \<equiv> slots_free (vsec content m s) (bs div 32) ws"
  shows "\<exists>r t. priv_dir_find_free_run m loc need s = (r, t) \<and> content (world t) = content (world s) \<and>
    (case r of
       Inr sl \<Rightarrow> \<exists>q. sl = nth_slot (bs div 32) ws q \<and> free_run need fs q \<and> (\<forall>q' < q. \<not> free_run need fs q')
     | Inl e \<Rightarrow> e = k_ra8_err_no_mem \<and> (\<nexists>q. free_run need fs q))"
proof -
  from ok have m: "on_backend b bs m" by (simp add: reliable_device.dir_ok_def [OF d])
  from reliable_device.find_free_run_spec [OF d ok need, unfolded reliable_device.dir_eps(1) [OF d m]] show ?thesis
    unfolding fs_def reliable_device.only_read_def [OF d] by blast
qed

theorem find_free_run_correct_witness:
  "\<exists>t. priv_dir_find_free_run ex_mount ex_root 17 ex_fs = (Inl k_ra8_err_no_mem, t)"
proof -
  have no: "\<not> free_run 17 (slots_free (vsec ram_content ex_mount ex_fs) 16 ex_walks) q" for q
    by (simp add: free_run_def slots_free_def ex_slots)
  obtain r t where "priv_dir_find_free_run ex_mount ex_root 17 ex_fs = (r, t)"
    "case r of Inr sl \<Rightarrow> \<exists>q. sl = nth_slot 16 ex_walks q \<and> free_run 17 (slots_free (vsec ram_content ex_mount ex_fs) 16 ex_walks) q \<and>
        (\<forall>q' < q. \<not> free_run 17 (slots_free (vsec ram_content ex_mount ex_fs) 16 ex_walks) q')
      | Inl e \<Rightarrow> e = k_ra8_err_no_mem \<and> (\<nexists>q. free_run 17 (slots_free (vsec ram_content ex_mount ex_fs) 16 ex_walks) q)"
    using find_free_run_correct [OF ram.reliable_device_axioms ex_dir_ok, of 17, unfolded ex_eps] by auto
  with no show ?thesis by (cases r) auto
qed


text \<open>
  C16. A new name that fits an 8.3 entry (its packed form is not in the directory yet, and the directory has a
  free slot): the reservation and the commit succeed, the lookup of the name then returns exactly the committed
  entry, at the position the commit reported, holding the packed name, the case bits and the template's fields;
  no other slot of the directory has changed and the directory is still well formed.
\<close>

theorem create_short_found:
  assumes d: "reliable_device b content bs valid nb" and g: "reliable_device.dir_good b content bs valid nb m s loc ws"
    and c: "priv_name_classify leaf (replicate 11 0) = (k_name_kind_short, units, name83, ntres)"
    and new: "lookup_83 name83 (dir_slots (vsec content m s) (bs div 32) ws) = None"
    and room: "\<exists>h \<in> set (dir_slots (vsec content m s) (bs div 32) ws). slot_free h"
    and l: "length tmpl = 32" "tmpl ! 11 \<noteq> k_ra8_fs_attr_lfn"
  shows "\<exists>plan s1 h t u q. priv_dir_reserve m loc leaf s = (Inr plan, s1) \<and>
    priv_dir_commit m plan tmpl s1 = (Inr (hit_lba h, hit_off h), t) \<and>
    priv_dir_lookup_any m loc leaf t = (Inr h, u) \<and> entry_of plan tmpl (hit_entry h) \<and>
    pl_name83 plan = name83 \<and> pl_ntres plan = ntres \<and>
    same_outside q 1 (dir_slots (vsec content m s) (bs div 32) ws) (dir_slots (vsec content m u) (bs div 32) ws) \<and>
    reliable_device.dir_good b content bs valid nb m u loc ws"
  using reliable_device.create_short [OF d g c new room l] .

definition ex_tmpl :: bytes where
  "ex_tmpl = replicate 11 0 @ [0x20] @ replicate 20 7"

lemma ex_lookup_83: "lookup_83 n (dir_slots (vsec ram_content ex_mount ex_fs) 16 ex_walks) = None"
  unfolding ex_slots by (simp add: lookup_83_def before_end_def upt_conv_Cons)

theorem create_short_found_witness:
  "\<exists>plan s1 h t u. priv_dir_reserve ex_mount ex_root [0x41, 0x2E, 0x62] ex_fs = (Inr plan, s1) \<and>
    priv_dir_commit ex_mount plan ex_tmpl s1 = (Inr (hit_lba h, hit_off h), t) \<and>
    priv_dir_lookup_any ex_mount ex_root [0x41, 0x2E, 0x62] t = (Inr h, u) \<and>
    take 11 (hit_entry h) = [0x41, 0x20, 0x20, 0x20, 0x20, 0x20, 0x20, 0x20, 0x42, 0x20, 0x20]"
proof -
  have c: "priv_name_classify [0x41, 0x2E, 0x62] (replicate 11 0) = (k_name_kind_short, [0x41, 0x2E, 0x62],
      [0x41, 0x20, 0x20, 0x20, 0x20, 0x20, 0x20, 0x20, 0x42, 0x20, 0x20], 0x10)" by code_simp
  have r: "\<exists>h \<in> set (dir_slots (vsec ram_content ex_mount ex_fs) (512 div 32) ex_walks). slot_free h"
    by (auto simp: ex_slots slot_free_def internal_slot_is_free_def intro!: exI [of _ 0])
  have l: "length ex_tmpl = 32" "ex_tmpl ! 11 \<noteq> k_ra8_fs_attr_lfn" by (simp_all add: ex_tmpl_def nth_append)
  from create_short_found [OF ram.reliable_device_axioms ex_dir_good c _ r l] ex_lookup_83 show ?thesis
    unfolding entry_of_def by auto
qed

text \<open>
  C7. A new name that needs long-name slots, in a directory that already has a run of free slots long enough for the
  long-name slots and the entry, so that the reservation need not grow it, whose end markers are only followed by end markers
  and which has no long-name slot in front of a free one: once the reservation has succeeded, the commit
  succeeds and the lookup of the name returns exactly the committed entry, at the position the commit reported;
  the entry is also found under its generated 8.3 alias, which was not in the directory before. Outside the
  run that was written no slot has changed. The unit U+FFFF is excluded, since it is lost when read back. The theorem
  does not speak of a reservation that appends a cluster to the directory.
\<close>

theorem create_long_found:
  assumes d: "reliable_device b content bs valid nb" and g: "reliable_device.dir_good b content bs valid nb m s loc ws"
    and c: "priv_name_classify leaf (replicate 11 0) = (k_name_kind_long, units, name83, ntres)"
    and u: "k_lfn_unicode_pad \<notin> set units" "hd leaf \<noteq> chr_slash"
    and new: "lookup_long units (dir_slots (vsec content m s) (bs div 32) ws) priv_lfn_reset = None"
      "\<And>n. priv_path_to_83 leaf = Some n \<Longrightarrow> lookup_83 n (dir_slots (vsec content m s) (bs div 32) ws) = None"
    and room: "free_run (Suc (lfn_slots_needed (length units))) (slots_free (vsec content m s) (bs div 32) ws) q0"
    and tidy: "tail_clear (dir_slots (vsec content m s) (bs div 32) ws)" "no_orphans (dir_slots (vsec content m s) (bs div 32) ws)"
    and l: "length tmpl = 32" "tmpl ! 11 \<noteq> k_ra8_fs_attr_lfn"
    and r: "priv_dir_reserve m loc leaf s = (Inr plan, s1)"
  shows "\<exists>h t v q. priv_dir_commit m plan tmpl s1 = (Inr (hit_lba h, hit_off h), t) \<and>
    priv_dir_lookup_any m loc leaf t = (Inr h, v) \<and> entry_of plan tmpl (hit_entry h) \<and>
    lookup_83 (pl_name83 plan) (dir_slots (vsec content m v) (bs div 32) ws) = Some h \<and>
    same_outside q (Suc (lfn_slots_needed (length units)))
      (dir_slots (vsec content m s) (bs div 32) ws) (dir_slots (vsec content m v) (bs div 32) ws) \<and>
    reliable_device.dir_good b content bs valid nb m v loc ws"
  using reliable_device.create_long [OF d g c u new room [unfolded slots_free_def] tidy l r] .

theorem create_long_found_witness:
  "\<exists>plan s1 h t v. priv_dir_reserve ex_mount ex_root [0x61, 0x20, 0x62] ex_fs = (Inr plan, s1) \<and>
    priv_dir_commit ex_mount plan ex_tmpl s1 = (Inr (hit_lba h, hit_off h), t) \<and>
    priv_dir_lookup_any ex_mount ex_root [0x61, 0x20, 0x62] t = (Inr h, v)"
proof -
  have c: "priv_name_classify [0x61, 0x20, 0x62] (replicate 11 0) = (k_name_kind_long, [0x61, 0x20, 0x62], replicate 11 0, 0)"
    by code_simp
  have l: "length ex_tmpl = 32" "ex_tmpl ! 11 \<noteq> k_ra8_fs_attr_lfn" by (simp_all add: ex_tmpl_def nth_append)
  have l3: "length [0x61, 0x20, 0x62 :: u16] = 3" by simp
  have room: "free_run (Suc (lfn_slots_needed (length [0x61, 0x20, 0x62 :: u16]))) (slots_free (vsec ram_content ex_mount ex_fs) 16 ex_walks) 0"
    by (simp add: free_run_def slots_free_def ex_slots lfn_slots_needed_def slot_free_def internal_slot_is_free_def)
  have tidy: "tail_clear (dir_slots (vsec ram_content ex_mount ex_fs) 16 ex_walks)" "no_orphans (dir_slots (vsec ram_content ex_mount ex_fs) 16 ex_walks)"
    by (simp_all add: ex_slots tail_clear_def no_orphans_def)
  have n: "lookup_long [0x61, 0x20, 0x62] (dir_slots (vsec ram_content ex_mount ex_fs) 16 ex_walks) priv_lfn_reset = None"
    unfolding ex_slots by (simp add: upt_conv_Cons)
  obtain t where t: "priv_dir_find ex_mount ex_root (priv_lfn_alias_basis [0x61, 0x20, 0x62] 1) ex_fs = (Inl k_ra8_err_not_found, t)"
    "ram.only_read ex_mount ex_fs t"
    using ram.dir_find_spec [OF ex_dir_ok] ram.dir_eps(1) [OF ex_on_backend] ex_lookup_83 by fastforce
  then have a: "internal_alias_unique ex_mount ex_root [0x61, 0x20, 0x62] ex_fs = (Inr (priv_lfn_alias_basis [0x61, 0x20, 0x62] 1), t)"
    unfolding internal_alias_unique_def alias_unique_loop.simps [of ex_mount ex_root "[0x61, 0x20, 0x62]" 1]
    by (simp add: attemptE_def Let_def)
  have "\<exists>q. free_run (Suc (lfn_slots_needed 3)) (slots_free (vsec ram_content ex_mount t) (512 div 32) ex_walks) q"
    unfolding ram.only_read_medium(2) [OF t(2)] ex_eps using room [unfolded l3] by blast
  from ram.reserve_loop_found [OF ram.dir_ok_read [OF ex_dir_ok t(2)] zero_less_Suc this, of 3] obtain sl s1 where
    "reserve_loop ex_mount ex_root (Suc (lfn_slots_needed 3)) 3 t = (Inr sl, s1)" by blast
  with a c obtain plan where r: "priv_dir_reserve ex_mount ex_root [0x61, 0x20, 0x62] ex_fs = (Inr plan, s1)"
    by (simp add: priv_dir_reserve_def bindE_def numeral_3_eq_3 del: reserve_loop.simps)
  show ?thesis
    using create_long_found [OF ram.reliable_device_axioms ex_dir_good c _ _ _ _ _ _ _ l r, of 0] n ex_lookup_83 room tidy r
    by auto
qed


text \<open>
  C18. Erasing the entry at slot \<open>q\<close> of a well-formed directory succeeds and marks as deleted the slot itself and
  the \<open>k\<close> slots right in front of it, which are exactly the live long-name slots that carry the checksum of the
  entry's name (at most twenty, the bound of the buffer); it changes no other byte of any slot.
\<close>

theorem dir_erase_correct:
  assumes d: "reliable_device b content bs valid nb" and g: "reliable_device.dir_good b content bs valid nb m s loc ws"
  defines "hs u \<equiv> dir_slots (vsec content m u) (bs div 32) ws"
  assumes q: "q < length (hs s)"
  shows "\<exists>k t. k \<le> q \<and> k \<le> k_lfn_erase_max \<and> chain_of (priv_sfn_checksum name83) (take q (hs s)) k \<and>
    priv_dir_erase_chain m loc (hit_lba (hs s ! q)) (hit_off (hs s ! q)) name83 s = (Inr (), t) \<and>
    length (hs t) = length (hs s) \<and>
    (\<forall>i < length (hs s). hs t ! i = (if q - k \<le> i \<and> i \<le> q then mark_free (hs s ! i) else hs s ! i)) \<and>
    reliable_device.dir_good b content bs valid nb m t loc ws"
  using reliable_device.dir_erase_spec [OF d g q [unfolded hs_def], of name83] unfolding hs_def by blast

theorem dir_erase_correct_witness:
  "\<exists>t. priv_dir_erase_chain ex_mount ex_root 3 160 (replicate 11 0x41) ex_fs = (Inr (), t) \<and>
     dir_slots (vsec ram_content ex_mount t) 16 ex_walks ! 5 =
       \<lparr>hit_lba = 3, hit_off = 160, hit_entry = 0xE5 # replicate 31 0\<rparr> \<and>
     dir_slots (vsec ram_content ex_mount t) 16 ex_walks ! 4 = \<lparr>hit_lba = 3, hit_off = 128, hit_entry = replicate 32 0\<rparr>"
proof -
  let ?hs = "\<lambda>u. dir_slots (vsec ram_content ex_mount u) 16 ex_walks"
  have at: "?hs ex_fs ! i = \<lparr>hit_lba = 3, hit_off = i * 32, hit_entry = replicate 32 0\<rparr>" if "i < 16" for i
    using that by (simp add: ex_slots)
  have l: "length (?hs ex_fs) = 16" by (simp add: ex_slots)
  obtain k t where k: "k \<le> 5" "chain_of (priv_sfn_checksum (replicate 11 0x41)) (take 5 (?hs ex_fs)) k"
    "priv_dir_erase_chain ex_mount ex_root 3 160 (replicate 11 0x41) ex_fs = (Inr (), t)"
    "\<forall>i < 16. ?hs t ! i = (if 5 - k \<le> i \<and> i \<le> 5 then mark_free (?hs ex_fs ! i) else ?hs ex_fs ! i)"
    using dir_erase_correct [OF ram.reliable_device_axioms ex_dir_good, of 5 "replicate 11 0x41", unfolded ex_eps l] at [of 5] by auto
  have "k = 0"
  proof (rule ccontr)
    assume "k \<noteq> 0"
    with k(2) have "lfn_of (priv_sfn_checksum (replicate 11 0x41)) (?hs ex_fs ! 4)" by (auto simp: chain_of_def l dest!: spec [of _ 4])
    then show False using at [of 4] by (simp add: lfn_of_def)
  qed
  with k at [of 4] at [of 5] have "?hs t ! 5 = \<lparr>hit_lba = 3, hit_off = 160, hit_entry = (replicate 32 0)[0 := 0xE5]\<rparr>"
    "?hs t ! 4 = \<lparr>hit_lba = 3, hit_off = 128, hit_entry = replicate 32 0\<rparr>" by simp_all
  moreover have "(replicate 32 0)[0 := 0xE5 :: u8] = 0xE5 # replicate 31 0" by (simp add: numeral_eq_Suc)
  ultimately show ?thesis using k(3) by simp
qed

end
