(* ===== verification/Exfat_Cursor.thy ===== *)
theory Exfat_Cursor
  imports Fat_Handles
begin

text \<open>
  \<^verbatim>\<open>ra8_fs_fat_exfat_read.c\<close>, the part below the mount: directory locations and cursors, the comparison of
  names, and the lookup of a name in one directory. A cursor is passed by non-const pointer; an operation on a
  cursor acts on the pair of the driver state and the cursor, so what it did to the cursor before a failure is
  kept.
\<close>

abbreviation (input) k_exfat_scan_limit :: nat where "k_exfat_scan_limit \<equiv> 65536"
abbreviation (input) k_exfat_entry_bytes :: nat where "k_exfat_entry_bytes \<equiv> 32"
abbreviation (input) k_exfat_entry_eod :: u8 where "k_exfat_entry_eod \<equiv> 0"
abbreviation (input) k_exfat_entry_bitmap :: u8 where "k_exfat_entry_bitmap \<equiv> 0x81"
abbreviation (input) k_exfat_entry_upcase :: u8 where "k_exfat_entry_upcase \<equiv> 0x82"
abbreviation (input) k_exfat_entry_label :: u8 where "k_exfat_entry_label \<equiv> 0x83"
abbreviation (input) k_exfat_entry_file :: u8 where "k_exfat_entry_file \<equiv> 0x85"
abbreviation (input) k_exfat_entry_stream :: u8 where "k_exfat_entry_stream \<equiv> 0xC0"
abbreviation (input) k_exfat_entry_name :: u8 where "k_exfat_entry_name \<equiv> 0xC1"
abbreviation (input) k_exfat_secflag_no_fat :: u8 where "k_exfat_secflag_no_fat \<equiv> 0x02"
abbreviation (input) k_exfat_secflag_poss :: u8 where "k_exfat_secflag_poss \<equiv> 0x01"
abbreviation (input) k_exfat_secflag_alloc :: u8 where "k_exfat_secflag_alloc \<equiv> 0x03"
abbreviation (input) k_exfat_attr_read_only :: u8 where "k_exfat_attr_read_only \<equiv> 0x01"
abbreviation (input) k_exfat_attr_directory :: u8 where "k_exfat_attr_directory \<equiv> 0x10"
abbreviation (input) k_exfat_attr_archive :: u8 where "k_exfat_attr_archive \<equiv> 0x20"
abbreviation (input) k_exfat_name_per_entry :: nat where "k_exfat_name_per_entry \<equiv> 15"
abbreviation (input) k_exfat_name_cap :: nat where "k_exfat_name_cap \<equiv> 64"
abbreviation (input) k_exfat_name_u8_cap :: nat where "k_exfat_name_u8_cap \<equiv> 193"
abbreviation (input) k_exfat_name_off :: nat where "k_exfat_name_off \<equiv> 2"
abbreviation (input) k_exfat_strm_off_flags :: nat where "k_exfat_strm_off_flags \<equiv> 1"
abbreviation (input) k_exfat_strm_off_nlen :: nat where "k_exfat_strm_off_nlen \<equiv> 3"
abbreviation (input) k_exfat_strm_off_clus :: nat where "k_exfat_strm_off_clus \<equiv> 0x14"
abbreviation (input) k_exfat_strm_off_dlen :: nat where "k_exfat_strm_off_dlen \<equiv> 0x18"
abbreviation (input) k_exfat_off_strm_hash :: nat where "k_exfat_off_strm_hash \<equiv> 4"
abbreviation (input) k_exfat_off_strm_valid :: nat where "k_exfat_off_strm_valid \<equiv> 8"
abbreviation (input) k_exfat_off_file_secnt :: nat where "k_exfat_off_file_secnt \<equiv> 1"
abbreviation (input) k_exfat_off_file_csum :: nat where "k_exfat_off_file_csum \<equiv> 2"
abbreviation (input) k_exfat_off_file_attr :: nat where "k_exfat_off_file_attr \<equiv> 4"
abbreviation (input) k_exfat_upc_off_csum :: nat where "k_exfat_upc_off_csum \<equiv> 4"
abbreviation (input) k_exfat_inuse_bit :: u8 where "k_exfat_inuse_bit \<equiv> 0x80"
abbreviation (input) k_exfat_set_max_entries :: nat where "k_exfat_set_max_entries \<equiv> 19"
abbreviation (input) k_exfat_set_writable :: nat where "k_exfat_set_writable \<equiv> 7"
abbreviation (input) k_exfat_set_min_entries :: nat where "k_exfat_set_min_entries \<equiv> 3"
abbreviation (input) k_exfat_path_depth :: nat where "k_exfat_path_depth \<equiv> 32"
abbreviation (input) k_exfat_dir_grow_max :: nat where "k_exfat_dir_grow_max \<equiv> 2"

section \<open>Locations and cursors\<close>

record exfat_cursor =
  ec_cluster :: u32
  ec_entry_in_cluster :: u32
  ec_scanned :: u32
  ec_contig_end :: u32

record exfat_dir =
  ed_cluster :: u32
  ed_contig_end :: u32
  ed_self_cluster :: u32
  ed_self_index :: u32

record exfat_setpos =
  sp_cluster :: u32
  sp_index :: u32

type_synonym ('w, 'a) cop = "('w fs \<times> exfat_cursor, 'a) op"

text \<open>A call that does not get the cursor; reading and writing it; a block with a local cursor.\<close>

definition onC :: "('w fs, 'a) op \<Rightarrow> ('w, 'a) cop" where
  "onC f = (\<lambda>(s, c). case f s of (r, s') \<Rightarrow> (r, (s', c)))"

definition askC :: "(exfat_cursor \<Rightarrow> 'a) \<Rightarrow> ('w, 'a) cop" where
  "askC f = (\<lambda>(s, c). (Inr (f c), (s, c)))"

definition setC :: "(exfat_cursor \<Rightarrow> exfat_cursor) \<Rightarrow> ('w, unit) cop" where
  "setC f = (\<lambda>(s, c). (Inr (), (s, f c)))"

definition withC :: "exfat_cursor \<Rightarrow> ('w, 'a) cop \<Rightarrow> ('w fs, 'a) op" where
  "withC c f = (\<lambda>s. case f (s, c) of (r, (s', _)) \<Rightarrow> (r, s'))"

definition priv_exfat_dir_root :: "'w mount \<Rightarrow> exfat_dir" where
  "priv_exfat_dir_root m = \<lparr>ed_cluster = m_root_cluster m, ed_contig_end = 0, ed_self_cluster = 0, ed_self_index = 0\<rparr>"

text \<open>The location a stream entry describes; \<open>out\<close> keeps its coordinates.\<close>

definition priv_exfat_dir_from_set :: "'w mount \<Rightarrow> bytes \<Rightarrow> exfat_dir \<Rightarrow> ('w fs, exfat_dir) op" where
  "priv_exfat_dir_from_set m strm out =
     (let c = priv_rd32 strm k_exfat_strm_off_clus;
          nbytes = priv_rd64 strm k_exfat_strm_off_dlen;
          out1 = out\<lparr>ed_cluster := c, ed_contig_end := 0\<rparr>
      in if strm ! k_exfat_strm_off_flags AND k_exfat_secflag_no_fat = 0 then returnE out1
         else bindE (cluster_bytesE m) (\<lambda>cb. let cbytes = ucast cb :: u64 in
           returnE (out1\<lparr>ed_contig_end := c + ucast ((nbytes + cbytes - 1) div cbytes)\<rparr>)))"

definition priv_exfat_cursor_init :: "exfat_dir \<Rightarrow> exfat_cursor" where
  "priv_exfat_cursor_init dir = \<lparr>ec_cluster = ed_cluster dir, ec_entry_in_cluster = 0, ec_scanned = 0,
     ec_contig_end = ed_contig_end dir\<rparr>"

definition priv_exfat_step_cluster :: "'w mount \<Rightarrow> u32 \<Rightarrow> u32 \<Rightarrow> ('w fs, u32) op" where
  "priv_exfat_step_cluster m cluster contig_end =
     (if contig_end \<noteq> 0 then
        (let adjacent = cluster + 1 in
         if adjacent \<ge> contig_end then throwE k_ra8_err_not_found else returnE adjacent)
      else bindE (priv_fat_get m cluster) (\<lambda>nxt.
        if priv_is_eoc m nxt then throwE k_ra8_err_not_found else returnE nxt))"

definition priv_exfat_next_entry :: "'w mount \<Rightarrow> ('w, bytes) cop" where
  "priv_exfat_next_entry m =
     (let per_cluster = priv_cluster_bytes m div of_nat k_exfat_entry_bytes in
      bindE (askC (\<lambda>c. c)) (\<lambda>cur.
      bindE (whenE (ec_entry_in_cluster cur \<ge> per_cluster)
          (bindE (onC (priv_exfat_step_cluster m (ec_cluster cur) (ec_contig_end cur))) (\<lambda>nxt.
            setC (\<lambda>c. c\<lparr>ec_cluster := nxt, ec_entry_in_cluster := 0\<rparr>)))) (\<lambda>_.
      bindE (askC (\<lambda>c. c)) (\<lambda>cur1.
        let byte_off = ec_entry_in_cluster cur1 * of_nat k_exfat_entry_bytes;
            lba = priv_cluster_to_lba m (ec_cluster cur1) + ucast (byte_off div priv_bps m)
        in bindE (onC (priv_read_sector m lba)) (\<lambda>sec.
           bindE (setC (\<lambda>c. c\<lparr>ec_entry_in_cluster := ec_entry_in_cluster c + 1, ec_scanned := ec_scanned c + 1\<rparr>)) (\<lambda>_.
             returnE (take k_exfat_entry_bytes (drop (unat (byte_off mod priv_bps m)) sec))))))))"

section \<open>Names\<close>

definition priv_exfat_name_chunk_eq :: "bytes \<Rightarrow> u16 list \<Rightarrow> nat \<Rightarrow> bool" where
  "priv_exfat_name_chunk_eq entry name pos =
     list_all (\<lambda>i. pos + i \<ge> length name \<or>
         priv_exfat_upcase_unit (priv_rd16 entry (k_exfat_name_off + i * 2)) = priv_exfat_upcase_unit (name ! (pos + i)))
       [0..<k_exfat_name_per_entry]"

definition priv_exfat_name_to_units :: "'w mount \<Rightarrow> bytes \<Rightarrow> ra8_err + u16 list" where
  "priv_exfat_name_to_units m path =
     (case priv_utf8_to_utf16 path k_exfat_name_cap of
        Inl err \<Rightarrow> Inl err
      | Inr units \<Rightarrow>
          if m_exfat_upcase_ok m then Inr units
          else if priv_utf16_all_ascii units then Inr units
          else Inl k_ra8_err_not_supported)"

definition priv_exfat_needle_units :: "'w mount \<Rightarrow> bytes \<Rightarrow> ra8_err \<Rightarrow> ra8_err + u16 list" where
  "priv_exfat_needle_units m name too_long =
     (case priv_exfat_name_to_units m name of
        Inl e \<Rightarrow> Inl (if e = k_ra8_err_no_mem then too_long else e) | Inr units \<Rightarrow> Inr units)"

section \<open>Lookup in one directory\<close>

primrec match_names_loop :: "'w mount \<Rightarrow> u16 list \<Rightarrow> nat list \<Rightarrow> ('w, unit) cop" where
  "match_names_loop m name [] = returnE ()"
| "match_names_loop m name (k # ks) =
     bindE (priv_exfat_next_entry m) (\<lambda>nm.
       if nm ! 0 \<noteq> k_exfat_entry_name then throwE k_ra8_err_not_found
       else if \<not> priv_exfat_name_chunk_eq nm name (k * k_exfat_name_per_entry) then throwE k_ra8_err_not_found
       else match_names_loop m name ks)"

abbreviation exfat_name_entries :: "nat \<Rightarrow> nat" where
  "exfat_name_entries nlen \<equiv> (nlen + k_exfat_name_per_entry - 1) div k_exfat_name_per_entry"

definition internal_exfat_match_set :: "'w mount \<Rightarrow> u16 list \<Rightarrow> ('w, bytes) cop" where
  "internal_exfat_match_set m name =
     bindE (priv_exfat_next_entry m) (\<lambda>strm.
       if strm ! 0 \<noteq> k_exfat_entry_stream then throwE k_ra8_err_not_found
       else if unat (strm ! k_exfat_strm_off_nlen) \<noteq> length name then throwE k_ra8_err_not_found
       else bindE (match_names_loop m name [0..<exfat_name_entries (length name)]) (\<lambda>_. returnE strm))"

text \<open>Every round of the scans reads an entry, so \<open>Suc k_exfat_scan_limit\<close> rounds are never used up.\<close>

primrec exfat_find_loop :: "'w mount \<Rightarrow> u16 list \<Rightarrow> nat \<Rightarrow> ('w, bytes \<times> u8) cop" where
  "exfat_find_loop m need 0 = throwE out_of_fuel"
| "exfat_find_loop m need (Suc n) =
     bindE (askC ec_scanned) (\<lambda>k.
       if unat k \<ge> k_exfat_scan_limit then throwE k_ra8_err_not_found
       else bindE (priv_exfat_next_entry m) (\<lambda>entry.
         if entry ! 0 = k_exfat_entry_eod then throwE k_ra8_err_not_found
         else if entry ! 0 \<noteq> k_exfat_entry_file then exfat_find_loop m need n
         else attemptE (internal_exfat_match_set m need) (\<lambda>r. case r of
             Inr strm \<Rightarrow> returnE (strm, entry ! k_exfat_off_file_attr)
           | Inl e \<Rightarrow> if e \<noteq> k_ra8_err_not_found then throwE e else exfat_find_loop m need n)))"

definition priv_exfat_find :: "'w mount \<Rightarrow> exfat_dir \<Rightarrow> bytes \<Rightarrow> ('w fs, bytes \<times> u8) op" where
  "priv_exfat_find m dir path =
     (case priv_exfat_name_to_units m (dropWhile (\<lambda>c. c = chr_slash) path) of
        Inl ne \<Rightarrow> throwE (if ne = k_ra8_err_no_mem then k_ra8_err_not_found else ne)
      | Inr need \<Rightarrow> withC (priv_exfat_cursor_init dir) (exfat_find_loop m need (Suc k_exfat_scan_limit)))"

section \<open>Lookup that records positions\<close>

text \<open>
  \<open>internal_exfat_take_set\<close>. The caller's buffer for the stream entry is part of every result, also of a
  failed one: \<open>strm\<close> holds its bytes, and a set that does not match may leave its stream entry there.
\<close>

type_synonym 'a strm_result = "bytes \<times> (ra8_err + 'a)"

primrec take_set_loop :: "'w mount \<Rightarrow> u16 list \<Rightarrow> nat list \<Rightarrow> exfat_setpos list \<Rightarrow> bytes \<Rightarrow> bool \<Rightarrow>
    ('w, (exfat_setpos list \<times> bool) strm_result) cop" where
  "take_set_loop m name [] pos strm matched = returnE (strm, Inr (pos, matched))"
| "take_set_loop m name (k # ks) pos strm matched =
     attemptE (priv_exfat_next_entry m) (\<lambda>r. case r of
       Inl e \<Rightarrow> returnE (strm, Inl e)
     | Inr se \<Rightarrow> bindE (askC (\<lambda>c. \<lparr>sp_cluster = ec_cluster c, sp_index = ec_entry_in_cluster c - 1\<rparr>)) (\<lambda>sp.
         let pos' = pos @ [sp] in
         if k = 0 then
           (if se ! 0 \<noteq> k_exfat_entry_stream then take_set_loop m name ks pos' strm False
            else if unat (se ! k_exfat_strm_off_nlen) \<noteq> length name then take_set_loop m name ks pos' strm False
            else take_set_loop m name ks pos' se matched)
         else if \<not> matched then take_set_loop m name ks pos' strm matched
         else if se ! 0 \<noteq> k_exfat_entry_name then take_set_loop m name ks pos' strm False
         else take_set_loop m name ks pos' strm
           (priv_exfat_name_chunk_eq se name ((k - 1) * k_exfat_name_per_entry))))"

definition internal_exfat_take_set ::
    "'w mount \<Rightarrow> u16 list \<Rightarrow> nat \<Rightarrow> exfat_setpos list \<Rightarrow> bytes \<Rightarrow> ('w, (exfat_setpos list \<times> bool) strm_result) cop" where
  "internal_exfat_take_set m name sc pos strm = take_set_loop m name [0..<sc] pos strm True"

definition internal_exfat_try_set ::
    "'w mount \<Rightarrow> exfat_setpos \<Rightarrow> bytes \<Rightarrow> u16 list \<Rightarrow> nat \<Rightarrow> bytes \<Rightarrow> ('w, exfat_setpos list strm_result) cop" where
  "internal_exfat_try_set m at' e need max_pos strm =
     (let sc = unat (e ! k_exfat_off_file_secnt) in
      if 1 + sc > max_pos then returnE (strm, Inl k_ra8_err_no_mem)
      else bindE (internal_exfat_take_set m need sc [at'] strm) (\<lambda>(strm', r).
        returnE (strm', case r of Inl err \<Rightarrow> Inl err
          | Inr (pos, matched) \<Rightarrow> if matched then Inr pos else Inl k_ra8_err_not_found)))"

record exfat_found =
  xf_pos :: "exfat_setpos list"
  xf_file :: bytes
  xf_strm :: bytes

primrec find_set_loop :: "'w mount \<Rightarrow> u16 list \<Rightarrow> nat \<Rightarrow> nat \<Rightarrow> bytes \<Rightarrow> ('w, exfat_found) cop" where
  "find_set_loop m need max_pos 0 strm = throwE out_of_fuel"
| "find_set_loop m need max_pos (Suc n) strm =
     bindE (askC ec_scanned) (\<lambda>k.
       if unat k \<ge> k_exfat_scan_limit then throwE k_ra8_err_protocol_error
       else bindE (priv_exfat_next_entry m) (\<lambda>e.
         bindE (askC (\<lambda>c. \<lparr>sp_cluster = ec_cluster c, sp_index = ec_entry_in_cluster c - 1\<rparr>)) (\<lambda>at'.
         if e ! 0 = k_exfat_entry_eod then throwE k_ra8_err_not_found
         else if e ! 0 \<noteq> k_exfat_entry_file then find_set_loop m need max_pos n strm
         else bindE (internal_exfat_try_set m at' e need max_pos strm) (\<lambda>(strm', r). case r of
             Inr pos \<Rightarrow> returnE \<lparr>xf_pos = pos, xf_file = e, xf_strm = strm'\<rparr>
           | Inl err \<Rightarrow> if err \<noteq> k_ra8_err_not_found then throwE err else find_set_loop m need max_pos n strm'))))"

definition priv_exfat_find_set :: "'w mount \<Rightarrow> exfat_dir \<Rightarrow> bytes \<Rightarrow> ('w fs, exfat_found) op" where
  "priv_exfat_find_set m dir path =
     (case priv_exfat_needle_units m (dropWhile (\<lambda>c. c = chr_slash) path) k_ra8_err_not_found of
        Inl ne \<Rightarrow> throwE ne
      | Inr need \<Rightarrow> withC (priv_exfat_cursor_init dir)
          (find_set_loop m need k_exfat_set_max_entries (Suc k_exfat_scan_limit) (replicate k_exfat_entry_bytes 0)))"

end
