(* ===== verification/Fat_Mount.thy ===== *)
theory Fat_Mount
  imports Exfat_Cursor
begin

text \<open>
  \<^verbatim>\<open>ra8_fs_fat_mount.c\<close> and the volume recognition of \<^verbatim>\<open>ra8_fs_fat_exfat_read.c\<close> and
  \<^verbatim>\<open>ra8_fs_gpt_abi.zig\<close>: the boot sector, the partition tables, the geometry a FAT volume is driven
  with, and the mount table.

  A function that fills a mount through a non-const pointer is an operation on the pair of the driver state
  and that mount, so what it stored before a failure is kept. The shared buffer \<open>g_fs_scratch\<close> is passed
  as a value: each of these functions reads it only after a sector has been read into it.
\<close>

abbreviation (input) k_mbr_off_part0_type :: nat where "k_mbr_off_part0_type \<equiv> 0x1C2"
abbreviation (input) k_mbr_off_part0_lba :: nat where "k_mbr_off_part0_lba \<equiv> 0x1C6"
abbreviation (input) k_mbr_part_entry_stride :: nat where "k_mbr_part_entry_stride \<equiv> 16"
abbreviation (input) k_mbr_part_entry_count :: nat where "k_mbr_part_entry_count \<equiv> 4"
abbreviation (input) k_gpt_part_type_protective :: u8 where "k_gpt_part_type_protective \<equiv> 0xEE"
abbreviation (input) k_gpt_entry_bytes :: nat where "k_gpt_entry_bytes \<equiv> 128"
abbreviation (input) k_gpt_entry_scan_max :: u32 where "k_gpt_entry_scan_max \<equiv> 128"

section \<open>Building a mount\<close>

type_synonym ('w, 'a) mop = "('w fs \<times> 'w mount, 'a) op"

text \<open>A call that takes the mount by const pointer.\<close>

definition onM :: "('w mount \<Rightarrow> ('w fs, 'a) op) \<Rightarrow> ('w, 'a) mop" where
  "onM f = (\<lambda>(s, m). case f m s of (r, s') \<Rightarrow> (r, (s', m)))"

definition setM :: "('w mount \<Rightarrow> 'w mount) \<Rightarrow> ('w, unit) mop" where
  "setM f = (\<lambda>(s, m). (Inr (), (s, f m)))"

definition askM :: "('w mount \<Rightarrow> 'a) \<Rightarrow> ('w, 'a) mop" where
  "askM f = (\<lambda>(s, m). (Inr (f m), (s, m)))"

definition internal_bps_valid :: "u32 \<Rightarrow> bool" where
  "internal_bps_valid bs =
     (if bs < k_ra8_fs_sector_min \<or> bs > k_ra8_fs_sector_max \<or> bs AND (bs - 1) \<noteq> 0 then False else True)"

definition priv_parse_bpb_into_mount :: "bytes \<Rightarrow> ('w, unit) mop" where
  "priv_parse_bpb_into_mount buf =
     (if buf ! k_bpb_off_signature_lo \<noteq> k_bpb_sig_lo \<or> buf ! k_bpb_off_signature_hi \<noteq> k_bpb_sig_hi
      then throwE k_ra8_err_validation_failed
      else
        bindE (setM (\<lambda>m. m\<lparr>m_sectors_per_cluster := ucast (buf ! k_bpb_off_sec_per_clus),
                 m_reserved_sectors := ucast (priv_rd16 buf k_bpb_off_rsvd_sec_cnt),
                 m_num_fats := ucast (buf ! k_bpb_off_num_fats),
                 m_root_entries := ucast (priv_rd16 buf k_bpb_off_root_ent_cnt)\<rparr>)) (\<lambda>_.
        bindE (askM (\<lambda>m. m)) (\<lambda>m.
          if ucast (priv_rd16 buf k_bpb_off_bytes_per_sec) \<noteq> m_bytes_per_sector m \<or>
             m_sectors_per_cluster m = 0 \<or> m_num_fats m = 0
          then throwE k_ra8_err_validation_failed
          else
            let fat_sz_16 = ucast (priv_rd16 buf k_bpb_off_fat_sz_16) :: u32;
                fat_sz_32 = priv_rd32 buf k_bpb_off_fat_sz_32;
                tot_sec_16 = ucast (priv_rd16 buf k_bpb_off_tot_sec_16) :: u32;
                tot_sec_32 = priv_rd32 buf k_bpb_off_tot_sec_32
            in setM (\<lambda>m. m\<lparr>m_fat_size_sectors := (if fat_sz_16 \<noteq> 0 then fat_sz_16 else fat_sz_32),
                 m_total_sectors := ucast (if tot_sec_16 \<noteq> 0 then tot_sec_16 else tot_sec_32),
                 m_root_cluster := priv_rd32 buf k_bpb_off_root_clus\<rparr>))))"

definition internal_compute_geometry :: "('w, unit) mop" where
  "internal_compute_geometry =
     bindE (setM (\<lambda>m. m\<lparr>m_first_fat_lba := ucast (m_reserved_sectors m)\<rparr>)) (\<lambda>_.
     bindE (setM (\<lambda>m. m\<lparr>m_first_root_lba :=
         m_first_fat_lba m + ucast (m_num_fats m) * ucast (m_fat_size_sectors m)\<rparr>)) (\<lambda>_.
     bindE (setM (\<lambda>m. m\<lparr>m_first_data_lba := m_first_root_lba m + ucast (root_dir_sectors m)\<rparr>)) (\<lambda>_.
     bindE (askM (\<lambda>m. m)) (\<lambda>m.
       if m_total_sectors m < m_first_data_lba m then throwE k_ra8_err_validation_failed
       else
         let data_sectors = m_total_sectors m - m_first_data_lba m;
             count = ucast (data_sectors div ucast (m_sectors_per_cluster m)) :: u32
         in setM (\<lambda>m. m\<lparr>m_count_of_clusters := count,
              m_type := (if count < k_cluster_count_fat12_max then k_ra8_fs_type_fat12
                         else if count < k_cluster_count_fat16_max then k_ra8_fs_type_fat16
                         else k_ra8_fs_type_fat32)\<rparr>)))))"

section \<open>exFAT volume recognition\<close>

definition priv_exfat_csum32 :: "u32 \<Rightarrow> bytes \<Rightarrow> u32" where
  "priv_exfat_csum32 cs0 buf =
     fold (\<lambda>b cs. (if cs AND 1 \<noteq> 0 then 0x80000000 else 0) + drop_bit 1 cs + ucast b) buf cs0"

text \<open>The table as bytes: \<open>upcase_table\<close> holds its 16-bit words.\<close>

definition priv_exfat_upcase_checksum :: u32 where
  "priv_exfat_upcase_checksum =
     priv_exfat_csum32 0 (concat (map (\<lambda>u :: u16. [ucast u, ucast (drop_bit 8 u)]) upcase_table))"

primrec upcase_verify_loop :: "'w mount \<Rightarrow> nat \<Rightarrow> ('w, bool) cop" where
  "upcase_verify_loop m 0 = throwE out_of_fuel"
| "upcase_verify_loop m (Suc n) =
     bindE (askC ec_scanned) (\<lambda>k.
       if unat k \<ge> k_exfat_scan_limit then returnE False
       else attemptE (priv_exfat_next_entry m) (\<lambda>r. case r of
         Inl _ \<Rightarrow> returnE False
       | Inr e \<Rightarrow>
           if e ! 0 = k_exfat_entry_eod then returnE False
           else if e ! 0 \<noteq> k_exfat_entry_upcase then upcase_verify_loop m n
           else returnE (priv_rd32 e k_exfat_upc_off_csum = priv_exfat_upcase_checksum)))"

definition priv_exfat_upcase_verify :: "('w, unit) mop" where
  "priv_exfat_upcase_verify =
     bindE (setM (\<lambda>m. m\<lparr>m_exfat_upcase_ok := False\<rparr>)) (\<lambda>_.
     bindE (onM (\<lambda>m. withC \<lparr>ec_cluster = m_root_cluster m, ec_entry_in_cluster = 0, ec_scanned = 0, ec_contig_end = 0\<rparr>
         (upcase_verify_loop m (Suc k_exfat_scan_limit)))) (\<lambda>ok.
       whenE ok (setM (\<lambda>m. m\<lparr>m_exfat_upcase_ok := True\<rparr>))))"

definition exfat_sig :: bytes where
  "exfat_sig = [0x45, 0x58, 0x46, 0x41, 0x54, 0x20, 0x20, 0x20]"

definition internal_exfat_is_volume :: "bytes \<Rightarrow> bool" where
  "internal_exfat_is_volume buf = list_all (\<lambda>i. buf ! (3 + i) = exfat_sig ! i) [0..<8]"

text \<open>Shifting a 32-bit one by 32 or more is undefined in C.\<close>

definition internal_exfat_parse :: "bytes \<Rightarrow> ('w, unit) mop" where
  "internal_exfat_parse buf =
     bindE (askM (\<lambda>m. m)) (\<lambda>m.
       let shift = unat (buf ! 0x6C) in
       if shift < 9 \<or> shift > 12 \<or> push_bit shift 1 \<noteq> m_bytes_per_sector m then throwE k_ra8_err_not_supported
       else bindE (setM (\<lambda>m. m\<lparr>m_type := k_ra8_fs_type_exfat\<rparr>)) (\<lambda>_.
         if unat (buf ! 0x6D) \<ge> 32 then throwE undefined_behaviour
         else bindE (setM (\<lambda>m. m\<lparr>m_sectors_per_cluster := push_bit (unat (buf ! 0x6D)) 1,
                m_num_fats := ucast (buf ! 0x6E), m_fat_size_sectors := priv_rd32 buf 0x54,
                m_first_fat_lba := ucast (priv_rd32 buf 0x50), m_first_data_lba := ucast (priv_rd32 buf 0x58),
                m_root_cluster := priv_rd32 buf 0x60, m_count_of_clusters := priv_rd32 buf 0x5C,
                m_reserved_sectors := 0, m_root_entries := 0, m_first_root_lba := 0,
                m_total_sectors := priv_rd64 buf 72\<rparr>)) (\<lambda>_. priv_exfat_upcase_verify)))"

definition priv_parse_volume :: "bytes \<Rightarrow> ('w, unit) mop" where
  "priv_parse_volume buf =
     (if internal_exfat_is_volume buf then internal_exfat_parse buf else priv_parse_bpb_into_mount buf)"

section \<open>Partition tables\<close>

definition internal_mbr_part0_lba :: "bytes \<Rightarrow> u32" where
  "internal_mbr_part0_lba buf =
     (if buf ! k_bpb_off_signature_lo \<noteq> k_bpb_sig_lo then 0
      else if buf ! k_bpb_off_signature_hi \<noteq> k_bpb_sig_hi then 0
      else if buf ! k_mbr_off_part0_type = 0 then 0
      else priv_rd32 buf k_mbr_off_part0_lba)"

definition internal_mbr_select_entry :: "bytes \<Rightarrow> u8 \<Rightarrow> ra8_err + u64" where
  "internal_mbr_select_entry buf index =
     (if unat index \<ge> k_mbr_part_entry_count then Inl k_ra8_err_out_of_range
      else let slot = unat index * k_mbr_part_entry_stride in
        if buf ! (k_mbr_off_part0_type + slot) = 0 then Inl k_ra8_err_not_found
        else let base = priv_rd32 buf (k_mbr_off_part0_lba + slot) in
          if base = 0 then Inl k_ra8_err_validation_failed else Inr (ucast base))"

record gpt_geom =
  gg_entry_lba :: u64
  gg_count :: u32

definition gpt_signature :: bytes where
  "gpt_signature = [0x45, 0x46, 0x49, 0x20, 0x50, 0x41, 0x52, 0x54]"

definition basic_data_guid :: bytes where
  "basic_data_guid = [0xA2, 0xA0, 0xD0, 0xEB, 0xE5, 0xB9, 0x33, 0x44,
     0x87, 0xC0, 0x68, 0xB6, 0xB7, 0x26, 0x99, 0xC7]"

definition isUsed :: "bytes \<Rightarrow> bool" where
  "isUsed entry = list_ex (\<lambda>b. b \<noteq> 0) (take 16 entry)"

definition readGeom :: "'w mount \<Rightarrow> ('w fs, gpt_geom) op" where
  "readGeom m =
     bindE (priv_read_sector m 1) (\<lambda>s.
       if take 8 s \<noteq> gpt_signature then throwE k_ra8_err_validation_failed
       else let entry_lba = priv_rd64 s 0x48 in
         if entry_lba = 0 then throwE k_ra8_err_validation_failed
         else if priv_rd32 s 0x54 \<noteq> of_nat k_gpt_entry_bytes then throwE k_ra8_err_not_supported
         else returnE \<lparr>gg_entry_lba = entry_lba, gg_count = min (priv_rd32 s 0x50) k_gpt_entry_scan_max\<rparr>)"

text \<open>The sum \<open>g.entry_lba + i / eps\<close> is a checked addition in Zig.\<close>

definition gpt_entry_sector :: "'w mount \<Rightarrow> gpt_geom \<Rightarrow> nat \<Rightarrow> ('w fs, bytes) op" where
  "gpt_entry_sector m g k =
     (if unat (gg_entry_lba g) + k \<ge> 2 ^ 64 then throwE undefined_behaviour
      else priv_read_sector m (gg_entry_lba g + of_nat k))"

fun gpt_scan_loop :: "'w mount \<Rightarrow> gpt_geom \<Rightarrow> nat list \<Rightarrow> bytes \<Rightarrow> u64 \<Rightarrow> u64 \<Rightarrow> ('w fs, u64 \<times> u64) op" where
  "gpt_scan_loop m g [] s basic any = returnE (basic, any)"
| "gpt_scan_loop m g (i # is) s basic any =
     (let eps = unat (priv_bps m) div k_gpt_entry_bytes; off = (i mod eps) * k_gpt_entry_bytes in
      bindE (if off = 0 then gpt_entry_sector m g (i div eps) else returnE s) (\<lambda>s'.
        let entry = take k_gpt_entry_bytes (drop off s'); first = priv_rd64 entry 0x20 in
        if \<not> isUsed entry then gpt_scan_loop m g is s' basic any
        else if first = 0 then gpt_scan_loop m g is s' basic any
        else gpt_scan_loop m g is s'
          (if basic = 0 \<and> take 16 entry = basic_data_guid then first else basic)
          (if any = 0 then first else any)))"

definition scanEntries :: "'w mount \<Rightarrow> gpt_geom \<Rightarrow> bytes \<Rightarrow> ('w fs, u64) op" where
  "scanEntries m g s =
     bindE (gpt_scan_loop m g [0..<unat (gg_count g)] s 0 0) (\<lambda>(basic, any).
       let pick = (if basic \<noteq> 0 then basic else any) in
       if pick = 0 then throwE k_ra8_err_not_found else returnE pick)"

definition priv_gpt_locate_volume :: "'w mount \<Rightarrow> ('w fs, u64) op" where
  "priv_gpt_locate_volume m = bindE (readGeom m) (\<lambda>g. scanEntries m g [])"

definition priv_gpt_locate_partition :: "'w mount \<Rightarrow> u8 \<Rightarrow> ('w fs, u64) op" where
  "priv_gpt_locate_partition m index =
     bindE (readGeom m) (\<lambda>g.
       if ucast index \<ge> gg_count g then throwE k_ra8_err_out_of_range
       else let eps = unat (priv_bps m) div k_gpt_entry_bytes in
         bindE (gpt_entry_sector m g (unat index div eps)) (\<lambda>s.
           let entry = take k_gpt_entry_bytes (drop ((unat index mod eps) * k_gpt_entry_bytes) s) in
           if \<not> isUsed entry then throwE k_ra8_err_not_found
           else let base = priv_rd64 entry 0x20 in
             if base = 0 then throwE k_ra8_err_validation_failed else returnE base))"

definition internal_locate_indexed :: "'w mount \<Rightarrow> bytes \<Rightarrow> u8 \<Rightarrow> ('w fs, u64) op" where
  "internal_locate_indexed m buf index =
     (if buf ! k_bpb_off_signature_lo \<noteq> k_bpb_sig_lo then throwE k_ra8_err_not_found
      else if buf ! k_bpb_off_signature_hi \<noteq> k_bpb_sig_hi then throwE k_ra8_err_not_found
      else if buf ! k_mbr_off_part0_type = k_gpt_part_type_protective then priv_gpt_locate_partition m index
      else returnR (internal_mbr_select_entry buf index))"

section \<open>Mounting and unmounting\<close>

definition finish_boot_sector :: "u64 \<Rightarrow> ('w, unit) mop" where
  "finish_boot_sector base =
     bindE (setM (\<lambda>m. m\<lparr>m_partition_base_lba := base\<rparr>)) (\<lambda>_.
     bindE (onM (\<lambda>m. priv_read_sector m 0)) priv_parse_volume)"

definition internal_read_boot_sector :: "u8 \<Rightarrow> ('w, unit) mop" where
  "internal_read_boot_sector index =
     bindE (onM (\<lambda>m. priv_read_sector m 0)) (\<lambda>buf.
       if index \<noteq> k_ra8_fs_partition_auto then
         bindE (onM (\<lambda>m. internal_locate_indexed m buf index)) finish_boot_sector
       else attemptE (priv_parse_volume buf) (\<lambda>r. case r of
           Inr _ \<Rightarrow> returnE ()
         | Inl err \<Rightarrow>
             let base = internal_mbr_part0_lba buf in
             if base = 0 then throwE err
             else if buf ! k_mbr_off_part0_type = k_gpt_part_type_protective then
               bindE (onM priv_gpt_locate_volume) finish_boot_sector
             else finish_boot_sector (ucast base)))"

definition internal_mount_probe_bps :: "'w backend \<Rightarrow> ('w, unit) mop" where
  "internal_mount_probe_bps b =
     bindE (onM (\<lambda>m. callE (get_capacity b) liftW)) (\<lambda>(dev_blocks, dev_bps).
       if \<not> internal_bps_valid dev_bps then throwE k_ra8_err_invalid_arg
       else setM (\<lambda>m. m\<lparr>m_bytes_per_sector := dev_bps\<rparr>))"

text \<open>Everything between the two mount-table accesses of \<open>internal_mount_locked\<close>, on the mount of the slot.\<close>

definition mount_fill :: "'w backend \<Rightarrow> u8 \<Rightarrow> ('w, unit) mop" where
  "mount_fill b index =
     bindE (setM (\<lambda>m. (mount_zero (m_addr m))\<lparr>m_backend := b\<rparr>)) (\<lambda>_.
     bindE (internal_mount_probe_bps b) (\<lambda>_.
     bindE (internal_read_boot_sector index) (\<lambda>_.
     bindE (askM m_type) (\<lambda>ty.
     bindE (whenE (ty \<noteq> k_ra8_fs_type_exfat) internal_compute_geometry) (\<lambda>_.
     bindE (onM (\<lambda>m. modifyE (priv_alloc_state_bind m))) (\<lambda>_.
     attemptE (onM priv_fsinfo_seed) (\<lambda>r. case r of
       Inl err \<Rightarrow> bindE (onM (\<lambda>m. modifyE (priv_alloc_state_release m))) (\<lambda>_. throwE err)
     | Inr _ \<Rightarrow> setM (\<lambda>m. m\<lparr>m_in_use := True\<rparr>))))))))"

text \<open>Run an operation on the mount stored at index \<open>i\<close> of the mount table.\<close>

definition on_slot :: "nat \<Rightarrow> ('w, 'a) mop \<Rightarrow> ('w fs, 'a) op" where
  "on_slot i f = (\<lambda>s. case f (s, s_mounts s ! i) of
     (r, (s', m')) \<Rightarrow> (r, s'\<lparr>s_mounts := (s_mounts s')[i := m']\<rparr>))"

definition internal_alloc_mount_slot :: "'w fs \<Rightarrow> nat option" where
  "internal_alloc_mount_slot s = find (\<lambda>i. \<not> m_in_use (s_mounts s ! i)) [0..<k_ra8_fs_max_mounts]"

definition internal_mount_locked :: "'w backend option \<Rightarrow> u8 \<Rightarrow> ('w fs, nat) op" where
  "internal_mount_locked backend index =
     (case backend of None \<Rightarrow> throwE k_ra8_err_null_ptr
      | Some b \<Rightarrow>
          if read_block b = None \<or> write_block b = None \<or> get_capacity b = None
          then throwE k_ra8_err_invalid_arg
          else bindE (getE internal_alloc_mount_slot) (\<lambda>slot. case slot of
              None \<Rightarrow> throwE k_ra8_err_no_mem
            | Some i \<Rightarrow> bindE (on_slot i (mount_fill b index)) (\<lambda>_. returnE i)))"

definition internal_unmount_locked :: "nat option \<Rightarrow> ('w fs, unit) op" where
  "internal_unmount_locked handle =
     (case handle of None \<Rightarrow> throwE k_ra8_err_null_ptr
      | Some i \<Rightarrow> on_slot i (bindE (askM m_in_use) (\<lambda>used.
          if \<not> used then throwE k_ra8_err_invalid_state
          else attemptE (onM priv_fsinfo_flush) (\<lambda>ferr.
            bindE (onM (\<lambda>m. modifyE (priv_alloc_state_release m))) (\<lambda>_.
            bindE (setM (\<lambda>m. m\<lparr>m_in_use := False, m_type := k_ra8_fs_type_unknown\<rparr>)) (\<lambda>_.
              returnR ferr))))))"

text \<open>The mount that \<open>internal_probe_locked\<close> keeps on its stack is at no index of the mount table.\<close>

definition internal_probe_locked :: "'w backend option \<Rightarrow> ('w fs, fs_type) op" where
  "internal_probe_locked backend =
     (case backend of None \<Rightarrow> throwE k_ra8_err_null_ptr
      | Some b \<Rightarrow>
          if read_block b = None then throwE k_ra8_err_invalid_arg
          else if get_capacity b = None then throwE k_ra8_err_invalid_arg
          else (\<lambda>s. case bindE (internal_mount_probe_bps b) (\<lambda>_.
                bindE (internal_read_boot_sector k_ra8_fs_partition_auto) (\<lambda>_.
                bindE (askM m_type) (\<lambda>ty.
                bindE (whenE (ty \<noteq> k_ra8_fs_type_exfat) internal_compute_geometry) (\<lambda>_. askM m_type))))
              (s, (mount_zero k_ra8_fs_max_mounts)\<lparr>m_backend := b\<rparr>) of (r, (s', _)) \<Rightarrow> (r, s')))"

definition ra8_fs_mount :: "'w backend option \<Rightarrow> ('w fs, nat) op" where
  "ra8_fs_mount backend = locked (internal_mount_locked backend k_ra8_fs_partition_auto)"

definition ra8_fs_mount_partition :: "'w backend option \<Rightarrow> u8 \<Rightarrow> ('w fs, nat) op" where
  "ra8_fs_mount_partition backend index = locked (internal_mount_locked backend index)"

definition ra8_fs_probe :: "'w backend option \<Rightarrow> ('w fs, fs_type) op" where
  "ra8_fs_probe backend = locked (internal_probe_locked backend)"

definition ra8_fs_unmount :: "nat option \<Rightarrow> ('w fs, unit) op" where
  "ra8_fs_unmount handle = locked (internal_unmount_locked handle)"

section \<open>Sector sizes\<close>

lemma bps_valid_bounds: "internal_bps_valid bs \<Longrightarrow> 512 \<le> unat bs \<and> unat bs \<le> 4096"
  by (auto simp: internal_bps_valid_def word_less_nat_alt split: if_splits)

end
