(* ===== verification/Fat_Fmt.thy ===== *)
theory Fat_Fmt
  imports Fat_Mount
begin

text \<open>
  \<^verbatim>\<open>ra8_fs_fat_fmt.c\<close>: laying down a FAT12, FAT16 or FAT32 volume. The formatter talks to the block device
  directly: a write is \<open>write_blocks\<close>, with the absolute address. \<open>g_fs_scratch\<close> and the boot buffer are
  values, of the size of one sector.
\<close>

abbreviation (input) k_fmt_resv_f16 :: u32 where "k_fmt_resv_f16 \<equiv> 1"
abbreviation (input) k_fmt_resv_f32 :: u32 where "k_fmt_resv_f32 \<equiv> 32"
abbreviation (input) k_fmt_num_fats :: u32 where "k_fmt_num_fats \<equiv> 2"
abbreviation (input) k_fmt_spc_max :: u32 where "k_fmt_spc_max \<equiv> 64"
abbreviation (input) k_fmt_root_ents_f16 :: u32 where "k_fmt_root_ents_f16 \<equiv> 512"
abbreviation (input) k_fmt_fat32_clus_cap :: u32 where "k_fmt_fat32_clus_cap \<equiv> 0x0FFFFFF0"
abbreviation (input) k_fmt_zero_chunk_bytes :: nat where "k_fmt_zero_chunk_bytes \<equiv> 16384"
abbreviation (input) k_fmt_label_len :: nat where "k_fmt_label_len \<equiv> 11"
abbreviation (input) k_fmt_media_fixed :: u8 where "k_fmt_media_fixed \<equiv> 0xF8"
abbreviation (input) k_fmt_volid_base :: u32 where "k_fmt_volid_base \<equiv> 0x52A8D200"
abbreviation (input) k_fmt_fsi_unknown :: u32 where "k_fmt_fsi_unknown \<equiv> 0xFFFFFFFF"
abbreviation (input) k_fmt_off_f16_label :: nat where "k_fmt_off_f16_label \<equiv> 43"
abbreviation (input) k_fmt_off_f32_label :: nat where "k_fmt_off_f32_label \<equiv> 71"
abbreviation (input) k_fmt_fsinfo_sector :: u16 where "k_fmt_fsinfo_sector \<equiv> 1"
abbreviation (input) k_fmt_bkboot_sector :: u16 where "k_fmt_bkboot_sector \<equiv> 6"

record fmt_geom =
  fg_type :: fs_type
  fg_total_sectors :: u64
  fg_bytes_per_sector :: u32
  fg_sectors_per_cluster :: u32
  fg_reserved_sectors :: u32
  fg_fat_size_sectors :: u32
  fg_root_entries :: u32
  fg_root_sectors :: u32
  fg_count_of_clusters :: u32

section \<open>Geometry\<close>

definition priv_fmt_reserved_for :: "fs_type \<Rightarrow> u32" where
  "priv_fmt_reserved_for ty = (if ty = k_ra8_fs_type_fat32 then k_fmt_resv_f32 else k_fmt_resv_f16)"

text \<open>The cluster count and \<open>out_fatsz\<close>.\<close>

definition internal_fmt_clusters_for :: "fmt_geom \<Rightarrow> u32 \<Rightarrow> u64 \<times> u32" where
  "internal_fmt_clusters_for g spc =
     (let entry_bytes = (if fg_type g = k_ra8_fs_type_fat32 then 4 else 2) :: u32;
          entry_cap = fg_bytes_per_sector g div entry_bytes;
          overhead = ucast (fg_reserved_sectors g) + ucast (fg_root_sectors g) :: u64
      in if fg_total_sectors g \<le> overhead then (0, 0)
         else
           let avail = fg_total_sectors g - overhead;
               denom = ucast entry_cap * ucast spc + ucast k_fmt_num_fats;
               fatsz = (avail + denom - 1) div denom;
               fat_total = ucast k_fmt_num_fats * fatsz
           in if avail \<le> fat_total then (0, ucast fatsz)
              else ((avail - fat_total) div ucast spc, ucast fatsz))"

definition internal_fmt_count_in_band :: "fs_type \<Rightarrow> u64 \<Rightarrow> bool" where
  "internal_fmt_count_in_band ty count =
     (if ty = k_ra8_fs_type_fat12 then count < ucast k_cluster_count_fat12_max
      else if ty = k_ra8_fs_type_fat16 then
        count \<ge> ucast k_cluster_count_fat12_max \<and> count < ucast k_cluster_count_fat16_max
      else count \<ge> ucast k_cluster_count_fat16_max \<and> count \<le> ucast k_fmt_fat32_clus_cap)"

function fmt_log2_loop :: "u32 \<Rightarrow> u32 \<Rightarrow> u32" where
  "fmt_log2_loop w r = (if w > 1 then fmt_log2_loop (drop_bit 1 w) (r + 1) else r)"
  by pat_completeness auto
termination
  by (relation "measure (\<lambda>(w, r). unat w)")
     (auto simp: word_less_nat_alt unat_div drop_bit_Suc)

declare fmt_log2_loop.simps [simp del]

definition internal_fmt_log2 :: "u32 \<Rightarrow> u32" where
  "internal_fmt_log2 v = fmt_log2_loop v 0"

definition internal_fmt_fat32_default_spc :: "u64 \<Rightarrow> u32 \<Rightarrow> u32" where
  "internal_fmt_fat32_default_spc total_sectors bps =
     (let bps_shift = internal_fmt_log2 bps;
          total_512 = push_bit (unat (bps_shift - internal_fmt_log2 k_ra8_fs_sector_min)) total_sectors;
          clus_shift = (if total_512 \<le> 532480 then 9 else if total_512 \<le> 16777216 then 12
            else if total_512 \<le> 33554432 then 13 else if total_512 \<le> 67108864 then 14 else 15) :: u32
      in if clus_shift \<le> bps_shift then 1 else push_bit (unat (clus_shift - bps_shift)) 1)"

text \<open>\<open>rounds\<close> is the number of rounds the guard still allows.\<close>

primrec choose_loop :: "fmt_geom \<Rightarrow> bool \<Rightarrow> nat \<Rightarrow> u32 \<Rightarrow> ra8_err + fmt_geom" where
  "choose_loop g auto_mode 0 spc = Inl k_ra8_err_invalid_size"
| "choose_loop g auto_mode (Suc rounds) spc =
     (case internal_fmt_clusters_for g spc of (count, fatsz) \<Rightarrow>
      if internal_fmt_count_in_band (fg_type g) count then
        Inr (g\<lparr>fg_sectors_per_cluster := spc, fg_fat_size_sectors := fatsz, fg_count_of_clusters := ucast count\<rparr>)
      else if \<not> auto_mode \<or> spc \<ge> k_fmt_spc_max then Inl k_ra8_err_invalid_size
      else choose_loop g auto_mode rounds (spc * 2))"

definition priv_fmt_choose_geometry :: "fmt_geom \<Rightarrow> u32 \<Rightarrow> ra8_err + fmt_geom" where
  "priv_fmt_choose_geometry g spc_hint =
     (if fg_total_sectors g > 0xFFFFFFFF then Inl k_ra8_err_invalid_size
      else let auto_mode = (spc_hint = 0);
               spc = (if auto_mode then
                        (if fg_type g = k_ra8_fs_type_fat32
                         then internal_fmt_fat32_default_spc (fg_total_sectors g) (fg_bytes_per_sector g) else 1)
                      else spc_hint)
        in choose_loop g auto_mode (Suc (unat k_fmt_spc_max)) spc)"

section \<open>The boot sector\<close>

definition internal_fmt_boot_prologue :: "bytes \<Rightarrow> bytes" where
  "internal_fmt_boot_prologue sec =
     priv_byte_copy (sec[0 := 0xEB, 1 := 0x58, 2 := 0x90]) 3
       [0x4D, 0x53, 0x44, 0x4F, 0x53, 0x35, 0x2E, 0x30] 0 8"

text \<open>The eleven bytes of a label field; an absent or empty label is \<open>NO NAME\<close>.\<close>

definition no_name :: bytes where "no_name = [0x4E, 0x4F, 0x20, 0x4E, 0x41, 0x4D, 0x45]"

definition label_bytes :: "bytes option \<Rightarrow> bytes" where
  "label_bytes label =
     (let eff = (case label of None \<Rightarrow> no_name | Some l \<Rightarrow> if l = [] then no_name else l) in
      take k_fmt_label_len (eff @ replicate k_fmt_label_len chr_space))"

definition priv_fmt_label_field :: "bytes \<Rightarrow> nat \<Rightarrow> bytes option \<Rightarrow> bytes" where
  "priv_fmt_label_field buf dst label = priv_byte_copy buf dst (label_bytes label) 0 k_fmt_label_len"

definition internal_fmt_write_totals :: "bytes \<Rightarrow> fmt_geom \<Rightarrow> bytes" where
  "internal_fmt_write_totals sec g =
     (if fg_type g = k_ra8_fs_type_fat32 then
        priv_wr32 (priv_wr32 sec k_bpb_off_tot_sec_32 (ucast (fg_total_sectors g)))
          k_bpb_off_fat_sz_32 (fg_fat_size_sectors g)
      else
        priv_wr16 (if fg_total_sectors g < 0x10000
                   then priv_wr16 sec k_bpb_off_tot_sec_16 (ucast (fg_total_sectors g))
                   else priv_wr32 sec k_bpb_off_tot_sec_32 (ucast (fg_total_sectors g)))
          k_bpb_off_fat_sz_16 (ucast (fg_fat_size_sectors g)))"

definition internal_fmt_build_bpb_f16 :: "bytes \<Rightarrow> fmt_geom \<Rightarrow> bytes option \<Rightarrow> bytes" where
  "internal_fmt_build_bpb_f16 sec0 g label =
     (let s1 = internal_fmt_boot_prologue sec0;
          s2 = priv_wr16 s1 k_bpb_off_bytes_per_sec (ucast (fg_bytes_per_sector g));
          s3 = s2[k_bpb_off_sec_per_clus := ucast (fg_sectors_per_cluster g)];
          s4 = priv_wr16 s3 k_bpb_off_rsvd_sec_cnt (ucast (fg_reserved_sectors g));
          s5 = s4[k_bpb_off_num_fats := ucast k_fmt_num_fats];
          s6 = priv_wr16 s5 k_bpb_off_root_ent_cnt (ucast (fg_root_entries g));
          s7 = internal_fmt_write_totals (s6[21 := k_fmt_media_fixed]) g;
          s8 = priv_wr16 (priv_wr16 s7 24 63) 26 255;
          s9 = s8[36 := 0x80, 38 := 0x29];
          s10 = priv_wr32 s9 39 (k_fmt_volid_base OR ucast (fg_total_sectors g));
          s11 = priv_fmt_label_field s10 k_fmt_off_f16_label label;
          s12 = priv_byte_copy s11 54 (if fg_type g = k_ra8_fs_type_fat12
              then [0x46, 0x41, 0x54, 0x31, 0x32, 0x20, 0x20, 0x20]
              else [0x46, 0x41, 0x54, 0x31, 0x36, 0x20, 0x20, 0x20]) 0 8
      in s12[k_bpb_off_signature_lo := k_bpb_sig_lo, k_bpb_off_signature_hi := k_bpb_sig_hi])"

definition internal_fmt_build_bpb_f32 :: "bytes \<Rightarrow> fmt_geom \<Rightarrow> bytes option \<Rightarrow> bytes" where
  "internal_fmt_build_bpb_f32 sec0 g label =
     (let s1 = internal_fmt_boot_prologue sec0;
          s2 = priv_wr16 s1 k_bpb_off_bytes_per_sec (ucast (fg_bytes_per_sector g));
          s3 = s2[k_bpb_off_sec_per_clus := ucast (fg_sectors_per_cluster g)];
          s4 = priv_wr16 s3 k_bpb_off_rsvd_sec_cnt (ucast (fg_reserved_sectors g));
          s5 = s4[k_bpb_off_num_fats := ucast k_fmt_num_fats];
          s6 = internal_fmt_write_totals (s5[21 := k_fmt_media_fixed]) g;
          s7 = priv_wr16 (priv_wr16 s6 24 63) 26 255;
          s8 = priv_wr32 s7 k_bpb_off_root_clus 2;
          s9 = priv_wr16 (priv_wr16 s8 k_fmt_off_f32_fsinfo k_fmt_fsinfo_sector) 50 k_fmt_bkboot_sector;
          s10 = s9[64 := 0x80, 66 := 0x29];
          s11 = priv_wr32 s10 67 (k_fmt_volid_base OR ucast (fg_total_sectors g));
          s12 = priv_fmt_label_field s11 k_fmt_off_f32_label label;
          s13 = priv_byte_copy s12 82 [0x46, 0x41, 0x54, 0x33, 0x32, 0x20, 0x20, 0x20] 0 8
      in s13[k_bpb_off_signature_lo := k_bpb_sig_lo, k_bpb_off_signature_hi := k_bpb_sig_hi])"

section \<open>Writing the volume\<close>

definition write_blocks :: "'w backend \<Rightarrow> u64 \<Rightarrow> u32 \<Rightarrow> bytes \<Rightarrow> ('w fs, unit) op" where
  "write_blocks b lba count buf = callE (write_block b) (\<lambda>f. liftW (f lba count buf))"

text \<open>Every round clears at least one sector when a sector is not larger than the buffer of zeros.\<close>

primrec fmt_zero_loop :: "'w backend \<Rightarrow> u64 \<Rightarrow> u64 \<Rightarrow> u32 \<Rightarrow> nat \<Rightarrow> u64 \<Rightarrow> ('w fs, unit) op" where
  "fmt_zero_loop b lba count chunk_secs 0 cleared = (if cleared < count then throwE out_of_fuel else returnE ())"
| "fmt_zero_loop b lba count chunk_secs (Suc n) cleared =
     (if cleared < count then
        let chunk = (if ucast chunk_secs > count - cleared then ucast (count - cleared) else chunk_secs) in
        bindE (write_blocks b (lba + cleared) chunk (replicate k_fmt_zero_chunk_bytes 0)) (\<lambda>_.
          fmt_zero_loop b lba count chunk_secs n (cleared + ucast chunk))
      else returnE ())"

definition internal_fmt_zero_run :: "'w backend \<Rightarrow> u64 \<Rightarrow> u64 \<Rightarrow> u32 \<Rightarrow> ('w fs, unit) op" where
  "internal_fmt_zero_run b lba count bps =
     fmt_zero_loop b lba count (of_nat k_fmt_zero_chunk_bytes div bps) (unat count) 0"

definition priv_fmt_clear_region :: "'w backend \<Rightarrow> u64 \<Rightarrow> u64 \<Rightarrow> u32 \<Rightarrow> ('w fs, unit) op" where
  "priv_fmt_clear_region b lba count bps =
     (case erase_blocks b of
        None \<Rightarrow> internal_fmt_zero_run b lba count bps
      | Some erase \<Rightarrow> attemptE (liftW (erase lba count)) (\<lambda>r.
          if r = Inr () then returnE () else internal_fmt_zero_run b lba count bps))"

definition fat_seed_sector :: "fmt_geom \<Rightarrow> bytes" where
  "fat_seed_sector g =
     (let z = replicate (unat (fg_bytes_per_sector g)) 0 in
      if fg_type g = k_ra8_fs_type_fat32 then
        priv_wr32 (priv_wr32 (priv_wr32 z 0 (k_cluster_eoc_min_fat32 OR ucast k_fmt_media_fixed))
          4 k_cluster_eoc_write_fat32) 8 k_cluster_eoc_write_fat32
      else if fg_type g = k_ra8_fs_type_fat16 then
        priv_wr16 (priv_wr16 z 0 (ucast (k_cluster_eoc_min_fat16 OR ucast k_fmt_media_fixed)))
          2 (ucast k_cluster_eoc_write_fat16)
      else z[0 := k_fmt_media_fixed, 1 := 0xFF, 2 := 0xFF])"

primrec seed_fats_loop :: "'w backend \<Rightarrow> fmt_geom \<Rightarrow> nat list \<Rightarrow> ('w fs, unit) op" where
  "seed_fats_loop b g [] = returnE ()"
| "seed_fats_loop b g (f # fs) =
     bindE (write_blocks b (ucast (fg_reserved_sectors g) + of_nat f * ucast (fg_fat_size_sectors g)) 1
         (fat_seed_sector g)) (\<lambda>_. seed_fats_loop b g fs)"

definition internal_fmt_seed_fats :: "'w backend \<Rightarrow> fmt_geom \<Rightarrow> ('w fs, unit) op" where
  "internal_fmt_seed_fats b g = seed_fats_loop b g [0..<unat k_fmt_num_fats]"

definition fsinfo_sector :: "fmt_geom \<Rightarrow> bytes" where
  "fsinfo_sector g =
     (let z = replicate (unat (fg_bytes_per_sector g)) 0;
          free_count = (if fg_count_of_clusters g > 0 then fg_count_of_clusters g - 1 else k_fmt_fsi_unknown)
      in priv_wr32 (priv_wr32 (priv_wr32 (priv_wr32 (priv_wr32 z k_fmt_fsi_off_lead k_fmt_fsi_lead_sig)
           k_fmt_fsi_off_struct k_fmt_fsi_struct_sig) k_fmt_fsi_off_free free_count)
           k_fmt_fsi_off_nxtfree 3) k_fmt_fsi_off_trail k_fmt_fsi_trail_sig)"

definition internal_fmt_write_fsinfo :: "'w backend \<Rightarrow> fmt_geom \<Rightarrow> bytes \<Rightarrow> ('w fs, unit) op" where
  "internal_fmt_write_fsinfo b g boot_sec =
     (if fg_type g \<noteq> k_ra8_fs_type_fat32 then returnE ()
      else bindE (write_blocks b (ucast k_fmt_fsinfo_sector) 1 (fsinfo_sector g)) (\<lambda>_.
        write_blocks b (ucast k_fmt_bkboot_sector) 1 boot_sec))"

definition priv_fmt_spc_valid :: "u8 \<Rightarrow> bool" where
  "priv_fmt_spc_valid spc =
     (if spc = 0 then True
      else if ucast spc > k_fmt_spc_max then False
      else ucast spc AND (ucast spc - 1) = (0 :: u32))"

definition fmt_boot_sector :: "fmt_geom \<Rightarrow> bytes option \<Rightarrow> bytes" where
  "fmt_boot_sector g label =
     (let z = replicate (unat (fg_bytes_per_sector g)) 0 in
      if fg_type g = k_ra8_fs_type_fat32 then internal_fmt_build_bpb_f32 z g label
      else internal_fmt_build_bpb_f16 z g label)"

definition priv_fmt_emit_volume :: "'w backend \<Rightarrow> fmt_geom \<Rightarrow> bytes option \<Rightarrow> ('w fs, unit) op" where
  "priv_fmt_emit_volume b g label =
     (let boot = fmt_boot_sector g label;
          fat_total = ucast k_fmt_num_fats * ucast (fg_fat_size_sectors g) :: u64;
          root_span = (if fg_type g = k_ra8_fs_type_fat32 then ucast (fg_sectors_per_cluster g)
            else ucast (fg_root_sectors g)) :: u64
      in bindE (priv_fmt_clear_region b (ucast (fg_reserved_sectors g)) (fat_total + root_span)
             (fg_bytes_per_sector g)) (\<lambda>_.
         bindE (write_blocks b 0 1 boot) (\<lambda>_.
         bindE (internal_fmt_seed_fats b g) (\<lambda>_.
           internal_fmt_write_fsinfo b g boot))))"

end
