(* ===== verification/Exfat_Fmt.thy ===== *)
theory Exfat_Fmt
  imports Fat_Fmt
begin

text \<open>
  \<^verbatim>\<open>ra8_fs_fat_exfat_fmt.c\<close> and \<open>priv_exfat_write_upcase\<close> of \<^verbatim>\<open>ra8_fs_upcase_abi.zig\<close>: laying down an exFAT
  volume in a partition of its own, and the dispatch of \<open>ra8_fs_format\<close> (\<^verbatim>\<open>ra8_fs_fat_mount.c\<close>).
\<close>

abbreviation (input) k_exfat_fmt_boot_secs :: u32 where "k_exfat_fmt_boot_secs \<equiv> 24"
abbreviation (input) k_exfat_fmt_geom_iters :: nat where "k_exfat_fmt_geom_iters \<equiv> 4"
abbreviation (input) k_exfat_fmt_upc_std_bytes :: u32 where "k_exfat_fmt_upc_std_bytes \<equiv> 5836"
abbreviation (input) k_exfat_fmt_first_clus :: u32 where "k_exfat_fmt_first_clus \<equiv> 2"
abbreviation (input) k_exfat_fmt_min_sectors :: u32 where "k_exfat_fmt_min_sectors \<equiv> 65536"
abbreviation (input) k_exfat_fmt_part_align :: u32 where "k_exfat_fmt_part_align \<equiv> 1048576"
abbreviation (input) k_exfat_fmt_fat_media :: u32 where "k_exfat_fmt_fat_media \<equiv> 0xFFFFFFF8"
abbreviation (input) k_exfat_fmt_fat_eoc :: u32 where "k_exfat_fmt_fat_eoc \<equiv> 0xFFFFFFFF"
abbreviation (input) k_exfat_fmt_serial :: u32 where "k_exfat_fmt_serial \<equiv> 0x52A8E47A"
abbreviation (input) k_exfat_fmt_ext_sig :: u32 where "k_exfat_fmt_ext_sig \<equiv> 0xAA550000"
abbreviation (input) k_exfat_fmt_boot_sig :: u16 where "k_exfat_fmt_boot_sig \<equiv> 0xAA55"
abbreviation (input) k_exfat_fmt_backup_lba :: u64 where "k_exfat_fmt_backup_lba \<equiv> 12"
abbreviation (input) k_exfat_fmt_label_max :: nat where "k_exfat_fmt_label_max \<equiv> 11"
abbreviation (input) k_mbr_fmt_part0_off :: nat where "k_mbr_fmt_part0_off \<equiv> 446"
abbreviation (input) k_mbr_fmt_disk_sig_base :: u32 where "k_mbr_fmt_disk_sig_base \<equiv> 0x1A2B3C4D"

record exfat_geom =
  xg_part_lba :: u64
  xg_total_sectors :: u64
  xg_bps :: u32
  xg_bps_shift :: u8
  xg_spc_shift :: u8
  xg_spc :: u32
  xg_fat_offset :: u32
  xg_fat_length :: u32
  xg_heap_offset :: u32
  xg_cluster_count :: u32
  xg_bitmap_bytes :: u32
  xg_bitmap_clusters :: u32
  xg_upcase_cluster :: u32
  xg_upcase_clusters :: u32
  xg_root_cluster :: u32
  xg_used_clusters :: u32

section \<open>Geometry\<close>

definition internal_exfat_spc_shift :: "u64 \<Rightarrow> u8 \<Rightarrow> u8" where
  "internal_exfat_spc_shift total_sectors bps_shift =
     (let scale = (if ucast bps_shift > (9 :: u32) then ucast bps_shift - 9 else 0) :: u32;
          total_512 = push_bit (unat scale) total_sectors;
          clus_shift = (if total_512 \<le> 524288 then 12 else if total_512 \<le> 67108864 then 15
            else if total_512 \<le> 536870912 then 17 else 18) :: u32
      in if clus_shift \<le> ucast bps_shift then 0 else ucast (clus_shift - ucast bps_shift))"

text \<open>The fixed-point iteration for the length of the FAT: \<open>(fat_length, heap_offset)\<close>.\<close>

primrec exfat_geom_loop :: "u64 \<Rightarrow> u32 \<Rightarrow> u32 \<Rightarrow> nat \<Rightarrow> u32 \<Rightarrow> u32 \<times> u32 \<Rightarrow> ra8_err + (u32 \<times> u32)" where
  "exfat_geom_loop tsec bps spc 0 clusters fh = Inr fh"
| "exfat_geom_loop tsec bps spc (Suc n) clusters fh =
     (let fat_bytes = (ucast clusters + 2) * 4 :: u64;
          fat_len = ucast ((fat_bytes + ucast bps - 1) div ucast bps) :: u32;
          heap = k_exfat_fmt_boot_secs + fat_len
      in if tsec \<le> ucast heap then Inl k_ra8_err_invalid_size
         else let next' = ucast ((tsec - ucast heap) div ucast spc) :: u32 in
           if next' = clusters then Inr (fat_len, heap)
           else exfat_geom_loop tsec bps spc n next' (fat_len, heap))"

definition internal_exfat_geometry :: "u64 \<Rightarrow> exfat_geom \<Rightarrow> ra8_err + exfat_geom" where
  "internal_exfat_geometry tsec g =
     (let shift = internal_exfat_spc_shift tsec (xg_bps_shift g); spc = push_bit (unat shift) 1 :: u32 in
      if tsec \<le> ucast k_exfat_fmt_boot_secs then Inl k_ra8_err_invalid_size
      else
        case exfat_geom_loop tsec (xg_bps g) spc k_exfat_fmt_geom_iters
               (ucast ((tsec - ucast k_exfat_fmt_boot_secs) div ucast spc)) (0, 0) of
          Inl err \<Rightarrow> Inl err
        | Inr (fat_length, heap) \<Rightarrow>
            let count = ucast ((tsec - ucast heap) div ucast spc) :: u32;
                cluster_bytes = spc * xg_bps g;
                bitmap_bytes = (count + 8 - 1) div 8;
                bitmap_clusters = (bitmap_bytes + cluster_bytes - 1) div cluster_bytes;
                upcase_clusters = (k_exfat_fmt_upc_std_bytes + cluster_bytes - 1) div cluster_bytes;
                upcase_cluster = k_exfat_fmt_first_clus + bitmap_clusters;
                used = bitmap_clusters + upcase_clusters + 1
            in if count < used then Inl k_ra8_err_invalid_size
               else Inr (g\<lparr>xg_total_sectors := tsec, xg_spc_shift := shift, xg_spc := spc,
                 xg_fat_offset := k_exfat_fmt_boot_secs, xg_fat_length := fat_length, xg_heap_offset := heap,
                 xg_cluster_count := count, xg_bitmap_bytes := bitmap_bytes, xg_bitmap_clusters := bitmap_clusters,
                 xg_upcase_clusters := upcase_clusters, xg_upcase_cluster := upcase_cluster,
                 xg_root_cluster := upcase_cluster + upcase_clusters, xg_used_clusters := used\<rparr>))"

section \<open>Boot region\<close>

abbreviation xg_zero :: "exfat_geom \<Rightarrow> bytes" where "xg_zero g \<equiv> replicate (unat (xg_bps g)) 0"

definition internal_exfat_build_vbr :: "exfat_geom \<Rightarrow> bytes" where
  "internal_exfat_build_vbr g =
     (let s1 = (xg_zero g)[0 := 0xEB, 1 := 0x76, 2 := 0x90];
          s2 = priv_byte_copy s1 3 exfat_sig 0 8;
          s3 = priv_wr64 (priv_wr64 s2 64 (xg_part_lba g)) 72 (xg_total_sectors g);
          s4 = priv_wr32 (priv_wr32 (priv_wr32 s3 0x50 (xg_fat_offset g)) 0x54 (xg_fat_length g)) 0x58 (xg_heap_offset g);
          s5 = priv_wr32 (priv_wr32 s4 0x5C (xg_cluster_count g)) 0x60 (xg_root_cluster g);
          s6 = priv_wr16 (priv_wr32 s5 100 (k_exfat_fmt_serial XOR ucast (xg_total_sectors g))) 104 0x0100;
          s7 = s6[0x6C := xg_bps_shift g, 0x6D := xg_spc_shift g, 0x6E := 1, 111 := 0x80, 112 := 0]
      in priv_wr16 s7 510 k_exfat_fmt_boot_sig)"

definition internal_exfat_wr_dual :: "'w backend \<Rightarrow> u64 \<Rightarrow> u32 \<Rightarrow> bytes \<Rightarrow> ('w fs, unit) op" where
  "internal_exfat_wr_dual b part_lba lba buf =
     bindE (write_blocks b (part_lba + ucast lba) 1 buf) (\<lambda>_.
       write_blocks b (part_lba + ucast lba + k_exfat_fmt_backup_lba) 1 buf)"

definition internal_exfat_put32 :: "bytes \<Rightarrow> nat \<Rightarrow> u32 \<Rightarrow> bytes" where
  "internal_exfat_put32 buf idx val = priv_wr32 buf (idx * 4) val"

text \<open>The eight extended boot sectors; the result is the running checksum.\<close>

primrec write_ext_loop :: "'w backend \<Rightarrow> exfat_geom \<Rightarrow> bytes \<Rightarrow> nat list \<Rightarrow> u32 \<Rightarrow> ('w fs, u32) op" where
  "write_ext_loop b g sec [] cs = returnE cs"
| "write_ext_loop b g sec (s # ss) cs =
     bindE (internal_exfat_wr_dual b (xg_part_lba g) (of_nat s) sec) (\<lambda>_.
       write_ext_loop b g sec ss (priv_exfat_csum32 cs sec))"

definition internal_exfat_write_boot_tail :: "'w backend \<Rightarrow> exfat_geom \<Rightarrow> u32 \<Rightarrow> ('w fs, unit) op" where
  "internal_exfat_write_boot_tail b g cs0 =
     (let ext = priv_wr32 (xg_zero g) (unat (xg_bps g - (k_ra8_fs_sector_min - 508))) k_exfat_fmt_ext_sig in
      bindE (write_ext_loop b g ext [1..<9] cs0) (\<lambda>cs1.
      bindE (internal_exfat_wr_dual b (xg_part_lba g) 9 (xg_zero g)) (\<lambda>_.
      bindE (internal_exfat_wr_dual b (xg_part_lba g) 10 (xg_zero g)) (\<lambda>_.
        let cs = priv_exfat_csum32 (priv_exfat_csum32 cs1 (xg_zero g)) (xg_zero g) in
        internal_exfat_wr_dual b (xg_part_lba g) 11
          (fold (\<lambda>i buf. internal_exfat_put32 buf i cs) [0..<unat (xg_bps g div 4)] (xg_zero g))))))"

text \<open>The checksum of the main boot sector leaves out VolumeFlags and PercentInUse.\<close>

definition vbr_checksum :: "bytes \<Rightarrow> u32" where
  "vbr_checksum vbr =
     priv_exfat_csum32 (priv_exfat_csum32 (priv_exfat_csum32 0 (take 106 vbr))
       (take (112 - 0x6C) (drop 0x6C vbr))) (drop 113 vbr)"

definition internal_exfat_write_boot :: "'w backend \<Rightarrow> exfat_geom \<Rightarrow> ('w fs, unit) op" where
  "internal_exfat_write_boot b g =
     (let vbr = internal_exfat_build_vbr g in
      bindE (internal_exfat_wr_dual b (xg_part_lba g) 0 vbr) (\<lambda>_.
        internal_exfat_write_boot_tail b g (vbr_checksum vbr)))"

section \<open>FAT, bitmap, up-case table, root directory\<close>

text \<open>The FAT entries of a run of clusters \<open>first .. last\<close>.\<close>

definition put_chain :: "nat \<Rightarrow> nat \<Rightarrow> bytes \<Rightarrow> bytes" where
  "put_chain first last' buf =
     fold (\<lambda>c buf. internal_exfat_put32 buf c (if c < last' then of_nat (c + 1) else k_exfat_fmt_fat_eoc))
       [first..<Suc last'] buf"

definition exfat_fat_sector :: "exfat_geom \<Rightarrow> bytes" where
  "exfat_fat_sector g =
     (let s1 = internal_exfat_put32 (internal_exfat_put32 (xg_zero g) 0 k_exfat_fmt_fat_media) 1 k_exfat_fmt_fat_eoc;
          s2 = put_chain 2 (unat (k_exfat_fmt_first_clus + xg_bitmap_clusters g - 1)) s1;
          s3 = put_chain (unat (xg_upcase_cluster g)) (unat (xg_upcase_cluster g + xg_upcase_clusters g - 1)) s2
      in internal_exfat_put32 s3 (unat (xg_root_cluster g)) k_exfat_fmt_fat_eoc)"

definition internal_exfat_write_fat :: "'w backend \<Rightarrow> exfat_geom \<Rightarrow> ('w fs, unit) op" where
  "internal_exfat_write_fat b g =
     bindE (priv_fmt_clear_region b (xg_part_lba g + ucast (xg_fat_offset g)) (ucast (xg_fat_length g)) (xg_bps g)) (\<lambda>_.
       write_blocks b (xg_part_lba g + ucast (xg_fat_offset g)) 1 (exfat_fat_sector g))"

definition exfat_bitmap_sector :: "exfat_geom \<Rightarrow> bytes" where
  "exfat_bitmap_sector g =
     (let full = unat (xg_used_clusters g div 8); rem' = unat (xg_used_clusters g mod 8);
          s1 = fold (\<lambda>i buf. buf[i := 0xFF]) [0..<full] (xg_zero g)
      in if rem' \<noteq> 0 then s1[full := push_bit rem' 1 - 1] else s1)"

definition internal_exfat_write_bitmap :: "'w backend \<Rightarrow> exfat_geom \<Rightarrow> ('w fs, unit) op" where
  "internal_exfat_write_bitmap b g =
     (let bmp_lba = xg_part_lba g + ucast (xg_heap_offset g) in
      bindE (priv_fmt_clear_region b bmp_lba (ucast (xg_bitmap_clusters g * xg_spc g)) (xg_bps g)) (\<lambda>_.
        write_blocks b bmp_lba 1 (exfat_bitmap_sector g)))"

definition internal_exfat_label_utf16 :: "bytes \<Rightarrow> nat \<Rightarrow> bytes option \<Rightarrow> bytes \<times> nat" where
  "internal_exfat_label_utf16 buf dst label =
     (let l = take k_exfat_fmt_label_max (case label of None \<Rightarrow> [] | Some l \<Rightarrow> l) in
      (fold (\<lambda>n buf. buf[dst + n * 2 := l ! n, dst + n * 2 + 1 := 0]) [0..<length l] buf, length l))"

definition exfat_root_sector :: "exfat_geom \<Rightarrow> u32 \<Rightarrow> bytes option \<Rightarrow> bytes" where
  "exfat_root_sector g upcase_csum label =
     (let s1 = (xg_zero g)[0 := k_exfat_entry_bitmap];
          s2 = priv_wr32 (priv_wr32 s1 20 k_exfat_fmt_first_clus) 24 (xg_bitmap_bytes g);
          s3 = s2[32 := k_exfat_entry_upcase];
          s4 = priv_wr32 (priv_wr32 (priv_wr32 s3 (32 + 4) upcase_csum) (32 + 20) (xg_upcase_cluster g))
            (32 + 24) k_exfat_fmt_upc_std_bytes;
          (s5, n) = internal_exfat_label_utf16 s4 (64 + 2) label
      in s5[64 := k_exfat_entry_label, 64 + 1 := of_nat n])"

definition internal_exfat_write_root ::
    "'w backend \<Rightarrow> exfat_geom \<Rightarrow> u32 \<Rightarrow> bytes option \<Rightarrow> ('w fs, unit) op" where
  "internal_exfat_write_root b g upcase_csum label =
     (let lba = ucast (xg_heap_offset g) + ucast (xg_root_cluster g - k_exfat_fmt_first_clus) * ucast (xg_spc g) :: u64
      in bindE (priv_fmt_clear_region b (xg_part_lba g + lba) (ucast (xg_spc g)) (xg_bps g)) (\<lambda>_.
           write_blocks b (xg_part_lba g + lba) 1 (exfat_root_sector g upcase_csum label)))"

text \<open>The table as bytes, and one sector of it after the other; \<open>cs\<close> is the checksum so far.\<close>

definition upcase_table_bytes :: bytes where
  "upcase_table_bytes = concat (map (\<lambda>u :: u16. [ucast u, ucast (drop_bit 8 u)]) upcase_table)"

primrec write_upcase_loop ::
    "'w backend \<Rightarrow> u64 \<Rightarrow> nat \<Rightarrow> nat list \<Rightarrow> bytes \<Rightarrow> u32 \<Rightarrow> ('w fs, u32) op" where
  "write_upcase_loop b abs_lba bps [] rest cs = returnE cs"
| "write_upcase_loop b abs_lba bps (s # ss) rest cs =
     (let part = take bps rest in
      bindE (write_blocks b (abs_lba + of_nat s) 1 (part @ replicate (bps - length part) 0)) (\<lambda>_.
        write_upcase_loop b abs_lba bps ss (drop bps rest) (priv_exfat_csum32 cs part)))"

definition priv_exfat_write_upcase :: "'w backend \<Rightarrow> u64 \<Rightarrow> u32 \<Rightarrow> ('w fs, u32) op" where
  "priv_exfat_write_upcase b abs_lba bps =
     write_upcase_loop b abs_lba (unat bps) [0..<unat ((k_exfat_fmt_upc_std_bytes + bps - 1) div bps)]
       upcase_table_bytes 0"

section \<open>Partition table\<close>

definition internal_exfat_lba_to_chs :: "u32 \<Rightarrow> bytes" where
  "internal_exfat_lba_to_chs lba =
     (if lba \<ge> 16450560 then [0xFE, 0xFF, 0xFF]
      else let cyl = lba div (255 * 63); head = (lba div 63) mod 255; sec = (lba mod 63) + 1 in
        [ucast head, ucast ((sec AND 0x3F) OR drop_bit 2 (cyl AND 0x300)), ucast (cyl AND 0xFF)])"

definition exfat_mbr_sector :: "u32 \<Rightarrow> u32 \<Rightarrow> u32 \<Rightarrow> bytes" where
  "exfat_mbr_sector bps part_lba part_sectors =
     (let s1 = priv_wr32 (replicate (unat bps) 0) 440 (k_mbr_fmt_disk_sig_base XOR part_sectors);
          pe = k_mbr_fmt_part0_off;
          s2 = priv_byte_copy (s1[pe + 0 := 0]) (pe + 1) (internal_exfat_lba_to_chs part_lba) 0 3;
          s3 = priv_byte_copy (s2[pe + 4 := 0x07]) (pe + 5) (internal_exfat_lba_to_chs (part_lba + part_sectors - 1)) 0 3;
          s4 = priv_wr32 (priv_wr32 s3 (pe + 8) part_lba) (pe + 12) part_sectors
      in priv_wr16 s4 510 k_exfat_fmt_boot_sig)"

definition internal_exfat_write_mbr :: "'w backend \<Rightarrow> u32 \<Rightarrow> u32 \<Rightarrow> u32 \<Rightarrow> ('w fs, unit) op" where
  "internal_exfat_write_mbr b bps part_lba part_sectors = write_blocks b 0 1 (exfat_mbr_sector bps part_lba part_sectors)"

text \<open>\<open>(bps_shift, part_lba, part_sectors)\<close>\<close>

definition internal_exfat_fmt_place :: "u64 \<Rightarrow> u32 \<Rightarrow> ra8_err + (u8 \<times> u32 \<times> u32)" where
  "internal_exfat_fmt_place total_sectors bps =
     (let bps_shift = fmt_log2_loop bps 0; part_lba = k_exfat_fmt_part_align div bps;
          min_total = ucast part_lba + (ucast k_exfat_fmt_min_sectors * ucast k_ra8_fs_sector_min) div ucast bps :: u64
      in if total_sectors < min_total then Inl k_ra8_err_not_supported
         else if total_sectors - ucast part_lba > 0xFFFFFFFF then Inl k_ra8_err_not_supported
         else Inr (ucast bps_shift, part_lba, ucast (total_sectors - ucast part_lba)))"

section \<open>Formatting\<close>

definition exfat_geom_init :: "u32 \<Rightarrow> u8 \<Rightarrow> exfat_geom" where
  "exfat_geom_init bps shift = \<lparr>xg_part_lba = 0, xg_total_sectors = 0, xg_bps = bps, xg_bps_shift = shift,
     xg_spc_shift = 0, xg_spc = 0, xg_fat_offset = 0, xg_fat_length = 0, xg_heap_offset = 0, xg_cluster_count = 0,
     xg_bitmap_bytes = 0, xg_bitmap_clusters = 0, xg_upcase_cluster = 0, xg_upcase_clusters = 0,
     xg_root_cluster = 0, xg_used_clusters = 0\<rparr>"

text \<open>The geometry \<open>priv_exfat_format\<close> works with, or the error it returns before the first write.\<close>

definition exfat_format_plan :: "u64 \<Rightarrow> u32 \<Rightarrow> ra8_err + (exfat_geom \<times> u32 \<times> u32)" where
  "exfat_format_plan total_sectors bps =
     (case internal_exfat_fmt_place total_sectors bps of
        Inl err \<Rightarrow> Inl err
      | Inr (shift, part_lba, part_sectors) \<Rightarrow>
          (case internal_exfat_geometry (ucast part_sectors) (exfat_geom_init bps shift) of
             Inl err \<Rightarrow> Inl err
           | Inr g0 \<Rightarrow>
               if xg_root_cluster g0 * 4 \<ge> bps then Inl k_ra8_err_not_supported
               else Inr (g0\<lparr>xg_part_lba := ucast part_lba\<rparr>, part_lba, part_sectors)))"

definition priv_exfat_format :: "'w backend \<Rightarrow> u64 \<Rightarrow> u32 \<Rightarrow> bytes option \<Rightarrow> ('w fs, unit) op" where
  "priv_exfat_format b total_sectors bps label =
     bindE (returnR (exfat_format_plan total_sectors bps)) (\<lambda>(g, part_lba, part_sectors).
     bindE (internal_exfat_write_mbr b bps part_lba part_sectors) (\<lambda>_.
     bindE (internal_exfat_write_boot b g) (\<lambda>_.
     bindE (internal_exfat_write_fat b g) (\<lambda>_.
     bindE (internal_exfat_write_bitmap b g) (\<lambda>_.
       let upcase_lba = xg_part_lba g + ucast (xg_heap_offset g) +
             ucast (xg_upcase_cluster g - k_exfat_fmt_first_clus) * ucast (xg_spc g)
       in bindE (priv_exfat_write_upcase b upcase_lba bps) (\<lambda>upcase_csum.
            internal_exfat_write_root b g upcase_csum label))))))"

record format_opts =
  fo_type :: fs_type
  fo_label :: "bytes option"
  fo_sectors_per_cluster :: u8

definition fmt_geom_init :: "fs_type \<Rightarrow> u64 \<Rightarrow> u32 \<Rightarrow> fmt_geom" where
  "fmt_geom_init ty block_count block_size =
     (let root_entries = (if ty = k_ra8_fs_type_fat32 then 0 else k_fmt_root_ents_f16) in
      \<lparr>fg_type = ty, fg_total_sectors = block_count, fg_bytes_per_sector = block_size, fg_sectors_per_cluster = 0,
       fg_reserved_sectors = priv_fmt_reserved_for ty, fg_fat_size_sectors = 0, fg_root_entries = root_entries,
       fg_root_sectors = (root_entries * of_nat k_ra8_fs_dir_entry_bytes + (block_size - 1)) div block_size,
       fg_count_of_clusters = 0\<rparr>)"

definition internal_format_locked :: "'w backend option \<Rightarrow> format_opts option \<Rightarrow> ('w fs, unit) op" where
  "internal_format_locked backend opts =
     (case (backend, opts) of
        (Some b, Some o') \<Rightarrow>
          if write_block b = None \<or> get_capacity b = None then throwE k_ra8_err_invalid_arg
          else if fo_type o' \<notin> {k_ra8_fs_type_fat12, k_ra8_fs_type_fat16, k_ra8_fs_type_fat32, k_ra8_fs_type_exfat}
          then throwE k_ra8_err_not_supported
          else if \<not> priv_fmt_spc_valid (fo_sectors_per_cluster o') then throwE k_ra8_err_invalid_arg
          else bindE (callE (get_capacity b) liftW) (\<lambda>(block_count, block_size).
            if \<not> internal_bps_valid block_size \<or> block_count = 0 then throwE k_ra8_err_invalid_arg
            else if fo_type o' = k_ra8_fs_type_exfat then priv_exfat_format b block_count block_size (fo_label o')
            else bindE (returnR (priv_fmt_choose_geometry (fmt_geom_init (fo_type o') block_count block_size)
                (ucast (fo_sectors_per_cluster o')))) (\<lambda>geom.
              priv_fmt_emit_volume b geom (fo_label o')))
      | _ \<Rightarrow> throwE k_ra8_err_null_ptr)"

definition ra8_fs_format :: "'w backend option \<Rightarrow> format_opts option \<Rightarrow> ('w fs, unit) op" where
  "ra8_fs_format backend opts = locked (internal_format_locked backend opts)"

end
