(* ===== verification/Fmt_Props.thy ===== *)
theory Fmt_Props
  imports Exfat_Fmt Ram_Volume
begin

text \<open>
  What \<^verbatim>\<open>ra8_fs_format\<close> decides, against what a mount of the result reads back: the arithmetic of
  \<open>internal_fmt_clusters_for\<close> and \<open>priv_fmt_choose_geometry\<close> on natural numbers, the fields of the boot sector,
  and the two boundary effects of the sizing loops.
\<close>

section \<open>The sizing arithmetic\<close>

definition entry_cap :: "fmt_geom \<Rightarrow> nat" where
  "entry_cap g = unat (fg_bytes_per_sector g) div (if fg_type g = k_ra8_fs_type_fat32 then 4 else 2)"

definition overhead :: "fmt_geom \<Rightarrow> nat" where
  "overhead g = unat (fg_reserved_sectors g) + unat (fg_root_sectors g)"

definition fmt_ready :: "fmt_geom \<Rightarrow> bool" where
  "fmt_ready g \<longleftrightarrow> 512 \<le> unat (fg_bytes_per_sector g) \<and> unat (fg_bytes_per_sector g) \<le> 4096 \<and>
     unat (fg_total_sectors g) < 2 ^ 32 \<and> unat (fg_reserved_sectors g) \<le> 32 \<and> unat (fg_root_sectors g) \<le> 32"

lemma div_up_bounds:
  fixes a d :: nat
  assumes "0 < d" "0 < a"
  defines "f \<equiv> (a + d - 1) div d"
  shows "a \<le> f * d" "(f - 1) * d < a" "0 < f" "f \<le> a"
proof -
  have "a + d - 1 = (a - 1) + d" using assms by simp
  then have "f = ((a - 1) + d) div d" unfolding f_def by (rule arg_cong)
  then have e: "f = (a - 1) div d + 1" using assms(1) by (simp only: div_add_self2)
  have m: "(a - 1) div d * d \<le> a - 1" "a - 1 < ((a - 1) div d + 1) * d"
    using assms(1) by (simp_all add: dividend_less_div_times div_times_less_eq_dividend)
  then show "a \<le> f * d" using assms(2) unfolding e by linarith
  show "(f - 1) * d < a" using m(1) assms(2) unfolding e by (simp only: add_diff_cancel_right')
  show "0 < f" unfolding e by simp
  show "f \<le> a" unfolding e using assms(2) div_le_dividend [of "a - 1" d] by linarith
qed

lemma clusters_for_nat:
  assumes r: "fmt_ready g" and s: "1 \<le> unat spc" "unat spc \<le> 64"
    and c: "internal_fmt_clusters_for g spc = (count, fatsz)" and nz: "count \<noteq> 0"
  defines "a \<equiv> unat (fg_total_sectors g) - overhead g" and "d \<equiv> entry_cap g * unat spc + 2"
  shows "overhead g < unat (fg_total_sectors g)" "unat fatsz = (a + d - 1) div d"
    "2 * unat fatsz < a" "unat count = (a - 2 * unat fatsz) div unat spc"
proof -
  note rd = r [unfolded fmt_ready_def]
  define cap where "cap = fg_bytes_per_sector g div (if fg_type g = k_ra8_fs_type_fat32 then 4 else 2)"
  define over where "over = (ucast (fg_reserved_sectors g) + ucast (fg_root_sectors g) :: u64)"
  define denom where "denom = (ucast cap * ucast spc + ucast (2 :: u32) :: u64)"
  define avail where "avail = fg_total_sectors g - over"
  define fz where "fz = (avail + denom - 1) div denom"
  define tot where "tot = ucast (2 :: u32) * fz"
  have eq: "internal_fmt_clusters_for g spc = (if fg_total_sectors g \<le> over then (0, 0)
      else if avail \<le> tot then (0, ucast fz) else ((avail - tot) div ucast spc, ucast fz))"
    by (simp only: internal_fmt_clusters_for_def Let_def cap_def over_def denom_def avail_def fz_def tot_def)
  from c nz have lt: "\<not> fg_total_sectors g \<le> over" and nle: "\<not> avail \<le> tot" and fs: "fatsz = ucast fz"
    and ct: "count = (avail - tot) div ucast spc"
    unfolding eq by (auto split: if_splits)
  have cap: "unat cap = entry_cap g" "entry_cap g \<le> 2048"
    using rd by (auto simp: entry_cap_def cap_def unat_div)
  have over: "unat over = overhead g"
    unfolding over_def overhead_def using rd by (subst unat_add_small) (auto simp: unat_ucast_small)
  have prod: "entry_cap g * unat spc \<le> 2048 * 64" by (rule mult_le_mono) (use cap s in auto)
  have den: "unat denom = d"
    unfolding denom_def d_def using prod cap s
    by (subst unat_add_small; subst unat_mult_small) (auto simp: unat_ucast_small)
  from lt show 1: "overhead g < unat (fg_total_sectors g)" using over by (simp add: word_le_nat_alt)
  have av: "unat avail = a" unfolding avail_def a_def using lt over by (subst unat_sub_le) auto
  have a: "0 < a" "a < 2 ^ 32" using 1 rd unfolding a_def by linarith+
  have d: "0 < d" "d \<le> 131074" using prod by (simp_all add: d_def)
  note ub = div_up_bounds [OF d(1) a(1)]
  have s1: "unat (avail + denom) = a + d"
    using a d av den by (subst unat_add_small) auto
  have "unat (avail + denom - 1) = a + d - 1"
    using a d s1 by (subst unat_sub_le) (auto simp: word_le_nat_alt)
  then have fz: "unat fz = (a + d - 1) div d" by (simp only: fz_def unat_div den)
  have tt: "unat tot = 2 * ((a + d - 1) div d)"
    unfolding tot_def using a ub fz by (subst unat_mult_small) auto
  show F: "unat fatsz = (a + d - 1) div d"
    unfolding fs using fz ub a by (subst unat_ucast_small) auto
  show "2 * unat fatsz < a" using nle tt av F by (simp add: word_le_nat_alt)
  show "unat count = (a - 2 * unat fatsz) div unat spc"
    unfolding ct F using nle tt av by (subst unat_div, subst unat_sub_le) (auto simp: unat_ucast_small)
qed

lemma choose_loop_Inr:
  assumes "choose_loop g auto_mode n spc = Inr g'" and "\<exists>k \<le> 6. unat spc = 2 ^ k"
  shows "\<exists>spc' count fatsz. (\<exists>k \<le> 6. unat spc' = 2 ^ k) \<and>
    internal_fmt_clusters_for g spc' = (count, fatsz) \<and> internal_fmt_count_in_band (fg_type g) count \<and>
    g' = g\<lparr>fg_sectors_per_cluster := spc', fg_fat_size_sectors := fatsz, fg_count_of_clusters := ucast count\<rparr>"
  using assms
proof (induction n arbitrary: spc)
  case 0
  then show ?case by simp
next
  case (Suc n)
  obtain count fatsz where c: "internal_fmt_clusters_for g spc = (count, fatsz)" by (cases "internal_fmt_clusters_for g spc")
  from Suc.prems(2) obtain k where k: "k \<le> 6" "unat spc = 2 ^ k" by blast
  show ?case
  proof (cases "internal_fmt_count_in_band (fg_type g) count")
    case True
    with Suc.prems c show ?thesis by auto
  next
    case False
    with Suc.prems(1) c have lt: "spc < 64" and l: "choose_loop g auto_mode n (spc * 2) = Inr g'"
      by (auto split: if_splits)
    from lt k have "(2 :: nat) ^ k < 2 ^ 6" by (simp add: word_less_nat_alt)
    then have "k < 6" using power_less_imp_less_exp [of 2 k 6] by simp
    moreover have "unat (spc * 2) = 2 ^ Suc k" using lt k by (subst unat_mult_small) (auto simp: word_less_nat_alt)
    ultimately have "\<exists>k \<le> 6. unat (spc * 2) = 2 ^ k" by (metis Suc_leI)
    from Suc.IH [OF l this] show ?thesis .
  qed
qed

lemma log2_loop_ge:
  assumes "2 ^ j \<le> unat w" and "unat w < 2 ^ k" and "unat r + k < 2 ^ 32"
  shows "unat r + j \<le> unat (fmt_log2_loop w r)"
  using assms
proof (induction k arbitrary: w r j)
  case 0
  then show ?case by simp
next
  case (Suc k)
  show ?case
  proof (cases "w > 1")
    case False
    then have "unat w \<le> 1" by (simp add: word_less_nat_alt)
    with Suc.prems(1) have "(2 :: nat) ^ j \<le> 1" by linarith
    with less_exp [of j] have "j = 0" by linarith
    with False show ?thesis by (simp add: fmt_log2_loop.simps)
  next
    case True
    have h: "unat (drop_bit 1 w) = unat w div 2" by (simp add: drop_bit_eq_div unat_div)
    have r: "unat (r + 1) = unat r + 1" using Suc.prems(3) by (subst unat_add_small) auto
    have "unat (r + 1) + (j - 1) \<le> unat (fmt_log2_loop (drop_bit 1 w) (r + 1))"
    proof (rule Suc.IH)
      show "2 ^ (j - 1) \<le> unat (drop_bit 1 w)"
      proof (cases j)
        case 0
        with True show ?thesis unfolding h by (auto simp: word_less_nat_alt)
      next
        case (Suc i)
        with Suc.prems(1) show ?thesis unfolding h by simp
      qed
      show "unat (drop_bit 1 w) < 2 ^ k" using Suc.prems(2) unfolding h by auto
      show "unat (r + 1) + k < 2 ^ 32" using Suc.prems(3) r by simp
    qed
    then have "unat r + j \<le> unat (fmt_log2_loop (drop_bit 1 w) (r + 1))" using r by linarith
    with True show ?thesis by (simp add: fmt_log2_loop.simps [of w r])
  qed
qed

lemma unat_push_bit_1:
  assumes "n \<le> 6"
  shows "unat (push_bit n 1 :: u32) = 2 ^ n"
proof -
  have "(2 :: nat) ^ n \<le> 2 ^ 6" using assms by (intro power_increasing) auto
  then have "unat (of_nat (2 ^ n) :: u32) = 2 ^ n" by (intro unat_of_nat_small) simp
  then show ?thesis by (simp add: push_bit_eq_mult)
qed

lemma default_spc_power:
  assumes "512 \<le> unat bs"
  shows "\<exists>k \<le> 6. unat (internal_fmt_fat32_default_spc n bs) = 2 ^ k"
proof -
  have "unat (0 :: u32) + 9 \<le> unat (fmt_log2_loop bs 0)"
    by (rule log2_loop_ge [of _ _ 32]) (use assms unat_lt [of bs] in auto)
  then have sh: "9 \<le> unat (internal_fmt_log2 bs)" by (simp add: internal_fmt_log2_def)
  have "\<exists>c :: u32. unat c \<le> 15 \<and> internal_fmt_fat32_default_spc n bs =
      (if c \<le> internal_fmt_log2 bs then 1 else push_bit (unat (c - internal_fmt_log2 bs)) 1)"
    unfolding internal_fmt_fat32_default_spc_def Let_def
    by (rule exI, rule conjI [rotated], rule refl) auto
  then obtain c :: u32 where c: "unat c \<le> 15" and e: "internal_fmt_fat32_default_spc n bs =
      (if c \<le> internal_fmt_log2 bs then 1 else push_bit (unat (c - internal_fmt_log2 bs)) 1)" by blast
  show ?thesis
  proof (cases "c \<le> internal_fmt_log2 bs")
    case True
    then show ?thesis unfolding e by (intro exI [of _ 0]) simp
  next
    case False
    then have "unat (c - internal_fmt_log2 bs) \<le> 6" using sh c by (subst unat_sub_le) auto
    moreover from this have "unat (push_bit (unat (c - internal_fmt_log2 bs)) 1 :: u32) = 2 ^ unat (c - internal_fmt_log2 bs)"
      by (rule unat_push_bit_1)
    ultimately show ?thesis using False unfolding e by auto
  qed
qed

lemma spc_valid_power:
  assumes "priv_fmt_spc_valid h" and "h \<noteq> 0"
  shows "\<exists>k \<le> 6. unat (ucast h :: u32) = 2 ^ k"
proof -
  have lt: "unat h \<le> 64" using assms by (auto simp: priv_fmt_spc_valid_def word_le_nat_alt not_less split: if_splits)
  define n where "n = unat h"
  have n: "h = of_nat n" "n \<in> set [0..<65]" using lt by (simp_all add: n_def)
  have "\<forall>n \<in> set [0..<65]. priv_fmt_spc_valid (of_nat n) \<longrightarrow> n = 0 \<or> n = 1 \<or> n = 2 \<or> n = 4 \<or> n = 8 \<or> n = 16 \<or> n = 32 \<or> n = 64"
    by (simp add: upt_rec priv_fmt_spc_valid_def)
  with n assms have "n = 1 \<or> n = 2 \<or> n = 4 \<or> n = 8 \<or> n = 16 \<or> n = 32 \<or> n = 64" by auto
  then show ?thesis unfolding n(1)
    by (auto intro: exI [of _ 0] exI [of _ 1] exI [of _ 2] exI [of _ 3] exI [of _ 4] exI [of _ 5] exI [of _ 6])
qed

definition fat_type :: "fs_type \<Rightarrow> bool" where
  "fat_type ty \<longleftrightarrow> ty \<in> {k_ra8_fs_type_fat12, k_ra8_fs_type_fat16, k_ra8_fs_type_fat32}"

lemma root_sectors_le:
  assumes "512 \<le> unat bs" and "unat bs \<le> 4096"
  shows "unat ((512 * of_nat k_ra8_fs_dir_entry_bytes + (bs - 1)) div bs :: u32) \<le> 32"
    "unat ((0 * of_nat k_ra8_fs_dir_entry_bytes + (bs - 1)) div bs :: u32) = 0"
proof -
  have u: "unat (bs - 1) = unat bs - 1" using assms by (subst unat_sub_le) (auto simp: word_le_nat_alt)
  have "unat (512 * of_nat k_ra8_fs_dir_entry_bytes + (bs - 1) :: u32) = 16384 + (unat bs - 1)"
    using assms u by (subst unat_add_small) auto
  then have "unat ((512 * of_nat k_ra8_fs_dir_entry_bytes + (bs - 1)) div bs :: u32) = (16384 + (unat bs - 1)) div unat bs"
    by (simp only: unat_div)
  moreover have "16384 + (unat bs - 1) < 33 * unat bs" using assms by simp
  then have "(16384 + (unat bs - 1)) div unat bs < 33" by (simp add: div_less_iff_less_mult)
  ultimately show "unat ((512 * of_nat k_ra8_fs_dir_entry_bytes + (bs - 1)) div bs :: u32) \<le> 32" by linarith
  show "unat ((0 * of_nat k_ra8_fs_dir_entry_bytes + (bs - 1)) div bs :: u32) = 0"
    using u assms by (simp add: unat_div)
qed

lemma fmt_ready_init:
  assumes "internal_bps_valid bs" and "n \<le> 0xFFFFFFFF"
  shows "fmt_ready (fmt_geom_init ty n bs)"
proof -
  note b = bps_valid_bounds [OF assms(1)]
  show ?thesis using b root_sectors_le [of bs] assms(2)
    by (auto simp: fmt_ready_def fmt_geom_init_def Let_def priv_fmt_reserved_for_def word_le_nat_alt)
qed

lemma choose_geometry_unfold:
  assumes b: "internal_bps_valid bs" and v: "priv_fmt_spc_valid h"
    and c: "priv_fmt_choose_geometry (fmt_geom_init ty n bs) (ucast h) = Inr g"
  obtains count where "n \<le> 0xFFFFFFFF"
    "\<exists>k \<le> 6. unat (fg_sectors_per_cluster g) = 2 ^ k"
    "internal_fmt_clusters_for (fmt_geom_init ty n bs) (fg_sectors_per_cluster g) = (count, fg_fat_size_sectors g)"
    "internal_fmt_count_in_band ty count"
    "g = (fmt_geom_init ty n bs)\<lparr>fg_sectors_per_cluster := fg_sectors_per_cluster g,
       fg_fat_size_sectors := fg_fat_size_sectors g, fg_count_of_clusters := ucast count\<rparr>"
proof -
  let ?g = "fmt_geom_init ty n bs"
  have t: "fg_type ?g = ty" "fg_total_sectors ?g = n" "fg_bytes_per_sector ?g = bs"
    by (simp_all add: fmt_geom_init_def Let_def)
  have z: "(ucast h = (0 :: u32)) = (h = 0)" by (metis ucast_0 ucast_ucast_id(1))
  define spc where s: "spc = (if h = 0 then if ty = k_ra8_fs_type_fat32 then internal_fmt_fat32_default_spc n bs else 1
    else (ucast h :: u32))"
  have n: "n \<le> 0xFFFFFFFF" using c t by (auto simp: priv_fmt_choose_geometry_def not_less split: if_splits)
  then have "\<not> 0xFFFFFFFF < n" by (simp add: not_less)
  with c have l: "choose_loop ?g (h = 0) (Suc (unat (64 :: u32))) spc = Inr g"
    unfolding priv_fmt_choose_geometry_def Let_def t z s by (simp only: if_False)
  have "\<exists>k \<le> 6. unat spc = 2 ^ k"
    using s default_spc_power bps_valid_bounds [OF b] spc_valid_power [OF v]
    by (auto intro: exI [of _ 0])
  from choose_loop_Inr [OF l this] obtain spc' count fatsz where
    1: "\<exists>k \<le> 6. unat spc' = 2 ^ k" and 2: "internal_fmt_clusters_for ?g spc' = (count, fatsz)"
    and 3: "internal_fmt_count_in_band ty count"
    and 4: "g = ?g\<lparr>fg_sectors_per_cluster := spc', fg_fat_size_sectors := fatsz, fg_count_of_clusters := ucast count\<rparr>"
    unfolding t by blast
  show thesis by (rule that [of count]) (use 1 2 3 4 n in simp_all)
qed

lemma fat_size_arith:
  fixes a cap spc f c :: nat
  assumes s: "0 < spc" and a: "0 < a"
    and fd: "f = (a + (cap * spc + 2) - 1) div (cap * spc + 2)" and cd: "c = (a - 2 * f) div spc"
    and f: "2 * f < a"
  shows "2 * f + c * spc \<le> a" "a < 2 * f + (c + 1) * spc" "c \<le> f * cap" "(f - 1) * cap \<le> c + 2"
proof -
  let ?d = "cap * spc + 2"
  have u: "a \<le> f * ?d" "(f - 1) * ?d < a" "0 < f"
    unfolding fd by (rule div_up_bounds; use s a in simp)+
  have c: "c * spc \<le> a - 2 * f" "a - 2 * f < (c + 1) * spc"
    unfolding cd using s by (simp_all add: dividend_less_div_times div_times_less_eq_dividend)
  show "2 * f + c * spc \<le> a" "a < 2 * f + (c + 1) * spc" using c f by linarith+
  have "f * ?d = f * cap * spc + 2 * f" by (simp add: algebra_simps)
  then have "c * spc \<le> f * cap * spc" using c(1) u(1) by linarith
  then show "c \<le> f * cap" using s by simp
  have "(f - 1) * ?d = (f - 1) * cap * spc + 2 * (f - 1)" by (simp add: algebra_simps)
  then have "(f - 1) * cap * spc < 2 + (c + 1) * spc" using u(2,3) c(2) f by linarith
  also have "\<dots> \<le> (c + 3) * spc" using s by (simp add: algebra_simps)
  finally show "(f - 1) * cap \<le> c + 2" using s by simp
qed

lemma in_band_lt: "internal_fmt_count_in_band ty count \<Longrightarrow> unat count < 2 ^ 32"
  by (auto simp: internal_fmt_count_in_band_def word_less_nat_alt word_le_nat_alt split: if_splits)

lemma choose_geometry:
  assumes b: "internal_bps_valid bs" and v: "priv_fmt_spc_valid h"
    and c: "priv_fmt_choose_geometry (fmt_geom_init ty n bs) (ucast h) = Inr g"
    and nz: "fg_count_of_clusters g \<noteq> 0"
  defines "f \<equiv> unat (fg_fat_size_sectors g)" and "k \<equiv> unat (fg_count_of_clusters g)"
    and "p \<equiv> unat (fg_sectors_per_cluster g)" and "e \<equiv> entry_cap g"
    and "meta \<equiv> unat (fg_reserved_sectors g) + 2 * unat (fg_fat_size_sectors g) + unat (fg_root_sectors g)"
  shows "fg_type g = ty \<and> fg_total_sectors g = n \<and> fg_bytes_per_sector g = bs \<and> (\<exists>i \<le> 6. p = 2 ^ i)"
    and "internal_fmt_count_in_band ty (ucast (fg_count_of_clusters g))"
    and "meta + k * p \<le> unat n \<and> unat n < meta + (k + 1) * p"
    and "k \<le> f * e \<and> (f - 1) * e \<le> k + 2"
proof -
  let ?g = "fmt_geom_init ty n bs"
  from choose_geometry_unfold [OF b v c] obtain count where n: "n \<le> 0xFFFFFFFF"
    and sp: "\<exists>k \<le> 6. unat (fg_sectors_per_cluster g) = 2 ^ k"
    and cl: "internal_fmt_clusters_for ?g (fg_sectors_per_cluster g) = (count, fg_fat_size_sectors g)"
    and band: "internal_fmt_count_in_band ty count"
    and g: "g = ?g\<lparr>fg_sectors_per_cluster := fg_sectors_per_cluster g,
       fg_fat_size_sectors := fg_fat_size_sectors g, fg_count_of_clusters := ucast count\<rparr>" .
  have same: "fg_type g = ty" "fg_total_sectors g = n" "fg_bytes_per_sector g = bs"
    "fg_reserved_sectors g = fg_reserved_sectors ?g" "fg_root_sectors g = fg_root_sectors ?g"
    "fg_count_of_clusters g = ucast count"
    by (subst g, simp add: fmt_geom_init_def Let_def)+
  have cap: "entry_cap ?g = e" using same by (simp add: e_def entry_cap_def fmt_geom_init_def Let_def)
  have ov: "overhead ?g = unat (fg_reserved_sectors g) + unat (fg_root_sectors g)" by (simp add: overhead_def same)
  from sp obtain i where i: "i \<le> 6" "p = 2 ^ i" by (auto simp: p_def)
  then have p: "1 \<le> p" "p \<le> 64" using power_increasing [of i 6 "2 :: nat"] by simp_all
  have kc: "unat count = k" unfolding k_def same using in_band_lt [OF band] by (simp add: unat_ucast_small)
  have cnz: "count \<noteq> 0" using nz same by auto
  have tot: "unat (fg_total_sectors ?g) = unat n" by (simp add: fmt_geom_init_def Let_def)
  note cn = clusters_for_nat [OF fmt_ready_init [OF b n] p [unfolded p_def] cl cnz, folded p_def f_def, unfolded cap tot ov kc]
  have "0 < p" "0 < unat n - (unat (fg_reserved_sectors g) + unat (fg_root_sectors g))" using p cn(1) by linarith+
  note ar = fat_size_arith [OF this cn(2,4,3)]
  show "fg_type g = ty \<and> fg_total_sectors g = n \<and> fg_bytes_per_sector g = bs \<and> (\<exists>i \<le> 6. p = 2 ^ i)"
    using same i by blast
  show "internal_fmt_count_in_band ty (ucast (fg_count_of_clusters g))"
    using band kc unfolding k_def by (metis same(6) unat_ucast_small ucast_of_nat64 word_unat_eq_iff unat_lt unat_ucast64)
  show "meta + k * p \<le> unat n \<and> unat n < meta + (k + 1) * p"
    using ar(1,2) p cn(1) unfolding meta_def f_def [symmetric] by linarith
  show "k \<le> f * e \<and> (f - 1) * e \<le> k + 2" using ar(3,4) p cn(1) by auto
qed

lemmas bpb_defs = fmt_boot_sector_def internal_fmt_build_bpb_f16_def internal_fmt_build_bpb_f32_def Let_def
  priv_fmt_label_field_def internal_fmt_boot_prologue_def internal_fmt_write_totals_def
lemmas bpb_nth = nth_list_update nth_wr16 nth_wr32 nth_byte_copy priv_rd16_def priv_rd32_def

lemma boot_sector_len [simp]: "length (fmt_boot_sector g l) = unat (fg_bytes_per_sector g)"
  by (simp add: bpb_defs)

lemma boot_sector_common:
  fixes label
  assumes "512 \<le> unat (fg_bytes_per_sector g)"
  defines "buf \<equiv> fmt_boot_sector g label"
  shows "buf ! 510 = 0x55" "buf ! 511 = 0xAA" "\<not> internal_exfat_is_volume buf"
    "buf ! 13 = ucast (fg_sectors_per_cluster g)" "buf ! 16 = 2"
    "priv_rd16 buf 14 = ucast (fg_reserved_sectors g)" "priv_rd16 buf 11 = ucast (fg_bytes_per_sector g)"
  using assms(1) unfolding buf_def
  by (simp_all add: bpb_defs bpb_nth codec internal_exfat_is_volume_def exfat_sig_def upt_rec)

lemma boot_sector_f32:
  fixes label
  assumes "512 \<le> unat (fg_bytes_per_sector g)" and "fg_type g = k_ra8_fs_type_fat32"
  defines "buf \<equiv> fmt_boot_sector g label"
  shows "priv_rd16 buf 17 = 0" "priv_rd16 buf 22 = 0" "priv_rd16 buf 19 = 0"
    "priv_rd32 buf 36 = fg_fat_size_sectors g" "priv_rd32 buf 32 = ucast (fg_total_sectors g)" "priv_rd32 buf 44 = 2"
  using assms(1,2) unfolding buf_def
  by (simp_all add: bpb_defs bpb_nth codec)

lemma boot_sector_f16:
  fixes label
  assumes "512 \<le> unat (fg_bytes_per_sector g)" and "fg_type g \<noteq> k_ra8_fs_type_fat32"
  defines "buf \<equiv> fmt_boot_sector g label"
  shows "priv_rd16 buf 17 = ucast (fg_root_entries g)" "priv_rd16 buf 22 = ucast (fg_fat_size_sectors g)"
    "priv_rd16 buf 19 = (if fg_total_sectors g < 0x10000 then ucast (fg_total_sectors g) else 0)"
    "fg_total_sectors g \<ge> 0x10000 \<Longrightarrow> priv_rd32 buf 32 = ucast (fg_total_sectors g)"
  using assms(1,2) unfolding buf_def not_less [symmetric]
  by (cases "fg_total_sectors g < 0x10000"; simp add: bpb_defs bpb_nth codec)+

lemma parse_volume_fat:
  assumes "buf ! 510 = 0x55" "buf ! 511 = 0xAA" "\<not> internal_exfat_is_volume buf"
    and "ucast (priv_rd16 buf 11) = m_bytes_per_sector m" and "buf ! 13 \<noteq> 0" and "buf ! 16 \<noteq> 0"
  shows "priv_parse_volume buf (s, m) = (Inr (), (s, m\<lparr>m_sectors_per_cluster := ucast (buf ! 13),
    m_reserved_sectors := ucast (priv_rd16 buf 14), m_num_fats := ucast (buf ! 16),
    m_root_entries := ucast (priv_rd16 buf 17),
    m_fat_size_sectors := (if priv_rd16 buf 22 \<noteq> 0 then ucast (priv_rd16 buf 22) else priv_rd32 buf 36),
    m_total_sectors := (if priv_rd16 buf 19 \<noteq> 0 then ucast (priv_rd16 buf 19) else ucast (priv_rd32 buf 32)),
    m_root_cluster := priv_rd32 buf 44\<rparr>))"
proof -
  have z8: "(ucast x :: u32) \<noteq> 0" if "x \<noteq> 0" for x :: u8 by (metis that ucast_0 ucast_ucast_id(1))
  have z16: "(ucast x = (0 :: u32)) = (x = 0)" for x :: u16 by (metis ucast_0 ucast_ucast_id(2))
  have u: "(ucast (ucast x :: u32) :: u64) = ucast x" for x :: u16
    by (rule bit_word_eqI) (auto simp: bit_simps dest: bit_imp_le_length)
  show ?thesis using assms
    by (simp add: priv_parse_volume_def priv_parse_bpb_into_mount_def setM_def askM_def bindE_def z8 z16 u Let_def)
qed

definition geometry_of :: "'w mount \<Rightarrow> 'w mount" where
  "geometry_of m = (let fat = ucast (m_reserved_sectors m); root = fat + ucast (m_num_fats m) * ucast (m_fat_size_sectors m);
     data = root + ucast (root_dir_sectors m);
     count = ucast ((m_total_sectors m - data) div ucast (m_sectors_per_cluster m)) :: u32
   in m\<lparr>m_first_fat_lba := fat, m_first_root_lba := root, m_first_data_lba := data, m_count_of_clusters := count,
     m_type := (if count < 4085 then k_ra8_fs_type_fat12 else if count < 65525 then k_ra8_fs_type_fat16
       else k_ra8_fs_type_fat32)\<rparr>)"

lemma geometry_of_type:
  "m_type (geometry_of m) = (if m_count_of_clusters (geometry_of m) < 4085 then k_ra8_fs_type_fat12
     else if m_count_of_clusters (geometry_of m) < 65525 then k_ra8_fs_type_fat16 else k_ra8_fs_type_fat32)"
  by (simp add: geometry_of_def Let_def)

lemma compute_geometry_ok:
  assumes "\<not> m_total_sectors m < m_first_data_lba (geometry_of m)"
  shows "internal_compute_geometry (s, m) = (Inr (), (s, geometry_of m))"
  using assms
  by (simp add: internal_compute_geometry_def geometry_of_def setM_def askM_def bindE_def Let_def root_dir_sectors_def priv_bps_def)


lemma band_type:
  assumes "internal_fmt_count_in_band ty (ucast (c :: u32))" and "fat_type ty"
  shows "(if c < 4085 then k_ra8_fs_type_fat12 else if c < 65525 then k_ra8_fs_type_fat16
     else k_ra8_fs_type_fat32) = ty"
  using assms
  by (auto simp: internal_fmt_count_in_band_def fat_type_def word_less_nat_alt word_le_nat_alt split: if_splits)

lemma geometry_of_layout:
  fixes m :: "'w mount"
  assumes md: "meta = unat (m_reserved_sectors m) + 2 * unat (m_fat_size_sectors m) + unat (root_dir_sectors m)"
    and r: "unat (m_reserved_sectors m) \<le> 32" and nf: "m_num_fats m = 2" and s: "0 < unat (m_sectors_per_cluster m)"
    and dr: "unat (root_dir_sectors m) \<le> 32"
    and lo: "meta + k * unat (m_sectors_per_cluster m) \<le> unat (m_total_sectors m)"
    and hi: "unat (m_total_sectors m) < meta + (k + 1) * unat (m_sectors_per_cluster m)" and k: "k < 2 ^ 32"
  shows "unat (m_first_data_lba (geometry_of m)) = meta" "unat (m_count_of_clusters (geometry_of m)) = k"
    "unat (m_first_root_lba (geometry_of m)) = unat (m_reserved_sectors m) + 2 * unat (m_fat_size_sectors m)"
    "m_first_fat_lba (geometry_of m) = ucast (m_reserved_sectors m)"
proof -
  have f: "unat (m_fat_size_sectors m) < 2 ^ 32" using unat_lt [of "m_fat_size_sectors m"] by simp
  have p: "unat (ucast (2 :: u32) * ucast (m_fat_size_sectors m) :: u64) = 2 * unat (m_fat_size_sectors m)"
    using f by (subst unat_mult_small) auto
  show root: "unat (m_first_root_lba (geometry_of m)) = unat (m_reserved_sectors m) + 2 * unat (m_fat_size_sectors m)"
    unfolding geometry_of_def Let_def nf using p r f by simp (subst unat_add_small, auto)
  have fd: "m_first_data_lba (geometry_of m) = m_first_root_lba (geometry_of m) + ucast (root_dir_sectors m)"
    by (simp add: geometry_of_def Let_def)
  show data: "unat (m_first_data_lba (geometry_of m)) = meta"
    unfolding fd md using root dr r f by (subst unat_add_small) auto
  show "m_first_fat_lba (geometry_of m) = ucast (m_reserved_sectors m)" by (simp add: geometry_of_def Let_def)
  have c: "m_count_of_clusters (geometry_of m) =
      ucast ((m_total_sectors m - m_first_data_lba (geometry_of m)) div ucast (m_sectors_per_cluster m))"
    by (simp add: geometry_of_def Let_def)
  have le: "m_first_data_lba (geometry_of m) \<le> m_total_sectors m" using data lo by (simp add: word_le_nat_alt)
  have "(unat (m_total_sectors m) - meta) div unat (m_sectors_per_cluster m) = k"
    using lo hi s by (intro div_nat_eqI) (auto simp: algebra_simps)
  then have "unat ((m_total_sectors m - m_first_data_lba (geometry_of m)) div ucast (m_sectors_per_cluster m)) = k"
    using le data by (simp add: unat_div unat_sub_le)
  then show "unat (m_count_of_clusters (geometry_of m)) = k" unfolding c using k by (simp add: unat_ucast_small)
qed

definition fmt_meta :: "fmt_geom \<Rightarrow> nat" where
  "fmt_meta g = unat (fg_reserved_sectors g) + 2 * unat (fg_fat_size_sectors g) + unat (fg_root_sectors g)"

lemma choose_geometry_init:
  assumes "internal_bps_valid bs" and "priv_fmt_spc_valid h"
    and "priv_fmt_choose_geometry (fmt_geom_init ty n bs) (ucast h) = Inr g"
  shows "fg_reserved_sectors g = priv_fmt_reserved_for ty" "fg_root_entries g = (if ty = k_ra8_fs_type_fat32 then 0 else 512)"
    "fg_root_sectors g = (fg_root_entries g * of_nat k_ra8_fs_dir_entry_bytes + (bs - 1)) div bs" "unat n < 2 ^ 32"
proof -
  from choose_geometry_unfold [OF assms] obtain count where n: "n \<le> 0xFFFFFFFF"
    and "\<exists>k \<le> 6. unat (fg_sectors_per_cluster g) = 2 ^ k"
    and "internal_fmt_clusters_for (fmt_geom_init ty n bs) (fg_sectors_per_cluster g) = (count, fg_fat_size_sectors g)"
    and "internal_fmt_count_in_band ty count"
    and g: "g = (fmt_geom_init ty n bs)\<lparr>fg_sectors_per_cluster := fg_sectors_per_cluster g,
       fg_fat_size_sectors := fg_fat_size_sectors g, fg_count_of_clusters := ucast count\<rparr>" .
  show "fg_reserved_sectors g = priv_fmt_reserved_for ty" "fg_root_entries g = (if ty = k_ra8_fs_type_fat32 then 0 else 512)"
    "fg_root_sectors g = (fg_root_entries g * of_nat k_ra8_fs_dir_entry_bytes + (bs - 1)) div bs"
    using arg_cong [OF g, of fg_reserved_sectors] arg_cong [OF g, of fg_root_entries] arg_cong [OF g, of fg_root_sectors]
    by (simp_all only: fmt_geom_init_def Let_def fmt_geom.simps of_nat_numeral)
  show "unat n < 2 ^ 32" using n by (simp add: word_le_nat_alt)
qed

text \<open>What the parser of the boot sector puts into the mount.\<close>

definition parsed :: "fmt_geom \<Rightarrow> 'w mount \<Rightarrow> 'w mount" where
  "parsed g m = m\<lparr>m_sectors_per_cluster := fg_sectors_per_cluster g, m_reserved_sectors := fg_reserved_sectors g,
     m_num_fats := 2, m_root_entries := fg_root_entries g, m_fat_size_sectors := fg_fat_size_sectors g,
     m_total_sectors := fg_total_sectors g\<rparr>"

lemma fat_size_f16:
  assumes "internal_bps_valid bs" and "priv_fmt_spc_valid h"
    and "priv_fmt_choose_geometry (fmt_geom_init ty n bs) (ucast h) = Inr g" and "fg_count_of_clusters g \<noteq> 0"
    and ty: "ty \<noteq> k_ra8_fs_type_fat32" and "fat_type ty"
  shows "unat (fg_fat_size_sectors g) < 65536"
proof -
  note cg = choose_geometry [OF assms(1-4)]
  have "internal_fmt_count_in_band ty (ucast (fg_count_of_clusters g))" by (rule cg(2))
  then have "unat (fg_count_of_clusters g) < 65525" using ty \<open>fat_type ty\<close>
    by (auto simp: internal_fmt_count_in_band_def fat_type_def word_less_nat_alt split: if_splits)
  moreover have e: "256 \<le> entry_cap g"
    using bps_valid_bounds [OF assms(1)] cg(1) ty div_le_mono [of 512 "unat bs" 2] by (simp add: entry_cap_def)
  have "(unat (fg_fat_size_sectors g) - 1) * 256 \<le> (unat (fg_fat_size_sectors g) - 1) * entry_cap g"
    using e by simp
  with cg(4) have "(unat (fg_fat_size_sectors g) - 1) * 256 \<le> unat (fg_count_of_clusters g) + 2" by linarith
  ultimately show ?thesis by linarith
qed


lemma totals_word:
  fixes n :: u64
  assumes "0 < unat n" and "unat n < 2 ^ 32"
  shows "n < 0x10000 \<Longrightarrow> (ucast n :: u16) \<noteq> 0 \<and> ucast (ucast n :: u16) = n" "ucast (ucast n :: u32) = n"
proof -
  show "ucast (ucast n :: u32) = n" using assms by (simp add: word_unat_eq_iff unat_ucast_small)
  assume "n < 0x10000"
  then have u: "ucast (ucast n :: u16) = n" by (simp add: word_unat_eq_iff unat_ucast_small word_less_nat_alt)
  moreover have "(ucast n :: u16) \<noteq> 0" using u assms(1) by auto
  ultimately show "(ucast n :: u16) \<noteq> 0 \<and> ucast (ucast n :: u16) = n" by simp
qed

lemma parse_boot_sector:
  fixes m :: "'w mount"
  assumes b: "internal_bps_valid bs" and v: "priv_fmt_spc_valid h"
    and c: "priv_fmt_choose_geometry (fmt_geom_init ty n bs) (ucast h) = Inr g" and nz: "fg_count_of_clusters g \<noteq> 0"
    and ty: "fat_type ty" and m: "m_bytes_per_sector m = bs"
  obtains rc where "priv_parse_volume (fmt_boot_sector g label) (s, m) = (Inr (), (s, (parsed g m)\<lparr>m_root_cluster := rc\<rparr>))"
    "ty = k_ra8_fs_type_fat32 \<longrightarrow> rc = 2"
proof -
  note cg = choose_geometry [OF b v c nz] and ci = choose_geometry_init [OF b v c]
  have bs: "512 \<le> unat (fg_bytes_per_sector g)" using bps_valid_bounds [OF b] cg(1) by simp
  note com = boot_sector_common [OF bs, of label]
  obtain i where i: "i \<le> 6" "unat (fg_sectors_per_cluster g) = 2 ^ i" using cg(1) by blast
  have p: "0 < unat (fg_sectors_per_cluster g)" "unat (fg_sectors_per_cluster g) \<le> 64"
    using i power_increasing [of i 6 "2 :: nat"] by simp_all
  have n0: "0 < unat n" 
  proof -
    have "0 < unat (fg_count_of_clusters g)" using nz by (simp add: unat_gt_0)
    then have "0 < unat (fg_count_of_clusters g) * unat (fg_sectors_per_cluster g)" using p(1) by simp
    then show ?thesis using cg(3) by linarith
  qed
  have f0: "fg_fat_size_sectors g \<noteq> 0" using cg(4) nz by (auto simp: unat_eq_0)
  have uc: "(ucast (ucast (fg_sectors_per_cluster g) :: u8) :: u32) = fg_sectors_per_cluster g"
    using p by (simp add: word_unat_eq_iff unat_ucast_small)
  have re: "unat (fg_reserved_sectors g) < 65536" "unat (fg_root_entries g) < 65536"
    using ci(1,2) by (simp_all add: priv_fmt_reserved_for_def)
  have h16: "(ucast (ucast x :: u16) :: u32) = x" if "unat x < 65536" for x :: u32
    using that by (simp add: word_unat_eq_iff unat_ucast_small)
  have bp: "ucast (ucast (fg_bytes_per_sector g) :: u16) = m_bytes_per_sector m"
    using h16 [of "fg_bytes_per_sector g"] bps_valid_bounds [OF b] cg(1) m by simp
  have s8: "(ucast (fg_sectors_per_cluster g) :: u8) \<noteq> 0" using uc p by auto
  note pv = parse_volume_fat [OF com(1-3) bp [folded com(7)], unfolded com, OF s8]
  show thesis
  proof (cases "ty = k_ra8_fs_type_fat32")
    case True
    then have g32: "fg_type g = k_ra8_fs_type_fat32" using cg(1) by simp
    have "(ucast (ucast (fg_total_sectors g) :: u32) :: u64) = fg_total_sectors g"
      using ci(4) cg(1) by (simp add: word_unat_eq_iff unat_ucast_small)
    then show thesis
      using pv boot_sector_f32 [OF bs g32, of label] uc h16 re ci(2) True by (intro that [of 2]) (auto simp: parsed_def)
  next
    case False
    then have g16: "fg_type g \<noteq> k_ra8_fs_type_fat32" using cg(1) by simp
    note rd = boot_sector_f16 [OF bs g16, of label]
    note f16 = h16 [OF fat_size_f16 [OF b v c nz False ty]]
    have fz: "(ucast (fg_fat_size_sectors g) :: u16) \<noteq> 0" using f16 f0 by auto
    have t: "(if priv_rd16 (fmt_boot_sector g label) 19 \<noteq> 0 then ucast (priv_rd16 (fmt_boot_sector g label) 19)
        else ucast (priv_rd32 (fmt_boot_sector g label) 32)) = fg_total_sectors g"
      using rd(3,4) totals_word [of "fg_total_sectors g"] n0 ci(4) cg(1) by (auto simp: not_less)
    show thesis
      by (rule that) (use pv [unfolded t] rd(1,2) uc h16 re f16 fz False in \<open>simp_all add: parsed_def\<close>)
  qed
qed

section \<open>The chosen geometry\<close>

text \<open>C32. The geometry that the formatter settles on, whenever it leaves room for at least one cluster: the cluster
  size is a power of two of at most 64 sectors, the number of clusters is in the band that makes a reader recognise
  the requested FAT type, reserved area, both FATs, root directory and clusters fill the device up to less than one
  cluster and never exceed it, and each FAT has an entry for all but at most two of the clusters while no whole
  sector of it is superfluous.\<close>

theorem choose_geometry_sound:
  assumes "internal_bps_valid bs" and "priv_fmt_spc_valid h"
    and "priv_fmt_choose_geometry (fmt_geom_init ty n bs) (ucast h) = Inr g" and "fg_count_of_clusters g \<noteq> 0"
  shows "fg_type g = ty \<and> fg_total_sectors g = n \<and> fg_bytes_per_sector g = bs \<and>
    (\<exists>i \<le> 6. unat (fg_sectors_per_cluster g) = 2 ^ i) \<and>
    internal_fmt_count_in_band ty (ucast (fg_count_of_clusters g)) \<and>
    fmt_meta g + unat (fg_count_of_clusters g) * unat (fg_sectors_per_cluster g) \<le> unat n \<and>
    unat n < fmt_meta g + (unat (fg_count_of_clusters g) + 1) * unat (fg_sectors_per_cluster g) \<and>
    unat (fg_count_of_clusters g) \<le> unat (fg_fat_size_sectors g) * entry_cap g \<and>
    (unat (fg_fat_size_sectors g) - 1) * entry_cap g \<le> unat (fg_count_of_clusters g) + 2"
  unfolding fmt_meta_def using choose_geometry [OF assms] by simp

lemma ex_choose: "priv_fmt_choose_geometry (fmt_geom_init k_ra8_fs_type_fat16 40000 512) (ucast (4 :: u8)) =
    Inr \<lparr>fg_type = k_ra8_fs_type_fat16, fg_total_sectors = 40000, fg_bytes_per_sector = 512, fg_sectors_per_cluster = 4,
      fg_reserved_sectors = 1, fg_fat_size_sectors = 39, fg_root_entries = 512, fg_root_sectors = 32, fg_count_of_clusters = 9972\<rparr>"
  by code_simp

theorem choose_geometry_sound_witness:
  "\<exists>g. priv_fmt_choose_geometry (fmt_geom_init k_ra8_fs_type_fat16 40000 512) (ucast (4 :: u8)) = Inr g \<and>
     fmt_meta g + unat (fg_count_of_clusters g) * unat (fg_sectors_per_cluster g) \<le> unat (40000 :: u64)"
  using choose_geometry_sound [OF _ _ ex_choose]
  by (subst ex_choose) (simp add: internal_bps_valid_def priv_fmt_spc_valid_def)

section \<open>Formatting and mounting\<close>

text \<open>C11. A freshly written boot sector is read back as the geometry it was written from: on a device of the same
  sector size the mount recognises the requested FAT type and finds cluster size, FAT size and count, reserved sectors,
  root directory entries, total sectors, cluster count, the start of the FATs, of the fixed root and of the data area, and
  on FAT32 the root cluster exactly as the formatter laid them out, whatever the label. The geometry
  must have at least one cluster: the formatter also accepts FAT12 on a device that has room for none, and the boot sector
  it writes there does not parse back (\<open>fmt_empty_not_mounted\<close>).\<close>

theorem format_mount_roundtrip:
  fixes m :: "'w mount"
  assumes "internal_bps_valid bs" and "priv_fmt_spc_valid h"
    and "priv_fmt_choose_geometry (fmt_geom_init ty n bs) (ucast h) = Inr g" and "fg_count_of_clusters g \<noteq> 0"
    and "fat_type ty" and "m_bytes_per_sector m = bs"
  shows "\<exists>m'. bindE (priv_parse_volume (fmt_boot_sector g label)) (\<lambda>_. internal_compute_geometry) (s, m) = (Inr (), (s, m')) \<and>
    m_type m' = ty \<and> m_sectors_per_cluster m' = fg_sectors_per_cluster g \<and> m_num_fats m' = 2 \<and>
    m_fat_size_sectors m' = fg_fat_size_sectors g \<and> m_reserved_sectors m' = fg_reserved_sectors g \<and>
    m_root_entries m' = fg_root_entries g \<and> m_total_sectors m' = n \<and> m_count_of_clusters m' = fg_count_of_clusters g \<and>
    unat (m_first_fat_lba m') = unat (fg_reserved_sectors g) \<and>
    unat (m_first_root_lba m') = unat (fg_reserved_sectors g) + 2 * unat (fg_fat_size_sectors g) \<and>
    unat (m_first_data_lba m') = fmt_meta g \<and> (ty = k_ra8_fs_type_fat32 \<longrightarrow> m_root_cluster m' = 2)"
proof -
  obtain rc where pv: "priv_parse_volume (fmt_boot_sector g label) (s, m) = (Inr (), (s, (parsed g m)\<lparr>m_root_cluster := rc\<rparr>))"
    and rc: "ty = k_ra8_fs_type_fat32 \<longrightarrow> rc = 2" by (rule parse_boot_sector [OF assms])
  define p where "p = (parsed g m)\<lparr>m_root_cluster := rc\<rparr>"
  note cg = choose_geometry [OF assms(1-4)] and ci = choose_geometry_init [OF assms(1-3)]
  have rs: "root_dir_sectors p = fg_root_sectors g"
    unfolding root_dir_sectors_def ci(3) p_def parsed_def priv_bps_def by (simp add: assms(6))
  obtain i where "unat (fg_sectors_per_cluster g) = 2 ^ i" using cg(1) by blast
  then have sp: "0 < unat (fg_sectors_per_cluster g)" by simp
  have "unat (fg_root_sectors g) \<le> 32" "unat (fg_reserved_sectors g) \<le> 32"
    using root_sectors_le [of bs] bps_valid_bounds [OF assms(1)] ci(1,2,3) by (auto simp: priv_fmt_reserved_for_def)
  then have lay: "unat (m_first_data_lba (geometry_of p)) = fmt_meta g"
    "unat (m_count_of_clusters (geometry_of p)) = unat (fg_count_of_clusters g)"
    "unat (m_first_root_lba (geometry_of p)) = unat (fg_reserved_sectors g) + 2 * unat (fg_fat_size_sectors g)"
    "m_first_fat_lba (geometry_of p) = ucast (fg_reserved_sectors g)"
    using geometry_of_layout [of "fmt_meta g" p "unat (fg_count_of_clusters g)"] cg(1,3) sp rs
      unat_lt [of "fg_count_of_clusters g"] by (simp_all add: p_def parsed_def fmt_meta_def)
  have ok: "\<not> m_total_sectors p < m_first_data_lba (geometry_of p)"
    using lay(1) cg(1,3) unfolding word_less_nat_alt by (simp add: p_def parsed_def fmt_meta_def)
  have "m_count_of_clusters (geometry_of p) = fg_count_of_clusters g" using lay(2) by (simp add: word_unat_eq_iff)
  then have ty: "m_type (geometry_of p) = ty"
    using band_type [OF cg(2) assms(5)] by (simp only: geometry_of_type)
  show ?thesis
    by (rule exI [of _ "geometry_of p"], subst bindE_run, rule pv, fold p_def, subst compute_geometry_ok [OF ok])
      (use lay ty rc cg(1) in \<open>simp add: word_unat_eq_iff, simp add: geometry_of_def p_def parsed_def Let_def\<close>)
qed

theorem format_mount_roundtrip_witness:
  "\<exists>g m'. priv_fmt_choose_geometry (fmt_geom_init k_ra8_fs_type_fat16 40000 512) (ucast (4 :: u8)) = Inr g \<and>
     bindE (priv_parse_volume (fmt_boot_sector g None)) (\<lambda>_. internal_compute_geometry) (ex_fs, ex_mount\<lparr>m_bytes_per_sector := 512\<rparr>) =
       (Inr (), (ex_fs, m')) \<and> m_type m' = k_ra8_fs_type_fat16 \<and> m_count_of_clusters m' = 9972"
  using format_mount_roundtrip [OF _ _ ex_choose, of "ex_mount\<lparr>m_bytes_per_sector := 512\<rparr>" None ex_fs]
  by (subst ex_choose) (auto simp: internal_bps_valid_def priv_fmt_spc_valid_def fat_type_def)

section \<open>Boundary cases\<close>

text \<open>The FAT that the formatter lays out can be too short. On a device of 4161 sectors of 512 bytes formatted as
  FAT16 it has 16 sectors, hence 4096 entries, for 4096 clusters, which need entries 0 to 4097; on exFAT a device of
  67664 sectors gets a FAT of 8192 entries for 8191 clusters, which need 8193; and a FAT12 device of 33 sectors, which has
  no room for any cluster, is accepted with a FAT of no sectors at all.\<close>

lemma fmt_fat_too_short:
  "(case priv_fmt_choose_geometry (fmt_geom_init k_ra8_fs_type_fat16 4161 512) 0 of
      Inr g \<Rightarrow> unat (fg_fat_size_sectors g) * entry_cap g < unat (fg_count_of_clusters g) + 2 | Inl _ \<Rightarrow> False) \<and>
   (case exfat_format_plan 67664 512 of
      Inr (xg, _) \<Rightarrow> unat (xg_fat_length xg) * 128 < unat (xg_cluster_count xg) + 2 | Inl _ \<Rightarrow> False) \<and>
   (case priv_fmt_choose_geometry (fmt_geom_init k_ra8_fs_type_fat12 33 512) 0 of
      Inr g \<Rightarrow> fg_fat_size_sectors g = 0 \<and> fg_count_of_clusters g = 0 | Inl _ \<Rightarrow> False)"
  by code_simp

text \<open>The boot sector of that last geometry is refused: its FAT size of 0 sends the parser to the field of FAT32, where FAT12 has
  other data, and the layout that results does not fit the device.\<close>

lemma fmt_empty_not_mounted:
  "case priv_fmt_choose_geometry (fmt_geom_init k_ra8_fs_type_fat12 33 512) 0 of
      Inr g \<Rightarrow> (case fst (bindE (priv_parse_volume (fmt_boot_sector g None)) (\<lambda>_. internal_compute_geometry)
         (ex_fs, ex_mount\<lparr>m_bytes_per_sector := 512\<rparr>)) of
           Inl e \<Rightarrow> e = k_ra8_err_validation_failed | Inr _ \<Rightarrow> False)
    | Inl _ \<Rightarrow> False"
  by code_simp

end
