(* ===== verification/Exfat_Dir.thy ===== *)
theory Exfat_Dir
  imports Exfat_Cursor
begin

text \<open>
  exFAT paths (\<^verbatim>\<open>ra8_fs_fat_exfat_dir.c\<close>, first part), the allocation bitmap and the placement of entry sets
  (\<^verbatim>\<open>ra8_fs_fat_exfat_write.c\<close>), the growth of a directory (\<^verbatim>\<open>ra8_fs_fat_exfat_stream.c\<close>, middle part) and the
  release of clusters and sets (\<^verbatim>\<open>ra8_fs_fat_exfat_mutate.c\<close>, first part).
\<close>

section \<open>Paths\<close>

definition internal_exfat_enter :: "'w mount \<Rightarrow> exfat_dir \<Rightarrow> bytes \<Rightarrow> ('w fs, exfat_dir) op" where
  "internal_exfat_enter m cur component =
     (if length component \<ge> k_exfat_name_u8_cap then throwE k_ra8_err_invalid_arg
      else case priv_exfat_name_to_units m component of
          Inl ce \<Rightarrow> throwE (if ce = k_ra8_err_no_mem then k_ra8_err_invalid_arg else ce)
        | Inr _ \<Rightarrow> bindE (priv_exfat_find_set m cur component) (\<lambda>x.
            if xf_file x ! k_exfat_off_file_attr AND k_exfat_attr_directory = 0 then throwE k_ra8_err_invalid_arg
            else if priv_rd32 (xf_strm x) k_exfat_strm_off_clus < k_cluster_first_data then throwE k_ra8_err_protocol_error
            else priv_exfat_dir_from_set m (xf_strm x) \<lparr>ed_cluster = 0, ed_contig_end = 0,
              ed_self_cluster = sp_cluster (hd (xf_pos x)), ed_self_index = sp_index (hd (xf_pos x))\<rparr>))"

text \<open>\<open>depth\<close> is the number of components that may still be entered.\<close>

primrec exfat_resolve_loop :: "'w mount \<Rightarrow> nat \<Rightarrow> exfat_dir \<Rightarrow> bytes \<Rightarrow> ('w fs, exfat_dir \<times> bytes) op" where
  "exfat_resolve_loop m 0 cur p = throwE k_ra8_err_invalid_arg"
| "exfat_resolve_loop m (Suc depth) cur p =
     (let rest = dropWhile (\<lambda>c. c \<noteq> chr_slash) p in
      if rest = [] then returnE (cur, p)
      else bindE (internal_exfat_enter m cur (takeWhile (\<lambda>c. c \<noteq> chr_slash) p)) (\<lambda>nxt.
        exfat_resolve_loop m depth nxt (dropWhile (\<lambda>c. c = chr_slash) rest)))"

definition priv_exfat_resolve_parent :: "'w mount \<Rightarrow> bytes \<Rightarrow> ('w fs, exfat_dir \<times> bytes) op" where
  "priv_exfat_resolve_parent m path =
     exfat_resolve_loop m k_exfat_path_depth (priv_exfat_dir_root m) (dropWhile (\<lambda>c. c = chr_slash) path)"

definition priv_exfat_resolve_dir :: "'w mount \<Rightarrow> bytes \<Rightarrow> ('w fs, exfat_dir) op" where
  "priv_exfat_resolve_dir m path =
     (if dropWhile (\<lambda>c. c = chr_slash) path = [] then returnE (priv_exfat_dir_root m)
      else bindE (priv_exfat_resolve_parent m path) (\<lambda>(parent, leaf).
        if leaf = [] then returnE parent else internal_exfat_enter m parent leaf))"

definition priv_exfat_lookup :: "'w mount \<Rightarrow> bytes \<Rightarrow> ('w fs, bytes \<times> u8) op" where
  "priv_exfat_lookup m path =
     bindE (priv_exfat_resolve_parent m path) (\<lambda>(parent, leaf).
       if leaf = [] then throwE k_ra8_err_invalid_arg else priv_exfat_find m parent leaf)"

section \<open>Checksums\<close>

definition internal_exfat_csum_add :: "u16 \<Rightarrow> u8 \<Rightarrow> u16" where
  "internal_exfat_csum_add cs b = (if cs AND 1 \<noteq> 0 then 0x8000 else 0) + drop_bit 1 cs + ucast b"

definition priv_exfat_name_hash :: "u16 list \<Rightarrow> u16" where
  "priv_exfat_name_hash name =
     fold (\<lambda>unit h. let u = priv_exfat_upcase_unit unit in
         internal_exfat_csum_add (internal_exfat_csum_add h (ucast (u AND 0xFF))) (ucast (drop_bit 8 u))) name 0"

definition priv_exfat_set_checksum :: "bytes \<Rightarrow> u16" where
  "priv_exfat_set_checksum set' =
     fold (\<lambda>i cs. if i = k_exfat_off_file_csum \<or> i = k_exfat_off_file_csum + 1 then cs
         else internal_exfat_csum_add cs (set' ! i)) [0..<length set'] 0"

section \<open>The allocation bitmap\<close>

primrec find_bitmap_loop :: "'w mount \<Rightarrow> nat \<Rightarrow> ('w, u32 \<times> u32) cop" where
  "find_bitmap_loop m 0 = throwE out_of_fuel"
| "find_bitmap_loop m (Suc n) =
     bindE (askC ec_scanned) (\<lambda>k.
       if unat k \<ge> k_exfat_scan_limit then throwE k_ra8_err_not_found
       else bindE (priv_exfat_next_entry m) (\<lambda>e.
         if e ! 0 = k_exfat_entry_eod then throwE k_ra8_err_not_found
         else if e ! 0 = k_exfat_entry_bitmap then
           returnE (priv_rd32 e k_exfat_strm_off_clus, priv_rd32 e k_exfat_strm_off_dlen)
         else find_bitmap_loop m n))"

definition priv_exfat_find_bitmap :: "'w mount \<Rightarrow> ('w fs, u32 \<times> u32) op" where
  "priv_exfat_find_bitmap m =
     withC (priv_exfat_cursor_init (priv_exfat_dir_root m)) (find_bitmap_loop m (Suc k_exfat_scan_limit))"

text \<open>\<open>priv_exfat_bitmap_lba\<close> of \<^verbatim>\<open>ra8_fs_fat_alloc.c\<close>: the cached location, or a search.\<close>

definition priv_exfat_bitmap_lba :: "'w mount \<Rightarrow> ('w fs, u64) op" where
  "priv_exfat_bitmap_lba m =
     bindE (getE (\<lambda>s. s)) (\<lambda>s.
       let st = internal_state_for (Some (m_addr m)) s in
       case (case st of None \<Rightarrow> None | Some i \<Rightarrow>
           if as_bitmap_lba (s_alloc s ! i) \<noteq> k_fs_bitmap_unknown then Some (as_bitmap_lba (s_alloc s ! i)) else None) of
         Some lba \<Rightarrow> returnE lba
       | None \<Rightarrow> bindE (priv_exfat_find_bitmap m) (\<lambda>(clus, len).
           let lba = priv_cluster_to_lba m clus in
           bindE (modifyE (\<lambda>s. case st of None \<Rightarrow> s | Some i \<Rightarrow> slot_update i (\<lambda>a. a\<lparr>as_bitmap_lba := lba\<rparr>) s)) (\<lambda>_.
             returnE lba)))"

text \<open>Where bit \<open>idx\<close> of the bitmap is: its sector, the byte in it and the bit in that.\<close>

definition bitmap_at :: "'w mount \<Rightarrow> u64 \<Rightarrow> u32 \<Rightarrow> u64 \<times> nat \<times> nat" where
  "bitmap_at m bmp_lba idx =
     (bmp_lba + ucast (drop_bit 3 idx div priv_bps m), unat (drop_bit 3 idx mod priv_bps m), unat (idx AND 7))"

text \<open>
  \<open>loaded\<close> and \<open>sec\<close> of the C are the pair of the sector that is in the buffer, \<open>None\<close> for the
  sentinel \<open>UINT64_MAX\<close>, which no sector of a bitmap has: a cluster's address is below \<open>2 ^ 64 - 1\<close>.
\<close>

primrec bitmap_window_loop :: "'w mount \<Rightarrow> u64 \<Rightarrow> u32 \<Rightarrow> nat list \<Rightarrow> u32 \<Rightarrow> u32 \<Rightarrow> (u64 \<times> bytes) option \<Rightarrow> ('w fs, u32) op" where
  "bitmap_window_loop m bmp_lba need [] run start loaded = throwE k_ra8_err_no_mem"
| "bitmap_window_loop m bmp_lba need (i # is) run start loaded =
     (case bitmap_at m bmp_lba (of_nat i) of (lba, byte, bitno) \<Rightarrow>
      bindE (case loaded of
          Some (l, sec) \<Rightarrow> if lba \<noteq> l then priv_read_sector m lba else returnE sec
        | None \<Rightarrow> priv_read_sector m lba) (\<lambda>sec.
        if drop_bit bitno (ucast (sec ! byte) :: u32) AND 1 \<noteq> 0 then
          bitmap_window_loop m bmp_lba need is 0 start (Some (lba, sec))
        else let start' = (if run = 0 then of_nat i else start); run' = run + 1 in
          if run' \<ge> need then returnE (start' + k_cluster_first_data)
          else bitmap_window_loop m bmp_lba need is run' start' (Some (lba, sec))))"

definition internal_exfat_bitmap_window :: "'w mount \<Rightarrow> u64 \<Rightarrow> u32 \<Rightarrow> u32 \<Rightarrow> ('w fs, u32) op" where
  "internal_exfat_bitmap_window m bmp_lba from need =
     bitmap_window_loop m bmp_lba need [unat from..<unat (m_count_of_clusters m)] 0 0 None"

definition priv_exfat_bitmap_scan :: "'w mount \<Rightarrow> u64 \<Rightarrow> u32 \<Rightarrow> ('w fs, u32) op" where
  "priv_exfat_bitmap_scan m bmp_lba need =
     bindE (getE (priv_alloc_hint_get m)) (\<lambda>hint.
       let from0 = (if hint > k_cluster_first_data then hint - k_cluster_first_data else 0);
           from = (if from0 \<ge> m_count_of_clusters m then 0 else from0)
       in attemptE (internal_exfat_bitmap_window m bmp_lba from need) (\<lambda>e.
         if e \<noteq> Inl k_ra8_err_no_mem then returnR e
         else if from = 0 then returnR e
         else internal_exfat_bitmap_window m bmp_lba 0 need))"

definition priv_exfat_bmp_switch :: "'w mount \<Rightarrow> u64 \<Rightarrow> (u64 \<times> bytes) option \<Rightarrow> ('w fs, u64 \<times> bytes) op" where
  "priv_exfat_bmp_switch m lba loaded =
     (case loaded of
        Some (l, sec) \<Rightarrow>
          if lba = l then returnE (l, sec)
          else bindE (priv_write_sector m l sec) (\<lambda>_. bindE (priv_read_sector m lba) (\<lambda>sec'. returnE (lba, sec')))
      | None \<Rightarrow> bindE (priv_read_sector m lba) (\<lambda>sec'. returnE (lba, sec')))"

text \<open>
  Marking and clearing runs. With a count of zero the C writes a stale buffer to the sector of the sentinel,
  which the model shows as \<open>undefined_behaviour\<close>.
\<close>

primrec bitmap_mark_loop :: "'w mount \<Rightarrow> u64 \<Rightarrow> u32 \<Rightarrow> nat list \<Rightarrow> (u64 \<times> bytes) option \<Rightarrow> ('w fs, unit) op" where
  "bitmap_mark_loop m bmp_lba clus [] loaded =
     (case loaded of None \<Rightarrow> throwE undefined_behaviour | Some (l, sec) \<Rightarrow> priv_write_sector m l sec)"
| "bitmap_mark_loop m bmp_lba clus (k # ks) loaded =
     (case bitmap_at m bmp_lba ((clus - k_cluster_first_data) + of_nat k) of (lba, byte, bitno) \<Rightarrow>
      bindE (priv_exfat_bmp_switch m lba loaded) (\<lambda>(l, sec).
        bitmap_mark_loop m bmp_lba clus ks (Some (l, sec[byte := sec ! byte OR push_bit bitno 1]))))"

definition priv_exfat_bitmap_mark :: "'w mount \<Rightarrow> u64 \<Rightarrow> u32 \<Rightarrow> u32 \<Rightarrow> ('w fs, unit) op" where
  "priv_exfat_bitmap_mark m bmp_lba clus count = bitmap_mark_loop m bmp_lba clus [0..<unat count] None"

primrec bitmap_clear_loop :: "'w mount \<Rightarrow> u64 \<Rightarrow> u32 \<Rightarrow> nat list \<Rightarrow> (u64 \<times> bytes) option \<Rightarrow> ('w fs, unit) op" where
  "bitmap_clear_loop m bmp_lba clus [] loaded =
     (case loaded of None \<Rightarrow> throwE undefined_behaviour | Some (l, sec) \<Rightarrow> priv_write_sector m l sec)"
| "bitmap_clear_loop m bmp_lba clus (k # ks) loaded =
     (let idx = (clus - k_cluster_first_data) + of_nat k in
      case bitmap_at m bmp_lba idx of (lba, byte, bitno) \<Rightarrow>
      bindE (priv_exfat_bmp_switch m lba loaded) (\<lambda>(l, sec).
      bindE (modifyE (priv_alloc_hint_lower m (idx + k_cluster_first_data))) (\<lambda>_.
        bitmap_clear_loop m bmp_lba clus ks (Some (l, sec[byte := sec ! byte AND NOT (push_bit bitno 1)])))))"

definition priv_exfat_bitmap_clear :: "'w mount \<Rightarrow> u64 \<Rightarrow> u32 \<Rightarrow> u32 \<Rightarrow> ('w fs, unit) op" where
  "priv_exfat_bitmap_clear m bmp_lba clus count = bitmap_clear_loop m bmp_lba clus [0..<unat count] None"

definition priv_exfat_bitmap_test :: "'w mount \<Rightarrow> u64 \<Rightarrow> u32 \<Rightarrow> ('w fs, bool) op" where
  "priv_exfat_bitmap_test m bmp_lba clus =
     (case bitmap_at m bmp_lba (clus - k_cluster_first_data) of (lba, byte, bitno) \<Rightarrow>
      bindE (priv_read_sector m lba) (\<lambda>sec. returnE (drop_bit bitno (ucast (sec ! byte) :: u32) AND 1 = 0)))"

definition internal_exfat_pick_cluster :: "'w mount \<Rightarrow> u64 \<Rightarrow> u32 \<Rightarrow> ('w fs, u32) op" where
  "internal_exfat_pick_cluster m bmp_lba prefer =
     (let past_end = k_cluster_first_data + m_count_of_clusters m in
      bindE (if prefer \<ge> k_cluster_first_data \<and> prefer < past_end then priv_exfat_bitmap_test m bmp_lba prefer
             else returnE False) (\<lambda>is_free.
        if is_free then returnE prefer else priv_exfat_bitmap_scan m bmp_lba 1))"

section \<open>Space for an entry set\<close>

definition internal_exfat_read_entry :: "'w mount \<Rightarrow> u32 \<Rightarrow> u32 \<Rightarrow> ('w fs, bytes) op" where
  "internal_exfat_read_entry m cluster idx =
     (let byte_off = idx * of_nat k_exfat_entry_bytes;
          lba = priv_cluster_to_lba m cluster + ucast (byte_off div priv_bps m)
      in bindE (priv_read_sector m lba) (\<lambda>sec.
        returnE (take k_exfat_entry_bytes (drop (unat (byte_off mod priv_bps m)) sec))))"

definition internal_exfat_slot_free :: "u8 \<Rightarrow> bool" where
  "internal_exfat_slot_free type_byte \<longleftrightarrow> type_byte = k_exfat_entry_eod \<or> type_byte AND k_exfat_inuse_bit = 0"

primrec space_in_cluster_loop :: "'w mount \<Rightarrow> u32 \<Rightarrow> u32 \<Rightarrow> nat list \<Rightarrow> u32 \<Rightarrow> u32 \<Rightarrow> ('w fs, u32) op" where
  "space_in_cluster_loop m cluster need [] run idx = throwE k_ra8_err_no_mem"
| "space_in_cluster_loop m cluster need (i # is) run idx =
     bindE (internal_exfat_read_entry m cluster (of_nat i)) (\<lambda>e.
       if \<not> internal_exfat_slot_free (e ! 0) then space_in_cluster_loop m cluster need is 0 idx
       else let idx' = (if run = 0 then of_nat i else idx); run' = run + 1 in
         if run' \<ge> need then returnE idx' else space_in_cluster_loop m cluster need is run' idx')"

definition internal_exfat_space_in_cluster :: "'w mount \<Rightarrow> u32 \<Rightarrow> u32 \<Rightarrow> ('w fs, u32) op" where
  "internal_exfat_space_in_cluster m cluster need =
     space_in_cluster_loop m cluster need
       [0..<unat (priv_cluster_bytes m div of_nat k_exfat_entry_bytes)] 0 0"

text \<open>\<open>guard\<close> is the number of clusters that may still be looked at.\<close>

primrec scan_dir_space_loop :: "'w mount \<Rightarrow> exfat_dir \<Rightarrow> u32 \<Rightarrow> nat \<Rightarrow> u32 \<Rightarrow> ('w fs, exfat_setpos) op" where
  "scan_dir_space_loop m dir need 0 cluster = throwE k_ra8_err_no_mem"
| "scan_dir_space_loop m dir need (Suc guard) cluster =
     attemptE (internal_exfat_space_in_cluster m cluster need) (\<lambda>r. case r of
       Inr idx \<Rightarrow> returnE \<lparr>sp_cluster = cluster, sp_index = idx\<rparr>
     | Inl e \<Rightarrow>
         if e \<noteq> k_ra8_err_no_mem then throwE e
         else attemptE (priv_exfat_step_cluster m cluster (ed_contig_end dir)) (\<lambda>fe. case fe of
             Inl err \<Rightarrow> throwE (if err = k_ra8_err_not_found then k_ra8_err_no_mem else err)
           | Inr nxt \<Rightarrow> scan_dir_space_loop m dir need guard nxt))"

definition internal_exfat_scan_dir_space :: "'w mount \<Rightarrow> exfat_dir \<Rightarrow> u32 \<Rightarrow> ('w fs, exfat_setpos) op" where
  "internal_exfat_scan_dir_space m dir need = scan_dir_space_loop m dir need k_exfat_scan_limit (ed_cluster dir)"

primrec write_set_loop :: "'w mount \<Rightarrow> u32 \<Rightarrow> u32 \<Rightarrow> bytes \<Rightarrow> nat list \<Rightarrow> ('w fs, unit) op" where
  "write_set_loop m cluster idx set' [] = returnE ()"
| "write_set_loop m cluster idx set' (k # ks) =
     (let byte_off = (idx + of_nat k) * of_nat k_exfat_entry_bytes;
          lba = priv_cluster_to_lba m cluster + ucast (byte_off div priv_bps m)
      in bindE (priv_read_sector m lba) (\<lambda>sec.
         bindE (priv_write_sector m lba (priv_byte_copy sec (unat (byte_off mod priv_bps m)) set'
             (k * k_exfat_entry_bytes) k_exfat_entry_bytes)) (\<lambda>_.
           write_set_loop m cluster idx set' ks)))"

definition priv_exfat_write_dir_set :: "'w mount \<Rightarrow> u32 \<Rightarrow> u32 \<Rightarrow> bytes \<Rightarrow> ('w fs, unit) op" where
  "priv_exfat_write_dir_set m cluster idx set' =
     write_set_loop m cluster idx set' [0..<length set' div k_exfat_entry_bytes]"

definition internal_exfat_put_entry :: "'w mount \<Rightarrow> exfat_setpos \<Rightarrow> bytes \<Rightarrow> ('w fs, unit) op" where
  "internal_exfat_put_entry m where' entry = priv_exfat_write_dir_set m (sp_cluster where') (sp_index where') entry"

section \<open>Growing a directory\<close>

primrec zero_lbas :: "'w mount \<Rightarrow> u64 list \<Rightarrow> ('w fs, unit) op" where
  "zero_lbas m [] = returnE ()"
| "zero_lbas m (lba # lbas) = bindE (priv_write_sector m lba (zero_sector m)) (\<lambda>_. zero_lbas m lbas)"

definition exfat_cluster_lbas :: "'w mount \<Rightarrow> u32 \<Rightarrow> u64 list" where
  "exfat_cluster_lbas m c = map (\<lambda>s. priv_cluster_to_lba m c + of_nat s) [0..<unat (m_sectors_per_cluster m)]"

definition priv_exfat_zero_cluster :: "'w mount \<Rightarrow> u32 \<Rightarrow> ('w fs, unit) op" where
  "priv_exfat_zero_cluster m clus = zero_lbas m (exfat_cluster_lbas m clus)"

text \<open>A sector whose end-of-directory markers are turned into unused entries.\<close>

definition seal_sector :: "nat \<Rightarrow> bytes \<Rightarrow> bytes" where
  "seal_sector bps sec =
     fold (\<lambda>e s. if s ! (e * k_exfat_entry_bytes) = k_exfat_entry_eod
         then s[e * k_exfat_entry_bytes := k_exfat_entry_file AND NOT k_exfat_inuse_bit] else s)
       [0..<(bps + k_exfat_entry_bytes - 1) div k_exfat_entry_bytes] sec"

definition seal_dirty :: "nat \<Rightarrow> bytes \<Rightarrow> bool" where
  "seal_dirty bps sec =
     list_ex (\<lambda>e. sec ! (e * k_exfat_entry_bytes) = k_exfat_entry_eod)
       [0..<(bps + k_exfat_entry_bytes - 1) div k_exfat_entry_bytes]"

primrec seal_loop :: "'w mount \<Rightarrow> u64 list \<Rightarrow> ('w fs, unit) op" where
  "seal_loop m [] = returnE ()"
| "seal_loop m (lba # lbas) =
     bindE (priv_read_sector m lba) (\<lambda>sec.
     bindE (whenE (seal_dirty (unat (priv_bps m)) sec)
         (priv_write_sector m lba (seal_sector (unat (priv_bps m)) sec))) (\<lambda>_. seal_loop m lbas))"

definition priv_exfat_seal_cluster :: "'w mount \<Rightarrow> u32 \<Rightarrow> ('w fs, unit) op" where
  "priv_exfat_seal_cluster m clus = seal_loop m (exfat_cluster_lbas m clus)"

primrec materialize_loop :: "'w mount \<Rightarrow> u32 \<Rightarrow> nat list \<Rightarrow> ('w fs, unit) op" where
  "materialize_loop m first [] = returnE ()"
| "materialize_loop m first (i # is) =
     bindE (priv_fat_set m (first + of_nat i) (first + of_nat i + 1)) (\<lambda>_. materialize_loop m first is)"

definition internal_exfat_materialize_run :: "'w mount \<Rightarrow> u32 \<Rightarrow> u32 \<Rightarrow> u32 \<Rightarrow> u32 \<Rightarrow> ('w fs, unit) op" where
  "internal_exfat_materialize_run m first alloc tail next' =
     bindE (materialize_loop m first [0..<unat alloc - 1]) (\<lambda>_. priv_fat_set m tail next')"

text \<open>The clusters a directory owns, its last one, and whether its run is contiguous.\<close>

primrec dir_survey_loop :: "'w mount \<Rightarrow> nat \<Rightarrow> u32 \<Rightarrow> u32 \<Rightarrow> ('w fs, u32 \<times> u32) op" where
  "dir_survey_loop m 0 clus held = returnE (held, clus)"
| "dir_survey_loop m (Suc guard) clus held =
     bindE (priv_fat_get m clus) (\<lambda>nxt.
       if priv_is_eoc m nxt then returnE (held, clus)
       else if nxt < k_cluster_first_data then throwE k_ra8_err_protocol_error
       else dir_survey_loop m guard nxt (held + 1))"

definition internal_exfat_dir_survey :: "'w mount \<Rightarrow> exfat_dir \<Rightarrow> ('w fs, u32 \<times> u32 \<times> bool) op" where
  "internal_exfat_dir_survey m dir =
     (if ed_contig_end dir \<noteq> 0 then
        returnE (ed_contig_end dir - ed_cluster dir, ed_contig_end dir - 1, True)
      else bindE (dir_survey_loop m (unat (m_count_of_clusters m)) (ed_cluster dir) 1) (\<lambda>(held, clus).
        returnE (held, clus, False)))"

definition internal_exfat_dir_link :: "'w mount \<Rightarrow> u32 \<Rightarrow> u32 \<Rightarrow> u32 \<Rightarrow> bool \<Rightarrow> u32 \<Rightarrow> ('w fs, bool) op" where
  "internal_exfat_dir_link m first alloc tail nofat next' =
     (if nofat \<and> next' = tail + 1 then returnE nofat
      else bindE (if nofat then internal_exfat_materialize_run m first alloc tail next'
                  else priv_fat_set m tail next') (\<lambda>_.
        bindE (priv_fat_set m next' (priv_eoc_write m)) (\<lambda>_. returnE False)))"

primrec relen_gather_loop :: "'w mount \<Rightarrow> nat \<Rightarrow> bytes \<Rightarrow> ('w, bytes) cop" where
  "relen_gather_loop m 0 set' = returnE set'"
| "relen_gather_loop m (Suc n) set' = bindE (priv_exfat_next_entry m) (\<lambda>e. relen_gather_loop m n (set' @ e))"

definition internal_exfat_dir_relen :: "'w mount \<Rightarrow> exfat_dir \<Rightarrow> u64 \<Rightarrow> bool \<Rightarrow> ('w fs, unit) op" where
  "internal_exfat_dir_relen m dir new_bytes nofat =
     bindE (withC \<lparr>ec_cluster = ed_self_cluster dir, ec_entry_in_cluster = ed_self_index dir, ec_scanned = 0, ec_contig_end = 0\<rparr>
       (bindE (priv_exfat_next_entry m) (\<lambda>head.
          let count = 1 + unat (head ! k_exfat_off_file_secnt) in
          if count > k_exfat_set_writable then throwE k_ra8_err_not_supported
          else relen_gather_loop m (count - 1) head))) (\<lambda>set0.
       let s = k_exfat_entry_bytes;
           set1 = set0[s + k_exfat_strm_off_flags := (if nofat then k_exfat_secflag_alloc else k_exfat_secflag_poss)];
           set2 = priv_wr64 set1 (s + k_exfat_off_strm_valid) new_bytes;
           set3 = priv_wr64 set2 (s + k_exfat_strm_off_dlen) new_bytes;
           set4 = priv_wr16 set3 k_exfat_off_file_csum (priv_exfat_set_checksum set3)
       in priv_exfat_write_dir_set m (ed_self_cluster dir) (ed_self_index dir) set4)"

definition internal_exfat_dir_append :: "'w mount \<Rightarrow> exfat_dir \<Rightarrow> u32 \<Rightarrow> u32 \<Rightarrow> bool \<Rightarrow> ('w fs, bool) op" where
  "internal_exfat_dir_append m dir alloc tail nofat =
     bindE (priv_exfat_bitmap_lba m) (\<lambda>bmp_lba.
     bindE (internal_exfat_pick_cluster m bmp_lba (tail + 1)) (\<lambda>next'.
     bindE (priv_exfat_zero_cluster m next') (\<lambda>_.
     bindE (priv_exfat_bitmap_mark m bmp_lba next' 1) (\<lambda>_.
     bindE (modifyE (priv_alloc_hint_set m (next' + 1))) (\<lambda>_.
     bindE (internal_exfat_dir_link m (ed_cluster dir) alloc tail nofat next') (\<lambda>nofat'.
     bindE (priv_exfat_seal_cluster m tail) (\<lambda>_. returnE nofat')))))))"

definition priv_exfat_grow_dir :: "'w mount \<Rightarrow> exfat_dir \<Rightarrow> ('w fs, exfat_dir) op" where
  "priv_exfat_grow_dir m dir =
     bindE (internal_exfat_dir_survey m dir) (\<lambda>(alloc, tail, nofat0).
     bindE (internal_exfat_dir_append m dir alloc tail nofat0) (\<lambda>nofat.
       let new_alloc = alloc + 1; cbytes = ucast (priv_cluster_bytes m) :: u64 in
       bindE (whenE (ed_self_cluster dir \<ge> k_cluster_first_data)
           (internal_exfat_dir_relen m dir (ucast new_alloc * cbytes) nofat)) (\<lambda>_.
         returnE (dir\<lparr>ed_contig_end := (if nofat then ed_cluster dir + new_alloc else 0)\<rparr>))))"

text \<open>\<open>left\<close> is the number of clusters the call may still append.\<close>

primrec find_dir_space_loop :: "'w mount \<Rightarrow> u32 \<Rightarrow> nat \<Rightarrow> exfat_dir \<Rightarrow> ('w fs, exfat_setpos) op" where
  "find_dir_space_loop m need 0 work = internal_exfat_scan_dir_space m work need"
| "find_dir_space_loop m need (Suc left) work =
     attemptE (internal_exfat_scan_dir_space m work need) (\<lambda>e.
       if e \<noteq> Inl k_ra8_err_no_mem then returnR e
       else bindE (priv_exfat_grow_dir m work) (\<lambda>work'. find_dir_space_loop m need left work'))"

definition priv_exfat_find_dir_space :: "'w mount \<Rightarrow> exfat_dir \<Rightarrow> u32 \<Rightarrow> ('w fs, exfat_setpos) op" where
  "priv_exfat_find_dir_space m dir need = find_dir_space_loop m need k_exfat_dir_grow_max dir"

section \<open>Building a set\<close>

text \<open>The name entries of a set, from byte 64 on: the tag of each entry and the units of the name.\<close>

definition put_name_entries :: "u16 list \<Rightarrow> bytes \<Rightarrow> bytes" where
  "put_name_entries name set0 =
     fold (\<lambda>n set1.
         let ne = (2 + n) * k_exfat_entry_bytes in
         fold (\<lambda>c set2.
             let pos = n * k_exfat_name_per_entry + c in
             if pos < length name then priv_wr16 set2 (ne + k_exfat_name_off + c * 2) (name ! pos) else set2)
           [0..<k_exfat_name_per_entry] (set1[ne := k_exfat_entry_name]))
       [0..<exfat_name_entries (length name)] set0"

definition put_set_checksum :: "bytes \<Rightarrow> bytes" where
  "put_set_checksum set' = priv_wr16 set' k_exfat_off_file_csum (priv_exfat_set_checksum set')"

definition internal_exfat_build_set :: "u16 list \<Rightarrow> ('w fs, bytes) op" where
  "internal_exfat_build_set name =
     (let sec_count = 1 + exfat_name_entries (length name);
          set0 = (replicate ((1 + sec_count) * k_exfat_entry_bytes) 0)
            [0 := k_exfat_entry_file, k_exfat_off_file_secnt := of_nat sec_count];
          set1 = priv_wr16 set0 k_exfat_off_file_attr (ucast k_exfat_attr_archive);
          s = k_exfat_entry_bytes
      in bindE (priv_exfat_file_stamp_create set1) (\<lambda>set2.
        let set3 = set2[s := k_exfat_entry_stream, s + k_exfat_strm_off_flags := k_exfat_secflag_poss,
              s + k_exfat_strm_off_nlen := of_nat (length name)];
            set4 = priv_wr16 set3 (s + k_exfat_off_strm_hash) (priv_exfat_name_hash name)
        in returnE (put_set_checksum (put_name_entries name set4))))"

definition internal_exfat_build_dir_set :: "'w mount \<Rightarrow> u16 list \<Rightarrow> u32 \<Rightarrow> ('w fs, bytes) op" where
  "internal_exfat_build_dir_set m name first =
     (let sec_count = 1 + exfat_name_entries (length name);
          set0 = (replicate ((1 + sec_count) * k_exfat_entry_bytes) 0)
            [0 := k_exfat_entry_file, k_exfat_off_file_secnt := of_nat sec_count];
          set1 = priv_wr16 set0 k_exfat_off_file_attr (ucast k_exfat_attr_directory);
          s = k_exfat_entry_bytes; cbytes = priv_cluster_bytes m
      in bindE (priv_exfat_file_stamp_create set1) (\<lambda>set2.
        let set3 = set2[s := k_exfat_entry_stream, s + k_exfat_strm_off_flags := k_exfat_secflag_alloc,
              s + k_exfat_strm_off_nlen := of_nat (length name)];
            set4 = priv_wr16 set3 (s + k_exfat_off_strm_hash) (priv_exfat_name_hash name);
            set5 = priv_wr32 set4 (s + k_exfat_off_strm_valid) cbytes;
            set6 = priv_wr32 set5 (s + k_exfat_strm_off_clus) first;
            set7 = priv_wr32 set6 (s + k_exfat_strm_off_dlen) cbytes
        in returnE (put_set_checksum (put_name_entries name set7))))"

definition internal_exfat_build_rename_set :: "bytes \<Rightarrow> bytes \<Rightarrow> u16 list \<Rightarrow> ('w fs, bytes) op" where
  "internal_exfat_build_rename_set file_e strm_e new_name =
     (let sec_count = 1 + exfat_name_entries (length new_name);
          set0 = replicate ((1 + sec_count) * k_exfat_entry_bytes) 0;
          set1 = priv_byte_copy set0 0 file_e 0 k_exfat_entry_bytes;
          s = k_exfat_entry_bytes;
          set2 = (priv_byte_copy set1 s strm_e 0 k_exfat_entry_bytes)
            [k_exfat_off_file_secnt := of_nat sec_count, s + k_exfat_strm_off_nlen := of_nat (length new_name)];
          set3 = priv_wr16 set2 (s + k_exfat_off_strm_hash) (priv_exfat_name_hash new_name)
      in bindE (priv_exfat_file_stamp_access (put_name_entries new_name set3)) (\<lambda>set4.
        returnE (put_set_checksum set4)))"

definition priv_exfat_link :: "'w mount \<Rightarrow> exfat_dir \<Rightarrow> u16 list \<Rightarrow> ('w fs, exfat_setpos \<times> u32) op" where
  "priv_exfat_link m dir name =
     (let need = of_nat (2 + exfat_name_entries (length name)) :: u32 in
      bindE (priv_exfat_find_dir_space m dir need) (\<lambda>head.
      bindE (internal_exfat_build_set name) (\<lambda>set'.
      bindE (priv_exfat_write_dir_set m (sp_cluster head) (sp_index head) set') (\<lambda>_.
        returnE (head, need)))))"

section \<open>Releasing clusters and sets\<close>

primrec free_clusters_loop :: "'w mount \<Rightarrow> u64 \<Rightarrow> nat \<Rightarrow> u32 \<Rightarrow> ('w fs, unit) op" where
  "free_clusters_loop m bmp_lba 0 clus = throwE k_ra8_err_protocol_error"
| "free_clusters_loop m bmp_lba (Suc guard) clus =
     bindE (priv_exfat_bitmap_clear m bmp_lba clus 1) (\<lambda>_.
     bindE (priv_fat_get m clus) (\<lambda>nxt.
       if priv_is_eoc m nxt then returnE () else free_clusters_loop m bmp_lba guard nxt))"

definition priv_exfat_free_clusters :: "'w mount \<Rightarrow> bytes \<Rightarrow> ('w fs, unit) op" where
  "priv_exfat_free_clusters m strm =
     (let first = priv_rd32 strm k_exfat_strm_off_clus; nbytes = priv_rd64 strm k_exfat_strm_off_dlen in
      if first < k_cluster_first_data then returnE ()
      else if nbytes = 0 then returnE ()
      else bindE (priv_exfat_bitmap_lba m) (\<lambda>bmp_lba.
        if strm ! k_exfat_strm_off_flags AND k_exfat_secflag_no_fat \<noteq> 0 then
          bindE (cluster_bytesE m) (\<lambda>cb. let cbytes = ucast cb :: u64 in
            priv_exfat_bitmap_clear m bmp_lba first (ucast ((nbytes + cbytes - 1) div cbytes)))
        else free_clusters_loop m bmp_lba (unat (m_count_of_clusters m)) first))"

primrec priv_exfat_drop_set :: "'w mount \<Rightarrow> exfat_setpos list \<Rightarrow> ('w fs, unit) op" where
  "priv_exfat_drop_set m [] = returnE ()"
| "priv_exfat_drop_set m (p # ps) =
     bindE (withC \<lparr>ec_cluster = sp_cluster p, ec_entry_in_cluster = sp_index p, ec_scanned = 0, ec_contig_end = 0\<rparr>
       (priv_exfat_next_entry m)) (\<lambda>entry.
     bindE (internal_exfat_put_entry m p (entry[0 := entry ! 0 AND NOT k_exfat_inuse_bit])) (\<lambda>_.
       priv_exfat_drop_set m ps))"

end
