(* ===== verification/Exfat_File.thy ===== *)
theory Exfat_File
  imports Exfat_Dir
begin

text \<open>
  exFAT files: the growth and the writing of a stream and the flush of its entry set
  (\<^verbatim>\<open>ra8_fs_fat_exfat_stream.c\<close>), opening for reading (\<^verbatim>\<open>ra8_fs_fat_exfat_read.c\<close>) and for writing
  (\<^verbatim>\<open>ra8_fs_exfat_openw_abi.zig\<close>).
\<close>

section \<open>Growing a file\<close>

definition internal_exfat_link_cluster :: "nat \<Rightarrow> u32 \<Rightarrow> ('w fs, unit) op" where
  "internal_exfat_link_cluster i next' =
     bindE (file_mountE i) (\<lambda>m.
     bindE (fileE i) (\<lambda>f.
       if f_alloc_clusters f = 0 then returnE ()
       else if f_no_fat_chain f \<and> next' = f_tail_cluster f + 1 then returnE ()
       else bindE (if f_no_fat_chain f then
                     bindE (internal_exfat_materialize_run m (f_first_cluster f) (f_alloc_clusters f)
                         (f_tail_cluster f) next') (\<lambda>_.
                       set_file i (\<lambda>f. f\<lparr>f_no_fat_chain := False\<rparr>))
                   else priv_fat_set m (f_tail_cluster f) next') (\<lambda>_.
         priv_fat_set m next' (priv_eoc_write m))))"

definition internal_exfat_grow_one :: "nat \<Rightarrow> ('w fs, unit) op" where
  "internal_exfat_grow_one i =
     bindE (file_mountE i) (\<lambda>m.
     bindE (priv_exfat_bitmap_lba m) (\<lambda>bmp_lba.
     bindE (fileE i) (\<lambda>f.
     bindE (internal_exfat_pick_cluster m bmp_lba (if f_alloc_clusters f > 0 then f_tail_cluster f + 1 else 0)) (\<lambda>next'.
     bindE (priv_exfat_bitmap_mark m bmp_lba next' 1) (\<lambda>_.
     bindE (modifyE (priv_alloc_hint_set m (next' + 1))) (\<lambda>_.
     bindE (internal_exfat_link_cluster i next') (\<lambda>_.
       set_file i (\<lambda>f. let f1 = (if f_alloc_clusters f = 0
             then f\<lparr>f_first_cluster := next', f_cur_cluster := next', f_walk_cache_idx := 0, f_walk_cache_cluster := next'\<rparr>
             else f)
         in f1\<lparr>f_tail_cluster := next', f_alloc_clusters := f_alloc_clusters f1 + 1\<rparr>))))))))"

text \<open>Every round adds a cluster, so \<open>need\<close> rounds are enough.\<close>

primrec ensure_clusters_loop :: "nat \<Rightarrow> u32 \<Rightarrow> nat \<Rightarrow> ('w fs, unit) op" where
  "ensure_clusters_loop i need 0 = bindE (fileE i) (\<lambda>f. if f_alloc_clusters f < need then throwE out_of_fuel else returnE ())"
| "ensure_clusters_loop i need (Suc n) =
     bindE (fileE i) (\<lambda>f.
       if f_alloc_clusters f < need then bindE (internal_exfat_grow_one i) (\<lambda>_. ensure_clusters_loop i need n)
       else returnE ())"

definition priv_exfat_ensure_clusters :: "nat \<Rightarrow> u32 \<Rightarrow> ('w fs, unit) op" where
  "priv_exfat_ensure_clusters i need = ensure_clusters_loop i need (unat need)"

section \<open>Writing a stream\<close>

primrec cluster_at_loop :: "'w mount \<Rightarrow> nat \<Rightarrow> u32 \<Rightarrow> ('w fs, u32) op" where
  "cluster_at_loop m 0 cur = returnE cur"
| "cluster_at_loop m (Suc hops) cur =
     bindE (priv_fat_get m cur) (\<lambda>nxt.
       if priv_is_eoc m nxt then throwE k_ra8_err_invalid_state else cluster_at_loop m hops nxt)"

definition internal_exfat_cluster_at :: "nat \<Rightarrow> u32 \<Rightarrow> ('w fs, u32) op" where
  "internal_exfat_cluster_at i idx =
     bindE (file_mountE i) (\<lambda>m.
     bindE (fileE i) (\<lambda>f.
       if f_no_fat_chain f then returnE (f_first_cluster f + idx)
       else
         let (from, hops) = (if f_walk_cache_cluster f \<ge> k_cluster_first_data \<and> idx \<ge> f_walk_cache_idx f
               then (f_walk_cache_cluster f, idx - f_walk_cache_idx f) else (f_first_cluster f, idx))
         in bindE (cluster_at_loop m (unat hops) from) (\<lambda>cur.
            bindE (set_file i (\<lambda>f. f\<lparr>f_walk_cache_idx := idx, f_walk_cache_cluster := cur\<rparr>)) (\<lambda>_. returnE cur))))"

text \<open>Where the byte at \<open>pos\<close> is stored: sector, offset in it, room to its end.\<close>

definition internal_exfat_slice_at :: "nat \<Rightarrow> u64 \<Rightarrow> ('w fs, u64 \<times> u32 \<times> u32) op" where
  "internal_exfat_slice_at i pos =
     bindE (file_mountE i) (\<lambda>m.
     bindE (cluster_bytesE m) (\<lambda>cb.
       let cbytes = ucast cb :: u64; idx = ucast (pos div cbytes) :: u32 in
       bindE (priv_exfat_ensure_clusters i (idx + 1)) (\<lambda>_.
       bindE (internal_exfat_cluster_at i idx) (\<lambda>cur.
       bindE (set_file i (\<lambda>f. f\<lparr>f_cur_cluster := cur\<rparr>)) (\<lambda>_.
         let in_cluster = ucast (pos mod cbytes) :: u32; off = in_cluster mod priv_bps m in
         returnE (priv_cluster_to_lba m cur + ucast (in_cluster div priv_bps m), off, priv_bps m - off))))))"

text \<open>Every round of the two loops stores at least one byte.\<close>

primrec close_gap_loop :: "nat \<Rightarrow> nat \<Rightarrow> ('w fs, unit) op" where
  "close_gap_loop i 0 = bindE (fileE i) (\<lambda>f. if f_valid_bytes f < f_offset f then throwE out_of_fuel else returnE ())"
| "close_gap_loop i (Suc n) =
     bindE (fileE i) (\<lambda>f.
       if f_valid_bytes f < f_offset f then
         bindE (internal_exfat_slice_at i (f_valid_bytes f)) (\<lambda>(lba, off, room).
           let gap = f_offset f - f_valid_bytes f;
               k = (if gap < ucast room then ucast gap else room)
           in bindE (file_mountE i) (\<lambda>m.
              bindE (priv_write_into_sector m lba (unat off) (replicate (unat k) 0)) (\<lambda>_.
              bindE (set_file i (\<lambda>f. f\<lparr>f_valid_bytes := f_valid_bytes f + ucast k\<rparr>)) (\<lambda>_. close_gap_loop i n))))
       else returnE ())"

definition internal_exfat_close_gap :: "nat \<Rightarrow> ('w fs, unit) op" where
  "internal_exfat_close_gap i = bindE (fileE i) (\<lambda>f. close_gap_loop i (unat (f_offset f - f_valid_bytes f)))"

primrec exfat_write_loop :: "nat \<Rightarrow> nat \<Rightarrow> bytes \<Rightarrow> ('w fs, unit) op" where
  "exfat_write_loop i 0 rest = (if rest \<noteq> [] then throwE out_of_fuel else returnE ())"
| "exfat_write_loop i (Suc n) rest =
     (if rest \<noteq> [] then
        bindE (fileE i) (\<lambda>f.
        bindE (internal_exfat_slice_at i (f_offset f)) (\<lambda>(lba, off, room).
          let put = min (length rest) (unat room) in
          bindE (file_mountE i) (\<lambda>m.
          bindE (priv_write_into_sector m lba (unat off) (take put rest)) (\<lambda>_.
          bindE (set_file i (\<lambda>f. let o' = f_offset f + of_nat put in f\<lparr>f_offset := o',
              f_valid_bytes := (if o' > f_valid_bytes f then o' else f_valid_bytes f),
              f_size_bytes := (if o' > f_size_bytes f then o' else f_size_bytes f)\<rparr>)) (\<lambda>_.
            exfat_write_loop i n (drop put rest))))))
      else returnE ())"

definition priv_exfat_write_stream :: "nat \<Rightarrow> bytes \<Rightarrow> ('w fs, unit) op" where
  "priv_exfat_write_stream i buf =
     bindE (internal_exfat_close_gap i) (\<lambda>_. exfat_write_loop i (length buf) buf)"

section \<open>The entry set of a file\<close>

definition internal_exfat_patch_stream :: "fs_file \<Rightarrow> bytes \<Rightarrow> nat \<Rightarrow> bytes" where
  "internal_exfat_patch_stream f set' s =
     (let flags = (if f_alloc_clusters f > 0 \<and> f_no_fat_chain f then k_exfat_secflag_alloc else k_exfat_secflag_poss);
          first = (if f_alloc_clusters f > 0 then f_first_cluster f else 0)
      in priv_wr64 (priv_wr64 (priv_wr32 (set'[s + k_exfat_strm_off_flags := flags])
           (s + k_exfat_strm_off_clus) first) (s + k_exfat_off_strm_valid) (f_valid_bytes f))
           (s + k_exfat_strm_off_dlen) (f_size_bytes f))"

text \<open>
  The entries of the set and the positions of the first two, which are taken before the cursor reads the entry.
  More than seven entries do not fit the buffer of the C.
\<close>

primrec gather_set_loop :: "'w mount \<Rightarrow> nat \<Rightarrow> bytes \<Rightarrow> exfat_setpos list \<Rightarrow> ('w, bytes \<times> exfat_setpos list) cop" where
  "gather_set_loop m 0 set' pos = returnE (set', pos)"
| "gather_set_loop m (Suc n) set' pos =
     bindE (askC (\<lambda>c. \<lparr>sp_cluster = ec_cluster c, sp_index = ec_entry_in_cluster c\<rparr>)) (\<lambda>here.
     bindE (priv_exfat_next_entry m) (\<lambda>e.
       if length set' \<ge> k_exfat_set_writable * k_exfat_entry_bytes then throwE undefined_behaviour
       else gather_set_loop m n (set' @ e) (pos @ [here])))"

definition internal_exfat_gather_set :: "'w mount \<Rightarrow> fs_file \<Rightarrow> ('w fs, bytes \<times> exfat_setpos \<times> exfat_setpos) op" where
  "internal_exfat_gather_set m f =
     bindE (withC \<lparr>ec_cluster = f_entry_set_cluster f, ec_entry_in_cluster = f_entry_set_index f, ec_scanned = 0,
         ec_contig_end = 0\<rparr> (gather_set_loop m (unat (f_entry_set_count f)) [] [])) (\<lambda>(set', pos).
       let at' = (\<lambda>k. if k < length pos then pos ! k else \<lparr>sp_cluster = 0, sp_index = 0\<rparr>)
       in returnE (set', at' 0, at' 1))"

text \<open>\<open>set\<close> is a buffer of seven entries, of which the first \<open>entry_set_count\<close> are read.\<close>

definition priv_exfat_flush_set :: "nat \<Rightarrow> ('w fs, unit) op" where
  "priv_exfat_flush_set i =
     bindE (file_mountE i) (\<lambda>m.
     bindE (fileE i) (\<lambda>f.
     bindE (internal_exfat_gather_set m f) (\<lambda>(read, at_file, at_stream).
       let n = length read; s = k_exfat_entry_bytes;
           set0 = read @ replicate (k_exfat_set_writable * k_exfat_entry_bytes - n) 0
       in bindE (priv_exfat_file_stamp_write set0) (\<lambda>set1.
         let set2 = set1[k_exfat_off_file_attr := set1 ! k_exfat_off_file_attr OR k_exfat_attr_archive];
             set3 = internal_exfat_patch_stream f set2 s;
             set4 = priv_wr16 set3 k_exfat_off_file_csum (priv_exfat_set_checksum (take n set3))
         in bindE (priv_exfat_write_dir_set m (sp_cluster at_file) (sp_index at_file) (take s set4)) (\<lambda>_.
              priv_exfat_write_dir_set m (sp_cluster at_stream) (sp_index at_stream) (take s (drop s set4)))))))"

section \<open>Opening for reading\<close>

definition internal_exfat_seed_read :: "nat \<Rightarrow> bytes \<Rightarrow> fs_file \<Rightarrow> fs_file" where
  "internal_exfat_seed_read h strm f =
     (let first = priv_rd32 strm k_exfat_strm_off_clus in
      \<lparr>f_mount = Some h, f_first_cluster = first, f_cur_cluster = first, f_walk_cache_idx = 0,
       f_walk_cache_cluster = first, f_size_bytes = priv_rd64 strm k_exfat_strm_off_dlen, f_offset = 0,
       f_dir_entry_lba = 0, f_dir_entry_idx = 0, f_valid_bytes = priv_rd64 strm k_exfat_off_strm_valid,
       f_entry_set_cluster = 0, f_entry_set_index = 0, f_entry_set_count = 0, f_alloc_clusters = 0, f_tail_cluster = 0,
       f_mode = k_ra8_fs_mode_read, f_in_use = True,
       f_no_fat_chain = strm ! k_exfat_strm_off_flags AND k_exfat_secflag_no_fat \<noteq> 0, f_dirty = False\<rparr>)"

section \<open>Opening for writing\<close>

text \<open>Zig arithmetic that is checked: a result that does not fit 32 bits.\<close>

definition zig_u32 :: "nat \<Rightarrow> ('s, u32) op" where
  "zig_u32 n = (if n < 2 ^ 32 then returnE (of_nat n) else throwE undefined_behaviour)"

definition openw_seed :: "nat \<Rightarrow> exfat_setpos \<Rightarrow> u32 \<Rightarrow> fs_mode \<Rightarrow> fs_file \<Rightarrow> fs_file" where
  "openw_seed h head count mode f =
     \<lparr>f_mount = Some h, f_first_cluster = 0, f_cur_cluster = 0, f_walk_cache_idx = 0, f_walk_cache_cluster = 0,
      f_size_bytes = 0, f_offset = 0, f_dir_entry_lba = 0, f_dir_entry_idx = 0, f_valid_bytes = 0,
      f_entry_set_cluster = sp_cluster head, f_entry_set_index = sp_index head, f_entry_set_count = count,
      f_alloc_clusters = 0, f_tail_cluster = 0, f_mode = mode, f_in_use = True, f_no_fat_chain = True, f_dirty = False\<rparr>"

definition openw_release :: "nat \<Rightarrow> ('w fs, unit) op" where
  "openw_release i = set_file i (\<lambda>f. f\<lparr>f_in_use := False, f_mount := None\<rparr>)"

primrec survey_loop :: "'w mount \<Rightarrow> nat \<Rightarrow> u32 \<Rightarrow> nat \<Rightarrow> ('w fs, nat \<times> u32) op" where
  "survey_loop m 0 clus owned = returnE (owned, clus)"
| "survey_loop m (Suc guard) clus owned =
     bindE (priv_fat_get m clus) (\<lambda>nxt.
       if priv_is_eoc m nxt then returnE (owned, clus)
       else if nxt < k_cluster_first_data then throwE k_ra8_err_protocol_error
       else survey_loop m guard nxt (owned + 1))"

definition surveyAlloc :: "nat \<Rightarrow> ('w fs, unit) op" where
  "surveyAlloc i =
     bindE (file_mountE i) (\<lambda>m.
     bindE (fileE i) (\<lambda>f.
       let cbytes = unat (priv_cluster_bytes m) in
       if f_first_cluster f < k_cluster_first_data \<or> f_size_bytes f = 0 then
         set_file i (\<lambda>f. f\<lparr>f_first_cluster := 0, f_alloc_clusters := 0, f_tail_cluster := 0, f_no_fat_chain := True\<rparr>)
       else if f_no_fat_chain f then
         (if cbytes = 0 \<or> unat (f_size_bytes f) + cbytes \<ge> 2 ^ 64 then throwE undefined_behaviour
          else bindE (zig_u32 ((unat (f_size_bytes f) + cbytes - 1) div cbytes)) (\<lambda>alloc.
            bindE (set_file i (\<lambda>f. f\<lparr>f_alloc_clusters := alloc\<rparr>)) (\<lambda>_.
            bindE (zig_u32 (unat (f_first_cluster f) + unat alloc)) (\<lambda>past.
              set_file i (\<lambda>f. f\<lparr>f_tail_cluster := past - 1\<rparr>)))))
       else bindE (survey_loop m (unat (m_count_of_clusters m)) (f_first_cluster f) 1) (\<lambda>(owned, clus).
         bindE (zig_u32 owned) (\<lambda>alloc.
           set_file i (\<lambda>f. f\<lparr>f_alloc_clusters := alloc, f_tail_cluster := clus\<rparr>)))))"

definition openw_truncate :: "nat \<Rightarrow> bytes \<Rightarrow> ('w fs, unit) op" where
  "openw_truncate i strm =
     bindE (file_mountE i) (\<lambda>m.
     bindE (priv_exfat_free_clusters m strm) (\<lambda>_.
     bindE (set_file i (\<lambda>f. f\<lparr>f_first_cluster := 0, f_cur_cluster := 0, f_walk_cache_idx := 0,
         f_walk_cache_cluster := 0, f_size_bytes := 0, f_valid_bytes := 0, f_offset := 0, f_alloc_clusters := 0,
         f_tail_cluster := 0, f_no_fat_chain := True\<rparr>)) (\<lambda>_.
       priv_exfat_flush_set i)))"

definition checkFound :: "nat \<Rightarrow> bytes \<Rightarrow> ra8_err + unit" where
  "checkFound count file_e =
     (let attr = file_e ! k_exfat_off_file_attr in
      if attr AND k_exfat_attr_directory \<noteq> 0 then Inl k_ra8_err_invalid_arg
      else if attr AND k_exfat_attr_read_only \<noteq> 0 then Inl k_ra8_err_access_denied
      else if count < k_exfat_set_min_entries then Inl k_ra8_err_protocol_error
      else if count > k_exfat_set_writable then Inl k_ra8_err_not_supported
      else Inr ())"

definition openFound :: "nat \<Rightarrow> fs_mode \<Rightarrow> exfat_found \<Rightarrow> ('w fs, nat) op" where
  "openFound h mode x =
     (let count = length (xf_pos x); strm = xf_strm x in
      bindE (returnR (checkFound count (xf_file x))) (\<lambda>_.
      bindE (getE priv_alloc_file_slot) (\<lambda>slot. case slot of None \<Rightarrow> throwE k_ra8_err_no_mem
        | Some i \<Rightarrow>
          bindE (set_file i (\<lambda>f. (openw_seed h (hd (xf_pos x)) (of_nat count) mode f)
              \<lparr>f_first_cluster := priv_rd32 strm k_exfat_strm_off_clus,
               f_size_bytes := priv_rd64 strm k_exfat_strm_off_dlen,
               f_valid_bytes := min (priv_rd64 strm k_exfat_off_strm_valid) (priv_rd64 strm k_exfat_strm_off_dlen),
               f_no_fat_chain := strm ! k_exfat_strm_off_flags AND k_exfat_secflag_no_fat \<noteq> 0\<rparr>)) (\<lambda>_.
          attemptE (if mode = k_ra8_fs_mode_write then openw_truncate i strm
                    else attemptE (surveyAlloc i) (\<lambda>e.
                      bindE (set_file i (\<lambda>f. f\<lparr>f_cur_cluster := f_first_cluster f,
                          f_walk_cache_cluster := f_first_cluster f, f_offset := f_size_bytes f\<rparr>)) (\<lambda>_. returnR e))) (\<lambda>r.
            case r of Inl e \<Rightarrow> bindE (openw_release i) (\<lambda>_. throwE e) | Inr _ \<Rightarrow> returnE i)))))"

definition openCreated :: "nat \<Rightarrow> exfat_dir \<Rightarrow> u16 list \<Rightarrow> fs_mode \<Rightarrow> ('w fs, nat) op" where
  "openCreated h dir name mode =
     bindE (mountE h) (\<lambda>m.
     bindE (getE priv_alloc_file_slot) (\<lambda>slot. case slot of None \<Rightarrow> throwE k_ra8_err_no_mem
       | Some i \<Rightarrow>
         attemptE (priv_exfat_link m dir name) (\<lambda>r. case r of
           Inl e \<Rightarrow> bindE (openw_release i) (\<lambda>_. throwE e)
         | Inr (head, count) \<Rightarrow>
             bindE (set_file i (openw_seed h head count mode)) (\<lambda>_. returnE i))))"

definition priv_exfat_open_write :: "nat \<Rightarrow> bytes \<Rightarrow> fs_mode \<Rightarrow> ('w fs, nat) op" where
  "priv_exfat_open_write h path mode =
     bindE (mountE h) (\<lambda>m.
     bindE (priv_exfat_resolve_parent m path) (\<lambda>(parent, leaf).
       case priv_exfat_name_to_units m leaf of
         Inl e \<Rightarrow> throwE (if e = k_ra8_err_no_mem then k_ra8_err_invalid_arg else e)
       | Inr name \<Rightarrow>
           if name = [] then throwE k_ra8_err_invalid_arg
           else attemptE (priv_exfat_find_set m parent leaf) (\<lambda>r. case r of
               Inr x \<Rightarrow> openFound h mode x
             | Inl e \<Rightarrow> if e \<noteq> k_ra8_err_not_found then throwE e else openCreated h parent name mode)))"

definition priv_exfat_open :: "nat \<Rightarrow> bytes \<Rightarrow> fs_mode \<Rightarrow> ('w fs, nat) op" where
  "priv_exfat_open h path mode =
     (if mode \<noteq> k_ra8_fs_mode_read then priv_exfat_open_write h path mode
      else bindE (mountE h) (\<lambda>m.
        bindE (priv_exfat_lookup m path) (\<lambda>(strm, attr).
          if attr AND k_exfat_attr_directory \<noteq> 0 then throwE k_ra8_err_invalid_arg
          else bindE (getE priv_alloc_file_slot) (\<lambda>slot. case slot of None \<Rightarrow> throwE k_ra8_err_no_mem
            | Some i \<Rightarrow> bindE (set_file i (internal_exfat_seed_read h strm)) (\<lambda>_. returnE i)))))"

end
