(* ===== verification/Fat_File.thy ===== *)
theory Fat_File
  imports Fat_Dir_Write Exfat_File
begin

text \<open>
  \<^verbatim>\<open>ra8_fs_fat_file.c\<close>: the directory-entry accessors, path resolution, and opening and closing files.
  A mount handle is the index of the mount in \<open>s_mounts\<close>, a file handle the index of the file in
  \<open>s_files\<close>; a null pointer is \<open>None\<close>. Paths are C strings, modelled by the bytes before the terminator.

  The operations dispatch on the volume type to the routines of \<open>Exfat_File\<close>.
\<close>

abbreviation (input) k_lfn_utf8_cap :: nat where "k_lfn_utf8_cap \<equiv> 742"
abbreviation (input) k_path_max_depth :: nat where "k_path_max_depth \<equiv> 32"

section \<open>Directory entries\<close>

definition priv_entry_first_cluster :: "bytes \<Rightarrow> u32" where
  "priv_entry_first_cluster entry =
     push_bit 16 (ucast (priv_rd16 entry k_dir_off_fst_clus_hi)) OR ucast (priv_rd16 entry k_dir_off_fst_clus_lo)"

definition priv_entry_set_cluster_size :: "bytes \<Rightarrow> nat \<Rightarrow> u32 \<Rightarrow> u32 \<Rightarrow> bytes" where
  "priv_entry_set_cluster_size buf off cluster nbytes =
     priv_wr32 (priv_wr16 (priv_wr16 buf (off + k_dir_off_fst_clus_hi) (ucast (drop_bit 16 cluster AND 0xFFFF)))
       (off + k_dir_off_fst_clus_lo) (ucast (cluster AND 0xFFFF))) (off + k_dir_off_file_size) nbytes"

definition priv_fat_entry_apply_attr :: "bytes \<Rightarrow> nat \<Rightarrow> u8 \<Rightarrow> u8 \<Rightarrow> bytes" where
  "priv_fat_entry_apply_attr buf off set_mask clear_mask =
     buf[off + k_dir_off_attr := (buf ! (off + k_dir_off_attr) AND NOT clear_mask) OR set_mask]"

section \<open>Opening\<close>

definition internal_truncate_existing :: "'w mount \<Rightarrow> nat \<Rightarrow> u64 \<Rightarrow> nat \<Rightarrow> ('w fs, unit) op" where
  "internal_truncate_existing m i lba off =
     bindE (fileE i) (\<lambda>f.
     bindE (whenE (f_first_cluster f \<ge> k_cluster_first_data) (priv_free_chain m (f_first_cluster f))) (\<lambda>_.
     bindE (set_file i (\<lambda>f. f\<lparr>f_first_cluster := 0, f_cur_cluster := 0, f_walk_cache_idx := 0,
         f_walk_cache_cluster := 0, f_size_bytes := 0, f_offset := 0\<rparr>)) (\<lambda>_.
     bindE (priv_read_sector m lba) (\<lambda>buf.
     bindE (priv_fat_entry_stamp_write (priv_entry_set_cluster_size buf off 0 0) off) (\<lambda>buf1.
       priv_write_sector m lba (priv_fat_entry_apply_attr buf1 off k_ra8_fs_attr_archive 0))))))"

definition internal_open_existing :: "nat \<Rightarrow> dir_hit \<Rightarrow> fs_mode \<Rightarrow> ('w fs, nat) op" where
  "internal_open_existing h hit mode =
     (let entry = hit_entry hit in
      if entry ! k_dir_off_attr AND k_ra8_fs_attr_directory \<noteq> 0 then throwE k_ra8_err_invalid_arg
      else if mode \<noteq> k_ra8_fs_mode_read \<and> entry ! k_dir_off_attr AND k_ra8_fs_attr_read_only \<noteq> 0
      then throwE k_ra8_err_access_denied
      else bindE (getE priv_alloc_file_slot) (\<lambda>slot. case slot of None \<Rightarrow> throwE k_ra8_err_no_mem
        | Some i \<Rightarrow>
          bindE (set_file i (\<lambda>f. f\<lparr>f_mount := Some h, f_first_cluster := priv_entry_first_cluster entry,
              f_cur_cluster := priv_entry_first_cluster entry, f_walk_cache_idx := 0,
              f_walk_cache_cluster := priv_entry_first_cluster entry,
              f_size_bytes := ucast (priv_rd32 entry k_dir_off_file_size), f_dir_entry_lba := hit_lba hit,
              f_dir_entry_idx := of_nat (hit_off hit), f_mode := mode, f_no_fat_chain := False,
              f_dirty := False, f_in_use := True\<rparr>)) (\<lambda>_.
          if mode = k_ra8_fs_mode_write then
            bindE (mountE h) (\<lambda>m.
            attemptE (internal_truncate_existing m i (hit_lba hit) (hit_off hit)) (\<lambda>r. case r of
              Inl err \<Rightarrow> bindE (set_file i (\<lambda>f. f\<lparr>f_in_use := False\<rparr>)) (\<lambda>_. throwE err)
            | Inr _ \<Rightarrow> returnE i))
          else if mode = k_ra8_fs_mode_append then
            bindE (set_file i (\<lambda>f. f\<lparr>f_offset := f_size_bytes f\<rparr>)) (\<lambda>_. returnE i)
          else bindE (set_file i (\<lambda>f. f\<lparr>f_offset := 0\<rparr>)) (\<lambda>_. returnE i))))"

definition internal_init_new_file :: "nat \<Rightarrow> nat \<Rightarrow> fs_mode \<Rightarrow> u64 \<Rightarrow> nat \<Rightarrow> ('w fs, unit) op" where
  "internal_init_new_file i h mode free_lba free_off =
     set_file i (\<lambda>f. f\<lparr>f_mount := Some h, f_first_cluster := 0, f_cur_cluster := 0, f_walk_cache_idx := 0,
       f_walk_cache_cluster := 0, f_size_bytes := 0, f_offset := 0, f_dir_entry_lba := free_lba,
       f_dir_entry_idx := of_nat free_off, f_mode := mode, f_no_fat_chain := False, f_dirty := False,
       f_in_use := True\<rparr>)"

section \<open>Paths\<close>

definition internal_enter_subdir :: "'w mount \<Rightarrow> dir_loc \<Rightarrow> bytes \<Rightarrow> ('w fs, dir_loc) op" where
  "internal_enter_subdir m cur name =
     (if length name \<ge> k_lfn_utf8_cap then throwE k_ra8_err_invalid_arg
      else bindE (priv_dir_lookup_any m cur name) (\<lambda>hit.
        if hit_entry hit ! k_dir_off_attr AND k_ra8_fs_attr_directory = 0 then throwE k_ra8_err_invalid_arg
        else let cl = priv_entry_first_cluster (hit_entry hit) in
          if cl < k_cluster_first_data then throwE k_ra8_err_protocol_error
          else returnE \<lparr>loc_is_root = False, loc_cluster = cl\<rparr>))"

text \<open>\<open>depth\<close> is the number of components that may still be entered.\<close>

primrec resolve_loop :: "'w mount \<Rightarrow> nat \<Rightarrow> dir_loc \<Rightarrow> bytes \<Rightarrow> ('w fs, dir_loc \<times> bytes) op" where
  "resolve_loop m 0 cur p = throwE k_ra8_err_invalid_arg"
| "resolve_loop m (Suc depth) cur p =
     (let rest = dropWhile (\<lambda>c. c \<noteq> chr_slash) p in
      if rest = [] then returnE (cur, p)
      else bindE (internal_enter_subdir m cur (takeWhile (\<lambda>c. c \<noteq> chr_slash) p)) (\<lambda>nxt.
        resolve_loop m depth nxt (dropWhile (\<lambda>c. c = chr_slash) rest)))"

definition priv_resolve_parent :: "'w mount \<Rightarrow> bytes \<Rightarrow> ('w fs, dir_loc \<times> bytes) op" where
  "priv_resolve_parent m path =
     resolve_loop m k_path_max_depth \<lparr>loc_is_root = True, loc_cluster = 0\<rparr>
       (dropWhile (\<lambda>c. c = chr_slash) path)"

definition priv_resolve_dir :: "'w mount \<Rightarrow> bytes \<Rightarrow> ('w fs, dir_loc) op" where
  "priv_resolve_dir m path =
     (if dropWhile (\<lambda>c. c = chr_slash) path = [] then returnE \<lparr>loc_is_root = True, loc_cluster = 0\<rparr>
      else bindE (priv_resolve_parent m path) (\<lambda>(parent, leaf).
        if leaf = [] then returnE parent else internal_enter_subdir m parent leaf))"

section \<open>Creating, opening and closing\<close>

definition internal_create_new :: "nat \<Rightarrow> dir_loc \<Rightarrow> bytes \<Rightarrow> fs_mode \<Rightarrow> ('w fs, nat) op" where
  "internal_create_new h parent leaf mode =
     bindE (mountE h) (\<lambda>m.
     bindE (priv_dir_reserve m parent leaf) (\<lambda>plan.
     bindE (getE priv_alloc_file_slot) (\<lambda>slot. case slot of None \<Rightarrow> throwE k_ra8_err_no_mem
       | Some i \<Rightarrow>
         let tmpl = (replicate k_ra8_fs_dir_entry_bytes 0)[k_dir_off_attr := k_ra8_fs_attr_archive] in
         bindE (priv_fat_entry_stamp_create (priv_entry_set_cluster_size tmpl 0 0 0) 0) (\<lambda>tmpl1.
         bindE (priv_dir_commit m plan tmpl1) (\<lambda>(lba, off).
         bindE (internal_init_new_file i h mode lba off) (\<lambda>_. returnE i))))))"

definition priv_open_locked ::
    "nat option \<Rightarrow> bytes option \<Rightarrow> fs_mode \<Rightarrow> ('w fs, nat) op" where
  "priv_open_locked handle path mode =
     (case (handle, path) of
        (Some h, Some p) \<Rightarrow> bindE (mountE h) (\<lambda>m.
          if \<not> m_in_use m then throwE k_ra8_err_invalid_state
          else if m_type m = k_ra8_fs_type_exfat then priv_exfat_open h p mode
          else bindE (priv_resolve_parent m p) (\<lambda>(parent, leaf).
            attemptE (priv_dir_lookup_any m parent leaf) (\<lambda>r. case r of
              Inr hit \<Rightarrow> internal_open_existing h hit mode
            | Inl err \<Rightarrow>
                if err \<noteq> k_ra8_err_not_found then throwE err
                else if mode = k_ra8_fs_mode_read then throwE k_ra8_err_not_found
                else internal_create_new h parent leaf mode)))
      | _ \<Rightarrow> throwE k_ra8_err_null_ptr)"

definition internal_close_stamp :: "nat \<Rightarrow> ('w fs, unit) op" where
  "internal_close_stamp i =
     bindE (file_mountE i) (\<lambda>m.
       if m_type m = k_ra8_fs_type_exfat then priv_exfat_flush_set i
       else bindE (fileE i) (\<lambda>f.
         bindE (priv_read_sector m (f_dir_entry_lba f)) (\<lambda>sec.
         bindE (priv_fat_entry_stamp_write sec (unat (f_dir_entry_idx f))) (\<lambda>sec1.
         bindE (priv_write_sector m (f_dir_entry_lba f) sec1) (\<lambda>_. priv_fsinfo_flush m)))))"

definition priv_close_locked :: "nat option \<Rightarrow> ('w fs, unit) op" where
  "priv_close_locked file =
     (case file of None \<Rightarrow> throwE k_ra8_err_null_ptr
      | Some i \<Rightarrow>
          bindE (getE (\<lambda>s. s)) (\<lambda>s0.
            let f = s_files s0 ! i;
                live = (case f_mount f of None \<Rightarrow> False | Some h \<Rightarrow> m_in_use (s_mounts s0 ! h))
            in attemptE (whenE (f_dirty f \<and> f_in_use f \<and> live) (internal_close_stamp i)) (\<lambda>err.
               bindE (set_file i (\<lambda>f. f\<lparr>f_dirty := False, f_in_use := False, f_mount := None\<rparr>)) (\<lambda>_.
                 returnR err))))"

definition ra8_fs_open ::
    "nat option \<Rightarrow> bytes option \<Rightarrow> fs_mode \<Rightarrow> ('w fs, nat) op" where
  "ra8_fs_open handle path mode = locked (priv_open_locked handle path mode)"

definition ra8_fs_close :: "nat option \<Rightarrow> ('w fs, unit) op" where
  "ra8_fs_close file = locked (priv_close_locked file)"

end
