(* ===== verification/Fat_File_Io.thy ===== *)
theory Fat_File_Io
  imports Fat_File
begin

text \<open>
  \<^verbatim>\<open>ra8_fs_fat_fileio.c\<close>: reading, writing and seeking in an open file. The byte buffer of the caller
  is a value: a read returns the bytes it stored. The two transfer loops move at least one byte per
  iteration; they get as much fuel as there are bytes to move, and \<open>File_Read\<close> shows that a read
  never needs more.
\<close>

section \<open>Reading\<close>

text \<open>A chunk is the pair of the bytes copied and \<open>out_take\<close>, their number.\<close>

definition internal_read_one_chunk :: "nat \<Rightarrow> u32 \<Rightarrow> ('w fs, bytes \<times> u32) op" where
  "internal_read_one_chunk i remaining =
     bindE (file_mountE i) (\<lambda>m.
     bindE (fileE i) (\<lambda>f.
     bindE (cluster_bytesE m) (\<lambda>cluster_bytes.
       let cluster_idx_now = ucast (f_offset f div ucast cluster_bytes) :: u32
       in bindE (if f_no_fat_chain f then returnE (f_first_cluster f + cluster_idx_now)
                 else
                   let (walk_from, walk_n) =
                         (if f_walk_cache_cluster f \<ge> k_cluster_first_data \<and> cluster_idx_now \<ge> f_walk_cache_idx f
                          then (f_walk_cache_cluster f, cluster_idx_now - f_walk_cache_idx f)
                          else (f_first_cluster f, cluster_idx_now))
                   in bindE (internal_skip_clusters m walk_from walk_n) (\<lambda>target.
                     bindE (set_file i (\<lambda>f. f\<lparr>f_walk_cache_idx := cluster_idx_now,
                         f_walk_cache_cluster := target\<rparr>)) (\<lambda>_. returnE target))) (\<lambda>target.
          bindE (set_file i (\<lambda>f. f\<lparr>f_cur_cluster := target\<rparr>)) (\<lambda>_.
          let off_in_cluster = ucast (f_offset f mod ucast cluster_bytes) :: u32;
              sector_in_cluster = off_in_cluster div priv_bps m;
              off_in_sector = off_in_cluster mod priv_bps m;
              lba = priv_cluster_to_lba m target + ucast sector_in_cluster
          in bindE (priv_read_sector m lba) (\<lambda>sec.
            let take0 = priv_bps m - off_in_sector;
                take' = (if take0 > remaining then remaining else take0)
            in returnE (take (unat take') (drop (unat off_in_sector) sec), take')))))))"

definition internal_read_span :: "nat \<Rightarrow> u32 \<Rightarrow> ('w fs, bytes \<times> u32) op" where
  "internal_read_span i remaining =
     bindE (file_mountE i) (\<lambda>m.
     bindE (fileE i) (\<lambda>f.
       let valid' = (if m_type m = k_ra8_fs_type_exfat then f_valid_bytes f else f_size_bytes f) in
       if f_offset f \<ge> valid' then returnE (replicate (unat remaining) 0, remaining)
       else let cap = valid' - f_offset f;
                want = (if ucast remaining > cap then ucast cap else remaining)
         in internal_read_one_chunk i want))"

text \<open>The bytes already in the caller's buffer are \<open>acc\<close>.\<close>

primrec read_loop :: "nat \<Rightarrow> nat \<Rightarrow> u32 \<Rightarrow> bytes \<Rightarrow> ('w fs, bytes) op" where
  "read_loop 0 i remaining acc = (if remaining > 0 then throwE out_of_fuel else returnE acc)"
| "read_loop (Suc n) i remaining acc =
     (if remaining > 0 then
        bindE (internal_read_span i remaining) (\<lambda>(chunk, taken).
        bindE (set_file i (\<lambda>f. f\<lparr>f_offset := f_offset f + ucast taken\<rparr>)) (\<lambda>_.
          read_loop n i (remaining - taken) (acc @ chunk)))
      else returnE acc)"

definition internal_read_locked :: "nat option \<Rightarrow> u32 \<Rightarrow> ('w fs, bytes) op" where
  "internal_read_locked file max_len =
     (case file of None \<Rightarrow> throwE k_ra8_err_null_ptr
      | Some i \<Rightarrow> bindE (fileE i) (\<lambda>f.
          if \<not> f_in_use f then throwE k_ra8_err_invalid_state
          else if f_offset f \<ge> f_size_bytes f \<or> max_len = 0 then returnE []
          else let left' = f_size_bytes f - f_offset f;
                   remaining = (if ucast max_len > left' then ucast left' else max_len)
            in read_loop (unat remaining) i remaining []))"

section \<open>Writing\<close>

record write_walk =
  ww_cluster :: u32
  ww_index :: u32

text \<open>The result is the pair of \<open>out_cluster\<close> and the updated \<open>way\<close>.\<close>

definition internal_write_position :: "nat \<Rightarrow> write_walk \<Rightarrow> u32 \<Rightarrow> ('w fs, u32 \<times> write_walk) op" where
  "internal_write_position i way idx =
     bindE (file_mountE i) (\<lambda>m.
     bindE (fileE i) (\<lambda>f.
     bindE (if f_first_cluster f < k_cluster_first_data then
              bindE (priv_alloc_eoc_cluster m) (\<lambda>c.
              bindE (set_file i (\<lambda>f. f\<lparr>f_first_cluster := c, f_cur_cluster := c\<rparr>)) (\<lambda>_.
                returnE \<lparr>ww_cluster = c, ww_index = idx\<rparr>))
            else returnE way) (\<lambda>way1.
     bindE (internal_walk_grow m (ww_cluster way1) (idx - ww_index way1)) (\<lambda>cur.
       returnE (cur, \<lparr>ww_cluster = cur, ww_index = idx\<rparr>)))))"

text \<open>\<open>rest\<close> is the part of the caller's buffer from \<open>consumed\<close> on.\<close>

primrec write_loop :: "nat \<Rightarrow> nat \<Rightarrow> write_walk \<Rightarrow> bytes \<Rightarrow> ('w fs, unit) op" where
  "write_loop 0 i way rest = (if rest \<noteq> [] then throwE out_of_fuel else returnE ())"
| "write_loop (Suc n) i way rest =
     (if rest \<noteq> [] then
        bindE (file_mountE i) (\<lambda>m.
        bindE (fileE i) (\<lambda>f.
        bindE (cluster_bytesE m) (\<lambda>cluster_bytes.
        let cluster_idx_now = ucast (f_offset f div ucast cluster_bytes) :: u32
        in bindE (internal_write_position i way cluster_idx_now) (\<lambda>(cur, way').
        bindE (set_file i (\<lambda>f. f\<lparr>f_cur_cluster := cur\<rparr>)) (\<lambda>_.
        let off_in_cluster = ucast (f_offset f mod ucast cluster_bytes) :: u32;
            sector_in_cluster = off_in_cluster div priv_bps m;
            off_in_sector = off_in_cluster mod priv_bps m;
            lba = priv_cluster_to_lba m cur + ucast sector_in_cluster;
            put = min (unat (priv_bps m - off_in_sector)) (length rest)
        in bindE (priv_write_into_sector m lba (unat off_in_sector) (take put rest)) (\<lambda>_.
        bindE (set_file i (\<lambda>f. let o' = f_offset f + of_nat put in
            f\<lparr>f_offset := o', f_size_bytes := (if o' > f_size_bytes f then o' else f_size_bytes f)\<rparr>)) (\<lambda>_.
          write_loop n i way' (drop put rest))))))))
      else returnE ())"

definition internal_write_stream :: "nat \<Rightarrow> bytes \<Rightarrow> ('w fs, unit) op" where
  "internal_write_stream i buf =
     bindE (set_file i (\<lambda>f. f\<lparr>f_walk_cache_cluster := 0\<rparr>)) (\<lambda>_.
     bindE (fileE i) (\<lambda>f.
       write_loop (length buf) i \<lparr>ww_cluster = f_first_cluster f, ww_index = 0\<rparr> buf))"

text \<open>The caller's buffer and \<open>len\<close>, a 32-bit count, are one list of bytes.\<close>

definition internal_write_locked :: "nat option \<Rightarrow> bytes option \<Rightarrow> ('w fs, unit) op" where
  "internal_write_locked file data =
     (case (file, data) of
        (Some i, Some buf) \<Rightarrow> bindE (fileE i) (\<lambda>f.
          if \<not> f_in_use f \<or> f_mode f = k_ra8_fs_mode_read then throwE k_ra8_err_invalid_state
          else if buf = [] then returnE ()
          else bindE (file_mountE i) (\<lambda>m.
            if m_type m = k_ra8_fs_type_exfat then
              bindE (priv_exfat_write_stream i buf) (\<lambda>_.
              bindE (set_file i (\<lambda>f. f\<lparr>f_dirty := True\<rparr>)) (\<lambda>_. priv_exfat_flush_set i))
            else if of_nat (length buf) > k_ra8_fs_fat_max_file_bytes - f_offset f
            then throwE k_ra8_err_invalid_size
            else
              bindE (internal_write_stream i buf) (\<lambda>_.
              bindE (fileE i) (\<lambda>f1.
              bindE (priv_read_sector m (f_dir_entry_lba f1)) (\<lambda>dirsec.
              let off = unat (f_dir_entry_idx f1) in
              bindE (priv_fat_entry_stamp_write
                  (priv_entry_set_cluster_size dirsec off (f_first_cluster f1) (ucast (f_size_bytes f1))) off) (\<lambda>d1.
              bindE (set_file i (\<lambda>f. f\<lparr>f_dirty := True\<rparr>)) (\<lambda>_.
                priv_write_sector m (f_dir_entry_lba f1)
                  (priv_fat_entry_apply_attr d1 off k_ra8_fs_attr_archive 0))))))))
      | _ \<Rightarrow> throwE k_ra8_err_null_ptr)"

definition internal_write_file_locked ::
    "nat option \<Rightarrow> bytes option \<Rightarrow> bytes option \<Rightarrow> ('w fs, unit) op" where
  "internal_write_file_locked handle path data =
     (case handle of None \<Rightarrow> throwE k_ra8_err_null_ptr
      | Some h \<Rightarrow>
          if path = None then throwE k_ra8_err_null_ptr
          else if data = None then throwE k_ra8_err_null_ptr
          else bindE (mountE h) (\<lambda>m.
            if \<not> m_in_use m then throwE k_ra8_err_invalid_state
            else bindE (priv_open_locked handle path k_ra8_fs_mode_write) (\<lambda>i.
              attemptE (internal_write_locked (Some i) data) (\<lambda>e.
              attemptE (priv_close_locked (Some i)) (\<lambda>cerr.
                case e of Inl err \<Rightarrow> throwE err | Inr _ \<Rightarrow> returnR cerr)))))"

section \<open>Positioning\<close>

definition internal_seek_locked :: "nat option \<Rightarrow> u64 \<Rightarrow> ('w fs, unit) op" where
  "internal_seek_locked file offset_bytes =
     (case file of None \<Rightarrow> throwE k_ra8_err_null_ptr
      | Some i \<Rightarrow> bindE (fileE i) (\<lambda>f.
          if \<not> f_in_use f then throwE k_ra8_err_invalid_state
          else set_file i (\<lambda>f. f\<lparr>f_offset :=
            (if offset_bytes > f_size_bytes f then f_size_bytes f else offset_bytes)\<rparr>)))"

definition internal_tell_locked :: "nat option \<Rightarrow> ('w fs, u64) op" where
  "internal_tell_locked file =
     (case file of None \<Rightarrow> throwE k_ra8_err_null_ptr
      | Some i \<Rightarrow> bindE (fileE i) (\<lambda>f.
          if \<not> f_in_use f then throwE k_ra8_err_invalid_state else returnE (f_offset f)))"

definition internal_size_locked :: "nat option \<Rightarrow> ('w fs, u64) op" where
  "internal_size_locked file =
     (case file of None \<Rightarrow> throwE k_ra8_err_null_ptr
      | Some i \<Rightarrow> bindE (fileE i) (\<lambda>f.
          if \<not> f_in_use f then throwE k_ra8_err_invalid_state else returnE (f_size_bytes f)))"

definition ra8_fs_read :: "nat option \<Rightarrow> u32 \<Rightarrow> ('w fs, bytes) op" where
  "ra8_fs_read file max_len = locked (internal_read_locked file max_len)"

definition ra8_fs_write :: "nat option \<Rightarrow> bytes option \<Rightarrow> ('w fs, unit) op" where
  "ra8_fs_write file data = locked (internal_write_locked file data)"

definition ra8_fs_write_file ::
    "nat option \<Rightarrow> bytes option \<Rightarrow> bytes option \<Rightarrow> ('w fs, unit) op" where
  "ra8_fs_write_file handle path data = locked (internal_write_file_locked handle path data)"

definition ra8_fs_seek :: "nat option \<Rightarrow> u64 \<Rightarrow> ('w fs, unit) op" where
  "ra8_fs_seek file offset_bytes = locked (internal_seek_locked file offset_bytes)"

definition ra8_fs_tell :: "nat option \<Rightarrow> ('w fs, u64) op" where
  "ra8_fs_tell file = locked (internal_tell_locked file)"

definition ra8_fs_size :: "nat option \<Rightarrow> ('w fs, u64) op" where
  "ra8_fs_size file = locked (internal_size_locked file)"

end
