(* ===== verification/File_Read.thy ===== *)
theory File_Read
  imports Fat_File_Io Ram_Volume
begin

text \<open>
  Reading a file of a FAT volume, \<open>internal_read_locked\<close> of \<^verbatim>\<open>ra8_fs_fat_fileio.c\<close>, against its abstract meaning: a slice of the
  concatenation of the sectors of the clusters in its chain. The walk cache of the handle only shortens the walk
  along the chain.
\<close>

section \<open>Blocks of equal length\<close>

lemma concat_blocks_length: "\<forall>x \<in> set xs. length (f x) = n \<Longrightarrow> length (concat (map f xs)) = length xs * n"
  by (induction xs) auto

lemma concat_blocks_drop:
  "\<forall>x \<in> set xs. length (f x) = n \<Longrightarrow> q \<le> length xs \<Longrightarrow> drop (q * n) (concat (map f xs)) = concat (map f (drop q xs))"
proof (induction q arbitrary: xs)
  case (Suc q)
  then obtain x ys where "xs = x # ys" by (cases xs) auto
  with Suc show ?case by simp
qed simp

lemma concat_blocks_slice:
  assumes n: "\<forall>x \<in> set xs. length (f x) = n" and q: "q < length xs" and k: "r + k \<le> n"
  shows "take k (drop (q * n + r) (concat (map f xs))) = take k (drop r (f (xs ! q)))"
proof -
  have "drop (q * n + r) (concat (map f xs)) = drop r (concat (map f (drop q xs)))"
    using concat_blocks_drop [OF n, of q] q by (metis add.commute drop_drop less_imp_le)
  also have "\<dots> = drop r (f (xs ! q) @ concat (map f (drop (Suc q) xs)))" using q by (simp add: Cons_nth_drop_Suc [symmetric])
  also have "\<dots> = drop r (f (xs ! q)) @ concat (map f (drop (Suc q) xs))" using n q k by simp
  finally show ?thesis using n q k by simp
qed

lemma concat_blocks_nth:
  assumes "\<forall>x \<in> set xs. length (f x) = n" and "q < length xs" and "r < n"
  shows "concat (map f xs) ! (q * n + r) = f (xs ! q) ! r"
proof -
  have l: "q * n + r < length (concat (map f xs))"
    unfolding concat_blocks_length [OF assms(1)] using assms(2,3)
    by (metis add.commute add_less_le_mono mult_Suc mult_le_mono1 Suc_leI order_less_le_trans nat_add_left_cancel_less)
  have "take 1 (drop (q * n + r) (concat (map f xs))) = take 1 (drop r (f (xs ! q)))"
    by (rule concat_blocks_slice [OF assms(1,2)]) (use assms(3) in simp)
  then have "hd (drop (q * n + r) (concat (map f xs))) = hd (drop r (f (xs ! q)))" by (metis hd_take zero_less_one)
  then show ?thesis using l assms by (simp add: hd_drop_conv_nth)
qed

section \<open>The bytes of a file\<close>

definition file_lbas :: "'w mount \<Rightarrow> u32 list \<Rightarrow> u64 list" where
  "file_lbas m cs = concat (map (cluster_lbas m) cs)"

definition file_data :: "('w \<Rightarrow> u64 \<Rightarrow> bytes) \<Rightarrow> 'w mount \<Rightarrow> 'w fs \<Rightarrow> u32 list \<Rightarrow> bytes" where
  "file_data content m s cs = concat (map (vsec content m s) (file_lbas m cs))"

definition file_on_medium :: "('w \<Rightarrow> nat) \<Rightarrow> 'w mount \<Rightarrow> 'w fs \<Rightarrow> u32 list \<Rightarrow> bool" where
  "file_on_medium nb m s cs \<longleftrightarrow> (\<forall>l \<in> set (file_lbas m cs). unat (l + m_partition_base_lba m) < nb (world s))"

text \<open>
  An open file of a FAT volume stands for the clusters \<open>cs\<close> of its chain, large enough for its size; the position the
  last read left in the walk cache is a position of the chain.
\<close>

definition file_view :: "('w \<Rightarrow> u64 \<Rightarrow> bytes) \<Rightarrow> 'w mount \<Rightarrow> 'w fs \<Rightarrow> fs_file \<Rightarrow> u32 list \<Rightarrow> bool" where
  "file_view content m s f cs \<longleftrightarrow> (cs \<noteq> [] \<longrightarrow> chain m (fat_at content m s) (f_first_cluster f) cs) \<and>
     unat (f_size_bytes f) \<le> length cs * unat (priv_cluster_bytes m) \<and> \<not> f_no_fat_chain f \<and>
     (k_cluster_first_data \<le> f_walk_cache_cluster f \<longrightarrow>
        unat (f_walk_cache_idx f) < length cs \<and> cs ! unat (f_walk_cache_idx f) = f_walk_cache_cluster f)"

text \<open>Clusters of a volume with addressable sizes.\<close>

definition cluster_geom :: "'w mount \<Rightarrow> bool" where
  "cluster_geom m \<longleftrightarrow> 0 < m_sectors_per_cluster m \<and>
     unat (m_sectors_per_cluster m) * unat (m_bytes_per_sector m) < 2 ^ 32 \<and> m_type m \<noteq> k_ra8_fs_type_exfat"

text \<open>The file object \<open>i\<close> is open on the mount \<open>m\<close>.\<close>

definition open_on :: "'w fs \<Rightarrow> nat \<Rightarrow> 'w mount \<Rightarrow> bool" where
  "open_on s i m \<longleftrightarrow> i < length (s_files s) \<and> f_in_use (s_files s ! i) \<and>
     (\<exists>h. f_mount (s_files s ! i) = Some h \<and> s_mounts s ! h = m)"

lemma file_mount_run: "open_on s i m \<Longrightarrow> file_mountE i s = (Inr m, s)"
  by (auto simp: open_on_def file_mountE_def fileE_def mountE_def bindE_def)

lemma chain_drop: "chain m tab c xs \<Longrightarrow> a < length xs \<Longrightarrow> chain m tab (xs ! a) (drop a xs)"
  using chain_suffix [OF _ id_take_nth_drop [of a xs]] by (metis Cons_nth_drop_Suc)

lemma file_lbas_nth:
  "q < length cs \<Longrightarrow> r < unat (m_sectors_per_cluster m) \<Longrightarrow>
    file_lbas m cs ! (q * unat (m_sectors_per_cluster m) + r) = priv_cluster_to_lba m (cs ! q) + of_nat r"
  unfolding file_lbas_def by (subst concat_blocks_nth [where n = "unat (m_sectors_per_cluster m)"]) (auto simp: cluster_lbas_def)

lemma file_lbas_length: "length (file_lbas m cs) = length cs * unat (m_sectors_per_cluster m)"
  unfolding file_lbas_def by (rule concat_blocks_length) (simp add: cluster_lbas_def)

context reliable_device
begin

lemma file_data_length: "length (file_data content m s cs) = length (file_lbas m cs) * bs"
  unfolding file_data_def by (rule concat_blocks_length) (simp add: vsec_length)

text \<open>One sector's part of the file.\<close>

lemma file_data_slice:
  assumes m: "on_backend b bs m" and q: "x div bs < length (file_lbas m cs)" and k: "k \<le> bs - x mod bs"
  shows "take k (drop x (file_data content m s cs)) = take k (drop (x mod bs) (vsec content m s (file_lbas m cs ! (x div bs))))"
proof -
  have bs: "0 < bs" using m by (auto simp: on_backend_def)
  have "x mod bs + k \<le> bs" using k mod_less_divisor [OF bs, of x] by linarith
  from concat_blocks_slice [of "file_lbas m cs" "vsec content m s" bs "x div bs", OF _ q this] show ?thesis
    unfolding file_data_def by (simp add: vsec_length)
qed

lemma skip_ok:
  assumes m: "on_backend b bs m" and g: "fat_geom m"
  shows "fs_inv valid content m s \<Longrightarrow> fat_on_medium m s \<Longrightarrow> chain m (fat_at content m s) c xs \<Longrightarrow> n < length xs \<Longrightarrow>
    \<exists>t. skip_loop m n c s = (Inr (xs ! n), t) \<and> fs_inv valid content m t \<and> content (world t) = content (world s) \<and>
      fat_frame s t \<and> nblocks (world t) = nblocks (world s)"
proof (induction n arbitrary: c xs s)
  case 0
  then have "xs ! 0 = c" by (cases xs) (auto dest: chain_ConsD)
  then show ?case using 0 by simp
next
  case (Suc n)
  from Suc.prems obtain y ys where xs: "xs = c # y # ys" by (cases xs rule: remdups_adj.cases) (auto dest: chain_ConsD)
  with Suc.prems(3) have c: "inData m c" "\<not> priv_is_eoc m (fat_at content m s c)"
    "chain m (fat_at content m s) (fat_at content m s c) (y # ys)" by auto
  have "in_fat m c" using c(1) g by (simp add: inData_iff in_data_in_fat)
  from fat_get_ok [OF m g this Suc.prems(1,2)] obtain u where
    u: "priv_fat_get m c s = (Inr (fat_at content m s c), u)" "nblocks (world u) = nblocks (world s)" by blast
  note fg = fat_get [OF m Suc.prems(1) u(1)]
  have fa: "fat_at content m u = fat_at content m s" by (rule fat_at_world) (use fg in simp)
  have "fs_inv valid content m u" "fat_on_medium m u" using fg u(2) Suc.prems(2) by (auto simp: fat_on_medium_def)
  from Suc.IH [OF this, of "fat_at content m s c" "y # ys"] c(3) Suc.prems(4) obtain t where
    t: "skip_loop m n (fat_at content m s c) u = (Inr ((y # ys) ! n), t)" "fs_inv valid content m t"
      "content (world t) = content (world u)" "fat_frame u t" "nblocks (world t) = nblocks (world u)" by (auto simp: fa xs)
  with u c(2) fg show ?case by (auto simp: xs bindE_def intro: fat_frame_trans)
qed

lemma view_walk:
  assumes m: "on_backend b bs m" and g: "fat_geom m" and inv: "fs_inv valid content m s" and on: "fat_on_medium m s"
    and v: "file_view content m s f cs" and q: "q < length cs" and idx: "unat (idx :: u32) = q"
  defines "w \<equiv> (if f_walk_cache_cluster f \<ge> k_cluster_first_data \<and> idx \<ge> f_walk_cache_idx f
      then (f_walk_cache_cluster f, idx - f_walk_cache_idx f) else (f_first_cluster f, idx))"
  shows "\<exists>t. internal_skip_clusters m (fst w) (snd w) s = (Inr (cs ! q), t) \<and> fs_inv valid content m t \<and>
    content (world t) = content (world s) \<and> fat_frame s t \<and> nblocks (world t) = nblocks (world s)"
proof -
  have ch: "chain m (fat_at content m s) (f_first_cluster f) cs" using v q by (auto simp: file_view_def)
  let ?a = "unat (f_walk_cache_idx f)"
  show ?thesis
  proof (cases "f_walk_cache_cluster f \<ge> k_cluster_first_data \<and> idx \<ge> f_walk_cache_idx f")
    case True
    then have a: "?a < length cs" "cs ! ?a = f_walk_cache_cluster f" "?a \<le> q"
      using v idx by (auto simp: file_view_def word_le_nat_alt)
    then have "chain m (fat_at content m s) (f_walk_cache_cluster f) (drop ?a cs)"
      using chain_drop [OF ch, of ?a] by simp
    moreover have "unat (idx - f_walk_cache_idx f) = q - ?a" using True idx by (simp add: unat_sub_le)
    ultimately show ?thesis
      using skip_ok [OF m g inv on, of "f_walk_cache_cluster f" "drop ?a cs" "q - ?a"] a q True
      by (simp add: w_def internal_skip_clusters_def)
  next
    case False
    then show ?thesis using skip_ok [OF m g inv on ch q] idx by (auto simp: w_def internal_skip_clusters_def)
  qed
qed

lemma offset_split:
  fixes off :: u64
  assumes m: "on_backend b bs m" and cg: "cluster_geom m"
  defines "cb \<equiv> priv_cluster_bytes m" and "x \<equiv> unat off" and "spc \<equiv> unat (m_sectors_per_cluster m)"
  assumes q: "x div (spc * bs) < 2 ^ 32"
  shows "unat cb = spc * bs" "0 < spc * bs" "unat (ucast (off div ucast cb) :: u32) = x div (spc * bs)"
    "unat (ucast (off mod ucast cb) :: u32) = x mod (spc * bs)" "x mod (spc * bs) div bs < spc"
    "x div (spc * bs) * spc + x mod (spc * bs) div bs = x div bs" "x mod (spc * bs) mod bs = x mod bs"
proof -
  have bs: "0 < bs" "unat (m_bytes_per_sector m) = bs" using m by (auto simp: on_backend_def)
  have sp: "0 < spc" "spc * bs < 2 ^ 32" using cg bs(2) by (auto simp: cluster_geom_def spc_def word_less_nat_alt)
  show cb: "unat cb = spc * bs" unfolding cb_def priv_cluster_bytes_def using sp bs(2)
    by (subst unat_mult_small) (simp_all add: spc_def)
  show pos: "0 < spc * bs" using sp bs by simp
  show "unat (ucast (off div ucast cb) :: u32) = x div (spc * bs)"
    using q by (simp add: unat_ucast_small unat_div cb x_def)
  have "unat (off mod ucast cb) = x mod (spc * bs)" by (simp add: unat_mod cb x_def)
  moreover have "x mod (spc * bs) < 2 ^ 32" using sp(2) mod_less_divisor [OF pos, of x] by linarith
  ultimately show "unat (ucast (off mod ucast cb) :: u32) = x mod (spc * bs)" by (simp add: unat_ucast_small)
  have md: "x mod (spc * bs) = bs * (x div bs mod spc) + x mod bs" by (metis mod_mult2_eq mult.commute)
  then show "x mod (spc * bs) mod bs = x mod bs" by simp
  have dm: "x mod (spc * bs) div bs = x div bs mod spc" using bs by (simp add: md)
  then show "x mod (spc * bs) div bs < spc" using sp by simp
  have "x div (spc * bs) = x div bs div spc" by (metis div_mult2_eq mult.commute)
  then show "x div (spc * bs) * spc + x mod (spc * bs) div bs = x div bs" unfolding dm by simp
qed

lemma view_position:
  assumes m: "on_backend b bs m" and g: "fat_geom m" and cg: "cluster_geom m" and v: "file_view content m s f cs"
    and off: "f_offset f < f_size_bytes f"
  defines "cb \<equiv> priv_cluster_bytes m" and "x \<equiv> unat (f_offset f)" and "spc \<equiv> unat (m_sectors_per_cluster m)"
  shows "unat cb = spc * bs" "x div (spc * bs) < length cs" "unat (ucast (f_offset f div ucast cb) :: u32) = x div (spc * bs)"
    "unat (ucast (f_offset f mod ucast cb) :: u32) = x mod (spc * bs)" "x mod (spc * bs) div bs < spc"
    "x div (spc * bs) * spc + x mod (spc * bs) div bs = x div bs" "x mod (spc * bs) mod bs = x mod bs"
    "x div bs < length (file_lbas m cs)"
proof -
  have bs: "0 < bs" using m by (auto simp: on_backend_def)
  have cb: "unat cb = spc * bs" "0 < spc * bs" unfolding cb_def spc_def by (rule offset_split(1,2) [OF m cg, of 0]; simp)+
  have "x < unat (f_size_bytes f)" using off by (simp add: x_def word_less_nat_alt)
  also have "\<dots> \<le> length cs * (spc * bs)" using v cb by (simp add: file_view_def cb_def)
  finally have x: "x < length cs * (spc * bs)" .
  then show q: "x div (spc * bs) < length cs" using cb(2) by (simp add: div_less_iff_less_mult)
  then have "chain m (fat_at content m s) (f_first_cluster f) cs" using v by (auto simp: file_view_def)
  from chain_length [OF g this] q have "x div (spc * bs) < 2 ^ 32"
    using unat_lt [of "m_count_of_clusters m"] by simp
  note pos = offset_split [OF m cg this [unfolded x_def spc_def], folded x_def cb_def spc_def]
  show "unat cb = spc * bs" "unat (ucast (f_offset f div ucast cb) :: u32) = x div (spc * bs)"
    "unat (ucast (f_offset f mod ucast cb) :: u32) = x mod (spc * bs)" "x mod (spc * bs) div bs < spc"
    "x div (spc * bs) * spc + x mod (spc * bs) div bs = x div bs" "x mod (spc * bs) mod bs = x mod bs"
    using pos by simp_all
  have "x < length (file_lbas m cs) * bs" using x by (simp add: file_lbas_length spc_def mult.assoc)
  then show "x div bs < length (file_lbas m cs)" using bs by (simp add: div_less_iff_less_mult)
qed

lemma read_span_ok:
  assumes m: "on_backend b bs m" and g: "fat_geom m" and cg: "cluster_geom m" and inv: "fs_inv valid content m s"
    and on: "fat_on_medium m s" and med: "file_on_medium nblocks m s cs" and op: "open_on s i m"
    and v: "file_view content m s (s_files s ! i) cs" and off: "f_offset (s_files s ! i) < f_size_bytes (s_files s ! i)"
    and rem: "unat (rem :: u32) \<le> unat (f_size_bytes (s_files s ! i)) - unat (f_offset (s_files s ! i))"
  defines "x \<equiv> unat (f_offset (s_files s ! i))"
  shows "\<exists>t idx c. internal_read_span i rem s =
      (Inr (take (min (bs - x mod bs) (unat rem)) (drop x (file_data content m s cs)), of_nat (min (bs - x mod bs) (unat rem))), t) \<and> fs_inv valid content m t \<and>
    content (world t) = content (world s) \<and> nblocks (world t) = nblocks (world s) \<and> s_mounts t = s_mounts s \<and>
    s_files t = (s_files s)[i := (s_files s ! i)\<lparr>f_walk_cache_idx := idx, f_walk_cache_cluster := c, f_cur_cluster := c\<rparr>] \<and>
    unat idx < length cs \<and> cs ! unat idx = c"
proof -
  define f where "f = s_files s ! i"
  define cb where "cb = priv_cluster_bytes m"
  define idx where "idx = (ucast (f_offset f div ucast cb) :: u32)"
  define oc where "oc = (ucast (f_offset f mod ucast cb) :: u32)"
  note pos = view_position [OF m g cg v off, folded f_def x_def, folded cb_def, folded idx_def oc_def]
  note xf = x_def [folded f_def]
  have bps: "unat (priv_bps m) = bs" "0 < bs" using m by (auto simp: on_backend_def priv_bps_def)
  have fl: "fileE i s = (Inr f, s)" and i: "i < length (s_files s)" using op by (simp_all add: fileE_def f_def open_on_def)
  have nf: "\<not> f_no_fat_chain f" using v by (simp add: file_view_def f_def)
  have ty: "m_type m \<noteq> k_ra8_fs_type_exfat" using cg by (simp add: cluster_geom_def)
  have cb0: "cb \<noteq> 0" using pos(1,5) bps by (auto simp: unat_eq_0)
  have sub: "unat (f_size_bytes f - f_offset f) = unat (f_size_bytes f) - unat (f_offset f)"
    using off by (subst unat_sub_le) (auto simp: f_def)
  have "\<not> ucast rem > f_size_bytes f - f_offset f" using rem unfolding word_less_nat_alt sub by (simp add: f_def)
  then have span: "internal_read_span i rem s = internal_read_one_chunk i rem s"
    using off by (auto simp: internal_read_span_def bindE_run file_mount_run [OF op] fl ty f_def [symmetric] Let_def)
  define w where "w = (if f_walk_cache_cluster f \<ge> k_cluster_first_data \<and> idx \<ge> f_walk_cache_idx f
      then (f_walk_cache_cluster f, idx - f_walk_cache_idx f) else (f_first_cluster f, idx))"
  from view_walk [OF m g inv on v pos(2,3), folded f_def, folded w_def] obtain u where
    u: "internal_skip_clusters m (fst w) (snd w) s = (Inr (cs ! (x div (unat (m_sectors_per_cluster m) * bs))), u)"
      "fs_inv valid content m u" "content (world u) = content (world s)" "fat_frame s u" "nblocks (world u) = nblocks (world s)"
    by blast
  define c where "c = cs ! (x div (unat (m_sectors_per_cluster m) * bs))"
  define u2 where "u2 = u\<lparr>s_files := (s_files s)[i := f\<lparr>f_walk_cache_idx := idx, f_walk_cache_cluster := c, f_cur_cluster := c\<rparr>]\<rparr>"
  define lba where "lba = priv_cluster_to_lba m c + ucast (oc div priv_bps m)"
  have chunk: "internal_read_one_chunk i rem s = bindE (priv_read_sector m lba) (\<lambda>sec.
      returnE (take (unat (if priv_bps m - oc mod priv_bps m > rem then rem else priv_bps m - oc mod priv_bps m))
        (drop (unat (oc mod priv_bps m)) sec),
        if priv_bps m - oc mod priv_bps m > rem then rem else priv_bps m - oc mod priv_bps m)) u2"
    using u(1) [folded c_def] u(4) i nf cb0 unfolding internal_read_one_chunk_def w_def
    by (cases "f_walk_cache_cluster f \<ge> k_cluster_first_data"; cases "idx \<ge> f_walk_cache_idx f")
      (simp_all add: bindE_run file_mount_run [OF op] fl cluster_bytesE_def cb_def [symmetric] idx_def [symmetric] Let_def
        set_file_def fat_frame_def u2_def lba_def oc_def [symmetric] f_def [symmetric] cong: if_cong split del: if_split)
  have r: "unat (oc div priv_bps m) = x mod (unat (m_sectors_per_cluster m) * bs) div bs" "unat (oc mod priv_bps m) = x mod bs"
    using pos(4,7) bps(1) by (simp_all add: unat_div unat_mod)
  then have "ucast (oc div priv_bps m) = (of_nat (x mod (unat (m_sectors_per_cluster m) * bs) div bs) :: u64)"
    by (metis unat_ucast64 of_nat_unat ucast_id)
  then have lba: "lba = file_lbas m cs ! (x div bs)"
    using file_lbas_nth [OF pos(2,5)] pos(6) by (simp add: lba_def c_def)
  have "unat (lba + m_partition_base_lba m) < nblocks (world u2)"
    using med pos(8) lba u(5) by (simp add: file_on_medium_def u2_def)
  moreover have vu: "valid (world u2)" using u(2) by (simp add: fs_inv_def u2_def)
  ultimately obtain buf t where rd: "priv_read_sector m lba u2 = (Inr buf, t)" "nblocks (world t) = nblocks (world u2)"
    using read_sector_ok [OF m] by blast
  note rs = read_sector [OF m vu rd(1)]
  have "vsec content m u2 lba = vsec content m s lba" using u(3) by (simp add: vsec_def u2_def)
  then have buf: "buf = vsec content m s (file_lbas m cs ! (x div bs))" using rs(4) lba by auto
  have tk: "unat (if priv_bps m - oc mod priv_bps m > rem then rem else priv_bps m - oc mod priv_bps m) = min (bs - x mod bs) (unat rem)"
    using r(2) bps by (auto simp: word_less_nat_alt unat_sub_le word_le_nat_alt mod_le_divisor)
  have inv2: "fs_inv valid content m u2" using u(2) by (simp add: fs_inv_def coherent_def vsec_def u2_def)
  have ti: "fs_inv valid content m t" using fs_inv_world [OF inv2 rs(1,2)] rs(3) by metis
  have tk': "(if priv_bps m - oc mod priv_bps m > rem then rem else priv_bps m - oc mod priv_bps m) = of_nat (min (bs - x mod bs) (unat rem))"
    unfolding tk [symmetric] by simp
  have "internal_read_span i rem s = (Inr (take (min (bs - x mod bs) (unat rem)) (drop x (file_data content m s cs)), of_nat (min (bs - x mod bs) (unat rem))), t)"
    unfolding span chunk using rd(1) file_data_slice [OF m pos(8), of "min (bs - x mod bs) (unat rem)" s] buf
    by (simp add: bindE_run tk r(2) tk' [symmetric] split del: if_split)
  moreover have "s_mounts t = s_mounts s" "s_files t = (s_files s)[i := f\<lparr>f_walk_cache_idx := idx, f_walk_cache_cluster := c, f_cur_cluster := c\<rparr>]"
    using arg_cong [OF rs(3), of s_mounts] arg_cong [OF rs(3), of s_files] u(4) by (simp_all add: u2_def fat_frame_def)
  moreover have "content (world t) = content (world s)" "nblocks (world t) = nblocks (world s)"
    using rs(2) u(3,5) rd(2) by (simp_all add: u2_def)
  moreover have "unat idx < length cs \<and> cs ! unat idx = c" using pos(2,3) by (simp add: c_def)
  ultimately show ?thesis using ti unfolding f_def by blast
qed

lemma file_view_length:
  assumes m: "on_backend b bs m" and cg: "cluster_geom m" and v: "file_view content m s f cs"
  shows "unat (f_size_bytes f) \<le> length (file_data content m s' cs)"
proof -
  have "unat (priv_cluster_bytes m) = unat (m_sectors_per_cluster m) * bs"
    unfolding priv_cluster_bytes_def using cg m by (subst unat_mult_small) (auto simp: cluster_geom_def on_backend_def)
  then show ?thesis using v by (simp add: file_view_def file_data_length file_lbas_length mult.assoc)
qed

lemma view_cached:
  assumes "file_view content m s f cs" and "unat idx < length cs" and "cs ! unat idx = c"
    and "content (world t) = content (world s)"
  shows "file_view content m t (f\<lparr>f_walk_cache_idx := idx, f_walk_cache_cluster := c, f_cur_cluster := c, f_offset := o'\<rparr>) cs"
  using assms fat_at_world [of content t s m] by (simp add: file_view_def)

lemma read_loop_ok:
  assumes m: "on_backend b bs m" and g: "fat_geom m" and cg: "cluster_geom m"
  shows "fs_inv valid content m s \<Longrightarrow> fat_on_medium m s \<Longrightarrow> file_on_medium nblocks m s cs \<Longrightarrow> open_on s i m \<Longrightarrow>
    file_view content m s (s_files s ! i) cs \<Longrightarrow> unat rem \<le> n \<Longrightarrow>
    unat (f_offset (s_files s ! i)) + unat rem \<le> unat (f_size_bytes (s_files s ! i)) \<Longrightarrow>
    \<exists>t f'. read_loop n i rem acc s =
        (Inr (acc @ take (unat rem) (drop (unat (f_offset (s_files s ! i))) (file_data content m s cs))), t) \<and>
      fs_inv valid content m t \<and> content (world t) = content (world s) \<and> nblocks (world t) = nblocks (world s) \<and>
      s_mounts t = s_mounts s \<and> s_files t = (s_files s)[i := f'] \<and> file_view content m t f' cs \<and>
      unat (f_offset f') = unat (f_offset (s_files s ! i)) + unat rem \<and> f_size_bytes f' = f_size_bytes (s_files s ! i) \<and>
      f_in_use f' \<and> f_mount f' = f_mount (s_files s ! i)"
proof (induction n arbitrary: s rem acc)
  case 0
  then have "rem = 0" by (simp add: unat_eq_0)
  with 0 show ?case by (auto simp: open_on_def intro!: exI [of _ "s_files s ! i"])
next
  case (Suc n)
  let ?f = "s_files s ! i" and ?x = "unat (f_offset (s_files s ! i))"
  show ?case
  proof (cases "rem = 0")
    case True
    with Suc.prems show ?thesis by (auto simp: open_on_def intro!: exI [of _ "s_files s ! i"])
  next
    case False
    then have pos: "0 < unat rem" by (simp add: unat_gt_0)
    have off: "f_offset ?f < f_size_bytes ?f" using Suc.prems(7) pos by (simp add: word_less_nat_alt)
    define k where "k = min (bs - ?x mod bs) (unat rem)"
    have le: "unat rem \<le> unat (f_size_bytes ?f) - ?x" using Suc.prems(7) by linarith
    from read_span_ok [OF m g cg Suc.prems(1-5) off le, folded k_def] obtain t idx c where
      t: "internal_read_span i rem s = (Inr (take k (drop ?x (file_data content m s cs)), of_nat k), t)" "fs_inv valid content m t"
        "content (world t) = content (world s)" "nblocks (world t) = nblocks (world s)" "s_mounts t = s_mounts s"
        "s_files t = (s_files s)[i := ?f\<lparr>f_walk_cache_idx := idx, f_walk_cache_cluster := c, f_cur_cluster := c\<rparr>]"
        "unat idx < length cs" "cs ! unat idx = c" by blast
    have bs: "0 < bs" using m by (auto simp: on_backend_def)
    then have k: "0 < k" "k \<le> unat rem" using pos mod_less_divisor [OF bs, of ?x] by (simp_all add: k_def)
    have i: "i < length (s_files s)" using Suc.prems(4) by (simp add: open_on_def)
    define ch where "ch = take k (drop ?x (file_data content m s cs))"
    have len: "length ch = k" unfolding ch_def
      using file_view_length [OF m cg Suc.prems(5), of s] Suc.prems(7) k(2) by simp
    have uk: "(ucast (of_nat k :: u32) :: u64) = of_nat k"
      using k(2) unat_lt [of rem] by (simp add: word_unat_eq_iff unat_ucast_mod unat_of_nat)
    have ko: "unat (f_offset ?f + of_nat k) = ?x + k"
      using Suc.prems(7) k(2) unat_lt [of "f_size_bytes ?f"] unat_lt [of rem] by (subst unat_add_small) (simp_all add: unat_of_nat_small)
    have kr: "unat (rem - of_nat k) = unat rem - k"
      using k(2) unat_lt [of rem] by (subst unat_sub_le) (simp_all add: word_le_nat_alt unat_of_nat_small)
    define f1 where "f1 = ?f\<lparr>f_walk_cache_idx := idx, f_walk_cache_cluster := c, f_cur_cluster := c, f_offset := f_offset ?f + of_nat k\<rparr>"
    define s2 where "s2 = t\<lparr>s_files := (s_files s)[i := f1]\<rparr>"
    have st: "world s2 = world t" "s_mounts s2 = s_mounts s" "s_files s2 ! i = f1" "length (s_files s2) = length (s_files s)"
      using i t(5) by (simp_all add: s2_def)
    have v2: "file_view content m s2 f1 cs" unfolding f1_def by (rule view_cached [OF Suc.prems(5) t(7,8)]) (simp add: st t(3))
    have run: "read_loop (Suc n) i rem acc s = read_loop n i (rem - of_nat k) (acc @ take k (drop ?x (file_data content m s cs))) s2"
      using False i t(1) [folded ch_def] unfolding read_loop.simps ch_def [symmetric]
      by (simp add: bindE_run uk set_file_def s2_def f1_def t(6) word_neq_0_conv)
    have pre: "fs_inv valid content m s2" "fat_on_medium m s2" "file_on_medium nblocks m s2 cs" "open_on s2 i m"
      using t(2-4) Suc.prems(2-4) i
      by (auto simp: fs_inv_def coherent_def vsec_def s2_def fat_on_medium_def file_on_medium_def open_on_def f1_def t(5))
    have "file_data content m s2 cs = file_data content m s cs"
      unfolding file_data_def by (rule arg_cong [where f = concat], rule map_cong) (simp_all add: vsec_def st t(3))
    moreover have "unat (rem - of_nat k) \<le> n" "unat (f_offset (s_files s2 ! i)) + unat (rem - of_nat k) \<le> unat (f_size_bytes (s_files s2 ! i))"
      using kr k Suc.prems(6,7) ko by (simp_all add: st f1_def)
    ultimately obtain u f' where u: "read_loop n i (rem - of_nat k) (acc @ take k (drop ?x (file_data content m s cs))) s2 =
        (Inr ((acc @ take k (drop ?x (file_data content m s cs))) @ take (unat rem - k) (drop (?x + k) (file_data content m s cs))), u)"
      "fs_inv valid content m u" "content (world u) = content (world s2)" "nblocks (world u) = nblocks (world s2)"
      "s_mounts u = s_mounts s2" "s_files u = (s_files s2)[i := f']" "file_view content m u f' cs"
      "unat (f_offset f') = ?x + k + (unat rem - k)" "f_size_bytes f' = f_size_bytes f1" "f_in_use f'" "f_mount f' = f_mount f1"
      using Suc.IH [OF pre, of "rem - of_nat k" "acc @ take k (drop ?x (file_data content m s cs))"] v2 ko kr
      by (auto simp: st f1_def)
    have app: "take k (drop ?x (file_data content m s cs)) @ take (unat rem - k) (drop (?x + k) (file_data content m s cs)) =
        take (unat rem) (drop ?x (file_data content m s cs))"
      using take_add [of k "unat rem - k" "drop ?x (file_data content m s cs)"] k(2) by (simp add: add.commute)
    show ?thesis
      unfolding run u(1) append_assoc app 
      by (rule exI [of _ u], rule exI [of _ f']) (use u(2-) t(3-5) k(2) in \<open>auto simp: st s2_def f1_def\<close>)
  qed
qed

lemma read_locked_ok:
  fixes n :: u32
  assumes m: "on_backend b bs m" and g: "fat_geom m" and cg: "cluster_geom m" and inv: "fs_inv valid content m s"
    and on: "fat_on_medium m s" and med: "file_on_medium nblocks m s cs" and op: "open_on s i m"
    and v: "file_view content m s (s_files s ! i) cs"
  defines "f \<equiv> s_files s ! i"
  defines "bytes \<equiv> take (unat n) (drop (unat (f_offset f)) (take (unat (f_size_bytes f)) (file_data content m s cs)))"
  shows "\<exists>t f'. internal_read_locked (Some i) n s = (Inr bytes, t) \<and> fs_inv valid content m t \<and>
      content (world t) = content (world s) \<and> s_mounts t = s_mounts s \<and> s_files t = (s_files s)[i := f'] \<and>
      file_view content m t f' cs \<and> unat (f_offset f') = unat (f_offset f) + length bytes \<and> f_size_bytes f' = f_size_bytes f \<and>
      f_in_use f' \<and> f_mount f' = f_mount f"
proof (cases "f_offset f \<ge> f_size_bytes f \<or> n = 0")
  case True
  then have z: "bytes = []" by (auto simp: bytes_def word_le_nat_alt)
  have "internal_read_locked (Some i) n s = (Inr [], s)"
    using True op by (auto simp: internal_read_locked_def fileE_def bindE_run f_def open_on_def)
  then show ?thesis using z inv v op by (auto simp: f_def open_on_def intro!: exI [of _ "s_files s ! i"])
next
  case False
  define left' where "left' = f_size_bytes f - f_offset f"
  define rem where "rem = (if ucast n > left' then ucast left' else n)"
  have lf: "unat left' = unat (f_size_bytes f) - unat (f_offset f)"
    using False unfolding left'_def by (subst unat_sub_le) auto
  have r: "unat rem = min (unat n) (unat left')"
    using unat_lt [of n] by (auto simp: rem_def word_less_nat_alt unat_ucast_small not_less)
  have run: "internal_read_locked (Some i) n s = read_loop (unat rem) i rem [] s"
    using False op unfolding internal_read_locked_def rem_def left'_def
    by (simp add: fileE_def bindE_run f_def open_on_def Let_def)
  have le: "unat (f_offset f) + unat rem \<le> unat (f_size_bytes f)" 
  proof -
    have "unat (f_offset f) \<le> unat (f_size_bytes f)" using False by (auto simp: word_le_nat_alt)
    moreover have "unat rem \<le> unat (f_size_bytes f) - unat (f_offset f)" using r lf by simp
    ultimately show ?thesis by linarith
  qed
  have tk: "take (unat rem) (drop (unat (f_offset f)) (file_data content m s cs)) = bytes"
    unfolding bytes_def r lf drop_take by (simp add: min.commute)
  have "length bytes = unat rem"
    unfolding tk [symmetric] using le file_view_length [OF m cg v, of s] by (simp add: f_def)
  then show ?thesis
    using read_loop_ok [OF m g cg inv on med op v order_refl le [unfolded f_def], of "[]"] unfolding run
    by (auto simp: tk f_def [symmetric])
qed

end

section \<open>Reading\<close>

text \<open>C2. Reading an open file of a FAT volume returns the bytes of the file from its position on, as many as were asked for or
  as are left: the clusters of its chain, in order, laid out on the medium, cut at the size of the file. The loop ends, the
  position moves behind the bytes, the medium is unchanged, and the handle stands for the same file again, so
  consecutive reads return consecutive parts.\<close>

theorem read_correct:
  assumes d: "reliable_device b content bs valid nb" and m: "on_backend b bs m" and g: "fat_geom m" and cg: "cluster_geom m"
    and inv: "fs_inv valid content m s" and on: "\<forall>l \<in> fat_area m. unat l < nb (world s)"
    and med: "file_on_medium nb m s cs" and op: "open_on s i m" and v: "file_view content m s (s_files s ! i) cs"
  shows "\<exists>t bytes. internal_read_locked (Some i) n s = (Inr bytes, t) \<and>
    bytes = take (unat n) (drop (unat (f_offset (s_files s ! i)))
      (take (unat (f_size_bytes (s_files s ! i))) (file_data content m s cs))) \<and>
    fs_inv valid content m t \<and> content (world t) = content (world s) \<and> s_mounts t = s_mounts s \<and> open_on t i m \<and>
    file_view content m t (s_files t ! i) cs \<and> f_size_bytes (s_files t ! i) = f_size_bytes (s_files s ! i) \<and>
    unat (f_offset (s_files t ! i)) = unat (f_offset (s_files s ! i)) + length bytes"
proof -
  have i: "i < length (s_files s)" using op by (simp add: open_on_def)
  from reliable_device.read_locked_ok [OF d m g cg inv _ med op v, of n] on op i show ?thesis
    by (auto simp: reliable_device.fat_on_medium_def [OF d] open_on_def)
qed

definition ex_open :: "ram_state fs" where
  "ex_open = ex_fs\<lparr>s_files := (s_files ex_fs)[0 := fs_file_zero\<lparr>f_mount := Some 0, f_first_cluster := 2, f_size_bytes := 600,
     f_in_use := True\<rparr>]\<rparr>"

lemma ex_open_ok: "fs_inv ram_valid ram_content ex_mount ex_open" "cluster_geom ex_mount"
  "file_on_medium (\<lambda>w. unat (ram_block_count w)) ex_mount ex_open [2, 3]" "open_on ex_open 0 ex_mount"
  "file_view ram_content ex_mount ex_open (s_files ex_open ! 0) [2, 3]"
proof -
  have w: "world ex_open = world ex_fs" by (simp add: ex_open_def)
  have f: "s_files ex_open ! 0 = fs_file_zero\<lparr>f_mount := Some 0, f_first_cluster := 2, f_size_bytes := 600, f_in_use := True\<rparr>"
    by (simp add: ex_open_def ex_fs_def fs_init_def)
  show "fs_inv ram_valid ram_content ex_mount ex_open"
    using ex_inv by (simp add: fs_inv_def coherent_def vsec_def ex_open_def)
  show "cluster_geom ex_mount" by (simp add: cluster_geom_def ex_mount_def)
  show "file_on_medium (\<lambda>w. unat (ram_block_count w)) ex_mount ex_open [2, 3]"
    by (simp add: file_on_medium_def file_lbas_def cluster_lbas_def priv_cluster_to_lba_def ex_mount_def w ex_fs_def fs_init_def ex_ram_def)
  show "open_on ex_open 0 ex_mount" unfolding open_on_def f by (simp add: ex_open_def ex_fs_def fs_init_def)
  have "fat_at ram_content ex_mount ex_open = fat_at ram_content ex_mount ex_fs" by (rule fat_at_world) (simp add: w)
  moreover have pc: "priv_cluster_bytes ex_mount = 512" by (simp add: priv_cluster_bytes_def ex_mount_def)
  ultimately show "file_view ram_content ex_mount ex_open (s_files ex_open ! 0) [2, 3]"
    using ex_chain pc by (simp add: file_view_def f fs_file_zero_def del: chain.simps)
qed

theorem read_correct_witness:
  "\<exists>t bytes. internal_read_locked (Some 0) 1000 ex_open = (Inr bytes, t) \<and> length bytes = 600"
proof -
  have on: "\<forall>l \<in> fat_area ex_mount. unat l < unat (ram_block_count (world ex_open))"
    using ex_on_medium by (simp add: ram.fat_on_medium_def ex_open_def)
  have "length (file_data ram_content ex_mount ex_open [2, 3]) = 1024"
    by (simp add: ram.file_data_length file_lbas_length ex_mount_def)
  then show ?thesis
    using read_correct [OF ram.reliable_device_axioms ex_on_backend ex_geom ex_open_ok(2,1) on ex_open_ok(3-5), of 1000]
    by (auto simp: ex_open_def ex_fs_def fs_init_def fs_file_zero_def)
qed

end
