(* ===== verification/File_Extent.thy ===== *)
theory File_Extent
  imports File_Read Dir_Commit
begin

text \<open>
  The transfer loop of a write, \<open>write_loop\<close> of \<^verbatim>\<open>ra8_fs_fat_fileio.c\<close>: where the clusters of a volume lie on the medium, how a
  sector written outside the FAT area leaves the table alone, how the chain of a file grows, and that the loop
  overwrites the bytes of the file from its position on (\<open>wrote\<close>).
\<close>

section \<open>Overwriting\<close>

lemma splice_at_Nil [simp]: "splice_at d x [] = d"
  by (simp add: splice_at_def)

lemma splice_at_append: "x + length a \<le> length d \<Longrightarrow> splice_at d x a @ e = splice_at (d @ e) x a"
  by (simp add: splice_at_def)

text \<open>Overwriting within one block of a sequence of blocks.\<close>

lemma concat_blocks_splice:
  assumes n: "\<forall>y \<in> set xs. length (f y) = n" and d: "distinct xs" and q: "q < length xs" and k: "r + length c \<le> n"
    and g: "\<And>y. y \<in> set xs \<Longrightarrow> g y = (if y = xs ! q then splice_at (f y) r c else f y)"
  shows "concat (map g xs) = splice_at (concat (map f xs)) (q * n + r) c"
proof -
  have split: "xs = take q xs @ xs ! q # drop (Suc q) xs" by (rule id_take_nth_drop [OF q])
  have "y \<noteq> xs ! q" if "y \<in> set (take q xs) \<or> y \<in> set (drop (Suc q) xs)" for y
    using d that split by (metis disjoint_iff distinct.simps(2) distinct_append list.set_intros(1))
  then have g': "map g (take q xs) = map f (take q xs)" "map g (drop (Suc q) xs) = map f (drop (Suc q) xs)"
    using g in_set_takeD [of _ q xs] in_set_dropD [of _ "Suc q" xs] by auto
  have lt: "length (concat (map f (take q xs))) = q * n"
    using concat_blocks_length [of "take q xs" f n] n q by (auto dest: in_set_takeD)
  have lf: "length (f (xs ! q)) = n" "g (xs ! q) = splice_at (f (xs ! q)) r c" using n q g by simp_all
  have "concat (map g xs) = concat (map f (take q xs)) @ splice_at (f (xs ! q)) r c @ concat (map f (drop (Suc q) xs))"
    by (subst split) (simp add: g' lf)
  also have "\<dots> = splice_at (concat (map f (take q xs)) @ f (xs ! q) @ concat (map f (drop (Suc q) xs))) (q * n + r) c"
    using lt lf k by (simp add: splice_at_def)
  also have "\<dots> = splice_at (concat (map f xs)) (q * n + r) c" by (subst (4) split) simp
  finally show ?thesis .
qed

section \<open>Where the clusters lie\<close>

text \<open>The areas of the volume follow each other without wrapping around the address space.\<close>

definition data_geom :: "'w mount \<Rightarrow> bool" where
  "data_geom m \<longleftrightarrow> unat (m_first_fat_lba m) + unat (m_num_fats m) * unat (m_fat_size_sectors m) \<le> unat (m_first_data_lba m) \<and>
     unat (m_first_data_lba m) + unat (m_count_of_clusters m) * unat (m_sectors_per_cluster m) + unat (m_partition_base_lba m) < 2 ^ 64"

lemma cluster_lba_nat:
  assumes dg: "data_geom m" and c: "in_data m c" and k: "k < unat (m_sectors_per_cluster m)"
  shows "unat (priv_cluster_to_lba m c + of_nat k) =
      unat (m_first_data_lba m) + ((unat c - 2) * unat (m_sectors_per_cluster m) + k)"
    and "(unat c - 2) * unat (m_sectors_per_cluster m) + k < unat (m_count_of_clusters m) * unat (m_sectors_per_cluster m)"
proof -
  let ?p = "unat (m_sectors_per_cluster m)"
  have "unat c - 2 + 1 \<le> unat (m_count_of_clusters m)" using c unfolding in_data_def by linarith
  then have "(unat c - 2 + 1) * ?p \<le> unat (m_count_of_clusters m) * ?p" by (rule mult_le_mono1)
  then show lt: "(unat c - 2) * ?p + k < unat (m_count_of_clusters m) * ?p" using k by simp
  have u2: "unat (ucast c - 2 :: u64) = unat c - 2" using c by (subst unat_sub_le) (simp_all add: word_le_nat_alt in_data_def)
  have small: "unat (m_first_data_lba m) + ((unat c - 2) * ?p + k) < 2 ^ 64" using dg lt by (simp add: data_geom_def)
  have p1: "unat ((ucast c - 2) * ucast (m_sectors_per_cluster m) :: u64) = (unat c - 2) * ?p"
    using small by (subst unat_mult_small) (simp_all add: u2)
  have p2: "unat (priv_cluster_to_lba m c) = unat (m_first_data_lba m) + (unat c - 2) * ?p"
    unfolding priv_cluster_to_lba_def using small p1 by (simp, subst unat_add_small) simp_all
  show "unat (priv_cluster_to_lba m c + of_nat k) = unat (m_first_data_lba m) + ((unat c - 2) * ?p + k)"
    using small p2 by (subst unat_add_small) (simp_all add: unat_of_nat_small)
qed

lemma cluster_lba_inj:
  assumes dg: "data_geom m" and c: "in_data m c" and d: "in_data m d" and k: "k < unat (m_sectors_per_cluster m)"
    and j: "j < unat (m_sectors_per_cluster m)" and eq: "priv_cluster_to_lba m c + of_nat k = priv_cluster_to_lba m d + of_nat j"
  shows "c = d \<and> k = j"
proof -
  have "(unat c - 2) * unat (m_sectors_per_cluster m) + k = (unat d - 2) * unat (m_sectors_per_cluster m) + j"
    using arg_cong [OF eq, of unat] cluster_lba_nat(1) [OF dg c k] cluster_lba_nat(1) [OF dg d j] by simp
  from mult_add_inj [OF k j this] show ?thesis using c d by (auto simp: in_data_def word_unat_eq_iff)
qed

lemma cluster_not_fat:
  assumes dg: "data_geom m" and c: "in_data m c" and k: "k < unat (m_sectors_per_cluster m)"
  shows "priv_cluster_to_lba m c + of_nat k + m_partition_base_lba m \<notin> fat_area m"
proof
  let ?n = "unat (m_fat_size_sectors m)"
  assume "priv_cluster_to_lba m c + of_nat k + m_partition_base_lba m \<in> fat_area m"
  then obtain i q where iq: "i < unat (m_num_fats m)" "q < ?n" "priv_cluster_to_lba m c + of_nat k = fat_lba m i q"
    by (auto simp: fat_area_def)
  have "Suc i * ?n \<le> unat (m_num_fats m) * ?n" using iq(1) by (intro mult_le_mono1) simp
  then have "i * ?n + q < unat (m_num_fats m) * ?n" using iq(2) by simp
  moreover from this have "unat (fat_lba m i q) = unat (m_first_fat_lba m) + (i * ?n + q)"
    unfolding fat_lba_def using dg
    by (subst unat_add_small) (simp_all add: unat_of_nat_small data_geom_def del: of_nat_add of_nat_mult)
  ultimately show False using iq(3) cluster_lba_nat(1) [OF dg c k] dg by (simp add: data_geom_def)
qed

lemma cluster_lbas_in: "l \<in> set (cluster_lbas m c) \<longleftrightarrow> (\<exists>k < unat (m_sectors_per_cluster m). l = priv_cluster_to_lba m c + of_nat k)"
  unfolding cluster_lbas_def set_map set_upt image_iff by (simp add: Bex_def)

lemma file_lbas_in: "l \<in> set (file_lbas m cs) \<longleftrightarrow> (\<exists>c \<in> set cs. \<exists>k < unat (m_sectors_per_cluster m). l = priv_cluster_to_lba m c + of_nat k)"
  by (simp add: file_lbas_def cluster_lbas_in)

lemma file_lbas_distinct:
  assumes dg: "data_geom m" and d: "distinct cs" and cs: "\<forall>c \<in> set cs. in_data m c"
  shows "distinct (file_lbas m cs)"
  using d cs
proof (induction cs)
  case (Cons c cs)
  have "distinct (cluster_lbas m c)" unfolding cluster_lbas_def
    using cluster_lba_inj [OF dg, of c c] Cons.prems by (auto simp: distinct_map inj_on_def)
  moreover have "set (cluster_lbas m c) \<inter> set (file_lbas m cs) = {}"
  proof (rule ccontr)
    assume "set (cluster_lbas m c) \<inter> set (file_lbas m cs) \<noteq> {}"
    then obtain l where l: "l \<in> set (cluster_lbas m c)" "l \<in> set (file_lbas m cs)" by blast
    from l(1) obtain k where k: "k < unat (m_sectors_per_cluster m)" "l = priv_cluster_to_lba m c + of_nat k"
      unfolding cluster_lbas_in by blast
    from l(2) obtain d j where j: "d \<in> set cs" "j < unat (m_sectors_per_cluster m)" "l = priv_cluster_to_lba m d + of_nat j"
      unfolding file_lbas_in by blast
    have "c = d" using cluster_lba_inj [OF dg _ _ k(1) j(2)] k(2) j Cons.prems(2) by (metis list.set_intros)
    then show False using j(1) Cons.prems(1) by simp
  qed
  ultimately show ?case using Cons by (simp add: file_lbas_def)
qed (simp add: file_lbas_def)

section \<open>One sector of data\<close>

context reliable_device
begin

text \<open>A sector written outside the FAT area: the FAT and the cache are not touched.\<close>

lemma write_outside_fat:
  assumes m: "on_backend b bs m" and g: "fat_geom m" and inv: "fs_inv valid content m s"
    and nf: "lba + m_partition_base_lba m \<notin> fat_area m" and len: "length buf = bs"
    and r: "priv_write_sector m lba buf s = (Inr (), t)"
  shows "fs_inv valid content m t" "vsec content m t = (vsec content m s)(lba := buf)"
    "fat_frame s t" "in_fat m c \<Longrightarrow> fat_at content m t c = fat_at content m s c"
proof -
  have v: "valid (world s)" using inv by (simp add: fs_inv_def)
  note ws = write_sector [OF m v len r]
  show vs: "vsec content m t = (vsec content m s)(lba := buf)" using ws(3) by (auto simp: vsec_def fun_eq_iff)
  obtain w where w: "t = s\<lparr>world := w\<rparr>" using ws(2) by (metis fs.surjective fs.update_convs(1))
  show "fat_frame s t" unfolding w by simp
  have "internal_lba_is_cacheable m (s_fat_cache_lba s) \<Longrightarrow> s_fat_cache_lba s \<noteq> lba"
    using cacheable_fat_area [OF g] nf by metis
  with inv vs ws(1) show "fs_inv valid content m t" by (auto simp: fs_inv_def coherent_def w)
  show "in_fat m c \<Longrightarrow> fat_at content m t c = fat_at content m s c"
    by (rule fat_at_outside [OF m g]) (use ws(3) nf in auto)
qed

lemma write_data_sector:
  assumes m: "on_backend b bs m" and g: "fat_geom m" and inv: "fs_inv valid content m s"
    and nf: "lba + m_partition_base_lba m \<notin> fat_area m" and src: "off + length src \<le> bs"
    and r: "priv_write_into_sector m lba off src s = (Inr (), t)"
  shows "fs_inv valid content m t" "vsec content m t = (vsec content m s)(lba := splice_at (vsec content m s lba) off src)"
    "fat_frame s t" "in_fat m c \<Longrightarrow> fat_at content m t c = fat_at content m s c"
proof -
  from r obtain sec u where rd: "priv_read_sector m lba s = (Inr sec, u)"
    and wr: "priv_write_sector m lba (priv_byte_copy sec off src 0 (length src)) u = (Inr (), t)"
    unfolding priv_write_into_sector_def by (rule bindE_InrE)
  have v: "valid (world s)" using inv by (simp add: fs_inv_def)
  note rs = read_sector [OF m v rd]
  have sec: "sec = vsec content m s lba" "length sec = bs" using rs(4) vsec_length by auto
  have cp: "priv_byte_copy sec off src 0 (length src) = splice_at sec off src"
    using src sec(2) by (subst byte_copy_splice) simp_all
  have len: "length (splice_at sec off src) = bs" using src sec(2) by simp
  have iu: "fs_inv valid content m u" using fs_inv_world [OF inv rs(1,2)] rs(3) by metis
  have vu: "vsec content m u = vsec content m s" using rs(2) by (simp add: vsec_def fun_eq_iff)
  have fu: "fat_frame s u" by (subst rs(3)) simp
  note ws = write_outside_fat [OF m g iu nf len wr [unfolded cp]]
  show "fs_inv valid content m t" by (rule ws(1))
  show "vsec content m t = (vsec content m s)(lba := splice_at (vsec content m s lba) off src)" using ws(2) vu sec by simp
  show "fat_frame s t" using fu ws(3) by (rule fat_frame_trans)
  show "in_fat m c \<Longrightarrow> fat_at content m t c = fat_at content m s c"
    using ws(4) [of c] fat_at_world [of content u s m] rs(2) by simp
qed

lemma write_file_sector:
  assumes m: "on_backend b bs m" and dg: "data_geom m" and d: "distinct cs" and cs: "\<forall>c \<in> set cs. in_data m c"
    and x: "x div bs < length (file_lbas m cs)" and src: "x mod bs + length src \<le> bs"
    and vs: "vsec content m t = (vsec content m s)(file_lbas m cs ! (x div bs) :=
      splice_at (vsec content m s (file_lbas m cs ! (x div bs))) (x mod bs) src)"
  shows "file_data content m t cs = splice_at (file_data content m s cs) x src"
proof -
  have "concat (map (vsec content m t) (file_lbas m cs)) =
      splice_at (concat (map (vsec content m s) (file_lbas m cs))) (x div bs * bs + x mod bs) src"
    by (rule concat_blocks_splice [OF _ file_lbas_distinct [OF dg d cs] x src]) (simp_all add: vsec_length vs)
  then show ?thesis by (simp add: file_data_def)
qed


end

section \<open>Growing chains\<close>

lemma chain_nonzero: "fat_geom m \<Longrightarrow> chain m tab c xs \<Longrightarrow> d \<in> set xs \<Longrightarrow> tab d \<noteq> 0"
proof (induction m tab c xs rule: chain.induct)
  case (3 m tab c x y xs)
  then have "inData m (tab c)" by (cases xs) (auto dest: chain_ConsD)
  with 3 show ?case by (auto simp: inData_iff in_data_def)
qed auto

lemma chain_glue:
  "chain m tab c (ps @ x # xs) \<Longrightarrow> \<forall>d \<in> set ps. tab' d = tab d \<Longrightarrow> chain m tab' x (x # ys) \<Longrightarrow> chain m tab' c (ps @ x # ys)"
proof (induction ps arbitrary: c)
  case Nil
  then show ?case by (auto dest: chain_ConsD)
next
  case (Cons p ps)
  then show ?case by (cases ps) auto
qed

text \<open>
  The chain \<open>cs\<close> has been extended by the clusters \<open>ys\<close>, free until then; besides their entries
  and the sectors of the file, nothing of the volume has changed.
\<close>

definition grown :: "('w \<Rightarrow> u64 \<Rightarrow> bytes) \<Rightarrow> 'w mount \<Rightarrow> 'w fs \<Rightarrow> 'w fs \<Rightarrow> u32 list \<Rightarrow> u32 list \<Rightarrow> bool" where
  "grown content m s t cs ys \<longleftrightarrow> (\<forall>y \<in> set ys. fat_at content m s y = 0) \<and>
     (\<forall>e. in_fat m e \<longrightarrow> e \<notin> set (cs @ ys) \<longrightarrow> fat_at content m t e = fat_at content m s e) \<and>
     (\<forall>l. l \<notin> fat_area m \<longrightarrow> l - m_partition_base_lba m \<notin> set (file_lbas m (cs @ ys)) \<longrightarrow>
       content (world t) l = content (world s) l) \<and> s_mounts t = s_mounts s"

lemma grown_trans:
  assumes g: "fat_geom m" and a: "grown content m s t cs ys" and b: "grown content m t u (cs @ ys) zs"
    and c: "chain m (fat_at content m t) x (cs @ ys)" and z: "\<forall>z \<in> set zs. in_fat m z"
  shows "grown content m s u cs (ys @ zs)"
proof -
  have "fat_at content m s z = 0" if "z \<in> set zs" for z
  proof -
    have t0: "fat_at content m t z = 0" using b that by (simp add: grown_def)
    then have "z \<notin> set (cs @ ys)" using chain_nonzero [OF g c] by blast
    then show ?thesis using a t0 z that by (simp add: grown_def)
  qed
  then show ?thesis using a b by (auto simp: grown_def file_lbas_def)
qed

definition file_writable :: "('w \<Rightarrow> u64 \<Rightarrow> bytes) \<Rightarrow> 'w mount \<Rightarrow> 'w fs \<Rightarrow> fs_file \<Rightarrow> u32 list \<Rightarrow> bool" where
  "file_writable content m s f cs \<longleftrightarrow> file_view content m s f cs \<and> f_offset f \<le> f_size_bytes f \<and>
     (cs = [] \<longrightarrow> f_first_cluster f < k_cluster_first_data)"

definition way_ok :: "write_walk \<Rightarrow> u32 list \<Rightarrow> nat \<Rightarrow> bool" where
  "way_ok way cs q \<longleftrightarrow> (cs \<noteq> [] \<longrightarrow> unat (ww_index way) < length cs \<and>
     cs ! unat (ww_index way) = ww_cluster way \<and> unat (ww_index way) \<le> q)"

text \<open>The effect of writing \<open>bytes\<close> at the position of the open file \<open>i\<close>.\<close>

definition wrote :: "('w \<Rightarrow> bool) \<Rightarrow> ('w \<Rightarrow> u64 \<Rightarrow> bytes) \<Rightarrow> 'w mount \<Rightarrow> nat \<Rightarrow> u32 list \<Rightarrow> 'w fs \<Rightarrow> bytes \<Rightarrow> u32 list \<Rightarrow> 'w fs \<Rightarrow> bool" where
  "wrote valid content m i cs s bytes ys t \<longleftrightarrow> grown content m s t cs ys \<and> fs_inv valid content m t \<and> open_on t i m \<and>
     file_writable content m t (s_files t ! i) (cs @ ys) \<and>
     unat (f_offset (s_files t ! i)) = unat (f_offset (s_files s ! i)) + length bytes \<and>
     unat (f_size_bytes (s_files t ! i)) = max (unat (f_size_bytes (s_files s ! i))) (unat (f_offset (s_files s ! i)) + length bytes) \<and>
     (\<exists>a c p z. s_files t = (s_files s)[i := (s_files s ! i)\<lparr>f_first_cluster := a, f_cur_cluster := c,
        f_offset := p, f_size_bytes := z\<rparr>]) \<and>
     file_data content m t (cs @ ys) = splice_at (file_data content m s (cs @ ys)) (unat (f_offset (s_files s ! i))) bytes"

context reliable_device
begin

lemma write_position_ok:
  assumes m: "on_backend b bs m" and g: "fat_geom m" and ty: "fat_typed m" and inv: "fs_inv valid content m s"
    and op: "open_on s i m" and w: "file_writable content m s (s_files s ! i) cs" and way: "way_ok way cs q"
    and q: "q \<le> length cs" "unat idx = q" and r: "internal_write_position i way idx s = (Inr (cur, way'), t)"
  shows "\<exists>ys a b. chain m (fat_at content m t) a (cs @ ys) \<and> length (cs @ ys) = max (length cs) (Suc q) \<and> cur = (cs @ ys) ! q \<and>
    way' = \<lparr>ww_cluster = cur, ww_index = idx\<rparr> \<and> (\<forall>y \<in> set ys. fat_at content m s y = 0) \<and>
    (\<forall>e. in_fat m e \<longrightarrow> e \<notin> set (cs @ ys) \<longrightarrow> fat_at content m t e = fat_at content m s e) \<and> fs_inv valid content m t \<and>
    s_mounts t = s_mounts s \<and> s_files t = (s_files s)[i := (s_files s ! i)\<lparr>f_first_cluster := a, f_cur_cluster := b\<rparr>] \<and>
    (\<forall>l. l \<notin> fat_area m \<longrightarrow> content (world t) l = content (world s) l)"
proof (cases "cs = []")
  case True
  let ?f = "s_files s ! i"
  have i: "i < length (s_files s)" using op by (simp add: open_on_def)
  have f1: "f_first_cluster ?f < k_cluster_first_data" using w True by (simp add: file_writable_def)
  from r i f1 obtain c u where al: "priv_alloc_eoc_cluster m s = (Inr c, u)"
    and t: "internal_walk_grow m c (idx - idx) (u\<lparr>s_files := (s_files u)[i := (s_files u ! i)\<lparr>f_first_cluster := c, f_cur_cluster := c\<rparr>]\<rparr>) = (Inr cur, t)"
    and w': "way' = \<lparr>ww_cluster = cur, ww_index = idx\<rparr>"
    by (auto simp: internal_write_position_def bindE_run file_mount_run [OF op] fileE_def set_file_def modifyE_def elim!: bindE_InrE)
  note ao = alloc_eoc [OF m g inv al]
  have q0: "q = 0" using q True by simp
  from t have cur: "cur = c" and t: "t = u\<lparr>s_files := (s_files u)[i := (s_files u ! i)\<lparr>f_first_cluster := c, f_cur_cluster := c\<rparr>]\<rparr>"
    by (auto simp: internal_walk_grow_def)
  have fa: "fat_at content m t = fat_at content m u" by (rule fat_at_world) (simp add: t)
  have ch: "chain m (fat_at content m t) c [c]"
    using ao eoc_write_is_eoc [of m] g by (simp add: fa inData_iff)
  have "fs_inv valid content m t" using ao by (simp add: t fs_inv_def coherent_def vsec_def)
  with ch show ?thesis using ao w' cur q0 True
    by (intro exI [of _ "[c]"] exI [of _ c]) (auto simp: fa, auto simp: t meta_only_def)
next
  case False
  let ?f = "s_files s ! i" and ?k = "unat (ww_index way)"
  have ch: "chain m (fat_at content m s) (f_first_cluster ?f) cs" using w False by (simp add: file_writable_def file_view_def)
  have k: "?k < length cs" "cs ! ?k = ww_cluster way" "?k \<le> q" using way False by (auto simp: way_ok_def)
  have i: "i < length (s_files s)" using op by (simp add: open_on_def)
  have "inData m (f_first_cluster ?f)" using ch False by (cases cs) (auto dest: chain_ConsD)
  then have f1: "\<not> f_first_cluster ?f < k_cluster_first_data" by (simp add: inData_def not_less)
  from r i f1 have t: "internal_walk_grow m (ww_cluster way) (idx - ww_index way) s = (Inr cur, t)"
    and w': "way' = \<lparr>ww_cluster = cur, ww_index = idx\<rparr>"
    by (auto simp: internal_write_position_def bindE_run file_mount_run [OF op] fileE_def elim!: bindE_InrE)
  have n: "unat (idx - ww_index way) = q - ?k" using k q by (subst unat_sub_le) (simp_all add: word_le_nat_alt)
  have cd: "chain m (fat_at content m s) (ww_cluster way) (drop ?k cs)" using chain_drop [OF ch k(1)] k(2) by simp
  from walk_grow [OF m g ty inv cd t [unfolded internal_walk_grow_def n]] obtain ys where ys:
    "chain m (fat_at content m t) (ww_cluster way) (drop ?k cs @ ys)" "cur = (drop ?k cs @ ys) ! (q - ?k)"
    "length (drop ?k cs @ ys) = max (length (drop ?k cs)) (Suc (q - ?k))" "\<forall>y \<in> set ys. fat_at content m s y = 0"
    "\<forall>e. in_fat m e \<longrightarrow> e \<notin> set (drop ?k cs @ ys) \<longrightarrow> fat_at content m t e = fat_at content m s e"
    "fs_inv valid content m t" "meta_only content m s t" by blast
  have same: "fat_at content m t d = fat_at content m s d" if "d \<in> set (take ?k cs)" for d
  proof -
    have "d \<in> set cs" using that by (rule in_set_takeD)
    then have "d \<notin> set ys" "in_fat m d"
      using ys(4) chain_nonzero [OF g ch] chain_data [OF ch] g by (auto simp: inData_iff in_data_in_fat)
    moreover have "d \<notin> set (drop ?k cs)" using that chain_distinct [OF ch] by (metis append_take_drop_id disjoint_iff distinct_append)
    ultimately show ?thesis using ys(5) by simp
  qed
  have dk: "drop ?k cs = ww_cluster way # drop (Suc ?k) cs" using k by (metis Cons_nth_drop_Suc)
  have "chain m (fat_at content m t) (f_first_cluster ?f) (take ?k cs @ ww_cluster way # (drop (Suc ?k) cs @ ys))"
    by (rule chain_glue [where tab = "fat_at content m s" and xs = "drop (Suc ?k) cs"])
      (use ch same ys(1) dk in \<open>auto simp: id_take_nth_drop [OF k(1), symmetric] k(2) [symmetric]\<close>)
  then have "chain m (fat_at content m t) (f_first_cluster ?f) (cs @ ys)"
    using id_take_nth_drop [OF k(1)] k(2) by (metis append_Cons append_assoc)
  moreover have "(drop ?k cs @ ys) ! (q - ?k) = (cs @ ys) ! q"
    using k nth_drop [of ?k "cs @ ys" "q - ?k"] by simp
  moreover have "length (cs @ ys) = max (length cs) (Suc q)" using ys(3) k(1,3) unfolding length_append length_drop by arith
  moreover have "e \<notin> set (drop ?k cs @ ys)" if "e \<notin> set (cs @ ys)" for e using that by (auto dest: in_set_dropD)
  ultimately show ?thesis using ys(2,4-7) w' i
    by (intro exI [of _ ys] exI [of _ "f_first_cluster ?f"] exI [of _ "f_cur_cluster ?f"]) (simp add: meta_only_def)
qed


lemma file_data_append: "file_data content m s (cs @ ys) = file_data content m s cs @ file_data content m s ys"
  by (simp add: file_data_def file_lbas_def)


lemma file_data_not_fat:
  assumes dg: "data_geom m" and cs: "\<forall>c \<in> set cs. in_data m c"
    and eq: "\<forall>l. l \<notin> fat_area m \<longrightarrow> content (world t) l = content (world s) l"
  shows "file_data content m t cs = file_data content m s cs"
proof -
  have "vsec content m t l = vsec content m s l" if l: "l \<in> set (file_lbas m cs)" for l
    using l cs eq cluster_not_fat [OF dg] unfolding file_lbas_in vsec_def by metis
  then show ?thesis unfolding file_data_def by (simp cong: map_cong)
qed

text \<open>One iteration of the loop, with the position and the sector as natural numbers.\<close>

lemma write_loop_run:
  assumes m: "on_backend b bs m" and cg: "cluster_geom m" and op: "open_on s i m" and ne: "rest \<noteq> []"
  defines "x \<equiv> unat (f_offset (s_files s ! i))" and "cb \<equiv> unat (m_sectors_per_cluster m) * bs"
  defines "k \<equiv> min (bs - x mod bs) (length rest)"
  assumes small: "x < 2 ^ 32"
  shows "write_loop (Suc n) i way rest s = bindE (internal_write_position i way (of_nat (x div cb))) (\<lambda>(cur, way').
     bindE (set_file i (\<lambda>f. f\<lparr>f_cur_cluster := cur\<rparr>)) (\<lambda>_.
     bindE (priv_write_into_sector m (priv_cluster_to_lba m cur + of_nat (x mod cb div bs)) (x mod bs) (take k rest)) (\<lambda>_.
     bindE (set_file i (\<lambda>f. let o' = f_offset f + of_nat k in
         f\<lparr>f_offset := o', f_size_bytes := (if o' > f_size_bytes f then o' else f_size_bytes f)\<rparr>)) (\<lambda>_.
       write_loop n i way' (drop k rest))))) s"
proof -
  define f where "f = s_files s ! i"
  define idx where "idx = (ucast (f_offset f div ucast (priv_cluster_bytes m)) :: u32)"
  define oc where "oc = (ucast (f_offset f mod ucast (priv_cluster_bytes m)) :: u32)"
  have bps: "unat (priv_bps m) = bs" "0 < bs" using m by (auto simp: on_backend_def priv_bps_def)
  have i: "i < length (s_files s)" using op by (simp add: open_on_def)
  have "x div cb < 2 ^ 32" using small div_le_dividend [of x cb] by linarith
  note pos = offset_split [OF m cg, of "f_offset f", folded x_def [folded f_def] cb_def idx_def oc_def, OF this]
  have cb0: "priv_cluster_bytes m \<noteq> 0" using pos(1,2) by auto
  have ocs: "unat (oc mod priv_bps m) = x mod bs" "unat (oc div priv_bps m) = x mod cb div bs"
    using pos(4,7) by (simp_all add: unat_mod unat_div bps)
  have put: "min (unat (priv_bps m - oc mod priv_bps m)) (length rest) = k"
    using ocs bps by (subst unat_sub_le) (simp_all add: k_def word_le_nat_alt mod_le_divisor)
  have sec: "ucast (oc div priv_bps m) = (of_nat (x mod cb div bs) :: u64)" unfolding ocs(2) [symmetric] by simp
  have idx: "of_nat (x div cb) = idx" unfolding pos(3) [symmetric] by simp
  show ?thesis unfolding write_loop.simps Let_def idx
    using i ne by (simp add: put sec ocs(1) bindE_run file_mount_run [OF op] fileE_def cluster_bytesE_def cb0 f_def [symmetric]
        idx_def [symmetric] oc_def [symmetric] cong: if_cong split del: if_split)
qed

lemma write_chunk:
  assumes m: "on_backend b bs m" and g: "fat_geom m" and ty: "fat_typed m" and cg: "cluster_geom m" and dg: "data_geom m"
    and inv: "fs_inv valid content m s" and op: "open_on s i m" and w: "file_writable content m s (s_files s ! i) cs"
  defines "f \<equiv> s_files s ! i"
  defines "x \<equiv> unat (f_offset f)" and "cb \<equiv> unat (m_sectors_per_cluster m) * bs"
  assumes way: "way_ok way cs (x div cb)" and small: "x + length src < 2 ^ 32" and kb: "x mod bs + length src \<le> bs"
    and p: "internal_write_position i way (of_nat (x div cb)) s = (Inr (cur, way'), u1)"
    and ws: "priv_write_into_sector m (priv_cluster_to_lba m cur + of_nat (x mod cb div bs)) (x mod bs) src
      (u1\<lparr>s_files := (s_files u1)[i := (s_files u1 ! i)\<lparr>f_cur_cluster := cur\<rparr>]\<rparr>) = (Inr (), u2)"
  defines "u \<equiv> u2\<lparr>s_files := (s_files u2)[i := (let f = s_files u2 ! i; o' = f_offset f + of_nat (length src) in
            f\<lparr>f_offset := o', f_size_bytes := (if o' > f_size_bytes f then o' else f_size_bytes f)\<rparr>)]\<rparr>"
  shows "\<exists>ys. wrote valid content m i cs s src ys u \<and> way_ok way' (cs @ ys) ((x + length src) div cb) \<and>
    length (cs @ ys) = max (length cs) (Suc (x div cb))"
proof -
  have bs: "0 < bs" using m by (auto simp: on_backend_def)
  have i: "i < length (s_files s)" using op by (simp add: open_on_def)
  have q32: "x div cb < 2 ^ 32" using small div_le_dividend [of x cb] by linarith
  note pos = offset_split [OF m cg, of "f_offset f", folded x_def cb_def, OF q32]
  have idx: "unat (of_nat (x div cb) :: u32) = x div cb" using q32 by (simp add: unat_of_nat_small)
  have "x \<le> unat (f_size_bytes f)" using w by (simp add: file_writable_def x_def f_def word_le_nat_alt)
  also have "\<dots> \<le> length cs * cb" using w pos(1) by (simp add: file_writable_def file_view_def f_def)
  finally have q: "x div cb \<le> length cs" using pos(2) by (metis div_le_mono nonzero_mult_div_cancel_right less_numeral_extra(3))
  from write_position_ok [OF m g ty inv op w way q idx p] obtain ys a c where
    ch: "chain m (fat_at content m u1) a (cs @ ys)" and len: "length (cs @ ys) = max (length cs) (Suc (x div cb))"
    and cur: "cur = (cs @ ys) ! (x div cb)" and wy: "way' = \<lparr>ww_cluster = cur, ww_index = of_nat (x div cb)\<rparr>"
    and fr: "\<forall>y \<in> set ys. fat_at content m s y = 0"
    and oth: "\<forall>e. in_fat m e \<longrightarrow> e \<notin> set (cs @ ys) \<longrightarrow> fat_at content m u1 e = fat_at content m s e"
    and i1: "fs_inv valid content m u1" and st: "s_mounts u1 = s_mounts s"
      "s_files u1 = (s_files s)[i := f\<lparr>f_first_cluster := a, f_cur_cluster := c\<rparr>]"
    and nf: "\<forall>l. l \<notin> fat_area m \<longrightarrow> content (world u1) l = content (world s) l"
    unfolding f_def by blast
  define v where "v = u1\<lparr>s_files := (s_files u1)[i := (s_files u1 ! i)\<lparr>f_cur_cluster := cur\<rparr>]\<rparr>"
  have vw: "world v = world u1" by (simp add: v_def)
  have iv: "fs_inv valid content m v" using i1 by (simp add: v_def fs_inv_def coherent_def vsec_def)
  have fav: "fat_at content m v = fat_at content m u1" by (rule fat_at_world) (simp add: vw)
  have ql: "x div cb < length (cs @ ys)" using len by simp
  define lba where "lba = priv_cluster_to_lba m cur + of_nat (x mod cb div bs)"
  have dat: "\<forall>c \<in> set (cs @ ys). in_data m c" using chain_data [OF ch] g by (simp add: inData_iff)
  have sl: "x mod cb div bs < unat (m_sectors_per_cluster m)" using pos(5) .
  have lba: "lba = file_lbas m (cs @ ys) ! (x div bs)"
    using file_lbas_nth [OF ql sl] pos(6) by (simp add: lba_def cur)
  have xl: "x div bs < length (file_lbas m (cs @ ys))"
  proof -
    have "x div bs < Suc (x div cb) * unat (m_sectors_per_cluster m)" using pos(5,6) by simp
    also have "\<dots> \<le> length (cs @ ys) * unat (m_sectors_per_cluster m)" using ql by (intro mult_le_mono1) simp
    finally show ?thesis by (simp add: file_lbas_length)
  qed
  have nfl: "lba + m_partition_base_lba m \<notin> fat_area m"
    unfolding lba_def by (rule cluster_not_fat [OF dg _ sl]) (use dat nth_mem [OF ql] cur in blast)
  note wd = write_data_sector [OF m g iv nfl kb ws [folded lba_def, folded v_def]]
  define o' where "o' = f_offset f + of_nat (length src)"
  define z where "z = (if o' > f_size_bytes f then o' else f_size_bytes f)"
  define f2 where "f2 = f\<lparr>f_first_cluster := a, f_cur_cluster := cur, f_offset := o', f_size_bytes := z\<rparr>"
  have sf: "s_files u2 = (s_files s)[i := f\<lparr>f_first_cluster := a, f_cur_cluster := cur\<rparr>]" "s_mounts u2 = s_mounts s"
    using wd(3) i st by (simp_all add: fat_frame_def v_def)
  have ud: "u = u2\<lparr>s_files := (s_files s)[i := f2]\<rparr>"
    unfolding u_def sf using i by (simp add: Let_def f2_def z_def o'_def cong: if_cong split del: if_split)
  have uw: "world u = world u2" "s_files u ! i = f2" "s_mounts u = s_mounts s" using i sf by (simp_all add: ud)
  have fau: "fat_at content m u = fat_at content m u2" by (rule fat_at_world) (simp add: uw)
  have fae: "fat_at content m u e = fat_at content m u1 e" if "in_fat m e" for e using wd(4) [OF that] by (simp add: fau fav)
  have ko: "unat o' = x + length src" unfolding o'_def x_def using small
    by (subst unat_add_small) (simp_all add: unat_of_nat_small x_def)
  have kz: "unat z = max (unat (f_size_bytes f)) (x + length src)" using ko by (auto simp: z_def word_less_nat_alt max_def)
  have "x + length src \<le> Suc (x div bs) * bs" using kb div_mult_mod_eq [of x bs] unfolding mult_Suc by linarith
  also have "\<dots> \<le> length (file_lbas m (cs @ ys)) * bs" using xl by (intro mult_le_mono1) simp
  finally have fits: "x + length src \<le> length (cs @ ys) * cb" by (simp only: file_lbas_length cb_def mult.assoc)
  have chu: "chain m (fat_at content m u) a (cs @ ys)"
    by (rule chain_cong [OF ch]) (use fae dat in \<open>simp add: in_data_in_fat\<close>)
  have sz: "unat z \<le> length (cs @ ys) * cb"
    using fits w pos(1) by (auto simp: kz file_writable_def file_view_def f_def algebra_simps)
  have wr: "file_writable content m u f2 (cs @ ys)"
    using chu sz w len ko kz pos(1) by (auto simp: file_writable_def file_view_def f2_def f_def word_le_nat_alt nth_append)
  have gr: "grown content m s u cs ys"
  proof -
    have "content (world u) l = content (world s) l"
      if l: "l \<notin> fat_area m" "l - m_partition_base_lba m \<notin> set (file_lbas m (cs @ ys))" for l
    proof -
      have "l - m_partition_base_lba m \<noteq> lba" using l(2) lba nth_mem [OF xl] by metis
      then have "vsec content m u2 (l - m_partition_base_lba m) = vsec content m v (l - m_partition_base_lba m)" by (simp add: wd(2))
      then show ?thesis using nf l(1) by (simp add: vsec_def uw vw)
    qed
    then show ?thesis using fr oth fae uw(3) by (simp add: grown_def)
  qed
  have fd: "file_data content m u (cs @ ys) = splice_at (file_data content m s (cs @ ys)) x src"
  proof -
    have "file_data content m u2 (cs @ ys) = splice_at (file_data content m v (cs @ ys)) x src"
      by (rule write_file_sector [OF m dg chain_distinct [OF ch] dat xl kb]) (simp add: wd(2) lba)
    moreover have "file_data content m v (cs @ ys) = file_data content m s (cs @ ys)"
      by (rule file_data_not_fat [OF dg dat]) (use nf vw in simp)
    moreover have "file_data content m u (cs @ ys) = file_data content m u2 (cs @ ys)"
      by (rule file_data_not_fat [OF dg dat]) (simp add: uw)
    ultimately show ?thesis by simp
  qed
  have "wrote valid content m i cs s src ys u"
  proof -
    have "fs_inv valid content m u" using wd(1) by (simp add: ud fs_inv_def coherent_def vsec_def)
    moreover have "open_on u i m" using op i by (simp add: open_on_def uw f2_def f_def ud sf)
    moreover have "s_files u = (s_files s)[i := f\<lparr>f_first_cluster := a, f_cur_cluster := cur, f_offset := o', f_size_bytes := z\<rparr>]"
      by (simp add: ud f2_def)
    ultimately show ?thesis unfolding wrote_def uw(2) using gr fd wr ko kz
      by (auto simp: f2_def x_def f_def)
  qed
  moreover have "way_ok way' (cs @ ys) ((x + length src) div cb)"
    using ql idx cur by (simp add: way_ok_def wy div_le_mono)
  ultimately show ?thesis using len by blast
qed

lemma write_step:
  assumes m: "on_backend b bs m" and g: "fat_geom m" and ty: "fat_typed m" and cg: "cluster_geom m" and dg: "data_geom m"
    and inv: "fs_inv valid content m s" and op: "open_on s i m" and w: "file_writable content m s (s_files s ! i) cs"
    and ne: "rest \<noteq> []" and r: "write_loop (Suc n) i way rest s = (Inr (), t)"
  defines "x \<equiv> unat (f_offset (s_files s ! i))" and "cb \<equiv> unat (m_sectors_per_cluster m) * bs"
  assumes way: "way_ok way cs (x div cb)" and small: "x + length rest < 2 ^ 32"
  shows "\<exists>u ys way' k. 0 < k \<and> k \<le> length rest \<and> wrote valid content m i cs s (take k rest) ys u \<and>
    way_ok way' (cs @ ys) ((x + k) div cb) \<and> write_loop n i way' (drop k rest) u = (Inr (), t)"
proof -
  define k where "k = min (bs - x mod bs) (length rest)"
  have bs: "0 < bs" using m by (auto simp: on_backend_def)
  have k: "0 < k" "k \<le> length rest" "length (take k rest) = k" using ne bs by (simp_all add: k_def)
  have kb: "x mod bs + length (take k rest) \<le> bs" using mod_less_divisor [OF bs, of x] unfolding length_take k_def by linarith
  have small': "x < 2 ^ 32" "x + length (take k rest) < 2 ^ 32" using small k by simp_all
  from r obtain cur way' u1 u2 where
    p: "internal_write_position i way (of_nat (x div cb)) s = (Inr (cur, way'), u1)"
    and ws: "priv_write_into_sector m (priv_cluster_to_lba m cur + of_nat (x mod cb div bs)) (x mod bs) (take k rest)
      (u1\<lparr>s_files := (s_files u1)[i := (s_files u1 ! i)\<lparr>f_cur_cluster := cur\<rparr>]\<rparr>) = (Inr (), u2)"
    and lp: "write_loop n i way' (drop k rest) (u2\<lparr>s_files := (s_files u2)[i := (let f = s_files u2 ! i; o' = f_offset f + of_nat k in
            f\<lparr>f_offset := o', f_size_bytes := (if o' > f_size_bytes f then o' else f_size_bytes f)\<rparr>)]\<rparr>) = (Inr (), t)"
    unfolding write_loop_run [OF m cg op ne small'(1) [unfolded x_def], folded x_def cb_def, folded k_def]
    by (auto simp: set_file_def modifyE_def bindE_run Let_def elim!: bindE_InrE)
  from write_chunk [OF m g ty cg dg inv op w, folded x_def cb_def, OF way small'(2) kb p ws] lp k show ?thesis by metis
qed

text \<open>Writing in two parts is writing the whole.\<close>

lemma wrote_trans:
  assumes m: "on_backend b bs m" and g: "fat_geom m" and cg: "cluster_geom m" and dg: "data_geom m"
    and a: "wrote valid content m i cs s p ys t" and c: "wrote valid content m i (cs @ ys) t r zs u"
    and i: "i < length (s_files s)" and ne: "cs @ ys \<noteq> []"
  shows "wrote valid content m i cs s (p @ r) (ys @ zs) u"
proof -
  let ?f = "s_files s ! i" and ?x = "unat (f_offset (s_files s ! i))"
  have ch: "chain m (fat_at content m t) (f_first_cluster (s_files t ! i)) (cs @ ys)"
    using a ne by (simp add: wrote_def file_writable_def file_view_def)
  have chu: "chain m (fat_at content m u) (f_first_cluster (s_files u ! i)) (cs @ ys @ zs)"
    using c ne by (auto simp: wrote_def file_writable_def file_view_def)
  have dat: "\<forall>c \<in> set (cs @ ys @ zs). in_data m c" and ds: "distinct (cs @ ys @ zs)"
    using chain_data [OF chu] chain_distinct [OF chu] inData_iff [OF g] by blast+
  have gr: "grown content m s u cs (ys @ zs)"
    by (rule grown_trans [OF g _ _ ch]) (use a c dat in \<open>auto simp: wrote_def in_data_in_fat\<close>)
  have "vsec content m t l = vsec content m s l" if l: "l \<in> set (file_lbas m zs)" for l
  proof -
    from l obtain d k where d: "d \<in> set zs" "k < unat (m_sectors_per_cluster m)" "l = priv_cluster_to_lba m d + of_nat k"
      unfolding file_lbas_in by blast
    have "l + m_partition_base_lba m \<notin> fat_area m" unfolding d(3) by (rule cluster_not_fat [OF dg _ d(2)]) (use dat d in simp)
    moreover have "l \<notin> set (file_lbas m (cs @ ys))"
    proof
      assume "l \<in> set (file_lbas m (cs @ ys))"
      then obtain e j where e: "e \<in> set (cs @ ys)" "j < unat (m_sectors_per_cluster m)" "l = priv_cluster_to_lba m e + of_nat j"
        unfolding file_lbas_in by blast
      then have "d = e" using cluster_lba_inj [OF dg _ _ d(2) e(2)] d dat by auto
      then show False using ds d(1) e(1) by auto
    qed
    ultimately show ?thesis using a by (simp add: wrote_def grown_def vsec_def)
  qed
  then have zt: "file_data content m t zs = file_data content m s zs" unfolding file_data_def by (simp cong: map_cong)
  have lt: "?x + length p \<le> length (file_data content m s (cs @ ys))"
    using file_view_length [OF m cg, of t "s_files t ! i" "cs @ ys" s] a by (simp add: wrote_def file_writable_def)
  have lu: "?x + length p + length r \<le> length (file_data content m s (cs @ ys @ zs))"
    using file_view_length [OF m cg, of u "s_files u ! i" "(cs @ ys) @ zs" s] a c by (simp add: wrote_def file_writable_def)
  have "file_data content m u (cs @ ys @ zs) = splice_at (splice_at (file_data content m s (cs @ ys)) ?x p @ file_data content m s zs) (?x + length p) r"
    using a c file_data_append [of m t "cs @ ys" zs] zt by (simp add: wrote_def)
  also have "\<dots> = splice_at (file_data content m s (cs @ ys @ zs)) ?x (p @ r)"
    using splice_at_append [OF lt, of "file_data content m s zs"] splice_at_join [OF lu] by (simp add: file_data_append)
  finally have fd: "file_data content m u (cs @ ys @ zs) = splice_at (file_data content m s (cs @ ys @ zs)) ?x (p @ r)" .
  from a c obtain a1 c1 p1 z1 a2 c2 p2 z2 where
    "s_files t = (s_files s)[i := ?f\<lparr>f_first_cluster := a1, f_cur_cluster := c1, f_offset := p1, f_size_bytes := z1\<rparr>]"
    "s_files u = (s_files t)[i := (s_files t ! i)\<lparr>f_first_cluster := a2, f_cur_cluster := c2, f_offset := p2, f_size_bytes := z2\<rparr>]"
    unfolding wrote_def by blast
  then have "s_files u = (s_files s)[i := ?f\<lparr>f_first_cluster := a2, f_cur_cluster := c2, f_offset := p2, f_size_bytes := z2\<rparr>]"
    using i by simp
  then have ex: "\<exists>a c p z. s_files u = (s_files s)[i := ?f\<lparr>f_first_cluster := a, f_cur_cluster := c, f_offset := p, f_size_bytes := z\<rparr>]"
    by blast
  show ?thesis unfolding wrote_def using a c gr fd ex by (simp add: wrote_def add.assoc)
qed

lemma wrote_nil:
  assumes "fs_inv valid content m s" and op: "open_on s i m" and "file_writable content m s (s_files s ! i) cs"
  shows "wrote valid content m i cs s [] [] s"
proof -
  let ?f = "s_files s ! i"
  have "\<exists>a c p z. s_files s = (s_files s)[i := ?f\<lparr>f_first_cluster := a, f_cur_cluster := c, f_offset := p, f_size_bytes := z\<rparr>]"
    by (rule exI [of _ "f_first_cluster ?f"], rule exI [of _ "f_cur_cluster ?f"], rule exI [of _ "f_offset ?f"],
        rule exI [of _ "f_size_bytes ?f"]) simp
  then show ?thesis using assms unfolding wrote_def
    by (simp add: grown_def file_writable_def word_le_nat_alt max_def)
qed

lemma write_loop_ok:
  assumes m: "on_backend b bs m" and g: "fat_geom m" and ty: "fat_typed m" and cg: "cluster_geom m" and dg: "data_geom m"
  shows "write_loop n i way rest s = (Inr (), t) \<Longrightarrow> fs_inv valid content m s \<Longrightarrow> open_on s i m \<Longrightarrow>
    file_writable content m s (s_files s ! i) cs \<Longrightarrow> length rest \<le> n \<Longrightarrow>
    way_ok way cs (unat (f_offset (s_files s ! i)) div (unat (m_sectors_per_cluster m) * bs)) \<Longrightarrow>
    unat (f_offset (s_files s ! i)) + length rest < 2 ^ 32 \<Longrightarrow> \<exists>ys. wrote valid content m i cs s rest ys t"
proof (induction n arbitrary: s way rest cs)
  case 0
  then show ?case by (intro exI [of _ "[]"]) (simp add: wrote_nil)
next
  case (Suc n)
  show ?case
  proof (cases "rest = []")
    case True
    with Suc.prems show ?thesis by (intro exI [of _ "[]"]) (simp add: wrote_nil)
  next
    case False
    from write_step [OF m g ty cg dg Suc.prems(2-4) False Suc.prems(1,6,7)] obtain u ys way' k where
      k: "0 < k" "k \<le> length rest" and w: "wrote valid content m i cs s (take k rest) ys u"
      and way: "way_ok way' (cs @ ys) ((unat (f_offset (s_files s ! i)) + k) div (unat (m_sectors_per_cluster m) * bs))"
      and run: "write_loop n i way' (drop k rest) u = (Inr (), t)" by blast
    have o': "unat (f_offset (s_files u ! i)) = unat (f_offset (s_files s ! i)) + k" using w k by (simp add: wrote_def)
    have "\<exists>zs. wrote valid content m i (cs @ ys) u (drop k rest) zs t"
      by (rule Suc.IH [OF run]) (use w way k o' Suc.prems(5,7) in \<open>auto simp: wrote_def\<close>)
    then obtain zs where zs: "wrote valid content m i (cs @ ys) u (drop k rest) zs t" by blast
    have "cs @ ys \<noteq> []"
    proof
      assume "cs @ ys = []"
      then have "unat (f_size_bytes (s_files u ! i)) = 0" using w by (simp add: wrote_def file_writable_def file_view_def)
      then show False using w k by (simp add: wrote_def)
    qed
    moreover have "i < length (s_files s)" using Suc.prems(3) by (simp add: open_on_def)
    ultimately show ?thesis using wrote_trans [OF m g cg dg w zs] by (auto simp: append_take_drop_id)
  qed
qed

end

end
