(* ===== verification/Fat_Check.thy ===== *)
theory Fat_Check
  imports Fat_File
begin

text \<open>
  \<^verbatim>\<open>ra8_fs_fat_check.c\<close>: the read-only consistency check of a FAT volume. The check context, report and
  scratch bitmap, is a value that the steps return updated; a failed step gives an error, and then nothing of the
  context is looked at any more.
\<close>

section \<open>Report and context\<close>

datatype fault_kind =
    k_ra8_fs_check_fault_none | k_ra8_fs_check_fault_bad_fat_value | k_ra8_fs_check_fault_crosslink
  | k_ra8_fs_check_fault_lost_cluster | k_ra8_fs_check_fault_bad_chain | k_ra8_fs_check_fault_bad_dir_entry
  | k_ra8_fs_check_fault_bad_set_checksum | k_ra8_fs_check_fault_bad_name_hash
  | k_ra8_fs_check_fault_bitmap_ref_unset | k_ra8_fs_check_fault_free_count_bad
  | k_ra8_fs_check_fault_scan_truncated

record check_fault =
  cf_kind :: fault_kind
  cf_cluster :: u32
  cf_lba :: u64
  cf_entry_off :: u32

record check_report =
  cr_type :: fs_type
  cr_referenced_scan :: bool
  cr_clusters_total :: u32
  cr_clusters_free :: u32
  cr_clusters_used :: u32
  cr_clusters_bad :: u32
  cr_clusters_lost :: u32
  cr_chains_crosslinked :: u32
  cr_bitmap_mismatches :: u32
  cr_entries_bad :: u32
  cr_dirs_visited :: u32
  cr_files_visited :: u32
  cr_faults_total :: u32
  cr_first_fault :: check_fault

text \<open>The bitmap is \<open>None\<close> for the null pointer.\<close>

record check_ctx =
  ck_rep :: check_report
  ck_bitmap :: "bytes option"
  ck_bitmap_bits :: u32

abbreviation (input) k_ra8_fs_check_max_dirs :: nat where "k_ra8_fs_check_max_dirs \<equiv> 128"
abbreviation (input) k_ra8_fs_check_unknown :: u32 where "k_ra8_fs_check_unknown \<equiv> 0xFFFFFFFF"

definition on_rep :: "(check_report \<Rightarrow> check_report) \<Rightarrow> check_ctx \<Rightarrow> check_ctx" where
  "on_rep f ctx = ctx\<lparr>ck_rep := f (ck_rep ctx)\<rparr>"

definition priv_check_fault :: "fault_kind \<Rightarrow> u32 \<Rightarrow> u64 \<Rightarrow> u32 \<Rightarrow> check_ctx \<Rightarrow> check_ctx" where
  "priv_check_fault kind cluster lba eoff = on_rep (\<lambda>r.
     (if cr_faults_total r = 0
      then r\<lparr>cr_first_fault := \<lparr>cf_kind = kind, cf_cluster = cluster, cf_lba = lba, cf_entry_off = eoff\<rparr>\<rparr>
      else r)\<lparr>cr_faults_total := cr_faults_total r + 1\<rparr>)"

definition priv_check_in_range :: "check_ctx \<Rightarrow> u32 \<Rightarrow> bool" where
  "priv_check_in_range ctx cluster =
     (if cluster < k_cluster_first_data then False
      else cluster - k_cluster_first_data < cr_clusters_total (ck_rep ctx))"

text \<open>The byte and the mask of a cluster index in the bitmap.\<close>

abbreviation mark_byte :: "u32 \<Rightarrow> nat" where "mark_byte idx \<equiv> unat (drop_bit 3 idx)"
abbreviation mark_mask :: "u32 \<Rightarrow> u8" where "mark_mask idx \<equiv> push_bit (unat (idx AND 7)) 1"

definition priv_check_mark :: "u32 \<Rightarrow> check_ctx \<Rightarrow> bool \<times> check_ctx" where
  "priv_check_mark cluster ctx =
     (let idx = cluster - k_cluster_first_data in
      case ck_bitmap ctx of
        None \<Rightarrow> (False, ctx) \<comment> \<open>only called with a bitmap\<close>
      | Some bm \<Rightarrow>
          if bm ! mark_byte idx AND mark_mask idx \<noteq> 0 then (True, ctx)
          else (False, ctx\<lparr>ck_bitmap := Some (bm[mark_byte idx := bm ! mark_byte idx OR mark_mask idx])\<rparr>))"

text \<open>The result is whether the walk stops here.\<close>

definition priv_check_visit :: "u32 \<Rightarrow> fault_kind \<Rightarrow> check_ctx \<Rightarrow> bool \<times> check_ctx" where
  "priv_check_visit cluster oor_kind ctx =
     (if \<not> priv_check_in_range ctx cluster then
        (True, priv_check_fault oor_kind cluster 0 0
          (if oor_kind = k_ra8_fs_check_fault_bad_dir_entry
           then on_rep (\<lambda>r. r\<lparr>cr_entries_bad := cr_entries_bad r + 1\<rparr>) ctx else ctx))
      else case priv_check_mark cluster ctx of
          (True, ctx') \<Rightarrow> (True, priv_check_fault k_ra8_fs_check_fault_crosslink cluster 0 0
            (on_rep (\<lambda>r. r\<lparr>cr_chains_crosslinked := cr_chains_crosslinked r + 1\<rparr>) ctx'))
        | (False, ctx') \<Rightarrow> (False, ctx'))"

definition priv_check_zero_bitmap :: "check_ctx \<Rightarrow> check_ctx" where
  "priv_check_zero_bitmap ctx =
     (case ck_bitmap ctx of None \<Rightarrow> ctx
      | Some bm \<Rightarrow> ctx\<lparr>ck_bitmap := Some (priv_byte_fill bm 0 0 (unat (drop_bit 3 (ck_bitmap_bits ctx + 7))))\<rparr>)"

section \<open>The table\<close>

definition internal_fat_bad_marker :: "'w mount \<Rightarrow> u32" where
  "internal_fat_bad_marker m =
     (if m_type m = k_ra8_fs_type_fat12 then 0x0FF7
      else if m_type m = k_ra8_fs_type_fat16 then 0xFFF7 else 0x0FFFFFF7)"

definition internal_fat_classify_one :: "'w mount \<Rightarrow> u32 \<Rightarrow> u32 \<Rightarrow> check_ctx \<Rightarrow> check_ctx" where
  "internal_fat_classify_one m cluster value' ctx =
     (if value' = k_cluster_free then on_rep (\<lambda>r. r\<lparr>cr_clusters_free := cr_clusters_free r + 1\<rparr>) ctx
      else if value' = internal_fat_bad_marker m then on_rep (\<lambda>r. r\<lparr>cr_clusters_bad := cr_clusters_bad r + 1\<rparr>) ctx
      else
        let ctx1 = on_rep (\<lambda>r. r\<lparr>cr_clusters_used := cr_clusters_used r + 1\<rparr>) ctx in
        if priv_is_eoc m value' then ctx1
        else if \<not> priv_check_in_range ctx1 value'
        then priv_check_fault k_ra8_fs_check_fault_bad_fat_value cluster 0 0 ctx1
        else ctx1)"

text \<open>The cluster numbers of the scans: none when \<open>2 + clusters_total\<close> wraps around.\<close>

definition check_clusters :: "check_ctx \<Rightarrow> u32 list" where
  "check_clusters ctx = map of_nat [2..<unat (k_cluster_first_data + cr_clusters_total (ck_rep ctx))]"

primrec classify_loop :: "'w mount \<Rightarrow> u32 list \<Rightarrow> check_ctx \<Rightarrow> ('w fs, check_ctx) op" where
  "classify_loop m [] ctx = returnE ctx"
| "classify_loop m (c # cs) ctx =
     bindE (priv_fat_get m c) (\<lambda>v. classify_loop m cs (internal_fat_classify_one m c v ctx))"

definition internal_fat_classify :: "'w mount \<Rightarrow> check_ctx \<Rightarrow> ('w fs, check_ctx) op" where
  "internal_fat_classify m ctx = classify_loop m (check_clusters ctx) ctx"

section \<open>The directory tree\<close>

text \<open>\<open>hops\<close> is the number of links that may still be followed.\<close>

primrec mark_chain_loop :: "'w mount \<Rightarrow> nat \<Rightarrow> u32 \<Rightarrow> check_ctx \<Rightarrow> ('w fs, check_ctx) op" where
  "mark_chain_loop m 0 c ctx = returnE (snd (priv_check_visit c k_ra8_fs_check_fault_bad_chain ctx))"
| "mark_chain_loop m (Suc hops) c ctx =
     (case priv_check_visit c k_ra8_fs_check_fault_bad_chain ctx of
        (True, ctx1) \<Rightarrow> returnE ctx1
      | (False, ctx1) \<Rightarrow> bindE (priv_fat_get m c) (\<lambda>v.
          if priv_is_eoc m v then returnE ctx1
          else if \<not> priv_check_in_range ctx1 v
          then returnE (priv_check_fault k_ra8_fs_check_fault_bad_chain c 0 0 ctx1)
          else mark_chain_loop m hops v ctx1))"

definition internal_fat_mark_chain :: "'w mount \<Rightarrow> u32 \<Rightarrow> check_ctx \<Rightarrow> ('w fs, check_ctx) op" where
  "internal_fat_mark_chain m first ctx = mark_chain_loop m (unat (cr_clusters_total (ck_rep ctx))) first ctx"

text \<open>The directories that remain to be scanned, the next one first, and whether one was dropped.\<close>

record dir_stack =
  ds_items :: "dir_loc list"
  ds_truncated :: bool

definition internal_fat_push :: "u32 \<Rightarrow> dir_stack \<times> check_ctx \<Rightarrow> dir_stack \<times> check_ctx" where
  "internal_fat_push clus = (\<lambda>(stack, ctx).
     if length (ds_items stack) \<ge> k_ra8_fs_check_max_dirs then
       (if \<not> ds_truncated stack
        then (stack\<lparr>ds_truncated := True\<rparr>, priv_check_fault k_ra8_fs_check_fault_scan_truncated clus 0 0 ctx)
        else (stack, ctx))
     else (stack\<lparr>ds_items := \<lparr>loc_is_root = False, loc_cluster = clus\<rparr> # ds_items stack\<rparr>, ctx))"

text \<open>The result is \<open>out_eod\<close> with the stack and the context.\<close>

definition internal_fat_entry ::
    "'w mount \<Rightarrow> bytes \<Rightarrow> u64 \<Rightarrow> u32 \<Rightarrow> dir_stack \<times> check_ctx \<Rightarrow> ('w fs, bool \<times> dir_stack \<times> check_ctx) op" where
  "internal_fat_entry m ent lba eoff st =
     (let name0 = ent ! k_dir_off_name; attr = ent ! k_dir_off_attr; stack = fst st; ctx = snd st in
      if name0 = k_dir_marker_free_perm then returnE (True, st)
      else if name0 = k_dir_marker_free_used then returnE (False, st)
      else if attr = k_ra8_fs_attr_lfn then returnE (False, st)
      else if name0 = k_dir_marker_dot then returnE (False, st)
      else
        let is_dir = (attr AND k_ra8_fs_attr_directory \<noteq> 0); first = priv_entry_first_cluster ent in
        if \<not> is_dir \<and> attr AND k_ra8_fs_attr_volume_id \<noteq> 0 then returnE (False, st)
        else if first \<noteq> 0 \<and> \<not> priv_check_in_range ctx first then
          returnE (False, stack, priv_check_fault k_ra8_fs_check_fault_bad_dir_entry first lba eoff
            (on_rep (\<lambda>r. r\<lparr>cr_entries_bad := cr_entries_bad r + 1\<rparr>) ctx))
        else if is_dir then returnE (False, if first \<noteq> 0 then internal_fat_push first st else st)
        else
          let ctx1 = on_rep (\<lambda>r. r\<lparr>cr_files_visited := cr_files_visited r + 1\<rparr>) ctx in
          if first \<noteq> 0 then bindE (internal_fat_mark_chain m first ctx1) (\<lambda>ctx2. returnE (False, stack, ctx2))
          else returnE (False, stack, ctx1))"

primrec visit_entries ::
    "'w mount \<Rightarrow> bytes \<Rightarrow> u64 \<Rightarrow> nat list \<Rightarrow> dir_stack \<times> check_ctx \<Rightarrow> ('w fs, bool \<times> dir_stack \<times> check_ctx) op" where
  "visit_entries m buf lba [] st = returnE (False, st)"
| "visit_entries m buf lba (e # es) st =
     bindE (internal_fat_entry m (dir_ent buf e) lba (of_nat (e * k_ra8_fs_dir_entry_bytes)) st) (\<lambda>(eod, st').
       if eod then returnE (True, st') else visit_entries m buf lba es st')"

definition internal_fat_visit_sector ::
    "'w mount \<Rightarrow> bytes \<Rightarrow> u64 \<Rightarrow> dir_stack \<times> check_ctx \<Rightarrow> ('w fs, bool \<times> dir_stack \<times> check_ctx) op" where
  "internal_fat_visit_sector m buf lba st = visit_entries m buf lba [0..<unat (priv_dir_eps m)] st"

text \<open>Sectors one after the other, until an end marker.\<close>

primrec visit_sectors ::
    "'w mount \<Rightarrow> u64 list \<Rightarrow> dir_stack \<times> check_ctx \<Rightarrow> ('w fs, bool \<times> dir_stack \<times> check_ctx) op" where
  "visit_sectors m [] st = returnE (False, st)"
| "visit_sectors m (lba # lbas) st =
     bindE (priv_read_sector m lba) (\<lambda>buf.
     bindE (internal_fat_visit_sector m buf lba st) (\<lambda>(eod, st').
       if eod then returnE (True, st') else visit_sectors m lbas st'))"

definition internal_fat_scan_fixed_root ::
    "'w mount \<Rightarrow> dir_stack \<times> check_ctx \<Rightarrow> ('w fs, dir_stack \<times> check_ctx) op" where
  "internal_fat_scan_fixed_root m st =
     (let secs = (m_root_entries m + (priv_dir_eps m - 1)) div priv_dir_eps m in
      bindE (visit_sectors m (map (\<lambda>s. m_first_root_lba m + of_nat s) [0..<unat secs]) st) (\<lambda>(eod, st'). returnE st'))"

primrec scan_cluster_dir_loop ::
    "'w mount \<Rightarrow> nat \<Rightarrow> u32 \<Rightarrow> dir_stack \<times> check_ctx \<Rightarrow> ('w fs, dir_stack \<times> check_ctx) op" where
  "scan_cluster_dir_loop m 0 c st =
     returnE (fst st, snd (priv_check_visit c k_ra8_fs_check_fault_bad_dir_entry (snd st)))"
| "scan_cluster_dir_loop m (Suc hops) c st =
     (case priv_check_visit c k_ra8_fs_check_fault_bad_dir_entry (snd st) of
        (True, ctx1) \<Rightarrow> returnE (fst st, ctx1)
      | (False, ctx1) \<Rightarrow>
          bindE (visit_sectors m (map (\<lambda>s. priv_cluster_to_lba m c + of_nat s) [0..<unat (m_sectors_per_cluster m)])
              (fst st, ctx1)) (\<lambda>(eod, st').
            if eod then returnE st'
            else bindE (priv_fat_get m c) (\<lambda>v.
              if priv_is_eoc m v then returnE st' else scan_cluster_dir_loop m hops v st')))"

definition internal_fat_scan_cluster_dir ::
    "'w mount \<Rightarrow> u32 \<Rightarrow> dir_stack \<times> check_ctx \<Rightarrow> ('w fs, dir_stack \<times> check_ctx) op" where
  "internal_fat_scan_cluster_dir m first st =
     scan_cluster_dir_loop m (unat (cr_clusters_total (ck_rep (snd st)))) first st"

primrec fat_tree_loop :: "'w mount \<Rightarrow> nat \<Rightarrow> dir_stack \<times> check_ctx \<Rightarrow> ('w fs, check_ctx) op" where
  "fat_tree_loop m 0 st = (if ds_items (fst st) = [] then returnE (snd st) else throwE out_of_fuel)"
| "fat_tree_loop m (Suc n) st =
     (case ds_items (fst st) of
        [] \<Rightarrow> returnE (snd st)
      | loc # locs \<Rightarrow>
          let st1 = ((fst st)\<lparr>ds_items := locs\<rparr>, on_rep (\<lambda>r. r\<lparr>cr_dirs_visited := cr_dirs_visited r + 1\<rparr>) (snd st)) in
          bindE (if loc_is_root loc \<and> m_type m \<noteq> k_ra8_fs_type_fat32 then internal_fat_scan_fixed_root m st1
                 else internal_fat_scan_cluster_dir m (if loc_is_root loc then m_root_cluster m else loc_cluster loc) st1)
            (fat_tree_loop m n))"

text \<open>
  Every entry of every directory cluster is pushed at most once, because a cluster is only read when it was not
  marked before; that bounds the rounds of the tree walk.
\<close>

definition tree_fuel :: "'w mount \<Rightarrow> nat" where
  "tree_fuel m = 1 + (unat (m_root_entries m) + unat (priv_dir_eps m)) +
     unat (m_count_of_clusters m) * (unat (m_sectors_per_cluster m) * unat (priv_dir_eps m))"

definition internal_fat_tree :: "'w mount \<Rightarrow> check_ctx \<Rightarrow> ('w fs, check_ctx) op" where
  "internal_fat_tree m ctx =
     fat_tree_loop m (tree_fuel m) (\<lparr>ds_items = [\<lparr>loc_is_root = True, loc_cluster = 0\<rparr>], ds_truncated = False\<rparr>, ctx)"

section \<open>Lost clusters and the free count\<close>

primrec fat_diff_loop :: "'w mount \<Rightarrow> u32 list \<Rightarrow> check_ctx \<Rightarrow> ('w fs, check_ctx) op" where
  "fat_diff_loop m [] ctx = returnE ctx"
| "fat_diff_loop m (c # cs) ctx =
     bindE (priv_fat_get m c) (\<lambda>v.
       if v = k_cluster_free \<or> v = internal_fat_bad_marker m then fat_diff_loop m cs ctx
       else
         let idx = c - k_cluster_first_data in
         fat_diff_loop m cs
           (if the (ck_bitmap ctx) ! mark_byte idx AND mark_mask idx = 0
            then priv_check_fault k_ra8_fs_check_fault_lost_cluster c 0 0
              (on_rep (\<lambda>r. r\<lparr>cr_clusters_lost := cr_clusters_lost r + 1\<rparr>) ctx)
            else ctx))"

definition internal_fat_diff :: "'w mount \<Rightarrow> check_ctx \<Rightarrow> ('w fs, check_ctx) op" where
  "internal_fat_diff m ctx = fat_diff_loop m (check_clusters ctx) ctx"

definition internal_fat_fsinfo :: "'w mount \<Rightarrow> check_ctx \<Rightarrow> ('w fs, check_ctx) op" where
  "internal_fat_fsinfo m ctx =
     (if m_type m \<noteq> k_ra8_fs_type_fat32 then returnE ctx
      else bindE (priv_read_sector m 0) (\<lambda>boot.
        let lba = ucast (priv_rd16 boot k_fmt_off_f32_fsinfo) :: u32 in
        if lba = 0 \<or> lba \<ge> m_reserved_sectors m then returnE ctx
        else bindE (priv_read_sector m (ucast lba)) (\<lambda>sec.
          if priv_rd32 sec k_fmt_fsi_off_lead \<noteq> k_fmt_fsi_lead_sig then returnE ctx
          else if priv_rd32 sec k_fmt_fsi_off_struct \<noteq> k_fmt_fsi_struct_sig then returnE ctx
          else if priv_rd32 sec k_fmt_fsi_off_trail \<noteq> k_fmt_fsi_trail_sig then returnE ctx
          else
            let stored = priv_rd32 sec k_fmt_fsi_off_free in
            returnE (if stored \<noteq> k_fs_free_unknown \<and> stored \<noteq> cr_clusters_free (ck_rep ctx)
              then priv_check_fault k_ra8_fs_check_fault_free_count_bad 0 (ucast lba) 0 ctx else ctx))))"

definition priv_check_fat :: "'w mount \<Rightarrow> check_ctx \<Rightarrow> ('w fs, check_ctx) op" where
  "priv_check_fat m ctx0 =
     bindE (internal_fat_classify m ctx0) (\<lambda>ctx1.
     bindE (if ck_bitmap ctx1 \<noteq> None then
              bindE (internal_fat_tree m (priv_check_zero_bitmap ctx1)) (internal_fat_diff m)
            else returnE ctx1) (internal_fat_fsinfo m))"

end
