(* ===== verification/Exfat_Check.thy ===== *)
theory Exfat_Check
  imports Fat_Check Exfat_Dir
begin

text \<open>
  \<^verbatim>\<open>ra8_fs_fat_exfat_check.c\<close>: the consistency check of an exFAT volume, and the public entry point
  \<open>ra8_fs_check\<close> (\<^verbatim>\<open>ra8_fs_fat_check.c\<close>).
\<close>

section \<open>Allocations\<close>

definition internal_exchk_popcount8 :: "u8 \<Rightarrow> u32" where
  "internal_exchk_popcount8 b = sum_list (map (\<lambda>i. drop_bit i (ucast b) AND 1) [0..<8])"

definition entry_bad :: "check_ctx \<Rightarrow> check_ctx" where
  "entry_bad = on_rep (\<lambda>r. r\<lparr>cr_entries_bad := cr_entries_bad r + 1\<rparr>)"

primrec mark_run_loop :: "u32 list \<Rightarrow> check_ctx \<Rightarrow> check_ctx" where
  "mark_run_loop [] ctx = ctx"
| "mark_run_loop (c # cs) ctx =
     (case priv_check_visit c k_ra8_fs_check_fault_bad_dir_entry ctx of
        (True, ctx1) \<Rightarrow> ctx1 | (False, ctx1) \<Rightarrow> mark_run_loop cs ctx1)"

definition internal_exchk_mark_run :: "u32 \<Rightarrow> u64 \<Rightarrow> check_ctx \<Rightarrow> check_ctx" where
  "internal_exchk_mark_run first nclus ctx =
     (if \<not> priv_check_in_range ctx first then snd (priv_check_visit first k_ra8_fs_check_fault_bad_dir_entry ctx)
      else
        let available = cr_clusters_total (ck_rep ctx) - (first - k_cluster_first_data);
            (n, ctx1) = (if nclus > ucast available
              then (available, priv_check_fault k_ra8_fs_check_fault_bad_dir_entry (first + available) 0 0 (entry_bad ctx))
              else (ucast nclus, ctx))
        in mark_run_loop (map (\<lambda>i. first + of_nat i) [0..<unat n]) ctx1)"

primrec exchk_fatchain_loop :: "'w mount \<Rightarrow> nat \<Rightarrow> u32 \<Rightarrow> check_ctx \<Rightarrow> ('w fs, check_ctx) op" where
  "exchk_fatchain_loop m 0 c ctx = returnE (snd (priv_check_visit c k_ra8_fs_check_fault_bad_chain ctx))"
| "exchk_fatchain_loop m (Suc hops) c ctx =
     (case priv_check_visit c k_ra8_fs_check_fault_bad_chain ctx of
        (True, ctx1) \<Rightarrow> returnE ctx1
      | (False, ctx1) \<Rightarrow> bindE (priv_fat_get m c) (\<lambda>v.
          if priv_is_eoc m v then returnE ctx1
          else if \<not> priv_check_in_range ctx1 v
          then returnE (priv_check_fault k_ra8_fs_check_fault_bad_chain c 0 0 ctx1)
          else exchk_fatchain_loop m hops v ctx1))"

definition internal_exchk_mark_fatchain :: "'w mount \<Rightarrow> u32 \<Rightarrow> check_ctx \<Rightarrow> ('w fs, check_ctx) op" where
  "internal_exchk_mark_fatchain m first ctx = exchk_fatchain_loop m (unat (cr_clusters_total (ck_rep ctx))) first ctx"

primrec mark_dir_alloc_loop :: "'w mount \<Rightarrow> u32 \<Rightarrow> nat \<Rightarrow> u32 \<Rightarrow> check_ctx \<Rightarrow> ('w fs, check_ctx) op" where
  "mark_dir_alloc_loop m contig_end 0 c ctx =
     returnE (snd (priv_check_visit c k_ra8_fs_check_fault_bad_dir_entry ctx))"
| "mark_dir_alloc_loop m contig_end (Suc hops) c ctx =
     (case priv_check_visit c k_ra8_fs_check_fault_bad_dir_entry ctx of
        (True, ctx1) \<Rightarrow> returnE ctx1
      | (False, ctx1) \<Rightarrow> attemptE (priv_exfat_step_cluster m c contig_end) (\<lambda>r. case r of
          Inl e \<Rightarrow> if e = k_ra8_err_not_found then returnE ctx1 else throwE e
        | Inr nxt \<Rightarrow> mark_dir_alloc_loop m contig_end hops nxt ctx1))"

definition internal_exchk_mark_dir_alloc :: "'w mount \<Rightarrow> exfat_dir \<Rightarrow> check_ctx \<Rightarrow> ('w fs, check_ctx) op" where
  "internal_exchk_mark_dir_alloc m dir ctx =
     mark_dir_alloc_loop m (ed_contig_end dir) (unat (cr_clusters_total (ck_rep ctx))) (ed_cluster dir) ctx"

text \<open>The clusters \<open>nbytes\<close> bytes take.\<close>

definition clusters_of :: "'w mount \<Rightarrow> u64 \<Rightarrow> ('s, u64) op" where
  "clusters_of m nbytes =
     bindE (cluster_bytesE m) (\<lambda>cb. returnE
       (nbytes div ucast cb + (if nbytes mod ucast cb \<noteq> 0 then 1 else 0)))"

definition internal_exchk_system_run :: "'w mount \<Rightarrow> bytes \<Rightarrow> check_ctx \<Rightarrow> ('s, check_ctx) op" where
  "internal_exchk_system_run m e ctx =
     bindE (clusters_of m (priv_rd64 e k_exfat_strm_off_dlen)) (\<lambda>nclus.
       let first = priv_rd32 e k_exfat_strm_off_clus in
       returnE (if first = 0 then ctx else internal_exchk_mark_run first nclus ctx))"

section \<open>Entry sets\<close>

definition internal_exchk_extract_name :: "bytes \<Rightarrow> nat \<Rightarrow> u16 list" where
  "internal_exchk_extract_name set' nlen =
     map (\<lambda>i. priv_rd16 set' ((2 + i div k_exfat_name_per_entry) * k_exfat_entry_bytes + k_exfat_name_off +
         (i mod k_exfat_name_per_entry) * 2)) [0..<nlen]"

definition internal_exchk_verify_set :: "bytes \<Rightarrow> nat \<Rightarrow> u64 \<Rightarrow> u32 \<Rightarrow> check_ctx \<Rightarrow> check_ctx" where
  "internal_exchk_verify_set set' count lba off ctx =
     (let stored_cs = priv_rd16 set' k_exfat_off_file_csum;
          calc_cs = priv_exfat_set_checksum (take (count * k_exfat_entry_bytes) set');
          ctx1 = (if stored_cs \<noteq> calc_cs
            then priv_check_fault k_ra8_fs_check_fault_bad_set_checksum 0 lba off (entry_bad ctx) else ctx);
          nlen = min (unat (set' ! (k_exfat_entry_bytes + k_exfat_strm_off_nlen))) k_exfat_name_cap;
          units = internal_exchk_extract_name set' nlen;
          stored_hash = priv_rd16 set' (k_exfat_entry_bytes + k_exfat_off_strm_hash)
      in if stored_hash \<noteq> priv_exfat_name_hash units
         then priv_check_fault k_ra8_fs_check_fault_bad_name_hash 0 lba off (entry_bad ctx1) else ctx1)"

record exfat_dir_stack =
  xs_items :: "exfat_dir list"
  xs_truncated :: bool

definition internal_exchk_push :: "exfat_dir \<Rightarrow> exfat_dir_stack \<times> check_ctx \<Rightarrow> exfat_dir_stack \<times> check_ctx" where
  "internal_exchk_push dir = (\<lambda>(stack, ctx).
     if length (xs_items stack) \<ge> k_ra8_fs_check_max_dirs then
       (if \<not> xs_truncated stack
        then (stack\<lparr>xs_truncated := True\<rparr>,
          priv_check_fault k_ra8_fs_check_fault_scan_truncated (ed_cluster dir) 0 0 ctx)
        else (stack, ctx))
     else (stack\<lparr>xs_items := dir # xs_items stack\<rparr>, ctx))"

definition internal_exchk_set_clusters :: "'w mount \<Rightarrow> bytes \<Rightarrow> bytes \<Rightarrow> u64 \<Rightarrow> u32 \<Rightarrow>
    exfat_dir_stack \<times> check_ctx \<Rightarrow> ('w fs, exfat_dir_stack \<times> check_ctx) op" where
  "internal_exchk_set_clusters m set' file lba off st =
     (let strm = drop k_exfat_entry_bytes set'; first = priv_rd32 strm k_exfat_strm_off_clus;
          dlen = priv_rd64 strm k_exfat_strm_off_dlen;
          is_dir = (file ! k_exfat_off_file_attr AND k_exfat_attr_directory \<noteq> 0);
          stack = fst st; ctx = snd st;
          file_seen = on_rep (\<lambda>r. r\<lparr>cr_files_visited := cr_files_visited r + 1\<rparr>)
      in if first = 0 then returnE (stack, if \<not> is_dir then file_seen ctx else ctx)
         else if \<not> priv_check_in_range ctx first then
           returnE (stack, priv_check_fault k_ra8_fs_check_fault_bad_dir_entry first lba off (entry_bad ctx))
         else if is_dir then
           bindE (priv_exfat_dir_from_set m strm
               \<lparr>ed_cluster = 0, ed_contig_end = 0, ed_self_cluster = 0, ed_self_index = 0\<rparr>) (\<lambda>sub.
             returnE (internal_exchk_push sub st))
         else
           bindE (if dlen = 0 then returnE 1 else clusters_of m dlen) (\<lambda>nclus.
             if strm ! k_exfat_strm_off_flags AND k_exfat_secflag_no_fat \<noteq> 0 then
               returnE (stack, internal_exchk_mark_run first nclus (file_seen ctx))
             else bindE (internal_exchk_mark_fatchain m first (file_seen ctx)) (\<lambda>ctx1. returnE (stack, ctx1))))"

text \<open>The secondary entries of a set: \<open>None\<close> when the directory ended in it.\<close>

primrec exchk_take_loop :: "'w mount \<Rightarrow> nat \<Rightarrow> bytes \<Rightarrow> ('w, bytes option) cop" where
  "exchk_take_loop m 0 set' = returnE (Some set')"
| "exchk_take_loop m (Suc n) set' =
     attemptE (priv_exfat_next_entry m) (\<lambda>r. case r of
       Inl e \<Rightarrow> if e = k_ra8_err_not_found then returnE None else throwE e
     | Inr e \<Rightarrow> exchk_take_loop m n (set' @ e))"

definition internal_exchk_set :: "'w mount \<Rightarrow> bytes \<Rightarrow> exfat_dir_stack \<times> check_ctx \<Rightarrow>
    ('w, exfat_dir_stack \<times> check_ctx) cop" where
  "internal_exchk_set m file st =
     bindE (askC (\<lambda>c. c)) (\<lambda>cur.
       let count = 1 + unat (file ! k_exfat_off_file_secnt);
           bic = (ec_entry_in_cluster cur - 1) * of_nat k_exfat_entry_bytes;
           lba = priv_cluster_to_lba m (ec_cluster cur) + ucast (bic div priv_bps m);
           off = bic mod priv_bps m;
           bad = (fst st, priv_check_fault k_ra8_fs_check_fault_bad_dir_entry 0 lba off (entry_bad (snd st)))
       in if count < 2 \<or> count > k_exfat_set_max_entries then returnE bad
          else bindE (exchk_take_loop m (count - 1) file) (\<lambda>r. case r of
            None \<Rightarrow> returnE bad
          | Some set0 \<Rightarrow>
              let set' = set0 @ replicate (k_exfat_set_max_entries * k_exfat_entry_bytes - length set0) 0 in
              onC (internal_exchk_set_clusters m set' file lba off
                (fst st, internal_exchk_verify_set set' count lba off (snd st)))))"

section \<open>Directories\<close>

text \<open>The result carries \<open>out_stop\<close>.\<close>

definition internal_exchk_scan_dir_file_entry :: "'w mount \<Rightarrow> bytes \<Rightarrow> u32 \<Rightarrow> exfat_dir_stack \<times> check_ctx \<Rightarrow>
    ('w, bool \<times> exfat_dir_stack \<times> check_ctx) cop" where
  "internal_exchk_scan_dir_file_entry m e dir_cluster st =
     bindE (askC ec_scanned) (\<lambda>scanned.
       let count = 1 + unat (e ! k_exfat_off_file_secnt);
           remaining = of_nat k_exfat_scan_limit - scanned
       in if count \<le> k_exfat_set_max_entries \<and> count > 1 \<and> count - 1 > unat remaining then
            returnE (True, fst st, priv_check_fault k_ra8_fs_check_fault_scan_truncated dir_cluster 0 0 (snd st))
          else bindE (internal_exchk_set m e st) (\<lambda>st'. returnE (False, st')))"

definition internal_exchk_scan_dir_terminal :: "'w mount \<Rightarrow> exfat_dir \<Rightarrow> exfat_dir_stack \<times> check_ctx \<Rightarrow>
    ('w, exfat_dir_stack \<times> check_ctx) cop" where
  "internal_exchk_scan_dir_terminal m dir st =
     attemptE (priv_exfat_next_entry m) (\<lambda>r. case r of
       Inl e \<Rightarrow> if e = k_ra8_err_not_found then returnE st else throwE e
     | Inr terminal \<Rightarrow>
         if terminal ! 0 = k_exfat_entry_eod then returnE st
         else returnE (fst st, priv_check_fault k_ra8_fs_check_fault_scan_truncated (ed_cluster dir) 0 0 (snd st)))"

text \<open>Every round reads an entry.\<close>

primrec exchk_scan_loop :: "'w mount \<Rightarrow> exfat_dir \<Rightarrow> nat \<Rightarrow> exfat_dir_stack \<times> check_ctx \<Rightarrow>
    ('w, exfat_dir_stack \<times> check_ctx) cop" where
  "exchk_scan_loop m dir 0 st = throwE out_of_fuel"
| "exchk_scan_loop m dir (Suc n) st =
     bindE (askC ec_scanned) (\<lambda>k.
       if unat k \<ge> k_exfat_scan_limit then internal_exchk_scan_dir_terminal m dir st
       else attemptE (priv_exfat_next_entry m) (\<lambda>r. case r of
         Inl e \<Rightarrow> if e = k_ra8_err_not_found then returnE st else throwE e
       | Inr e \<Rightarrow>
           if e ! 0 = k_exfat_entry_eod then returnE st
           else if e ! 0 AND k_exfat_inuse_bit = 0 then exchk_scan_loop m dir n st
           else if e ! 0 = k_exfat_entry_bitmap \<or> e ! 0 = k_exfat_entry_upcase then
             bindE (internal_exchk_system_run m e (snd st)) (\<lambda>ctx1. exchk_scan_loop m dir n (fst st, ctx1))
           else if e ! 0 = k_exfat_entry_file then
             bindE (internal_exchk_scan_dir_file_entry m e (ed_cluster dir) st) (\<lambda>(stop, st').
               if stop then returnE st' else exchk_scan_loop m dir n st')
           else exchk_scan_loop m dir n st))"

definition internal_exchk_scan_dir :: "'w mount \<Rightarrow> exfat_dir \<Rightarrow> exfat_dir_stack \<times> check_ctx \<Rightarrow>
    ('w fs, exfat_dir_stack \<times> check_ctx) op" where
  "internal_exchk_scan_dir m dir st =
     withC (priv_exfat_cursor_init dir) (exchk_scan_loop m dir (Suc k_exfat_scan_limit) st)"

text \<open>
  The worklist may never become empty: a directory is scanned again even when its cluster was already marked.
  The loop is given fuel, and not ending is \<open>out_of_fuel\<close>.
\<close>

primrec exchk_tree_loop :: "'w mount \<Rightarrow> nat \<Rightarrow> exfat_dir_stack \<times> check_ctx \<Rightarrow> ('w fs, check_ctx) op" where
  "exchk_tree_loop m 0 st = (if xs_items (fst st) = [] then returnE (snd st) else throwE out_of_fuel)"
| "exchk_tree_loop m (Suc n) st =
     (case xs_items (fst st) of
        [] \<Rightarrow> returnE (snd st)
      | dir # dirs \<Rightarrow>
          bindE (internal_exchk_mark_dir_alloc m dir
              (on_rep (\<lambda>r. r\<lparr>cr_dirs_visited := cr_dirs_visited r + 1\<rparr>) (snd st))) (\<lambda>ctx1.
          bindE (internal_exchk_scan_dir m dir ((fst st)\<lparr>xs_items := dirs\<rparr>, ctx1)) (exchk_tree_loop m n)))"

definition internal_exchk_tree :: "'w mount \<Rightarrow> nat \<Rightarrow> check_ctx \<Rightarrow> ('w fs, check_ctx) op" where
  "internal_exchk_tree m fuel ctx =
     exchk_tree_loop m fuel (\<lparr>xs_items = [priv_exfat_dir_root m], xs_truncated = False\<rparr>, ctx)"

section \<open>The bitmap\<close>

primrec diff_byte_loop :: "u8 \<Rightarrow> u32 \<Rightarrow> nat list \<Rightarrow> check_ctx \<Rightarrow> check_ctx" where
  "diff_byte_loop b base [] ctx = ctx"
| "diff_byte_loop b base (j # js) ctx =
     (let idx = base + of_nat j in
      if idx \<ge> cr_clusters_total (ck_rep ctx) then ctx
      else
        let alloc = bit b j; refd = bit (the (ck_bitmap ctx) ! mark_byte idx) (unat (idx AND 7));
            ctx1 = (if alloc \<and> \<not> refd
              then priv_check_fault k_ra8_fs_check_fault_lost_cluster (idx + k_cluster_first_data) 0 0
                (on_rep (\<lambda>r. r\<lparr>cr_clusters_lost := cr_clusters_lost r + 1\<rparr>) ctx) else ctx);
            ctx2 = (if \<not> alloc \<and> refd
              then priv_check_fault k_ra8_fs_check_fault_bitmap_ref_unset (idx + k_cluster_first_data) 0 0
                (on_rep (\<lambda>r. r\<lparr>cr_bitmap_mismatches := cr_bitmap_mismatches r + 1\<rparr>) ctx1) else ctx1)
        in diff_byte_loop b base js ctx2)"

definition internal_exchk_diff_byte :: "u8 \<Rightarrow> u32 \<Rightarrow> check_ctx \<Rightarrow> check_ctx" where
  "internal_exchk_diff_byte b base ctx = diff_byte_loop b base [0..<8] ctx"

primrec bitmap_pass_loop :: "'w mount \<Rightarrow> u64 \<Rightarrow> nat \<Rightarrow> nat \<Rightarrow> nat list \<Rightarrow> u64 \<Rightarrow> bytes \<Rightarrow> u32 \<Rightarrow> check_ctx \<Rightarrow>
    ('w fs, u32 \<times> check_ctx) op" where
  "bitmap_pass_loop m bmp_lba full rem' [] loaded sec used ctx = returnE (used, ctx)"
| "bitmap_pass_loop m bmp_lba full rem' (bi # bis) loaded sec used ctx =
     (let bps = unat (priv_bps m); lba = bmp_lba + of_nat (bi div bps) in
      bindE (if lba \<noteq> loaded then priv_read_sector m lba else returnE sec) (\<lambda>sec'.
        let b0 = sec' ! (bi mod bps); b = (if bi = full then b0 AND (push_bit rem' 1 - 1) else b0) in
        bitmap_pass_loop m bmp_lba full rem' bis lba sec' (used + internal_exchk_popcount8 b)
          (if ck_bitmap ctx \<noteq> None then internal_exchk_diff_byte b (push_bit 3 (of_nat bi)) ctx else ctx)))"

definition internal_exchk_bitmap_pass :: "'w mount \<Rightarrow> u64 \<Rightarrow> check_ctx \<Rightarrow> ('w fs, check_ctx) op" where
  "internal_exchk_bitmap_pass m bmp_lba ctx =
     (let tclus = cr_clusters_total (ck_rep ctx); full = unat tclus div 8; rem' = unat tclus mod 8;
          nbytes = full + (if rem' \<noteq> 0 then 1 else 0)
      in bindE (bitmap_pass_loop m bmp_lba full rem' [0..<nbytes] 0xFFFFFFFFFFFFFFFF [] 0 ctx) (\<lambda>(used, ctx1).
           returnE (on_rep (\<lambda>r. r\<lparr>cr_clusters_used := used, cr_clusters_free := tclus - used\<rparr>) ctx1)))"

definition priv_check_exfat :: "'w mount \<Rightarrow> nat \<Rightarrow> check_ctx \<Rightarrow> ('w fs, check_ctx) op" where
  "priv_check_exfat m fuel ctx =
     attemptE (priv_exfat_find_bitmap m) (\<lambda>r. case r of
       Inl fe \<Rightarrow>
         if fe = k_ra8_err_not_found
         then returnE (priv_check_fault k_ra8_fs_check_fault_bad_dir_entry 0 0 0 (entry_bad ctx))
         else throwE fe
     | Inr (bclus, blen) \<Rightarrow>
         bindE (if ck_bitmap ctx \<noteq> None then internal_exchk_tree m fuel (priv_check_zero_bitmap ctx) else returnE ctx)
           (internal_exchk_bitmap_pass m (priv_cluster_to_lba m bclus)))"

section \<open>The public operation\<close>

definition internal_check_bitmap_ok :: "u32 \<Rightarrow> bytes option \<Rightarrow> bool" where
  "internal_check_bitmap_ok tclus bitmap =
     (case bitmap of None \<Rightarrow> False | Some bm \<Rightarrow> length bm \<ge> unat (drop_bit 3 (tclus + 7)))"

definition check_ctx_init :: "'w mount \<Rightarrow> bytes option \<Rightarrow> check_ctx" where
  "check_ctx_init m bitmap =
     (let have' = internal_check_bitmap_ok (m_count_of_clusters m) bitmap in
      \<lparr>ck_rep = \<lparr>cr_type = m_type m, cr_referenced_scan = have', cr_clusters_total = m_count_of_clusters m,
         cr_clusters_free = 0, cr_clusters_used = 0, cr_clusters_bad = 0,
         cr_clusters_lost = (if have' then 0 else k_ra8_fs_check_unknown), cr_chains_crosslinked = 0,
         cr_bitmap_mismatches = 0, cr_entries_bad = 0, cr_dirs_visited = 0, cr_files_visited = 0, cr_faults_total = 0,
         cr_first_fault = \<lparr>cf_kind = k_ra8_fs_check_fault_none, cf_cluster = 0, cf_lba = 0, cf_entry_off = 0\<rparr>\<rparr>,
       ck_bitmap = (if have' then bitmap else None), ck_bitmap_bits = m_count_of_clusters m\<rparr>)"

text \<open>The bitmap buffer of the caller and its length are one list; \<open>fuel\<close> bounds the tree walk of an exFAT volume.\<close>

definition internal_check_locked :: "nat \<Rightarrow> nat option \<Rightarrow> bytes option \<Rightarrow> bool \<Rightarrow> ('w fs, check_report) op" where
  "internal_check_locked fuel handle bitmap have_report =
     (case handle of None \<Rightarrow> throwE k_ra8_err_null_ptr
      | Some h \<Rightarrow>
          if \<not> have_report then throwE k_ra8_err_null_ptr
          else bindE (mountE h) (\<lambda>m.
            if \<not> m_in_use m then throwE k_ra8_err_invalid_state
            else bindE (if m_type m = k_ra8_fs_type_exfat then priv_check_exfat m fuel (check_ctx_init m bitmap)
                        else priv_check_fat m (check_ctx_init m bitmap)) (\<lambda>ctx. returnE (ck_rep ctx))))"

definition ra8_fs_check :: "nat \<Rightarrow> nat option \<Rightarrow> bytes option \<Rightarrow> bool \<Rightarrow> ('w fs, check_report) op" where
  "ra8_fs_check fuel handle bitmap have_report = locked (internal_check_locked fuel handle bitmap have_report)"

end
