(* ===== verification/Exfat_Mutate.thy ===== *)
theory Exfat_Mutate
  imports Exfat_File
begin

text \<open>
  Deleting, renaming and listing on exFAT (\<^verbatim>\<open>ra8_fs_fat_exfat_mutate.c\<close>), and making and removing
  directories (\<^verbatim>\<open>ra8_fs_fat_exfat_dir.c\<close>, second part).
\<close>

section \<open>Deleting\<close>

definition priv_exfat_unlink_at :: "'w mount \<Rightarrow> exfat_dir \<Rightarrow> bytes \<Rightarrow> ('w fs, unit) op" where
  "priv_exfat_unlink_at m dir name =
     bindE (priv_exfat_find_set m dir name) (\<lambda>x.
       let attr = xf_file x ! k_exfat_off_file_attr in
       if attr AND k_exfat_attr_directory \<noteq> 0 then throwE k_ra8_err_invalid_arg
       else if attr AND k_exfat_attr_read_only \<noteq> 0 then throwE k_ra8_err_access_denied
       else bindE (priv_exfat_drop_set m (xf_pos x)) (\<lambda>_. priv_exfat_free_clusters m (xf_strm x)))"

definition priv_exfat_unlink :: "'w mount \<Rightarrow> bytes \<Rightarrow> ('w fs, unit) op" where
  "priv_exfat_unlink m path =
     bindE (priv_exfat_resolve_parent m path) (\<lambda>(parent, leaf).
       if leaf = [] then throwE k_ra8_err_invalid_arg else priv_exfat_unlink_at m parent leaf)"

section \<open>Renaming\<close>

definition internal_exfat_rename_prepare :: "'w mount \<Rightarrow> bytes \<Rightarrow> bytes \<Rightarrow> ('w fs, exfat_dir \<times> bytes \<times> bytes) op" where
  "internal_exfat_rename_prepare m old_path new_path =
     bindE (priv_exfat_resolve_parent m old_path) (\<lambda>(op, ol).
     bindE (priv_exfat_resolve_parent m new_path) (\<lambda>(np, nl).
       if ed_cluster op \<noteq> ed_cluster np then throwE k_ra8_err_not_supported
       else if ol = [] then throwE k_ra8_err_invalid_arg
       else if nl = [] then throwE k_ra8_err_invalid_arg
       else returnE (op, ol, nl)))"

primrec put_entries_loop :: "'w mount \<Rightarrow> bytes \<Rightarrow> nat \<Rightarrow> exfat_setpos list \<Rightarrow> ('w fs, unit) op" where
  "put_entries_loop m set' k [] = returnE ()"
| "put_entries_loop m set' k (p # ps) =
     bindE (internal_exfat_put_entry m p (take k_exfat_entry_bytes (drop (k * k_exfat_entry_bytes) set'))) (\<lambda>_.
       put_entries_loop m set' (k + 1) ps)"

definition internal_exfat_place_rename ::
    "'w mount \<Rightarrow> exfat_dir \<Rightarrow> exfat_setpos list \<Rightarrow> bytes \<Rightarrow> ('w fs, unit) op" where
  "internal_exfat_place_rename m parent pos set' =
     (let new_count = length set' div k_exfat_entry_bytes in
      if new_count = length pos then put_entries_loop m set' 0 pos
      else bindE (priv_exfat_find_dir_space m parent (of_nat new_count)) (\<lambda>n.
        bindE (priv_exfat_write_dir_set m (sp_cluster n) (sp_index n) set') (\<lambda>_.
          priv_exfat_drop_set m pos)))"

definition priv_exfat_rename :: "'w mount \<Rightarrow> bytes \<Rightarrow> bytes \<Rightarrow> ('w fs, unit) op" where
  "priv_exfat_rename m old_path new_path =
     bindE (internal_exfat_rename_prepare m old_path new_path) (\<lambda>(parent, old_name, new_name).
     bindE (returnR (priv_exfat_needle_units m new_name k_ra8_err_invalid_arg)) (\<lambda>new_units.
     attemptE (priv_exfat_find m parent new_name) (\<lambda>dup. case dup of
       Inr _ \<Rightarrow> throwE k_ra8_err_exists
     | Inl _ \<Rightarrow>
         bindE (priv_exfat_find_set m parent old_name) (\<lambda>x.
           if xf_file x ! k_exfat_off_file_attr AND k_exfat_attr_read_only \<noteq> 0 then throwE k_ra8_err_access_denied
           else bindE (internal_exfat_build_rename_set (xf_file x) (xf_strm x) new_units) (\<lambda>set'.
             internal_exfat_place_rename m parent (xf_pos x) set')))))"

section \<open>Listing\<close>

text \<open>The units of one name entry, and the loop over the secondary entries of a set.\<close>

definition name_units :: "bytes \<Rightarrow> nat \<Rightarrow> nat \<Rightarrow> u16 list" where
  "name_units ne k nlen =
     map (\<lambda>c. priv_rd16 ne (k_exfat_name_off + c * 2))
       (filter (\<lambda>c. (k - 1) * k_exfat_name_per_entry + c < nlen) [0..<k_exfat_name_per_entry])"

primrec gather_name_loop :: "'w mount \<Rightarrow> nat \<Rightarrow> nat list \<Rightarrow> u16 list \<Rightarrow> ('w, u16 list) cop" where
  "gather_name_loop m nlen [] units = returnE units"
| "gather_name_loop m nlen (k # ks) units =
     bindE (priv_exfat_next_entry m) (\<lambda>ne.
       if ne ! 0 \<noteq> k_exfat_entry_name then gather_name_loop m nlen ks units
       else gather_name_loop m nlen ks (take k_exfat_name_cap (units @ name_units ne k nlen)))"

text \<open>The name is a C string: the bytes before the first NUL, empty if the units are not well formed.\<close>

definition internal_exfat_gather_name :: "'w mount \<Rightarrow> nat \<Rightarrow> nat \<Rightarrow> ('w, bytes) cop" where
  "internal_exfat_gather_name m sc nlen =
     bindE (gather_name_loop m nlen [1..<sc] []) (\<lambda>units.
       returnE (case priv_utf16_to_utf8 units k_exfat_name_u8_cap of
         Inl _ \<Rightarrow> [] | Inr name \<Rightarrow> takeWhile (\<lambda>b. b \<noteq> 0) name))"

definition internal_exfat_list_emit :: "'w mount \<Rightarrow> bytes \<Rightarrow> ('w, dirent option) cop" where
  "internal_exfat_list_emit m e =
     (let sc = unat (e ! k_exfat_off_file_secnt); attr = e ! k_exfat_off_file_attr in
      bindE (priv_exfat_next_entry m) (\<lambda>strm.
        if strm ! 0 \<noteq> k_exfat_entry_stream then returnE None
        else
          let nbytes = (if attr AND k_exfat_attr_directory \<noteq> 0 then 0 else priv_rd64 strm k_exfat_strm_off_dlen)
          in bindE (internal_exfat_gather_name m sc (unat (strm ! k_exfat_strm_off_nlen))) (\<lambda>name.
            if name = [] then returnE None
            else returnE (Some \<lparr>de_name = name, de_size_bytes = nbytes, de_attr = attr\<rparr>))))"

primrec exfat_dir_next_loop :: "'w mount \<Rightarrow> nat \<Rightarrow> ('w, dirent option) cop" where
  "exfat_dir_next_loop m 0 = throwE out_of_fuel"
| "exfat_dir_next_loop m (Suc n) =
     bindE (askC ec_scanned) (\<lambda>k.
       if unat k \<ge> k_exfat_scan_limit then throwE k_ra8_err_invalid_size
       else attemptE (priv_exfat_next_entry m) (\<lambda>r. case r of
         Inl err \<Rightarrow> if err = k_ra8_err_not_found then returnE None else throwE err
       | Inr entry \<Rightarrow>
           if entry ! 0 = k_exfat_entry_eod then returnE None
           else if entry ! 0 \<noteq> k_exfat_entry_file then exfat_dir_next_loop m n
           else bindE (internal_exfat_list_emit m entry) (\<lambda>out.
             if out \<noteq> None then returnE out else exfat_dir_next_loop m n)))"

definition priv_exfat_dir_next :: "'w mount \<Rightarrow> ('w, dirent option) cop" where
  "priv_exfat_dir_next m = exfat_dir_next_loop m (Suc k_exfat_scan_limit)"

primrec exfat_listdir_loop :: "'w mount \<Rightarrow> 'w listdir_cb \<Rightarrow> nat \<Rightarrow> ('w, unit) cop" where
  "exfat_listdir_loop m cb 0 = throwE out_of_fuel"
| "exfat_listdir_loop m cb (Suc n) =
     bindE (priv_exfat_dir_next m) (\<lambda>out. case out of
       None \<Rightarrow> returnE ()
     | Some d \<Rightarrow> bindE (onC (modifyE (\<lambda>s. s\<lparr>world := cb (de_name d) (de_attr d) (de_size_bytes d) (world s)\<rparr>))) (\<lambda>_.
         exfat_listdir_loop m cb n))"

definition priv_exfat_listdir :: "'w mount \<Rightarrow> exfat_dir \<Rightarrow> 'w listdir_cb \<Rightarrow> ('w fs, unit) op" where
  "priv_exfat_listdir m dir cb =
     withC (priv_exfat_cursor_init dir) (exfat_listdir_loop m cb (Suc k_exfat_scan_limit))"

section \<open>Making and removing directories\<close>

definition internal_exfat_dir_alloc :: "'w mount \<Rightarrow> ('w fs, u32 \<times> u64) op" where
  "internal_exfat_dir_alloc m =
     bindE (priv_exfat_find_bitmap m) (\<lambda>(bclus, blen).
       let bmp = priv_cluster_to_lba m bclus in
       bindE (priv_exfat_bitmap_scan m bmp 1) (\<lambda>clus.
       bindE (priv_exfat_zero_cluster m clus) (\<lambda>_.
       bindE (priv_exfat_bitmap_mark m bmp clus 1) (\<lambda>_.
       bindE (modifyE (priv_alloc_hint_set m (clus + 1))) (\<lambda>_. returnE (clus, bmp))))))"

definition internal_exfat_mkdir_check :: "'w mount \<Rightarrow> exfat_dir \<Rightarrow> bytes \<Rightarrow> nat \<Rightarrow> ('w fs, unit) op" where
  "internal_exfat_mkdir_check m parent leaf nlen =
     (if nlen = 0 then throwE k_ra8_err_invalid_arg
      else if nlen > k_exfat_name_cap then throwE k_ra8_err_invalid_arg
      else attemptE (priv_exfat_find m parent leaf) (\<lambda>fe. case fe of
          Inr _ \<Rightarrow> throwE k_ra8_err_exists
        | Inl e \<Rightarrow> if e \<noteq> k_ra8_err_not_found then throwE e else returnE ()))"

definition priv_exfat_mkdir :: "'w mount \<Rightarrow> bytes \<Rightarrow> ('w fs, unit) op" where
  "priv_exfat_mkdir m path =
     bindE (priv_exfat_resolve_parent m path) (\<lambda>(parent, leaf).
       case priv_exfat_name_to_units m leaf of
         Inl ne \<Rightarrow> throwE (if ne = k_ra8_err_no_mem then k_ra8_err_invalid_arg else ne)
       | Inr units \<Rightarrow>
           bindE (internal_exfat_mkdir_check m parent leaf (length units)) (\<lambda>_.
           bindE (priv_exfat_find_dir_space m parent (of_nat (2 + exfat_name_entries (length units)))) (\<lambda>d.
           bindE (internal_exfat_dir_alloc m) (\<lambda>(newclus, bmp_lba).
           bindE (internal_exfat_build_dir_set m units newclus) (\<lambda>set'.
           attemptE (priv_exfat_write_dir_set m (sp_cluster d) (sp_index d) set') (\<lambda>r. case r of
             Inl e \<Rightarrow> attemptE (priv_exfat_bitmap_clear m bmp_lba newclus 1) (\<lambda>_. throwE e)
           | Inr _ \<Rightarrow> returnE ()))))))"

primrec exfat_is_empty_loop :: "'w mount \<Rightarrow> nat \<Rightarrow> ('w, bool) cop" where
  "exfat_is_empty_loop m 0 = throwE out_of_fuel"
| "exfat_is_empty_loop m (Suc n) =
     bindE (askC ec_scanned) (\<lambda>k.
       if unat k \<ge> k_exfat_scan_limit then returnE True
       else attemptE (priv_exfat_next_entry m) (\<lambda>r. case r of
         Inl err \<Rightarrow> if err = k_ra8_err_not_found then returnE True else throwE err
       | Inr e \<Rightarrow>
           if e ! 0 = k_exfat_entry_eod then returnE True
           else if e ! 0 AND k_exfat_inuse_bit = 0 then exfat_is_empty_loop m n
           else returnE False))"

definition internal_exfat_dir_is_empty :: "'w mount \<Rightarrow> exfat_dir \<Rightarrow> ('w fs, bool) op" where
  "internal_exfat_dir_is_empty m dir =
     withC (priv_exfat_cursor_init dir) (exfat_is_empty_loop m (Suc k_exfat_scan_limit))"

definition internal_exfat_rmdir_locate :: "'w mount \<Rightarrow> bytes \<Rightarrow> ('w fs, exfat_found \<times> exfat_dir) op" where
  "internal_exfat_rmdir_locate m path =
     bindE (priv_exfat_resolve_parent m path) (\<lambda>(parent, leaf).
       if leaf = [] then throwE k_ra8_err_invalid_arg
       else bindE (priv_exfat_find_set m parent leaf) (\<lambda>x.
         if xf_file x ! k_exfat_off_file_attr AND k_exfat_attr_directory = 0 then throwE k_ra8_err_invalid_arg
         else if priv_rd32 (xf_strm x) k_exfat_strm_off_clus < k_cluster_first_data then throwE k_ra8_err_protocol_error
         else bindE (priv_exfat_dir_from_set m (xf_strm x)
             \<lparr>ed_cluster = 0, ed_contig_end = 0, ed_self_cluster = 0, ed_self_index = 0\<rparr>) (\<lambda>dir. returnE (x, dir))))"

definition priv_exfat_rmdir :: "'w mount \<Rightarrow> bytes \<Rightarrow> ('w fs, unit) op" where
  "priv_exfat_rmdir m path =
     bindE (internal_exfat_rmdir_locate m path) (\<lambda>(x, victim).
     bindE (internal_exfat_dir_is_empty m victim) (\<lambda>empty.
       if \<not> empty then throwE k_ra8_err_not_empty
       else bindE (priv_exfat_drop_set m (xf_pos x)) (\<lambda>_. priv_exfat_free_clusters m (xf_strm x))))"

end
