(* ===== verification/Fat_Dir.thy ===== *)
theory Fat_Dir
  imports Fat_File_Io Fat_Mount Exfat_Mutate
begin

text \<open>
  \<^verbatim>\<open>ra8_fs_fat_dir.c\<close>: listing a directory through a callback or a cursor, deleting and renaming a
  file; and the metadata query of \<^verbatim>\<open>ra8_fs_fat_stat.c\<close>. The callback of a listing is a function on the
  outside world. On an exFAT volume each operation is the one of \<open>Exfat_Mutate\<close>.
\<close>

section \<open>Types\<close>

record stat =
  st_size_bytes :: u64
  st_first_cluster :: u32
  st_created :: timestamp
  st_modified :: timestamp
  st_accessed :: timestamp
  st_attr :: u8
  st_is_directory :: bool

record dir_private =
  dp_mount :: nat
  dp_fat_walk :: dir_walk
  dp_fat_lfn :: lfn_state
  dp_exfat_cursor :: exfat_cursor
  dp_finished :: bool

text \<open>\<open>ra8_fs_dir_t\<close>: the opaque bytes of the caller's object hold the private cursor.\<close>

record dir_handle =
  dh_state :: dir_private
  dh_is_open :: bool

definition dir_private_zero :: "nat \<Rightarrow> dir_private" where
  "dir_private_zero h = \<lparr>dp_mount = h,
     dp_fat_walk = \<lparr>w_is_root_fixed = False, w_fixed_remaining = 0, w_cluster = 0, w_sector_in_cluster = 0,
       w_cur_lba = 0, w_entry_idx = 0, w_cluster_hops = 0\<rparr>,
     dp_fat_lfn = priv_lfn_reset,
     dp_exfat_cursor = \<lparr>ec_cluster = 0, ec_entry_in_cluster = 0, ec_scanned = 0, ec_contig_end = 0\<rparr>,
     dp_finished = False\<rparr>"

section \<open>Listing through a callback\<close>

text \<open>The name a listing shows: the long name if a chain belongs to the entry and it is well-formed UTF-16.\<close>

definition visible_name :: "bytes \<Rightarrow> lfn_state \<Rightarrow> bytes" where
  "visible_name ent lfn =
     (let short_name = priv_83_to_str (take k_dir_name_field_len ent) (ent ! k_dir_off_ntres) in
      case priv_lfn_units_for lfn ent of
        None \<Rightarrow> short_name
      | Some lunits \<Rightarrow>
          (case priv_utf16_to_utf8 lunits k_lfn_utf8_cap of Inl _ \<Rightarrow> short_name | Inr lname \<Rightarrow> lname))"

text \<open>The callback invocations a sector causes, the chain state after it, and whether the end was met.\<close>

primrec internal_listdir_visit_sector ::
    "bytes \<Rightarrow> nat list \<Rightarrow> lfn_state \<Rightarrow> (bytes \<times> u8 \<times> u64) list \<times> lfn_state \<times> bool" where
  "internal_listdir_visit_sector buf [] lfn = ([], lfn, False)"
| "internal_listdir_visit_sector buf (e # es) lfn =
     (let ent = dir_ent buf e in
      if ent ! k_dir_off_name = k_dir_marker_free_perm then ([], lfn, True)
      else if ent ! k_dir_off_name = k_dir_marker_free_used then
        internal_listdir_visit_sector buf es priv_lfn_reset
      else if ent ! k_dir_off_attr = k_ra8_fs_attr_lfn then
        internal_listdir_visit_sector buf es (priv_lfn_add lfn ent)
      else if ent ! k_dir_off_name = k_dir_marker_dot then
        internal_listdir_visit_sector buf es priv_lfn_reset
      else case internal_listdir_visit_sector buf es priv_lfn_reset of (calls, lfn', stop) \<Rightarrow>
        ((visible_name ent lfn, ent ! k_dir_off_attr, ucast (priv_rd32 ent k_dir_off_file_size)) # calls, lfn', stop))"

primrec listdir_loop :: "'w mount \<Rightarrow> 'w listdir_cb \<Rightarrow> nat \<Rightarrow> dir_walk \<Rightarrow> lfn_state \<Rightarrow> ('w fs, unit) op" where
  "listdir_loop m cb 0 w lfn = throwE out_of_fuel"
| "listdir_loop m cb (Suc n) w lfn =
     bindE (priv_read_sector m (w_cur_lba w)) (\<lambda>buf.
       case internal_listdir_visit_sector buf [0..<unat (priv_dir_eps m)] lfn of (calls, lfn', stop) \<Rightarrow>
       bindE (modifyE (\<lambda>s. s\<lparr>world := fold (\<lambda>(name, attr, nbytes). cb name attr nbytes) calls (world s)\<rparr>)) (\<lambda>_.
       if stop then returnE ()
       else bindE (priv_dir_walk_next_sector m w) (\<lambda>(eod, w').
         if eod then returnE () else listdir_loop m cb n w' lfn')))"

definition internal_listdir_locked ::
    "nat option \<Rightarrow> bytes option \<Rightarrow> 'w listdir_cb option \<Rightarrow> ('w fs, unit) op" where
  "internal_listdir_locked handle path cb =
     (case (handle, path, cb) of
        (Some h, Some p, Some f) \<Rightarrow> bindE (mountE h) (\<lambda>m.
          if \<not> m_in_use m then throwE k_ra8_err_invalid_state
          else if m_type m = k_ra8_fs_type_exfat then
            bindE (priv_exfat_resolve_dir m p) (\<lambda>dir. priv_exfat_listdir m dir f)
          else bindE (priv_resolve_dir m p) (\<lambda>loc.
            let w = priv_dir_walk_init_loc m loc in listdir_loop m f (dir_fuel m w) w priv_lfn_reset))
      | _ \<Rightarrow> throwE k_ra8_err_null_ptr)"

section \<open>The directory cursor\<close>

text \<open>Operations on the pair of the driver state and the caller's cursor.\<close>

type_synonym ('w, 'a) dop = "('w fs \<times> dir_private, 'a) op"

definition internal_fat_dir_advance_sector :: "'w mount \<Rightarrow> ('w, unit) dop" where
  "internal_fat_dir_advance_sector m = (\<lambda>(s, st).
     case walk_next m (s, dp_fat_walk st) of
       (Inl err, (s', w)) \<Rightarrow> (Inl err, (s', st\<lparr>dp_fat_walk := w\<rparr>))
     | (Inr eod, (s', w)) \<Rightarrow> (Inr (), (s', st\<lparr>dp_fat_walk := w, dp_finished := (eod \<or> dp_finished st)\<rparr>)))"

text \<open>Each round of the loop moves the cursor 32 bytes on; \<open>bps\<close> rounds are more than a sector has entries.\<close>

primrec dir_scan_sector_loop ::
    "nat \<Rightarrow> u32 \<Rightarrow> bytes \<Rightarrow> dir_private \<Rightarrow> dirent option \<times> dir_private" where
  "dir_scan_sector_loop 0 bps sector st = (None, st)"
| "dir_scan_sector_loop (Suc n) bps sector st =
     (if w_entry_idx (dp_fat_walk st) < bps then
        let ent = take k_ra8_fs_dir_entry_bytes (drop (unat (w_entry_idx (dp_fat_walk st))) sector);
            st1 = st\<lparr>dp_fat_walk := (dp_fat_walk st)\<lparr>w_entry_idx :=
                w_entry_idx (dp_fat_walk st) + of_nat k_ra8_fs_dir_entry_bytes\<rparr>\<rparr>;
            reset = st1\<lparr>dp_fat_lfn := priv_lfn_reset\<rparr>
        in if ent ! k_dir_off_name = k_dir_marker_free_perm then (None, st1\<lparr>dp_finished := True\<rparr>)
           else if ent ! k_dir_off_name = k_dir_marker_free_used then dir_scan_sector_loop n bps sector reset
           else if ent ! k_dir_off_attr = k_ra8_fs_attr_lfn then
             dir_scan_sector_loop n bps sector (st1\<lparr>dp_fat_lfn := priv_lfn_add (dp_fat_lfn st1) ent\<rparr>)
           else if ent ! k_dir_off_name = k_dir_marker_dot then dir_scan_sector_loop n bps sector reset
           else (Some \<lparr>de_name = visible_name ent (dp_fat_lfn st1),
                       de_size_bytes = ucast (priv_rd32 ent k_dir_off_file_size), de_attr = ent ! k_dir_off_attr\<rparr>,
                 reset)
      else (None, st))"

definition internal_fat_dir_scan_sector :: "'w mount \<Rightarrow> bytes \<Rightarrow> dir_private \<Rightarrow> dirent option \<times> dir_private" where
  "internal_fat_dir_scan_sector m sector st = dir_scan_sector_loop (unat (priv_bps m)) (priv_bps m) sector st"

primrec fat_dir_next_loop :: "'w mount \<Rightarrow> nat \<Rightarrow> ('w, dirent option) dop" where
  "fat_dir_next_loop m 0 = throwE out_of_fuel"
| "fat_dir_next_loop m (Suc n) =
     bindE (getE snd) (\<lambda>st0.
       if dp_finished st0 then returnE None
       else bindE (whenE (w_entry_idx (dp_fat_walk st0) \<ge> priv_bps m) (internal_fat_dir_advance_sector m)) (\<lambda>_.
       bindE (getE snd) (\<lambda>st1.
         if dp_finished st1 then returnE None
         else (\<lambda>(s, st). case priv_read_sector m (w_cur_lba (dp_fat_walk st)) s of
             (Inl err, s') \<Rightarrow> (Inl err, (s', st))
           | (Inr sector, s') \<Rightarrow>
               (case internal_fat_dir_scan_sector m sector st of (hit, st') \<Rightarrow>
                 if hit \<noteq> None \<or> dp_finished st' then (Inr hit, (s', st'))
                 else fat_dir_next_loop m n (s', st'))))))"

definition internal_fat_dir_next :: "'w mount \<Rightarrow> ('w, dirent option) dop" where
  "internal_fat_dir_next m = (\<lambda>(s, st). fat_dir_next_loop m (Suc (dir_fuel m (dp_fat_walk st))) (s, st))"

definition internal_dir_open_locked :: "nat \<Rightarrow> bytes \<Rightarrow> ('w fs, dir_private) op" where
  "internal_dir_open_locked h path =
     bindE (mountE h) (\<lambda>m.
       if \<not> m_in_use m then throwE k_ra8_err_invalid_state
       else if m_type m = k_ra8_fs_type_exfat then
         bindE (priv_exfat_resolve_dir m path) (\<lambda>dir.
           returnE ((dir_private_zero h)\<lparr>dp_exfat_cursor := priv_exfat_cursor_init dir\<rparr>))
       else bindE (priv_resolve_dir m path) (\<lambda>loc.
         returnE ((dir_private_zero h)\<lparr>dp_fat_walk := priv_dir_walk_init_loc m loc, dp_fat_lfn := priv_lfn_reset\<rparr>)))"

text \<open>The public cursor functions, on the pair of the driver state and the caller's \<open>ra8_fs_dir_t\<close>.\<close>

definition ra8_fs_dir_open ::
    "nat option \<Rightarrow> bytes option \<Rightarrow> ('w fs \<times> dir_handle, unit) op" where
  "ra8_fs_dir_open handle path = (\<lambda>(s, d).
     case (handle, path) of
       (Some h, Some p) \<Rightarrow>
         if dh_is_open d then (Inl k_ra8_err_busy, (s, d))
         else (case locked (internal_dir_open_locked h p) s of
             (Inl err, s') \<Rightarrow> (Inl err, (s', d\<lparr>dh_state := dir_private_zero 0\<rparr>))
           | (Inr st, s') \<Rightarrow> (Inr (), (s', \<lparr>dh_state = st, dh_is_open = True\<rparr>)))
     | _ \<Rightarrow> (Inl k_ra8_err_null_ptr, (s, d)))"

definition dir_next_locked :: "('w, dirent option) dop" where
  "dir_next_locked = (\<lambda>(s, st).
     let m = s_mounts s ! dp_mount st in
     if \<not> m_in_use m then (Inl k_ra8_err_invalid_state, (s, st))
     else
       (case (if dp_finished st then (Inr None, (s, st))
              else if m_type m = k_ra8_fs_type_exfat then
                (case priv_exfat_dir_next m (s, dp_exfat_cursor st) of
                   (r, (s', cur)) \<Rightarrow> (r, (s', st\<lparr>dp_exfat_cursor := cur\<rparr>)))
              else internal_fat_dir_next m (s, st)) of
          (Inl err, (s', st')) \<Rightarrow> (Inl err, (s', st'))
        | (Inr out, (s', st')) \<Rightarrow> (Inr out, (s', if out = None then st'\<lparr>dp_finished := True\<rparr> else st'))))"

definition ra8_fs_dir_next :: "('w fs \<times> dir_handle, dirent option) op" where
  "ra8_fs_dir_next = (\<lambda>(s, d).
     if \<not> dh_is_open d then (Inl k_ra8_err_invalid_state, (s, d))
     else case dir_next_locked (priv_lock_acquire s, dh_state d) of
       (r, (s', st)) \<Rightarrow> (r, (priv_lock_release s', d\<lparr>dh_state := st\<rparr>)))"

definition ra8_fs_dir_close :: "('w fs \<times> dir_handle, unit) op" where
  "ra8_fs_dir_close = (\<lambda>(s, d).
     if \<not> dh_is_open d then (Inl k_ra8_err_invalid_state, (s, d))
     else (Inr (), (s, \<lparr>dh_state = dir_private_zero 0, dh_is_open = False\<rparr>)))"

section \<open>Deleting and renaming\<close>

record dir_target =
  dt_parent :: dir_loc
  dt_hit :: dir_hit

definition internal_unlink_locate :: "'w mount \<Rightarrow> bytes \<Rightarrow> ('w fs, dir_target \<times> u32) op" where
  "internal_unlink_locate m path =
     bindE (priv_resolve_parent m path) (\<lambda>(parent, leaf).
     bindE (priv_dir_lookup_any m parent leaf) (\<lambda>hit.
       let attr = hit_entry hit ! k_dir_off_attr in
       if attr AND k_ra8_fs_attr_directory \<noteq> 0 then throwE k_ra8_err_invalid_arg
       else if attr AND k_ra8_fs_attr_read_only \<noteq> 0 then throwE k_ra8_err_access_denied
       else returnE (\<lparr>dt_parent = parent, dt_hit = hit\<rparr>, priv_entry_first_cluster (hit_entry hit))))"

definition internal_unlink_locked :: "nat option \<Rightarrow> bytes option \<Rightarrow> ('w fs, unit) op" where
  "internal_unlink_locked handle path =
     (case (handle, path) of
        (Some h, Some p) \<Rightarrow> bindE (mountE h) (\<lambda>m.
          if \<not> m_in_use m then throwE k_ra8_err_invalid_state
          else if m_type m = k_ra8_fs_type_exfat then priv_exfat_unlink m p
          else bindE (internal_unlink_locate m p) (\<lambda>(t, cluster).
            bindE (whenE (cluster \<ge> k_cluster_first_data) (priv_free_chain m cluster)) (\<lambda>_.
              priv_dir_erase_chain m (dt_parent t) (hit_lba (dt_hit t)) (hit_off (dt_hit t))
                (hit_entry (dt_hit t)))))
      | _ \<Rightarrow> throwE k_ra8_err_null_ptr)"

definition internal_rename_prepare :: "'w mount \<Rightarrow> bytes \<Rightarrow> bytes \<Rightarrow> ('w fs, dir_loc \<times> bytes \<times> bytes) op" where
  "internal_rename_prepare m old_path new_path =
     bindE (priv_resolve_parent m old_path) (\<lambda>(op, ol).
     bindE (priv_resolve_parent m new_path) (\<lambda>(np, nl).
       if loc_is_root op \<noteq> loc_is_root np then throwE k_ra8_err_not_supported
       else if \<not> loc_is_root op \<and> loc_cluster op \<noteq> loc_cluster np then throwE k_ra8_err_not_supported
       else returnE (op, ol, nl)))"

definition internal_fat_rename :: "'w mount \<Rightarrow> bytes \<Rightarrow> bytes \<Rightarrow> ('w fs, unit) op" where
  "internal_fat_rename m old_path new_path =
     bindE (internal_rename_prepare m old_path new_path) (\<lambda>(parent, ol, nl).
     attemptE (priv_dir_lookup_any m parent nl) (\<lambda>dup. case dup of
       Inr _ \<Rightarrow> throwE k_ra8_err_exists
     | Inl _ \<Rightarrow>
         bindE (priv_dir_lookup_any m parent ol) (\<lambda>hit.
           if hit_entry hit ! k_dir_off_attr AND k_ra8_fs_attr_read_only \<noteq> 0 then throwE k_ra8_err_access_denied
           else
             bindE (priv_dir_reserve m parent nl) (\<lambda>plan.
             bindE (priv_fat_entry_stamp_access (hit_entry hit) 0) (\<lambda>entry.
             bindE (priv_dir_commit m plan entry) (\<lambda>_.
               priv_dir_erase_chain m parent (hit_lba hit) (hit_off hit) entry))))))"

definition internal_rename_locked ::
    "nat option \<Rightarrow> bytes option \<Rightarrow> bytes option \<Rightarrow> ('w fs, unit) op" where
  "internal_rename_locked handle old_path new_path =
     (case (handle, old_path, new_path) of
        (Some h, Some po, Some pn) \<Rightarrow> bindE (mountE h) (\<lambda>m.
          if \<not> m_in_use m then throwE k_ra8_err_invalid_state
          else if m_type m = k_ra8_fs_type_exfat then priv_exfat_rename m po pn
          else internal_fat_rename m po pn)
      | _ \<Rightarrow> throwE k_ra8_err_null_ptr)"

definition ra8_fs_listdir ::
    "nat option \<Rightarrow> bytes option \<Rightarrow> 'w listdir_cb option \<Rightarrow> ('w fs, unit) op" where
  "ra8_fs_listdir handle path cb = locked (internal_listdir_locked handle path cb)"

definition ra8_fs_unlink :: "nat option \<Rightarrow> bytes option \<Rightarrow> ('w fs, unit) op" where
  "ra8_fs_unlink handle path = locked (internal_unlink_locked handle path)"

definition ra8_fs_rename ::
    "nat option \<Rightarrow> bytes option \<Rightarrow> bytes option \<Rightarrow> ('w fs, unit) op" where
  "ra8_fs_rename handle old_path new_path = locked (internal_rename_locked handle old_path new_path)"

section \<open>Metadata of an entry\<close>

definition stat_zero :: stat where
  "stat_zero = \<lparr>st_size_bytes = 0, st_first_cluster = 0, st_created = timestamp_zero, st_modified = timestamp_zero,
     st_accessed = timestamp_zero, st_attr = 0, st_is_directory = False\<rparr>"

definition internal_path_is_root :: "bytes \<Rightarrow> bool" where
  "internal_path_is_root path \<longleftrightarrow> dropWhile (\<lambda>c. c = chr_slash) path = []"

definition internal_stat_fat_times :: "bytes \<Rightarrow> stat \<Rightarrow> stat" where
  "internal_stat_fat_times entry out = out\<lparr>
     st_created := internal_stat_decode_fat (priv_rd16 entry k_dir_off_crt_date)
       (priv_rd16 entry k_dir_off_crt_time) (entry ! k_dir_off_crt_time_tenth) True,
     st_modified := internal_stat_decode_fat (priv_rd16 entry k_dir_off_wrt_date)
       (priv_rd16 entry k_dir_off_wrt_time) 0 False,
     st_accessed := internal_stat_decode_fat (priv_rd16 entry k_dir_off_lst_acc_date) 0 0 False\<rparr>"

definition internal_stat_exfat_times :: "bytes \<Rightarrow> stat \<Rightarrow> stat" where
  "internal_stat_exfat_times entry out = out\<lparr>
     st_created := internal_stat_decode_exfat (priv_rd32 entry k_exfat_off_file_ctime)
       (entry ! k_exfat_off_file_c10ms) True (entry ! k_exfat_off_file_cutc),
     st_modified := internal_stat_decode_exfat (priv_rd32 entry k_exfat_off_file_mtime)
       (entry ! k_exfat_off_file_m10ms) True (entry ! k_exfat_off_file_mutc),
     st_accessed := internal_stat_decode_exfat (priv_rd32 entry k_exfat_off_file_atime) 0 False
       (entry ! k_exfat_off_file_autc)\<rparr>"

definition internal_stat_root :: "'w mount \<Rightarrow> stat \<Rightarrow> stat" where
  "internal_stat_root m out = out\<lparr>st_size_bytes := 0, st_first_cluster := m_root_cluster m,
     st_attr := k_ra8_fs_attr_directory, st_is_directory := True\<rparr>"

definition internal_entry_to_stat :: "bytes \<Rightarrow> stat \<Rightarrow> stat" where
  "internal_entry_to_stat entry out =
     (let attr = entry ! k_dir_off_attr;
          out1 = internal_stat_fat_times entry (out\<lparr>st_attr := attr,
            st_is_directory := attr AND k_ra8_fs_attr_directory \<noteq> 0,
            st_first_cluster := priv_entry_first_cluster entry,
            st_size_bytes := ucast (priv_rd32 entry k_dir_off_file_size)\<rparr>)
      in if st_is_directory out1 then out1\<lparr>st_size_bytes := 0\<rparr> else out1)"

definition internal_stat_exfat :: "'w mount \<Rightarrow> bytes \<Rightarrow> ('w fs, stat) op" where
  "internal_stat_exfat m path =
     bindE (priv_exfat_resolve_parent m path) (\<lambda>(parent, leaf).
     bindE (priv_exfat_find_set m parent leaf) (\<lambda>x.
       let attr = xf_file x ! k_exfat_off_file_attr;
           out1 = internal_stat_exfat_times (xf_file x) (stat_zero\<lparr>st_attr := attr,
             st_is_directory := attr AND k_ra8_fs_attr_directory \<noteq> 0,
             st_first_cluster := priv_rd32 (xf_strm x) k_exfat_strm_off_clus,
             st_size_bytes := priv_rd64 (xf_strm x) k_exfat_strm_off_dlen\<rparr>)
       in returnE (if st_is_directory out1 then out1\<lparr>st_size_bytes := 0\<rparr> else out1)))"

definition internal_stat_fat :: "'w mount \<Rightarrow> bytes \<Rightarrow> ('w fs, stat) op" where
  "internal_stat_fat m path =
     bindE (priv_resolve_parent m path) (\<lambda>(parent, leaf).
     attemptE (case priv_path_to_83 leaf of
         Some name83 \<Rightarrow> priv_dir_find m parent name83
       | None \<Rightarrow> throwE k_ra8_err_not_found) (\<lambda>r.
     bindE (if r = Inl k_ra8_err_not_found then priv_dir_find_long m parent leaf else returnR r) (\<lambda>hit.
       returnE (internal_entry_to_stat (hit_entry hit) stat_zero))))"

definition internal_stat_locked ::
    "nat option \<Rightarrow> bytes option \<Rightarrow> ('w fs, stat) op" where
  "internal_stat_locked handle path =
     (case (handle, path) of
        (Some h, Some p) \<Rightarrow> bindE (mountE h) (\<lambda>m.
          if \<not> m_in_use m then throwE k_ra8_err_invalid_state
          else if internal_path_is_root p then returnE (internal_stat_root m stat_zero)
          else if m_type m = k_ra8_fs_type_exfat then internal_stat_exfat m p
          else internal_stat_fat m p)
      | _ \<Rightarrow> throwE k_ra8_err_null_ptr)"

definition ra8_fs_stat :: "nat option \<Rightarrow> bytes option \<Rightarrow> ('w fs, stat) op" where
  "ra8_fs_stat handle path = locked (internal_stat_locked handle path)"

end
