(* ===== verification/Fat_Meta.thy ===== *)
theory Fat_Meta
  imports Fat_Dir
begin

text \<open>
  The metadata operations of the Zig units: attributes (\<^verbatim>\<open>ra8_fs_attr_abi.zig\<close>), time stamps
  (\<^verbatim>\<open>ra8_fs_utime_abi.zig\<close>) and free space (\<^verbatim>\<open>ra8_fs_space_abi.zig\<close>).
\<close>

section \<open>Patching an entry\<close>

text \<open>The lookup of both FAT halves: 8.3 first, then long.\<close>

definition find_entry :: "'w mount \<Rightarrow> bytes \<Rightarrow> ('w fs, dir_hit) op" where
  "find_entry m path =
     bindE (priv_resolve_parent m path) (\<lambda>(parent, leaf).
     attemptE (case priv_path_to_83 leaf of
         Some name83 \<Rightarrow> priv_dir_find m parent name83
       | None \<Rightarrow> throwE k_ra8_err_not_found) (\<lambda>r.
       if r = Inl k_ra8_err_not_found then priv_dir_find_long m parent leaf else returnR r))"

text \<open>The entries at the positions of a set, read one by one.\<close>

primrec reread_set :: "'w mount \<Rightarrow> exfat_setpos list \<Rightarrow> ('w fs, bytes) op" where
  "reread_set m [] = returnE []"
| "reread_set m (p # ps) =
     bindE (withC \<lparr>ec_cluster = sp_cluster p, ec_entry_in_cluster = sp_index p, ec_scanned = 0, ec_contig_end = 0\<rparr>
       (priv_exfat_next_entry m)) (\<lambda>e. bindE (reread_set m ps) (\<lambda>es. returnE (e @ es)))"

text \<open>
  The exFAT half of both: the set of \<open>path\<close> in the root directory, its entries patched by \<open>patch\<close>, the
  checksum, and the File entry written back.
\<close>

definition patch_set :: "'w mount \<Rightarrow> bytes \<Rightarrow> (bytes \<Rightarrow> ('w fs, bytes) op) \<Rightarrow> ('w fs, unit) op" where
  "patch_set m path patch =
     bindE (priv_exfat_find_set m (priv_exfat_dir_root m) path) (\<lambda>x.
     bindE (reread_set m (take k_exfat_set_max_entries (xf_pos x))) (\<lambda>set0.
     bindE (patch set0) (\<lambda>set1.
       let set2 = priv_wr16 set1 k_exfat_off_file_csum (priv_exfat_set_checksum set1); p = hd (xf_pos x) in
       priv_exfat_write_dir_set m (sp_cluster p) (sp_index p) (take k_exfat_entry_bytes set2))))"

section \<open>Attributes\<close>

abbreviation (input) attr_settable :: u8 where "attr_settable \<equiv> 0x27"

definition setAttrFat :: "'w mount \<Rightarrow> bytes \<Rightarrow> u8 \<Rightarrow> u8 \<Rightarrow> ('w fs, unit) op" where
  "setAttrFat m path set_mask clear_mask =
     bindE (find_entry m path) (\<lambda>hit.
     bindE (priv_read_sector m (hit_lba hit)) (\<lambda>sec.
       priv_write_sector m (hit_lba hit) (priv_fat_entry_apply_attr sec (hit_off hit) set_mask clear_mask)))"

definition setAttrExfat :: "'w mount \<Rightarrow> bytes \<Rightarrow> u8 \<Rightarrow> u8 \<Rightarrow> ('w fs, unit) op" where
  "setAttrExfat m path set_mask clear_mask =
     patch_set m path (\<lambda>s. returnE
       (s[k_exfat_off_file_attr := (s ! k_exfat_off_file_attr AND NOT clear_mask) OR set_mask]))"

definition setAttrLocked :: "nat option \<Rightarrow> bytes option \<Rightarrow> u8 \<Rightarrow> u8 \<Rightarrow> ('w fs, unit) op" where
  "setAttrLocked handle path set_mask clear_mask =
     (case (handle, path) of
        (Some h, Some p) \<Rightarrow> bindE (mountE h) (\<lambda>m.
          if \<not> m_in_use m then throwE k_ra8_err_invalid_state
          else if set_mask AND NOT attr_settable \<noteq> 0 \<or> clear_mask AND NOT attr_settable \<noteq> 0 \<or>
                  set_mask AND clear_mask \<noteq> 0 then throwE k_ra8_err_invalid_arg
          else if dropWhile (\<lambda>c. c = chr_slash) p = [] then throwE k_ra8_err_invalid_arg
          else if m_type m = k_ra8_fs_type_exfat then setAttrExfat m p set_mask clear_mask
          else setAttrFat m p set_mask clear_mask)
      | _ \<Rightarrow> throwE k_ra8_err_null_ptr)"

definition ra8_fs_set_attr :: "nat option \<Rightarrow> bytes option \<Rightarrow> u8 \<Rightarrow> u8 \<Rightarrow> ('w fs, unit) op" where
  "ra8_fs_set_attr handle path set_mask clear_mask = locked (setAttrLocked handle path set_mask clear_mask)"

section \<open>Time stamps\<close>

record stamps =
  sp_create :: "datetime option"
  sp_modify :: "datetime option"
  sp_access :: "datetime option"

definition utimeFat :: "'w mount \<Rightarrow> bytes \<Rightarrow> stamps \<Rightarrow> ('w fs, unit) op" where
  "utimeFat m path st =
     bindE (find_entry m path) (\<lambda>hit.
     bindE (priv_read_sector m (hit_lba hit)) (\<lambda>sec.
       priv_write_sector m (hit_lba hit)
         (priv_fat_entry_set_times sec (hit_off hit) (sp_create st) (sp_modify st) (sp_access st))))"

definition utimeExfat :: "'w mount \<Rightarrow> bytes \<Rightarrow> stamps \<Rightarrow> ('w fs, unit) op" where
  "utimeExfat m path st =
     patch_set m path (\<lambda>s. returnE (priv_exfat_file_set_times s (sp_create st) (sp_modify st) (sp_access st)))"

definition utimeLocked :: "nat option \<Rightarrow> bytes option \<Rightarrow> stamps \<Rightarrow> ('w fs, unit) op" where
  "utimeLocked handle path st =
     (case (handle, path) of
        (Some h, Some p) \<Rightarrow> bindE (mountE h) (\<lambda>m.
          if \<not> m_in_use m then throwE k_ra8_err_invalid_state
          else if dropWhile (\<lambda>c. c = chr_slash) p = [] then throwE k_ra8_err_invalid_arg
          else if m_type m = k_ra8_fs_type_exfat then utimeExfat m p st
          else utimeFat m p st)
      | _ \<Rightarrow> throwE k_ra8_err_null_ptr)"

definition ra8_fs_utime :: "nat option \<Rightarrow> bytes option \<Rightarrow> stamps \<Rightarrow> ('w fs, unit) op" where
  "ra8_fs_utime handle path st = locked (utimeLocked handle path st)"

section \<open>Free space\<close>

record space =
  sc_total_bytes :: u64
  sc_free_bytes :: u64
  sc_used_bytes :: u64
  sc_bytes_per_cluster :: u32
  sc_total_clusters :: u32
  sc_free_clusters :: u32
  sc_used_clusters :: u32

primrec fat_free_loop :: "'w mount \<Rightarrow> u32 list \<Rightarrow> u32 \<Rightarrow> ('w fs, u32) op" where
  "fat_free_loop m [] free = returnE free"
| "fat_free_loop m (c # cs) free =
     bindE (priv_fat_get m c) (\<lambda>v. fat_free_loop m cs (if v = k_cluster_free then free + 1 else free))"

text \<open>The clusters from 2 on; the end of the range is a checked addition.\<close>

definition fatFree :: "'w mount \<Rightarrow> ('w fs, u32) op" where
  "fatFree m =
     bindE (zig_u32 (2 + unat (m_count_of_clusters m))) (\<lambda>last'.
       fat_free_loop m (map of_nat [2..<unat last']) 0)"

definition popcount8 :: "u8 \<Rightarrow> nat" where
  "popcount8 b = length (filter (\<lambda>i. bit b i) [0..<8])"

text \<open>The buffer is reloaded when the sector of the byte is not the loaded one.\<close>

primrec exfat_free_loop ::
    "'w mount \<Rightarrow> u64 \<Rightarrow> nat \<Rightarrow> nat \<Rightarrow> nat list \<Rightarrow> u64 \<Rightarrow> bytes \<Rightarrow> nat \<Rightarrow> ('w fs, nat) op" where
  "exfat_free_loop m bmp_lba full rem' [] loaded sec used = returnE used"
| "exfat_free_loop m bmp_lba full rem' (bi # bis) loaded sec used =
     (let bps = unat (priv_bps m); lba = bmp_lba + of_nat (bi div bps) in
      bindE (if lba \<noteq> loaded then priv_read_sector m lba else returnE sec) (\<lambda>sec'.
        let b0 = sec' ! (bi mod bps); b = (if bi = full then b0 AND (push_bit rem' 1 - 1) else b0) in
        exfat_free_loop m bmp_lba full rem' bis lba sec' (used + popcount8 b)))"

definition exfatFree :: "'w mount \<Rightarrow> ('w fs, u32) op" where
  "exfatFree m =
     bindE (priv_exfat_find_bitmap m) (\<lambda>(bmp_clus, bmp_len).
       let full = unat (m_count_of_clusters m) div 8; rem' = unat (m_count_of_clusters m) mod 8;
           nbytes = full + (if rem' \<noteq> 0 then 1 else 0)
       in bindE (exfat_free_loop m (priv_cluster_to_lba m bmp_clus) full rem' [0..<nbytes] (NOT 0) [] 0) (\<lambda>used.
            returnE (m_count_of_clusters m - of_nat used)))"

definition freeClusters :: "'w mount \<Rightarrow> ('w fs, u32) op" where
  "freeClusters m =
     (if m_type m = k_ra8_fs_type_exfat then exfatFree m
      else bindE (getE (priv_free_count_peek m)) (\<lambda>cached.
        if cached \<noteq> k_fs_free_unknown then returnE cached
        else bindE (fatFree m) (\<lambda>free.
          bindE (modifyE (priv_free_count_cache m free)) (\<lambda>_. returnE free))))"

text \<open>The subtraction of the free clusters is checked in Zig: a count above the total is trapped.\<close>

definition spaceLocked :: "nat option \<Rightarrow> bool \<Rightarrow> ('w fs, space) op" where
  "spaceLocked handle have_out =
     (case handle of None \<Rightarrow> throwE k_ra8_err_null_ptr
      | Some h \<Rightarrow>
          if \<not> have_out then throwE k_ra8_err_null_ptr
          else bindE (mountE h) (\<lambda>m.
            if \<not> m_in_use m then throwE k_ra8_err_invalid_state
            else bindE (freeClusters m) (\<lambda>free.
              let total_clus = m_count_of_clusters m; bpc = priv_cluster_bytes m in
              if free > total_clus then throwE undefined_behaviour
              else let used = total_clus - free in
                returnE \<lparr>sc_total_bytes = ucast total_clus * ucast bpc, sc_free_bytes = ucast free * ucast bpc,
                  sc_used_bytes = ucast used * ucast bpc, sc_bytes_per_cluster = bpc,
                  sc_total_clusters = total_clus, sc_free_clusters = free, sc_used_clusters = used\<rparr>)))"

definition ra8_fs_free_space :: "nat option \<Rightarrow> bool \<Rightarrow> ('w fs, space) op" where
  "ra8_fs_free_space handle have_out = locked (spaceLocked handle have_out)"

end
