(* ===== verification/Fat_Label.thy ===== *)
theory Fat_Label
  imports Fat_Fmt Exfat_Dir
begin

text \<open>
  \<^verbatim>\<open>ra8_fs_fat_label.c\<close> and \<^verbatim>\<open>ra8_fs_exfat_label_abi.zig\<close>: reading and setting the volume label. A FAT volume
  keeps it twice, in the boot sector and in a volume-ID entry of the root directory; an exFAT volume has one
  label entry in the root directory. The caller's buffer of a query is the string it gets back.
\<close>

section \<open>FAT\<close>

definition internal_fat_boot_label_off :: "'w mount \<Rightarrow> nat" where
  "internal_fat_boot_label_off m =
     (if m_type m = k_ra8_fs_type_fat32 then k_fmt_off_f32_label else k_fmt_off_f16_label)"

text \<open>\<open>dropWhile\<close> on the reversed field is the loop that drops the padding.\<close>

definition internal_label_from_raw :: "bytes \<Rightarrow> nat \<Rightarrow> bytes" where
  "internal_label_from_raw raw11 out_len =
     (if raw11 = no_name @ replicate 4 chr_space then []
      else take (out_len - 1) (rev (dropWhile (\<lambda>c. c = chr_space) (rev raw11))))"

text \<open>The root directory from its first sector on.\<close>

abbreviation root_loc :: dir_loc where "root_loc \<equiv> \<lparr>loc_is_root = True, loc_cluster = 0\<rparr>"

primrec find_vol_id_entries :: "bytes \<Rightarrow> u64 \<Rightarrow> nat list \<Rightarrow> unit + (ra8_err + dir_hit)" where
  "find_vol_id_entries buf lba [] = Inl ()"
| "find_vol_id_entries buf lba (e # es) =
     (let ent = dir_ent buf e; name0 = ent ! k_dir_off_name; attr = ent ! k_dir_off_attr in
      if name0 = k_dir_marker_free_perm then Inr (Inl k_ra8_err_not_found)
      else if name0 = k_dir_marker_free_used then find_vol_id_entries buf lba es
      else if attr = k_ra8_fs_attr_lfn then find_vol_id_entries buf lba es
      else if attr AND k_ra8_fs_attr_volume_id \<noteq> 0 then
        Inr (Inr \<lparr>hit_lba = lba, hit_off = e * k_ra8_fs_dir_entry_bytes, hit_entry = ent\<rparr>)
      else find_vol_id_entries buf lba es)"

definition internal_fat_find_vol_id :: "'w mount \<Rightarrow> ('w fs, dir_hit) op" where
  "internal_fat_find_vol_id m =
     (let w = priv_dir_walk_init_loc m root_loc in
      dir_scan m (\<lambda>w buf _. find_vol_id_entries buf (w_cur_lba w) [0..<unat (priv_dir_eps m)])
        k_ra8_err_not_found (dir_fuel m w) w ())"

primrec find_free_root_entries :: "bytes \<Rightarrow> u64 \<Rightarrow> nat list \<Rightarrow> unit + (ra8_err + u64 \<times> nat)" where
  "find_free_root_entries buf lba [] = Inl ()"
| "find_free_root_entries buf lba (e # es) =
     (let name0 = dir_ent buf e ! k_dir_off_name in
      if name0 = k_dir_marker_free_perm \<or> name0 = k_dir_marker_free_used then
        Inr (Inr (lba, e * k_ra8_fs_dir_entry_bytes))
      else find_free_root_entries buf lba es)"

definition internal_fat_find_free_root :: "'w mount \<Rightarrow> ('w fs, u64 \<times> nat) op" where
  "internal_fat_find_free_root m =
     (let w = priv_dir_walk_init_loc m root_loc in
      dir_scan m (\<lambda>w buf _. find_free_root_entries buf (w_cur_lba w) [0..<unat (priv_dir_eps m)])
        k_ra8_err_no_mem (dir_fuel m w) w ())"

definition internal_fat_boot_set_label :: "'w mount \<Rightarrow> bytes option \<Rightarrow> ('w fs, unit) op" where
  "internal_fat_boot_set_label m label =
     bindE (priv_read_sector m 0) (\<lambda>boot.
       priv_write_sector m 0 (priv_fmt_label_field boot (internal_fat_boot_label_off m) label))"

definition internal_fat_del_entry :: "'w mount \<Rightarrow> u64 \<Rightarrow> nat \<Rightarrow> ('w fs, unit) op" where
  "internal_fat_del_entry m lba off =
     bindE (priv_read_sector m lba) (\<lambda>sec.
       priv_write_sector m lba (sec[off + k_dir_off_name := k_dir_marker_free_used]))"

definition internal_fat_put_vol_id :: "'w mount \<Rightarrow> u64 \<Rightarrow> nat \<Rightarrow> bytes option \<Rightarrow> bool \<Rightarrow> ('w fs, unit) op" where
  "internal_fat_put_vol_id m lba off label fresh =
     bindE (priv_read_sector m lba) (\<lambda>sec.
       let sec1 = (if fresh then priv_byte_fill sec off 0 k_ra8_fs_dir_entry_bytes else sec);
           sec2 = (priv_fmt_label_field sec1 (off + k_dir_off_name) label)
             [off + k_dir_off_attr := k_ra8_fs_attr_volume_id]
       in bindE (if fresh then priv_fat_entry_stamp_create sec2 off else priv_fat_entry_stamp_write sec2 off) (\<lambda>sec3.
            priv_write_sector m lba sec3))"

definition internal_get_label_fat :: "'w mount \<Rightarrow> nat \<Rightarrow> ('w fs, bytes) op" where
  "internal_get_label_fat m out_len =
     attemptE (internal_fat_find_vol_id m) (\<lambda>r. case r of
       Inr hit \<Rightarrow> returnE (internal_label_from_raw (take k_fmt_label_len (hit_entry hit)) out_len)
     | Inl ferr \<Rightarrow>
         if ferr = k_ra8_err_not_found then
           bindE (priv_read_sector m 0) (\<lambda>boot.
             returnE (internal_label_from_raw
               (take k_fmt_label_len (drop (internal_fat_boot_label_off m) boot)) out_len))
         else throwE ferr)"

definition internal_set_label_fat :: "'w mount \<Rightarrow> bytes option \<Rightarrow> ('w fs, unit) op" where
  "internal_set_label_fat m label =
     (let clearing = (label = None \<or> label = Some []) in
      bindE (internal_fat_boot_set_label m label) (\<lambda>_.
      attemptE (internal_fat_find_vol_id m) (\<lambda>r. case r of
        Inr hit \<Rightarrow>
          if clearing then internal_fat_del_entry m (hit_lba hit) (hit_off hit)
          else internal_fat_put_vol_id m (hit_lba hit) (hit_off hit) label False
      | Inl ferr \<Rightarrow>
          if ferr \<noteq> k_ra8_err_not_found then throwE ferr
          else if clearing then returnE ()
          else bindE (internal_fat_find_free_root m) (\<lambda>(lba, off).
            internal_fat_put_vol_id m lba off label True))))"

section \<open>exFAT\<close>

record located =
  lc_pos :: exfat_setpos
  lc_entry :: bytes
  lc_present :: bool

text \<open>The position is taken before the cursor reads the entry.\<close>

primrec locate_label_loop :: "'w mount \<Rightarrow> nat \<Rightarrow> ('w, located) cop" where
  "locate_label_loop m 0 = throwE out_of_fuel"
| "locate_label_loop m (Suc n) =
     bindE (askC (\<lambda>c. c)) (\<lambda>cur.
       if unat (ec_scanned cur) \<ge> k_exfat_scan_limit then throwE k_ra8_err_not_found
       else
         let at' = \<lparr>sp_cluster = ec_cluster cur, sp_index = ec_entry_in_cluster cur\<rparr> in
         bindE (priv_exfat_next_entry m) (\<lambda>e.
           if e ! 0 = k_exfat_entry_eod then
             returnE \<lparr>lc_pos = at', lc_entry = replicate k_exfat_entry_bytes 0, lc_present = False\<rparr>
           else if e ! 0 AND NOT k_exfat_inuse_bit = k_exfat_entry_label AND NOT k_exfat_inuse_bit then
             returnE \<lparr>lc_pos = at', lc_entry = e, lc_present = True\<rparr>
           else locate_label_loop m n))"

definition locateLabel :: "'w mount \<Rightarrow> ('w fs, located) op" where
  "locateLabel m = withC (priv_exfat_cursor_init (priv_exfat_dir_root m)) (locate_label_loop m (Suc k_exfat_scan_limit))"

definition decodeLabel :: "bytes \<Rightarrow> nat \<Rightarrow> bytes" where
  "decodeLabel entry out_len =
     map (\<lambda>i. entry ! (2 + i * 2)) [0..<min (min (unat (entry ! 1)) k_fmt_label_len) (out_len - 1)]"

definition encodeLabel :: "bytes option \<Rightarrow> bytes" where
  "encodeLabel label =
     (let l = take k_fmt_label_len (case label of None \<Rightarrow> [] | Some s \<Rightarrow> s) in
      (fold (\<lambda>n e. e[2 + n * 2 := l ! n]) [0..<length l] ((replicate k_exfat_entry_bytes 0)[0 := k_exfat_entry_label]))
        [1 := of_nat (length l)])"

definition priv_exfat_get_label :: "'w mount \<Rightarrow> nat \<Rightarrow> ('w fs, bytes) op" where
  "priv_exfat_get_label m out_len =
     bindE (locateLabel m) (\<lambda>found.
       if \<not> lc_present found \<or> lc_entry found ! 0 \<noteq> k_exfat_entry_label then returnE []
       else returnE (decodeLabel (lc_entry found) out_len))"

definition priv_exfat_set_label :: "'w mount \<Rightarrow> bytes option \<Rightarrow> ('w fs, unit) op" where
  "priv_exfat_set_label m label =
     bindE (locateLabel m) (\<lambda>found.
       priv_exfat_write_dir_set m (sp_cluster (lc_pos found)) (sp_index (lc_pos found)) (encodeLabel label))"

section \<open>The public operations\<close>

text \<open>\<open>out_len\<close> is \<open>None\<close> for a null output buffer. The result is the C string in the buffer.\<close>

definition internal_get_label_locked :: "nat option \<Rightarrow> u32 option \<Rightarrow> ('w fs, bytes) op" where
  "internal_get_label_locked handle out_len =
     (case (handle, out_len) of
        (Some h, Some n) \<Rightarrow>
          if n = 0 then throwE k_ra8_err_invalid_arg
          else bindE (mountE h) (\<lambda>m.
            if \<not> m_in_use m then throwE k_ra8_err_invalid_state
            else bindE (if m_type m = k_ra8_fs_type_exfat then priv_exfat_get_label m (unat n)
                        else internal_get_label_fat m (unat n)) (\<lambda>out.
              returnE (takeWhile (\<lambda>c. c \<noteq> 0) out)))
      | _ \<Rightarrow> throwE k_ra8_err_null_ptr)"

definition internal_set_label_locked :: "nat option \<Rightarrow> bytes option \<Rightarrow> ('w fs, unit) op" where
  "internal_set_label_locked handle label =
     (case handle of None \<Rightarrow> throwE k_ra8_err_null_ptr
      | Some h \<Rightarrow> bindE (mountE h) (\<lambda>m.
          if \<not> m_in_use m then throwE k_ra8_err_invalid_state
          else if (case label of None \<Rightarrow> False | Some l \<Rightarrow> length l > k_fmt_label_len) then throwE k_ra8_err_invalid_arg
          else if m_type m = k_ra8_fs_type_exfat then priv_exfat_set_label m label
          else internal_set_label_fat m label))"

definition ra8_fs_get_label :: "nat option \<Rightarrow> u32 option \<Rightarrow> ('w fs, bytes) op" where
  "ra8_fs_get_label handle out_len = locked (internal_get_label_locked handle out_len)"

definition ra8_fs_set_label :: "nat option \<Rightarrow> bytes option \<Rightarrow> ('w fs, unit) op" where
  "ra8_fs_set_label handle label = locked (internal_set_label_locked handle label)"

end
