(* ===== verification/Fat_Dirmk.thy ===== *)
theory Fat_Dirmk
  imports Fat_Dir
begin

text \<open>
  \<^verbatim>\<open>ra8_fs_fat_dirmk.c\<close>: making and removing directories. A new directory gets one cluster with the entries
  for itself and its parent; only a directory without other entries is removed.
\<close>

section \<open>Making\<close>

text \<open>The 32 bytes at \<open>off\<close> become a dot entry.\<close>

definition internal_pack_dot_entry :: "bytes \<Rightarrow> nat \<Rightarrow> nat \<Rightarrow> u32 \<Rightarrow> ('w fs, bytes) op" where
  "internal_pack_dot_entry buf off dots cluster =
     (let ent = (replicate dots chr_dot @ replicate (k_dir_name_field_len - dots) chr_space @
             replicate (k_ra8_fs_dir_entry_bytes - k_dir_name_field_len) 0)
           [k_dir_off_attr := k_ra8_fs_attr_directory]
      in priv_fat_entry_stamp_create
           (priv_entry_set_cluster_size (priv_byte_copy buf off ent 0 k_ra8_fs_dir_entry_bytes) off cluster 0) off)"

primrec write_zero_lbas :: "'w mount \<Rightarrow> u64 list \<Rightarrow> ('w fs, unit) op" where
  "write_zero_lbas m [] = returnE ()"
| "write_zero_lbas m (lba # lbas) = bindE (priv_write_sector m lba (zero_sector m)) (\<lambda>_. write_zero_lbas m lbas)"

definition internal_dir_cluster_init :: "'w mount \<Rightarrow> u32 \<Rightarrow> u32 \<Rightarrow> ('w fs, unit) op" where
  "internal_dir_cluster_init m new_cluster parent_cluster =
     bindE (internal_pack_dot_entry (zero_sector m) 0 1 new_cluster) (\<lambda>buf1.
     bindE (internal_pack_dot_entry buf1 k_ra8_fs_dir_entry_bytes 2 parent_cluster) (\<lambda>buf2.
     bindE (priv_write_sector m (priv_cluster_to_lba m new_cluster) buf2) (\<lambda>_.
       write_zero_lbas m (map (\<lambda>s. priv_cluster_to_lba m new_cluster + of_nat s)
         [1..<unat (m_sectors_per_cluster m)]))))"

text \<open>A step after which the new cluster is given back if it failed.\<close>

definition or_free_chain :: "'w mount \<Rightarrow> u32 \<Rightarrow> ('w fs, 'a) op \<Rightarrow> ('w fs, 'a) op" where
  "or_free_chain m cluster step =
     attemptE step (\<lambda>r. case r of
       Inl err \<Rightarrow> attemptE (priv_free_chain m cluster) (\<lambda>_. throwE err)
     | Inr x \<Rightarrow> returnE x)"

definition internal_fat_mkdir :: "'w mount \<Rightarrow> bytes \<Rightarrow> ('w fs, unit) op" where
  "internal_fat_mkdir m path =
     bindE (priv_resolve_parent m path) (\<lambda>(parent, leaf).
     attemptE (priv_dir_lookup_any m parent leaf) (\<lambda>r. case r of
       Inr _ \<Rightarrow> throwE k_ra8_err_exists
     | Inl _ \<Rightarrow>
         bindE (priv_dir_reserve m parent leaf) (\<lambda>plan.
         bindE (priv_alloc_eoc_cluster m) (\<lambda>new_cluster.
         bindE (or_free_chain m new_cluster (internal_dir_cluster_init m new_cluster
             (if loc_is_root parent then 0 else loc_cluster parent))) (\<lambda>_.
           let tmpl = (replicate k_ra8_fs_dir_entry_bytes 0)[k_dir_off_attr := k_ra8_fs_attr_directory] in
           bindE (priv_fat_entry_stamp_create (priv_entry_set_cluster_size tmpl 0 new_cluster 0) 0) (\<lambda>tmpl1.
           bindE (or_free_chain m new_cluster (priv_dir_commit m plan tmpl1)) (\<lambda>_. returnE ())))))))"

definition internal_mkdir_locked :: "nat option \<Rightarrow> bytes option \<Rightarrow> ('w fs, unit) op" where
  "internal_mkdir_locked handle path =
     (case (handle, path) of
        (Some h, Some p) \<Rightarrow> bindE (mountE h) (\<lambda>m.
          if \<not> m_in_use m then throwE k_ra8_err_invalid_state
          else if m_type m = k_ra8_fs_type_exfat then priv_exfat_mkdir m p
          else internal_fat_mkdir m p)
      | _ \<Rightarrow> throwE k_ra8_err_null_ptr)"

section \<open>Removing\<close>

datatype dir_scan_verdict = k_dir_scan_more | k_dir_scan_empty | k_dir_scan_used

primrec rmdir_scan_entries :: "bytes \<Rightarrow> nat list \<Rightarrow> dir_scan_verdict" where
  "rmdir_scan_entries buf [] = k_dir_scan_more"
| "rmdir_scan_entries buf (e # es) =
     (let ent = dir_ent buf e in
      if ent ! k_dir_off_name = k_dir_marker_free_perm then k_dir_scan_empty
      else if ent ! k_dir_off_name = k_dir_marker_free_used then rmdir_scan_entries buf es
      else if ent ! k_dir_off_attr = k_ra8_fs_attr_lfn then rmdir_scan_entries buf es
      else if ent ! k_dir_off_name = k_dir_marker_dot then rmdir_scan_entries buf es
      else k_dir_scan_used)"

definition internal_rmdir_scan_sector :: "'w mount \<Rightarrow> bytes \<Rightarrow> dir_scan_verdict" where
  "internal_rmdir_scan_sector m buf = rmdir_scan_entries buf [0..<unat (priv_dir_eps m)]"

primrec dir_is_empty_loop :: "'w mount \<Rightarrow> nat \<Rightarrow> dir_walk \<Rightarrow> ('w fs, bool) op" where
  "dir_is_empty_loop m 0 w = throwE out_of_fuel"
| "dir_is_empty_loop m (Suc n) w =
     bindE (priv_read_sector m (w_cur_lba w)) (\<lambda>buf.
       case internal_rmdir_scan_sector m buf of
         k_dir_scan_used \<Rightarrow> returnE False
       | k_dir_scan_empty \<Rightarrow> returnE True
       | k_dir_scan_more \<Rightarrow> bindE (priv_dir_walk_next_sector m w) (\<lambda>(eod, w').
           if eod then returnE True else dir_is_empty_loop m n w'))"

definition internal_dir_is_empty :: "'w mount \<Rightarrow> u32 \<Rightarrow> ('w fs, bool) op" where
  "internal_dir_is_empty m cluster =
     (let w = priv_dir_walk_init_loc m \<lparr>loc_is_root = False, loc_cluster = cluster\<rparr>
      in dir_is_empty_loop m (dir_fuel m w) w)"

definition internal_rmdir_locate :: "'w mount \<Rightarrow> bytes \<Rightarrow> ('w fs, dir_target \<times> u32) op" where
  "internal_rmdir_locate m path =
     bindE (priv_resolve_parent m path) (\<lambda>(parent, leaf).
       if leaf = [] then throwE k_ra8_err_invalid_arg
       else bindE (priv_dir_lookup_any m parent leaf) (\<lambda>hit.
         if hit_entry hit ! k_dir_off_attr AND k_ra8_fs_attr_directory = 0 then throwE k_ra8_err_invalid_arg
         else let cluster = priv_entry_first_cluster (hit_entry hit) in
           if cluster < k_cluster_first_data then throwE k_ra8_err_protocol_error
           else returnE (\<lparr>dt_parent = parent, dt_hit = hit\<rparr>, cluster)))"

definition internal_fat_rmdir :: "'w mount \<Rightarrow> bytes \<Rightarrow> ('w fs, unit) op" where
  "internal_fat_rmdir m path =
     bindE (internal_rmdir_locate m path) (\<lambda>(t, cluster).
     bindE (internal_dir_is_empty m cluster) (\<lambda>empty.
       if \<not> empty then throwE k_ra8_err_not_empty
       else bindE (priv_free_chain m cluster) (\<lambda>_.
         priv_dir_erase_chain m (dt_parent t) (hit_lba (dt_hit t)) (hit_off (dt_hit t)) (hit_entry (dt_hit t)))))"

definition internal_rmdir_locked :: "nat option \<Rightarrow> bytes option \<Rightarrow> ('w fs, unit) op" where
  "internal_rmdir_locked handle path =
     (case (handle, path) of
        (Some h, Some p) \<Rightarrow> bindE (mountE h) (\<lambda>m.
          if \<not> m_in_use m then throwE k_ra8_err_invalid_state
          else if m_type m = k_ra8_fs_type_exfat then priv_exfat_rmdir m p
          else internal_fat_rmdir m p)
      | _ \<Rightarrow> throwE k_ra8_err_null_ptr)"

definition ra8_fs_mkdir :: "nat option \<Rightarrow> bytes option \<Rightarrow> ('w fs, unit) op" where
  "ra8_fs_mkdir handle path = locked (internal_mkdir_locked handle path)"

definition ra8_fs_rmdir :: "nat option \<Rightarrow> bytes option \<Rightarrow> ('w fs, unit) op" where
  "ra8_fs_rmdir handle path = locked (internal_rmdir_locked handle path)"

end
