(* ===== verification/Fat_Truncate.thy ===== *)
theory Fat_Truncate
  imports Fat_File_Io
begin

text \<open>
  \<^verbatim>\<open>ra8_fs_fat_truncate.c\<close>: changing the size of an open file. Shrinking frees the clusters past the new end;
  growing a FAT file allocates and zeroes them, growing an exFAT file only allocates them (the bytes past the
  valid length read as zero).
\<close>

section \<open>Clusters and bytes\<close>

definition internal_trunc_clusters :: "u64 \<Rightarrow> u32 \<Rightarrow> u64" where
  "internal_trunc_clusters nbytes cbytes = (nbytes + ucast cbytes - 1) div ucast cbytes"

primrec trunc_walk_loop :: "'w mount \<Rightarrow> nat \<Rightarrow> u32 \<Rightarrow> ('w fs, u32) op" where
  "trunc_walk_loop m 0 cur = returnE cur"
| "trunc_walk_loop m (Suc n) cur =
     bindE (priv_fat_get m cur) (\<lambda>nxt.
       if priv_is_eoc m nxt then throwE k_ra8_err_protocol_error else trunc_walk_loop m n nxt)"

definition internal_trunc_walk :: "'w mount \<Rightarrow> u32 \<Rightarrow> u32 \<Rightarrow> ('w fs, u32) op" where
  "internal_trunc_walk m start idx = trunc_walk_loop m (unat idx) start"

text \<open>Every round clears at least one byte of the span, so as many rounds as it has bytes are enough.\<close>

primrec zero_span_loop :: "'w mount \<Rightarrow> u64 \<Rightarrow> u32 \<Rightarrow> nat \<Rightarrow> u32 \<Rightarrow> ('w fs, unit) op" where
  "zero_span_loop m base_lba hi 0 off = (if off < hi then throwE out_of_fuel else returnE ())"
| "zero_span_loop m base_lba hi (Suc fuel) off =
     (if off < hi then
        let sec_idx = off div priv_bps m; sec_start = sec_idx * priv_bps m; in_sector = off - sec_start;
            n = (if priv_bps m - in_sector > hi - off then hi - off else priv_bps m - in_sector)
        in bindE (priv_read_sector m (base_lba + ucast sec_idx)) (\<lambda>sec.
           bindE (priv_write_sector m (base_lba + ucast sec_idx)
               (priv_byte_copy sec (unat in_sector) (replicate (unat n) 0) 0 (unat n))) (\<lambda>_.
             zero_span_loop m base_lba hi fuel (off + n)))
      else returnE ())"

definition internal_trunc_zero_span :: "'w mount \<Rightarrow> u32 \<Rightarrow> u32 \<Rightarrow> u32 \<Rightarrow> ('w fs, unit) op" where
  "internal_trunc_zero_span m cluster lo hi =
     (if lo \<ge> hi then returnE ()
      else zero_span_loop m (priv_cluster_to_lba m cluster) hi (unat (hi - lo)) lo)"

section \<open>FAT\<close>

definition internal_fat_trunc_shrink :: "nat \<Rightarrow> u32 \<Rightarrow> u32 \<Rightarrow> ('w fs, unit) op" where
  "internal_fat_trunc_shrink i new_size cbytes =
     bindE (file_mountE i) (\<lambda>m.
     bindE (fileE i) (\<lambda>f.
       let new_nclus = ucast (internal_trunc_clusters (ucast new_size) cbytes) :: u32 in
       if new_nclus = 0 then
         bindE (whenE (f_first_cluster f \<ge> k_cluster_first_data) (priv_free_chain m (f_first_cluster f))) (\<lambda>_.
           set_file i (\<lambda>f. f\<lparr>f_first_cluster := 0, f_size_bytes := ucast new_size\<rparr>))
       else
         bindE (internal_trunc_walk m (f_first_cluster f) (new_nclus - 1)) (\<lambda>new_tail.
         bindE (priv_fat_get m new_tail) (\<lambda>succ.
         bindE (whenE (\<not> priv_is_eoc m succ)
             (bindE (priv_fat_set m new_tail (priv_eoc_write m)) (\<lambda>_. priv_free_chain m succ))) (\<lambda>_.
           set_file i (\<lambda>f. f\<lparr>f_size_bytes := ucast new_size\<rparr>))))))"

text \<open>\<open>todo\<close> is the number of clusters that are still missing, \<open>new_nclus - have\<close>.\<close>

primrec trunc_extend_loop :: "'w mount \<Rightarrow> u32 \<Rightarrow> nat \<Rightarrow> u32 \<Rightarrow> ('w fs, unit) op" where
  "trunc_extend_loop m cbytes 0 cur = returnE ()"
| "trunc_extend_loop m cbytes (Suc todo) cur =
     bindE (priv_alloc_eoc_cluster m) (\<lambda>c.
     bindE (priv_fat_set m cur c) (\<lambda>_.
     bindE (internal_trunc_zero_span m c 0 cbytes) (\<lambda>_. trunc_extend_loop m cbytes todo c)))"

definition internal_fat_trunc_extend :: "nat \<Rightarrow> u32 \<Rightarrow> u32 \<Rightarrow> u32 \<Rightarrow> u32 \<Rightarrow> ('w fs, unit) op" where
  "internal_fat_trunc_extend i tail have' new_nclus cbytes =
     bindE (file_mountE i) (\<lambda>m.
     bindE (if have' = 0 then
              bindE (priv_alloc_eoc_cluster m) (\<lambda>c.
              bindE (set_file i (\<lambda>f. f\<lparr>f_first_cluster := c\<rparr>)) (\<lambda>_.
              bindE (internal_trunc_zero_span m c 0 cbytes) (\<lambda>_. returnE (c, 1))))
            else returnE (tail, have')) (\<lambda>(cur, have'').
       trunc_extend_loop m cbytes (unat new_nclus - unat have'') cur))"

definition internal_fat_trunc_grow :: "nat \<Rightarrow> u32 \<Rightarrow> u32 \<Rightarrow> ('w fs, unit) op" where
  "internal_fat_trunc_grow i new_size cbytes =
     bindE (file_mountE i) (\<lambda>m.
     bindE (fileE i) (\<lambda>f.
       let old_size = ucast (f_size_bytes f) :: u32;
           old_nclus = ucast (internal_trunc_clusters (ucast old_size) cbytes) :: u32;
           new_nclus = ucast (internal_trunc_clusters (ucast new_size) cbytes) :: u32
       in bindE (if old_nclus > 0 then
                   bindE (internal_trunc_walk m (f_first_cluster f) (old_nclus - 1)) (\<lambda>tail.
                     let base = (old_nclus - 1) * cbytes; cap = old_nclus * cbytes;
                         span_hi = (if new_size < cap then new_size else cap)
                     in bindE (internal_trunc_zero_span m tail (old_size - base) (span_hi - base)) (\<lambda>_. returnE tail))
                 else returnE 0) (\<lambda>tail.
          bindE (internal_fat_trunc_extend i tail old_nclus new_nclus cbytes) (\<lambda>_.
            set_file i (\<lambda>f. f\<lparr>f_size_bytes := ucast new_size\<rparr>)))))"

definition internal_fat_trunc_commit :: "nat \<Rightarrow> ('w fs, unit) op" where
  "internal_fat_trunc_commit i =
     bindE (file_mountE i) (\<lambda>m.
     bindE (fileE i) (\<lambda>f.
     bindE (priv_read_sector m (f_dir_entry_lba f)) (\<lambda>sec.
     let off = unat (f_dir_entry_idx f) in
     bindE (priv_fat_entry_stamp_write
         (priv_entry_set_cluster_size sec off (f_first_cluster f) (ucast (f_size_bytes f))) off) (\<lambda>sec1.
     bindE (priv_write_sector m (f_dir_entry_lba f) sec1) (\<lambda>_.
       set_file i (\<lambda>f. f\<lparr>f_dirty := True\<rparr>))))))"

definition internal_fat_trunc :: "nat \<Rightarrow> u32 \<Rightarrow> ('w fs, unit) op" where
  "internal_fat_trunc i new_size =
     bindE (file_mountE i) (\<lambda>m.
     bindE (fileE i) (\<lambda>f.
     bindE (if ucast new_size < f_size_bytes f then
              bindE (cluster_bytesE m) (internal_fat_trunc_shrink i new_size)
            else if ucast new_size > f_size_bytes f then
              bindE (cluster_bytesE m) (internal_fat_trunc_grow i new_size)
            else returnE ()) (\<lambda>_.
     bindE (set_file i (\<lambda>f. f\<lparr>f_cur_cluster := f_first_cluster f, f_walk_cache_idx := 0,
         f_walk_cache_cluster := f_first_cluster f\<rparr>)) (\<lambda>_.
       internal_fat_trunc_commit i))))"

section \<open>exFAT\<close>

definition internal_exfat_free_run :: "'w mount \<Rightarrow> u32 \<Rightarrow> u64 \<Rightarrow> bool \<Rightarrow> ('w fs, unit) op" where
  "internal_exfat_free_run m first nbytes nofat =
     priv_exfat_free_clusters m
       ((priv_wr64 (priv_wr32 (replicate k_exfat_entry_bytes 0) k_exfat_strm_off_clus first)
          k_exfat_strm_off_dlen nbytes)
        [k_exfat_strm_off_flags := (if nofat then k_exfat_secflag_alloc else k_exfat_secflag_poss)])"

definition internal_exfat_shrink_chain_tail :: "nat \<Rightarrow> u32 \<Rightarrow> u32 \<Rightarrow> ('w fs, unit) op" where
  "internal_exfat_shrink_chain_tail i new_nclus cbytes =
     bindE (file_mountE i) (\<lambda>m.
     bindE (fileE i) (\<lambda>f.
     bindE (internal_trunc_walk m (f_first_cluster f) (new_nclus - 1)) (\<lambda>new_tail.
     bindE (priv_fat_get m new_tail) (\<lambda>succ.
     bindE (priv_fat_set m new_tail (priv_eoc_write m)) (\<lambda>_.
     bindE (internal_exfat_free_run m succ (ucast cbytes) False) (\<lambda>_.
       set_file i (\<lambda>f. f\<lparr>f_tail_cluster := new_tail\<rparr>)))))))"

definition internal_exfat_trunc_shrink :: "nat \<Rightarrow> u64 \<Rightarrow> u32 \<Rightarrow> ('w fs, unit) op" where
  "internal_exfat_trunc_shrink i new_size cbytes =
     bindE (file_mountE i) (\<lambda>m.
     bindE (fileE i) (\<lambda>f.
       let new_nclus = ucast (internal_trunc_clusters new_size cbytes) :: u32 in
       bindE (whenE (new_nclus < f_alloc_clusters f)
           (bindE (if new_nclus = 0 then
                     bindE (internal_exfat_free_run m (f_first_cluster f) (f_size_bytes f) (f_no_fat_chain f)) (\<lambda>_.
                       set_file i (\<lambda>f. f\<lparr>f_first_cluster := 0, f_no_fat_chain := True, f_tail_cluster := 0\<rparr>))
                   else if f_no_fat_chain f then
                     bindE (internal_exfat_free_run m (f_first_cluster f + new_nclus)
                         (ucast (f_alloc_clusters f - new_nclus) * ucast cbytes) True) (\<lambda>_.
                       set_file i (\<lambda>f. f\<lparr>f_tail_cluster := f_first_cluster f + new_nclus - 1\<rparr>))
                   else internal_exfat_shrink_chain_tail i new_nclus cbytes) (\<lambda>_.
              set_file i (\<lambda>f. f\<lparr>f_alloc_clusters := new_nclus\<rparr>)))) (\<lambda>_.
         set_file i (\<lambda>f. f\<lparr>f_size_bytes := new_size,
           f_valid_bytes := (if f_valid_bytes f > new_size then new_size else f_valid_bytes f)\<rparr>))))"

definition internal_exfat_trunc :: "nat \<Rightarrow> u64 \<Rightarrow> ('w fs, unit) op" where
  "internal_exfat_trunc i new_size =
     bindE (file_mountE i) (\<lambda>m.
     bindE (fileE i) (\<lambda>f.
       if new_size < f_size_bytes f then
         bindE (cluster_bytesE m) (\<lambda>cbytes.
         bindE (internal_exfat_trunc_shrink i new_size cbytes) (\<lambda>_. priv_exfat_flush_set i))
       else if new_size > f_size_bytes f then
         bindE (cluster_bytesE m) (\<lambda>cbytes.
           let want = internal_trunc_clusters new_size cbytes in
           if want > ucast (m_count_of_clusters m) then throwE k_ra8_err_no_mem
           else bindE (priv_exfat_ensure_clusters i (ucast want)) (\<lambda>_.
             bindE (set_file i (\<lambda>f. f\<lparr>f_size_bytes := new_size\<rparr>)) (\<lambda>_. priv_exfat_flush_set i)))
       else returnE ()))"

section \<open>The public operation\<close>

definition internal_truncate_locked :: "nat option \<Rightarrow> u64 \<Rightarrow> ('w fs, unit) op" where
  "internal_truncate_locked file new_size =
     (case file of None \<Rightarrow> throwE k_ra8_err_null_ptr
      | Some i \<Rightarrow> bindE (fileE i) (\<lambda>f.
          if \<not> f_in_use f \<or> f_mode f = k_ra8_fs_mode_read then throwE k_ra8_err_invalid_state
          else bindE (file_mountE i) (\<lambda>m.
            bindE (if m_type m = k_ra8_fs_type_exfat then internal_exfat_trunc i new_size
                   else if new_size > k_ra8_fs_fat_max_file_bytes then throwE k_ra8_err_invalid_size
                   else internal_fat_trunc i (ucast new_size)) (\<lambda>_.
              set_file i (\<lambda>f. f\<lparr>f_offset := (if f_offset f > f_size_bytes f then f_size_bytes f else f_offset f)\<rparr>)))))"

definition ra8_fs_truncate :: "nat option \<Rightarrow> u64 \<Rightarrow> ('w fs, unit) op" where
  "ra8_fs_truncate file new_size = locked (internal_truncate_locked file new_size)"

end
