(* ===== verification/Fs_Frame.thy ===== *)
theory Fs_Frame
  imports Exfat_Check Fat_Meta Fat_Label Fat_Dirmk Fat_Truncate Exfat_Fmt
begin

text \<open>
  What every operation of the driver leaves alone. Below the public functions, the driver changes its own state
  only through a handful of primitives: calls into the outside world, the one-sector FAT cache, and the counters of
  an allocator slot. The locale \<open>driver_frame\<close> states the contract of a property that those primitives keep, and
  every operation that works on a mount then keeps it as well, on every path, errors included. The mount table
  and the file table are not among the primitives: the operations on open files follow in \<^verbatim>\<open>File_Frame\<close>.
\<close>

text \<open>A property of the driver state, for an operation that also changes an object of its caller.\<close>

definition on_fs :: "('s \<Rightarrow> bool) \<Rightarrow> 's \<times> 'c \<Rightarrow> bool" where
  "on_fs I p = I (fst p)"

section \<open>Structural rules\<close>

lemma keeps_prod [keeps_rules]: "(\<And>a b. keeps I (f a b)) \<Longrightarrow> keeps I (case x of (a, b) \<Rightarrow> f a b)"
  by (cases x) simp

lemma keeps_option [keeps_rules]:
  "keeps I n \<Longrightarrow> (\<And>a. keeps I (f a)) \<Longrightarrow> keeps I (case x of None \<Rightarrow> n | Some a \<Rightarrow> f a)"
  by (cases x) simp_all

lemma keeps_sum [keeps_rules]:
  "(\<And>a. keeps I (f a)) \<Longrightarrow> (\<And>b. keeps I (g b)) \<Longrightarrow> keeps I (case x of Inl a \<Rightarrow> f a | Inr b \<Rightarrow> g b)"
  by (cases x) simp_all

lemma keeps_list [keeps_rules]:
  "keeps I n \<Longrightarrow> (\<And>a b. keeps I (f a b)) \<Longrightarrow> keeps I (case x of [] \<Rightarrow> n | a # b \<Rightarrow> f a b)"
  by (cases x) simp_all

lemma keeps_nat [keeps_rules]:
  "keeps I n \<Longrightarrow> (\<And>a. keeps I (f a)) \<Longrightarrow> keeps I (case x of 0 \<Rightarrow> n | Suc a \<Rightarrow> f a)"
  by (cases x) simp_all

lemma keeps_bool [keeps_rules]: "keeps I f \<Longrightarrow> keeps I g \<Longrightarrow> keeps I (case x of True \<Rightarrow> f | False \<Rightarrow> g)"
  by (cases x) simp_all

lemma keeps_Let [keeps_rules]: "keeps I (f x) \<Longrightarrow> keeps I (Let x f)"
  by simp

lemma keeps_callE [keeps_rules]: "(\<And>f. keeps I (k f)) \<Longrightarrow> keeps I (callE p k)"
  by (cases p) (auto simp: callE_def keeps_throwE)

text \<open>Operations on the driver state inside operations on the state and a caller's object, and back.\<close>

lemma keeps_paired: "keeps I f \<Longrightarrow> keeps (on_fs I) (\<lambda>(s, c). case f s of (r, s') \<Rightarrow> (r, (s', g r c)))"
  by (fastforce simp: keeps_def on_fs_def split: prod.split)

lemma keeps_onC [keeps_rules]: "keeps I f \<Longrightarrow> keeps (on_fs I) (onC f)"
  unfolding onC_def by (rule keeps_paired)

lemma keeps_ask [keeps_rules]: "keeps (on_fs I) (askC f)" "keeps (on_fs I) (askM g)"
  by (simp_all add: keeps_def on_fs_def askC_def askM_def split: prod.split)

lemma keeps_set [keeps_rules]: "keeps (on_fs I) (setC f)" "keeps (on_fs I) (setM g)"
  by (simp_all add: keeps_def on_fs_def setC_def setM_def split: prod.split)

lemma keeps_onM [keeps_rules]: "(\<And>m. keeps I (f m)) \<Longrightarrow> keeps (on_fs I) (onM f)"
  by (auto simp: keeps_def on_fs_def onM_def split: prod.split) (metis snd_conv)

lemma keeps_run_with: "keeps (on_fs I) f \<Longrightarrow> keeps I (\<lambda>s. case f (s, c) of (r, (s', c')) \<Rightarrow> (g r c', s'))"
  by (auto simp: keeps_def on_fs_def split: prod.split) (metis fst_conv snd_conv)

lemma keeps_withC [keeps_rules]: "keeps (on_fs I) f \<Longrightarrow> keeps I (withC c f)"
  unfolding withC_def by (rule keeps_run_with)

lemma keeps_scan_verdict [keeps_rules]: "keeps I a \<Longrightarrow> keeps I b \<Longrightarrow> keeps I c \<Longrightarrow>
    keeps I (case x of k_dir_scan_more \<Rightarrow> a | k_dir_scan_empty \<Rightarrow> b | k_dir_scan_used \<Rightarrow> c)"
  by (cases x) simp_all

lemma keeps_pure [keeps_rules]: "keeps I (cluster_bytesE m)" "keeps I (zig_u32 n)"
  by (simp_all add: cluster_bytesE_def zig_u32_def keeps_throwE keeps_returnE)

lemma keeps_pure_check [keeps_rules]: "keeps I (clusters_of m n)" "keeps I (internal_exchk_system_run m e ctx)"
  unfolding clusters_of_def internal_exchk_system_run_def by (intro keeps_rules)+

lemma keeps_onI:
  assumes "\<And>s c r s' c'. I s \<Longrightarrow> f (s, c) = (r, (s', c')) \<Longrightarrow> I s'"
  shows "keeps (on_fs I) f"
  using assms by (auto simp: keeps_def on_fs_def) (metis prod.collapse)

lemma keeps_onD: "keeps (on_fs I) f \<Longrightarrow> I s \<Longrightarrow> f (s, c) = (r, (s', c')) \<Longrightarrow> I s'"
  by (drule keepsD) (auto simp: on_fs_def)

section \<open>The contract of the driver's primitives\<close>

locale driver_frame =
  fixes I :: "'w fs \<Rightarrow> bool"
  assumes I_world: "I s \<Longrightarrow> I (s\<lparr>world := w\<rparr>)"
    and I_cache: "I s \<Longrightarrow> length b = length (s_fat_cache s) \<Longrightarrow>
      I (s\<lparr>s_fat_cache := b, s_fat_cache_lba := lba, s_fat_cache_owner := own\<rparr>)"
    and I_alloc: "I s \<Longrightarrow> as_owner a = as_owner (s_alloc s ! i) \<Longrightarrow> I (s\<lparr>s_alloc := (s_alloc s)[i := a]\<rparr>)"
begin

lemma keeps_liftW [keeps_rules]: "keeps I (liftW f)"
  by (auto simp: keeps_def liftW_def I_world split: prod.split)

lemma lock_I: "I s \<Longrightarrow> I (priv_lock_acquire s)" "I s \<Longrightarrow> I (priv_lock_release s)"
  by (auto simp: priv_lock_acquire_def priv_lock_release_def I_world split: option.split)

lemma keeps_locked [keeps_rules]:
  assumes "keeps I f"
  shows "keeps I (locked f)"
  by (rule keepsI) (auto simp: locked_def split: prod.splits intro!: lock_I(2) dest: keepsD [OF assms lock_I(1)])

lemma keeps_world [keeps_rules]: "keeps I (modifyE (\<lambda>s. s\<lparr>world := f s\<rparr>))"
  by (rule keeps_modifyE) (rule I_world)

lemma slot_update_I: "(\<And>a. as_owner (f a) = as_owner a) \<Longrightarrow> I s \<Longrightarrow> I (slot_update i f s)"
  unfolding slot_update_def by (rule I_alloc) simp_all

lemma keeps_slots [keeps_rules]:
  "keeps I (modifyE (priv_alloc_hint_set m c))" "keeps I (modifyE (priv_alloc_hint_lower m c))"
  "keeps I (modifyE (priv_free_count_took m n))" "keeps I (modifyE (priv_free_count_gave m n))"
  "keeps I (modifyE (priv_free_count_cache m n))" "keeps I (modifyE (slot_update i (fsinfo_accept m lba sec)))"
  "keeps I (modifyE (slot_update i (\<lambda>a. a\<lparr>as_dirty := False\<rparr>)))"
  "keeps I (modifyE (\<lambda>s. case st of None \<Rightarrow> s | Some i \<Rightarrow> slot_update i (\<lambda>a. a\<lparr>as_bitmap_lba := blba\<rparr>) s))"
  by (auto intro!: keeps_modifyE slot_update_I split: option.split simp: Let_def fsinfo_accept_def priv_alloc_hint_set_def
      priv_alloc_hint_lower_def priv_free_count_took_def priv_free_count_gave_def priv_free_count_cache_def)

lemma keeps_cache [keeps_rules]:
  "keeps I (modifyE (cache_fill m buf lba))" "keeps I (modifyE (priv_fat_sector_wrote m buf lba))"
  by (auto intro!: keeps_modifyE I_cache simp: cache_fill_def priv_fat_sector_wrote_def)

subsection \<open>Sectors\<close>

lemma keeps_priv_read_sector [keeps_rules]: "keeps I (priv_read_sector x1 x2)"
  unfolding priv_read_sector_def by (intro keeps_rules)

lemma keeps_priv_write_sector [keeps_rules]: "keeps I (priv_write_sector x1 x2 x3)"
  unfolding priv_write_sector_def by (intro keeps_rules)

subsection \<open>FAT sectors and FSInfo\<close>

lemma keeps_priv_fat_sector_read [keeps_rules]: "keeps I (priv_fat_sector_read x1 x2)"
  unfolding priv_fat_sector_read_def by (intro keeps_rules)

lemma keeps_internal_fsinfo_locate [keeps_rules]: "keeps I (internal_fsinfo_locate x1)"
  unfolding internal_fsinfo_locate_def by (intro keeps_rules)

lemma keeps_priv_fsinfo_seed [keeps_rules]: "keeps I (priv_fsinfo_seed x1)"
  unfolding priv_fsinfo_seed_def by (intro keeps_rules)

lemma keeps_priv_fsinfo_flush [keeps_rules]: "keeps I (priv_fsinfo_flush x1)"
  unfolding priv_fsinfo_flush_def by (intro keeps_rules)

subsection \<open>FAT entries and cluster allocation\<close>

lemma keeps_priv_fat_get [keeps_rules]: "keeps I (priv_fat_get x1 x2)"
  unfolding priv_fat_get_def by (intro keeps_rules)

lemma keeps_internal_fat12_store [keeps_rules]: "keeps I (internal_fat12_store x1 x2 x3 x4 x5)"
  unfolding internal_fat12_store_def by (intro keeps_rules)

lemma keeps_internal_fat12_set_one [keeps_rules]: "keeps I (internal_fat12_set_one x1 x2 x3 x4 x5)"
  unfolding internal_fat12_set_one_def by (intro keeps_rules)

lemma keeps_internal_fat16_set_one [keeps_rules]: "keeps I (internal_fat16_set_one x1 x2 x3 x4)"
  unfolding internal_fat16_set_one_def by (intro keeps_rules)

lemma keeps_internal_fat32_set_one [keeps_rules]: "keeps I (internal_fat32_set_one x1 x2 x3 x4)"
  unfolding internal_fat32_set_one_def by (intro keeps_rules)

lemma keeps_internal_exfat_fat_set_one [keeps_rules]: "keeps I (internal_exfat_fat_set_one x1 x2 x3 x4)"
  unfolding internal_exfat_fat_set_one_def by (intro keeps_rules)

lemma keeps_fat_set_copy [keeps_rules]: "keeps I (fat_set_copy x1 x2 x3 x4)"
  unfolding fat_set_copy_def by (intro keeps_rules)

lemma keeps_fat_set_copies [keeps_rules]: "keeps I (fat_set_copies x1 x2 x3 x4 x5)"
  by (induction x5 arbitrary: x1 x2 x3 x4; simp only: fat_set_copies.simps; (intro keeps_rules | assumption)+)

lemma keeps_priv_fat_set [keeps_rules]: "keeps I (priv_fat_set x1 x2 x3)"
  unfolding priv_fat_set_def by (intro keeps_rules)

lemma keeps_alloc_scan [keeps_rules]: "keeps I (alloc_scan x1 x2 x3 x4)"
  by (induction x3 arbitrary: x1 x2 x4; simp only: alloc_scan.simps; (intro keeps_rules | assumption)+)

lemma keeps_priv_alloc_cluster [keeps_rules]: "keeps I (priv_alloc_cluster x1)"
  unfolding priv_alloc_cluster_def by (intro keeps_rules)

subsection \<open>Cluster chains\<close>

lemma keeps_free_one [keeps_rules]: "keeps I (free_one x1 x2)"
  unfolding free_one_def by (intro keeps_rules)

lemma keeps_free_chain_loop [keeps_rules]: "keeps I (free_chain_loop x1 x2 x3)"
  by (induction x2 arbitrary: x1 x3; simp only: free_chain_loop.simps; (intro keeps_rules | assumption)+)

lemma keeps_priv_free_chain [keeps_rules]: "keeps I (priv_free_chain x1 x2)"
  unfolding priv_free_chain_def by (intro keeps_rules)

lemma keeps_skip_loop [keeps_rules]: "keeps I (skip_loop x1 x2 x3)"
  by (induction x2 arbitrary: x1 x3; simp only: skip_loop.simps; (intro keeps_rules | assumption)+)

lemma keeps_internal_skip_clusters [keeps_rules]: "keeps I (internal_skip_clusters x1 x2 x3)"
  unfolding internal_skip_clusters_def by (intro keeps_rules)

lemma keeps_priv_alloc_eoc_cluster [keeps_rules]: "keeps I (priv_alloc_eoc_cluster x1)"
  unfolding priv_alloc_eoc_cluster_def by (intro keeps_rules)

lemma keeps_walk_grow_loop [keeps_rules]: "keeps I (walk_grow_loop x1 x2 x3)"
  by (induction x2 arbitrary: x1 x3; simp only: walk_grow_loop.simps; (intro keeps_rules | assumption)+)

lemma keeps_internal_walk_grow [keeps_rules]: "keeps I (internal_walk_grow x1 x2 x3)"
  unfolding internal_walk_grow_def by (intro keeps_rules)

subsection \<open>Time stamps\<close>

lemma keeps_internal_now_or_epoch [keeps_rules]: "keeps I internal_now_or_epoch"
  unfolding internal_now_or_epoch_def by (intro keeps_rules)

lemma keeps_internal_fat_stamp_now [keeps_rules]: "keeps I internal_fat_stamp_now"
  unfolding internal_fat_stamp_now_def by (intro keeps_rules)

lemma keeps_internal_exfat_stamp_now [keeps_rules]: "keeps I internal_exfat_stamp_now"
  unfolding internal_exfat_stamp_now_def by (intro keeps_rules)

lemma keeps_priv_fat_entry_stamp_create [keeps_rules]: "keeps I (priv_fat_entry_stamp_create x1 x2)"
  unfolding priv_fat_entry_stamp_create_def by (intro keeps_rules)

lemma keeps_priv_fat_entry_stamp_write [keeps_rules]: "keeps I (priv_fat_entry_stamp_write x1 x2)"
  unfolding priv_fat_entry_stamp_write_def by (intro keeps_rules)

lemma keeps_priv_fat_entry_stamp_access [keeps_rules]: "keeps I (priv_fat_entry_stamp_access x1 x2)"
  unfolding priv_fat_entry_stamp_access_def by (intro keeps_rules)

lemma keeps_priv_exfat_file_stamp_create [keeps_rules]: "keeps I (priv_exfat_file_stamp_create x1)"
  unfolding priv_exfat_file_stamp_create_def by (intro keeps_rules)

lemma keeps_priv_exfat_file_stamp_write [keeps_rules]: "keeps I (priv_exfat_file_stamp_write x1)"
  unfolding priv_exfat_file_stamp_write_def by (intro keeps_rules)

lemma keeps_priv_exfat_file_stamp_access [keeps_rules]: "keeps I (priv_exfat_file_stamp_access x1)"
  unfolding priv_exfat_file_stamp_access_def by (intro keeps_rules)

subsection \<open>Directory walk\<close>

lemma keeps_walk_next [keeps_rules]: "keeps (on_fs I) (walk_next m)"
proof (rule keepsI)
  fix p r q
  assume I: "on_fs I p" and r: "walk_next m p = (r, q)"
  obtain s w where p: "p = (s, w)" by (cases p)
  obtain r' s' where g: "priv_fat_get m (w_cluster w) s = (r', s')" by (cases "priv_fat_get m (w_cluster w) s")
  have "I s'" using keepsD [OF keeps_priv_fat_get _ g] I p by (simp add: on_fs_def)
  then show "on_fs I q" using r I g p by (auto simp: walk_next_def on_fs_def Let_def split: if_splits sum.splits)
qed

lemma keeps_priv_dir_walk_next_sector [keeps_rules]: "keeps I (priv_dir_walk_next_sector m w)"
proof (rule keepsI)
  fix s r t
  assume I: "I s" and r: "priv_dir_walk_next_sector m w s = (r, t)"
  obtain r' s' w' where n: "walk_next m (s, w) = (r', (s', w'))" by (cases "walk_next m (s, w)") auto
  have "on_fs I (s', w')" using keepsD [OF keeps_walk_next _ n] I by (simp add: on_fs_def)
  then show "I t" using r n by (auto simp: priv_dir_walk_next_sector_def on_fs_def split: sum.splits)
qed

lemma keeps_dir_scan [keeps_rules]: "keeps I (dir_scan x1 x2 x3 x4 x5 x6)"
  by (induction x4 arbitrary: x1 x2 x3 x5 x6; simp only: dir_scan.simps; (intro keeps_rules | assumption)+)

lemma keeps_priv_dir_find [keeps_rules]: "keeps I (priv_dir_find x1 x2 x3)"
  unfolding priv_dir_find_def by (intro keeps_rules)

lemma keeps_priv_dir_find_long [keeps_rules]: "keeps I (priv_dir_find_long x1 x2 x3)"
  unfolding priv_dir_find_long_def by (intro keeps_rules)

lemma keeps_priv_dir_lookup_any [keeps_rules]: "keeps I (priv_dir_lookup_any x1 x2 x3)"
  unfolding priv_dir_lookup_any_def by (intro keeps_rules)

subsection \<open>Directory insertion and erasure\<close>

lemma keeps_alias_unique_loop [keeps_rules]: "keeps I (alias_unique_loop m loc leaf k)"
proof (induction m loc leaf k rule: alias_unique_loop.induct)
  case (1 m loc leaf k)
  show ?case
    by (subst alias_unique_loop.simps, cases "k_lfn_alias_tail_max < k")
      (simp_all only: if_True if_False, (intro keeps_rules | rule 1 | simp)+)
qed

lemma keeps_internal_alias_unique [keeps_rules]: "keeps I (internal_alias_unique x1 x2 x3)"
  unfolding internal_alias_unique_def by (intro keeps_rules)

lemma keeps_priv_dir_find_free_run [keeps_rules]: "keeps I (priv_dir_find_free_run x1 x2 x3)"
  unfolding priv_dir_find_free_run_def by (intro keeps_rules)

lemma keeps_dir_last_cluster [keeps_rules]: "keeps I (dir_last_cluster x1 x2 x3)"
  by (induction x2 arbitrary: x1 x3; simp only: dir_last_cluster.simps; (intro keeps_rules | assumption)+)

lemma keeps_grow_zero_loop [keeps_rules]: "keeps I (grow_zero_loop x1 x2 x3)"
  by (induction x3 arbitrary: x1 x2; simp only: grow_zero_loop.simps; (intro keeps_rules | assumption)+)

lemma keeps_internal_dir_grow [keeps_rules]: "keeps I (internal_dir_grow x1 x2)"
  unfolding internal_dir_grow_def by (intro keeps_rules)

lemma keeps_reserve_loop [keeps_rules]: "keeps I (reserve_loop x1 x2 x3 x4)"
  by (induction x4 arbitrary: x1 x2 x3; simp only: reserve_loop.simps; (intro keeps_rules | assumption)+)

lemma keeps_priv_dir_reserve [keeps_rules]: "keeps I (priv_dir_reserve x1 x2 x3)"
  unfolding priv_dir_reserve_def by (intro keeps_rules)

lemma keeps_internal_slot_advance [keeps_rules]: "keeps I (internal_slot_advance x1 x2 x3 x4)"
  unfolding internal_slot_advance_def by (intro keeps_rules)

lemma keeps_commit_loop [keeps_rules]: "keeps I (commit_loop x1 x2 x3 x4 x5 x6 x7)"
  by (induction x4 arbitrary: x1 x2 x3 x5 x6 x7; simp only: commit_loop.simps; (intro keeps_rules | assumption)+)

lemma keeps_priv_dir_commit [keeps_rules]: "keeps I (priv_dir_commit x1 x2 x3)"
  unfolding priv_dir_commit_def by (intro keeps_rules)

lemma keeps_internal_dir_collect_chain [keeps_rules]: "keeps I (internal_dir_collect_chain x1 x2 x3 x4 x5)"
  unfolding internal_dir_collect_chain_def by (intro keeps_rules)

lemma keeps_erase_loop [keeps_rules]: "keeps I (erase_loop x1 x2 x3 x4)"
  by (induction x2 arbitrary: x1 x3 x4; simp only: erase_loop.simps; (intro keeps_rules | assumption)+)

lemma keeps_internal_dir_erase_positions [keeps_rules]: "keeps I (internal_dir_erase_positions x1 x2)"
  unfolding internal_dir_erase_positions_def by (intro keeps_rules)

lemma keeps_priv_dir_erase_chain [keeps_rules]: "keeps I (priv_dir_erase_chain x1 x2 x3 x4 x5)"
  unfolding priv_dir_erase_chain_def by (intro keeps_rules)

subsection \<open>Handles\<close>

lemma keeps_mountE [keeps_rules]: "keeps I (mountE x1)"
  unfolding mountE_def by (intro keeps_rules)

lemma keeps_fileE [keeps_rules]: "keeps I (fileE x1)"
  unfolding fileE_def by (intro keeps_rules)

lemma keeps_file_mountE [keeps_rules]: "keeps I (file_mountE x1)"
  unfolding file_mountE_def by (intro keeps_rules)

lemma keeps_priv_write_into_sector [keeps_rules]: "keeps I (priv_write_into_sector x1 x2 x3 x4)"
  unfolding priv_write_into_sector_def by (intro keeps_rules)

subsection \<open>exFAT cursor\<close>

lemma keeps_priv_exfat_dir_from_set [keeps_rules]: "keeps I (priv_exfat_dir_from_set x1 x2 x3)"
  unfolding priv_exfat_dir_from_set_def by (intro keeps_rules)

lemma keeps_priv_exfat_step_cluster [keeps_rules]: "keeps I (priv_exfat_step_cluster x1 x2 x3)"
  unfolding priv_exfat_step_cluster_def by (intro keeps_rules)

lemma keeps_priv_exfat_next_entry [keeps_rules]: "keeps (on_fs I) (priv_exfat_next_entry x1)"
  unfolding priv_exfat_next_entry_def by (intro keeps_rules)

lemma keeps_match_names_loop [keeps_rules]: "keeps (on_fs I) (match_names_loop x1 x2 x3)"
  by (induction x3 arbitrary: x1 x2; simp only: match_names_loop.simps; (intro keeps_rules | assumption)+)

lemma keeps_internal_exfat_match_set [keeps_rules]: "keeps (on_fs I) (internal_exfat_match_set x1 x2)"
  unfolding internal_exfat_match_set_def by (intro keeps_rules)

lemma keeps_exfat_find_loop [keeps_rules]: "keeps (on_fs I) (exfat_find_loop x1 x2 x3)"
  by (induction x3 arbitrary: x1 x2; simp only: exfat_find_loop.simps; (intro keeps_rules | assumption)+)

lemma keeps_priv_exfat_find [keeps_rules]: "keeps I (priv_exfat_find x1 x2 x3)"
  unfolding priv_exfat_find_def by (intro keeps_rules)

lemma keeps_take_set_loop [keeps_rules]: "keeps (on_fs I) (take_set_loop x1 x2 x3 x4 x5 x6)"
  by (induction x3 arbitrary: x1 x2 x4 x5 x6; simp only: take_set_loop.simps; (intro keeps_rules | assumption)+)

lemma keeps_internal_exfat_take_set [keeps_rules]: "keeps (on_fs I) (internal_exfat_take_set x1 x2 x3 x4 x5)"
  unfolding internal_exfat_take_set_def by (intro keeps_rules)

lemma keeps_internal_exfat_try_set [keeps_rules]: "keeps (on_fs I) (internal_exfat_try_set x1 x2 x3 x4 x5 x6)"
  unfolding internal_exfat_try_set_def by (intro keeps_rules)

lemma keeps_find_set_loop [keeps_rules]: "keeps (on_fs I) (find_set_loop x1 x2 x3 x4 x5)"
  by (induction x4 arbitrary: x1 x2 x3 x5; simp only: find_set_loop.simps; (intro keeps_rules | assumption)+)

lemma keeps_priv_exfat_find_set [keeps_rules]: "keeps I (priv_exfat_find_set x1 x2 x3)"
  unfolding priv_exfat_find_set_def by (intro keeps_rules)

subsection \<open>exFAT directories and bitmap\<close>

lemma keeps_internal_exfat_enter [keeps_rules]: "keeps I (internal_exfat_enter x1 x2 x3)"
  unfolding internal_exfat_enter_def by (intro keeps_rules)

lemma keeps_exfat_resolve_loop [keeps_rules]: "keeps I (exfat_resolve_loop x1 x2 x3 x4)"
  by (induction x2 arbitrary: x1 x3 x4; simp only: exfat_resolve_loop.simps; (intro keeps_rules | assumption)+)

lemma keeps_priv_exfat_resolve_parent [keeps_rules]: "keeps I (priv_exfat_resolve_parent x1 x2)"
  unfolding priv_exfat_resolve_parent_def by (intro keeps_rules)

lemma keeps_priv_exfat_resolve_dir [keeps_rules]: "keeps I (priv_exfat_resolve_dir x1 x2)"
  unfolding priv_exfat_resolve_dir_def by (intro keeps_rules)

lemma keeps_priv_exfat_lookup [keeps_rules]: "keeps I (priv_exfat_lookup x1 x2)"
  unfolding priv_exfat_lookup_def by (intro keeps_rules)

lemma keeps_find_bitmap_loop [keeps_rules]: "keeps (on_fs I) (find_bitmap_loop x1 x2)"
  by (induction x2 arbitrary: x1; simp only: find_bitmap_loop.simps; (intro keeps_rules | assumption)+)

lemma keeps_priv_exfat_find_bitmap [keeps_rules]: "keeps I (priv_exfat_find_bitmap x1)"
  unfolding priv_exfat_find_bitmap_def by (intro keeps_rules)

lemma keeps_priv_exfat_bitmap_lba [keeps_rules]: "keeps I (priv_exfat_bitmap_lba x1)"
  unfolding priv_exfat_bitmap_lba_def by (intro keeps_rules)

lemma keeps_bitmap_window_loop [keeps_rules]: "keeps I (bitmap_window_loop x1 x2 x3 x4 x5 x6 x7)"
  by (induction x4 arbitrary: x1 x2 x3 x5 x6 x7; simp only: bitmap_window_loop.simps; (intro keeps_rules | assumption)+)

lemma keeps_internal_exfat_bitmap_window [keeps_rules]: "keeps I (internal_exfat_bitmap_window x1 x2 x3 x4)"
  unfolding internal_exfat_bitmap_window_def by (intro keeps_rules)

lemma keeps_priv_exfat_bitmap_scan [keeps_rules]: "keeps I (priv_exfat_bitmap_scan x1 x2 x3)"
  unfolding priv_exfat_bitmap_scan_def by (intro keeps_rules)

lemma keeps_priv_exfat_bmp_switch [keeps_rules]: "keeps I (priv_exfat_bmp_switch x1 x2 x3)"
  unfolding priv_exfat_bmp_switch_def by (intro keeps_rules)

lemma keeps_bitmap_mark_loop [keeps_rules]: "keeps I (bitmap_mark_loop x1 x2 x3 x4 x5)"
  by (induction x4 arbitrary: x1 x2 x3 x5; simp only: bitmap_mark_loop.simps; (intro keeps_rules | assumption)+)

lemma keeps_priv_exfat_bitmap_mark [keeps_rules]: "keeps I (priv_exfat_bitmap_mark x1 x2 x3 x4)"
  unfolding priv_exfat_bitmap_mark_def by (intro keeps_rules)

lemma keeps_bitmap_clear_loop [keeps_rules]: "keeps I (bitmap_clear_loop x1 x2 x3 x4 x5)"
  by (induction x4 arbitrary: x1 x2 x3 x5; simp only: bitmap_clear_loop.simps; (intro keeps_rules | assumption)+)

lemma keeps_priv_exfat_bitmap_clear [keeps_rules]: "keeps I (priv_exfat_bitmap_clear x1 x2 x3 x4)"
  unfolding priv_exfat_bitmap_clear_def by (intro keeps_rules)

lemma keeps_priv_exfat_bitmap_test [keeps_rules]: "keeps I (priv_exfat_bitmap_test x1 x2 x3)"
  unfolding priv_exfat_bitmap_test_def by (intro keeps_rules)

lemma keeps_internal_exfat_pick_cluster [keeps_rules]: "keeps I (internal_exfat_pick_cluster x1 x2 x3)"
  unfolding internal_exfat_pick_cluster_def by (intro keeps_rules)

lemma keeps_internal_exfat_read_entry [keeps_rules]: "keeps I (internal_exfat_read_entry x1 x2 x3)"
  unfolding internal_exfat_read_entry_def by (intro keeps_rules)

lemma keeps_space_in_cluster_loop [keeps_rules]: "keeps I (space_in_cluster_loop x1 x2 x3 x4 x5 x6)"
  by (induction x4 arbitrary: x1 x2 x3 x5 x6; simp only: space_in_cluster_loop.simps; (intro keeps_rules | assumption)+)

lemma keeps_internal_exfat_space_in_cluster [keeps_rules]: "keeps I (internal_exfat_space_in_cluster x1 x2 x3)"
  unfolding internal_exfat_space_in_cluster_def by (intro keeps_rules)

lemma keeps_scan_dir_space_loop [keeps_rules]: "keeps I (scan_dir_space_loop x1 x2 x3 x4 x5)"
  by (induction x4 arbitrary: x1 x2 x3 x5; simp only: scan_dir_space_loop.simps; (intro keeps_rules | assumption)+)

lemma keeps_internal_exfat_scan_dir_space [keeps_rules]: "keeps I (internal_exfat_scan_dir_space x1 x2 x3)"
  unfolding internal_exfat_scan_dir_space_def by (intro keeps_rules)

lemma keeps_write_set_loop [keeps_rules]: "keeps I (write_set_loop x1 x2 x3 x4 x5)"
  by (induction x5 arbitrary: x1 x2 x3 x4; simp only: write_set_loop.simps; (intro keeps_rules | assumption)+)

lemma keeps_priv_exfat_write_dir_set [keeps_rules]: "keeps I (priv_exfat_write_dir_set x1 x2 x3 x4)"
  unfolding priv_exfat_write_dir_set_def by (intro keeps_rules)

lemma keeps_internal_exfat_put_entry [keeps_rules]: "keeps I (internal_exfat_put_entry x1 x2 x3)"
  unfolding internal_exfat_put_entry_def by (intro keeps_rules)

lemma keeps_zero_lbas [keeps_rules]: "keeps I (zero_lbas x1 x2)"
  by (induction x2 arbitrary: x1; simp only: zero_lbas.simps; (intro keeps_rules | assumption)+)

lemma keeps_priv_exfat_zero_cluster [keeps_rules]: "keeps I (priv_exfat_zero_cluster x1 x2)"
  unfolding priv_exfat_zero_cluster_def by (intro keeps_rules)

lemma keeps_seal_loop [keeps_rules]: "keeps I (seal_loop x1 x2)"
  by (induction x2 arbitrary: x1; simp only: seal_loop.simps; (intro keeps_rules | assumption)+)

lemma keeps_priv_exfat_seal_cluster [keeps_rules]: "keeps I (priv_exfat_seal_cluster x1 x2)"
  unfolding priv_exfat_seal_cluster_def by (intro keeps_rules)

lemma keeps_materialize_loop [keeps_rules]: "keeps I (materialize_loop x1 x2 x3)"
  by (induction x3 arbitrary: x1 x2; simp only: materialize_loop.simps; (intro keeps_rules | assumption)+)

lemma keeps_internal_exfat_materialize_run [keeps_rules]: "keeps I (internal_exfat_materialize_run x1 x2 x3 x4 x5)"
  unfolding internal_exfat_materialize_run_def by (intro keeps_rules)

lemma keeps_dir_survey_loop [keeps_rules]: "keeps I (dir_survey_loop x1 x2 x3 x4)"
  by (induction x2 arbitrary: x1 x3 x4; simp only: dir_survey_loop.simps; (intro keeps_rules | assumption)+)

lemma keeps_internal_exfat_dir_survey [keeps_rules]: "keeps I (internal_exfat_dir_survey x1 x2)"
  unfolding internal_exfat_dir_survey_def by (intro keeps_rules)

lemma keeps_internal_exfat_dir_link [keeps_rules]: "keeps I (internal_exfat_dir_link x1 x2 x3 x4 x5 x6)"
  unfolding internal_exfat_dir_link_def by (intro keeps_rules)

lemma keeps_relen_gather_loop [keeps_rules]: "keeps (on_fs I) (relen_gather_loop x1 x2 x3)"
  by (induction x2 arbitrary: x1 x3; simp only: relen_gather_loop.simps; (intro keeps_rules | assumption)+)

lemma keeps_internal_exfat_dir_relen [keeps_rules]: "keeps I (internal_exfat_dir_relen x1 x2 x3 x4)"
  unfolding internal_exfat_dir_relen_def by (intro keeps_rules)

lemma keeps_internal_exfat_dir_append [keeps_rules]: "keeps I (internal_exfat_dir_append x1 x2 x3 x4 x5)"
  unfolding internal_exfat_dir_append_def by (intro keeps_rules)

lemma keeps_priv_exfat_grow_dir [keeps_rules]: "keeps I (priv_exfat_grow_dir x1 x2)"
  unfolding priv_exfat_grow_dir_def by (intro keeps_rules)

lemma keeps_find_dir_space_loop [keeps_rules]: "keeps I (find_dir_space_loop x1 x2 x3 x4)"
  by (induction x3 arbitrary: x1 x2 x4; simp only: find_dir_space_loop.simps; (intro keeps_rules | assumption)+)

lemma keeps_priv_exfat_find_dir_space [keeps_rules]: "keeps I (priv_exfat_find_dir_space x1 x2 x3)"
  unfolding priv_exfat_find_dir_space_def by (intro keeps_rules)

lemma keeps_internal_exfat_build_set [keeps_rules]: "keeps I (internal_exfat_build_set x1)"
  unfolding internal_exfat_build_set_def by (intro keeps_rules)

lemma keeps_internal_exfat_build_dir_set [keeps_rules]: "keeps I (internal_exfat_build_dir_set x1 x2 x3)"
  unfolding internal_exfat_build_dir_set_def by (intro keeps_rules)

lemma keeps_internal_exfat_build_rename_set [keeps_rules]: "keeps I (internal_exfat_build_rename_set x1 x2 x3)"
  unfolding internal_exfat_build_rename_set_def by (intro keeps_rules)

lemma keeps_priv_exfat_link [keeps_rules]: "keeps I (priv_exfat_link x1 x2 x3)"
  unfolding priv_exfat_link_def by (intro keeps_rules)

lemma keeps_free_clusters_loop [keeps_rules]: "keeps I (free_clusters_loop x1 x2 x3 x4)"
  by (induction x3 arbitrary: x1 x2 x4; simp only: free_clusters_loop.simps; (intro keeps_rules | assumption)+)

lemma keeps_priv_exfat_free_clusters [keeps_rules]: "keeps I (priv_exfat_free_clusters x1 x2)"
  unfolding priv_exfat_free_clusters_def by (intro keeps_rules)

lemma keeps_priv_exfat_drop_set [keeps_rules]: "keeps I (priv_exfat_drop_set x1 x2)"
  by (induction x2 arbitrary: x1; simp only: priv_exfat_drop_set.simps; (intro keeps_rules | assumption)+)

subsection \<open>exFAT entry sets of a file\<close>

lemma keeps_cluster_at_loop [keeps_rules]: "keeps I (cluster_at_loop x1 x2 x3)"
  by (induction x2 arbitrary: x1 x3; simp only: cluster_at_loop.simps; (intro keeps_rules | assumption)+)

lemma keeps_gather_set_loop [keeps_rules]: "keeps (on_fs I) (gather_set_loop x1 x2 x3 x4)"
  by (induction x2 arbitrary: x1 x3 x4; simp only: gather_set_loop.simps; (intro keeps_rules | assumption)+)

lemma keeps_internal_exfat_gather_set [keeps_rules]: "keeps I (internal_exfat_gather_set x1 x2)"
  unfolding internal_exfat_gather_set_def by (intro keeps_rules)

lemma keeps_priv_exfat_flush_set [keeps_rules]: "keeps I (priv_exfat_flush_set x1)"
  unfolding priv_exfat_flush_set_def by (intro keeps_rules)

lemma keeps_survey_loop [keeps_rules]: "keeps I (survey_loop x1 x2 x3 x4)"
  by (induction x2 arbitrary: x1 x3 x4; simp only: survey_loop.simps; (intro keeps_rules | assumption)+)

subsection \<open>exFAT listing and mutation\<close>

lemma keeps_priv_exfat_unlink_at [keeps_rules]: "keeps I (priv_exfat_unlink_at x1 x2 x3)"
  unfolding priv_exfat_unlink_at_def by (intro keeps_rules)

lemma keeps_priv_exfat_unlink [keeps_rules]: "keeps I (priv_exfat_unlink x1 x2)"
  unfolding priv_exfat_unlink_def by (intro keeps_rules)

lemma keeps_internal_exfat_rename_prepare [keeps_rules]: "keeps I (internal_exfat_rename_prepare x1 x2 x3)"
  unfolding internal_exfat_rename_prepare_def by (intro keeps_rules)

lemma keeps_put_entries_loop [keeps_rules]: "keeps I (put_entries_loop x1 x2 x3 x4)"
  by (induction x4 arbitrary: x1 x2 x3; simp only: put_entries_loop.simps; (intro keeps_rules | assumption)+)

lemma keeps_internal_exfat_place_rename [keeps_rules]: "keeps I (internal_exfat_place_rename x1 x2 x3 x4)"
  unfolding internal_exfat_place_rename_def by (intro keeps_rules)

lemma keeps_priv_exfat_rename [keeps_rules]: "keeps I (priv_exfat_rename x1 x2 x3)"
  unfolding priv_exfat_rename_def by (intro keeps_rules)

lemma keeps_gather_name_loop [keeps_rules]: "keeps (on_fs I) (gather_name_loop x1 x2 x3 x4)"
  by (induction x3 arbitrary: x1 x2 x4; simp only: gather_name_loop.simps; (intro keeps_rules | assumption)+)

lemma keeps_internal_exfat_gather_name [keeps_rules]: "keeps (on_fs I) (internal_exfat_gather_name x1 x2 x3)"
  unfolding internal_exfat_gather_name_def by (intro keeps_rules)

lemma keeps_internal_exfat_list_emit [keeps_rules]: "keeps (on_fs I) (internal_exfat_list_emit x1 x2)"
  unfolding internal_exfat_list_emit_def by (intro keeps_rules)

lemma keeps_exfat_dir_next_loop [keeps_rules]: "keeps (on_fs I) (exfat_dir_next_loop x1 x2)"
  by (induction x2 arbitrary: x1; simp only: exfat_dir_next_loop.simps; (intro keeps_rules | assumption)+)

lemma keeps_priv_exfat_dir_next [keeps_rules]: "keeps (on_fs I) (priv_exfat_dir_next x1)"
  unfolding priv_exfat_dir_next_def by (intro keeps_rules)

lemma keeps_exfat_listdir_loop [keeps_rules]: "keeps (on_fs I) (exfat_listdir_loop x1 x2 x3)"
  by (induction x3 arbitrary: x1 x2; simp only: exfat_listdir_loop.simps; (intro keeps_rules | assumption)+)

lemma keeps_priv_exfat_listdir [keeps_rules]: "keeps I (priv_exfat_listdir x1 x2 x3)"
  unfolding priv_exfat_listdir_def by (intro keeps_rules)

lemma keeps_internal_exfat_dir_alloc [keeps_rules]: "keeps I (internal_exfat_dir_alloc x1)"
  unfolding internal_exfat_dir_alloc_def by (intro keeps_rules)

lemma keeps_internal_exfat_mkdir_check [keeps_rules]: "keeps I (internal_exfat_mkdir_check x1 x2 x3 x4)"
  unfolding internal_exfat_mkdir_check_def by (intro keeps_rules)

lemma keeps_priv_exfat_mkdir [keeps_rules]: "keeps I (priv_exfat_mkdir x1 x2)"
  unfolding priv_exfat_mkdir_def by (intro keeps_rules)

lemma keeps_exfat_is_empty_loop [keeps_rules]: "keeps (on_fs I) (exfat_is_empty_loop x1 x2)"
  by (induction x2 arbitrary: x1; simp only: exfat_is_empty_loop.simps; (intro keeps_rules | assumption)+)

lemma keeps_internal_exfat_dir_is_empty [keeps_rules]: "keeps I (internal_exfat_dir_is_empty x1 x2)"
  unfolding internal_exfat_dir_is_empty_def by (intro keeps_rules)

lemma keeps_internal_exfat_rmdir_locate [keeps_rules]: "keeps I (internal_exfat_rmdir_locate x1 x2)"
  unfolding internal_exfat_rmdir_locate_def by (intro keeps_rules)

lemma keeps_priv_exfat_rmdir [keeps_rules]: "keeps I (priv_exfat_rmdir x1 x2)"
  unfolding priv_exfat_rmdir_def by (intro keeps_rules)

subsection \<open>Volume recognition\<close>

lemma keeps_priv_parse_bpb_into_mount [keeps_rules]: "keeps (on_fs I) (priv_parse_bpb_into_mount x1)"
  unfolding priv_parse_bpb_into_mount_def by (intro keeps_rules)

lemma keeps_internal_compute_geometry [keeps_rules]: "keeps (on_fs I) internal_compute_geometry"
  unfolding internal_compute_geometry_def by (intro keeps_rules)

lemma keeps_upcase_verify_loop [keeps_rules]: "keeps (on_fs I) (upcase_verify_loop x1 x2)"
  by (induction x2 arbitrary: x1; simp only: upcase_verify_loop.simps; (intro keeps_rules | assumption)+)

lemma keeps_priv_exfat_upcase_verify [keeps_rules]: "keeps (on_fs I) priv_exfat_upcase_verify"
  unfolding priv_exfat_upcase_verify_def by (intro keeps_rules)

lemma keeps_internal_exfat_parse [keeps_rules]: "keeps (on_fs I) (internal_exfat_parse x1)"
  unfolding internal_exfat_parse_def by (intro keeps_rules)

lemma keeps_priv_parse_volume [keeps_rules]: "keeps (on_fs I) (priv_parse_volume x1)"
  unfolding priv_parse_volume_def by (intro keeps_rules)

lemma keeps_readGeom [keeps_rules]: "keeps I (readGeom x1)"
  unfolding readGeom_def by (intro keeps_rules)

lemma keeps_gpt_entry_sector [keeps_rules]: "keeps I (gpt_entry_sector x1 x2 x3)"
  unfolding gpt_entry_sector_def by (intro keeps_rules)

lemma keeps_gpt_scan_loop [keeps_rules]: "keeps I (gpt_scan_loop x1 x2 x3 x4 x5 x6)"
  by (induction x3 arbitrary: x1 x2 x4 x5 x6; simp only: gpt_scan_loop.simps; (intro keeps_rules | assumption)+)

lemma keeps_scanEntries [keeps_rules]: "keeps I (scanEntries x1 x2 x3)"
  unfolding scanEntries_def by (intro keeps_rules)

lemma keeps_priv_gpt_locate_volume [keeps_rules]: "keeps I (priv_gpt_locate_volume x1)"
  unfolding priv_gpt_locate_volume_def by (intro keeps_rules)

lemma keeps_priv_gpt_locate_partition [keeps_rules]: "keeps I (priv_gpt_locate_partition x1 x2)"
  unfolding priv_gpt_locate_partition_def by (intro keeps_rules)

lemma keeps_internal_locate_indexed [keeps_rules]: "keeps I (internal_locate_indexed x1 x2 x3)"
  unfolding internal_locate_indexed_def by (intro keeps_rules)

lemma keeps_finish_boot_sector [keeps_rules]: "keeps (on_fs I) (finish_boot_sector x1)"
  unfolding finish_boot_sector_def by (intro keeps_rules)

lemma keeps_internal_read_boot_sector [keeps_rules]: "keeps (on_fs I) (internal_read_boot_sector x1)"
  unfolding internal_read_boot_sector_def by (intro keeps_rules)

lemma keeps_internal_mount_probe_bps [keeps_rules]: "keeps (on_fs I) (internal_mount_probe_bps x1)"
  unfolding internal_mount_probe_bps_def by (intro keeps_rules)

lemma keeps_internal_probe_locked [keeps_rules]: "keeps I (internal_probe_locked x1)"
  unfolding internal_probe_locked_def by (intro keeps_rules keeps_run_with)

lemma keeps_ra8_fs_probe [keeps_rules]: "keeps I (ra8_fs_probe x1)"
  unfolding ra8_fs_probe_def by (intro keeps_rules)

subsection \<open>Paths\<close>

lemma keeps_internal_enter_subdir [keeps_rules]: "keeps I (internal_enter_subdir x1 x2 x3)"
  unfolding internal_enter_subdir_def by (intro keeps_rules)

lemma keeps_resolve_loop [keeps_rules]: "keeps I (resolve_loop x1 x2 x3 x4)"
  by (induction x2 arbitrary: x1 x3 x4; simp only: resolve_loop.simps; (intro keeps_rules | assumption)+)

lemma keeps_priv_resolve_parent [keeps_rules]: "keeps I (priv_resolve_parent x1 x2)"
  unfolding priv_resolve_parent_def by (intro keeps_rules)

lemma keeps_priv_resolve_dir [keeps_rules]: "keeps I (priv_resolve_dir x1 x2)"
  unfolding priv_resolve_dir_def by (intro keeps_rules)

lemma keeps_internal_close_stamp [keeps_rules]: "keeps I (internal_close_stamp x1)"
  unfolding internal_close_stamp_def by (intro keeps_rules)

subsection \<open>Queries on open files\<close>

lemma keeps_internal_tell_locked [keeps_rules]: "keeps I (internal_tell_locked x1)"
  unfolding internal_tell_locked_def by (intro keeps_rules)

lemma keeps_internal_size_locked [keeps_rules]: "keeps I (internal_size_locked x1)"
  unfolding internal_size_locked_def by (intro keeps_rules)

lemma keeps_ra8_fs_tell [keeps_rules]: "keeps I (ra8_fs_tell x1)"
  unfolding ra8_fs_tell_def by (intro keeps_rules)

lemma keeps_ra8_fs_size [keeps_rules]: "keeps I (ra8_fs_size x1)"
  unfolding ra8_fs_size_def by (intro keeps_rules)

subsection \<open>Listing, deleting, renaming, stat\<close>

lemma keeps_listdir_loop [keeps_rules]: "keeps I (listdir_loop x1 x2 x3 x4 x5)"
  by (induction x3 arbitrary: x1 x2 x4 x5; simp only: listdir_loop.simps; (intro keeps_rules | assumption)+)

lemma keeps_internal_listdir_locked [keeps_rules]: "keeps I (internal_listdir_locked x1 x2 x3)"
  unfolding internal_listdir_locked_def by (intro keeps_rules)

lemma keeps_internal_fat_dir_advance_sector [keeps_rules]: "keeps (on_fs I) (internal_fat_dir_advance_sector m)"
  by (rule keeps_onI)
    (auto simp: internal_fat_dir_advance_sector_def split: prod.splits sum.splits dest: keeps_onD [OF keeps_walk_next])

lemma keeps_fat_dir_scan:
  assumes "keeps (on_fs I) f"
  shows "keeps (on_fs I) (\<lambda>(s, st). case priv_read_sector m (w_cur_lba (dp_fat_walk st)) s of
      (Inl err, s') \<Rightarrow> (Inl err, (s', st))
    | (Inr sector, s') \<Rightarrow> (case internal_fat_dir_scan_sector m sector st of (hit, st') \<Rightarrow>
         if hit \<noteq> None \<or> dp_finished st' then (Inr hit, (s', st')) else f (s', st')))"
  by (rule keeps_onI) (auto split: prod.splits sum.splits if_splits
    dest: keepsD [OF keeps_priv_read_sector] keeps_onD [OF assms])

lemma keeps_fat_dir_next_loop [keeps_rules]: "keeps (on_fs I) (fat_dir_next_loop m n)"
  by (induction n; simp only: fat_dir_next_loop.simps; (intro keeps_rules keeps_fat_dir_scan | assumption)+)

lemma keeps_internal_fat_dir_next [keeps_rules]: "keeps (on_fs I) (internal_fat_dir_next m)"
  unfolding internal_fat_dir_next_def by (rule keeps_onI) (simp only: prod.case, erule (1) keeps_onD [OF keeps_fat_dir_next_loop])

lemma keeps_internal_dir_open_locked [keeps_rules]: "keeps I (internal_dir_open_locked x1 x2)"
  unfolding internal_dir_open_locked_def by (intro keeps_rules)

lemma keeps_ra8_fs_dir_open [keeps_rules]: "keeps (on_fs I) (ra8_fs_dir_open handle path)"
  by (rule keeps_onI) (auto simp: ra8_fs_dir_open_def split: prod.splits sum.splits option.splits if_splits
    dest: keepsD [OF keeps_locked [OF keeps_internal_dir_open_locked]])

lemma keeps_dir_next_locked [keeps_rules]: "keeps (on_fs I) dir_next_locked"
  by (rule keeps_onI) (auto simp: dir_next_locked_def Let_def split: prod.splits sum.splits if_splits
    dest: keeps_onD [OF keeps_priv_exfat_dir_next] keeps_onD [OF keeps_internal_fat_dir_next])

lemma keeps_ra8_fs_dir_next [keeps_rules]: "keeps (on_fs I) ra8_fs_dir_next"
  by (rule keeps_onI) (auto simp: ra8_fs_dir_next_def split: prod.splits if_splits
    intro: lock_I dest!: keeps_onD [OF keeps_dir_next_locked, rotated])

lemma keeps_ra8_fs_dir_close [keeps_rules]: "keeps (on_fs I) ra8_fs_dir_close"
  by (rule keeps_onI) (auto simp: ra8_fs_dir_close_def split: if_splits)

lemma keeps_internal_unlink_locate [keeps_rules]: "keeps I (internal_unlink_locate x1 x2)"
  unfolding internal_unlink_locate_def by (intro keeps_rules)

lemma keeps_internal_unlink_locked [keeps_rules]: "keeps I (internal_unlink_locked x1 x2)"
  unfolding internal_unlink_locked_def by (intro keeps_rules)

lemma keeps_internal_rename_prepare [keeps_rules]: "keeps I (internal_rename_prepare x1 x2 x3)"
  unfolding internal_rename_prepare_def by (intro keeps_rules)

lemma keeps_internal_fat_rename [keeps_rules]: "keeps I (internal_fat_rename x1 x2 x3)"
  unfolding internal_fat_rename_def by (intro keeps_rules)

lemma keeps_internal_rename_locked [keeps_rules]: "keeps I (internal_rename_locked x1 x2 x3)"
  unfolding internal_rename_locked_def by (intro keeps_rules)

lemma keeps_ra8_fs_listdir [keeps_rules]: "keeps I (ra8_fs_listdir x1 x2 x3)"
  unfolding ra8_fs_listdir_def by (intro keeps_rules)

lemma keeps_ra8_fs_unlink [keeps_rules]: "keeps I (ra8_fs_unlink x1 x2)"
  unfolding ra8_fs_unlink_def by (intro keeps_rules)

lemma keeps_ra8_fs_rename [keeps_rules]: "keeps I (ra8_fs_rename x1 x2 x3)"
  unfolding ra8_fs_rename_def by (intro keeps_rules)

lemma keeps_internal_stat_exfat [keeps_rules]: "keeps I (internal_stat_exfat x1 x2)"
  unfolding internal_stat_exfat_def by (intro keeps_rules)

lemma keeps_internal_stat_fat [keeps_rules]: "keeps I (internal_stat_fat x1 x2)"
  unfolding internal_stat_fat_def by (intro keeps_rules)

lemma keeps_internal_stat_locked [keeps_rules]: "keeps I (internal_stat_locked x1 x2)"
  unfolding internal_stat_locked_def by (intro keeps_rules)

lemma keeps_ra8_fs_stat [keeps_rules]: "keeps I (ra8_fs_stat x1 x2)"
  unfolding ra8_fs_stat_def by (intro keeps_rules)

subsection \<open>Zeroing and walking for truncation\<close>

lemma keeps_trunc_walk_loop [keeps_rules]: "keeps I (trunc_walk_loop x1 x2 x3)"
  by (induction x2 arbitrary: x1 x3; simp only: trunc_walk_loop.simps; (intro keeps_rules | assumption)+)

lemma keeps_internal_trunc_walk [keeps_rules]: "keeps I (internal_trunc_walk x1 x2 x3)"
  unfolding internal_trunc_walk_def by (intro keeps_rules)

lemma keeps_zero_span_loop [keeps_rules]: "keeps I (zero_span_loop x1 x2 x3 x4 x5)"
  by (induction x4 arbitrary: x1 x2 x3 x5; simp only: zero_span_loop.simps; (intro keeps_rules | assumption)+)

lemma keeps_internal_trunc_zero_span [keeps_rules]: "keeps I (internal_trunc_zero_span x1 x2 x3 x4)"
  unfolding internal_trunc_zero_span_def by (intro keeps_rules)

lemma keeps_trunc_extend_loop [keeps_rules]: "keeps I (trunc_extend_loop x1 x2 x3 x4)"
  by (induction x3 arbitrary: x1 x2 x4; simp only: trunc_extend_loop.simps; (intro keeps_rules | assumption)+)

lemma keeps_internal_exfat_free_run [keeps_rules]: "keeps I (internal_exfat_free_run x1 x2 x3 x4)"
  unfolding internal_exfat_free_run_def by (intro keeps_rules)

subsection \<open>Making and removing directories\<close>

lemma keeps_internal_pack_dot_entry [keeps_rules]: "keeps I (internal_pack_dot_entry x1 x2 x3 x4)"
  unfolding internal_pack_dot_entry_def by (intro keeps_rules)

lemma keeps_write_zero_lbas [keeps_rules]: "keeps I (write_zero_lbas x1 x2)"
  by (induction x2 arbitrary: x1; simp only: write_zero_lbas.simps; (intro keeps_rules | assumption)+)

lemma keeps_internal_dir_cluster_init [keeps_rules]: "keeps I (internal_dir_cluster_init x1 x2 x3)"
  unfolding internal_dir_cluster_init_def by (intro keeps_rules)

lemma keeps_or_free_chain [keeps_rules]: "keeps I f \<Longrightarrow> keeps I (or_free_chain m c f)"
  unfolding or_free_chain_def by (intro keeps_rules)

lemma keeps_internal_fat_mkdir [keeps_rules]: "keeps I (internal_fat_mkdir x1 x2)"
  unfolding internal_fat_mkdir_def by (intro keeps_rules)

lemma keeps_internal_mkdir_locked [keeps_rules]: "keeps I (internal_mkdir_locked x1 x2)"
  unfolding internal_mkdir_locked_def by (intro keeps_rules)

lemma keeps_dir_is_empty_loop [keeps_rules]: "keeps I (dir_is_empty_loop x1 x2 x3)"
  by (induction x2 arbitrary: x1 x3; simp only: dir_is_empty_loop.simps; (intro keeps_rules | assumption)+)

lemma keeps_internal_dir_is_empty [keeps_rules]: "keeps I (internal_dir_is_empty x1 x2)"
  unfolding internal_dir_is_empty_def by (intro keeps_rules)

lemma keeps_internal_rmdir_locate [keeps_rules]: "keeps I (internal_rmdir_locate x1 x2)"
  unfolding internal_rmdir_locate_def by (intro keeps_rules)

lemma keeps_internal_fat_rmdir [keeps_rules]: "keeps I (internal_fat_rmdir x1 x2)"
  unfolding internal_fat_rmdir_def by (intro keeps_rules)

lemma keeps_internal_rmdir_locked [keeps_rules]: "keeps I (internal_rmdir_locked x1 x2)"
  unfolding internal_rmdir_locked_def by (intro keeps_rules)

lemma keeps_ra8_fs_mkdir [keeps_rules]: "keeps I (ra8_fs_mkdir x1 x2)"
  unfolding ra8_fs_mkdir_def by (intro keeps_rules)

lemma keeps_ra8_fs_rmdir [keeps_rules]: "keeps I (ra8_fs_rmdir x1 x2)"
  unfolding ra8_fs_rmdir_def by (intro keeps_rules)

subsection \<open>Formatting FAT\<close>

lemma keeps_write_blocks [keeps_rules]: "keeps I (write_blocks x1 x2 x3 x4)"
  unfolding write_blocks_def by (intro keeps_rules)

lemma keeps_fmt_zero_loop [keeps_rules]: "keeps I (fmt_zero_loop x1 x2 x3 x4 x5 x6)"
  by (induction x5 arbitrary: x1 x2 x3 x4 x6; simp only: fmt_zero_loop.simps; (intro keeps_rules | assumption)+)

lemma keeps_internal_fmt_zero_run [keeps_rules]: "keeps I (internal_fmt_zero_run x1 x2 x3 x4)"
  unfolding internal_fmt_zero_run_def by (intro keeps_rules)

lemma keeps_priv_fmt_clear_region [keeps_rules]: "keeps I (priv_fmt_clear_region x1 x2 x3 x4)"
  unfolding priv_fmt_clear_region_def by (intro keeps_rules)

lemma keeps_seed_fats_loop [keeps_rules]: "keeps I (seed_fats_loop x1 x2 x3)"
  by (induction x3 arbitrary: x1 x2; simp only: seed_fats_loop.simps; (intro keeps_rules | assumption)+)

lemma keeps_internal_fmt_seed_fats [keeps_rules]: "keeps I (internal_fmt_seed_fats x1 x2)"
  unfolding internal_fmt_seed_fats_def by (intro keeps_rules)

lemma keeps_internal_fmt_write_fsinfo [keeps_rules]: "keeps I (internal_fmt_write_fsinfo x1 x2 x3)"
  unfolding internal_fmt_write_fsinfo_def by (intro keeps_rules)

lemma keeps_priv_fmt_emit_volume [keeps_rules]: "keeps I (priv_fmt_emit_volume x1 x2 x3)"
  unfolding priv_fmt_emit_volume_def by (intro keeps_rules)

subsection \<open>Formatting exFAT\<close>

lemma keeps_internal_exfat_wr_dual [keeps_rules]: "keeps I (internal_exfat_wr_dual x1 x2 x3 x4)"
  unfolding internal_exfat_wr_dual_def by (intro keeps_rules)

lemma keeps_write_ext_loop [keeps_rules]: "keeps I (write_ext_loop x1 x2 x3 x4 x5)"
  by (induction x4 arbitrary: x1 x2 x3 x5; simp only: write_ext_loop.simps; (intro keeps_rules | assumption)+)

lemma keeps_internal_exfat_write_boot_tail [keeps_rules]: "keeps I (internal_exfat_write_boot_tail x1 x2 x3)"
  unfolding internal_exfat_write_boot_tail_def by (intro keeps_rules)

lemma keeps_internal_exfat_write_boot [keeps_rules]: "keeps I (internal_exfat_write_boot x1 x2)"
  unfolding internal_exfat_write_boot_def by (intro keeps_rules)

lemma keeps_internal_exfat_write_fat [keeps_rules]: "keeps I (internal_exfat_write_fat x1 x2)"
  unfolding internal_exfat_write_fat_def by (intro keeps_rules)

lemma keeps_internal_exfat_write_bitmap [keeps_rules]: "keeps I (internal_exfat_write_bitmap x1 x2)"
  unfolding internal_exfat_write_bitmap_def by (intro keeps_rules)

lemma keeps_internal_exfat_write_root [keeps_rules]: "keeps I (internal_exfat_write_root x1 x2 x3 x4)"
  unfolding internal_exfat_write_root_def by (intro keeps_rules)

lemma keeps_write_upcase_loop [keeps_rules]: "keeps I (write_upcase_loop x1 x2 x3 x4 x5 x6)"
  by (induction x4 arbitrary: x1 x2 x3 x5 x6; simp only: write_upcase_loop.simps; (intro keeps_rules | assumption)+)

lemma keeps_priv_exfat_write_upcase [keeps_rules]: "keeps I (priv_exfat_write_upcase x1 x2 x3)"
  unfolding priv_exfat_write_upcase_def by (intro keeps_rules)

lemma keeps_internal_exfat_write_mbr [keeps_rules]: "keeps I (internal_exfat_write_mbr x1 x2 x3 x4)"
  unfolding internal_exfat_write_mbr_def by (intro keeps_rules)

lemma keeps_priv_exfat_format [keeps_rules]: "keeps I (priv_exfat_format x1 x2 x3 x4)"
  unfolding priv_exfat_format_def by (intro keeps_rules)

lemma keeps_internal_format_locked [keeps_rules]: "keeps I (internal_format_locked x1 x2)"
  unfolding internal_format_locked_def by (intro keeps_rules)

lemma keeps_ra8_fs_format [keeps_rules]: "keeps I (ra8_fs_format x1 x2)"
  unfolding ra8_fs_format_def by (intro keeps_rules)

subsection \<open>Volume label\<close>

lemma keeps_internal_fat_find_vol_id [keeps_rules]: "keeps I (internal_fat_find_vol_id x1)"
  unfolding internal_fat_find_vol_id_def by (intro keeps_rules)

lemma keeps_internal_fat_find_free_root [keeps_rules]: "keeps I (internal_fat_find_free_root x1)"
  unfolding internal_fat_find_free_root_def by (intro keeps_rules)

lemma keeps_internal_fat_boot_set_label [keeps_rules]: "keeps I (internal_fat_boot_set_label x1 x2)"
  unfolding internal_fat_boot_set_label_def by (intro keeps_rules)

lemma keeps_internal_fat_del_entry [keeps_rules]: "keeps I (internal_fat_del_entry x1 x2 x3)"
  unfolding internal_fat_del_entry_def by (intro keeps_rules)

lemma keeps_internal_fat_put_vol_id [keeps_rules]: "keeps I (internal_fat_put_vol_id x1 x2 x3 x4 x5)"
  unfolding internal_fat_put_vol_id_def by (intro keeps_rules)

lemma keeps_internal_get_label_fat [keeps_rules]: "keeps I (internal_get_label_fat x1 x2)"
  unfolding internal_get_label_fat_def by (intro keeps_rules)

lemma keeps_internal_set_label_fat [keeps_rules]: "keeps I (internal_set_label_fat x1 x2)"
  unfolding internal_set_label_fat_def by (intro keeps_rules)

lemma keeps_locate_label_loop [keeps_rules]: "keeps (on_fs I) (locate_label_loop x1 x2)"
  by (induction x2 arbitrary: x1; simp only: locate_label_loop.simps; (intro keeps_rules | assumption)+)

lemma keeps_locateLabel [keeps_rules]: "keeps I (locateLabel x1)"
  unfolding locateLabel_def by (intro keeps_rules)

lemma keeps_priv_exfat_get_label [keeps_rules]: "keeps I (priv_exfat_get_label x1 x2)"
  unfolding priv_exfat_get_label_def by (intro keeps_rules)

lemma keeps_priv_exfat_set_label [keeps_rules]: "keeps I (priv_exfat_set_label x1 x2)"
  unfolding priv_exfat_set_label_def by (intro keeps_rules)

lemma keeps_internal_get_label_locked [keeps_rules]: "keeps I (internal_get_label_locked x1 x2)"
  unfolding internal_get_label_locked_def by (intro keeps_rules)

lemma keeps_internal_set_label_locked [keeps_rules]: "keeps I (internal_set_label_locked x1 x2)"
  unfolding internal_set_label_locked_def by (intro keeps_rules)

lemma keeps_ra8_fs_get_label [keeps_rules]: "keeps I (ra8_fs_get_label x1 x2)"
  unfolding ra8_fs_get_label_def by (intro keeps_rules)

lemma keeps_ra8_fs_set_label [keeps_rules]: "keeps I (ra8_fs_set_label x1 x2)"
  unfolding ra8_fs_set_label_def by (intro keeps_rules)

subsection \<open>Free space, attributes, times\<close>

lemma keeps_find_entry [keeps_rules]: "keeps I (find_entry x1 x2)"
  unfolding find_entry_def by (intro keeps_rules)

lemma keeps_reread_set [keeps_rules]: "keeps I (reread_set x1 x2)"
  by (induction x2 arbitrary: x1; simp only: reread_set.simps; (intro keeps_rules | assumption)+)

lemma keeps_patch_set [keeps_rules]: "(\<And>b. keeps I (f b)) \<Longrightarrow> keeps I (patch_set m p f)"
  unfolding patch_set_def by (intro keeps_rules)

lemma keeps_setAttrFat [keeps_rules]: "keeps I (setAttrFat x1 x2 x3 x4)"
  unfolding setAttrFat_def by (intro keeps_rules)

lemma keeps_setAttrExfat [keeps_rules]: "keeps I (setAttrExfat x1 x2 x3 x4)"
  unfolding setAttrExfat_def by (intro keeps_rules)

lemma keeps_setAttrLocked [keeps_rules]: "keeps I (setAttrLocked x1 x2 x3 x4)"
  unfolding setAttrLocked_def by (intro keeps_rules)

lemma keeps_ra8_fs_set_attr [keeps_rules]: "keeps I (ra8_fs_set_attr x1 x2 x3 x4)"
  unfolding ra8_fs_set_attr_def by (intro keeps_rules)

lemma keeps_utimeFat [keeps_rules]: "keeps I (utimeFat x1 x2 x3)"
  unfolding utimeFat_def by (intro keeps_rules)

lemma keeps_utimeExfat [keeps_rules]: "keeps I (utimeExfat x1 x2 x3)"
  unfolding utimeExfat_def by (intro keeps_rules)

lemma keeps_utimeLocked [keeps_rules]: "keeps I (utimeLocked x1 x2 x3)"
  unfolding utimeLocked_def by (intro keeps_rules)

lemma keeps_ra8_fs_utime [keeps_rules]: "keeps I (ra8_fs_utime x1 x2 x3)"
  unfolding ra8_fs_utime_def by (intro keeps_rules)

lemma keeps_fat_free_loop [keeps_rules]: "keeps I (fat_free_loop x1 x2 x3)"
  by (induction x2 arbitrary: x1 x3; simp only: fat_free_loop.simps; (intro keeps_rules | assumption)+)

lemma keeps_fatFree [keeps_rules]: "keeps I (fatFree x1)"
  unfolding fatFree_def by (intro keeps_rules)

lemma keeps_exfat_free_loop [keeps_rules]: "keeps I (exfat_free_loop x1 x2 x3 x4 x5 x6 x7 x8)"
  by (induction x5 arbitrary: x1 x2 x3 x4 x6 x7 x8; simp only: exfat_free_loop.simps; (intro keeps_rules | assumption)+)

lemma keeps_exfatFree [keeps_rules]: "keeps I (exfatFree x1)"
  unfolding exfatFree_def by (intro keeps_rules)

lemma keeps_freeClusters [keeps_rules]: "keeps I (freeClusters x1)"
  unfolding freeClusters_def by (intro keeps_rules)

lemma keeps_spaceLocked [keeps_rules]: "keeps I (spaceLocked x1 x2)"
  unfolding spaceLocked_def by (intro keeps_rules)

lemma keeps_ra8_fs_free_space [keeps_rules]: "keeps I (ra8_fs_free_space x1 x2)"
  unfolding ra8_fs_free_space_def by (intro keeps_rules)

subsection \<open>Consistency check\<close>

lemma keeps_classify_loop [keeps_rules]: "keeps I (classify_loop x1 x2 x3)"
  by (induction x2 arbitrary: x1 x3; simp only: classify_loop.simps; (intro keeps_rules | assumption)+)

lemma keeps_internal_fat_classify [keeps_rules]: "keeps I (internal_fat_classify x1 x2)"
  unfolding internal_fat_classify_def by (intro keeps_rules)

lemma keeps_mark_chain_loop [keeps_rules]: "keeps I (mark_chain_loop x1 x2 x3 x4)"
  by (induction x2 arbitrary: x1 x3 x4; simp only: mark_chain_loop.simps; (intro keeps_rules | assumption)+)

lemma keeps_internal_fat_mark_chain [keeps_rules]: "keeps I (internal_fat_mark_chain x1 x2 x3)"
  unfolding internal_fat_mark_chain_def by (intro keeps_rules)

lemma keeps_internal_fat_entry [keeps_rules]: "keeps I (internal_fat_entry x1 x2 x3 x4 x5)"
  unfolding internal_fat_entry_def by (intro keeps_rules)

lemma keeps_visit_entries [keeps_rules]: "keeps I (visit_entries x1 x2 x3 x4 x5)"
  by (induction x4 arbitrary: x1 x2 x3 x5; simp only: visit_entries.simps; (intro keeps_rules | assumption)+)

lemma keeps_internal_fat_visit_sector [keeps_rules]: "keeps I (internal_fat_visit_sector x1 x2 x3 x4)"
  unfolding internal_fat_visit_sector_def by (intro keeps_rules)

lemma keeps_visit_sectors [keeps_rules]: "keeps I (visit_sectors x1 x2 x3)"
  by (induction x2 arbitrary: x1 x3; simp only: visit_sectors.simps; (intro keeps_rules | assumption)+)

lemma keeps_internal_fat_scan_fixed_root [keeps_rules]: "keeps I (internal_fat_scan_fixed_root x1 x2)"
  unfolding internal_fat_scan_fixed_root_def by (intro keeps_rules)

lemma keeps_scan_cluster_dir_loop [keeps_rules]: "keeps I (scan_cluster_dir_loop x1 x2 x3 x4)"
  by (induction x2 arbitrary: x1 x3 x4; simp only: scan_cluster_dir_loop.simps; (intro keeps_rules | assumption)+)

lemma keeps_internal_fat_scan_cluster_dir [keeps_rules]: "keeps I (internal_fat_scan_cluster_dir x1 x2 x3)"
  unfolding internal_fat_scan_cluster_dir_def by (intro keeps_rules)

lemma keeps_fat_tree_loop [keeps_rules]: "keeps I (fat_tree_loop x1 x2 x3)"
  by (induction x2 arbitrary: x1 x3; simp only: fat_tree_loop.simps; (intro keeps_rules | assumption)+)

lemma keeps_internal_fat_tree [keeps_rules]: "keeps I (internal_fat_tree x1 x2)"
  unfolding internal_fat_tree_def by (intro keeps_rules)

lemma keeps_fat_diff_loop [keeps_rules]: "keeps I (fat_diff_loop x1 x2 x3)"
  by (induction x2 arbitrary: x1 x3; simp only: fat_diff_loop.simps; (intro keeps_rules | assumption)+)

lemma keeps_internal_fat_diff [keeps_rules]: "keeps I (internal_fat_diff x1 x2)"
  unfolding internal_fat_diff_def by (intro keeps_rules)

lemma keeps_internal_fat_fsinfo [keeps_rules]: "keeps I (internal_fat_fsinfo x1 x2)"
  unfolding internal_fat_fsinfo_def by (intro keeps_rules)

lemma keeps_priv_check_fat [keeps_rules]: "keeps I (priv_check_fat x1 x2)"
  unfolding priv_check_fat_def by (intro keeps_rules)

subsection \<open>Consistency check of exFAT\<close>

lemma keeps_exchk_fatchain_loop [keeps_rules]: "keeps I (exchk_fatchain_loop x1 x2 x3 x4)"
  by (induction x2 arbitrary: x1 x3 x4; simp only: exchk_fatchain_loop.simps; (intro keeps_rules | assumption)+)

lemma keeps_internal_exchk_mark_fatchain [keeps_rules]: "keeps I (internal_exchk_mark_fatchain x1 x2 x3)"
  unfolding internal_exchk_mark_fatchain_def by (intro keeps_rules)

lemma keeps_mark_dir_alloc_loop [keeps_rules]: "keeps I (mark_dir_alloc_loop x1 x2 x3 x4 x5)"
  by (induction x3 arbitrary: x1 x2 x4 x5; simp only: mark_dir_alloc_loop.simps; (intro keeps_rules | assumption)+)

lemma keeps_internal_exchk_mark_dir_alloc [keeps_rules]: "keeps I (internal_exchk_mark_dir_alloc x1 x2 x3)"
  unfolding internal_exchk_mark_dir_alloc_def by (intro keeps_rules)

lemma keeps_internal_exchk_set_clusters [keeps_rules]: "keeps I (internal_exchk_set_clusters x1 x2 x3 x4 x5 x6)"
  unfolding internal_exchk_set_clusters_def by (intro keeps_rules)

lemma keeps_exchk_take_loop [keeps_rules]: "keeps (on_fs I) (exchk_take_loop x1 x2 x3)"
  by (induction x2 arbitrary: x1 x3; simp only: exchk_take_loop.simps; (intro keeps_rules | assumption)+)

lemma keeps_internal_exchk_set [keeps_rules]: "keeps (on_fs I) (internal_exchk_set x1 x2 x3)"
  unfolding internal_exchk_set_def by (intro keeps_rules)

lemma keeps_internal_exchk_scan_dir_file_entry [keeps_rules]: "keeps (on_fs I) (internal_exchk_scan_dir_file_entry x1 x2 x3 x4)"
  unfolding internal_exchk_scan_dir_file_entry_def by (intro keeps_rules)

lemma keeps_internal_exchk_scan_dir_terminal [keeps_rules]: "keeps (on_fs I) (internal_exchk_scan_dir_terminal x1 x2 x3)"
  unfolding internal_exchk_scan_dir_terminal_def by (intro keeps_rules)

lemma keeps_exchk_scan_loop [keeps_rules]: "keeps (on_fs I) (exchk_scan_loop x1 x2 x3 x4)"
  by (induction x3 arbitrary: x1 x2 x4; simp only: exchk_scan_loop.simps; (intro keeps_rules | assumption)+)

lemma keeps_internal_exchk_scan_dir [keeps_rules]: "keeps I (internal_exchk_scan_dir x1 x2 x3)"
  unfolding internal_exchk_scan_dir_def by (intro keeps_rules)

lemma keeps_exchk_tree_loop [keeps_rules]: "keeps I (exchk_tree_loop x1 x2 x3)"
  by (induction x2 arbitrary: x1 x3; simp only: exchk_tree_loop.simps; (intro keeps_rules | assumption)+)

lemma keeps_internal_exchk_tree [keeps_rules]: "keeps I (internal_exchk_tree x1 x2 x3)"
  unfolding internal_exchk_tree_def by (intro keeps_rules)

lemma keeps_bitmap_pass_loop [keeps_rules]: "keeps I (bitmap_pass_loop x1 x2 x3 x4 x5 x6 x7 x8 x9)"
  by (induction x5 arbitrary: x1 x2 x3 x4 x6 x7 x8 x9; simp only: bitmap_pass_loop.simps; (intro keeps_rules | assumption)+)

lemma keeps_internal_exchk_bitmap_pass [keeps_rules]: "keeps I (internal_exchk_bitmap_pass x1 x2 x3)"
  unfolding internal_exchk_bitmap_pass_def by (intro keeps_rules)

lemma keeps_priv_check_exfat [keeps_rules]: "keeps I (priv_check_exfat x1 x2 x3)"
  unfolding priv_check_exfat_def by (intro keeps_rules)

lemma keeps_internal_check_locked [keeps_rules]: "keeps I (internal_check_locked x1 x2 x3 x4)"
  unfolding internal_check_locked_def by (intro keeps_rules)

lemma keeps_ra8_fs_check [keeps_rules]: "keeps I (ra8_fs_check x1 x2 x3 x4)"
  unfolding ra8_fs_check_def by (intro keeps_rules)

end
end
