(* ===== verification/File_Frame.thy ===== *)
theory File_Frame
  imports Fs_Frame
begin

text \<open>
  The frame of the operations that hold an open file or open one: they change the file table in addition, and nothing
  else of the driver's own state.
\<close>

section \<open>Operations on an open file\<close>

text \<open>
  Operations that hold one handle: beside what the driver's primitives do, they rewrite the file object of
  that handle, without changing its mount and its in-use mark.
\<close>

locale content_frame = driver_frame I for I :: "'w fs \<Rightarrow> bool" +
  fixes i :: nat
  assumes I_content: "I s \<Longrightarrow> f_mount f = f_mount (s_files s ! i) \<Longrightarrow> f_in_use f = f_in_use (s_files s ! i) \<Longrightarrow>
      I (s\<lparr>s_files := (s_files s)[i := f]\<rparr>)"
begin

lemma keeps_set_file:
  assumes "\<And>f. f_mount (g f) = f_mount f" and "\<And>f. f_in_use (g f) = f_in_use f"
  shows "keeps I (set_file i g)"
  unfolding set_file_def by (rule keeps_modifyE) (simp add: I_content assms)

lemma keeps_internal_exfat_link_cluster [keeps_rules]: "keeps I (internal_exfat_link_cluster i x1)"
  unfolding internal_exfat_link_cluster_def by (intro keeps_rules keeps_set_file | simp)+

lemma keeps_internal_exfat_grow_one [keeps_rules]: "keeps I (internal_exfat_grow_one i)"
  unfolding internal_exfat_grow_one_def by (intro keeps_rules keeps_set_file | simp)+

lemma keeps_ensure_clusters_loop [keeps_rules]: "keeps I (ensure_clusters_loop i x1 x2)"
  by (induction x2 arbitrary: x1; simp only: ensure_clusters_loop.simps; (intro keeps_rules keeps_set_file | assumption | simp)+)

lemma keeps_priv_exfat_ensure_clusters [keeps_rules]: "keeps I (priv_exfat_ensure_clusters i x1)"
  unfolding priv_exfat_ensure_clusters_def by (intro keeps_rules keeps_set_file | simp)+

lemma keeps_internal_exfat_cluster_at [keeps_rules]: "keeps I (internal_exfat_cluster_at i x1)"
  unfolding internal_exfat_cluster_at_def by (intro keeps_rules keeps_set_file | simp)+

lemma keeps_internal_exfat_slice_at [keeps_rules]: "keeps I (internal_exfat_slice_at i x1)"
  unfolding internal_exfat_slice_at_def by (intro keeps_rules keeps_set_file | simp)+

lemma keeps_close_gap_loop [keeps_rules]: "keeps I (close_gap_loop i x1)"
  by (induction x1; simp only: close_gap_loop.simps; (intro keeps_rules keeps_set_file | assumption | simp)+)

lemma keeps_internal_exfat_close_gap [keeps_rules]: "keeps I (internal_exfat_close_gap i)"
  unfolding internal_exfat_close_gap_def by (intro keeps_rules keeps_set_file | simp)+

lemma keeps_exfat_write_loop [keeps_rules]: "keeps I (exfat_write_loop i x1 x2)"
  by (induction x1 arbitrary: x2; simp only: exfat_write_loop.simps; (intro keeps_rules keeps_set_file | assumption | simp add: Let_def)+)

lemma keeps_priv_exfat_write_stream [keeps_rules]: "keeps I (priv_exfat_write_stream i x1)"
  unfolding priv_exfat_write_stream_def by (intro keeps_rules keeps_set_file | simp)+

lemma keeps_surveyAlloc [keeps_rules]: "keeps I (surveyAlloc i)"
  unfolding surveyAlloc_def by (intro keeps_rules keeps_set_file | simp)+

lemma keeps_openw_truncate [keeps_rules]: "keeps I (openw_truncate i x1)"
  unfolding openw_truncate_def by (intro keeps_rules keeps_set_file | simp)+

lemma keeps_internal_truncate_existing [keeps_rules]: "keeps I (internal_truncate_existing x1 i x2 x3)"
  unfolding internal_truncate_existing_def by (intro keeps_rules keeps_set_file | simp)+

lemma keeps_internal_read_one_chunk [keeps_rules]: "keeps I (internal_read_one_chunk i x1)"
  unfolding internal_read_one_chunk_def by (intro keeps_rules keeps_set_file | simp)+

lemma keeps_internal_read_span [keeps_rules]: "keeps I (internal_read_span i x1)"
  unfolding internal_read_span_def by (intro keeps_rules keeps_set_file | simp)+

lemma keeps_read_loop [keeps_rules]: "keeps I (read_loop x1 i x2 x3)"
  by (induction x1 arbitrary: x2 x3; simp only: read_loop.simps; (intro keeps_rules keeps_set_file | assumption | simp)+)

lemma keeps_internal_read_locked [keeps_rules]: "keeps I (internal_read_locked (Some i) x1)"
  unfolding internal_read_locked_def option.case
  by (intro keeps_rules keeps_set_file | simp)+

lemma keeps_internal_write_position [keeps_rules]: "keeps I (internal_write_position i x1 x2)"
  unfolding internal_write_position_def by (intro keeps_rules keeps_set_file | simp)+

lemma keeps_write_loop [keeps_rules]: "keeps I (write_loop x1 i x2 x3)"
  by (induction x1 arbitrary: x2 x3; simp only: write_loop.simps; (intro keeps_rules keeps_set_file | assumption | simp add: Let_def)+)

lemma keeps_internal_write_stream [keeps_rules]: "keeps I (internal_write_stream i x1)"
  unfolding internal_write_stream_def by (intro keeps_rules keeps_set_file | simp)+

lemma keeps_internal_write_locked [keeps_rules]: "keeps I (internal_write_locked (Some i) x1)"
  unfolding internal_write_locked_def prod.case option.case by (intro keeps_rules keeps_set_file | simp)+

lemma keeps_internal_seek_locked [keeps_rules]: "keeps I (internal_seek_locked (Some i) x1)"
  unfolding internal_seek_locked_def option.case
  by (intro keeps_rules keeps_set_file | simp)+

lemma keeps_ra8_fs_read [keeps_rules]: "keeps I (ra8_fs_read (Some i) x1)"
  unfolding ra8_fs_read_def option.case
  by (intro keeps_rules keeps_set_file | simp)+

lemma keeps_ra8_fs_write [keeps_rules]: "keeps I (ra8_fs_write (Some i) x1)"
  unfolding ra8_fs_write_def option.case
  by (intro keeps_rules keeps_set_file | simp)+

lemma keeps_ra8_fs_seek [keeps_rules]: "keeps I (ra8_fs_seek (Some i) x1)"
  unfolding ra8_fs_seek_def option.case
  by (intro keeps_rules keeps_set_file | simp)+

lemma keeps_internal_fat_trunc_shrink [keeps_rules]: "keeps I (internal_fat_trunc_shrink i x1 x2)"
  unfolding internal_fat_trunc_shrink_def by (intro keeps_rules keeps_set_file | simp)+

lemma keeps_internal_fat_trunc_extend [keeps_rules]: "keeps I (internal_fat_trunc_extend i x1 x2 x3 x4)"
  unfolding internal_fat_trunc_extend_def by (intro keeps_rules keeps_set_file | simp)+

lemma keeps_internal_fat_trunc_grow [keeps_rules]: "keeps I (internal_fat_trunc_grow i x1 x2)"
  unfolding internal_fat_trunc_grow_def by (intro keeps_rules keeps_set_file | simp)+

lemma keeps_internal_fat_trunc_commit [keeps_rules]: "keeps I (internal_fat_trunc_commit i)"
  unfolding internal_fat_trunc_commit_def by (intro keeps_rules keeps_set_file | simp)+

lemma keeps_internal_fat_trunc [keeps_rules]: "keeps I (internal_fat_trunc i x1)"
  unfolding internal_fat_trunc_def by (intro keeps_rules keeps_set_file | simp)+

lemma keeps_internal_exfat_shrink_chain_tail [keeps_rules]: "keeps I (internal_exfat_shrink_chain_tail i x1 x2)"
  unfolding internal_exfat_shrink_chain_tail_def by (intro keeps_rules keeps_set_file | simp)+

lemma keeps_internal_exfat_trunc_shrink [keeps_rules]: "keeps I (internal_exfat_trunc_shrink i x1 x2)"
  unfolding internal_exfat_trunc_shrink_def by (intro keeps_rules keeps_set_file | simp)+

lemma keeps_internal_exfat_trunc [keeps_rules]: "keeps I (internal_exfat_trunc i x1)"
  unfolding internal_exfat_trunc_def by (intro keeps_rules keeps_set_file | simp)+

lemma keeps_internal_truncate_locked [keeps_rules]: "keeps I (internal_truncate_locked (Some i) x1)"
  unfolding internal_truncate_locked_def option.case
  by (intro keeps_rules keeps_set_file | simp)+

lemma keeps_ra8_fs_truncate [keeps_rules]: "keeps I (ra8_fs_truncate (Some i) x1)"
  unfolding ra8_fs_truncate_def option.case
  by (intro keeps_rules keeps_set_file | simp)+

end

text \<open>Closing marks the file object as no longer in use.\<close>

locale handle_frame = content_frame I i for I :: "'w fs \<Rightarrow> bool" and i +
  assumes I_close: "I s \<Longrightarrow> \<not> f_in_use f \<Longrightarrow> I (s\<lparr>s_files := (s_files s)[i := f]\<rparr>)"
begin

lemma keeps_shut_file: "(\<And>f. \<not> f_in_use (g f)) \<Longrightarrow> keeps I (set_file i g)"
  unfolding set_file_def by (rule keeps_modifyE) (simp add: I_close)

lemma keeps_openw_release [keeps_rules]: "keeps I (openw_release i)"
  unfolding openw_release_def by (rule keeps_shut_file) simp

lemma keeps_priv_close_locked [keeps_rules]: "keeps I (priv_close_locked (Some i))"
  unfolding priv_close_locked_def option.case
  by (intro keeps_rules keeps_shut_file) simp

lemma keeps_ra8_fs_close [keeps_rules]: "keeps I (ra8_fs_close (Some i))"
  unfolding ra8_fs_close_def option.case
  by (intro keeps_rules keeps_set_file | simp)+

end

text \<open>Opening takes a free file object and binds it to the mount \<open>h\<close>.\<close>

locale open_frame = driver_frame I for I :: "'w fs \<Rightarrow> bool" +
  fixes h :: nat
  assumes files_content: "I s \<Longrightarrow> f_mount f = f_mount (s_files s ! i) \<Longrightarrow> f_in_use f = f_in_use (s_files s ! i) \<Longrightarrow>
      I (s\<lparr>s_files := (s_files s)[i := f]\<rparr>)"
    and files_close: "I s \<Longrightarrow> \<not> f_in_use f \<Longrightarrow> I (s\<lparr>s_files := (s_files s)[i := f]\<rparr>)"
    and I_open: "I s \<Longrightarrow> f_mount f = Some h \<Longrightarrow> I (s\<lparr>s_files := (s_files s)[i := f]\<rparr>)"

sublocale open_frame \<subseteq> slot: handle_frame I i for i
  by unfold_locales (simp_all add: files_content files_close)

context open_frame
begin

lemma keeps_bind_file: "(\<And>f. f_mount (g f) = Some h) \<Longrightarrow> keeps I (set_file i g)"
  unfolding set_file_def by (rule keeps_modifyE) (simp add: I_open)

lemma keeps_openFound [keeps_rules]: "keeps I (openFound h x1 x2)"
  supply openw_seed_def [simp]
  unfolding openFound_def
  by (intro keeps_rules | (rule keeps_bind_file; (simp; fail)) | (rule slot.keeps_set_file; (simp; fail))
      | (rule slot.keeps_shut_file; (simp; fail)))+

lemma keeps_openCreated [keeps_rules]: "keeps I (openCreated h x1 x2 x3)"
  supply openw_seed_def [simp]
  unfolding openCreated_def
  by (intro keeps_rules | (rule keeps_bind_file; (simp; fail)) | (rule slot.keeps_set_file; (simp; fail))
      | (rule slot.keeps_shut_file; (simp; fail)))+

lemma keeps_priv_exfat_open_write [keeps_rules]: "keeps I (priv_exfat_open_write h x1 x2)"
  unfolding priv_exfat_open_write_def
  by (intro keeps_rules | (rule keeps_bind_file; (simp; fail)) | (rule slot.keeps_set_file; (simp; fail))
      | (rule slot.keeps_shut_file; (simp; fail)))+

lemma keeps_priv_exfat_open [keeps_rules]: "keeps I (priv_exfat_open h x1 x2)"
  supply internal_exfat_seed_read_def [simp] and Let_def [simp]
  unfolding priv_exfat_open_def
  by (intro keeps_rules | (rule keeps_bind_file; (simp; fail)) | (rule slot.keeps_set_file; (simp; fail))
      | (rule slot.keeps_shut_file; (simp; fail)))+

lemma keeps_internal_open_existing [keeps_rules]: "keeps I (internal_open_existing h x1 x2)"
  unfolding internal_open_existing_def
  by (intro keeps_rules | (rule keeps_bind_file; (simp; fail)) | (rule slot.keeps_set_file; (simp; fail))
      | (rule slot.keeps_shut_file; (simp; fail)))+

lemma keeps_internal_init_new_file [keeps_rules]: "keeps I (internal_init_new_file i h x1 x2 x3)"
  unfolding internal_init_new_file_def
  by (intro keeps_rules | (rule keeps_bind_file; (simp; fail)) | (rule slot.keeps_set_file; (simp; fail))
      | (rule slot.keeps_shut_file; (simp; fail)))+

lemma keeps_internal_create_new [keeps_rules]: "keeps I (internal_create_new h x1 x2 x3)"
  unfolding internal_create_new_def
  by (intro keeps_rules | (rule keeps_bind_file; (simp; fail)) | (rule slot.keeps_set_file; (simp; fail))
      | (rule slot.keeps_shut_file; (simp; fail)))+

lemma keeps_priv_open_locked [keeps_rules]: "keeps I (priv_open_locked (Some h) x1 x2)"
  unfolding priv_open_locked_def prod.case option.case
  by (intro keeps_rules | (rule keeps_bind_file; (simp; fail)) | (rule slot.keeps_set_file; (simp; fail))
      | (rule slot.keeps_shut_file; (simp; fail)))+

lemma keeps_ra8_fs_open [keeps_rules]: "keeps I (ra8_fs_open (Some h) x1 x2)"
  unfolding ra8_fs_open_def option.case
  by (intro keeps_rules | (rule keeps_bind_file; (simp; fail)) | (rule slot.keeps_set_file; (simp; fail))
      | (rule slot.keeps_shut_file; (simp; fail)))+

lemma keeps_internal_write_file_locked [keeps_rules]: "keeps I (internal_write_file_locked (Some h) x1 x2)"
  unfolding internal_write_file_locked_def option.case
  by (intro keeps_rules | (rule keeps_bind_file; (simp; fail)) | (rule slot.keeps_set_file; (simp; fail))
      | (rule slot.keeps_shut_file; (simp; fail)))+

lemma keeps_ra8_fs_write_file [keeps_rules]: "keeps I (ra8_fs_write_file (Some h) x1 x2)"
  unfolding ra8_fs_write_file_def option.case
  by (intro keeps_rules | (rule keeps_bind_file; (simp; fail)) | (rule slot.keeps_set_file; (simp; fail))
      | (rule slot.keeps_shut_file; (simp; fail)))+

end

end
