(* ===== verification/File_Write.thy ===== *)
theory File_Write
  imports File_Extent File_Frame
begin

text \<open>
  Writing to an open file of a FAT volume, \<open>internal_write_locked\<close> of \<^verbatim>\<open>ra8_fs_fat_fileio.c\<close>: the transfer loop followed by the
  update of the directory entry. Three properties: what a successful write does, that a write inside the allocated
  space succeeds, and that the bytes can be read back.
\<close>

section \<open>The directory entry\<close>

text \<open>Reading the clock does not touch the medium.\<close>

definition quiet_clock :: "'w fs \<Rightarrow> bool" where
  "quiet_clock s \<longleftrightarrow> (s_clock_bound s \<longrightarrow> (\<forall>f. clk_now (s_clock s) = Some f \<longrightarrow> (\<forall>w. snd (f w) = w)))"

lemma quiet_stamp:
  assumes q: "quiet_clock s"
  shows "\<exists>a d. priv_fat_entry_stamp_write e off s = (Inr (priv_wr16 (priv_wr16 (priv_wr16 e (off + k_dir_off_wrt_time) a)
      (off + k_dir_off_wrt_date) d) (off + k_dir_off_lst_acc_date) d), s)"
proof -
  have "\<exists>p. internal_now_or_epoch s = (Inr p, s)"
  proof (cases "s_clock_bound s \<and> clk_now (s_clock s) \<noteq> None")
    case True
    then obtain f where f: "clk_now (s_clock s) = Some f" by blast
    have "snd (f (world s)) = world s" using q True f by (simp add: quiet_clock_def)
    then show ?thesis using True f unfolding internal_now_or_epoch_def Let_def
      by (cases "fst (f (world s))") (auto simp: bindE_def getE_def attemptE_def callE_def liftW_def prod.case_eq_if)
  next
    case False
    then show ?thesis unfolding internal_now_or_epoch_def Let_def
      by (auto simp: bindE_def getE_def attemptE_def callE_def throwE_def)
  qed
  then obtain p where p: "internal_now_or_epoch s = (Inr p, s)" by blast
  let ?s = "internal_fat_pack (fst p)"
  have "priv_fat_entry_stamp_write e off s = (Inr (priv_wr16 (priv_wr16 (priv_wr16 e (off + k_dir_off_wrt_time) (fst_time ?s))
      (off + k_dir_off_wrt_date) (fst_date ?s)) (off + k_dir_off_lst_acc_date) (fst_date ?s)), s)"
    using p by (simp add: priv_fat_entry_stamp_write_def internal_fat_stamp_now_def bindE_def Let_def split: prod.split)
  then show ?thesis by blast
qed

lemma halves_of_cluster: "push_bit 16 (ucast (ucast (drop_bit 16 c AND 0xFFFF) :: u16)) OR ucast (ucast (c AND 0xFFFF) :: u16) = (c :: u32)"
proof -
  have "x AND 0xFFFF = take_bit 16 x" for x :: u32 by (simp add: take_bit_eq_mask mask_eq_exp_minus_1)
  then show ?thesis by (intro bit_word_eqI) (auto simp: bit_simps)
qed

lemma entry_update:
  fixes sec :: bytes and c n :: u32 and a d :: u16 and at :: u8
  assumes len: "off + 32 \<le> length sec"
  defines "e \<equiv> drop off (priv_fat_entry_apply_attr (priv_wr16 (priv_wr16 (priv_wr16 (priv_entry_set_cluster_size sec off c n)
      (off + k_dir_off_wrt_time) a) (off + k_dir_off_wrt_date) d) (off + k_dir_off_lst_acc_date) d) off at 0)"
  shows "priv_entry_first_cluster e = c" "priv_rd32 e k_dir_off_file_size = n"
proof -
  let ?u = "priv_entry_set_cluster_size sec off c n"
  have e: "e ! k = ?u ! (off + k)" if "k \<in> {20, 21, 26, 27, 28, 29, 30, 31}" for k
    using that len unfolding e_def by (auto simp: priv_fat_entry_apply_attr_def priv_entry_set_cluster_size_def nth_wr16)
  have "priv_rd16 e 20 = priv_rd16 ?u (off + 20)" "priv_rd16 e 26 = priv_rd16 ?u (off + 26)" "priv_rd32 e 28 = priv_rd32 ?u (off + 28)"
    by (simp_all add: priv_rd16_def priv_rd32_def e ac_simps)
  moreover have "priv_rd16 ?u (off + 20) = ucast (drop_bit 16 c AND 0xFFFF)" "priv_rd16 ?u (off + 26) = ucast (c AND 0xFFFF)"
    "priv_rd32 ?u (off + 28) = n"
    using len by (simp_all add: priv_entry_set_cluster_size_def priv_rd16_def nth_wr32 nth_wr16 codec)
  ultimately show "priv_entry_first_cluster e = c" "priv_rd32 e k_dir_off_file_size = n"
    by (simp_all add: priv_entry_first_cluster_def halves_of_cluster)
qed


interpretation quiet: handle_frame quiet_clock i for i
  by unfold_locales (simp_all add: quiet_clock_def)

text \<open>
  The directory entry of an open file lies in a sector of its own: not in a FAT and in no cluster that belongs to the
  file or may be allocated to it.
\<close>

definition entry_home :: "('w \<Rightarrow> u64 \<Rightarrow> bytes) \<Rightarrow> 'w mount \<Rightarrow> 'w fs \<Rightarrow> fs_file \<Rightarrow> u32 list \<Rightarrow> bool" where
  "entry_home content m s f cs \<longleftrightarrow> unat (f_dir_entry_idx f) + 32 \<le> unat (m_bytes_per_sector m) \<and>
     f_dir_entry_lba f + m_partition_base_lba m \<notin> fat_area m \<and>
     (\<forall>c. in_data m c \<longrightarrow> c \<in> set cs \<or> fat_at content m s c = 0 \<longrightarrow> f_dir_entry_lba f \<notin> set (cluster_lbas m c))"

section \<open>Writing in place\<close>

context reliable_device
begin

text \<open>Inside the chain the growing walk is the plain one.\<close>

lemma skip_grow: "skip_loop m n c s = (Inr d, t) \<Longrightarrow> walk_grow_loop m n c s = (Inr d, t)"
proof (induction n arbitrary: c s)
  case (Suc n)
  then obtain v u where v: "priv_fat_get m c s = (Inr v, u)" and r: "(if priv_is_eoc m v then throwE k_ra8_err_invalid_state else skip_loop m n v) u = (Inr d, t)"
    unfolding skip_loop.simps by (elim bindE_InrE)
  then have "\<not> priv_is_eoc m v" "skip_loop m n v u = (Inr d, t)" by (auto simp: throwE_def split: if_splits)
  with Suc.IH v show ?case by (simp add: bindE_run)
qed simp

lemma position_in_place:
  assumes m: "on_backend b bs m" and g: "fat_geom m" and inv: "fs_inv valid content m s" and on: "fat_on_medium m s"
    and op: "open_on s i m" and w: "file_writable content m s (s_files s ! i) cs" and way: "way_ok way cs q"
    and q: "q < length cs" "q < 2 ^ 32"
  shows "\<exists>way' u. internal_write_position i way (of_nat q) s = (Inr (cs ! q, way'), u) \<and> fs_inv valid content m u \<and>
    nblocks (world u) = nblocks (world s) \<and> s_files u = s_files s"
proof -
  let ?f = "s_files s ! i" and ?k = "unat (ww_index way)"
  have ne: "cs \<noteq> []" using q by auto
  have ch: "chain m (fat_at content m s) (f_first_cluster ?f) cs" using w ne by (simp add: file_writable_def file_view_def)
  have k: "?k < length cs" "cs ! ?k = ww_cluster way" "?k \<le> q" using way ne by (auto simp: way_ok_def)
  have idx: "unat (of_nat q :: u32) = q" using q(2) by (simp add: unat_of_nat_small)
  have n: "unat (of_nat q - ww_index way) = q - ?k" using k idx by (subst unat_sub_le) (simp_all add: word_le_nat_alt)
  have i: "i < length (s_files s)" using op by (simp add: open_on_def)
  have "inData m (f_first_cluster ?f)" using ch ne by (cases cs) (auto dest: chain_ConsD)
  then have f1: "\<not> f_first_cluster ?f < k_cluster_first_data" by (simp add: inData_def not_less)
  have "chain m (fat_at content m s) (ww_cluster way) (drop ?k cs)" using chain_drop [OF ch k(1)] k(2) by simp
  moreover have "q - ?k < length (drop ?k cs)" using k q unfolding length_drop by linarith
  ultimately obtain u where
    u: "skip_loop m (q - ?k) (ww_cluster way) s = (Inr (cs ! q), u)" "fs_inv valid content m u" "fat_frame s u"
      "nblocks (world u) = nblocks (world s)" using skip_ok [OF m g inv on, of "ww_cluster way" "drop ?k cs" "q - ?k"] k by auto
  then show ?thesis using i f1
    by (auto simp: internal_write_position_def bindE_run file_mount_run [OF op] fileE_def internal_walk_grow_def n skip_grow fat_frame_def)
qed

lemma into_sector_ok:
  assumes m: "on_backend b bs m" and v: "valid (world s)" and l: "unat (lba + m_partition_base_lba m) < nblocks (world s)"
  shows "\<exists>t. priv_write_into_sector m lba off src s = (Inr (), t) \<and> nblocks (world t) = nblocks (world s)"
proof -
  from read_sector_ok [OF m v l] obtain sec u where u: "priv_read_sector m lba s = (Inr sec, u)" "nblocks (world u) = nblocks (world s)" by blast
  note rs = read_sector [OF m v u(1)]
  have "length sec = bs" using rs(4) vsec_length by auto
  then have "length (priv_byte_copy sec off src 0 (length src)) = bs" by simp
  from write_sector_ok [OF m rs(1) this, of lba] l u show ?thesis
    by (auto simp: priv_write_into_sector_def bindE_run)
qed

lemma write_loop_in_place:
  assumes m: "on_backend b bs m" and g: "fat_geom m" and ty: "fat_typed m" and cg: "cluster_geom m" and dg: "data_geom m"
  defines "cb \<equiv> unat (m_sectors_per_cluster m) * bs"
  shows "fs_inv valid content m s \<Longrightarrow> fat_on_medium m s \<Longrightarrow> file_on_medium nblocks m s cs \<Longrightarrow> open_on s i m \<Longrightarrow>
    file_writable content m s (s_files s ! i) cs \<Longrightarrow> length rest \<le> n \<Longrightarrow> way_ok way cs (unat (f_offset (s_files s ! i)) div cb) \<Longrightarrow>
    unat (f_offset (s_files s ! i)) + length rest < 2 ^ 32 \<Longrightarrow>
    unat (f_offset (s_files s ! i)) + length rest \<le> length cs * cb \<Longrightarrow>
    \<exists>t. write_loop n i way rest s = (Inr (), t) \<and> nblocks (world t) = nblocks (world s)"
proof (induction n arbitrary: s way rest)
  case (Suc n)
  define x where "x = unat (f_offset (s_files s ! i))"
  show ?case
  proof (cases "rest = []")
    case False
    have bs: "0 < bs" using m by (auto simp: on_backend_def)
    define k where "k = min (bs - x mod bs) (length rest)"
    have k: "0 < k" "k \<le> length rest" "length (take k rest) = k" using False bs by (simp_all add: k_def)
    have kb: "x mod bs + length (take k rest) \<le> bs" using mod_less_divisor [OF bs, of x] unfolding length_take k_def by linarith
    have x: "x < 2 ^ 32" "x + length (take k rest) < 2 ^ 32" "x < length cs * cb"
      using Suc.prems(8,9) k False by (auto simp: x_def [symmetric])
    have q: "x div cb < length cs" using x(3) by (simp add: less_mult_imp_div_less)
    have q32: "x div cb < 2 ^ 32" using x(1) div_le_dividend [of x cb] by linarith
    note pos = offset_split [OF m cg, of "f_offset (s_files s ! i)", folded x_def cb_def, OF q32]
    from position_in_place [OF m g Suc.prems(1,2,4,5,7) [folded x_def] q q32] obtain way' u1 where
      p: "internal_write_position i way (of_nat (x div cb)) s = (Inr (cs ! (x div cb), way'), u1)"
        "fs_inv valid content m u1" "nblocks (world u1) = nblocks (world s)" "s_files u1 = s_files s" by blast
    define lba where "lba = priv_cluster_to_lba m (cs ! (x div cb)) + of_nat (x mod cb div bs)"
    define v where "v = u1\<lparr>s_files := (s_files u1)[i := (s_files u1 ! i)\<lparr>f_cur_cluster := cs ! (x div cb)\<rparr>]\<rparr>"
    have "lba \<in> set (file_lbas m cs)" unfolding file_lbas_in lba_def using q pos(5) nth_mem by blast
    then have l: "unat (lba + m_partition_base_lba m) < nblocks (world v)"
      using Suc.prems(3) p(3) by (simp add: file_on_medium_def v_def)
    have vv: "valid (world v)" using p(2) by (simp add: v_def fs_inv_def)
    from into_sector_ok [OF m vv l, of "x mod bs" "take k rest"] obtain u2 where
      ws: "priv_write_into_sector m lba (x mod bs) (take k rest) v = (Inr (), u2)" "nblocks (world u2) = nblocks (world v)" by blast
    define u where "u = u2\<lparr>s_files := (s_files u2)[i := (let f = s_files u2 ! i; o' = f_offset f + of_nat (length (take k rest)) in
            f\<lparr>f_offset := o', f_size_bytes := (if o' > f_size_bytes f then o' else f_size_bytes f)\<rparr>)]\<rparr>"
    from write_chunk [OF m g ty cg dg Suc.prems(1,4,5), folded x_def cb_def, OF Suc.prems(7) [folded x_def] x(2) kb p(1)
        ws(1) [unfolded lba_def v_def], folded u_def] obtain ys where
      wt: "wrote valid content m i cs s (take k rest) ys u" "way_ok way' (cs @ ys) ((x + length (take k rest)) div cb)"
        "length (cs @ ys) = max (length cs) (Suc (x div cb))" by blast
    have ys: "ys = []" using wt(3) q by simp
    have off: "unat (f_offset (s_files u ! i)) = x + k" using wt(1) k by (simp add: wrote_def x_def)
    have nb: "nblocks (world u) = nblocks (world s)" using ws(2) p(3) by (simp add: u_def v_def)
    have "\<exists>t. write_loop n i way' (drop k rest) u = (Inr (), t) \<and> nblocks (world t) = nblocks (world u)"
      by (rule Suc.IH) (use wt ys off nb k Suc.prems(2,3,6,8,9) in
          \<open>simp_all add: wrote_def fat_on_medium_def file_on_medium_def x_def [symmetric]\<close>)
    then obtain t where t: "write_loop n i way' (drop k rest) u = (Inr (), t)" "nblocks (world t) = nblocks (world s)" using nb by auto
    have "write_loop (Suc n) i way rest s = write_loop n i way' (drop k rest) u"
      unfolding write_loop_run [OF m cg Suc.prems(4) False x(1) [unfolded x_def], folded x_def cb_def, folded k_def]
      using p(1) ws(1) k(3) by (simp add: bindE_run set_file_def modifyE_def lba_def v_def u_def Let_def cong: if_cong split del: if_split)
    then show ?thesis using t by simp
  qed simp
qed simp

end

context reliable_device
begin

lemma write_stream_ok:
  assumes m: "on_backend b bs m" and g: "fat_geom m" and ty: "fat_typed m" and cg: "cluster_geom m" and dg: "data_geom m"
    and inv: "fs_inv valid content m s" and op: "open_on s i m" and w: "file_writable content m s (s_files s ! i) cs"
    and small: "unat (f_offset (s_files s ! i)) + length buf < 2 ^ 32" and r: "internal_write_stream i buf s = (Inr (), t)"
  shows "\<exists>ys. wrote valid content m i cs (s\<lparr>s_files := (s_files s)[i := (s_files s ! i)\<lparr>f_walk_cache_cluster := 0\<rparr>]\<rparr>) buf ys t"
proof -
  define s0 where "s0 = s\<lparr>s_files := (s_files s)[i := (s_files s ! i)\<lparr>f_walk_cache_cluster := 0\<rparr>]\<rparr>"
  have i: "i < length (s_files s)" using op by (simp add: open_on_def)
  have f0: "s_files s0 ! i = (s_files s ! i)\<lparr>f_walk_cache_cluster := 0\<rparr>" using i by (simp add: s0_def)
  have fa: "fat_at content m s0 = fat_at content m s" by (rule fat_at_world) (simp add: s0_def)
  have lp: "write_loop (length buf) i \<lparr>ww_cluster = f_first_cluster (s_files s ! i), ww_index = 0\<rparr> buf s0 = (Inr (), t)"
    using r i by (simp add: internal_write_stream_def set_file_def modifyE_def bindE_run fileE_def s0_def)
  have "\<exists>ys. wrote valid content m i cs s0 buf ys t"
  proof (rule write_loop_ok [OF m g ty cg dg lp])
    show "fs_inv valid content m s0" using inv by (simp add: s0_def fs_inv_def coherent_def vsec_def)
    show "open_on s0 i m" using op i by (simp add: open_on_def s0_def)
    show "file_writable content m s0 (s_files s0 ! i) cs" using w by (simp add: f0 fa file_writable_def file_view_def)
    show "way_ok \<lparr>ww_cluster = f_first_cluster (s_files s ! i), ww_index = 0\<rparr> cs
        (unat (f_offset (s_files s0 ! i)) div (unat (m_sectors_per_cluster m) * bs))"
      using w by (cases cs) (auto simp: way_ok_def file_writable_def file_view_def dest: chain_ConsD)
  qed (use small in \<open>simp_all add: f0\<close>)
  then show ?thesis by (simp add: s0_def)
qed

lemma write_locked_in_place:
  assumes m: "on_backend b bs m" and g: "fat_geom m" and ty: "fat_typed m" and cg: "cluster_geom m" and dg: "data_geom m"
    and inv: "fs_inv valid content m s" and on: "fat_on_medium m s" and med: "file_on_medium nblocks m s cs" and op: "open_on s i m"
    and w: "file_writable content m s (s_files s ! i) cs" and q: "quiet_clock s" and home: "entry_home content m s (s_files s ! i) cs"
    and buf: "buf \<noteq> []" "unat (f_offset (s_files s ! i)) + length buf < 2 ^ 32"
    and room: "unat (f_offset (s_files s ! i)) + length buf \<le> length cs * unat (priv_cluster_bytes m)"
    and md: "f_mode (s_files s ! i) \<noteq> k_ra8_fs_mode_read"
    and dir: "unat (f_dir_entry_lba (s_files s ! i) + m_partition_base_lba m) < nblocks (world s)"
  shows "\<exists>t. internal_write_locked (Some i) (Some buf) s = (Inr (), t) \<and> nblocks (world t) = nblocks (world s)"
proof -
  define f where "f = s_files s ! i"
  define s0 where "s0 = s\<lparr>s_files := (s_files s)[i := f\<lparr>f_walk_cache_cluster := 0\<rparr>]\<rparr>"
  have i: "i < length (s_files s)" "f_in_use f" using op by (auto simp: open_on_def f_def)
  have f0: "s_files s0 ! i = f\<lparr>f_walk_cache_cluster := 0\<rparr>" "world s0 = world s" using i by (simp_all add: s0_def)
  have fa: "fat_at content m s0 = fat_at content m s" by (rule fat_at_world) (simp add: f0)
  have cb: "unat (priv_cluster_bytes m) = unat (m_sectors_per_cluster m) * bs"
    by (rule offset_split(1) [OF m cg, of 0]) simp
  let ?way = "\<lparr>ww_cluster = f_first_cluster f, ww_index = 0\<rparr>"
  have "\<exists>u. write_loop (length buf) i ?way buf s0 = (Inr (), u) \<and> nblocks (world u) = nblocks (world s0)"
  proof (rule write_loop_in_place [OF m g ty cg dg])
    show "fs_inv valid content m s0" using inv by (simp add: s0_def fs_inv_def coherent_def vsec_def)
    show "fat_on_medium m s0" "file_on_medium nblocks m s0 cs" using on med by (simp_all add: fat_on_medium_def file_on_medium_def f0)
    show "open_on s0 i m" using op i by (simp add: open_on_def s0_def f_def)
    show "file_writable content m s0 (s_files s0 ! i) cs" using w by (simp add: f0 fa file_writable_def file_view_def f_def)
    show "way_ok ?way cs (unat (f_offset (s_files s0 ! i)) div (unat (m_sectors_per_cluster m) * bs))"
      using w by (cases cs) (auto simp: way_ok_def file_writable_def file_view_def f_def dest: chain_ConsD)
  qed (use buf room in \<open>simp_all add: f0 f_def [symmetric] cb\<close>)
  then obtain u where lp: "write_loop (length buf) i ?way buf s0 = (Inr (), u)" "nblocks (world u) = nblocks (world s)" by (auto simp: f0)
  have st: "internal_write_stream i buf s = (Inr (), u)"
    using lp i by (simp add: internal_write_stream_def set_file_def modifyE_def bindE_run fileE_def s0_def f_def)
  from write_stream_ok [OF m g ty cg dg inv op w buf(2) st] obtain ys where
    wt: "wrote valid content m i cs (s\<lparr>s_files := (s_files s)[i := (s_files s ! i)\<lparr>f_walk_cache_cluster := 0\<rparr>]\<rparr>) buf ys u" by blast
  have iu: "i < length (s_files u)" "valid (world u)" using wt by (auto simp: wrote_def open_on_def fs_inv_def)
  have lu: "f_dir_entry_lba (s_files u ! i) = f_dir_entry_lba f" using wt i unfolding wrote_def by (auto simp: f_def)
  from read_sector_ok [OF m iu(2), of "f_dir_entry_lba f"] dir lp obtain sec u1 where
    rd: "priv_read_sector m (f_dir_entry_lba f) u = (Inr sec, u1)" "nblocks (world u1) = nblocks (world u)" by (auto simp: f_def)
  note rs = read_sector [OF m iu(2) rd(1)]
  have "quiet_clock u" by (rule keepsD [OF quiet.keeps_internal_write_stream q st])
  then have "quiet_clock u1" by (subst rs(3)) (simp add: quiet_clock_def)
  define off where "off = unat (f_dir_entry_idx (s_files u ! i))"
  define new where "new = priv_entry_set_cluster_size sec off (f_first_cluster (s_files u ! i)) (ucast (f_size_bytes (s_files u ! i)))"
  from quiet_stamp [OF \<open>quiet_clock u1\<close>, of new off] obtain a' d' where
    sp: "priv_fat_entry_stamp_write new off u1 = (Inr (priv_wr16 (priv_wr16 (priv_wr16 new (off + k_dir_off_wrt_time) a')
      (off + k_dir_off_wrt_date) d') (off + k_dir_off_lst_acc_date) d'), u1)" (is "_ = (Inr ?d, u1)") by blast
  define v where "v = u1\<lparr>s_files := (s_files u1)[i := (s_files u1 ! i)\<lparr>f_dirty := True\<rparr>]\<rparr>"
  have "length sec = bs" using rs(4) vsec_length by auto
  then have "length (priv_fat_entry_apply_attr ?d off k_ra8_fs_attr_archive 0) = bs"
    by (simp add: priv_fat_entry_apply_attr_def new_def priv_entry_set_cluster_size_def)
  moreover have "valid (world v)" using rs(1) by (simp add: v_def)
  ultimately obtain t where wr: "priv_write_sector m (f_dir_entry_lba f) (priv_fat_entry_apply_attr ?d off k_ra8_fs_attr_archive 0) v = (Inr (), t)"
      "nblocks (world t) = nblocks (world v)"
    using write_sector_ok [OF m, of v _ "f_dir_entry_lba f"] dir rd(2) lp(2) by (auto simp: v_def f_def)
  have lim: "\<not> of_nat (length buf) > k_ra8_fs_fat_max_file_bytes - f_offset f"
  proof -
    have "f_offset f \<le> k_ra8_fs_fat_max_file_bytes" using buf(2) by (simp add: word_le_nat_alt f_def)
    then have "unat (k_ra8_fs_fat_max_file_bytes - f_offset f) = 0xFFFFFFFF - unat (f_offset f)" by (subst unat_sub_le) simp_all
    then show ?thesis using buf(2) by (simp add: word_less_nat_alt unat_of_nat_small f_def)
  qed
  have ty': "m_type m \<noteq> k_ra8_fs_type_exfat" using cg by (simp add: cluster_geom_def)
  have "internal_write_locked (Some i) (Some buf) s = (Inr (), t)"
    unfolding internal_write_locked_def prod.case option.case Let_def
    using i buf(1) md ty' lim st rd(1) sp wr(1) iu(1)
    by (simp add: fileE_def bindE_run file_mount_run [OF op] f_def [symmetric] lu off_def [symmetric] new_def [symmetric]
        set_file_def modifyE_def v_def)
  then show ?thesis using wr(2) rd(2) lp(2) by (simp add: v_def)
qed

lemma write_locked_split:
  assumes cg: "cluster_geom m" and op: "open_on s i m" and buf: "buf \<noteq> []" "length buf < 2 ^ 32"
    and sz: "f_offset (s_files s ! i) \<le> k_ra8_fs_fat_max_file_bytes"
    and r: "internal_write_locked (Some i) (Some buf) s = (Inr (), t)"
  obtains u sec u1 d u2 where "internal_write_stream i buf s = (Inr (), u)"
    "priv_read_sector m (f_dir_entry_lba (s_files u ! i)) u = (Inr sec, u1)"
    "priv_fat_entry_stamp_write (priv_entry_set_cluster_size sec (unat (f_dir_entry_idx (s_files u ! i)))
       (f_first_cluster (s_files u ! i)) (ucast (f_size_bytes (s_files u ! i)))) (unat (f_dir_entry_idx (s_files u ! i))) u1 = (Inr d, u2)"
    "priv_write_sector m (f_dir_entry_lba (s_files u ! i)) (priv_fat_entry_apply_attr d (unat (f_dir_entry_idx (s_files u ! i))) k_ra8_fs_attr_archive 0)
       (u2\<lparr>s_files := (s_files u2)[i := (s_files u2 ! i)\<lparr>f_dirty := True\<rparr>]\<rparr>) = (Inr (), t)"
    "unat (f_offset (s_files s ! i)) + length buf < 2 ^ 32"
proof -
  let ?x = "f_offset (s_files s ! i)"
  have i: "i < length (s_files s)" using op by (simp add: open_on_def)
  have ty: "m_type m \<noteq> k_ra8_fs_type_exfat" using cg by (simp add: cluster_geom_def)
  have lim: "\<not> of_nat (length buf) > k_ra8_fs_fat_max_file_bytes - ?x"
    using r op buf(1) i ty
    by (auto simp: internal_write_locked_def fileE_def bindE_run file_mount_run [OF op] split: if_splits)
  have "unat (k_ra8_fs_fat_max_file_bytes - ?x) = 0xFFFFFFFF - unat ?x" using sz by (subst unat_sub_le) simp_all
  moreover have "unat (of_nat (length buf) :: u64) = length buf" using buf(2) by (simp add: unat_of_nat_small)
  moreover have "unat ?x \<le> 0xFFFFFFFF" using sz by (simp add: word_le_nat_alt)
  ultimately have small: "unat ?x + length buf < 2 ^ 32" using lim by (simp add: word_less_nat_alt)
  have run: "\<exists>u. internal_write_stream i buf s = (Inr (), u) \<and> bindE (fileE i) (\<lambda>f1.
      bindE (priv_read_sector m (f_dir_entry_lba f1)) (\<lambda>dirsec. let off = unat (f_dir_entry_idx f1) in
      bindE (priv_fat_entry_stamp_write
          (priv_entry_set_cluster_size dirsec off (f_first_cluster f1) (ucast (f_size_bytes f1))) off) (\<lambda>d1.
      bindE (set_file i (\<lambda>f. f\<lparr>f_dirty := True\<rparr>)) (\<lambda>_.
        priv_write_sector m (f_dir_entry_lba f1) (priv_fat_entry_apply_attr d1 off k_ra8_fs_attr_archive 0))))) u = (Inr (), t)"
    using r op buf(1) i ty lim
    by (auto simp: internal_write_locked_def fileE_def bindE_run file_mount_run [OF op] split: if_splits elim!: bindE_InrE)
  then show thesis
    by (auto simp: fileE_def Let_def set_file_def modifyE_def bindE_run split: if_splits elim!: bindE_InrE intro!: that small)
qed

lemma entry_flush:
  assumes m: "on_backend b bs m" and g: "fat_geom m" and inv: "fs_inv valid content m u" and q: "quiet_clock u"
    and i: "i < length (s_files u)" and nf: "lba + m_partition_base_lba m \<notin> fat_area m" and off: "off + 32 \<le> bs"
    and rd: "priv_read_sector m lba u = (Inr sec, u1)"
    and sp: "priv_fat_entry_stamp_write (priv_entry_set_cluster_size sec off c n) off u1 = (Inr d, u2)"
    and wr: "priv_write_sector m lba (priv_fat_entry_apply_attr d off k_ra8_fs_attr_archive 0)
       (u2\<lparr>s_files := (s_files u2)[i := (s_files u2 ! i)\<lparr>f_dirty := True\<rparr>]\<rparr>) = (Inr (), t)"
  shows "fs_inv valid content m t" "l \<noteq> lba \<Longrightarrow> vsec content m t l = vsec content m u l"
    "priv_entry_first_cluster (drop off (vsec content m t lba)) = c" "priv_rd32 (drop off (vsec content m t lba)) k_dir_off_file_size = n"
    "in_fat m e \<Longrightarrow> fat_at content m t e = fat_at content m u e"
    "s_mounts t = s_mounts u" "s_files t = (s_files u)[i := (s_files u ! i)\<lparr>f_dirty := True\<rparr>]"
proof -
  have "valid (world u)" using inv by (simp add: fs_inv_def)
  note rs = read_sector [OF m this rd]
  have sec: "sec = vsec content m u lba" "length sec = bs" using rs(4) vsec_length by auto
  have "quiet_clock u1" using q by (subst rs(3)) (simp add: quiet_clock_def)
  from quiet_stamp [OF this, of "priv_entry_set_cluster_size sec off c n" off] obtain a' d' where
    "priv_fat_entry_stamp_write (priv_entry_set_cluster_size sec off c n) off u1 = (Inr (priv_wr16 (priv_wr16 (priv_wr16
        (priv_entry_set_cluster_size sec off c n) (off + k_dir_off_wrt_time) a') (off + k_dir_off_wrt_date) d') (off + k_dir_off_lst_acc_date) d'), u1)"
    by blast
  then have u2: "u2 = u1" and d: "d = priv_wr16 (priv_wr16 (priv_wr16 (priv_entry_set_cluster_size sec off c n)
        (off + k_dir_off_wrt_time) a') (off + k_dir_off_wrt_date) d') (off + k_dir_off_lst_acc_date) d'" using sp by auto
  define nsec where "nsec = priv_fat_entry_apply_attr d off k_ra8_fs_attr_archive 0"
  define v where "v = u1\<lparr>s_files := (s_files u)[i := (s_files u ! i)\<lparr>f_dirty := True\<rparr>]\<rparr>"
  have fu: "s_files u1 = s_files u" "s_mounts u1 = s_mounts u" by (subst rs(3), simp)+
  have wr': "priv_write_sector m lba nsec v = (Inr (), t)" using wr by (simp add: nsec_def u2 v_def fu)
  have "fs_inv valid content m u1" using fs_inv_world [OF inv rs(1,2)] rs(3) by metis
  then have iv: "fs_inv valid content m v" by (simp add: v_def fs_inv_def coherent_def vsec_def)
  have len: "length nsec = bs" using sec(2) by (simp add: nsec_def d priv_fat_entry_apply_attr_def priv_entry_set_cluster_size_def)
  note ws = write_outside_fat [OF m g iv nf len wr']
  show "fs_inv valid content m t" by (rule ws(1))
  have vt: "vsec content m t = (vsec content m u)(lba := nsec)" using ws(2) rs(2) by (simp add: v_def vsec_def fun_eq_iff)
  then show "l \<noteq> lba \<Longrightarrow> vsec content m t l = vsec content m u l" by simp
  show "priv_entry_first_cluster (drop off (vsec content m t lba)) = c" "priv_rd32 (drop off (vsec content m t lba)) k_dir_off_file_size = n"
    using entry_update [of off sec c n a' d' k_ra8_fs_attr_archive] off sec(2) by (simp_all add: vt nsec_def d)
  show "in_fat m e \<Longrightarrow> fat_at content m t e = fat_at content m u e"
    using ws(4) [of e] fat_at_world [of content v u m] rs(2) by (simp add: v_def)
  show "s_mounts t = s_mounts u" "s_files t = (s_files u)[i := (s_files u ! i)\<lparr>f_dirty := True\<rparr>]"
    using ws(3) by (simp_all add: fat_frame_def v_def fu)
qed

lemma write_locked_ok:
  assumes m: "on_backend b bs m" and g: "fat_geom m" and ty: "fat_typed m" and cg: "cluster_geom m" and dg: "data_geom m"
    and inv: "fs_inv valid content m s" and op: "open_on s i m" and w: "file_writable content m s (s_files s ! i) cs"
    and q: "quiet_clock s" and home: "entry_home content m s (s_files s ! i) cs" and buf: "buf \<noteq> []" "length buf < 2 ^ 32"
    and sz: "f_size_bytes (s_files s ! i) \<le> k_ra8_fs_fat_max_file_bytes"
    and r: "internal_write_locked (Some i) (Some buf) s = (Inr (), t)"
  defines "f \<equiv> s_files s ! i" and "f' \<equiv> s_files t ! i"
  defines "e \<equiv> drop (unat (f_dir_entry_idx f)) (vsec content m t (f_dir_entry_lba f))"
  shows "\<exists>ys. file_data content m t (cs @ ys) = splice_at (file_data content m s (cs @ ys)) (unat (f_offset f)) buf \<and>
    unat (f_offset f') = unat (f_offset f) + length buf \<and>
    unat (f_size_bytes f') = max (unat (f_size_bytes f)) (unat (f_offset f) + length buf) \<and>
    file_writable content m t f' (cs @ ys) \<and> fs_inv valid content m t \<and> open_on t i m \<and>
    priv_entry_first_cluster e = f_first_cluster f' \<and> priv_rd32 e k_dir_off_file_size = ucast (f_size_bytes f') \<and>
    (\<forall>y \<in> set ys. fat_at content m s y = 0) \<and>
    (\<forall>c. in_fat m c \<longrightarrow> c \<notin> set (cs @ ys) \<longrightarrow> fat_at content m t c = fat_at content m s c) \<and>
    (\<forall>l. l + m_partition_base_lba m \<notin> fat_area m \<longrightarrow> l \<notin> set (file_lbas m (cs @ ys)) \<longrightarrow> l \<noteq> f_dir_entry_lba f \<longrightarrow>
       vsec content m t l = vsec content m s l)"
proof -
  have i: "i < length (s_files s)" using op by (simp add: open_on_def)
  have so: "f_offset (s_files s ! i) \<le> k_ra8_fs_fat_max_file_bytes" using w sz by (auto simp: file_writable_def)
  from write_locked_split [OF cg op buf so r] obtain u sec u1 d u2 where
    st: "internal_write_stream i buf s = (Inr (), u)"
    and rd: "priv_read_sector m (f_dir_entry_lba (s_files u ! i)) u = (Inr sec, u1)"
    and sp: "priv_fat_entry_stamp_write (priv_entry_set_cluster_size sec (unat (f_dir_entry_idx (s_files u ! i)))
       (f_first_cluster (s_files u ! i)) (ucast (f_size_bytes (s_files u ! i)))) (unat (f_dir_entry_idx (s_files u ! i))) u1 = (Inr d, u2)"
    and wr: "priv_write_sector m (f_dir_entry_lba (s_files u ! i)) (priv_fat_entry_apply_attr d (unat (f_dir_entry_idx (s_files u ! i))) k_ra8_fs_attr_archive 0)
       (u2\<lparr>s_files := (s_files u2)[i := (s_files u2 ! i)\<lparr>f_dirty := True\<rparr>]\<rparr>) = (Inr (), t)"
    and small: "unat (f_offset (s_files s ! i)) + length buf < 2 ^ 32" by blast
  define s0 where "s0 = s\<lparr>s_files := (s_files s)[i := f\<lparr>f_walk_cache_cluster := 0\<rparr>]\<rparr>"
  from write_stream_ok [OF m g ty cg dg inv op w small st, folded f_def, folded s0_def] obtain ys where
    wt: "wrote valid content m i cs s0 buf ys u" by blast
  have w0: "world s0 = world s" "s_mounts s0 = s_mounts s" "s_files s0 ! i = f\<lparr>f_walk_cache_cluster := 0\<rparr>" "length (s_files s0) = length (s_files s)"
    using i by (simp_all add: s0_def)
  have fa0: "fat_at content m s0 = fat_at content m s" by (rule fat_at_world) (simp add: w0)
  have vs0: "vsec content m s0 = vsec content m s" by (simp add: vsec_def w0 fun_eq_iff)
  have fd0: "file_data content m s0 = file_data content m s" by (simp add: file_data_def vs0 fun_eq_iff)
  define g1 where "g1 = s_files u ! i"
  have g1: "f_dir_entry_lba g1 = f_dir_entry_lba f" "f_dir_entry_idx g1 = f_dir_entry_idx f"
    using wt i unfolding g1_def wrote_def w0 by (auto simp: w0)
  have bps: "unat (m_bytes_per_sector m) = bs" using m by (simp add: on_backend_def)
  have nf: "f_dir_entry_lba f + m_partition_base_lba m \<notin> fat_area m" and off: "unat (f_dir_entry_idx f) + 32 \<le> bs"
    using home bps by (simp_all add: entry_home_def f_def)
  have u: "fs_inv valid content m u" "i < length (s_files u)" "open_on u i m" "file_writable content m u g1 (cs @ ys)"
    using wt by (auto simp: wrote_def open_on_def g1_def)
  have qu: "quiet_clock u" by (rule keepsD [OF quiet.keeps_internal_write_stream q st])
  note fl = entry_flush [OF m g u(1) qu u(2) nf off rd [folded g1_def, unfolded g1] sp [folded g1_def, unfolded g1] wr [folded g1_def, unfolded g1],
    folded e_def, folded g1_def]
  have ff: "f' = g1\<lparr>f_dirty := True\<rparr>" using fl(7) u(2) by (simp add: f'_def)
  have dat: "\<forall>c \<in> set (cs @ ys). in_data m c" 
  proof (cases "cs @ ys = []")
    case False
    then have "chain m (fat_at content m u) (f_first_cluster g1) (cs @ ys)" using u(4) by (simp add: file_writable_def file_view_def)
    then show ?thesis using chain_data g by (metis inData_iff)
  qed simp
  have fre: "\<forall>y \<in> set ys. fat_at content m s y = 0" using wt by (simp add: wrote_def grown_def fa0)
  have nl: "f_dir_entry_lba f \<notin> set (file_lbas m (cs @ ys))"
    using home dat fre unfolding file_lbas_def entry_home_def f_def by auto
  have fd: "file_data content m t (cs @ ys) = file_data content m u (cs @ ys)"
    unfolding file_data_def using nl fl(2) by (metis map_cong)
  have fw: "file_writable content m t f' (cs @ ys)"
  proof -
    have "chain m (fat_at content m t) c (cs @ ys)" if "chain m (fat_at content m u) c (cs @ ys)" for c
      by (rule chain_cong [OF that]) (use fl(5) dat in_data_in_fat in blast)
    then show ?thesis using u(4) by (simp add: ff file_writable_def file_view_def)
  qed
  have op': "open_on t i m" using u(3) fl(6,7) by (simp add: open_on_def g1_def)
  have oth: "fat_at content m t c = fat_at content m s c" if "in_fat m c" "c \<notin> set (cs @ ys)" for c
    using fl(5) [OF that(1)] wt that by (simp add: wrote_def grown_def fa0)
  have sect: "vsec content m t l = vsec content m s l"
    if "l + m_partition_base_lba m \<notin> fat_area m" "l \<notin> set (file_lbas m (cs @ ys))" "l \<noteq> f_dir_entry_lba f" for l
    using fl(2) [OF that(3)] wt that(1,2) by (simp add: wrote_def grown_def vsec_def w0)
  show ?thesis
    by (rule exI [of _ ys]) (use fl(1,3,4) fd fw op' oth sect fre wt in \<open>simp add: wrote_def ff w0 fd0 g1_def [symmetric]\<close>)
qed

lemma seek_back_read:
  fixes buf :: bytes and x :: u64
  assumes m: "on_backend b bs m" and g: "fat_geom m" and cg: "cluster_geom m" and inv: "fs_inv valid content m t"
    and on: "fat_on_medium m t" and med: "file_on_medium nblocks m t cs" and op: "open_on t i m"
    and v: "file_view content m t (s_files t ! i) cs" and n: "length buf < 2 ^ 32"
    and fd: "file_data content m t cs = splice_at d (unat x) buf" and len: "unat x + length buf \<le> length d"
    and sz: "unat x + length buf \<le> unat (f_size_bytes (s_files t ! i))"
  shows "\<exists>u. bindE (internal_seek_locked (Some i) x) (\<lambda>_. internal_read_locked (Some i) (of_nat (length buf))) t = (Inr buf, u)"
proof -
  have i: "i < length (s_files t)" "f_in_use (s_files t ! i)" using op by (auto simp: open_on_def)
  define t1 where "t1 = t\<lparr>s_files := (s_files t)[i := (s_files t ! i)\<lparr>f_offset := x\<rparr>]\<rparr>"
  have "\<not> x > f_size_bytes (s_files t ! i)" using sz by (simp add: word_less_nat_alt)
  then have sk: "internal_seek_locked (Some i) x t = (Inr (), t1)"
    using i by (simp add: internal_seek_locked_def fileE_def bindE_run set_file_def modifyE_def t1_def)
  have t1: "world t1 = world t" "s_files t1 ! i = (s_files t ! i)\<lparr>f_offset := x\<rparr>" using i by (simp_all add: t1_def)
  have vs: "vsec content m t1 = vsec content m t" by (simp add: vsec_def t1 fun_eq_iff)
  have fa: "fat_at content m t1 = fat_at content m t" by (rule fat_at_world) (simp add: t1)
  have "fs_inv valid content m t1" "fat_on_medium m t1" "file_on_medium nblocks m t1 cs" "open_on t1 i m" "file_view content m t1 (s_files t1 ! i) cs"
    using inv on med op v i by (simp_all add: t1_def fs_inv_def coherent_def vsec_def fat_on_medium_def file_on_medium_def open_on_def)
      (simp add: file_view_def fa [unfolded t1_def])
  note rd = read_locked_ok [OF m g cg this, of "of_nat (length buf)"]
  have "take (length buf) (drop (unat x) (take (unat (f_size_bytes (s_files t ! i))) (splice_at d (unat x) buf))) = buf"
    using len sz by (simp add: splice_at_def drop_take take_append)
  moreover have "file_data content m t1 cs = splice_at d (unat x) buf" using fd by (simp add: file_data_def vs)
  ultimately show ?thesis using rd n by (auto simp: sk bindE_run t1 unat_of_nat_small)
qed

end

section \<open>Writing\<close>

text \<open>C1. A successful write to an open file of a FAT volume overwrites the bytes of the file from its position on with the bytes of
  the caller, extending the chain by clusters that were free; the position moves behind them, the size grows when they
  reach past it, and the directory entry names the first cluster and the size of the file. No other entry of the FAT and no
  sector outside the FAT, the file and the directory entry changes.\<close>

theorem write_correct:
  assumes d: "reliable_device b content bs valid nb" and m: "on_backend b bs m" and g: "fat_geom m" and ty: "fat_typed m"
    and cg: "cluster_geom m" and dg: "data_geom m" and inv: "fs_inv valid content m s" and op: "open_on s i m"
    and w: "file_writable content m s (s_files s ! i) cs" and q: "quiet_clock s" and home: "entry_home content m s (s_files s ! i) cs"
    and buf: "buf \<noteq> []" "length buf < 2 ^ 32" and sz: "f_size_bytes (s_files s ! i) \<le> k_ra8_fs_fat_max_file_bytes"
    and r: "internal_write_locked (Some i) (Some buf) s = (Inr (), t)"
  defines "f \<equiv> s_files s ! i" and "f' \<equiv> s_files t ! i"
  defines "e \<equiv> drop (unat (f_dir_entry_idx f)) (vsec content m t (f_dir_entry_lba f))"
  shows "\<exists>ys. file_data content m t (cs @ ys) = splice_at (file_data content m s (cs @ ys)) (unat (f_offset f)) buf \<and>
    unat (f_offset f') = unat (f_offset f) + length buf \<and>
    unat (f_size_bytes f') = max (unat (f_size_bytes f)) (unat (f_offset f) + length buf) \<and>
    file_writable content m t f' (cs @ ys) \<and> fs_inv valid content m t \<and> open_on t i m \<and>
    priv_entry_first_cluster e = f_first_cluster f' \<and> priv_rd32 e k_dir_off_file_size = ucast (f_size_bytes f') \<and>
    (\<forall>y \<in> set ys. fat_at content m s y = 0) \<and>
    (\<forall>c. in_fat m c \<longrightarrow> c \<notin> set (cs @ ys) \<longrightarrow> fat_at content m t c = fat_at content m s c) \<and>
    (\<forall>l. l + m_partition_base_lba m \<notin> fat_area m \<longrightarrow> l \<notin> set (file_lbas m (cs @ ys)) \<longrightarrow> l \<noteq> f_dir_entry_lba f \<longrightarrow>
       vsec content m t l = vsec content m s l)"
  unfolding f_def f'_def e_def by (rule reliable_device.write_locked_ok [OF d m g ty cg dg inv op w q home buf sz r])

definition ex_writer :: "ram_state fs" where
  "ex_writer = ex_fs\<lparr>s_files := (s_files ex_fs)[0 := fs_file_zero\<lparr>f_mount := Some 0, f_first_cluster := 2, f_size_bytes := 600,
     f_offset := 500, f_mode := k_ra8_fs_mode_write, f_dir_entry_lba := 3, f_in_use := True\<rparr>]\<rparr>"

definition ex_text :: bytes where
  "ex_text = replicate 300 0x41"

lemma ex_writer_ok: "fs_inv ram_valid ram_content ex_mount ex_writer" "data_geom ex_mount" "open_on ex_writer 0 ex_mount"
  "file_writable ram_content ex_mount ex_writer (s_files ex_writer ! 0) [2, 3]" "quiet_clock ex_writer"
  "entry_home ram_content ex_mount ex_writer (s_files ex_writer ! 0) [2, 3]"
  "f_size_bytes (s_files ex_writer ! 0) \<le> k_ra8_fs_fat_max_file_bytes" "ex_text \<noteq> []" "length ex_text < 2 ^ 32"
proof -
  have w: "world ex_writer = world ex_fs" by (simp add: ex_writer_def)
  have f: "s_files ex_writer ! 0 = fs_file_zero\<lparr>f_mount := Some 0, f_first_cluster := 2, f_size_bytes := 600,
     f_offset := 500, f_mode := k_ra8_fs_mode_write, f_dir_entry_lba := 3, f_in_use := True\<rparr>"
    by (simp add: ex_writer_def ex_fs_def fs_init_def)
  show "fs_inv ram_valid ram_content ex_mount ex_writer"
    using ex_inv by (simp add: fs_inv_def coherent_def vsec_def ex_writer_def)
  show dg: "data_geom ex_mount" by (simp add: data_geom_def ex_mount_def)
  show "open_on ex_writer 0 ex_mount" unfolding open_on_def f by (simp add: ex_writer_def ex_fs_def fs_init_def)
  have "fat_at ram_content ex_mount ex_writer = fat_at ram_content ex_mount ex_fs" by (rule fat_at_world) (simp add: w)
  moreover have pc: "priv_cluster_bytes ex_mount = 512" by (simp add: priv_cluster_bytes_def ex_mount_def)
  ultimately show "file_writable ram_content ex_mount ex_writer (s_files ex_writer ! 0) [2, 3]"
    using ex_chain pc by (simp add: file_writable_def file_view_def f fs_file_zero_def del: chain.simps)
  show "quiet_clock ex_writer" by (simp add: quiet_clock_def ex_writer_def ex_fs_def fs_init_def)
  have "(3 :: u64) \<notin> set (cluster_lbas ex_mount c)" if "in_data ex_mount c" for c
    using cluster_lba_nat(1) [OF dg that] unfolding cluster_lbas_in by (auto simp: ex_mount_def dest!: arg_cong [where f = unat])
  moreover have "3 + m_partition_base_lba ex_mount \<notin> fat_area ex_mount" 
  proof
    assume "3 + m_partition_base_lba ex_mount \<in> fat_area ex_mount"
    then obtain i :: nat where "i < 2" "(3 :: u64) = 1 + of_nat i" by (auto simp: fat_area_def fat_lba_def ex_mount_def)
    moreover from this(1) have "i = 0 \<or> i = 1" by auto
    ultimately show False by auto
  qed
  ultimately show "entry_home ram_content ex_mount ex_writer (s_files ex_writer ! 0) [2, 3]"
    by (simp add: entry_home_def f fs_file_zero_def) (simp add: ex_mount_def)
  show "f_size_bytes (s_files ex_writer ! 0) \<le> k_ra8_fs_fat_max_file_bytes" by (simp add: f)
qed (simp_all add: ex_text_def)

lemma ex_writer_room: "file_on_medium (\<lambda>w. unat (ram_block_count w)) ex_mount ex_writer [2, 3]"
  "\<forall>l \<in> fat_area ex_mount. unat l < unat (ram_block_count (world ex_writer))"
  "unat (f_offset (s_files ex_writer ! 0)) + length ex_text < 2 ^ 32"
  "unat (f_offset (s_files ex_writer ! 0)) + length ex_text \<le> length ([2, 3] :: u32 list) * unat (priv_cluster_bytes ex_mount)"
  "f_mode (s_files ex_writer ! 0) \<noteq> k_ra8_fs_mode_read"
  "unat (f_dir_entry_lba (s_files ex_writer ! 0) + m_partition_base_lba ex_mount) < unat (ram_block_count (world ex_writer))"
proof -
  show "file_on_medium (\<lambda>w. unat (ram_block_count w)) ex_mount ex_writer [2, 3]"
    using ex_open_ok(3) by (simp add: file_on_medium_def ex_writer_def ex_open_def)
  show "\<forall>l \<in> fat_area ex_mount. unat l < unat (ram_block_count (world ex_writer))"
    using ex_on_medium by (simp add: ram.fat_on_medium_def ex_writer_def)
  have f: "s_files ex_writer ! 0 = fs_file_zero\<lparr>f_mount := Some 0, f_first_cluster := 2, f_size_bytes := 600,
     f_offset := 500, f_mode := k_ra8_fs_mode_write, f_dir_entry_lba := 3, f_in_use := True\<rparr>"
    by (simp add: ex_writer_def ex_fs_def fs_init_def)
  show "unat (f_offset (s_files ex_writer ! 0)) + length ex_text < 2 ^ 32" by (simp add: f ex_text_def)
  show "unat (f_offset (s_files ex_writer ! 0)) + length ex_text \<le> length ([2, 3] :: u32 list) * unat (priv_cluster_bytes ex_mount)"
    by (simp add: f ex_text_def priv_cluster_bytes_def ex_mount_def)
  show "f_mode (s_files ex_writer ! 0) \<noteq> k_ra8_fs_mode_read" by (simp add: f)
  show "unat (f_dir_entry_lba (s_files ex_writer ! 0) + m_partition_base_lba ex_mount) < unat (ram_block_count (world ex_writer))"
    by (simp add: f ex_mount_def) (simp add: ex_writer_def ex_fs_def fs_init_def ex_ram_def)
qed

lemma ex_write_runs:
  "\<exists>t. internal_write_locked (Some 0) (Some ex_text) ex_writer = (Inr (), t) \<and> ram_block_count (world t) = 16"
proof -
  have "ram.fat_on_medium ex_mount ex_writer" using ex_writer_room(2) by (simp add: ram.fat_on_medium_def)
  from ram.write_locked_in_place [OF ex_on_backend ex_geom ex_typed ex_open_ok(2) ex_writer_ok(2,1) this ex_writer_room(1)
      ex_writer_ok(3-6,8) ex_writer_room(3-6)] show ?thesis
    by (auto simp: ex_writer_def ex_fs_def fs_init_def ex_ram_def word_unat_eq_iff)
qed

theorem write_correct_witness:
  "\<exists>t. internal_write_locked (Some 0) (Some ex_text) ex_writer = (Inr (), t) \<and> unat (f_size_bytes (s_files t ! 0)) = 800"
proof -
  obtain t where t: "internal_write_locked (Some 0) (Some ex_text) ex_writer = (Inr (), t)"
    using ex_write_runs by blast
  show ?thesis
    using write_correct [OF ram.reliable_device_axioms ex_on_backend ex_geom ex_typed ex_open_ok(2) ex_writer_ok(2,1,3-6,8,9,7) t] t
    by (auto simp: ex_writer_def ex_text_def ex_fs_def fs_init_def)
qed

text \<open>C25. Writing inside the space a file already has always succeeds: when the clusters of the chain, the FAT and the directory
  entry are on the medium, the loop ends after moving every byte and the call returns without an error.\<close>

theorem write_in_place:
  assumes d: "reliable_device b content bs valid nb" and m: "on_backend b bs m" and g: "fat_geom m" and ty: "fat_typed m"
    and cg: "cluster_geom m" and dg: "data_geom m" and inv: "fs_inv valid content m s"
    and on: "\<forall>l \<in> fat_area m. unat l < nb (world s)" and med: "file_on_medium nb m s cs" and op: "open_on s i m"
    and w: "file_writable content m s (s_files s ! i) cs" and q: "quiet_clock s" and home: "entry_home content m s (s_files s ! i) cs"
    and buf: "buf \<noteq> []" "unat (f_offset (s_files s ! i)) + length buf < 2 ^ 32"
    and room: "unat (f_offset (s_files s ! i)) + length buf \<le> length cs * unat (priv_cluster_bytes m)"
    and md: "f_mode (s_files s ! i) \<noteq> k_ra8_fs_mode_read"
    and dir: "unat (f_dir_entry_lba (s_files s ! i) + m_partition_base_lba m) < nb (world s)"
  shows "\<exists>t. internal_write_locked (Some i) (Some buf) s = (Inr (), t)"
proof -
  have "reliable_device.fat_on_medium nb m s" using on by (simp add: reliable_device.fat_on_medium_def [OF d])
  from reliable_device.write_locked_in_place [OF d m g ty cg dg inv this med op w q home buf room md dir] show ?thesis by blast
qed

theorem write_in_place_witness: "\<exists>t. internal_write_locked (Some 0) (Some ex_text) ex_writer = (Inr (), t)"
  by (rule write_in_place [OF ram.reliable_device_axioms ex_on_backend ex_geom ex_typed ex_open_ok(2) ex_writer_ok(2,1) ex_writer_room(2,1)
      ex_writer_ok(3-6,8) ex_writer_room(3-6)])

text \<open>C6. What was written can be read back: after a successful write, seeking to the position where it began and reading as
  many bytes returns the bytes written.\<close>

theorem write_read_roundtrip:
  assumes d: "reliable_device b content bs valid nb" and m: "on_backend b bs m" and g: "fat_geom m" and ty: "fat_typed m"
    and cg: "cluster_geom m" and dg: "data_geom m" and inv: "fs_inv valid content m s" and op: "open_on s i m"
    and w: "file_writable content m s (s_files s ! i) cs" and q: "quiet_clock s" and home: "entry_home content m s (s_files s ! i) cs"
    and buf: "buf \<noteq> []" "length buf < 2 ^ 32" and sz: "f_size_bytes (s_files s ! i) \<le> k_ra8_fs_fat_max_file_bytes"
    and r: "internal_write_locked (Some i) (Some buf) s = (Inr (), t)"
    and on: "\<forall>l \<in> fat_area m. unat l < nb (world t)" and dat: "\<forall>c. in_data m c \<longrightarrow> file_on_medium nb m t [c]"
  shows "\<exists>u. bindE (internal_seek_locked (Some i) (f_offset (s_files s ! i)))
      (\<lambda>_. internal_read_locked (Some i) (of_nat (length buf))) t = (Inr buf, u)"
proof -
  from reliable_device.write_locked_ok [OF d m g ty cg dg inv op w q home buf sz r] obtain ys where
    fd: "file_data content m t (cs @ ys) = splice_at (file_data content m s (cs @ ys)) (unat (f_offset (s_files s ! i))) buf"
    and size: "unat (f_size_bytes (s_files t ! i)) = max (unat (f_size_bytes (s_files s ! i))) (unat (f_offset (s_files s ! i)) + length buf)"
    and fw: "file_writable content m t (s_files t ! i) (cs @ ys)" and it: "fs_inv valid content m t" "open_on t i m" by blast
  have v: "file_view content m t (s_files t ! i) (cs @ ys)" using fw by (simp add: file_writable_def)
  have "\<forall>c \<in> set (cs @ ys). in_data m c"
  proof (cases "cs @ ys = []")
    case False
    then have "chain m (fat_at content m t) (f_first_cluster (s_files t ! i)) (cs @ ys)" using v by (simp add: file_view_def)
    then show ?thesis using chain_data g by (metis inData_iff)
  qed simp
  then have "file_on_medium nb m t (cs @ ys)" using dat by (auto simp: file_on_medium_def file_lbas_def)
  moreover have "reliable_device.fat_on_medium nb m t" using on by (simp add: reliable_device.fat_on_medium_def [OF d])
  moreover have "unat (f_offset (s_files s ! i)) + length buf \<le> length (file_data content m s (cs @ ys))"
    using reliable_device.file_view_length [OF d m cg v, of s] size by simp
  ultimately show ?thesis
    using reliable_device.seek_back_read [OF d m g cg it(1) _ _ it(2) v buf(2) fd] size by simp
qed

theorem write_read_roundtrip_witness:
  "\<exists>t u. internal_write_locked (Some 0) (Some ex_text) ex_writer = (Inr (), t) \<and>
    bindE (internal_seek_locked (Some 0) 500) (\<lambda>_. internal_read_locked (Some 0) 300) t = (Inr ex_text, u)"
proof -
  obtain t where t: "internal_write_locked (Some 0) (Some ex_text) ex_writer = (Inr (), t)" and bc: "ram_block_count (world t) = 16"
    using ex_write_runs by blast
  have on: "\<forall>l \<in> fat_area ex_mount. unat l < unat (ram_block_count (world t))"
    using ex_on_medium bc by (simp add: ram.fat_on_medium_def ex_fs_def fs_init_def ex_ram_def)
  have dat: "\<forall>c. in_data ex_mount c \<longrightarrow> file_on_medium (\<lambda>w. unat (ram_block_count w)) ex_mount t [c]"
    using cluster_lba_nat [OF ex_writer_ok(2)] bc
    by (auto simp: file_on_medium_def file_lbas_def cluster_lbas_in) (auto simp: ex_mount_def)
  show ?thesis
    using write_read_roundtrip [OF ram.reliable_device_axioms ex_on_backend ex_geom ex_typed ex_open_ok(2) ex_writer_ok(2,1,3-6,8,9,7) t on dat] t
    by (auto simp: ex_writer_def ex_text_def ex_fs_def fs_init_def)
qed

end
