(* ===== verification/File_Shrink.thy ===== *)
theory File_Shrink
  imports File_Write Fat_Truncate
begin

text \<open>
  Shrinking a file of a FAT volume, \<open>internal_fat_trunc_shrink\<close> of \<^verbatim>\<open>ra8_fs_fat_truncate.c\<close>: the walk to the new last cluster, the end
  mark stored there and the release of the rest.
\<close>

lemma trunc_clusters_nat:
  fixes n cb :: u32
  assumes "0 < unat cb"
  shows "unat (ucast (internal_trunc_clusters (ucast n) cb) :: u32) = (unat n + unat cb - 1) div unat cb"
proof -
  have nb: "unat (ucast n + ucast cb :: u64) = unat n + unat cb"
    using unat_lt [of n] unat_lt [of cb] by (subst unat_add_small) simp_all
  have "unat (ucast n + ucast cb - 1 :: u64) = unat n + unat cb - 1"
    using nb assms by (subst unat_sub_le) (simp_all add: word_le_nat_alt)
  then have d: "unat (internal_trunc_clusters (ucast n) cb) = (unat n + unat cb - 1) div unat cb"
    by (simp add: internal_trunc_clusters_def unat_div)
  have "(unat n + unat cb - 1) div unat cb < 2 ^ 32"
  proof -
    have "(unat n + unat cb - 1) div unat cb \<le> unat n"
    proof (cases "unat n = 0")
      case True then show ?thesis using assms by simp
    next
      case False
      have "unat n + unat cb - 1 < (unat n + 1) * unat cb" using assms False by (cases "unat cb") (simp_all add: algebra_simps)
      then show ?thesis using assms by (simp add: less_mult_imp_div_less less_Suc_eq_le [symmetric])
    qed
    then show ?thesis using unat_lt [of n] by simp
  qed
  then show ?thesis using d by (simp add: unat_ucast_small)
qed

lemma chain_link:
  assumes ch: "chain m tab c cs" and j: "j < length cs"
  shows "if Suc j < length cs then tab (cs ! j) = cs ! Suc j \<and> \<not> priv_is_eoc m (tab (cs ! j)) \<and> chain m tab (cs ! Suc j) (drop (Suc j) cs)
    else priv_is_eoc m (tab (cs ! j))"
proof -
  have d: "chain m tab (cs ! j) (drop j cs)" by (rule chain_drop [OF ch j])
  show ?thesis
  proof (cases "Suc j < length cs")
    case True
    then have "drop j cs = cs ! j # cs ! Suc j # drop (Suc (Suc j)) cs" using j by (simp add: Cons_nth_drop_Suc)
    then show ?thesis using d True chain_drop [OF ch True] by (auto dest: chain_ConsD)
  next
    case False
    then have "drop j cs = [cs ! j]" using j by (metis Cons_nth_drop_Suc drop_all not_less)
    then show ?thesis using d False by simp
  qed
qed

context reliable_device
begin

lemma skip_trunc: "skip_loop m n c s = (Inr d, t) \<Longrightarrow> trunc_walk_loop m n c s = (Inr d, t)"
proof (induction n arbitrary: c s)
  case (Suc n)
  then obtain v u where v: "priv_fat_get m c s = (Inr v, u)" and r: "(if priv_is_eoc m v then throwE k_ra8_err_invalid_state else skip_loop m n v) u = (Inr d, t)"
    unfolding skip_loop.simps by (elim bindE_InrE)
  then have "\<not> priv_is_eoc m v" "skip_loop m n v u = (Inr d, t)" by (auto simp: throwE_def split: if_splits)
  with Suc.IH v show ?case by (simp add: bindE_run)
qed simp

text \<open>Releasing a well-formed chain.\<close>

lemma free_chain_total:
  assumes m: "on_backend b bs m" and g: "fat_geom m" and inv: "fs_inv valid content m s" and on: "fat_on_medium m s"
    and ch: "chain m (fat_at content m s) c xs"
  shows "\<exists>t. priv_free_chain m c s = (Inr (), t) \<and> fs_inv valid content m t \<and> meta_only content m s t \<and>
    (\<forall>d. in_fat m d \<longrightarrow> fat_at content m t d = (if d \<in> set xs then 0 else fat_at content m s d))"
proof -
  have w: "free_walk m (unat (m_count_of_clusters m)) (fat_at content m s) c = (xs, True)"
    by (rule free_walk_chain [OF ch]) (use chain_length [OF g ch] in simp)
  then obtain t where t: "free_chain_loop m (unat (m_count_of_clusters m)) c s = (Inr (), t)"
    using free_chain_loop_ok [OF m g inv on] by (metis snd_conv)
  with free_chain_loop [OF m g inv t] w show ?thesis by (auto simp: priv_free_chain_def)
qed

lemma trunc_cut_ok:
  assumes m: "on_backend b bs m" and g: "fat_geom m" and ty: "fat_typed m" and inv: "fs_inv valid content m s" and on: "fat_on_medium m s"
    and ch: "chain m (fat_at content m s) c cs" and k: "j < length cs"
  shows "\<exists>u. bindE (trunc_walk_loop m j c) (\<lambda>new_tail. bindE (priv_fat_get m new_tail) (\<lambda>succ.
      whenE (\<not> priv_is_eoc m succ) (bindE (priv_fat_set m new_tail (priv_eoc_write m)) (\<lambda>_. priv_free_chain m succ)))) s = (Inr (), u) \<and>
    fs_inv valid content m u \<and> meta_only content m s u \<and> chain m (fat_at content m u) c (take (Suc j) cs) \<and>
    (\<forall>d. in_fat m d \<longrightarrow> d \<notin> set (take (Suc j) cs) \<longrightarrow> fat_at content m u d = (if d \<in> set (drop (Suc j) cs) then 0 else fat_at content m s d))"
proof -
  let ?tab = "fat_at content m s" and ?tl = "cs ! j"
  from skip_ok [OF m g inv on ch, of j] k obtain u0 where
    u0: "skip_loop m j c s = (Inr ?tl, u0)" "fs_inv valid content m u0" "content (world u0) = content (world s)"
      "fat_frame s u0" "nblocks (world u0) = nblocks (world s)" by auto
  have tlc: "?tl \<in> set cs" using k by simp
  then have tf: "in_fat m ?tl" using chain_data [OF ch] g by (simp add: inData_iff in_data_in_fat)
  have on0: "fat_on_medium m u0" using on u0(5) by (simp add: fat_on_medium_def)
  have fa0: "fat_at content m u0 = ?tab" by (rule fat_at_world) (rule u0(3))
  from fat_get_ok [OF m g tf u0(2) on0] obtain u1 where
    u1: "priv_fat_get m ?tl u0 = (Inr (?tab ?tl), u1)" "nblocks (world u1) = nblocks (world u0)" by (auto simp: fa0)
  note fg = fat_get [OF m u0(2) u1(1)]
  have fa1: "fat_at content m u1 = ?tab" using fa0 fat_at_world [of content u1 u0 m] fg by simp
  have mo: "meta_only content m s u1" using u0 fg by (auto simp: meta_only_def fat_frame_def)
  note lk = chain_link [OF ch, of j]
  show ?thesis
  proof (cases "Suc j < length cs")
    case False
    then have e: "priv_is_eoc m (?tab ?tl)" "Suc j = length cs" using lk k by auto
    then show ?thesis using u0(1) u1(1) fg mo ch fa1 k
      by (intro exI [of _ u1]) (simp add: bindE_run skip_trunc)
  next
    case True
    then have ne: "?tab ?tl = cs ! Suc j" "\<not> priv_is_eoc m (cs ! Suc j)" "chain m ?tab (cs ! Suc j) (drop (Suc j) cs)" using lk k by auto
    have on1: "fat_on_medium m u1" using on0 u1(2) by (simp add: fat_on_medium_def)
    from fat_set_ok [OF m g tf conjunct1 [OF fg] on1] obtain u2 where
      u2: "priv_fat_set m ?tl (priv_eoc_write m) u1 = (Inr (), u2)" "nblocks (world u2) = nblocks (world u1)" by blast
    note fs = fat_set [OF m g tf conjunct1 [OF fg] u2(1), simplified]
    have dst: "?tl \<notin> set (take j cs)" "?tl \<notin> set (drop (Suc j) cs)" "set (take (Suc j) cs) \<inter> set (drop (Suc j) cs) = {}"
      using chain_distinct [OF ch] k True by (auto simp: set_take_disj_set_drop_if_distinct nth_eq_iff_index_eq in_set_conv_nth)
    have inf: "in_fat m d" if "d \<in> set cs" for d using chain_data [OF ch that] g by (simp add: inData_iff in_data_in_fat)
    have "chain m (fat_at content m u2) (cs ! Suc j) (drop (Suc j) cs)"
      by (rule chain_cong [OF ne(3)]) (metis dst(2) fa1 fs(5) in_set_dropD inf)
    moreover have "fat_on_medium m u2" using on1 u2(2) by (simp add: fat_on_medium_def)
    ultimately obtain u3 where u3: "priv_free_chain m (cs ! Suc j) u2 = (Inr (), u3)" "fs_inv valid content m u3" "meta_only content m u2 u3"
        "\<forall>d. in_fat m d \<longrightarrow> fat_at content m u3 d = (if d \<in> set (drop (Suc j) cs) then 0 else fat_at content m u2 d)"
      using free_chain_total [OF m g fs(2)] by blast
    have mo3: "meta_only content m s u3" using mo fat_only_meta [OF fs(1)] u3(3) by (meson meta_only_trans)
    have tl3: "priv_is_eoc m (fat_at content m u3 ?tl)" using u3(4) tf dst(2) fs(4) eoc_write_is_eoc [of m] by simp
    have same: "fat_at content m u3 d = (if d \<in> set (drop (Suc j) cs) then 0 else ?tab d)" if "in_fat m d" "d \<noteq> ?tl" for d
      using u3(4) fs(5) [OF that] that fa1 by simp
    have tk: "take (Suc j) cs = take j cs @ [?tl]" using k by (rule take_Suc_conv_app_nth)
    have "chain m (fat_at content m u3) c (take j cs @ [?tl])"
    proof (rule chain_glue [where tab = ?tab and xs = "drop (Suc j) cs"])
      show "chain m ?tab c (take j cs @ ?tl # drop (Suc j) cs)" using ch id_take_nth_drop [OF k] by simp
      show "\<forall>d \<in> set (take j cs). fat_at content m u3 d = ?tab d"
      proof
        fix d assume d: "d \<in> set (take j cs)"
        then have "in_fat m d" "d \<noteq> ?tl" "d \<notin> set (drop (Suc j) cs)" using inf in_set_takeD [OF d] dst unfolding tk by auto
        then show "fat_at content m u3 d = ?tab d" using same by simp
      qed
      show "chain m (fat_at content m u3) ?tl [?tl]" using tl3 chain_data [OF ch tlc] by simp
    qed
    moreover have "bindE (trunc_walk_loop m j c) (\<lambda>new_tail. bindE (priv_fat_get m new_tail) (\<lambda>succ.
      whenE (\<not> priv_is_eoc m succ) (bindE (priv_fat_set m new_tail (priv_eoc_write m)) (\<lambda>_. priv_free_chain m succ)))) s = (Inr (), u3)"
      using u0(1) u1(1) u2(1) u3(1) ne by (simp add: bindE_run skip_trunc)
    moreover have "d \<noteq> ?tl" if "d \<notin> set (take (Suc j) cs)" for d using that unfolding tk by auto
    ultimately show ?thesis using u3(2) mo3 same unfolding tk by (intro exI [of _ u3]) simp
  qed
qed


lemma shrink_ok:
  assumes m: "on_backend b bs m" and g: "fat_geom m" and ty: "fat_typed m" and cg: "cluster_geom m" and inv: "fs_inv valid content m s"
    and on: "fat_on_medium m s" and op: "open_on s i m" and v: "file_view content m s (s_files s ! i) cs"
    and sm: "ucast new < f_size_bytes (s_files s ! i)"
  defines "cb \<equiv> unat (m_sectors_per_cluster m) * bs" and "f \<equiv> s_files s ! i"
  defines "k \<equiv> (unat new + cb - 1) div cb"
  shows "\<exists>t f'. internal_fat_trunc_shrink i new (priv_cluster_bytes m) s = (Inr (), t) \<and> fs_inv valid content m t \<and> s_mounts t = s_mounts s \<and>
    s_files t = (s_files s)[i := f'] \<and> f' = f\<lparr>f_first_cluster := (if k = 0 then 0 else f_first_cluster f), f_size_bytes := ucast new\<rparr> \<and>
    (0 < k \<longrightarrow> chain m (fat_at content m t) (f_first_cluster f) (take k cs)) \<and> unat new \<le> length (take k cs) * cb \<and>
    (\<forall>l. l \<notin> fat_area m \<longrightarrow> content (world t) l = content (world s) l) \<and>
    (\<forall>c. in_fat m c \<longrightarrow> c \<notin> set (take k cs) \<longrightarrow> fat_at content m t c = (if c \<in> set (drop k cs) then 0 else fat_at content m s c))"
proof -
  have cbw: "unat (priv_cluster_bytes m) = cb" "0 < cb" unfolding cb_def by (rule offset_split(1,2) [OF m cg, of 0]; simp)+
  have i: "i < length (s_files s)" using op by (simp add: open_on_def)
  have new: "unat new < unat (f_size_bytes f)" using sm by (simp add: f_def word_less_nat_alt)
  have sz: "unat (f_size_bytes f) \<le> length cs * cb" using v cbw by (simp add: file_view_def f_def)
  then have "cs \<noteq> []" using new by auto
  then have ch: "chain m (fat_at content m s) (f_first_cluster f) cs" using v by (simp add: file_view_def f_def)
  have first: "f_first_cluster f \<ge> k_cluster_first_data" using ch \<open>cs \<noteq> []\<close> by (cases cs) (auto dest!: chain_ConsD simp: inData_def)
  define kw where "kw = (ucast (internal_trunc_clusters (ucast new) (priv_cluster_bytes m)) :: u32)"
  have kw: "unat kw = k" unfolding kw_def k_def using trunc_clusters_nat [of "priv_cluster_bytes m" new] cbw by simp
  have kl: "k \<le> length cs"
  proof -
    have "unat new + cb - 1 < (length cs + 1) * cb" using new sz cbw(2) by simp
    then show ?thesis using cbw(2) unfolding k_def by (simp add: less_mult_imp_div_less less_Suc_eq_le [symmetric])
  qed
  have cover: "unat new \<le> length (take k cs) * cb"
  proof -
    have "unat new + cb - 1 < Suc k * cb" unfolding k_def using cbw(2) by (simp add: dividend_less_div_times)
    then show ?thesis using kl by simp
  qed
  show ?thesis
  proof (cases "k = 0")
    case True
    from free_chain_total [OF m g inv on ch] obtain u where
      u: "priv_free_chain m (f_first_cluster f) s = (Inr (), u)" "fs_inv valid content m u" "meta_only content m s u"
        "\<forall>d. in_fat m d \<longrightarrow> fat_at content m u d = (if d \<in> set cs then 0 else fat_at content m s d)" by blast
    define t where "t = u\<lparr>s_files := (s_files u)[i := (s_files u ! i)\<lparr>f_first_cluster := 0, f_size_bytes := ucast new\<rparr>]\<rparr>"
    have z: "kw = 0" using kw True by (simp add: unat_eq_0)
    have "internal_fat_trunc_shrink i new (priv_cluster_bytes m) s = (Inr (), t)"
      using u(1) first z i unfolding internal_fat_trunc_shrink_def Let_def kw_def [symmetric]
      by (simp add: bindE_run file_mount_run [OF op] fileE_def getE_def f_def [symmetric] set_file_def modifyE_def t_def)
    moreover have "fs_inv valid content m t" using u(2) by (simp add: t_def fs_inv_def coherent_def vsec_def)
    moreover have "fat_at content m t = fat_at content m u" by (rule fat_at_world) (simp add: t_def)
    ultimately show ?thesis using u(3,4) cover True
      by (intro exI [of _ t] exI [of _ "f\<lparr>f_first_cluster := 0, f_size_bytes := ucast new\<rparr>"]) (simp add: meta_only_def t_def f_def)
  next
    case False
    then have j: "k - 1 < length cs" "Suc (k - 1) = k" using kl by auto
    from trunc_cut_ok [OF m g ty inv on ch j(1), unfolded j(2)] obtain u where
      u: "bindE (trunc_walk_loop m (k - 1) (f_first_cluster f)) (\<lambda>new_tail. bindE (priv_fat_get m new_tail) (\<lambda>succ.
        whenE (\<not> priv_is_eoc m succ) (bindE (priv_fat_set m new_tail (priv_eoc_write m)) (\<lambda>_. priv_free_chain m succ)))) s = (Inr (), u)"
        "fs_inv valid content m u" "meta_only content m s u" "chain m (fat_at content m u) (f_first_cluster f) (take k cs)"
        "\<forall>d. in_fat m d \<longrightarrow> d \<notin> set (take k cs) \<longrightarrow> fat_at content m u d = (if d \<in> set (drop k cs) then 0 else fat_at content m s d)" by blast
    define t where "t = u\<lparr>s_files := (s_files u)[i := (s_files u ! i)\<lparr>f_size_bytes := ucast new\<rparr>]\<rparr>"
    have z: "kw \<noteq> 0" using kw False by auto
    then have n: "unat (kw - 1) = k - 1" using kw False by (subst unat_sub_le) (simp_all add: word_le_nat_alt)
    have "internal_fat_trunc_shrink i new (priv_cluster_bytes m) s = (Inr (), t)"
      using u(1) z i unfolding internal_fat_trunc_shrink_def Let_def kw_def [symmetric] internal_trunc_walk_def
      by (auto simp: bindE_run file_mount_run [OF op] fileE_def getE_def f_def [symmetric] set_file_def modifyE_def t_def n elim!: bindE_InrE)
    moreover have "fs_inv valid content m t" using u(2) by (simp add: t_def fs_inv_def coherent_def vsec_def)
    moreover have "fat_at content m t = fat_at content m u" by (rule fat_at_world) (simp add: t_def)
    ultimately show ?thesis using u(3-5) cover False
      by (intro exI [of _ t] exI [of _ "f\<lparr>f_first_cluster := f_first_cluster f, f_size_bytes := ucast new\<rparr>"]) (simp add: meta_only_def t_def f_def)
  qed
qed

end


section \<open>Shrinking\<close>

text \<open>C31. Shrinking a file of a FAT volume succeeds: the chain keeps exactly the clusters the new size needs and ends behind them, the
  clusters cut off are free, no other entry of the FAT changes, and the bytes that remain are the first bytes of the file.\<close>

theorem truncate_shrink:
  assumes d: "reliable_device b content bs valid nb" and m: "on_backend b bs m" and g: "fat_geom m" and ty: "fat_typed m"
    and cg: "cluster_geom m" and dg: "data_geom m" and inv: "fs_inv valid content m s" and on: "\<forall>l \<in> fat_area m. unat l < nb (world s)"
    and op: "open_on s i m" and v: "file_view content m s (s_files s ! i) cs" and sm: "ucast new < f_size_bytes (s_files s ! i)"
  defines "cb \<equiv> unat (m_sectors_per_cluster m) * bs"
  defines "k \<equiv> (unat new + cb - 1) div cb"
  shows "\<exists>t. internal_fat_trunc_shrink i new (priv_cluster_bytes m) s = (Inr (), t) \<and> fs_inv valid content m t \<and>
    f_size_bytes (s_files t ! i) = ucast new \<and> unat new \<le> k * cb \<and>
    (if k = 0 then f_first_cluster (s_files t ! i) = 0 else chain m (fat_at content m t) (f_first_cluster (s_files t ! i)) (take k cs)) \<and>
    (\<forall>c \<in> set (drop k cs). fat_at content m t c = k_cluster_free) \<and>
    (\<forall>c. in_fat m c \<longrightarrow> c \<notin> set cs \<longrightarrow> fat_at content m t c = fat_at content m s c) \<and>
    take (unat new) (file_data content m t (take k cs)) = take (unat new) (file_data content m s cs)"
proof -
  have i: "i < length (s_files s)" using op by (simp add: open_on_def)
  have "reliable_device.fat_on_medium nb m s" using on by (simp add: reliable_device.fat_on_medium_def [OF d])
  from reliable_device.shrink_ok [OF d m g ty cg inv this op v sm, folded cb_def, folded k_def] obtain t f' where
    t: "internal_fat_trunc_shrink i new (priv_cluster_bytes m) s = (Inr (), t)" "fs_inv valid content m t" "s_files t = (s_files s)[i := f']"
      "f' = (s_files s ! i)\<lparr>f_first_cluster := (if k = 0 then 0 else f_first_cluster (s_files s ! i)), f_size_bytes := ucast new\<rparr>"
      "0 < k \<longrightarrow> chain m (fat_at content m t) (f_first_cluster (s_files s ! i)) (take k cs)" "unat new \<le> length (take k cs) * cb"
      "\<forall>l. l \<notin> fat_area m \<longrightarrow> content (world t) l = content (world s) l"
      "\<forall>c. in_fat m c \<longrightarrow> c \<notin> set (take k cs) \<longrightarrow> fat_at content m t c = (if c \<in> set (drop k cs) then 0 else fat_at content m s c)" by blast
  have "cs \<noteq> []" using sm v by (auto simp: file_view_def word_less_nat_alt)
  then have ch: "chain m (fat_at content m s) (f_first_cluster (s_files s ! i)) cs" using v by (simp add: file_view_def)
  have dat: "in_data m c" if "c \<in> set cs" for c using chain_data [OF ch that] g by (simp add: inData_iff)
  have "file_data content m t (take k cs) = file_data content m s (take k cs)"
    by (rule reliable_device.file_data_not_fat [OF d dg _ t(7)]) (use dat in \<open>auto dest: in_set_takeD\<close>)
  moreover have "length (file_data content m s (take k cs)) = length (take k cs) * cb"
    by (simp add: reliable_device.file_data_length [OF d] file_lbas_length cb_def)
  moreover have "file_data content m s cs = file_data content m s (take k cs) @ file_data content m s (drop k cs)"
    using reliable_device.file_data_append [OF d, of m s "take k cs" "drop k cs"] by simp
  ultimately have bytes: "take (unat new) (file_data content m t (take k cs)) = take (unat new) (file_data content m s cs)"
    using t(6) by simp
  have free: "fat_at content m t c = 0" if c: "c \<in> set (drop k cs)" for c
  proof -
    have "c \<notin> set (take k cs)" using c set_take_disj_set_drop_if_distinct [OF chain_distinct [OF ch], of k k] by blast
    then show ?thesis using t(8) c in_data_in_fat [OF dat [OF in_set_dropD [OF c]]] by simp
  qed
  have other: "fat_at content m t c = fat_at content m s c" if "in_fat m c" "c \<notin> set cs" for c
  proof -
    have "c \<notin> set (take k cs)" "c \<notin> set (drop k cs)" using that(2) by (auto dest: in_set_takeD in_set_dropD)
    then show ?thesis using t(8) that(1) by simp
  qed
  have "unat new \<le> k * cb" by (rule order_trans [OF t(6) mult_le_mono1]) simp
  then show ?thesis using t(1-5) i bytes free other by (intro exI [of _ t]) simp
qed

theorem truncate_shrink_witness:
  "\<exists>t. internal_fat_trunc_shrink 0 100 (priv_cluster_bytes ex_mount) ex_open = (Inr (), t) \<and> fat_at ram_content ex_mount t 3 = 0"
proof -
  have on: "\<forall>l \<in> fat_area ex_mount. unat l < unat (ram_block_count (world ex_open))"
    using ex_on_medium by (simp add: ram.fat_on_medium_def ex_open_def)
  have "ucast (100 :: u32) < f_size_bytes (s_files ex_open ! 0)" by (simp add: ex_open_def ex_fs_def fs_init_def)
  note tr = truncate_shrink [OF ram.reliable_device_axioms ex_on_backend ex_geom ex_typed ex_open_ok(2) ex_writer_ok(2) ex_open_ok(1) on ex_open_ok(4,5) this]
  have "unat (m_sectors_per_cluster ex_mount) = 1" by (simp add: ex_mount_def)
  then have k: "(unat (100 :: u32) + unat (m_sectors_per_cluster ex_mount) * 512 - 1) div (unat (m_sectors_per_cluster ex_mount) * 512) = 1" by simp
  show ?thesis using tr unfolding k by auto
qed

end
