(* ===== verification/Exfat_Bitmap.thy ===== *)
theory Exfat_Bitmap
  imports Exfat_Dir Ram_Volume
begin

text \<open>
  The cluster allocator of an exFAT volume, \<open>priv_exfat_bitmap_scan\<close>, \<open>priv_exfat_bitmap_mark\<close> and \<open>priv_exfat_bitmap_clear\<close> of
  \<^verbatim>\<open>ra8_fs_fat_exfat_write.c\<close> and \<^verbatim>\<open>ra8_fs_fat_exfat_mutate.c\<close>, against the bitmap as a set of bits: the search returns the first run of free clusters, marking and
  clearing change exactly the bits of the run. The two writing loops are instances of one contract, the locale
  \<open>bitmap_writer\<close>.
\<close>

section \<open>Bits on the medium\<close>

text \<open>Where a bit is, over natural numbers, and that different bits are at different places.\<close>

definition bmp_lba :: "'w mount \<Rightarrow> u64 \<Rightarrow> nat \<Rightarrow> u64" where
  "bmp_lba m base idx = base + of_nat (idx div 8 div unat (priv_bps m))"

lemma bitmap_at_nat:
  assumes "idx < 2 ^ 32"
  shows "bitmap_at m base (of_nat idx) = (bmp_lba m base idx, idx div 8 mod unat (priv_bps m), idx mod 8)"
proof -
  have u: "unat (of_nat idx :: u32) = idx" using assms by (simp add: unat_of_nat_small)
  have d: "unat (drop_bit 3 (of_nat idx :: u32)) = idx div 8" by (simp add: drop_bit_eq_div unat_div u)
  have a: "unat (of_nat idx AND 7 :: u32) = idx mod 8"
  proof -
    have "(of_nat idx AND 7 :: u32) = of_nat idx mod 8" using take_bit_eq_mask [of 3 "of_nat idx :: u32"]
      by (simp add: take_bit_eq_mod mask_eq_exp_minus_1)
    then show ?thesis by (simp add: unat_mod u)
  qed
  have "ucast (drop_bit 3 (of_nat idx :: u32) div priv_bps m) = (of_nat (idx div 8 div unat (priv_bps m)) :: u64)"
    by (metis d of_nat_unat ucast_id unat_div unat_ucast64)
  then show ?thesis by (simp add: bitmap_at_def bmp_lba_def a unat_mod d)
qed

lemma cluster_idx: "k_cluster_first_data \<le> clus \<Longrightarrow> (clus - k_cluster_first_data) + of_nat k = of_nat (unat clus - 2 + k)" for clus :: u32
proof -
  assume "k_cluster_first_data \<le> clus"
  then have "unat (clus - k_cluster_first_data) = unat clus - 2" by (subst unat_sub_le) simp_all
  then show ?thesis unfolding of_nat_add by (metis of_nat_unat ucast_id)
qed

lemma bmp_place_inj:
  assumes "i < 2 ^ 32" "j < 2 ^ 32" "bmp_lba m base i = bmp_lba m base j"
    "i div 8 mod unat (priv_bps m) = j div 8 mod unat (priv_bps m)" "i mod 8 = j mod 8"
  shows "i = j"
proof -
  let ?n = "unat (priv_bps m)"
  have s: "k div 8 div ?n < 2 ^ 64" if "k < 2 ^ 32" for k
    using that order_trans [OF div_le_dividend div_le_dividend, of k 8 ?n] by simp
  have "(of_nat (i div 8 div ?n) :: u64) = of_nat (j div 8 div ?n)" using assms(3) by (simp add: bmp_lba_def)
  from arg_cong [OF this, of unat] have "i div 8 div ?n = j div 8 div ?n" using s [OF assms(1)] s [OF assms(2)] by (simp add: unat_of_nat_small)
  then have "i div 8 = j div 8" using assms(4) by (metis div_mult_mod_eq)
  then show ?thesis using assms(5) by (metis div_mult_mod_eq)
qed

lemma bit_test: "n < 8 \<Longrightarrow> drop_bit n (ucast (b :: u8) :: u32) AND 1 \<noteq> 0 \<longleftrightarrow> bit b n"
  by (simp add: and_one_eq odd_iff_mod_2_eq_one [symmetric] bit_iff_odd_drop_bit [symmetric] bit_simps)


definition bmp_bit :: "('w \<Rightarrow> u64 \<Rightarrow> bytes) \<Rightarrow> 'w mount \<Rightarrow> 'w fs \<Rightarrow> u64 \<Rightarrow> nat \<Rightarrow> bool" where
  "bmp_bit content m s base idx = bit (vsec content m s (bmp_lba m base idx) ! (idx div 8 mod unat (priv_bps m))) (idx mod 8)"

section \<open>Searching\<close>

definition free_run :: "(nat \<Rightarrow> bool) \<Rightarrow> nat \<Rightarrow> nat \<Rightarrow> bool" where
  "free_run used k n \<longleftrightarrow> (\<forall>j<n. \<not> used (k + j))"

definition first_run :: "(nat \<Rightarrow> bool) \<Rightarrow> nat \<Rightarrow> nat \<Rightarrow> nat \<Rightarrow> nat \<Rightarrow> bool" where
  "first_run used lo hi n k \<longleftrightarrow> lo \<le> k \<and> k + n \<le> hi \<and> free_run used k n \<and> (\<forall>k'. lo \<le> k' \<and> k' < k \<longrightarrow> \<not> free_run used k' n)"

lemma free_run_Suc: "free_run used k (Suc n) \<longleftrightarrow> free_run used k n \<and> \<not> used (k + n)"
  by (auto simp: free_run_def less_Suc_eq)

lemma run_blocked: "used a \<Longrightarrow> k \<le> a \<Longrightarrow> a < k + n \<Longrightarrow> \<not> free_run used k n"
  unfolding free_run_def by (metis add_diff_inverse_nat nat_add_left_cancel_less not_less)

text \<open>A used bit restarts the search behind it.\<close>

lemma first_run_skip:
  assumes "used a" "r < n" "r \<le> a"
  shows "first_run used (Suc a) hi n k \<Longrightarrow> first_run used (a - r) hi n k"
    and "\<forall>k. Suc a \<le> k \<and> k + n \<le> hi \<longrightarrow> \<not> free_run used k n \<Longrightarrow> \<forall>k. a - r \<le> k \<and> k + n \<le> hi \<longrightarrow> \<not> free_run used k n"
proof -
  have *: "\<not> free_run used k n" if "a - r \<le> k" "k \<le> a" for k
    by (rule run_blocked [where a = a]) (use assms that in linarith)+
  show "first_run used (Suc a) hi n k \<Longrightarrow> first_run used (a - r) hi n k"
    unfolding first_run_def using * by (metis Suc_le_lessD diff_le_self not_less_eq_eq order.strict_implies_order order_trans)
  show "\<forall>k. Suc a \<le> k \<and> k + n \<le> hi \<longrightarrow> \<not> free_run used k n \<Longrightarrow> \<forall>k. a - r \<le> k \<and> k + n \<le> hi \<longrightarrow> \<not> free_run used k n"
    using * by (metis not_less_eq_eq)
qed

text \<open>What a search for \<open>n\<close> free clusters in a row between \<open>lo\<close> and \<open>hi\<close> returns: the first run, or that there is none.\<close>

definition scan_result :: "(nat \<Rightarrow> bool) \<Rightarrow> nat \<Rightarrow> nat \<Rightarrow> nat \<Rightarrow> ra8_err + u32 \<Rightarrow> bool" where
  "scan_result used lo hi n r \<longleftrightarrow> (case r of
     Inr c \<Rightarrow> \<exists>k. c = of_nat k + k_cluster_first_data \<and> first_run used lo hi n k
   | Inl e \<Rightarrow> e = k_ra8_err_no_mem \<and> (\<forall>k. lo \<le> k \<and> k + n \<le> hi \<longrightarrow> \<not> free_run used k n))"

lemma scan_result_skip: "used a \<Longrightarrow> r < n \<Longrightarrow> r \<le> a \<Longrightarrow> scan_result used (Suc a) hi n x \<Longrightarrow> scan_result used (a - r) hi n x"
  using first_run_skip [of used a r n hi] by (auto simp: scan_result_def split: sum.splits)

context reliable_device
begin

lemma fetch_sector:
  assumes m: "on_backend b bs m" and v: "valid (world s)" and l: "unat (lba + m_partition_base_lba m) < nblocks (world s)"
    and ld: "\<And>l sec. loaded = Some (l, sec) \<Longrightarrow> sec = vsec content m s l"
  shows "\<exists>t. (case loaded of Some (l, sec) \<Rightarrow> if lba \<noteq> l then priv_read_sector m lba else returnE sec
        | None \<Rightarrow> priv_read_sector m lba) s = (Inr (vsec content m s lba), t) \<and> valid (world t) \<and>
      content (world t) = content (world s) \<and> nblocks (world t) = nblocks (world s) \<and> t = s\<lparr>world := world t\<rparr>"
proof -
  from read_sector_ok [OF m v l] obtain sec t where t: "priv_read_sector m lba s = (Inr sec, t)" "nblocks (world t) = nblocks (world s)" by blast
  note rs = read_sector [OF m v t(1)]
  then have "sec = vsec content m s lba" by auto
  then have rd: "\<exists>t. priv_read_sector m lba s = (Inr (vsec content m s lba), t) \<and> valid (world t) \<and>
      content (world t) = content (world s) \<and> nblocks (world t) = nblocks (world s) \<and> t = s\<lparr>world := world t\<rparr>"
    using t rs(1-3) by blast
  show ?thesis
  proof (cases "\<exists>sec. loaded = Some (lba, sec)")
    case True
    then show ?thesis using ld v by (intro exI [of _ s]) auto
  next
    case False
    then show ?thesis using rd by (cases loaded) (auto split: prod.split)
  qed
qed


lemma bmp_bit_world: "content (world t) = content (world s) \<Longrightarrow> bmp_bit content m t = bmp_bit content m s"
  by (simp add: bmp_bit_def vsec_def fun_eq_iff)

lemma window_ok:
  assumes m: "on_backend b bs m" and hi: "hi < 2 ^ 32"
  shows "valid (world s) \<Longrightarrow> \<forall>idx < hi. unat (bmp_lba m base idx + m_partition_base_lba m) < nblocks (world s) \<Longrightarrow>
    (\<And>l sec. loaded = Some (l, sec) \<Longrightarrow> sec = vsec content m s l) \<Longrightarrow> unat run < unat need \<Longrightarrow> unat run \<le> a \<Longrightarrow> a \<le> hi \<Longrightarrow>
    (0 < unat run \<longrightarrow> start = of_nat (a - unat run)) \<Longrightarrow> free_run (bmp_bit content m s base) (a - unat run) (unat run) \<Longrightarrow>
    \<exists>r t. bitmap_window_loop m base need [a..<hi] run start loaded s = (r, t) \<and>
      scan_result (bmp_bit content m s base) (a - unat run) hi (unat need) r \<and> valid (world t) \<and> content (world t) = content (world s) \<and>
      nblocks (world t) = nblocks (world s) \<and> t = s\<lparr>world := world t\<rparr>"
proof (induction "hi - a" arbitrary: a s loaded run start)
  case 0
  then have "a = hi" by simp
  moreover have "\<not> free_run (bmp_bit content m s base) k (unat need)" if "hi - unat run \<le> k" "k + unat need \<le> hi" for k
    using that 0(5) by linarith
  ultimately show ?case using 0(2) by (auto simp: throwE_def scan_result_def)
next
  case (Suc d)
  let ?used = "bmp_bit content m s base"
  have a: "a < hi" "[a..<hi] = a # [Suc a..<hi]" using Suc.hyps(2) by (simp_all add: upt_conv_Cons)
  have at: "bitmap_at m base (of_nat a) = (bmp_lba m base a, a div 8 mod unat (priv_bps m), a mod 8)"
    by (rule bitmap_at_nat) (use a hi in linarith)
  from Suc.prems(2) a(1) have "unat (bmp_lba m base a + m_partition_base_lba m) < nblocks (world s)" by blast
  from fetch_sector [OF m Suc.prems(1) this, of loaded] Suc.prems(3) obtain u where
    u: "(case loaded of Some (l, sec) \<Rightarrow> if bmp_lba m base a \<noteq> l then priv_read_sector m (bmp_lba m base a) else returnE sec
        | None \<Rightarrow> priv_read_sector m (bmp_lba m base a)) s = (Inr (vsec content m s (bmp_lba m base a)), u)"
      "valid (world u)" "content (world u) = content (world s)" "nblocks (world u) = nblocks (world s)" "u = s\<lparr>world := world u\<rparr>" by blast
  have tst: "drop_bit (a mod 8) (ucast (vsec content m s (bmp_lba m base a) ! (a div 8 mod unat (priv_bps m))) :: u32) AND 1 \<noteq> 0 \<longleftrightarrow> ?used a"
    unfolding bmp_bit_def by (rule bit_test) simp
  note same = bmp_bit_world [OF u(3)]
  define ld where "ld = Some (bmp_lba m base a, vsec content m s (bmp_lba m base a))"
  have ld: "sec = vsec content m u l" if "ld = Some (l, sec)" for l sec using that u(3) by (auto simp: ld_def vsec_def)
  have nb: "\<forall>idx < hi. unat (bmp_lba m base idx + m_partition_base_lba m) < nblocks (world u)" using Suc.prems(2) u(4) by simp
  have d: "d = hi - Suc a" using Suc.hyps(2) by simp
  show ?case
  proof (cases "?used a")
    case True
    from Suc.hyps(1) [where run = 0 and start = start and loaded = ld, OF d u(2) nb ld] Suc.prems(4) a(1) obtain r t where
      t: "bitmap_window_loop m base need [Suc a..<hi] 0 start ld u = (r, t)" "scan_result ?used (Suc a) hi (unat need) r"
        "valid (world t)" "content (world t) = content (world u)" "nblocks (world t) = nblocks (world u)" "t = u\<lparr>world := world t\<rparr>"
      by (auto simp: same free_run_def)
    have "bitmap_window_loop m base need [a..<hi] run start loaded s = (r, t)"
      using u(1) t(1) tst True by (simp add: a(2) at bindE_run ld_def)
    moreover have "t = s\<lparr>world := world t\<rparr>" using t(6) u(5) by (metis fs.update_convs(1) fs.surjective)
    ultimately show ?thesis
      using scan_result_skip [OF True Suc.prems(4,5) t(2)] t(3-5) u(3,4) by (intro exI [of _ r] exI [of _ t]) simp
  next
    case False
    define start' where "start' = (if run = 0 then of_nat a else start)"
    have r1: "unat (run + 1) = unat run + 1" using Suc.prems(4) unat_lt [of need] by (subst unat_add_small) simp_all
    have st: "start' = of_nat (Suc a - unat (run + 1))" using Suc.prems(7) r1 by (auto simp: start'_def unat_gt_0 word_neq_0_conv [symmetric])
    have fr: "free_run ?used (Suc a - unat (run + 1)) (unat (run + 1))"
      using Suc.prems(5,8) False unfolding r1 by (simp add: free_run_Suc)
    show ?thesis
    proof (cases "run + 1 \<ge> need")
      case True
      then have n: "unat need = unat run + 1" using Suc.prems(4) r1 by (simp add: word_le_nat_alt)
      have "bitmap_window_loop m base need [a..<hi] run start loaded s = (Inr (start' + k_cluster_first_data), u)"
        using u(1) tst False True by (simp add: a(2) at bindE_run start'_def Let_def)
      moreover have "first_run ?used (a - unat run) hi (unat need) (a - unat run)"
        using fr a(1) Suc.prems(5) unfolding first_run_def n r1 by auto
      ultimately show ?thesis using u st r1 by (intro exI [of _ "Inr (start' + k_cluster_first_data)"] exI [of _ u]) (auto simp: scan_result_def)
    next
      case more: False
      then have lt: "unat (run + 1) < unat need" by (simp add: word_le_nat_alt)
      from Suc.hyps(1) [where start = start' and loaded = ld, OF d u(2) nb ld lt] Suc.prems(5) a(1) st fr r1 obtain r t where
        t: "bitmap_window_loop m base need [Suc a..<hi] (run + 1) start' ld u = (r, t)" "scan_result ?used (a - unat run) hi (unat need) r"
          "valid (world t)" "content (world t) = content (world u)" "nblocks (world t) = nblocks (world u)" "t = u\<lparr>world := world t\<rparr>"
        by (auto simp: same)
      have "bitmap_window_loop m base need [a..<hi] run start loaded s = (r, t)"
        using u(1) t(1) tst False more by (simp add: a(2) at bindE_run ld_def start'_def Let_def)
      moreover have "t = s\<lparr>world := world t\<rparr>" using t(6) u(5) by (metis fs.update_convs(1) fs.surjective)
      ultimately show ?thesis using t(2-5) u(3,4) by (intro exI [of _ r] exI [of _ t]) simp
    qed
  qed
qed


lemma scan_ok:
  assumes m: "on_backend b bs m" and v: "valid (world s)" and need: "need \<noteq> 0"
    and med: "\<forall>idx < unat (m_count_of_clusters m). unat (bmp_lba m base idx + m_partition_base_lba m) < nblocks (world s)"
  defines "hint \<equiv> priv_alloc_hint_get m s" and "hi \<equiv> unat (m_count_of_clusters m)"
  defines "lw \<equiv> (if k_cluster_first_data < hint \<and> unat hint - 2 < hi then unat hint - 2 else 0)"
  shows "\<exists>r t. priv_exfat_bitmap_scan m base need s = (r, t) \<and> content (world t) = content (world s) \<and> t = s\<lparr>world := world t\<rparr> \<and>
    (scan_result (bmp_bit content m s base) lw hi (unat need) r \<and> (\<exists>c. r = Inr c) \<or>
     scan_result (bmp_bit content m s base) lw hi (unat need) (Inl k_ra8_err_no_mem) \<and> scan_result (bmp_bit content m s base) 0 hi (unat need) r)"
proof -
  define lo where "lo = (let from0 = (if hint > k_cluster_first_data then hint - k_cluster_first_data else 0)
    in if from0 \<ge> m_count_of_clusters m then 0 else from0)"
  have lo: "unat lo = lw"
    by (auto simp: lo_def lw_def hi_def Let_def word_le_nat_alt word_less_nat_alt unat_sub_if_size)
  have hi: "hi < 2 ^ 32" using unat_lt [of "m_count_of_clusters m"] by (simp add: hi_def)
  have n0: "unat (0 :: u32) < unat need" using need by (simp add: unat_gt_0)
  have le: "lw \<le> hi" by (auto simp: lw_def)
  from window_ok [OF m hi v med [folded hi_def], of None 0 need lw 0] n0 le obtain r t where
    t: "bitmap_window_loop m base need [lw..<hi] 0 0 None s = (r, t)" "scan_result (bmp_bit content m s base) lw hi (unat need) r"
      "valid (world t)" "content (world t) = content (world s)" "nblocks (world t) = nblocks (world s)" "t = s\<lparr>world := world t\<rparr>"
    by (auto simp: free_run_def)
  have run: "priv_exfat_bitmap_scan m base need s = attemptE (internal_exfat_bitmap_window m base lo need) (\<lambda>e.
      if e \<noteq> Inl k_ra8_err_no_mem then returnR e else if lo = 0 then returnR e else internal_exfat_bitmap_window m base 0 need) s"
    by (simp add: priv_exfat_bitmap_scan_def bindE_run getE_def lo_def hint_def Let_def cong: if_cong split del: if_split)
  have w: "internal_exfat_bitmap_window m base lo need s = (r, t)" using t(1) by (simp add: internal_exfat_bitmap_window_def lo hi_def)
  show ?thesis
  proof (cases "r = Inl k_ra8_err_no_mem \<and> lo \<noteq> 0")
    case False
    then have "priv_exfat_bitmap_scan m base need s = (r, t)" unfolding run by (auto simp: attemptE_def w returnR_def)
    moreover have "lw = 0" if "r = Inl k_ra8_err_no_mem" using False that lo by (auto simp: unat_eq_0)
    moreover have "\<exists>c. r = Inr c" if "r \<noteq> Inl k_ra8_err_no_mem" using t(2) that by (cases r) (auto simp: scan_result_def)
    ultimately show ?thesis using t(2,4,6) by (intro exI [of _ r] exI [of _ t]) auto
  next
    case True
    have med': "\<forall>idx < hi. unat (bmp_lba m base idx + m_partition_base_lba m) < nblocks (world t)" using med t(5) by (simp add: hi_def)
    from window_ok [OF m hi t(3) med', of None 0 need 0 0] n0 obtain r' u where
      u: "bitmap_window_loop m base need [0..<hi] 0 0 None t = (r', u)" "scan_result (bmp_bit content m s base) 0 hi (unat need) r'"
        "content (world u) = content (world t)" "u = t\<lparr>world := world u\<rparr>"
      by (auto simp: free_run_def bmp_bit_world [OF t(4)])
    have "internal_exfat_bitmap_window m base 0 need t = (r', u)" using u(1) by (simp add: internal_exfat_bitmap_window_def hi_def)
    then have "priv_exfat_bitmap_scan m base need s = (r', u)" unfolding run using True by (simp add: attemptE_def w)
    moreover have "u = s\<lparr>world := world u\<rparr>" using u(4) t(6) by (metis fs.update_convs(1) fs.surjective)
    ultimately show ?thesis using u(2,3) t(2,4) True by (intro exI [of _ r'] exI [of _ u]) auto
  qed
qed

end

section \<open>Marking and clearing\<close>

text \<open>The sectors of a volume with one bit of the bitmap set to a value.\<close>

definition set_bit_to :: "bool \<Rightarrow> u8 \<Rightarrow> nat \<Rightarrow> u8" where
  "set_bit_to val w n = (if val then w OR push_bit n 1 else w AND NOT (push_bit n 1))"

lemma bit_set_bit_to: "n < 8 \<Longrightarrow> bit (set_bit_to val w n) k \<longleftrightarrow> (if k = n then val else bit w k)"
  by (auto simp: set_bit_to_def bit_simps dest: bit_imp_le_length)

definition bmp_put :: "bool \<Rightarrow> 'w mount \<Rightarrow> u64 \<Rightarrow> nat \<Rightarrow> (u64 \<Rightarrow> bytes) \<Rightarrow> u64 \<Rightarrow> bytes" where
  "bmp_put val m base idx V = V(bmp_lba m base idx := (V (bmp_lba m base idx))[idx div 8 mod unat (priv_bps m) :=
     set_bit_to val (V (bmp_lba m base idx) ! (idx div 8 mod unat (priv_bps m))) (idx mod 8)])"

definition bmp_get :: "'w mount \<Rightarrow> u64 \<Rightarrow> (u64 \<Rightarrow> bytes) \<Rightarrow> nat \<Rightarrow> bool" where
  "bmp_get m base V idx = bit (V (bmp_lba m base idx) ! (idx div 8 mod unat (priv_bps m))) (idx mod 8)"

lemma bmp_get_put:
  assumes "i < 2 ^ 32" "j < 2 ^ 32" and len: "\<And>l. length (V l) = unat (priv_bps m)" and bps: "0 < unat (priv_bps m)"
  shows "bmp_get m base (bmp_put val m base i V) j \<longleftrightarrow> (if j = i then val else bmp_get m base V j)"
proof (cases "j = i")
  case True
  then show ?thesis using len bps by (simp add: bmp_get_def bmp_put_def bit_set_bit_to)
next
  case False
  then have "\<not> (bmp_lba m base j = bmp_lba m base i \<and> j div 8 mod unat (priv_bps m) = i div 8 mod unat (priv_bps m) \<and> j mod 8 = i mod 8)"
    using bmp_place_inj [OF assms(2,1)] by metis
  then show ?thesis using False len bps by (auto simp: bmp_get_def bmp_put_def nth_list_update bit_set_bit_to)
qed

lemma bmp_put_length: "(\<And>l. length (V l) = n) \<Longrightarrow> length (bmp_put val m base i V l) = n"
  by (simp add: bmp_put_def)

text \<open>A run of bits, in order.\<close>

lemma bmp_run:
  assumes "\<And>l. length (V l) = unat (priv_bps m)" "0 < unat (priv_bps m)" "\<forall>i \<in> set is. i < 2 ^ 32" "j < 2 ^ 32"
  shows "bmp_get m base (fold (bmp_put val m base) is V) j \<longleftrightarrow> (if j \<in> set is then val else bmp_get m base V j)"
  using assms by (induction "is" arbitrary: V) (simp_all add: bmp_get_put bmp_put_length)

lemma bmp_run_outside: "l \<notin> bmp_lba m base ` set is \<Longrightarrow> fold (bmp_put val m base) is V l = V l"
  by (induction "is" arbitrary: V) (simp_all add: bmp_put_def)

text \<open>The sectors as they are with the buffer written back.\<close>

definition with_buffer :: "(u64 \<times> bytes) option \<Rightarrow> (u64 \<Rightarrow> bytes) \<Rightarrow> u64 \<Rightarrow> bytes" where
  "with_buffer loaded V = (case loaded of None \<Rightarrow> V | Some (l, sec) \<Rightarrow> V(l := sec))"

context block_device
begin

lemma switch_sector:
  assumes m: "on_backend b bs m" and v: "valid (world s)" and ld: "\<And>l sec. loaded = Some (l, sec) \<Longrightarrow> length sec = bs"
    and r: "priv_exfat_bmp_switch m lba loaded s = (Inr (l', sec'), u)"
  shows "l' = lba" "valid (world u)" "sec' = with_buffer loaded (vsec content m s) lba"
    "(vsec content m u)(lba := x) = (with_buffer loaded (vsec content m s))(lba := x)"
proof -
  have rd: "valid (world u) \<and> sec = vsec content m q lba \<and> vsec content m u = vsec content m q"
    if "priv_read_sector m lba q = (Inr sec, u)" "valid (world q)" for q sec
    using read_sector [OF m that(2,1)] by (auto simp: vsec_def fun_eq_iff)
  have "l' = lba \<and> valid (world u) \<and> sec' = with_buffer loaded (vsec content m s) lba \<and>
    (vsec content m u)(lba := x) = (with_buffer loaded (vsec content m s))(lba := x)"
  proof (cases loaded)
    case None
    then show ?thesis using r rd [OF _ v] by (auto simp: priv_exfat_bmp_switch_def with_buffer_def elim!: bindE_InrE)
  next
    case (Some p)
    obtain l sec where p: "p = (l, sec)" by (cases p)
    show ?thesis
    proof (cases "lba = l")
      case True
      then show ?thesis using r Some p v by (auto simp: priv_exfat_bmp_switch_def with_buffer_def)
    next
      case False
      with r Some p obtain q where q: "priv_write_sector m l sec s = (Inr (), q)" "priv_read_sector m lba q = (Inr sec', u)" "l' = lba"
        by (auto simp: priv_exfat_bmp_switch_def elim!: bindE_InrE)
      note ws = write_sector [OF m v ld [unfolded Some p, OF refl] q(1)]
      have "vsec content m q = (vsec content m s)(l := sec)" using ws(3) by (auto simp: vsec_def fun_eq_iff)
      then show ?thesis using rd [OF q(2) ws(1)] q(3) Some p by (simp add: with_buffer_def)
    qed
  qed
  then show "l' = lba" "valid (world u)" "sec' = with_buffer loaded (vsec content m s) lba"
    "(vsec content m u)(lba := x) = (with_buffer loaded (vsec content m s))(lba := x)" by blast+
qed

end

context reliable_device
begin

lemma switch_total:
  assumes m: "on_backend b bs m" and v: "valid (world s)" and ld: "\<And>l sec. loaded = Some (l, sec) \<Longrightarrow> length sec = bs"
    and on: "unat (lba + m_partition_base_lba m) < nblocks (world s)"
      "\<And>l sec. loaded = Some (l, sec) \<Longrightarrow> unat (l + m_partition_base_lba m) < nblocks (world s)"
  shows "\<exists>l sec u. priv_exfat_bmp_switch m lba loaded s = (Inr (l, sec), u) \<and> nblocks (world u) = nblocks (world s)"
proof (cases "\<exists>l sec. loaded = Some (l, sec) \<and> l \<noteq> lba")
  case True
  then obtain l sec where l: "loaded = Some (l, sec)" "l \<noteq> lba" by blast
  from write_sector_ok [OF m v ld [OF l(1)] on(2) [OF l(1)]] obtain q where
    q: "priv_write_sector m l sec s = (Inr (), q)" "nblocks (world q) = nblocks (world s)" by blast
  have "valid (world q)" using write_sector [OF m v ld [OF l(1)] q(1)] by simp
  from read_sector_ok [OF m this, of lba] on(1) q obtain sec' u where
    "priv_read_sector m lba q = (Inr sec', u)" "nblocks (world u) = nblocks (world q)" by auto
  then show ?thesis using l q by (auto simp: priv_exfat_bmp_switch_def bindE_run)
next
  case False
  from read_sector_ok [OF m v on(1)] obtain sec' u where
    "priv_read_sector m lba s = (Inr sec', u)" "nblocks (world u) = nblocks (world s)" by blast
  then show ?thesis using False by (cases loaded) (auto simp: priv_exfat_bmp_switch_def bindE_run)
qed

end

text \<open>
  The two loops share a contract: they switch to the sector of each bit, change the bit in the buffer to \<open>val\<close> and
  write the last buffer at the end. Besides, \<open>remark\<close> may update the allocator.
\<close>

locale bitmap_writer =
  fixes loop :: "'w mount \<Rightarrow> u64 \<Rightarrow> u32 \<Rightarrow> nat list \<Rightarrow> (u64 \<times> bytes) option \<Rightarrow> ('w fs, unit) op" and val :: bool
    and remark :: "'w mount \<Rightarrow> u32 \<Rightarrow> 'w fs \<Rightarrow> 'w fs"
  assumes loop_Nil: "loop m base clus [] loaded =
      (case loaded of None \<Rightarrow> throwE undefined_behaviour | Some (l, sec) \<Rightarrow> priv_write_sector m l sec)"
    and loop_Cons: "bitmap_at m base ((clus - k_cluster_first_data) + of_nat k) = (lba, byte, bitno) \<Longrightarrow>
      loop m base clus (k # ks) loaded = bindE (priv_exfat_bmp_switch m lba loaded) (\<lambda>(l, sec).
        bindE (modifyE (remark m ((clus - k_cluster_first_data) + of_nat k + k_cluster_first_data))) (\<lambda>_.
          loop m base clus ks (Some (l, sec[byte := set_bit_to val (sec ! byte) bitno]))))"
    and remark_world: "world (remark m c s) = world s"

context bitmap_writer
begin

lemma loop_writes:
  assumes d: "block_device b content bs valid" and m: "on_backend b bs m" and c: "k_cluster_first_data \<le> clus"
  shows "valid (world s) \<Longrightarrow> (\<And>l sec. loaded = Some (l, sec) \<Longrightarrow> length sec = bs) \<Longrightarrow> \<forall>k \<in> set ks. unat clus - 2 + k < 2 ^ 32 \<Longrightarrow>
    loop m base clus ks loaded s = (Inr (), t) \<Longrightarrow>
    valid (world t) \<and> vsec content m t = fold (bmp_put val m base) (map (\<lambda>k. unat clus - 2 + k) ks) (with_buffer loaded (vsec content m s))"
proof (induction ks arbitrary: loaded s)
  case Nil
  then obtain l sec where l: "loaded = Some (l, sec)" "priv_write_sector m l sec s = (Inr (), t)"
    by (auto simp: loop_Nil throwE_def split: option.splits)
  from block_device.write_sector [OF d m Nil(1) Nil(2) [OF l(1)] l(2)] show ?case
    by (auto simp: l(1) with_buffer_def vsec_def fun_eq_iff)
next
  case (Cons k ks)
  define idx where "idx = unat clus - 2 + k"
  have i: "idx < 2 ^ 32" using Cons.prems(3) by (simp add: idx_def)
  have w: "(clus - k_cluster_first_data) + of_nat k = of_nat idx" unfolding idx_def by (rule cluster_idx [OF c])
  have at: "bitmap_at m base ((clus - k_cluster_first_data) + of_nat k) = (bmp_lba m base idx, idx div 8 mod unat (priv_bps m), idx mod 8)"
    unfolding w by (rule bitmap_at_nat [OF i])
  from Cons.prems(4) obtain l sec u where sw: "priv_exfat_bmp_switch m (bmp_lba m base idx) loaded s = (Inr (l, sec), u)"
    and lp: "loop m base clus ks (Some (l, sec[idx div 8 mod unat (priv_bps m) := set_bit_to val (sec ! (idx div 8 mod unat (priv_bps m))) (idx mod 8)]))
      (remark m (of_nat idx + k_cluster_first_data) u) = (Inr (), t)"
    unfolding loop_Cons [OF at] w by (auto simp: modifyE_def bindE_run elim!: bindE_InrE)
  note sx = block_device.switch_sector [OF d m Cons.prems(1,2) sw]
  define v where "v = remark m (of_nat idx + k_cluster_first_data) u"
  have vw: "world v = world u" by (simp add: v_def remark_world)
  define sec1 where "sec1 = sec[idx div 8 mod unat (priv_bps m) := set_bit_to val (sec ! (idx div 8 mod unat (priv_bps m))) (idx mod 8)]"
  have "length (with_buffer loaded (vsec content m s) x) = bs" for x
    using Cons.prems(2) block_device.vsec_length [OF d] by (cases loaded) (auto simp: with_buffer_def)
  then have len: "length sec1 = bs" using sx(3) by (simp add: sec1_def)
  have "vsec content m v = vsec content m u" by (simp add: vsec_def vw fun_eq_iff)
  then have "with_buffer (Some (l, sec1)) (vsec content m v) = bmp_put val m base idx (with_buffer loaded (vsec content m s))"
    using sx(1,3,4) by (simp add: with_buffer_def [of "Some _"] bmp_put_def sec1_def)
  moreover have "valid (world t) \<and> vsec content m t = fold (bmp_put val m base) (map (\<lambda>k. unat clus - 2 + k) ks) (with_buffer (Some (l, sec1)) (vsec content m v))"
    by (rule Cons.IH) (use sx(2) vw len Cons.prems(3) lp in \<open>auto simp: v_def sec1_def\<close>)
  ultimately show ?case by (simp add: idx_def)
qed

lemma loop_total:
  assumes d: "reliable_device b content bs valid nb" and m: "on_backend b bs m" and c: "k_cluster_first_data \<le> clus"
  shows "valid (world s) \<Longrightarrow> (\<And>l sec. loaded = Some (l, sec) \<Longrightarrow> length sec = bs \<and> unat (l + m_partition_base_lba m) < nb (world s)) \<Longrightarrow>
    \<forall>k \<in> set ks. unat clus - 2 + k < 2 ^ 32 \<and> unat (bmp_lba m base (unat clus - 2 + k) + m_partition_base_lba m) < nb (world s) \<Longrightarrow>
    loaded \<noteq> None \<or> ks \<noteq> [] \<Longrightarrow> \<exists>t. loop m base clus ks loaded s = (Inr (), t)"
proof (induction ks arbitrary: loaded s)
  case Nil
  then obtain l sec where l: "loaded = Some (l, sec)" by auto
  from reliable_device.write_sector_ok [OF d m Nil(1), of sec l] Nil(2) [OF l] show ?case
    by (auto simp: loop_Nil l)
next
  case (Cons k ks)
  have bd: "block_device b content bs valid" using d by (simp add: reliable_device_def atomic_device_def)
  define idx where "idx = unat clus - 2 + k"
  have i: "idx < 2 ^ 32" "unat (bmp_lba m base idx + m_partition_base_lba m) < nb (world s)" using Cons.prems(3) by (simp_all add: idx_def)
  have at: "bitmap_at m base ((clus - k_cluster_first_data) + of_nat k) = (bmp_lba m base idx, idx div 8 mod unat (priv_bps m), idx mod 8)"
    unfolding cluster_idx [OF c] idx_def [symmetric] by (rule bitmap_at_nat [OF i(1)])
  from reliable_device.switch_total [OF d m Cons.prems(1) _ i(2), of loaded] Cons.prems(2) obtain l sec u where
    sw: "priv_exfat_bmp_switch m (bmp_lba m base idx) loaded s = (Inr (l, sec), u)" "nb (world u) = nb (world s)" by blast
  note sx = block_device.switch_sector [OF bd m Cons.prems(1) _ sw(1)]
  define v where "v = remark m ((clus - k_cluster_first_data) + of_nat k + k_cluster_first_data) u"
  have vw: "world v = world u" by (simp add: v_def remark_world)
  define sec1 where "sec1 = sec[idx div 8 mod unat (priv_bps m) := set_bit_to val (sec ! (idx div 8 mod unat (priv_bps m))) (idx mod 8)]"
  have "length (with_buffer loaded (vsec content m s) x) = bs" for x
    using Cons.prems(2) block_device.vsec_length [OF bd] by (cases loaded) (auto simp: with_buffer_def)
  then have len: "length sec1 = bs" "l = bmp_lba m base idx" "valid (world u)" using sx Cons.prems(2) by (simp_all add: sec1_def)
  have "\<exists>t. loop m base clus ks (Some (l, sec1)) v = (Inr (), t)"
    by (rule Cons.IH) (use len i(2) sw(2) vw Cons.prems(3) in auto)
  then show ?case unfolding loop_Cons [OF at] using sw(1) by (auto simp: bindE_run modifyE_def v_def sec1_def)
qed

lemma run_written:
  assumes d: "block_device b content bs valid" and m: "on_backend b bs m" and c: "k_cluster_first_data \<le> clus" and v: "valid (world s)"
    and n: "unat clus - 2 + n \<le> 2 ^ 32" and r: "loop m base clus [0..<n] None s = (Inr (), t)"
  shows "idx < 2 ^ 32 \<Longrightarrow> bmp_bit content m t base idx \<longleftrightarrow>
      (if unat clus - 2 \<le> idx \<and> idx < unat clus - 2 + n then val else bmp_bit content m s base idx)"
    and "\<forall>i < n. l \<noteq> bmp_lba m base (unat clus - 2 + i) \<Longrightarrow> vsec content m t l = vsec content m s l" and "valid (world t)"
proof -
  have bps: "unat (priv_bps m) = bs" "0 < unat (priv_bps m)" using m by (auto simp: on_backend_def priv_bps_def)
  have ks: "\<forall>k \<in> set [0..<n]. unat clus - 2 + k < 2 ^ 32" using n by auto
  from loop_writes [OF d m c v _ ks r] have t: "valid (world t)"
    "vsec content m t = fold (bmp_put val m base) (map (\<lambda>k. unat clus - 2 + k) [0..<n]) (vsec content m s)" by (auto simp: with_buffer_def)
  then show "valid (world t)" by simp
  have mem: "idx \<in> set (map (\<lambda>k. unat clus - 2 + k) [0..<n]) \<longleftrightarrow> unat clus - 2 \<le> idx \<and> idx < unat clus - 2 + n" for idx
    by (auto simp: image_iff intro: bexI [of _ "idx - (unat clus - 2)"])
  show "bmp_bit content m t base idx \<longleftrightarrow>
      (if unat clus - 2 \<le> idx \<and> idx < unat clus - 2 + n then val else bmp_bit content m s base idx)" if "idx < 2 ^ 32"
  proof -
    have bb: "bmp_bit content m q base = bmp_get m base (vsec content m q)" for q by (simp add: bmp_bit_def bmp_get_def fun_eq_iff)
    have "\<forall>i \<in> set (map (\<lambda>k. unat clus - 2 + k) [0..<n]). i < 2 ^ 32" using n by auto
    from bmp_run [OF _ bps(2) this that, of "vsec content m s" base val] block_device.vsec_length [OF d] bps(1)
    show ?thesis unfolding bb t(2) mem by simp
  qed
  show "\<forall>i < n. l \<noteq> bmp_lba m base (unat clus - 2 + i) \<Longrightarrow> vsec content m t l = vsec content m s l"
    unfolding t(2) by (rule bmp_run_outside) (unfold set_map image_image set_upt image_iff, auto)
qed

end

interpretation mark: bitmap_writer bitmap_mark_loop True "\<lambda>m c s. s"
  by unfold_locales (simp_all add: set_bit_to_def bindE_def modifyE_def fun_eq_iff split: prod.split sum.split)

interpretation clear: bitmap_writer bitmap_clear_loop False priv_alloc_hint_lower
  by unfold_locales (simp_all add: set_bit_to_def Let_def priv_alloc_hint_lower_def split: option.split)


section \<open>The allocator of an exFAT volume\<close>

definition bmp_on_medium :: "('w \<Rightarrow> nat) \<Rightarrow> 'w mount \<Rightarrow> u64 \<Rightarrow> 'w fs \<Rightarrow> bool" where
  "bmp_on_medium nb m base s \<longleftrightarrow>
     (\<forall>idx < unat (m_count_of_clusters m). unat (bmp_lba m base idx + m_partition_base_lba m) < nb (world s))"

text \<open>C26. The search for \<open>need\<close> free clusters in a row always ends and returns the first such run at or behind the hint of
  the allocator, the first one of the whole bitmap when there is none behind the hint, and fails with \<open>k_ra8_err_no_mem\<close>
  exactly when the bitmap has no such run. Nothing on the medium changes.\<close>

theorem bitmap_scan_first:
  assumes d: "reliable_device b content bs valid nb" and m: "on_backend b bs m" and v: "valid (world s)" and need: "need \<noteq> 0"
    and med: "bmp_on_medium nb m base s"
  defines "hint \<equiv> priv_alloc_hint_get m s" and "hi \<equiv> unat (m_count_of_clusters m)" and "used \<equiv> bmp_bit content m s base"
  defines "lw \<equiv> (if k_cluster_first_data < hint \<and> unat hint - 2 < hi then unat hint - 2 else 0)"
  shows "\<exists>r t. priv_exfat_bitmap_scan m base need s = (r, t) \<and> content (world t) = content (world s) \<and> t = s\<lparr>world := world t\<rparr> \<and>
    (case r of
       Inr c \<Rightarrow> \<exists>k. c = of_nat k + k_cluster_first_data \<and> (first_run used lw hi (unat need) k \<or>
         (\<nexists>k'. lw \<le> k' \<and> k' + unat need \<le> hi \<and> free_run used k' (unat need)) \<and> first_run used 0 hi (unat need) k)
     | Inl e \<Rightarrow> e = k_ra8_err_no_mem \<and> (\<nexists>k. k + unat need \<le> hi \<and> free_run used k (unat need)))"
proof -
  from reliable_device.scan_ok [OF d m v need med [unfolded bmp_on_medium_def], folded hint_def hi_def used_def, folded lw_def] obtain r t where
    r: "priv_exfat_bitmap_scan m base need s = (r, t)" "content (world t) = content (world s)" "t = s\<lparr>world := world t\<rparr>"
      "scan_result used lw hi (unat need) r \<and> (\<exists>c. r = Inr c) \<or>
       scan_result used lw hi (unat need) (Inl k_ra8_err_no_mem) \<and> scan_result used 0 hi (unat need) r" by blast
  have "case r of
       Inr c \<Rightarrow> \<exists>k. c = of_nat k + k_cluster_first_data \<and> (first_run used lw hi (unat need) k \<or>
         (\<nexists>k'. lw \<le> k' \<and> k' + unat need \<le> hi \<and> free_run used k' (unat need)) \<and> first_run used 0 hi (unat need) k)
     | Inl e \<Rightarrow> e = k_ra8_err_no_mem \<and> (\<nexists>k. k + unat need \<le> hi \<and> free_run used k (unat need))"
    using r(4) by (cases r) (auto simp: scan_result_def)
  with r(1-3) show ?thesis by blast
qed

lemma ex_bmp: "bmp_on_medium (\<lambda>w. unat (ram_block_count w)) ex_mount 4 ex_fs" "ram_valid (world ex_fs)"
  "idx < 12 \<Longrightarrow> \<not> bmp_bit ram_content ex_mount ex_fs 4 idx"
proof -
  have l: "bmp_lba ex_mount 4 i = 4" if "i < 12" for i
  proof -
    have "i div 8 < 512" using that by simp
    then show ?thesis by (simp add: bmp_lba_def priv_bps_def ex_mount_def)
  qed
  then show "bmp_on_medium (\<lambda>w. unat (ram_block_count w)) ex_mount 4 ex_fs"
    by (simp add: bmp_on_medium_def ex_mount_def ex_fs_def fs_init_def ex_ram_def)
  show "ram_valid (world ex_fs)" using ex_inv by (simp add: fs_inv_def)
  have "ram_content ex_ram 4 = replicate 512 0" by (simp add: ram_content_def ex_ram_def)
  moreover have "idx div 8 mod 512 < 512" by simp
  ultimately show "idx < 12 \<Longrightarrow> \<not> bmp_bit ram_content ex_mount ex_fs 4 idx"
    using l by (simp add: bmp_bit_def vsec_def ex_fs_def fs_init_def) (simp add: ex_mount_def priv_bps_def)
qed

theorem bitmap_scan_first_witness:
  "\<exists>c t. priv_exfat_bitmap_scan ex_mount 4 3 ex_fs = (Inr c, t)"
proof -
  have "free_run (bmp_bit ram_content ex_mount ex_fs 4) 0 3" by (auto simp: free_run_def ex_bmp(3))
  moreover have "unat (m_count_of_clusters ex_mount) = 12" by (simp add: ex_mount_def)
  ultimately have "\<exists>k. k + unat (3 :: u32) \<le> unat (m_count_of_clusters ex_mount) \<and> free_run (bmp_bit ram_content ex_mount ex_fs 4) k (unat (3 :: u32))"
    by (intro exI [of _ 0]) simp
  moreover obtain r t where p: "priv_exfat_bitmap_scan ex_mount 4 3 ex_fs = (r, t)" by (metis surj_pair)
  moreover have "r \<noteq> Inl e" if "\<exists>k. k + unat (3 :: u32) \<le> unat (m_count_of_clusters ex_mount) \<and>
      free_run (bmp_bit ram_content ex_mount ex_fs 4) k (unat (3 :: u32))" for e
    using bitmap_scan_first [OF ram.reliable_device_axioms ex_on_backend ex_bmp(2) _ ex_bmp(1), of 3] that unfolding p
    by (cases r) (auto simp del: unat_numeral)
  ultimately show ?thesis by (metis sum.exhaust)
qed

text \<open>C27. Marking a run of clusters of an exFAT volume succeeds and sets exactly their bits of the allocation bitmap, clearing
  succeeds and clears exactly their bits; no sector of the volume changes except those of the bitmap that hold one of the bits.\<close>

theorem bitmap_mark_clear:
  assumes d: "reliable_device b content bs valid nb" and m: "on_backend b bs m" and v: "valid (world s)" and c: "k_cluster_first_data \<le> clus"
    and n: "count \<noteq> 0" "unat clus - 2 + unat count \<le> unat (m_count_of_clusters m)" and med: "bmp_on_medium nb m base s"
  defines "lo \<equiv> unat clus - 2" and "hi \<equiv> unat clus - 2 + unat count"
  shows "(\<exists>t. priv_exfat_bitmap_mark m base clus count s = (Inr (), t) \<and> valid (world t) \<and>
      (\<forall>idx < 2 ^ 32. bmp_bit content m t base idx \<longleftrightarrow> lo \<le> idx \<and> idx < hi \<or> bmp_bit content m s base idx) \<and>
      (\<forall>l. (\<forall>i < unat count. l \<noteq> bmp_lba m base (lo + i)) \<longrightarrow> vsec content m t l = vsec content m s l)) \<and>
    (\<exists>t. priv_exfat_bitmap_clear m base clus count s = (Inr (), t) \<and> valid (world t) \<and>
      (\<forall>idx < 2 ^ 32. bmp_bit content m t base idx \<longleftrightarrow> \<not> (lo \<le> idx \<and> idx < hi) \<and> bmp_bit content m s base idx) \<and>
      (\<forall>l. (\<forall>i < unat count. l \<noteq> bmp_lba m base (lo + i)) \<longrightarrow> vsec content m t l = vsec content m s l))"
proof -
  have bd: "block_device b content bs valid" using d by (simp add: reliable_device_def atomic_device_def)
  have small: "unat clus - 2 + unat count \<le> 2 ^ 32" using n(2) unat_lt [of "m_count_of_clusters m"] by simp
  have ks: "\<forall>k \<in> set [0..<unat count]. unat clus - 2 + k < 2 ^ 32 \<and>
      unat (bmp_lba m base (unat clus - 2 + k) + m_partition_base_lba m) < nb (world s)"
    using med n(2) small by (auto simp: bmp_on_medium_def)
  have ne: "[0..<unat count] \<noteq> []" using n(1) by (simp add: unat_gt_0)
  obtain t where t: "bitmap_mark_loop m base clus [0..<unat count] None s = (Inr (), t)"
    using mark.loop_total [OF d m c v _ ks] ne by auto
  note w = mark.run_written [OF bd m c v small t]
  have mk: "\<exists>t. priv_exfat_bitmap_mark m base clus count s = (Inr (), t) \<and> valid (world t) \<and>
      (\<forall>idx < 2 ^ 32. bmp_bit content m t base idx \<longleftrightarrow> lo \<le> idx \<and> idx < hi \<or> bmp_bit content m s base idx) \<and>
      (\<forall>l. (\<forall>i < unat count. l \<noteq> bmp_lba m base (lo + i)) \<longrightarrow> vsec content m t l = vsec content m s l)"
    by (rule exI [of _ t]) (use t w in \<open>auto simp: priv_exfat_bitmap_mark_def lo_def hi_def\<close>)
  obtain u where u: "bitmap_clear_loop m base clus [0..<unat count] None s = (Inr (), u)"
    using clear.loop_total [OF d m c v _ ks] ne by auto
  note x = clear.run_written [OF bd m c v small u]
  have cl: "\<exists>t. priv_exfat_bitmap_clear m base clus count s = (Inr (), t) \<and> valid (world t) \<and>
      (\<forall>idx < 2 ^ 32. bmp_bit content m t base idx \<longleftrightarrow> \<not> (lo \<le> idx \<and> idx < hi) \<and> bmp_bit content m s base idx) \<and>
      (\<forall>l. (\<forall>i < unat count. l \<noteq> bmp_lba m base (lo + i)) \<longrightarrow> vsec content m t l = vsec content m s l)"
    by (rule exI [of _ u]) (use u x in \<open>auto simp: priv_exfat_bitmap_clear_def lo_def hi_def\<close>)
  from mk cl show ?thesis by (rule conjI)
qed

theorem bitmap_mark_clear_witness:
  "\<exists>t. priv_exfat_bitmap_mark ex_mount 4 4 3 ex_fs = (Inr (), t) \<and> bmp_bit ram_content ex_mount t 4 2 \<and> \<not> bmp_bit ram_content ex_mount t 4 5"
proof -
  have "unat (4 :: u32) - 2 + unat (3 :: u32) \<le> unat (m_count_of_clusters ex_mount)" by (simp add: ex_mount_def)
  from bitmap_mark_clear [OF ram.reliable_device_axioms ex_on_backend ex_bmp(2) _ _ this ex_bmp(1)] show ?thesis
    using ex_bmp(3) [of 5] by auto
qed

end
