(* ===== verification/Exfat_Set.thy ===== *)
theory Exfat_Set
  imports Exfat_Mutate
begin

text \<open>
  The entry set of a new exFAT file, \<open>internal_exfat_build_set\<close> of \<^verbatim>\<open>ra8_fs_fat_exfat_write.c\<close>, read back with the functions the
  lookup and the listing use, \<open>priv_exfat_name_chunk_eq\<close> and \<open>name_units\<close>.
\<close>

section \<open>Name entries\<close>

text \<open>The entry at index \<open>j\<close> of a set.\<close>

definition set_entry :: "bytes \<Rightarrow> nat \<Rightarrow> bytes" where
  "set_entry set' j = take k_exfat_entry_bytes (drop (j * k_exfat_entry_bytes) set')"

lemma set_entry_nth: "i < 32 \<Longrightarrow> (j + 1) * 32 \<le> length set' \<Longrightarrow> set_entry set' j ! i = set' ! (j * 32 + i)"
  by (simp add: set_entry_def)

lemma set_entry_rd16: "i + 1 < 32 \<Longrightarrow> (j + 1) * 32 \<le> length set' \<Longrightarrow> priv_rd16 (set_entry set' j) i = priv_rd16 set' (j * 32 + i)"
  by (rule rd16_cong) (simp_all add: set_entry_nth)

definition fill_units :: "u16 list \<Rightarrow> nat \<Rightarrow> nat \<Rightarrow> nat \<Rightarrow> bytes \<Rightarrow> bytes" where
  "fill_units name n ne k = fold (\<lambda>c set2. let pos = n * k_exfat_name_per_entry + c in
     if pos < length name then priv_wr16 set2 (ne + k_exfat_name_off + c * 2) (name ! pos) else set2) [0..<k]"

lemma fill_units_Suc: "fill_units name n ne (Suc k) s = (if n * 15 + k < length name
    then priv_wr16 (fill_units name n ne k s) (ne + 2 + k * 2) (name ! (n * 15 + k)) else fill_units name n ne k s)"
  by (simp add: fill_units_def)

lemma fill_units_nth:
  "ne + 2 + 2 * k \<le> length s \<Longrightarrow> length (fill_units name n ne k s) = length s \<and>
    (\<forall>i. i < ne + 2 \<or> ne + 2 + 2 * k \<le> i \<longrightarrow> fill_units name n ne k s ! i = s ! i) \<and>
    (\<forall>c < k. n * 15 + c < length name \<longrightarrow> priv_rd16 (fill_units name n ne k s) (ne + 2 + c * 2) = name ! (n * 15 + c))"
proof (induction k)
  case 0
  then show ?case by (simp add: fill_units_def)
next
  case (Suc k)
  let ?x = "fill_units name n ne k s"
  from Suc have x: "length ?x = length s" "\<forall>i. i < ne + 2 \<or> ne + 2 + 2 * k \<le> i \<longrightarrow> ?x ! i = s ! i"
    "\<forall>c < k. n * 15 + c < length name \<longrightarrow> priv_rd16 ?x (ne + 2 + c * 2) = name ! (n * 15 + c)" by auto
  show ?case
  proof (cases "n * 15 + k < length name")
    case True
    have "priv_rd16 (priv_wr16 ?x (ne + 2 + k * 2) v) (ne + 2 + c * 2) = (if c = k then v else priv_rd16 ?x (ne + 2 + c * 2))"
      if "c \<le> k" for c v
      using that Suc.prems x(1) by (cases "c = k") (simp_all add: rd16_wr16 rd16_wr16_other)
    then show ?thesis using True Suc.prems x by (simp add: fill_units_Suc nth_wr16 less_Suc_eq_le)
  next
    case False
    then show ?thesis using x by (auto simp: fill_units_Suc less_Suc_eq)
  qed
qed

lemma put_names_nth:
  defines "put \<equiv> \<lambda>name N. fold (\<lambda>n set1. fill_units name n ((2 + n) * 32) 15 (set1[(2 + n) * 32 := k_exfat_entry_name])) [0..<N]"
  shows "(2 + N) * 32 \<le> length s \<Longrightarrow> length (put name N s) = length s \<and>
    (\<forall>i. i < 64 \<or> (2 + N) * 32 \<le> i \<longrightarrow> put name N s ! i = s ! i) \<and>
    (\<forall>n < N. put name N s ! ((2 + n) * 32) = k_exfat_entry_name \<and>
      (\<forall>c < 15. n * 15 + c < length name \<longrightarrow> priv_rd16 (put name N s) ((2 + n) * 32 + 2 + c * 2) = name ! (n * 15 + c)))"
proof (induction N)
  case 0
  then show ?case by (simp add: put_def)
next
  case (Suc N)
  let ?x = "put name N s" and ?ne = "(2 + N) * 32"
  let ?y = "?x[?ne := k_exfat_entry_name]"
  have step: "put name (Suc N) s = fill_units name N ?ne 15 ?y" by (simp add: put_def)
  from Suc have x: "length ?x = length s" "\<forall>i. i < 64 \<or> ?ne \<le> i \<longrightarrow> ?x ! i = s ! i"
    "\<forall>n < N. ?x ! ((2 + n) * 32) = k_exfat_entry_name \<and>
      (\<forall>c < 15. n * 15 + c < length name \<longrightarrow> priv_rd16 ?x ((2 + n) * 32 + 2 + c * 2) = name ! (n * 15 + c))" by auto
  have len: "?ne + 2 + 2 * 15 \<le> length ?y" using Suc.prems x(1) by simp
  note f = fill_units_nth [OF len, of name N]
  have old: "put name (Suc N) s ! i = ?x ! i" if "i < ?ne \<or> ?ne + 32 \<le> i" for i
    using f that unfolding step by auto
  have "put name (Suc N) s ! ((2 + n) * 32) = k_exfat_entry_name \<and>
      (\<forall>c < 15. n * 15 + c < length name \<longrightarrow> priv_rd16 (put name (Suc N) s) ((2 + n) * 32 + 2 + c * 2) = name ! (n * 15 + c))"
    if n: "n < Suc N" for n
  proof (cases "n = N")
    case True
    then show ?thesis using f Suc.prems x(1) unfolding step by simp
  next
    case False
    then have lt: "n < N" using n by simp
    then have "(2 + n) * 32 + 32 \<le> ?ne" by simp
    then have "priv_rd16 (put name (Suc N) s) ((2 + n) * 32 + 2 + c * 2) = priv_rd16 ?x ((2 + n) * 32 + 2 + c * 2)" if "c < 15" for c
      using that by (intro rd16_cong) (simp_all add: old)
    moreover have "put name (Suc N) s ! ((2 + n) * 32) = ?x ! ((2 + n) * 32)" by (rule old) (use lt in simp)
    ultimately show ?thesis using x(3) lt by simp
  qed
  moreover have "length (put name (Suc N) s) = length s" using f x(1) unfolding step by simp
  moreover have "put name (Suc N) s ! i = s ! i" if "i < 64 \<or> (2 + Suc N) * 32 \<le> i" for i
    using old [of i] x(2) that by auto
  ultimately show ?case by blast
qed


section \<open>The other fields\<close>

lemma checksum_ignores_itself: "priv_exfat_set_checksum (put_set_checksum set') = priv_exfat_set_checksum set'"
proof -
  have "fold (\<lambda>i cs. if i = 2 \<or> i = 3 then cs else internal_exfat_csum_add cs (priv_wr16 set' 2 v ! i)) [0..<n] c =
      fold (\<lambda>i cs. if i = 2 \<or> i = 3 then cs else internal_exfat_csum_add cs (set' ! i)) [0..<n] c" for n v c
    by (rule fold_cong) (auto simp: priv_wr16_def fun_eq_iff)
  then show ?thesis by (simp add: priv_exfat_set_checksum_def put_set_checksum_def)
qed

lemma stamp_create_frame:
  "\<exists>e' t. priv_exfat_file_stamp_create e s = (Inr e', t) \<and> length e' = length e \<and> (\<forall>i. i < 8 \<or> 25 \<le> i \<longrightarrow> e' ! i = e ! i)"
proof -
  have "\<exists>p t. internal_now_or_epoch s = (Inr p, t)"
    unfolding internal_now_or_epoch_def Let_def
    by (cases "s_clock_bound s"; cases "clk_now (s_clock s)")
      (auto simp: bindE_def getE_def attemptE_def callE_def throwE_def liftW_def split: prod.split sum.split)
  then obtain p t where p: "internal_now_or_epoch s = (Inr p, t)" by blast
  show ?thesis
    unfolding priv_exfat_file_stamp_create_def internal_exfat_stamp_now_def
    by (simp add: p bindE_def Let_def split: prod.split) (auto simp: priv_wr32_def nth_list_update)
qed


section \<open>Reading a set back\<close>

lemma concat_chunks: "concat (map (\<lambda>k. take n (drop (k * n) xs)) [0..<N]) = take (N * n) xs"
proof (induction N)
  case (Suc N)
  have "take (Suc N * n) xs = take (N * n) xs @ take n (drop (N * n) xs)" by (simp add: add.commute flip: take_add)
  with Suc show ?case by simp
qed simp

lemma name_units_chunk:
  assumes "1 \<le> k" and rd: "\<And>c. c < 15 \<Longrightarrow> (k - 1) * 15 + c < length name \<Longrightarrow> priv_rd16 ne (2 + c * 2) = name ! ((k - 1) * 15 + c)"
  shows "name_units ne k (length name) = take 15 (drop ((k - 1) * 15) name)"
proof -
  let ?p = "(k - 1) * 15"
  have f: "filter (\<lambda>c. ?p + c < length name) [0..<15] = [0..<min 15 (length name - ?p)]"
  proof -
    have "[0..<15] = [0..<min 15 (length name - ?p)] @ [min 15 (length name - ?p)..<15]" by (metis min.cobounded1 upt_add_eq_append le_add_diff_inverse zero_le)
    moreover have "filter (\<lambda>c. ?p + c < length name) [0..<min 15 (length name - ?p)] = [0..<min 15 (length name - ?p)]"
      by (rule filter_True) auto
    moreover have "filter (\<lambda>c. ?p + c < length name) [min 15 (length name - ?p)..<15] = []" by (rule filter_False) auto
    ultimately show ?thesis by (metis append_Nil2 filter_append)
  qed
  show ?thesis unfolding name_units_def f
    by (rule nth_equalityI) (use rd in auto)
qed

lemma put_checksum:
  "length (put_set_checksum set') = length set'"
  "i \<noteq> 2 \<Longrightarrow> i \<noteq> 3 \<Longrightarrow> put_set_checksum set' ! i = set' ! i"
  "4 \<le> length set' \<Longrightarrow> priv_rd16 (put_set_checksum set') 2 = priv_exfat_set_checksum (put_set_checksum set')"
proof -
  show "length (put_set_checksum set') = length set'" by (simp add: put_set_checksum_def)
  show "i \<noteq> 2 \<Longrightarrow> i \<noteq> 3 \<Longrightarrow> put_set_checksum set' ! i = set' ! i" by (simp add: put_set_checksum_def priv_wr16_def)
  show "4 \<le> length set' \<Longrightarrow> priv_rd16 (put_set_checksum set') 2 = priv_exfat_set_checksum (put_set_checksum set')"
    unfolding checksum_ignores_itself by (simp add: put_set_checksum_def rd16_wr16)
qed

text \<open>Name entries that hold the units of a name, fifteen each.\<close>

lemma chunk_eq_units:
  assumes "\<And>c. c < 15 \<Longrightarrow> k * 15 + c < length name \<Longrightarrow> priv_rd16 e (2 + c * 2) = name ! (k * 15 + c)"
  shows "priv_exfat_name_chunk_eq e name (k * 15)"
  unfolding priv_exfat_name_chunk_eq_def list_all_iff using assms by (metis atLeastLessThan_iff not_less set_upt)

lemma name_units_concat:
  assumes len: "length name \<le> N * 15"
    and rd: "\<And>k c. k < N \<Longrightarrow> c < 15 \<Longrightarrow> k * 15 + c < length name \<Longrightarrow> priv_rd16 (set_entry set' (2 + k)) (2 + c * 2) = name ! (k * 15 + c)"
  shows "concat (map (\<lambda>k. name_units (set_entry set' (1 + k)) k (length name)) [1..<1 + N]) = name"
proof -
  have "name_units (set_entry set' (1 + k)) k (length name) = take 15 (drop ((k - 1) * 15) name)" if "1 \<le> k" "k < 1 + N" for k
    by (rule name_units_chunk [OF that(1)]) (use rd [of "k - 1"] that in simp)
  then have "map (\<lambda>k. name_units (set_entry set' (1 + k)) k (length name)) [1..<1 + N] =
      map (\<lambda>k. take 15 (drop ((k - 1) * 15) name)) [1..<1 + N]" by (intro map_cong) auto
  moreover have "[1..<1 + N] = map Suc [0..<N]" by (simp add: map_Suc_upt)
  ultimately have "concat (map (\<lambda>k. name_units (set_entry set' (1 + k)) k (length name)) [1..<1 + N]) =
      concat (map (\<lambda>k. take 15 (drop ((k - 1) * 15) name)) (map Suc [0..<N]))" by metis
  also have "\<dots> = name" using concat_chunks [of 15 name N] len by (simp add: comp_def)
  finally show ?thesis .
qed

text \<open>C28. The entry set built for a new exFAT file describes itself: it has the file entry with the number of secondary entries
  and the checksum of the whole set, the stream entry with the length and the hash of the name, and name entries that compare
  equal to the name and, read one after the other, give exactly the name.\<close>

theorem exfat_set_roundtrip:
  assumes len: "length name \<le> 255"
  defines "N \<equiv> exfat_name_entries (length name)"
  shows "\<exists>set' t. internal_exfat_build_set name s = (Inr set', t) \<and> length set' = (2 + N) * k_exfat_entry_bytes \<and>
    set_entry set' 0 ! 0 = k_exfat_entry_file \<and> unat (set_entry set' 0 ! k_exfat_off_file_secnt) = 1 + N \<and>
    priv_rd16 (set_entry set' 0) k_exfat_off_file_csum = priv_exfat_set_checksum set' \<and>
    set_entry set' 1 ! 0 = k_exfat_entry_stream \<and> unat (set_entry set' 1 ! k_exfat_strm_off_nlen) = length name \<and>
    priv_rd16 (set_entry set' 1) k_exfat_off_strm_hash = priv_exfat_name_hash name \<and>
    (\<forall>k < N. set_entry set' (2 + k) ! 0 = k_exfat_entry_name \<and> priv_exfat_name_chunk_eq (set_entry set' (2 + k)) name (k * k_exfat_name_per_entry)) \<and>
    concat (map (\<lambda>k. name_units (set_entry set' (1 + k)) k (length name)) [1..<1 + N]) = name"
proof -
  define set0 where "set0 = (replicate ((1 + (1 + N)) * 32) 0 :: bytes)[0 := k_exfat_entry_file, 1 := of_nat (1 + N)]"
  define set1 where "set1 = priv_wr16 set0 k_exfat_off_file_attr (ucast k_exfat_attr_archive)"
  obtain set2 t where st: "priv_exfat_file_stamp_create set1 s = (Inr set2, t)" "length set2 = length set1"
    "\<forall>i. i < 8 \<or> 25 \<le> i \<longrightarrow> set2 ! i = set1 ! i" using stamp_create_frame by blast
  define set4 where "set4 = priv_wr16 (set2[32 := k_exfat_entry_stream, 32 + 1 := k_exfat_secflag_poss, 32 + 3 := of_nat (length name)])
    (32 + k_exfat_off_strm_hash) (priv_exfat_name_hash name)"
  define set5 where "set5 = put_name_entries name set4"
  define set' where "set' = put_set_checksum set5"
  have N: "N \<le> 17" "length name \<le> N * 15" using len by (simp_all add: N_def)
  have l4: "length set4 = (2 + N) * 32" by (simp add: set4_def st(2) set1_def set0_def)
  have p5: "set5 = fold (\<lambda>n set1. fill_units name n ((2 + n) * 32) 15 (set1[(2 + n) * 32 := k_exfat_entry_name])) [0..<N] set4"
    unfolding set5_def put_name_entries_def fill_units_def N_def Let_def by (rule refl)
  note pn = put_names_nth [of N set4 name, folded p5]
  have l5: "length set5 = (2 + N) * 32" using pn l4 by simp
  have run: "internal_exfat_build_set name s = (Inr set', t)"
    using st(1) by (simp add: internal_exfat_build_set_def Let_def bindE_run set0_def set1_def set4_def set5_def set'_def N_def)
  note ck = put_checksum [where set' = set5, folded set'_def]
  have l': "length set' = (2 + N) * 32" by (simp add: ck l5)
  note n' = ck(2)
  have low: "set5 ! i = set4 ! i" if "i < 64" for i using pn l4 that by simp
  have head: "set' ! 0 = k_exfat_entry_file" "unat (set' ! 1) = 1 + N" "priv_rd16 set' 2 = priv_exfat_set_checksum set'"
  proof -
    have "set' ! i = set0 ! i" if "i < 2" for i
      using that st(2,3) by (simp add: n' low set4_def set1_def priv_wr16_def)
    moreover have "unat (of_nat (1 + N) :: u8) = 1 + N" by (rule unat_of_nat_small) (use N(1) in simp)
    ultimately show "set' ! 0 = k_exfat_entry_file" "unat (set' ! 1) = 1 + N" by (simp_all add: set0_def)
    show "priv_rd16 set' 2 = priv_exfat_set_checksum set'" by (rule ck(3)) (simp add: l5)
  qed
  have strm: "set' ! 32 = k_exfat_entry_stream" "unat (set' ! 35) = length name" "priv_rd16 set' 36 = priv_exfat_name_hash name"
  proof -
    show "set' ! 32 = k_exfat_entry_stream" "unat (set' ! 35) = length name"
      using l4 len by (simp_all add: n' low set4_def nth_wr16 unat_of_nat_small)
    have "priv_rd16 set' 36 = priv_rd16 set4 36" by (rule rd16_cong) (simp_all add: n' low)
    then show "priv_rd16 set' 36 = priv_exfat_name_hash name" using l4 by (simp add: set4_def rd16_wr16)
  qed
  have rd: "priv_rd16 (set_entry set' (2 + k)) (2 + c * 2) = name ! (k * 15 + c)" if "k < N" "c < 15" "k * 15 + c < length name" for k c
  proof -
    have "priv_rd16 (set_entry set' (2 + k)) (2 + c * 2) = priv_rd16 set' ((2 + k) * 32 + (2 + c * 2))"
      by (rule set_entry_rd16) (use that l' in simp_all)
    also have "\<dots> = priv_rd16 set5 ((2 + k) * 32 + 2 + c * 2)" by (rule rd16_cong) (simp_all add: n' ac_simps)
    also have "\<dots> = name ! (k * 15 + c)" using pn l4 that by simp
    finally show ?thesis .
  qed
  have names: "set_entry set' (2 + k) ! 0 = k_exfat_entry_name \<and> priv_exfat_name_chunk_eq (set_entry set' (2 + k)) name (k * 15)" if "k < N" for k
    using that pn l4 l' chunk_eq_units [of k name, OF rd] by (simp add: set_entry_nth n')
  have cat: "concat (map (\<lambda>k. name_units (set_entry set' (1 + k)) k (length name)) [1..<1 + N]) = name"
    by (rule name_units_concat [OF N(2)]) (rule rd)
  have e: "set_entry set' 0 ! i = set' ! i" "set_entry set' 1 ! i = set' ! (32 + i)" if "i < 32" for i using that l' by (simp_all add: set_entry_nth)
  have r: "priv_rd16 (set_entry set' 0) 2 = priv_rd16 set' 2" "priv_rd16 (set_entry set' 1) 4 = priv_rd16 set' 36"
    using set_entry_rd16 [of 2 0 set'] set_entry_rd16 [of 4 1 set'] l' by (simp_all add: numeral_2_eq_2)
  show ?thesis by (rule exI [of _ set'], rule exI [of _ t]) (use run l' head strm names cat in \<open>simp add: e r e [simplified] r [simplified] del: upt_Suc\<close>)
qed

theorem exfat_set_roundtrip_witness: "\<exists>set' t. internal_exfat_build_set [0x61, 0x2E, 0x62] (fs_init ()) = (Inr set', t) \<and> length set' = 96"
  using exfat_set_roundtrip [of "[0x61, 0x2E, 0x62]" "fs_init ()"] by auto

end
