(* ===== verification/Free_Count.thy ===== *)
theory Free_Count
  imports File_Extent Fat_Meta
begin

text \<open>
  The free cluster count of \<^verbatim>\<open>ra8_fs_fat_alloc.c\<close> and the free space report of \<^verbatim>\<open>ra8_fs_space_abi.zig\<close>: the count in memory, once known, is
  the number of free entries of the FAT, and the report is exact.
\<close>

section \<open>The free count of a mount\<close>

definition free_clusters :: "('w \<Rightarrow> u64 \<Rightarrow> bytes) \<Rightarrow> 'w mount \<Rightarrow> 'w fs \<Rightarrow> u32 set" where
  "free_clusters content m s = {c. inData m c \<and> fat_at content m s c = k_cluster_free}"

text \<open>The count is not known or is the number of free clusters.\<close>

definition count_exact :: "('w \<Rightarrow> u64 \<Rightarrow> bytes) \<Rightarrow> 'w mount \<Rightarrow> 'w fs \<Rightarrow> bool" where
  "count_exact content m s \<longleftrightarrow> priv_free_count_peek m s = k_fs_free_unknown \<or>
     unat (priv_free_count_peek m s) = card (free_clusters content m s)"

lemma peek_slot: "priv_free_count_peek m s = (case slot_of m s of None \<Rightarrow> k_fs_free_unknown | Some a \<Rightarrow> as_free_count a)"
  by (simp add: priv_free_count_peek_def slot_of_def split: option.split)

lemma peek_frame: "fat_frame s t \<Longrightarrow> priv_free_count_peek m t = priv_free_count_peek m s"
  by (simp add: priv_free_count_peek_def internal_state_for_def fat_frame_def split: option.split)

lemma peek_slot_ops [simp]:
  "priv_free_count_peek m (priv_alloc_hint_set m c s) = priv_free_count_peek m s"
  "priv_free_count_peek m (priv_alloc_hint_lower m c s) = priv_free_count_peek m s"
  "priv_free_count_peek m (priv_free_count_took m n s) = (let p = priv_free_count_peek m s in
     if p = k_fs_free_unknown then p else if p \<ge> n then p - n else 0)"
  "priv_free_count_peek m (priv_free_count_gave m n s) = (let p = priv_free_count_peek m s in
     if p = k_fs_free_unknown then p else if p + n > m_count_of_clusters m then m_count_of_clusters m else p + n)"
  "priv_free_count_peek m s \<noteq> k_fs_free_unknown \<or> internal_state_for (Some (m_addr m)) s \<noteq> None \<Longrightarrow>
     priv_free_count_peek m (priv_free_count_cache m n s) = (if n > m_count_of_clusters m then m_count_of_clusters m else n)"
  unfolding priv_alloc_hint_set_def priv_alloc_hint_lower_def priv_free_count_took_def priv_free_count_gave_def priv_free_count_cache_def
  by (auto simp: peek_slot slot_of_update Let_def split: option.split) (auto simp: slot_of_def)

lemma card_free: "fat_geom m \<Longrightarrow> card (free_clusters content m s) \<le> unat (m_count_of_clusters m)"
  using card_mono [of "{c. inData m c}" "free_clusters content m s"] by (auto simp: card_inData free_clusters_def)


lemma free_clusters_change:
  assumes g: "fat_geom m" and d: "inData m d" and o: "\<forall>c. in_fat m c \<longrightarrow> c \<noteq> d \<longrightarrow> fat_at content m t c = fat_at content m s c"
  shows "free_clusters content m t = (if fat_at content m t d = 0 then insert d (free_clusters content m s) else free_clusters content m s - {d})"
proof -
  have "fat_at content m t c = fat_at content m s c" if "inData m c" "c \<noteq> d" for c
    using that o g by (simp add: inData_iff in_data_in_fat)
  then show ?thesis using d unfolding free_clusters_def by (auto, metis+)
qed

lemma count_took:
  assumes g: "fat_geom m" and e: "count_exact content m s" and d: "d \<in> free_clusters content m s"
    and f: "free_clusters content m t = free_clusters content m s - {d}"
    and p: "priv_free_count_peek m t = (let p = priv_free_count_peek m s in if p = k_fs_free_unknown then p else if p \<ge> 1 then p - 1 else 0)"
  shows "count_exact content m t"
proof (cases "priv_free_count_peek m s = k_fs_free_unknown")
  case False
  have "0 < card (free_clusters content m s)" using d by (simp add: card_gt_0_iff) blast
  with e False have u: "unat (priv_free_count_peek m s) = card (free_clusters content m s)" "priv_free_count_peek m s \<ge> 1"
    by (auto simp: count_exact_def word_le_nat_alt)
  have "unat (priv_free_count_peek m s - 1) = unat (priv_free_count_peek m s) - 1" using u(2) by (subst unat_sub_le) simp_all
  then show ?thesis using u False d p f by (simp add: count_exact_def Let_def)
qed (use p in \<open>simp add: count_exact_def\<close>)

lemma count_gave:
  assumes g: "fat_geom m" and e: "count_exact content m s" and d: "d \<notin> free_clusters content m s"
    and f: "free_clusters content m t = insert d (free_clusters content m s)"
    and p: "priv_free_count_peek m t = (let p = priv_free_count_peek m s in
      if p = k_fs_free_unknown then p else if p + 1 > m_count_of_clusters m then m_count_of_clusters m else p + 1)"
  shows "count_exact content m t"
proof (cases "priv_free_count_peek m s = k_fs_free_unknown")
  case False
  have ct: "card (free_clusters content m t) = card (free_clusters content m s) + 1" using d f by simp
  then have le: "card (free_clusters content m s) + 1 \<le> unat (m_count_of_clusters m)" using card_free [OF g, of content t] by simp
  from e False have u: "unat (priv_free_count_peek m s) = card (free_clusters content m s)" by (simp add: count_exact_def)
  have "unat (priv_free_count_peek m s + 1) = unat (priv_free_count_peek m s) + 1"
    using u le unat_lt [of "m_count_of_clusters m"] by (subst unat_add_small) simp_all
  then show ?thesis using u le False ct p by (simp add: count_exact_def Let_def word_less_nat_alt)
qed (use p in \<open>simp add: count_exact_def\<close>)

lemma words_upt:
  assumes "K \<le> 2 ^ 32"
  shows "distinct (map of_nat [j..<K] :: u32 list)" "set (map of_nat [j..<K] :: u32 list) = {c. j \<le> unat c \<and> unat c < K}"
proof -
  have s: "unat (of_nat i :: u32) = i" if "i < K" for i using that assms by (simp add: unat_of_nat_small)
  then show "distinct (map of_nat [j..<K] :: u32 list)" unfolding distinct_map by (auto intro!: inj_onI) (metis s)
  show "set (map of_nat [j..<K] :: u32 list) = {c. j \<le> unat c \<and> unat c < K}"
    unfolding set_map set_upt by (auto simp: s) (metis atLeastLessThan_iff image_eqI of_nat_unat ucast_id)
qed

context reliable_device
begin

lemma alloc_count:
  assumes m: "on_backend b bs m" and g: "fat_geom m" and inv: "fs_inv valid content m s" and e: "count_exact content m s"
    and r: "priv_alloc_eoc_cluster m s = (Inr d, t)"
  shows "count_exact content m t"
proof (rule count_took [OF g e])
  note ao = alloc_eoc [OF m g inv r]
  from r obtain u where u: "priv_alloc_cluster m s = (Inr d, u)"
    and st: "priv_fat_set m d (priv_eoc_write m) u = (Inr (), t)"
    unfolding priv_alloc_eoc_cluster_def by (auto elim!: bindE_InrE)
  from alloc_cluster [OF m g inv u] obtain w where
    w: "fs_inv valid content m w" "fat_frame s w" "u = priv_free_count_took m 1 (priv_alloc_hint_set m (d + 1) w)" by blast
  have "fs_inv valid content m u" using w by simp
  from fat_set(1) [OF m g in_data_in_fat [OF conjunct1 [OF ao]] this st] have "fat_frame u t" by (simp add: fat_only_def)
  then show "priv_free_count_peek m t = (let p = priv_free_count_peek m s in if p = k_fs_free_unknown then p else if p \<ge> 1 then p - 1 else 0)"
    using peek_frame [of u t m] peek_frame [OF w(2), of m] by (simp add: w(3))
  show "d \<in> free_clusters content m s" using ao g by (simp add: free_clusters_def inData_iff)
  have "fat_at content m t d \<noteq> 0" using ao eoc_write_is_eoc [of m] by auto
  then show "free_clusters content m t = free_clusters content m s - {d}"
    using free_clusters_change [OF g, of d content t s] ao g by (simp add: inData_iff)
qed

lemma free_one_count:
  assumes m: "on_backend b bs m" and g: "fat_geom m" and c: "inData m c" "fat_at content m s c \<noteq> 0" and inv: "fs_inv valid content m s"
    and e: "count_exact content m s" and r: "free_one m c s = (Inr v, t)"
  shows "count_exact content m t"
proof (rule count_gave [OF g e])
  have cf: "in_fat m c" using c(1) g by (simp add: inData_iff in_data_in_fat)
  note fo = free_one(2) [OF m g cf inv r refl]
  show "c \<notin> free_clusters content m s" using c by (simp add: free_clusters_def)
  show "free_clusters content m t = insert c (free_clusters content m s)"
    using free_clusters_change [OF g c(1), of content t s] fo by simp
  from r obtain x u u2 where u: "priv_fat_get m c s = (Inr x, u)" and u2: "priv_fat_set m c k_cluster_free u = (Inr (), u2)"
    and t: "t = priv_alloc_hint_lower m c (priv_free_count_gave m 1 u2)"
    unfolding free_one_def by (auto simp: bindE_run modifyE_def elim!: bindE_InrE)
  note gt = fat_get [OF m inv u]
  from fat_set(1) [OF m g cf conjunct1 [OF gt] u2] gt have "fat_frame s u2" by (auto simp: fat_only_def intro: fat_frame_trans)
  from peek_frame [OF this, of m] show "priv_free_count_peek m t = (let p = priv_free_count_peek m s in
      if p = k_fs_free_unknown then p else if p + 1 > m_count_of_clusters m then m_count_of_clusters m else p + 1)"
    by (simp add: t)
qed

lemma free_loop_count:
  assumes m: "on_backend b bs m" and g: "fat_geom m"
  shows "fs_inv valid content m s \<Longrightarrow> count_exact content m s \<Longrightarrow> chain m (fat_at content m s) c xs \<Longrightarrow>
    free_chain_loop m n c s = (Inr (), t) \<Longrightarrow> count_exact content m t"
proof (induction n arbitrary: c s xs)
  case 0
  have cd: "inData m c" "fat_at content m s c \<noteq> 0"
    using 0(3) chain_nonzero [OF g 0(3)] by (cases xs; auto dest: chain_ConsD)+
  from 0(4) cd(1) obtain v where "free_one m c s = (Inr v, t)" by (auto elim!: bindE_InrE simp: throwE_def split: if_splits)
  then show ?case by (rule free_one_count [OF m g cd 0(1,2)])
next
  case (Suc n)
  have cd: "inData m c" "fat_at content m s c \<noteq> 0"
    using Suc.prems(3) chain_nonzero [OF g Suc.prems(3)] by (cases xs; auto dest: chain_ConsD)+
  from Suc.prems(4) cd(1) obtain v u where u: "free_one m c s = (Inr v, u)"
    and rest: "(if priv_is_eoc m v then returnE () else free_chain_loop m n v) u = (Inr (), t)" by (auto elim!: bindE_InrE)
  have cu: "count_exact content m u" by (rule free_one_count [OF m g cd Suc.prems(1,2) u])
  have cf: "in_fat m c" using cd(1) g by (simp add: inData_iff in_data_in_fat)
  note fo = free_one(2) [OF m g cf Suc.prems(1) u refl]
  show ?case
  proof (cases "priv_is_eoc m v")
    case False
    with Suc.prems(3) fo obtain y ys where xs: "xs = c # y # ys" "chain m (fat_at content m s) v (y # ys)"
      by (cases xs rule: remdups_adj.cases) auto
    have "chain m (fat_at content m u) v (y # ys)"
    proof (rule chain_cong [OF xs(2)])
      fix d assume d: "d \<in> set (y # ys)"
      then have "d \<noteq> c" "in_fat m d" using chain_distinct [OF Suc.prems(3)] xs chain_data [OF xs(2)] g by (auto simp: inData_iff in_data_in_fat)
      then show "fat_at content m u d = fat_at content m s d" using fo by blast
    qed
    with Suc.IH [OF _ cu this] fo rest False show ?thesis by simp
  qed (use rest cu in auto)
qed


lemma fat_free_loop_ok:
  assumes m: "on_backend b bs m" and g: "fat_geom m"
  shows "fs_inv valid content m s \<Longrightarrow> fat_on_medium m s \<Longrightarrow> \<forall>c \<in> set cs. in_fat m c \<Longrightarrow>
    \<exists>t. fat_free_loop m cs n s = (Inr (n + of_nat (length (filter (\<lambda>c. fat_at content m s c = 0) cs))), t) \<and>
      fs_inv valid content m t \<and> content (world t) = content (world s) \<and> fat_frame s t"
proof (induction cs arbitrary: n s)
  case (Cons c cs)
  then have "in_fat m c" by simp
  from fat_get_ok [OF m g this Cons.prems(1,2)] obtain u where
    u: "priv_fat_get m c s = (Inr (fat_at content m s c), u)" "nblocks (world u) = nblocks (world s)" by blast
  note fg = fat_get [OF m Cons.prems(1) u(1)]
  have fa: "fat_at content m u = fat_at content m s" by (rule fat_at_world) (use fg in simp)
  have "fs_inv valid content m u" "fat_on_medium m u" using fg u(2) Cons.prems(2) by (auto simp: fat_on_medium_def)
  from Cons.IH [OF this, of "if fat_at content m s c = 0 then n + 1 else n"] Cons.prems(3) obtain t where
    "fat_free_loop m cs (if fat_at content m s c = 0 then n + 1 else n) u =
      (Inr ((if fat_at content m s c = 0 then n + 1 else n) + of_nat (length (filter (\<lambda>c. fat_at content m s c = 0) cs))), t)"
    "fs_inv valid content m t" "content (world t) = content (world u)" "fat_frame u t" by (auto simp: fa)
  with u fg show ?case by (auto simp: bindE_run intro: fat_frame_trans)
qed auto

lemma free_clusters_ok:
  assumes m: "on_backend b bs m" and g: "fat_geom m" and ty: "m_type m \<noteq> k_ra8_fs_type_exfat" and inv: "fs_inv valid content m s"
    and on: "fat_on_medium m s" and e: "count_exact content m s"
  shows "\<exists>n t. freeClusters m s = (Inr n, t) \<and> unat n = card (free_clusters content m s) \<and> count_exact content m t \<and>
    content (world t) = content (world s) \<and> s_files t = s_files s \<and> s_mounts t = s_mounts s"
proof (cases "priv_free_count_peek m s = k_fs_free_unknown")
  case False
  then show ?thesis using e ty by (intro exI [of _ "priv_free_count_peek m s"] exI [of _ s])
      (auto simp: freeClusters_def bindE_run getE_def count_exact_def)
next
  case True
  define K where "K = 2 + unat (m_count_of_clusters m)"
  have small: "K < 2 ^ 32" using g by (simp add: fat_geom_def K_def)
  let ?cs = "map of_nat [2..<K] :: u32 list"
  note cs = words_upt [OF less_imp_le [OF small], of 2]
  have dat: "set ?cs = {c. inData m c}" unfolding cs(2) using g by (auto simp: inData_iff in_data_def K_def)
  have inf: "\<forall>c \<in> set ?cs. in_fat m c" unfolding dat using g by (simp add: inData_iff in_data_in_fat)
  from fat_free_loop_ok [OF m g inv on inf, of 0] obtain t where
    t: "fat_free_loop m ?cs 0 s = (Inr (of_nat (length (filter (\<lambda>c. fat_at content m s c = 0) ?cs))), t)"
      "content (world t) = content (world s)" "fat_frame s t" by auto
  have "length (filter (\<lambda>c. fat_at content m s c = 0) ?cs) = card (set (filter (\<lambda>c. fat_at content m s c = 0) ?cs))"
    by (rule distinct_card [symmetric]) (rule distinct_filter [OF cs(1)])
  also have "set (filter (\<lambda>c. fat_at content m s c = 0) ?cs) = free_clusters content m s"
    unfolding set_filter dat by (auto simp: free_clusters_def)
  finally have len: "length (filter (\<lambda>c. fat_at content m s c = 0) ?cs) = card (free_clusters content m s)" .
  define n where "n = (of_nat (card (free_clusters content m s)) :: u32)"
  have un: "unat n = card (free_clusters content m s)" unfolding n_def
    using card_free [OF g, of content s] small by (simp add: unat_of_nat_small K_def)
  define u where "u = priv_free_count_cache m n t"
  have "freeClusters m s = (Inr n, u)"
  proof -
    have "unat (of_nat K :: u32) = K" using small by (simp add: unat_of_nat_small)
    then have "fatFree m s = (Inr n, t)"
      using t(1) small unfolding fatFree_def zig_u32_def K_def [symmetric] n_def len [symmetric] by simp
    then show ?thesis using True ty unfolding freeClusters_def by (simp add: bindE_run getE_def modifyE_def u_def)
  qed
  moreover have cu: "content (world u) = content (world s)" "s_files u = s_files s" "s_mounts u = s_mounts s"
    using t(2,3) by (auto simp: u_def priv_free_count_cache_def slot_update_def fat_frame_def split: option.split)
  moreover have "count_exact content m u"
  proof (cases "internal_state_for (Some (m_addr m)) t")
    case None
    then show ?thesis by (simp add: u_def count_exact_def priv_free_count_peek_def priv_free_count_cache_def)
  next
    case (Some i)
    have "fat_at content m u = fat_at content m s" by (rule fat_at_world) (rule cu(1))
    then have "free_clusters content m u = free_clusters content m s" by (simp add: free_clusters_def)
    moreover have "\<not> n > m_count_of_clusters m" using un card_free [OF g, of content s] by (simp add: word_less_nat_alt)
    ultimately show ?thesis using Some un by (simp add: u_def count_exact_def)
  qed
  ultimately show ?thesis using un by blast
qed

end


text \<open>C29. The free count the driver keeps for a mount, once known, is the number of free clusters of the FAT: allocating a cluster
  and releasing a well-formed chain keep it exact.\<close>

theorem free_count_invariant:
  assumes d: "reliable_device b content bs valid nb" and m: "on_backend b bs m" and g: "fat_geom m"
    and inv: "fs_inv valid content m s" and e: "count_exact content m s"
  shows "(\<forall>c t. priv_alloc_eoc_cluster m s = (Inr c, t) \<longrightarrow> count_exact content m t) \<and>
    (\<forall>c xs t. chain m (fat_at content m s) c xs \<and> priv_free_chain m c s = (Inr (), t) \<longrightarrow> count_exact content m t)"
  using reliable_device.alloc_count [OF d m g inv e] reliable_device.free_loop_count [OF d m g inv e]
  unfolding priv_free_chain_def by blast

lemma ex_free_at: "4 \<le> unat c \<Longrightarrow> unat c < 14 \<Longrightarrow> fat_at ram_content ex_mount ex_fs c = 0"
proof -
  assume c: "4 \<le> unat c" "unat c < 14"
  have z: "ex_fat ! k = 0" if "6 \<le> k" "k < 512" for k using that by (simp add: ex_fat_def nth_append nth_Cons')
  show ?thesis using c by (simp add: ex_fat_at fat_decode_def entry_off_def join16_def z Let_def)
qed

lemma ex_free_card: "card (free_clusters ram_content ex_mount ex_fs) = 10"
proof -
  have "inData ex_mount c \<longleftrightarrow> 2 \<le> unat c \<and> unat c < 14" for c
    unfolding inData_iff [OF ex_geom] in_data_def by (auto simp: ex_mount_def)
  moreover have "fat_at ram_content ex_mount ex_fs c = 0 \<longleftrightarrow> 4 \<le> unat c" if "2 \<le> unat c" "unat c < 14" for c
  proof (cases "4 \<le> unat c")
    case False
    then have "c = 2 \<or> c = 3" using that by (auto simp: word_unat_eq_iff)
    then show ?thesis using ex_at(1,2) by auto
  qed (use ex_free_at that in simp)
  ultimately have "free_clusters ram_content ex_mount ex_fs = {c. 2 \<le> unat c \<and> unat c < 14 \<and> 4 \<le> unat c}"
    unfolding free_clusters_def by (intro Collect_cong) blast
  also have "\<dots> = {c. 4 \<le> unat c \<and> unat c < 14}" by auto
  also have "\<dots> = set (map of_nat [4..<14] :: u32 list)" using words_upt(2) [of 14 4] by simp
  also have "card \<dots> = 10" using distinct_card [OF words_upt(1) [of 14 4]] by simp
  finally show ?thesis .
qed

lemma ex_count: "count_exact ram_content ex_mount ex_fs"
proof -
  have "priv_free_count_peek ex_mount ex_fs = 10"
    by (simp add: priv_free_count_peek_def internal_state_for_def ex_fs_def ex_mount_def)
  then show ?thesis by (simp add: count_exact_def ex_free_card)
qed

theorem free_count_invariant_witness:
  "\<exists>t. priv_free_chain ex_mount 2 ex_fs = (Inr (), t) \<and> count_exact ram_content ex_mount t"
proof -
  have w: "free_walk ex_mount (unat (m_count_of_clusters ex_mount)) (fat_at ram_content ex_mount ex_fs) 2 = ([2, 3], True)"
    by (rule free_walk_chain [OF ex_chain]) (simp add: ex_mount_def)
  obtain t where "priv_free_chain ex_mount 2 ex_fs = (Inr (), t)"
    using ram.free_chain_loop_ok [OF ex_on_backend ex_geom ex_inv ex_on_medium] w unfolding priv_free_chain_def by (metis snd_conv)
  then show ?thesis using free_count_invariant [OF ram.reliable_device_axioms ex_on_backend ex_geom ex_inv ex_count] ex_chain by blast
qed

text \<open>A count that is in memory is reported without a look at the medium, whatever the FAT holds.\<close>

lemma free_space_cached:
  assumes "m_type m \<noteq> k_ra8_fs_type_exfat" and "s_mounts s ! h = m" "m_in_use m"
    and "priv_free_count_peek m s \<noteq> k_fs_free_unknown" "\<not> priv_free_count_peek m s > m_count_of_clusters m"
  shows "\<exists>sp. spaceLocked (Some h) True s = (Inr sp, s) \<and> sc_free_clusters sp = priv_free_count_peek m s"
  using assms by (auto simp: spaceLocked_def freeClusters_def mountE_def getE_def bindE_run Let_def)

text \<open>C30. The free space report of a FAT volume for which the driver holds no free count in memory: the scan of the FAT ends and is
  exact. The number of free clusters is the number of data clusters whose FAT entry is zero, used and free add up to the whole and
  the sizes in bytes do not overflow. The medium does not change, and the count that the query leaves in memory is exact. (A count
  that is in memory already is reported as it is: \<open>free_space_cached\<close>. On FAT32 it can come from an FSInfo sector,
  which the mount does not verify; \<open>free_count_invariant\<close> says which operations keep an exact count exact.)\<close>

theorem free_space_exact:
  assumes d: "reliable_device b content bs valid nb" and m: "on_backend b bs m" and g: "fat_geom m" and cg: "cluster_geom m"
    and inv: "fs_inv valid content m s" and on: "\<forall>l \<in> fat_area m. unat l < nb (world s)"
    and p: "priv_free_count_peek m s = k_fs_free_unknown" and h: "s_mounts s ! h = m" "m_in_use m"
  defines "n \<equiv> card (free_clusters content m s)" and "total' \<equiv> unat (m_count_of_clusters m)" and "cb \<equiv> unat (m_sectors_per_cluster m) * bs"
  shows "\<exists>sp t. spaceLocked (Some h) True s = (Inr sp, t) \<and> unat (sc_free_clusters sp) = n \<and> unat (sc_used_clusters sp) = total' - n \<and>
    n \<le> total' \<and> unat (sc_free_bytes sp) = n * cb \<and> unat (sc_used_bytes sp) = (total' - n) * cb \<and> unat (sc_total_bytes sp) = total' * cb \<and>
    count_exact content m t \<and> content (world t) = content (world s)"
proof -
  have ty: "m_type m \<noteq> k_ra8_fs_type_exfat" using cg by (simp add: cluster_geom_def)
  have e: "count_exact content m s" using p by (simp add: count_exact_def)
  have "reliable_device.fat_on_medium nb m s" using on by (simp add: reliable_device.fat_on_medium_def [OF d])
  from reliable_device.free_clusters_ok [OF d m g ty inv this e] obtain f t where
    f: "freeClusters m s = (Inr f, t)" "unat f = n" "count_exact content m t" "content (world t) = content (world s)"
    by (auto simp: n_def)
  have le: "n \<le> total'" unfolding n_def total'_def by (rule card_free [OF g])
  then have nf: "\<not> f > m_count_of_clusters m" using f(2) by (simp add: word_less_nat_alt total'_def)
  have us: "unat (m_count_of_clusters m - f) = total' - n" using nf f(2) by (subst unat_sub_le) (simp_all add: total'_def)
  have cb: "unat (priv_cluster_bytes m) = cb" unfolding cb_def
    by (rule reliable_device.offset_split(1) [OF d m cg, of 0]) simp
  have mul: "unat (ucast x * ucast (priv_cluster_bytes m) :: u64) = unat x * cb" for x :: u32
  proof -
    have "unat x * unat (priv_cluster_bytes m) < 2 ^ 32 * 2 ^ 32"
      using unat_lt [of x] unat_lt [of "priv_cluster_bytes m"] by (intro mult_strict_mono) simp_all
    then show ?thesis by (subst unat_mult_small) (simp_all add: cb)
  qed
  have "spaceLocked (Some h) True s = (Inr \<lparr>sc_total_bytes = ucast (m_count_of_clusters m) * ucast (priv_cluster_bytes m),
      sc_free_bytes = ucast f * ucast (priv_cluster_bytes m), sc_used_bytes = ucast (m_count_of_clusters m - f) * ucast (priv_cluster_bytes m),
      sc_bytes_per_cluster = priv_cluster_bytes m, sc_total_clusters = m_count_of_clusters m, sc_free_clusters = f,
      sc_used_clusters = m_count_of_clusters m - f\<rparr>, t)"
    using f(1) h nf by (simp add: spaceLocked_def mountE_def getE_def bindE_run Let_def)
  then show ?thesis using f us le mul by (auto simp: total'_def)
qed

text \<open>The example volume with a count that is not known.\<close>

definition ex_uncounted :: "ram_state fs" where
  "ex_uncounted = ex_fs\<lparr>s_alloc := [\<lparr>as_owner = Some 0, as_next_free = 2, as_free_count = k_fs_free_unknown, as_fsinfo_lba = 0,
     as_bitmap_lba = k_fs_bitmap_unknown, as_dirty = False\<rparr>, alloc_state_zero]\<rparr>"

lemma ex_uncounted:
  "world ex_uncounted = world ex_fs" "s_mounts ex_uncounted = s_mounts ex_fs" "fs_inv ram_valid ram_content ex_mount ex_uncounted"
  "priv_free_count_peek ex_mount ex_uncounted = k_fs_free_unknown"
proof -
  show "world ex_uncounted = world ex_fs" "s_mounts ex_uncounted = s_mounts ex_fs" by (simp_all add: ex_uncounted_def)
  show "fs_inv ram_valid ram_content ex_mount ex_uncounted" by (simp add: fs_inv_def coherent_def ex_uncounted_def ex_fs_def fs_init_def)
  show "priv_free_count_peek ex_mount ex_uncounted = k_fs_free_unknown"
    by (simp add: ex_uncounted_def priv_free_count_peek_def internal_state_for_def ex_mount_def)
qed

theorem free_space_exact_witness:
  "\<exists>sp t. spaceLocked (Some 0) True ex_uncounted = (Inr sp, t) \<and> unat (sc_free_clusters sp) = 10 \<and> unat (sc_used_clusters sp) = 2 \<and>
     count_exact ram_content ex_mount t"
proof -
  have h: "s_mounts ex_uncounted ! 0 = ex_mount" "m_in_use ex_mount" "unat (m_count_of_clusters ex_mount) = 12"
    unfolding ex_uncounted(2) by (simp_all add: ex_fs_def ex_mount_def)
  have n: "card (free_clusters ram_content ex_mount ex_uncounted) = 10"
    using ex_free_card fat_at_world [of ram_content ex_uncounted ex_fs ex_mount] by (simp add: free_clusters_def ex_uncounted(1))
  have "\<forall>l \<in> fat_area ex_mount. unat l < unat (ram_block_count (world ex_uncounted))"
    using ex_on_medium by (simp add: ram.fat_on_medium_def ex_uncounted(1))
  from free_space_exact [OF ram.reliable_device_axioms ex_on_backend ex_geom ex_open_ok(2) ex_uncounted(3) this ex_uncounted(4) h(1,2)]
  show ?thesis by (auto simp: n h(3))
qed

end
