(* ===== verification/Mount_Frame.thy ===== *)
theory Mount_Frame
  imports File_Frame
begin

text \<open>
  Mounting and unmounting: what the steps of a mount leave alone in the driver and in the mount they fill, and the effect
  of both operations on the mount table and on the ownership of the allocator slots.
\<close>

section \<open>Recognition steps\<close>

definition on_both :: "('s \<Rightarrow> bool) \<Rightarrow> ('c \<Rightarrow> bool) \<Rightarrow> 's \<times> 'c \<Rightarrow> bool" where
  "on_both I J p \<longleftrightarrow> I (fst p) \<and> J (snd p)"

lemma keeps_both_onM [keeps_rules]: "(\<And>m. keeps I (f m)) \<Longrightarrow> keeps (on_both I J) (onM f)"
  by (auto simp: keeps_def on_both_def onM_def split: prod.split) (metis snd_conv)

lemma keeps_both_askM [keeps_rules]: "keeps (on_both I J) (askM f)"
  by (auto simp: keeps_def on_both_def askM_def split: prod.split)

lemma keeps_both_setM: "(\<And>m. J m \<Longrightarrow> J (f m)) \<Longrightarrow> keeps (on_both I J) (setM f)"
  by (auto simp: keeps_def on_both_def setM_def split: prod.split)

text \<open>A property of a mount that recognising a volume does not touch.\<close>

locale recognition_frame = driver_frame I for I :: "'w fs \<Rightarrow> bool" +
  fixes J :: "'w mount \<Rightarrow> bool"
  assumes J_same: "J m \<Longrightarrow> m_addr m' = m_addr m \<Longrightarrow> m_in_use m' = m_in_use m \<Longrightarrow> m_backend m' = m_backend m \<Longrightarrow>
      m_bytes_per_sector m' = m_bytes_per_sector m \<Longrightarrow> J m'"
begin

lemma keeps_fields:
  assumes "\<And>m. m_addr (f m) = m_addr m \<and> m_in_use (f m) = m_in_use m \<and> m_backend (f m) = m_backend m \<and>
      m_bytes_per_sector (f m) = m_bytes_per_sector m"
  shows "keeps (on_both I J) (setM f)"
  by (rule keeps_both_setM) (metis J_same assms)

lemma keeps_both_parse_bpb [keeps_rules]: "keeps (on_both I J) (priv_parse_bpb_into_mount buf)"
  unfolding priv_parse_bpb_into_mount_def by (intro keeps_rules keeps_fields; simp)

lemma keeps_both_compute_geometry [keeps_rules]: "keeps (on_both I J) internal_compute_geometry"
  unfolding internal_compute_geometry_def by (intro keeps_rules keeps_fields; simp)

lemma keeps_both_upcase_verify [keeps_rules]: "keeps (on_both I J) priv_exfat_upcase_verify"
  unfolding priv_exfat_upcase_verify_def by (intro keeps_rules keeps_fields; simp)

lemma keeps_both_exfat_parse [keeps_rules]: "keeps (on_both I J) (internal_exfat_parse buf)"
  unfolding internal_exfat_parse_def by (intro keeps_rules keeps_fields; simp)

lemma keeps_both_parse_volume [keeps_rules]: "keeps (on_both I J) (priv_parse_volume buf)"
  unfolding priv_parse_volume_def by (intro keeps_rules)

lemma keeps_both_finish [keeps_rules]: "keeps (on_both I J) (finish_boot_sector base)"
  unfolding finish_boot_sector_def by (intro keeps_rules keeps_fields; simp)

lemma keeps_both_read_boot_sector [keeps_rules]: "keeps (on_both I J) (internal_read_boot_sector index)"
  unfolding internal_read_boot_sector_def by (intro keeps_rules)

end

section \<open>The tables of the driver\<close>

abbreviation owners :: "'w fs \<Rightarrow> nat option list" where
  "owners s \<equiv> map as_owner (s_alloc s)"

definition same_tables :: "'w fs \<Rightarrow> 'w fs \<Rightarrow> bool" where
  "same_tables s t \<longleftrightarrow> s_mounts t = s_mounts s \<and> s_files t = s_files s \<and> owners t = owners s \<and>
     length (s_fat_cache t) = length (s_fat_cache s) \<and> s_clock_bound t = s_clock_bound s \<and> s_clock t = s_clock s \<and>
     s_lock t = s_lock s"

lemma map_update_same: "f y = f (xs ! i) \<Longrightarrow> map f (xs[i := y]) = map f xs"
  by (metis list_update_id map_update)

lemma owners_update: "as_owner a = as_owner (s_alloc s ! i) \<Longrightarrow> map as_owner ((s_alloc s)[i := a]) = owners s"
  by (rule map_update_same)

interpretation tables: driver_frame "same_tables s" for s :: "'w fs"
  by unfold_locales (auto simp: same_tables_def owners_update)

text \<open>The mount that is being filled: not yet in use, at its place in the table, on the caller's device.\<close>

definition filling :: "nat \<Rightarrow> 'w backend \<Rightarrow> (u32 \<Rightarrow> bool) \<Rightarrow> 'w mount \<Rightarrow> bool" where
  "filling i b P m \<longleftrightarrow> m_addr m = i \<and> \<not> m_in_use m \<and> m_backend m = b \<and> P (m_bytes_per_sector m)"

interpretation filling: recognition_frame "same_tables s" "filling i b P" for s :: "'w fs" and i b P
  by unfold_locales (auto simp: filling_def)

section \<open>The well-formed driver state\<close>

text \<open>
  A mount in use has a complete device, a sector size the driver supports and a recognised type.
\<close>

definition mount_ok :: "'w mount \<Rightarrow> bool" where
  "mount_ok m \<longleftrightarrow> read_block (m_backend m) \<noteq> None \<and> write_block (m_backend m) \<noteq> None \<and> get_capacity (m_backend m) \<noteq> None \<and>
     internal_bps_valid (m_bytes_per_sector m) \<and> m_type m \<noteq> k_ra8_fs_type_unknown"

definition file_ok :: "fs_file \<Rightarrow> bool" where
  "file_ok f \<longleftrightarrow> (f_in_use f \<longrightarrow> (\<exists>h < k_ra8_fs_max_mounts. f_mount f = Some h))"

text \<open>Which mounts own an allocator slot: exactly those in use, and each of them one.\<close>

definition slots_ok :: "'w mount list \<Rightarrow> nat option list \<Rightarrow> bool" where
  "slots_ok ms os \<longleftrightarrow> length ms = k_ra8_fs_max_mounts \<and> length os = k_ra8_fs_max_mounts \<and>
     distinct (filter (\<lambda>p. p \<noteq> None) os) \<and>
     (\<forall>i. Some i \<in> set os \<longleftrightarrow> i < k_ra8_fs_max_mounts \<and> m_in_use (ms ! i))"

definition fs_wf :: "'w fs \<Rightarrow> bool" where
  "fs_wf s \<longleftrightarrow> slots_ok (s_mounts s) (owners s) \<and> length (s_files s) = k_ra8_fs_max_files \<and>
     length (s_fat_cache s) = unat k_ra8_fs_sector_max \<and>
     (\<forall>i < k_ra8_fs_max_mounts. m_addr (s_mounts s ! i) = i \<and> (m_in_use (s_mounts s ! i) \<longrightarrow> mount_ok (s_mounts s ! i))) \<and>
     (\<forall>f \<in> set (s_files s). file_ok f)"

lemma two_list: "length xs = 2 \<Longrightarrow> \<exists>a b. xs = [a, b]"
  by (cases xs; cases "tl xs") auto

lemma owners_release:
  assumes "length (s_alloc s) = 2" and "distinct (filter (\<lambda>p. p \<noteq> None) (owners s))"
  shows "owners (priv_alloc_state_release m s) = map (\<lambda>p. if p = Some (m_addr m) then None else p) (owners s)"
proof -
  obtain a b where ab: "s_alloc s = [a, b]" using two_list [OF assms(1)] by blast
  show ?thesis
    using assms(2) ab
    by (cases "as_owner a = Some (m_addr m)"; cases "as_owner b = Some (m_addr m)")
      (simp_all add: priv_alloc_state_release_def internal_state_for_def slot_update_def alloc_state_zero_def Let_def)
qed

lemma release_rest:
  "s_mounts (priv_alloc_state_release m s) = s_mounts s" "s_files (priv_alloc_state_release m s) = s_files s"
  "s_fat_cache (priv_alloc_state_release m s) = s_fat_cache s" "s_lock (priv_alloc_state_release m s) = s_lock s"
  by (auto simp: priv_alloc_state_release_def Let_def slot_update_def split: option.split)

lemma owners_bind:
  assumes "slots_ok (s_mounts s) (owners s)" and "m_addr m < 2" and "\<not> m_in_use (s_mounts s ! m_addr m)"
  shows "\<exists>j < 2. owners s ! j = None \<and> owners (priv_alloc_state_bind m s) = (owners s)[j := Some (m_addr m)]"
proof -
  have "length (s_alloc s) = 2" using assms(1) by (simp add: slots_ok_def)
  then obtain a b where ab: "s_alloc s = [a, b]" using two_list by blast
  have sl: "\<And>i. Some i \<in> set (owners s) \<longleftrightarrow> i < 2 \<and> m_in_use (s_mounts s ! i)"
    and di: "distinct (filter (\<lambda>p. p \<noteq> None) (owners s))" using assms(1) by (simp_all add: slots_ok_def)
  have "Some (m_addr m) \<notin> set (owners s)" unfolding sl using assms(3) by simp
  then have no: "as_owner a \<noteq> Some (m_addr m)" "as_owner b \<noteq> Some (m_addr m)" using ab by auto
  have "as_owner a = None \<or> as_owner b = None"
  proof (rule ccontr)
    assume "\<not> ?thesis"
    then obtain p q where pq: "as_owner a = Some p" "as_owner b = Some q" by auto
    have "Some p \<in> set (owners s)" "Some q \<in> set (owners s)" using pq ab by auto
    then have "p < 2" "q < 2" unfolding sl by simp_all
    moreover have "p \<noteq> q" using di pq ab by auto
    moreover have "p \<noteq> m_addr m" "q \<noteq> m_addr m" using no pq by auto
    ultimately show False using assms(2) by linarith
  qed
  then show ?thesis using no ab
    by (auto simp: priv_alloc_state_bind_def internal_state_for_def slot_update_def Let_def split: option.split if_splits
        intro: exI [of _ 0] exI [of _ 1])
qed

lemma bind_rest:
  "s_mounts (priv_alloc_state_bind m s) = s_mounts s" "s_files (priv_alloc_state_bind m s) = s_files s"
  "s_fat_cache (priv_alloc_state_bind m s) = s_fat_cache s" "s_lock (priv_alloc_state_bind m s) = s_lock s"
  by (auto simp: priv_alloc_state_bind_def Let_def slot_update_def split: option.split)


lemma fs_wf_tables: "same_tables s t \<Longrightarrow> fs_wf s \<Longrightarrow> fs_wf t"
  by (simp add: same_tables_def fs_wf_def)

interpretation wf: driver_frame fs_wf
  by unfold_locales (simp_all add: fs_wf_def owners_update)

section \<open>Mounting\<close>

lemma filled_type:
  assumes "bindE (askM m_type) (\<lambda>ty. whenE (ty \<noteq> k_ra8_fs_type_exfat) internal_compute_geometry) (s, m) = (Inr (), (t, m'))"
  shows "m_type m' \<noteq> k_ra8_fs_type_unknown"
  using assms
  by (auto simp: askM_def setM_def monad_defs internal_compute_geometry_def Let_def split: if_splits)

definition complete_backend :: "'w backend \<Rightarrow> bool" where
  "complete_backend b \<longleftrightarrow> read_block b \<noteq> None \<and> write_block b \<noteq> None \<and> get_capacity b \<noteq> None"

lemma probe_bps_ok:
  assumes "internal_mount_probe_bps b (s, m) = (Inr (), (t, m'))"
  shows "internal_bps_valid (m_bytes_per_sector m')"
  using assms
  by (auto simp: internal_mount_probe_bps_def onM_def setM_def bindE_def throwE_def split: prod.splits sum.splits if_splits)

text \<open>Recognition, the part of \<open>mount_fill\<close> before an allocator slot is taken.\<close>

definition recognise :: "'w backend \<Rightarrow> u8 \<Rightarrow> ('w, unit) mop" where
  "recognise b index =
     bindE (setM (\<lambda>m. (mount_zero (m_addr m))\<lparr>m_backend := b\<rparr>)) (\<lambda>_.
     bindE (internal_mount_probe_bps b) (\<lambda>_.
     bindE (internal_read_boot_sector index) (\<lambda>_.
     bindE (askM m_type) (\<lambda>ty. whenE (ty \<noteq> k_ra8_fs_type_exfat) internal_compute_geometry))))"

lemma mount_fill_split: "mount_fill b index = bindE (recognise b index) (\<lambda>_.
     bindE (onM (\<lambda>m. modifyE (priv_alloc_state_bind m))) (\<lambda>_.
     attemptE (onM priv_fsinfo_seed) (\<lambda>r. case r of
       Inl err \<Rightarrow> bindE (onM (\<lambda>m. modifyE (priv_alloc_state_release m))) (\<lambda>_. throwE err)
     | Inr _ \<Rightarrow> setM (\<lambda>m. m\<lparr>m_in_use := True\<rparr>))))"
  by (simp add: mount_fill_def recognise_def bindE_assoc)

lemma recognise_effect:
  assumes r: "recognise b index (s, m) = (r, (t, m'))"
  shows "same_tables s t" "m_addr m' = m_addr m" "\<not> m_in_use m'" "m_backend m' = b"
    "r = Inr () \<Longrightarrow> internal_bps_valid (m_bytes_per_sector m') \<and> m_type m' \<noteq> k_ra8_fs_type_unknown"
proof -
  let ?F = "\<lambda>P. on_both (same_tables s) (filling (m_addr m) b P)"
  define m0 where "m0 = (mount_zero (m_addr m))\<lparr>m_backend := b\<rparr>"
  have z: "?F (\<lambda>_. True) (s, m0)" by (simp add: on_both_def filling_def same_tables_def m0_def mount_zero_def)
  have k: "keeps (?F P) (bindE (internal_read_boot_sector index) (\<lambda>_.
      bindE (askM m_type) (\<lambda>ty. whenE (ty \<noteq> k_ra8_fs_type_exfat) internal_compute_geometry)))" for P
    by (intro keeps_rules filling.keeps_both_compute_geometry filling.keeps_both_read_boot_sector)
  have kp: "keeps (?F (\<lambda>_. True)) (internal_mount_probe_bps b)"
    unfolding internal_mount_probe_bps_def
    by (intro keeps_rules keeps_both_setM tables.keeps_liftW) (simp_all add: filling_def)
  have r': "bindE (internal_mount_probe_bps b) (\<lambda>_. bindE (internal_read_boot_sector index) (\<lambda>_.
      bindE (askM m_type) (\<lambda>ty. whenE (ty \<noteq> k_ra8_fs_type_exfat) internal_compute_geometry))) (s, m0) = (r, (t, m'))"
    using r unfolding recognise_def by (subst (asm) bindE_run [where x = "()" and t = "(s, m0)"]) (simp_all add: setM_def m0_def)
  have all: "?F (\<lambda>_. True) (t, m')" by (rule keepsD [OF keeps_bindE [OF kp k] z r'])
  then show "same_tables s t" "m_addr m' = m_addr m" "\<not> m_in_use m'" "m_backend m' = b"
    by (simp_all add: on_both_def filling_def)
  assume ok: "r = Inr ()"
  from r' show "internal_bps_valid (m_bytes_per_sector m') \<and> m_type m' \<noteq> k_ra8_fs_type_unknown" unfolding ok
  proof (cases rule: bindE_InrE)
    case (1 x p)
    obtain s1 m1 where p: "p = (s1, m1)" by (cases p)
    have "?F internal_bps_valid (s1, m1)"
      using keepsD [OF kp z 1(1)] probe_bps_ok 1(1) unfolding p by (auto simp: on_both_def filling_def)
    from keepsD [OF k this 1(2) [unfolded p]] have "internal_bps_valid (m_bytes_per_sector m')"
      by (simp add: on_both_def filling_def)
    moreover from 1(2) have "m_type m' \<noteq> k_ra8_fs_type_unknown"
      by (rule bindE_InrE) (metis filled_type surj_pair)
    ultimately show ?thesis ..
  qed
qed


lemma owners_taken:
  assumes "length os = 2" "distinct (filter (\<lambda>p. p \<noteq> None) os)" "Some i \<notin> set os" "j < 2" "os ! j = None"
  shows "distinct (filter (\<lambda>p. p \<noteq> None) (os[j := Some i]))" "map (\<lambda>p. if p = Some i then None else p) (os[j := Some i]) = os"
proof -
  obtain a b where ab: "os = [a, b]" using two_list [OF assms(1)] by blast
  have "j = 0 \<or> j = 1" using assms(4) by auto
  then show "distinct (filter (\<lambda>p. p \<noteq> None) (os[j := Some i]))" "map (\<lambda>p. if p = Some i then None else p) (os[j := Some i]) = os"
    using assms ab by auto
qed

lemma mount_fill_effect:
  assumes wf: "fs_wf s" and i: "i < 2" and free: "\<not> m_in_use (s_mounts s ! i)" and b: "complete_backend b"
    and r: "mount_fill b index (s, s_mounts s ! i) = (r, (t, m'))"
  shows "m_addr m' = i \<and> s_mounts t = s_mounts s \<and> s_files t = s_files s \<and> length (s_fat_cache t) = length (s_fat_cache s) \<and>
    (if r = Inr () then m_in_use m' \<and> mount_ok m' \<and> (\<exists>j < 2. owners s ! j = None \<and> owners t = (owners s)[j := Some i])
     else \<not> m_in_use m' \<and> owners t = owners s)"
proof -
  have sl: "slots_ok (s_mounts s) (owners s)" and ad: "m_addr (s_mounts s ! i) = i" using wf i by (simp_all add: fs_wf_def)
  from r [unfolded mount_fill_split] show ?thesis
  proof (cases rule: bindE_cases)
    case (Err e)
    from recognise_effect [OF Err(1)] Err(2) ad show ?thesis by (simp add: same_tables_def)
  next
    case (Ok x p)
    obtain s1 m1 where p: "p = (s1, m1)" by (cases p)
    note rec = recognise_effect [OF Ok(1) [unfolded p]]
    have a1: "m_addr m1 = i" and st1: "s_mounts s1 = s_mounts s" "owners s1 = owners s" using rec(1,2) ad by (simp_all add: same_tables_def)
    from owners_bind [of s1 m1] obtain j where j: "j < 2" "owners s ! j = None"
      "owners (priv_alloc_state_bind m1 s1) = (owners s)[j := Some i]" using sl i free a1 st1 by auto
    obtain r2 s2 where seed: "priv_fsinfo_seed m1 (priv_alloc_state_bind m1 s1) = (r2, s2)" by fastforce
    have st2: "same_tables (priv_alloc_state_bind m1 s1) s2"
      by (rule keepsD [OF tables.keeps_priv_fsinfo_seed _ seed]) (simp add: same_tables_def)
    have len: "length (s_alloc s2) = 2" using st2 j(3) arg_cong [OF j(3), of length] sl
      by (metis length_list_update length_map same_tables_def slots_ok_def)
    have own: "length (owners s) = 2" "distinct (filter (\<lambda>p. p \<noteq> None) (owners s))" "Some i \<notin> set (owners s)"
      using sl free by (simp_all add: slots_ok_def)
    note tk = owners_taken [OF own j(1,2)]
    note fin = Ok(2) [unfolded p] and rest = rec(1) st2 bind_rest [of m1 s1]
    show ?thesis
    proof (cases r2)
      case (Inl err)
      then have "r = Inl err" "t = priv_alloc_state_release m1 s2" "m' = m1"
        using fin seed by (auto simp: onM_def monad_defs)
      moreover have o2: "owners s2 = (owners s)[j := Some i]" using st2 j(3) by (simp add: same_tables_def)
      have "owners (priv_alloc_state_release m1 s2) = owners s"
        using owners_release [OF len, of m1] unfolding o2 a1 using tk by (simp only:)
      ultimately show ?thesis using rest a1 rec(3) by (simp add: same_tables_def release_rest)
    next
      case (Inr u)
      then have "r = Inr ()" "t = s2" "m' = m1\<lparr>m_in_use := True\<rparr>" using fin seed by (auto simp: onM_def setM_def monad_defs)
      then show ?thesis
        using rest j a1 rec(4,5) b by (auto simp: same_tables_def mount_ok_def complete_backend_def)
    qed
  qed
qed


lemma slots_taken:
  assumes sl: "slots_ok ms os" and i: "i < 2" and free: "\<not> m_in_use (ms ! i)" and m: "m_in_use m" and j: "j < 2" "os ! j = None"
  shows "slots_ok (ms[i := m]) (os[j := Some i])"
proof -
  have len: "length ms = 2" "length os = 2" using sl by (simp_all add: slots_ok_def)
  have own: "distinct (filter (\<lambda>p. p \<noteq> None) os)" "Some i \<notin> set os" using sl free by (simp_all add: slots_ok_def)
  have "Some k \<in> set (os[j := Some i]) \<longleftrightarrow> k = i \<or> Some k \<in> set os" for k
  proof -
    obtain a b where "os = [a, b]" using two_list [OF len(2)] by blast
    moreover have "j = 0 \<or> j = 1" using j(1) by auto
    ultimately show ?thesis using j(2) by auto
  qed
  moreover have "\<And>k. Some k \<in> set os \<longleftrightarrow> k < 2 \<and> m_in_use (ms ! k)" using sl by (simp add: slots_ok_def)
  ultimately show ?thesis
    using len owners_taken(1) [OF len(2) own j] i m by (auto simp: slots_ok_def nth_list_update)
qed

lemma slots_same:
  assumes "slots_ok ms os" and "m_in_use m = m_in_use (ms ! i)"
  shows "slots_ok (ms[i := m]) os"
proof -
  have "m_in_use (ms[i := m] ! k) = m_in_use (ms ! k)" for k
    using assms(2) by (cases "i < length ms"; cases "k = i") (simp_all add: list_update_beyond)
  then show ?thesis using assms(1) by (simp add: slots_ok_def)
qed

lemma slots_released:
  assumes sl: "slots_ok ms os" and i: "i < 2"
  shows "slots_ok (ms[i := m\<lparr>m_in_use := False, m_type := ty\<rparr>]) (map (\<lambda>p. if p = Some i then None else p) os)"
proof -
  have len: "length ms = 2" "length os = 2" and di: "distinct (filter (\<lambda>p. p \<noteq> None) os)"
    and mem: "\<And>k. Some k \<in> set os \<longleftrightarrow> k < 2 \<and> m_in_use (ms ! k)" using sl by (simp_all add: slots_ok_def)
  obtain a b where ab: "os = [a, b]" using two_list [OF len(2)] by blast
  have "Some k \<in> set (map (\<lambda>p. if p = Some i then None else p) os) \<longleftrightarrow> k \<noteq> i \<and> Some k \<in> set os" for k
    unfolding ab by auto
  moreover have "distinct (filter (\<lambda>p. p \<noteq> None) (map (\<lambda>p. if p = Some i then None else p) os))"
    using di unfolding ab by auto
  moreover have "k < 2 \<and> m_in_use (ms[i := m\<lparr>m_in_use := False, m_type := ty\<rparr>] ! k) \<longleftrightarrow> k \<noteq> i \<and> k < 2 \<and> m_in_use (ms ! k)" for k
    using len i by (cases "k = i") simp_all
  ultimately show ?thesis using len unfolding slots_ok_def mem by (simp only: length_list_update length_map simp_thms)
qed

lemma fs_wf_slot:
  assumes wf: "fs_wf s" and sl: "slots_ok ((s_mounts s)[i := m]) (owners t)" and m: "m_addr m = i" "m_in_use m \<longrightarrow> mount_ok m"
    and t: "s_mounts t = s_mounts s" "s_files t = s_files s" "length (s_fat_cache t) = length (s_fat_cache s)"
  shows "fs_wf (t\<lparr>s_mounts := (s_mounts t)[i := m]\<rparr>)"
proof -
  have len: "length (s_mounts s) = 2" using wf by (simp add: fs_wf_def slots_ok_def)
  have "(s_mounts s)[i := m] ! k = (if i = k then m else s_mounts s ! k)" if "k < 2" for k
    using that len by (simp add: nth_list_update)
  then show ?thesis using wf sl m t by (auto simp: fs_wf_def)
qed

lemma keeps_mount_locked: "keeps fs_wf (internal_mount_locked backend index)"
proof (rule keepsI)
  fix s r t
  assume wf: "fs_wf s" and run: "internal_mount_locked backend index s = (r, t)"
  show "fs_wf t"
  proof (cases "\<exists>b i. backend = Some b \<and> complete_backend b \<and> internal_alloc_mount_slot s = Some i")
    case False
    with run have "t = s" by (auto simp: internal_mount_locked_def complete_backend_def bindE_def split: option.splits if_splits)
    with wf show ?thesis by simp
  next
    case True
    then obtain b i where b: "backend = Some b" "complete_backend b" and i: "internal_alloc_mount_slot s = Some i" by blast
    from i have fi: "i < 2" "\<not> m_in_use (s_mounts s ! i)"
      by (auto simp: internal_alloc_mount_slot_def find_Some_iff)
    obtain r' t' m' where f: "mount_fill b index (s, s_mounts s ! i) = (r', (t', m'))" by (metis prod.exhaust)
    have t: "t = t'\<lparr>s_mounts := (s_mounts t')[i := m']\<rparr>"
      using run b i f by (auto simp: internal_mount_locked_def complete_backend_def bindE_def on_slot_def split: sum.splits if_splits)
    note eff = mount_fill_effect [OF wf fi b(2) f]
    have "slots_ok ((s_mounts s)[i := m']) (owners t')"
      using eff slots_taken [of "s_mounts s" "owners s" i m'] slots_same [of "s_mounts s" "owners s" m' i] wf fi
      by (auto simp: fs_wf_def split: if_splits)
    then show ?thesis unfolding t using eff by (intro fs_wf_slot [OF wf]) (auto split: if_splits)
  qed
qed


section \<open>Unmounting\<close>

lemma keeps_unmount_locked:
  assumes h: "\<And>i. handle = Some i \<Longrightarrow> i < 2"
  shows "keeps fs_wf (internal_unmount_locked handle)"
proof (rule keepsI)
  fix s r t
  assume wf: "fs_wf s" and run: "internal_unmount_locked handle s = (r, t)"
  show "fs_wf t"
  proof (cases "\<exists>i. handle = Some i \<and> m_in_use (s_mounts s ! i)")
    case False
    with run have "t = s \<or> (\<exists>i. t = s\<lparr>s_mounts := (s_mounts s)[i := s_mounts s ! i]\<rparr>)"
      by (auto simp: internal_unmount_locked_def on_slot_def askM_def bindE_def split: option.splits)
    with wf show ?thesis by auto
  next
    case True
    then obtain i where i: "handle = Some i" "m_in_use (s_mounts s ! i)" by blast
    define m where "m = s_mounts s ! i"
    obtain r1 s1 where f: "priv_fsinfo_flush m s = (r1, s1)" by fastforce
    have st: "same_tables s s1"
      by (rule keepsD [OF tables.keeps_priv_fsinfo_flush _ f]) (simp add: same_tables_def)
    define s2 where "s2 = priv_alloc_state_release m s1"
    have t: "t = s2\<lparr>s_mounts := (s_mounts s2)[i := m\<lparr>m_in_use := False, m_type := k_ra8_fs_type_unknown\<rparr>]\<rparr>"
      using run i f unfolding s2_def m_def
      by (auto simp: internal_unmount_locked_def on_slot_def askM_def onM_def setM_def monad_defs)
    have ad: "m_addr m = i" and sl: "slots_ok (s_mounts s) (owners s)" using wf h [OF i(1)] by (simp_all add: fs_wf_def m_def)
    have o: "owners s1 = owners s" using st by (simp add: same_tables_def)
    have len: "length (s_alloc s1) = 2" using arg_cong [OF o, of length] sl by (simp add: slots_ok_def)
    have "owners s2 = map (\<lambda>p. if p = Some i then None else p) (owners s)"
      using owners_release [OF len, of m] sl unfolding s2_def o ad by (simp add: slots_ok_def)
    then have "slots_ok ((s_mounts s)[i := m\<lparr>m_in_use := False, m_type := k_ra8_fs_type_unknown\<rparr>]) (owners s2)"
      using slots_released [OF sl h [OF i(1)]] by simp
    then show ?thesis
      unfolding t using st ad by (intro fs_wf_slot [OF wf]) (auto simp: s2_def release_rest same_tables_def)
  qed
qed

end
