(* ===== verification/Fs_Machine.thy ===== *)
theory Fs_Machine
  imports Mount_Frame Ram_Volume
begin

text \<open>
  The driver as a state machine: every public function is a step of \<open>fs_step\<close>, on any result, and so is any change of
  the outside world between two calls. The frames of \<^verbatim>\<open>Fs_Frame\<close>, \<^verbatim>\<open>File_Frame\<close> and \<^verbatim>\<open>Mount_Frame\<close> are interpreted on
  the tables of the driver, which gives the invariant of the reachable states and what each kind of call leaves alone.
\<close>

section \<open>The frames of the open files\<close>

text \<open>Only the file object \<open>i\<close> may differ.\<close>

definition only_handle :: "nat \<Rightarrow> 'w fs \<Rightarrow> 'w fs \<Rightarrow> bool" where
  "only_handle i s t \<longleftrightarrow> s_mounts t = s_mounts s \<and> owners t = owners s \<and>
     length (s_fat_cache t) = length (s_fat_cache s) \<and> s_clock_bound t = s_clock_bound s \<and> s_clock t = s_clock s \<and>
     s_lock t = s_lock s \<and> length (s_files t) = length (s_files s) \<and> (\<forall>j. j \<noteq> i \<longrightarrow> s_files t ! j = s_files s ! j)"

interpretation lone: handle_frame "only_handle i s" i for i and s :: "'w fs"
  by unfold_locales (auto simp: only_handle_def owners_update)

lemma fs_wf_file: "fs_wf s \<Longrightarrow> file_ok f \<Longrightarrow> fs_wf (s\<lparr>s_files := (s_files s)[i := f]\<rparr>)"
  using set_update_subset_insert [of "s_files s" i f] by (auto simp: fs_wf_def)

lemma fs_wf_content:
  assumes "fs_wf s" and "f_mount f = f_mount (s_files s ! i)" and "f_in_use f = f_in_use (s_files s ! i)"
  shows "fs_wf (s\<lparr>s_files := (s_files s)[i := f]\<rparr>)"
proof (cases "i < length (s_files s)")
  case True
  then have "file_ok (s_files s ! i)" using assms(1) by (simp add: fs_wf_def)
  then have "file_ok f" using assms(2,3) by (simp add: file_ok_def)
  then show ?thesis by (rule fs_wf_file [OF assms(1)])
qed (use assms(1) in \<open>simp add: list_update_beyond\<close>)

interpretation wf_file: handle_frame fs_wf i for i
  by unfold_locales (simp_all add: fs_wf_content fs_wf_file file_ok_def)

interpretation wf_open: open_frame "\<lambda>s. fs_wf s \<and> h < k_ra8_fs_max_mounts" h for h
  by unfold_locales (auto simp: fs_wf_content fs_wf_file file_ok_def wf.I_world wf.I_cache wf.I_alloc)

section \<open>Calls\<close>

text \<open>
  A handle that the library has given out: a mount or a file object of the static tables, or a null pointer. What a
  call returns is left open, so every rule covers the error paths as well.
\<close>

abbreviation mount_handle :: "nat option \<Rightarrow> bool" where
  "mount_handle h \<equiv> (case h of None \<Rightarrow> True | Some i \<Rightarrow> i < k_ra8_fs_max_mounts)"

text \<open>Calls on a volume: no file object takes part.\<close>

inductive volume_call :: "'w fs \<Rightarrow> 'w fs \<Rightarrow> bool" where
  listdir: "ra8_fs_listdir h p cb s = (r, t) \<Longrightarrow> volume_call s t"
| dir_open: "ra8_fs_dir_open h p (s, d) = (r, (t, d')) \<Longrightarrow> volume_call s t"
| dir_next: "ra8_fs_dir_next (s, d) = (r, (t, d')) \<Longrightarrow> volume_call s t"
| dir_close: "ra8_fs_dir_close (s, d) = (r, (t, d')) \<Longrightarrow> volume_call s t"
| unlink: "ra8_fs_unlink h p s = (r, t) \<Longrightarrow> volume_call s t"
| rename: "ra8_fs_rename h p q s = (r, t) \<Longrightarrow> volume_call s t"
| stat: "ra8_fs_stat h p s = (r, t) \<Longrightarrow> volume_call s t"
| mkdir: "ra8_fs_mkdir h p s = (r, t) \<Longrightarrow> volume_call s t"
| rmdir: "ra8_fs_rmdir h p s = (r, t) \<Longrightarrow> volume_call s t"
| get_label: "ra8_fs_get_label h n s = (r, t) \<Longrightarrow> volume_call s t"
| set_label: "ra8_fs_set_label h l s = (r, t) \<Longrightarrow> volume_call s t"
| set_attr: "ra8_fs_set_attr h p on off s = (r, t) \<Longrightarrow> volume_call s t"
| utime: "ra8_fs_utime h p st s = (r, t) \<Longrightarrow> volume_call s t"
| free_space: "ra8_fs_free_space h have_out s = (r, t) \<Longrightarrow> volume_call s t"
| check: "ra8_fs_check fuel h bm have_report s = (r, t) \<Longrightarrow> volume_call s t"
| format: "ra8_fs_format b opts s = (r, t) \<Longrightarrow> volume_call s t"
| probe: "ra8_fs_probe b s = (r, t) \<Longrightarrow> volume_call s t"

text \<open>Calls on the open file \<open>i\<close>.\<close>

inductive file_call :: "nat \<Rightarrow> 'w fs \<Rightarrow> 'w fs \<Rightarrow> bool" for i where
  read_bytes: "ra8_fs_read (Some i) n s = (r, t) \<Longrightarrow> file_call i s t"
| write_bytes: "ra8_fs_write (Some i) b s = (r, t) \<Longrightarrow> file_call i s t"
| seek: "ra8_fs_seek (Some i) p s = (r, t) \<Longrightarrow> file_call i s t"
| tell: "ra8_fs_tell (Some i) s = (r, t) \<Longrightarrow> file_call i s t"
| length_of: "ra8_fs_size (Some i) s = (r, t) \<Longrightarrow> file_call i s t"
| truncate: "ra8_fs_truncate (Some i) n s = (r, t) \<Longrightarrow> file_call i s t"
| close: "ra8_fs_close (Some i) s = (r, t) \<Longrightarrow> file_call i s t"

text \<open>Every way in which the state of the driver changes, the outside world included.\<close>

inductive fs_step :: "'w fs \<Rightarrow> 'w fs \<Rightarrow> bool" where
  on_volume: "volume_call s t \<Longrightarrow> fs_step s t"
| on_file: "file_call i s t \<Longrightarrow> fs_step s t"
| null_file: "f \<in> {ra8_fs_write None b, ra8_fs_seek None p, ra8_fs_truncate None n, ra8_fs_close None} \<Longrightarrow> f s = (r, t) \<Longrightarrow> fs_step s t"
| open_file: "h < k_ra8_fs_max_mounts \<Longrightarrow> ra8_fs_open (Some h) p mode s = (r, t) \<Longrightarrow> fs_step s t"
| write_file: "h < k_ra8_fs_max_mounts \<Longrightarrow> ra8_fs_write_file (Some h) p b s = (r, t) \<Longrightarrow> fs_step s t"
| mount: "ra8_fs_mount b s = (r, t) \<Longrightarrow> fs_step s t"
| mount_partition: "ra8_fs_mount_partition b k s = (r, t) \<Longrightarrow> fs_step s t"
| unmount: "mount_handle h \<Longrightarrow> ra8_fs_unmount h s = (r, t) \<Longrightarrow> fs_step s t"
| set_clock: "ra8_fs_set_clock c s = (r, t) \<Longrightarrow> fs_step s t"
| set_lock: "ra8_fs_set_lock l s = (r, t) \<Longrightarrow> fs_step s t"
| outside: "fs_step s (s\<lparr>world := w\<rparr>)"

inductive fs_reachable :: "'w fs \<Rightarrow> bool" where
  start: "fs_reachable (fs_init w)"
| step: "fs_reachable s \<Longrightarrow> fs_step s t \<Longrightarrow> fs_reachable t"

lemma same_tables_refl [simp]: "same_tables s s"
  by (simp add: same_tables_def)

lemma only_handle_refl [simp]: "only_handle i s s"
  by (simp add: only_handle_def)

lemma tables_run: "f s = (r, t) \<Longrightarrow> keeps (same_tables s) f \<Longrightarrow> same_tables s t"
  by (erule keepsD [where I = "same_tables s", rotated 2]) simp_all

lemma tables_run_on: "f (s, d) = (r, (t, d')) \<Longrightarrow> keeps (on_fs (same_tables s)) f \<Longrightarrow> same_tables s t"
  by (erule keeps_onD [where I = "same_tables s", rotated 2]) simp_all

lemma volume_call_same: "volume_call s t \<Longrightarrow> same_tables s t"
  by (induction rule: volume_call.induct) ((erule tables_run tables_run_on, rule keeps_rules)+)

lemma lone_run: "f s = (r, t) \<Longrightarrow> keeps (only_handle i s) f \<Longrightarrow> only_handle i s t"
  by (erule keepsD [where I = "only_handle i s", rotated 2]) simp_all

lemma file_call_lone: "file_call i s t \<Longrightarrow> only_handle i s t"
  by (induction rule: file_call.induct) (erule lone_run, rule keeps_rules)+

lemma wf_run: "f s = (r, t) \<Longrightarrow> fs_wf s \<Longrightarrow> keeps fs_wf f \<Longrightarrow> fs_wf t"
  by (rule keepsD)

lemma file_call_wf: "file_call i s t \<Longrightarrow> fs_wf s \<Longrightarrow> fs_wf t"
  by (induction rule: file_call.induct) (erule (1) wf_run, rule keeps_rules)+

lemma open_run: "f s = (r, t) \<Longrightarrow> h < k_ra8_fs_max_mounts \<Longrightarrow> fs_wf s \<Longrightarrow> keeps (\<lambda>s. fs_wf s \<and> h < k_ra8_fs_max_mounts) f \<Longrightarrow> fs_wf t"
  by (drule (1) keepsD [rotated 2]) simp_all

lemma null_file_wf:
  "keeps fs_wf (ra8_fs_write None b)" "keeps fs_wf (ra8_fs_seek None p)" "keeps fs_wf (ra8_fs_truncate None n)"
  "keeps fs_wf (ra8_fs_close None)"
  by (auto intro!: wf.keeps_locked keeps_throwE simp: ra8_fs_write_def ra8_fs_seek_def ra8_fs_truncate_def ra8_fs_close_def
      internal_write_locked_def internal_seek_locked_def internal_truncate_locked_def priv_close_locked_def)

lemma setter_wf: "keeps fs_wf (ra8_fs_set_clock c)" "keeps fs_wf (ra8_fs_set_lock l)"
  by (auto intro!: keeps_modifyE keeps_throwE simp: ra8_fs_set_clock_def ra8_fs_set_lock_def fs_wf_def split: option.split)

lemma fs_step_wf: "fs_step s t \<Longrightarrow> fs_wf s \<Longrightarrow> fs_wf t"
proof (induction rule: fs_step.induct)
  case (on_volume s t)
  then show ?case using volume_call_same fs_wf_tables by blast
next
  case (on_file i s t)
  then show ?case by (rule file_call_wf)
next
  case (null_file f b p n s r t)
  then show ?case using wf_run [of f s r t] null_file_wf by blast
next
  case (open_file h p mode s r t)
  then show ?case by (intro open_run [of "ra8_fs_open (Some h) p mode" s r t h] wf_open.keeps_ra8_fs_open) auto
next
  case (write_file h p b s r t)
  then show ?case by (intro open_run [of "ra8_fs_write_file (Some h) p b" s r t h] wf_open.keeps_ra8_fs_write_file) auto
next
  case (mount b s r t)
  then show ?case unfolding ra8_fs_mount_def by (elim wf_run) (auto intro!: wf.keeps_locked keeps_mount_locked)
next
  case (mount_partition b k s r t)
  then show ?case unfolding ra8_fs_mount_partition_def by (elim wf_run) (auto intro!: wf.keeps_locked keeps_mount_locked)
next
  case (unmount h s r t)
  then show ?case unfolding ra8_fs_unmount_def
    by (elim wf_run) (auto intro!: wf.keeps_locked keeps_unmount_locked)
next
  case (set_clock c s r t)
  then show ?case by (elim wf_run) (auto intro: setter_wf)
next
  case (set_lock l s r t)
  then show ?case by (elim wf_run) (auto intro: setter_wf)
next
  case (outside s w)
  then show ?case by (rule wf.I_world)
qed

lemma fs_init_wf: "fs_wf (fs_init w)"
proof -
  have m: "s_mounts (fs_init w) ! i = mount_zero i" if "i < 2" for i using that by (simp add: fs_init_def)
  show ?thesis using m
    by (auto simp: fs_wf_def slots_ok_def mount_zero_def) (simp_all add: fs_init_def alloc_state_zero_def fs_file_zero_def file_ok_def)
qed


section \<open>Invariant of the driver\<close>

text \<open>C9. Whatever sequence of public calls runs on whatever devices, and whether they succeed or fail, the state of the
  driver stays well formed: both tables keep their lengths and every mount its address, a mount in use has a complete
  device, a supported sector size and a recognised type, the mounts in use are exactly the owners of the allocator
  slots and none owns two, every open file names a mount of the table, and the sector cache keeps its capacity.\<close>

theorem reachable_wf:
  assumes "fs_reachable s"
  shows "fs_wf s"
  using assms by induction (simp_all add: fs_init_wf fs_step_wf)

theorem reachable_wf_witness: "fs_wf (snd (ra8_fs_mount (Some ram_backend) (fs_init ex_ram)))"
  by (rule reachable_wf, rule fs_reachable.step [OF fs_reachable.start], rule fs_step.mount, rule prod.collapse [symmetric])

section \<open>What calls leave alone\<close>

text \<open>C33. Calls on a volume (listing, deleting, renaming, stat, directories, label, attributes, times, free space, check,
  format, probe) change neither the mount table nor any open file nor the ownership of allocator slots, nor the clock
  and the lock, on every path.\<close>

theorem volume_call_tables:
  assumes "volume_call s t"
  shows "same_tables s t"
  by (rule volume_call_same [OF assms])

theorem volume_call_tables_witness:
  "same_tables ex_fs (snd (ra8_fs_unlink (Some 0) (Some [0x41]) ex_fs))"
  by (rule volume_call_tables, rule volume_call.unlink, rule prod.collapse [symmetric])

text \<open>C34. A call on one open file (read, write, seek, tell, size, truncate, close) changes no other open file, no mount, no
  slot ownership, no clock and no lock, on every path.\<close>

theorem file_call_isolated:
  assumes "file_call i s t"
  shows "only_handle i s t"
  by (rule file_call_lone [OF assms])

theorem file_call_isolated_witness:
  "only_handle 1 ex_fs (snd (ra8_fs_write (Some 1) (Some [1, 2, 3]) ex_fs))"
  by (rule file_call_isolated, rule file_call.write_bytes, rule prod.collapse [symmetric])

section \<open>Mounting and releasing\<close>

lemma lock_same: "same_tables s (priv_lock_acquire s)" "same_tables s (priv_lock_release s)"
  by (auto simp: priv_lock_acquire_def priv_lock_release_def same_tables_def split: option.split)

lemma locked_run:
  assumes "locked f s = (r, t)"
  obtains s' t' where "same_tables s s'" "f s' = (r, t')" "same_tables t' t"
proof -
  obtain r' u where u: "f (priv_lock_acquire s) = (r', u)" by fastforce
  with assms have "r' = r" "t = priv_lock_release u" by (auto simp: locked_def)
  with u that show thesis using lock_same by metis
qed

lemma mount_locked_effect:
  assumes wf: "fs_wf s" and run: "internal_mount_locked (Some b) index s = (r, t)"
  shows "case r of
      Inr i \<Rightarrow> i < 2 \<and> \<not> m_in_use (s_mounts s ! i) \<and> m_in_use (s_mounts t ! i) \<and> (\<forall>k. k \<noteq> i \<longrightarrow> s_mounts t ! k = s_mounts s ! k)
    | Inl e \<Rightarrow> map m_in_use (s_mounts t) = map m_in_use (s_mounts s) \<and> owners t = owners s"
proof (cases "complete_backend b \<and> internal_alloc_mount_slot s \<noteq> None")
  case False
  with run have "(\<exists>e. r = Inl e) \<and> t = s"
    by (auto simp: internal_mount_locked_def complete_backend_def bindE_def split: option.splits if_splits)
  then show ?thesis by auto
next
  case True
  then obtain i where b: "complete_backend b" and i: "internal_alloc_mount_slot s = Some i" by blast
  from i have fi: "i < 2" "\<not> m_in_use (s_mounts s ! i)" by (auto simp: internal_alloc_mount_slot_def find_Some_iff)
  obtain r' t' m' where f: "mount_fill b index (s, s_mounts s ! i) = (r', (t', m'))" by (metis prod.exhaust)
  have t: "t = t'\<lparr>s_mounts := (s_mounts t')[i := m']\<rparr>" and r: "r = (case r' of Inl e \<Rightarrow> Inl e | Inr _ \<Rightarrow> Inr i)"
    using run b i f by (auto simp: internal_mount_locked_def complete_backend_def bindE_def on_slot_def split: sum.splits if_splits)
  have "i < length (s_mounts s)" using wf fi(1) by (simp add: fs_wf_def slots_ok_def)
  moreover have "map m_in_use ((s_mounts s)[i := m']) = map m_in_use (s_mounts s)" if "m_in_use m' = m_in_use (s_mounts s ! i)"
    by (rule map_update_same) (rule that)
  moreover note eff = mount_fill_effect [OF wf fi b f]
  ultimately show ?thesis using fi unfolding t r by (cases r') (simp_all split: if_splits)
qed

text \<open>C35. Mounting in a well-formed state: on success the returned index is a slot of the table that was free, now in
  use by a mount with a complete device, a supported sector size and a recognised type, and the other mounts are untouched; on
  failure no mount has come into use or gone out of it and no allocator slot has changed hands, so nothing leaks.\<close>

theorem mount_takes_slot:
  assumes "fs_wf s" and "ra8_fs_mount_partition (Some b) index s = (r, t)"
  shows "case r of
      Inr i \<Rightarrow> i < k_ra8_fs_max_mounts \<and> \<not> m_in_use (s_mounts s ! i) \<and> m_in_use (s_mounts t ! i) \<and> mount_ok (s_mounts t ! i) \<and>
        (\<forall>k. k \<noteq> i \<longrightarrow> s_mounts t ! k = s_mounts s ! k)
    | Inl e \<Rightarrow> map m_in_use (s_mounts t) = map m_in_use (s_mounts s) \<and> owners t = owners s"
proof -
  from assms(2) obtain s' t' where run: "same_tables s s'" "internal_mount_locked (Some b) index s' = (r, t')" "same_tables t' t"
    unfolding ra8_fs_mount_partition_def by (rule locked_run)
  have wf': "fs_wf s'" using fs_wf_tables [OF run(1) assms(1)] .
  have "fs_wf t" by (rule fs_wf_tables [OF run(3)], rule keepsD [OF keeps_mount_locked wf' run(2)])
  then show ?thesis using mount_locked_effect [OF wf' run(2)] run(1,3) by (auto simp: same_tables_def fs_wf_def split: sum.splits)
qed


theorem mount_takes_slot_witness:
  "\<exists>r t. ra8_fs_mount_partition (Some ram_backend) 0 (fs_init ex_ram) = (r, t) \<and>
     (case r of Inr i \<Rightarrow> m_in_use (s_mounts t ! i) | Inl e \<Rightarrow> owners t = [None, None])"
proof -
  obtain r t where r: "ra8_fs_mount_partition (Some ram_backend) 0 (fs_init ex_ram) = (r, t)" by fastforce
  have "owners (fs_init ex_ram) = [None, None]" by (simp add: fs_init_def alloc_state_zero_def numeral_2_eq_2)
  then show ?thesis using mount_takes_slot [OF fs_init_wf r] r by (auto split: sum.splits)
qed

text \<open>C36. A mount comes out of use whatever the device does: after an unmount of a mount in use its slot is free, it owns no
  allocator slot any more, and the search for a free mount slot succeeds again, even when the write-back of the free
  count fails and the call returns that error.\<close>

theorem unmount_frees_slot:
  assumes "fs_wf s" and "i < k_ra8_fs_max_mounts" and "m_in_use (s_mounts s ! i)" and "ra8_fs_unmount (Some i) s = (r, t)"
  shows "\<not> m_in_use (s_mounts t ! i) \<and> Some i \<notin> set (owners t) \<and> internal_alloc_mount_slot t \<noteq> None"
proof -
  from assms(4) obtain s' t' where run: "same_tables s s'" "internal_unmount_locked (Some i) s' = (r, t')" "same_tables t' t"
    unfolding ra8_fs_unmount_def by (rule locked_run)
  have wf': "fs_wf s'" using fs_wf_tables [OF run(1) assms(1)] .
  have wf: "fs_wf t" by (rule fs_wf_tables [OF run(3)], rule keepsD [OF keeps_unmount_locked wf' run(2)]) (use assms(2) in simp)
  obtain r1 s1 where f: "priv_fsinfo_flush (s_mounts s' ! i) s' = (r1, s1)" by fastforce
  have st: "same_tables s' s1" by (rule tables_run [OF f tables.keeps_priv_fsinfo_flush])
  have "s_mounts t' = (s_mounts s')[i := (s_mounts s' ! i)\<lparr>m_in_use := False, m_type := k_ra8_fs_type_unknown\<rparr>]"
    using run(1,2) assms(3) f st
    by (auto simp: internal_unmount_locked_def on_slot_def askM_def onM_def setM_def monad_defs same_tables_def release_rest)
  moreover have "i < length (s_mounts s')" using wf' assms(2) by (simp add: fs_wf_def slots_ok_def)
  ultimately have free: "\<not> m_in_use (s_mounts t ! i)" using run(3) by (simp add: same_tables_def)
  then have "Some i \<notin> set (owners t)" using wf by (simp add: fs_wf_def slots_ok_def)
  moreover have "internal_alloc_mount_slot t \<noteq> None"
    using free assms(2) by (auto simp: internal_alloc_mount_slot_def find_None_iff)
  ultimately show ?thesis using free by blast
qed


lemma ex_wf: "fs_wf ex_fs"
proof -
  have "fs_wf (fs_init ex_ram)" by (rule fs_init_wf)
  moreover have "slots_ok (s_mounts ex_fs) (owners ex_fs)"
    by (auto simp: slots_ok_def ex_fs_def alloc_state_zero_def ex_mount_def mount_zero_def nth_Cons split: nat.splits)
  moreover have "mount_ok ex_mount"
    by (simp add: mount_ok_def ex_mount_def ram_backend_fields internal_bps_valid_def)
  moreover have "m_addr ex_mount = 0" by (simp add: ex_mount_def)
  ultimately show ?thesis
    by (auto simp: fs_wf_def ex_fs_def less_Suc_eq numeral_2_eq_2 mount_zero_def)
qed

theorem unmount_frees_slot_witness:
  "\<exists>r t. ra8_fs_unmount (Some 0) ex_fs = (r, t) \<and> \<not> m_in_use (s_mounts t ! 0) \<and> internal_alloc_mount_slot t \<noteq> None"
proof -
  obtain r t where r: "ra8_fs_unmount (Some 0) ex_fs = (r, t)" by fastforce
  have "m_in_use (s_mounts ex_fs ! 0)" by (simp add: ex_fs_def ex_mount_def)
  then show ?thesis using unmount_frees_slot [OF ex_wf _ _ r] r by auto
qed

text \<open>C37. A file handle comes back whatever the device does: after a close the file object is free, names no mount, and the search
  for a free file object succeeds again, even when the final time stamp cannot be written and the call returns that error.\<close>

theorem close_frees_handle:
  assumes "fs_wf s" and "i < k_ra8_fs_max_files" and "ra8_fs_close (Some i) s = (r, t)"
  shows "\<not> f_in_use (s_files t ! i) \<and> f_mount (s_files t ! i) = None \<and> priv_alloc_file_slot t \<noteq> None"
proof -
  from assms(3) obtain s' t' where run: "same_tables s s'" "priv_close_locked (Some i) s' = (r, t')" "same_tables t' t"
    unfolding ra8_fs_close_def by (rule locked_run)
  have len: "length (s_files t') = 4" using wf_file.keeps_priv_close_locked [of i] run(2) fs_wf_tables [OF run(1) assms(1)]
    by (auto simp: fs_wf_def dest: keepsD)
  obtain u where "t' = u\<lparr>s_files := (s_files u)[i := (s_files u ! i)\<lparr>f_dirty := False, f_in_use := False, f_mount := None\<rparr>]\<rparr>"
    using run(2) by (auto simp: priv_close_locked_def bindE_def attemptE_def set_file_def returnR_def Let_def split: prod.splits)
  then have fr: "\<not> f_in_use (s_files t ! i) \<and> f_mount (s_files t ! i) = None"
    using run(3) len assms(2) by (auto simp: same_tables_def)
  then have "priv_alloc_file_slot t \<noteq> None" using assms(2) by (auto simp: priv_alloc_file_slot_def find_None_iff)
  with fr show ?thesis by blast
qed

theorem close_frees_handle_witness:
  "\<exists>r t. ra8_fs_close (Some 3) ex_fs = (r, t) \<and> \<not> f_in_use (s_files t ! 3) \<and> priv_alloc_file_slot t \<noteq> None"
proof -
  obtain r t where r: "ra8_fs_close (Some 3) ex_fs = (r, t)" by fastforce
  then show ?thesis using close_frees_handle [OF ex_wf _ r] by auto
qed

end
