(* ===== verification/Loop_Ends.thy ===== *)
theory Loop_Ends
  imports Fs_Machine
begin

text \<open>
  Every loop of the driver ends, first part: the rules, and the operations on FAT sectors, chains and directories. The model marks a loop that has not ended within its fuel by the error \<open>out_of_fuel\<close>;
  \<open>ends f\<close> says that \<open>f\<close> never returns it, from whatever state. The rules follow the structure of the operations; the loops that are not
  counted by the C source have a measure each.
\<close>

section \<open>Operations that end\<close>

definition ends :: "('s, 'a) op \<Rightarrow> bool" where
  "ends f \<longleftrightarrow> (\<forall>s. fst (f s) \<noteq> Inl out_of_fuel)"

text \<open>The same from the states of an invariant.\<close>

definition ends_in :: "('s \<Rightarrow> bool) \<Rightarrow> ('s, 'a) op \<Rightarrow> bool" where
  "ends_in I f \<longleftrightarrow> (\<forall>s. I s \<longrightarrow> fst (f s) \<noteq> Inl out_of_fuel)"

named_theorems ends_rules \<open>structural rules for operations that end\<close>
named_theorems no_fuel \<open>functions whose results are error codes of the C sources\<close>

lemma endsI: "(\<And>s r t. f s = (r, t) \<Longrightarrow> r \<noteq> Inl out_of_fuel) \<Longrightarrow> ends f"
  unfolding ends_def by (metis prod.collapse)

lemma endsD: "ends f \<Longrightarrow> f s = (r, t) \<Longrightarrow> r \<noteq> Inl out_of_fuel"
  unfolding ends_def by (metis fst_conv)

lemma ends_inI: "(\<And>s r t. I s \<Longrightarrow> f s = (r, t) \<Longrightarrow> r \<noteq> Inl out_of_fuel) \<Longrightarrow> ends_in I f"
  unfolding ends_in_def by (metis prod.collapse)

lemma ends_inD: "ends_in I f \<Longrightarrow> I s \<Longrightarrow> f s = (r, t) \<Longrightarrow> r \<noteq> Inl out_of_fuel"
  unfolding ends_in_def by (metis fst_conv)

lemma ends_any: "ends f \<Longrightarrow> ends_in I f"
  by (simp add: ends_def ends_in_def)

lemma ends_all: "ends_in (\<lambda>_. True) f \<longleftrightarrow> ends f"
  by (simp add: ends_def ends_in_def)

lemma ends_basic [ends_rules]: "ends (returnE x)" "ends (getE g)" "ends (modifyE h)"
  by (simp_all add: ends_def)

lemma ends_throwE [ends_rules]: "e \<noteq> out_of_fuel \<Longrightarrow> ends (throwE e)"
  by (simp add: ends_def)

lemma ends_returnR [ends_rules]: "r \<noteq> Inl out_of_fuel \<Longrightarrow> ends (returnR r)"
  by (simp add: ends_def returnR_def)

lemma ends_in_bindE:
  assumes f: "ends_in I f" and k: "keeps I f" and g: "\<And>x. ends_in I (g x)"
  shows "ends_in I (bindE f g)"
proof (rule ends_inI)
  fix s r t
  assume I: "I s" and b: "bindE f g s = (r, t)"
  from b show "r \<noteq> Inl out_of_fuel"
  proof (cases rule: bindE_cases)
    case (Err e)
    then show ?thesis using ends_inD [OF f I] by blast
  next
    case (Ok x s')
    then show ?thesis using keepsD [OF k I] ends_inD [OF g] by blast
  qed
qed

lemma ends_bindE [ends_rules]: "ends f \<Longrightarrow> (\<And>x. ends (g x)) \<Longrightarrow> ends (bindE f g)"
  unfolding ends_all [symmetric] by (rule ends_in_bindE) (simp_all add: keeps_def)

lemma ends_in_attemptE:
  assumes f: "ends_in I f" and k: "keeps I f" and g: "\<And>r. r \<noteq> Inl out_of_fuel \<Longrightarrow> ends_in I (g r)"
  shows "ends_in I (attemptE f g)"
proof (rule ends_inI)
  fix s r t
  assume I: "I s" and a: "attemptE f g s = (r, t)"
  obtain r' s' where fs: "f s = (r', s')" by (cases "f s") auto
  then have "g r' s' = (r, t)" using a by (simp add: attemptE_def)
  then show "r \<noteq> Inl out_of_fuel" using ends_inD [OF g] ends_inD [OF f I fs] keepsD [OF k I fs] by blast
qed

lemma ends_attemptE [ends_rules]:
  "ends f \<Longrightarrow> (\<And>r. r \<noteq> Inl out_of_fuel \<Longrightarrow> ends (g r)) \<Longrightarrow> ends (attemptE f g)"
  unfolding ends_all [symmetric] by (rule ends_in_attemptE) (simp_all add: keeps_def)

lemma ends_whenE [ends_rules]: "(b \<Longrightarrow> ends f) \<Longrightarrow> ends (whenE b f)"
  by (cases b) (simp_all add: ends_basic)

lemma ends_if [ends_rules]: "(b \<Longrightarrow> ends f) \<Longrightarrow> (\<not> b \<Longrightarrow> ends g) \<Longrightarrow> ends (if b then f else g)"
  by simp

lemma ends_prod [ends_rules]: "(\<And>a b. x = (a, b) \<Longrightarrow> ends (f a b)) \<Longrightarrow> ends (case x of (a, b) \<Rightarrow> f a b)"
  by (cases x) simp

lemma ends_option [ends_rules]:
  "(x = None \<Longrightarrow> ends n) \<Longrightarrow> (\<And>a. x = Some a \<Longrightarrow> ends (f a)) \<Longrightarrow> ends (case x of None \<Rightarrow> n | Some a \<Rightarrow> f a)"
  by (cases x) simp_all

lemma ends_sum [ends_rules]:
  "(\<And>a. x = Inl a \<Longrightarrow> ends (f a)) \<Longrightarrow> (\<And>b. x = Inr b \<Longrightarrow> ends (g b)) \<Longrightarrow> ends (case x of Inl a \<Rightarrow> f a | Inr b \<Rightarrow> g b)"
  by (cases x) simp_all

lemma ends_list [ends_rules]:
  "(x = [] \<Longrightarrow> ends n) \<Longrightarrow> (\<And>a b. x = a # b \<Longrightarrow> ends (f a b)) \<Longrightarrow> ends (case x of [] \<Rightarrow> n | a # b \<Rightarrow> f a b)"
  by (cases x) simp_all

lemma ends_Let [ends_rules]: "ends (f x) \<Longrightarrow> ends (Let x f)"
  by simp

lemma ends_scan_verdict [ends_rules]: "ends a \<Longrightarrow> ends b \<Longrightarrow> ends c \<Longrightarrow>
    ends (case x of k_dir_scan_more \<Rightarrow> a | k_dir_scan_empty \<Rightarrow> b | k_dir_scan_used \<Rightarrow> c)"
  by (cases x) simp_all

lemma ends_callE [ends_rules]: "(\<And>f. p = Some f \<Longrightarrow> ends (k f)) \<Longrightarrow> ends (callE p k)"
  by (cases p) (simp_all add: callE_def ends_throwE)

lemma ends_liftW: "ends f \<Longrightarrow> ends (liftW f)"
  by (auto simp: ends_def liftW_def split: prod.split) (metis fst_conv)

lemma ends_locked [ends_rules]: "ends f \<Longrightarrow> ends (locked f)"
  by (auto simp: ends_def locked_def split: prod.split) (metis fst_conv)

text \<open>Operations that also hold an object of the caller.\<close>

lemma ends_paired: "ends f \<Longrightarrow> ends (\<lambda>(s, c). case f s of (r, s') \<Rightarrow> (r, (s', g r c)))"
  by (auto simp: ends_def split: prod.split) (metis fst_conv)

lemma ends_onC [ends_rules]: "ends f \<Longrightarrow> ends (onC f)"
  unfolding onC_def by (rule ends_paired)

lemma ends_cursor [ends_rules]: "ends (askC f)" "ends (setC g)" "ends (askM f')" "ends (setM g')"
  by (simp_all add: ends_def askC_def setC_def askM_def setM_def split: prod.split)

lemma ends_withC [ends_rules]: "ends f \<Longrightarrow> ends (withC c f)"
  by (auto simp: ends_def withC_def split: prod.split) (metis fst_conv)

text \<open>The functions without state that return an error code.\<close>

lemma utf8_no_fuel [no_fuel]: "priv_utf8_to_utf16 s cap \<noteq> Inl out_of_fuel"
proof -
  have "utf16Put cp out cap \<noteq> Inl out_of_fuel" for cp out by (simp add: utf16Put_def Let_def)
  then have "utf8_loop s cap us \<noteq> Inl out_of_fuel" for us
    by (induction s cap us rule: utf8_loop.induct) (subst utf8_loop.simps, auto split: list.split option.split sum.split)
  then show ?thesis by (simp add: priv_utf8_to_utf16_def)
qed

lemma exfat_name_no_fuel [no_fuel]:
  "priv_exfat_name_to_units m path \<noteq> Inl out_of_fuel"
  "too_long \<noteq> out_of_fuel \<Longrightarrow> priv_exfat_needle_units m path too_long \<noteq> Inl out_of_fuel"
  using utf8_no_fuel [of path k_exfat_name_cap]
  by (auto simp: priv_exfat_name_to_units_def priv_exfat_needle_units_def split: sum.split)

lemma mbr_no_fuel [no_fuel]: "internal_mbr_select_entry buf index \<noteq> Inl out_of_fuel"
  by (simp add: internal_mbr_select_entry_def Let_def)

lemma ends_pure [ends_rules]: "ends (cluster_bytesE m)" "ends (zig_u32 n)"
  by (simp_all add: cluster_bytesE_def zig_u32_def ends_throwE ends_basic)

section \<open>Devices\<close>

text \<open>A device whose functions return: \<open>out_of_fuel\<close> is not among the codes they can return.\<close>

definition answers :: "'w backend \<Rightarrow> bool" where
  "answers b \<longleftrightarrow> (\<forall>f lba n. read_block b = Some f \<longrightarrow> ends (f lba n)) \<and>
     (\<forall>f lba n buf. write_block b = Some f \<longrightarrow> ends (f lba n buf)) \<and>
     (\<forall>f. get_capacity b = Some f \<longrightarrow> ends f) \<and> (\<forall>f lba n. erase_blocks b = Some f \<longrightarrow> ends (f lba n))"

abbreviation answering :: "'w mount \<Rightarrow> bool" where
  "answering m \<equiv> answers (m_backend m)"

lemma ends_device [ends_rules]:
  "answers b \<Longrightarrow> read_block b = Some rd \<Longrightarrow> ends (liftW (rd lba n))"
  "answers b \<Longrightarrow> write_block b = Some wr \<Longrightarrow> ends (liftW (wr lba n buf))"
  "answers b \<Longrightarrow> get_capacity b = Some cap \<Longrightarrow> ends (liftW cap)"
  "answers b \<Longrightarrow> erase_blocks b = Some er \<Longrightarrow> ends (liftW (er lba2 n2))"
  by (simp_all add: answers_def ends_liftW)

text \<open>
  A mount of such a device with a supported sector size, whose count of clusters leaves the hop counter of a directory walk a value to stop at.
\<close>

definition sound :: "'w mount \<Rightarrow> bool" where
  "sound m \<longleftrightarrow> answering m \<and> internal_bps_valid (m_bytes_per_sector m) \<and> m_count_of_clusters m < 0xFFFFFFFF"

lemma sound_bps: "sound m \<Longrightarrow> 512 \<le> unat (priv_bps m) \<and> unat (priv_bps m) \<le> 4096"
  by (auto simp: sound_def priv_bps_def dest: bps_valid_bounds)

lemma sound_answers: "sound m \<Longrightarrow> answering m"
  by (simp add: sound_def)


section \<open>Sectors, entries and chains\<close>

subsection \<open>Sectors\<close>

lemma ends_priv_read_sector [ends_rules]: "answering x1 \<Longrightarrow> ends (priv_read_sector x1 x2)"
  unfolding priv_read_sector_def by (assumption | rule ends_rules | (auto simp: no_fuel split: if_splits; fail))+

lemma ends_priv_write_sector [ends_rules]: "answering x1 \<Longrightarrow> ends (priv_write_sector x1 x2 x3)"
  unfolding priv_write_sector_def by (assumption | rule ends_rules | (auto simp: no_fuel split: if_splits; fail))+

subsection \<open>FAT sectors and FSInfo\<close>

lemma ends_priv_fat_sector_read [ends_rules]: "answering x1 \<Longrightarrow> ends (priv_fat_sector_read x1 x2)"
  unfolding priv_fat_sector_read_def by (assumption | rule ends_rules | (auto simp: no_fuel split: if_splits; fail))+

lemma ends_internal_fsinfo_locate [ends_rules]: "answering x1 \<Longrightarrow> ends (internal_fsinfo_locate x1)"
  unfolding internal_fsinfo_locate_def by (assumption | rule ends_rules | (auto simp: no_fuel split: if_splits; fail))+

lemma ends_priv_fsinfo_seed [ends_rules]: "answering x1 \<Longrightarrow> ends (priv_fsinfo_seed x1)"
  unfolding priv_fsinfo_seed_def by (assumption | rule ends_rules | (auto simp: no_fuel split: if_splits; fail))+

lemma ends_priv_fsinfo_flush [ends_rules]: "answering x1 \<Longrightarrow> ends (priv_fsinfo_flush x1)"
  unfolding priv_fsinfo_flush_def by (assumption | rule ends_rules | (auto simp: no_fuel split: if_splits; fail))+

subsection \<open>FAT entries and cluster allocation\<close>

lemma ends_priv_fat_get [ends_rules]: "answering x1 \<Longrightarrow> ends (priv_fat_get x1 x2)"
  unfolding priv_fat_get_def by (assumption | rule ends_rules | (auto simp: no_fuel split: if_splits; fail))+

lemma ends_internal_fat12_store [ends_rules]: "answering x1 \<Longrightarrow> ends (internal_fat12_store x1 x2 x3 x4 x5)"
  unfolding internal_fat12_store_def by (assumption | rule ends_rules | (auto simp: no_fuel split: if_splits; fail))+

lemma ends_internal_fat12_set_one [ends_rules]: "answering x1 \<Longrightarrow> ends (internal_fat12_set_one x1 x2 x3 x4 x5)"
  unfolding internal_fat12_set_one_def by (assumption | rule ends_rules | (auto simp: no_fuel split: if_splits; fail))+

lemma ends_internal_fat16_set_one [ends_rules]: "answering x1 \<Longrightarrow> ends (internal_fat16_set_one x1 x2 x3 x4)"
  unfolding internal_fat16_set_one_def by (assumption | rule ends_rules | (auto simp: no_fuel split: if_splits; fail))+

lemma ends_internal_fat32_set_one [ends_rules]: "answering x1 \<Longrightarrow> ends (internal_fat32_set_one x1 x2 x3 x4)"
  unfolding internal_fat32_set_one_def by (assumption | rule ends_rules | (auto simp: no_fuel split: if_splits; fail))+

lemma ends_internal_exfat_fat_set_one [ends_rules]: "answering x1 \<Longrightarrow> ends (internal_exfat_fat_set_one x1 x2 x3 x4)"
  unfolding internal_exfat_fat_set_one_def by (assumption | rule ends_rules | (auto simp: no_fuel split: if_splits; fail))+

lemma ends_fat_set_copy [ends_rules]: "answering x1 \<Longrightarrow> ends (fat_set_copy x1 x2 x3 x4)"
  unfolding fat_set_copy_def by (assumption | rule ends_rules | (auto simp: no_fuel split: if_splits; fail))+

lemma ends_fat_set_copies [ends_rules]: "answering x1 \<Longrightarrow> ends (fat_set_copies x1 x2 x3 x4 x5)"
  by (induction x5 arbitrary: x2 x3 x4; simp only: fat_set_copies.simps; (assumption | rule ends_rules | (auto simp: no_fuel split: if_splits; fail))+)

lemma ends_priv_fat_set [ends_rules]: "answering x1 \<Longrightarrow> ends (priv_fat_set x1 x2 x3)"
  unfolding priv_fat_set_def by (assumption | rule ends_rules | (auto simp: no_fuel split: if_splits; fail))+

lemma ends_alloc_scan [ends_rules]: "answering x1 \<Longrightarrow> ends (alloc_scan x1 x2 x3 x4)"
  by (induction x3 arbitrary: x2 x4; simp only: alloc_scan.simps; (assumption | rule ends_rules | (auto simp: no_fuel split: if_splits; fail))+)

lemma ends_priv_alloc_cluster [ends_rules]: "answering x1 \<Longrightarrow> ends (priv_alloc_cluster x1)"
  unfolding priv_alloc_cluster_def by (assumption | rule ends_rules | (auto simp: no_fuel split: if_splits; fail))+

subsection \<open>Cluster chains\<close>

lemma ends_free_one [ends_rules]: "answering x1 \<Longrightarrow> ends (free_one x1 x2)"
  unfolding free_one_def by (assumption | rule ends_rules | (auto simp: no_fuel split: if_splits; fail))+

lemma ends_free_chain_loop [ends_rules]: "answering x1 \<Longrightarrow> ends (free_chain_loop x1 x2 x3)"
  by (induction x2 arbitrary: x3; simp only: free_chain_loop.simps; (assumption | rule ends_rules | (auto simp: no_fuel split: if_splits; fail))+)

lemma ends_priv_free_chain [ends_rules]: "answering x1 \<Longrightarrow> ends (priv_free_chain x1 x2)"
  unfolding priv_free_chain_def by (assumption | rule ends_rules | (auto simp: no_fuel split: if_splits; fail))+

lemma ends_skip_loop [ends_rules]: "answering x1 \<Longrightarrow> ends (skip_loop x1 x2 x3)"
  by (induction x2 arbitrary: x3; simp only: skip_loop.simps; (assumption | rule ends_rules | (auto simp: no_fuel split: if_splits; fail))+)

lemma ends_internal_skip_clusters [ends_rules]: "answering x1 \<Longrightarrow> ends (internal_skip_clusters x1 x2 x3)"
  unfolding internal_skip_clusters_def by (assumption | rule ends_rules | (auto simp: no_fuel split: if_splits; fail))+

lemma ends_priv_alloc_eoc_cluster [ends_rules]: "answering x1 \<Longrightarrow> ends (priv_alloc_eoc_cluster x1)"
  unfolding priv_alloc_eoc_cluster_def by (assumption | rule ends_rules | (auto simp: no_fuel split: if_splits; fail))+

lemma ends_walk_grow_loop [ends_rules]: "answering x1 \<Longrightarrow> ends (walk_grow_loop x1 x2 x3)"
  by (induction x2 arbitrary: x3; simp only: walk_grow_loop.simps; (assumption | rule ends_rules | (auto simp: no_fuel split: if_splits; fail))+)

lemma ends_internal_walk_grow [ends_rules]: "answering x1 \<Longrightarrow> ends (internal_walk_grow x1 x2 x3)"
  unfolding internal_walk_grow_def by (assumption | rule ends_rules | (auto simp: no_fuel split: if_splits; fail))+

subsection \<open>Time stamps\<close>

text \<open>An error of the clock is not passed on.\<close>

lemma ends_internal_now_or_epoch [ends_rules]: "ends internal_now_or_epoch"
  by (auto simp: ends_def internal_now_or_epoch_def monad_defs Let_def split: prod.splits sum.splits)

lemma ends_internal_fat_stamp_now [ends_rules]: "ends internal_fat_stamp_now"
  unfolding internal_fat_stamp_now_def by (assumption | rule ends_rules | (auto simp: no_fuel split: if_splits; fail))+

lemma ends_internal_exfat_stamp_now [ends_rules]: "ends internal_exfat_stamp_now"
  unfolding internal_exfat_stamp_now_def by (assumption | rule ends_rules | (auto simp: no_fuel split: if_splits; fail))+

lemma ends_priv_fat_entry_stamp_create [ends_rules]: "ends (priv_fat_entry_stamp_create x1 x2)"
  unfolding priv_fat_entry_stamp_create_def by (assumption | rule ends_rules | (auto simp: no_fuel split: if_splits; fail))+

lemma ends_priv_fat_entry_stamp_write [ends_rules]: "ends (priv_fat_entry_stamp_write x1 x2)"
  unfolding priv_fat_entry_stamp_write_def by (assumption | rule ends_rules | (auto simp: no_fuel split: if_splits; fail))+

lemma ends_priv_fat_entry_stamp_access [ends_rules]: "ends (priv_fat_entry_stamp_access x1 x2)"
  unfolding priv_fat_entry_stamp_access_def by (assumption | rule ends_rules | (auto simp: no_fuel split: if_splits; fail))+

lemma ends_priv_exfat_file_stamp_create [ends_rules]: "ends (priv_exfat_file_stamp_create x1)"
  unfolding priv_exfat_file_stamp_create_def by (assumption | rule ends_rules | (auto simp: no_fuel split: if_splits; fail))+

lemma ends_priv_exfat_file_stamp_write [ends_rules]: "ends (priv_exfat_file_stamp_write x1)"
  unfolding priv_exfat_file_stamp_write_def by (assumption | rule ends_rules | (auto simp: no_fuel split: if_splits; fail))+

lemma ends_priv_exfat_file_stamp_access [ends_rules]: "ends (priv_exfat_file_stamp_access x1)"
  unfolding priv_exfat_file_stamp_access_def by (assumption | rule ends_rules | (auto simp: no_fuel split: if_splits; fail))+

subsection \<open>Handles\<close>

lemma ends_priv_write_into_sector [ends_rules]: "answering x1 \<Longrightarrow> ends (priv_write_into_sector x1 x2 x3 x4)"
  unfolding priv_write_into_sector_def by (assumption | rule ends_rules | (auto simp: no_fuel split: if_splits; fail))+

section \<open>Walks over a directory\<close>

definition walk_ok :: "'w mount \<Rightarrow> dir_walk \<Rightarrow> bool" where
  "walk_ok m w \<longleftrightarrow> w_is_root_fixed w \<or> w_cluster_hops w \<le> m_count_of_clusters m \<and>
     (w_sector_in_cluster w < m_sectors_per_cluster m \<or> w_sector_in_cluster w = 0)"

text \<open>How many more sectors a walk can visit.\<close>

definition walk_left :: "'w mount \<Rightarrow> dir_walk \<Rightarrow> nat" where
  "walk_left m w = (if w_is_root_fixed w then Suc (unat (w_fixed_remaining w))
     else (unat (m_count_of_clusters m) - unat (w_cluster_hops w)) * (unat (m_sectors_per_cluster m) + 1)
       + (unat (m_sectors_per_cluster m) + 1 - unat (w_sector_in_cluster w)))"

lemma walk_left_pos: "walk_ok m w \<Longrightarrow> 0 < walk_left m w"
  by (auto simp: walk_ok_def walk_left_def word_less_nat_alt)

lemma walk_start: "walk_ok m (priv_dir_walk_init_loc m loc)"
    "walk_left m (priv_dir_walk_init_loc m loc) = dir_fuel m (priv_dir_walk_init_loc m loc)"
  by (simp_all add: walk_ok_def walk_left_def dir_fuel_def priv_dir_walk_init_loc_def internal_dir_walk_init_root_def)

lemma ends_walk_next [ends_rules]: "answering m \<Longrightarrow> ends (walk_next m)"
  using ends_priv_fat_get [of m]
  by (auto simp: ends_def walk_next_def Let_def split: prod.split sum.split) (metis fst_conv)

lemma ends_walk_sector [ends_rules]: "answering m \<Longrightarrow> ends (priv_dir_walk_next_sector m w)"
  using ends_walk_next [of m]
  by (auto simp: ends_def priv_dir_walk_next_sector_def split: prod.split sum.split) (metis fst_conv)

lemma walk_step:
  assumes w: "walk_ok m w" and m: "sound m" and r: "walk_next m (s, w) = (Inr False, (t, w'))"
  shows "walk_ok m w'" "walk_left m w' < walk_left m w"
proof -
  let ?n = "unat (m_count_of_clusters m)" and ?k = "unat (m_sectors_per_cluster m)"
  let ?h = "unat (w_cluster_hops w)" and ?c = "unat (w_sector_in_cluster w)"
  have n: "?n < 2 ^ 32 - 1" using m by (simp add: sound_def word_less_nat_alt)
  show "walk_ok m w'" "walk_left m w' < walk_left m w"
  proof (atomize (full), cases "w_is_root_fixed w")
    case True
    then show "walk_ok m w' \<and> walk_left m w' < walk_left m w" using r
      by (auto simp: walk_next_def walk_ok_def walk_left_def word_less_nat_alt word_le_nat_alt unat_sub_if_size split: if_splits)
  next
    case False
    note f = False
    have h: "?h \<le> ?n" and c: "?c < ?k \<or> ?c = 0" using w f by (auto simp: walk_ok_def word_less_nat_alt word_le_nat_alt)
    have h1: "unat (w_cluster_hops w + 1) = ?h + 1" using h n by (subst unat_add_small) simp_all
    have c1: "unat (w_sector_in_cluster w + 1) = ?c + 1"
      using c unat_lt [of "m_sectors_per_cluster m"] by (subst unat_add_small) auto
    show "walk_ok m w' \<and> walk_left m w' < walk_left m w"
    proof (cases "w_sector_in_cluster w + 1 \<ge> m_sectors_per_cluster m")
      case True
      then have w': "w_is_root_fixed w' = False" "w_cluster_hops w' = w_cluster_hops w + 1" "w_sector_in_cluster w' = 0"
          "\<not> w_cluster_hops w + 1 > m_count_of_clusters m"
        using r f by (auto simp: walk_next_def Let_def split: prod.splits sum.splits if_splits)
      then have "?h + 1 \<le> ?n" by (simp add: word_less_nat_alt h1)
      then have "(?n - (?h + 1)) * (?k + 1) + (?k + 1) = (?n - ?h) * (?k + 1)"
        by (metis Suc_diff_Suc Suc_eq_plus1 Suc_le_lessD add.commute mult_Suc)
      then show ?thesis using w' c h1 f by (auto simp: walk_ok_def walk_left_def word_le_nat_alt word_less_nat_alt)
    next
      case False
      then have w': "w_is_root_fixed w' = False" "w_cluster_hops w' = w_cluster_hops w"
          "w_sector_in_cluster w' = w_sector_in_cluster w + 1"
        using r f by (auto simp: walk_next_def Let_def split: if_splits)
      then show ?thesis using False f h c1 by (auto simp: walk_ok_def walk_left_def word_le_nat_alt word_less_nat_alt)
    qed
  qed
qed

text \<open>A loop that takes one step of the walk in every round.\<close>

lemma ends_bind_on:
  assumes f: "ends f" and g: "\<And>x s t. f s = (Inr x, t) \<Longrightarrow> ends (g x)"
  shows "ends (bindE f g)"
proof (rule endsI)
  fix s r t
  assume "bindE f g s = (r, t)"
  then show "r \<noteq> Inl out_of_fuel"
    by (cases rule: bindE_cases) (use endsD [OF f] endsD [OF g] in blast)+
qed

lemma ends_walk_bind:
  assumes m: "sound m" and w: "walk_ok m w" and e: "\<And>w'. ends (g True w')"
    and n: "\<And>w'. walk_ok m w' \<Longrightarrow> walk_left m w' < walk_left m w \<Longrightarrow> ends (g False w')"
  shows "ends (bindE (priv_dir_walk_next_sector m w) (case_prod g))"
proof (rule ends_bind_on)
  show "ends (priv_dir_walk_next_sector m w)" by (rule ends_walk_sector) (rule sound_answers [OF m])
next
  fix x s t
  assume "priv_dir_walk_next_sector m w s = (Inr x, t)"
  then obtain eod w' where x: "x = (eod, w')" and r: "walk_next m (s, w) = (Inr eod, (t, w'))"
    by (auto simp: priv_dir_walk_next_sector_def split: prod.splits sum.splits)
  show "ends (case_prod g x)"
    using e n [OF walk_step [OF w m]] r unfolding x by (cases eod) auto
qed

lemma ends_dir_scan:
  assumes m: "sound m" and fin: "fin \<noteq> out_of_fuel" and body: "\<And>w buf st. body w buf st \<noteq> Inr (Inl out_of_fuel)"
  shows "walk_ok m w \<Longrightarrow> walk_left m w \<le> n \<Longrightarrow> ends (dir_scan m body fin n w st)"
proof (induction n arbitrary: w st)
  case 0
  then show ?case using walk_left_pos by fastforce
next
  case (Suc n)
  show ?case
    unfolding dir_scan.simps
    using Suc body by (intro ends_rules ends_walk_bind sound_answers m fin) (auto intro: ends_throwE fin)
qed

lemma ends_dir_start:
  assumes "sound m" and "fin \<noteq> out_of_fuel" and "\<And>w buf st. body w buf st \<noteq> Inr (Inl out_of_fuel)"
  shows "ends (let w = priv_dir_walk_init_loc m loc in dir_scan m body fin (dir_fuel m w) w st)"
  unfolding Let_def by (rule ends_dir_scan [OF assms walk_start(1)]) (simp add: walk_start(2))

text \<open>What the scans look for in a sector.\<close>

lemma scan_bodies:
  "dir_find_entries name83 buf lba es \<noteq> Inr (Inl out_of_fuel)"
  "internal_dir_find_long_sector needle buf lba es lfn \<noteq> Inr (Inl out_of_fuel)"
  "free_run_entries need w buf es st \<noteq> Inr (Inl out_of_fuel)"
  "collect_entries tlba toff csum lba buf es run \<noteq> Inr (Inl out_of_fuel)"
  "find_vol_id_entries buf lba es \<noteq> Inr (Inl out_of_fuel)"
  "find_free_root_entries buf lba es \<noteq> Inr (Inl out_of_fuel)"
proof -
  show "dir_find_entries name83 buf lba es \<noteq> Inr (Inl out_of_fuel)" by (induction es) (simp_all add: Let_def)
  show "internal_dir_find_long_sector needle buf lba es lfn \<noteq> Inr (Inl out_of_fuel)"
    by (induction es arbitrary: lfn) (simp_all add: Let_def split: option.split)
  show "free_run_entries need w buf es st \<noteq> Inr (Inl out_of_fuel)"
    by (induction es arbitrary: st) (simp_all add: Let_def)
  show "collect_entries tlba toff csum lba buf es run \<noteq> Inr (Inl out_of_fuel)"
    by (induction es arbitrary: run) (simp_all add: Let_def)
  show "find_vol_id_entries buf lba es \<noteq> Inr (Inl out_of_fuel)" by (induction es) (simp_all add: Let_def)
  show "find_free_root_entries buf lba es \<noteq> Inr (Inl out_of_fuel)" by (induction es) (simp_all add: Let_def)
qed


subsection \<open>Directory walk\<close>

lemma ends_priv_dir_find [ends_rules]: "sound m \<Longrightarrow> ends (priv_dir_find m loc name83)"
  unfolding priv_dir_find_def by (rule ends_dir_start) (simp_all add: scan_bodies)

lemma ends_priv_dir_find_long [ends_rules]:
  assumes "sound m"
  shows "ends (priv_dir_find_long m loc want)"
proof -
  have "ends (case priv_utf8_to_utf16 leaf k_lfn_write_max of
      Inl nerr \<Rightarrow> throwE (if nerr = k_ra8_err_no_mem then k_ra8_err_not_found else nerr)
    | Inr needle \<Rightarrow>
        let w = priv_dir_walk_init_loc m loc in
        dir_scan m (\<lambda>w buf. internal_dir_find_long_sector needle buf (w_cur_lba w) [0..<unat (priv_dir_eps m)])
          k_ra8_err_not_found (dir_fuel m w) w priv_lfn_reset)" for leaf
    using utf8_no_fuel [of leaf] by (intro ends_sum ends_throwE ends_dir_start assms) (auto simp: scan_bodies)
  then show ?thesis by (simp add: priv_dir_find_long_def)
qed

lemma ends_priv_dir_lookup_any [ends_rules]: "sound x1 \<Longrightarrow> ends (priv_dir_lookup_any x1 x2 x3)"
  unfolding priv_dir_lookup_any_def by (assumption | rule ends_rules sound_answers | (auto simp: no_fuel split: if_splits; fail))+

subsection \<open>Directory insertion and erasure\<close>

lemma ends_alias_unique_loop [ends_rules]: "sound m \<Longrightarrow> ends (alias_unique_loop m loc leaf k)"
  by (induction m loc leaf k rule: alias_unique_loop.induct)
    (subst alias_unique_loop.simps, (assumption | rule ends_rules | (simp; fail) | (auto; fail))+)

lemma ends_internal_alias_unique [ends_rules]: "sound x1 \<Longrightarrow> ends (internal_alias_unique x1 x2 x3)"
  unfolding internal_alias_unique_def by (assumption | rule ends_rules sound_answers | (auto simp: no_fuel split: if_splits; fail))+

lemma ends_priv_dir_find_free_run [ends_rules]: "sound m \<Longrightarrow> ends (priv_dir_find_free_run m loc need)"
  unfolding priv_dir_find_free_run_def by (rule ends_dir_start) (simp_all add: scan_bodies)

lemma ends_dir_last_cluster:
  assumes "sound m"
  shows "walk_ok m w \<Longrightarrow> walk_left m w \<le> n \<Longrightarrow> ends (dir_last_cluster m n w)"
proof (induction n arbitrary: w)
  case 0
  then show ?case using walk_left_pos by fastforce
next
  case (Suc n)
  then show ?case
    unfolding dir_last_cluster.simps Let_def by (intro ends_walk_bind assms) (auto intro: ends_basic)
qed

lemma ends_grow_zero_loop [ends_rules]: "answering x1 \<Longrightarrow> ends (grow_zero_loop x1 x2 x3)"
  by (induction x3 arbitrary: x2; simp only: grow_zero_loop.simps; (assumption | rule ends_rules | (auto simp: no_fuel split: if_splits; fail))+)

lemma ends_internal_dir_grow [ends_rules]: "sound m \<Longrightarrow> ends (internal_dir_grow m loc)"
  unfolding internal_dir_grow_def Let_def
  by (assumption | rule ends_rules sound_answers ends_dir_last_cluster walk_start(1) | (simp add: walk_start(2); fail) | (auto; fail))+

lemma ends_reserve_loop [ends_rules]: "sound x1 \<Longrightarrow> ends (reserve_loop x1 x2 x3 x4)"
  by (induction x4 arbitrary: x2 x3; simp only: reserve_loop.simps; (assumption | rule ends_rules sound_answers | (auto simp: no_fuel split: if_splits; fail))+)

lemma ends_priv_dir_reserve [ends_rules]: "sound x1 \<Longrightarrow> ends (priv_dir_reserve x1 x2 x3)"
  unfolding priv_dir_reserve_def by (assumption | rule ends_rules sound_answers | (auto simp: no_fuel split: if_splits; fail))+

lemma ends_internal_slot_advance [ends_rules]: "answering x1 \<Longrightarrow> ends (internal_slot_advance x1 x2 x3 x4)"
  unfolding internal_slot_advance_def by (assumption | rule ends_rules | (auto simp: no_fuel split: if_splits; fail))+

lemma ends_commit_loop [ends_rules]: "answering x1 \<Longrightarrow> ends (commit_loop x1 x2 x3 x4 x5 x6 x7)"
  by (induction x4 arbitrary: x2 x3 x5 x6 x7; simp only: commit_loop.simps; (assumption | rule ends_rules | (auto simp: no_fuel split: if_splits; fail))+)

lemma ends_priv_dir_commit [ends_rules]: "answering x1 \<Longrightarrow> ends (priv_dir_commit x1 x2 x3)"
  unfolding priv_dir_commit_def by (assumption | rule ends_rules | (auto simp: no_fuel split: if_splits; fail))+

lemma ends_internal_dir_collect_chain [ends_rules]: "sound m \<Longrightarrow> ends (internal_dir_collect_chain m loc tlba toff csum)"
  unfolding internal_dir_collect_chain_def by (rule ends_dir_start) (simp_all add: scan_bodies)

lemma ends_erase_loop [ends_rules]: "answering x1 \<Longrightarrow> ends (erase_loop x1 x2 x3 x4)"
  by (induction x2 arbitrary: x3 x4; simp only: erase_loop.simps; (assumption | rule ends_rules | (auto simp: no_fuel split: if_splits; fail))+)

lemma ends_internal_dir_erase_positions [ends_rules]: "answering x1 \<Longrightarrow> ends (internal_dir_erase_positions x1 x2)"
  unfolding internal_dir_erase_positions_def by (assumption | rule ends_rules | (auto simp: no_fuel split: if_splits; fail))+

lemma ends_priv_dir_erase_chain [ends_rules]: "sound x1 \<Longrightarrow> ends (priv_dir_erase_chain x1 x2 x3 x4 x5)"
  unfolding priv_dir_erase_chain_def by (assumption | rule ends_rules sound_answers | (auto simp: no_fuel split: if_splits; fail))+

end
