(* ===== verification/Exfat_Ends.thy ===== *)
theory Exfat_Ends
  imports Loop_Ends
begin

text \<open>
  Every loop of the driver ends, second part: the scans of exFAT directories, which stop when the cursor has counted
  \<open>k_exfat_scan_limit\<close> entries, and the operations built on them.
\<close>

subsection \<open>exFAT cursor\<close>

lemma ends_priv_exfat_dir_from_set [ends_rules]: "answering x1 \<Longrightarrow> ends (priv_exfat_dir_from_set x1 x2 x3)"
  unfolding priv_exfat_dir_from_set_def by (assumption | rule ends_rules | (auto simp: no_fuel split: if_splits; fail))+

lemma ends_priv_exfat_step_cluster [ends_rules]: "answering x1 \<Longrightarrow> ends (priv_exfat_step_cluster x1 x2 x3)"
  unfolding priv_exfat_step_cluster_def by (assumption | rule ends_rules | (auto simp: no_fuel split: if_splits; fail))+

lemma ends_priv_exfat_next_entry [ends_rules]: "answering x1 \<Longrightarrow> ends (priv_exfat_next_entry x1)"
  unfolding priv_exfat_next_entry_def by (assumption | rule ends_rules | (auto simp: no_fuel split: if_splits; fail))+

section \<open>Scans of an exFAT directory\<close>

text \<open>An operation on a cursor that reads at most \<open>k\<close> entries.\<close>

definition scans :: "nat \<Rightarrow> ('w, 'a) cop \<Rightarrow> bool" where
  "scans k f \<longleftrightarrow> (\<forall>s c r s' c'. f (s, c) = (r, (s', c')) \<longrightarrow> unat (ec_scanned c) + k < 2 ^ 32 \<longrightarrow>
     unat (ec_scanned c) \<le> unat (ec_scanned c') \<and> unat (ec_scanned c') \<le> unat (ec_scanned c) + k)"

lemma scansD:
  assumes "scans k f" and "f p = (r, q)" and "unat (ec_scanned (snd p)) + k < 2 ^ 32"
  shows "unat (ec_scanned (snd p)) \<le> unat (ec_scanned (snd q))" "unat (ec_scanned (snd q)) \<le> unat (ec_scanned (snd p)) + k"
  using assms unfolding scans_def by (metis prod.collapse)+

lemma scansI:
  assumes "\<And>p r q. f p = (r, q) \<Longrightarrow> unat (ec_scanned (snd p)) + k < 2 ^ 32 \<Longrightarrow>
     unat (ec_scanned (snd p)) \<le> unat (ec_scanned (snd q)) \<and> unat (ec_scanned (snd q)) \<le> unat (ec_scanned (snd p)) + k"
  shows "scans k f"
  using assms unfolding scans_def by fastforce

lemma scans_mono: "scans j f \<Longrightarrow> j \<le> k \<Longrightarrow> scans k f"
  unfolding scans_def by (meson add_left_mono le_trans order_le_less_trans)

lemma scans_bind:
  assumes f: "scans j f" and g: "\<And>x. scans k (g x)"
  shows "scans (j + k) (bindE f g)"
proof (rule scansI)
  fix p r q
  assume b: "bindE f g p = (r, q)" and lt: "unat (ec_scanned (snd p)) + (j + k) < 2 ^ 32"
  from b show "unat (ec_scanned (snd p)) \<le> unat (ec_scanned (snd q)) \<and> unat (ec_scanned (snd q)) \<le> unat (ec_scanned (snd p)) + (j + k)"
  proof (cases rule: bindE_cases)
    case (Err e)
    then show ?thesis using scansD [OF f] lt by fastforce
  next
    case (Ok x p')
    note 1 = scansD [OF f Ok(1)]
    then have "unat (ec_scanned (snd p')) + k < 2 ^ 32" using lt by linarith
    from scansD [OF g Ok(2) this] 1 show ?thesis using lt by linarith
  qed
qed

lemma scans_attempt:
  assumes f: "scans j f" and g: "\<And>x. scans k (g x)"
  shows "scans (j + k) (attemptE f g)"
proof (rule scansI)
  fix p r q
  assume a: "attemptE f g p = (r, q)" and lt: "unat (ec_scanned (snd p)) + (j + k) < 2 ^ 32"
  obtain r' p' where fp: "f p = (r', p')" by (cases "f p") auto
  then have gp: "g r' p' = (r, q)" using a by (simp add: attemptE_def)
  note 1 = scansD [OF f fp]
  then have "unat (ec_scanned (snd p')) + k < 2 ^ 32" using lt by linarith
  from scansD [OF g gp this] 1 lt
  show "unat (ec_scanned (snd p)) \<le> unat (ec_scanned (snd q)) \<and> unat (ec_scanned (snd q)) \<le> unat (ec_scanned (snd p)) + (j + k)"
    by linarith
qed

lemma scans_basic: "scans 0 (returnE x)" "scans 0 (throwE e)" "scans 0 (askC f)" "scans 0 (onC g)"
  by (auto simp: scans_def askC_def onC_def split: prod.splits)

lemma scans_free: "scans 0 f \<Longrightarrow> scans k f"
  by (erule scans_mono) simp

lemmas scans_leaf = scans_basic [THEN scans_free]

lemma next_entry_scanned:
  assumes "priv_exfat_next_entry m p = (r, q)"
  shows "ec_scanned (snd q) = (if isl r then ec_scanned (snd p) else ec_scanned (snd p) + 1)"
  using assms
  by (cases p; cases q)
    (auto simp: priv_exfat_next_entry_def Let_def askC_def setC_def onC_def bindE_def whenE_def returnE_def split: prod.splits sum.splits if_splits)

lemma scans_next: "scans 1 (priv_exfat_next_entry m)"
proof (rule scansI)
  fix p r q
  assume n: "priv_exfat_next_entry m p = (r, q)" and lt: "unat (ec_scanned (snd p)) + 1 < 2 ^ 32"
  have "unat (ec_scanned (snd p) + 1) = unat (ec_scanned (snd p)) + 1" using lt by (subst unat_add_small) simp_all
  then show "unat (ec_scanned (snd p)) \<le> unat (ec_scanned (snd q)) \<and> unat (ec_scanned (snd q)) \<le> unat (ec_scanned (snd p)) + 1"
    unfolding next_entry_scanned [OF n] by simp
qed

text \<open>
  A scan that still has \<open>n\<close> rounds: enough of them to reach the limit, and the counter is at most \<open>k\<close> entries behind it, which is far from its
  own range.
\<close>

definition rounds :: "nat \<Rightarrow> nat \<Rightarrow> 'w fs \<times> exfat_cursor \<Rightarrow> bool" where
  "rounds n k p \<longleftrightarrow> 0 < n \<and> k_exfat_scan_limit < n + unat (ec_scanned (snd p)) \<and> unat (ec_scanned (snd p)) \<le> k_exfat_scan_limit + k"

abbreviation (input) slack :: nat where "slack \<equiv> 1000"

lemma ends_in_throwE: "e \<noteq> out_of_fuel \<Longrightarrow> ends_in I (throwE e)"
  by (intro ends_any ends_throwE)

lemma ends_in_returnE: "ends_in I (returnE x)"
  by (intro ends_any ends_basic)

lemma ends_in_if: "(b \<Longrightarrow> ends_in I f) \<Longrightarrow> (\<not> b \<Longrightarrow> ends_in I g) \<Longrightarrow> ends_in I (if b then f else g)"
  by simp

lemma ends_in_sum:
  "(\<And>a. x = Inl a \<Longrightarrow> ends_in I (f a)) \<Longrightarrow> (\<And>b. x = Inr b \<Longrightarrow> ends_in I (g b)) \<Longrightarrow> ends_in I (case x of Inl a \<Rightarrow> f a | Inr b \<Rightarrow> g b)"
  by (cases x) simp_all

lemma ends_in_option:
  "(x = None \<Longrightarrow> ends_in I n) \<Longrightarrow> (\<And>a. x = Some a \<Longrightarrow> ends_in I (f a)) \<Longrightarrow> ends_in I (case x of None \<Rightarrow> n | Some a \<Rightarrow> f a)"
  by (cases x) simp_all

lemma ends_in_prod: "(\<And>a b. x = (a, b) \<Longrightarrow> ends_in I (f a b)) \<Longrightarrow> ends_in I (case x of (a, b) \<Rightarrow> f a b)"
  by (cases x) simp

lemmas ends_in_rules = ends_in_throwE ends_in_returnE ends_in_if ends_in_sum ends_in_option ends_in_prod

lemma rounds_less: "ends_in (rounds n k) f \<Longrightarrow> j \<le> k \<Longrightarrow> ends_in (rounds n j) f"
  by (simp add: ends_in_def rounds_def)

lemma ends_scan_bind:
  assumes f: "ends f" "scans j f" and j: "k + j \<le> slack" and g: "\<And>x p q. f p = (Inr x, q) \<Longrightarrow> ends_in (rounds n (k + j)) (g x)"
  shows "ends_in (rounds n k) (bindE f g)"
proof (rule ends_inI)
  fix p r q
  assume p: "rounds n k p" and b: "bindE f g p = (r, q)"
  from b show "r \<noteq> Inl out_of_fuel"
  proof (cases rule: bindE_cases)
    case (Err e)
    then show ?thesis using endsD [OF f(1)] by blast
  next
    case (Ok x p')
    have "rounds n (k + j) p'" using scansD [OF f(2) Ok(1)] p j by (auto simp: rounds_def)
    then show ?thesis using ends_inD [OF g [OF Ok(1)]] Ok(2) by blast
  qed
qed

lemma ends_scan_attempt:
  assumes f: "ends f" "scans j f" and j: "k + j \<le> slack" and g: "\<And>r. r \<noteq> Inl out_of_fuel \<Longrightarrow> ends_in (rounds n (k + j)) (g r)"
  shows "ends_in (rounds n k) (attemptE f g)"
proof (rule ends_inI)
  fix p r q
  assume p: "rounds n k p" and a: "attemptE f g p = (r, q)"
  obtain r' p' where fp: "f p = (r', p')" by (cases "f p") auto
  have "rounds n (k + j) p'" using scansD [OF f(2) fp] p j by (auto simp: rounds_def)
  moreover have "g r' p' = (r, q)" using a fp by (simp add: attemptE_def)
  ultimately show "r \<noteq> Inl out_of_fuel" using ends_inD [OF g [OF endsD [OF f(1) fp]]] by blast
qed

text \<open>A round of a scan: the limit is tested, an entry is read.\<close>

lemma rounds_next:
  assumes "rounds (Suc n) k p" and "\<not> k_exfat_scan_limit \<le> unat (ec_scanned (snd p))" and "priv_exfat_next_entry m p = (Inr e, q)"
  shows "rounds n 0 q"
  using assms next_entry_scanned [OF assms(3)] unat_add_small [of "ec_scanned (snd p)" 1] by (auto simp: rounds_def)

lemma ends_round:
  assumes sc: "\<And>c. sc (h c) = ec_scanned c" and m: "ends (priv_exfat_next_entry m)" and stop: "\<And>c. ends (stop c)"
    and g: "\<And>c e. ends_in (rounds n 0) (g c e)"
  shows "ends_in (rounds (Suc n) k)
    (bindE (askC h) (\<lambda>c. if k_exfat_scan_limit \<le> unat (sc c) then stop c else bindE (priv_exfat_next_entry m) (g c)))"
proof (rule ends_inI)
  fix p r q
  assume p: "rounds (Suc n) k p"
    and b: "bindE (askC h) (\<lambda>c. if k_exfat_scan_limit \<le> unat (sc c) then stop c else bindE (priv_exfat_next_entry m) (g c)) p = (r, q)"
  have a: "askC h p = (Inr (h (snd p)), p)" by (cases p) (simp add: askC_def)
  show "r \<noteq> Inl out_of_fuel"
  proof (cases "k_exfat_scan_limit \<le> unat (ec_scanned (snd p))")
    case True
    then show ?thesis using b endsD [OF stop] unfolding bindE_run [of "askC h", OF a] sc by auto
  next
    case False
    then have "bindE (priv_exfat_next_entry m) (g (h (snd p))) p = (r, q)" using b unfolding bindE_run [of "askC h", OF a] sc by simp
    then show ?thesis
      by (cases rule: bindE_cases) (use endsD [OF m] ends_inD [OF g] rounds_next [OF p False] in blast)+
  qed
qed

lemma ends_round_attempt:
  assumes sc: "\<And>c. sc (h c) = ec_scanned c" and m: "ends (priv_exfat_next_entry m)" and stop: "\<And>c. ends (stop c)"
    and e: "\<And>c e. e \<noteq> out_of_fuel \<Longrightarrow> ends (g c (Inl e))" and g: "\<And>c e. ends_in (rounds n 0) (g c (Inr e))"
  shows "ends_in (rounds (Suc n) k)
    (bindE (askC h) (\<lambda>c. if k_exfat_scan_limit \<le> unat (sc c) then stop c else attemptE (priv_exfat_next_entry m) (g c)))"
proof (rule ends_inI)
  fix p r q
  assume p: "rounds (Suc n) k p"
    and b: "bindE (askC h) (\<lambda>c. if k_exfat_scan_limit \<le> unat (sc c) then stop c else attemptE (priv_exfat_next_entry m) (g c)) p = (r, q)"
  have a: "askC h p = (Inr (h (snd p)), p)" by (cases p) (simp add: askC_def)
  show "r \<noteq> Inl out_of_fuel"
  proof (cases "k_exfat_scan_limit \<le> unat (ec_scanned (snd p))")
    case True
    then show ?thesis using b endsD [OF stop] unfolding bindE_run [of "askC h", OF a] sc by auto
  next
    case False
    obtain r' p' where n: "priv_exfat_next_entry m p = (r', p')" by (cases "priv_exfat_next_entry m p") auto
    have run: "g (h (snd p)) r' p' = (r, q)"
      using b False n unfolding bindE_run [of "askC h", OF a] sc by (simp add: attemptE_def)
    show ?thesis
    proof (cases r')
      case (Inl err)
      then show ?thesis using endsD [OF e] endsD [OF m n] run by blast
    next
      case (Inr ent)
      then show ?thesis using ends_inD [OF g] rounds_next [OF p False] n run by blast
    qed
  qed
qed

text \<open>A scan starts with a fresh cursor.\<close>

lemma ends_scan_start:
  assumes "ends_in (rounds n slack) f" and "ec_scanned c = 0" and "k_exfat_scan_limit < n"
  shows "ends (withC c f)"
proof (rule endsI)
  fix s r t
  assume "withC c f s = (r, t)"
  then obtain q where "f (s, c) = (r, q)" by (auto simp: withC_def split: prod.splits)
  moreover have "rounds n slack (s, c)" using assms(2,3) by (simp add: rounds_def)
  ultimately show "r \<noteq> Inl out_of_fuel" using ends_inD [OF assms(1)] by blast
qed

lemma no_rounds: "ends_in (rounds 0 k) f"
  by (simp add: ends_in_def rounds_def)

lemma ends_match_names_loop [ends_rules]: "answering m \<Longrightarrow> ends (match_names_loop m name ks)"
  by (induction ks; simp only: match_names_loop.simps; (assumption | rule ends_rules | (simp; fail))+)

lemma scans_match_names_loop: "scans (length ks) (match_names_loop m name ks)"
proof (induction ks)
  case (Cons k ks)
  have "scans (1 + length ks) (match_names_loop m name (k # ks))"
    unfolding match_names_loop.simps by (intro scans_bind scans_next) (simp add: Cons.IH scans_leaf)
  then show ?case by simp
qed (simp add: scans_basic del: returnE_apply)

lemma ends_internal_exfat_match_set [ends_rules]: "answering m \<Longrightarrow> ends (internal_exfat_match_set m name)"
  unfolding internal_exfat_match_set_def by (assumption | rule ends_rules | (simp; fail))+

lemma scans_internal_exfat_match_set: "scans 256 (internal_exfat_match_set m name)"
proof -
  have "scans 255 (if unat l \<noteq> length name then throwE e
      else bindE (match_names_loop m name [0..<exfat_name_entries (length name)]) (\<lambda>_. returnE strm))" for l :: u8 and strm :: bytes and e
  proof (cases "unat l = length name")
    case True
    then have "exfat_name_entries (length name) \<le> 255" using unat_lt [of l] by simp
    moreover have "scans (length [0..<exfat_name_entries (length name)] + 0)
        (bindE (match_names_loop m name [0..<exfat_name_entries (length name)]) (\<lambda>_. returnE strm))"
      by (intro scans_bind scans_match_names_loop scans_basic)
    ultimately show ?thesis using True scans_mono by fastforce
  qed (simp add: scans_leaf)
  then have "scans (1 + 255) (internal_exfat_match_set m name)"
    unfolding internal_exfat_match_set_def by (intro scans_bind scans_next) (simp add: scans_leaf)
  then show ?thesis by simp
qed

lemma ends_exfat_find_loop:
  assumes m: "answering m"
  shows "ends_in (rounds n slack) (exfat_find_loop m need n)"
proof (induction n)
  case (Suc n)
  show ?case
    unfolding exfat_find_loop.simps
    by (rule ends_round refl ends_rules m ends_in_rules rounds_less [OF Suc.IH] ends_scan_attempt [OF _ scans_internal_exfat_match_set]
        | (simp; fail))+
qed (rule no_rounds)

lemma ends_priv_exfat_find [ends_rules]: "answering m \<Longrightarrow> ends (priv_exfat_find m dir path)"
  unfolding priv_exfat_find_def
  by (intro ends_rules ends_scan_start [OF ends_exfat_find_loop]) (auto simp: no_fuel priv_exfat_cursor_init_def split: if_splits)

lemma ends_take_set_loop [ends_rules]: "answering m \<Longrightarrow> ends (take_set_loop m name ks pos strm matched)"
  by (induction ks arbitrary: pos strm matched; simp only: take_set_loop.simps; (assumption | rule ends_rules | (simp; fail))+)

lemma scans_take_set_loop: "scans (length ks) (take_set_loop m name ks pos strm matched)"
proof (induction ks arbitrary: pos strm matched)
  case (Cons k ks)
  have "scans (1 + (0 + length ks)) (take_set_loop m name (k # ks) pos strm matched)"
    unfolding take_set_loop.simps
    by (intro scans_attempt scans_next) (auto simp: Cons.IH scans_leaf Let_def split: sum.split intro!: scans_bind [of 0, simplified])
  then show ?case by simp
qed (simp add: scans_basic)

text \<open>An error in the result of a set lookup is one that reading an entry returned.\<close>

lemma take_set_no_fuel:
  assumes m: "answering m"
  shows "take_set_loop m name ks pos strm matched p = (Inr (strm', r), q) \<Longrightarrow> r \<noteq> Inl out_of_fuel"
proof (induction ks arbitrary: pos strm matched p)
  case (Cons k ks)
  obtain r' p' where n: "priv_exfat_next_entry m p = (r', p')" by (cases "priv_exfat_next_entry m p") auto
  then have "r' \<noteq> Inl out_of_fuel" by (rule endsD [OF ends_priv_exfat_next_entry [OF m]])
  then show ?case
    using Cons.prems n Cons.IH
    by (cases r'; cases p') (auto simp: attemptE_def askC_def bindE_def Let_def split: if_splits)
qed auto

lemma ends_internal_exfat_take_set [ends_rules]: "answering m \<Longrightarrow> ends (internal_exfat_take_set m name sc pos strm)"
  unfolding internal_exfat_take_set_def by (rule ends_rules)

lemma ends_internal_exfat_try_set [ends_rules]: "answering m \<Longrightarrow> ends (internal_exfat_try_set m at' e need max_pos strm)"
  unfolding internal_exfat_try_set_def by (assumption | rule ends_rules | (simp; fail))+

lemma scans_take_set_then:
  assumes "\<And>x. scans 0 (g x)"
  shows "scans 256 (bindE (internal_exfat_take_set m name (unat (l :: u8)) pos strm) g)"
proof -
  have "scans (length [0..<unat l] + 0) (bindE (internal_exfat_take_set m name (unat l) pos strm) g)"
    unfolding internal_exfat_take_set_def by (intro scans_bind scans_take_set_loop assms)
  then show ?thesis by (rule scans_mono) (use unat_lt [of l] in simp)
qed

lemma scans_internal_exfat_try_set: "scans 256 (internal_exfat_try_set m at' e need max_pos strm)"
  by (auto simp: internal_exfat_try_set_def Let_def scans_leaf intro!: scans_take_set_then split: prod.split)

lemma try_set_no_fuel:
  "answering m \<Longrightarrow> internal_exfat_try_set m at' e need max_pos strm p = (Inr (strm', r), q) \<Longrightarrow> r \<noteq> Inl out_of_fuel"
  by (auto simp: internal_exfat_try_set_def internal_exfat_take_set_def bindE_def Let_def split: if_splits prod.splits sum.splits
      dest: take_set_no_fuel)

lemma ends_find_set_loop:
  assumes m: "answering m"
  shows "ends_in (rounds n slack) (find_set_loop m need max_pos n strm)"
proof (induction n arbitrary: strm)
  case (Suc n)
  have case_r: "ends_in (rounds n k) (case r of Inr pos \<Rightarrow> returnE (F pos)
      | Inl err \<Rightarrow> if err \<noteq> k_ra8_err_not_found then throwE err else find_set_loop m need max_pos n strm')"
    if "r \<noteq> Inl out_of_fuel" and "k \<le> slack" for r :: "ra8_err + exfat_setpos list" and k F strm'
    using that by (auto intro!: ends_in_rules rounds_less [OF Suc.IH] split: sum.split)
  have tried: "ends_in (rounds n 0) (bindE (internal_exfat_try_set m at' e need max_pos st) (\<lambda>(strm', r). case r of
      Inr pos \<Rightarrow> returnE (F strm' pos)
    | Inl err \<Rightarrow> if err \<noteq> k_ra8_err_not_found then throwE err else find_set_loop m need max_pos n strm'))" for at' e st F
    by (rule ends_scan_bind [OF _ scans_internal_exfat_try_set], (rule ends_rules m)+, simp, rule ends_in_prod, rule case_r)
      (auto simp: try_set_no_fuel [OF m])
  show ?case
    unfolding find_set_loop.simps
    by (rule ends_round refl ends_rules m ends_in_rules rounds_less [OF Suc.IH] rounds_less [OF tried] | (simp; fail)
        | rule ends_scan_bind [OF _ scans_basic(3)])+
qed (rule no_rounds)

lemma ends_priv_exfat_find_set [ends_rules]: "answering m \<Longrightarrow> ends (priv_exfat_find_set m dir path)"
  unfolding priv_exfat_find_set_def
  by (intro ends_rules ends_scan_start [OF ends_find_set_loop]) (auto simp: no_fuel priv_exfat_cursor_init_def split: if_splits)

subsection \<open>exFAT directories and bitmap\<close>

lemma ends_internal_exfat_enter [ends_rules]: "answering x1 \<Longrightarrow> ends (internal_exfat_enter x1 x2 x3)"
  unfolding internal_exfat_enter_def by (assumption | rule ends_rules | (auto simp: no_fuel split: if_splits; fail))+

lemma ends_exfat_resolve_loop [ends_rules]: "answering x1 \<Longrightarrow> ends (exfat_resolve_loop x1 x2 x3 x4)"
  by (induction x2 arbitrary: x3 x4; simp only: exfat_resolve_loop.simps; (assumption | rule ends_rules | (auto simp: no_fuel split: if_splits; fail))+)

lemma ends_priv_exfat_resolve_parent [ends_rules]: "answering x1 \<Longrightarrow> ends (priv_exfat_resolve_parent x1 x2)"
  unfolding priv_exfat_resolve_parent_def by (assumption | rule ends_rules | (auto simp: no_fuel split: if_splits; fail))+

lemma ends_priv_exfat_resolve_dir [ends_rules]: "answering x1 \<Longrightarrow> ends (priv_exfat_resolve_dir x1 x2)"
  unfolding priv_exfat_resolve_dir_def by (assumption | rule ends_rules | (auto simp: no_fuel split: if_splits; fail))+

lemma ends_priv_exfat_lookup [ends_rules]: "answering x1 \<Longrightarrow> ends (priv_exfat_lookup x1 x2)"
  unfolding priv_exfat_lookup_def by (assumption | rule ends_rules | (auto simp: no_fuel split: if_splits; fail))+

lemma ends_find_bitmap_loop:
  assumes m: "answering m"
  shows "ends_in (rounds n slack) (find_bitmap_loop m n)"
proof (induction n)
  case (Suc n)
  show ?case
    unfolding find_bitmap_loop.simps
    by (rule ends_round ends_round_attempt refl ends_rules m ends_in_rules rounds_less [OF Suc.IH] | (simp; fail))+
qed (rule no_rounds)

lemma ends_priv_exfat_find_bitmap [ends_rules]: "answering m \<Longrightarrow> ends (priv_exfat_find_bitmap m)"
  unfolding priv_exfat_find_bitmap_def by (rule ends_scan_start [OF ends_find_bitmap_loop]) (simp_all add: priv_exfat_cursor_init_def)

lemma ends_priv_exfat_bitmap_lba [ends_rules]: "answering x1 \<Longrightarrow> ends (priv_exfat_bitmap_lba x1)"
  unfolding priv_exfat_bitmap_lba_def by (assumption | rule ends_rules | (auto simp: no_fuel split: if_splits; fail))+

lemma ends_bitmap_window_loop [ends_rules]: "answering x1 \<Longrightarrow> ends (bitmap_window_loop x1 x2 x3 x4 x5 x6 x7)"
  by (induction x4 arbitrary: x2 x3 x5 x6 x7; simp only: bitmap_window_loop.simps; (assumption | rule ends_rules | (auto simp: no_fuel split: if_splits; fail))+)

lemma ends_internal_exfat_bitmap_window [ends_rules]: "answering x1 \<Longrightarrow> ends (internal_exfat_bitmap_window x1 x2 x3 x4)"
  unfolding internal_exfat_bitmap_window_def by (assumption | rule ends_rules | (auto simp: no_fuel split: if_splits; fail))+

lemma ends_priv_exfat_bitmap_scan [ends_rules]: "answering x1 \<Longrightarrow> ends (priv_exfat_bitmap_scan x1 x2 x3)"
  unfolding priv_exfat_bitmap_scan_def by (assumption | rule ends_rules | (auto simp: no_fuel split: if_splits; fail))+

lemma ends_priv_exfat_bmp_switch [ends_rules]: "answering x1 \<Longrightarrow> ends (priv_exfat_bmp_switch x1 x2 x3)"
  unfolding priv_exfat_bmp_switch_def by (assumption | rule ends_rules | (auto simp: no_fuel split: if_splits; fail))+

lemma ends_bitmap_mark_loop [ends_rules]: "answering x1 \<Longrightarrow> ends (bitmap_mark_loop x1 x2 x3 x4 x5)"
  by (induction x4 arbitrary: x2 x3 x5; simp only: bitmap_mark_loop.simps; (assumption | rule ends_rules | (auto simp: no_fuel split: if_splits; fail))+)

lemma ends_priv_exfat_bitmap_mark [ends_rules]: "answering x1 \<Longrightarrow> ends (priv_exfat_bitmap_mark x1 x2 x3 x4)"
  unfolding priv_exfat_bitmap_mark_def by (assumption | rule ends_rules | (auto simp: no_fuel split: if_splits; fail))+

lemma ends_bitmap_clear_loop [ends_rules]: "answering x1 \<Longrightarrow> ends (bitmap_clear_loop x1 x2 x3 x4 x5)"
  by (induction x4 arbitrary: x2 x3 x5; simp only: bitmap_clear_loop.simps; (assumption | rule ends_rules | (auto simp: no_fuel split: if_splits; fail))+)

lemma ends_priv_exfat_bitmap_clear [ends_rules]: "answering x1 \<Longrightarrow> ends (priv_exfat_bitmap_clear x1 x2 x3 x4)"
  unfolding priv_exfat_bitmap_clear_def by (assumption | rule ends_rules | (auto simp: no_fuel split: if_splits; fail))+

lemma ends_priv_exfat_bitmap_test [ends_rules]: "answering x1 \<Longrightarrow> ends (priv_exfat_bitmap_test x1 x2 x3)"
  unfolding priv_exfat_bitmap_test_def by (assumption | rule ends_rules | (auto simp: no_fuel split: if_splits; fail))+

lemma ends_internal_exfat_pick_cluster [ends_rules]: "answering x1 \<Longrightarrow> ends (internal_exfat_pick_cluster x1 x2 x3)"
  unfolding internal_exfat_pick_cluster_def by (assumption | rule ends_rules | (auto simp: no_fuel split: if_splits; fail))+

lemma ends_internal_exfat_read_entry [ends_rules]: "answering x1 \<Longrightarrow> ends (internal_exfat_read_entry x1 x2 x3)"
  unfolding internal_exfat_read_entry_def by (assumption | rule ends_rules | (auto simp: no_fuel split: if_splits; fail))+

lemma ends_space_in_cluster_loop [ends_rules]: "answering x1 \<Longrightarrow> ends (space_in_cluster_loop x1 x2 x3 x4 x5 x6)"
  by (induction x4 arbitrary: x2 x3 x5 x6; simp only: space_in_cluster_loop.simps; (assumption | rule ends_rules | (auto simp: no_fuel split: if_splits; fail))+)

lemma ends_internal_exfat_space_in_cluster [ends_rules]: "answering x1 \<Longrightarrow> ends (internal_exfat_space_in_cluster x1 x2 x3)"
  unfolding internal_exfat_space_in_cluster_def by (assumption | rule ends_rules | (auto simp: no_fuel split: if_splits; fail))+

lemma ends_scan_dir_space_loop [ends_rules]: "answering x1 \<Longrightarrow> ends (scan_dir_space_loop x1 x2 x3 x4 x5)"
  by (induction x4 arbitrary: x2 x3 x5; simp only: scan_dir_space_loop.simps; (assumption | rule ends_rules | (auto simp: no_fuel split: if_splits; fail))+)

lemma ends_internal_exfat_scan_dir_space [ends_rules]: "answering x1 \<Longrightarrow> ends (internal_exfat_scan_dir_space x1 x2 x3)"
  unfolding internal_exfat_scan_dir_space_def by (assumption | rule ends_rules | (auto simp: no_fuel split: if_splits; fail))+

lemma ends_write_set_loop [ends_rules]: "answering x1 \<Longrightarrow> ends (write_set_loop x1 x2 x3 x4 x5)"
  by (induction x5 arbitrary: x2 x3 x4; simp only: write_set_loop.simps; (assumption | rule ends_rules | (auto simp: no_fuel split: if_splits; fail))+)

lemma ends_priv_exfat_write_dir_set [ends_rules]: "answering x1 \<Longrightarrow> ends (priv_exfat_write_dir_set x1 x2 x3 x4)"
  unfolding priv_exfat_write_dir_set_def by (assumption | rule ends_rules | (auto simp: no_fuel split: if_splits; fail))+

lemma ends_internal_exfat_put_entry [ends_rules]: "answering x1 \<Longrightarrow> ends (internal_exfat_put_entry x1 x2 x3)"
  unfolding internal_exfat_put_entry_def by (assumption | rule ends_rules | (auto simp: no_fuel split: if_splits; fail))+

lemma ends_zero_lbas [ends_rules]: "answering x1 \<Longrightarrow> ends (zero_lbas x1 x2)"
  by (induction x2; simp only: zero_lbas.simps; (assumption | rule ends_rules | (auto simp: no_fuel split: if_splits; fail))+)

lemma ends_priv_exfat_zero_cluster [ends_rules]: "answering x1 \<Longrightarrow> ends (priv_exfat_zero_cluster x1 x2)"
  unfolding priv_exfat_zero_cluster_def by (assumption | rule ends_rules | (auto simp: no_fuel split: if_splits; fail))+

lemma ends_seal_loop [ends_rules]: "answering x1 \<Longrightarrow> ends (seal_loop x1 x2)"
  by (induction x2; simp only: seal_loop.simps; (assumption | rule ends_rules | (auto simp: no_fuel split: if_splits; fail))+)

lemma ends_priv_exfat_seal_cluster [ends_rules]: "answering x1 \<Longrightarrow> ends (priv_exfat_seal_cluster x1 x2)"
  unfolding priv_exfat_seal_cluster_def by (assumption | rule ends_rules | (auto simp: no_fuel split: if_splits; fail))+

lemma ends_materialize_loop [ends_rules]: "answering x1 \<Longrightarrow> ends (materialize_loop x1 x2 x3)"
  by (induction x3 arbitrary: x2; simp only: materialize_loop.simps; (assumption | rule ends_rules | (auto simp: no_fuel split: if_splits; fail))+)

lemma ends_internal_exfat_materialize_run [ends_rules]: "answering x1 \<Longrightarrow> ends (internal_exfat_materialize_run x1 x2 x3 x4 x5)"
  unfolding internal_exfat_materialize_run_def by (assumption | rule ends_rules | (auto simp: no_fuel split: if_splits; fail))+

lemma ends_dir_survey_loop [ends_rules]: "answering x1 \<Longrightarrow> ends (dir_survey_loop x1 x2 x3 x4)"
  by (induction x2 arbitrary: x3 x4; simp only: dir_survey_loop.simps; (assumption | rule ends_rules | (auto simp: no_fuel split: if_splits; fail))+)

lemma ends_internal_exfat_dir_survey [ends_rules]: "answering x1 \<Longrightarrow> ends (internal_exfat_dir_survey x1 x2)"
  unfolding internal_exfat_dir_survey_def by (assumption | rule ends_rules | (auto simp: no_fuel split: if_splits; fail))+

lemma ends_internal_exfat_dir_link [ends_rules]: "answering x1 \<Longrightarrow> ends (internal_exfat_dir_link x1 x2 x3 x4 x5 x6)"
  unfolding internal_exfat_dir_link_def by (assumption | rule ends_rules | (auto simp: no_fuel split: if_splits; fail))+

lemma ends_relen_gather_loop [ends_rules]: "answering x1 \<Longrightarrow> ends (relen_gather_loop x1 x2 x3)"
  by (induction x2 arbitrary: x3; simp only: relen_gather_loop.simps; (assumption | rule ends_rules | (auto simp: no_fuel split: if_splits; fail))+)

lemma ends_internal_exfat_dir_relen [ends_rules]: "answering x1 \<Longrightarrow> ends (internal_exfat_dir_relen x1 x2 x3 x4)"
  unfolding internal_exfat_dir_relen_def by (assumption | rule ends_rules | (auto simp: no_fuel split: if_splits; fail))+

lemma ends_internal_exfat_dir_append [ends_rules]: "answering x1 \<Longrightarrow> ends (internal_exfat_dir_append x1 x2 x3 x4 x5)"
  unfolding internal_exfat_dir_append_def by (assumption | rule ends_rules | (auto simp: no_fuel split: if_splits; fail))+

lemma ends_priv_exfat_grow_dir [ends_rules]: "answering x1 \<Longrightarrow> ends (priv_exfat_grow_dir x1 x2)"
  unfolding priv_exfat_grow_dir_def by (assumption | rule ends_rules | (auto simp: no_fuel split: if_splits; fail))+

lemma ends_find_dir_space_loop [ends_rules]: "answering x1 \<Longrightarrow> ends (find_dir_space_loop x1 x2 x3 x4)"
  by (induction x3 arbitrary: x2 x4; simp only: find_dir_space_loop.simps; (assumption | rule ends_rules | (auto simp: no_fuel split: if_splits; fail))+)

lemma ends_priv_exfat_find_dir_space [ends_rules]: "answering x1 \<Longrightarrow> ends (priv_exfat_find_dir_space x1 x2 x3)"
  unfolding priv_exfat_find_dir_space_def by (assumption | rule ends_rules | (auto simp: no_fuel split: if_splits; fail))+

lemma ends_internal_exfat_build_set [ends_rules]: "ends (internal_exfat_build_set x1)"
  unfolding internal_exfat_build_set_def by (assumption | rule ends_rules | (auto simp: no_fuel split: if_splits; fail))+

lemma ends_internal_exfat_build_dir_set [ends_rules]: "answering x1 \<Longrightarrow> ends (internal_exfat_build_dir_set x1 x2 x3)"
  unfolding internal_exfat_build_dir_set_def by (assumption | rule ends_rules | (auto simp: no_fuel split: if_splits; fail))+

lemma ends_internal_exfat_build_rename_set [ends_rules]: "ends (internal_exfat_build_rename_set x1 x2 x3)"
  unfolding internal_exfat_build_rename_set_def by (assumption | rule ends_rules | (auto simp: no_fuel split: if_splits; fail))+

lemma ends_priv_exfat_link [ends_rules]: "answering x1 \<Longrightarrow> ends (priv_exfat_link x1 x2 x3)"
  unfolding priv_exfat_link_def by (assumption | rule ends_rules | (auto simp: no_fuel split: if_splits; fail))+

lemma ends_free_clusters_loop [ends_rules]: "answering x1 \<Longrightarrow> ends (free_clusters_loop x1 x2 x3 x4)"
  by (induction x3 arbitrary: x2 x4; simp only: free_clusters_loop.simps; (assumption | rule ends_rules | (auto simp: no_fuel split: if_splits; fail))+)

lemma ends_priv_exfat_free_clusters [ends_rules]: "answering x1 \<Longrightarrow> ends (priv_exfat_free_clusters x1 x2)"
  unfolding priv_exfat_free_clusters_def by (assumption | rule ends_rules | (auto simp: no_fuel split: if_splits; fail))+

lemma ends_priv_exfat_drop_set [ends_rules]: "answering x1 \<Longrightarrow> ends (priv_exfat_drop_set x1 x2)"
  by (induction x2; simp only: priv_exfat_drop_set.simps; (assumption | rule ends_rules | (auto simp: no_fuel split: if_splits; fail))+)

subsection \<open>exFAT entry sets of a file\<close>

lemma ends_cluster_at_loop [ends_rules]: "answering x1 \<Longrightarrow> ends (cluster_at_loop x1 x2 x3)"
  by (induction x2 arbitrary: x3; simp only: cluster_at_loop.simps; (assumption | rule ends_rules | (auto simp: no_fuel split: if_splits; fail))+)

lemma ends_gather_set_loop [ends_rules]: "answering x1 \<Longrightarrow> ends (gather_set_loop x1 x2 x3 x4)"
  by (induction x2 arbitrary: x3 x4; simp only: gather_set_loop.simps; (assumption | rule ends_rules | (auto simp: no_fuel split: if_splits; fail))+)

lemma ends_survey_loop [ends_rules]: "answering x1 \<Longrightarrow> ends (survey_loop x1 x2 x3 x4)"
  by (induction x2 arbitrary: x3 x4; simp only: survey_loop.simps; (assumption | rule ends_rules | (auto simp: no_fuel split: if_splits; fail))+)

subsection \<open>exFAT listing and mutation\<close>

lemma ends_priv_exfat_unlink_at [ends_rules]: "answering x1 \<Longrightarrow> ends (priv_exfat_unlink_at x1 x2 x3)"
  unfolding priv_exfat_unlink_at_def by (assumption | rule ends_rules | (auto simp: no_fuel split: if_splits; fail))+

lemma ends_priv_exfat_unlink [ends_rules]: "answering x1 \<Longrightarrow> ends (priv_exfat_unlink x1 x2)"
  unfolding priv_exfat_unlink_def by (assumption | rule ends_rules | (auto simp: no_fuel split: if_splits; fail))+

lemma ends_internal_exfat_rename_prepare [ends_rules]: "answering x1 \<Longrightarrow> ends (internal_exfat_rename_prepare x1 x2 x3)"
  unfolding internal_exfat_rename_prepare_def by (assumption | rule ends_rules | (auto simp: no_fuel split: if_splits; fail))+

lemma ends_put_entries_loop [ends_rules]: "answering x1 \<Longrightarrow> ends (put_entries_loop x1 x2 x3 x4)"
  by (induction x4 arbitrary: x2 x3; simp only: put_entries_loop.simps; (assumption | rule ends_rules | (auto simp: no_fuel split: if_splits; fail))+)

lemma ends_internal_exfat_place_rename [ends_rules]: "answering x1 \<Longrightarrow> ends (internal_exfat_place_rename x1 x2 x3 x4)"
  unfolding internal_exfat_place_rename_def by (assumption | rule ends_rules | (auto simp: no_fuel split: if_splits; fail))+

lemma ends_priv_exfat_rename [ends_rules]: "answering x1 \<Longrightarrow> ends (priv_exfat_rename x1 x2 x3)"
  unfolding priv_exfat_rename_def by (assumption | rule ends_rules | (auto simp: no_fuel split: if_splits; fail))+

lemma ends_gather_name_loop [ends_rules]: "answering x1 \<Longrightarrow> ends (gather_name_loop x1 x2 x3 x4)"
  by (induction x3 arbitrary: x2 x4; simp only: gather_name_loop.simps; (assumption | rule ends_rules | (auto simp: no_fuel split: if_splits; fail))+)

lemma ends_internal_exfat_gather_name [ends_rules]: "answering x1 \<Longrightarrow> ends (internal_exfat_gather_name x1 x2 x3)"
  unfolding internal_exfat_gather_name_def by (assumption | rule ends_rules | (auto simp: no_fuel split: if_splits; fail))+

lemma ends_internal_exfat_list_emit [ends_rules]: "answering m \<Longrightarrow> ends (internal_exfat_list_emit m e)"
  unfolding internal_exfat_list_emit_def by (assumption | rule ends_rules | (simp; fail))+

lemma scans_gather_name_loop: "scans (length ks) (gather_name_loop m nlen ks units)"
proof (induction ks arbitrary: units)
  case (Cons k ks)
  have "scans (1 + length ks) (gather_name_loop m nlen (k # ks) units)"
    unfolding gather_name_loop.simps by (intro scans_bind scans_next) (simp add: Cons.IH)
  then show ?case by simp
qed (simp add: scans_basic del: returnE_apply)

lemma scans_internal_exfat_list_emit: "scans 256 (internal_exfat_list_emit m e)"
proof -
  have gn: "scans 255 (bindE (internal_exfat_gather_name m (unat (l :: u8)) nlen) g)" if "\<And>x. scans 0 (g x)" for l nlen g
  proof -
    have "scans (length [1..<unat l] + 0 + 0) (bindE (internal_exfat_gather_name m (unat l) nlen) g)"
      unfolding internal_exfat_gather_name_def by (intro scans_bind scans_gather_name_loop scans_basic that)
    then show ?thesis by (rule scans_mono) (use unat_lt [of l] in simp)
  qed
  have "scans (1 + 255) (internal_exfat_list_emit m e)"
    unfolding internal_exfat_list_emit_def Let_def
    by (intro scans_bind scans_next) (simp add: scans_leaf gn)
  then show ?thesis by simp
qed

lemma ends_exfat_dir_next_loop:
  assumes m: "answering m"
  shows "ends_in (rounds n slack) (exfat_dir_next_loop m n)"
proof (induction n)
  case (Suc n)
  show ?case
    unfolding exfat_dir_next_loop.simps
    by (rule ends_round ends_round_attempt refl ends_rules m ends_in_rules rounds_less [OF Suc.IH] | (simp; fail) | rule ends_scan_bind [OF _ scans_internal_exfat_list_emit])+
qed (rule no_rounds)

lemma ends_priv_exfat_dir_next [ends_rules]:
  assumes m: "answering m"
  shows "ends (priv_exfat_dir_next m)"
proof (rule endsI)
  fix p r q
  assume r: "priv_exfat_dir_next m p = (r, q)"
  show "r \<noteq> Inl out_of_fuel"
  proof (cases "k_exfat_scan_limit \<le> unat (ec_scanned (snd p))")
    case True
    then show ?thesis
      using r unfolding priv_exfat_dir_next_def exfat_dir_next_loop.simps by (cases p) (auto simp: askC_def bindE_def)
  next
    case False
    then have "rounds (Suc k_exfat_scan_limit) slack p" by (simp add: rounds_def)
    from ends_inD [OF ends_exfat_dir_next_loop [OF m] this r [unfolded priv_exfat_dir_next_def]] show ?thesis .
  qed
qed

text \<open>An entry that a listing reports has been read.\<close>

lemma dir_next_progress:
  "exfat_dir_next_loop m n p = (Inr (Some d), q) \<Longrightarrow>
    unat (ec_scanned (snd p)) < k_exfat_scan_limit \<and> unat (ec_scanned (snd p)) < unat (ec_scanned (snd q))"
proof (induction n arbitrary: p)
  case (Suc n)
  let ?k = "unat (ec_scanned (snd p))"
  have a: "askC ec_scanned p = (Inr (ec_scanned (snd p)), p)" by (cases p) (simp add: askC_def)
  obtain r p' where x: "priv_exfat_next_entry m p = (r, p')" by (cases "priv_exfat_next_entry m p") auto
  note run = Suc.prems [unfolded exfat_dir_next_loop.simps bindE_run [of "askC ec_scanned", OF a]]
  have lim: "?k < k_exfat_scan_limit" using run by (auto split: if_splits)
  then have rest: "(case r of Inl err \<Rightarrow> if err = k_ra8_err_not_found then returnE None else throwE err
      | Inr entry \<Rightarrow>
          if entry ! 0 = k_exfat_entry_eod then returnE None
          else if entry ! 0 \<noteq> k_exfat_entry_file then exfat_dir_next_loop m n
          else bindE (internal_exfat_list_emit m entry) (\<lambda>out.
            if out \<noteq> None then returnE out else exfat_dir_next_loop m n)) p' = (Inr (Some d), q)"
    using run x by (simp add: attemptE_def)
  then obtain entry where e: "r = Inr entry" by (cases r) (auto split: if_splits)
  have k': "unat (ec_scanned (snd p')) = ?k + 1"
    using next_entry_scanned [OF x] lim unfolding e by (simp add: unat_add_small)
  show ?case
  proof (cases "entry ! 0 = k_exfat_entry_file")
    case True
    then have "bindE (internal_exfat_list_emit m entry) (\<lambda>out.
        if out \<noteq> None then returnE out else exfat_dir_next_loop m n) p' = (Inr (Some d), q)" using rest e by simp
    then obtain out p'' where o: "internal_exfat_list_emit m entry p' = (Inr out, p'')"
        "(if out \<noteq> None then returnE out else exfat_dir_next_loop m n) p'' = (Inr (Some d), q)"
      by (rule bindE_InrE)
    have "unat (ec_scanned (snd p')) \<le> unat (ec_scanned (snd p''))"
      using scansD(1) [OF scans_internal_exfat_list_emit o(1)] lim k' by simp
    then show ?thesis using o(2) Suc.IH [of p''] lim k' by (auto split: if_splits)
  next
    case False
    then have "exfat_dir_next_loop m n p' = (Inr (Some d), q)" using rest e by (auto split: if_splits)
    then show ?thesis using Suc.IH lim k' by fastforce
  qed
qed simp

lemma ends_exfat_listdir_loop:
  assumes m: "answering m"
  shows "ends_in (\<lambda>p. 0 < n \<and> k_exfat_scan_limit < n + unat (ec_scanned (snd p))) (exfat_listdir_loop m cb n)"
proof (induction n)
  case (Suc n)
  show ?case
  proof (rule ends_inI)
    fix p r q
    assume p: "0 < Suc n \<and> k_exfat_scan_limit < Suc n + unat (ec_scanned (snd p))" and b: "exfat_listdir_loop m cb (Suc n) p = (r, q)"
    from b [unfolded exfat_listdir_loop.simps] show "r \<noteq> Inl out_of_fuel"
    proof (cases rule: bindE_cases)
      case (Err e)
      then show ?thesis using endsD [OF ends_priv_exfat_dir_next [OF m]] by blast
    next
      case (Ok out p')
      show ?thesis
      proof (cases out)
        case None
        then show ?thesis using Ok(2) by auto
      next
        case (Some d)
        note pr = dir_next_progress [OF Ok(1) [unfolded Some priv_exfat_dir_next_def]]
        from Ok(2) Some obtain w where "exfat_listdir_loop m cb n (w, snd p') = (r, q)"
          by (cases p') (auto simp: onC_def bindE_def)
        then show ?thesis using ends_inD [OF Suc.IH, of "(w, snd p')"] pr p by auto
      qed
    qed
  qed
qed (simp add: ends_in_def)

lemma ends_priv_exfat_listdir [ends_rules]:
  assumes "answering m"
  shows "ends (priv_exfat_listdir m dir cb)"
proof (rule endsI)
  fix s r t
  assume "priv_exfat_listdir m dir cb s = (r, t)"
  then obtain q where "exfat_listdir_loop m cb (Suc k_exfat_scan_limit) (s, priv_exfat_cursor_init dir) = (r, q)"
    by (auto simp: priv_exfat_listdir_def withC_def split: prod.splits)
  then show "r \<noteq> Inl out_of_fuel" using ends_inD [OF ends_exfat_listdir_loop [OF assms, of "Suc k_exfat_scan_limit"]] by auto
qed

lemma ends_internal_exfat_dir_alloc [ends_rules]: "answering x1 \<Longrightarrow> ends (internal_exfat_dir_alloc x1)"
  unfolding internal_exfat_dir_alloc_def by (assumption | rule ends_rules | (auto simp: no_fuel split: if_splits; fail))+

lemma ends_internal_exfat_mkdir_check [ends_rules]: "answering x1 \<Longrightarrow> ends (internal_exfat_mkdir_check x1 x2 x3 x4)"
  unfolding internal_exfat_mkdir_check_def by (assumption | rule ends_rules | (auto simp: no_fuel split: if_splits; fail))+

lemma ends_priv_exfat_mkdir [ends_rules]: "answering x1 \<Longrightarrow> ends (priv_exfat_mkdir x1 x2)"
  unfolding priv_exfat_mkdir_def by (assumption | rule ends_rules | (auto simp: no_fuel split: if_splits; fail))+

lemma ends_exfat_is_empty_loop:
  assumes m: "answering m"
  shows "ends_in (rounds n slack) (exfat_is_empty_loop m n)"
proof (induction n)
  case (Suc n)
  show ?case
    unfolding exfat_is_empty_loop.simps
    by (rule ends_round ends_round_attempt refl ends_rules m ends_in_rules rounds_less [OF Suc.IH] | (simp; fail))+
qed (rule no_rounds)

lemma ends_internal_exfat_dir_is_empty [ends_rules]: "answering m \<Longrightarrow> ends (internal_exfat_dir_is_empty m dir)"
  unfolding internal_exfat_dir_is_empty_def by (rule ends_scan_start [OF ends_exfat_is_empty_loop]) (simp_all add: priv_exfat_cursor_init_def)

lemma ends_internal_exfat_rmdir_locate [ends_rules]: "answering x1 \<Longrightarrow> ends (internal_exfat_rmdir_locate x1 x2)"
  unfolding internal_exfat_rmdir_locate_def by (assumption | rule ends_rules | (auto simp: no_fuel split: if_splits; fail))+

lemma ends_priv_exfat_rmdir [ends_rules]: "answering x1 \<Longrightarrow> ends (priv_exfat_rmdir x1 x2)"
  unfolding priv_exfat_rmdir_def by (assumption | rule ends_rules | (auto simp: no_fuel split: if_splits; fail))+

lemma ends_upcase_verify_loop:
  assumes m: "answering m"
  shows "ends_in (rounds n slack) (upcase_verify_loop m n)"
proof (induction n)
  case (Suc n)
  show ?case
    unfolding upcase_verify_loop.simps
    by (rule ends_round ends_round_attempt refl ends_rules m ends_in_rules rounds_less [OF Suc.IH] | (simp; fail))+
qed (rule no_rounds)

lemma ends_locate_label_loop:
  assumes m: "answering m"
  shows "ends_in (rounds n slack) (locate_label_loop m n)"
proof (induction n)
  case (Suc n)
  show ?case
    unfolding locate_label_loop.simps Let_def
    by (rule ends_round ends_round_attempt refl ends_rules m ends_in_rules rounds_less [OF Suc.IH] | (simp; fail))+
qed (rule no_rounds)

lemma ends_locateLabel [ends_rules]: "answering m \<Longrightarrow> ends (locateLabel m)"
  unfolding locateLabel_def by (rule ends_scan_start [OF ends_locate_label_loop]) (simp_all add: priv_exfat_cursor_init_def)

end
