(* ===== verification/Volume_Ends.thy ===== *)
theory Volume_Ends
  imports Exfat_Ends
begin

text \<open>
  Every loop of the driver ends, third part: the operations that take a mounted volume or a device, up to the public calls, and
  the directory cursors.
\<close>

section \<open>Operations on a volume\<close>

subsection \<open>Volume recognition\<close>

lemma ends_readGeom [ends_rules]: "answering x1 \<Longrightarrow> ends (readGeom x1)"
  unfolding readGeom_def by (assumption | rule ends_rules | (auto simp: no_fuel split: if_splits; fail))+

lemma ends_gpt_entry_sector [ends_rules]: "answering x1 \<Longrightarrow> ends (gpt_entry_sector x1 x2 x3)"
  unfolding gpt_entry_sector_def by (assumption | rule ends_rules | (auto simp: no_fuel split: if_splits; fail))+

lemma ends_gpt_scan_loop [ends_rules]: "answering x1 \<Longrightarrow> ends (gpt_scan_loop x1 x2 x3 x4 x5 x6)"
  by (induction x3 arbitrary: x2 x4 x5 x6; simp only: gpt_scan_loop.simps; (assumption | rule ends_rules | (auto simp: no_fuel split: if_splits; fail))+)

lemma ends_scanEntries [ends_rules]: "answering x1 \<Longrightarrow> ends (scanEntries x1 x2 x3)"
  unfolding scanEntries_def by (assumption | rule ends_rules | (auto simp: no_fuel split: if_splits; fail))+

lemma ends_priv_gpt_locate_volume [ends_rules]: "answering x1 \<Longrightarrow> ends (priv_gpt_locate_volume x1)"
  unfolding priv_gpt_locate_volume_def by (assumption | rule ends_rules | (auto simp: no_fuel split: if_splits; fail))+

lemma ends_priv_gpt_locate_partition [ends_rules]: "answering x1 \<Longrightarrow> ends (priv_gpt_locate_partition x1 x2)"
  unfolding priv_gpt_locate_partition_def by (assumption | rule ends_rules | (auto simp: no_fuel split: if_splits; fail))+

lemma ends_internal_locate_indexed [ends_rules]: "answering x1 \<Longrightarrow> ends (internal_locate_indexed x1 x2 x3)"
  unfolding internal_locate_indexed_def by (assumption | rule ends_rules | (auto simp: no_fuel split: if_splits; fail))+

subsection \<open>Paths\<close>

lemma ends_internal_enter_subdir [ends_rules]: "sound x1 \<Longrightarrow> ends (internal_enter_subdir x1 x2 x3)"
  unfolding internal_enter_subdir_def by (assumption | rule ends_rules sound_answers | (auto simp: no_fuel split: if_splits; fail))+

lemma ends_resolve_loop [ends_rules]: "sound x1 \<Longrightarrow> ends (resolve_loop x1 x2 x3 x4)"
  by (induction x2 arbitrary: x3 x4; simp only: resolve_loop.simps; (assumption | rule ends_rules sound_answers | (auto simp: no_fuel split: if_splits; fail))+)

lemma ends_priv_resolve_parent [ends_rules]: "sound x1 \<Longrightarrow> ends (priv_resolve_parent x1 x2)"
  unfolding priv_resolve_parent_def by (assumption | rule ends_rules sound_answers | (auto simp: no_fuel split: if_splits; fail))+

lemma ends_priv_resolve_dir [ends_rules]: "sound x1 \<Longrightarrow> ends (priv_resolve_dir x1 x2)"
  unfolding priv_resolve_dir_def by (assumption | rule ends_rules sound_answers | (auto simp: no_fuel split: if_splits; fail))+

subsection \<open>Listing, deleting, renaming, stat\<close>

lemma ends_listdir_loop:
  assumes "sound m"
  shows "walk_ok m w \<Longrightarrow> walk_left m w \<le> n \<Longrightarrow> ends (listdir_loop m cb n w lfn)"
proof (induction n arbitrary: w lfn)
  case 0
  then show ?case using walk_left_pos by fastforce
next
  case (Suc n)
  then show ?case
    unfolding listdir_loop.simps Let_def
    by (intro ends_rules sound_answers ends_walk_bind assms) (auto intro: ends_basic)
qed

lemma ends_internal_unlink_locate [ends_rules]: "sound x1 \<Longrightarrow> ends (internal_unlink_locate x1 x2)"
  unfolding internal_unlink_locate_def by (assumption | rule ends_rules sound_answers | (auto simp: no_fuel split: if_splits; fail))+

lemma ends_internal_rename_prepare [ends_rules]: "sound x1 \<Longrightarrow> ends (internal_rename_prepare x1 x2 x3)"
  unfolding internal_rename_prepare_def by (assumption | rule ends_rules sound_answers | (auto simp: no_fuel split: if_splits; fail))+

lemma ends_internal_fat_rename [ends_rules]: "sound x1 \<Longrightarrow> ends (internal_fat_rename x1 x2 x3)"
  unfolding internal_fat_rename_def by (assumption | rule ends_rules sound_answers | (auto simp: no_fuel split: if_splits; fail))+

lemma ends_internal_stat_exfat [ends_rules]: "answering x1 \<Longrightarrow> ends (internal_stat_exfat x1 x2)"
  unfolding internal_stat_exfat_def by (assumption | rule ends_rules | (auto simp: no_fuel split: if_splits; fail))+

lemma ends_internal_stat_fat [ends_rules]: "sound x1 \<Longrightarrow> ends (internal_stat_fat x1 x2)"
  unfolding internal_stat_fat_def by (assumption | rule ends_rules sound_answers | (auto simp: no_fuel split: if_splits; fail))+

subsection \<open>Zeroing and walking for truncation\<close>

lemma ends_trunc_walk_loop [ends_rules]: "answering x1 \<Longrightarrow> ends (trunc_walk_loop x1 x2 x3)"
  by (induction x2 arbitrary: x3; simp only: trunc_walk_loop.simps; (assumption | rule ends_rules | (auto simp: no_fuel split: if_splits; fail))+)

lemma ends_internal_trunc_walk [ends_rules]: "answering x1 \<Longrightarrow> ends (internal_trunc_walk x1 x2 x3)"
  unfolding internal_trunc_walk_def by (assumption | rule ends_rules | (auto simp: no_fuel split: if_splits; fail))+

lemma ends_zero_span_loop:
  assumes m: "sound m"
  shows "unat hi - unat off \<le> n \<Longrightarrow> ends (zero_span_loop m base_lba hi n off)"
proof (induction n arbitrary: off)
  case 0
  then show ?case by (simp add: word_less_nat_alt ends_basic del: returnE_apply throwE_apply)
next
  case (Suc n)
  show ?case
  proof (cases "off < hi")
    case False
    then show ?thesis by (simp add: ends_basic del: returnE_apply)
  next
    case True
    define k where "k = (if priv_bps m - (off - off div priv_bps m * priv_bps m) > hi - off then hi - off
        else priv_bps m - (off - off div priv_bps m * priv_bps m))"
    have bps: "512 \<le> unat (priv_bps m)" using sound_bps [OF m] by simp
    have lt: "unat off < unat hi" using True by (simp add: word_less_nat_alt)
    have r: "off - off div priv_bps m * priv_bps m = off mod priv_bps m" by (simp add: minus_div_mult_eq_mod)
    have md: "unat (off mod priv_bps m) < unat (priv_bps m)" using bps by (simp add: unat_mod)
    have "unat (priv_bps m - off mod priv_bps m) = unat (priv_bps m) - unat (off mod priv_bps m)" "unat (hi - off) = unat hi - unat off"
      using md lt by (simp_all add: unat_sub_le word_le_nat_alt)
    then have k: "0 < unat k" "unat k \<le> unat hi - unat off" using md lt by (auto simp: k_def r word_less_nat_alt)
    then have "unat (off + k) = unat off + unat k" using unat_lt [of hi] lt by (subst unat_add_small) simp_all
    then have "ends (zero_span_loop m base_lba hi n (off + k))" using Suc.prems k by (intro Suc.IH) linarith
    then show ?thesis using True m
      by (simp add: Let_def k_def [symmetric] ends_bindE ends_priv_read_sector ends_priv_write_sector sound_answers)
  qed
qed

lemma ends_internal_trunc_zero_span [ends_rules]: "sound m \<Longrightarrow> ends (internal_trunc_zero_span m cluster lo hi)"
  unfolding internal_trunc_zero_span_def
  by (intro ends_rules ends_zero_span_loop) (simp_all add: unat_sub_le word_le_nat_alt)

lemma ends_trunc_extend_loop [ends_rules]: "sound x1 \<Longrightarrow> ends (trunc_extend_loop x1 x2 x3 x4)"
  by (induction x3 arbitrary: x2 x4; simp only: trunc_extend_loop.simps; (assumption | rule ends_rules sound_answers | (auto simp: no_fuel split: if_splits; fail))+)

lemma ends_internal_exfat_free_run [ends_rules]: "answering x1 \<Longrightarrow> ends (internal_exfat_free_run x1 x2 x3 x4)"
  unfolding internal_exfat_free_run_def by (assumption | rule ends_rules | (auto simp: no_fuel split: if_splits; fail))+

subsection \<open>Making and removing directories\<close>

lemma ends_internal_pack_dot_entry [ends_rules]: "ends (internal_pack_dot_entry x1 x2 x3 x4)"
  unfolding internal_pack_dot_entry_def by (assumption | rule ends_rules | (auto simp: no_fuel split: if_splits; fail))+

lemma ends_write_zero_lbas [ends_rules]: "answering x1 \<Longrightarrow> ends (write_zero_lbas x1 x2)"
  by (induction x2; simp only: write_zero_lbas.simps; (assumption | rule ends_rules | (auto simp: no_fuel split: if_splits; fail))+)

lemma ends_internal_dir_cluster_init [ends_rules]: "answering x1 \<Longrightarrow> ends (internal_dir_cluster_init x1 x2 x3)"
  unfolding internal_dir_cluster_init_def by (assumption | rule ends_rules | (auto simp: no_fuel split: if_splits; fail))+

lemma ends_or_free_chain [ends_rules]: "answering m \<Longrightarrow> ends f \<Longrightarrow> ends (or_free_chain m cluster f)"
  unfolding or_free_chain_def by (assumption | rule ends_rules | (simp; fail))+

lemma ends_internal_fat_mkdir [ends_rules]: "sound x1 \<Longrightarrow> ends (internal_fat_mkdir x1 x2)"
  unfolding internal_fat_mkdir_def by (assumption | rule ends_rules sound_answers | (auto simp: no_fuel split: if_splits; fail))+

lemma ends_dir_is_empty_loop:
  assumes "sound m"
  shows "walk_ok m w \<Longrightarrow> walk_left m w \<le> n \<Longrightarrow> ends (dir_is_empty_loop m n w)"
proof (induction n arbitrary: w)
  case 0
  then show ?case using walk_left_pos by fastforce
next
  case (Suc n)
  then show ?case
    unfolding dir_is_empty_loop.simps Let_def
    by (intro ends_rules sound_answers ends_walk_bind assms) (auto intro: ends_basic)
qed

lemma ends_internal_dir_is_empty [ends_rules]: "sound m \<Longrightarrow> ends (internal_dir_is_empty m cluster)"
  unfolding internal_dir_is_empty_def Let_def by (rule ends_dir_is_empty_loop) (simp_all add: walk_start)

lemma ends_internal_rmdir_locate [ends_rules]: "sound x1 \<Longrightarrow> ends (internal_rmdir_locate x1 x2)"
  unfolding internal_rmdir_locate_def by (assumption | rule ends_rules sound_answers | (auto simp: no_fuel split: if_splits; fail))+

lemma ends_internal_fat_rmdir [ends_rules]: "sound x1 \<Longrightarrow> ends (internal_fat_rmdir x1 x2)"
  unfolding internal_fat_rmdir_def by (assumption | rule ends_rules sound_answers | (auto simp: no_fuel split: if_splits; fail))+

subsection \<open>Formatting FAT\<close>

lemma ends_write_blocks [ends_rules]: "answers x1 \<Longrightarrow> ends (write_blocks x1 x2 x3 x4)"
  unfolding write_blocks_def by (assumption | rule ends_rules | (auto simp: no_fuel split: if_splits; fail))+

lemma ends_fmt_zero_loop:
  assumes b: "answers b" and c: "0 < unat chunk_secs"
  shows "unat count - unat cleared \<le> n \<Longrightarrow> ends (fmt_zero_loop b lba count chunk_secs n cleared)"
proof (induction n arbitrary: cleared)
  case 0
  then show ?case by (simp add: word_less_nat_alt ends_basic del: returnE_apply throwE_apply)
next
  case (Suc n)
  show ?case
  proof (cases "cleared < count")
    case False
    then show ?thesis by (simp add: ends_basic del: returnE_apply)
  next
    case True
    define k where "k = (if ucast chunk_secs > count - cleared then ucast (count - cleared) else chunk_secs)"
    have lt: "unat cleared < unat count" using True by (simp add: word_less_nat_alt)
    have sub: "unat (count - cleared) = unat count - unat cleared" using lt by (simp add: unat_sub_le word_le_nat_alt)
    have cs: "unat (ucast chunk_secs :: u64) = unat chunk_secs" using unat_lt [of chunk_secs] by (simp add: unat_ucast_mod)
    have k: "0 < unat k" "unat k \<le> unat count - unat cleared"
      using lt c sub cs unat_lt [of chunk_secs] by (auto simp: k_def word_less_nat_alt unat_ucast_mod)
    then have "unat (cleared + ucast k) = unat cleared + unat k"
      using unat_lt [of count] unat_lt [of k] lt by (subst unat_add_small) (simp_all add: unat_ucast_mod)
    then have "ends (fmt_zero_loop b lba count chunk_secs n (cleared + ucast k))" using Suc.prems k by (intro Suc.IH) linarith
    then show ?thesis using True b by (simp add: Let_def k_def [symmetric] ends_bindE ends_write_blocks)
  qed
qed

lemma ends_internal_fmt_zero_run [ends_rules]:
  "answers b \<Longrightarrow> internal_bps_valid bps \<Longrightarrow> ends (internal_fmt_zero_run b lba count bps)"
  unfolding internal_fmt_zero_run_def
  by (rule ends_fmt_zero_loop) (auto simp: unat_div div_greater_zero_iff dest: bps_valid_bounds)

lemma ends_priv_fmt_clear_region [ends_rules]:
  "answers b \<Longrightarrow> internal_bps_valid bps \<Longrightarrow> ends (priv_fmt_clear_region b lba count bps)"
  unfolding priv_fmt_clear_region_def by (assumption | rule ends_rules | (simp; fail))+

lemma ends_seed_fats_loop [ends_rules]: "answers x1 \<Longrightarrow> ends (seed_fats_loop x1 x2 x3)"
  by (induction x3 arbitrary: x2; simp only: seed_fats_loop.simps; (assumption | rule ends_rules | (auto simp: no_fuel split: if_splits; fail))+)

lemma ends_internal_fmt_seed_fats [ends_rules]: "answers x1 \<Longrightarrow> ends (internal_fmt_seed_fats x1 x2)"
  unfolding internal_fmt_seed_fats_def by (assumption | rule ends_rules | (auto simp: no_fuel split: if_splits; fail))+

lemma ends_internal_fmt_write_fsinfo [ends_rules]: "answers x1 \<Longrightarrow> ends (internal_fmt_write_fsinfo x1 x2 x3)"
  unfolding internal_fmt_write_fsinfo_def by (assumption | rule ends_rules | (auto simp: no_fuel split: if_splits; fail))+

lemma ends_priv_fmt_emit_volume [ends_rules]:
  "answers b \<Longrightarrow> internal_bps_valid (fg_bytes_per_sector g) \<Longrightarrow> ends (priv_fmt_emit_volume b g label)"
  unfolding priv_fmt_emit_volume_def by (assumption | rule ends_rules | (simp; fail))+

subsection \<open>Formatting exFAT\<close>

lemma ends_internal_exfat_wr_dual [ends_rules]: "answers x1 \<Longrightarrow> ends (internal_exfat_wr_dual x1 x2 x3 x4)"
  unfolding internal_exfat_wr_dual_def by (assumption | rule ends_rules | (auto simp: no_fuel split: if_splits; fail))+

lemma ends_write_ext_loop [ends_rules]: "answers x1 \<Longrightarrow> ends (write_ext_loop x1 x2 x3 x4 x5)"
  by (induction x4 arbitrary: x2 x3 x5; simp only: write_ext_loop.simps; (assumption | rule ends_rules | (auto simp: no_fuel split: if_splits; fail))+)

lemma ends_internal_exfat_write_boot_tail [ends_rules]: "answers x1 \<Longrightarrow> ends (internal_exfat_write_boot_tail x1 x2 x3)"
  unfolding internal_exfat_write_boot_tail_def by (assumption | rule ends_rules | (auto simp: no_fuel split: if_splits; fail))+

lemma ends_internal_exfat_write_boot [ends_rules]: "answers x1 \<Longrightarrow> ends (internal_exfat_write_boot x1 x2)"
  unfolding internal_exfat_write_boot_def by (assumption | rule ends_rules | (auto simp: no_fuel split: if_splits; fail))+

lemma ends_internal_exfat_write_fat [ends_rules]: "answers b \<Longrightarrow> internal_bps_valid (xg_bps g) \<Longrightarrow> ends (internal_exfat_write_fat b g)"
  unfolding internal_exfat_write_fat_def by (assumption | rule ends_rules | (simp; fail))+

lemma ends_internal_exfat_write_bitmap [ends_rules]: "answers b \<Longrightarrow> internal_bps_valid (xg_bps g) \<Longrightarrow> ends (internal_exfat_write_bitmap b g)"
  unfolding internal_exfat_write_bitmap_def by (assumption | rule ends_rules | (simp; fail))+

lemma ends_internal_exfat_write_root [ends_rules]:
  "answers b \<Longrightarrow> internal_bps_valid (xg_bps g) \<Longrightarrow> ends (internal_exfat_write_root b g csum label)"
  unfolding internal_exfat_write_root_def by (assumption | rule ends_rules | (simp; fail))+

lemma ends_write_upcase_loop [ends_rules]: "answers x1 \<Longrightarrow> ends (write_upcase_loop x1 x2 x3 x4 x5 x6)"
  by (induction x4 arbitrary: x2 x3 x5 x6; simp only: write_upcase_loop.simps; (assumption | rule ends_rules | (auto simp: no_fuel split: if_splits; fail))+)

lemma ends_priv_exfat_write_upcase [ends_rules]: "answers x1 \<Longrightarrow> ends (priv_exfat_write_upcase x1 x2 x3)"
  unfolding priv_exfat_write_upcase_def by (assumption | rule ends_rules | (auto simp: no_fuel split: if_splits; fail))+

lemma ends_internal_exfat_write_mbr [ends_rules]: "answers x1 \<Longrightarrow> ends (internal_exfat_write_mbr x1 x2 x3 x4)"
  unfolding internal_exfat_write_mbr_def by (assumption | rule ends_rules | (auto simp: no_fuel split: if_splits; fail))+

subsection \<open>Volume label\<close>

lemma ends_internal_fat_find_vol_id [ends_rules]: "sound m \<Longrightarrow> ends (internal_fat_find_vol_id m)"
  unfolding internal_fat_find_vol_id_def by (rule ends_dir_start) (simp_all add: scan_bodies)

lemma ends_internal_fat_find_free_root [ends_rules]: "sound m \<Longrightarrow> ends (internal_fat_find_free_root m)"
  unfolding internal_fat_find_free_root_def by (rule ends_dir_start) (simp_all add: scan_bodies)

lemma ends_internal_fat_boot_set_label [ends_rules]: "answering x1 \<Longrightarrow> ends (internal_fat_boot_set_label x1 x2)"
  unfolding internal_fat_boot_set_label_def by (assumption | rule ends_rules | (auto simp: no_fuel split: if_splits; fail))+

lemma ends_internal_fat_del_entry [ends_rules]: "answering x1 \<Longrightarrow> ends (internal_fat_del_entry x1 x2 x3)"
  unfolding internal_fat_del_entry_def by (assumption | rule ends_rules | (auto simp: no_fuel split: if_splits; fail))+

lemma ends_internal_fat_put_vol_id [ends_rules]: "answering x1 \<Longrightarrow> ends (internal_fat_put_vol_id x1 x2 x3 x4 x5)"
  unfolding internal_fat_put_vol_id_def by (assumption | rule ends_rules | (auto simp: no_fuel split: if_splits; fail))+

lemma ends_internal_get_label_fat [ends_rules]: "sound x1 \<Longrightarrow> ends (internal_get_label_fat x1 x2)"
  unfolding internal_get_label_fat_def by (assumption | rule ends_rules sound_answers | (auto simp: no_fuel split: if_splits; fail))+

lemma ends_internal_set_label_fat [ends_rules]: "sound x1 \<Longrightarrow> ends (internal_set_label_fat x1 x2)"
  unfolding internal_set_label_fat_def by (assumption | rule ends_rules sound_answers | (auto simp: no_fuel split: if_splits; fail))+

lemma ends_priv_exfat_get_label [ends_rules]: "answering x1 \<Longrightarrow> ends (priv_exfat_get_label x1 x2)"
  unfolding priv_exfat_get_label_def by (assumption | rule ends_rules | (auto simp: no_fuel split: if_splits; fail))+

lemma ends_priv_exfat_set_label [ends_rules]: "answering x1 \<Longrightarrow> ends (priv_exfat_set_label x1 x2)"
  unfolding priv_exfat_set_label_def by (assumption | rule ends_rules | (auto simp: no_fuel split: if_splits; fail))+

subsection \<open>Free space, attributes, times\<close>

lemma ends_find_entry [ends_rules]: "sound x1 \<Longrightarrow> ends (find_entry x1 x2)"
  unfolding find_entry_def by (assumption | rule ends_rules sound_answers | (auto simp: no_fuel split: if_splits; fail))+

lemma ends_reread_set [ends_rules]: "answering x1 \<Longrightarrow> ends (reread_set x1 x2)"
  by (induction x2; simp only: reread_set.simps; (assumption | rule ends_rules | (auto simp: no_fuel split: if_splits; fail))+)

lemma ends_patch_set [ends_rules]: "answering m \<Longrightarrow> (\<And>x. ends (f x)) \<Longrightarrow> ends (patch_set m path f)"
  unfolding patch_set_def by (assumption | rule ends_rules | (simp; fail))+

lemma ends_setAttrFat [ends_rules]: "sound x1 \<Longrightarrow> ends (setAttrFat x1 x2 x3 x4)"
  unfolding setAttrFat_def by (assumption | rule ends_rules sound_answers | (auto simp: no_fuel split: if_splits; fail))+

lemma ends_setAttrExfat [ends_rules]: "answering x1 \<Longrightarrow> ends (setAttrExfat x1 x2 x3 x4)"
  unfolding setAttrExfat_def by (assumption | rule ends_rules | (auto simp: no_fuel split: if_splits; fail))+

lemma ends_utimeFat [ends_rules]: "sound x1 \<Longrightarrow> ends (utimeFat x1 x2 x3)"
  unfolding utimeFat_def by (assumption | rule ends_rules sound_answers | (auto simp: no_fuel split: if_splits; fail))+

lemma ends_utimeExfat [ends_rules]: "answering x1 \<Longrightarrow> ends (utimeExfat x1 x2 x3)"
  unfolding utimeExfat_def by (assumption | rule ends_rules | (auto simp: no_fuel split: if_splits; fail))+

lemma ends_fat_free_loop [ends_rules]: "answering x1 \<Longrightarrow> ends (fat_free_loop x1 x2 x3)"
  by (induction x2 arbitrary: x3; simp only: fat_free_loop.simps; (assumption | rule ends_rules | (auto simp: no_fuel split: if_splits; fail))+)

lemma ends_fatFree [ends_rules]: "answering x1 \<Longrightarrow> ends (fatFree x1)"
  unfolding fatFree_def by (assumption | rule ends_rules | (auto simp: no_fuel split: if_splits; fail))+

lemma ends_exfat_free_loop [ends_rules]: "answering x1 \<Longrightarrow> ends (exfat_free_loop x1 x2 x3 x4 x5 x6 x7 x8)"
  by (induction x5 arbitrary: x2 x3 x4 x6 x7 x8; simp only: exfat_free_loop.simps; (assumption | rule ends_rules | (auto simp: no_fuel split: if_splits; fail))+)

lemma ends_exfatFree [ends_rules]: "answering x1 \<Longrightarrow> ends (exfatFree x1)"
  unfolding exfatFree_def by (assumption | rule ends_rules | (auto simp: no_fuel split: if_splits; fail))+

lemma ends_freeClusters [ends_rules]: "answering x1 \<Longrightarrow> ends (freeClusters x1)"
  unfolding freeClusters_def by (assumption | rule ends_rules | (auto simp: no_fuel split: if_splits; fail))+


section \<open>Formatting\<close>

lemma geometry_no_fuel [no_fuel]:
  "priv_fmt_choose_geometry g spc \<noteq> Inl out_of_fuel" "exfat_format_plan n bps \<noteq> Inl out_of_fuel"
proof -
  have "choose_loop g auto k c \<noteq> Inl out_of_fuel" for auto k c
    by (induction k arbitrary: c) (auto split: prod.split)
  then show "priv_fmt_choose_geometry g spc \<noteq> Inl out_of_fuel"
    unfolding priv_fmt_choose_geometry_def Let_def by simp
  have "exfat_geom_loop tot off spc' k c st \<noteq> Inl out_of_fuel" for tot off spc' k c st
    by (induction k arbitrary: c st) (auto simp: Let_def)
  then have "internal_exfat_geometry tot g' \<noteq> Inl out_of_fuel" for tot g'
    unfolding internal_exfat_geometry_def Let_def by (auto split: sum.split)
  then show "exfat_format_plan n bps \<noteq> Inl out_of_fuel"
    by (auto simp: exfat_format_plan_def internal_exfat_fmt_place_def Let_def split: sum.splits if_splits)
qed

lemma geometry_bps:
  "priv_fmt_choose_geometry g spc = Inr g' \<Longrightarrow> fg_bytes_per_sector g' = fg_bytes_per_sector g"
  "exfat_format_plan n bps = Inr (x, y) \<Longrightarrow> xg_bps x = bps"
proof -
  have "choose_loop g auto k c = Inr g' \<Longrightarrow> fg_bytes_per_sector g' = fg_bytes_per_sector g" for auto k c
    by (induction k arbitrary: c) (auto split: prod.splits if_splits)
  then show "priv_fmt_choose_geometry g spc = Inr g' \<Longrightarrow> fg_bytes_per_sector g' = fg_bytes_per_sector g"
    unfolding priv_fmt_choose_geometry_def Let_def by (auto split: if_splits)
  have "internal_exfat_geometry tot a = Inr b \<Longrightarrow> xg_bps b = xg_bps a" for tot a b
    unfolding internal_exfat_geometry_def Let_def by (auto split: sum.splits if_splits)
  then show "exfat_format_plan n bps = Inr (x, y) \<Longrightarrow> xg_bps x = bps"
    by (auto simp: exfat_format_plan_def exfat_geom_init_def split: sum.splits if_splits)
qed

lemma ends_returnR_bind: "r \<noteq> Inl out_of_fuel \<Longrightarrow> (\<And>x. r = Inr x \<Longrightarrow> ends (g x)) \<Longrightarrow> ends (bindE (returnR r) g)"
  by (rule ends_bind_on) (auto simp: returnR_def ends_def)

lemma ends_priv_exfat_format [ends_rules]:
  "answers b \<Longrightarrow> internal_bps_valid bps \<Longrightarrow> ends (priv_exfat_format b n bps label)"
  unfolding priv_exfat_format_def
  by (rule ends_returnR_bind) (auto simp: no_fuel geometry_bps intro!: ends_rules)

lemma ends_internal_format_locked [ends_rules]: "(\<And>b. backend = Some b \<Longrightarrow> answers b) \<Longrightarrow> ends (internal_format_locked backend opts)"
  unfolding internal_format_locked_def
  by (rule ends_rules ends_returnR_bind | (simp; fail) | (auto simp: no_fuel geometry_bps fmt_geom_init_def; fail))+

section \<open>Mounting\<close>

interpretation recognising: recognition_frame "\<lambda>_. True" answering
  by unfold_locales auto

abbreviation recognising :: "'w fs \<times> 'w mount \<Rightarrow> bool" where
  "recognising \<equiv> on_both (\<lambda>_. True) answering"

lemma ends_in_onM: "(\<And>m. answering m \<Longrightarrow> ends (f m)) \<Longrightarrow> ends_in recognising (onM f)"
  by (auto simp: ends_def ends_in_def on_both_def onM_def split: prod.split) (metis fst_conv)

lemma keeps_true [keeps_rules]: "keeps (\<lambda>_. True) f"
  by (simp add: keeps_def)

lemma keeps_recognising_setM: "(\<And>m. m_backend (f m) = m_backend m) \<Longrightarrow> keeps recognising (setM f)"
  by (rule keeps_both_setM) simp

lemmas mount_rules = ends_in_bindE ends_in_attemptE ends_in_onM ends_in_rules ends_any [OF ends_cursor(3)] ends_any [OF ends_cursor(4)]
  ends_rules keeps_both_askM keeps_both_onM keeps_true keeps_recognising_setM

lemma ends_in_whenE: "(b \<Longrightarrow> ends_in I f) \<Longrightarrow> ends_in I (whenE b f)"
  by (cases b) (simp_all add: ends_in_returnE del: returnE_apply)

lemma ends_parse_bpb: "ends (priv_parse_bpb_into_mount buf)"
  unfolding priv_parse_bpb_into_mount_def by (rule ends_rules | (simp; fail))+

lemma ends_compute_geometry: "ends internal_compute_geometry"
  unfolding internal_compute_geometry_def by (rule ends_rules | (simp; fail))+

lemma ends_in_upcase_verify: "ends_in recognising priv_exfat_upcase_verify"
  unfolding priv_exfat_upcase_verify_def
  by (rule mount_rules ends_in_whenE ends_scan_start [OF ends_upcase_verify_loop] | assumption | (simp; fail))+

lemma ends_in_exfat_parse: "ends_in recognising (internal_exfat_parse buf)"
  unfolding internal_exfat_parse_def Let_def by (rule mount_rules ends_in_upcase_verify | (simp; fail))+

lemma ends_in_parse_volume: "ends_in recognising (priv_parse_volume buf)"
  unfolding priv_parse_volume_def by (rule mount_rules ends_in_exfat_parse ends_any [OF ends_parse_bpb])+

lemma ends_in_finish: "ends_in recognising (finish_boot_sector base)"
  unfolding finish_boot_sector_def by (rule mount_rules ends_in_parse_volume | assumption | (simp; fail))+

lemma ends_in_read_boot_sector: "ends_in recognising (internal_read_boot_sector index)"
  unfolding internal_read_boot_sector_def Let_def
  by (rule mount_rules ends_in_finish ends_in_parse_volume recognising.keeps_both_parse_volume | assumption | (simp; fail) | (auto; fail))+

lemma ends_in_probe_bps: "answers b \<Longrightarrow> ends_in I (internal_mount_probe_bps b)"
  unfolding internal_mount_probe_bps_def
  by (rule ends_any) (auto intro!: ends_rules ends_paired [where g = "\<lambda>_ m. m"] simp: onM_def split: prod.split)

lemma keeps_probe_bps: "keeps recognising (internal_mount_probe_bps b)"
  unfolding internal_mount_probe_bps_def by (rule keeps_rules keeps_recognising_setM | (simp; fail))+

lemma ends_in_recognise_rest: "answers b \<Longrightarrow> (\<And>x. ends_in recognising (k x)) \<Longrightarrow>
  ends_in recognising (bindE (internal_mount_probe_bps b) (\<lambda>_. bindE (internal_read_boot_sector index) (\<lambda>_.
    bindE (askM m_type) (\<lambda>ty. bindE (whenE (ty \<noteq> k_ra8_fs_type_exfat) internal_compute_geometry) k))))"
  by (rule mount_rules ends_in_probe_bps keeps_probe_bps ends_in_read_boot_sector recognising.keeps_both_read_boot_sector ends_in_whenE
      ends_any [OF ends_compute_geometry] keeps_whenE recognising.keeps_both_compute_geometry | assumption | (simp; fail))+

lemma ends_internal_probe_locked:
  assumes "\<And>b. backend = Some b \<Longrightarrow> answers b"
  shows "ends (internal_probe_locked backend)"
proof (rule endsI)
  fix s r t
  assume r: "internal_probe_locked backend s = (r, t)"
  show "r \<noteq> Inl out_of_fuel"
  proof (cases "\<exists>b. backend = Some b \<and> read_block b \<noteq> None \<and> get_capacity b \<noteq> None")
    case False
    then show ?thesis using r by (auto simp: internal_probe_locked_def split: option.splits if_splits)
  next
    case True
    then obtain b where b: "backend = Some b" "read_block b \<noteq> None" "get_capacity b \<noteq> None" by blast
    define m where "m = (mount_zero k_ra8_fs_max_mounts)\<lparr>m_backend := b\<rparr>"
    obtain q where q: "bindE (internal_mount_probe_bps b) (\<lambda>_. bindE (internal_read_boot_sector k_ra8_fs_partition_auto) (\<lambda>_.
        bindE (askM m_type) (\<lambda>ty. bindE (whenE (ty \<noteq> k_ra8_fs_type_exfat) internal_compute_geometry) (\<lambda>_. askM m_type)))) (s, m) = (r, q)"
      using r b by (auto simp: internal_probe_locked_def m_def split: prod.splits)
    have "recognising (s, m)" using assms b(1) by (simp add: on_both_def m_def)
    from ends_inD [OF ends_in_recognise_rest this q] show ?thesis using assms b(1) by (simp add: ends_any ends_cursor)
  qed
qed

lemma setM_bind: "bindE (setM f) g (s, m) = g () (s, f m)"
  by (simp add: bindE_def setM_def)

lemma ends_mount_fill:
  assumes b: "answers b"
  shows "ends (mount_fill b index)"
proof (rule endsI)
  fix p r q
  assume "mount_fill b index p = (r, q)"
  moreover obtain s m where p: "p = (s, m)" by (cases p)
  ultimately have run: "bindE (internal_mount_probe_bps b) (\<lambda>_. bindE (internal_read_boot_sector index) (\<lambda>_.
      bindE (askM m_type) (\<lambda>ty. bindE (whenE (ty \<noteq> k_ra8_fs_type_exfat) internal_compute_geometry) (\<lambda>_.
      bindE (onM (\<lambda>m. modifyE (priv_alloc_state_bind m))) (\<lambda>_.
      attemptE (onM priv_fsinfo_seed) (\<lambda>r. case r of
        Inl err \<Rightarrow> bindE (onM (\<lambda>m. modifyE (priv_alloc_state_release m))) (\<lambda>_. throwE err)
      | Inr _ \<Rightarrow> setM (\<lambda>m. m\<lparr>m_in_use := True\<rparr>))))))) (s, (mount_zero (m_addr m))\<lparr>m_backend := b\<rparr>) = (r, q)"
    unfolding mount_fill_def by (simp only: setM_bind)
  have rest: "ends_in recognising (bindE (onM (\<lambda>m. modifyE (priv_alloc_state_bind m))) (\<lambda>_.
      attemptE (onM priv_fsinfo_seed) (\<lambda>r. case r of
        Inl err \<Rightarrow> bindE (onM (\<lambda>m. modifyE (priv_alloc_state_release m))) (\<lambda>_. throwE err)
      | Inr _ \<Rightarrow> setM (\<lambda>m. m\<lparr>m_in_use := True\<rparr>))))"
    by (rule mount_rules | assumption | (simp; fail) | (auto; fail))+
  have "recognising (s, (mount_zero (m_addr m))\<lparr>m_backend := b\<rparr>)" using b by (simp add: on_both_def)
  from ends_inD [OF ends_in_recognise_rest [OF b rest] this run] show "r \<noteq> Inl out_of_fuel" .
qed

lemma ends_on_slot: "ends f \<Longrightarrow> ends (on_slot i f)"
  by (auto simp: ends_def on_slot_def split: prod.split) (metis fst_conv)

lemma ends_internal_mount_locked: "(\<And>b. backend = Some b \<Longrightarrow> answers b) \<Longrightarrow> ends (internal_mount_locked backend index)"
  unfolding internal_mount_locked_def
  by (rule ends_rules ends_on_slot ends_mount_fill | (simp; fail))+

section \<open>Calls on a volume\<close>

text \<open>The mounts in use are sound.\<close>

definition mounts_sound :: "'w fs \<Rightarrow> bool" where
  "mounts_sound s \<longleftrightarrow> (\<forall>h < k_ra8_fs_max_mounts. m_in_use (s_mounts s ! h) \<longrightarrow> sound (s_mounts s ! h))"

lemma ends_in_mount [ends_rules]:
  assumes "h < k_ra8_fs_max_mounts" and "e \<noteq> out_of_fuel" and "\<And>m. sound m \<Longrightarrow> ends (g m)"
  shows "ends_in mounts_sound (bindE (mountE h) (\<lambda>m. if \<not> m_in_use m then throwE e else g m))"
  using assms by (auto simp: ends_in_def ends_def mountE_def mounts_sound_def bindE_def)

lemma ends_in_locked [ends_rules]: "(\<And>s. I s \<Longrightarrow> I (priv_lock_acquire s)) \<Longrightarrow> ends_in I f \<Longrightarrow> ends_in I (locked f)"
  by (fastforce simp: ends_in_def locked_def split: prod.split)

lemma mounts_sound_lock: "mounts_sound s \<Longrightarrow> mounts_sound (priv_lock_acquire s)"
  by (simp add: mounts_sound_def priv_lock_acquire_def split: option.split)

lemmas volume_rules = ends_in_mount ends_in_locked mounts_sound_lock ends_in_prod ends_in_option ends_in_throwE ends_in_if
  ends_rules sound_answers

lemma ends_ra8_fs_listdir: "mount_handle h \<Longrightarrow> ends_in mounts_sound (ra8_fs_listdir h p cb)"
  unfolding ra8_fs_listdir_def internal_listdir_locked_def Let_def by (rule volume_rules ends_listdir_loop walk_start(1) | assumption | (simp add: walk_start(2); fail) | (auto; fail))+

lemma ends_ra8_fs_unlink: "mount_handle h \<Longrightarrow> ends_in mounts_sound (ra8_fs_unlink h p)"
  unfolding ra8_fs_unlink_def internal_unlink_locked_def by (rule volume_rules | assumption | (simp; fail) | (auto; fail))+

lemma ends_ra8_fs_rename: "mount_handle h \<Longrightarrow> ends_in mounts_sound (ra8_fs_rename h p q)"
  unfolding ra8_fs_rename_def internal_rename_locked_def by (rule volume_rules | assumption | (simp; fail) | (auto; fail))+

lemma ends_ra8_fs_stat: "mount_handle h \<Longrightarrow> ends_in mounts_sound (ra8_fs_stat h p)"
  unfolding ra8_fs_stat_def internal_stat_locked_def by (rule volume_rules | assumption | (simp; fail) | (auto; fail))+

lemma ends_ra8_fs_mkdir: "mount_handle h \<Longrightarrow> ends_in mounts_sound (ra8_fs_mkdir h p)"
  unfolding ra8_fs_mkdir_def internal_mkdir_locked_def by (rule volume_rules | assumption | (simp; fail) | (auto; fail))+

lemma ends_ra8_fs_rmdir: "mount_handle h \<Longrightarrow> ends_in mounts_sound (ra8_fs_rmdir h p)"
  unfolding ra8_fs_rmdir_def internal_rmdir_locked_def by (rule volume_rules | assumption | (simp; fail) | (auto; fail))+

lemma ends_ra8_fs_get_label: "mount_handle h \<Longrightarrow> ends_in mounts_sound (ra8_fs_get_label h n)"
  unfolding ra8_fs_get_label_def internal_get_label_locked_def by (rule volume_rules | assumption | (simp; fail) | (auto; fail))+

lemma ends_ra8_fs_set_label: "mount_handle h \<Longrightarrow> ends_in mounts_sound (ra8_fs_set_label h l)"
  unfolding ra8_fs_set_label_def internal_set_label_locked_def by (rule volume_rules | assumption | (simp; fail) | (auto; fail))+

lemma ends_ra8_fs_set_attr: "mount_handle h \<Longrightarrow> ends_in mounts_sound (ra8_fs_set_attr h p on off)"
  unfolding ra8_fs_set_attr_def setAttrLocked_def by (rule volume_rules | assumption | (simp; fail) | (auto; fail))+

lemma ends_ra8_fs_utime: "mount_handle h \<Longrightarrow> ends_in mounts_sound (ra8_fs_utime h p st)"
  unfolding ra8_fs_utime_def utimeLocked_def by (rule volume_rules | assumption | (simp; fail) | (auto; fail))+

lemma ends_ra8_fs_free_space: "mount_handle h \<Longrightarrow> ends_in mounts_sound (ra8_fs_free_space h out)"
  unfolding ra8_fs_free_space_def spaceLocked_def by (rule volume_rules | assumption | (simp; fail) | (auto; fail))+

section \<open>Directory cursors\<close>

text \<open>A sector of a directory is looked at to its end, unless an entry or the end marker is found.\<close>

lemma scan_sector_loop_end:
  assumes "dir_scan_sector_loop n bps sector st = (None, st')" and "\<not> dp_finished st'" and "unat bps \<le> 4096"
    and "unat bps \<le> unat (w_entry_idx (dp_fat_walk st)) + 32 * n"
  shows "bps \<le> w_entry_idx (dp_fat_walk st') \<and> (\<exists>k. dp_fat_walk st' = (dp_fat_walk st)\<lparr>w_entry_idx := k\<rparr>)"
  using assms
proof (induction n arbitrary: st)
  case 0
  then show ?case by (auto simp: word_le_nat_alt intro: exI [of _ "w_entry_idx (dp_fat_walk st)"])
next
  case (Suc n)
  let ?k = "w_entry_idx (dp_fat_walk st)"
  show ?case
  proof (cases "?k < bps")
    case False
    then show ?thesis using Suc.prems(1) by (auto intro: exI [of _ ?k])
  next
    case True
    have k: "unat (?k + 32) = unat ?k + 32"
      using True Suc.prems(3) by (subst unat_add_small) (simp_all add: word_less_nat_alt)
    define st1 where "st1 = st\<lparr>dp_fat_walk := (dp_fat_walk st)\<lparr>w_entry_idx := ?k + 32\<rparr>\<rparr>"
    from Suc.prems(1,2) True obtain l where "dir_scan_sector_loop n bps sector (st1\<lparr>dp_fat_lfn := l\<rparr>) = (None, st')"
      by (auto simp: Let_def st1_def split: if_splits)
    from Suc.IH [OF this Suc.prems(2,3)] Suc.prems(4) k show ?thesis by (auto simp: st1_def)
  qed
qed

lemma scan_sector_end:
  assumes "sound m" and "internal_fat_dir_scan_sector m sector st = (None, st')" and "\<not> dp_finished st'"
  shows "priv_bps m \<le> w_entry_idx (dp_fat_walk st')" "\<exists>k. dp_fat_walk st' = (dp_fat_walk st)\<lparr>w_entry_idx := k\<rparr>"
  using scan_sector_loop_end [OF assms(2) [unfolded internal_fat_dir_scan_sector_def] assms(3)] sound_bps [OF assms(1)] by auto

text \<open>What a cursor of a FAT directory still needs: a round for each sector left, and one for the sector it is in.\<close>

definition cursor_left :: "'w mount \<Rightarrow> dir_private \<Rightarrow> nat" where
  "cursor_left m st = walk_left m (dp_fat_walk st) + (if w_entry_idx (dp_fat_walk st) < priv_bps m then 1 else 0)"

lemma walk_idx [simp]: "walk_ok m (w\<lparr>w_entry_idx := k\<rparr>) = walk_ok m w" "walk_left m (w\<lparr>w_entry_idx := k\<rparr>) = walk_left m w"
  by (simp_all add: walk_ok_def walk_left_def)

lemma walk_next_idx: "walk_next m (s, w) = (Inr False, (t, w')) \<Longrightarrow> w_entry_idx w' = 0"
  by (auto simp: walk_next_def Let_def split: if_splits prod.splits sum.splits)

lemma ends_fat_dir_next_loop:
  assumes m: "sound m"
  shows "walk_ok m (dp_fat_walk st) \<Longrightarrow> cursor_left m st \<le> n \<Longrightarrow> fst (fat_dir_next_loop m n (s, st)) \<noteq> Inl out_of_fuel"
proof (induction n arbitrary: s st)
  case 0
  then show ?case using walk_left_pos [of m "dp_fat_walk st"] by (simp add: cursor_left_def)
next
  case (Suc n)
  have scan: "fst ((\<lambda>(s, st). case priv_read_sector m (w_cur_lba (dp_fat_walk st)) s of
      (Inl err, s') \<Rightarrow> (Inl err, (s', st))
    | (Inr sector, s') \<Rightarrow> (case internal_fat_dir_scan_sector m sector st of (hit, st') \<Rightarrow>
        if hit \<noteq> None \<or> dp_finished st' then (Inr hit, (s', st')) else fat_dir_next_loop m n (s', st'))) (s1, st1)) \<noteq> Inl out_of_fuel"
    if "walk_ok m (dp_fat_walk st1)" and "walk_left m (dp_fat_walk st1) \<le> n" for s1 st1
  proof -
    obtain r s2 where rd: "priv_read_sector m (w_cur_lba (dp_fat_walk st1)) s1 = (r, s2)" by fastforce
    have "r \<noteq> Inl out_of_fuel" using endsD [OF ends_priv_read_sector rd] sound_answers [OF m] by blast
    moreover have "fst (fat_dir_next_loop m n (s2, st2)) \<noteq> Inl out_of_fuel"
      if "internal_fat_dir_scan_sector m sec st1 = (None, st2)" and "\<not> dp_finished st2" for sec st2
    proof -
      note e = scan_sector_end [OF m that]
      then obtain k where "dp_fat_walk st2 = (dp_fat_walk st1)\<lparr>w_entry_idx := k\<rparr>" by blast
      then show ?thesis using e(1) \<open>walk_ok m (dp_fat_walk st1)\<close> \<open>walk_left m (dp_fat_walk st1) \<le> n\<close>
        by (intro Suc.IH) (auto simp: cursor_left_def)
    qed
    ultimately show ?thesis using rd by (auto split: sum.split prod.split)
  qed
  show ?case
  proof (cases "priv_bps m \<le> w_entry_idx (dp_fat_walk st)")
    case False
    then have "walk_left m (dp_fat_walk st) \<le> n" using Suc.prems(2) by (simp add: cursor_left_def not_le)
    then show ?thesis using False scan [OF Suc.prems(1)] by (auto simp: bindE_def)
  next
    case True
    obtain r s1 w1 where w: "walk_next m (s, dp_fat_walk st) = (r, (s1, w1))" by (metis prod.exhaust)
    have r: "r \<noteq> Inl out_of_fuel" using endsD [OF ends_walk_next w] sound_answers [OF m] by blast
    have "fst (fat_dir_next_loop m (Suc n) (s, st)) \<noteq> Inl out_of_fuel" if "r = Inr False"
    proof -
      note st = walk_step [OF Suc.prems(1) m w [unfolded that]]
      then have "walk_left m w1 \<le> n" using Suc.prems(2) by (simp add: cursor_left_def)
      then show ?thesis using True w that scan [of "st\<lparr>dp_fat_walk := w1, dp_finished := False\<rparr>" s1] st(1)
        by (auto simp: bindE_def internal_fat_dir_advance_sector_def)
    qed
    then show ?thesis using True w r
      by (cases r) (auto simp: bindE_def internal_fat_dir_advance_sector_def split: if_splits)
  qed
qed

text \<open>A cursor that was opened on its mount: the walk is inside the bounds it was started with, or at its end.\<close>

definition cursor_ok :: "'w fs \<Rightarrow> dir_handle \<Rightarrow> bool" where
  "cursor_ok s d \<longleftrightarrow> dp_mount (dh_state d) < k_ra8_fs_max_mounts \<and>
     (dp_finished (dh_state d) \<or> walk_ok (s_mounts s ! dp_mount (dh_state d)) (dp_fat_walk (dh_state d)))"

lemma walk_left_fuel: "walk_left m w \<le> dir_fuel m w"
proof -
  have "(n - h) * k + (k - c) \<le> (n + 1) * k" for n h k c :: nat
    using mult_le_mono1 [of "n - h" n k] by (simp add: algebra_simps)
  from this [of _ _ "unat (m_sectors_per_cluster m) + 1"] show ?thesis
    by (cases "w_is_root_fixed w") (simp_all only: walk_left_def dir_fuel_def if_True if_False)
qed

lemma ends_dir_next_locked:
  assumes s: "mounts_sound s" and h: "dp_mount st < k_ra8_fs_max_mounts"
    and w: "dp_finished st \<or> walk_ok (s_mounts s ! dp_mount st) (dp_fat_walk st)"
  shows "fst (dir_next_locked (s, st)) \<noteq> Inl out_of_fuel"
proof (cases "m_in_use (s_mounts s ! dp_mount st) \<and> \<not> dp_finished st")
  case True
  define m where "m = s_mounts s ! dp_mount st"
  have m: "sound m" using s h True by (simp add: mounts_sound_def m_def)
  have "cursor_left m st \<le> Suc (dir_fuel m (dp_fat_walk st))"
    using walk_left_fuel [of m "dp_fat_walk st"] by (simp add: cursor_left_def)
  then have 1: "fst (internal_fat_dir_next m (s, st)) \<noteq> Inl out_of_fuel"
    using ends_fat_dir_next_loop [OF m] w True by (simp add: internal_fat_dir_next_def m_def del: fat_dir_next_loop.simps)
  have 2: "fst (priv_exfat_dir_next m (s, dp_exfat_cursor st)) \<noteq> Inl out_of_fuel"
    using ends_priv_exfat_dir_next [OF sound_answers [OF m]] by (simp add: ends_def)
  show ?thesis using 1 2 True
    by (auto simp: dir_next_locked_def m_def [symmetric] Let_def split: prod.split sum.split)
qed (auto simp: dir_next_locked_def Let_def)

lemma ends_ra8_fs_dir_next:
  assumes "mounts_sound s" and "cursor_ok s d"
  shows "fst (ra8_fs_dir_next (s, d)) \<noteq> Inl out_of_fuel"
proof -
  have "s_mounts (priv_lock_acquire s) = s_mounts s" by (simp add: priv_lock_acquire_def split: option.split)
  then show ?thesis
    using ends_dir_next_locked [of "priv_lock_acquire s" "dh_state d"] assms mounts_sound_lock [of s]
    by (auto simp: ra8_fs_dir_next_def cursor_ok_def split: prod.split)
qed

lemma ends_ra8_fs_dir_open:
  assumes "mounts_sound s" and "mount_handle h"
  shows "fst (ra8_fs_dir_open h p (s, d)) \<noteq> Inl out_of_fuel"
proof -
  have "ends_in mounts_sound (locked (internal_dir_open_locked k q))" if "k < k_ra8_fs_max_mounts" for k q
    unfolding internal_dir_open_locked_def by (rule volume_rules that | assumption | (simp; fail))+
  then have "locked (internal_dir_open_locked k q) s \<noteq> (Inl out_of_fuel, t)" if "k < k_ra8_fs_max_mounts" for k q t
    using ends_inD [where I = mounts_sound] assms(1) that by blast
  then show ?thesis using assms(2)
    by (cases h; cases p) (auto simp: ra8_fs_dir_open_def split: prod.split sum.split)
qed

text \<open>Opening a directory gives such a cursor, and moving it keeps it one.\<close>

lemma dir_open_cursor:
  assumes "ra8_fs_dir_open h p (s, d) = (Inr (), (t, d'))" and "mount_handle h"
  shows "cursor_ok t d'"
proof -
  from assms(1) obtain k q st where h: "h = Some k" and l: "locked (internal_dir_open_locked k q) s = (Inr st, t)" and d: "dh_state d' = st"
    by (auto simp: ra8_fs_dir_open_def split: option.splits if_splits prod.splits sum.splits)
  let ?m = "s_mounts s ! k"
  have tb: "same_tables s t" by (rule volume_call_same, rule volume_call.dir_open [OF assms(1)])
  have "dp_mount (dir_private_zero k) = k" "walk_ok ?m (dp_fat_walk (dir_private_zero k))"
    by (simp_all add: dir_private_zero_def walk_ok_def)
  then have "dp_mount st = k \<and> walk_ok ?m (dp_fat_walk st)"
    using l by (auto simp: locked_def internal_dir_open_locked_def mountE_def bindE_def priv_lock_acquire_def walk_start(1)
        split: prod.splits sum.splits if_splits option.splits)
  then show ?thesis using assms(2) tb d h by (simp add: cursor_ok_def same_tables_def)
qed

lemma scan_sector_walk:
  "dir_scan_sector_loop n bps sector st = (r, st') \<Longrightarrow>
    dp_mount st' = dp_mount st \<and> (\<exists>k. dp_fat_walk st' = (dp_fat_walk st)\<lparr>w_entry_idx := k\<rparr>)"
proof (induction n arbitrary: st)
  case 0
  then show ?case by (auto intro: exI [of _ "w_entry_idx (dp_fat_walk st)"])
next
  case (Suc n)
  then show ?case
    by (fastforce simp: Let_def split: if_splits intro: exI [of _ "w_entry_idx (dp_fat_walk st)"])
qed

lemma fat_dir_next_cursor:
  assumes m: "sound m"
  shows "walk_ok m (dp_fat_walk st) \<Longrightarrow> fat_dir_next_loop m n (s, st) = (Inr hit, (t, st')) \<Longrightarrow>
    dp_mount st' = dp_mount st \<and> (hit = None \<or> walk_ok m (dp_fat_walk st'))"
proof (induction n arbitrary: s st)
  case (Suc n)
  show ?case
  proof (cases "dp_finished st")
    case False
    with Suc.prems(2) obtain s1 st1 where adv: "whenE (w_entry_idx (dp_fat_walk st) \<ge> priv_bps m) (internal_fat_dir_advance_sector m) (s, st) = (Inr (), (s1, st1))"
      and rest: "(if dp_finished st1 then returnE None
         else (\<lambda>(s, st). case priv_read_sector m (w_cur_lba (dp_fat_walk st)) s of
             (Inl err, s') \<Rightarrow> (Inl err, (s', st))
           | (Inr sector, s') \<Rightarrow> (case internal_fat_dir_scan_sector m sector st of (hit, st') \<Rightarrow>
                 if hit \<noteq> None \<or> dp_finished st' then (Inr hit, (s', st')) else fat_dir_next_loop m n (s', st')))) (s1, st1) = (Inr hit, (t, st'))"
      by (auto simp: bindE_def split: prod.splits sum.splits)
    have "e \<or> walk_ok m w" if "walk_next m (s, dp_fat_walk st) = (Inr e, (u, w))" for e u w
      using that by (cases e) (auto dest: walk_step(1) [OF Suc.prems(1) m])
    then have 1: "dp_mount st1 = dp_mount st \<and> (dp_finished st1 \<or> walk_ok m (dp_fat_walk st1))"
      using adv Suc.prems(1) False
      by (auto simp: internal_fat_dir_advance_sector_def whenE_def split: if_splits prod.splits sum.splits)
    show ?thesis
    proof (cases "dp_finished st1")
      case True
      then show ?thesis using rest 1 by auto
    next
      case False
      with rest obtain sec s2 h2 st2 where sc: "internal_fat_dir_scan_sector m sec st1 = (h2, st2)"
        and r2: "(if h2 \<noteq> None \<or> dp_finished st2 then (Inr h2, (s2, st2)) else fat_dir_next_loop m n (s2, st2)) = (Inr hit, (t, st'))"
        by (auto split: prod.splits sum.splits)
      have 2: "dp_mount st2 = dp_mount st \<and> walk_ok m (dp_fat_walk st2)"
        using scan_sector_walk [OF sc [unfolded internal_fat_dir_scan_sector_def]] 1 False by auto
      then show ?thesis using r2 Suc.IH [of st2 s2] by (auto split: if_splits)
    qed
  qed (use Suc.prems in \<open>auto simp: bindE_def\<close>)
qed simp

lemma dir_next_cursor:
  assumes "mounts_sound s" and "cursor_ok s d" and "ra8_fs_dir_next (s, d) = (Inr hit, (t, d'))"
  shows "cursor_ok t d'"
proof -
  let ?st = "dh_state d" and ?a = "priv_lock_acquire s"
  have "same_tables s t" by (rule volume_call_same, rule volume_call.dir_next [OF assms(3)])
  then have t: "s_mounts t = s_mounts s" by (simp add: same_tables_def)
  have a: "s_mounts ?a = s_mounts s" by (simp add: priv_lock_acquire_def split: option.split)
  from assms(3) obtain u st' where l: "dir_next_locked (?a, ?st) = (Inr hit, (u, st'))" and d: "dh_state d' = st'"
    by (auto simp: ra8_fs_dir_next_def split: if_splits prod.splits)
  define m where "m = s_mounts s ! dp_mount ?st"
  have m: "sound m" using l assms(1,2) a
    by (auto simp: dir_next_locked_def Let_def mounts_sound_def cursor_ok_def m_def split: if_splits)
  have "dp_mount st' = dp_mount ?st \<and> (dp_finished st' \<or> walk_ok m (dp_fat_walk st'))"
    using l assms(2) fat_dir_next_cursor [OF m, of ?st "Suc (dir_fuel m (dp_fat_walk ?st))" ?a]
    by (auto simp: dir_next_locked_def a m_def [symmetric] Let_def cursor_ok_def internal_fat_dir_next_def
        simp del: fat_dir_next_loop.simps split: if_splits prod.splits sum.splits)
  then show ?thesis using assms(2) by (auto simp: cursor_ok_def t d m_def)
qed

end
