(* ===== verification/File_Ends.thy ===== *)
theory File_Ends
  imports Volume_Ends
begin

text \<open>
  Every loop of the driver ends, fourth part: the operations on an open file, and opening one. The loops that grow a file, fill its gap
  and move its bytes have their measure in the file object; \<open>File_Frame\<close>, interpreted on the file and its mount, says that the rest of
  the operation does not touch it.
\<close>

section \<open>Operations on an open file\<close>

text \<open>The file object \<open>i\<close> exists, and the mount it names is sound.\<close>

definition held :: "nat \<Rightarrow> 'w fs \<Rightarrow> bool" where
  "held i s \<longleftrightarrow> i < length (s_files s) \<and> (\<forall>h. f_mount (s_files s ! i) = Some h \<longrightarrow> sound (s_mounts s ! h))"

interpretation held: content_frame "held i" i for i
  by unfold_locales (auto simp: held_def)

text \<open>A fact about the file object \<open>i\<close>, which only a store to it can change.\<close>

definition of_file :: "nat \<Rightarrow> (fs_file \<Rightarrow> bool) \<Rightarrow> 'w fs \<Rightarrow> bool" where
  "of_file i P s \<longleftrightarrow> i < length (s_files s) \<and> P (s_files s ! i)"

interpretation of_file: driver_frame "of_file i P" for i P
  by unfold_locales (auto simp: of_file_def)

lemma keeps_of_file: "(\<And>f. P f \<Longrightarrow> P (g f)) \<Longrightarrow> keeps (of_file i P) (set_file i g)"
  by (auto simp: keeps_def of_file_def set_file_def)

subsection \<open>Rules\<close>

lemma ends_in_bind_on:
  assumes f: "ends_in I f" and k: "keeps I f" and g: "\<And>x s t. I s \<Longrightarrow> f s = (Inr x, t) \<Longrightarrow> ends_in I (g x)"
  shows "ends_in I (bindE f g)"
proof (rule ends_inI)
  fix s r t
  assume I: "I s" and b: "bindE f g s = (r, t)"
  from b show "r \<noteq> Inl out_of_fuel"
  proof (cases rule: bindE_cases)
    case (Err e)
    then show ?thesis using ends_inD [OF f I] by blast
  next
    case (Ok x s')
    then show ?thesis using keepsD [OF k I] ends_inD [OF g [OF I]] by blast
  qed
qed

lemma ends_in_Let: "ends_in I (f x) \<Longrightarrow> ends_in I (Let x f)"
  by simp

lemma ends_set_file [ends_rules]: "ends (set_file i g)"
  by (simp add: set_file_def ends_basic)

lemma ends_fileE [ends_rules]: "ends (fileE i)" "ends (mountE h)"
  by (simp_all add: fileE_def mountE_def ends_basic)

lemma ends_in_file_mount:
  assumes "\<And>m :: 'w mount. sound m \<Longrightarrow> ends_in (held i) (k m)"
  shows "ends_in (held i) (bindE (file_mountE i) k)"
proof (rule ends_in_bind_on)
  show "ends_in (held i) (file_mountE i)"
    by (auto simp: ends_in_def file_mountE_def fileE_def mountE_def bindE_def split: option.split)
next
  fix m :: "'w mount" and s t
  assume "held i s" and "file_mountE i s = (Inr m, t)"
  then have "sound m" by (auto simp: held_def file_mountE_def fileE_def mountE_def bindE_def split: option.splits)
  then show "ends_in (held i) (k m)" by (rule assms)
qed (rule keeps_rules)

text \<open>What holds of the result of a call that succeeds, and of the state it leaves.\<close>

definition gives :: "('s \<Rightarrow> bool) \<Rightarrow> ('s, 'a) op \<Rightarrow> ('a \<Rightarrow> 's \<Rightarrow> bool) \<Rightarrow> bool" where
  "gives I f Q \<longleftrightarrow> (\<forall>s x t. I s \<longrightarrow> f s = (Inr x, t) \<longrightarrow> Q x t)"

lemma givesD: "gives I f Q \<Longrightarrow> I s \<Longrightarrow> f s = (Inr x, t) \<Longrightarrow> Q x t"
  by (auto simp: gives_def)

lemma gives_bind: "keeps I f \<Longrightarrow> (\<And>x. gives I (g x) Q) \<Longrightarrow> gives I (bindE f g) Q"
  unfolding gives_def by (metis bindE_cases keepsD sum.simps(4))

lemma gives_return: "(\<And>s. I s \<Longrightarrow> Q x s) \<Longrightarrow> gives I (returnE x) Q"
  by (simp add: gives_def)

lemma gives_Let: "gives I (f x) Q \<Longrightarrow> gives I (Let x f) Q"
  by simp

lemma gives_if: "(b \<Longrightarrow> gives I f Q) \<Longrightarrow> (\<not> b \<Longrightarrow> gives I g Q) \<Longrightarrow> gives I (if b then f else g) Q"
  by simp

lemma gives_mono: "gives I f Q \<Longrightarrow> (\<And>x s. Q x s \<Longrightarrow> R x s) \<Longrightarrow> gives I f R"
  by (auto simp: gives_def)

lemma gives_file_mount:
  "(\<And>m. sound m \<Longrightarrow> gives (held i) (k m) Q) \<Longrightarrow> gives (held i) (bindE (file_mountE i) k) Q"
  by (fastforce simp: gives_def file_mountE_def fileE_def mountE_def held_def bindE_def split: option.splits)

lemma gives_set_file: "(\<And>f. P f \<Longrightarrow> Q (g f)) \<Longrightarrow> gives (of_file i P) (set_file i g) (\<lambda>_. of_file i Q)"
  by (auto simp: gives_def of_file_def set_file_def)

named_theorems file_rules \<open>operations on an open file that end\<close>

declare held.keeps_set_file [file_rules] and sound_answers [file_rules]

lemmas file_steps = ends_in_file_mount ends_in_prod ends_in_option ends_in_if ends_in_Let ends_in_whenE ends_in_bindE

text \<open>The mount-level parts are left to the rules for operations that end in every state.\<close>

lemma file_leaf: "ends f \<Longrightarrow> ends_in (held i) f"
  by (rule ends_any)

subsection \<open>Growing a file\<close>

lemma ends_link_cluster [file_rules]: "ends_in (held i) (internal_exfat_link_cluster i c)"
  unfolding internal_exfat_link_cluster_def
  by (rule file_steps file_rules keeps_rules | assumption | (rule file_leaf, rule ends_rules) | rule ends_rules | (simp; fail))+

lemma ends_grow_one [file_rules]: "ends_in (held i) (internal_exfat_grow_one i)"
  unfolding internal_exfat_grow_one_def
  by (rule file_steps file_rules keeps_rules | assumption | (rule file_leaf, rule ends_rules) | rule ends_rules | (simp; fail))+

text \<open>What a cluster does to the count of the file's clusters.\<close>

abbreviation owning :: "nat \<Rightarrow> u32 \<Rightarrow> 'w fs \<Rightarrow> bool" where
  "owning i n \<equiv> of_file i (\<lambda>f. f_alloc_clusters f = n)"

lemma keeps_link_owning [keeps_rules]: "keeps (owning i n) (internal_exfat_link_cluster i c)"
  unfolding internal_exfat_link_cluster_def by (rule keeps_rules keeps_of_file | assumption | (simp; fail))+

lemma grow_one_owning: "gives (owning i n) (internal_exfat_grow_one i) (\<lambda>_. owning i (n + 1))"
  unfolding internal_exfat_grow_one_def
  by (rule gives_bind gives_set_file keeps_rules | assumption | (simp add: Let_def; fail))+

lemma ends_ensure_loop:
  "held i s \<Longrightarrow> unat need \<le> unat (f_alloc_clusters (s_files s ! i)) + n \<Longrightarrow> fst (ensure_clusters_loop i need n s) \<noteq> Inl out_of_fuel"
proof (induction n arbitrary: s)
  case 0
  then show ?case by (simp add: fileE_def bindE_def word_less_nat_alt)
next
  case (Suc n)
  let ?a = "f_alloc_clusters (s_files s ! i)"
  obtain r t where g: "internal_exfat_grow_one i s = (r, t)" by fastforce
  show ?case
  proof (cases "?a < need")
    case True
    have "r \<noteq> Inl out_of_fuel" using ends_inD [OF ends_grow_one Suc.prems(1) g] .
    moreover have "fst (ensure_clusters_loop i need n t) \<noteq> Inl out_of_fuel" if "r = Inr x" for x
    proof (rule Suc.IH)
      show "held i t" using keepsD [OF held.keeps_internal_exfat_grow_one Suc.prems(1) g] .
      have "owning i (?a + 1) t"
        using givesD [OF grow_one_owning [of i ?a] _ g [unfolded that]] Suc.prems(1) by (simp add: of_file_def held_def)
      moreover have "unat (?a + 1) = unat ?a + 1"
        using True unat_lt [of need] by (subst unat_add_small) (simp_all add: word_less_nat_alt)
      ultimately show "unat need \<le> unat (f_alloc_clusters (s_files t ! i)) + n" using Suc.prems(2) by (simp add: of_file_def)
    qed
    ultimately show ?thesis using True g by (cases r) (simp_all add: fileE_def bindE_def)
  qed (simp add: fileE_def bindE_def)
qed

lemma ends_ensure_clusters [file_rules]: "ends_in (held i) (priv_exfat_ensure_clusters i need)"
  unfolding priv_exfat_ensure_clusters_def ends_in_def by (simp add: ends_ensure_loop)

subsection \<open>Writing a stream\<close>

lemma ends_cluster_at [file_rules]: "ends_in (held i) (internal_exfat_cluster_at i idx)"
  unfolding internal_exfat_cluster_at_def
  by (rule file_steps file_rules keeps_rules | assumption | (rule file_leaf, rule ends_rules) | rule ends_rules | (simp; fail))+

lemma ends_slice_at [file_rules]: "ends_in (held i) (internal_exfat_slice_at i pos)"
  unfolding internal_exfat_slice_at_def
  by (rule file_steps file_rules keeps_rules | assumption | (rule file_leaf, rule ends_rules) | rule ends_rules | (simp; fail))+

text \<open>The position and the valid length are not touched by it, and there is room in the sector it finds.\<close>

abbreviation spanning :: "nat \<Rightarrow> u64 \<Rightarrow> u64 \<Rightarrow> 'w fs \<Rightarrow> bool" where
  "spanning i off valid \<equiv> of_file i (\<lambda>f. f_offset f = off \<and> f_valid_bytes f = valid)"

lemma keeps_link_spanning [keeps_rules]: "keeps (spanning i off v) (internal_exfat_link_cluster i c)"
  unfolding internal_exfat_link_cluster_def by (rule keeps_rules keeps_of_file | assumption | (simp; fail))+

lemma keeps_grow_spanning [keeps_rules]: "keeps (spanning i off v) (internal_exfat_grow_one i)"
  unfolding internal_exfat_grow_one_def by (rule keeps_rules keeps_of_file | assumption | (simp add: Let_def; fail))+

lemma keeps_ensure_loop_spanning [keeps_rules]: "keeps (spanning i off v) (ensure_clusters_loop i need n)"
  by (induction n; simp only: ensure_clusters_loop.simps; (rule keeps_rules keeps_of_file | assumption | (simp; fail))+)

lemma keeps_slice_spanning [keeps_rules]: "keeps (spanning i off v) (internal_exfat_slice_at i pos)"
  unfolding internal_exfat_slice_at_def priv_exfat_ensure_clusters_def internal_exfat_cluster_at_def
  by (rule keeps_rules keeps_of_file | assumption | (simp; fail))+

lemma sector_room:
  assumes "sound m"
  shows "0 < unat (priv_bps m - x mod priv_bps m)" "unat (priv_bps m - x mod priv_bps m) \<le> unat (priv_bps m)"
proof -
  have "unat (x mod priv_bps m) < unat (priv_bps m)" using sound_bps [OF assms] by (simp add: unat_mod_distrib)
  then show "0 < unat (priv_bps m - x mod priv_bps m)" "unat (priv_bps m - x mod priv_bps m) \<le> unat (priv_bps m)"
    by (simp_all add: unat_sub_if_size)
qed

lemma slice_room: "gives (held i) (internal_exfat_slice_at i pos) (\<lambda>(lba, off, room) _. 0 < unat room)"
  unfolding internal_exfat_slice_at_def
  by (rule gives_file_mount gives_bind gives_Let gives_return keeps_rules held.keeps_set_file | assumption | (simp add: sector_room; fail))+

text \<open>Two invariants at once, for a round of a loop whose measure is in the file object.\<close>

lemma keeps_both: "keeps I f \<Longrightarrow> keeps J f \<Longrightarrow> keeps (\<lambda>s. I s \<and> J s) f"
  by (simp add: keeps_def)

lemma ends_in_both: "ends_in I f \<Longrightarrow> ends_in (\<lambda>s. I s \<and> J s) f"
  by (simp add: ends_in_def)

lemma ends_in_set_file:
  assumes "\<And>s. I s \<Longrightarrow> fst (k () (s\<lparr>s_files := (s_files s)[i := g (s_files s ! i)]\<rparr>)) \<noteq> Inl out_of_fuel"
  shows "ends_in I (bindE (set_file i g) k)"
  using assms by (simp add: ends_in_def set_file_def bindE_def)

lemma ends_both_mount:
  assumes "\<And>m :: 'w mount. sound m \<Longrightarrow> ends_in (\<lambda>s. held i s \<and> J s) (k m)"
  shows "ends_in (\<lambda>s. held i s \<and> J s) (bindE (file_mountE i) k)"
  using assms
  by (fastforce simp: ends_in_def file_mountE_def fileE_def mountE_def held_def bindE_def split: option.splits)

lemma ends_both_slice:
  assumes J: "keeps J (internal_exfat_slice_at i pos)"
    and k: "\<And>lba off room. 0 < unat room \<Longrightarrow> ends_in (\<lambda>s. held i s \<and> J s) (k lba off room)"
  shows "ends_in (\<lambda>s. held i s \<and> J s) (bindE (internal_exfat_slice_at i pos) (\<lambda>(lba, off, room). k lba off room))"
proof (rule ends_in_bind_on)
  fix x s t
  assume "held i s \<and> J s" and "internal_exfat_slice_at i pos s = (Inr x, t)"
  then show "ends_in (\<lambda>s. held i s \<and> J s) (case x of (lba, off, room) \<Rightarrow> k lba off room)"
    using givesD [OF slice_room, of i s] k by (cases x) auto
qed (rule ends_in_both file_rules keeps_both keeps_rules J)+

lemma ends_in_slice:
  assumes "\<And>lba off room. 0 < unat room \<Longrightarrow> ends_in (held i) (k lba off room)"
  shows "ends_in (held i) (bindE (internal_exfat_slice_at i pos) (\<lambda>(lba, off, room). k lba off room))"
  using ends_both_slice [of "\<lambda>_. True" i pos k] assms by (simp add: keeps_def)

lemma held_content: "held i s \<Longrightarrow> f_mount f = f_mount (s_files s ! i) \<Longrightarrow> f_in_use f = f_in_use (s_files s ! i) \<Longrightarrow>
    held i (s\<lparr>s_files := (s_files s)[i := f]\<rparr>)"
  by (rule held.I_content)

lemma gap_step:
  fixes off v :: u64 and room :: u32
  assumes "v < off" and "0 < unat room"
  defines "k \<equiv> if off - v < ucast room then ucast (off - v) else room :: u32"
  shows "unat (off - (v + ucast k)) < unat (off - v)"
proof -
  let ?g = "off - v"
  have g: "0 < ?g" using assms(1) by (simp add: word_gt_0)
  have kg: "(ucast k :: u64) \<le> ?g" "0 < (ucast k :: u64)"
  proof (atomize (full), cases "?g < ucast room")
    case True
    then have "unat ?g < 2 ^ 32" using unat_lt [of room] by (simp add: word_less_nat_alt)
    then have "(ucast (ucast ?g :: u32) :: u64) = ?g"
      by (intro word_unat_eq_iff [THEN iffD2]) (simp add: unat_ucast_small)
    then show "(ucast k :: u64) \<le> ?g \<and> 0 < (ucast k :: u64)" using True g by (simp add: k_def)
  next
    case False
    then show "(ucast k :: u64) \<le> ?g \<and> 0 < (ucast k :: u64)"
      using assms(2) by (simp add: k_def not_less word_less_nat_alt word_le_nat_alt)
  qed
  have "unat (?g - ucast k) = unat ?g - unat (ucast k :: u64)" using kg(1) by (rule unat_sub)
  then have "unat (off - (v + ucast k)) = unat ?g - unat (ucast k :: u64)" by (simp only: diff_diff_eq)
  moreover have "unat (ucast k :: u64) \<le> unat ?g" "0 < unat (ucast k :: u64)" using kg by (simp_all add: word_le_nat_alt word_less_nat_alt)
  ultimately show ?thesis by linarith
qed

lemma ends_close_gap_loop:
  fixes s :: "'w fs"
  shows "held i s \<Longrightarrow> unat (f_offset (s_files s ! i) - f_valid_bytes (s_files s ! i)) \<le> n \<Longrightarrow> fst (close_gap_loop i n s) \<noteq> Inl out_of_fuel"
proof (induction n arbitrary: s)
  case 0
  then show ?case by (auto simp: fileE_def bindE_def unat_eq_0)
next
  case (Suc n)
  let ?off = "f_offset (s_files s ! i)" and ?v = "f_valid_bytes (s_files s ! i)"
  let ?J = "\<lambda>s :: 'w fs. held i s \<and> spanning i ?off ?v s"
  let ?k = "\<lambda>room :: u32. if ?off - ?v < ucast room then ucast (?off - ?v) else room"
  have last: "ends_in ?J (bindE (set_file i (\<lambda>f. f\<lparr>f_valid_bytes := f_valid_bytes f + ucast (?k room)\<rparr>)) (\<lambda>_. close_gap_loop i n))"
    if "?v < ?off" "0 < unat room" for room
  proof (rule ends_in_set_file)
    fix u
    assume u: "?J u"
    let ?t = "u\<lparr>s_files := (s_files u)[i := (s_files u ! i)\<lparr>f_valid_bytes := f_valid_bytes (s_files u ! i) + ucast (?k room)\<rparr>]\<rparr>"
    show "fst (close_gap_loop i n ?t) \<noteq> Inl out_of_fuel"
    proof (rule Suc.IH)
      show "held i ?t" using u by (intro held_content) simp_all
      have e: "f_offset (s_files ?t ! i) - f_valid_bytes (s_files ?t ! i) = ?off - (?v + ucast (?k room))"
        using u by (simp add: of_file_def)
      have "unat (?off - (?v + ucast (?k room))) < Suc n" by (rule less_le_trans [OF gap_step [OF that] Suc.prems(2)])
      then show "unat (f_offset (s_files ?t ! i) - f_valid_bytes (s_files ?t ! i)) \<le> n"
        unfolding e by (rule less_Suc_eq_le [THEN iffD1])
    qed
  qed
  have "ends_in ?J (bindE (internal_exfat_slice_at i ?v) (\<lambda>(lba, off, room).
           let gap = ?off - ?v; k = (if gap < ucast room then ucast gap else room)
           in bindE (file_mountE i) (\<lambda>m.
              bindE (priv_write_into_sector m lba (unat off) (replicate (unat k) 0)) (\<lambda>_.
              bindE (set_file i (\<lambda>f. f\<lparr>f_valid_bytes := f_valid_bytes f + ucast k\<rparr>)) (\<lambda>_. close_gap_loop i n)))))"
    if v: "?v < ?off"
    unfolding Let_def
    by (rule ends_both_slice ends_both_mount ends_in_bindE keeps_both keeps_rules last [OF v] ends_any ends_rules sound_answers | assumption)+
  from this [unfolded ends_in_def, rule_format, of s] Suc.prems(1) show ?case
    by (auto simp: fileE_def bindE_def [of "getE _"] of_file_def held_def)
qed

lemma ends_close_gap [file_rules]: "ends_in (held i) (internal_exfat_close_gap i)"
  by (simp add: ends_in_def internal_exfat_close_gap_def fileE_def bindE_def [of "getE _"] ends_close_gap_loop)

lemma drop_shorter:
  "0 < k \<Longrightarrow> xs \<noteq> [] \<Longrightarrow> length xs \<le> Suc n \<Longrightarrow> length (drop (min (length xs) k) xs) \<le> n"
  "0 < k \<Longrightarrow> xs \<noteq> [] \<Longrightarrow> length xs \<le> Suc n \<Longrightarrow> length (drop (min k (length xs)) xs) \<le> n"
  by (cases xs; auto simp: min_def)+

lemma ends_exfat_write_loop: "length rest \<le> n \<Longrightarrow> ends_in (held i :: 'w fs \<Rightarrow> bool) (exfat_write_loop i n rest)"
proof (induction n arbitrary: rest)
  case 0
  then show ?case by (simp add: ends_in_def)
next
  case (Suc n)
  have rec: "ends_in (held i :: 'w fs \<Rightarrow> bool) (exfat_write_loop i n (drop (min (length rest) (unat room)) rest))" if "0 < unat room" "rest \<noteq> []" for room :: u32
    using Suc.prems that by (intro Suc.IH drop_shorter)
  show ?case unfolding exfat_write_loop.simps Let_def
    by (rule ends_in_slice file_steps rec keeps_rules held.keeps_set_file sound_answers file_leaf ends_rules | assumption | (simp; fail))+
qed

lemma ends_write_stream [file_rules]: "ends_in (held i) (priv_exfat_write_stream i buf)"
  unfolding priv_exfat_write_stream_def by (rule file_steps file_rules keeps_rules ends_exfat_write_loop | simp)+

text \<open>The entry set.\<close>

lemma ends_gather_set [ends_rules]: "answering m \<Longrightarrow> ends (internal_exfat_gather_set m f)"
  unfolding internal_exfat_gather_set_def by (rule ends_rules | assumption)+

lemma ends_flush_set [file_rules]: "ends_in (held i) (priv_exfat_flush_set i)"
  unfolding priv_exfat_flush_set_def
  by (rule file_steps keeps_rules sound_answers | assumption | (rule file_leaf, rule ends_rules) | rule ends_rules)+

subsection \<open>Writing\<close>

lemma ends_write_position [file_rules]: "ends_in (held i) (internal_write_position i way idx)"
  unfolding internal_write_position_def
  by (rule file_steps file_rules keeps_rules | assumption | (rule file_leaf, rule ends_rules) | rule ends_rules | (simp; fail))+

lemma ends_write_loop: "length rest \<le> n \<Longrightarrow> ends_in (held i :: 'w fs \<Rightarrow> bool) (write_loop n i way rest)"
proof (induction n arbitrary: way rest)
  case 0
  then show ?case by (simp add: ends_in_def)
next
  case (Suc n)
  have rec: "ends_in (held i :: 'w fs \<Rightarrow> bool) (write_loop n i way' (drop (min (unat (priv_bps m - x mod priv_bps m)) (length rest)) rest))"
    if "sound m" "rest \<noteq> []" for x and m :: "'w mount" and way'
    using Suc.prems that(2) sector_room(1) [OF that(1)] by (intro Suc.IH drop_shorter)
  show ?case unfolding write_loop.simps Let_def
    by (rule file_steps file_rules rec keeps_rules held.keeps_set_file sound_answers file_leaf ends_rules | assumption | (simp; fail))+
qed

lemma ends_internal_write_stream [file_rules]: "ends_in (held i) (internal_write_stream i buf)"
  unfolding internal_write_stream_def
  by (rule file_steps keeps_rules held.keeps_set_file ends_write_loop | (rule file_leaf, rule ends_rules) | (simp; fail))+

subsection \<open>Reading\<close>

lemma ends_read_one_chunk [file_rules]: "ends_in (held i) (internal_read_one_chunk i n)"
  unfolding internal_read_one_chunk_def
  by (rule file_steps file_rules keeps_rules | assumption | (rule file_leaf, rule ends_rules) | rule ends_rules | (simp; fail))+

lemma ends_read_span [file_rules]: "ends_in (held i) (internal_read_span i n)"
  unfolding internal_read_span_def
  by (rule file_steps file_rules keeps_rules sound_answers | assumption | (rule file_leaf, rule ends_rules) | rule ends_rules)+

lemma read_one_chunk_taken:
  "0 < n \<Longrightarrow> gives (held i) (internal_read_one_chunk i n) (\<lambda>(chunk, taken) _. 0 < taken \<and> taken \<le> n)"
  unfolding internal_read_one_chunk_def
  by (rule gives_file_mount gives_bind gives_Let gives_return keeps_rules held.keeps_set_file | assumption
    | (simp add: sector_room word_less_nat_alt not_less word_le_nat_alt; fail))+

lemma span_want:
  fixes cap :: u64 and n :: u32
  assumes "0 < n" and "0 < cap"
  shows "0 < (if ucast n > cap then ucast cap else n)" "(if ucast n > cap then ucast cap else n) \<le> n"
proof -
  have "unat (ucast cap :: u32) = unat cap" if "cap < ucast n"
    using that unat_lt [of n] by (intro unat_ucast_small) (simp add: word_less_nat_alt)
  then show "0 < (if ucast n > cap then ucast cap else n)" "(if ucast n > cap then ucast cap else n) \<le> n"
    using assms by (auto simp: word_less_nat_alt word_le_nat_alt)
qed

lemma read_span_taken:
  assumes "0 < n"
  shows "gives (held i) (internal_read_span i n) (\<lambda>(chunk, taken) _. 0 < taken \<and> taken \<le> n)"
proof -
  have chunk: "gives (held i) (internal_read_one_chunk i (if ucast n > cap then ucast cap else n)) (\<lambda>(chunk, taken) _. 0 < taken \<and> taken \<le> n)"
    if "0 < cap" for cap :: u64
    using span_want [OF assms that] by (intro gives_mono [OF read_one_chunk_taken]) (auto intro: order_trans)
  have pos: "0 < v - off" if "\<not> v \<le> off" for v off :: u64 using that by (simp add: word_gt_0)
  show ?thesis
    unfolding internal_read_span_def Let_def
    by (rule gives_file_mount gives_bind gives_if gives_return keeps_rules chunk pos | assumption | (simp add: assms; fail))+
qed

lemma ends_read_loop: "unat remaining \<le> n \<Longrightarrow> ends_in (held i :: 'w fs \<Rightarrow> bool) (read_loop n i remaining acc)"
proof (induction n arbitrary: remaining acc)
  case 0
  then show ?case by (simp add: ends_in_def unat_eq_0)
next
  case (Suc n)
  have rest: "ends_in (held i :: 'w fs \<Rightarrow> bool) (bindE (set_file i (\<lambda>f. f\<lparr>f_offset := f_offset f + ucast taken\<rparr>)) (\<lambda>_.
          read_loop n i (remaining - taken) (acc @ chunk)))" if "0 < taken" "taken \<le> remaining" for taken chunk
  proof (rule ends_in_bindE)
    show "ends_in (held i :: 'w fs \<Rightarrow> bool) (read_loop n i (remaining - taken) (acc @ chunk))"
    proof (rule Suc.IH)
      have "unat (remaining - taken) < unat remaining"
        using that by (simp add: unat_sub word_less_nat_alt word_le_nat_alt)
      then show "unat (remaining - taken) \<le> n" using Suc.prems by linarith
    qed
  qed (rule file_leaf ends_rules held.keeps_set_file | simp)+
  have "ends_in (held i :: 'w fs \<Rightarrow> bool) (bindE (internal_read_span i remaining) (\<lambda>(chunk, taken).
        bindE (set_file i (\<lambda>f. f\<lparr>f_offset := f_offset f + ucast taken\<rparr>)) (\<lambda>_.
          read_loop n i (remaining - taken) (acc @ chunk))))" if "0 < remaining"
    using givesD [OF read_span_taken [OF that], of i] rest by (intro ends_in_bind_on file_rules keeps_rules) fastforce
  then show ?case by (auto intro!: ends_in_if ends_any ends_basic)
qed

subsection \<open>Truncating\<close>

lemma ends_fat_trunc_shrink [file_rules]: "ends_in (held i) (internal_fat_trunc_shrink i n cb)"
  unfolding internal_fat_trunc_shrink_def
  by (rule file_steps file_rules keeps_rules | assumption | (rule file_leaf, rule ends_rules) | rule ends_rules | (simp; fail))+

lemma ends_fat_trunc_extend [file_rules]: "ends_in (held i) (internal_fat_trunc_extend i c a b cb)"
  unfolding internal_fat_trunc_extend_def
  by (rule file_steps file_rules keeps_rules | assumption | (rule file_leaf, rule ends_rules) | rule ends_rules | (simp; fail))+

lemma ends_fat_trunc_grow [file_rules]: "ends_in (held i) (internal_fat_trunc_grow i n cb)"
  unfolding internal_fat_trunc_grow_def
  by (rule file_steps file_rules keeps_rules | assumption | (rule file_leaf, rule ends_rules) | rule ends_rules | (simp; fail))+

lemma ends_fat_trunc_commit [file_rules]: "ends_in (held i) (internal_fat_trunc_commit i)"
  unfolding internal_fat_trunc_commit_def
  by (rule file_steps file_rules keeps_rules | assumption | (rule file_leaf, rule ends_rules) | rule ends_rules | (simp; fail))+

lemma ends_fat_trunc [file_rules]: "ends_in (held i) (internal_fat_trunc i n)"
  unfolding internal_fat_trunc_def
  by (rule file_steps file_rules keeps_rules | assumption | (rule file_leaf, rule ends_rules) | rule ends_rules | (simp; fail))+

lemma ends_shrink_chain_tail [file_rules]: "ends_in (held i) (internal_exfat_shrink_chain_tail i n cb)"
  unfolding internal_exfat_shrink_chain_tail_def
  by (rule file_steps file_rules keeps_rules | assumption | (rule file_leaf, rule ends_rules) | rule ends_rules | (simp; fail))+

lemma ends_exfat_trunc_shrink [file_rules]: "ends_in (held i) (internal_exfat_trunc_shrink i n cb)"
  unfolding internal_exfat_trunc_shrink_def
  by (rule file_steps file_rules keeps_rules | assumption | (rule file_leaf, rule ends_rules) | rule ends_rules | (simp; fail))+

lemma ends_exfat_trunc [file_rules]: "ends_in (held i) (internal_exfat_trunc i n)"
  unfolding internal_exfat_trunc_def
  by (rule file_steps file_rules keeps_rules | assumption | (rule file_leaf, rule ends_rules) | rule ends_rules | (simp; fail))+

section \<open>Calls on a file\<close>

text \<open>The mount of every open file is sound; the call checks that its file is open.\<close>

definition files_sound :: "'w fs \<Rightarrow> bool" where
  "files_sound s \<longleftrightarrow> length (s_files s) = k_ra8_fs_max_files \<and> (\<forall>i < k_ra8_fs_max_files. f_in_use (s_files s ! i) \<longrightarrow> held i s)"

lemma ends_in_open_file:
  assumes "i < k_ra8_fs_max_files" and "e \<noteq> out_of_fuel" and "\<And>f. ends_in (held i) (g f)"
    and "\<And>f. \<not> b f \<Longrightarrow> f_in_use f"
  shows "ends_in files_sound (bindE (fileE i) (\<lambda>f. if b f then throwE e else g f))"
  using assms by (auto simp: ends_in_def fileE_def bindE_def files_sound_def)

lemma files_sound_lock: "files_sound s \<Longrightarrow> files_sound (priv_lock_acquire s)"
  by (simp add: files_sound_def held_def priv_lock_acquire_def split: option.split)

lemma ends_read_locked: "i < k_ra8_fs_max_files \<Longrightarrow> ends_in files_sound (internal_read_locked (Some i) n)"
  unfolding internal_read_locked_def option.case
  by (rule ends_in_open_file file_steps ends_read_loop | assumption | (rule file_leaf, rule ends_rules) | (simp; fail))+

lemma ends_write_locked: "i < k_ra8_fs_max_files \<Longrightarrow> ends_in files_sound (internal_write_locked (Some i) b)"
  unfolding internal_write_locked_def prod.case
  by (cases b; simp only: option.case; (rule ends_in_open_file file_steps file_rules keeps_rules | assumption | (rule file_leaf, rule ends_rules) | rule ends_any ends_rules | (simp; fail))+)

lemma ends_truncate_locked: "i < k_ra8_fs_max_files \<Longrightarrow> ends_in files_sound (internal_truncate_locked (Some i) n)"
  unfolding internal_truncate_locked_def option.case
  by (rule ends_in_open_file file_steps file_rules keeps_rules | assumption | (rule file_leaf, rule ends_rules) | rule ends_rules | (simp; fail))+

lemma ends_close_stamp: "ends_in (held i) (internal_close_stamp i)"
  unfolding internal_close_stamp_def
  by (rule file_steps file_rules keeps_rules | assumption | (rule file_leaf, rule ends_rules) | rule ends_rules | (simp; fail))+

lemma ends_close_locked:
  assumes "i < k_ra8_fs_max_files"
  shows "ends_in files_sound (priv_close_locked (Some i))"
proof (rule ends_inI)
  fix s r t
  assume s: "files_sound s" and run: "priv_close_locked (Some i) s = (r, t)"
  define b where "b = (f_dirty (s_files s ! i) \<and> f_in_use (s_files s ! i) \<and>
    (case f_mount (s_files s ! i) of None \<Rightarrow> False | Some h \<Rightarrow> m_in_use (s_mounts s ! h)))"
  obtain u where u: "whenE b (internal_close_stamp i) s = (r, u)"
    using run by (auto simp: priv_close_locked_def b_def attemptE_def bindE_def set_file_def returnR_def Let_def split: prod.splits)
  have "held i s" if b using that s assms by (simp add: b_def files_sound_def)
  then have "fst (whenE b (internal_close_stamp i) s) \<noteq> Inl out_of_fuel"
    by (cases b) (simp_all add: ends_close_stamp [unfolded ends_in_def, rule_format])
  then show "r \<noteq> Inl out_of_fuel" by (simp add: u)
qed

text \<open>The calls, with the lock around them.\<close>

abbreviation file_handle :: "nat option \<Rightarrow> bool" where
  "file_handle h \<equiv> (case h of None \<Rightarrow> True | Some i \<Rightarrow> i < k_ra8_fs_max_files)"

lemma ends_file_call:
  assumes "\<And>i. i < k_ra8_fs_max_files \<Longrightarrow> ends_in files_sound (f (Some i))" and "ends (f None)" and "file_handle h"
  shows "ends_in files_sound (locked (f h))"
  using assms by (intro ends_in_locked files_sound_lock) (auto split: option.splits intro: ends_any)

lemma ends_null_file: "ends (internal_read_locked None n)" "ends (internal_write_locked None b)" "ends (internal_truncate_locked None k)"
    "ends (priv_close_locked None)" "ends (internal_seek_locked h p)" "ends (internal_tell_locked h)" "ends (internal_size_locked h)"
  unfolding internal_read_locked_def internal_write_locked_def internal_truncate_locked_def priv_close_locked_def internal_seek_locked_def
    internal_tell_locked_def internal_size_locked_def
  by (rule ends_rules | (simp; fail))+

lemma ends_ra8_fs_file:
  "file_handle h \<Longrightarrow> ends_in files_sound (ra8_fs_read h n)" "file_handle h \<Longrightarrow> ends_in files_sound (ra8_fs_write h b)"
  "file_handle h \<Longrightarrow> ends_in files_sound (ra8_fs_truncate h k)" "file_handle h \<Longrightarrow> ends_in files_sound (ra8_fs_close h)"
  unfolding ra8_fs_read_def ra8_fs_write_def ra8_fs_truncate_def ra8_fs_close_def
  by (rule ends_file_call ends_read_locked ends_write_locked ends_truncate_locked ends_close_locked ends_null_file | assumption)+

lemma ends_ra8_fs_seek: "ends (ra8_fs_seek h p)" "ends (ra8_fs_tell h)" "ends (ra8_fs_size h)"
  unfolding ra8_fs_seek_def ra8_fs_tell_def ra8_fs_size_def by (rule ends_rules ends_null_file)+

section \<open>Opening\<close>

text \<open>The mount \<open>h\<close> is sound, and so are those of the open files.\<close>

definition tended :: "nat \<Rightarrow> 'w fs \<Rightarrow> bool" where
  "tended h s \<longleftrightarrow> files_sound s \<and> sound (s_mounts s ! h)"

lemma files_sound_update:
  assumes "files_sound s" and "f_in_use f \<Longrightarrow> \<forall>h. f_mount f = Some h \<longrightarrow> sound (s_mounts s ! h)"
  shows "files_sound (s\<lparr>s_files := (s_files s)[i := f]\<rparr>)"
proof -
  have "held j (s\<lparr>s_files := (s_files s)[i := f]\<rparr>)" if "j < k_ra8_fs_max_files" and "f_in_use ((s_files s)[i := f] ! j)" for j
    using assms that by (cases "j = i") (auto simp: files_sound_def held_def)
  then show ?thesis using assms(1) by (simp add: files_sound_def)
qed

interpretation tended: open_frame "tended h" h for h
proof unfold_locales
  fix s :: "'a fs" and f :: fs_file and i
  assume s: "tended h s" and f: "f_mount f = f_mount (s_files s ! i)" "f_in_use f = f_in_use (s_files s ! i)"
  show "tended h (s\<lparr>s_files := (s_files s)[i := f]\<rparr>)"
  proof (cases "i < length (s_files s)")
    case True
    then have "f_in_use f \<Longrightarrow> held i s" using s f by (simp add: tended_def files_sound_def)
    then show ?thesis using s f by (auto simp: tended_def held_def intro: files_sound_update)
  qed (use s in \<open>simp add: list_update_beyond\<close>)
qed (auto simp: tended_def intro!: files_sound_update, auto simp: files_sound_def held_def)

lemma ends_tended_mount:
  assumes "\<And>m :: 'w mount. sound m \<Longrightarrow> ends_in (tended h) (k m)"
  shows "ends_in (tended h) (bindE (mountE h) k)"
  using assms by (fastforce simp: ends_in_def mountE_def bindE_def tended_def)

lemma ends_file_slot:
  assumes "e \<noteq> out_of_fuel" and "\<And>i. i < k_ra8_fs_max_files \<Longrightarrow> ends_in I (k i)"
  shows "ends_in I (bindE (getE priv_alloc_file_slot) (\<lambda>slot. case slot of None \<Rightarrow> throwE e | Some i \<Rightarrow> k i))"
  using assms by (auto simp: ends_in_def bindE_def priv_alloc_file_slot_def find_Some_iff split: option.split)

lemma ends_bind_file:
  assumes "i < k_ra8_fs_max_files" and "\<And>f. f_mount (g f) = Some h" and "ends_in (held i) (k ())"
  shows "ends_in (tended h) (bindE (set_file i g) k)"
  using assms by (auto simp: ends_in_def tended_def bindE_def set_file_def files_sound_def held_def)

lemma ends_in_attempt:
  assumes "ends_in I f" and "\<And>r. r \<noteq> Inl out_of_fuel \<Longrightarrow> ends (g r)"
  shows "ends_in I (attemptE f g)"
proof (rule ends_inI)
  fix s r t
  assume I: "I s" and a: "attemptE f g s = (r, t)"
  obtain r' s' where fs: "f s = (r', s')" by (cases "f s") auto
  then have "g r' s' = (r, t)" using a by (simp add: attemptE_def)
  then show "r \<noteq> Inl out_of_fuel" using endsD [OF assms(2)] ends_inD [OF assms(1) I fs] by blast
qed

lemma ends_surveyAlloc [file_rules]: "ends_in (held i) (surveyAlloc i)"
  unfolding surveyAlloc_def
  by (rule file_steps file_rules keeps_rules | assumption | (rule file_leaf, rule ends_rules) | rule ends_rules | (simp; fail))+

lemma ends_openw_truncate [file_rules]: "ends_in (held i) (openw_truncate i strm)"
  unfolding openw_truncate_def
  by (rule file_steps file_rules keeps_rules | assumption | (rule file_leaf, rule ends_rules) | rule ends_rules | (simp; fail))+

lemma ends_truncate_existing [ends_rules]: "answering m \<Longrightarrow> ends (internal_truncate_existing m i lba off)"
  unfolding internal_truncate_existing_def by (rule ends_rules | assumption | (simp; fail))+

lemma ends_openw_release [ends_rules]: "ends (openw_release i)"
  unfolding openw_release_def by (rule ends_rules)

lemma ends_init_new_file [ends_rules]: "ends (internal_init_new_file i h mode lba off)"
  unfolding internal_init_new_file_def by (rule ends_rules)

lemma checkFound_no_fuel [no_fuel]: "checkFound n e \<noteq> Inl out_of_fuel"
  by (simp add: checkFound_def Let_def)

lemma ends_openFound: "ends_in (tended h) (openFound h mode x)"
  unfolding openFound_def
  by (rule ends_file_slot ends_bind_file ends_in_attempt file_steps file_rules keeps_rules | assumption
    | (rule ends_any, rule ends_rules) | rule ends_rules | (simp add: no_fuel openw_seed_def; fail))+

lemma ends_openCreated: "ends_in (tended h) (openCreated h dir name mode)"
  unfolding openCreated_def
  by (rule ends_tended_mount ends_file_slot | (rule ends_any, rule ends_rules) | rule ends_rules sound_answers | assumption | (simp; fail))+

lemma ends_exfat_open_write: "ends_in (tended h) (priv_exfat_open_write h path mode)"
  unfolding priv_exfat_open_write_def
  by (rule ends_tended_mount ends_openFound ends_openCreated ends_in_attemptE ends_in_sum file_steps keeps_rules sound_answers | assumption
    | (rule ends_any, rule ends_rules) | rule ends_rules | (auto simp: no_fuel split: if_splits; fail))+

lemma ends_exfat_open: "ends_in (tended h) (priv_exfat_open h path mode)"
  unfolding priv_exfat_open_def
  by (rule ends_tended_mount ends_file_slot ends_exfat_open_write file_steps keeps_rules tended.keeps_bind_file sound_answers | assumption
    | (rule ends_any, rule ends_rules) | rule ends_rules | (simp add: internal_exfat_seed_read_def Let_def; fail))+

lemma ends_open_existing: "ends_in (tended h) (internal_open_existing h hit mode)"
  unfolding internal_open_existing_def Let_def
  by (rule ends_tended_mount ends_file_slot ends_in_bindE ends_in_if sound_answers | (rule tended.keeps_bind_file, (simp; fail))
    | (rule tended.slot.keeps_set_file; (simp; fail)) | (rule ends_any, rule ends_rules) | rule ends_rules | assumption | (simp; fail))+

lemma ends_create_new: "ends_in (tended h) (internal_create_new h parent leaf mode)"
  unfolding internal_create_new_def
  by (rule ends_tended_mount ends_file_slot file_steps keeps_rules sound_answers | assumption | (rule ends_any, rule ends_rules) | rule ends_rules | (simp; fail))+

text \<open>The mount \<open>h\<close> is checked to be in use.\<close>

abbreviation offered :: "nat \<Rightarrow> 'w fs \<Rightarrow> bool" where
  "offered h s \<equiv> files_sound s \<and> (m_in_use (s_mounts s ! h) \<longrightarrow> sound (s_mounts s ! h))"

lemma ends_in_live_mount:
  assumes "e \<noteq> out_of_fuel" and "\<And>m. sound m \<Longrightarrow> ends_in (tended h) (k m)"
  shows "ends_in (offered h) (bindE (mountE h) (\<lambda>m. if \<not> m_in_use m then throwE e else k m))"
  using assms by (auto simp: ends_in_def mountE_def bindE_def tended_def)

lemma ends_open_locked: "ends_in (offered h) (priv_open_locked (Some h) p mode)"
  unfolding priv_open_locked_def prod.case
  by (cases p; simp only: option.case; (rule ends_in_live_mount ends_exfat_open ends_open_existing ends_create_new ends_in_attemptE ends_in_sum file_steps keeps_rules sound_answers | assumption
    | (rule ends_any, rule ends_rules) | rule ends_any ends_rules | (auto; fail))+)

text \<open>What a successful open returns is an index of the file table.\<close>

lemma gives_any: "gives (\<lambda>_. True) f Q \<Longrightarrow> gives I f Q"
  by (simp add: gives_def)

lemma gives_attempt: "(\<And>r. gives (\<lambda>_. True) (g r) Q) \<Longrightarrow> gives (\<lambda>_. True) (attemptE f g) Q"
  by (auto simp: gives_def attemptE_def split: prod.splits)

lemma gives_bind_any: "(\<And>x. gives (\<lambda>_. True) (g x) Q) \<Longrightarrow> gives (\<lambda>_. True) (bindE f g) Q"
  by (rule gives_bind) (simp_all add: keeps_def)

lemma gives_throw: "gives I (throwE e) Q"
  by (simp add: gives_def)

lemma gives_slot:
  assumes "\<And>i. i < k_ra8_fs_max_files \<Longrightarrow> gives (\<lambda>_. True) (k i) Q"
  shows "gives (\<lambda>_. True) (bindE (getE priv_alloc_file_slot) (\<lambda>slot. case slot of None \<Rightarrow> throwE e | Some i \<Rightarrow> k i)) Q"
  using assms by (auto simp: gives_def bindE_def priv_alloc_file_slot_def find_Some_iff split: option.splits)

lemma gives_cases:
  "(\<And>a b. gives I (f a b) Q) \<Longrightarrow> gives I (case p of (a, b) \<Rightarrow> f a b) Q"
  "(\<And>a. gives I (g a) Q) \<Longrightarrow> (\<And>b. gives I (g' b) Q) \<Longrightarrow> gives I (case x of Inl a \<Rightarrow> g a | Inr b \<Rightarrow> g' b) Q"
  by (auto split: prod.split sum.split)

lemma open_index: "gives I (priv_open_locked (Some h) p mode) (\<lambda>i _. i < k_ra8_fs_max_files)"
  unfolding priv_open_locked_def prod.case priv_exfat_open_def priv_exfat_open_write_def openFound_def openCreated_def internal_open_existing_def
    internal_create_new_def Let_def
  by (rule gives_any, cases p; simp only: option.case;
    (rule gives_slot gives_bind_any gives_attempt gives_if gives_cases gives_throw gives_return | assumption)+)

lemma ends_write_file_locked: "ends_in (offered h) (internal_write_file_locked (Some h) p b)"
proof -
  have "ends_in (tended h) (bindE (priv_open_locked (Some h) p k_ra8_fs_mode_write) (\<lambda>i.
              attemptE (internal_write_locked (Some i) b) (\<lambda>e.
              attemptE (priv_close_locked (Some i)) (\<lambda>cerr.
                case e of Inl err \<Rightarrow> throwE err | Inr _ \<Rightarrow> returnR cerr))))"
  proof (rule ends_in_bind_on)
    show "ends_in (tended h) (priv_open_locked (Some h) p k_ra8_fs_mode_write)"
      using ends_open_locked [of h p k_ra8_fs_mode_write] by (auto simp: ends_in_def tended_def)
    show "keeps (tended h) (priv_open_locked (Some h) p k_ra8_fs_mode_write)" by (rule tended.keeps_priv_open_locked)
  next
    fix i s t
    assume "priv_open_locked (Some h) p k_ra8_fs_mode_write s = (Inr i, t)"
    then have i: "i < k_ra8_fs_max_files" using givesD [OF open_index [of "\<lambda>_. True"]] by blast
    have w: "ends_in (tended h) (internal_write_locked (Some i) b)" "ends_in (tended h) (priv_close_locked (Some i))"
      using ends_write_locked [OF i] ends_close_locked [OF i] by (auto simp: ends_in_def tended_def)
    show "ends_in (tended h) (attemptE (internal_write_locked (Some i) b) (\<lambda>e.
              attemptE (priv_close_locked (Some i)) (\<lambda>cerr.
                case e of Inl err \<Rightarrow> throwE err | Inr _ \<Rightarrow> returnR cerr)))"
      by (rule ends_in_attemptE w keeps_rules ends_in_sum | (rule ends_any, rule ends_rules) | (auto; fail))+
  qed
  then show ?thesis unfolding internal_write_file_locked_def option.case
    by (intro ends_in_if ends_in_throwE ends_in_live_mount) auto
qed

lemma offered_lock: "offered h s \<Longrightarrow> offered h (priv_lock_acquire s)"
  using files_sound_lock [of s] by (simp add: priv_lock_acquire_def split: option.splits)

lemma ends_null_open: "ends (priv_open_locked None p mode)" "ends (internal_write_file_locked None p b)"
  by (simp_all add: priv_open_locked_def internal_write_file_locked_def ends_throwE)

lemma ends_open_call:
  assumes "ends (f None)" and "\<And>k. ends_in (offered k) (f (Some k))" and "mount_handle h"
  shows "ends_in (\<lambda>s. files_sound s \<and> mounts_sound s) (locked (f h))"
proof (cases h)
  case None
  then show ?thesis using assms(1) by (simp add: ends_any ends_locked)
next
  case (Some k)
  then show ?thesis
    using ends_in_locked [OF offered_lock assms(2), of k] assms(3) by (auto simp: ends_in_def mounts_sound_def)
qed

lemma ends_ra8_fs_open: "mount_handle h \<Longrightarrow> ends_in (\<lambda>s. files_sound s \<and> mounts_sound s) (ra8_fs_open h p mode)"
    "mount_handle h \<Longrightarrow> ends_in (\<lambda>s. files_sound s \<and> mounts_sound s) (ra8_fs_write_file h p b)"
  unfolding ra8_fs_open_def ra8_fs_write_file_def
  by (rule ends_open_call ends_null_open ends_open_locked ends_write_file_locked | assumption)+

end
