(* ===== verification/Call_Ends.thy ===== *)
theory Call_Ends
  imports File_Ends
begin

text \<open>
  Every loop of the driver ends, last part: all the public calls, in any state whose mounts and open files are sound.
\<close>

section \<open>Devices and settings\<close>

lemma ends_ra8_fs_device:
  assumes "\<And>b. backend = Some b \<Longrightarrow> answers b"
  shows "ends (ra8_fs_mount backend)" "ends (ra8_fs_mount_partition backend index)" "ends (ra8_fs_probe backend)"
    "ends (ra8_fs_format backend opts)"
  unfolding ra8_fs_mount_def ra8_fs_mount_partition_def ra8_fs_probe_def ra8_fs_format_def using assms
  by (auto intro!: ends_locked ends_internal_mount_locked ends_internal_probe_locked ends_internal_format_locked)

lemma ends_settings: "ends (ra8_fs_set_clock c)" "ends (ra8_fs_set_lock l)" "ends ra8_fs_dir_close"
  by (auto simp: ends_def ra8_fs_set_clock_def ra8_fs_set_lock_def ra8_fs_dir_close_def split: option.split)

text \<open>The write-back of the free count may fail; the mount is given up all the same.\<close>

lemma ends_ra8_fs_unmount: "mount_handle h \<Longrightarrow> ends_in mounts_sound (ra8_fs_unmount h)"
proof (rule ends_inI)
  fix s r t
  assume h: "mount_handle h" and s: "mounts_sound s" and run: "ra8_fs_unmount h s = (r, t)"
  let ?a = "priv_lock_acquire s"
  have flush: "fst (priv_fsinfo_flush (s_mounts ?a ! i) ?a) \<noteq> Inl out_of_fuel"
    if "i < k_ra8_fs_max_mounts" "m_in_use (s_mounts ?a ! i)" for i
    using ends_priv_fsinfo_flush [of "s_mounts ?a ! i"] mounts_sound_lock [OF s] that
    by (auto simp: ends_def mounts_sound_def sound_def)
  from run h flush show "r \<noteq> Inl out_of_fuel"
    by (auto simp: ra8_fs_unmount_def locked_def internal_unmount_locked_def on_slot_def askM_def onM_def setM_def monad_defs
        split: option.splits prod.splits if_splits) (metis fst_conv)
qed

section \<open>Every public call ends\<close>

abbreviation code_of :: "ra8_err + 'a \<Rightarrow> ra8_err option" where
  "code_of r \<equiv> (case r of Inl e \<Rightarrow> Some e | Inr _ \<Rightarrow> None)"

text \<open>
  The codes that a call can return in a state: \<open>None\<close> for a success. Handles are those that the library has given
  out or null, devices answer, and a directory cursor is one that was opened. The consistency check is not among the calls.
\<close>

inductive call_code :: "'w fs \<Rightarrow> ra8_err option \<Rightarrow> bool" where
  read_bytes: "file_handle f \<Longrightarrow> ra8_fs_read f n s = (r, t) \<Longrightarrow> call_code s (code_of r)"
| write_bytes: "file_handle f \<Longrightarrow> ra8_fs_write f b s = (r, t) \<Longrightarrow> call_code s (code_of r)"
| seek: "file_handle f \<Longrightarrow> ra8_fs_seek f p s = (r, t) \<Longrightarrow> call_code s (code_of r)"
| tell: "file_handle f \<Longrightarrow> ra8_fs_tell f s = (r, t) \<Longrightarrow> call_code s (code_of r)"
| size_of: "file_handle f \<Longrightarrow> ra8_fs_size f s = (r, t) \<Longrightarrow> call_code s (code_of r)"
| truncate: "file_handle f \<Longrightarrow> ra8_fs_truncate f n s = (r, t) \<Longrightarrow> call_code s (code_of r)"
| close: "file_handle f \<Longrightarrow> ra8_fs_close f s = (r, t) \<Longrightarrow> call_code s (code_of r)"
| open_file: "mount_handle h \<Longrightarrow> ra8_fs_open h p mode s = (r, t) \<Longrightarrow> call_code s (code_of r)"
| write_file: "mount_handle h \<Longrightarrow> ra8_fs_write_file h p b s = (r, t) \<Longrightarrow> call_code s (code_of r)"
| listdir: "mount_handle h \<Longrightarrow> ra8_fs_listdir h p cb s = (r, t) \<Longrightarrow> call_code s (code_of r)"
| dir_open: "mount_handle h \<Longrightarrow> ra8_fs_dir_open h p (s, d) = (r, t) \<Longrightarrow> call_code s (code_of r)"
| dir_next: "cursor_ok s d \<Longrightarrow> ra8_fs_dir_next (s, d) = (r, t) \<Longrightarrow> call_code s (code_of r)"
| dir_close: "ra8_fs_dir_close (s, d) = (r, t) \<Longrightarrow> call_code s (code_of r)"
| unlink: "mount_handle h \<Longrightarrow> ra8_fs_unlink h p s = (r, t) \<Longrightarrow> call_code s (code_of r)"
| rename: "mount_handle h \<Longrightarrow> ra8_fs_rename h p q s = (r, t) \<Longrightarrow> call_code s (code_of r)"
| stat: "mount_handle h \<Longrightarrow> ra8_fs_stat h p s = (r, t) \<Longrightarrow> call_code s (code_of r)"
| mkdir: "mount_handle h \<Longrightarrow> ra8_fs_mkdir h p s = (r, t) \<Longrightarrow> call_code s (code_of r)"
| rmdir: "mount_handle h \<Longrightarrow> ra8_fs_rmdir h p s = (r, t) \<Longrightarrow> call_code s (code_of r)"
| get_label: "mount_handle h \<Longrightarrow> ra8_fs_get_label h n s = (r, t) \<Longrightarrow> call_code s (code_of r)"
| set_label: "mount_handle h \<Longrightarrow> ra8_fs_set_label h l s = (r, t) \<Longrightarrow> call_code s (code_of r)"
| set_attr: "mount_handle h \<Longrightarrow> ra8_fs_set_attr h p on off s = (r, t) \<Longrightarrow> call_code s (code_of r)"
| utime: "mount_handle h \<Longrightarrow> ra8_fs_utime h p st s = (r, t) \<Longrightarrow> call_code s (code_of r)"
| free_space: "mount_handle h \<Longrightarrow> ra8_fs_free_space h have_out s = (r, t) \<Longrightarrow> call_code s (code_of r)"
| unmount: "mount_handle h \<Longrightarrow> ra8_fs_unmount h s = (r, t) \<Longrightarrow> call_code s (code_of r)"
| mount: "(\<And>b. backend = Some b \<Longrightarrow> answers b) \<Longrightarrow> ra8_fs_mount backend s = (r, t) \<Longrightarrow> call_code s (code_of r)"
| mount_partition:
    "(\<And>b. backend = Some b \<Longrightarrow> answers b) \<Longrightarrow> ra8_fs_mount_partition backend index s = (r, t) \<Longrightarrow> call_code s (code_of r)"
| probe: "(\<And>b. backend = Some b \<Longrightarrow> answers b) \<Longrightarrow> ra8_fs_probe backend s = (r, t) \<Longrightarrow> call_code s (code_of r)"
| format: "(\<And>b. backend = Some b \<Longrightarrow> answers b) \<Longrightarrow> ra8_fs_format backend opts s = (r, t) \<Longrightarrow> call_code s (code_of r)"
| set_clock: "ra8_fs_set_clock c s = (r, t) \<Longrightarrow> call_code s (code_of r)"
| set_lock: "ra8_fs_set_lock l s = (r, t) \<Longrightarrow> call_code s (code_of r)"

lemma code_ends: "r \<noteq> Inl out_of_fuel \<Longrightarrow> code_of r \<noteq> Some out_of_fuel"
  by (cases r) auto

lemma run_ends: "f s = (r, t) \<Longrightarrow> ends f \<Longrightarrow> code_of r \<noteq> Some out_of_fuel"
  "f s = (r, t) \<Longrightarrow> I s \<Longrightarrow> ends_in I f \<Longrightarrow> code_of r \<noteq> Some out_of_fuel"
  "f p = (r, q) \<Longrightarrow> fst (f p) \<noteq> Inl out_of_fuel \<Longrightarrow> code_of r \<noteq> Some out_of_fuel"
  by (auto intro!: code_ends dest: endsD ends_inD)

lemmas volume_ends = ends_ra8_fs_listdir ends_ra8_fs_unlink ends_ra8_fs_rename ends_ra8_fs_stat ends_ra8_fs_mkdir ends_ra8_fs_rmdir
  ends_ra8_fs_get_label ends_ra8_fs_set_label ends_ra8_fs_set_attr ends_ra8_fs_utime ends_ra8_fs_free_space ends_ra8_fs_unmount

text \<open>C10. Every public call except the consistency check returns, whatever is on the medium: in a state whose mounts
  in use and whose open files are on devices that answer, with a supported sector size and fewer than \<open>0xFFFFFFFF\<close> clusters,
  none of the loops of the driver runs out of the rounds that the model gives it, so a damaged or hostile volume (a cyclic
  cluster chain, a directory without an end) leads to an error code and not to a loop without end.\<close>

theorem public_calls_end:
  assumes "mounts_sound s" and "files_sound s" and "call_code s r"
  shows "r \<noteq> Some out_of_fuel"
  using assms(3,1,2)
proof (induction rule: call_code.induct)
  case (dir_next s d r t)
  then show ?case by (intro run_ends(3) [of ra8_fs_dir_next, OF dir_next(2)] ends_ra8_fs_dir_next)
next
  case (dir_open h p s d r t)
  then show ?case by (intro run_ends(3) [of "ra8_fs_dir_open h p", OF dir_open(2)] ends_ra8_fs_dir_open)
qed ((erule run_ends(1), (rule ends_ra8_fs_seek ends_settings ends_ra8_fs_device; simp))
  | (erule run_ends(2) [where I = files_sound], assumption, (rule ends_ra8_fs_file; simp))
  | (erule run_ends(2) [where I = mounts_sound], assumption, (rule volume_ends; simp))
  | (erule run_ends(2) [where I = "\<lambda>s. files_sound s \<and> mounts_sound s"], simp, (rule ends_ra8_fs_open; simp)))+

lemma ram_answers: "answers ram_backend"
  by (simp add: answers_def ends_def ram_backend_fields fsRead_def fsWrite_def fsGetCapacity_def fsErase_def ram_dispatch
      ram_read_def ram_write_def ram_erase_def ram_getCaps_def bindE_def split: prod.splits sum.splits)

lemma ex_sound: "mounts_sound ex_fs" "files_sound ex_fs"
proof -
  have "sound ex_mount" by (simp add: sound_def ram_answers internal_bps_valid_def ex_mount_def)
  then show "mounts_sound ex_fs" by (auto simp: mounts_sound_def ex_fs_def mount_zero_def less_Suc_eq numeral_2_eq_2)
  show "files_sound ex_fs" by (simp add: files_sound_def ex_fs_def fs_init_def fs_file_zero_def)
qed

theorem public_calls_end_witness:
  "code_of (fst (ra8_fs_unlink (Some 0) (Some [0x41, 0x2F, 0x42]) ex_fs)) \<noteq> Some out_of_fuel"
  by (rule public_calls_end [OF ex_sound], rule call_code.unlink [OF _ prod.collapse [symmetric]]) simp

end
