(* ===== verification/Blockdev_Cache.thy ===== *)
theory Blockdev_Cache
  imports Block_Device
begin

text \<open>
  \<^verbatim>\<open>src/libs/ra8_io/src/ra8_io_blockdev_cache_abi.zig\<close>: a least-recently-used, write-through sector cache around another device. The state
  is the pair of the cache's own structure and the state of the device beneath. Whoever uses the cached device cannot tell it from the
  device beneath: it keeps the contract of the fabric if that one does.
\<close>

section \<open>The cache\<close>

record cache_slot =
  cs_lba :: u32
  cs_last_use :: u32
  cs_valid :: bool

text \<open>The arrays the caller hands over have \<open>n_slots\<close> entries, of a slot and of a block each.\<close>

record 'u cache_state =
  c_under :: "'u device option"
  c_data :: bytes
  c_slots :: "cache_slot list"
  c_clock :: u32
  c_hits :: u32
  c_misses :: u32

abbreviation (input) n_slots :: "'u cache_state \<Rightarrow> nat" where "n_slots st \<equiv> length (c_slots st)"

definition cache_sector :: "'u cache_state \<Rightarrow> nat \<Rightarrow> bytes" where
  "cache_sector st idx = take io_block_bytes (drop (idx * io_block_bytes) (c_data st))"

text \<open>The index of the valid slot that holds \<open>lba\<close>, or \<open>n_slots\<close>.\<close>

primrec find_loop :: "u32 \<Rightarrow> cache_slot list \<Rightarrow> nat \<Rightarrow> nat" where
  "find_loop lba [] i = i"
| "find_loop lba (s # ss) i = (if cs_valid s \<and> cs_lba s = lba then i else find_loop lba ss (Suc i))"

definition cache_find :: "'u cache_state \<Rightarrow> u32 \<Rightarrow> nat" where
  "cache_find st lba = find_loop lba (c_slots st) 0"

primrec victim_loop :: "cache_slot list \<Rightarrow> cache_slot list \<Rightarrow> nat \<Rightarrow> nat \<Rightarrow> nat" where
  "victim_loop slots [] i best = best"
| "victim_loop slots (s # ss) i best =
     (if \<not> cs_valid s then i
      else victim_loop slots ss (Suc i) (if cs_last_use s < cs_last_use (slots ! best) then i else best))"

definition pickVictim :: "'u cache_state \<Rightarrow> nat" where
  "pickVictim st = victim_loop (c_slots st) (c_slots st) 0 0"

definition cache_claim :: "'u cache_state \<Rightarrow> nat \<Rightarrow> u32 \<Rightarrow> 'u cache_state" where
  "cache_claim st idx lba =
     st\<lparr>c_slots := (c_slots st)[idx := \<lparr>cs_lba = lba, cs_last_use = c_clock st, cs_valid = True\<rparr>]\<rparr>"

definition set_sector :: "'u cache_state \<Rightarrow> nat \<Rightarrow> bytes \<Rightarrow> 'u cache_state" where
  "set_sector st idx b = st\<lparr>c_data := splice_at (c_data st) (idx * io_block_bytes) b\<rparr>"

text \<open>
  The bytes that are copied to the caller. A miss is read into the block of the victim, whatever the outcome.
\<close>

definition readBlock :: "u32 \<Rightarrow> ('u cache_state \<times> 'u, bytes) op" where
  "readBlock lba = (\<lambda>(st0, u).
     let st = st0\<lparr>c_clock := c_clock st0 + 1\<rparr>; hit = cache_find st lba in
     if hit \<noteq> n_slots st then
       (Inr (cache_sector st hit), (st\<lparr>c_hits := c_hits st + 1,
          c_slots := (c_slots st)[hit := (c_slots st ! hit)\<lparr>cs_last_use := c_clock st\<rparr>]\<rparr>, u))
     else
       let st1 = st\<lparr>c_misses := c_misses st + 1\<rparr>; v = pickVictim st1 in
       case ra8_io_blockdev_read (c_under st1) lba 1 (u, Some (cache_sector st1 v)) of
         (r, (u', buf)) \<Rightarrow>
           let st2 = (case buf of None \<Rightarrow> st1 | Some b \<Rightarrow> set_sector st1 v b) in
           (case r of Inl rc \<Rightarrow> (Inl rc, (st2, u'))
            | Inr _ \<Rightarrow> (Inr (cache_sector st2 v), (cache_claim st2 v lba, u'))))"

definition writeBlock :: "u32 \<Rightarrow> bytes \<Rightarrow> ('u cache_state \<times> 'u, unit) op" where
  "writeBlock lba src = (\<lambda>(st0, u).
     case ra8_io_blockdev_write (c_under st0) lba 1 (Some src) u of
       (Inl rc, u') \<Rightarrow> (Inl rc, (st0, u'))
     | (Inr _, u') \<Rightarrow>
         let st = st0\<lparr>c_clock := c_clock st0 + 1\<rparr>;
             hit = cache_find st lba;
             idx = (if hit = n_slots st then pickVictim st else hit)
         in (Inr (), (cache_claim (set_sector st idx src) idx lba, u')))"

primrec cache_read_loop :: "u32 \<Rightarrow> nat \<Rightarrow> nat \<Rightarrow> (('u cache_state \<times> 'u) \<times> bytes option, unit) op" where
  "cache_read_loop lba 0 i = returnE ()"
| "cache_read_loop lba (Suc n) i = (\<lambda>(w, buf).
     case readBlock (lba + of_nat i) w of
       (Inl rc, w') \<Rightarrow> (Inl rc, (w', buf))
     | (Inr b, w') \<Rightarrow> cache_read_loop lba n (Suc i) (w', map_option (\<lambda>out. splice_at out (i * io_block_bytes) b) buf))"

definition cacheRead :: "bool \<Rightarrow> u32 \<Rightarrow> u32 \<Rightarrow> (('u cache_state \<times> 'u) \<times> bytes option, unit) op" where
  "cacheRead ctx lba count =
     (if \<not> ctx then throwE k_ra8_err_null_ptr
      else bindE (getE snd) (\<lambda>buf.
        if buf = None then throwE k_ra8_err_null_ptr else cache_read_loop lba (unat count) 0))"

primrec cache_write_loop :: "u32 \<Rightarrow> bytes \<Rightarrow> nat \<Rightarrow> nat \<Rightarrow> ('u cache_state \<times> 'u, unit) op" where
  "cache_write_loop lba src 0 i = returnE ()"
| "cache_write_loop lba src (Suc n) i =
     bindE (writeBlock (lba + of_nat i) (take io_block_bytes (drop (i * io_block_bytes) src))) (\<lambda>_.
       cache_write_loop lba src n (Suc i))"

definition cacheWrite :: "bool \<Rightarrow> u32 \<Rightarrow> u32 \<Rightarrow> bytes option \<Rightarrow> ('u cache_state \<times> 'u, unit) op" where
  "cacheWrite ctx lba count buf =
     (if \<not> ctx then throwE k_ra8_err_null_ptr
      else case buf of None \<Rightarrow> throwE k_ra8_err_null_ptr | Some src \<Rightarrow> cache_write_loop lba src (unat count) 0)"

definition cacheErase :: "bool \<Rightarrow> u32 \<Rightarrow> u32 \<Rightarrow> ('u cache_state \<times> 'u, unit) op" where
  "cacheErase ctx lba count = (\<lambda>(st, u).
     if \<not> ctx then (Inl k_ra8_err_null_ptr, (st, u))
     else case ra8_io_blockdev_erase (c_under st) lba count u of
       (Inl rc, u') \<Rightarrow> (Inl rc, (st, u'))
     | (Inr _, u') \<Rightarrow>
         (Inr (), (st\<lparr>c_slots := map (\<lambda>s. if cs_valid s \<and> cs_lba s \<ge> lba \<and> cs_lba s < lba + count
             then s\<lparr>cs_valid := False\<rparr> else s) (c_slots st)\<rparr>, u')))"

definition cacheGetCaps :: "bool \<Rightarrow> bool \<Rightarrow> ('u cache_state \<times> 'u, io_caps) op" where
  "cacheGetCaps ctx have_out = (\<lambda>(st, u).
     if \<not> ctx \<or> \<not> have_out then (Inl k_ra8_err_null_ptr, (st, u))
     else case ra8_io_blockdev_get_caps (c_under st) have_out u of (r, u') \<Rightarrow> (r, (st, u')))"

definition cacheSync :: "bool \<Rightarrow> ('u cache_state \<times> 'u, unit) op" where
  "cacheSync ctx = (\<lambda>(st, u).
     if \<not> ctx then (Inl k_ra8_err_null_ptr, (st, u))
     else case ra8_io_blockdev_sync (c_under st) u of (r, u') \<Rightarrow> (r, (st, u')))"

definition cache_iface :: "('u cache_state \<times> 'u) iface" where
  "cache_iface = \<lparr>io_read = Some cacheRead, io_write = Some cacheWrite, io_erase = Some cacheErase,
     io_get_caps = Some cacheGetCaps, io_sync = Some cacheSync\<rparr>"

definition cache_device :: "('u cache_state \<times> 'u) device" where
  "cache_device = \<lparr>bd_iface = Some cache_iface, bd_ctx = True\<rparr>"

text \<open>\<open>bd\<close>, \<open>state\<close> and \<open>slots\<close> are arrays and structures to fill, null or not.\<close>

definition ra8_io_blockdev_cache_init ::
    "bool \<Rightarrow> bool \<Rightarrow> 'u device option \<Rightarrow> bytes option \<Rightarrow> bool \<Rightarrow> u32 \<Rightarrow> ra8_err + ('u cache_state \<times> 'u) device \<times> 'u cache_state" where
  "ra8_io_blockdev_cache_init bd state dev data slots n =
     (if \<not> bd \<or> \<not> state \<or> dev = None then Inl k_ra8_err_null_ptr
      else case data of None \<Rightarrow> Inl k_ra8_err_null_ptr
        | Some bytes \<Rightarrow>
            if \<not> slots then Inl k_ra8_err_null_ptr
            else if n = 0 then Inl k_ra8_err_invalid_size
            else Inr (cache_device, \<lparr>c_under = dev, c_data = bytes,
              c_slots = replicate (unat n) \<lparr>cs_lba = 0, cs_last_use = 0, cs_valid = False\<rparr>,
              c_clock = 0, c_hits = 0, c_misses = 0\<rparr>))"

definition ra8_io_blockdev_cache_stats :: "'u cache_state option \<Rightarrow> ra8_err + u32 \<times> u32" where
  "ra8_io_blockdev_cache_stats state =
     (case state of None \<Rightarrow> Inl k_ra8_err_null_ptr | Some st \<Rightarrow> Inr (c_hits st, c_misses st))"

section \<open>Coherence\<close>

text \<open>Every valid slot holds what the device holds at its address, and no address is cached twice.\<close>

definition cache_ok :: "'u device \<Rightarrow> ('u \<Rightarrow> u32 \<Rightarrow> bytes) \<Rightarrow> ('u \<Rightarrow> bool) \<Rightarrow> 'u cache_state \<times> 'u \<Rightarrow> bool" where
  "cache_ok d content valid = (\<lambda>(st, u).
     valid u \<and> c_under st = Some d \<and> c_slots st \<noteq> [] \<and> length (c_data st) = n_slots st * io_block_bytes \<and>
     (\<forall>i < n_slots st. cs_valid (c_slots st ! i) \<longrightarrow> cache_sector st i = content u (cs_lba (c_slots st ! i))) \<and>
     (\<forall>i < n_slots st. \<forall>j < n_slots st. cs_valid (c_slots st ! i) \<and> cs_valid (c_slots st ! j) \<and>
        cs_lba (c_slots st ! i) = cs_lba (c_slots st ! j) \<longrightarrow> i = j))"

lemma find_loop_spec:
  "i \<le> find_loop lba ss i \<and> find_loop lba ss i \<le> i + length ss \<and>
   (find_loop lba ss i < i + length ss \<longrightarrow> cs_valid (ss ! (find_loop lba ss i - i)) \<and> cs_lba (ss ! (find_loop lba ss i - i)) = lba) \<and>
   (find_loop lba ss i = i + length ss \<longrightarrow> (\<forall>s \<in> set ss. \<not> (cs_valid s \<and> cs_lba s = lba)))"
proof (induction ss arbitrary: i)
  case (Cons s ss)
  show ?case using Cons.IH [of "Suc i"] by (auto simp: Suc_diff_le nth_Cons' split: if_splits)
qed simp

lemma cache_find_hit:
  assumes "cache_find st lba \<noteq> n_slots st"
  shows "cache_find st lba < n_slots st" "cs_valid (c_slots st ! cache_find st lba)" "cs_lba (c_slots st ! cache_find st lba) = lba"
  using find_loop_spec [of 0 lba "c_slots st"] assms by (auto simp: cache_find_def)

lemma cache_find_miss:
  assumes "cache_find st lba = n_slots st" and "i < n_slots st" and "cs_valid (c_slots st ! i)"
  shows "cs_lba (c_slots st ! i) \<noteq> lba"
  using find_loop_spec [of 0 lba "c_slots st"] assms nth_mem [of i "c_slots st"] by (auto simp: cache_find_def)

lemma victim_loop_less: "i + length ss \<le> n \<Longrightarrow> best < n \<Longrightarrow> victim_loop slots ss i best < n"
  by (induction ss arbitrary: i best) auto

lemma pickVictim_less: "c_slots st \<noteq> [] \<Longrightarrow> pickVictim st < n_slots st"
  unfolding pickVictim_def by (rule victim_loop_less) simp_all

text \<open>The victim is the slot that was used longest ago, as long as the 32-bit clock does not wrap.\<close>

lemma victim_loop_least:
  assumes "\<forall>s \<in> set ss. cs_valid s" and "ss = drop i slots" and "i \<le> length slots" and "best < length slots"
    and "\<forall>j < i. cs_last_use (slots ! best) \<le> cs_last_use (slots ! j)"
  shows "\<forall>j < length slots. cs_last_use (slots ! victim_loop slots ss i best) \<le> cs_last_use (slots ! j)"
  using assms
proof (induction ss arbitrary: i best)
  case (Cons s ss)
  have i: "i < length slots" "s = slots ! i" "ss = drop (Suc i) slots"
    using Cons.prems(2) by (metis drop_eq_Nil list.discI not_le, metis Cons_nth_drop_Suc drop_eq_Nil list.discI list.inject not_le,
      metis Cons_nth_drop_Suc drop_eq_Nil list.discI list.inject not_le)
  define best' where "best' = (if cs_last_use s < cs_last_use (slots ! best) then i else best)"
  have "\<forall>j < Suc i. cs_last_use (slots ! best') \<le> cs_last_use (slots ! j)"
    using Cons.prems(5) i(2) by (fastforce simp: best'_def less_Suc_eq)
  moreover have "best' < length slots" using i(1) Cons.prems(4) by (simp add: best'_def)
  ultimately have "\<forall>j < length slots. cs_last_use (slots ! victim_loop slots ss (Suc i) best') \<le> cs_last_use (slots ! j)"
    using Cons.IH [of "Suc i" best'] Cons.prems(1) i(1,3) by simp
  moreover have "victim_loop slots (s # ss) i best = victim_loop slots ss (Suc i) best'" using Cons.prems(1) by (simp add: best'_def)
  ultimately show ?case by simp
qed simp

lemma pickVictim_least:
  assumes "\<forall>s \<in> set (c_slots st). cs_valid s" and "s \<in> set (c_slots st)"
  shows "cs_last_use (c_slots st ! pickVictim st) \<le> cs_last_use s"
proof -
  have "0 < n_slots st" using assms(2) by (rule length_pos_if_in_set)
  then show ?thesis using victim_loop_least [of "c_slots st" 0 "c_slots st" 0] assms by (auto simp: pickVictim_def in_set_conv_nth)
qed

lemma set_sector_simps [simp]:
  "c_slots (set_sector st v b) = c_slots st" "c_under (set_sector st v b) = c_under st" "c_clock (set_sector st v b) = c_clock st"
  by (simp_all add: set_sector_def)

lemma cache_sector_length:
  "cache_ok d content valid (st, u) \<Longrightarrow> v < n_slots st \<Longrightarrow> length (cache_sector st v) = 512"
  using mult_le_mono1 [of "Suc v" "n_slots st" 512] by (simp add: cache_ok_def cache_sector_def)

lemma set_sector_length:
  "length (c_data st) = n_slots st * 512 \<Longrightarrow> v < n_slots st \<Longrightarrow> length b = 512 \<Longrightarrow> length (c_data (set_sector st v b)) = length (c_data st)"
  unfolding set_sector_def using mult_le_mono1 [of "Suc v" "n_slots st" 512] by simp

lemma set_sector_at:
  assumes "length (c_data st) = n_slots st * 512" and "v < n_slots st" and "length b = 512" and "i < n_slots st"
  shows "cache_sector (set_sector st v b) i = (if i = v then b else cache_sector st i)"
proof (rule nth_equalityI)
  have v: "v * 512 + 512 \<le> length (c_data st)" using assms(1,2) mult_le_mono1 [of "Suc v" "n_slots st" 512] by simp
  have i: "i * 512 + 512 \<le> length (c_data st)" using assms(1,4) mult_le_mono1 [of "Suc i" "n_slots st" 512] by simp
  show "length (cache_sector (set_sector st v b) i) = length (if i = v then b else cache_sector st i)"
    using v i assms(3) by (simp add: cache_sector_def set_sector_def)
  fix k
  assume "k < length (cache_sector (set_sector st v b) i)"
  then have k: "k < 512" by (simp add: cache_sector_def)
  have "v * 512 \<le> i * 512 + k \<and> i * 512 + k < v * 512 + 512 \<longleftrightarrow> i = v" using k by auto
  then show "cache_sector (set_sector st v b) i ! k = (if i = v then b else cache_sector st i) ! k"
    using v i assms(3) k by (auto simp: cache_sector_def set_sector_def nth_splice_at)
qed

text \<open>A slot that is filled: the others still hold what they held, if none of them is of the same address.\<close>

lemma cache_ok_fill:
  assumes ok: "valid u'" "c_under st = Some d" "length (c_data st) = n_slots st * io_block_bytes"
    and v: "v < n_slots st" and b: "length b = io_block_bytes" "content u' lba = b"
    and old: "\<And>i. i < n_slots st \<Longrightarrow> i \<noteq> v \<Longrightarrow> cs_valid (c_slots st ! i) \<Longrightarrow>
      cs_lba (c_slots st ! i) \<noteq> lba \<and> cache_sector st i = content u' (cs_lba (c_slots st ! i))"
    and dis: "\<forall>i < n_slots st. \<forall>j < n_slots st. cs_valid (c_slots st ! i) \<and> cs_valid (c_slots st ! j) \<and>
        cs_lba (c_slots st ! i) = cs_lba (c_slots st ! j) \<longrightarrow> i = j"
  shows "cache_ok d content valid (cache_claim (set_sector st v b) v lba, u')"
proof -
  let ?t = "cache_claim (set_sector st v b) v lba"
  have s: "c_slots ?t = (c_slots st)[v := \<lparr>cs_lba = lba, cs_last_use = c_clock st, cs_valid = True\<rparr>]" "c_under ?t = Some d"
      "length (c_data ?t) = n_slots st * 512"
    using ok(2,3) v b(1) by (simp_all add: cache_claim_def set_sector_length)
  have sec: "cache_sector ?t i = (if i = v then b else cache_sector st i)" if "i < n_slots st" for i
    using set_sector_at [OF ok(3) v b(1) that] by (simp add: cache_sector_def cache_claim_def)
  have "c_slots st \<noteq> []" using v by auto
  moreover have "cache_sector ?t i = content u' (cs_lba (c_slots ?t ! i))" if "i < n_slots st" "cs_valid (c_slots ?t ! i)" for i
    using that sec [OF that(1)] old [of i] b(2) v by (cases "i = v") (simp_all add: s(1))
  moreover have "i = j" if "i < n_slots st" "j < n_slots st" "cs_valid (c_slots ?t ! i)" "cs_valid (c_slots ?t ! j)"
      "cs_lba (c_slots ?t ! i) = cs_lba (c_slots ?t ! j)" for i j
    using that old [of i] old [of j] dis v by (cases "i = v"; cases "j = v") (auto simp: s(1))
  ultimately show ?thesis using ok(1) s by (simp add: cache_ok_def)
qed

lemma cache_ok_stats:
  "cache_ok d content valid (st\<lparr>c_clock := n\<rparr>, u) = cache_ok d content valid (st, u)"
  "cache_ok d content valid (st\<lparr>c_misses := n\<rparr>, u) = cache_ok d content valid (st, u)"
  "cache_ok d content valid (st\<lparr>c_hits := n\<rparr>, u) = cache_ok d content valid (st, u)"
  by (simp_all add: cache_ok_def cache_sector_def)

lemma cache_ok_touch:
  assumes "cache_ok d content valid (st, u)"
  shows "cache_ok d content valid (st\<lparr>c_slots := (c_slots st)[i := (c_slots st ! i)\<lparr>cs_last_use := n\<rparr>]\<rparr>, u)"
proof -
  let ?s = "(c_slots st)[i := (c_slots st ! i)\<lparr>cs_last_use := n\<rparr>]"
  have "cs_valid (?s ! j) = cs_valid (c_slots st ! j)" "cs_lba (?s ! j) = cs_lba (c_slots st ! j)" if "j < n_slots st" for j
    by (cases "j = i"; use that in simp)+
  then show ?thesis using assms by (simp add: cache_ok_def cache_sector_def)
qed

lemma set_sector_same:
  assumes "length (c_data st) = n_slots st * 512" and "v < n_slots st"
  shows "set_sector st v (cache_sector st v) = st"
proof -
  have "v * 512 + 512 \<le> length (c_data st)" using assms mult_le_mono1 [of "Suc v" "n_slots st" 512] by simp
  then have "splice_at (c_data st) (v * 512) (take 512 (drop (v * 512) (c_data st))) = c_data st"
    by (intro nth_equalityI) (auto simp: nth_splice_at)
  then show ?thesis by (simp add: set_sector_def cache_sector_def)
qed

text \<open>The two outcomes of the search.\<close>

lemma readBlock_hit:
  assumes "st = st0\<lparr>c_clock := c_clock st0 + 1\<rparr>" and "cache_find st lba \<noteq> n_slots st"
  shows "readBlock lba (st0, u) = (Inr (cache_sector st (cache_find st lba)),
    (st\<lparr>c_slots := (c_slots st)[cache_find st lba := (c_slots st ! cache_find st lba)\<lparr>cs_last_use := c_clock st\<rparr>]\<rparr>\<lparr>c_hits := c_hits st + 1\<rparr>, u))"
  using assms(2) unfolding assms(1) by (simp add: readBlock_def Let_def)

lemma readBlock_miss:
  assumes "st = st0\<lparr>c_clock := c_clock st0 + 1, c_misses := c_misses st0 + 1\<rparr>" and "cache_find st lba = n_slots st"
    and "ra8_io_blockdev_read (c_under st) lba 1 (u, Some (cache_sector st (pickVictim st))) = (r, (u', buf))"
  defines "t \<equiv> case buf of None \<Rightarrow> st | Some b \<Rightarrow> set_sector st (pickVictim st) b"
  shows "readBlock lba (st0, u) = (case r of Inl rc \<Rightarrow> (Inl rc, (t, u'))
    | Inr _ \<Rightarrow> (Inr (cache_sector t (pickVictim st)), (cache_claim t (pickVictim st) lba, u')))"
  using assms(2,3) unfolding assms(1) t_def by (simp add: readBlock_def Let_def cache_find_def split: sum.split)

context io_device
begin

lemma readBlock_run:
  assumes ok: "cache_ok d content valid (st0, u)" and run: "readBlock lba (st0, u) = (r, (st', u'))"
  shows "cache_ok d content valid (st', u') \<and> content u' = content u \<and> (\<forall>b. r = Inr b \<longrightarrow> b = content u lba)"
proof (cases "cache_find (st0\<lparr>c_clock := c_clock st0 + 1\<rparr>) lba = n_slots st0")
  case False
  define st where "st = st0\<lparr>c_clock := c_clock st0 + 1\<rparr>"
  let ?hit = "cache_find st lba"
  have h: "?hit \<noteq> n_slots st" using False by (simp add: st_def)
  have ok': "cache_ok d content valid (st, u)" using ok by (simp add: st_def cache_ok_stats)
  have "cache_sector st ?hit = content u lba" using ok' cache_find_hit [OF h] by (simp add: cache_ok_def)
  moreover note readBlock_hit [OF st_def h, of u]
  ultimately show ?thesis using cache_ok_touch [OF ok'] run by (auto simp: cache_ok_stats)
next
  case True
  define st where "st = st0\<lparr>c_clock := c_clock st0 + 1, c_misses := c_misses st0 + 1\<rparr>"
  define v where "v = pickVictim st"
  have ok': "cache_ok d content valid (st, u)" using ok by (simp add: st_def cache_ok_stats)
  then have inv: "valid u" "c_under st = Some d" "length (c_data st) = n_slots st * 512" by (simp_all add: cache_ok_def)
  have v: "v < n_slots st" unfolding v_def using ok' by (intro pickVictim_less) (simp add: cache_ok_def)
  have miss: "cache_find st lba = n_slots st" using True by (simp add: st_def cache_find_def)
  have sl: "length (cache_sector st v) = 512" by (rule cache_sector_length [OF ok' v])
  obtain r1 u1 b1 where rd: "ra8_io_blockdev_read (Some d) lba 1 (u, Some (cache_sector st v)) = (r1, (u1, b1))" by (metis prod.exhaust)
  note res = readBlock_miss [OF st_def miss, folded v_def, unfolded inv(2), OF rd]
  have same: "valid u1" "content u1 = content u" using io_read_same [OF inv(1) _ rd] sl by simp_all
  show ?thesis
  proof (cases r1)
    case (Inl e)
    then have "b1 = Some (cache_sector st v)" using io_read_fail [OF inv(1) sl] rd by blast
    then have "readBlock lba (st0, u) = (Inl e, (st, u1))" using Inl res set_sector_same [OF inv(3) v] by simp
    then show ?thesis using run ok' same by (auto simp: cache_ok_def)
  next
    case (Inr x)
    then have "ra8_io_blockdev_read (Some d) lba 1 (u, Some (cache_sector st v)) = (Inr (), (u1, b1))" using rd by simp
    then have b1: "b1 = Some (content u lba)"
      using io_read_data [OF inv(1), of 1 "cache_sector st v" lba u1 b1] sl block_length [of u lba] by (simp add: splice_at_def)
    have "cache_ok d content valid (cache_claim (set_sector st v (content u lba)) v lba, u1)"
      by (rule cache_ok_fill) (use inv same v block_length ok' cache_find_miss [OF miss] in \<open>simp_all add: cache_ok_def\<close>)
    moreover have "cache_sector (set_sector st v (content u lba)) v = content u lba"
      using set_sector_at [OF inv(3) v _ v] block_length by simp
    ultimately show ?thesis using Inr b1 same res run by auto
  qed
qed

lemma writeBlock_run:
  assumes ok: "cache_ok d content valid (st0, u)" and len: "length src = io_block_bytes" and run: "writeBlock lba src (st0, u) = (r, (st', u'))"
  shows "cache_ok d content valid (st', u') \<and> content u' = (if isl r then content u else (content u)(lba := src))"
proof -
  have inv: "valid u" "c_under st0 = Some d" "length (c_data st0) = n_slots st0 * 512" using ok by (simp_all add: cache_ok_def)
  obtain r1 u1 where wr: "ra8_io_blockdev_write (Some d) lba 1 (Some src) u = (r1, u1)" by fastforce
  show ?thesis
  proof (cases r1)
    case (Inl e)
    then have "valid u1 \<and> content u1 = content u" using io_write_fail [OF inv(1) len] wr by blast
    moreover have "r = Inl e" "st' = st0" "u' = u1" using run wr Inl inv(2) by (simp_all add: writeBlock_def)
    ultimately show ?thesis using ok by (simp add: cache_ok_def)
  next
    case (Inr x)
    define st where "st = st0\<lparr>c_clock := c_clock st0 + 1\<rparr>"
    define idx where "idx = (if cache_find st lba = n_slots st then pickVictim st else cache_find st lba)"
    have res: "r = Inr ()" "st' = cache_claim (set_sector st idx src) idx lba" "u' = u1"
      using run wr Inr inv(2) by (simp_all add: writeBlock_def Let_def st_def [symmetric] idx_def [symmetric])
    have w: "valid u1" "content u1 = (content u)(lba := src)" using io_write_data [OF inv(1) len] wr Inr by auto
    have ok': "cache_ok d content valid (st, u)" using ok by (simp add: st_def cache_ok_stats)
    have i: "idx < n_slots st"
      unfolding idx_def using ok' pickVictim_less [of st] cache_find_hit(1) [of st lba] by (simp add: cache_ok_def)
    have fresh: "cs_lba (c_slots st ! j) \<noteq> lba" if "j < n_slots st" "j \<noteq> idx" "cs_valid (c_slots st ! j)" for j
      using that cache_find_hit [of st lba] cache_find_miss [of st lba j] ok' by (auto simp: idx_def cache_ok_def split: if_splits)
    have "cache_ok d content valid (st', u1)" unfolding res(2)
      by (rule cache_ok_fill) (use inv w i len ok' fresh in \<open>auto simp: cache_ok_def st_def\<close>)
    then show ?thesis using res w by simp
  qed
qed

end

lemma blocks_from_Suc: "blocks_from c (lba + of_nat i) (Suc n) = c (lba + of_nat i) @ blocks_from c (lba + of_nat (Suc i)) n"
proof -
  have "blocks_from c (lba + of_nat i) (Suc n) = c (lba + of_nat i + of_nat 0) @ concat (map (\<lambda>k. c (lba + of_nat i + of_nat (Suc k))) [0..<n])"
    unfolding blocks_from_def by (simp only: upt_conv_Cons [OF zero_less_Suc] map_Suc_upt [symmetric] list.map map_map concat.simps o_def)
  also have "\<dots> = c (lba + of_nat i) @ blocks_from c (lba + of_nat (Suc i)) n" by (simp add: blocks_from_def ac_simps)
  finally show ?thesis .
qed

lemma cache_dispatch:
  "ra8_io_blockdev_read (Some cache_device) lba count (w, Some buf) = cache_read_loop lba (unat count) 0 (w, Some buf)"
  "ra8_io_blockdev_write (Some cache_device) lba count (Some src) = cache_write_loop lba src (unat count) 0"
  "ra8_io_blockdev_erase (Some cache_device) lba count = cacheErase True lba count"
  by (simp_all add: ra8_io_blockdev_read_def ra8_io_blockdev_write_def ra8_io_blockdev_erase_def validate_def cache_device_def cache_iface_def
      cacheRead_def cacheWrite_def bindE_def returnR_def getE_def fun_eq_iff)

context io_device
begin

lemma blocks_from_length: "length (blocks_from (content u) lba n) = n * io_block_bytes"
  by (induction n) (simp_all add: blocks_from_def block_length)

lemma cache_read_loop_run:
  assumes "cache_ok d content valid w" and "cache_read_loop lba n i (w, Some buf) = (r, (w', b'))"
  shows "cache_ok d content valid w' \<and> content (snd w') = content (snd w)"
  using assms
proof (induction n arbitrary: i w buf)
  case (Suc n)
  obtain r1 w1 where rd: "readBlock (lba + of_nat i) w = (r1, w1)" by (metis surj_pair)
  have w1: "cache_ok d content valid w1" "content (snd w1) = content (snd w)"
    using readBlock_run [of "fst w" "snd w" "lba + of_nat i" r1 "fst w1" "snd w1"] Suc.prems(1) rd by simp_all
  show ?case
  proof (cases r1)
    case (Inl e)
    then show ?thesis using Suc.prems(2) rd w1 by simp
  next
    case (Inr b)
    then have "cache_read_loop lba n (Suc i) (w1, Some (splice_at buf (i * 512) b)) = (r, (w', b'))" using Suc.prems(2) rd by simp
    then show ?thesis using Suc.IH [OF w1(1)] w1(2) by simp
  qed
qed (simp add: returnE_def)

lemma cache_read_loop_data:
  assumes "cache_ok d content valid w" and "(i + n) * io_block_bytes \<le> length buf"
    and "cache_read_loop lba n i (w, Some buf) = (Inr (), (w', b'))"
  shows "b' = Some (splice_at buf (i * io_block_bytes) (blocks_from (content (snd w)) (lba + of_nat i) n))"
  using assms
proof (induction n arbitrary: i w buf)
  case 0
  then show ?case by (simp add: returnE_def blocks_from_def splice_at_def)
next
  case (Suc n)
  obtain r1 w1 where rd: "readBlock (lba + of_nat i) w = (r1, w1)" by (metis surj_pair)
  have w1: "cache_ok d content valid w1" "content (snd w1) = content (snd w)" "\<And>b. r1 = Inr b \<Longrightarrow> b = content (snd w) (lba + of_nat i)"
    using readBlock_run [of "fst w" "snd w" "lba + of_nat i" r1 "fst w1" "snd w1"] Suc.prems(1) rd by simp_all
  define b where "b = content (snd w) (lba + of_nat i)"
  define buf1 where "buf1 = splice_at buf (i * 512) b"
  have r1: "r1 = Inr b" using Suc.prems(3) rd w1(3) by (cases r1) (simp_all add: b_def)
  then have loop: "cache_read_loop lba n (Suc i) (w1, Some buf1) = (Inr (), (w', b'))"
    using Suc.prems(3) rd by (simp add: buf1_def)
  have lens: "length b = 512" "length buf1 = length buf" using Suc.prems(2) by (simp_all add: b_def buf1_def block_length)
  have "b' = Some (splice_at buf1 (Suc i * 512) (blocks_from (content (snd w1)) (lba + of_nat (Suc i)) n))"
    using Suc.IH [OF w1(1) _ loop] Suc.prems(2) lens by simp
  also have "\<dots> = Some (splice_at buf (i * 512) (b @ blocks_from (content (snd w)) (lba + of_nat (Suc i)) n))"
    using splice_at_join [of "i * 512" b "blocks_from (content (snd w)) (lba + of_nat (Suc i)) n" buf] lens Suc.prems(2)
    by (simp add: buf1_def w1(2) blocks_from_length ac_simps)
  finally show ?case by (simp only: blocks_from_Suc b_def)
qed

lemma cacheErase_run:
  assumes ok: "cache_ok d content valid (st, u)" and run: "cacheErase True lba count (st, u) = (r, (st', u'))"
  shows "cache_ok d content valid (st', u')" "isl r \<Longrightarrow> content u' = content u"
    "r = Inr () \<Longrightarrow> unat lba + unat count < 2 ^ 32 \<and> (\<forall>l. unat l < unat lba \<or> unat lba + unat count \<le> unat l \<longrightarrow> content u' l = content u l)"
proof -
  have inv: "valid u" "c_under st = Some d" using ok by (simp_all add: cache_ok_def)
  obtain r1 u1 where er: "ra8_io_blockdev_erase (Some d) lba count u = (r1, u1)" by fastforce
  have "cache_ok d content valid (st', u') \<and> (isl r \<longrightarrow> content u' = content u) \<and>
    (r = Inr () \<longrightarrow> unat lba + unat count < 2 ^ 32 \<and> (\<forall>l. unat l < unat lba \<or> unat lba + unat count \<le> unat l \<longrightarrow> content u' l = content u l))"
  proof (cases r1)
    case (Inl e)
    then show ?thesis using io_erase_fail [OF inv(1)] er run inv ok by (auto simp: cacheErase_def cache_ok_def)
  next
    case (Inr x)
    let ?f = "\<lambda>s. if cs_valid s \<and> cs_lba s \<ge> lba \<and> cs_lba s < lba + count then s\<lparr>cs_valid := False\<rparr> else s"
    have res: "r = Inr ()" "u' = u1" "st' = st\<lparr>c_slots := map ?f (c_slots st)\<rparr>" using run er Inr inv(2) by (auto simp: cacheErase_def)
    have d: "valid u1" "unat lba + unat count < 2 ^ 32" "\<forall>l. unat l < unat lba \<or> unat lba + unat count \<le> unat l \<longrightarrow> content u1 l = content u l"
      using io_erase_data [OF inv(1)] er Inr by auto
    have e: "unat (lba + count) = unat lba + unat count" using d(2) by (intro unat_add_small) simp
    have keep: "cs_valid s \<and> content u1 (cs_lba s) = content u (cs_lba s) \<and> ?f s = s" if "cs_valid (?f s)" for s
      using that d(3) by (auto simp: e word_less_nat_alt word_le_nat_alt not_le not_less split: if_splits)
    have sec: "cache_sector st' i = cache_sector st i" for i by (simp add: res(3) cache_sector_def)
    have slot: "cs_valid (c_slots st ! i)" "c_slots st' ! i = c_slots st ! i" "content u1 (cs_lba (c_slots st ! i)) = content u (cs_lba (c_slots st ! i))"
      if "i < n_slots st" "cs_valid (c_slots st' ! i)" for i
      using that keep [of "c_slots st ! i"] by (simp_all add: res(3))
    have same: "n_slots st' = n_slots st" "c_under st' = Some d" "c_data st' = c_data st" using inv(2) by (simp_all add: res(3))
    have "cache_ok d content valid (st', u1)"
      unfolding cache_ok_def split same(1,3) sec using ok d(1) slot same(1,2) by (auto simp: cache_ok_def)
    then have "cache_ok d content valid (st', u')" by (simp add: res(2))
    then show ?thesis using res d by simp
  qed
  then show "cache_ok d content valid (st', u')" "isl r \<Longrightarrow> content u' = content u"
    "r = Inr () \<Longrightarrow> unat lba + unat count < 2 ^ 32 \<and> (\<forall>l. unat l < unat lba \<or> unat lba + unat count \<le> unat l \<longrightarrow> content u' l = content u l)"
    by blast+
qed

lemma cached: "io_device cache_device (\<lambda>w. content (snd w)) (cache_ok d content valid)"
proof unfold_locales
  fix w w' :: "'w cache_state \<times> 'w" and lba count l :: u32 and buf :: bytes and r e b'
  show "length (content (snd w) l) = 512" by (rule block_length)
  assume ok: "cache_ok d content valid w"
  show "unat count * 512 \<le> length buf \<Longrightarrow> ra8_io_blockdev_read (Some cache_device) lba count (w, Some buf) = (r, (w', b')) \<Longrightarrow>
      cache_ok d content valid w' \<and> content (snd w') = content (snd w)"
    using cache_read_loop_run [OF ok] by (simp add: cache_dispatch)
  show "unat count * 512 \<le> length buf \<Longrightarrow> ra8_io_blockdev_read (Some cache_device) lba count (w, Some buf) = (Inr (), (w', b')) \<Longrightarrow>
      b' = Some (splice_at buf 0 (blocks_from (content (snd w)) lba (unat count)))"
    using cache_read_loop_data [OF ok, of 0] by (simp add: cache_dispatch)
  show "length buf = 512 \<Longrightarrow> ra8_io_blockdev_read (Some cache_device) lba 1 (w, Some buf) = (Inl e, (w', b')) \<Longrightarrow> b' = Some buf"
    by (auto simp: cache_dispatch returnE_def split: prod.splits sum.splits)
  have er: "cacheErase True lba count (fst w, snd w) = (r, (fst w', snd w'))" if "ra8_io_blockdev_erase (Some cache_device) lba count w = (r, w')" for r
    using that by (simp add: cache_dispatch)
  have ok2: "cache_ok d content valid (fst w, snd w)" using ok by simp
  show "cache_ok d content valid w' \<and> content (snd w') = content (snd w)"
    if "ra8_io_blockdev_erase (Some cache_device) lba count w = (Inl e, w')"
    using cacheErase_run(1,2) [OF ok2 er [OF that]] by simp
  show "cache_ok d content valid w' \<and> unat lba + unat count < 2 ^ 32 \<and>
      (\<forall>l. unat l < unat lba \<or> unat lba + unat count \<le> unat l \<longrightarrow> content (snd w') l = content (snd w) l)"
    if "ra8_io_blockdev_erase (Some cache_device) lba count w = (Inr (), w')"
    using cacheErase_run(1,3) [OF ok2 er [OF that]] by simp
  assume len: "length buf = 512"
  have wr: "cache_ok d content valid w' \<and> content (snd w') = (if isl r then content (snd w) else (content (snd w))(lba := buf))"
    if "ra8_io_blockdev_write (Some cache_device) lba 1 (Some buf) w = (r, w')" for r
  proof -
    obtain r1 w1 where run: "writeBlock lba buf w = (r1, w1)" by (metis surj_pair)
    then have "r = r1" "w' = w1" using that len by (auto simp: cache_dispatch bindE_def returnE_def split: sum.splits)
    then show ?thesis using writeBlock_run [of "fst w" "snd w" buf lba r1 "fst w1" "snd w1"] ok len run by simp
  qed
  show "ra8_io_blockdev_write (Some cache_device) lba 1 (Some buf) w = (Inl e, w') \<Longrightarrow> cache_ok d content valid w' \<and> content (snd w') = content (snd w)"
    using wr by force
  show "ra8_io_blockdev_write (Some cache_device) lba 1 (Some buf) w = (Inr (), w') \<Longrightarrow>
      cache_ok d content valid w' \<and> content (snd w') = (content (snd w))(lba := buf)"
    using wr by force
qed

end

context reliable_io
begin

lemma readBlock_ok:
  assumes ok: "cache_ok d content valid (st0, u)" and l: "unat lba < nblocks u"
  shows "\<exists>b st' u'. readBlock lba (st0, u) = (Inr b, (st', u')) \<and> nblocks u' = nblocks u"
proof (cases "cache_find (st0\<lparr>c_clock := c_clock st0 + 1\<rparr>) lba = n_slots st0")
  case False
  then show ?thesis using readBlock_hit [OF refl, of st0 lba u] by simp
next
  case True
  define st where "st = st0\<lparr>c_clock := c_clock st0 + 1, c_misses := c_misses st0 + 1\<rparr>"
  have miss: "cache_find st lba = n_slots st" using True by (simp add: st_def cache_find_def)
  have ok': "cache_ok d content valid (st, u)" using ok by (simp add: st_def cache_ok_stats)
  then have inv: "valid u" "c_under st = Some d" "c_slots st \<noteq> []" by (simp_all add: cache_ok_def)
  obtain u1 b1 where rd: "ra8_io_blockdev_read (Some d) lba 1 (u, Some (cache_sector st (pickVictim st))) = (Inr (), (u1, b1))" "nblocks u1 = nblocks u"
    using io_read_ok [OF inv(1), of lba 1 "cache_sector st (pickVictim st)"] l cache_sector_length [OF ok' pickVictim_less [OF inv(3)]] by fastforce
  show ?thesis using readBlock_miss [OF st_def miss, unfolded inv(2), OF rd(1)] rd(2) by simp
qed

lemma cache_read_loop_ok:
  assumes "cache_ok d content valid w" and "unat lba + i + n \<le> nblocks (snd w)"
  shows "\<exists>w' b'. cache_read_loop lba n i (w, Some buf) = (Inr (), (w', b')) \<and> nblocks (snd w') = nblocks (snd w)"
  using assms
proof (induction n arbitrary: i w buf)
  case (Suc n)
  have "unat lba + i < 2 ^ 32" using Suc.prems(2) few_blocks [of "snd w"] by simp
  then have "unat (lba + of_nat i) = unat lba + i"
    by (subst unat_add_small) (simp_all add: unat_of_nat_small)
  then obtain b st' u' where rd: "readBlock (lba + of_nat i) w = (Inr b, (st', u'))" "nblocks u' = nblocks (snd w)"
    using readBlock_ok [of "fst w" "snd w" "lba + of_nat i"] Suc.prems by auto
  have "cache_ok d content valid (st', u')" using readBlock_run [of "fst w" "snd w"] Suc.prems(1) rd(1) by fastforce
  then show ?case using Suc.IH [of "(st', u')" "Suc i" "splice_at buf (i * 512) b"] Suc.prems(2) rd by simp
qed (simp add: returnE_def)

lemma cached_reliable: "reliable_io cache_device (\<lambda>w. content (snd w)) (cache_ok d content valid) (\<lambda>w. nblocks (snd w))"
proof (rule reliable_io.intro [OF cached], unfold_locales)
  fix w :: "'w cache_state \<times> 'w" and lba count :: u32 and buf :: bytes
  show "nblocks (snd w) < 2 ^ 32" by (rule few_blocks)
  assume ok: "cache_ok d content valid w"
  show "unat lba + unat count \<le> nblocks (snd w) \<Longrightarrow> unat count * 512 \<le> length buf \<Longrightarrow>
      \<exists>w' b'. ra8_io_blockdev_read (Some cache_device) lba count (w, Some buf) = (Inr (), (w', b')) \<and> nblocks (snd w') = nblocks (snd w)"
    using cache_read_loop_ok [OF ok, of lba 0] by (simp add: cache_dispatch)
  assume "unat lba < nblocks (snd w)" and len: "length buf = 512"
  then obtain u' where "ra8_io_blockdev_write (Some d) lba 1 (Some buf) (snd w) = (Inr (), u')" "nblocks u' = nblocks (snd w)"
    using io_write_ok [of "snd w" lba buf] ok by (auto simp: cache_ok_def split: prod.splits)
  then show "\<exists>w'. ra8_io_blockdev_write (Some cache_device) lba 1 (Some buf) w = (Inr (), w') \<and> nblocks (snd w') = nblocks (snd w)"
    using ok len by (auto simp: cache_dispatch writeBlock_def cache_ok_def bindE_def returnE_def Let_def split: prod.splits)
qed

end

text \<open>The cache over the RAM device, as the demonstration of the cache sets it up.\<close>

interpretation cached_ram: reliable_io cache_device "\<lambda>w l. ram_content (snd w) (ucast l)"
  "cache_ok ram_device (\<lambda>st l. ram_content st (ucast l)) ram_valid" "\<lambda>w. unat (ram_block_count (snd w))"
  by (rule ram_io.cached_reliable)

section \<open>The cached device\<close>

lemma cache_init_ok:
  assumes "ra8_io_blockdev_cache_init bd state (Some d) (Some bytes) slots n = Inr (dev, st)" and "length bytes = unat n * io_block_bytes" and "valid u"
  shows "dev = cache_device" "cache_ok d content valid (st, u)"
  using assms by (auto simp: ra8_io_blockdev_cache_init_def cache_ok_def unat_eq_zero split: if_splits)

text \<open>
  C38. A device under the sector cache that \<open>ra8_io_blockdev_cache_init\<close> sets up is, as backend of the file system, the device itself: the cache starts
  coherent, and reads and writes through it keep it so, return and change exactly the blocks of the device, and do not fail where the
  device does not.
\<close>

theorem cached_device_reliable:
  assumes "reliable_io d content valid nblocks"
    and "ra8_io_blockdev_cache_init bd state (Some d) (Some bytes) slots n = Inr (dev, st)" and "length bytes = unat n * 512"
  shows "reliable_device (fs_backend_of dev) (wide (\<lambda>w. content (snd w))) 512 (cache_ok d content valid) (\<lambda>w. nblocks (snd w)) \<and>
    (\<forall>u. valid u \<longrightarrow> cache_ok d content valid (st, u))"
  using reliable_io.as_reliable_device [OF reliable_io.cached_reliable [OF assms(1)]] cache_init_ok [OF assms(2,3)] by blast

theorem cached_device_reliable_witness:
  "reliable_device (fs_backend_of cache_device) (wide (\<lambda>w l. ram_content (snd w) (ucast l))) 512
     (cache_ok ram_device (\<lambda>st l. ram_content st (ucast l)) ram_valid) (\<lambda>w. unat (ram_block_count (snd w))) \<and>
   cache_ok ram_device (\<lambda>st l. ram_content st (ucast l)) ram_valid
     (\<lparr>c_under = Some ram_device, c_data = replicate 512 7,
        c_slots = [\<lparr>cs_lba = 0, cs_last_use = 0, cs_valid = False\<rparr>], c_clock = 0, c_hits = 0, c_misses = 0\<rparr>,
      \<lparr>ram_storage = replicate 1024 0, ram_block_count = 2, ram_read_only = False\<rparr>)"
proof -
  have init: "ra8_io_blockdev_cache_init True True (Some ram_device) (Some (replicate 512 7)) True 1 =
      Inr (cache_device, \<lparr>c_under = Some ram_device, c_data = replicate 512 7,
        c_slots = [\<lparr>cs_lba = 0, cs_last_use = 0, cs_valid = False\<rparr>], c_clock = 0, c_hits = 0, c_misses = 0\<rparr>)"
    by (simp add: ra8_io_blockdev_cache_init_def)
  have "ram_valid \<lparr>ram_storage = replicate 1024 0, ram_block_count = 2, ram_read_only = False\<rparr>" by (simp add: ram_valid_def)
  then show ?thesis using cached_device_reliable [OF ram_io.reliable_io_axioms init] by simp
qed

section \<open>A read that fails half-way\<close>

text \<open>
  The contract leaves the buffer of a failed read alone. A device that stores part of a block before it fails stores it into the block of
  the victim, whose slot is still valid for the address it held: the next read of that address is a hit and returns those bytes.
\<close>

lemma failed_miss_poisons_victim:
  assumes "c_slots st = [s]" and "cs_valid s" and "cs_lba s = a" and "l \<noteq> a" and "length (c_data st) = 512" and "length b = 512"
    and "ra8_io_blockdev_read (c_under st) l 1 (u, Some (c_data st)) = (Inl e, (u', Some b))"
  shows "\<exists>w. readBlock l (st, u) = (Inl e, w) \<and> fst (readBlock a w) = Inr b"
  using assms
  by (simp add: readBlock_def Let_def cache_find_def pickVictim_def cache_sector_def set_sector_def splice_at_def)

end
