(* ===== verification/Vsource.thy ===== *)
theory Vsource
  imports Block_Device
begin

text \<open>
  \<^verbatim>\<open>src/libs/ra8_io/src/ra8_io_blockdev_vsource.c\<close>: the adapter that reads bytes at a byte offset from a block device, for the page cache. A
  request is an unaligned head and tail, that go through a buffer of one block, and whole blocks in between, that the
  device stores into the caller's buffer directly. The state is the adapter's context, the device's state and the caller's buffer; a
  pointer into that buffer is its position.
\<close>

section \<open>The adapter\<close>

abbreviation (input) k_ra8_io_bd_vsource_one_block :: u32 where "k_ra8_io_bd_vsource_one_block \<equiv> 1"

record 'w vsource_ctx =
  vs_bd :: "'w device option"
  vs_scratch :: bytes

type_synonym 'w vsource_state = "'w vsource_ctx \<times> 'w \<times> bytes"

definition internal_bd_read_sector :: "u32 \<Rightarrow> ('w vsource_state, unit) op" where
  "internal_bd_read_sector lba = (\<lambda>(ctx, w, out).
     case ra8_io_blockdev_read (vs_bd ctx) lba k_ra8_io_bd_vsource_one_block (w, Some (vs_scratch ctx)) of
       (r, (w', b)) \<Rightarrow> (r, (ctx\<lparr>vs_scratch := (case b of None \<Rightarrow> vs_scratch ctx | Some s \<Rightarrow> s)\<rparr>, w', out)))"

definition internal_bd_copy_slice :: "u32 \<Rightarrow> u32 \<Rightarrow> u32 \<Rightarrow> nat \<Rightarrow> ('w vsource_state, unit) op" where
  "internal_bd_copy_slice lba in_block n dst =
     bindE (internal_bd_read_sector lba) (\<lambda>_.
       modifyE (\<lambda>(ctx, w, out). (ctx, w, splice_at out dst (take (unat n) (drop (unat in_block) (vs_scratch ctx))))))"

record vsource_cursor =
  vc_cur :: u64
  vc_out :: nat
  vc_remain :: u32

text \<open>The cursor after \<open>n\<close> bytes.\<close>

definition vc_advance :: "vsource_cursor \<Rightarrow> u32 \<Rightarrow> vsource_cursor" where
  "vc_advance cur n = \<lparr>vc_cur = vc_cur cur + ucast n, vc_out = vc_out cur + unat n, vc_remain = vc_remain cur - n\<rparr>"

definition internal_bd_read_head :: "u64 \<Rightarrow> vsource_cursor \<Rightarrow> ('w vsource_state, vsource_cursor) op" where
  "internal_bd_read_head block_bytes cur =
     (let head_in_block = ucast (vc_cur cur mod block_bytes) :: u32 in
      if head_in_block = 0 then returnE cur
      else
        let head_n = ucast (block_bytes - ucast head_in_block) :: u32;
            head_n = (if head_n > vc_remain cur then vc_remain cur else head_n)
        in bindE (internal_bd_copy_slice (ucast (vc_cur cur div block_bytes)) head_in_block head_n (vc_out cur)) (\<lambda>_.
             returnE (vc_advance cur head_n)))"

definition internal_bd_read_middle :: "u64 \<Rightarrow> vsource_cursor \<Rightarrow> ('w vsource_state, vsource_cursor) op" where
  "internal_bd_read_middle block_bytes cur =
     (let mid_blocks = ucast (ucast (vc_remain cur) div block_bytes) :: u32 in
      if mid_blocks = 0 then returnE cur
      else (\<lambda>(ctx, w, out).
        case ra8_io_blockdev_read (vs_bd ctx) (ucast (vc_cur cur div block_bytes)) mid_blocks (w, Some (drop (vc_out cur) out)) of
          (r, (w', b)) \<Rightarrow>
            let out' = (case b of None \<Rightarrow> out | Some s \<Rightarrow> take (vc_out cur) out @ s) in
            (case r of Inl e \<Rightarrow> (Inl e, (ctx, w', out'))
             | Inr _ \<Rightarrow> (Inr (vc_advance cur (ucast (ucast mid_blocks * block_bytes))), (ctx, w', out')))))"

definition internal_bd_read_tail :: "u64 \<Rightarrow> vsource_cursor \<Rightarrow> ('w vsource_state, unit) op" where
  "internal_bd_read_tail block_bytes cur =
     (if vc_remain cur = 0 then returnE ()
      else internal_bd_copy_slice (ucast (vc_cur cur div block_bytes)) 0 (vc_remain cur) (vc_out cur))"

definition ra8_io_blockdev_vsource_init :: "'w vsource_ctx option \<Rightarrow> 'w device option \<Rightarrow> ra8_err + 'w vsource_ctx" where
  "ra8_io_blockdev_vsource_init ctx bd =
     (if ctx = None then Inl k_ra8_err_null_ptr
      else if bd = None then Inl k_ra8_err_null_ptr
      else Inr \<lparr>vs_bd = bd, vs_scratch = replicate io_block_bytes 0\<rparr>)"

definition vsource_segments :: "u64 \<Rightarrow> u32 \<Rightarrow> ('w vsource_state, unit) op" where
  "vsource_segments offset len =
     (let block_bytes = of_nat io_block_bytes in
      if offset > 0xFFFFFFFFFFFFFFFF - ucast len then throwE k_ra8_err_out_of_range
      else
        bindE (internal_bd_read_head block_bytes \<lparr>vc_cur = offset, vc_out = 0, vc_remain = len\<rparr>) (\<lambda>cur.
        bindE (internal_bd_read_middle block_bytes cur) (\<lambda>cur.
        internal_bd_read_tail block_bytes cur)))"

definition ra8_io_blockdev_vsource_read :: "u64 \<Rightarrow> u32 \<Rightarrow> ('w vsource_ctx option \<times> 'w \<times> bytes option, unit) op" where
  "ra8_io_blockdev_vsource_read offset len = (\<lambda>(ctx, w, buf).
     case ctx of None \<Rightarrow> (Inl k_ra8_err_null_ptr, (ctx, w, buf))
     | Some c \<Rightarrow> (case buf of None \<Rightarrow> (Inl k_ra8_err_null_ptr, (ctx, w, buf))
         | Some out \<Rightarrow> (case vsource_segments offset len (c, w, out) of (r, (c', w', out')) \<Rightarrow> (r, (Some c', w', Some out')))))"

section \<open>The bytes of a device\<close>

text \<open>The device as a sequence of bytes: the \<open>n\<close> bytes from the byte offset \<open>off\<close> on.\<close>

definition bytes_at :: "(u32 \<Rightarrow> bytes) \<Rightarrow> nat \<Rightarrow> nat \<Rightarrow> bytes" where
  "bytes_at c off n = map (\<lambda>p. c (of_nat (p div io_block_bytes)) ! (p mod io_block_bytes)) [off..<off + n]"

lemma bytes_at_length [simp]: "length (bytes_at c off n) = n"
  by (simp add: bytes_at_def)

lemma bytes_at_0 [simp]: "bytes_at c off 0 = []"
  by (simp add: bytes_at_def)

lemma bytes_at_add: "bytes_at c off (m + n) = bytes_at c off m @ bytes_at c (off + m) n"
  by (simp add: bytes_at_def upt_add_eq_append [of off "off + m" n] add.assoc [symmetric] del: upt_conv_Cons)

lemma bytes_at_slice:
  assumes "length (c (of_nat (off div 512))) = 512" and "off mod 512 + n \<le> 512"
  shows "bytes_at c off n = take n (drop (off mod 512) (c (of_nat (off div 512))))"
proof (rule nth_equalityI)
  fix i
  assume "i < length (bytes_at c off n)"
  then have i: "i < n" by simp
  define s where "s = off mod 512 + i"
  have e: "off + i = s + off div 512 * 512" "s < 512" using i assms(2) by (simp_all add: s_def)
  have "(off + i) div 512 = off div 512" "(off + i) mod 512 = off mod 512 + i"
    using e(2) by (simp_all only: e(1) s_def [symmetric]) simp_all
  then show "bytes_at c off n ! i = take n (drop (off mod 512) (c (of_nat (off div 512)))) ! i"
    using i assms by (simp add: bytes_at_def)
qed (use assms in simp)

lemma bytes_at_blocks:
  assumes "\<And>l. length (c l) = 512"
  shows "bytes_at c (a * 512) (m * 512) = blocks_from c (of_nat a) m"
proof (induction m)
  case (Suc m)
  have "bytes_at c (a * 512) (Suc m * 512) = bytes_at c (a * 512) (m * 512) @ bytes_at c ((a + m) * 512) 512"
    using bytes_at_add [of c "a * 512" "m * 512" 512] by (simp add: algebra_simps)
  also have "bytes_at c ((a + m) * 512) 512 = c (of_nat (a + m))"
    using bytes_at_slice [of c "(a + m) * 512" 512] assms [of "of_nat (a + m)"] by simp
  finally show ?case using Suc by (simp add: blocks_from_def)
qed (simp add: blocks_from_def)

section \<open>A read inside the device\<close>

text \<open>The adapter is bound, and the device is as it was in \<open>u0\<close>.\<close>

definition vs_ready :: "'w device \<Rightarrow> ('w \<Rightarrow> u32 \<Rightarrow> bytes) \<Rightarrow> ('w \<Rightarrow> bool) \<Rightarrow> ('w \<Rightarrow> nat) \<Rightarrow> 'w \<Rightarrow> 'w vsource_ctx \<Rightarrow> 'w \<Rightarrow> bool" where
  "vs_ready d content valid nblocks u0 c u \<longleftrightarrow> vs_bd c = Some d \<and> length (vs_scratch c) = io_block_bytes \<and> valid u \<and>
     content u = content u0 \<and> nblocks u = nblocks u0"

text \<open>The cursor of a request of \<open>len\<close> bytes at \<open>off\<close>: what it has passed is in the buffer.\<close>

definition vs_progress :: "(u32 \<Rightarrow> bytes) \<Rightarrow> nat \<Rightarrow> nat \<Rightarrow> bytes \<Rightarrow> vsource_cursor \<Rightarrow> bytes \<Rightarrow> bool" where
  "vs_progress c off len buf cur out \<longleftrightarrow> unat (vc_cur cur) = off + vc_out cur \<and> unat (vc_remain cur) + vc_out cur = len \<and>
     out = splice_at buf 0 (bytes_at c off (vc_out cur))"

lemma vs_progress_step:
  assumes p: "vs_progress c off len buf cur out" and n: "unat n \<le> unat (vc_remain cur)" and "len \<le> length buf" and "off + len < 2 ^ 64"
  shows "vs_progress c off len buf (vc_advance cur n) (splice_at out (vc_out cur) (bytes_at c (unat (vc_cur cur)) (unat n)))"
proof -
  have u: "unat (ucast n :: u64) = unat n" by (rule wide_addr)
  have "unat (vc_cur cur + ucast n) = unat (vc_cur cur) + unat n"
    using p n assms(4) by (subst unat_add_small) (simp_all add: u vs_progress_def)
  moreover have "unat (vc_remain cur - n) = unat (vc_remain cur) - unat n" using n by (simp add: unat_sub word_le_nat_alt)
  moreover have "splice_at out (vc_out cur) (bytes_at c (unat (vc_cur cur)) (unat n)) = splice_at buf 0 (bytes_at c off (vc_out cur + unat n))"
    using p n assms(3) splice_at_join [of 0 "bytes_at c off (vc_out cur)" "bytes_at c (off + vc_out cur) (unat n)" buf]
    by (simp add: vs_progress_def bytes_at_add)
  ultimately show ?thesis using p n by (simp add: vs_progress_def vc_advance_def)
qed

lemma vs_lba: "(ucast ((p :: u64) div 512) :: u32) = of_nat (unat p div 512)"
  by (simp add: word_unat_eq_iff unat_ucast_mod unat_div unat_of_nat)

lemma vs_in_block: "unat (ucast ((p :: u64) mod 512) :: u32) = unat p mod 512"
  by (simp add: unat_ucast_mod unat_mod)

lemma round_up: "((x :: nat) + (512 - x mod 512)) mod 512 = 0"
proof -
  have "x mod 512 + (512 - x mod 512) = 512" by (rule le_add_diff_inverse) (rule less_imp_le, simp)
  then show ?thesis by (metis mod_add_left_eq mod_self)
qed

context reliable_io
begin

lemma copy_slice_ok:
  assumes r: "vs_ready d content valid nblocks u0 c u" and p: "unat (p :: u64) div 512 < nblocks u0"
    and "unat ib = unat p mod 512" and "unat ib + unat n \<le> 512"
  shows "\<exists>c' u'. internal_bd_copy_slice (ucast (p div 512)) ib n dst (c, u, out) =
      (Inr (), (c', u', splice_at out dst (bytes_at (content u0) (unat p) (unat n)))) \<and> vs_ready d content valid nblocks u0 c' u'"
proof -
  let ?l = "ucast (p div 512) :: u32"
  have l: "unat ?l = unat p div 512" using p few_blocks [of u0] by (simp add: vs_lba unat_of_nat_small)
  have inv: "valid u" "vs_bd c = Some d" "length (vs_scratch c) = 512" "content u = content u0" "nblocks u = nblocks u0"
    using r by (simp_all add: vs_ready_def)
  obtain u' b' where rd: "ra8_io_blockdev_read (Some d) ?l 1 (u, Some (vs_scratch c)) = (Inr (), (u', b'))" "nblocks u' = nblocks u"
    using io_read_ok [OF inv(1), of ?l 1 "vs_scratch c"] p l inv(3,5) by auto
  have b': "b' = Some (content u0 ?l)"
    using io_read_data [OF inv(1) _ rd(1)] inv(3,4) block_length [of u0 ?l] by (simp add: splice_at_def)
  have "bytes_at (content u0) (unat p) (unat n) = take (unat n) (drop (unat ib) (content u0 ?l))"
    using bytes_at_slice [of "content u0" "unat p" "unat n"] assms(3,4) block_length by (simp add: vs_lba)
  moreover have "vs_ready d content valid nblocks u0 (c\<lparr>vs_scratch := content u0 ?l\<rparr>) u'"
    using io_read_same [OF inv(1) _ rd(1)] rd(2) inv block_length by (simp add: vs_ready_def)
  ultimately show ?thesis
    using rd(1) b' inv(2) by (simp add: internal_bd_copy_slice_def internal_bd_read_sector_def bindE_def)
qed

lemma read_head_ok:
  assumes r: "vs_ready d content valid nblocks u0 c u" and p: "vs_progress (content u0) off len buf cur out"
    and b: "len \<le> length buf" "off + len \<le> nblocks u0 * io_block_bytes"
  shows "\<exists>c' u' cur' out'. internal_bd_read_head 512 cur (c, u, out) = (Inr cur', (c', u', out')) \<and>
    vs_ready d content valid nblocks u0 c' u' \<and> vs_progress (content u0) off len buf cur' out' \<and>
    (vc_remain cur' = 0 \<or> unat (vc_cur cur') mod 512 = 0)"
proof (cases "unat (vc_cur cur) mod 512 = 0")
  case True
  then have "(ucast (vc_cur cur mod 512) :: u32) = 0" by (simp add: word_unat_eq_iff vs_in_block)
  then show ?thesis using r p True by (auto simp: internal_bd_read_head_def)
next
  case False
  define ib :: u32 where "ib = ucast (vc_cur cur mod 512)"
  define n :: u32 where "n = (if ucast (512 - ucast ib :: u64) > vc_remain cur then vc_remain cur else ucast (512 - ucast ib :: u64))"
  have ib: "unat ib = unat (vc_cur cur) mod 512" by (simp add: ib_def vs_in_block)
  then have "unat (512 - ucast ib :: u64) = 512 - unat ib" by (simp add: unat_sub_if_size wide_addr word_size)
  then have "unat (ucast (512 - ucast ib :: u64) :: u32) = 512 - unat ib" by (simp add: unat_ucast_mod)
  then have n: "unat n = min (512 - unat ib) (unat (vc_remain cur))" by (auto simp: n_def word_less_nat_alt)
  have ne: "ib \<noteq> 0" using False ib by (metis unat_0)
  have room: "unat (vc_cur cur) \<le> nblocks u0 * 512" using p b(2) by (simp add: vs_progress_def)
  then have "unat (vc_cur cur) div 512 < nblocks u0" using False by (auto simp: div_less_iff_less_mult le_less)
  then obtain c' u' where run: "internal_bd_copy_slice (ucast (vc_cur cur div 512)) ib n (vc_out cur) (c, u, out) =
      (Inr (), (c', u', splice_at out (vc_out cur) (bytes_at (content u0) (unat (vc_cur cur)) (unat n))))"
      and r': "vs_ready d content valid nblocks u0 c' u'"
    using copy_slice_ok [OF r _ ib, of n] n ib by fastforce
  have adv: "vs_progress (content u0) off len buf (vc_advance cur n) (splice_at out (vc_out cur) (bytes_at (content u0) (unat (vc_cur cur)) (unat n)))"
    by (rule vs_progress_step [OF p]) (use n b few_blocks [of u0] in auto)
  have "vc_remain (vc_advance cur n) = 0 \<or> unat (vc_cur (vc_advance cur n)) mod 512 = 0"
  proof (cases "unat (vc_remain cur) < 512 - unat ib")
    case True
    then have "n = vc_remain cur" using n by (simp add: word_unat_eq_iff)
    then show ?thesis by (simp add: vc_advance_def)
  next
    case False
    then have "unat (vc_cur (vc_advance cur n)) = unat (vc_cur cur) + (512 - unat (vc_cur cur) mod 512)"
      using n ib p adv by (simp add: vs_progress_def vc_advance_def)
    then show ?thesis by (simp only: round_up) simp
  qed
  moreover have "internal_bd_read_head 512 cur (c, u, out) =
      (Inr (vc_advance cur n), (c', u', splice_at out (vc_out cur) (bytes_at (content u0) (unat (vc_cur cur)) (unat n))))"
    using run ne by (simp add: internal_bd_read_head_def Let_def ib_def [symmetric] n_def [symmetric] bindE_def)
  ultimately show ?thesis using r' adv by simp
qed

lemma read_middle_ok:
  assumes r: "vs_ready d content valid nblocks u0 c u" and p: "vs_progress (content u0) off len buf cur out"
    and b: "len \<le> length buf" "off + len \<le> nblocks u0 * io_block_bytes"
    and al: "vc_remain cur = 0 \<or> unat (vc_cur cur) mod 512 = 0"
  shows "\<exists>c' u' cur' out'. internal_bd_read_middle 512 cur (c, u, out) = (Inr cur', (c', u', out')) \<and>
    vs_ready d content valid nblocks u0 c' u' \<and> vs_progress (content u0) off len buf cur' out' \<and>
    (vc_remain cur' = 0 \<or> unat (vc_cur cur') mod 512 = 0 \<and> unat (vc_remain cur') < 512)"
proof -
  define mid :: u32 where "mid = ucast (ucast (vc_remain cur) div (512 :: u64))"
  have mid: "unat mid = unat (vc_remain cur) div 512"
    using unat_lt [of "vc_remain cur"] by (simp add: mid_def unat_ucast_mod unat_div wide_addr)
  have inv: "valid u" "vs_bd c = Some d" "content u = content u0" "nblocks u = nblocks u0" using r by (simp_all add: vs_ready_def)
  show ?thesis
  proof (cases "mid = 0")
    case True
    then have "unat (vc_remain cur) < 512" using mid by simp
    then show ?thesis using True r p al by (auto simp: internal_bd_read_middle_def mid_def [symmetric])
  next
    case False
    then have some: "512 \<le> unat (vc_remain cur)" using mid by (metis div_less not_le unat_eq_zero)
    then have a: "unat (vc_cur cur) = unat (vc_cur cur) div 512 * 512" using al by auto
    define q where "q = unat (vc_cur cur) div 512"
    let ?l = "ucast (vc_cur cur div 512) :: u32" and ?n = "unat mid * 512"
    have n: "?n \<le> unat (vc_remain cur)" using mid by simp
    have e: "(q + unat mid) * 512 = unat (vc_cur cur) + ?n" using a by (simp add: q_def add_mult_distrib)
    also have "\<dots> \<le> nblocks u0 * 512" using b(2) p n by (auto simp: vs_progress_def)
    finally have q: "q + unat mid \<le> nblocks u0" by simp
    then have l: "unat ?l = q" using few_blocks [of u0] by (simp add: vs_lba q_def [symmetric] unat_of_nat_small)
    have o: "length out = length buf" "vc_out cur + unat (vc_remain cur) = len"
      using p b(1) by (simp_all add: vs_progress_def)
    have fits: "unat mid * 512 \<le> length (drop (vc_out cur) out)" using o n b(1) by simp
    obtain u' b' where rd: "ra8_io_blockdev_read (Some d) ?l mid (u, Some (drop (vc_out cur) out)) = (Inr (), (u', b'))" "nblocks u' = nblocks u"
      using io_read_ok [OF inv(1) _ fits, of ?l] l q inv(4) by auto
    have "blocks_from (content u) ?l (unat mid) = bytes_at (content u0) (unat (vc_cur cur)) ?n"
      using bytes_at_blocks [of "content u0" q "unat mid"] block_length a by (simp add: inv(3) vs_lba q_def)
    then have b': "b' = Some (splice_at (drop (vc_out cur) out) 0 (bytes_at (content u0) (unat (vc_cur cur)) ?n))"
      using io_read_data [OF inv(1) fits rd(1)] by simp
    define m :: u32 where "m = ucast (ucast mid * (512 :: u64))"
    have m: "unat m = ?n" using n unat_lt [of "vc_remain cur"] by (simp add: m_def unat_ucast_mod unat_word_ariths wide_addr)
    let ?out = "splice_at out (vc_out cur) (bytes_at (content u0) (unat (vc_cur cur)) (unat m))"
    have out: "take (vc_out cur) out @ splice_at (drop (vc_out cur) out) 0 (bytes_at (content u0) (unat (vc_cur cur)) ?n) = ?out"
      by (simp add: splice_at_drop m)
    have run: "internal_bd_read_middle 512 cur (c, u, out) = (Inr (vc_advance cur m), (c, u', ?out))"
      using False rd(1) b' inv(2) out by (simp add: internal_bd_read_middle_def Let_def mid_def [symmetric] m_def [symmetric])
    have adv: "vs_progress (content u0) off len buf (vc_advance cur m) ?out"
      by (rule vs_progress_step [OF p]) (use n m b few_blocks [of u0] in auto)
    have "unat (vc_cur (vc_advance cur m)) = unat (vc_cur cur) + ?n" "unat (vc_remain (vc_advance cur m)) + ?n = unat (vc_remain cur)"
      using adv p m by (auto simp: vs_progress_def vc_advance_def)
    then have "unat (vc_cur (vc_advance cur m)) = (q + unat mid) * 512" "unat (vc_remain (vc_advance cur m)) < 512"
      using e mid div_mult_mod_eq [of "unat (vc_remain cur)" 512] mod_less_divisor [of 512 "unat (vc_remain cur)"] by simp_all
    moreover have "vs_ready d content valid nblocks u0 c u'" using io_read_same [OF inv(1) fits rd(1)] rd(2) r inv by (simp add: vs_ready_def)
    ultimately show ?thesis using run adv by simp
  qed
qed

lemma read_tail_ok:
  assumes r: "vs_ready d content valid nblocks u0 c u" and p: "vs_progress (content u0) off len buf cur out"
    and b: "len \<le> length buf" "off + len \<le> nblocks u0 * io_block_bytes"
    and al: "vc_remain cur = 0 \<or> unat (vc_cur cur) mod 512 = 0 \<and> unat (vc_remain cur) < 512"
  shows "\<exists>c' u'. internal_bd_read_tail 512 cur (c, u, out) = (Inr (), (c', u', splice_at buf 0 (bytes_at (content u0) off len))) \<and>
    vs_ready d content valid nblocks u0 c' u'"
proof (cases "vc_remain cur = 0")
  case True
  then show ?thesis using p r by (auto simp: internal_bd_read_tail_def vs_progress_def)
next
  case False
  then have pos: "0 < unat (vc_remain cur)" by (simp add: unat_gt_0)
  have "unat (vc_cur cur) < nblocks u0 * 512" using p b(2) pos by (simp add: vs_progress_def)
  then have "unat (vc_cur cur) div 512 < nblocks u0" by (simp add: div_less_iff_less_mult)
  then obtain c' u' where run: "internal_bd_copy_slice (ucast (vc_cur cur div 512)) 0 (vc_remain cur) (vc_out cur) (c, u, out) =
      (Inr (), (c', u', splice_at out (vc_out cur) (bytes_at (content u0) (unat (vc_cur cur)) (unat (vc_remain cur)))))"
      and r': "vs_ready d content valid nblocks u0 c' u'"
    using copy_slice_ok [OF r, of "vc_cur cur" 0 "vc_remain cur"] al False by fastforce
  have "vs_progress (content u0) off len buf (vc_advance cur (vc_remain cur))
      (splice_at out (vc_out cur) (bytes_at (content u0) (unat (vc_cur cur)) (unat (vc_remain cur))))"
    by (rule vs_progress_step [OF p]) (use b few_blocks [of u0] in auto)
  then show ?thesis using run r' False p by (simp add: internal_bd_read_tail_def vs_progress_def vc_advance_def add.commute)
qed

lemma segments_ok:
  assumes r: "vs_ready d content valid nblocks u0 c u" and b: "unat len \<le> length buf" "unat off + unat len \<le> nblocks u0 * io_block_bytes"
  shows "\<exists>c' u'. vsource_segments off len (c, u, buf) = (Inr (), (c', u', splice_at buf 0 (bytes_at (content u0) (unat off) (unat len)))) \<and>
    vs_ready d content valid nblocks u0 c' u'"
proof -
  have "vs_progress (content u0) (unat off) (unat len) buf \<lparr>vc_cur = off, vc_out = 0, vc_remain = len\<rparr> buf"
    by (simp add: vs_progress_def splice_at_def)
  from read_head_ok [OF r this b] obtain c1 u1 cur1 out1 where 1: "internal_bd_read_head 512 \<lparr>vc_cur = off, vc_out = 0, vc_remain = len\<rparr> (c, u, buf) = (Inr cur1, (c1, u1, out1))"
      "vs_ready d content valid nblocks u0 c1 u1" "vs_progress (content u0) (unat off) (unat len) buf cur1 out1"
      "vc_remain cur1 = 0 \<or> unat (vc_cur cur1) mod 512 = 0"
    by (elim exE conjE) (rule that)
  obtain c2 u2 cur2 out2 where 2: "internal_bd_read_middle 512 cur1 (c1, u1, out1) = (Inr cur2, (c2, u2, out2))"
      "vs_ready d content valid nblocks u0 c2 u2" "vs_progress (content u0) (unat off) (unat len) buf cur2 out2"
      "vc_remain cur2 = 0 \<or> unat (vc_cur cur2) mod 512 = 0 \<and> unat (vc_remain cur2) < 512"
    using read_middle_ok [OF 1(2,3) b 1(4)] by (elim exE conjE) (rule that)
  have "off \<le> 0xFFFFFFFFFFFFFFFF - ucast len"
    using b(2) few_blocks [of u0] unat_lt [of len] by (simp add: word_le_nat_alt unat_sub_if_size wide_addr word_size)
  then show ?thesis
    using read_tail_ok [OF 2(2,3) b 2(4)] 1(1) 2(1) by (simp add: vsource_segments_def bindE_def not_less)
qed

end

text \<open>
  C39. A read of \<open>len\<close> bytes at a byte offset, through the adapter that \<open>ra8_io_blockdev_vsource_init\<close> sets up, stores exactly the bytes
  of the device there and changes neither the rest of the buffer nor the device, for every alignment and length of a request that lies inside the device.
\<close>

theorem vsource_read_correct:
  assumes "reliable_io d content valid nblocks" and "ra8_io_blockdev_vsource_init ctx (Some d) = Inr c" and "valid u"
    and "unat len \<le> length buf" and "unat offset + unat len \<le> nblocks u * 512"
  shows "\<exists>c' u'. ra8_io_blockdev_vsource_read offset len (Some c, u, Some buf) =
      (Inr (), (Some c', u', Some (splice_at buf 0 (bytes_at (content u) (unat offset) (unat len))))) \<and>
    vs_bd c' = Some d \<and> valid u' \<and> content u' = content u"
proof -
  have "vs_ready d content valid nblocks u c u"
    using assms(2,3) by (auto simp: vs_ready_def ra8_io_blockdev_vsource_init_def split: if_splits)
  from reliable_io.segments_ok [OF assms(1) this assms(4,5)] show ?thesis
    by (auto simp: ra8_io_blockdev_vsource_read_def vs_ready_def)
qed

theorem vsource_read_correct_witness:
  "\<exists>c' u'. ra8_io_blockdev_vsource_read 500 600
      (Some \<lparr>vs_bd = Some ram_device, vs_scratch = replicate 512 0\<rparr>,
       \<lparr>ram_storage = replicate 512 1 @ replicate 512 2 @ replicate 512 3, ram_block_count = 3, ram_read_only = False\<rparr>, Some (replicate 700 0)) =
    (Inr (), (Some c', u', Some (replicate 12 1 @ replicate 512 2 @ replicate 76 3 @ replicate 100 0)))"
proof -
  let ?st = "\<lparr>ram_storage = replicate 512 1 @ replicate 512 2 @ replicate 512 3, ram_block_count = 3, ram_read_only = False\<rparr>"
  have init: "ra8_io_blockdev_vsource_init (Some \<lparr>vs_bd = None, vs_scratch = replicate 512 0\<rparr>) (Some ram_device) =
      Inr \<lparr>vs_bd = Some ram_device, vs_scratch = replicate 512 0\<rparr>" by (simp add: ra8_io_blockdev_vsource_init_def)
  have v: "ram_valid ?st" by (simp add: ram_valid_def)
  have c: "ram_content ?st 0 = replicate 512 1" "ram_content ?st 1 = replicate 512 2" "ram_content ?st 2 = replicate 512 3"
    by (simp_all add: ram_content_def)
  let ?c = "\<lambda>l :: u32. ram_content ?st (ucast l)"
  have "bytes_at ?c 500 600 = bytes_at ?c 500 12 @ bytes_at ?c 512 512 @ bytes_at ?c 1024 76"
    using bytes_at_add [of ?c 500 12 588] bytes_at_add [of ?c 512 512 76] by simp
  also have "\<dots> = replicate 12 1 @ replicate 512 2 @ replicate 76 3"
    using bytes_at_slice [of ?c 500 12] bytes_at_slice [of ?c 512 512] bytes_at_slice [of ?c 1024 76] by (simp add: c)
  finally have "bytes_at ?c 500 600 = replicate 12 1 @ replicate 512 2 @ replicate 76 3" .
  then show ?thesis
    using vsource_read_correct [OF ram_io.reliable_io_axioms init v, of 600 "replicate 700 0" 500] by (auto simp: splice_at_def)
qed

section \<open>Past the end of the device\<close>

text \<open>
  The block address is the quotient cut to 32 bits, so that offsets \<open>2 ^ 41\<close> apart are the same block: a request that starts there reads the
  blocks from the first on and succeeds, although no device reaches that far.
\<close>

lemma vsource_offset_wraps:
  "(ucast ((p + 0x20000000000 :: u64) div 512) :: u32) = ucast (p div 512)" if "unat p + 2 ^ 41 < 2 ^ 64"
proof -
  have "unat (p + 0x20000000000) = unat p + 2 ^ 41" using that by (subst unat_add_small) simp_all
  then have "unat (p + 0x20000000000) div 512 = unat p div 512 + 2 ^ 32"
    using div_mult_self1 [of 512 "unat p" "2 ^ 32"] by simp
  then show ?thesis by (simp add: vs_lba)
qed

lemma vsource_read_past_end:
  assumes "ram_valid st" and "0 < ram_block_count st" and "length buf = 512" and "vs_bd c = Some ram_device"
  shows "ra8_io_blockdev_vsource_read (2 ^ 41) 512 (Some c, st, Some buf) = (Inr (), (Some c, st, Some (ram_content st 0)))"
proof -
  have "ram_span st 0 1 = ram_content st 0" using ram_content_slice [OF assms(1), of 0] assms(2) by (simp add: ram_span_def)
  moreover have "length (ram_content st 0) = 512" by (simp add: ram_content_def)
  moreover have "ram_bounds st 0 1" using assms(2) by (simp only: ram_bounds_one)
  ultimately have rd: "ra8_io_blockdev_read (Some ram_device) 0 1 (st, Some buf) = (Inr (), (st, Some (ram_content st 0)))"
    using assms(3) by (simp add: ram_dispatch ram_read_def splice_at_def)
  have wrap: "(0x100000000 :: u32) = 0" by simp
  show ?thesis
    using rd assms(4)
    by (simp add: wrap ra8_io_blockdev_vsource_read_def vsource_segments_def internal_bd_read_head_def internal_bd_read_middle_def
        internal_bd_read_tail_def vc_advance_def bindE_def)
qed

end
