(* ===== verification/Xspi_Blockdev.thy ===== *)
theory Xspi_Blockdev
  imports Block_Device
begin

unbundle bit_operations_syntax

text \<open>
  \<^verbatim>\<open>src/libs/ra8_io/src/ra8_io_blockdev_xspi.c\<close>: NOR flash as a block device. Flash is erased in sectors of 4096 bytes and programmed by
  clearing bits, so that a write of blocks reads the sectors that hold them into a buffer, overlays the blocks,
  erases and programs. The three functions of the flash driver are parameters; the locales state what \<^verbatim>\<open>src/libs/ra8_hal/inc/ra8_xspi.h\<close> and
  the data sheet of NOR flash promise of them.
\<close>

section \<open>The device\<close>

abbreviation (input) k_xspi_sector_bytes :: u32 where "k_xspi_sector_bytes \<equiv> 4096"
abbreviation (input) k_xspi_blocks_per_sector :: u32 where "k_xspi_blocks_per_sector \<equiv> 8"
abbreviation (input) k_xspi_program_bytes :: u32 where "k_xspi_program_bytes \<equiv> 256"
abbreviation (input) k_ra8_xspi_max_xfer :: u32 where "k_ra8_xspi_max_xfer \<equiv> 4096"
abbreviation (input) k_ra8_xspi_instance_count :: u8 where "k_ra8_xspi_instance_count \<equiv> 2"
abbreviation (input) k_ra8_io_block_size_bytes :: u32 where "k_ra8_io_block_size_bytes \<equiv> 512"
abbreviation (input) k_ra8_io_erase_value_ones :: u8 where "k_ra8_io_erase_value_ones \<equiv> 0xFF"

text \<open>
  The flash driver: instance, address and length come first; a read stores into the buffer that is the second part of its state.
\<close>

record 'h xspi_hal =
  ra8_xspi_flash_read :: "u8 \<Rightarrow> u32 \<Rightarrow> u32 \<Rightarrow> ('h \<times> bytes, unit) op"
  ra8_xspi_flash_program :: "u8 \<Rightarrow> u32 \<Rightarrow> bytes \<Rightarrow> u32 \<Rightarrow> ('h, unit) op"
  ra8_xspi_flash_erase_sector :: "u8 \<Rightarrow> u32 \<Rightarrow> ('h, unit) op"

record xspi_state =
  xs_instance :: u8
  xs_base_off :: u32
  xs_block_count :: u32
  xs_read_only :: bool

text \<open>The state behind the device: its own structure, the static sector buffer, the hardware.\<close>

record 'h xspi_world =
  xw_state :: xspi_state
  s_sector :: bytes
  xw_hw :: 'h

definition internal_xspi_bounds :: "xspi_state \<Rightarrow> u32 \<Rightarrow> u32 \<Rightarrow> ra8_err + unit" where
  "internal_xspi_bounds st lba count =
     (if count > xs_block_count st then Inl k_ra8_err_out_of_range
      else if lba > xs_block_count st - count then Inl k_ra8_err_out_of_range
      else Inr ())"

definition xspi_chunk :: "u32 \<Rightarrow> u32 \<Rightarrow> u32" where
  "xspi_chunk len off = (if len - off > k_ra8_xspi_max_xfer then k_ra8_xspi_max_xfer else len - off)"

lemma xspi_chunk_bounds:
  assumes "off < len"
  shows "0 < unat (xspi_chunk len off)" "unat off + unat (xspi_chunk len off) \<le> unat len" "unat (xspi_chunk len off) \<le> 4096"
    "unat (off + xspi_chunk len off) = unat off + unat (xspi_chunk len off)"
proof -
  have sub: "unat (len - off) = unat len - unat off" using assms by (simp add: unat_sub word_less_nat_alt word_le_nat_alt)
  show b: "0 < unat (xspi_chunk len off)" "unat off + unat (xspi_chunk len off) \<le> unat len" "unat (xspi_chunk len off) \<le> 4096"
    using assms sub by (auto simp: xspi_chunk_def word_less_nat_alt)
  show "unat (off + xspi_chunk len off) = unat off + unat (xspi_chunk len off)"
    using b(2) unat_lt [of len] by (intro unat_add_small) simp
qed

lemma xspi_chunk_less: "off < len \<Longrightarrow> unat len - unat (off + xspi_chunk len off) < unat len - unat off"
  using xspi_chunk_bounds [of off len] by linarith

text \<open>The bytes behind a pointer into a buffer, and the buffer after they were overwritten.\<close>

definition at_offset :: "nat \<Rightarrow> ('h \<times> bytes, 'a) op \<Rightarrow> ('h \<times> bytes, 'a) op" where
  "at_offset k f = (\<lambda>(h, buf). case f (h, drop k buf) of (r, (h', b)) \<Rightarrow> (r, (h', take k buf @ b)))"

function read_chunked_loop :: "'h xspi_hal \<Rightarrow> u8 \<Rightarrow> u32 \<Rightarrow> u32 \<Rightarrow> u32 \<Rightarrow> ('h \<times> bytes, unit) op" where
  "read_chunked_loop hal inst addr len off =
     (if off < len then
        bindE (at_offset (unat off) (ra8_xspi_flash_read hal inst (addr + off) (xspi_chunk len off))) (\<lambda>_.
          read_chunked_loop hal inst addr len (off + xspi_chunk len off))
      else returnE ())"
  by pat_completeness auto
termination
  by (relation "measure (\<lambda>(hal, inst, addr, len, off). unat len - unat off)") (simp_all add: xspi_chunk_less)

definition internal_xspi_read_chunked :: "'h xspi_hal \<Rightarrow> u8 \<Rightarrow> u32 \<Rightarrow> u32 \<Rightarrow> ('h \<times> bytes option, unit) op" where
  "internal_xspi_read_chunked hal inst addr len = (\<lambda>(h, buf).
     case buf of None \<Rightarrow> (Inl k_ra8_err_null_ptr, (h, buf))
     | Some b \<Rightarrow> (case read_chunked_loop hal inst addr len 0 (h, b) of (r, (h', b')) \<Rightarrow> (r, (h', Some b'))))"

function program_chunked_loop :: "'h xspi_hal \<Rightarrow> u8 \<Rightarrow> u32 \<Rightarrow> bytes \<Rightarrow> u32 \<Rightarrow> u32 \<Rightarrow> ('h, unit) op" where
  "program_chunked_loop hal inst addr data len off =
     (if off < len then
        bindE (ra8_xspi_flash_program hal inst (addr + off) (drop (unat off) data) (xspi_chunk len off)) (\<lambda>_.
          program_chunked_loop hal inst addr data len (off + xspi_chunk len off))
      else returnE ())"
  by pat_completeness auto
termination
  by (relation "measure (\<lambda>(hal, inst, addr, data, len, off). unat len - unat off)") (simp_all add: xspi_chunk_less)

definition internal_xspi_program_chunked :: "'h xspi_hal \<Rightarrow> u8 \<Rightarrow> u32 \<Rightarrow> bytes option \<Rightarrow> u32 \<Rightarrow> ('h, unit) op" where
  "internal_xspi_program_chunked hal inst addr data len =
     (case data of None \<Rightarrow> throwE k_ra8_err_null_ptr | Some d \<Rightarrow> program_chunked_loop hal inst addr d len 0)"

text \<open>The static buffer and the hardware as the state of a read, the hardware alone as that of the other two.\<close>

definition on_sector :: "('h \<times> bytes option, 'a) op \<Rightarrow> ('h xspi_world, 'a) op" where
  "on_sector f w = (case f (xw_hw w, Some (s_sector w)) of
     (r, (h, b)) \<Rightarrow> (r, w\<lparr>xw_hw := h, s_sector := (case b of None \<Rightarrow> s_sector w | Some x \<Rightarrow> x)\<rparr>))"

definition on_hw :: "('h, 'a) op \<Rightarrow> ('h xspi_world, 'a) op" where
  "on_hw f w = (case f (xw_hw w) of (r, h) \<Rightarrow> (r, w\<lparr>xw_hw := h\<rparr>))"

definition internal_write_one_sector :: "'h xspi_hal \<Rightarrow> u32 \<Rightarrow> u32 \<Rightarrow> u32 \<Rightarrow> bytes option \<Rightarrow> ('h xspi_world, unit) op" where
  "internal_write_one_sector hal sector_lba first_blk n_blocks src =
     (case src of None \<Rightarrow> throwE k_ra8_err_null_ptr
      | Some bytes \<Rightarrow>
          bindE (getE xw_state) (\<lambda>st.
          let sec_addr = xs_base_off st + sector_lba * k_ra8_io_block_size_bytes;
              dst_off = unat first_blk * io_block_bytes;
              n_bytes = unat n_blocks * io_block_bytes
          in bindE (on_sector (internal_xspi_read_chunked hal (xs_instance st) sec_addr k_xspi_sector_bytes)) (\<lambda>_.
             bindE (modifyE (\<lambda>w. w\<lparr>s_sector := splice_at (s_sector w) dst_off (take n_bytes bytes)\<rparr>)) (\<lambda>_.
             bindE (on_hw (ra8_xspi_flash_erase_sector hal (xs_instance st) sec_addr)) (\<lambda>_.
             bindE (getE s_sector) (\<lambda>sector.
               on_hw (internal_xspi_program_chunked hal (xs_instance st) sec_addr (Some sector) k_xspi_sector_bytes)))))))"

definition internal_xspi_read :: "'h xspi_hal \<Rightarrow> bool \<Rightarrow> u32 \<Rightarrow> u32 \<Rightarrow> ('h xspi_world \<times> bytes option, unit) op" where
  "internal_xspi_read hal ctx lba count = (\<lambda>(w, buf).
     if \<not> ctx \<or> buf = None then (Inl k_ra8_err_null_ptr, (w, buf))
     else case internal_xspi_bounds (xw_state w) lba count of Inl b \<Rightarrow> (Inl b, (w, buf))
       | Inr _ \<Rightarrow>
           let addr = xs_base_off (xw_state w) + lba * k_ra8_io_block_size_bytes; len = count * k_ra8_io_block_size_bytes in
           (case internal_xspi_read_chunked hal (xs_instance (xw_state w)) addr len (xw_hw w, buf) of
              (r, (h, b)) \<Rightarrow> (r, (w\<lparr>xw_hw := h\<rparr>, b))))"

text \<open>The blocks of one round of a write: those of the sector that are left.\<close>

definition xspi_round :: "u32 \<Rightarrow> u32 \<Rightarrow> u32 \<Rightarrow> u32" where
  "xspi_round lba count off =
     (let first_blk = (lba + off) mod k_xspi_blocks_per_sector; room = k_xspi_blocks_per_sector - first_blk; left = count - off in
      if left < room then left else room)"

lemma xspi_round_bounds:
  assumes "off < count"
  shows "0 < unat (xspi_round lba count off)" "unat off + unat (xspi_round lba count off) \<le> unat count"
    "unat ((lba + off) mod 8) + unat (xspi_round lba count off) \<le> 8"
    "unat (off + xspi_round lba count off) = unat off + unat (xspi_round lba count off)"
proof -
  have sub: "unat (count - off) = unat count - unat off" using assms by (simp add: unat_sub word_less_nat_alt word_le_nat_alt)
  have m: "unat ((lba + off) mod 8) < 8" by (simp add: unat_mod)
  then have room: "unat (8 - (lba + off) mod 8 :: u32) = 8 - unat ((lba + off) mod 8)"
    by (subst unat_sub) (simp_all add: word_le_nat_alt)
  show b: "0 < unat (xspi_round lba count off)" "unat off + unat (xspi_round lba count off) \<le> unat count"
    "unat ((lba + off) mod 8) + unat (xspi_round lba count off) \<le> 8"
    using assms sub room m by (auto simp: xspi_round_def Let_def word_less_nat_alt)
  show "unat (off + xspi_round lba count off) = unat off + unat (xspi_round lba count off)"
    using b(2) unat_lt [of count] by (intro unat_add_small) simp
qed

lemma xspi_round_less: "off < count \<Longrightarrow> unat count - unat (off + xspi_round lba count off) < unat count - unat off"
  using xspi_round_bounds [of off count lba] by linarith

function xspi_write_loop :: "'h xspi_hal \<Rightarrow> u32 \<Rightarrow> u32 \<Rightarrow> bytes \<Rightarrow> u32 \<Rightarrow> ('h xspi_world, unit) op" where
  "xspi_write_loop hal lba count buf off =
     (if off < count then
        let blk = lba + off; first_blk = blk mod k_xspi_blocks_per_sector; sector_lba = blk - first_blk;
            n_blocks = xspi_round lba count off; src = drop (unat off * io_block_bytes) buf
        in bindE (internal_write_one_sector hal sector_lba first_blk n_blocks (Some src)) (\<lambda>_.
             xspi_write_loop hal lba count buf (off + n_blocks))
      else returnE ())"
  by pat_completeness auto
termination
  by (relation "measure (\<lambda>(hal, lba, count, buf, off). unat count - unat off)") (simp_all add: xspi_round_less)

definition internal_xspi_write :: "'h xspi_hal \<Rightarrow> bool \<Rightarrow> u32 \<Rightarrow> u32 \<Rightarrow> bytes option \<Rightarrow> ('h xspi_world, unit) op" where
  "internal_xspi_write hal ctx lba count buf =
     (if \<not> ctx then throwE k_ra8_err_null_ptr
      else case buf of None \<Rightarrow> throwE k_ra8_err_null_ptr
        | Some src \<Rightarrow>
            bindE (getE xw_state) (\<lambda>st.
              if xs_read_only st then throwE k_ra8_err_not_supported
              else bindE (returnR (internal_xspi_bounds st lba count)) (\<lambda>_. xspi_write_loop hal lba count src 0)))"

text \<open>The loop over the sectors; its fuel is the number of blocks, and a round passes eight of them.\<close>

primrec xspi_erase_loop :: "'h xspi_hal \<Rightarrow> nat \<Rightarrow> u32 \<Rightarrow> u32 \<Rightarrow> ('h xspi_world, unit) op" where
  "xspi_erase_loop hal 0 stop blk = (if blk < stop then throwE out_of_fuel else returnE ())"
| "xspi_erase_loop hal (Suc n) stop blk =
     (if blk < stop then
        bindE (getE xw_state) (\<lambda>st.
        bindE (on_hw (ra8_xspi_flash_erase_sector hal (xs_instance st) (xs_base_off st + blk * k_ra8_io_block_size_bytes))) (\<lambda>_.
          xspi_erase_loop hal n stop (blk + k_xspi_blocks_per_sector)))
      else returnE ())"

definition internal_xspi_erase :: "'h xspi_hal \<Rightarrow> bool \<Rightarrow> u32 \<Rightarrow> u32 \<Rightarrow> ('h xspi_world, unit) op" where
  "internal_xspi_erase hal ctx lba count =
     (if \<not> ctx then throwE k_ra8_err_null_ptr
      else bindE (getE xw_state) (\<lambda>st.
        if xs_read_only st then throwE k_ra8_err_not_supported
        else if lba mod k_xspi_blocks_per_sector \<noteq> 0 then throwE k_ra8_err_invalid_arg
        else if count mod k_xspi_blocks_per_sector \<noteq> 0 then throwE k_ra8_err_invalid_arg
        else bindE (returnR (internal_xspi_bounds st lba count)) (\<lambda>_. xspi_erase_loop hal (unat count) (lba + count) lba)))"

definition internal_xspi_get_caps :: "bool \<Rightarrow> bool \<Rightarrow> ('h xspi_world, io_caps) op" where
  "internal_xspi_get_caps ctx have_out =
     (if \<not> ctx \<or> \<not> have_out then throwE k_ra8_err_null_ptr
      else getE (\<lambda>w. \<lparr>cap_block_count = xs_block_count (xw_state w), cap_erase_unit_blocks = k_xspi_blocks_per_sector,
        cap_program_size_bytes = k_xspi_program_bytes, cap_logical_block_bytes = of_nat io_block_bytes,
        cap_erase_value = k_ra8_io_erase_value_ones, cap_must_erase_before_write = True, cap_read_only = xs_read_only (xw_state w)\<rparr>))"

definition s_xspi_iface :: "'h xspi_hal \<Rightarrow> 'h xspi_world iface" where
  "s_xspi_iface hal = \<lparr>io_read = Some (internal_xspi_read hal), io_write = Some (internal_xspi_write hal), io_erase = Some (internal_xspi_erase hal),
     io_get_caps = Some internal_xspi_get_caps, io_sync = None\<rparr>"

definition xspi_device :: "'h xspi_hal \<Rightarrow> 'h xspi_world device" where
  "xspi_device hal = \<lparr>bd_iface = Some (s_xspi_iface hal), bd_ctx = True\<rparr>"

definition internal_xspi_check_geom :: "u8 \<Rightarrow> u32 \<Rightarrow> u32 \<Rightarrow> ra8_err + unit" where
  "internal_xspi_check_geom inst base_off block_count =
     (if inst \<ge> k_ra8_xspi_instance_count then Inl k_ra8_err_invalid_arg
      else if base_off mod k_xspi_sector_bytes \<noteq> 0 then Inl k_ra8_err_invalid_arg
      else if block_count = 0 then Inl k_ra8_err_invalid_arg
      else if block_count mod k_xspi_blocks_per_sector \<noteq> 0 then Inl k_ra8_err_invalid_arg
      else Inr ())"

text \<open>\<open>bd\<close> and \<open>state\<close> are the structures to fill, null or not; the result is what is stored in them.\<close>

definition ra8_io_blockdev_xspi_init ::
    "'h xspi_hal \<Rightarrow> bool \<Rightarrow> bool \<Rightarrow> u8 \<Rightarrow> u32 \<Rightarrow> u32 \<Rightarrow> bool \<Rightarrow> ra8_err + 'h xspi_world device \<times> xspi_state" where
  "ra8_io_blockdev_xspi_init hal bd state inst base_off block_count read_only =
     (if \<not> bd \<or> \<not> state then Inl k_ra8_err_null_ptr
      else case internal_xspi_check_geom inst base_off block_count of Inl g \<Rightarrow> Inl g
        | Inr _ \<Rightarrow> Inr (xspi_device hal,
            \<lparr>xs_instance = inst, xs_base_off = base_off, xs_block_count = block_count, xs_read_only = read_only\<rparr>))"

section \<open>The contract of the flash\<close>

text \<open>
  \<open>mem h i a\<close> is the byte of flash \<open>i\<close> at address \<open>a\<close>. Inside the window of three address bytes and for the lengths that are
  allowed the calls succeed: a read stores the bytes, programming can only clear bits, an erase sets all bits of the
  sector that holds the address.
\<close>

locale nor_flash =
  fixes hal :: "'h xspi_hal" and mem :: "'h \<Rightarrow> u8 \<Rightarrow> nat \<Rightarrow> u8" and good :: "'h \<Rightarrow> bool"
  assumes flash_read: "good h \<Longrightarrow> i < k_ra8_xspi_instance_count \<Longrightarrow> 0 < n \<Longrightarrow> n \<le> k_ra8_xspi_max_xfer \<Longrightarrow> unat a + unat n \<le> 2 ^ 24 \<Longrightarrow>
      unat n \<le> length buf \<Longrightarrow>
      \<exists>h'. ra8_xspi_flash_read hal i a n (h, buf) = (Inr (), (h', splice_at buf 0 (map (mem h i) [unat a..<unat a + unat n]))) \<and>
        good h' \<and> mem h' = mem h"
    and flash_program: "good h \<Longrightarrow> i < k_ra8_xspi_instance_count \<Longrightarrow> 0 < n \<Longrightarrow> n \<le> k_ra8_xspi_max_xfer \<Longrightarrow> unat a + unat n \<le> 2 ^ 24 \<Longrightarrow>
      unat n \<le> length data \<Longrightarrow>
      \<exists>h'. ra8_xspi_flash_program hal i a data n h = (Inr (), h') \<and> good h' \<and>
        mem h' = (mem h)(i := \<lambda>p. if unat a \<le> p \<and> p < unat a + unat n then mem h i p AND data ! (p - unat a) else mem h i p)"
    and flash_erase: "good h \<Longrightarrow> i < k_ra8_xspi_instance_count \<Longrightarrow> unat a < 2 ^ 24 \<Longrightarrow>
      \<exists>h'. ra8_xspi_flash_erase_sector hal i a h = (Inr (), h') \<and> good h' \<and>
        mem h' = (mem h)(i := \<lambda>p. if p div 4096 = unat a div 4096 then 0xFF else mem h i p)"

section \<open>Reads and writes\<close>

definition xspi_valid :: "('h \<Rightarrow> bool) \<Rightarrow> 'h xspi_world \<Rightarrow> bool" where
  "xspi_valid good w \<longleftrightarrow> (let st = xw_state w in good (xw_hw w) \<and> length (s_sector w) = 4096 \<and> \<not> xs_read_only st \<and>
     xs_instance st < k_ra8_xspi_instance_count \<and> unat (xs_base_off st) mod 4096 = 0 \<and> unat (xs_block_count st) mod 8 = 0 \<and>
     unat (xs_base_off st) + unat (xs_block_count st) * io_block_bytes \<le> 2 ^ 24)"

text \<open>The address of a block in the flash, and the block there.\<close>

definition xspi_addr :: "'h xspi_world \<Rightarrow> nat \<Rightarrow> nat" where
  "xspi_addr w b = unat (xs_base_off (xw_state w)) + b * io_block_bytes"

definition xspi_content :: "('h \<Rightarrow> u8 \<Rightarrow> nat \<Rightarrow> u8) \<Rightarrow> 'h xspi_world \<Rightarrow> u32 \<Rightarrow> bytes" where
  "xspi_content mem w l = map (mem (xw_hw w) (xs_instance (xw_state w))) [xspi_addr w (unat l)..<xspi_addr w (unat l) + io_block_bytes]"

text \<open>The flash with \<open>n\<close> bytes replaced from \<open>a\<close> on.\<close>

definition overlay :: "(nat \<Rightarrow> u8) \<Rightarrow> nat \<Rightarrow> nat \<Rightarrow> (nat \<Rightarrow> u8) \<Rightarrow> nat \<Rightarrow> u8" where
  "overlay m a n f p = (if a \<le> p \<and> p < a + n then f (p - a) else m p)"

lemma overlay_join:
  "overlay (overlay m a n f) (a + n) k (\<lambda>j. f (n + j)) = overlay m a (n + k) f"
  by (auto simp: overlay_def fun_eq_iff)

lemma overlay_0 [simp]: "overlay m a 0 f = m"
  by (auto simp: overlay_def fun_eq_iff)

lemma xspi_bounds_nat:
  "internal_xspi_bounds st lba count = (if unat lba + unat count \<le> unat (xs_block_count st) then Inr () else Inl k_ra8_err_out_of_range)"
  by (auto simp: internal_xspi_bounds_def word_less_nat_alt unat_sub_if_size not_less)

lemma xspi_addr_word:
  assumes "xspi_valid good w" and "unat b < unat (xs_block_count (xw_state w))"
  shows "unat (xs_base_off (xw_state w) + b * 512) = xspi_addr w (unat b)" "xspi_addr w (unat b) + 512 \<le> 2 ^ 24"
proof -
  have "Suc (unat b) * 512 \<le> unat (xs_block_count (xw_state w)) * 512" using assms(2) by (intro mult_le_mono1) simp
  then have le: "unat (xs_base_off (xw_state w)) + unat b * 512 + 512 \<le> 2 ^ 24" using assms(1) by (simp add: xspi_valid_def Let_def)
  then show "xspi_addr w (unat b) + 512 \<le> 2 ^ 24" by (simp add: xspi_addr_def)
  have m: "unat (b * 512) = unat b * 512" using le by (simp add: unat_word_ariths)
  show "unat (xs_base_off (xw_state w) + b * 512) = xspi_addr w (unat b)"
    using le by (subst unat_add_small) (simp_all add: m xspi_addr_def)
qed

lemma xspi_addr_aligned:
  assumes "xspi_valid good w" and "b mod 8 = 0"
  shows "xspi_addr w b mod 4096 = 0"
proof -
  obtain q where "b = q * 8" using assms(2) by (metis mod_0_imp_dvd dvd_div_mult_self)
  moreover obtain r where "unat (xs_base_off (xw_state w)) = r * 4096"
    using assms(1) by (metis mod_0_imp_dvd dvd_div_mult_self xspi_valid_def)
  ultimately have "xspi_addr w b = (r + q) * 4096" by (simp add: xspi_addr_def algebra_simps)
  then show ?thesis by simp
qed

lemma next_eighth:
  assumes "(a :: nat) mod 8 = 0" and "b mod 8 = 0" and "a < b"
  shows "a + 8 \<le> b"
proof -
  obtain q r where q: "a = q * 8" "b = r * 8" using assms(1,2) by (metis mod_0_imp_dvd dvd_div_mult_self)
  then have "Suc q * 8 \<le> r * 8" using assms(3) by (intro mult_le_mono1) simp
  then show ?thesis using q by simp
qed

text \<open>The sector of a block.\<close>

lemma sector_of_block:
  fixes b :: u32
  assumes "xspi_valid good w" and "unat b < unat (xs_block_count (xw_state w))"
  shows "unat (b - b mod 8) + unat (b mod 8) = unat b" "unat (b - b mod 8) mod 8 = 0" "unat (b - b mod 8) + 8 \<le> unat (xs_block_count (xw_state w))"
proof -
  have fb: "unat (b mod 8) = unat b mod 8" by (simp add: unat_mod)
  then have s: "unat (b - b mod 8) = unat b - unat b mod 8" by (simp add: unat_sub word_le_nat_alt)
  then show "unat (b - b mod 8) + unat (b mod 8) = unat b" by (simp add: fb)
  show m: "unat (b - b mod 8) mod 8 = 0" unfolding s by (simp add: minus_mod_eq_mult_div)
  show "unat (b - b mod 8) + 8 \<le> unat (xs_block_count (xw_state w))"
    using assms by (intro next_eighth [OF m]) (simp_all add: s xspi_valid_def Let_def)
qed

lemma same_sector: "(a :: nat) mod 4096 = 0 \<Longrightarrow> p div 4096 = a div 4096 \<longleftrightarrow> a \<le> p \<and> p < a + 4096"
proof -
  assume "a mod 4096 = 0"
  then obtain q where q: "a = q * 4096" by (metis mod_0_imp_dvd dvd_div_mult_self)
  have "p div 4096 = q \<longleftrightarrow> 4096 * q \<le> p \<and> p < 4096 * Suc q"
    using div_nat_eqI [of 4096 q p] dividend_less_times_div [of 4096 p] by (auto simp: ac_simps)
  then show ?thesis by (simp add: q ac_simps)
qed

lemma xspi_blocks_span:
  assumes "unat lba + n < 2 ^ 32"
  shows "blocks_from (xspi_content mem w) lba n =
    map (mem (xw_hw w) (xs_instance (xw_state w))) [xspi_addr w (unat lba)..<xspi_addr w (unat lba) + n * 512]"
  using assms
proof (induction n)
  case (Suc n)
  let ?A = "xspi_addr w (unat lba)"
  have "unat (lba + of_nat n) = unat lba + n" using Suc.prems by (subst unat_add_small) (simp_all add: unat_of_nat_small)
  then have "xspi_content mem w (lba + of_nat n) = map (mem (xw_hw w) (xs_instance (xw_state w))) [?A + n * 512..<?A + n * 512 + 512]"
    by (simp add: xspi_content_def xspi_addr_def add_mult_distrib add.assoc)
  moreover have "[?A..<?A + Suc n * 512] = [?A..<?A + n * 512] @ [?A + n * 512..<?A + n * 512 + 512]"
    using upt_add_eq_append [of ?A "?A + n * 512" 512] by (simp add: algebra_simps)
  ultimately show ?case using Suc by (simp add: blocks_from_def)
qed (simp add: blocks_from_def)

lemmas [simp del] = read_chunked_loop.simps program_chunked_loop.simps xspi_write_loop.simps

context nor_flash
begin

lemma read_chunked_ok:
  assumes "good h" and "i < 2" and "unat addr + unat len \<le> 2 ^ 24" and "unat off \<le> unat len" and "unat len \<le> length buf"
  shows "\<exists>h'. read_chunked_loop hal i addr len off (h, buf) =
      (Inr (), (h', splice_at buf (unat off) (map (mem h i) [unat addr + unat off..<unat addr + unat len]))) \<and> good h' \<and> mem h' = mem h"
  using assms
proof (induction "unat len - unat off" arbitrary: off h buf rule: less_induct)
  case less
  show ?case
  proof (cases "off < len")
    case False
    then have "len = off" using less.prems(4) by (simp add: not_less word_le_nat_alt word_unat_eq_iff)
    then show ?thesis using less.prems(1) by (subst read_chunked_loop.simps) (simp add: splice_at_def)
  next
    case True
    define n where "n = xspi_chunk len off"
    note n = xspi_chunk_bounds [OF True, folded n_def]
    have a: "unat (addr + off) = unat addr + unat off" using less.prems(3) n(1,2) by (intro unat_add_small) simp
    have room: "unat n \<le> length (drop (unat off) buf)" using n(2) less.prems(5) by simp
    define xs where "xs = map (mem h i) [unat addr + unat off..<unat addr + unat off + unat n]"
    have pos: "0 < n" using n(1) by (simp add: word_less_nat_alt)
    have fits: "n \<le> 4096" "unat (addr + off) + unat n \<le> 2 ^ 24" using n less.prems(3) by (simp_all add: a word_le_nat_alt)
    obtain h1 where rd: "ra8_xspi_flash_read hal i (addr + off) n (h, drop (unat off) buf) = (Inr (), (h1, splice_at (drop (unat off) buf) 0 xs))"
        "good h1" "mem h1 = mem h"
      using flash_read [OF less.prems(1,2) pos fits room] by (auto simp: a xs_def)
    have lx: "length xs = unat n" by (simp add: xs_def)
    have lb: "length (splice_at buf (unat off) xs) = length buf" using n(2) less.prems(5) lx by simp
    have off: "unat (off + n) = unat off + unat n" using n(4) .
    have "\<exists>h'. read_chunked_loop hal i addr len (off + n) (h1, splice_at buf (unat off) xs) =
      (Inr (), (h', splice_at (splice_at buf (unat off) xs) (unat (off + n)) (map (mem h1 i) [unat addr + unat (off + n)..<unat addr + unat len]))) \<and>
        good h' \<and> mem h' = mem h1"
      using less.hyps [OF xspi_chunk_less [OF True, folded n_def] rd(2) less.prems(2,3)] n(2) lb less.prems(5) by (simp add: off)
    moreover have "splice_at (splice_at buf (unat off) xs) (unat (off + n)) (map (mem h1 i) [unat addr + unat (off + n)..<unat addr + unat len]) =
        splice_at buf (unat off) (map (mem h i) [unat addr + unat off..<unat addr + unat len])"
    proof -
      let ?ys = "map (mem h i) [unat addr + unat (off + n)..<unat addr + unat len]"
      have "splice_at (splice_at buf (unat off) xs) (unat off + length xs) ?ys = splice_at buf (unat off) (xs @ ?ys)"
        using n(2) less.prems(5) lx by (intro splice_at_join) (simp add: off)
      moreover have "xs @ ?ys = map (mem h i) [unat addr + unat off..<unat addr + unat len]"
        using n(2) upt_add_eq_append [of "unat addr + unat off" "unat addr + unat off + unat n" "unat len - (unat off + unat n)"]
        by (simp add: xs_def off add.assoc)
      ultimately show ?thesis by (simp add: lx off rd(3))
    qed
    moreover have "read_chunked_loop hal i addr len off (h, buf) = read_chunked_loop hal i addr len (off + n) (h1, splice_at buf (unat off) xs)"
      using True rd(1) by (subst read_chunked_loop.simps) (simp add: n_def [symmetric] bindE_def at_offset_def splice_at_drop)
    ultimately show ?thesis using rd(3) by simp
  qed
qed

lemma program_chunked_ok:
  assumes "good h" and "i < 2" and "unat addr + unat len \<le> 2 ^ 24" and "unat off \<le> unat len" and "unat len \<le> length data"
  shows "\<exists>h'. program_chunked_loop hal i addr data len off h = (Inr (), h') \<and> good h' \<and>
    mem h' = (mem h)(i := \<lambda>p. if unat addr + unat off \<le> p \<and> p < unat addr + unat len then mem h i p AND data ! (p - unat addr) else mem h i p)"
  using assms
proof (induction "unat len - unat off" arbitrary: off h rule: less_induct)
  case less
  show ?case
  proof (cases "off < len")
    case False
    then have "len = off" using less.prems(4) by (simp add: not_less word_le_nat_alt word_unat_eq_iff)
    then show ?thesis using less.prems(1) by (subst program_chunked_loop.simps) (auto simp: fun_eq_iff)
  next
    case True
    define n where "n = xspi_chunk len off"
    note n = xspi_chunk_bounds [OF True, folded n_def]
    have a: "unat (addr + off) = unat addr + unat off" using less.prems(3) n(1,2) by (intro unat_add_small) simp
    have pos: "0 < n" using n(1) by (simp add: word_less_nat_alt)
    have fits: "n \<le> 4096" "unat (addr + off) + unat n \<le> 2 ^ 24" using n less.prems(3) by (simp_all add: a word_le_nat_alt)
    have room: "unat n \<le> length (drop (unat off) data)" using n(2) less.prems(5) by simp
    obtain h1 where pr: "ra8_xspi_flash_program hal i (addr + off) (drop (unat off) data) n h = (Inr (), h1)" "good h1"
        "mem h1 = (mem h)(i := \<lambda>p. if unat (addr + off) \<le> p \<and> p < unat (addr + off) + unat n
           then mem h i p AND drop (unat off) data ! (p - unat (addr + off)) else mem h i p)"
      using flash_program [OF less.prems(1,2) pos fits room] by blast
    have off: "unat (off + n) = unat off + unat n" using n(4) .
    have le: "unat (off + n) \<le> unat len" using n(2) by (simp add: off)
    obtain h' where rest: "program_chunked_loop hal i addr data len (off + n) h1 = (Inr (), h')" "good h'"
        "mem h' = (mem h1)(i := \<lambda>p. if unat addr + unat (off + n) \<le> p \<and> p < unat addr + unat len then mem h1 i p AND data ! (p - unat addr) else mem h1 i p)"
      using less.hyps [OF xspi_chunk_less [OF True, folded n_def] pr(2) less.prems(2,3) le less.prems(5)] by blast
    have d: "drop (unat off) data ! (p - (unat addr + unat off)) = data ! (p - unat addr)" if "unat addr + unat off \<le> p" "p < unat addr + unat len" for p
      using that less.prems(5) by (simp add: algebra_simps)
    have "mem h' = (mem h)(i := \<lambda>p. if unat addr + unat off \<le> p \<and> p < unat addr + unat len then mem h i p AND data ! (p - unat addr) else mem h i p)"
      using n(2) d by (auto simp: rest(3) pr(3) a off fun_eq_iff)
    moreover have "program_chunked_loop hal i addr data len off h = (Inr (), h')"
      using True pr(1) rest(1) by (subst program_chunked_loop.simps) (simp add: n_def [symmetric] bindE_def)
    ultimately show ?thesis using rest(2) by simp
  qed
qed

lemma write_one_sector_ok:
  assumes v: "xspi_valid good w" and s: "unat s mod 8 = 0" "unat s + 8 \<le> unat (xs_block_count (xw_state w))"
    and b: "unat fb + unat nb \<le> 8" "unat nb * 512 \<le> length src"
  shows "\<exists>w'. internal_write_one_sector hal s fb nb (Some src) w = (Inr (), w') \<and> xspi_valid good w' \<and> xw_state w' = xw_state w \<and>
    mem (xw_hw w') = (mem (xw_hw w))(xs_instance (xw_state w) :=
      overlay (mem (xw_hw w) (xs_instance (xw_state w))) (xspi_addr w (unat s + unat fb)) (unat nb * 512) (\<lambda>k. src ! k))"
proof -
  define i where "i = xs_instance (xw_state w)"
  define m where "m = mem (xw_hw w) i"
  define sa where "sa = xs_base_off (xw_state w) + s * 512"
  define A where "A = xspi_addr w (unat s)"
  have g: "good (xw_hw w)" "length (s_sector w) = 4096" "i < 2" using v by (simp_all add: xspi_valid_def Let_def i_def)
  have sa: "unat sa = A" using xspi_addr_word(1) [OF v, of s] s(2) by (simp add: sa_def A_def)
  have "(unat s + 8) * 512 \<le> unat (xs_block_count (xw_state w)) * 512" using s(2) by (rule mult_le_mono1)
  then have top: "A + 4096 \<le> 2 ^ 24" using v by (simp add: A_def xspi_addr_def xspi_valid_def Let_def algebra_simps)
  have al: "A mod 4096 = 0" unfolding A_def by (rule xspi_addr_aligned [OF v s(1)])
  define old where "old = map m [A..<A + 4096]"
  obtain h1 where rd: "read_chunked_loop hal i sa 4096 0 (xw_hw w, s_sector w) = (Inr (), (h1, old))" "good h1" "mem h1 = mem (xw_hw w)"
    using read_chunked_ok [OF g(1,3), of sa 4096 0 "s_sector w"] g(2) top by (auto simp: sa old_def m_def splice_at_def)
  define new where "new = splice_at old (unat fb * 512) (take (unat nb * 512) src)"
  have fb: "unat fb * 512 + unat nb * 512 \<le> 4096" using mult_le_mono1 [OF b(1), of 512] by (simp add: add_mult_distrib)
  have new: "length new = 4096" "\<And>k. k < 4096 \<Longrightarrow> new ! k = (if unat fb * 512 \<le> k \<and> k < unat fb * 512 + unat nb * 512 then src ! (k - unat fb * 512) else m (A + k))"
    using fb b(2) by (auto simp: new_def old_def nth_splice_at)
  obtain h2 where er: "ra8_xspi_flash_erase_sector hal i sa h1 = (Inr (), h2)" "good h2"
      "mem h2 = (mem h1)(i := \<lambda>p. if p div 4096 = unat sa div 4096 then 0xFF else mem h1 i p)"
    using flash_erase [OF rd(2) g(3), of sa] top by (auto simp: sa)
  obtain h3 where pr: "program_chunked_loop hal i sa new 4096 0 h2 = (Inr (), h3)" "good h3"
      "mem h3 = (mem h2)(i := \<lambda>p. if A \<le> p \<and> p < A + 4096 then mem h2 i p AND new ! (p - A) else mem h2 i p)"
    using program_chunked_ok [OF er(2) g(3), of sa 4096 0 new, unfolded sa] top new(1) by auto
  have A2: "xspi_addr w (unat s + unat fb) = A + unat fb * 512" by (simp add: A_def xspi_addr_def algebra_simps)
  have m3: "mem h3 = (mem (xw_hw w))(i := overlay m (A + unat fb * 512) (unat nb * 512) (\<lambda>k. src ! k))"
  proof -
    have "mem h3 i p = overlay m (A + unat fb * 512) (unat nb * 512) (\<lambda>k. src ! k) p" for p
    proof (cases "A \<le> p \<and> p < A + 4096")
      case True
      have "mem h2 i p = - 1" using True by (simp add: er(3) sa same_sector [OF al])
      then have "mem h3 i p = new ! (p - A)" using True by (simp add: pr(3))
      then show ?thesis using True new(2) [of "p - A"] by (auto simp: overlay_def)
    next
      case False
      then show ?thesis using fb by (auto simp: pr(3) er(3) sa same_sector [OF al] overlay_def rd(3) m_def)
    qed
    then show ?thesis by (auto simp: fun_eq_iff pr(3) er(3) rd(3))
  qed
  have run: "internal_write_one_sector hal s fb nb (Some src) w = (Inr (), w\<lparr>xw_hw := h3, s_sector := new\<rparr>)"
    using rd(1) er(1) pr(1)
    by (simp add: internal_write_one_sector_def Let_def bindE_def i_def [symmetric] sa_def [symmetric] on_sector_def on_hw_def
        internal_xspi_read_chunked_def internal_xspi_program_chunked_def new_def [symmetric])
  have "xspi_valid good (w\<lparr>xw_hw := h3, s_sector := new\<rparr>)" using v pr(2) new(1) by (simp add: xspi_valid_def Let_def)
  then show ?thesis using run m3 by (simp add: A2 i_def m_def)
qed

lemma xspi_write_ok:
  assumes "xspi_valid good w" and "unat lba + unat count \<le> unat (xs_block_count (xw_state w))"
    and "unat off \<le> unat count" and "unat count * 512 \<le> length buf"
  shows "\<exists>w'. xspi_write_loop hal lba count buf off w = (Inr (), w') \<and> xspi_valid good w' \<and> xw_state w' = xw_state w \<and>
    mem (xw_hw w') = (mem (xw_hw w))(xs_instance (xw_state w) := overlay (mem (xw_hw w) (xs_instance (xw_state w)))
      (xspi_addr w (unat lba + unat off)) ((unat count - unat off) * 512) (\<lambda>k. buf ! (unat off * 512 + k)))"
  using assms
proof (induction "unat count - unat off" arbitrary: off w rule: less_induct)
  case less
  show ?case
  proof (cases "off < count")
    case False
    then have "count = off" using less.prems(3) by (simp add: not_less word_le_nat_alt word_unat_eq_iff)
    then show ?thesis using less.prems(1) by (subst xspi_write_loop.simps) simp
  next
    case True
    define n where "n = xspi_round lba count off"
    define fb where "fb = (lba + off) mod 8"
    define s where "s = lba + off - fb"
    note n = xspi_round_bounds [OF True, of lba, folded n_def fb_def]
    let ?N = "unat (xs_block_count (xw_state w))" and ?i = "xs_instance (xw_state w)"
    have lt: "unat lba + unat off < ?N" using True less.prems(2) by (simp add: word_less_nat_alt)
    have blk: "unat (lba + off) = unat lba + unat off"
      using lt unat_lt [of "xs_block_count (xw_state w)"] by (intro unat_add_small) simp
    note s = sector_of_block [OF less.prems(1), of "lba + off", unfolded blk, OF lt, folded fb_def, folded s_def]
    have len: "unat n * 512 \<le> length (drop (unat off * 512) buf)"
      using mult_le_mono1 [OF n(2), of 512] less.prems(4) by (simp add: add_mult_distrib)
    obtain w1 where wr: "internal_write_one_sector hal s fb n (Some (drop (unat off * 512) buf)) w = (Inr (), w1)" "xspi_valid good w1" "xw_state w1 = xw_state w"
        "mem (xw_hw w1) = (mem (xw_hw w))(?i := overlay (mem (xw_hw w) ?i) (xspi_addr w (unat s + unat fb)) (unat n * 512) (\<lambda>k. drop (unat off * 512) buf ! k))"
      using write_one_sector_ok [OF less.prems(1) s(2,3) n(3) len] by blast
    have off: "unat (off + n) = unat off + unat n" using n(4) .
    have "unat (off + n) \<le> unat count" using n(2) by (simp add: off)
    then obtain w' where rest: "xspi_write_loop hal lba count buf (off + n) w1 = (Inr (), w')" "xspi_valid good w'" "xw_state w' = xw_state w1"
        "mem (xw_hw w') = (mem (xw_hw w1))(xs_instance (xw_state w1) := overlay (mem (xw_hw w1) (xs_instance (xw_state w1)))
          (xspi_addr w1 (unat lba + unat (off + n))) ((unat count - unat (off + n)) * 512) (\<lambda>k. buf ! (unat (off + n) * 512 + k)))"
      using less.hyps [OF xspi_round_less [OF True, of lba, folded n_def] wr(2)] less.prems(2,4) wr(3) by auto
    let ?A = "xspi_addr w (unat lba + unat off)" and ?f = "\<lambda>k. buf ! (unat off * 512 + k)" and ?m = "mem (xw_hw w) ?i"
    have a: "xspi_addr w (unat s + unat fb) = ?A" "xspi_addr w1 (unat lba + unat (off + n)) = ?A + unat n * 512"
      by (simp_all add: s(1) xspi_addr_def wr(3) off add_mult_distrib)
    have k: "unat n * 512 + (unat count - unat (off + n)) * 512 = (unat count - unat off) * 512"
      using n(2) by (simp add: off diff_mult_distrib add_mult_distrib)
    have d: "drop (unat off * 512) buf ! j = ?f j" for j using less.prems(3,4) by (simp add: mult_le_mono1 order_trans [of _ "unat count * 512"])
    have "mem (xw_hw w') = (mem (xw_hw w))(?i := overlay (overlay ?m ?A (unat n * 512) ?f) (?A + unat n * 512)
        ((unat count - unat (off + n)) * 512) (\<lambda>j. ?f (unat n * 512 + j)))"
      by (simp add: rest(4) wr(3,4) a d) (simp add: off add_mult_distrib add.assoc)
    also have "overlay (overlay ?m ?A (unat n * 512) ?f) (?A + unat n * 512) ((unat count - unat (off + n)) * 512) (\<lambda>j. ?f (unat n * 512 + j)) =
        overlay ?m ?A ((unat count - unat off) * 512) ?f"
      unfolding k [symmetric] by (rule overlay_join)
    finally have "mem (xw_hw w') = (mem (xw_hw w))(?i := overlay ?m ?A ((unat count - unat off) * 512) ?f)" .
    moreover have "xspi_write_loop hal lba count buf off w = (Inr (), w')"
      using True wr(1) rest(1)
      by (subst xspi_write_loop.simps) (simp add: Let_def fb_def [symmetric] s_def [symmetric] n_def [symmetric] bindE_def)
    moreover have "xw_state w' = xw_state w" using rest(3) wr(3) by simp
    ultimately show ?thesis using rest(2) by blast
  qed
qed

lemma xspi_erase_ok:
  assumes "xspi_valid good w" and "unat blk mod 8 = 0" and "unat stop mod 8 = 0" and "unat blk \<le> unat stop"
    and "unat stop \<le> unat (xs_block_count (xw_state w))" and "unat stop - unat blk \<le> n"
  shows "\<exists>w'. xspi_erase_loop hal n stop blk w = (Inr (), w') \<and> xspi_valid good w' \<and> xw_state w' = xw_state w \<and>
    mem (xw_hw w') = (mem (xw_hw w))(xs_instance (xw_state w) := overlay (mem (xw_hw w) (xs_instance (xw_state w)))
      (xspi_addr w (unat blk)) ((unat stop - unat blk) * 512) (\<lambda>k. 0xFF))"
  using assms
proof (induction n arbitrary: blk w)
  case 0
  then show ?case by (simp add: word_less_nat_alt)
next
  case (Suc n)
  show ?case
  proof (cases "blk < stop")
    case False
    then show ?thesis using Suc.prems(1,4) by (simp add: word_less_nat_alt)
  next
    case True
    let ?i = "xs_instance (xw_state w)" and ?A = "xspi_addr w (unat blk)"
    have st: "unat blk + 8 \<le> unat stop" using next_eighth [OF Suc.prems(2,3)] True by (simp add: word_less_nat_alt)
    then have b8: "unat (blk + 8) = unat blk + 8" using unat_lt [of stop] by (subst unat_add_small) simp_all
    have in_dev: "unat blk < unat (xs_block_count (xw_state w))" using st Suc.prems(5) by simp
    note a = xspi_addr_word [OF Suc.prems(1) in_dev]
    have g: "good (xw_hw w)" "?i < 2" using Suc.prems(1) by (simp_all add: xspi_valid_def Let_def)
    have al: "?A mod 4096 = 0" by (rule xspi_addr_aligned [OF Suc.prems(1,2)])
    obtain h1 where er: "ra8_xspi_flash_erase_sector hal ?i (xs_base_off (xw_state w) + blk * 512) (xw_hw w) = (Inr (), h1)" "good h1"
        "mem h1 = (mem (xw_hw w))(?i := \<lambda>p. if p div 4096 = ?A div 4096 then 0xFF else mem (xw_hw w) ?i p)"
      using flash_erase [OF g(1,2), of "xs_base_off (xw_state w) + blk * 512", unfolded a(1)] a(2) by auto
    have m1: "mem h1 = (mem (xw_hw w))(?i := overlay (mem (xw_hw w) ?i) ?A (8 * 512) (\<lambda>k. 0xFF))"
      by (simp add: er(3) same_sector [OF al] overlay_def fun_eq_iff)
    define w1 where "w1 = w\<lparr>xw_hw := h1\<rparr>"
    have w1: "xspi_valid good w1" "xw_state w1 = xw_state w" "xw_hw w1 = h1"
      using Suc.prems(1) er(2) by (simp_all add: w1_def xspi_valid_def Let_def)
    have pre: "unat (blk + 8) mod 8 = 0" "unat stop mod 8 = 0" "unat (blk + 8) \<le> unat stop"
        "unat stop \<le> unat (xs_block_count (xw_state w1))" "unat stop - unat (blk + 8) \<le> n"
      using Suc.prems(2,3,5,6) st by (simp_all add: b8 w1(2))
    obtain w' where rest: "xspi_erase_loop hal n stop (blk + 8) w1 = (Inr (), w')" "xspi_valid good w'" "xw_state w' = xw_state w1"
        "mem (xw_hw w') = (mem (xw_hw w1))(xs_instance (xw_state w1) := overlay (mem (xw_hw w1) (xs_instance (xw_state w1)))
          (xspi_addr w1 (unat (blk + 8))) ((unat stop - unat (blk + 8)) * 512) (\<lambda>k. 0xFF))"
      using Suc.IH [OF w1(1) pre] by blast
    have a1: "xspi_addr w1 (unat (blk + 8)) = ?A + 8 * 512" by (simp add: xspi_addr_def w1(2) b8)
    have k: "8 * 512 + (unat stop - unat (blk + 8)) * 512 = (unat stop - unat blk) * 512" using st by (simp add: b8 diff_mult_distrib)
    have "mem (xw_hw w') = (mem (xw_hw w))(?i := overlay (overlay (mem (xw_hw w) ?i) ?A (8 * 512) (\<lambda>k. 0xFF)) (?A + 8 * 512)
        ((unat stop - unat (blk + 8)) * 512) (\<lambda>k. 0xFF))"
      by (simp only: rest(4) w1 m1 a1 fun_upd_same fun_upd_upd)
    then have "mem (xw_hw w') = (mem (xw_hw w))(?i := overlay (mem (xw_hw w) ?i) ?A ((unat stop - unat blk) * 512) (\<lambda>k. 0xFF))"
      by (simp only: overlay_join [where f = "\<lambda>k. 0xFF"] k)
    moreover have "xspi_erase_loop hal (Suc n) stop blk w = (Inr (), w')"
      using True er(1) rest(1) by (simp add: bindE_def on_hw_def w1_def)
    moreover have "xw_state w' = xw_state w" using rest(3) w1(2) by simp
    ultimately show ?thesis using rest(2) by blast
  qed
qed

lemma xspi_read_ok:
  assumes v: "xspi_valid good w" and b: "unat lba + unat count \<le> unat (xs_block_count (xw_state w))" and len: "unat count * 512 \<le> length buf"
  shows "\<exists>h'. internal_xspi_read hal True lba count (w, Some buf) =
      (Inr (), (w\<lparr>xw_hw := h'\<rparr>, Some (splice_at buf 0 (blocks_from (xspi_content mem w) lba (unat count))))) \<and> good h' \<and> mem h' = mem (xw_hw w)"
proof (cases "count = 0")
  case True
  then show ?thesis
    using v b by (simp add: internal_xspi_read_def xspi_bounds_nat Let_def internal_xspi_read_chunked_def read_chunked_loop.simps
        blocks_from_def splice_at_def xspi_valid_def exI [of _ "xw_hw w"])
next
  case False
  define i where "i = xs_instance (xw_state w)"
  define A where "A = xspi_addr w (unat lba)"
  define a where "a = xs_base_off (xw_state w) + lba * 512"
  have lba: "unat lba < unat (xs_block_count (xw_state w))" using b False unat_gt_0 [of count] by linarith
  have a: "unat a = A" using xspi_addr_word(1) [OF v lba] by (simp add: a_def A_def)
  have g: "good (xw_hw w)" "i < 2" using v by (simp_all add: xspi_valid_def Let_def i_def)
  have top: "A + unat count * 512 \<le> 2 ^ 24"
    using mult_le_mono1 [OF b, of 512] v by (simp add: A_def xspi_addr_def xspi_valid_def Let_def add_mult_distrib)
  then have c: "unat (count * 512) = unat count * 512" by (simp add: unat_word_ariths)
  have data: "blocks_from (xspi_content mem w) lba (unat count) = map (mem (xw_hw w) i) [A..<A + unat count * 512]"
    unfolding i_def A_def using b unat_lt [of "xs_block_count (xw_state w)"] by (intro xspi_blocks_span) simp
  obtain h' where "read_chunked_loop hal i a (count * 512) 0 (xw_hw w, buf) = (Inr (), (h', splice_at buf 0 (map (mem (xw_hw w) i) [A..<A + unat count * 512])))"
      "good h'" "mem h' = mem (xw_hw w)"
    using read_chunked_ok [OF g, of a "count * 512" 0 buf, unfolded a c] top len by auto
  then show ?thesis
    using b by (intro exI [of _ h'])
      (simp add: internal_xspi_read_def xspi_bounds_nat Let_def internal_xspi_read_chunked_def i_def [symmetric] a_def [symmetric] data)
qed

lemma xspi_content_overlay:
  assumes "mem (xw_hw w') = (mem (xw_hw w))(xs_instance (xw_state w) := overlay (mem (xw_hw w) (xs_instance (xw_state w))) (xspi_addr w b) n f)"
    and "xw_state w' = xw_state w" and "xspi_addr w b + n \<le> xspi_addr w (unat l) \<or> unat l < b"
  shows "xspi_content mem w' l = xspi_content mem w l"
proof -
  have "xspi_addr w (unat l) + 512 \<le> xspi_addr w b" if "unat l < b"
    using mult_le_mono1 [of "Suc (unat l)" b 512] that by (simp add: xspi_addr_def)
  then show ?thesis
    using assms(3) by (auto simp: xspi_content_def assms(1,2) overlay_def xspi_addr_def)
qed

lemma xspi_device_dispatch:
  "ra8_io_blockdev_read (Some (xspi_device hal)) lba count (w, Some buf) = internal_xspi_read hal True lba count (w, Some buf)"
  "ra8_io_blockdev_write (Some (xspi_device hal)) lba count (Some src) = internal_xspi_write hal True lba count (Some src)"
  "ra8_io_blockdev_erase (Some (xspi_device hal)) lba count = internal_xspi_erase hal True lba count"
  by (simp_all add: ra8_io_blockdev_read_def ra8_io_blockdev_write_def ra8_io_blockdev_erase_def validate_def xspi_device_def s_xspi_iface_def
      bindE_def returnR_def fun_eq_iff)

lemma xspi_write_one:
  assumes v: "xspi_valid good w" and len: "length buf = 512" and "unat lba < unat (xs_block_count (xw_state w))"
  shows "\<exists>w'. internal_xspi_write hal True lba 1 (Some buf) w = (Inr (), w') \<and> xspi_valid good w' \<and> xw_state w' = xw_state w \<and>
    xspi_content mem w' = (xspi_content mem w)(lba := buf)"
proof -
  let ?i = "xs_instance (xw_state w)"
  obtain w' where w': "xspi_write_loop hal lba 1 buf 0 w = (Inr (), w')" "xspi_valid good w'" "xw_state w' = xw_state w"
      "mem (xw_hw w') = (mem (xw_hw w))(?i := overlay (mem (xw_hw w) ?i) (xspi_addr w (unat lba)) 512 (\<lambda>k. buf ! k))"
    using xspi_write_ok [OF v, of lba 1 0 buf] assms(2,3) by auto
  have "xspi_content mem w' l = ((xspi_content mem w)(lba := buf)) l" for l
  proof (cases "l = lba")
    case True
    then show ?thesis using len by (auto simp: xspi_content_def w'(3,4) overlay_def xspi_addr_def intro!: nth_equalityI)
  next
    case False
    then have "unat lba < unat l \<or> unat l < unat lba" by (metis linorder_neqE_nat word_unat_eq_iff)
    then have "xspi_addr w (unat lba) + 512 \<le> xspi_addr w (unat l) \<or> unat l < unat lba"
      using mult_le_mono1 [of "Suc (unat lba)" "unat l" 512] by (auto simp: xspi_addr_def)
    then show ?thesis using xspi_content_overlay [OF w'(4,3)] False by simp
  qed
  moreover have "internal_xspi_write hal True lba 1 (Some buf) w = (Inr (), w')"
    using w'(1) v assms(3) by (simp add: internal_xspi_write_def bindE_def returnR_def xspi_bounds_nat xspi_valid_def Let_def)
  ultimately show ?thesis using w'(2,3) by blast
qed

lemma xspi_erase_run:
  assumes v: "xspi_valid good w" and run: "internal_xspi_erase hal True lba count w = (r, w')"
  shows "xspi_valid good w' \<and> (isl r \<longrightarrow> w' = w) \<and> (r = Inr () \<longrightarrow> unat lba + unat count < 2 ^ 32 \<and>
    (\<forall>l. unat l < unat lba \<or> unat lba + unat count \<le> unat l \<longrightarrow> xspi_content mem w' l = xspi_content mem w l))"
proof (cases "lba mod 8 = 0 \<and> count mod 8 = 0 \<and> unat lba + unat count \<le> unat (xs_block_count (xw_state w))")
  case False
  then show ?thesis using run v by (auto simp: internal_xspi_erase_def bindE_def returnR_def xspi_bounds_nat split: if_splits)
next
  case True
  have m: "unat lba mod 8 = 0" "unat count mod 8 = 0" using True by (simp_all add: word_unat_eq_iff unat_mod)
  have lt: "unat lba + unat count < 2 ^ 32" using True unat_lt [of "xs_block_count (xw_state w)"] by simp
  then have stop: "unat (lba + count) = unat lba + unat count" by (intro unat_add_small) simp
  have m2: "unat (lba + count) mod 8 = 0" using m by (simp add: stop mod_add_eq [symmetric])
  obtain u where u: "xspi_erase_loop hal (unat count) (lba + count) lba w = (Inr (), u)" "xspi_valid good u" "xw_state u = xw_state w"
      "mem (xw_hw u) = (mem (xw_hw w))(xs_instance (xw_state w) := overlay (mem (xw_hw w) (xs_instance (xw_state w)))
        (xspi_addr w (unat lba)) ((unat (lba + count) - unat lba) * 512) (\<lambda>k. 0xFF))"
    using xspi_erase_ok [OF v m(1) m2, of "unat count"] True by (auto simp: stop)
  have "internal_xspi_erase hal True lba count w = (Inr (), u)"
    using u(1) v True by (simp add: internal_xspi_erase_def bindE_def returnR_def xspi_bounds_nat xspi_valid_def Let_def)
  then have res: "r = Inr ()" "w' = u" using run by simp_all
  have "xspi_content mem u l = xspi_content mem w l" if "unat l < unat lba \<or> unat lba + unat count \<le> unat l" for l
  proof (rule xspi_content_overlay [OF u(4,3)])
    show "xspi_addr w (unat lba) + (unat (lba + count) - unat lba) * 512 \<le> xspi_addr w (unat l) \<or> unat l < unat lba"
      using that mult_le_mono1 [of "unat lba + unat count" "unat l" 512] by (auto simp: xspi_addr_def stop add_mult_distrib)
  qed
  then show ?thesis using res u(2) lt by simp
qed

lemma as_reliable_io:
  "reliable_io (xspi_device hal) (xspi_content mem) (xspi_valid good) (\<lambda>w. unat (xs_block_count (xw_state w)))"
proof unfold_locales
  fix w w' :: "'h xspi_world" and lba count l :: u32 and buf :: bytes and r e b'
  show "length (xspi_content mem w l) = 512" by (simp add: xspi_content_def)
  show "unat (xs_block_count (xw_state w)) < 2 ^ 32" using unat_lt [of "xs_block_count (xw_state w)"] by simp
  assume v: "xspi_valid good w"
  have rd: "(unat lba + unat count \<le> unat (xs_block_count (xw_state w)) \<longrightarrow> r = Inr () \<and>
        b' = Some (splice_at buf 0 (blocks_from (xspi_content mem w) lba (unat count)))) \<and> (isl r \<longrightarrow> b' = Some buf) \<and>
      (r = Inr () \<longrightarrow> unat lba + unat count \<le> unat (xs_block_count (xw_state w))) \<and>
      xspi_valid good w' \<and> xw_state w' = xw_state w \<and> xspi_content mem w' = xspi_content mem w"
    if len: "unat count * 512 \<le> length buf" and run: "ra8_io_blockdev_read (Some (xspi_device hal)) lba count (w, Some buf) = (r, (w', b'))" for count r b' w'
  proof (cases "unat lba + unat count \<le> unat (xs_block_count (xw_state w))")
    case True
    obtain h' where "internal_xspi_read hal True lba count (w, Some buf) =
        (Inr (), (w\<lparr>xw_hw := h'\<rparr>, Some (splice_at buf 0 (blocks_from (xspi_content mem w) lba (unat count)))))" "good h'" "mem h' = mem (xw_hw w)"
      using xspi_read_ok [OF v True len] by blast
    then show ?thesis using run v True by (auto simp: xspi_device_dispatch xspi_valid_def Let_def xspi_content_def xspi_addr_def fun_eq_iff)
  next
    case False
    then show ?thesis using run v by (auto simp: xspi_device_dispatch internal_xspi_read_def xspi_bounds_nat)
  qed
  show "unat count * 512 \<le> length buf \<Longrightarrow> ra8_io_blockdev_read (Some (xspi_device hal)) lba count (w, Some buf) = (r, (w', b')) \<Longrightarrow>
      xspi_valid good w' \<and> xspi_content mem w' = xspi_content mem w"
    using rd by blast
  show "unat count * 512 \<le> length buf \<Longrightarrow> ra8_io_blockdev_read (Some (xspi_device hal)) lba count (w, Some buf) = (Inr (), (w', b')) \<Longrightarrow>
      b' = Some (splice_at buf 0 (blocks_from (xspi_content mem w) lba (unat count)))"
    using rd by blast
  show "length buf = 512 \<Longrightarrow> ra8_io_blockdev_read (Some (xspi_device hal)) lba 1 (w, Some buf) = (Inl e, (w', b')) \<Longrightarrow> b' = Some buf"
    using rd [of 1 "Inl e" w' b'] by simp
  show "unat lba + unat count \<le> unat (xs_block_count (xw_state w)) \<Longrightarrow> unat count * 512 \<le> length buf \<Longrightarrow>
      \<exists>w' b'. ra8_io_blockdev_read (Some (xspi_device hal)) lba count (w, Some buf) = (Inr (), (w', b')) \<and>
        unat (xs_block_count (xw_state w')) = unat (xs_block_count (xw_state w))"
    using rd by (metis surj_pair)
  show "ra8_io_blockdev_erase (Some (xspi_device hal)) lba count w = (Inl e, w') \<Longrightarrow> xspi_valid good w' \<and> xspi_content mem w' = xspi_content mem w"
    using xspi_erase_run [OF v, of lba count "Inl e" w'] by (auto simp: xspi_device_dispatch)
  show "ra8_io_blockdev_erase (Some (xspi_device hal)) lba count w = (Inr (), w') \<Longrightarrow> xspi_valid good w' \<and> unat lba + unat count < 2 ^ 32 \<and>
      (\<forall>l. unat l < unat lba \<or> unat lba + unat count \<le> unat l \<longrightarrow> xspi_content mem w' l = xspi_content mem w l)"
    using xspi_erase_run [OF v] by (simp add: xspi_device_dispatch)
  assume len: "length buf = 512"
  have out: "internal_xspi_write hal True lba 1 (Some buf) w = (Inl k_ra8_err_out_of_range, w)" if "\<not> unat lba < unat (xs_block_count (xw_state w))"
    using that v by (simp add: internal_xspi_write_def bindE_def returnR_def xspi_bounds_nat xspi_valid_def Let_def)
  show "ra8_io_blockdev_write (Some (xspi_device hal)) lba 1 (Some buf) w = (Inr (), w') \<Longrightarrow>
      xspi_valid good w' \<and> xspi_content mem w' = (xspi_content mem w)(lba := buf)"
    using xspi_write_one [OF v len, of lba] out by (auto simp: xspi_device_dispatch)
  show "ra8_io_blockdev_write (Some (xspi_device hal)) lba 1 (Some buf) w = (Inl e, w') \<Longrightarrow> xspi_valid good w' \<and> xspi_content mem w' = xspi_content mem w"
    using xspi_write_one [OF v len, of lba] out v by (auto simp: xspi_device_dispatch)
  show "unat lba < unat (xs_block_count (xw_state w)) \<Longrightarrow>
      \<exists>w'. ra8_io_blockdev_write (Some (xspi_device hal)) lba 1 (Some buf) w = (Inr (), w') \<and>
        unat (xs_block_count (xw_state w')) = unat (xs_block_count (xw_state w))"
    using xspi_write_one [OF v len, of lba] by (auto simp: xspi_device_dispatch)
qed

end

end
