(* ===== verification/Xspi_Hal.thy ===== *)
theory Xspi_Hal
  imports Xspi_Blockdev
begin

text \<open>
  The flash driver below the NOR block device, \<^verbatim>\<open>src/libs/ra8_hal/src/internal/xspi_cmd.zig\<close>, \<^verbatim>\<open>xspi_read.zig\<close>, \<^verbatim>\<open>xspi_program.zig\<close> and
  the exports in \<^verbatim>\<open>xspi_read_abi.zig\<close> and \<^verbatim>\<open>xspi_program_abi.zig\<close>: it writes the four words of a command slot of the controller and starts the
  command. What the hardware does with a command is a parameter, \<open>bus_kick\<close>. The host build of the repository has a NOR flash at the
  level of the registers, \<^verbatim>\<open>src/tests/mocks/src/ra8_fake_xspi_flash.c\<close>; the driver on that flash keeps the contract of \<open>nor_flash\<close>.
\<close>

section \<open>The driver\<close>

text \<open>
  The words 0 to 3 of the command slot of an instance are CDT, CDA, CDD0 and CDD1. \<open>bus_kick\<close> sets the request bit and waits until the
  command has completed (\<^verbatim>\<open>kick\<close> and \<^verbatim>\<open>waitDone\<close>).
\<close>

record 'h xspi_bus =
  bus_read :: "u8 \<Rightarrow> nat \<Rightarrow> 'h \<Rightarrow> u32"
  bus_write :: "u8 \<Rightarrow> nat \<Rightarrow> u32 \<Rightarrow> 'h \<Rightarrow> 'h"
  bus_kick :: "u8 \<Rightarrow> ('h, unit) op"

abbreviation (input) op_page_program :: u8 where "op_page_program \<equiv> 0x02"
abbreviation (input) op_read :: u8 where "op_read \<equiv> 0x03"
abbreviation (input) op_read_status :: u8 where "op_read_status \<equiv> 0x05"
abbreviation (input) op_write_enable :: u8 where "op_write_enable \<equiv> 0x06"
abbreviation (input) op_erase_sector :: u8 where "op_erase_sector \<equiv> 0x20"
abbreviation (input) addr_space_3byte :: u32 where "addr_space_3byte \<equiv> 0x1000000"
abbreviation (input) max_chunk :: nat where "max_chunk \<equiv> 8"
abbreviation (input) max_xfer :: u32 where "max_xfer \<equiv> 4096"
abbreviation (input) page_len :: u32 where "page_len \<equiv> 256"
abbreviation (input) wip_polls :: nat where "wip_polls \<equiv> 32000"

definition makeCdt :: "u8 \<Rightarrow> u8 \<Rightarrow> u8 \<Rightarrow> u8 \<Rightarrow> u8 \<Rightarrow> u32" where
  "makeCdt opcode cmd_bytes addr_bytes data_bytes is_write =
     (let size = ucast (cmd_bytes AND 3) :: u32;
          cmd_word = (if size > 2 then 0 else push_bit (8 * (2 - unat size)) (ucast opcode) AND 0xFFFF) :: u32
      in size OR push_bit 2 (ucast (addr_bytes AND 7)) OR push_bit 5 (ucast (data_bytes AND 0xF)) OR
         push_bit 15 (ucast (is_write AND 1)) OR push_bit 16 cmd_word)"

definition chunkHeader :: "'h xspi_bus \<Rightarrow> u8 \<Rightarrow> u8 \<Rightarrow> u32 \<Rightarrow> u8 \<Rightarrow> u8 \<Rightarrow> ('h, unit) op" where
  "chunkHeader bus inst opcode addr n is_write =
     modifyE (\<lambda>h. bus_write bus inst 1 addr (bus_write bus inst 0 (makeCdt opcode 1 3 n is_write) h))"

definition xspi_issue :: "'h xspi_bus \<Rightarrow> u8 \<Rightarrow> u8 \<Rightarrow> u8 \<Rightarrow> ('h, unit) op" where
  "xspi_issue bus inst opcode resp_bytes =
     bindE (modifyE (\<lambda>h. bus_write bus inst 3 0 (bus_write bus inst 2 0 (bus_write bus inst 1 0
       (bus_write bus inst 0 (makeCdt opcode 1 0 resp_bytes 0) h))))) (\<lambda>_. bus_kick bus inst)"

definition readStatus :: "'h xspi_bus \<Rightarrow> u8 \<Rightarrow> ('h, u8) op" where
  "readStatus bus inst = bindE (xspi_issue bus inst op_read_status 1) (\<lambda>_. getE (\<lambda>h. ucast (bus_read bus inst 2 h)))"

definition rangeCheck :: "u32 \<Rightarrow> u32 \<Rightarrow> ra8_err + unit" where
  "rangeCheck addr len =
     (if addr \<ge> addr_space_3byte then Inl k_ra8_err_invalid_arg
      else if len > addr_space_3byte - addr then Inl k_ra8_err_invalid_arg
      else Inr ())"

text \<open>Byte \<open>k\<close> of the eight that CDD0 and CDD1 carry.\<close>

definition cdd_byte :: "nat \<Rightarrow> u32 \<times> u32 \<Rightarrow> u8" where
  "cdd_byte k w = ucast (drop_bit (k mod 4 * 8) (if k < 4 then fst w else snd w))"

definition readChunk :: "'h xspi_bus \<Rightarrow> u8 \<Rightarrow> u32 \<Rightarrow> nat \<Rightarrow> ('h, bytes) op" where
  "readChunk bus inst addr n =
     bindE (chunkHeader bus inst op_read addr (of_nat n) 0) (\<lambda>_.
     bindE (bus_kick bus inst) (\<lambda>_.
     getE (\<lambda>h. map (\<lambda>k. cdd_byte k (bus_read bus inst 2 h, bus_read bus inst 3 h)) [0..<n])))"

text \<open>The loop of a read of \<open>len\<close> bytes; the fragments are stored as they arrive.\<close>

function hal_read_loop :: "'h xspi_bus \<Rightarrow> u8 \<Rightarrow> u32 \<Rightarrow> nat \<Rightarrow> nat \<Rightarrow> ('h \<times> bytes, unit) op" where
  "hal_read_loop bus inst addr len off =
     (if off < len then (\<lambda>(h, buf).
        case readChunk bus inst (addr + of_nat off) (min (len - off) max_chunk) h of
          (Inl rc, h') \<Rightarrow> (Inl rc, (h', buf))
        | (Inr bs, h') \<Rightarrow> hal_read_loop bus inst addr len (off + min (len - off) max_chunk) (h', splice_at buf off bs))
      else returnE ())"
  by pat_completeness auto
termination
  by (relation "measure (\<lambda>(bus, inst, addr, len, off). len - off)") auto

definition hal_read :: "'h xspi_bus \<Rightarrow> u8 \<Rightarrow> u32 \<Rightarrow> u32 \<Rightarrow> ('h \<times> bytes, unit) op" where
  "hal_read bus inst addr len = bindE (returnR (rangeCheck addr len)) (\<lambda>_. hal_read_loop bus inst addr (unat len) 0)"

primrec wip_loop :: "'h xspi_bus \<Rightarrow> u8 \<Rightarrow> nat \<Rightarrow> ('h, unit) op" where
  "wip_loop bus inst 0 = throwE k_ra8_err_timeout"
| "wip_loop bus inst (Suc n) =
     bindE (readStatus bus inst) (\<lambda>status. if status AND 1 = 0 then returnE () else wip_loop bus inst n)"

definition pollWipClear :: "'h xspi_bus \<Rightarrow> u8 \<Rightarrow> ('h, unit) op" where
  "pollWipClear bus inst = wip_loop bus inst wip_polls"

definition put_byte :: "nat \<Rightarrow> u8 \<Rightarrow> u32 \<times> u32 \<Rightarrow> u32 \<times> u32" where
  "put_byte i b w =
     (if i div 4 = 0 then (fst w OR push_bit (i mod 4 * 8) (ucast b), snd w) else (fst w, snd w OR push_bit (i mod 4 * 8) (ucast b)))"

definition stagePayload :: "'h xspi_bus \<Rightarrow> u8 \<Rightarrow> bytes \<Rightarrow> ('h, unit) op" where
  "stagePayload bus inst bs =
     (let w = fold (\<lambda>i. put_byte i (bs ! i)) [0..<length bs] (0, 0) in
      modifyE (\<lambda>h. bus_write bus inst 3 (snd w) (bus_write bus inst 2 (fst w) h)))"

definition programChunk :: "'h xspi_bus \<Rightarrow> u8 \<Rightarrow> u32 \<Rightarrow> bytes \<Rightarrow> ('h, unit) op" where
  "programChunk bus inst addr bs =
     bindE (xspi_issue bus inst op_write_enable 0) (\<lambda>_.
     bindE (chunkHeader bus inst op_page_program addr (of_nat (length bs)) 1) (\<lambda>_.
     bindE (stagePayload bus inst bs) (\<lambda>_.
     bindE (bus_kick bus inst) (\<lambda>_. pollWipClear bus inst))))"

definition program_len :: "u32 \<Rightarrow> nat \<Rightarrow> nat \<Rightarrow> nat" where
  "program_len a len off = min (min (len - off) max_chunk) (unat (page_len - (a AND (page_len - 1))))"

lemma program_len_pos:
  assumes "off < len"
  shows "0 < program_len a len off" "program_len a len off \<le> len - off" "program_len a len off \<le> 8"
proof -
  have "a AND 255 \<le> (255 :: u32)" by (rule word_and_le1)
  then have "unat (256 - (a AND 255)) = 256 - unat (a AND 255)" "unat (a AND 255) \<le> 255"
    by (simp_all add: unat_sub word_le_nat_alt)
  then show "0 < program_len a len off" using assms by (simp add: program_len_def)
qed (auto simp: program_len_def)

function hal_program_loop :: "'h xspi_bus \<Rightarrow> u8 \<Rightarrow> u32 \<Rightarrow> bytes \<Rightarrow> nat \<Rightarrow> ('h, unit) op" where
  "hal_program_loop bus inst addr data off =
     (if off < length data then
        let a = addr + of_nat off; n = program_len a (length data) off in
        bindE (programChunk bus inst a (take n (drop off data))) (\<lambda>_. hal_program_loop bus inst addr data (off + n))
      else returnE ())"
  by pat_completeness auto
termination
  by (relation "measure (\<lambda>(bus, inst, addr, data, off). length data - off)") (auto intro: diff_less_mono2 simp: program_len_pos)

definition hal_program :: "'h xspi_bus \<Rightarrow> u8 \<Rightarrow> u32 \<Rightarrow> bytes \<Rightarrow> ('h, unit) op" where
  "hal_program bus inst addr data =
     bindE (returnR (rangeCheck addr (of_nat (length data)))) (\<lambda>_. hal_program_loop bus inst addr data 0)"

definition hal_eraseSector :: "'h xspi_bus \<Rightarrow> u8 \<Rightarrow> u32 \<Rightarrow> ('h, unit) op" where
  "hal_eraseSector bus inst addr =
     bindE (returnR (rangeCheck addr 0)) (\<lambda>_.
     bindE (xspi_issue bus inst op_write_enable 0) (\<lambda>_.
     bindE (chunkHeader bus inst op_erase_sector addr 0 1) (\<lambda>_.
     bindE (bus_kick bus inst) (\<lambda>_. pollWipClear bus inst))))"

text \<open>The exported functions; a null instance base is an instance that does not exist.\<close>

definition ra8_xspi_flash_read_abi :: "'h xspi_bus \<Rightarrow> u8 \<Rightarrow> u32 \<Rightarrow> u32 \<Rightarrow> ('h \<times> bytes option, unit) op" where
  "ra8_xspi_flash_read_abi bus inst addr len = (\<lambda>(h, buf).
     case buf of None \<Rightarrow> (Inl k_ra8_err_null_ptr, (h, buf))
     | Some out \<Rightarrow>
         if len = 0 \<or> len > max_xfer then (Inl k_ra8_err_invalid_arg, (h, buf))
         else if inst \<ge> k_ra8_xspi_instance_count then (Inl k_ra8_err_null_ptr, (h, buf))
         else (case hal_read bus inst addr len (h, out) of (r, (h', b)) \<Rightarrow> (r, (h', Some b))))"

definition ra8_xspi_flash_program_abi :: "'h xspi_bus \<Rightarrow> u8 \<Rightarrow> u32 \<Rightarrow> bytes option \<Rightarrow> u32 \<Rightarrow> ('h, unit) op" where
  "ra8_xspi_flash_program_abi bus inst addr data len =
     (case data of None \<Rightarrow> throwE k_ra8_err_null_ptr
      | Some src \<Rightarrow>
          if len = 0 \<or> len > max_xfer then throwE k_ra8_err_invalid_arg
          else if inst \<ge> k_ra8_xspi_instance_count then throwE k_ra8_err_null_ptr
          else hal_program bus inst addr (take (unat len) src))"

definition ra8_xspi_flash_erase_sector_abi :: "'h xspi_bus \<Rightarrow> u8 \<Rightarrow> u32 \<Rightarrow> ('h, unit) op" where
  "ra8_xspi_flash_erase_sector_abi bus inst addr =
     (if inst \<ge> k_ra8_xspi_instance_count then throwE k_ra8_err_null_ptr else hal_eraseSector bus inst addr)"

text \<open>The driver as the block device calls it, never with a null buffer.\<close>

definition xspi_driver :: "'h xspi_bus \<Rightarrow> 'h xspi_hal" where
  "xspi_driver bus = \<lparr>
     ra8_xspi_flash_read = (\<lambda>inst addr len (h, buf). case ra8_xspi_flash_read_abi bus inst addr len (h, Some buf) of
       (r, (h', b)) \<Rightarrow> (r, (h', case b of None \<Rightarrow> buf | Some x \<Rightarrow> x))),
     ra8_xspi_flash_program = (\<lambda>inst addr data. ra8_xspi_flash_program_abi bus inst addr (Some data)),
     ra8_xspi_flash_erase_sector = ra8_xspi_flash_erase_sector_abi bus\<rparr>"

section \<open>The flash of the host build\<close>

text \<open>
  The flash holds the complement of its bytes, so that a zeroed array is an erased flash. The high-water mark that only speeds up
  clearing the array is left out, and so are the bits of the registers that start a command and report its end.
\<close>

record fake_xspi =
  fx_cdbuf :: "u8 \<Rightarrow> nat \<Rightarrow> u32"
  s_fake_xspi_flash_neg :: "u8 \<Rightarrow> nat \<Rightarrow> u8"
  s_fake_xspi_busy_cfg :: "u8 \<Rightarrow> u32"
  s_fake_xspi_busy_left :: "u8 \<Rightarrow> u32"

abbreviation (input) k_ra8_fake_xspi_flash_bytes :: u32 where "k_ra8_fake_xspi_flash_bytes \<equiv> 0x1000000"
abbreviation (input) k_ra8_fake_xspi_flash_status_idle :: u32 where "k_ra8_fake_xspi_flash_status_idle \<equiv> 2"
abbreviation (input) k_fake_xspi_status_wip :: u32 where "k_fake_xspi_status_wip \<equiv> 1"
abbreviation (input) k_fake_xspi_erased :: u8 where "k_fake_xspi_erased \<equiv> 0xFF"
abbreviation (input) k_fake_xspi_jedec_cdd0 :: u32 where "k_fake_xspi_jedec_cdd0 \<equiv> 0x1A5A9D"

definition fx_set :: "u8 \<Rightarrow> nat \<Rightarrow> u32 \<Rightarrow> fake_xspi \<Rightarrow> fake_xspi" where
  "fx_set inst k v h = h\<lparr>fx_cdbuf := (fx_cdbuf h)(inst := (fx_cdbuf h inst)(k := v))\<rparr>"

definition internal_fake_xspi_opcode :: "u32 \<Rightarrow> u8" where
  "internal_fake_xspi_opcode cdt =
     (let cmdsize = cdt AND 3; cmdfield = drop_bit 16 cdt AND 0xFFFF; shift = 8 * (2 - cmdsize)
      in ucast (drop_bit (unat shift) cmdfield AND 0xFF))"

definition internal_fake_xspi_read :: "u8 \<Rightarrow> u32 \<Rightarrow> u32 \<Rightarrow> fake_xspi \<Rightarrow> fake_xspi" where
  "internal_fake_xspi_read inst addr n h =
     (let byte = (\<lambda>i. if addr + of_nat i < k_ra8_fake_xspi_flash_bytes
            then NOT (s_fake_xspi_flash_neg h inst (unat (addr + of_nat i))) else k_fake_xspi_erased);
          d = fold (\<lambda>i. put_byte i (byte i)) [0..<unat n] (0, 0)
      in fx_set inst 3 (snd d) (fx_set inst 2 (fst d) h))"

definition fx_busy :: "u8 \<Rightarrow> fake_xspi \<Rightarrow> fake_xspi" where
  "fx_busy inst h = h\<lparr>s_fake_xspi_busy_left := (s_fake_xspi_busy_left h)(inst := s_fake_xspi_busy_cfg h inst)\<rparr>"

definition fx_program_byte :: "u8 \<Rightarrow> u32 \<Rightarrow> u32 \<times> u32 \<Rightarrow> nat \<Rightarrow> fake_xspi \<Rightarrow> fake_xspi" where
  "fx_program_byte inst addr d i h =
     (if addr + of_nat i \<ge> k_ra8_fake_xspi_flash_bytes then h
      else let a = unat (addr + of_nat i); neg = s_fake_xspi_flash_neg h inst in
        h\<lparr>s_fake_xspi_flash_neg := (s_fake_xspi_flash_neg h)(inst := neg(a := neg a OR NOT (cdd_byte i d)))\<rparr>)"

definition internal_fake_xspi_program :: "u8 \<Rightarrow> u32 \<Rightarrow> u32 \<Rightarrow> fake_xspi \<Rightarrow> fake_xspi" where
  "internal_fake_xspi_program inst addr n h =
     fx_busy inst (fold (fx_program_byte inst addr (fx_cdbuf h inst 2, fx_cdbuf h inst 3)) [0..<unat n] h)"

definition internal_fake_xspi_erase :: "u8 \<Rightarrow> u32 \<Rightarrow> fake_xspi \<Rightarrow> fake_xspi" where
  "internal_fake_xspi_erase inst addr h =
     (let base = addr AND NOT (k_xspi_sector_bytes - 1) in
      fx_busy inst (if base < k_ra8_fake_xspi_flash_bytes
        then h\<lparr>s_fake_xspi_flash_neg := (s_fake_xspi_flash_neg h)(inst :=
          (\<lambda>p. if unat base \<le> p \<and> p < unat base + 4096 then 0 else s_fake_xspi_flash_neg h inst p))\<rparr>
        else h))"

definition internal_fake_xspi_status :: "u8 \<Rightarrow> fake_xspi \<Rightarrow> fake_xspi" where
  "internal_fake_xspi_status inst h =
     (if s_fake_xspi_busy_left h inst > 0 then
        fx_set inst 2 (k_ra8_fake_xspi_flash_status_idle OR k_fake_xspi_status_wip)
          (h\<lparr>s_fake_xspi_busy_left := (s_fake_xspi_busy_left h)(inst := s_fake_xspi_busy_left h inst - 1)\<rparr>)
      else fx_set inst 2 k_ra8_fake_xspi_flash_status_idle h)"

definition internal_fake_xspi_exec :: "u8 \<Rightarrow> fake_xspi \<Rightarrow> fake_xspi" where
  "internal_fake_xspi_exec inst h =
     (let cdt = fx_cdbuf h inst 0; addr = fx_cdbuf h inst 1; n = drop_bit 5 cdt AND 0xF; opcode = internal_fake_xspi_opcode cdt in
      if opcode = 0x9F then fx_set inst 2 k_fake_xspi_jedec_cdd0 h
      else if opcode = 0x05 then internal_fake_xspi_status inst h
      else if opcode = 0x03 then internal_fake_xspi_read inst addr n h
      else if opcode = 0x02 then internal_fake_xspi_program inst addr n h
      else if opcode = 0x20 then internal_fake_xspi_erase inst addr h
      else h)"

definition fake_bus :: "fake_xspi xspi_bus" where
  "fake_bus = \<lparr>bus_read = (\<lambda>inst k h. fx_cdbuf h inst k), bus_write = fx_set,
     bus_kick = (\<lambda>inst. modifyE (internal_fake_xspi_exec inst))\<rparr>"

section \<open>Packing\<close>

lemma cdd_put_same_word:
  assumes "i < 4" and "k < 4"
  shows "(ucast (drop_bit (k * 8) (d OR push_bit (i * 8) (ucast (b :: u8) :: u32))) :: u8) = ucast (drop_bit (k * 8) d) OR (if k = i then b else 0)"
proof (rule bit_word_eqI)
  fix j
  assume "j < LENGTH(8)"
  then have j: "j < 8" by simp
  have "k * 8 + j < 32" using assms(2) j by simp
  moreover have "i * 8 \<le> k * 8 + j \<and> bit b (k * 8 + j - i * 8) \<longleftrightarrow> k = i \<and> bit b j"
  proof (cases "k = i")
    case False
    then consider "k < i" | "i < k" by linarith
    then show ?thesis
    proof cases
      case 1
      then show ?thesis using j by simp
    next
      case 2
      then have "8 \<le> k * 8 + j - i * 8" by simp
      then show ?thesis using False by (auto dest: bit_imp_le_length)
    qed
  qed simp
  ultimately show "bit (ucast (drop_bit (k * 8) (d OR push_bit (i * 8) (ucast b :: u32))) :: u8) j = bit (ucast (drop_bit (k * 8) d) OR (if k = i then b else 0)) j"
    using j by (auto simp: bit_simps)
qed

lemma cdd_put:
  assumes "i < 8" and "k < 8"
  shows "cdd_byte k (put_byte i b w) = cdd_byte k w OR (if k = i then b else 0)"
proof -
  have lt: "i mod 4 < 4" "k mod 4 < 4" by simp_all
  have m: "x mod 4 = (if x < 4 then x else x - 4)" if "x < 8" for x :: nat using that by (simp add: mod_if)
  have eq: "k = i \<longleftrightarrow> (k < 4) = (i < 4) \<and> k mod 4 = i mod 4" using m [OF assms(1)] m [OF assms(2)] by auto
  define P where "P = (push_bit (i mod 4 * 8) (ucast b) :: u32)"
  have p: "put_byte i b w = (if i < 4 then (fst w OR P, snd w) else (fst w, snd w OR P))"
    by (simp add: put_byte_def P_def div_eq_0_iff)
  have same: "(ucast (drop_bit (k mod 4 * 8) (d OR P)) :: u8) = ucast (drop_bit (k mod 4 * 8) d) OR (if k mod 4 = i mod 4 then b else 0)" for d
    unfolding P_def by (rule cdd_put_same_word [OF lt])
  show ?thesis
  proof (cases "(k < 4) = (i < 4)")
    case True
    then show ?thesis unfolding cdd_byte_def p eq by (cases "i < 4") (simp_all only: same fst_conv snd_conv if_True if_False simp_thms)
  next
    case False
    then show ?thesis unfolding cdd_byte_def p eq by (cases "i < 4") (simp_all only: fst_conv snd_conv if_True if_False simp_thms or.right_neutral)
  qed
qed

lemma cdd_fold:
  assumes "n \<le> 8" and "k < 8"
  shows "cdd_byte k (fold (\<lambda>i. put_byte i (f i)) [0..<n] (0, 0)) = (if k < n then f k else 0)"
  using assms(1)
proof (induction n)
  case 0
  show ?case by (simp add: cdd_byte_def)
next
  case (Suc n)
  then show ?case using assms(2) by (simp add: cdd_put less_Suc_eq)
qed

lemma eight_cases: "n \<le> 8 \<Longrightarrow> n \<in> {0, 1, 2, 3, 4, 5, 6, 7, 8 :: nat}"
  by auto

lemma cdt_decode:
  "internal_fake_xspi_opcode (makeCdt 6 1 0 0 0) = 6" "internal_fake_xspi_opcode (makeCdt 5 1 0 1 0) = 5"
  "internal_fake_xspi_opcode (makeCdt 0x20 1 3 0 1) = 0x20"
  by (simp_all add: makeCdt_def internal_fake_xspi_opcode_def)

lemma cdt_decode_read:
  assumes "n \<le> 8"
  shows "internal_fake_xspi_opcode (makeCdt 3 1 3 (of_nat n) 0) = 3" "unat (drop_bit 5 (makeCdt 3 1 3 (of_nat n) 0) AND 0xF :: u32) = n"
  using eight_cases [OF assms] by (auto simp: makeCdt_def internal_fake_xspi_opcode_def)

lemma cdt_decode_program:
  assumes "n \<le> 8"
  shows "internal_fake_xspi_opcode (makeCdt 2 1 3 (of_nat n) 1) = 2" "unat (drop_bit 5 (makeCdt 2 1 3 (of_nat n) 1) AND 0xF :: u32) = n"
  using eight_cases [OF assms] by (auto simp: makeCdt_def internal_fake_xspi_opcode_def)

section \<open>The driver on that flash\<close>

definition fx_mem :: "fake_xspi \<Rightarrow> u8 \<Rightarrow> nat \<Rightarrow> u8" where
  "fx_mem h i p = NOT (s_fake_xspi_flash_neg h i p)"

definition fx_good :: "fake_xspi \<Rightarrow> bool" where
  "fx_good h \<longleftrightarrow> (\<forall>i. unat (s_fake_xspi_busy_cfg h i) < wip_polls)"

text \<open>Only the words of the command slots differ.\<close>

definition fx_same :: "fake_xspi \<Rightarrow> fake_xspi \<Rightarrow> bool" where
  "fx_same h h' \<longleftrightarrow> s_fake_xspi_flash_neg h' = s_fake_xspi_flash_neg h \<and> s_fake_xspi_busy_cfg h' = s_fake_xspi_busy_cfg h \<and>
     s_fake_xspi_busy_left h' = s_fake_xspi_busy_left h"

lemma fx_same_refl [simp]: "fx_same h h"
  by (simp add: fx_same_def)

lemma fx_same_set [simp]: "fx_same h (fx_set i k v g) = fx_same h g"
  by (simp add: fx_same_def fx_set_def)

lemma fx_set_at [simp]: "fx_cdbuf (fx_set i k v h) i j = (if j = k then v else fx_cdbuf h i j)"
  by (simp add: fx_set_def)

lemma fake_bus_simps [simp]:
  "bus_read fake_bus i k h = fx_cdbuf h i k" "bus_write fake_bus = fx_set" "bus_kick fake_bus i = modifyE (internal_fake_xspi_exec i)"
  by (simp_all add: fake_bus_def)

lemma issue_wren: "\<exists>h'. xspi_issue fake_bus i op_write_enable 0 h = (Inr (), h') \<and> fx_same h h'"
  by (simp add: xspi_issue_def bindE_def internal_fake_xspi_exec_def Let_def cdt_decode)

lemma read_status:
  "\<exists>h'. readStatus fake_bus i h = (Inr (if s_fake_xspi_busy_left h i > 0 then 3 else 2), h') \<and>
    s_fake_xspi_flash_neg h' = s_fake_xspi_flash_neg h \<and> s_fake_xspi_busy_cfg h' = s_fake_xspi_busy_cfg h \<and>
    unat (s_fake_xspi_busy_left h' i) = unat (s_fake_xspi_busy_left h i) - 1"
proof -
  have dec: "unat (x - 1) = unat x - 1" if "x > 0" for x :: u32 using that by (simp add: unat_sub word_le_nat_alt unat_gt_0 Suc_leI)
  show ?thesis
  proof (cases "s_fake_xspi_busy_left h i > 0")
    case True
    then show ?thesis
      by (simp add: readStatus_def xspi_issue_def bindE_def internal_fake_xspi_exec_def internal_fake_xspi_status_def Let_def cdt_decode dec)
        (simp add: fx_set_def dec)
  next
    case False
    then have "s_fake_xspi_busy_left h i = 0" by (simp add: word_less_nat_alt word_unat_eq_iff)
    then show ?thesis
      by (simp add: readStatus_def xspi_issue_def bindE_def internal_fake_xspi_exec_def internal_fake_xspi_status_def Let_def cdt_decode)
        (simp add: fx_set_def)
  qed
qed

lemma wip_loop_ok:
  assumes "unat (s_fake_xspi_busy_left h i) < n"
  shows "\<exists>h'. wip_loop fake_bus i n h = (Inr (), h') \<and> s_fake_xspi_flash_neg h' = s_fake_xspi_flash_neg h \<and>
    s_fake_xspi_busy_cfg h' = s_fake_xspi_busy_cfg h"
  using assms
proof (induction n arbitrary: h)
  case (Suc n)
  obtain h1 where st: "readStatus fake_bus i h = (Inr (if s_fake_xspi_busy_left h i > 0 then 3 else 2), h1)"
      "s_fake_xspi_flash_neg h1 = s_fake_xspi_flash_neg h" "s_fake_xspi_busy_cfg h1 = s_fake_xspi_busy_cfg h"
      "unat (s_fake_xspi_busy_left h1 i) = unat (s_fake_xspi_busy_left h i) - 1"
    using read_status by blast
  show ?case
  proof (cases "s_fake_xspi_busy_left h i > 0")
    case True
    then have "0 < unat (s_fake_xspi_busy_left h i)" by (simp add: word_less_nat_alt)
    then have "unat (s_fake_xspi_busy_left h1 i) < n" using st(4) Suc.prems by linarith
    then show ?thesis using Suc.IH [of h1] st True by (simp add: bindE_def)
  next
    case False
    then show ?thesis using st by (simp add: bindE_def)
  qed
qed simp

lemma readChunk_ok:
  assumes "n \<le> 8" and "unat addr + n \<le> 2 ^ 24"
  shows "\<exists>h'. readChunk fake_bus i addr n h = (Inr (map (fx_mem h i) [unat addr..<unat addr + n]), h') \<and> fx_same h h'"
proof -
  note op = cdt_decode_read [OF assms(1)]
  have a: "unat (addr + of_nat k) = unat addr + k" "addr + of_nat k < 0x1000000" if "k < n" for k
  proof -
    show "unat (addr + of_nat k) = unat addr + k"
      using that assms(2) by (subst unat_add_small) (simp_all add: unat_of_nat_small)
    then show "addr + of_nat k < 0x1000000" using that assms(2) by (simp add: word_less_nat_alt)
  qed
  define g where "g = fx_set i (Suc 0) addr (fx_set i 0 (makeCdt 3 1 3 (of_nat n) 0) h)"
  define byte where "byte = (\<lambda>k. if addr + of_nat k < 0x1000000 then NOT (s_fake_xspi_flash_neg g i (unat (addr + of_nat k))) else 0xFF)"
  have cd: "fx_cdbuf g i 0 = makeCdt 3 1 3 (of_nat n) 0" "fx_cdbuf g i 1 = addr" by (simp_all add: g_def)
  have gn: "s_fake_xspi_flash_neg g = s_fake_xspi_flash_neg h" by (simp add: g_def fx_set_def)
  define d where "d = fold (\<lambda>k. put_byte k (byte k)) [0..<n] (0, 0)"
  have ex: "internal_fake_xspi_exec i g = fx_set i 3 (snd d) (fx_set i 2 (fst d) g)"
    unfolding internal_fake_xspi_exec_def internal_fake_xspi_read_def Let_def cd by (simp add: op d_def byte_def)
  have "cdd_byte k d = fx_mem h i (unat addr + k)" if "k < n" for k
    using that a [OF that] cdd_fold [OF assms(1), of k byte] assms(1) by (simp add: d_def byte_def fx_mem_def gn)
  then have "map (\<lambda>k. cdd_byte k d) [0..<n] = map (fx_mem h i) [unat addr..<unat addr + n]"
    by (intro nth_equalityI) simp_all
  moreover have "fx_same h g" by (simp add: g_def)
  ultimately show ?thesis by (simp add: readChunk_def chunkHeader_def bindE_def g_def [symmetric] ex)
qed

lemmas [simp del] = hal_read_loop.simps hal_program_loop.simps

lemma small_add: "unat (addr + of_nat k :: u32) = unat addr + k" if "unat addr + k \<le> 2 ^ 24"
  using that by (subst unat_add_small) (simp_all add: unat_of_nat_small)

lemma hal_read_loop_ok:
  assumes "unat addr + len \<le> 2 ^ 24" and "off \<le> len" and "len \<le> length buf"
  shows "\<exists>h'. hal_read_loop fake_bus i addr len off (h, buf) =
      (Inr (), (h', splice_at buf off (map (fx_mem h i) [unat addr + off..<unat addr + len]))) \<and> fx_same h h'"
  using assms
proof (induction "len - off" arbitrary: off h buf rule: less_induct)
  case less
  show ?case
  proof (cases "off < len")
    case False
    then have "len = off" using less.prems(2) by simp
    then show ?thesis by (subst hal_read_loop.simps) (simp add: splice_at_def)
  next
    case True
    define n where "n = min (len - off) 8"
    have n: "0 < n" "off + n \<le> len" "n \<le> 8" using True by (auto simp: n_def)
    have a: "unat (addr + of_nat off) = unat addr + off" using less.prems(1,2) by (intro small_add) simp
    define xs where "xs = map (fx_mem h i) [unat addr + off..<unat addr + off + n]"
    obtain h1 where rd: "readChunk fake_bus i (addr + of_nat off) n h = (Inr xs, h1)" "fx_same h h1"
      using readChunk_ok [OF n(3), of "addr + of_nat off" i h] n(2) less.prems(1) by (auto simp: a xs_def)
    have mem1: "fx_mem h1 = fx_mem h" using rd(2) by (simp add: fx_same_def fx_mem_def fun_eq_iff)
    have lx: "length xs = n" by (simp add: xs_def)
    have lb: "len \<le> length (splice_at buf off xs)" using n(2) less.prems(3) lx by simp
    have dec: "len - (off + n) < len - off" using n by linarith
    obtain h' where rest: "hal_read_loop fake_bus i addr len (off + n) (h1, splice_at buf off xs) =
        (Inr (), (h', splice_at (splice_at buf off xs) (off + n) (map (fx_mem h i) [unat addr + (off + n)..<unat addr + len])))" "fx_same h1 h'"
      using less.hyps [OF dec less.prems(1) n(2) lb, of h1] by (auto simp: mem1)
    have "splice_at (splice_at buf off xs) (off + n) (map (fx_mem h i) [unat addr + (off + n)..<unat addr + len]) =
        splice_at buf off (xs @ map (fx_mem h i) [unat addr + (off + n)..<unat addr + len])"
      using splice_at_join [of off xs] n(2) less.prems(3) lx by simp
    also have "xs @ map (fx_mem h i) [unat addr + (off + n)..<unat addr + len] = map (fx_mem h i) [unat addr + off..<unat addr + len]"
      using n(2) upt_add_eq_append [of "unat addr + off" "unat addr + off + n" "len - (off + n)"] by (simp add: xs_def add.assoc)
    finally have "hal_read_loop fake_bus i addr len (off + n) (h1, splice_at buf off xs) =
        (Inr (), (h', splice_at buf off (map (fx_mem h i) [unat addr + off..<unat addr + len])))" using rest(1) by simp
    moreover have "hal_read_loop fake_bus i addr len off (h, buf) = hal_read_loop fake_bus i addr len (off + n) (h1, splice_at buf off xs)"
      using True rd(1) by (subst hal_read_loop.simps) (simp add: n_def [symmetric])
    ultimately show ?thesis using rd(2) rest(2) by (simp add: fx_same_def)
  qed
qed

lemma fx_program_fold:
  assumes "unat addr + n \<le> 2 ^ 24"
  shows "fx_mem (fold (fx_program_byte i addr d) [0..<n] h) =
      (fx_mem h)(i := \<lambda>p. if unat addr \<le> p \<and> p < unat addr + n then fx_mem h i p AND cdd_byte (p - unat addr) d else fx_mem h i p) \<and>
    s_fake_xspi_busy_cfg (fold (fx_program_byte i addr d) [0..<n] h) = s_fake_xspi_busy_cfg h"
  using assms
proof (induction n)
  case 0
  show ?case by (auto simp: fun_eq_iff)
next
  case (Suc n)
  have a: "unat (addr + of_nat n) = unat addr + n" using Suc.prems by (intro small_add) simp
  then have lt: "\<not> 0x1000000 \<le> addr + of_nat n" using Suc.prems by (simp add: word_le_nat_alt)
  define k where "k = fold (fx_program_byte i addr d) [0..<n] h"
  have k: "fx_mem (fx_program_byte i addr d n k) = (fx_mem k)(i := (fx_mem k i)(unat addr + n := fx_mem k i (unat addr + n) AND cdd_byte n d))"
      "s_fake_xspi_busy_cfg (fx_program_byte i addr d n k) = s_fake_xspi_busy_cfg k"
    using lt by (simp_all add: fx_program_byte_def Let_def a fx_mem_def fun_eq_iff)
  show ?case using Suc k by (auto simp: k_def [symmetric] fun_eq_iff less_Suc_eq)
qed

lemma fx_mem_set [simp]: "fx_mem (fx_set i k v h) = fx_mem h"
  by (simp add: fx_mem_def fx_set_def fun_eq_iff)

lemma fx_mem_busy [simp]: "fx_mem (fx_busy i h) = fx_mem h" "s_fake_xspi_busy_cfg (fx_busy i h) = s_fake_xspi_busy_cfg h"
    "s_fake_xspi_busy_left (fx_busy i h) i = s_fake_xspi_busy_cfg h i"
  by (simp_all add: fx_mem_def fx_busy_def fun_eq_iff)

text \<open>The end of a command that makes the flash busy.\<close>

lemma poll_after_busy:
  assumes "fx_good g"
  shows "\<exists>h'. pollWipClear fake_bus i (fx_busy i g) = (Inr (), h') \<and> fx_good h' \<and> fx_mem h' = fx_mem g"
proof -
  have "unat (s_fake_xspi_busy_left (fx_busy i g) i) < wip_polls" using assms by (simp add: fx_good_def)
  from wip_loop_ok [OF this] show ?thesis
    using assms by (auto simp: pollWipClear_def fx_good_def fx_mem_def fun_eq_iff fx_busy_def)
qed

lemma programChunk_ok:
  assumes g: "fx_good h" and b: "length bs \<le> 8" "unat addr + length bs \<le> 2 ^ 24"
  shows "\<exists>h'. programChunk fake_bus i addr bs h = (Inr (), h') \<and> fx_good h' \<and>
    fx_mem h' = (fx_mem h)(i := \<lambda>p. if unat addr \<le> p \<and> p < unat addr + length bs then fx_mem h i p AND bs ! (p - unat addr) else fx_mem h i p)"
proof -
  obtain h1 where w: "xspi_issue fake_bus i 6 0 h = (Inr (), h1)" "fx_same h h1" using issue_wren by blast
  have h1: "fx_good h1" "fx_mem h1 = fx_mem h" using w(2) g by (simp_all add: fx_same_def fx_good_def fx_mem_def fun_eq_iff)
  define d where "d = fold (\<lambda>k. put_byte k (bs ! k)) [0..<length bs] (0, 0)"
  define h2 where "h2 = fx_set i 3 (snd d) (fx_set i 2 (fst d) (fx_set i (Suc 0) addr (fx_set i 0 (makeCdt 2 1 3 (of_nat (length bs)) 1) h1)))"
  have cd: "fx_cdbuf h2 i 0 = makeCdt 2 1 3 (of_nat (length bs)) 1" "fx_cdbuf h2 i 1 = addr" "fx_cdbuf h2 i 2 = fst d" "fx_cdbuf h2 i 3 = snd d"
    by (simp_all add: h2_def)
  have h2: "fx_good h2" "fx_mem h2 = fx_mem h" using h1 by (simp_all add: h2_def fx_good_def) (simp add: fx_set_def)
  define h3 where "h3 = fold (fx_program_byte i addr d) [0..<length bs] h2"
  have ex: "internal_fake_xspi_exec i h2 = fx_busy i h3"
    unfolding internal_fake_xspi_exec_def internal_fake_xspi_program_def Let_def cd
    by (simp add: cdt_decode_program [OF b(1)] h3_def)
  note h3 = fx_program_fold [OF b(2), of i d h2, folded h3_def, THEN conjunct1] fx_program_fold [OF b(2), of i d h2, folded h3_def, THEN conjunct2]
  have "cdd_byte k d = bs ! k" if "k < length bs" for k
    using cdd_fold [OF b(1), of k "\<lambda>k. bs ! k"] that b(1) by (simp add: d_def)
  then have m3: "fx_mem h3 = (fx_mem h)(i := \<lambda>p. if unat addr \<le> p \<and> p < unat addr + length bs then fx_mem h i p AND bs ! (p - unat addr) else fx_mem h i p)"
    by (auto simp: h3(1) h2(2) fun_eq_iff)
  have "fx_good h3" using h2(1) by (simp add: fx_good_def h3(2))
  then obtain h' where "pollWipClear fake_bus i (fx_busy i h3) = (Inr (), h')" "fx_good h'" "fx_mem h' = fx_mem h3"
    using poll_after_busy by blast
  then show ?thesis
    using w(1) m3 by (simp add: programChunk_def chunkHeader_def stagePayload_def Let_def bindE_def d_def [symmetric] h2_def [symmetric] ex)
qed

lemma hal_program_loop_ok:
  assumes "fx_good h" and "unat addr + length data \<le> 2 ^ 24" and "off \<le> length data"
  shows "\<exists>h'. hal_program_loop fake_bus i addr data off h = (Inr (), h') \<and> fx_good h' \<and>
    fx_mem h' = (fx_mem h)(i := \<lambda>p. if unat addr + off \<le> p \<and> p < unat addr + length data then fx_mem h i p AND data ! (p - unat addr) else fx_mem h i p)"
  using assms
proof (induction "length data - off" arbitrary: off h rule: less_induct)
  case less
  show ?case
  proof (cases "off < length data")
    case False
    then show ?thesis using less.prems by (subst hal_program_loop.simps) (auto simp: fun_eq_iff)
  next
    case True
    define a where "a = addr + of_nat off"
    define n where "n = program_len a (length data) off"
    note n = program_len_pos [OF True, of a, folded n_def]
    have a: "unat a = unat addr + off" unfolding a_def using less.prems(2,3) by (intro small_add) simp
    define bs where "bs = take n (drop off data)"
    have bs: "length bs = n" "\<And>k. k < n \<Longrightarrow> bs ! k = data ! (off + k)" using n(2) True by (simp_all add: bs_def)
    have fits: "length bs \<le> 8" "unat a + length bs \<le> 2 ^ 24" using n less.prems(2) True by (simp_all add: bs(1) a)
    obtain h1 where pr: "programChunk fake_bus i a bs h = (Inr (), h1)" "fx_good h1"
        "fx_mem h1 = (fx_mem h)(i := \<lambda>p. if unat a \<le> p \<and> p < unat a + length bs then fx_mem h i p AND bs ! (p - unat a) else fx_mem h i p)"
      using programChunk_ok [OF less.prems(1) fits] by blast
    have dec: "length data - (off + n) < length data - off" and le: "off + n \<le> length data" using n True by linarith+
    obtain h' where rest: "hal_program_loop fake_bus i addr data (off + n) h1 = (Inr (), h')" "fx_good h'"
        "fx_mem h' = (fx_mem h1)(i := \<lambda>p. if unat addr + (off + n) \<le> p \<and> p < unat addr + length data then fx_mem h1 i p AND data ! (p - unat addr) else fx_mem h1 i p)"
      using less.hyps [OF dec pr(2) less.prems(2) le] by blast
    have d: "bs ! (p - (unat addr + off)) = data ! (p - unat addr)" if "unat addr + off \<le> p" "p < unat addr + off + n" for p
      using that bs(2) [of "p - (unat addr + off)"] by simp
    have "fx_mem h' = (fx_mem h)(i := \<lambda>p. if unat addr + off \<le> p \<and> p < unat addr + length data then fx_mem h i p AND data ! (p - unat addr) else fx_mem h i p)"
      using le d by (auto simp: rest(3) pr(3) a bs(1) fun_eq_iff)
    moreover have "hal_program_loop fake_bus i addr data off h = (Inr (), h')"
      using True pr(1) rest(1)
      by (subst hal_program_loop.simps) (simp add: Let_def a_def [symmetric] n_def [symmetric] bs_def [symmetric] bindE_def)
    ultimately show ?thesis using rest(2) by blast
  qed
qed

lemma sector_base: "unat ((addr :: u32) AND NOT 0xFFF) = unat addr div 4096 * 4096"
proof -
  have m: "(0xFFF :: u32) = mask 12" by (simp add: mask_eq_exp_minus_1)
  have "addr AND NOT 0xFFF = push_bit 12 (drop_bit 12 addr)"
    unfolding m by (rule bit_word_eqI) (auto simp: bit_simps)
  moreover have "unat (push_bit 12 (drop_bit 12 addr)) = unat addr div 4096 * 4096"
  proof -
    have "unat addr div 4096 * 4096 < 2 ^ 32"
      by (rule le_less_trans [OF div_times_less_eq_dividend]) (use unat_lt [of addr] in simp)
    then show ?thesis by (simp add: push_bit_eq_mult unat_word_ariths unat_drop_bit_eq drop_bit_eq_div)
  qed
  ultimately show ?thesis by simp
qed

lemma hal_erase_ok:
  assumes g: "fx_good h" and a: "unat addr < 2 ^ 24"
  shows "\<exists>h'. hal_eraseSector fake_bus i addr h = (Inr (), h') \<and> fx_good h' \<and>
    fx_mem h' = (fx_mem h)(i := \<lambda>p. if p div 4096 = unat addr div 4096 then 0xFF else fx_mem h i p)"
proof -
  obtain h1 where w: "xspi_issue fake_bus i 6 0 h = (Inr (), h1)" "fx_same h h1" using issue_wren by blast
  have h1: "fx_good h1" "fx_mem h1 = fx_mem h" using w(2) g by (simp_all add: fx_same_def fx_good_def fx_mem_def fun_eq_iff)
  define h2 where "h2 = fx_set i (Suc 0) addr (fx_set i 0 (makeCdt 0x20 1 3 0 1) h1)"
  have cd: "fx_cdbuf h2 i 0 = makeCdt 0x20 1 3 0 1" "fx_cdbuf h2 i 1 = addr" by (simp_all add: h2_def)
  have h2: "fx_good h2" "fx_mem h2 = fx_mem h" using h1 by (simp_all add: h2_def fx_good_def) (simp add: fx_set_def)
  define base where "base = unat addr div 4096 * 4096"
  define h3 where "h3 = h2\<lparr>s_fake_xspi_flash_neg := (s_fake_xspi_flash_neg h2)(i :=
      (\<lambda>p. if base \<le> p \<and> p < base + 4096 then 0 else s_fake_xspi_flash_neg h2 i p))\<rparr>"
  have lt: "base < 2 ^ 24" using a div_times_less_eq_dividend [of "unat addr" 4096] by (simp add: base_def)
  have b: "unat (addr AND NOT (4096 - 1)) = base" using sector_base [of addr] by (simp add: base_def)
  have "addr AND NOT (4096 - 1) < 0x1000000" unfolding word_less_nat_alt b using lt by simp
  then have "internal_fake_xspi_erase i addr h2 = fx_busy i h3"
    unfolding internal_fake_xspi_erase_def Let_def b h3_def by (simp only: if_True)
  then have ex: "internal_fake_xspi_exec i h2 = fx_busy i h3"
    unfolding internal_fake_xspi_exec_def Let_def cd by (simp add: cdt_decode)
  have sec: "base \<le> p \<and> p < base + 4096 \<longleftrightarrow> p div 4096 = unat addr div 4096" for p
    using same_sector [of base p] by (simp add: base_def)
  have "fx_mem h3 = (fx_mem h)(i := \<lambda>p. if p div 4096 = unat addr div 4096 then 0xFF else fx_mem h i p)"
    unfolding h2(2) [symmetric] by (auto simp: h3_def fx_mem_def sec fun_eq_iff)
  moreover have "fx_good h3" using h2(1) by (simp add: fx_good_def h3_def)
  then obtain h' where "pollWipClear fake_bus i (fx_busy i h3) = (Inr (), h')" "fx_good h'" "fx_mem h' = fx_mem h3"
    using poll_after_busy by blast
  moreover have "rangeCheck addr 0 = Inr ()" using a by (simp add: rangeCheck_def word_le_nat_alt)
  ultimately show ?thesis
    using w(1) by (simp add: hal_eraseSector_def chunkHeader_def bindE_def returnR_def h2_def [symmetric] ex)
qed

lemma xspi_driver_calls:
  "0 < n \<Longrightarrow> n \<le> 4096 \<Longrightarrow> i < 2 \<Longrightarrow> ra8_xspi_flash_read (xspi_driver bus) i a n = hal_read bus i a n"
  "0 < n \<Longrightarrow> n \<le> 4096 \<Longrightarrow> i < 2 \<Longrightarrow> ra8_xspi_flash_program (xspi_driver bus) i a data n = hal_program bus i a (take (unat n) data)"
  "i < 2 \<Longrightarrow> ra8_xspi_flash_erase_sector (xspi_driver bus) i a = hal_eraseSector bus i a"
  by (auto simp: xspi_driver_def ra8_xspi_flash_read_abi_def ra8_xspi_flash_program_abi_def ra8_xspi_flash_erase_sector_abi_def fun_eq_iff
      split: prod.splits)

lemma rangeCheck_ok: "unat addr + unat len \<le> 2 ^ 24 \<Longrightarrow> 0 < unat len \<Longrightarrow> rangeCheck addr len = Inr ()"
  by (auto simp: rangeCheck_def word_le_nat_alt word_less_nat_alt unat_sub_if_size)

interpretation fake_flash: nor_flash "xspi_driver fake_bus" fx_mem fx_good
proof unfold_locales
  fix h :: fake_xspi and i :: u8 and n a :: u32 and buf data :: bytes
  assume g: "fx_good h" and i: "i < 2"
  show "\<exists>h'. ra8_xspi_flash_erase_sector (xspi_driver fake_bus) i a h = (Inr (), h') \<and> fx_good h' \<and>
      fx_mem h' = (fx_mem h)(i := \<lambda>p. if p div 4096 = unat a div 4096 then 0xFF else fx_mem h i p)" if "unat a < 2 ^ 24"
    using hal_erase_ok [OF g that] i by (simp only: xspi_driver_calls)
  assume n: "0 < n" "n \<le> 4096" "unat a + unat n \<le> 2 ^ 24"
  then have rc: "rangeCheck a n = Inr ()" by (intro rangeCheck_ok) (simp_all add: word_less_nat_alt)
  show "\<exists>h'. ra8_xspi_flash_read (xspi_driver fake_bus) i a n (h, buf) =
      (Inr (), (h', splice_at buf 0 (map (fx_mem h i) [unat a..<unat a + unat n]))) \<and> fx_good h' \<and> fx_mem h' = fx_mem h" if len: "unat n \<le> length buf"
  proof -
    obtain h' where "hal_read_loop fake_bus i a (unat n) 0 (h, buf) = (Inr (), (h', splice_at buf 0 (map (fx_mem h i) [unat a..<unat a + unat n])))" "fx_same h h'"
      using hal_read_loop_ok [OF n(3) _ len, of 0 i h] by auto
    then show ?thesis
      using g by (simp add: xspi_driver_calls(1) [OF n(1,2) i] hal_read_def bindE_def returnR_def rc fx_same_def fx_good_def fx_mem_def fun_eq_iff)
  qed
  show "\<exists>h'. ra8_xspi_flash_program (xspi_driver fake_bus) i a data n h = (Inr (), h') \<and> fx_good h' \<and>
      fx_mem h' = (fx_mem h)(i := \<lambda>p. if unat a \<le> p \<and> p < unat a + unat n then fx_mem h i p AND data ! (p - unat a) else fx_mem h i p)"
    if len: "unat n \<le> length data"
  proof -
    have l: "length (take (unat n) data) = unat n" using len by simp
    obtain h' where h': "hal_program_loop fake_bus i a (take (unat n) data) 0 h = (Inr (), h')" "fx_good h'"
        "fx_mem h' = (fx_mem h)(i := \<lambda>p. if unat a + 0 \<le> p \<and> p < unat a + unat n then fx_mem h i p AND take (unat n) data ! (p - unat a) else fx_mem h i p)"
      using hal_program_loop_ok [OF g, of a "take (unat n) data" 0 i, unfolded l] n(3) by blast
    have "fx_mem h' = (fx_mem h)(i := \<lambda>p. if unat a \<le> p \<and> p < unat a + unat n then fx_mem h i p AND data ! (p - unat a) else fx_mem h i p)"
      by (auto simp: h'(3) fun_eq_iff)
    then show ?thesis using h'(1,2) l
      by (simp add: xspi_driver_calls(2) [OF n(1,2) i] hal_program_def bindE_def returnR_def rc)
  qed
qed

interpretation fake_io: reliable_io "xspi_device (xspi_driver fake_bus)" "xspi_content fx_mem" "xspi_valid fx_good" "\<lambda>w. unat (xs_block_count (xw_state w))"
  by (rule fake_flash.as_reliable_io)

section \<open>The NOR device\<close>

text \<open>
  C40. NOR flash as a block device: on a window that \<open>ra8_io_blockdev_xspi_init\<close> accepts for writing and that lies inside the address range of
  the flash driver, the device is, as backend of the file system, a reliable device. Reading a sector, overlaying the block, erasing and
  programming replaces exactly the block that is written and keeps the other blocks of its sector.
\<close>

theorem xspi_device_reliable:
  assumes "nor_flash hal mem good" and "ra8_io_blockdev_xspi_init hal bd state inst base_off block_count False = Inr (dev, st)"
    and "unat base_off + unat block_count * 512 \<le> 2 ^ 24"
  shows "reliable_device (fs_backend_of dev) (wide (xspi_content mem)) 512 (xspi_valid good) (\<lambda>w. unat (xs_block_count (xw_state w))) \<and>
    (\<forall>h sector. good h \<longrightarrow> length sector = 4096 \<longrightarrow> xspi_valid good \<lparr>xw_state = st, s_sector = sector, xw_hw = h\<rparr>)"
proof -
  have d: "dev = xspi_device hal" and geo: "internal_xspi_check_geom inst base_off block_count = Inr ()"
    and st: "st = \<lparr>xs_instance = inst, xs_base_off = base_off, xs_block_count = block_count, xs_read_only = False\<rparr>"
    using assms(2) by (auto simp: ra8_io_blockdev_xspi_init_def split: if_splits sum.splits)
  have "inst < 2" "unat base_off mod 4096 = 0" "unat block_count mod 8 = 0"
    using geo by (auto simp: internal_xspi_check_geom_def word_unat_eq_iff unat_mod not_le split: if_splits)
  then show ?thesis
    using reliable_io.as_reliable_device [OF nor_flash.as_reliable_io [OF assms(1)]] assms(3)
    by (simp add: d st xspi_valid_def)
qed

theorem xspi_device_reliable_witness:
  "reliable_device (fs_backend_of (xspi_device (xspi_driver fake_bus))) (wide (xspi_content fx_mem)) 512 (xspi_valid fx_good)
     (\<lambda>w. unat (xs_block_count (xw_state w))) \<and>
   xspi_valid fx_good \<lparr>xw_state = \<lparr>xs_instance = 1, xs_base_off = 0x2000, xs_block_count = 64, xs_read_only = False\<rparr>, s_sector = replicate 4096 0,
     xw_hw = \<lparr>fx_cdbuf = \<lambda>_ _. 0, s_fake_xspi_flash_neg = \<lambda>_ _. 0, s_fake_xspi_busy_cfg = \<lambda>_. 2, s_fake_xspi_busy_left = \<lambda>_. 0\<rparr>\<rparr>"
proof -
  have init: "ra8_io_blockdev_xspi_init (xspi_driver fake_bus) True True 1 0x2000 64 False =
      Inr (xspi_device (xspi_driver fake_bus), \<lparr>xs_instance = 1, xs_base_off = 0x2000, xs_block_count = 64, xs_read_only = False\<rparr>)"
    by (simp add: ra8_io_blockdev_xspi_init_def internal_xspi_check_geom_def word_le_nat_alt)
  have "fx_good \<lparr>fx_cdbuf = \<lambda>_ _. 0, s_fake_xspi_flash_neg = \<lambda>_ _. 0, s_fake_xspi_busy_cfg = \<lambda>_. 2, s_fake_xspi_busy_left = \<lambda>_. 0\<rparr>"
    by (simp add: fx_good_def)
  then show ?thesis using xspi_device_reliable [OF fake_flash.nor_flash_axioms init] by simp
qed

end
