(* ===== verification/Spec2Isabelle.thy ===== *)
theory Spec2Isabelle
  imports Table_Props Dir_Props Fmt_Props File_Shrink Exfat_Bitmap Exfat_Set Free_Count Call_Ends Blockdev_Cache Vsource Xspi_Hal
begin

text \<open>
  A verification library for the FAT and exFAT file-system driver of the repository,
  \<^verbatim>\<open>src/libs/ra8_fs\<close>. File names below are relative to \<^verbatim>\<open>src/libs/ra8_fs/src\<close> unless they say otherwise.

  \<^bold>\<open>The program.\<close> The driver keeps FAT12, FAT16, FAT32 and exFAT volumes on a block device the caller supplies
  as a table of functions (\<open>ra8_fs_backend_t\<close>). Its state is module-static: a table of mounts, a table of open
  files, an allocator slot for each mount (next-free hint, free-cluster count, place of the FSInfo sector), one FAT
  sector cache that all mounts share, the installed clock and the installed lock. A public function takes the
  lock, runs a \<^verbatim>\<open>..._locked\<close> body and releases it. The body is layered: path resolution and the file object,
  directories and names, cluster chains, FAT entries, the sector cache, the device.

  \<^bold>\<open>How it is modelled.\<close> Every fallible C or Zig function is an operation \<open>('s, 'a) op\<close>, a function from a state to
  a result (\<open>Inl\<close> an error of \<open>ra8_err_t\<close>, or \<open>Inr\<close> a value) together with the state it leaves; the state is kept on
  the error path, so what a failing call has done is part of the model. The state of the driver is the record \<open>fs\<close>;
  its type parameter is the state of the outside world, which only the functions of the backend, the clock, the
  lock and a caller's callback change. They are parameters of the model. Machine integers are words of the
  width the source has. A result for which the C standard defines none is the error \<open>undefined_behaviour\<close>.

  \<^bold>\<open>The model, theory by theory.\<close>

  \<^item> \<open>Fs_Prelude\<close>: error codes (\<^verbatim>\<open>src/libs/ra8_core/inc/ra8_err.h\<close>), the monad, shared lemmas on lists and words.
  \<^item> \<open>Fs_Types\<close>: the structures of \<^verbatim>\<open>../inc/ra8_fs_types.h\<close> and \<^verbatim>\<open>ra8_fs_fat_types_internal.h\<close>, the state record, the lock.
  \<^item> \<open>Fat_Bytes\<close>, \<open>Fat_Table\<close>: \<^verbatim>\<open>ra8_fs_fat.c\<close>, the field codec and sector I/O, the FAT entries and the allocator.
  \<^item> \<open>Io_Blockdev\<close>, \<open>Block_Device\<close>, \<open>Blockdev_Cache\<close>, \<open>Vsource\<close>, \<open>Xspi_Blockdev\<close>: the block devices of \<^verbatim>\<open>src/libs/ra8_io/src\<close>, that is, the fabric and its
    adapter to the driver (\<^verbatim>\<open>ra8_io_blockdev_abi.zig\<close>), the RAM device (\<^verbatim>\<open>..._ram_abi.zig\<close>), the sector cache (\<^verbatim>\<open>..._cache_abi.zig\<close>),
    the reads at byte offsets for the page cache (\<^verbatim>\<open>..._vsource.c\<close>) and NOR flash (\<^verbatim>\<open>..._xspi.c\<close>).
  \<^item> \<open>Xspi_Hal\<close>: the driver of that flash, \<^verbatim>\<open>src/libs/ra8_hal/src/internal/xspi_*.zig\<close>, down to the words of a command, and the
    flash of the host build, \<^verbatim>\<open>src/tests/mocks/src/ra8_fake_xspi_flash.c\<close>, that takes the commands.
  \<^item> \<open>Fat_Alloc\<close>: \<^verbatim>\<open>ra8_fs_fat_alloc.c\<close>. \<open>Fat_Chain\<close>: \<^verbatim>\<open>ra8_fs_free_chain_abi.zig\<close> and the chain walks.
  \<^item> \<open>Fat_Time\<close>, \<open>Utf\<close>, \<open>Upcase\<close>, \<open>Fat_Name\<close>, \<open>Fat_Lfn\<close>: time stamps, character codecs, caseless comparison, 8.3 names
    and long-name slots (\<^verbatim>\<open>ra8_fs_fat_time.c\<close>, \<^verbatim>\<open>ra8_fs_utf_abi.zig\<close>, \<^verbatim>\<open>ra8_fs_upcase_abi.zig\<close>, \<^verbatim>\<open>ra8_fs_fat_name.c\<close>,
    \<^verbatim>\<open>ra8_fs_lfn_abi.zig\<close>).
  \<^item> \<open>Fat_Dir_Walk\<close>, \<open>Fat_Handles\<close>, \<open>Fat_Dir_Write\<close>: the directory walk, the lookups (\<^verbatim>\<open>ra8_fs_fat_lfn.c\<close>), insertion and
    erasure (\<^verbatim>\<open>ra8_fs_fat_lfn_write.c\<close>), the handle tables.
  \<^item> \<open>Exfat_Cursor\<close>, \<open>Exfat_Dir\<close>, \<open>Exfat_File\<close>, \<open>Exfat_Mutate\<close>: the exFAT half, \<^verbatim>\<open>ra8_fs_fat_exfat_read.c\<close>, \<^verbatim>\<open>..._dir.c\<close>,
    \<^verbatim>\<open>..._write.c\<close>, \<^verbatim>\<open>..._stream.c\<close>, \<^verbatim>\<open>..._mutate.c\<close>, \<^verbatim>\<open>ra8_fs_exfat_openw_abi.zig\<close>.
  \<^item> \<open>Fat_Mount\<close>: \<^verbatim>\<open>ra8_fs_fat_mount.c\<close>, \<^verbatim>\<open>ra8_fs_gpt_abi.zig\<close>, volume recognition. \<open>Fat_File\<close>, \<open>Fat_File_Io\<close>, \<open>Fat_Truncate\<close>:
    \<^verbatim>\<open>ra8_fs_fat_file.c\<close>, \<^verbatim>\<open>ra8_fs_fat_fileio.c\<close>, \<^verbatim>\<open>ra8_fs_fat_truncate.c\<close>. \<open>Fat_Dir\<close>, \<open>Fat_Dirmk\<close>, \<open>Fat_Label\<close>, \<open>Fat_Meta\<close>: listing,
    deleting, renaming, stat, directories, labels, attributes, times, free space.
  \<^item> \<open>Fat_Check\<close>, \<open>Exfat_Check\<close>: the consistency check. \<open>Fat_Fmt\<close>, \<open>Exfat_Fmt\<close>: the formatter.

  All public functions of \<^verbatim>\<open>../inc/ra8_fs.h\<close> and \<^verbatim>\<open>../inc/ra8_fs_meta.h\<close> are definitions of these theories.

  \<^bold>\<open>The proofs.\<close> They rest on interfaces stated as locales, each interpreted on the model.

  \<^item> \<open>block_device\<close>, \<open>atomic_device\<close>, \<open>reliable_device\<close> (\<open>Block_Device\<close>) say what the driver may expect of a backend. The
    interpretation \<open>ram\<close> is the RAM device. \<open>Fat_Access\<close> and \<open>Fat_Cluster\<close> show over them that the sector routines with
    their cache implement a flat table of FAT entries, FAT12 entries across two sectors included, and that
    the allocator finds the first free cluster in cyclic order; \<open>Table_Props\<close> has the properties.
  \<^item> \<open>io_device\<close>, \<open>reliable_io\<close> (\<open>Io_Blockdev\<close>) say what the fabric promises of a device. Such a device is a \<open>reliable_device\<close> for the
    driver (\<open>as_reliable_device\<close>), and so is the same device under the sector cache (\<open>cached_reliable\<close>), whose invariant is that every valid slot
    holds the block of the device. The interpretations \<open>ram_io\<close> and \<open>cached_ram\<close> are the RAM device and the cache over it.
  \<^item> \<open>nor_flash\<close> (\<open>Xspi_Blockdev\<close>) is the contract of a flash driver: programming clears bits, an erase sets those of a sector. On such a
    driver the NOR device is a \<open>reliable_io\<close> (\<open>as_reliable_io\<close>). The interpretation \<open>fake_flash\<close> is the driver of the repository on the flash of the
    host build: the encoding of commands and the packing of bytes into words agree on the two sides, and the wait for the end of an operation is long enough.
  \<^item> \<open>Dir_Spec\<close> to \<open>Dir_Props\<close>: a directory is the list of its slots; lookups, the search for space, creation and erasure
    are what they should be on that list. Creation is proved for directories that have room; of the growth of a directory it is proved that it ends.
  \<^item> \<open>File_Read\<close>, \<open>File_Extent\<close>, \<open>File_Write\<close>, \<open>File_Shrink\<close>: a FAT file is the concatenation of the sectors of its chain; a read
    returns a slice of it, a write overwrites and extends it and changes nothing else on the medium, a shrink keeps a prefix
    and frees the rest. \<open>Free_Count\<close>: a scan for the free count is exact, and allocation and release
    keep an exact count exact; a count taken from an FSInfo sector is checked for its range only, as in the source.
  \<^item> \<open>bitmap_writer\<close> (\<open>Exfat_Bitmap\<close>) is the contract of the two loops that write the allocation bitmap, interpreted as
    \<open>mark\<close> and \<open>clear\<close>. \<open>Exfat_Set\<close> reads the entry set of a new file back.
  \<^item> \<open>Fmt_Props\<close>: the geometry the formatter chooses fits the device, and a mount reads back the geometry that was
    written, both for a geometry with at least one cluster; and the devices on which the sizing loops leave the FAT too short.
  \<^item> \<open>driver_frame\<close>, \<open>content_frame\<close>, \<open>handle_frame\<close>, \<open>open_frame\<close>, \<open>recognition_frame\<close> (\<open>Fs_Frame\<close>, \<open>File_Frame\<close>, \<open>Mount_Frame\<close>) say which
    properties of the driver state the primitives keep; every operation keeps such a property, proved once. Their
    interpretations give \<open>Fs_Machine\<close>: the driver as a step relation over all public calls and all changes of the
    outside world, the invariant of its reachable states, and what a call leaves alone.
  \<^item> \<open>Loop_Ends\<close>, \<open>Exfat_Ends\<close>, \<open>Volume_Ends\<close>, \<open>File_Ends\<close>, \<open>Call_Ends\<close>: no loop of the driver runs on. \<open>ends f\<close> says that \<open>f\<close>
    never returns \<open>out_of_fuel\<close>; the rules for it follow the structure of the operations, and the loops that are not counted have a
    measure each. \<open>public_calls_end\<close> is the result for all public calls but the check, on any contents of the medium.
  \<^item> \<open>Ram_Volume\<close> is a concrete FAT12 volume on the RAM device, on which the properties are instantiated.

  \<^bold>\<open>Loops and fuel.\<close> Counted C loops are structural recursion. The other loops carry a fuel argument, and running out of it
  is the error \<open>out_of_fuel\<close>, which no C function returns.

  \<^item> \<open>read_loop\<close>, \<open>write_loop\<close>, \<open>exfat_write_loop\<close> and \<open>zero_span_loop\<close> get one unit for each byte to move, \<open>close_gap_loop\<close> one for each
    byte of the gap; a round moves at least one byte. \<open>ensure_clusters_loop\<close> gets one for each cluster that is wanted; a round adds one.
  \<^item> \<open>dir_scan\<close> and the loops like it get \<open>dir_fuel\<close>, the number of sectors the C guard admits: the walk counts the links it follows
    and gives up after as many as there are clusters (\<open>ends_dir_scan\<close>).
  \<^item> \<open>free_chain_loop\<close> has the guard of the source. Each link is cleared before the walk goes on, so on a cycle the walk meets a
    free entry and ends with success unless the cycle holds every data cluster (\<open>free_chain_cycle_ends\<close>), although the header lists an error.
  \<^item> The scans of an exFAT directory get one more than \<open>k_exfat_scan_limit\<close>, the bound the source counts against; each round
    reads an entry.
  \<^item> \<open>public_calls_end\<close> shows that all of these are enough. It asks for a count of clusters below \<open>0xFFFFFFFF\<close>: with that value the
    counter of the walk, a 32-bit number, can never exceed it.
  \<^item> The chunk loops of the flash and its driver are functions with a termination proof; \<open>xspi_erase_loop\<close> gets one unit for each block and passes
    eight in a round (\<open>xspi_erase_ok\<close>).
  \<^item> The tree walk of the exFAT check takes its fuel as an argument: on a volume with a directory cycle the C loop does not
    end, so no bound would be enough. The check is the one public call that \<open>public_calls_end\<close> leaves out.

  \<^bold>\<open>Assumptions.\<close> The contract of the flash is that of a part that works: its calls do not fail inside the address range. The functions of the backend are assumed to behave as the locales say only in the properties that
  name them. \<open>Fs_Machine\<close> assumes nothing of the backend, \<open>Call_Ends\<close> only that its functions return. Calls do not overlap, which is what the lock is for;
  a lock that does not exclude is outside the model.

  \<^bold>\<open>Undefined behaviour and null pointers.\<close> Where the C code has no defined result the model returns \<open>undefined_behaviour\<close>: for example a shift by 32 or
  more in \<open>internal_exfat_parse\<close>, a mark or clear of no clusters in \<open>priv_exfat_bitmap_mark\<close> and \<open>priv_exfat_bitmap_clear\<close>, an overflow of Zig arithmetic.
  Buffers and results are values in the model, so the null checks on them are left out, as are the calls with a null handle in \<open>fs_step\<close>, which change nothing.

  \<^bold>\<open>Not modelled.\<close> The messages that go to the log. The hooks of the driver that exist for its tests. The hardware abstraction layer and
  the drivers but for that of the NOR flash, which are accesses to registers whose behaviour is the hardware's and which the file system reaches
  only through a backend. The applications, the examples and the vendored decoders, which are clients of the
  libraries. For exFAT, the file contents after a write are modelled but not characterised by a theorem;
  what is proved of exFAT is the allocation bitmap, the entry set, the stamps and the frame of every call.
\<close>

end
